(* ===== verification/Prelude.thy ===== *)
theory Prelude
  imports Main
    "HOL-Library.AList"
    "HOL-Library.Word"
    "HOL-Library.Char_ord"
    "HOL-Library.List_Lexorder"
    "HOL-Library.Multiset"
begin

text \<open>
  Shared vocabulary of the development.

  \<^item> JavaScript values: bytes are \<open>8 word\<close>; a \<open>Uint8Array\<close> is a list of bytes; lengths
    are \<open>nat\<close>; timestamps, counters and other integral numbers are \<open>int\<close> or \<open>nat\<close>.
  \<^item> A JavaScript \<open>Map\<close> iterates in insertion order, \<open>set\<close> on an existing key keeps its
    position and \<open>delete\<close> removes the entry: exactly the association lists of
    \<open>HOL-Library.AList\<close>. The names \<open>js_get\<close>, \<open>js_set\<close>, \<open>js_delete\<close>, \<open>js_has\<close> and
    \<open>js_size\<close> follow the methods of \<open>Map\<close>.
  \<^item> A call that may throw returns \<open>'e + 'a\<close>, \<open>Inl\<close> carrying the thrown error.
  \<^item> \<open>DataView\<close> reads and writes of big-endian unsigned integers.
  \<^item> The string methods the sources use: \<open>startsWith\<close>, \<open>split\<close>, \<open>join\<close>, \<open>trim\<close>.
  \<^item> Runs of a deterministic machine over a list of events, with the contracts (locales)
    that several components share.
\<close>

named_theorems js_simps \<open>defining equations of the JavaScript primitives\<close>
named_theorems inv_intros \<open>preservation of component invariants\<close>

section \<open>Thrown errors\<close>

type_synonym ('e, 'a) result = "'e + 'a"

fun rbind :: "('e, 'a) result \<Rightarrow> ('a \<Rightarrow> ('e, 'b) result) \<Rightarrow> ('e, 'b) result" where
  "rbind (Inl e) f = Inl e"
| "rbind (Inr a) f = f a"

lemma rbind_Inr_iff: "rbind r f = Inr b \<longleftrightarrow> (\<exists>a. r = Inr a \<and> f a = Inr b)"
  by (cases r) auto

lemma rbind_Inl_iff:
  "rbind r f = Inl e \<longleftrightarrow> r = Inl e \<or> (\<exists>a. r = Inr a \<and> f a = Inl e)"
  by (cases r) auto

section \<open>Insertion-ordered maps\<close>

type_synonym ('k, 'v) jsmap = "('k \<times> 'v) list"

definition js_get :: "('k, 'v) jsmap \<Rightarrow> 'k \<Rightarrow> 'v option" where
  "js_get m k = map_of m k"

definition js_has :: "('k, 'v) jsmap \<Rightarrow> 'k \<Rightarrow> bool" where
  "js_has m k = (map_of m k \<noteq> None)"

definition js_set :: "('k, 'v) jsmap \<Rightarrow> 'k \<Rightarrow> 'v \<Rightarrow> ('k, 'v) jsmap" where
  "js_set m k v = AList.update k v m"

definition js_delete :: "('k, 'v) jsmap \<Rightarrow> 'k \<Rightarrow> ('k, 'v) jsmap" where
  "js_delete m k = AList.delete k m"

definition js_size :: "('k, 'v) jsmap \<Rightarrow> nat" where
  "js_size m = length m"

definition js_keys :: "('k, 'v) jsmap \<Rightarrow> 'k list" where
  "js_keys m = map fst m"

definition js_filter :: "('k \<Rightarrow> 'v \<Rightarrow> bool) \<Rightarrow> ('k, 'v) jsmap \<Rightarrow> ('k, 'v) jsmap" where
  "js_filter P m = filter (\<lambda>(k, v). P k v) m"

definition js_wf :: "('k, 'v) jsmap \<Rightarrow> bool" where
  "js_wf m = distinct (map fst m)"

lemma js_get_empty [simp]: "js_get [] k = None"
  by (simp add: js_get_def)

lemma js_wf_empty [simp]: "js_wf []"
  by (simp add: js_wf_def)

lemma js_get_set: "js_get (js_set m k v) k' = (if k' = k then Some v else js_get m k')"
  by (simp add: js_get_def js_set_def update_conv')

lemma js_get_delete: "js_get (js_delete m k) k' = (if k' = k then None else js_get m k')"
  by (simp add: js_get_def js_delete_def delete_conv')

lemma js_get_set_same [simp]: "js_get (js_set m k v) k = Some v"
  by (simp add: js_get_set)

lemma js_get_set_other [simp]: "k' \<noteq> k \<Longrightarrow> js_get (js_set m k v) k' = js_get m k'"
  by (simp add: js_get_set)

lemma js_get_delete_same [simp]: "js_get (js_delete m k) k = None"
  by (simp add: js_get_delete)

lemma js_get_delete_other [simp]: "k' \<noteq> k \<Longrightarrow> js_get (js_delete m k) k' = js_get m k'"
  by (simp add: js_get_delete)

lemma js_has_get: "js_has m k \<longleftrightarrow> js_get m k \<noteq> None"
  by (simp add: js_has_def js_get_def)

lemma js_has_iff: "js_has m k \<longleftrightarrow> k \<in> set (js_keys m)"
  by (auto simp: js_has_def js_keys_def map_of_eq_None_iff)

lemma js_wf_set [simp, inv_intros]: "js_wf m \<Longrightarrow> js_wf (js_set m k v)"
  by (simp add: js_wf_def js_set_def distinct_update)

lemma js_wf_delete [simp, inv_intros]: "js_wf m \<Longrightarrow> js_wf (js_delete m k)"
  by (simp add: js_wf_def js_delete_def distinct_delete)

lemma js_wf_filter [simp, inv_intros]: "js_wf m \<Longrightarrow> js_wf (js_filter P m)"
  by (simp add: js_wf_def js_filter_def distinct_map_filter)

lemma js_get_filter:
  "js_wf m \<Longrightarrow> js_get (js_filter P m) k =
     (case js_get m k of None \<Rightarrow> None | Some v \<Rightarrow> if P k v then Some v else None)"
proof (induction m)
  case Nil
  then show ?case by (simp add: js_get_def js_filter_def)
next
  case (Cons p m)
  obtain a b where p: "p = (a, b)" by (cases p)
  from Cons.prems p have wf: "js_wf m" and fresh: "a \<notin> fst ` set m"
    by (auto simp: js_wf_def)
  have none: "js_get m a = None" using fresh by (simp add: js_get_def map_of_eq_None_iff)
  show ?case
    using Cons.IH [OF wf] none p by (auto simp: js_get_def js_filter_def split: option.splits)
qed

lemma js_get_Some_in: "js_get m k = Some v \<Longrightarrow> (k, v) \<in> set m"
  by (simp add: js_get_def map_of_SomeD)

lemma js_get_in: "js_wf m \<Longrightarrow> (k, v) \<in> set m \<Longrightarrow> js_get m k = Some v"
  by (simp add: js_get_def js_wf_def)

lemma js_size_set:
  "js_size (js_set m k v) = (if js_has m k then js_size m else Suc (js_size m))"
  by (induction m) (auto simp: js_size_def js_set_def js_has_def)

lemma js_size_delete_le: "js_size (js_delete m k) \<le> js_size m"
  by (simp add: js_size_def js_delete_def length_delete_le)

lemma js_size_delete:
  "js_wf m \<Longrightarrow> js_has m k \<Longrightarrow> Suc (js_size (js_delete m k)) = js_size m"
proof (induction m)
  case Nil
  then show ?case by (simp add: js_has_def)
next
  case (Cons p m)
  show ?case
  proof (cases "fst p = k")
    case True
    with Cons.prems(1) have "k \<notin> fst ` set m"
      by (auto simp: js_wf_def)
    with True show ?thesis by (cases p) (simp add: js_size_def js_delete_def)
  next
    case False
    with Cons.prems have "js_wf m" "js_has m k"
      by (auto simp: js_wf_def js_has_def split: if_splits)
    with Cons.IH False show ?thesis
      by (cases p) (auto simp: js_size_def js_delete_def)
  qed
qed

lemma js_set_in_cases: "(k', v') \<in> set (js_set m k v) \<Longrightarrow> (k', v') = (k, v) \<or> (k', v') \<in> set m"
  by (induction m) (auto simp: js_set_def split: if_splits)

lemma js_delete_in: "(k', v') \<in> set (js_delete m k) \<longleftrightarrow> (k', v') \<in> set m \<and> k' \<noteq> k"
  by (induction m) (auto simp: js_delete_def)

lemma js_filter_in: "(k, v) \<in> set (js_filter P m) \<longleftrightarrow> (k, v) \<in> set m \<and> P k v"
  by (auto simp: js_filter_def)

lemma js_keys_set:
  "js_keys (js_set m k v) = (if js_has m k then js_keys m else js_keys m @ [k])"
  by (induction m) (auto simp: js_keys_def js_set_def js_has_def)

lemmas js_map_laws = js_get_set js_get_delete js_get_filter js_has_get

section \<open>Bytes and big-endian integers\<close>

type_synonym byte = "8 word"
type_synonym bytes = "byte list"

text \<open>
  \<open>DataView.getUint16/getUint32\<close> and \<open>setUint16/setUint32\<close> with \<open>littleEndian = false\<close>.
  A written number is reduced modulo \<open>2\<^sup>1\<^sup>6\<close> or \<open>2\<^sup>3\<^sup>2\<close>, as \<open>ToUint16\<close> and \<open>ToUint32\<close> do.
  The callers check the length of the buffer first, so offsets are in range.
\<close>

definition getUint16 :: "bytes \<Rightarrow> nat \<Rightarrow> nat" where
  "getUint16 b i = unat (b ! i) * 256 + unat (b ! (i + 1))"

definition getUint32 :: "bytes \<Rightarrow> nat \<Rightarrow> nat" where
  "getUint32 b i = unat (b ! i) * 16777216 + unat (b ! (i + 1)) * 65536
     + unat (b ! (i + 2)) * 256 + unat (b ! (i + 3))"

definition uint16_bytes :: "nat \<Rightarrow> bytes" where
  "uint16_bytes n = [of_nat (n div 256), of_nat n]"

definition uint32_bytes :: "nat \<Rightarrow> bytes" where
  "uint32_bytes n =
     [of_nat (n div 16777216), of_nat (n div 65536), of_nat (n div 256), of_nat n]"

text \<open>\<open>Uint8Array.set(src, offset)\<close>: overwrite a slice in place.\<close>

definition put_bytes :: "bytes \<Rightarrow> nat \<Rightarrow> bytes \<Rightarrow> bytes" where
  "put_bytes src off dst = take off dst @ src @ drop (off + length src) dst"

lemma length_uint_bytes [simp]:
  "length (uint16_bytes n) = 2" "length (uint32_bytes n) = 4"
  by (simp_all add: uint16_bytes_def uint32_bytes_def)

lemma length_put_bytes [simp]:
  "off + length src \<le> length dst \<Longrightarrow> length (put_bytes src off dst) = length dst"
  by (simp add: put_bytes_def)

lemma unat_byte_of_nat [simp]: "unat (of_nat n :: byte) = n mod 256"
  by (simp add: unat_of_nat)

lemma unat_byte_less: "unat (b :: byte) < 256"
  using unsigned_less [of b, where ?'a = nat] by simp

lemma getUint16_uint16_bytes:
  "getUint16 (pre @ uint16_bytes n @ suf) (length pre) = n mod 65536"
proof -
  have "n mod (256 * 256) = 256 * (n div 256 mod 256) + n mod 256" by (rule mod_mult2_eq)
  then show ?thesis
    by (simp add: getUint16_def uint16_bytes_def nth_append)
qed

lemma getUint32_uint32_bytes:
  "getUint32 (pre @ uint32_bytes n @ suf) (length pre) = n mod 4294967296"
proof -
  have step: "n mod (k * 256) = k * (n div k mod 256) + n mod k" for k
    by (rule mod_mult2_eq)
  show ?thesis
    using step [of 16777216] step [of 65536] step [of 256]
    by (simp add: getUint32_def uint32_bytes_def nth_append)
qed

text \<open>Writing back a number that was read gives back the bytes it was read from.\<close>

lemma byte_of_nat_add_mult: "(of_nat (unat (a :: byte) + 256 * k) :: byte) = a"
proof -
  have "unat (of_nat (unat a + 256 * k) :: byte) = unat a"
    using unat_byte_less [of a] by (subst unat_byte_of_nat) simp
  then show ?thesis by (rule unsigned_word_eqI)
qed

lemma uint16_bytes_getUint16: "uint16_bytes (getUint16 b i) = [b ! i, b ! (i + 1)]"
proof -
  let ?h = "unat (b ! i)" and ?l = "unat (b ! (i + 1))"
  have "(?h * 256 + ?l) div 256 = ?h" using unat_byte_less [of "b ! (i + 1)"] by simp
  moreover have "(of_nat (?h * 256 + ?l) :: byte) = b ! (i + 1)"
    using byte_of_nat_add_mult [of "b ! (i + 1)" ?h] by (simp only: add.commute mult.commute)
  ultimately show ?thesis unfolding uint16_bytes_def getUint16_def by (simp del: of_nat_add of_nat_mult)
qed

lemma uint32_bytes_getUint32:
  "uint32_bytes (getUint32 b i) = [b ! i, b ! (i + 1), b ! (i + 2), b ! (i + 3)]"
proof -
  let ?w = "unat (b ! i)" and ?x = "unat (b ! (i + 1))"
  let ?y = "unat (b ! (i + 2))" and ?z = "unat (b ! (i + 3))"
  note lt = unat_byte_less [of "b ! (i + 1)"] unat_byte_less [of "b ! (i + 2)"]
    unat_byte_less [of "b ! (i + 3)"]
  have n: "getUint32 b i = ?z + 256 * (?y + 256 * (?x + 256 * ?w))"
    by (simp add: getUint32_def)
  have d1: "getUint32 b i div 256 = ?y + 256 * (?x + 256 * ?w)"
    using lt unfolding n by simp
  have d2: "getUint32 b i div 65536 = ?x + 256 * ?w"
    using lt d1 div_mult2_eq [of "getUint32 b i" 256 256] by simp
  have d3: "getUint32 b i div 16777216 = ?w"
    using lt d2 div_mult2_eq [of "getUint32 b i" 65536 256] by simp
  have "(of_nat (getUint32 b i) :: byte) = b ! (i + 3)"
    unfolding n by (rule byte_of_nat_add_mult)
  moreover have "(of_nat (getUint32 b i div 256) :: byte) = b ! (i + 2)"
    unfolding d1 by (rule byte_of_nat_add_mult)
  moreover have "(of_nat (getUint32 b i div 65536) :: byte) = b ! (i + 1)"
    unfolding d2 by (rule byte_of_nat_add_mult)
  moreover have "(of_nat (getUint32 b i div 16777216) :: byte) = b ! i"
    unfolding d3 by simp
  ultimately show ?thesis unfolding uint32_bytes_def by (simp only:)
qed

lemma getUint16_less: "getUint16 b i < 65536"
proof -
  note unat_byte_less [of "b ! i"] unat_byte_less [of "b ! (i + 1)"]
  then show ?thesis unfolding getUint16_def by linarith
qed

lemma getUint32_less: "getUint32 b i < 4294967296"
proof -
  note unat_byte_less [of "b ! i"] unat_byte_less [of "b ! (i + 1)"]
    unat_byte_less [of "b ! (i + 2)"] unat_byte_less [of "b ! (i + 3)"]
  then show ?thesis unfolding getUint32_def by linarith
qed

section \<open>Strings\<close>

definition js_startsWith :: "string \<Rightarrow> string \<Rightarrow> bool" where
  "js_startsWith s p = (take (length p) s = p)"

fun js_split :: "char \<Rightarrow> string \<Rightarrow> string list" where
  "js_split c [] = [[]]"
| "js_split c (x # xs) =
     (if x = c then [] # js_split c xs
      else case js_split c xs of [] \<Rightarrow> [[x]] | y # ys \<Rightarrow> (x # y) # ys)"

fun js_join :: "string \<Rightarrow> string list \<Rightarrow> string" where
  "js_join sep [] = []"
| "js_join sep [x] = x"
| "js_join sep (x # y # ys) = x @ sep @ js_join sep (y # ys)"

text \<open>White space of ECMAScript within the code points a \<open>char\<close> holds.\<close>

fun js_includes :: "string \<Rightarrow> string \<Rightarrow> bool" where
  "js_includes [] p = (p = [])"
| "js_includes (c # cs) p = (js_startsWith (c # cs) p \<or> js_includes cs p)"

definition js_is_ws :: "char \<Rightarrow> bool" where
  "js_is_ws c = (let n = (of_char c :: nat) in n \<in> {9, 10, 11, 12, 13, 32, 160})"

definition js_trim :: "string \<Rightarrow> string" where
  "js_trim s = rev (dropWhile js_is_ws (rev (dropWhile js_is_ws s)))"

definition js_lower_char :: "char \<Rightarrow> char" where
  "js_lower_char c = (let n = (of_char c :: nat) in
     if 65 \<le> n \<and> n \<le> 90 \<or> 192 \<le> n \<and> n \<le> 222 \<and> n \<noteq> 215 then char_of (n + 32) else c)"

definition js_toLowerCase :: "string \<Rightarrow> string" where
  "js_toLowerCase s = map js_lower_char s"

lemma js_startsWith_append [simp]: "js_startsWith (p @ s) p"
  by (simp add: js_startsWith_def)

lemma js_startsWith_iff: "js_startsWith s p \<longleftrightarrow> (\<exists>t. s = p @ t)"
  by (auto simp: js_startsWith_def) (metis append_take_drop_id)

lemma js_split_nonempty [simp]: "js_split c s \<noteq> []"
  by (induction s) (auto split: list.splits)

lemma js_split_no_sep: "c \<notin> set s \<Longrightarrow> js_split c s = [s]"
  by (induction s) auto

lemma js_split_sep: "c \<notin> set s \<Longrightarrow> js_split c (s @ c # t) = s # js_split c t"
  by (induction s) auto

lemma js_join_split: "js_join [c] (js_split c s) = s"
proof (induction s)
  case Nil
  then show ?case by simp
next
  case (Cons x xs)
  obtain y ys where sp: "js_split c xs = y # ys"
    by (meson js_split_nonempty neq_Nil_conv)
  show ?case
    using Cons sp by (cases ys) auto
qed

lemma js_trim_Nil [simp]: "js_trim [] = []"
  by (simp add: js_trim_def)

lemma js_split_parts: "p \<in> set (js_split c s) \<Longrightarrow> c \<notin> set p"
  by (induction s arbitrary: p) (auto split: if_splits list.splits)

section \<open>Decimal numerals and sets of tokens\<close>

definition js_digit :: "nat \<Rightarrow> char" where
  "js_digit d = char_of (48 + d)"

definition js_is_digit :: "char \<Rightarrow> bool" where
  "js_is_digit c = (let n = (of_char c :: nat) in 48 \<le> n \<and> n \<le> 57)"

text \<open>\<open>Number(s)\<close> of a non-empty run of decimal digits, and the decimal text of a number
  (both exact for the integers JavaScript represents exactly).\<close>

definition js_digits_value :: "string \<Rightarrow> nat" where
  "js_digits_value s = foldl (\<lambda>a c. 10 * a + (of_char c - 48)) 0 s"

fun js_nat_string :: "nat \<Rightarrow> string" where
  "js_nat_string n = (if n < 10 then [js_digit n] else js_nat_string (n div 10) @ [js_digit (n mod 10)])"

declare js_nat_string.simps [simp del]

lemma of_char_js_digit: "d < 10 \<Longrightarrow> (of_char (js_digit d) :: nat) = 48 + d"
  by (simp add: js_digit_def)

lemma js_is_digit_js_digit: "d < 10 \<Longrightarrow> js_is_digit (js_digit d)"
  by (simp add: js_is_digit_def of_char_js_digit)

lemma js_digits_value_nat_string: "js_digits_value (js_nat_string n) = n"
proof (induction n rule: js_nat_string.induct)
  case (1 n)
  then show ?case
    by (cases "n < 10") (simp_all add: js_nat_string.simps [of n] js_digits_value_def of_char_js_digit)
qed

lemma js_nat_string_digits: "c \<in> set (js_nat_string n) \<Longrightarrow> js_is_digit c"
proof (induction n rule: js_nat_string.induct)
  case (1 n)
  then show ?case
    by (cases "n < 10") (auto simp: js_nat_string.simps [of n] js_is_digit_js_digit)
qed

lemma js_nat_string_nonempty [simp]: "js_nat_string n \<noteq> []"
  by (simp add: js_nat_string.simps [of n])

lemma js_nat_string_inject: "js_nat_string a = js_nat_string b \<Longrightarrow> a = b"
  by (metis js_digits_value_nat_string)

text \<open>\<open>[...new Set(xs)]\<close>: the distinct elements in order of first occurrence.\<close>

definition js_uniq :: "'a list \<Rightarrow> 'a list" where
  "js_uniq xs = foldl (\<lambda>acc x. if x \<in> set acc then acc else acc @ [x]) [] xs"

lemma js_uniq_snoc: "js_uniq (xs @ [x]) = (if x \<in> set (js_uniq xs) then js_uniq xs else js_uniq xs @ [x])"
  by (simp add: js_uniq_def)

lemma set_js_uniq [simp]: "set (js_uniq xs) = set xs"
  by (induction xs rule: rev_induct) (auto simp: js_uniq_snoc, simp add: js_uniq_def)

lemma distinct_js_uniq [simp]: "distinct (js_uniq xs)"
  by (induction xs rule: rev_induct) (auto simp: js_uniq_snoc, simp add: js_uniq_def)

lemma find_SomeD: "find P xs = Some x \<Longrightarrow> P x \<and> x \<in> set xs"
  by (induction xs) (auto split: if_splits)

end
