(* ===== verification/NpsErrors.thy ===== *)
theory NpsErrors
  imports Prelude
begin

text \<open>
  The exceptions of the core library: \<open>NcpError\<close> of \<open>core/frame-header.ts\<close> with its
  machine-readable code, and the classes of \<open>core/exceptions.ts\<close> with the data they carry
  beside the message. Message texts are not modelled; \<open>JsError\<close> stands for a plain
  \<open>Error\<close>, \<open>RangeError\<close> or \<open>TypeError\<close>.
\<close>

datatype nps_error =
    NcpError string
  | NpsFrameError
  | NpsCodecError
  | NpsAnchorNotFoundError string
  | NpsAnchorPoisonError string
  | NpsStreamError
  | NpsEncodingUnsupportedError
  | NcpPreambleInvalidError
  | JsError

type_synonym 'a nps_result = "(nps_error, 'a) result"

end
