(* ===== verification/FrameHeader.thy ===== *)
theory FrameHeader
  imports NpsErrors
begin

text \<open>
  The two header codecs of the SDK.

  \<^item> \<open>core/frame-header.ts\<close> (used by \<open>core/codecs/ncp-codec.ts\<close>): \<open>parseFrameHeader\<close>,
    \<open>writeFrameHeader\<close>, \<open>buildFlags\<close>, modelled under the prefix \<open>fh_\<close>.
  \<^item> \<open>core/frames.ts\<close> (used by \<open>core/codec.ts\<close>, the socket reader and the sessions): the
    class \<open>FrameHeader\<close>, modelled under the prefix \<open>hdr_\<close>.

  Proved: both codecs round-trip; what each parser accepts and rejects, exactly; and that
  the two extended layouts are not interoperable.
\<close>

unbundle bit_operations_syntax

section \<open>Constants\<close>

definition DEFAULT_HEADER_SIZE :: nat where "DEFAULT_HEADER_SIZE = 4"
definition EXTENDED_HEADER_SIZE :: nat where "EXTENDED_HEADER_SIZE = 8"
definition DEFAULT_MAX_PAYLOAD :: nat where "DEFAULT_MAX_PAYLOAD = 65535"
definition EXTENDED_MAX_PAYLOAD :: nat where "EXTENDED_MAX_PAYLOAD = 4294967295"

definition TIER_MASK :: byte where "TIER_MASK = 0x03"
definition FINAL_BIT :: byte where "FINAL_BIT = 0x04"
definition ENC_BIT :: byte where "ENC_BIT = 0x08"
definition RESERVED_MASK :: byte where "RESERVED_MASK = 0x70"
definition EXT_BIT :: byte where "EXT_BIT = 0x80"

lemmas header_consts = DEFAULT_HEADER_SIZE_def EXTENDED_HEADER_SIZE_def
  DEFAULT_MAX_PAYLOAD_def EXTENDED_MAX_PAYLOAD_def
lemmas flag_consts = TIER_MASK_def FINAL_BIT_def ENC_BIT_def RESERVED_MASK_def EXT_BIT_def

text \<open>The enum \<open>EncodingTier\<close> as the two bits the flags byte carries.\<close>

definition TIER_JSON :: byte where "TIER_JSON = 0"
definition TIER_MSGPACK :: byte where "TIER_MSGPACK = 1"
definition TIER_BINARY_VECTOR :: byte where "TIER_BINARY_VECTOR = 2"

lemmas tier_consts = TIER_JSON_def TIER_MSGPACK_def TIER_BINARY_VECTOR_def

section \<open>core/frame-header.ts\<close>

record fh_header =
  fh_frameType :: byte
  fh_flags :: byte
  fh_payloadLength :: nat
  fh_tier :: byte
  fh_isFinal :: bool
  fh_isEncrypted :: bool
  fh_isExtended :: bool
  fh_headerSize :: nat

definition fh_of_flags :: "byte \<Rightarrow> byte \<Rightarrow> nat \<Rightarrow> bool \<Rightarrow> nat \<Rightarrow> fh_header" where
  "fh_of_flags ft fl len ext sz =
     \<lparr>fh_frameType = ft, fh_flags = fl, fh_payloadLength = len,
      fh_tier = fl AND TIER_MASK, fh_isFinal = (fl AND FINAL_BIT \<noteq> 0),
      fh_isEncrypted = (fl AND ENC_BIT \<noteq> 0), fh_isExtended = ext, fh_headerSize = sz\<rparr>"

definition fh_too_large :: "nat option \<Rightarrow> nat \<Rightarrow> bool" where
  "fh_too_large max_frame_payload len =
     (case max_frame_payload of None \<Rightarrow> False | Some m \<Rightarrow> len > m)"

definition parseFrameHeader :: "bytes \<Rightarrow> nat option \<Rightarrow> fh_header nps_result" where
  "parseFrameHeader buffer max_frame_payload =
     (if length buffer < 2 then Inl (NcpError ''NCP-FRAME-PARSE-ERROR'')
      else let frameType = buffer ! 0; flags = buffer ! 1 in
      if flags AND RESERVED_MASK \<noteq> 0 then Inl (NcpError ''NCP-FRAME-FLAGS-INVALID'')
      else if flags AND EXT_BIT \<noteq> 0 then
        (if length buffer < EXTENDED_HEADER_SIZE then Inl (NcpError ''NCP-FRAME-PARSE-ERROR'')
         else let payloadLength = getUint32 buffer 2 in
           if fh_too_large max_frame_payload payloadLength
           then Inl (NcpError ''NCP-FRAME-PAYLOAD-TOO-LARGE'')
           else Inr (fh_of_flags frameType flags payloadLength True EXTENDED_HEADER_SIZE))
      else if length buffer < DEFAULT_HEADER_SIZE then Inl (NcpError ''NCP-FRAME-PARSE-ERROR'')
      else let payloadLength = getUint16 buffer 2 in
        if fh_too_large max_frame_payload payloadLength
        then Inl (NcpError ''NCP-FRAME-PAYLOAD-TOO-LARGE'')
        else Inr (fh_of_flags frameType flags payloadLength False DEFAULT_HEADER_SIZE))"

text \<open>\<open>writeFrameHeader\<close> mutates the buffer; the model returns it beside the byte count.\<close>

definition writeFrameHeader :: "fh_header \<Rightarrow> bytes \<Rightarrow> (bytes \<times> nat) nps_result" where
  "writeFrameHeader h buffer =
     (let size = (if fh_isExtended h then EXTENDED_HEADER_SIZE else DEFAULT_HEADER_SIZE) in
      if length buffer < size then Inl JsError
      else let b1 = buffer[0 := fh_frameType h, 1 := fh_flags h] in
        Inr (if fh_isExtended h
             then (put_bytes (uint32_bytes (fh_payloadLength h)) 2 b1)[6 := 0, 7 := 0]
             else put_bytes (uint16_bytes (fh_payloadLength h)) 2 b1,
             size))"

definition buildFlags :: "byte option \<Rightarrow> bool \<Rightarrow> bool \<Rightarrow> bool \<Rightarrow> byte" where
  "buildFlags tier final encrypted extended =
     (let flags = (case tier of None \<Rightarrow> TIER_JSON | Some t \<Rightarrow> t) AND TIER_MASK;
          flags = (if final then flags OR FINAL_BIT else flags);
          flags = (if encrypted then flags OR ENC_BIT else flags)
      in if extended then flags OR EXT_BIT else flags)"

text \<open>The headers \<open>parseFrameHeader\<close> can return: the derived fields agree with the flags.\<close>

definition fh_wf :: "fh_header \<Rightarrow> bool" where
  "fh_wf h \<longleftrightarrow>
     fh_flags h AND RESERVED_MASK = 0 \<and>
     fh_isExtended h = (fh_flags h AND EXT_BIT \<noteq> 0) \<and>
     fh_payloadLength h \<le> (if fh_isExtended h then EXTENDED_MAX_PAYLOAD else DEFAULT_MAX_PAYLOAD) \<and>
     h = fh_of_flags (fh_frameType h) (fh_flags h) (fh_payloadLength h) (fh_isExtended h)
           (if fh_isExtended h then EXTENDED_HEADER_SIZE else DEFAULT_HEADER_SIZE)"

section \<open>core/frames.ts\<close>

record hdr =
  hdr_frameType :: byte
  hdr_flags :: byte
  hdr_payloadLength :: nat

definition hdr_isExtended :: "hdr \<Rightarrow> bool" where
  "hdr_isExtended h = (hdr_flags h AND EXT_BIT \<noteq> 0)"

definition hdr_headerSize :: "hdr \<Rightarrow> nat" where
  "hdr_headerSize h = (if hdr_isExtended h then EXTENDED_HEADER_SIZE else DEFAULT_HEADER_SIZE)"

definition hdr_encodingTier :: "hdr \<Rightarrow> byte" where
  "hdr_encodingTier h = hdr_flags h AND 0x03"

definition hdr_isFinal :: "hdr \<Rightarrow> bool" where
  "hdr_isFinal h = (hdr_flags h AND 0x04 \<noteq> 0)"

definition hdr_isEncrypted :: "hdr \<Rightarrow> bool" where
  "hdr_isEncrypted h = (hdr_flags h AND 0x08 \<noteq> 0)"

definition hdr_parse :: "bytes \<Rightarrow> hdr nps_result" where
  "hdr_parse buf =
     (if length buf < 2 then Inl NpsFrameError
      else let flags = buf ! 1 in
      if flags AND EXT_BIT \<noteq> 0 then
        (if length buf < EXTENDED_HEADER_SIZE then Inl NpsFrameError
         else Inr \<lparr>hdr_frameType = buf ! 0, hdr_flags = flags, hdr_payloadLength = getUint32 buf 4\<rparr>)
      else if length buf < DEFAULT_HEADER_SIZE then Inl NpsFrameError
      else Inr \<lparr>hdr_frameType = buf ! 0, hdr_flags = flags, hdr_payloadLength = getUint16 buf 2\<rparr>)"

definition hdr_toBytes :: "hdr \<Rightarrow> bytes" where
  "hdr_toBytes h =
     (if hdr_isExtended h
      then [hdr_frameType h, hdr_flags h] @ uint16_bytes 0 @ uint32_bytes (hdr_payloadLength h)
      else [hdr_frameType h, hdr_flags h] @ uint16_bytes (hdr_payloadLength h))"

definition hdr_wf :: "hdr \<Rightarrow> bool" where
  "hdr_wf h \<longleftrightarrow>
     hdr_payloadLength h \<le> (if hdr_isExtended h then EXTENDED_MAX_PAYLOAD else DEFAULT_MAX_PAYLOAD)"

section \<open>Round trips\<close>

lemma length_ge_4_cases:
  assumes "4 \<le> length xs"
  obtains a b c d ys where "xs = a # b # c # d # ys"
  using assms by (auto simp: Suc_le_length_iff numeral_eq_Suc)

lemma length_ge_8_cases:
  assumes "8 \<le> length xs"
  obtains a b c d e f g h ys where "xs = a # b # c # d # e # f # g # h # ys"
  using assms by (auto simp: Suc_le_length_iff numeral_eq_Suc)

lemma writeFrameHeader_ext:
  assumes "fh_isExtended h" "EXTENDED_HEADER_SIZE \<le> length buffer"
  shows "writeFrameHeader h buffer =
    Inr ([fh_frameType h, fh_flags h] @ uint32_bytes (fh_payloadLength h) @ [0, 0] @ drop 8 buffer, 8)"
proof -
  from assms(2) obtain a b c d e f g i ys where "buffer = a # b # c # d # e # f # g # i # ys"
    by (auto simp: header_consts elim: length_ge_8_cases)
  moreover obtain w x y z where "uint32_bytes (fh_payloadLength h) = [w, x, y, z]"
    by (simp add: uint32_bytes_def)
  ultimately show ?thesis
    using assms by (simp add: writeFrameHeader_def header_consts put_bytes_def eval_nat_numeral)
qed

lemma writeFrameHeader_default:
  assumes "\<not> fh_isExtended h" "DEFAULT_HEADER_SIZE \<le> length buffer"
  shows "writeFrameHeader h buffer =
    Inr ([fh_frameType h, fh_flags h] @ uint16_bytes (fh_payloadLength h) @ drop 4 buffer, 4)"
proof -
  from assms(2) obtain a b c d ys where "buffer = a # b # c # d # ys"
    by (auto simp: header_consts elim: length_ge_4_cases)
  moreover obtain w x where "uint16_bytes (fh_payloadLength h) = [w, x]"
    by (simp add: uint16_bytes_def)
  ultimately show ?thesis
    using assms by (simp add: writeFrameHeader_def header_consts put_bytes_def eval_nat_numeral)
qed

lemma getUint32_at2: "getUint32 ([a, b] @ uint32_bytes n @ suf) 2 = n mod 4294967296"
  using getUint32_uint32_bytes [of "[a, b]" n suf] by (simp add: numeral_2_eq_2)

lemma getUint16_at2: "getUint16 ([a, b] @ uint16_bytes n @ suf) 2 = n mod 65536"
  using getUint16_uint16_bytes [of "[a, b]" n suf] by (simp add: numeral_2_eq_2)

lemma getUint32_at4: "getUint32 ([a, b] @ uint16_bytes m @ uint32_bytes n @ suf) 4 = n mod 4294967296"
  using getUint32_uint32_bytes [of "[a, b] @ uint16_bytes m" n suf] by simp

lemma hdr_parse_toBytes:
  assumes "hdr_wf h"
  shows "hdr_parse (hdr_toBytes h @ rest) = Inr h"
proof (cases "hdr_isExtended h")
  case True
  have "hdr_payloadLength h mod 4294967296 = hdr_payloadLength h"
    using assms True by (simp add: hdr_wf_def header_consts)
  with True show ?thesis
    using getUint32_at4 [of "hdr_frameType h" "hdr_flags h" 0 "hdr_payloadLength h" rest]
    by (simp add: hdr_parse_def hdr_toBytes_def hdr_isExtended_def header_consts)
next
  case False
  have "hdr_payloadLength h mod 65536 = hdr_payloadLength h"
    using assms False by (simp add: hdr_wf_def header_consts)
  with False show ?thesis
    using getUint16_at2 [of "hdr_frameType h" "hdr_flags h" "hdr_payloadLength h" rest]
    by (simp add: hdr_parse_def hdr_toBytes_def hdr_isExtended_def header_consts)
qed

lemma length_hdr_toBytes [simp]: "length (hdr_toBytes h) = hdr_headerSize h"
  by (simp add: hdr_toBytes_def hdr_headerSize_def header_consts)

lemma hdr_parse_wf: "hdr_parse buf = Inr h \<Longrightarrow> hdr_wf h \<and> hdr_headerSize h \<le> length buf"
  using getUint16_less [of buf 2] getUint32_less [of buf 4]
  by (auto simp: hdr_parse_def hdr_wf_def hdr_headerSize_def hdr_isExtended_def Let_def header_consts
      split: if_splits)

lemma fh_wf_size:
  assumes "fh_wf h"
  shows "fh_headerSize h = (if fh_isExtended h then 8 else 4)"
proof -
  let ?r = "fh_of_flags (fh_frameType h) (fh_flags h) (fh_payloadLength h) (fh_isExtended h)
    (if fh_isExtended h then EXTENDED_HEADER_SIZE else DEFAULT_HEADER_SIZE)"
  have "h = ?r" using assms unfolding fh_wf_def by blast
  then have "fh_headerSize h = fh_headerSize ?r" by (rule arg_cong)
  then show ?thesis by (simp add: fh_of_flags_def header_consts)
qed

lemma fh_parse_write:
  assumes wf: "fh_wf h" and len: "fh_headerSize h \<le> length buffer"
    and small: "\<not> fh_too_large mx (fh_payloadLength h)"
  shows "\<exists>out. writeFrameHeader h buffer = Inr (out, fh_headerSize h) \<and>
               length out = length buffer \<and>
               drop (fh_headerSize h) out = drop (fh_headerSize h) buffer \<and>
               parseFrameHeader out mx = Inr h"
proof (cases "fh_isExtended h")
  case True
  have sz: "fh_headerSize h = 8" using fh_wf_size [OF wf] True by simp
  have md: "fh_payloadLength h mod 4294967296 = fh_payloadLength h"
    using wf True by (simp add: fh_wf_def header_consts)
  let ?out = "[fh_frameType h, fh_flags h] @ uint32_bytes (fh_payloadLength h) @ [0, 0] @ drop 8 buffer"
  have w: "writeFrameHeader h buffer = Inr (?out, 8)"
    using writeFrameHeader_ext [OF True] len sz by (simp add: header_consts)
  have "parseFrameHeader ?out mx = Inr h"
    using wf True small md getUint32_at2 [of "fh_frameType h" "fh_flags h" "fh_payloadLength h" "[0, 0] @ drop 8 buffer"]
    by (auto simp: parseFrameHeader_def fh_wf_def header_consts)
  with w sz len show ?thesis by auto
next
  case False
  have sz: "fh_headerSize h = 4" using fh_wf_size [OF wf] False by simp
  have md: "fh_payloadLength h mod 65536 = fh_payloadLength h"
    using wf False by (simp add: fh_wf_def header_consts)
  let ?out = "[fh_frameType h, fh_flags h] @ uint16_bytes (fh_payloadLength h) @ drop 4 buffer"
  have w: "writeFrameHeader h buffer = Inr (?out, 4)"
    using writeFrameHeader_default [OF False] len sz by (simp add: header_consts)
  have "parseFrameHeader ?out mx = Inr h"
    using wf False small md getUint16_at2 [of "fh_frameType h" "fh_flags h" "fh_payloadLength h" "drop 4 buffer"]
    by (auto simp: parseFrameHeader_def fh_wf_def header_consts)
  with w sz len show ?thesis by auto
qed

section \<open>The framing contract\<close>

text \<open>
  What a frame codec needs of a header codec: a header that was written is read back from
  any buffer that starts with it, and occupies the number of bytes it says it does.
\<close>

locale header_codec =
  fixes wr :: "'h \<Rightarrow> bytes"
    and pr :: "bytes \<Rightarrow> 'h nps_result"
    and ok :: "'h \<Rightarrow> bool"
    and hsize :: "'h \<Rightarrow> nat"
    and plen :: "'h \<Rightarrow> nat"
  assumes parse_write: "ok h \<Longrightarrow> pr (wr h @ rest) = Inr h"
    and write_size: "ok h \<Longrightarrow> length (wr h) = hsize h"
begin

lemma frame_slice:
  assumes "ok h" "length payload = plen h"
  shows "pr (wr h @ payload @ rest) = Inr h"
    and "take (plen h) (drop (hsize h) (wr h @ payload @ rest)) = payload"
    and "drop (hsize h + plen h) (wr h @ payload @ rest) = rest"
  using assms by (simp_all add: parse_write write_size)

lemma framing_unambiguous:
  assumes "ok h" "length p = plen h" "ok h'" "length p' = plen h'"
    and eq: "wr h @ p @ r = wr h' @ p' @ r'"
  shows "h = h' \<and> p = p' \<and> r = r'"
proof -
  have h: "h = h'"
    using frame_slice(1) [OF assms(1,2), of r] frame_slice(1) [OF assms(3,4), of r'] eq by simp
  with frame_slice(2,3) [OF assms(1,2), of r] frame_slice(2,3) [OF assms(3,4), of r'] eq
  show ?thesis by metis
qed

end

text \<open>\<open>writeFrameHeader\<close> into a fresh zeroed buffer, as \<open>encodeFrame\<close> calls it.\<close>

definition fh_bytes :: "fh_header \<Rightarrow> bytes" where
  "fh_bytes h = (case writeFrameHeader h (replicate (fh_headerSize h) 0) of
     Inr (out, n) \<Rightarrow> out | Inl e \<Rightarrow> [])"


lemma fh_bytes_eq:
  assumes "fh_wf h"
  shows "fh_bytes h = (if fh_isExtended h
     then [fh_frameType h, fh_flags h] @ uint32_bytes (fh_payloadLength h) @ [0, 0]
     else [fh_frameType h, fh_flags h] @ uint16_bytes (fh_payloadLength h))"
  using fh_wf_size [OF assms] writeFrameHeader_ext [of h "replicate 8 0"]
    writeFrameHeader_default [of h "replicate 4 0"]
  by (auto simp: fh_bytes_def header_consts)

lemma fh_parse_bytes: "fh_wf h \<Longrightarrow> parseFrameHeader (fh_bytes h @ rest) None = Inr h"
  using getUint32_at2 [of "fh_frameType h" "fh_flags h" "fh_payloadLength h" "[0, 0] @ rest"]
    getUint16_at2 [of "fh_frameType h" "fh_flags h" "fh_payloadLength h" rest]
  by (auto simp: fh_bytes_eq parseFrameHeader_def fh_wf_def fh_too_large_def header_consts)

interpretation fh_codec: header_codec fh_bytes "\<lambda>b. parseFrameHeader b None" fh_wf
    fh_headerSize fh_payloadLength
  by unfold_locales (simp_all only: fh_parse_bytes, simp add: fh_bytes_eq fh_wf_size)

interpretation hdr_codec: header_codec hdr_toBytes hdr_parse hdr_wf hdr_headerSize hdr_payloadLength
  by unfold_locales (auto simp: hdr_parse_toBytes)

section \<open>What the parsers accept\<close>

text \<open>The bytes of the header that carry information (the two trailing bytes of an
  extended header of \<open>core/frame-header.ts\<close> are not looked at).\<close>

definition fh_significant :: "fh_header \<Rightarrow> bytes" where
  "fh_significant h = [fh_frameType h, fh_flags h] @
     (if fh_isExtended h then uint32_bytes (fh_payloadLength h) else uint16_bytes (fh_payloadLength h))"

lemma take6: "8 \<le> length b \<Longrightarrow> take 6 b = [b ! 0, b ! 1, b ! 2, b ! 3, b ! 4, b ! 5]"
  by (erule length_ge_8_cases) (simp add: eval_nat_numeral)

lemma take4: "4 \<le> length b \<Longrightarrow> take 4 b = [b ! 0, b ! 1, b ! 2, b ! 3]"
  by (erule length_ge_4_cases) (simp add: eval_nat_numeral)

lemma fh_parse_sound:
  assumes "parseFrameHeader b mx = Inr h"
  shows "fh_wf h \<and> fh_headerSize h \<le> length b \<and> \<not> fh_too_large mx (fh_payloadLength h) \<and>
         take (length (fh_significant h)) b = fh_significant h"
proof (cases "b ! 1 AND EXT_BIT \<noteq> 0")
  case True
  with assms have h: "h = fh_of_flags (b ! 0) (b ! 1) (getUint32 b 2) True 8"
    and len: "8 \<le> length b" and "\<not> fh_too_large mx (getUint32 b 2)" "b ! 1 AND RESERVED_MASK = 0"
    by (auto simp: parseFrameHeader_def Let_def header_consts split: if_splits)
  moreover have "fh_significant h = take 6 b"
    using uint32_bytes_getUint32 [of b 2] by (simp add: fh_significant_def h fh_of_flags_def take6 len)
  ultimately show ?thesis
    using True getUint32_less [of b 2] by (simp add: fh_wf_def fh_of_flags_def header_consts)
next
  case False
  with assms have h: "h = fh_of_flags (b ! 0) (b ! 1) (getUint16 b 2) False 4"
    and len: "4 \<le> length b" and "\<not> fh_too_large mx (getUint16 b 2)" "b ! 1 AND RESERVED_MASK = 0"
    by (auto simp: parseFrameHeader_def Let_def header_consts split: if_splits)
  moreover have "fh_significant h = take 4 b"
    using uint16_bytes_getUint16 [of b 2] by (simp add: fh_significant_def h fh_of_flags_def take4 len)
  ultimately show ?thesis
    using False getUint16_less [of b 2] by (simp add: fh_wf_def fh_of_flags_def header_consts)
qed

lemma fh_parse_complete:
  assumes wf: "fh_wf h" and len: "fh_headerSize h \<le> length b"
    and small: "\<not> fh_too_large mx (fh_payloadLength h)"
    and bytes: "take (length (fh_significant h)) b = fh_significant h"
  shows "parseFrameHeader b mx = Inr h"
proof -
  obtain suf where b: "b = fh_significant h @ suf"
    using bytes by (metis append_take_drop_id)
  show ?thesis
    using wf len small fh_wf_size [OF wf]
      getUint32_at2 [of "fh_frameType h" "fh_flags h" "fh_payloadLength h" suf]
      getUint16_at2 [of "fh_frameType h" "fh_flags h" "fh_payloadLength h" suf]
    by (auto simp: b fh_significant_def parseFrameHeader_def fh_wf_def header_consts)
qed

section \<open>Properties\<close>

text \<open>A header written by \<open>writeFrameHeader\<close> of \<open>core/frame-header.ts\<close> into a buffer that
  is long enough is read back unchanged by \<open>parseFrameHeader\<close>, for any limit that admits its
  payload length; exactly the header bytes of the buffer are overwritten.\<close>

theorem fh_header_roundtrip:
  assumes "fh_wf h" and "fh_headerSize h \<le> length buffer"
    and "\<not> fh_too_large mx (fh_payloadLength h)"
  shows "\<exists>out. writeFrameHeader h buffer = Inr (out, fh_headerSize h) \<and>
               length out = length buffer \<and>
               drop (fh_headerSize h) out = drop (fh_headerSize h) buffer \<and>
               parseFrameHeader out mx = Inr h"
  using assms by (rule fh_parse_write)

theorem fh_header_roundtrip_witness:
  "\<exists>out. writeFrameHeader (fh_of_flags 0x03 0x84 70000 True 8) (replicate 10 7) = Inr (out, 8) \<and>
         parseFrameHeader out (Some 100000) = Inr (fh_of_flags 0x03 0x84 70000 True 8)"
proof -
  let ?h = "fh_of_flags 0x03 0x84 70000 True 8"
  have "fh_wf ?h"
    by (simp add: fh_wf_def fh_of_flags_def header_consts flag_consts)
  moreover have "fh_headerSize ?h \<le> length (replicate 10 (7 :: byte))"
    by (simp add: fh_of_flags_def)
  moreover have "\<not> fh_too_large (Some 100000) (fh_payloadLength ?h)"
    by (simp add: fh_too_large_def fh_of_flags_def)
  ultimately have "\<exists>out. writeFrameHeader ?h (replicate 10 7) = Inr (out, fh_headerSize ?h) \<and>
      length out = length (replicate 10 (7 :: byte)) \<and>
      drop (fh_headerSize ?h) out = drop (fh_headerSize ?h) (replicate 10 7) \<and>
      parseFrameHeader out (Some 100000) = Inr ?h"
    by (rule fh_header_roundtrip)
  then show ?thesis by (auto simp: fh_of_flags_def)
qed

text \<open>\<open>parseFrameHeader\<close> accepts exactly the buffers that begin with the encoding of a
  well-formed header (reserved flag bits zero, derived fields as the flags say) whose payload
  length is within the limit, and it returns that header; every other buffer is rejected.\<close>

theorem fh_parse_accepts:
  "parseFrameHeader b mx = Inr h \<longleftrightarrow>
     fh_wf h \<and> fh_headerSize h \<le> length b \<and> \<not> fh_too_large mx (fh_payloadLength h) \<and>
     take (length (fh_significant h)) b = fh_significant h"
  using fh_parse_sound fh_parse_complete by blast

text \<open>The extended layouts of the two header codecs differ: \<open>core/frame-header.ts\<close> puts the
  32-bit length at offset 2, \<open>core/frames.ts\<close> reads it at offset 4. An extended header written by
  the first is accepted by the second, which sees the low 16 bits of the length shifted left by
  16, never the length itself unless it is zero.\<close>

theorem extended_layouts_disagree:
  assumes "fh_wf h" and "fh_isExtended h" and "0 < fh_payloadLength h"
  shows "\<exists>h'. hdr_parse (fh_bytes h @ rest) = Inr h' \<and>
              hdr_payloadLength h' = fh_payloadLength h mod 65536 * 65536 \<and>
              hdr_payloadLength h' \<noteq> fh_payloadLength h"
proof -
  let ?n = "fh_payloadLength h"
  let ?b = "[fh_frameType h, fh_flags h] @ uint32_bytes ?n @ [0, 0] @ rest"
  have b: "fh_bytes h @ rest = ?b" using assms by (simp add: fh_bytes_eq)
  have "?n mod (256 * 256) = 256 * (?n div 256 mod 256) + ?n mod 256" by (rule mod_mult2_eq)
  then have "getUint32 ?b 4 = ?n mod 65536 * 65536"
    by (simp add: getUint32_def uint32_bytes_def nth_append)
  moreover have "hdr_parse ?b = Inr \<lparr>hdr_frameType = fh_frameType h, hdr_flags = fh_flags h,
      hdr_payloadLength = getUint32 ?b 4\<rparr>"
    using assms by (simp add: hdr_parse_def header_consts fh_wf_def Let_def)
  moreover have "?n mod 65536 * 65536 \<noteq> ?n"
  proof
    assume eq: "?n mod 65536 * 65536 = ?n"
    then have "?n mod 65536 = 0" by (metis mod_mult_self2_is_0)
    with eq assms(3) show False by simp
  qed
  ultimately show ?thesis unfolding b by simp
qed

theorem extended_layouts_disagree_witness:
  "\<exists>h'. hdr_parse (fh_bytes (fh_of_flags 0x03 0x84 70000 True 8) @ []) = Inr h' \<and>
        hdr_payloadLength h' = 292552704"
proof -
  let ?h = "fh_of_flags 0x03 0x84 70000 True 8"
  have "fh_wf ?h" "fh_isExtended ?h" "0 < fh_payloadLength ?h"
    by (simp_all add: fh_wf_def fh_of_flags_def header_consts flag_consts)
  from extended_layouts_disagree [OF this, of "[]"] show ?thesis
    by (auto simp: fh_of_flags_def)
qed

end
