(* ===== verification/FrameCodec.thy ===== *)
theory FrameCodec
  imports FrameHeader
begin

text \<open>
  The two frame codecs: \<open>encodeFrame\<close>/\<open>decodeFrame\<close> of \<open>core/codecs/ncp-codec.ts\<close> over the
  headers of \<open>core/frame-header.ts\<close>, and \<open>NpsFrameCodec\<close> of \<open>core/codec.ts\<close> over the headers
  of \<open>core/frames.ts\<close>; and the frame registries they consult.

  The serialisers of a payload (JSON text, the third-party MessagePack library, BinaryVector on
  top of it) are parameters, bundled in a record: \<open>None\<close> is a thrown error.
\<close>

section \<open>core/frame-registry.ts\<close>

datatype protocol = P_ncp | P_nwp | P_nip | P_ndp | P_nop | P_system

record registry_entry =
  re_frameType :: byte
  re_name :: string
  re_protocol :: protocol

type_synonym frame_registry = "(byte, registry_entry) jsmap"

text \<open>\<open>new Map(entries.map(e => [e.frameType, e]))\<close>: later entries win.\<close>

definition frame_registry :: "registry_entry list \<Rightarrow> frame_registry" where
  "frame_registry es = foldl (\<lambda>m e. js_set m (re_frameType e) e) [] es"

definition registry_resolve :: "frame_registry \<Rightarrow> byte \<Rightarrow> registry_entry nps_result" where
  "registry_resolve r ft = (case js_get r ft of
     None \<Rightarrow> Inl (NcpError ''NCP-FRAME-UNKNOWN-TYPE'') | Some e \<Rightarrow> Inr e)"

definition registry_has :: "frame_registry \<Rightarrow> byte \<Rightarrow> bool" where
  "registry_has r ft = js_has r ft"

definition createDefault :: frame_registry where
  "createDefault = frame_registry
     [\<lparr>re_frameType = 0x01, re_name = ''AnchorFrame'', re_protocol = P_ncp\<rparr>,
      \<lparr>re_frameType = 0x02, re_name = ''DiffFrame'', re_protocol = P_ncp\<rparr>,
      \<lparr>re_frameType = 0x03, re_name = ''StreamFrame'', re_protocol = P_ncp\<rparr>,
      \<lparr>re_frameType = 0x04, re_name = ''CapsFrame'', re_protocol = P_ncp\<rparr>,
      \<lparr>re_frameType = 0x05, re_name = ''AlignFrame'', re_protocol = P_ncp\<rparr>,
      \<lparr>re_frameType = 0x06, re_name = ''HelloFrame'', re_protocol = P_ncp\<rparr>,
      \<lparr>re_frameType = 0x07, re_name = ''NopFrame'', re_protocol = P_ncp\<rparr>,
      \<lparr>re_frameType = 0xFE, re_name = ''ErrorFrame'', re_protocol = P_system\<rparr>]"

section \<open>core/codecs/ncp-codec.ts\<close>

record 'p tier_codecs =
  tc_encodeJson :: "'p \<Rightarrow> bytes option"
  tc_decodeJson :: "bytes \<Rightarrow> 'p option"
  tc_encodeMsgPack :: "'p \<Rightarrow> bytes option"
  tc_decodeMsgPack :: "bytes \<Rightarrow> 'p option"
  tc_encodeBinaryVector :: "'p \<Rightarrow> bytes option"
  tc_decodeBinaryVector :: "bytes \<Rightarrow> 'p option"

record 'p decode_result =
  dr_header :: fh_header
  dr_payload :: 'p
  dr_bytesConsumed :: nat

record encode_options =
  eo_frameType :: byte
  eo_tier :: "byte option"
  eo_final :: "bool option"
  eo_encrypted :: "bool option"
  eo_extended :: "bool option"

definition or_throw :: "nps_error \<Rightarrow> 'a option \<Rightarrow> 'a nps_result" where
  "or_throw e x = (case x of None \<Rightarrow> Inl e | Some a \<Rightarrow> Inr a)"

definition decode_tier :: "'p tier_codecs \<Rightarrow> byte \<Rightarrow> bytes \<Rightarrow> 'p nps_result" where
  "decode_tier tc tier pb =
     (if tier = TIER_JSON then or_throw (NcpError ''NPS-CLIENT-BAD-FRAME'') (tc_decodeJson tc pb)
      else if tier = TIER_MSGPACK then or_throw (NcpError ''NPS-CLIENT-BAD-FRAME'') (tc_decodeMsgPack tc pb)
      else if tier = TIER_BINARY_VECTOR
        then or_throw (NcpError ''NPS-CLIENT-BAD-FRAME'') (tc_decodeBinaryVector tc pb)
      else Inl (NcpError ''NCP-ENCODING-UNSUPPORTED''))"

text \<open>The JSON and MessagePack encoders are called without a handler, so their own error
  (not an \<open>NcpError\<close>) propagates.\<close>

definition encode_tier :: "'p tier_codecs \<Rightarrow> byte \<Rightarrow> 'p \<Rightarrow> bytes nps_result" where
  "encode_tier tc tier p =
     (if tier = TIER_JSON then or_throw JsError (tc_encodeJson tc p)
      else if tier = TIER_MSGPACK then or_throw JsError (tc_encodeMsgPack tc p)
      else if tier = TIER_BINARY_VECTOR
        then or_throw (NcpError ''NPS-CLIENT-BAD-FRAME'') (tc_encodeBinaryVector tc p)
      else Inl (NcpError ''NCP-ENCODING-UNSUPPORTED''))"

definition decodeFrame :: "'p tier_codecs \<Rightarrow> bytes \<Rightarrow> nat option \<Rightarrow> 'p decode_result nps_result" where
  "decodeFrame tc buffer maxFramePayload =
     rbind (parseFrameHeader buffer None) (\<lambda>header.
       let maxPayload = (case maxFramePayload of None \<Rightarrow> DEFAULT_MAX_PAYLOAD | Some m \<Rightarrow> m) in
       if fh_payloadLength header > maxPayload
       then Inl (NcpError ''NCP-FRAME-PAYLOAD-TOO-LARGE'')
       else let totalSize = fh_headerSize header + fh_payloadLength header in
       if length buffer < totalSize then Inl (NcpError ''NCP-FRAME-INCOMPLETE'')
       else let payloadBytes = take (fh_payloadLength header) (drop (fh_headerSize header) buffer) in
       rbind (decode_tier tc (fh_tier header) payloadBytes) (\<lambda>payload.
         Inr \<lparr>dr_header = header, dr_payload = payload, dr_bytesConsumed = totalSize\<rparr>))"

definition encode_header :: "encode_options \<Rightarrow> byte \<Rightarrow> bytes \<Rightarrow> fh_header" where
  "encode_header opts tier payloadBytes =
     (let needsExtended = (eo_extended opts = Some True \<or> length payloadBytes > DEFAULT_MAX_PAYLOAD);
          final = (eo_final opts = Some True);
          encrypted = (eo_encrypted opts = Some True)
      in \<lparr>fh_frameType = eo_frameType opts,
          fh_flags = buildFlags (Some tier) final encrypted needsExtended,
          fh_payloadLength = length payloadBytes, fh_tier = tier,
          fh_isFinal = final, fh_isEncrypted = encrypted, fh_isExtended = needsExtended,
          fh_headerSize = (if needsExtended then 8 else 4)\<rparr>)"

definition encodeFrame :: "'p tier_codecs \<Rightarrow> 'p \<Rightarrow> encode_options \<Rightarrow> bytes nps_result" where
  "encodeFrame tc payload opts =
     (let tier = (case eo_tier opts of None \<Rightarrow> TIER_JSON | Some t \<Rightarrow> t) in
      rbind (encode_tier tc tier payload) (\<lambda>payloadBytes.
        let header = encode_header opts tier payloadBytes;
            frame = replicate (fh_headerSize header + length payloadBytes) 0
        in rbind (writeFrameHeader header frame) (\<lambda>(frame, n).
             Inr (put_bytes payloadBytes (fh_headerSize header) frame))))"

section \<open>core/codec.ts\<close>

text \<open>
  \<open>NpsFrameCodec\<close> is generic in the frame class. What it uses of a frame and of its registry
  is bundled here: the members of \<open>NpsFrame\<close>, whether the object has an \<open>isLast\<close> member and
  its value, the tier codecs on whole frames (\<open>None\<close>: a codec error), and the frame class
  lookup (\<open>registry.resolve\<close>), which throws a frame error for an unregistered type.
\<close>

record 'f frame_ops =
  fo_frameType :: "'f \<Rightarrow> byte"
  fo_preferredTier :: "'f \<Rightarrow> byte"
  fo_isLast :: "'f \<Rightarrow> bool option"
  fo_encode :: "byte \<Rightarrow> 'f \<Rightarrow> bytes option"
  fo_registered :: "byte \<Rightarrow> bool"
  fo_decode :: "byte \<Rightarrow> byte \<Rightarrow> bytes \<Rightarrow> 'f option"

definition nc_supported :: "byte \<Rightarrow> bool" where
  "nc_supported tier = (tier = TIER_JSON \<or> tier = TIER_MSGPACK \<or> tier = TIER_BINARY_VECTOR)"

definition nc_buildFlags :: "'f frame_ops \<Rightarrow> 'f \<Rightarrow> byte \<Rightarrow> byte" where
  "nc_buildFlags ops f tier =
     (let isFinal = (case fo_isLast ops f of None \<Rightarrow> True | Some l \<Rightarrow> l)
      in if isFinal then tier OR FINAL_BIT else tier)"

definition nc_encode :: "'f frame_ops \<Rightarrow> nat \<Rightarrow> 'f \<Rightarrow> byte option \<Rightarrow> bytes nps_result" where
  "nc_encode ops maxPayload f overrideTier =
     (let tier = (case overrideTier of None \<Rightarrow> fo_preferredTier ops f | Some t \<Rightarrow> t) in
      if \<not> nc_supported tier then Inl NpsCodecError
      else case fo_encode ops tier f of None \<Rightarrow> Inl NpsCodecError
      | Some payload \<Rightarrow>
        if length payload > maxPayload then Inl NpsCodecError
        else let useExt = (length payload > DEFAULT_MAX_PAYLOAD);
                 flags = nc_buildFlags ops f tier;
                 flags = (if useExt then flags OR EXT_BIT else flags);
                 header = \<lparr>hdr_frameType = fo_frameType ops f, hdr_flags = flags,
                           hdr_payloadLength = length payload\<rparr>
             in Inr (hdr_toBytes header @ payload))"

definition nc_decode :: "'f frame_ops \<Rightarrow> bytes \<Rightarrow> 'f nps_result" where
  "nc_decode ops wire =
     rbind (hdr_parse wire) (\<lambda>header.
       let payload = take (hdr_payloadLength header) (drop (hdr_headerSize header) wire) in
       if \<not> nc_supported (hdr_encodingTier header) then Inl NpsCodecError
       else if \<not> fo_registered ops (hdr_frameType header) then Inl NpsFrameError
       else or_throw NpsCodecError
              (fo_decode ops (hdr_encodingTier header) (hdr_frameType header) payload))"

section \<open>Lemmas\<close>

lemma or_throw_Inr [simp]: "or_throw e x = Inr a \<longleftrightarrow> x = Some a"
  by (simp add: or_throw_def split: option.splits)

lemma encode_tier_supported: "encode_tier tc tier p = Inr pb \<Longrightarrow> nc_supported tier"
  by (auto simp: encode_tier_def nc_supported_def split: if_splits)

lemma supported_cases:
  "nc_supported tier \<Longrightarrow> (tier = 0 \<Longrightarrow> P) \<Longrightarrow> (tier = 1 \<Longrightarrow> P) \<Longrightarrow> (tier = 2 \<Longrightarrow> P) \<Longrightarrow> P"
  by (auto simp: nc_supported_def tier_consts)

lemma buildFlags_bits:
  assumes "nc_supported tier"
  shows "buildFlags (Some tier) f e x AND RESERVED_MASK = 0"
    and "(buildFlags (Some tier) f e x AND EXT_BIT \<noteq> 0) = x"
    and "buildFlags (Some tier) f e x AND TIER_MASK = tier"
    and "(buildFlags (Some tier) f e x AND FINAL_BIT \<noteq> 0) = f"
    and "(buildFlags (Some tier) f e x AND ENC_BIT \<noteq> 0) = e"
  using assms
  by (auto elim!: supported_cases simp: buildFlags_def flag_consts Let_def)

lemma encode_header_wf:
  assumes "nc_supported tier" "length pb \<le> EXTENDED_MAX_PAYLOAD"
  shows "fh_wf (encode_header opts tier pb)"
  using assms(2) buildFlags_bits [OF assms(1)]
  by (auto simp: fh_wf_def encode_header_def fh_of_flags_def Let_def header_consts)

lemma encodeFrame_eq:
  assumes enc: "encode_tier tc tier p = Inr pb"
    and tier: "tier = (case eo_tier opts of None \<Rightarrow> TIER_JSON | Some t \<Rightarrow> t)"
    and len: "length pb \<le> EXTENDED_MAX_PAYLOAD"
  shows "encodeFrame tc p opts = Inr (fh_bytes (encode_header opts tier pb) @ pb)"
proof -
  let ?h = "encode_header opts tier pb"
  have wf: "fh_wf ?h" by (rule encode_header_wf [OF encode_tier_supported [OF enc] len])
  note bytes = fh_bytes_eq [OF wf]
  let ?buf = "replicate (fh_headerSize ?h + length pb) 0"
  have w: "writeFrameHeader ?h ?buf = Inr (fh_bytes ?h @ replicate (length pb) 0, fh_headerSize ?h)"
  proof (cases "fh_isExtended ?h")
    case True
    then show ?thesis
      using writeFrameHeader_ext [of ?h ?buf] bytes fh_wf_size [OF wf] by (simp add: header_consts)
  next
    case False
    then show ?thesis
      using writeFrameHeader_default [of ?h ?buf] bytes fh_wf_size [OF wf] by (simp add: header_consts)
  qed
  have sz: "length (fh_bytes ?h) = fh_headerSize ?h" by (rule fh_codec.write_size [OF wf])
  show ?thesis
    using enc tier w sz by (simp add: encodeFrame_def put_bytes_def)
qed

lemma decodeFrame_frame:
  assumes wf: "fh_wf h" and dec: "decode_tier tc (fh_tier h) pb = Inr p"
    and plen: "length pb = fh_payloadLength h" and small: "length pb \<le> mx"
  shows "decodeFrame tc (fh_bytes h @ pb @ rest) (Some mx) =
    Inr \<lparr>dr_header = h, dr_payload = p, dr_bytesConsumed = length (fh_bytes h @ pb)\<rparr>"
  using fh_codec.frame_slice [OF wf plen, of rest] dec plen small fh_codec.write_size [OF wf]
  by (simp add: decodeFrame_def Let_def)

lemma encode_header_tier [simp]: "fh_tier (encode_header opts tier pb) = tier"
  "fh_payloadLength (encode_header opts tier pb) = length pb"
  by (simp_all add: encode_header_def Let_def)

lemma nc_flags_bits:
  assumes "nc_supported tier"
    and "flags = (if x then nc_buildFlags ops f tier OR EXT_BIT else nc_buildFlags ops f tier)"
  shows "flags AND 3 = tier" and "(flags AND EXT_BIT \<noteq> 0) = x" and "flags AND 8 = 0"
    and "(flags AND 4 \<noteq> 0) = (fo_isLast ops f \<noteq> Some False)"
  using assms
  by (auto elim!: supported_cases simp: nc_buildFlags_def flag_consts Let_def split: option.splits)

lemma nc_encode_eq:
  assumes "fo_encode ops tier f = Some pb" "nc_supported tier" "length pb \<le> maxPayload"
    and "tier = (case overrideTier of None \<Rightarrow> fo_preferredTier ops f | Some t \<Rightarrow> t)"
    and "maxPayload \<le> EXTENDED_MAX_PAYLOAD"
  shows "\<exists>h. nc_encode ops maxPayload f overrideTier = Inr (hdr_toBytes h @ pb) \<and> hdr_wf h \<and>
             hdr_frameType h = fo_frameType ops f \<and> hdr_payloadLength h = length pb \<and>
             hdr_encodingTier h = tier \<and> \<not> hdr_isEncrypted h \<and>
             hdr_isFinal h = (fo_isLast ops f \<noteq> Some False) \<and>
             hdr_isExtended h = (length pb > DEFAULT_MAX_PAYLOAD)"
proof -
  let ?x = "length pb > DEFAULT_MAX_PAYLOAD"
  define flags where "flags = (if ?x then nc_buildFlags ops f tier OR EXT_BIT else nc_buildFlags ops f tier)"
  let ?h = "\<lparr>hdr_frameType = fo_frameType ops f, hdr_flags = flags, hdr_payloadLength = length pb\<rparr>"
  have e: "nc_encode ops maxPayload f overrideTier = Inr (hdr_toBytes ?h @ pb)"
    using assms by (simp add: nc_encode_def flags_def)
  note bits = nc_flags_bits [OF assms(2) flags_def]
  have "hdr_encodingTier ?h = tier \<and> \<not> hdr_isEncrypted ?h \<and>
      hdr_isFinal ?h = (fo_isLast ops f \<noteq> Some False) \<and> hdr_isExtended ?h = ?x"
    using bits by (simp add: hdr_encodingTier_def hdr_isEncrypted_def hdr_isFinal_def hdr_isExtended_def)
  moreover from this have "hdr_wf ?h"
    using assms(3,5) by (auto simp: hdr_wf_def)
  ultimately show ?thesis using e by (intro exI [of _ ?h]) auto
qed

lemma nc_decode_frame:
  assumes "hdr_wf h" "length pb = hdr_payloadLength h" "nc_supported (hdr_encodingTier h)"
    and "fo_registered ops (hdr_frameType h)"
  shows "nc_decode ops (hdr_toBytes h @ pb @ rest) =
    or_throw NpsCodecError (fo_decode ops (hdr_encodingTier h) (hdr_frameType h) pb)"
  using hdr_codec.frame_slice [OF assms(1,2), of rest] assms by (simp add: nc_decode_def)

lemma frame_registry_get:
  "js_get (foldl (\<lambda>m e. js_set m (re_frameType e) e) m es) ft =
     (case find (\<lambda>e. re_frameType e = ft) (rev es) of None \<Rightarrow> js_get m ft | Some e \<Rightarrow> Some e)"
  by (induction es rule: rev_induct) (auto simp: js_get_set)

section \<open>Properties\<close>

text \<open>C37: \<open>decodeFrame\<close> inverts \<open>encodeFrame\<close> of \<open>core/codecs/ncp-codec.ts\<close>, at the front of a
  longer buffer too: for a payload codec that decodes what it encoded, the decoded header is the
  one that was encoded (tier, final, encrypted and extended as the options ask, extended also when
  the payload exceeds 65535 bytes), the payload is the original, and exactly the frame is consumed.\<close>

theorem ncp_frame_roundtrip:
  assumes "tier = (case eo_tier opts of None \<Rightarrow> TIER_JSON | Some t \<Rightarrow> t)"
    and "encode_tier tc tier p = Inr pb" and "decode_tier tc tier pb = Inr p"
    and "length pb \<le> mx" and "mx \<le> EXTENDED_MAX_PAYLOAD"
  shows "\<exists>frame. encodeFrame tc p opts = Inr frame \<and>
    decodeFrame tc (frame @ rest) (Some mx) =
      Inr \<lparr>dr_header = encode_header opts tier pb, dr_payload = p, dr_bytesConsumed = length frame\<rparr>"
proof -
  have len: "length pb \<le> EXTENDED_MAX_PAYLOAD" using assms(4,5) by simp
  have wf: "fh_wf (encode_header opts tier pb)"
    by (rule encode_header_wf [OF encode_tier_supported [OF assms(2)] len])
  show ?thesis
    using encodeFrame_eq [OF assms(2,1) len] decodeFrame_frame [OF wf _ _ assms(4), of tc p rest] assms(3)
    by simp
qed

theorem ncp_frame_roundtrip_witness:
  "let tc = \<lparr>tc_encodeJson = Some, tc_decodeJson = Some, tc_encodeMsgPack = Some,
             tc_decodeMsgPack = Some, tc_encodeBinaryVector = Some, tc_decodeBinaryVector = Some\<rparr>;
       opts = \<lparr>eo_frameType = 0x10, eo_tier = Some 1, eo_final = Some True,
               eo_encrypted = None, eo_extended = Some True\<rparr>
   in \<exists>frame. encodeFrame tc [1, 2, 3] opts = Inr frame \<and>
      (\<exists>r. decodeFrame tc (frame @ [9]) (Some 65535) = Inr r \<and> dr_payload r = [1, 2, 3] \<and>
           dr_bytesConsumed r = length frame)"
proof -
  let ?tc = "\<lparr>tc_encodeJson = Some, tc_decodeJson = Some, tc_encodeMsgPack = Some,
     tc_decodeMsgPack = Some, tc_encodeBinaryVector = Some, tc_decodeBinaryVector = Some\<rparr>"
  let ?opts = "\<lparr>eo_frameType = 0x10, eo_tier = Some 1, eo_final = Some True,
     eo_encrypted = None, eo_extended = Some True\<rparr>"
  have "encode_tier ?tc 1 [1, 2, 3] = Inr [1, 2, 3]" "decode_tier ?tc 1 [1, 2, 3] = Inr [1, 2, 3]"
    by (simp_all add: encode_tier_def decode_tier_def tier_consts or_throw_def)
  then show ?thesis
    using ncp_frame_roundtrip [of 1 ?opts ?tc "[1, 2, 3]" "[1, 2, 3]" 65535 "[9]"]
    by (auto simp: header_consts)
qed

text \<open>\<open>NpsFrameCodec.decode\<close> inverts \<open>NpsFrameCodec.encode\<close> of \<open>core/codec.ts\<close>: whatever tier
  is used, the wire bytes decode to what the tier codec reads back from the payload, and the header
  on the wire carries the frame's type, that tier, the payload length, the final bit unless the
  frame is a stream frame that is not the last, and the extended bit exactly for payloads over
  65535 bytes.\<close>

theorem nps_codec_roundtrip:
  assumes "tier = (case overrideTier of None \<Rightarrow> fo_preferredTier ops f | Some t \<Rightarrow> t)"
    and "nc_supported tier" and "fo_encode ops tier f = Some pb"
    and "length pb \<le> maxPayload" and "maxPayload \<le> EXTENDED_MAX_PAYLOAD"
    and "fo_registered ops (fo_frameType ops f)"
    and "fo_decode ops tier (fo_frameType ops f) pb = Some f'"
  shows "\<exists>wire h. nc_encode ops maxPayload f overrideTier = Inr wire \<and>
    nc_decode ops (wire @ rest) = Inr f' \<and> hdr_parse (wire @ rest) = Inr h \<and>
    length wire = hdr_headerSize h + length pb \<and>
    hdr_frameType h = fo_frameType ops f \<and> hdr_payloadLength h = length pb \<and>
    hdr_encodingTier h = tier \<and> \<not> hdr_isEncrypted h \<and>
    hdr_isFinal h = (fo_isLast ops f \<noteq> Some False) \<and>
    hdr_isExtended h = (length pb > DEFAULT_MAX_PAYLOAD)"
proof -
  from nc_encode_eq [OF assms(3,2,4,1,5)] obtain h where
    e: "nc_encode ops maxPayload f overrideTier = Inr (hdr_toBytes h @ pb)" "hdr_wf h"
    and h: "hdr_frameType h = fo_frameType ops f" "hdr_payloadLength h = length pb"
      "hdr_encodingTier h = tier" "\<not> hdr_isEncrypted h"
      "hdr_isFinal h = (fo_isLast ops f \<noteq> Some False)"
      "hdr_isExtended h = (length pb > DEFAULT_MAX_PAYLOAD)" by blast
  have "nc_decode ops (hdr_toBytes h @ pb @ rest) = Inr f'"
    using nc_decode_frame [of h pb ops rest] e(2) h(1-3) assms(2,6,7) by simp
  moreover have "hdr_parse (hdr_toBytes h @ pb @ rest) = Inr h"
    by (rule hdr_parse_toBytes [OF e(2)])
  ultimately show ?thesis
    using e h by (intro exI [of _ "hdr_toBytes h @ pb"] exI [of _ h]) simp
qed

theorem nps_codec_roundtrip_witness:
  "let ops = \<lparr>fo_frameType = (\<lambda>(b, l). 0x03), fo_preferredTier = (\<lambda>_. 1), fo_isLast = (\<lambda>(b, l). Some l),
              fo_encode = (\<lambda>t (b, l). Some [b]), fo_registered = (\<lambda>ft. ft = 0x03),
              fo_decode = (\<lambda>t ft pb. case pb of [b] \<Rightarrow> Some (b, False) | _ \<Rightarrow> None)\<rparr>
   in \<exists>wire. nc_encode ops 65535 (7, False) None = Inr wire \<and> nc_decode ops (wire @ []) = Inr (7, False)"
proof -
  let ?ops = "\<lparr>fo_frameType = (\<lambda>(b, l). 0x03), fo_preferredTier = (\<lambda>_. 1), fo_isLast = (\<lambda>(b, l). Some l),
      fo_encode = (\<lambda>t (b, l). Some [b]), fo_registered = (\<lambda>ft. ft = 0x03),
      fo_decode = (\<lambda>t ft pb. case pb of [b] \<Rightarrow> Some (b, False) | _ \<Rightarrow> None)\<rparr>"
  have "nc_supported 1" by (simp add: nc_supported_def tier_consts)
  then show ?thesis
    using nps_codec_roundtrip [where tier = 1 and overrideTier = None and ops = ?ops and f = "(7, False)"
      and pb = "[7]" and maxPayload = 65535 and f' = "(7, False)" and rest = "[]"]
    by (auto simp: header_consts)
qed

end
