(* ===== verification/Contracts.thy ===== *)
theory Contracts
  imports Prelude
begin

text \<open>
  Contracts that several components of the SDK share, stated as locales. A component's own
  theory interprets the contract on the component's model and states its properties through
  the facts proved here.

  \<^item> \<open>invariant_machine\<close>: every event handler keeps a well-formedness invariant.
  \<^item> \<open>monotone_machine\<close>: a per-key rank (an epoch, a sequence number) never decreases.
  \<^item> \<open>final_machine\<close>: an outcome, once recorded for a key, is never changed.
  \<^item> \<open>expiring_store\<close>: a store with lazy purging, whose observable content at a time
    is what has not expired by then.
\<close>

definition run :: "('s \<Rightarrow> 'e \<Rightarrow> 's) \<Rightarrow> 's \<Rightarrow> 'e list \<Rightarrow> 's" where
  "run step s es = foldl step s es"

lemma run_Nil [simp]: "run step s [] = s"
  by (simp add: run_def)

lemma run_Cons [simp]: "run step s (e # es) = run step (step s e) es"
  by (simp add: run_def)

lemma run_append [simp]: "run step s (es @ fs) = run step (run step s es) fs"
  by (simp add: run_def)

locale invariant_machine =
  fixes step :: "'s \<Rightarrow> 'e \<Rightarrow> 's"
    and inv :: "'s \<Rightarrow> bool"
  assumes step_inv: "inv s \<Longrightarrow> inv (step s e)"
begin

lemma run_inv: "inv s \<Longrightarrow> inv (run step s es)"
  by (induction es arbitrary: s) (auto intro: step_inv)

end

locale monotone_machine = invariant_machine step inv
  for step :: "'s \<Rightarrow> 'e \<Rightarrow> 's" and inv :: "'s \<Rightarrow> bool" +
  fixes rank :: "'s \<Rightarrow> 'k \<Rightarrow> 'r :: linorder option"
  assumes rank_step: "inv s \<Longrightarrow> rank s k = Some n \<Longrightarrow> \<exists>m. rank (step s e) k = Some m \<and> n \<le> m"
begin

lemma run_rank: "inv s \<Longrightarrow> rank s k = Some n \<Longrightarrow> \<exists>m. rank (run step s es) k = Some m \<and> n \<le> m"
proof (induction es arbitrary: s n)
  case Nil
  then show ?case by simp
next
  case (Cons e es)
  from rank_step [OF Cons.prems, of e] obtain n' where
    n': "rank (step s e) k = Some n'" "n \<le> n'" by blast
  from Cons.IH [OF step_inv [OF Cons.prems(1)] n'(1)] obtain m where
    "rank (run step (step s e) es) k = Some m" "n' \<le> m" by blast
  with n' show ?case by auto
qed

text \<open>An attribute that only changes together with the rank is the same at two moments of equal rank.\<close>

lemma run_same_rank:
  assumes keep: "\<And>s e. inv s \<Longrightarrow> rank s k = Some n \<Longrightarrow> rank (step s e) k = Some n \<Longrightarrow> att (step s e) = att s"
    and "inv s" "rank s k = Some n" "rank (run step s es) k = Some n"
  shows "att (run step s es) = att s"
  using assms(2-4)
proof (induction es arbitrary: s)
  case Nil
  then show ?case by simp
next
  case (Cons e es)
  from rank_step [OF Cons.prems(1,2), of e] obtain n' where
    n': "rank (step s e) k = Some n'" "n \<le> n'" by blast
  from run_rank [OF step_inv [OF Cons.prems(1)] n'(1), of es] Cons.prems(3) have "n' \<le> n" by simp
  with n' have eq: "rank (step s e) k = Some n" by simp
  show ?case
    using Cons.IH [OF step_inv [OF Cons.prems(1)] eq] Cons.prems(3) keep [OF Cons.prems(1,2) eq] by simp
qed

end

locale final_machine = invariant_machine step inv
  for step :: "'s \<Rightarrow> 'e \<Rightarrow> 's" and inv :: "'s \<Rightarrow> bool" +
  fixes outcome :: "'s \<Rightarrow> 'k \<Rightarrow> 'o option"
  assumes outcome_step: "inv s \<Longrightarrow> outcome s k = Some x \<Longrightarrow> outcome (step s e) k = Some x"
begin

lemma run_outcome: "inv s \<Longrightarrow> outcome s k = Some x \<Longrightarrow> outcome (run step s es) k = Some x"
  by (induction es arbitrary: s) (auto intro: step_inv outcome_step)

lemma run_outcome_unique:
  assumes "inv s" "outcome (run step s es) k = Some x" "outcome (run step s (es @ fs)) k = Some y"
  shows "y = x"
  using run_outcome [OF run_inv [OF assms(1)] assms(2), of fs] assms(3) by simp

end

locale expiring_store =
  fixes get :: "int \<Rightarrow> 'k \<Rightarrow> 's \<Rightarrow> 'v option \<times> 's"
    and live :: "int \<Rightarrow> 's \<Rightarrow> 'k \<Rightarrow> 'v option"
    and inv :: "'s \<Rightarrow> bool"
  assumes get_live: "inv s \<Longrightarrow> fst (get now k s) = live now s k"
    and get_keeps: "inv s \<Longrightarrow> now \<le> now' \<Longrightarrow> live now' (snd (get now k s)) k' = live now' s k'"
    and get_inv: "inv s \<Longrightarrow> inv (snd (get now k s))"
    and live_antimono: "inv s \<Longrightarrow> now \<le> now' \<Longrightarrow> live now' s k = Some v \<Longrightarrow> live now s k = Some v"
begin

text \<open>A list of reads, each at its own time, threading the purged store.\<close>

definition reads :: "(int \<times> 'k) list \<Rightarrow> 's \<Rightarrow> 's" where
  "reads rs s = foldl (\<lambda>s (now, k). snd (get now k s)) s rs"

lemma reads_inv: "inv s \<Longrightarrow> inv (reads rs s)"
  by (induction rs arbitrary: s) (auto simp: reads_def get_inv)

lemma reads_keep:
  assumes "inv s" "\<forall>(t, k) \<in> set rs. t \<le> now"
  shows "live now (reads rs s) k' = live now s k'"
  using assms
proof (induction rs arbitrary: s)
  case Nil
  then show ?case by (simp add: reads_def)
next
  case (Cons r rs)
  obtain t k where r: "r = (t, k)" by (cases r)
  have eq: "reads (r # rs) s = reads rs (snd (get t k s))"
    by (simp add: reads_def r)
  have "live now (reads rs (snd (get t k s))) k' = live now (snd (get t k s)) k'"
    using Cons.IH [OF get_inv [OF Cons.prems(1)]] Cons.prems(2) by simp
  also have "\<dots> = live now s k'"
    using Cons.prems r by (intro get_keeps) auto
  finally show ?case by (simp add: eq)
qed

text \<open>Lazy purging is not observable: a read after any earlier reads sees what a read of
  the untouched store would have seen.\<close>

lemma get_after_reads:
  assumes "inv s" "\<forall>(t, k) \<in> set rs. t \<le> now"
  shows "fst (get now k (reads rs s)) = live now s k"
  using get_live [OF reads_inv [OF assms(1)]] reads_keep [OF assms] by simp

lemma expired_stays_expired:
  assumes "inv s" "live now s k = None" "now \<le> now'"
  shows "live now' s k = None"
  using live_antimono [OF assms(1,3)] assms(2) by (cases "live now' s k") auto

end

end
