(* ===== verification/FrameReader.thy ===== *)
theory FrameReader
  imports FrameHeader Contracts
begin

text \<open>
  \<open>ncp/socket-frame-reader.ts\<close>: the reader that turns the chunks a socket delivers into frames,
  used by a client that calls \<open>readFrame\<close> again as soon as the last call returned (the receive
  loop over \<open>NcpSession.receiveFrame\<close>).

  An \<open>async\<close> method is a coroutine: its program counter records the \<open>await\<close> at which it is
  suspended. \<open>readExactly\<close> suspends when the buffer is too short; every socket event wakes it and
  it tests the condition again. Proved: however the bytes of a connection are cut into chunks,
  the frames delivered are those of the reference splitter on the whole byte stream.
\<close>

section \<open>State\<close>

datatype read_error = NcpStreamClosedError nat nat | SocketError string | HeaderError nps_error

record sock_reader =
  sr_buffer :: bytes
  sr_ended :: bool
  sr_error :: "string option"

datatype read_pc = AwaitPeek | AwaitRest bytes | AwaitPayload hdr bytes

datatype 'a await_result = Suspend | Throw read_error | Return 'a

definition sr_append :: "bytes \<Rightarrow> sock_reader \<Rightarrow> sock_reader" where
  "sr_append chunk s = (if chunk = [] then s else s\<lparr>sr_buffer := sr_buffer s @ chunk\<rparr>)"

text \<open>One pass of the \<open>while\<close> loop of \<open>readExactly\<close>; \<open>Suspend\<close> is the \<open>await\<close> in its body.\<close>

definition readExactly :: "nat \<Rightarrow> sock_reader \<Rightarrow> (bytes \<times> sock_reader) await_result" where
  "readExactly n s =
     (if length (sr_buffer s) < n then
        (case sr_error s of Some e \<Rightarrow> Throw (SocketError e)
         | None \<Rightarrow> if sr_ended s then Throw (NcpStreamClosedError n (length (sr_buffer s))) else Suspend)
      else Return (take n (sr_buffer s), s\<lparr>sr_buffer := drop n (sr_buffer s)\<rparr>))"

text \<open>Running \<open>readFrame\<close> from the await it is suspended at to the next one, or to its end.\<close>

datatype frame_outcome =
    FSuspended read_pc sock_reader
  | FThrown read_error
  | FFrame hdr bytes sock_reader

definition resume_payload :: "hdr \<Rightarrow> bytes \<Rightarrow> sock_reader \<Rightarrow> frame_outcome" where
  "resume_payload header raw s = (case readExactly (hdr_payloadLength header) s of
     Suspend \<Rightarrow> FSuspended (AwaitPayload header raw) s
   | Throw e \<Rightarrow> FThrown e
   | Return (payload, s') \<Rightarrow> FFrame header (raw @ payload) s')"

definition resume_rest :: "bytes \<Rightarrow> sock_reader \<Rightarrow> frame_outcome" where
  "resume_rest peek s =
     (let ext = (peek ! 1 AND EXT_BIT \<noteq> 0);
          remaining = (if ext then EXTENDED_HEADER_SIZE - 2 else DEFAULT_HEADER_SIZE - 2)
      in case readExactly remaining s of
           Suspend \<Rightarrow> FSuspended (AwaitRest peek) s
         | Throw e \<Rightarrow> FThrown e
         | Return (rest, s') \<Rightarrow>
             (case hdr_parse (peek @ rest) of
                Inl e \<Rightarrow> FThrown (HeaderError e)
              | Inr header \<Rightarrow> resume_payload header (peek @ rest) s'))"

fun readFrame :: "read_pc \<Rightarrow> sock_reader \<Rightarrow> frame_outcome" where
  "readFrame AwaitPeek s = (case readExactly 2 s of
     Suspend \<Rightarrow> FSuspended AwaitPeek s
   | Throw e \<Rightarrow> FThrown e
   | Return (peek, s') \<Rightarrow> resume_rest peek s')"
| "readFrame (AwaitRest peek) s = resume_rest peek s"
| "readFrame (AwaitPayload header raw) s = resume_payload header raw s"

section \<open>The receive loop\<close>

record recv =
  rc_sock :: sock_reader
  rc_pc :: read_pc
  rc_frames :: "(hdr \<times> bytes) list"
  rc_thrown :: "read_error option"

definition recv_init :: recv where
  "recv_init = \<lparr>rc_sock = \<lparr>sr_buffer = [], sr_ended = False, sr_error = None\<rparr>,
     rc_pc = AwaitPeek, rc_frames = [], rc_thrown = None\<rparr>"

lemma readExactly_Return:
  "readExactly n s = Return (out, s') \<longleftrightarrow>
     n \<le> length (sr_buffer s) \<and> out = take n (sr_buffer s) \<and> s' = s\<lparr>sr_buffer := drop n (sr_buffer s)\<rparr>"
  by (auto simp: readExactly_def split: option.splits)

lemma readFrame_consumes:
  assumes "readFrame pc s = FFrame h w s'"
  shows "length (sr_buffer s') \<le> length (sr_buffer s)"
    and "pc = AwaitPeek \<Longrightarrow> length (sr_buffer s') < length (sr_buffer s)"
proof -
  have p: "resume_payload h0 raw t = FFrame h w s' \<Longrightarrow> length (sr_buffer s') \<le> length (sr_buffer t)"
    for h0 raw t
    by (auto simp: resume_payload_def readExactly_Return split: await_result.splits)
  have r: "resume_rest pk t = FFrame h w s' \<Longrightarrow> length (sr_buffer s') \<le> length (sr_buffer t)" for pk t
    by (fastforce simp: resume_rest_def readExactly_Return Let_def dest!: p
        split: await_result.splits sum.splits if_splits)
  show "length (sr_buffer s') \<le> length (sr_buffer s)"
    using assms by (cases pc) (auto simp: readExactly_Return dest!: p r split: await_result.splits)
  show "pc = AwaitPeek \<Longrightarrow> length (sr_buffer s') < length (sr_buffer s)"
    using assms by (auto simp: readExactly_Return dest!: r split: await_result.splits)
qed

text \<open>Resuming the pending call and, while frames complete, calling \<open>readFrame\<close> again.\<close>

function pump :: "read_pc \<Rightarrow> sock_reader \<Rightarrow> (hdr \<times> bytes) list \<Rightarrow> recv" where
  "pump pc s acc = (case readFrame pc s of
     FSuspended pc' s' \<Rightarrow> \<lparr>rc_sock = s', rc_pc = pc', rc_frames = acc, rc_thrown = None\<rparr>
   | FThrown e \<Rightarrow> \<lparr>rc_sock = s, rc_pc = pc, rc_frames = acc, rc_thrown = Some e\<rparr>
   | FFrame h w s' \<Rightarrow> pump AwaitPeek s' (acc @ [(h, w)]))"
  by auto
termination
proof (relation "measure (\<lambda>(pc, s, acc). 2 * length (sr_buffer s) + (if pc = AwaitPeek then 0 else 1))")
  show "wf (measure (\<lambda>(pc, s, acc). 2 * length (sr_buffer s) + (if pc = AwaitPeek then 0 else 1)))" by simp
next
  fix pc :: read_pc and s acc h w s'
  assume "readFrame pc s = FFrame h w s'"
  from readFrame_consumes [OF this]
  show "((AwaitPeek, s', acc @ [(h, w)]), pc, s, acc)
    \<in> measure (\<lambda>(pc, s, acc). 2 * length (sr_buffer s) + (if pc = AwaitPeek then 0 else 1))"
    by (cases "pc = AwaitPeek") auto
qed

declare pump.simps [simp del]

datatype sock_event = Data bytes | SockEnd | SockClose | SockErr string

text \<open>The socket's event handlers; \<open>_wakeAll\<close> resumes the pending call. An empty chunk wakes
  nobody. After the pending call has thrown there is nobody to wake.\<close>

definition wake :: "sock_reader \<Rightarrow> recv \<Rightarrow> recv" where
  "wake s r = (if rc_thrown r \<noteq> None then r\<lparr>rc_sock := s\<rparr> else pump (rc_pc r) s (rc_frames r))"

fun sock_step :: "recv \<Rightarrow> sock_event \<Rightarrow> recv" where
  "sock_step r (Data chunk) = (if chunk = [] then r else wake (sr_append chunk (rc_sock r)) r)"
| "sock_step r SockEnd = wake ((rc_sock r)\<lparr>sr_ended := True\<rparr>) r"
| "sock_step r SockClose = wake ((rc_sock r)\<lparr>sr_ended := True\<rparr>) r"
| "sock_step r (SockErr e) = wake ((rc_sock r)\<lparr>sr_error := Some e\<rparr>) r"

section \<open>Reference splitter\<close>

text \<open>The complete frames at the front of a byte stream, and what is left.\<close>

definition next_frame :: "bytes \<Rightarrow> (hdr \<times> bytes \<times> bytes) option" where
  "next_frame b = (case hdr_parse b of Inl e \<Rightarrow> None
     | Inr h \<Rightarrow> let n = hdr_headerSize h + hdr_payloadLength h in
         if length b < n then None else Some (h, take n b, drop n b))"

lemma hdr_headerSize_pos: "4 \<le> hdr_headerSize h"
  by (simp add: hdr_headerSize_def header_consts)

lemma next_frame_shorter: "next_frame b = Some (h, w, r) \<Longrightarrow> length r < length b"
  using hdr_headerSize_pos [of h]
  by (auto simp: next_frame_def Let_def split: sum.splits if_splits)

function split_frames :: "bytes \<Rightarrow> (hdr \<times> bytes) list \<times> bytes" where
  "split_frames b = (case next_frame b of None \<Rightarrow> ([], b)
     | Some (h, w, r) \<Rightarrow> (let (fs, t) = split_frames r in ((h, w) # fs, t)))"
  by auto
termination
  by (relation "measure length") (auto dest: next_frame_shorter)

declare split_frames.simps [simp del]

lemma getUint_append:
  "i + 1 < length a \<Longrightarrow> getUint16 (a @ b) i = getUint16 a i"
  "i + 3 < length a \<Longrightarrow> getUint32 (a @ b) i = getUint32 a i"
  by (simp_all add: getUint16_def getUint32_def nth_append)

lemma hdr_parse_append: "hdr_parse a = Inr h \<Longrightarrow> hdr_parse (a @ b) = Inr h"
  by (auto simp: hdr_parse_def Let_def nth_append getUint_append header_consts split: if_splits)

lemma next_frame_append: "next_frame a = Some (h, w, r) \<Longrightarrow> next_frame (a @ b) = Some (h, w, r @ b)"
  by (auto simp: next_frame_def Let_def hdr_parse_append split: sum.splits if_splits)

lemma split_frames_append:
  "split_frames a = (fs, t) \<Longrightarrow> split_frames (a @ b) = (fs @ fst (split_frames (t @ b)), snd (split_frames (t @ b)))"
proof (induction a arbitrary: fs t rule: split_frames.induct)
  case (1 a)
  show ?case
  proof (cases "next_frame a")
    case None
    with 1(2) have "fs = []" "t = a" by (simp_all add: split_frames.simps [of a])
    then show ?thesis by simp
  next
    case (Some p)
    obtain h w r where p: "p = (h, w, r)" by (cases p)
    with Some have n: "next_frame a = Some (h, w, r)" by simp
    obtain fs' t' where s: "split_frames r = (fs', t')" by (cases "split_frames r")
    from 1(2) n s have eq: "fs = (h, w) # fs'" "t = t'" by (simp_all add: split_frames.simps [of a])
    have "split_frames (r @ b) = (fs' @ fst (split_frames (t' @ b)), snd (split_frames (t' @ b)))"
      using 1(1) [OF Some] s p by simp
    then show ?thesis
      using next_frame_append [OF n, of b] eq by (simp add: split_frames.simps [of "a @ b"])
  qed
qed

section \<open>The coroutine against the splitter\<close>

text \<open>The bytes the pending call has taken from the buffer already.\<close>

fun pc_bytes :: "read_pc \<Rightarrow> bytes" where
  "pc_bytes AwaitPeek = []"
| "pc_bytes (AwaitRest peek) = peek"
| "pc_bytes (AwaitPayload h raw) = raw"

fun pc_ok :: "read_pc \<Rightarrow> bool" where
  "pc_ok AwaitPeek = True"
| "pc_ok (AwaitRest peek) = (length peek = 2)"
| "pc_ok (AwaitPayload h raw) = (hdr_parse raw = Inr h \<and> length raw = hdr_headerSize h)"

definition open_sock :: "sock_reader \<Rightarrow> bool" where
  "open_sock s \<longleftrightarrow> \<not> sr_ended s \<and> sr_error s = None"

definition agrees :: "read_pc \<Rightarrow> sock_reader \<Rightarrow> frame_outcome \<Rightarrow> bool" where
  "agrees pc s out \<longleftrightarrow> (let b = pc_bytes pc @ sr_buffer s in case out of
     FSuspended pc' s' \<Rightarrow> next_frame b = None \<and> pc_ok pc' \<and> open_sock s' \<and> pc_bytes pc' @ sr_buffer s' = b
   | FThrown e \<Rightarrow> False
   | FFrame h w s' \<Rightarrow> next_frame b = Some (h, w, sr_buffer s') \<and> open_sock s')"

lemma readExactly_open:
  "open_sock s \<Longrightarrow> readExactly n s =
     (if length (sr_buffer s) < n then Suspend
      else Return (take n (sr_buffer s), s\<lparr>sr_buffer := drop n (sr_buffer s)\<rparr>))"
  by (simp add: readExactly_def open_sock_def)

lemma open_sock_buffer [simp]: "open_sock (s\<lparr>sr_buffer := b\<rparr>) = open_sock s"
  by (simp add: open_sock_def)

lemma resume_payload_agrees:
  assumes "open_sock s" "hdr_parse raw = Inr h" "length raw = hdr_headerSize h"
  shows "agrees (AwaitPayload h raw) s (resume_payload h raw s)"
  using assms
  by (auto simp: agrees_def resume_payload_def readExactly_open next_frame_def hdr_parse_append Let_def)

lemma hdr_parse_short:
  assumes "length peek = 2" "length b < (if peek ! 1 AND EXT_BIT \<noteq> 0 then 6 else 2)"
  shows "\<exists>e. hdr_parse (peek @ b) = Inl e"
  using assms by (auto simp: hdr_parse_def Let_def nth_append header_consts split: if_splits)

lemma hdr_parse_exact:
  assumes "length peek = 2" "length rest = (if peek ! 1 AND EXT_BIT \<noteq> 0 then 6 else 2)"
  obtains h where "hdr_parse (peek @ rest) = Inr h" "length (peek @ rest) = hdr_headerSize h"
  using assms that
  by (auto simp: hdr_parse_def hdr_headerSize_def hdr_isExtended_def Let_def nth_append header_consts
      split: if_splits)

lemma agrees_shift:
  assumes "agrees pc s out" "pc_bytes pc @ sr_buffer s = pc_bytes pc' @ sr_buffer s'"
  shows "agrees pc' s' out"
  using assms by (simp add: agrees_def)

lemma resume_rest_agrees:
  assumes "open_sock s" "length peek = 2"
  shows "agrees (AwaitRest peek) s (resume_rest peek s)"
proof -
  let ?n = "if peek ! 1 AND EXT_BIT \<noteq> 0 then 6 else 2 :: nat"
  show ?thesis
  proof (cases "length (sr_buffer s) < ?n")
    case True
    from hdr_parse_short [OF assms(2) this] obtain e where "hdr_parse (peek @ sr_buffer s) = Inl e" ..
    with True show ?thesis
      using assms by (cases "peek ! 1 AND EXT_BIT = 0")
        (simp_all add: resume_rest_def header_consts readExactly_open agrees_def next_frame_def)
  next
    case False
    let ?rest = "take ?n (sr_buffer s)" and ?s = "s\<lparr>sr_buffer := drop ?n (sr_buffer s)\<rparr>"
    from False obtain h where h: "hdr_parse (peek @ ?rest) = Inr h" "length (peek @ ?rest) = hdr_headerSize h"
      using hdr_parse_exact [OF assms(2), of ?rest] by auto
    have "resume_rest peek s = resume_payload h (peek @ ?rest) ?s"
      using False assms h(1) by (cases "peek ! 1 AND EXT_BIT = 0")
        (simp_all add: resume_rest_def header_consts readExactly_open)
    with resume_payload_agrees [of ?s, OF _ h] show ?thesis
      using assms(1) by (auto intro: agrees_shift)
  qed
qed

lemma readFrame_agrees:
  assumes "open_sock s" "pc_ok pc"
  shows "agrees pc s (readFrame pc s)"
proof (cases pc)
  case AwaitPeek
  show ?thesis
  proof (cases "length (sr_buffer s) < 2")
    case True
    then show ?thesis
      using AwaitPeek assms by (simp add: readExactly_open agrees_def next_frame_def hdr_parse_def)
  next
    case False
    let ?s = "s\<lparr>sr_buffer := drop 2 (sr_buffer s)\<rparr>"
    have "readFrame pc s = resume_rest (take 2 (sr_buffer s)) ?s"
      using AwaitPeek False assms by (simp add: readExactly_open)
    with resume_rest_agrees [of ?s "take 2 (sr_buffer s)"] show ?thesis
      using AwaitPeek False assms(1) by (auto intro: agrees_shift)
  qed
qed (use assms in \<open>auto intro: resume_rest_agrees resume_payload_agrees\<close>)

lemma pump_splits:
  assumes "open_sock s" "pc_ok pc" "split_frames (pc_bytes pc @ sr_buffer s) = (fs, t)"
  shows "rc_frames (pump pc s acc) = acc @ fs \<and> rc_thrown (pump pc s acc) = None \<and>
         pc_ok (rc_pc (pump pc s acc)) \<and> open_sock (rc_sock (pump pc s acc)) \<and>
         pc_bytes (rc_pc (pump pc s acc)) @ sr_buffer (rc_sock (pump pc s acc)) = t"
  using assms
proof (induction pc s acc arbitrary: fs rule: pump.induct)
  case (1 pc s acc)
  note ag = readFrame_agrees [OF 1(2,3)]
  show ?case
  proof (cases "readFrame pc s")
    case (FSuspended pc' s')
    then show ?thesis
      using ag 1(4) by (simp add: pump.simps [of pc s] agrees_def Let_def split_frames.simps [of "pc_bytes pc @ sr_buffer s"])
  next
    case (FThrown e)
    then show ?thesis using ag by (simp add: agrees_def)
  next
    case (FFrame h w s')
    have n: "next_frame (pc_bytes pc @ sr_buffer s) = Some (h, w, sr_buffer s')" "open_sock s'"
      using ag FFrame by (simp_all add: agrees_def Let_def)
    obtain fs' where fs': "split_frames (sr_buffer s') = (fs', t)" "fs = (h, w) # fs'"
      using 1(4) n(1) by (auto simp: split_frames.simps [of "pc_bytes pc @ sr_buffer s"] split: prod.splits)
    show ?thesis
      using 1(1) [OF FFrame n(2)] fs' FFrame by (simp add: pump.simps [of pc s])
  qed
qed

section \<open>The receive loop under any chunking\<close>

definition recv_ok :: "recv \<Rightarrow> bool" where
  "recv_ok r \<longleftrightarrow> open_sock (rc_sock r) \<and> pc_ok (rc_pc r) \<and> rc_thrown r = None \<and>
     split_frames (pc_bytes (rc_pc r) @ sr_buffer (rc_sock r)) = ([], pc_bytes (rc_pc r) @ sr_buffer (rc_sock r))"

lemma split_frames_rest: "split_frames b = (fs, t) \<Longrightarrow> split_frames t = ([], t)"
proof (induction b arbitrary: fs rule: split_frames.induct)
  case (1 b)
  show ?case
  proof (cases "next_frame b")
    case None
    then show ?thesis using 1(2) by (simp add: split_frames.simps [of b] split_frames.simps [of t])
  next
    case (Some p)
    obtain h w r where p: "p = (h, w, r)" by (cases p)
    with Some 1(2) obtain fs' where "split_frames r = (fs', t)"
      by (auto simp: split_frames.simps [of b] split: prod.splits)
    then show ?thesis using 1(1) [OF Some] p by simp
  qed
qed

lemma data_step:
  assumes "recv_ok r"
  defines "b \<equiv> pc_bytes (rc_pc r) @ sr_buffer (rc_sock r)"
  shows "recv_ok (sock_step r (Data c)) \<and>
    rc_frames (sock_step r (Data c)) = rc_frames r @ fst (split_frames (b @ c)) \<and>
    pc_bytes (rc_pc (sock_step r (Data c))) @ sr_buffer (rc_sock (sock_step r (Data c))) = snd (split_frames (b @ c))"
proof (cases "c = []")
  case True
  then show ?thesis using assms by (simp add: recv_ok_def b_def)
next
  case False
  let ?s = "sr_append c (rc_sock r)"
  have s: "open_sock ?s" "pc_bytes (rc_pc r) @ sr_buffer ?s = b @ c"
    using False assms by (simp_all add: sr_append_def recv_ok_def b_def)
  have e: "sock_step r (Data c) = pump (rc_pc r) ?s (rc_frames r)"
    using False assms(1) by (simp add: wake_def recv_ok_def)
  obtain fs t where sp: "split_frames (b @ c) = (fs, t)" by (cases "split_frames (b @ c)")
  note p = pump_splits [of ?s "rc_pc r" fs t "rc_frames r"]
  show ?thesis
    using p s sp assms(1) split_frames_rest [OF sp] unfolding e by (simp add: recv_ok_def)
qed

lemma recv_ok_init: "recv_ok recv_init"
  by (simp add: recv_ok_def recv_init_def open_sock_def split_frames.simps [of "[]"] next_frame_def hdr_parse_def)

lemma data_steps:
  assumes "recv_ok r"
  defines "b \<equiv> pc_bytes (rc_pc r) @ sr_buffer (rc_sock r)"
  shows "recv_ok (run sock_step r (map Data cs)) \<and>
    rc_frames (run sock_step r (map Data cs)) = rc_frames r @ fst (split_frames (b @ concat cs)) \<and>
    pc_bytes (rc_pc (run sock_step r (map Data cs))) @ sr_buffer (rc_sock (run sock_step r (map Data cs)))
      = snd (split_frames (b @ concat cs))"
  using assms(1) unfolding b_def
proof (induction cs arbitrary: r)
  case Nil
  then show ?case by (simp add: recv_ok_def)
next
  case (Cons c cs)
  let ?b = "pc_bytes (rc_pc r) @ sr_buffer (rc_sock r)"
  obtain fs t where sp: "split_frames (?b @ c) = (fs, t)" by (cases "split_frames (?b @ c)")
  from data_step [OF Cons.prems, of c] sp show ?case
    using Cons.IH [of "sock_step r (Data c)"] split_frames_append [OF sp, of "concat cs"] by simp
qed

lemma split_frames_encoded:
  assumes "\<forall>(h, p) \<in> set fs. hdr_wf h \<and> length p = hdr_payloadLength h"
  shows "split_frames (concat (map (\<lambda>(h, p). hdr_toBytes h @ p) fs) @ rest)
    = (map (\<lambda>(h, p). (h, hdr_toBytes h @ p)) fs @ fst (split_frames rest), snd (split_frames rest))"
  using assms
proof (induction fs)
  case Nil
  then show ?case by simp
next
  case (Cons f fs)
  obtain h p where f: "f = (h, p)" by (cases f)
  let ?tl = "concat (map (\<lambda>(h, p). hdr_toBytes h @ p) fs) @ rest"
  from Cons.prems f have wf: "hdr_wf h" "length p = hdr_payloadLength h" by auto
  have "next_frame (hdr_toBytes h @ p @ ?tl) = Some (h, hdr_toBytes h @ p, ?tl)"
    using hdr_codec.frame_slice [OF wf, of ?tl] wf(2) by (simp add: next_frame_def)
  then show ?case
    using Cons f by (simp add: split_frames.simps [of "hdr_toBytes h @ p @ ?tl"])
qed

lemma recv_run_init:
  "rc_frames (run sock_step recv_init (map Data cs)) = fst (split_frames (concat cs)) \<and>
   pc_bytes (rc_pc (run sock_step recv_init (map Data cs))) @ sr_buffer (rc_sock (run sock_step recv_init (map Data cs)))
     = snd (split_frames (concat cs)) \<and>
   recv_ok (run sock_step recv_init (map Data cs))"
  using data_steps [OF recv_ok_init, of cs] by (simp add: recv_init_def)

lemma pc_ok_empty: "pc_ok pc \<Longrightarrow> pc_bytes pc = [] \<Longrightarrow> pc = AwaitPeek"
  using hdr_headerSize_pos by (cases pc) (auto simp: hdr_parse_def)

lemma end_at_boundary:
  assumes "recv_ok r" "pc_bytes (rc_pc r) @ sr_buffer (rc_sock r) = []"
  shows "rc_frames (sock_step r SockEnd) = rc_frames r \<and>
    rc_thrown (sock_step r SockEnd) = Some (NcpStreamClosedError 2 0)"
proof -
  have "rc_pc r = AwaitPeek" "sr_buffer (rc_sock r) = []" "sr_error (rc_sock r) = None" "rc_thrown r = None"
    using assms pc_ok_empty by (auto simp: recv_ok_def open_sock_def)
  then show ?thesis by (simp add: wake_def pump.simps [of AwaitPeek] readExactly_def)
qed

section \<open>Properties\<close>

text \<open>C36: reassembly does not depend on how the network cuts the byte stream: after any sequence
  of data chunks, the frames \<open>readFrame\<close> has delivered are exactly the complete frames at the front
  of the concatenation, in order; nothing has been thrown; and the bytes held back (in the buffer
  and by the suspended call) are exactly the incomplete rest.\<close>

theorem reader_chunking:
  "let r = run sock_step recv_init (map Data cs); (frames, rest) = split_frames (concat cs)
   in rc_frames r = frames \<and> rc_thrown r = None \<and> pc_bytes (rc_pc r) @ sr_buffer (rc_sock r) = rest"
  using recv_run_init [of cs] by (simp add: recv_ok_def Let_def split: prod.splits)

text \<open>End to end: frames written with \<open>FrameHeader.toBytes\<close> and their payloads, sent in any
  chunks, are delivered one by one with their headers and wire bytes; when the peer then closes,
  the pending read throws \<open>NcpStreamClosedError(2, 0)\<close> and no further frame is delivered.\<close>

theorem reader_delivers:
  assumes "\<forall>(h, p) \<in> set fs. hdr_wf h \<and> length p = hdr_payloadLength h"
    and "concat cs = concat (map (\<lambda>(h, p). hdr_toBytes h @ p) fs)"
  shows "rc_frames (run sock_step recv_init (map Data cs @ [SockEnd])) = map (\<lambda>(h, p). (h, hdr_toBytes h @ p)) fs
    \<and> rc_thrown (run sock_step recv_init (map Data cs @ [SockEnd])) = Some (NcpStreamClosedError 2 0)"
proof -
  have e: "split_frames [] = ([], [])"
    by (simp add: split_frames.simps [of "[]"] next_frame_def hdr_parse_def)
  have "split_frames (concat cs) = (map (\<lambda>(h, p). (h, hdr_toBytes h @ p)) fs, [])"
    using split_frames_encoded [OF assms(1), of "[]"] assms(2) e by simp
  with recv_run_init [of cs] show ?thesis
    using end_at_boundary [of "run sock_step recv_init (map Data cs)"] by simp
qed

theorem reader_delivers_witness:
  "let h = \<lparr>hdr_frameType = 0x03, hdr_flags = 0x04, hdr_payloadLength = 2\<rparr>
   in rc_frames (run sock_step recv_init (map Data [[3], [4, 0], [2, 9, 8, 3], [4, 0, 2, 7, 7]] @ [SockEnd]))
      = [(h, [3, 4, 0, 2, 9, 8]), (h, [3, 4, 0, 2, 7, 7])]"
proof -
  let ?h = "\<lparr>hdr_frameType = 0x03, hdr_flags = 0x04, hdr_payloadLength = 2\<rparr>"
  have "hdr_wf ?h" "hdr_toBytes ?h = [3, 4, 0, 2]"
    by (simp_all add: hdr_wf_def hdr_toBytes_def hdr_isExtended_def header_consts flag_consts uint16_bytes_def)
  then show ?thesis
    using reader_delivers [of "[(?h, [9, 8]), (?h, [7, 7])]" "[[3], [4, 0], [2, 9, 8, 3], [4, 0, 2, 7, 7]]"]
    by (simp del: run_Cons run_append)
qed

end
