(* ===== verification/AnchorCache.thy ===== *)
theory AnchorCache
  imports NpsErrors Contracts
begin

text \<open>
  The two anchor caches: \<open>AnchorCache\<close> of \<open>core/anchor-cache.ts\<close> (TTL, least-recently-used
  eviction, poison detection; prefix \<open>ac_\<close>) and \<open>AnchorFrameCache\<close> of \<open>core/cache.ts\<close>
  (TTL, content-derived ids; prefix \<open>afc_\<close>).

  The clock is read once per call and passed as \<open>now\<close> (milliseconds). \<open>JSON.stringify\<close> of a
  schema, the locale's collation (\<open>localeCompare\<close>, given by its sort key) and SHA-256 are
  arguments. Both caches are interpreted as \<open>expiring_store\<close>.
\<close>

section \<open>core/anchor-cache.ts\<close>

record 'j anchor_frame =
  af_anchor_id :: string
  af_schema :: 'j
  af_ttl :: "int option"

record 'j ac_entry =
  ce_frame :: "'j anchor_frame"
  ce_expiresAt :: int
  ce_lastAccessed :: int

record 'j anchor_cache =
  ac_cache :: "(string, 'j ac_entry) jsmap"
  ac_maxSize :: nat

definition ac_new :: "nat option \<Rightarrow> 'j anchor_cache" where
  "ac_new maxSize = \<lparr>ac_cache = [], ac_maxSize = (case maxSize of None \<Rightarrow> 1000 | Some n \<Rightarrow> n)\<rparr>"

text \<open>The loop of \<open>evictLru\<close>: \<open>None\<close> for the time is \<open>Infinity\<close>.\<close>

definition ac_oldest :: "(string, 'j ac_entry) jsmap \<Rightarrow> string option \<times> int option" where
  "ac_oldest m = foldl (\<lambda>(oldestKey, oldestTime) (key, entry).
     if (case oldestTime of None \<Rightarrow> True | Some t \<Rightarrow> ce_lastAccessed entry < t)
     then (Some key, Some (ce_lastAccessed entry)) else (oldestKey, oldestTime)) (None, None) m"

text \<open>\<open>if (oldestKey)\<close> is false for the empty string too.\<close>

definition ac_evictLru :: "(string, 'j ac_entry) jsmap \<Rightarrow> (string, 'j ac_entry) jsmap" where
  "ac_evictLru m = (case fst (ac_oldest m) of
     None \<Rightarrow> m | Some k \<Rightarrow> if k = [] then m else js_delete m k)"

definition ac_set :: "('j \<Rightarrow> string) \<Rightarrow> int \<Rightarrow> 'j anchor_frame \<Rightarrow> 'j anchor_cache \<Rightarrow> 'j anchor_cache nps_result" where
  "ac_set stringify now frame s =
     (if af_ttl frame = Some 0 then Inr s
      else case js_get (ac_cache s) (af_anchor_id frame) of
        Some existing \<Rightarrow>
          if stringify (af_schema (ce_frame existing)) \<noteq> stringify (af_schema frame)
          then Inl (NcpError ''NCP-ANCHOR-ID-MISMATCH'')
          else Inr (s\<lparr>ac_cache := js_set (ac_cache s) (af_anchor_id frame) (existing\<lparr>ce_lastAccessed := now\<rparr>)\<rparr>)
      | None \<Rightarrow>
          let m = (if js_size (ac_cache s) \<ge> ac_maxSize s then ac_evictLru (ac_cache s) else ac_cache s);
              ttlMs = (case af_ttl frame of None \<Rightarrow> 3600 | Some t \<Rightarrow> t) * 1000
          in Inr (s\<lparr>ac_cache := js_set m (af_anchor_id frame)
               \<lparr>ce_frame = frame, ce_expiresAt = now + ttlMs, ce_lastAccessed = now\<rparr>\<rparr>))"

definition ac_get :: "int \<Rightarrow> string \<Rightarrow> 'j anchor_cache \<Rightarrow> 'j anchor_frame option \<times> 'j anchor_cache" where
  "ac_get now anchorId s = (case js_get (ac_cache s) anchorId of
     None \<Rightarrow> (None, s)
   | Some entry \<Rightarrow>
       if now \<ge> ce_expiresAt entry then (None, s\<lparr>ac_cache := js_delete (ac_cache s) anchorId\<rparr>)
       else (Some (ce_frame entry),
             s\<lparr>ac_cache := js_set (ac_cache s) anchorId (entry\<lparr>ce_lastAccessed := now\<rparr>)\<rparr>))"

definition ac_getRequired :: "int \<Rightarrow> string \<Rightarrow> 'j anchor_cache \<Rightarrow> 'j anchor_frame nps_result \<times> 'j anchor_cache" where
  "ac_getRequired now anchorId s = (case ac_get now anchorId s of
     (None, s') \<Rightarrow> (Inl (NcpError ''NCP-ANCHOR-NOT-FOUND''), s')
   | (Some frame, s') \<Rightarrow> (Inr frame, s'))"

definition ac_size :: "'j anchor_cache \<Rightarrow> nat" where
  "ac_size s = js_size (ac_cache s)"

section \<open>core/cache.ts\<close>

record schema_field =
  sf_name :: string
  sf_type :: string
  sf_semantic :: "string option"
  sf_nullable :: "bool option"

record afc_frame =
  aff_anchorId :: string
  aff_fields :: "schema_field list"
  aff_ttl :: "int option"

record afc_entry =
  afe_frame :: afc_frame
  afe_expiresAt :: int

type_synonym afc_store = "(string, afc_entry) jsmap"

text \<open>\<open>coll\<close>: the collation key behind \<open>localeCompare\<close>; \<open>stringify\<close>: \<open>JSON.stringify\<close> of the list
  of canonical field objects; \<open>sha256hex\<close>: the digest of the UTF-8 text.\<close>

record 'c anchor_env =
  ae_coll :: "string \<Rightarrow> 'c"
  ae_stringify :: "schema_field list \<Rightarrow> string"
  ae_sha256hex :: "string \<Rightarrow> string"

definition computeAnchorId :: "'c :: linorder anchor_env \<Rightarrow> schema_field list \<Rightarrow> string" where
  "computeAnchorId env flds =
     (let sorted = sort_key (\<lambda>f. ae_coll env (sf_name f)) flds;
          canonical = ae_stringify env sorted
      in ''sha256:'' @ ae_sha256hex env canonical)"

definition afc_schemasEqual :: "'c :: linorder anchor_env \<Rightarrow> schema_field list \<Rightarrow> schema_field list \<Rightarrow> bool" where
  "afc_schemasEqual env a b = (computeAnchorId env a = computeAnchorId env b)"

definition afc_set :: "'c :: linorder anchor_env \<Rightarrow> int \<Rightarrow> afc_frame \<Rightarrow> afc_store \<Rightarrow> (string \<times> afc_store) nps_result" where
  "afc_set env now frame store =
     (let anchorId = (if js_startsWith (aff_anchorId frame) ''sha256:'' then aff_anchorId frame
                      else computeAnchorId env (aff_fields frame));
          poisoned = (case js_get store anchorId of None \<Rightarrow> False
            | Some existing \<Rightarrow> now < afe_expiresAt existing \<and>
                \<not> afc_schemasEqual env (aff_fields (afe_frame existing)) (aff_fields frame))
      in if poisoned then Inl (NpsAnchorPoisonError anchorId)
         else let ttlMs = (case aff_ttl frame of None \<Rightarrow> 3600 | Some t \<Rightarrow> t) * 1000
              in Inr (anchorId, js_set store anchorId \<lparr>afe_frame = frame, afe_expiresAt = now + ttlMs\<rparr>))"

definition afc_get :: "int \<Rightarrow> string \<Rightarrow> afc_store \<Rightarrow> afc_frame option \<times> afc_store" where
  "afc_get now anchorId store = (case js_get store anchorId of
     None \<Rightarrow> (None, store)
   | Some entry \<Rightarrow> if now > afe_expiresAt entry then (None, js_delete store anchorId)
                   else (Some (afe_frame entry), store))"

definition afc_getRequired :: "int \<Rightarrow> string \<Rightarrow> afc_store \<Rightarrow> afc_frame nps_result \<times> afc_store" where
  "afc_getRequired now anchorId store = (case afc_get now anchorId store of
     (None, st) \<Rightarrow> (Inl (NpsAnchorNotFoundError anchorId), st) | (Some f, st) \<Rightarrow> (Inr f, st))"

definition afc_invalidate :: "string \<Rightarrow> afc_store \<Rightarrow> afc_store" where
  "afc_invalidate anchorId store = js_delete store anchorId"

definition afc_evictExpired :: "int \<Rightarrow> afc_store \<Rightarrow> afc_store" where
  "afc_evictExpired now store = js_filter (\<lambda>k entry. \<not> now > afe_expiresAt entry) store"

definition afc_size :: "int \<Rightarrow> afc_store \<Rightarrow> nat \<times> afc_store" where
  "afc_size now store = (let st = afc_evictExpired now store in (js_size st, st))"

section \<open>Content of a cache at a time\<close>

definition ac_live :: "int \<Rightarrow> 'j anchor_cache \<Rightarrow> string \<Rightarrow> 'j anchor_frame option" where
  "ac_live now s k = (case js_get (ac_cache s) k of None \<Rightarrow> None
     | Some e \<Rightarrow> if now < ce_expiresAt e then Some (ce_frame e) else None)"

definition afc_live :: "int \<Rightarrow> afc_store \<Rightarrow> string \<Rightarrow> afc_frame option" where
  "afc_live now s k = (case js_get s k of None \<Rightarrow> None
     | Some e \<Rightarrow> if now \<le> afe_expiresAt e then Some (afe_frame e) else None)"

definition ac_inv :: "'j anchor_cache \<Rightarrow> bool" where
  "ac_inv s \<longleftrightarrow> js_wf (ac_cache s)"

lemma ac_get_inv [inv_intros]: "ac_inv s \<Longrightarrow> ac_inv (snd (ac_get now k s))"
  by (auto simp: ac_inv_def ac_get_def split: option.splits)

interpretation ac_store: expiring_store ac_get ac_live ac_inv
proof
  fix s :: "'j anchor_cache" and now now' :: int and k k' :: string
  assume i: "ac_inv s"
  show "fst (ac_get now k s) = ac_live now s k"
    by (simp add: ac_get_def ac_live_def split: option.splits)
  show "ac_inv (snd (ac_get now k s))" by (rule ac_get_inv [OF i])
  assume "now \<le> now'"
  then show "ac_live now' (snd (ac_get now k s)) k' = ac_live now' s k'"
    by (auto simp: ac_get_def ac_live_def js_get_set js_get_delete split: option.splits)
next
  fix s :: "'j anchor_cache" and now now' :: int and k v
  assume "now \<le> now'" "ac_live now' s k = Some v"
  then show "ac_live now s k = Some v"
    by (auto simp: ac_live_def split: option.splits if_splits)
qed

interpretation afc_store: expiring_store afc_get afc_live js_wf
proof
  fix s :: afc_store and now now' :: int and k k' :: string
  assume i: "js_wf s"
  show "fst (afc_get now k s) = afc_live now s k"
    by (simp add: afc_get_def afc_live_def split: option.splits)
  show "js_wf (snd (afc_get now k s))"
    using i by (simp add: afc_get_def split: option.splits)
  assume "now \<le> now'"
  then show "afc_live now' (snd (afc_get now k s)) k' = afc_live now' s k'"
    by (auto simp: afc_get_def afc_live_def js_get_delete split: option.splits)
next
  fix s :: afc_store and now now' :: int and k v
  assume "now \<le> now'" "afc_live now' s k = Some v"
  then show "afc_live now s k = Some v"
    by (auto simp: afc_live_def split: option.splits if_splits)
qed

section \<open>Eviction\<close>

lemma ac_oldest_spec:
  "m \<noteq> [] \<Longrightarrow> \<exists>k e. ac_oldest m = (Some k, Some (ce_lastAccessed e)) \<and> (k, e) \<in> set m \<and>
     (\<forall>(k', e') \<in> set m. ce_lastAccessed e \<le> ce_lastAccessed e')"
proof (induction m rule: rev_induct)
  case Nil
  then show ?case by simp
next
  case (snoc p m)
  obtain a x where p: "p = (a, x)" by (cases p)
  show ?case
  proof (cases "m = []")
    case True
    then show ?thesis using p by (simp add: ac_oldest_def)
  next
    case False
    with snoc.IH obtain k e where ih: "ac_oldest m = (Some k, Some (ce_lastAccessed e))" "(k, e) \<in> set m"
      "\<forall>(k', e') \<in> set m. ce_lastAccessed e \<le> ce_lastAccessed e'" by blast
    have step: "ac_oldest (m @ [p]) = (if ce_lastAccessed x < ce_lastAccessed e
        then (Some a, Some (ce_lastAccessed x)) else ac_oldest m)"
      using ih(1) p by (simp add: ac_oldest_def)
    show ?thesis
    proof (cases "ce_lastAccessed x < ce_lastAccessed e")
      case True
      with step p ih(3) have "ac_oldest (m @ [p]) = (Some a, Some (ce_lastAccessed x)) \<and>
          (a, x) \<in> set (m @ [p]) \<and> (\<forall>(k', e') \<in> set (m @ [p]). ce_lastAccessed x \<le> ce_lastAccessed e')" by force
      then show ?thesis by blast
    next
      case False
      with step p ih have "ac_oldest (m @ [p]) = (Some k, Some (ce_lastAccessed e)) \<and>
          (k, e) \<in> set (m @ [p]) \<and> (\<forall>(k', e') \<in> set (m @ [p]). ce_lastAccessed e \<le> ce_lastAccessed e')" by auto
      then show ?thesis by blast
    qed
  qed
qed

lemma ac_evictLru_spec:
  assumes "js_wf m" "m \<noteq> []" "\<forall>k \<in> set (js_keys m). k \<noteq> []"
  obtains k e where "ac_evictLru m = js_delete m k" "js_get m k = Some e"
    "\<forall>(k', e') \<in> set m. ce_lastAccessed e \<le> ce_lastAccessed e'"
    "Suc (js_size (ac_evictLru m)) = js_size m"
proof -
  from ac_oldest_spec [OF assms(2)] obtain k e where
    o: "ac_oldest m = (Some k, Some (ce_lastAccessed e))" and "in": "(k, e) \<in> set m"
    and le: "\<forall>(k', e') \<in> set m. ce_lastAccessed e \<le> ce_lastAccessed e'" by blast
  have g: "js_get m k = Some e" by (rule js_get_in [OF assms(1) "in"])
  have "k \<noteq> []" using assms(3) "in" by (force simp: js_keys_def)
  then have ev: "ac_evictLru m = js_delete m k" using o by (simp add: ac_evictLru_def)
  have "js_has m k" using g by (simp add: js_has_get)
  then show thesis using that [OF ev g le] js_size_delete [OF assms(1)] ev by simp
qed

section \<open>Traces\<close>

datatype 'j ac_event = AcSet int "'j anchor_frame" | AcGet int string

text \<open>A call of \<open>set\<close> that throws leaves the cache as it was.\<close>

fun ac_step :: "('j \<Rightarrow> string) \<Rightarrow> 'j anchor_cache \<Rightarrow> 'j ac_event \<Rightarrow> 'j anchor_cache" where
  "ac_step stringify s (AcSet now f) = (case ac_set stringify now f s of Inl e \<Rightarrow> s | Inr s' \<Rightarrow> s')"
| "ac_step stringify s (AcGet now k) = snd (ac_get now k s)"

text \<open>The cache's invariant: keys are non-empty and are the id of the frame they hold, and the
  capacity is respected.\<close>

definition ac_ok :: "nat \<Rightarrow> 'j anchor_cache \<Rightarrow> bool" where
  "ac_ok n s \<longleftrightarrow> js_wf (ac_cache s) \<and> ac_maxSize s = n \<and> js_size (ac_cache s) \<le> max n 1 \<and>
     (\<forall>k e. (k, e) \<in> set (ac_cache s) \<longrightarrow> k \<noteq> [] \<and> af_anchor_id (ce_frame e) = k)"

definition ac_named :: "'j ac_event \<Rightarrow> bool" where
  "ac_named ev = (case ev of AcSet now f \<Rightarrow> af_anchor_id f \<noteq> [] | AcGet now k \<Rightarrow> True)"

lemma ac_evictLru_subset: "(k, e) \<in> set (ac_evictLru m) \<Longrightarrow> (k, e) \<in> set m"
  by (auto simp: ac_evictLru_def js_delete_in split: option.splits if_splits)

lemma ac_evictLru_wf: "js_wf m \<Longrightarrow> js_wf (ac_evictLru m)"
  by (auto simp: ac_evictLru_def split: option.splits)

lemma ac_make_room:
  assumes "ac_ok n s"
  shows "js_size (if js_size (ac_cache s) \<ge> n then ac_evictLru (ac_cache s) else ac_cache s) < max n 1"
proof (cases "js_size (ac_cache s) \<ge> n \<and> ac_cache s \<noteq> []")
  case True
  have keys: "\<forall>k \<in> set (js_keys (ac_cache s)). k \<noteq> []" using assms by (force simp: ac_ok_def js_keys_def)
  have wf: "js_wf (ac_cache s)" using assms by (simp add: ac_ok_def)
  from ac_evictLru_spec [OF wf conjunct2 [OF True] keys]
  have "Suc (js_size (ac_evictLru (ac_cache s))) = js_size (ac_cache s)" by metis
  then show ?thesis using True assms by (simp add: ac_ok_def)
next
  case False
  then show ?thesis by (auto simp: js_size_def ac_evictLru_def ac_oldest_def)
qed

lemma ac_set_ok:
  assumes ok: "ac_ok n s" and "af_anchor_id f \<noteq> []" and r: "ac_set stringify now f s = Inr s'"
  shows "ac_ok n s'"
proof (cases "js_get (ac_cache s) (af_anchor_id f)")
  case None
  let ?m = "if js_size (ac_cache s) \<ge> n then ac_evictLru (ac_cache s) else ac_cache s"
  show ?thesis
  proof (cases "af_ttl f = Some 0")
    case True
    with r ok show ?thesis by (simp add: ac_set_def)
  next
    case False
    with r None ok obtain e where s': "s' = s\<lparr>ac_cache := js_set ?m (af_anchor_id f) e\<rparr>" "ce_frame e = f"
      by (auto simp: ac_set_def ac_ok_def Let_def)
    have wf: "js_wf ?m" using ok by (auto simp: ac_ok_def ac_evictLru_wf)
    have "js_size (js_set ?m (af_anchor_id f) e) \<le> max n 1"
      using ac_make_room [OF ok] by (simp add: js_size_set)
    moreover have keyed: "k \<noteq> [] \<and> af_anchor_id (ce_frame x) = k"
      if "(k, x) \<in> set (js_set ?m (af_anchor_id f) e)" for k x
    proof -
      from js_set_in_cases [OF that] consider "(k, x) = (af_anchor_id f, e)" | "(k, x) \<in> set (ac_cache s)"
        by (auto split: if_splits dest: ac_evictLru_subset)
      then show ?thesis using ok assms(2) s'(2) by cases (auto simp: ac_ok_def)
    qed
    then have "\<forall>k x. (k, x) \<in> set (js_set ?m (af_anchor_id f) e) \<longrightarrow> k \<noteq> [] \<and> af_anchor_id (ce_frame x) = k"
      by blast
    ultimately show ?thesis using wf ok s'(1) by (simp add: ac_ok_def)
  qed
next
  case (Some e)
  have "js_has (ac_cache s) (af_anchor_id f)" using Some by (simp add: js_has_get)
  then show ?thesis
    using r ok Some js_get_Some_in [OF Some]
    by (fastforce simp: ac_set_def ac_ok_def js_size_set dest!: js_set_in_cases split: if_splits)
qed

lemma ac_get_ok: "ac_ok n s \<Longrightarrow> ac_ok n (snd (ac_get now k s))"
proof (cases "js_get (ac_cache s) k")
  case None
  then show "ac_ok n s \<Longrightarrow> ?thesis" by (simp add: ac_get_def)
next
  case (Some e)
  have "js_has (ac_cache s) k" using Some by (simp add: js_has_get)
  then show "ac_ok n s \<Longrightarrow> ?thesis"
    using Some js_get_Some_in [OF Some] js_size_delete_le [of "ac_cache s" k]
    by (fastforce simp: ac_get_def ac_ok_def js_size_set js_delete_in dest!: js_set_in_cases)
qed

lemma ac_step_ok: "ac_ok n s \<Longrightarrow> ac_named ev \<Longrightarrow> ac_ok n (ac_step stringify s ev)"
  by (cases ev) (auto simp: ac_named_def ac_get_ok split: sum.splits intro: ac_set_ok)

text \<open>The trace of events with named frames keeps the invariant; the machine ignores the others.\<close>

interpretation ac_trace: invariant_machine
  "\<lambda>s ev. if ac_named ev then ac_step stringify s ev else s" "ac_ok n" for stringify n
  by unfold_locales (auto intro: ac_step_ok)

lemma ac_run_named:
  "\<forall>ev \<in> set evs. ac_named ev \<Longrightarrow>
     run (\<lambda>s ev. if ac_named ev then ac_step f s ev else s) s evs = run (ac_step f) s evs"
  by (induction evs arbitrary: s) auto

lemma ac_run_ok:
  assumes "\<forall>ev \<in> set evs. ac_named ev"
  shows "ac_ok n (run (ac_step stringify) (ac_new (Some n)) evs)"
  using ac_trace.run_inv [of n "ac_new (Some n)" stringify evs] ac_run_named [OF assms, of stringify]
  by (simp add: ac_ok_def ac_new_def js_size_def)

lemma ac_step_same_frame:
  assumes "js_wf (ac_cache s)" "js_get (ac_cache s) k = Some e"
    and "js_get (ac_cache (ac_step stringify s ev)) k = Some e'"
  shows "ce_frame e' = ce_frame e"
proof -
  have ev: "js_get (ac_evictLru (ac_cache s)) k = Some x \<Longrightarrow> x = e" for x
    using assms(2) by (auto simp: ac_evictLru_def js_get_delete split: option.splits if_splits)
  show ?thesis
    using assms(2,3) ev
    by (cases ev) (auto simp: ac_set_def ac_get_def js_get_set js_get_delete Let_def
        split: option.splits if_splits)
qed

lemma filter_key_replicate:
  assumes "inj_on key (set xs)" "k \<in> set xs" "mset xs = mset ys"
  shows "filter (\<lambda>x. key k = key x) ys = replicate (count (mset xs) k) k"
proof -
  have set: "set ys = set xs" using assms(3) by (metis mset_eq_setD)
  have "filter (\<lambda>x. key k = key x) ys = filter (\<lambda>x. k = x) ys"
    using assms(1,2) set by (intro filter_cong) (auto simp: inj_on_def)
  also have "\<dots> = replicate (count (mset ys) k) k"
    by (induction ys) auto
  finally show ?thesis using assms(3) by simp
qed

lemma sort_key_mset_unique:
  fixes key :: "'a \<Rightarrow> 'b :: linorder"
  assumes "mset xs = mset ys" "inj_on key (set xs)"
  shows "sort_key key xs = sort_key key ys"
proof (rule properties_for_sort_key)
  show "mset (sort_key key ys) = mset xs" using assms(1) by simp
  show "sorted (map key (sort_key key ys))" by simp
  fix k assume "k \<in> set (sort_key key ys)"
  then have k: "k \<in> set xs" using assms(1) by (metis mset_eq_setD set_sort)
  show "filter (\<lambda>x. key k = key x) (sort_key key ys) = filter (\<lambda>x. key k = key x) xs"
    using filter_key_replicate [OF assms(2) k] assms(1) by simp
qed

section \<open>Properties\<close>

text \<open>\<open>AnchorCache\<close> never holds more than its capacity (one entry when the capacity is 0), over
  any sequence of \<open>set\<close> and \<open>get\<close> calls with non-empty anchor ids, and every entry is stored under
  the id of the frame it holds; eviction removes an entry with the oldest access time.\<close>

theorem anchor_cache_capacity:
  fixes stringify :: "'j \<Rightarrow> string" and n :: nat
  assumes "\<forall>ev \<in> set evs. ac_named ev"
  defines "s \<equiv> run (ac_step stringify) (ac_new (Some n)) evs"
  shows "ac_size s \<le> max n 1 \<and>
    (\<forall>k e. js_get (ac_cache s) k = Some e \<longrightarrow> af_anchor_id (ce_frame e) = k) \<and>
    (ac_size s > 0 \<longrightarrow> (\<exists>k e. ac_evictLru (ac_cache s) = js_delete (ac_cache s) k \<and>
       js_get (ac_cache s) k = Some e \<and> Suc (js_size (ac_evictLru (ac_cache s))) = ac_size s \<and>
       (\<forall>(k', e') \<in> set (ac_cache s). ce_lastAccessed e \<le> ce_lastAccessed e')))"
proof -
  have ok: "ac_ok n s" unfolding s_def by (rule ac_run_ok [OF assms(1)])
  then have wf: "js_wf (ac_cache s)" and keys: "\<forall>k \<in> set (js_keys (ac_cache s)). k \<noteq> []"
    by (auto simp: ac_ok_def js_keys_def)
  have "ac_size s > 0 \<Longrightarrow> ac_cache s \<noteq> []" by (auto simp: ac_size_def js_size_def)
  from ac_evictLru_spec [OF wf this keys] have ev: "ac_size s > 0 \<longrightarrow> (\<exists>k e. ac_evictLru (ac_cache s) = js_delete (ac_cache s) k \<and>
       js_get (ac_cache s) k = Some e \<and> Suc (js_size (ac_evictLru (ac_cache s))) = ac_size s \<and>
       (\<forall>(k', e') \<in> set (ac_cache s). ce_lastAccessed e \<le> ce_lastAccessed e'))"
    unfolding ac_size_def by metis
  have "\<forall>k e. js_get (ac_cache s) k = Some e \<longrightarrow> af_anchor_id (ce_frame e) = k"
    using ok by (auto simp: ac_ok_def dest!: js_get_Some_in)
  with ev ok show ?thesis by (simp add: ac_ok_def ac_size_def)
qed

theorem anchor_cache_capacity_witness:
  "ac_size (run (ac_step id) (ac_new (Some 1))
     [AcSet 0 \<lparr>af_anchor_id = ''a'', af_schema = ''x'', af_ttl = None\<rparr>,
      AcSet 5 \<lparr>af_anchor_id = ''b'', af_schema = ''y'', af_ttl = Some 10\<rparr>]) \<le> max 1 1"
  using anchor_cache_capacity [of "[AcSet 0 \<lparr>af_anchor_id = ''a'', af_schema = ''x'', af_ttl = None\<rparr>,
      AcSet 5 \<lparr>af_anchor_id = ''b'', af_schema = ''y'', af_ttl = Some 10\<rparr>]" id 1]
  by (simp add: ac_named_def)

text \<open>Poison detection of \<open>AnchorCache\<close>: while an id is cached, no call replaces its frame
  (an entry present before and after any \<open>set\<close> or \<open>get\<close> holds the same frame), and a frame with
  that id, a non-zero TTL and another schema text is refused with \<open>NCP-ANCHOR-ID-MISMATCH\<close>.\<close>

theorem anchor_cache_poison:
  assumes "js_wf (ac_cache s)" "js_get (ac_cache s) k = Some e"
  shows "(\<forall>ev e'. js_get (ac_cache (ac_step stringify s ev)) k = Some e' \<longrightarrow> ce_frame e' = ce_frame e) \<and>
    (\<forall>now f. af_anchor_id f = k \<longrightarrow> af_ttl f \<noteq> Some 0 \<longrightarrow>
       ac_set stringify now f s =
         (if stringify (af_schema f) = stringify (af_schema (ce_frame e))
          then Inr (s\<lparr>ac_cache := js_set (ac_cache s) k (e\<lparr>ce_lastAccessed := now\<rparr>)\<rparr>)
          else Inl (NcpError ''NCP-ANCHOR-ID-MISMATCH'')))"
  using ac_step_same_frame [OF assms] assms by (auto simp: ac_set_def)

theorem anchor_cache_poison_witness:
  "let e = \<lparr>ce_frame = \<lparr>af_anchor_id = ''a'', af_schema = ''x'', af_ttl = None\<rparr>, ce_expiresAt = 9, ce_lastAccessed = 0\<rparr>;
       s = \<lparr>ac_cache = [(''a'', e)], ac_maxSize = 4\<rparr>
   in ac_set id 3 \<lparr>af_anchor_id = ''a'', af_schema = ''y'', af_ttl = None\<rparr> s = Inl (NcpError ''NCP-ANCHOR-ID-MISMATCH'')"
proof -
  let ?e = "\<lparr>ce_frame = \<lparr>af_anchor_id = ''a'', af_schema = ''x'', af_ttl = None\<rparr>, ce_expiresAt = 9, ce_lastAccessed = 0\<rparr>"
  show ?thesis
    using anchor_cache_poison [of "\<lparr>ac_cache = [(''a'', ?e)], ac_maxSize = 4\<rparr>" "''a''" ?e id]
    by (simp add: js_wf_def js_get_def)
qed

text \<open>Expiry of \<open>AnchorFrameCache\<close>: reads, which purge lazily, are not observable. After any
  earlier reads a \<open>get\<close> returns what the untouched store holds and has not expired; an anchor
  that was \<open>set\<close> at \<open>t\<close> is returned up to and including \<open>t + 1000 ttl\<close> and not after.\<close>

theorem anchor_frame_cache_expiry:
  assumes "js_wf s" "afc_set env t f s = Inr (k, s')" "\<forall>(u, k') \<in> set rs. u \<le> now"
  shows "fst (afc_get now k (afc_store.reads rs s')) =
    (if now \<le> t + (case aff_ttl f of None \<Rightarrow> 3600 | Some x \<Rightarrow> x) * 1000 then Some f else None)"
proof -
  have s': "s' = js_set s k \<lparr>afe_frame = f, afe_expiresAt = t + (case aff_ttl f of None \<Rightarrow> 3600 | Some x \<Rightarrow> x) * 1000\<rparr>"
    using assms(2) by (auto simp: afc_set_def Let_def split: if_splits)
  then have "js_wf s'" using assms(1) by simp
  from afc_store.get_after_reads [OF this assms(3)] show ?thesis
    by (simp add: s' afc_live_def)
qed

theorem anchor_frame_cache_expiry_witness:
  "let env = \<lparr>ae_coll = (\<lambda>s. length s), ae_stringify = (\<lambda>fs. concat (map sf_name fs)), ae_sha256hex = id\<rparr>;
       f = \<lparr>aff_anchorId = ''sha256:1'', aff_fields = [], aff_ttl = Some 2\<rparr>
   in \<exists>s'. afc_set env 0 f [] = Inr (''sha256:1'', s') \<and>
        fst (afc_get 2001 ''sha256:1'' (afc_store.reads [(2000, ''sha256:1'')] s')) = None"
proof -
  let ?env = "\<lparr>ae_coll = (\<lambda>s. length s), ae_stringify = (\<lambda>fs. concat (map sf_name fs)), ae_sha256hex = id\<rparr>"
  let ?f = "\<lparr>aff_anchorId = ''sha256:1'', aff_fields = [], aff_ttl = Some 2\<rparr>"
  have "afc_set ?env 0 ?f [] = Inr (''sha256:1'', js_set [] ''sha256:1'' \<lparr>afe_frame = ?f, afe_expiresAt = 2000\<rparr>)"
    by (simp add: afc_set_def js_startsWith_def Let_def)
  with anchor_frame_cache_expiry [OF js_wf_empty this, of "[(2000, ''sha256:1'')]" 2001]
  show ?thesis by simp
qed

text \<open>The content-derived anchor id does not depend on the order of the schema's fields, when
  no two of them collate alike.\<close>

theorem anchor_id_order_independent:
  assumes "mset flds = mset flds'" "inj_on (\<lambda>f. ae_coll env (sf_name f)) (set flds)"
  shows "computeAnchorId env flds = computeAnchorId env flds'"
  using sort_key_mset_unique [OF assms] by (simp add: computeAnchorId_def)

theorem anchor_id_order_independent_witness:
  "let env = \<lparr>ae_coll = id, ae_stringify = (\<lambda>fs. concat (map sf_name fs)), ae_sha256hex = id\<rparr>;
       a = \<lparr>sf_name = ''id'', sf_type = ''int'', sf_semantic = None, sf_nullable = None\<rparr>;
       b = \<lparr>sf_name = ''at'', sf_type = ''time'', sf_semantic = None, sf_nullable = Some True\<rparr>
   in computeAnchorId env [a, b] = computeAnchorId env [b, a]"
proof -
  let ?env = "\<lparr>ae_coll = id, ae_stringify = (\<lambda>fs. concat (map sf_name fs)), ae_sha256hex = id\<rparr>"
  let ?a = "\<lparr>sf_name = ''id'', sf_type = ''int'', sf_semantic = None, sf_nullable = None\<rparr>"
  let ?b = "\<lparr>sf_name = ''at'', sf_type = ''time'', sf_semantic = None, sf_nullable = Some True\<rparr>"
  show ?thesis
    using anchor_id_order_independent [of "[?a, ?b]" "[?b, ?a]" ?env] by (simp add: inj_on_def)
qed

end
