(* ===== verification/NcpStream.thy ===== *)
theory NcpStream
  imports NpsErrors Contracts "HOL-Library.Sublist"
begin

text \<open>
  \<open>ncp/stream-manager.ts\<close>: \<open>StreamManager\<close>, which reassembles incoming streams and enforces the
  send window of outgoing ones. The mutable objects \<open>ActiveStream\<close> and \<open>OutgoingStream\<close> are
  reached only through their maps, so they are values of the maps here. A throwing call leaves
  the maps unchanged: \<open>receive\<close> adds a new stream only on a path that does not throw.

  Proved: reassembly refines a per-stream reference automaton that accepts exactly the frames
  with the next sequence number; completed streams are final; the window bounds the sends; and
  the stream limit counts completed streams.
\<close>

section \<open>State\<close>

record 'd stream_frame =
  st_stream_id :: string
  st_seq :: int
  st_is_last :: bool
  st_data :: "'d list"
  st_window_size :: "int option"
  st_error_code :: "string option"

record 'd active_stream =
  as_expectedSeq :: int
  as_chunks :: "'d list list"
  as_completed :: bool
  as_errorCode :: "string option"

record outgoing_stream =
  os_remainingWindow :: "int option"
  os_paused :: bool

record 'd stream_manager =
  sm_streams :: "(string, 'd active_stream) jsmap"
  sm_outgoing :: "(string, outgoing_stream) jsmap"
  sm_maxConcurrent :: nat

definition sm_new :: "nat option \<Rightarrow> 'd stream_manager" where
  "sm_new maxConcurrent = \<lparr>sm_streams = [], sm_outgoing = [],
     sm_maxConcurrent = (case maxConcurrent of None \<Rightarrow> 32 | Some n \<Rightarrow> n)\<rparr>"

section \<open>Operations\<close>

text \<open>\<open>if (frame.error_code)\<close>: present and not the empty string.\<close>

definition truthy :: "string option \<Rightarrow> bool" where
  "truthy x = (case x of None \<Rightarrow> False | Some s \<Rightarrow> s \<noteq> [])"

definition st_open :: "'d active_stream" where
  "st_open = \<lparr>as_expectedSeq = 0, as_chunks = [], as_completed = False, as_errorCode = None\<rparr>"

text \<open>The part of \<open>receive\<close> after the stream has been found or opened.\<close>

definition receive_on :: "'d stream_frame \<Rightarrow> 'd active_stream \<Rightarrow> (bool \<times> 'd active_stream) nps_result" where
  "receive_on frame stream =
     (if as_completed stream then Inl (NcpError ''NPS-CLIENT-CONFLICT'')
      else if st_seq frame \<noteq> as_expectedSeq stream then
        (if st_seq frame < as_expectedSeq stream then Inr (False, stream)
         else Inl (NcpError ''NCP-STREAM-SEQ-GAP''))
      else let stream = stream\<lparr>as_chunks := as_chunks stream @ [st_data frame],
                               as_expectedSeq := st_seq frame + 1\<rparr> in
        if truthy (st_error_code frame)
        then Inr (True, stream\<lparr>as_completed := True, as_errorCode := st_error_code frame\<rparr>)
        else if st_is_last frame then Inr (True, stream\<lparr>as_completed := True\<rparr>)
        else Inr (False, stream))"

definition receive :: "'d stream_frame \<Rightarrow> 'd stream_manager \<Rightarrow> (bool \<times> 'd stream_manager) nps_result" where
  "receive frame s =
     rbind (case js_get (sm_streams s) (st_stream_id frame) of
              Some stream \<Rightarrow> Inr stream
            | None \<Rightarrow>
                if st_seq frame \<noteq> 0 then Inl (NcpError ''NCP-STREAM-NOT-FOUND'')
                else if js_size (sm_streams s) \<ge> sm_maxConcurrent s
                then Inl (NcpError ''NCP-STREAM-LIMIT-EXCEEDED'')
                else Inr st_open)
       (\<lambda>stream. rbind (receive_on frame stream) (\<lambda>(done, stream').
          Inr (done, s\<lparr>sm_streams := js_set (sm_streams s) (st_stream_id frame) stream'\<rparr>)))"

definition send :: "'d stream_frame \<Rightarrow> 'd stream_manager \<Rightarrow> unit nps_result \<times> 'd stream_manager" where
  "send frame s =
     (let out = (case js_get (sm_outgoing s) (st_stream_id frame) of
                   Some o' \<Rightarrow> o' | None \<Rightarrow> \<lparr>os_remainingWindow = None, os_paused = False\<rparr>);
          store = (\<lambda>o'. s\<lparr>sm_outgoing := js_set (sm_outgoing s) (st_stream_id frame) o'\<rparr>)
      in if st_seq frame = 0 \<and> st_window_size frame \<noteq> None
         then (Inr (), store (out\<lparr>os_remainingWindow := st_window_size frame\<rparr>))
         else case os_remainingWindow out of
           None \<Rightarrow> (Inr (), store out)
         | Some w \<Rightarrow> if w = 0 then (Inl (NcpError ''NCP-STREAM-WINDOW-OVERFLOW''), store out)
                     else (Inr (), store (out\<lparr>os_remainingWindow := Some (w - 1)\<rparr>)))"

definition updateWindow :: "string \<Rightarrow> int \<Rightarrow> 'd stream_manager \<Rightarrow> 'd stream_manager" where
  "updateWindow streamId newSize s =
     s\<lparr>sm_outgoing := js_set (sm_outgoing s) streamId
        \<lparr>os_remainingWindow = Some newSize, os_paused = (newSize = 0)\<rparr>\<rparr>"

definition isPaused :: "string \<Rightarrow> 'd stream_manager \<Rightarrow> bool" where
  "isPaused streamId s = (case js_get (sm_outgoing s) streamId of None \<Rightarrow> False | Some out \<Rightarrow> os_paused out)"

definition getData :: "string \<Rightarrow> 'd stream_manager \<Rightarrow> 'd list option" where
  "getData streamId s = (case js_get (sm_streams s) streamId of None \<Rightarrow> None
     | Some stream \<Rightarrow> if as_completed stream then Some (concat (as_chunks stream)) else None)"

definition getError :: "string \<Rightarrow> 'd stream_manager \<Rightarrow> string option" where
  "getError streamId s = (case js_get (sm_streams s) streamId of None \<Rightarrow> None
     | Some stream \<Rightarrow> as_errorCode stream)"

definition activeCount :: "'d stream_manager \<Rightarrow> nat" where
  "activeCount s = length (filter (\<lambda>(k, st). \<not> as_completed st) (sm_streams s))"

section \<open>Reference automaton\<close>

definition terminal :: "'d stream_frame \<Rightarrow> bool" where
  "terminal f \<longleftrightarrow> truthy (st_error_code f) \<or> st_is_last f"

text \<open>The frames a receiver of one stream must take: the next expected sequence number each
  time, until a terminal frame; everything else is a duplicate, a gap or too late.\<close>

fun accepted :: "int \<Rightarrow> 'd stream_frame list \<Rightarrow> 'd stream_frame list" where
  "accepted n [] = []"
| "accepted n (f # fs) =
     (if st_seq f = n then (if terminal f then [f] else f # accepted (n + 1) fs) else accepted n fs)"

definition closed :: "'d stream_frame list \<Rightarrow> bool" where
  "closed acc \<longleftrightarrow> acc \<noteq> [] \<and> terminal (last acc)"

definition stream_of :: "'d stream_frame list \<Rightarrow> 'd active_stream" where
  "stream_of acc = \<lparr>as_expectedSeq = int (length acc), as_chunks = map st_data acc,
     as_completed = closed acc,
     as_errorCode = (if closed acc \<and> truthy (st_error_code (last acc)) then st_error_code (last acc) else None)\<rparr>"

lemma accepted_subseq: "subseq (accepted n fs) fs"
  by (induction n fs rule: accepted.induct) auto

lemma accepted_seqs: "map st_seq (accepted n fs) = map (\<lambda>i. n + int i) [0..<length (accepted n fs)]"
proof (induction n fs rule: accepted.induct)
  case (2 n f fs)
  have shift: "map (\<lambda>i. n + int i) [0..<Suc k] = n # map (\<lambda>i. n + 1 + int i) [0..<k]" for k
    by (simp only: upt_conv_Cons [OF zero_less_Suc] list.map) (simp add: map_Suc_upt [symmetric] algebra_simps del: map_Suc_upt upt_Suc)
  show ?case using 2 shift by auto
qed simp

lemma accepted_snoc:
  "accepted n (fs @ [f]) =
     (if \<not> closed (accepted n fs) \<and> st_seq f = n + int (length (accepted n fs))
      then accepted n fs @ [f] else accepted n fs)"
proof (induction n fs rule: accepted.induct)
  case (1 n)
  then show ?case by (simp add: closed_def)
next
  case (2 n g fs)
  then show ?case by (auto simp: closed_def algebra_simps)
qed

section \<open>Refinement\<close>

definition sm_step :: "'d stream_manager \<Rightarrow> 'd stream_frame \<Rightarrow> 'd stream_manager" where
  "sm_step s f = (case receive f s of Inl e \<Rightarrow> s | Inr (d, s') \<Rightarrow> s')"

definition of_id :: "string \<Rightarrow> 'd stream_frame list \<Rightarrow> 'd stream_frame list" where
  "of_id k fs = filter (\<lambda>f. st_stream_id f = k) fs"

definition opened :: "'d stream_frame list \<Rightarrow> string set" where
  "opened fs = set (map st_stream_id (filter (\<lambda>f. st_seq f = 0) fs))"

text \<open>What the manager holds after receiving \<open>fs\<close>.\<close>

definition reassembles :: "'d stream_frame list \<Rightarrow> 'd stream_manager \<Rightarrow> bool" where
  "reassembles fs s \<longleftrightarrow> js_wf (sm_streams s) \<and>
     (\<forall>k. js_get (sm_streams s) k =
        (if k \<in> opened fs then Some (stream_of (accepted 0 (of_id k fs))) else None))"

lemma stream_of_snoc:
  assumes "\<not> closed acc"
  shows "receive_on f (stream_of acc) =
    (if st_seq f < int (length acc) then Inr (False, stream_of acc)
     else if st_seq f > int (length acc) then Inl (NcpError ''NCP-STREAM-SEQ-GAP'')
     else Inr (terminal f, stream_of (acc @ [f])))"
  using assms by (auto simp: receive_on_def stream_of_def closed_def terminal_def Let_def)

lemma receive_on_closed: "closed acc \<Longrightarrow> receive_on f (stream_of acc) = Inl (NcpError ''NPS-CLIENT-CONFLICT'')"
  by (simp add: receive_on_def stream_of_def)

lemma st_open_stream_of: "st_open = stream_of []"
  by (simp add: st_open_def stream_of_def closed_def)

lemma opened_snoc: "opened (fs @ [f]) = (if st_seq f = 0 then insert (st_stream_id f) (opened fs) else opened fs)"
  by (auto simp: opened_def)

lemma of_id_snoc: "of_id k (fs @ [f]) = (if st_stream_id f = k then of_id k fs @ [f] else of_id k fs)"
  by (simp add: of_id_def)

lemma not_opened_accepted: "k \<notin> opened fs \<Longrightarrow> accepted 0 (of_id k fs) = []"
proof -
  have none: "(\<forall>f \<in> set gs. st_seq f \<noteq> n) \<Longrightarrow> accepted n gs = []" for n and gs :: "'a stream_frame list"
    by (induction gs) auto
  assume "k \<notin> opened fs"
  then show ?thesis by (intro none) (auto simp: opened_def of_id_def)
qed

lemma opened_size:
  assumes "reassembles fs s"
  shows "js_size (sm_streams s) = card (opened fs)"
proof -
  have "set (js_keys (sm_streams s)) = opened fs"
    using assms by (auto simp: reassembles_def js_has_iff [symmetric] js_has_get split: if_splits)
  moreover have "distinct (js_keys (sm_streams s))"
    using assms by (simp add: reassembles_def js_wf_def js_keys_def)
  ultimately show ?thesis
    by (metis distinct_card js_keys_def js_size_def length_map)
qed

lemma finite_opened [simp]: "finite (opened fs)"
  by (simp add: opened_def)

lemma receive_step:
  assumes r: "reassembles fs s"
    and cap: "st_seq f = 0 \<and> st_stream_id f \<notin> opened fs \<longrightarrow> card (opened fs) < sm_maxConcurrent s"
  defines "k \<equiv> st_stream_id f"
  defines "acc \<equiv> accepted 0 (of_id k fs)"
  shows "receive f s =
    (if k \<notin> opened fs \<and> st_seq f \<noteq> 0 then Inl (NcpError ''NCP-STREAM-NOT-FOUND'')
     else rbind (receive_on f (stream_of acc))
       (\<lambda>(d, st). Inr (d, s\<lparr>sm_streams := js_set (sm_streams s) k st\<rparr>)))"
proof (cases "k \<in> opened fs")
  case True
  then have "js_get (sm_streams s) k = Some (stream_of acc)" using r by (simp add: reassembles_def acc_def)
  with True show ?thesis by (simp add: receive_def k_def)
next
  case False
  then have "js_get (sm_streams s) k = None" "acc = []"
    using r not_opened_accepted [OF False] by (simp_all add: reassembles_def acc_def)
  with False show ?thesis
    using cap opened_size [OF r] by (auto simp: receive_def k_def st_open_stream_of)
qed

lemma sm_step_max [simp]: "sm_maxConcurrent (sm_step s f) = sm_maxConcurrent s"
  by (auto simp: sm_step_def receive_def rbind_Inr_iff split: sum.splits option.splits)

lemma reassembles_step:
  assumes r: "reassembles fs s" and card: "card (opened (fs @ [f])) \<le> sm_maxConcurrent s"
  shows "reassembles (fs @ [f]) (sm_step s f)"
proof -
  let ?k = "st_stream_id f"
  let ?acc = "accepted 0 (of_id ?k fs)"
  have cap: "st_seq f = 0 \<and> ?k \<notin> opened fs \<longrightarrow> card (opened fs) < sm_maxConcurrent s"
    using card by (auto simp: opened_snoc)
  note step = receive_step [OF r cap]
  have acc': "accepted 0 (of_id j (fs @ [f])) =
      (if j = ?k \<and> \<not> closed ?acc \<and> st_seq f = int (length ?acc) then ?acc @ [f] else accepted 0 (of_id j fs))" for j
    by (simp add: of_id_snoc accepted_snoc)
  have get: "j \<in> opened fs \<Longrightarrow> js_get (sm_streams s) j = Some (stream_of (accepted 0 (of_id j fs)))"
    "j \<notin> opened fs \<Longrightarrow> js_get (sm_streams s) j = None" for j
    using r by (simp_all add: reassembles_def)
  have wf: "js_wf (sm_streams s)" using r by (simp add: reassembles_def)
  consider (unknown) "?k \<notin> opened fs" "st_seq f \<noteq> 0" | (closed) "?k \<in> opened fs" "closed ?acc"
    | (pending) "?k \<in> opened fs \<or> st_seq f = 0" "\<not> closed ?acc"
    using not_opened_accepted [of ?k fs] by (auto simp: closed_def)
  then show ?thesis
  proof cases
    case unknown
    then have "sm_step s f = s" by (simp add: sm_step_def step)
    with unknown show ?thesis
      using wf get acc' not_opened_accepted [OF unknown(1)]
      by (auto simp: reassembles_def opened_snoc)
  next
    case closed
    then have "sm_step s f = s" by (simp add: sm_step_def step receive_on_closed)
    with closed show ?thesis
      using wf get acc' by (auto simp: reassembles_def opened_snoc insert_absorb)
  next
    case pending
    have "st_seq f > int (length ?acc) \<Longrightarrow> ?k \<in> opened fs" using pending by auto
    with pending show ?thesis
      using wf get acc'
      by (cases "st_seq f" "int (length ?acc)" rule: linorder_cases)
        (auto simp: reassembles_def sm_step_def step stream_of_snoc opened_snoc js_get_set)
  qed
qed

lemma reassembles_run:
  assumes "card (opened fs) \<le> sm_maxConcurrent s0" "sm_streams s0 = []"
  shows "reassembles fs (run sm_step s0 fs) \<and> sm_maxConcurrent (run sm_step s0 fs) = sm_maxConcurrent s0"
  using assms
proof (induction fs rule: rev_induct)
  case Nil
  then show ?case by (simp add: reassembles_def opened_def)
next
  case (snoc f fs)
  have "card (opened fs) \<le> card (opened (fs @ [f]))"
    by (intro card_mono) (auto simp: opened_snoc)
  with snoc show ?case using reassembles_step [of fs "run sm_step s0 fs" f] by simp
qed

section \<open>Completed streams are final\<close>

definition stream_outcome :: "'d stream_manager \<Rightarrow> string \<Rightarrow> ('d list \<times> string option) option" where
  "stream_outcome s k = (case js_get (sm_streams s) k of None \<Rightarrow> None
     | Some st \<Rightarrow> if as_completed st then Some (concat (as_chunks st), as_errorCode st) else None)"

datatype 'd sm_event = Recv "'d stream_frame" | Send "'d stream_frame" | Window string int

fun sm_event_step :: "'d stream_manager \<Rightarrow> 'd sm_event \<Rightarrow> 'd stream_manager" where
  "sm_event_step s (Recv f) = sm_step s f"
| "sm_event_step s (Send f) = snd (send f s)"
| "sm_event_step s (Window k n) = updateWindow k n s"

lemma send_streams [simp]: "sm_streams (snd (send f s)) = sm_streams s"
  by (simp add: send_def Let_def split: option.splits)

lemma updateWindow_streams [simp]: "sm_streams (updateWindow k n s) = sm_streams s"
  by (simp add: updateWindow_def)

lemma receive_completed:
  "js_get (sm_streams s) (st_stream_id f) = Some st \<Longrightarrow> as_completed st \<Longrightarrow>
     receive f s = Inl (NcpError ''NPS-CLIENT-CONFLICT'')"
  by (simp add: receive_def receive_on_def)

lemma sm_step_outcome:
  assumes "stream_outcome s k = Some x"
  shows "stream_outcome (sm_step s f) k = Some x"
proof (cases "st_stream_id f = k")
  case True
  with assms obtain st where "js_get (sm_streams s) (st_stream_id f) = Some st" "as_completed st"
    by (auto simp: stream_outcome_def split: option.splits if_splits)
  then show ?thesis using assms by (simp add: sm_step_def receive_completed)
next
  case False
  then show ?thesis
    using assms by (auto simp: stream_outcome_def sm_step_def receive_def rbind_Inr_iff js_get_set
        split: sum.splits option.splits)
qed

interpretation sm_final: final_machine sm_event_step "\<lambda>_. True" stream_outcome
proof
  fix s :: "'d stream_manager" and k x and e :: "'d sm_event"
  assume "stream_outcome s k = Some x"
  then show "stream_outcome (sm_event_step s e) k = Some x"
    using sm_step_outcome [of s k x] by (cases e) (auto simp: stream_outcome_def)
qed auto

section \<open>Flow control\<close>

text \<open>The sends that go through, of a list of frames sent one after the other.\<close>

fun sends :: "'d stream_frame list \<Rightarrow> 'd stream_manager \<Rightarrow> 'd stream_frame list \<times> 'd stream_manager" where
  "sends [] s = ([], s)"
| "sends (f # fs) s = (case send f s of
     (Inl e, s') \<Rightarrow> sends fs s'
   | (Inr u, s') \<Rightarrow> (let (ok, s'') = sends fs s' in (f # ok, s'')))"

definition window :: "string \<Rightarrow> 'd stream_manager \<Rightarrow> int option" where
  "window k s = (case js_get (sm_outgoing s) k of None \<Rightarrow> None | Some out \<Rightarrow> os_remainingWindow out)"

lemma send_other: "st_stream_id f \<noteq> k \<Longrightarrow> window k (snd (send f s)) = window k s"
  by (simp add: send_def window_def Let_def split: option.splits)

lemma send_window:
  assumes "window (st_stream_id f) s = Some w" "st_seq f \<noteq> 0 \<or> st_window_size f = None"
  shows "fst (send f s) = (if w = 0 then Inl (NcpError ''NCP-STREAM-WINDOW-OVERFLOW'') else Inr ())"
    and "window (st_stream_id f) (snd (send f s)) = Some (if w = 0 then 0 else w - 1)"
  using assms by (auto simp: send_def window_def Let_def split: option.splits)

lemma sends_window:
  assumes "window k s = Some (int w)"
    and "\<forall>f \<in> set fs. st_stream_id f = k \<longrightarrow> st_seq f \<noteq> 0 \<or> st_window_size f = None"
  shows "of_id k (fst (sends fs s)) = take w (of_id k fs) \<and>
         window k (snd (sends fs s)) = Some (int (w - length (of_id k fs)))"
  using assms
proof (induction fs arbitrary: s w)
  case Nil
  then show ?case by (simp add: of_id_def)
next
  case (Cons f fs)
  obtain r s' where se: "send f s = (r, s')" by (cases "send f s")
  show ?case
  proof (cases "st_stream_id f = k")
    case False
    have "window k s' = Some (int w)" using send_other [OF False, of s] Cons.prems(1) se by simp
    from Cons.IH [OF this] Cons.prems(2) False se show ?thesis
      by (auto simp: of_id_def split: sum.splits prod.splits)
  next
    case True
    have w: "window (st_stream_id f) s = Some (int w)" "st_seq f \<noteq> 0 \<or> st_window_size f = None"
      using True Cons.prems by auto
    have w': "window k s' = Some (int (w - 1))" "r = (if w = 0 then Inl (NcpError ''NCP-STREAM-WINDOW-OVERFLOW'') else Inr ())"
      using send_window [OF w] se True by (auto simp: of_nat_diff split: if_splits)
    from Cons.IH [OF w'(1)] Cons.prems(2) w'(2) True se show ?thesis
      by (cases w) (auto simp: of_id_def split: prod.splits)
  qed
qed

section \<open>Properties\<close>

text \<open>C35: stream reassembly refines the reference automaton. After receiving any interleaving of
  frames of any streams, with duplicates, gaps and late frames, as long as no more streams were
  opened than the limit allows: the frames taken for a stream are a subsequence of those that
  arrived for it, with sequence numbers 0, 1, 2, \<dots> without gap, ending at the first terminal
  frame; \<open>getData\<close> returns the concatenation of exactly their data once (and only when) the
  terminal frame was taken, and \<open>getError\<close> its error code.\<close>

theorem stream_reassembly:
  assumes "card (opened fs) \<le> n"
  shows "let s = run sm_step (sm_new (Some n)) fs; acc = accepted 0 (of_id k fs)
    in subseq acc (of_id k fs) \<and> map st_seq acc = map int [0..<length acc] \<and>
       getData k s = (if closed acc then Some (concat (map st_data acc)) else None) \<and>
       getError k s = (if closed acc \<and> truthy (st_error_code (last acc)) then st_error_code (last acc) else None)"
proof -
  let ?s = "run sm_step (sm_new (Some n)) fs" and ?acc = "accepted 0 (of_id k fs)"
  have "reassembles fs ?s" using reassembles_run [of fs "sm_new (Some n)"] assms by (simp add: sm_new_def)
  then have g: "js_get (sm_streams ?s) k = (if k \<in> opened fs then Some (stream_of ?acc) else None)"
    by (simp add: reassembles_def)
  show ?thesis
  proof (cases "k \<in> opened fs")
    case True
    then show ?thesis
      using g accepted_subseq [of 0 "of_id k fs"] accepted_seqs [of 0 "of_id k fs"]
      by (simp add: getData_def getError_def stream_of_def)
  next
    case False
    then show ?thesis
      using g not_opened_accepted [OF False] by (simp add: getData_def getError_def closed_def)
  qed
qed

theorem stream_reassembly_witness:
  "let f = (\<lambda>i l. \<lparr>st_stream_id = ''s'', st_seq = i, st_is_last = l, st_data = [i, i], st_window_size = None, st_error_code = None\<rparr>)
   in getData ''s'' (run sm_step (sm_new (Some 32)) [f 0 False, f 0 False, f 2 True, f 1 False, f 2 True])
      = Some [0, 0, 1, 1, 2, 2 :: int]"
proof -
  let ?f = "\<lambda>i l. \<lparr>st_stream_id = ''s'', st_seq = i, st_is_last = l, st_data = [i, i], st_window_size = None, st_error_code = None\<rparr>"
  let ?fs = "[?f 0 False, ?f 0 False, ?f 2 True, ?f 1 False, ?f 2 True]"
  have c: "card (opened ?fs) \<le> 32" by (simp add: opened_def)
  show ?thesis
    using stream_reassembly [OF c, of "''s''"]
    by (simp add: of_id_def terminal_def truthy_def closed_def Let_def del: run_Cons)
qed

text \<open>A completed stream is final: once \<open>getData\<close> has a value, no later sequence of receives,
  sends and window updates changes the data or the error code.\<close>

theorem stream_completed_final:
  assumes "getData k (run sm_event_step s es) = Some d"
  shows "getData k (run sm_event_step s (es @ es')) = Some d \<and>
         getError k (run sm_event_step s (es @ es')) = getError k (run sm_event_step s es)"
proof -
  let ?t = "run sm_event_step s es"
  have o: "stream_outcome ?t k = Some (d, getError k ?t)"
    using assms by (auto simp: stream_outcome_def getData_def getError_def split: option.splits if_splits)
  have "stream_outcome (run sm_event_step ?t es') k = Some (d, getError k ?t)"
    by (rule sm_final.run_outcome [OF TrueI o])
  then show ?thesis
    by (auto simp: stream_outcome_def getData_def getError_def split: option.splits if_splits)
qed

theorem stream_completed_final_witness:
  "let f = (\<lambda>i d. \<lparr>st_stream_id = ''s'', st_seq = i, st_is_last = True, st_data = [d], st_window_size = None, st_error_code = None\<rparr>)
   in getData ''s'' (run sm_event_step (sm_new None) ([Recv (f 0 7)] @ [Recv (f 0 8), Recv (f 1 9), Window ''s'' 0])) = Some [7 :: nat]"
proof -
  let ?f = "\<lambda>i d. \<lparr>st_stream_id = ''s'', st_seq = i, st_is_last = True, st_data = [d], st_window_size = None, st_error_code = None\<rparr>"
  have "getData ''s'' (run sm_event_step (sm_new None) [Recv (?f 0 (7 :: nat))]) = Some [7]"
    by (simp add: getData_def sm_step_def receive_def sm_new_def js_size_def receive_on_def st_open_def truthy_def)
  from stream_completed_final [OF this, of "[Recv (?f 0 8), Recv (?f 1 9), Window ''s'' 0]"]
  show ?thesis by (simp del: run_Cons run_append)
qed

text \<open>Flow control: after \<open>updateWindow(k, w)\<close>, of the following sends (those of stream \<open>k\<close>
  not being opening frames with a new window) exactly the first \<open>w\<close> of stream \<open>k\<close> go through,
  whatever other streams send in between; the rest throw \<open>NCP-STREAM-WINDOW-OVERFLOW\<close>.\<close>

theorem send_window_bound:
  assumes "\<forall>f \<in> set fs. st_stream_id f = k \<longrightarrow> st_seq f \<noteq> 0 \<or> st_window_size f = None"
  shows "of_id k (fst (sends fs (updateWindow k (int w) s))) = take w (of_id k fs) \<and>
    isPaused k (updateWindow k (int w) s) = (w = 0)"
proof -
  have "window k (updateWindow k (int w) s) = Some (int w)" by (simp add: window_def updateWindow_def)
  from sends_window [OF this assms] show ?thesis by (simp add: isPaused_def updateWindow_def)
qed

theorem send_window_bound_witness:
  "let f = (\<lambda>i. \<lparr>st_stream_id = ''s'', st_seq = i, st_is_last = False, st_data = [i], st_window_size = None, st_error_code = None\<rparr>)
   in of_id ''s'' (fst (sends [f 1, f 2, f 3] (updateWindow ''s'' (int 2) (sm_new None)))) = [f 1, f 2]"
proof -
  let ?f = "\<lambda>i. \<lparr>st_stream_id = ''s'', st_seq = i, st_is_last = False, st_data = [i], st_window_size = None, st_error_code = None\<rparr>"
  show ?thesis
    using send_window_bound [of "[?f 1, ?f 2, ?f 3]" "''s''" 2 "sm_new None"] by (simp add: of_id_def)
qed

text \<open>The stream limit counts completed streams: entries are never removed, so once \<open>n\<close>
  streams have been opened, a new stream is refused with \<open>NCP-STREAM-LIMIT-EXCEEDED\<close> even when
  every one of them is complete and \<open>activeCount\<close> is 0. The documentation of \<open>receive\<close> speaks
  of concurrent streams.\<close>

theorem stream_limit_counts_completed:
  assumes "card (opened fs) = n" "\<forall>k \<in> opened fs. closed (accepted 0 (of_id k fs))"
    and "st_seq f = 0" "st_stream_id f \<notin> opened fs"
  shows "activeCount (run sm_step (sm_new (Some n)) fs) = 0 \<and>
    receive f (run sm_step (sm_new (Some n)) fs) = Inl (NcpError ''NCP-STREAM-LIMIT-EXCEEDED'')"
proof -
  let ?s = "run sm_step (sm_new (Some n)) fs"
  have r: "reassembles fs ?s" "sm_maxConcurrent ?s = n"
    using reassembles_run [of fs "sm_new (Some n)"] assms(1) by (simp_all add: sm_new_def)
  have "js_get (sm_streams ?s) (st_stream_id f) = None" using r(1) assms(4) by (simp add: reassembles_def)
  then have rc: "receive f ?s = Inl (NcpError ''NCP-STREAM-LIMIT-EXCEEDED'')"
    using assms(1,3) r opened_size [OF r(1)] by (simp add: receive_def)
  have "as_completed st" if "(k, st) \<in> set (sm_streams ?s)" for k st
  proof -
    have "js_get (sm_streams ?s) k = Some st"
      using r(1) js_get_in [OF _ that] unfolding reassembles_def by blast
    then show ?thesis using r(1) assms(2) by (auto simp: reassembles_def stream_of_def split: if_splits)
  qed
  then have "activeCount ?s = 0" by (auto simp: activeCount_def filter_empty_conv)
  with rc show ?thesis by simp
qed

theorem stream_limit_counts_completed_witness:
  "let f = (\<lambda>k. \<lparr>st_stream_id = k, st_seq = 0, st_is_last = True, st_data = [], st_window_size = None, st_error_code = None\<rparr>)
   in receive (f ''b'') (run sm_step (sm_new (Some 1)) [f ''a'' :: nat stream_frame]) = Inl (NcpError ''NCP-STREAM-LIMIT-EXCEEDED'')"
proof -
  let ?f = "\<lambda>k. \<lparr>st_stream_id = k, st_seq = 0, st_is_last = True, st_data = [] :: nat list, st_window_size = None, st_error_code = None\<rparr>"
  show ?thesis
    using stream_limit_counts_completed [of "[?f ''a'']" 1 "?f ''b''"]
    by (simp add: opened_def of_id_def closed_def terminal_def del: run_Cons)
qed

end
