(* ===== verification/NcpHandshake.thy ===== *)
theory NcpHandshake
  imports FrameHeader
begin

text \<open>
  The handshake of native-mode connections: \<open>ncp/preamble.ts\<close>, \<open>ncp/handshake-profile.ts\<close> (the
  server's admission and negotiation policy), the older helpers of \<open>ncp/handshake.ts\<close>, and the
  session's \<open>ncp/encoding-policy.ts\<close>.

  Version components are naturals (exact in JavaScript below \<open>2\<^sup>5\<^sup>3\<close>); \<open>NaN\<close> is \<open>None\<close>.
\<close>

section \<open>ncp/preamble.ts\<close>

definition PREAMBLE_LENGTH :: nat where "PREAMBLE_LENGTH = 8"

definition PREAMBLE_BYTES :: bytes where
  "PREAMBLE_BYTES = [0x4E, 0x50, 0x53, 0x2F, 0x31, 0x2E, 0x30, 0x0A]"

definition preambleMatches :: "bytes \<Rightarrow> bool" where
  "preambleMatches buf =
     (if length buf < PREAMBLE_LENGTH then False
      else list_all (\<lambda>i. buf ! i = PREAMBLE_BYTES ! i) [0..<PREAMBLE_LENGTH])"

datatype preamble_reason = ShortRead nat | FutureMajorVersion | Mismatch

definition tryValidatePreamble :: "bytes \<Rightarrow> preamble_reason option" where
  "tryValidatePreamble buf =
     (if length buf < PREAMBLE_LENGTH then Some (ShortRead (length buf))
      else if \<not> preambleMatches buf then
        (if buf ! 0 = 0x4E \<and> buf ! 1 = 0x50 \<and> buf ! 2 = 0x53 \<and> buf ! 3 = 0x2F
         then Some FutureMajorVersion else Some Mismatch)
      else None)"

definition validatePreamble :: "bytes \<Rightarrow> unit nps_result" where
  "validatePreamble buf = (case tryValidatePreamble buf of
     None \<Rightarrow> Inr () | Some r \<Rightarrow> Inl NcpPreambleInvalidError)"

section \<open>ncp/handshake-profile.ts\<close>

record handshake_profile =
  hp_minVersion :: string
  hp_npsVersion :: string
  hp_supportedEncodings :: "string list"
  hp_supportedProtocols :: "string list"
  hp_maxFramePayload :: int
  hp_extSupport :: bool
  hp_maxConcurrentStreams :: int

definition DEFAULT_NCP_HANDSHAKE_PROFILE :: handshake_profile where
  "DEFAULT_NCP_HANDSHAKE_PROFILE =
     \<lparr>hp_minVersion = ''0.1'', hp_npsVersion = ''0.11'',
      hp_supportedEncodings = [''msgpack'', ''json'', ''binary_vector.v1''],
      hp_supportedProtocols = [''ncp'', ''nwp'', ''nip'', ''ndp'', ''nop''],
      hp_maxFramePayload = int DEFAULT_MAX_PAYLOAD, hp_extSupport = False, hp_maxConcurrentStreams = 32\<rparr>"

text \<open>The members of \<open>HelloFrame\<close> (\<open>ncp/frames.ts\<close>) that the negotiation reads.\<close>

record hello =
  he_npsVersion :: string
  he_minVersion :: "string option"
  he_supportedEncodings :: "string list"
  he_supportedProtocols :: "string list"
  he_maxFramePayload :: int
  he_extSupport :: bool
  he_maxConcurrentStreams :: int

datatype hs_action = A_continue | A_accept | A_silent_close | A_error_close

record hs_decision =
  hd_action :: hs_action
  hd_status :: "string option"
  hd_error :: "string option"
  hd_diagnosticError :: "string option"
  hd_sessionVersion :: "string option"
  hd_negotiatedEncoding :: "string option"
  hd_enabledEncodings :: "string list option"
  hd_supportedProtocols :: "string list option"
  hd_maxFramePayload :: "int option"
  hd_extSupport :: "bool option"
  hd_maxConcurrentStreams :: "int option"

definition hs_only :: "hs_action \<Rightarrow> hs_decision" where
  "hs_only a = \<lparr>hd_action = a, hd_status = None, hd_error = None, hd_diagnosticError = None,
     hd_sessionVersion = None, hd_negotiatedEncoding = None, hd_enabledEncodings = None,
     hd_supportedProtocols = None, hd_maxFramePayload = None, hd_extSupport = None,
     hd_maxConcurrentStreams = None\<rparr>"

definition evaluatePreamble :: "bytes \<Rightarrow> int \<Rightarrow> int \<Rightarrow> hs_decision" where
  "evaluatePreamble received elapsedMs timeoutMs =
     (if timeoutMs > 0 \<and> elapsedMs \<ge> timeoutMs then hs_only A_silent_close
      else if length received < PREAMBLE_LENGTH then hs_only A_continue
      else if list_ex (\<lambda>i. received ! i \<noteq> PREAMBLE_BYTES ! i) [0..<PREAMBLE_LENGTH]
      then (hs_only A_silent_close)\<lparr>hd_diagnosticError := Some ''NCP-PREAMBLE-INVALID''\<rparr>
      else hs_only A_continue)"

definition evaluateHelloHeader :: "hdr \<Rightarrow> int \<Rightarrow> int \<Rightarrow> nat \<Rightarrow> hs_decision" where
  "evaluateHelloHeader header elapsedMs timeoutMs maxHelloPayload =
     (if timeoutMs > 0 \<and> elapsedMs \<ge> timeoutMs then hs_only A_silent_close
      else if hdr_frameType header \<noteq> 0x06 \<or> hdr_encodingTier header \<noteq> TIER_JSON
        \<or> hdr_isEncrypted header \<or> hdr_isExtended header \<or> hdr_payloadLength header > maxHelloPayload
      then hs_only A_silent_close
      else hs_only A_continue)"

type_synonym version = "nat \<times> nat"

text \<open>\<open>/^(\d+)\.(\d+)$/\<close>: the two runs of digits cannot contain the dot, so splitting at dots
  finds the only possible match.\<close>

definition parseVersion :: "string \<Rightarrow> version option" where
  "parseVersion value = (case js_split CHR ''.'' value of
     [a, b] \<Rightarrow> if a \<noteq> [] \<and> b \<noteq> [] \<and> list_all js_is_digit a \<and> list_all js_is_digit b
                then Some (js_digits_value a, js_digits_value b) else None
   | _ \<Rightarrow> None)"

definition compare_version :: "version \<Rightarrow> version \<Rightarrow> int" where
  "compare_version a b =
     (if fst a = fst b then int (snd a) - int (snd b) else int (fst a) - int (fst b))"

definition minVersion :: "version \<Rightarrow> version \<Rightarrow> version" where
  "minVersion a b = (if compare_version a b \<le> 0 then a else b)"

definition maxVersion :: "version \<Rightarrow> version \<Rightarrow> version" where
  "maxVersion a b = (if compare_version a b \<ge> 0 then a else b)"

definition versionError :: hs_decision where
  "versionError = (hs_only A_error_close)
     \<lparr>hd_status := Some ''NPS-PROTO-VERSION-INCOMPATIBLE'', hd_error := Some ''NCP-VERSION-INCOMPATIBLE''\<rparr>"

definition encodingError :: hs_decision where
  "encodingError = (hs_only A_error_close)
     \<lparr>hd_status := Some ''NPS-SERVER-ENCODING-UNSUPPORTED'', hd_error := Some ''NCP-ENCODING-UNSUPPORTED''\<rparr>"

text \<open>The range of versions both sides speak, \<open>None\<close> where the code returns \<open>versionError()\<close>.\<close>

definition version_overlap :: "handshake_profile \<Rightarrow> hello \<Rightarrow> (version \<times> version) option" where
  "version_overlap server client =
     (case (parseVersion (hp_minVersion server), parseVersion (hp_npsVersion server),
            parseVersion (case he_minVersion client of None \<Rightarrow> he_npsVersion client | Some v \<Rightarrow> v),
            parseVersion (he_npsVersion client)) of
        (Some serverMin, Some serverMax, Some clientMin, Some clientMax) \<Rightarrow>
          if compare_version serverMin serverMax > 0 \<or> compare_version clientMin clientMax > 0 then None
          else let overlapMin = maxVersion serverMin clientMin; overlapMax = minVersion serverMax clientMax
            in if compare_version overlapMin overlapMax > 0 then None else Some (overlapMin, overlapMax)
      | _ \<Rightarrow> None)"

definition negotiateHandshake :: "handshake_profile \<Rightarrow> hello \<Rightarrow> hs_decision" where
  "negotiateHandshake server client = (case version_overlap server client of
     None \<Rightarrow> versionError
   | Some (overlapMin, overlapMax) \<Rightarrow>
       let serverEncodings = set (hp_supportedEncodings server) in
       (case find (\<lambda>token. (token = ''msgpack'' \<or> token = ''json'') \<and> token \<in> serverEncodings)
               (he_supportedEncodings client) of
          None \<Rightarrow> encodingError
        | Some enc \<Rightarrow>
            let protocols = js_uniq (filter (\<lambda>token. token \<in> set (hp_supportedProtocols server))
                              (he_supportedProtocols client)) in
            if ''ncp'' \<notin> set protocols \<or> he_maxFramePayload client \<le> 0 \<or> hp_maxFramePayload server \<le> 0
               \<or> he_maxConcurrentStreams client \<le> 0 \<or> hp_maxConcurrentStreams server \<le> 0
            then versionError
            else let enabled = (if ''binary_vector.v1'' \<in> serverEncodings
                                   \<and> ''binary_vector.v1'' \<in> set (he_supportedEncodings client)
                                then [enc, ''binary_vector.v1''] else [enc]) in
              (hs_only A_accept)
                \<lparr>hd_sessionVersion := Some (js_nat_string (fst overlapMax) @ ''.'' @ js_nat_string (snd overlapMax)),
                 hd_negotiatedEncoding := Some enc,
                 hd_enabledEncodings := Some enabled,
                 hd_supportedProtocols := Some protocols,
                 hd_maxFramePayload := Some (min (hp_maxFramePayload server) (he_maxFramePayload client)),
                 hd_extSupport := Some (hp_extSupport server \<and> he_extSupport client),
                 hd_maxConcurrentStreams :=
                   Some (min (hp_maxConcurrentStreams server) (he_maxConcurrentStreams client))\<rparr>))"

section \<open>ncp/handshake.ts\<close>

text \<open>\<open>Number.parseInt(p, 10)\<close>: leading white space and a sign are allowed, the longest run of
  digits is read, \<open>NaN\<close> (\<open>None\<close>) when there is none.\<close>

definition js_parseInt :: "string \<Rightarrow> int option" where
  "js_parseInt p =
     (let s = dropWhile js_is_ws p;
          (neg, s) = (case s of c # cs \<Rightarrow> if c = CHR ''-'' then (True, cs)
                                else if c = CHR ''+'' then (False, cs) else (False, s) | [] \<Rightarrow> (False, s));
          ds = takeWhile js_is_digit s
      in if ds = [] then None
         else Some (if neg then - int (js_digits_value ds) else int (js_digits_value ds)))"

definition hs_parseVersion :: "string \<Rightarrow> int option list" where
  "hs_parseVersion v = map js_parseInt (js_split CHR ''.'' v)"

text \<open>The loop of \<open>compareVersions\<close>; missing components count as 0; \<open>NaN\<close> differs from
  everything and makes the result \<open>NaN\<close>.\<close>

fun hs_compare_parts :: "int option list \<Rightarrow> int option list \<Rightarrow> int option" where
  "hs_compare_parts [] [] = Some 0"
| "hs_compare_parts as bs =
     (let x = (case as of [] \<Rightarrow> Some 0 | a # _ \<Rightarrow> a); y = (case bs of [] \<Rightarrow> Some 0 | b # _ \<Rightarrow> b) in
      case (x, y) of
        (Some m, Some n) \<Rightarrow> if m \<noteq> n then Some (m - n) else hs_compare_parts (tl as) (tl bs)
      | _ \<Rightarrow> None)"

definition compareVersions :: "string \<Rightarrow> string \<Rightarrow> int option" where
  "compareVersions a b = hs_compare_parts (hs_parseVersion a) (hs_parseVersion b)"

definition nan_gt0 :: "int option \<Rightarrow> bool" where
  "nan_gt0 x = (case x of None \<Rightarrow> False | Some n \<Rightarrow> n > 0)"

definition nan_le0 :: "int option \<Rightarrow> bool" where
  "nan_le0 x = (case x of None \<Rightarrow> False | Some n \<Rightarrow> n \<le> 0)"

record version_negotiation =
  vn_session_version :: string
  vn_compatible :: bool
  vn_error_code :: "string option"

definition negotiateVersion :: "string \<Rightarrow> string option \<Rightarrow> string \<Rightarrow> version_negotiation" where
  "negotiateVersion client_nps client_min serverVersion =
     (let clientMin = (case client_min of None \<Rightarrow> client_nps | Some v \<Rightarrow> v) in
      if nan_gt0 (compareVersions clientMin serverVersion)
      then \<lparr>vn_session_version = serverVersion, vn_compatible = False,
            vn_error_code = Some ''NCP-VERSION-INCOMPATIBLE''\<rparr>
      else \<lparr>vn_session_version = (if nan_le0 (compareVersions client_nps serverVersion)
                                   then client_nps else serverVersion),
            vn_compatible = True, vn_error_code = None\<rparr>)"

definition negotiateEncoding :: "string list \<Rightarrow> string list \<Rightarrow> string option" where
  "negotiateEncoding client server =
     (if ''msgpack'' \<in> set client \<and> ''msgpack'' \<in> set server then Some ''msgpack''
      else if ''json'' \<in> set client \<and> ''json'' \<in> set server then Some ''json''
      else find (\<lambda>enc. enc \<in> set server) client)"

section \<open>ncp/encoding-policy.ts\<close>

record encoding_policy =
  ep_defaultTier :: byte
  ep_binaryVectorEnabled :: bool

definition isBinaryVectorFrame :: "byte \<Rightarrow> bool" where
  "isBinaryVectorFrame frameType = (frameType = 0x10)"

definition encodingToken :: "byte \<Rightarrow> string" where
  "encodingToken tier =
     (if tier = TIER_JSON then ''json'' else if tier = TIER_MSGPACK then ''msgpack''
      else if tier = TIER_BINARY_VECTOR then ''binary_vector.v1''
      else ''unknown:'' @ js_nat_string (unat tier))"

definition ep_enabledEncodings :: "encoding_policy \<Rightarrow> string list" where
  "ep_enabledEncodings p =
     (if ep_binaryVectorEnabled p then [encodingToken (ep_defaultTier p), ''binary_vector.v1'']
      else [encodingToken (ep_defaultTier p)])"

definition ep_allows :: "encoding_policy \<Rightarrow> byte \<Rightarrow> byte \<Rightarrow> bool" where
  "ep_allows p tier frameType \<longleftrightarrow>
     tier = ep_defaultTier p \<or>
     (tier = TIER_BINARY_VECTOR \<and> ep_binaryVectorEnabled p \<and> isBinaryVectorFrame frameType)"

definition ensureAllows :: "encoding_policy \<Rightarrow> hdr \<Rightarrow> unit nps_result" where
  "ensureAllows p header =
     (if ep_allows p (hdr_encodingTier header) (hdr_frameType header) then Inr ()
      else Inl NpsEncodingUnsupportedError)"

definition fromEnabledEncodings :: "byte \<Rightarrow> string list option \<Rightarrow> encoding_policy" where
  "fromEnabledEncodings defaultTier enabled =
     \<lparr>ep_defaultTier = defaultTier,
      ep_binaryVectorEnabled = (case enabled of None \<Rightarrow> False | Some es \<Rightarrow> ''binary_vector.v1'' \<in> set es)\<rparr>"

section \<open>Versions\<close>

text \<open>Versions compare by the lexicographic order of the components.\<close>

definition version_le :: "version \<Rightarrow> version \<Rightarrow> bool" where
  "version_le a b \<longleftrightarrow> fst a < fst b \<or> fst a = fst b \<and> snd a \<le> snd b"

lemma compare_version_le: "compare_version a b \<le> 0 \<longleftrightarrow> version_le a b"
  by (auto simp: compare_version_def version_le_def)

lemma compare_version_swap: "compare_version b a = - compare_version a b"
  by (simp add: compare_version_def)

lemma version_le_trans: "version_le a b \<Longrightarrow> version_le b c \<Longrightarrow> version_le a c"
  by (auto simp: version_le_def)

lemma version_le_total: "version_le a b \<or> version_le b a"
  by (auto simp: version_le_def)

lemma maxVersion_lub: "version_le (maxVersion a b) c \<longleftrightarrow> version_le a c \<and> version_le b c"
  using version_le_trans version_le_total [of a b]
  by (auto simp: maxVersion_def version_le_def compare_version_def split: if_splits)

lemma minVersion_glb: "version_le c (minVersion a b) \<longleftrightarrow> version_le c a \<and> version_le c b"
  by (auto simp: minVersion_def version_le_def compare_version_def split: if_splits)

lemma minVersion_cases: "minVersion a b = a \<or> minVersion a b = b"
  by (simp add: minVersion_def)

lemma js_is_digit_not_dot: "js_is_digit c \<Longrightarrow> c \<noteq> CHR ''.''"
  by (auto simp: js_is_digit_def)

lemma parseVersion_print:
  "parseVersion (js_nat_string a @ ''.'' @ js_nat_string b) = Some (a, b)"
proof -
  have nd: "CHR ''.'' \<notin> set (js_nat_string n)" for n
    using js_nat_string_digits js_is_digit_not_dot by blast
  have "js_split CHR ''.'' (js_nat_string a @ ''.'' @ js_nat_string b) = [js_nat_string a, js_nat_string b]"
    using js_split_sep [OF nd] js_split_no_sep [OF nd] by simp
  then show ?thesis
    by (simp add: parseVersion_def js_digits_value_nat_string list_all_iff js_nat_string_digits)
qed

lemma version_overlap_Some:
  assumes "version_overlap server client = Some (lo, hi)"
  obtains smin smax cmin cmax where
    "parseVersion (hp_minVersion server) = Some smin" "parseVersion (hp_npsVersion server) = Some smax"
    "parseVersion (case he_minVersion client of None \<Rightarrow> he_npsVersion client | Some v \<Rightarrow> v) = Some cmin"
    "parseVersion (he_npsVersion client) = Some cmax"
    "lo = maxVersion smin cmin" "hi = minVersion smax cmax" "version_le lo hi"
  using assms compare_version_le [of lo hi]
  by (auto simp: version_overlap_def Let_def split: option.splits if_splits)

text \<open>The versions a side accepts.\<close>

definition version_between :: "version option \<Rightarrow> version option \<Rightarrow> version \<Rightarrow> bool" where
  "version_between lo hi v = (case (lo, hi) of
     (Some l, Some h) \<Rightarrow> version_le l v \<and> version_le v h | _ \<Rightarrow> False)"

definition server_speaks :: "handshake_profile \<Rightarrow> version \<Rightarrow> bool" where
  "server_speaks p v = version_between (parseVersion (hp_minVersion p)) (parseVersion (hp_npsVersion p)) v"

definition client_speaks :: "hello \<Rightarrow> version \<Rightarrow> bool" where
  "client_speaks c v = version_between
     (parseVersion (case he_minVersion c of None \<Rightarrow> he_npsVersion c | Some m \<Rightarrow> m))
     (parseVersion (he_npsVersion c)) v"

lemma version_overlap_speaks:
  assumes "version_overlap server client = Some (lo, hi)"
  shows "server_speaks server v \<and> client_speaks client v \<longleftrightarrow> version_le lo v \<and> version_le v hi"
    and "version_le lo hi"
proof -
  from assms obtain smin smax cmin cmax where o:
    "parseVersion (hp_minVersion server) = Some smin" "parseVersion (hp_npsVersion server) = Some smax"
    "parseVersion (case he_minVersion client of None \<Rightarrow> he_npsVersion client | Some v \<Rightarrow> v) = Some cmin"
    "parseVersion (he_npsVersion client) = Some cmax"
    "lo = maxVersion smin cmin" "hi = minVersion smax cmax" "version_le lo hi"
    by (rule version_overlap_Some)
  then show "version_le lo hi" by simp
  show "server_speaks server v \<and> client_speaks client v \<longleftrightarrow> version_le lo v \<and> version_le v hi"
    using o(1-6) by (auto simp: server_speaks_def client_speaks_def version_between_def maxVersion_lub minVersion_glb)
qed

lemma version_overlap_exists:
  assumes "server_speaks server v" "client_speaks client v"
  shows "\<exists>lo hi. version_overlap server client = Some (lo, hi)"
proof -
  from assms(1) obtain smin smax where s: "parseVersion (hp_minVersion server) = Some smin"
    "parseVersion (hp_npsVersion server) = Some smax" "version_le smin v" "version_le v smax"
    by (auto simp: server_speaks_def version_between_def split: option.splits)
  from assms(2) obtain cmin cmax where
    c: "parseVersion (case he_minVersion client of None \<Rightarrow> he_npsVersion client | Some v \<Rightarrow> v) = Some cmin"
    "parseVersion (he_npsVersion client) = Some cmax" "version_le cmin v" "version_le v cmax"
    by (auto simp: client_speaks_def version_between_def split: option.splits)
  have "version_le smin smax" "version_le cmin cmax" using s c version_le_trans by blast+
  moreover have "version_le (maxVersion smin cmin) (minVersion smax cmax)"
    using s c version_le_trans by (meson maxVersion_lub minVersion_glb)
  ultimately show ?thesis
    using s(1,2) c(1,2) by (simp add: version_overlap_def compare_version_le [symmetric] Let_def not_less)
qed

lemma version_overlap_iff:
  "(\<exists>lo hi. version_overlap server client = Some (lo, hi)) \<longleftrightarrow> (\<exists>v. server_speaks server v \<and> client_speaks client v)"
  using version_overlap_exists version_overlap_speaks version_le_total by (metis version_le_def)

lemma hs_only_simps [simp]: "hd_action (hs_only a) = a"
  by (simp add: hs_only_def)

lemma error_actions [simp]: "hd_action versionError = A_error_close" "hd_action encodingError = A_error_close"
  by (simp_all add: versionError_def encodingError_def)

section \<open>Properties\<close>

text \<open>When the server accepts, what it negotiated is supported by both sides: the session
  version is the greatest version both sides speak; the encoding is a stable one
  (\<open>msgpack\<close> or \<open>json\<close>) that both support; the enabled encodings are supported by both; the protocols are
  exactly the common ones, without duplicates and with \<open>ncp\<close>; the limits are the smaller ones and
  positive; extended frames only when both support them.\<close>

theorem negotiate_sound:
  assumes "hd_action (negotiateHandshake server client) = A_accept"
  shows "\<exists>vs v enc encs ps mp ms.
    negotiateHandshake server client = (hs_only A_accept)
      \<lparr>hd_sessionVersion := Some vs, hd_negotiatedEncoding := Some enc, hd_enabledEncodings := Some encs,
       hd_supportedProtocols := Some ps, hd_maxFramePayload := Some mp,
       hd_extSupport := Some (hp_extSupport server \<and> he_extSupport client), hd_maxConcurrentStreams := Some ms\<rparr> \<and>
    parseVersion vs = Some v \<and> server_speaks server v \<and> client_speaks client v \<and>
    (\<forall>w. server_speaks server w \<and> client_speaks client w \<longrightarrow> version_le w v) \<and>
    (enc = ''msgpack'' \<or> enc = ''json'') \<and> enc \<in> set encs \<and>
    set encs \<subseteq> set (hp_supportedEncodings server) \<inter> set (he_supportedEncodings client) \<and>
    set ps = set (hp_supportedProtocols server) \<inter> set (he_supportedProtocols client) \<and> distinct ps \<and> ''ncp'' \<in> set ps \<and>
    0 < mp \<and> mp \<le> hp_maxFramePayload server \<and> mp \<le> he_maxFramePayload client \<and>
    0 < ms \<and> ms \<le> hp_maxConcurrentStreams server \<and> ms \<le> he_maxConcurrentStreams client"
proof -
  obtain lo hi where o: "version_overlap server client = Some (lo, hi)"
    using assms by (auto simp: negotiateHandshake_def split: option.splits)
  let ?P = "\<lambda>token. (token = ''msgpack'' \<or> token = ''json'') \<and> token \<in> set (hp_supportedEncodings server)"
  obtain enc where f: "find ?P (he_supportedEncodings client) = Some enc"
    using assms o by (cases "find ?P (he_supportedEncodings client)") (auto simp: negotiateHandshake_def)
  then have enc: "?P enc" "enc \<in> set (he_supportedEncodings client)" by (auto dest: find_SomeD)
  note sp = version_overlap_speaks [OF o]
  have v: "server_speaks server hi \<and> client_speaks client hi" using sp by (auto simp: version_le_def)
  have m: "\<forall>w. server_speaks server w \<and> client_speaks client w \<longrightarrow> version_le w hi" using sp(1) by blast
  let ?ps = "js_uniq (filter (\<lambda>token. token \<in> set (hp_supportedProtocols server)) (he_supportedProtocols client))"
  let ?encs = "if ''binary_vector.v1'' \<in> set (hp_supportedEncodings server) \<and>
    ''binary_vector.v1'' \<in> set (he_supportedEncodings client) then [enc, ''binary_vector.v1''] else [enc]"
  have g: "''ncp'' \<in> set ?ps" "0 < he_maxFramePayload client" "0 < hp_maxFramePayload server"
    "0 < he_maxConcurrentStreams client" "0 < hp_maxConcurrentStreams server"
    using assms o f by (auto simp: negotiateHandshake_def Let_def split: if_splits)
  have "negotiateHandshake server client = (hs_only A_accept)
      \<lparr>hd_sessionVersion := Some (js_nat_string (fst hi) @ ''.'' @ js_nat_string (snd hi)),
       hd_negotiatedEncoding := Some enc, hd_enabledEncodings := Some ?encs, hd_supportedProtocols := Some ?ps,
       hd_maxFramePayload := Some (min (hp_maxFramePayload server) (he_maxFramePayload client)),
       hd_extSupport := Some (hp_extSupport server \<and> he_extSupport client),
       hd_maxConcurrentStreams := Some (min (hp_maxConcurrentStreams server) (he_maxConcurrentStreams client))\<rparr>"
    using o f g by (simp add: negotiateHandshake_def Let_def)
  moreover have "set ?encs \<subseteq> set (hp_supportedEncodings server) \<inter> set (he_supportedEncodings client)" "enc \<in> set ?encs"
    using enc by auto
  moreover have "set ?ps = set (hp_supportedProtocols server) \<inter> set (he_supportedProtocols client)" by auto
  moreover have "parseVersion (js_nat_string (fst hi) @ ''.'' @ js_nat_string (snd hi)) = Some hi"
    by (simp only: parseVersion_print prod.collapse)
  ultimately show ?thesis
    using v m enc(1) g distinct_js_uniq min.cobounded1 min.cobounded2 min_less_iff_conj
    by (intro exI conjI) (assumption | blast | simp)+
qed

theorem negotiate_sound_witness:
  "let c = \<lparr>he_npsVersion = ''0.10'', he_minVersion = Some ''0.2'', he_supportedEncodings = [''json'', ''msgpack''],
            he_supportedProtocols = [''nwp'', ''ncp'', ''x'', ''nwp''], he_maxFramePayload = 1024,
            he_extSupport = True, he_maxConcurrentStreams = 64\<rparr>;
       d = negotiateHandshake DEFAULT_NCP_HANDSHAKE_PROFILE c
   in hd_action d = A_accept \<and> (\<exists>mp. hd_maxFramePayload d = Some mp \<and> 0 < mp \<and> mp \<le> 1024)"
proof -
  let ?c = "\<lparr>he_npsVersion = ''0.10'', he_minVersion = Some ''0.2'', he_supportedEncodings = [''json'', ''msgpack''],
     he_supportedProtocols = [''nwp'', ''ncp'', ''x'', ''nwp''], he_maxFramePayload = 1024,
     he_extSupport = True, he_maxConcurrentStreams = 64\<rparr>"
  have a: "hd_action (negotiateHandshake DEFAULT_NCP_HANDSHAKE_PROFILE ?c) = A_accept"
    by (simp add: negotiateHandshake_def DEFAULT_NCP_HANDSHAKE_PROFILE_def version_overlap_def parseVersion_def
        js_is_digit_def js_digits_value_def compare_version_def maxVersion_def minVersion_def header_consts Let_def
        js_uniq_def)
  from negotiate_sound [OF a] obtain mp where
    "hd_maxFramePayload (negotiateHandshake DEFAULT_NCP_HANDSHAKE_PROFILE ?c) = Some mp" "0 < mp" "mp \<le> 1024"
    by auto
  with a show ?thesis by (simp only: Let_def) blast
qed


text \<open>\<open>negotiateVersion\<close> of \<open>ncp/handshake.ts\<close> treats a minimum version it cannot parse as
  compatible: when the first component is not a number the comparison is \<open>NaN\<close>, which is not
  greater than 0. The documentation of \<open>parseVersion\<close> calls this a safe failure.\<close>

theorem unparsable_min_version_accepted:
  assumes "hs_parseVersion m = None # ms"
  shows "vn_compatible (negotiateVersion nps (Some m) server) \<and>
         vn_error_code (negotiateVersion nps (Some m) server) = None"
proof -
  have "compareVersions m server = None"
    using assms by (simp add: compareVersions_def)
  then show ?thesis by (simp add: negotiateVersion_def nan_gt0_def)
qed

theorem unparsable_min_version_accepted_witness:
  "vn_compatible (negotiateVersion ''0.9'' (Some ''v9.9'') ''0.1'')"
  using unparsable_min_version_accepted [of "''v9.9''" "[Some 9]" "''0.9''" "''0.1''"]
  by (simp add: hs_parseVersion_def js_parseInt_def js_is_ws_def js_is_digit_def js_digits_value_def)

end
