(* ===== verification/NcpSession.thy ===== *)
theory NcpSession
  imports FrameCodec FrameReader NcpHandshake
begin

text \<open>
  Connections: the server's admission of a connection (\<open>ncp/server.ts\<close>), the client's opening
  bytes (\<open>ncp/native-client.ts\<close>), the session's send and receive under the negotiated encoding
  policy (\<open>ncp/session.ts\<close>, \<open>ncp/server-connection.ts\<close>), and the failover connector
  (\<open>ncp/failover-connector.ts\<close>).

  The admission reads from a \<open>SocketFrameReader\<close>; \<open>Suspend\<close> means that it still waits for bytes.
  The reads are deterministic in the bytes received so far, so re-running it on a longer buffer
  is what the suspended coroutine computes. The codec operations on frames are the parameter
  \<open>'f frame_ops\<close> of \<open>FrameCodec\<close>.
\<close>

section \<open>ncp/server.ts\<close>

fun abind :: "'a await_result \<Rightarrow> ('a \<Rightarrow> 'b await_result) \<Rightarrow> 'b await_result" where
  "abind Suspend f = Suspend"
| "abind (Throw e) f = Throw e"
| "abind (Return a) f = f a"

definition lift_nps :: "'a nps_result \<Rightarrow> 'a await_result" where
  "lift_nps r = (case r of Inl e \<Rightarrow> Throw (HeaderError e) | Inr a \<Rightarrow> Return a)"

definition readFrameHeader :: "sock_reader \<Rightarrow> (hdr \<times> bytes \<times> sock_reader) await_result" where
  "readFrameHeader s = abind (readExactly 2 s) (\<lambda>(peek, s).
     let ext = (peek ! 1 AND EXT_BIT \<noteq> 0);
         remaining = (if ext then EXTENDED_HEADER_SIZE - 2 else DEFAULT_HEADER_SIZE - 2)
     in abind (readExactly remaining s) (\<lambda>(rest, s).
          abind (lift_nps (hdr_parse (peek @ rest))) (\<lambda>header. Return (header, peek @ rest, s))))"

definition readPreamble :: "sock_reader \<Rightarrow> sock_reader await_result" where
  "readPreamble s = abind (readExactly PREAMBLE_LENGTH s) (\<lambda>(preamble, s).
     abind (lift_nps (validatePreamble preamble)) (\<lambda>_. Return s))"

text \<open>\<open>isHello\<close>: the decoded frame is an instance of the class \<open>HelloFrame\<close>.\<close>

definition readHello :: "'f frame_ops \<Rightarrow> ('f \<Rightarrow> bool) \<Rightarrow> nat \<Rightarrow> sock_reader \<Rightarrow> ('f \<times> sock_reader) await_result" where
  "readHello ops isHello maxHelloPayload s = abind (readFrameHeader s) (\<lambda>(header, raw, s).
     if hd_action (evaluateHelloHeader header 0 0 maxHelloPayload) \<noteq> A_continue
     then Throw (HeaderError NpsFrameError)
     else abind (readExactly (hdr_payloadLength header) s) (\<lambda>(payload, s).
       let wire = hdr_toBytes header @ payload in
       abind (lift_nps (nc_decode ops wire)) (\<lambda>hello.
         if isHello hello then Return (hello, s) else Throw (HeaderError NpsFrameError))))"

text \<open>\<open>_handleConnection\<close> after the authentication hook, without the timers.\<close>

definition handleConnection :: "'f frame_ops \<Rightarrow> ('f \<Rightarrow> bool) \<Rightarrow> nat \<Rightarrow> sock_reader \<Rightarrow> ('f \<times> sock_reader) await_result" where
  "handleConnection ops isHello maxHelloPayload s =
     abind (readPreamble s) (readHello ops isHello maxHelloPayload)"

section \<open>ncp/native-client.ts\<close>

text \<open>The bytes \<open>connect\<close> writes before it waits for the server.\<close>

definition client_opening :: "'f frame_ops \<Rightarrow> nat \<Rightarrow> 'f \<Rightarrow> bytes nps_result" where
  "client_opening ops maxPayload hello =
     rbind (nc_encode ops maxPayload hello (Some TIER_JSON)) (\<lambda>helloWire. Inr (PREAMBLE_BYTES @ helloWire))"

section \<open>ncp/server-connection.ts and ncp/session.ts\<close>

text \<open>The policy \<open>accept\<close> derives from an accepting negotiation.\<close>

definition accept_policy :: "hs_decision \<Rightarrow> encoding_policy" where
  "accept_policy negotiation =
     \<lparr>ep_defaultTier = (if hd_negotiatedEncoding negotiation = Some ''msgpack'' then TIER_MSGPACK else TIER_JSON),
      ep_binaryVectorEnabled = (case hd_enabledEncodings negotiation of
         None \<Rightarrow> False | Some es \<Rightarrow> ''binary_vector.v1'' \<in> set es)\<rparr>"

text \<open>The bytes \<open>send\<close> writes, or the error it throws before writing anything.\<close>

definition session_send :: "'f frame_ops \<Rightarrow> nat \<Rightarrow> encoding_policy \<Rightarrow> 'f \<Rightarrow> byte option \<Rightarrow> bytes nps_result" where
  "session_send ops maxPayload policy frame tier =
     (let useTier = (case tier of None \<Rightarrow> ep_defaultTier policy | Some t \<Rightarrow> t) in
      rbind (nc_encode ops maxPayload frame (Some useTier)) (\<lambda>wire.
        rbind (hdr_parse wire) (\<lambda>header.
          rbind (ensureAllows policy header) (\<lambda>_. Inr wire))))"

definition session_receive :: "'f frame_ops \<Rightarrow> encoding_policy \<Rightarrow> hdr \<times> bytes \<Rightarrow> 'f nps_result" where
  "session_receive ops policy hw =
     rbind (ensureAllows policy (fst hw)) (\<lambda>_. nc_decode ops (snd hw))"

section \<open>ncp/failover-connector.ts\<close>

text \<open>
  The delegates are external: \<open>resolveActive\<close> and \<open>connectTo\<close> take the number of the attempt, so
  that a call may give another result each time; \<open>aborted\<close> is \<open>signal?.throwIfAborted()\<close>.
\<close>

record ('ep, 's, 'e) failover =
  fo_maxAttempts :: nat
  fo_aborted :: "nat \<Rightarrow> 'e option"
  fo_resolveActive :: "nat \<Rightarrow> ('e, 'ep) result"
  fo_connectTo :: "nat \<Rightarrow> 'ep \<Rightarrow> ('e, 's) result"
  fo_matcher :: "'e \<Rightarrow> bool"

text \<open>The loop with the attempts still to be made; \<open>lastError\<close> starts undefined (\<open>None\<close>). The
  second component lists the attempts at which \<open>resolveActive\<close> was called.\<close>

fun connect_loop :: "('ep, 's, 'e) failover \<Rightarrow> nat \<Rightarrow> nat \<Rightarrow> 'e option \<Rightarrow> ('e option, 's) result \<times> nat list" where
  "connect_loop c attempt 0 lastError = (Inl lastError, [])"
| "connect_loop c attempt (Suc left) lastError =
     (case fo_aborted c attempt of
        Some e \<Rightarrow> (Inl (Some e), [])
      | None \<Rightarrow>
          (case fo_resolveActive c attempt of
             Inl e \<Rightarrow> (Inl (Some e), [attempt])
           | Inr ep \<Rightarrow>
               (case fo_connectTo c attempt ep of
                  Inr session \<Rightarrow> (Inr session, [attempt])
                | Inl e \<Rightarrow>
                    if \<not> fo_matcher c e then (Inl (Some e), [attempt])
                    else (let (r, tr) = connect_loop c (attempt + 1) left (Some e) in (r, attempt # tr)))))"

definition failover_connect :: "('ep, 's, 'e) failover \<Rightarrow> ('e option, 's) result \<times> nat list" where
  "failover_connect c = connect_loop c 1 (fo_maxAttempts c) None"

section \<open>Admission\<close>

lemma preambleMatches_iff:
  "preambleMatches buf \<longleftrightarrow> 8 \<le> length buf \<and> take 8 buf = PREAMBLE_BYTES"
proof -
  have len: "length PREAMBLE_BYTES = 8" by (simp add: PREAMBLE_BYTES_def)
  have "take 8 buf = PREAMBLE_BYTES \<longleftrightarrow> (\<forall>i<8. buf ! i = PREAMBLE_BYTES ! i)" if "8 \<le> length buf"
    using that len by (auto simp: list_eq_iff_nth_eq)
  then show ?thesis
    by (auto simp: preambleMatches_def PREAMBLE_LENGTH_def list_all_iff)
qed

lemma validatePreamble_iff: "validatePreamble buf = Inr u \<longleftrightarrow> 8 \<le> length buf \<and> take 8 buf = PREAMBLE_BYTES"
  by (auto simp: validatePreamble_def tryValidatePreamble_def preambleMatches_iff PREAMBLE_LENGTH_def
      split: option.splits if_splits)

lemma abind_Return: "abind r f = Return b \<longleftrightarrow> (\<exists>a. r = Return a \<and> f a = Return b)"
  by (cases r) auto

lemma lift_nps_Return [simp]: "lift_nps r = Return a \<longleftrightarrow> r = Inr a"
  by (cases r) (auto simp: lift_nps_def)

lemma readFrameHeader_toBytes:
  assumes "hdr_wf h"
  shows "readFrameHeader (s\<lparr>sr_buffer := hdr_toBytes h @ b\<rparr>) = Return (h, hdr_toBytes h, s\<lparr>sr_buffer := b\<rparr>)"
proof -
  have p: "hdr_parse (hdr_toBytes h) = Inr h" using hdr_parse_toBytes [OF assms, of "[]"] by simp
  show ?thesis
  proof (cases "hdr_isExtended h")
    case True
    have t: "hdr_toBytes h = [hdr_frameType h, hdr_flags h] @ uint16_bytes 0 @ uint32_bytes (hdr_payloadLength h)"
      using True by (simp add: hdr_toBytes_def)
    then show ?thesis
      using True p by (simp add: readFrameHeader_def readExactly_def hdr_isExtended_def header_consts lift_nps_def)
  next
    case False
    have t: "hdr_toBytes h = [hdr_frameType h, hdr_flags h] @ uint16_bytes (hdr_payloadLength h)"
      using False by (simp add: hdr_toBytes_def)
    then show ?thesis
      using False p by (simp add: readFrameHeader_def readExactly_def hdr_isExtended_def header_consts lift_nps_def)
  qed
qed

lemma readExactly_consumes:
  "readExactly n s = Return (out, s') \<Longrightarrow> sr_buffer s = out @ sr_buffer s' \<and> length out = n"
  by (auto simp: readExactly_Return)

lemma readFrameHeader_consumes:
  assumes "readFrameHeader s = Return (h, raw, s')"
  shows "sr_buffer s = raw @ sr_buffer s'" "hdr_parse raw = Inr h"
  using assms by (auto simp: readFrameHeader_def abind_Return Let_def dest!: readExactly_consumes)

lemma readPreamble_consumes:
  "readPreamble s = Return s' \<Longrightarrow> sr_buffer s = PREAMBLE_BYTES @ sr_buffer s'"
  by (auto simp: readPreamble_def abind_Return validatePreamble_iff PREAMBLE_LENGTH_def
      dest!: readExactly_consumes)

lemma readPreamble_PREAMBLE:
  "readPreamble (s\<lparr>sr_buffer := PREAMBLE_BYTES @ b\<rparr>) = Return (s\<lparr>sr_buffer := b\<rparr>)"
proof -
  have l: "length PREAMBLE_BYTES = 8" by (simp add: PREAMBLE_BYTES_def)
  then have "validatePreamble PREAMBLE_BYTES = Inr ()" by (simp add: validatePreamble_iff)
  then show ?thesis
    using l by (simp add: readPreamble_def readExactly_def PREAMBLE_LENGTH_def lift_nps_def)
qed

lemma hello_header_ok:
  "hd_action (evaluateHelloHeader h 0 0 mx) = A_continue \<longleftrightarrow>
     hdr_frameType h = 0x06 \<and> hdr_encodingTier h = TIER_JSON \<and> \<not> hdr_isEncrypted h \<and>
     \<not> hdr_isExtended h \<and> hdr_payloadLength h \<le> mx"
  by (auto simp: evaluateHelloHeader_def)

section \<open>Sessions\<close>

lemma session_send_Inr:
  assumes "session_send ops maxPayload policy f tier = Inr wire" "maxPayload \<le> EXTENDED_MAX_PAYLOAD"
  obtains h pb where "wire = hdr_toBytes h @ pb" "hdr_wf h" "length pb = hdr_payloadLength h"
    "hdr_frameType h = fo_frameType ops f" "nc_supported (hdr_encodingTier h)"
    "hdr_encodingTier h = (case tier of None \<Rightarrow> ep_defaultTier policy | Some t \<Rightarrow> t)"
    "fo_encode ops (hdr_encodingTier h) f = Some pb" "ensureAllows policy h = Inr ()"
    "hdr_parse wire = Inr h"
proof -
  let ?t = "case tier of None \<Rightarrow> ep_defaultTier policy | Some t \<Rightarrow> t"
  from assms(1) obtain h0 where n: "nc_encode ops maxPayload f (Some ?t) = Inr wire"
    and h0: "hdr_parse wire = Inr h0" "ensureAllows policy h0 = Inr ()"
    by (auto simp: session_send_def Let_def rbind_Inr_iff)
  from n obtain pb where pb: "fo_encode ops ?t f = Some pb" "nc_supported ?t" "length pb \<le> maxPayload"
    by (auto simp: nc_encode_def Let_def split: if_splits option.splits)
  from nc_encode_eq [OF pb, of "Some ?t"] assms(2) obtain h where
    h: "nc_encode ops maxPayload f (Some ?t) = Inr (hdr_toBytes h @ pb)" "hdr_wf h"
      "hdr_frameType h = fo_frameType ops f" "hdr_payloadLength h = length pb" "hdr_encodingTier h = ?t"
    by auto
  have w: "wire = hdr_toBytes h @ pb" using n h(1) by simp
  have "h0 = h" using h0(1) hdr_parse_toBytes [OF h(2), of pb] w by simp
  with that [OF w h(2)] h pb h0 show thesis by simp
qed

section \<open>Failover\<close>

definition attempt_failed :: "('ep, 's, 'e) failover \<Rightarrow> nat \<Rightarrow> 'e \<Rightarrow> bool" where
  "attempt_failed c i e \<longleftrightarrow> fo_aborted c i = None \<and>
     (\<exists>ep. fo_resolveActive c i = Inr ep \<and> fo_connectTo c i ep = Inl e \<and> fo_matcher c e)"

lemma connect_loop_trace:
  assumes "connect_loop c attempt left lastError = (r, tr)"
  shows "\<exists>k \<le> left. tr = [attempt..<attempt + k] \<and>
    (\<forall>i. attempt \<le> i \<and> Suc i < attempt + k \<longrightarrow> (\<exists>e. attempt_failed c i e)) \<and>
    (case r of
       Inr s \<Rightarrow> 0 < k \<and> (\<exists>ep. fo_resolveActive c (attempt + k - 1) = Inr ep \<and> fo_connectTo c (attempt + k - 1) ep = Inr s)
     | Inl le \<Rightarrow> k = left \<and> le = lastError \<and> left = 0 \<or> (\<exists>e. le = Some e))"
  using assms
proof (induction left arbitrary: attempt lastError r tr)
  case 0
  then show ?case by auto
next
  case (Suc left)
  consider (abort) e where "fo_aborted c attempt = Some e"
    | (nores) e where "fo_aborted c attempt = None" "fo_resolveActive c attempt = Inl e"
    | (ok) ep s where "fo_aborted c attempt = None" "fo_resolveActive c attempt = Inr ep" "fo_connectTo c attempt ep = Inr s"
    | (other) ep e where "fo_aborted c attempt = None" "fo_resolveActive c attempt = Inr ep" "fo_connectTo c attempt ep = Inl e" "\<not> fo_matcher c e"
    | (retry) ep e where "fo_aborted c attempt = None" "fo_resolveActive c attempt = Inr ep" "fo_connectTo c attempt ep = Inl e" "fo_matcher c e"
    by (cases "fo_aborted c attempt"; cases "fo_resolveActive c attempt"; metis sum.exhaust)
  then show ?case
  proof cases
    case abort
    with Suc.prems show ?thesis by (intro exI [of _ 0]) auto
  next
    case nores
    with Suc.prems show ?thesis by (intro exI [of _ 1]) auto
  next
    case ok
    with Suc.prems show ?thesis by (intro exI [of _ 1]) auto
  next
    case other
    with Suc.prems show ?thesis by (intro exI [of _ 1]) auto
  next
    case retry
    obtain r' tr' where l: "connect_loop c (attempt + 1) left (Some e) = (r', tr')" by fastforce
    with Suc.prems retry have rt: "r = r'" "tr = attempt # tr'" by auto
    have f: "attempt_failed c attempt e" using retry by (auto simp: attempt_failed_def)
    from Suc.IH [OF l] obtain k where k: "k \<le> left" "tr' = [attempt + 1..<attempt + 1 + k]"
      "\<forall>i. attempt + 1 \<le> i \<and> Suc i < attempt + 1 + k \<longrightarrow> (\<exists>e. attempt_failed c i e)"
      "case r' of Inr s \<Rightarrow> 0 < k \<and> (\<exists>ep. fo_resolveActive c (attempt + 1 + k - 1) = Inr ep \<and> fo_connectTo c (attempt + 1 + k - 1) ep = Inr s)
       | Inl le \<Rightarrow> k = left \<and> le = Some e \<and> left = 0 \<or> (\<exists>e. le = Some e)" by blast
    have "\<forall>i. attempt \<le> i \<and> Suc i < attempt + Suc k \<longrightarrow> (\<exists>e. attempt_failed c i e)"
      using k(3) f by (metis Suc_eq_plus1 add_Suc_right add_Suc_shift le_antisym not_less_eq_eq)
    moreover have "tr = [attempt..<attempt + Suc k]" using rt(2) k(2) by (simp add: upt_conv_Cons)
    ultimately show ?thesis
      using k(1,4) rt(1) by (intro exI [of _ "Suc k"]) (auto split: sum.splits)
  qed
qed

section \<open>Properties\<close>

text \<open>The server admits only well-formed openings: if a connection is handed to the
  application, the bytes consumed from it are the preamble, then a header with type HELLO, tier JSON,
  neither encrypted nor extended and within the hello limit, then a payload of the announced length,
  and the hello is what the codec decodes from them; nothing else is consumed.\<close>

theorem admission_sound:
  assumes "handleConnection ops isHello mx s = Return (f, s')"
  shows "\<exists>h raw payload. sr_buffer s = PREAMBLE_BYTES @ raw @ payload @ sr_buffer s' \<and>
    hdr_parse raw = Inr h \<and> hdr_frameType h = 0x06 \<and> hdr_encodingTier h = TIER_JSON \<and>
    \<not> hdr_isEncrypted h \<and> \<not> hdr_isExtended h \<and> length payload = hdr_payloadLength h \<and>
    length payload \<le> mx \<and> nc_decode ops (hdr_toBytes h @ payload) = Inr f \<and> isHello f"
proof -
  from assms obtain s1 where s1: "readPreamble s = Return s1" "readHello ops isHello mx s1 = Return (f, s')"
    by (auto simp: handleConnection_def abind_Return)
  then obtain h raw s2 payload where r: "readFrameHeader s1 = Return (h, raw, s2)"
    "hd_action (evaluateHelloHeader h 0 0 mx) = A_continue"
    "readExactly (hdr_payloadLength h) s2 = Return (payload, s')"
    "nc_decode ops (hdr_toBytes h @ payload) = Inr f" "isHello f"
    by (auto simp: readHello_def abind_Return Let_def split: if_splits)
  note b = readPreamble_consumes [OF s1(1)] readFrameHeader_consumes [OF r(1)] readExactly_consumes [OF r(3)]
  show ?thesis
    using b r(2,4,5) by (intro exI [of _ h] exI [of _ raw] exI [of _ payload]) (auto simp: hello_header_ok)
qed

text \<open>The server admits every client: the bytes the native client writes on connecting, whatever
  follows them, are admitted and give the decoded hello, when the hello fits in an unextended frame
  within the server's hello limit.\<close>

theorem admission_complete:
  assumes "fo_encode ops TIER_JSON f = Some pb" "length pb \<le> maxPayload" "maxPayload \<le> DEFAULT_MAX_PAYLOAD"
    and "length pb \<le> mx" "fo_frameType ops f = 0x06" "fo_registered ops 0x06"
    and "fo_decode ops TIER_JSON 0x06 pb = Some f'" "isHello f'"
  shows "\<exists>bytes. client_opening ops maxPayload f = Inr bytes \<and>
    handleConnection ops isHello mx (s\<lparr>sr_buffer := bytes @ rest\<rparr>) = Return (f', s\<lparr>sr_buffer := rest\<rparr>)"
proof -
  have sup: "nc_supported TIER_JSON" by (simp add: nc_supported_def)
  have "maxPayload \<le> EXTENDED_MAX_PAYLOAD" using assms(3) by (simp add: header_consts)
  from nc_encode_eq [OF assms(1) sup assms(2), of "Some TIER_JSON"] this obtain h where
    h: "nc_encode ops maxPayload f (Some TIER_JSON) = Inr (hdr_toBytes h @ pb)" "hdr_wf h"
      "hdr_frameType h = 0x06" "hdr_payloadLength h = length pb" "hdr_encodingTier h = TIER_JSON"
      "\<not> hdr_isEncrypted h" "\<not> hdr_isExtended h"
    using assms(2,3,5) by auto
  have d: "nc_decode ops (hdr_toBytes h @ pb) = Inr f'"
    using nc_decode_frame [of h pb ops "[]"] h(2-5) sup assms(6,7) by (simp add: or_throw_def)
  have "readHello ops isHello mx (s\<lparr>sr_buffer := hdr_toBytes h @ pb @ rest\<rparr>) = Return (f', s\<lparr>sr_buffer := rest\<rparr>)"
    using readFrameHeader_toBytes [OF h(2), where s = s and b = "pb @ rest"] h hello_header_ok [of h mx] assms(4,8) d
    by (simp add: readHello_def readExactly_def lift_nps_def)
  then show ?thesis
    using h(1) readPreamble_PREAMBLE [where s = s and b = "hdr_toBytes h @ pb @ rest"]
    by (simp add: client_opening_def handleConnection_def)
qed

definition hello_ops :: "bytes frame_ops" where
  "hello_ops = \<lparr>fo_frameType = (\<lambda>_. 0x06), fo_preferredTier = (\<lambda>_. 0), fo_isLast = (\<lambda>_. None),
     fo_encode = (\<lambda>t f. Some f), fo_registered = (\<lambda>ft. ft = 0x06), fo_decode = (\<lambda>t ft pb. Some pb)\<rparr>"

theorem admission_complete_witness:
  "\<exists>bytes. client_opening hello_ops 100 [1, 2] = Inr bytes \<and>
     handleConnection hello_ops (\<lambda>f. f = [1, 2]) 50 \<lparr>sr_buffer = bytes @ [7], sr_ended = False, sr_error = None\<rparr>
       = Return ([1, 2], \<lparr>sr_buffer = [7], sr_ended = False, sr_error = None\<rparr>)"
  using admission_complete [where ops = hello_ops and f = "[1, 2]" and pb = "[1, 2]" and maxPayload = 100
      and mx = 50 and f' = "[1, 2]" and isHello = "\<lambda>f. f = [1, 2]" and rest = "[7]"
      and s = "\<lparr>sr_buffer = [], sr_ended = False, sr_error = None\<rparr>"]
  by (simp add: hello_ops_def header_consts)

theorem admission_sound_witness:
  "let s = \<lparr>sr_buffer = PREAMBLE_BYTES @ [6, 4, 0, 1, 9], sr_ended = False, sr_error = None\<rparr>
   in \<exists>f s'. handleConnection hello_ops (\<lambda>f. True) 50 s = Return (f, s') \<and>
        (\<exists>raw payload. sr_buffer s = PREAMBLE_BYTES @ raw @ payload @ sr_buffer s' \<and> length payload \<le> 50)"
proof -
  let ?h = "\<lparr>hdr_frameType = 6, hdr_flags = 4, hdr_payloadLength = 1\<rparr>"
  let ?s0 = "\<lparr>sr_buffer = [], sr_ended = False, sr_error = None\<rparr>"
  have wf: "hdr_wf ?h" and tb: "hdr_toBytes ?h = [6, 4, 0, 1]" and ok: "hd_action (evaluateHelloHeader ?h 0 0 50) = A_continue"
    by (simp_all add: hdr_wf_def hdr_isExtended_def hdr_toBytes_def hello_header_ok hdr_encodingTier_def
        hdr_isEncrypted_def flag_consts tier_consts header_consts uint16_bytes_def)
  have "nc_decode hello_ops [6, 4, 0, 1, 9] = Inr [9]"
    using nc_decode_frame [OF wf, of "[9]" hello_ops "[]"] tb
    by (simp add: hello_ops_def nc_supported_def hdr_encodingTier_def tier_consts or_throw_def)
  then have r: "handleConnection hello_ops (\<lambda>f. True) 50 \<lparr>sr_buffer = PREAMBLE_BYTES @ [6, 4, 0, 1, 9], sr_ended = False, sr_error = None\<rparr>
      = Return ([9], ?s0)"
    using readPreamble_PREAMBLE [where s = ?s0 and b = "[6, 4, 0, 1, 9]"] readFrameHeader_toBytes [OF wf, where s = ?s0 and b = "[9]"] tb ok
    by (simp add: handleConnection_def readHello_def readExactly_def lift_nps_def)
  from admission_sound [OF r] r show ?thesis by auto
qed

text \<open>A session never writes a frame its negotiated policy forbids, and what it writes is
  accepted by a peer with the same policy and decodes to what the tier codec reads back.\<close>

theorem session_send_receive:
  assumes "session_send ops maxPayload policy f tier = Inr wire" "maxPayload \<le> EXTENDED_MAX_PAYLOAD"
    and "fo_registered ops (fo_frameType ops f)"
    and "\<forall>t pb. fo_encode ops t f = Some pb \<longrightarrow> fo_decode ops t (fo_frameType ops f) pb = Some f'"
  shows "\<exists>h. hdr_parse wire = Inr h \<and> length wire = hdr_headerSize h + hdr_payloadLength h \<and>
    ep_allows policy (hdr_encodingTier h) (fo_frameType ops f) \<and>
    session_receive ops policy (h, wire) = Inr f'"
proof -
  from assms(1,2) obtain h pb where w: "wire = hdr_toBytes h @ pb" and h: "hdr_wf h" "length pb = hdr_payloadLength h"
    "hdr_frameType h = fo_frameType ops f" "nc_supported (hdr_encodingTier h)"
    "fo_encode ops (hdr_encodingTier h) f = Some pb" "ensureAllows policy h = Inr ()" "hdr_parse wire = Inr h"
    by (rule session_send_Inr)
  have "nc_decode ops wire = Inr f'"
    using nc_decode_frame [of h pb ops "[]"] h assms(3,4) w by simp
  moreover have "ep_allows policy (hdr_encodingTier h) (fo_frameType ops f)"
    using h(3,6) by (simp add: ensureAllows_def split: if_splits)
  ultimately show ?thesis using h w by (simp add: session_receive_def)
qed

theorem session_send_receive_witness:
  "let p = \<lparr>ep_defaultTier = 1, ep_binaryVectorEnabled = False\<rparr>
   in \<exists>wire. session_send hello_ops 100 p [5] None = Inr wire \<and>
        (\<exists>h. hdr_parse wire = Inr h \<and> session_receive hello_ops p (h, wire) = Inr [5])"
proof -
  let ?p = "\<lparr>ep_defaultTier = 1, ep_binaryVectorEnabled = False\<rparr>"
  have sup: "nc_supported 1" by (simp add: nc_supported_def tier_consts)
  from nc_encode_eq [of hello_ops 1 "[5]" "[5]" 100 "Some 1"] obtain h where
    h: "nc_encode hello_ops 100 [5] (Some 1) = Inr (hdr_toBytes h @ [5])" "hdr_wf h" "hdr_encodingTier h = 1"
    using sup by (auto simp: hello_ops_def header_consts)
  have "session_send hello_ops 100 ?p [5] None = Inr (hdr_toBytes h @ [5])"
    using h hdr_parse_toBytes [OF h(2), of "[5]"] by (simp add: session_send_def ensureAllows_def ep_allows_def)
  from session_send_receive [OF this, of "[5]"] this show ?thesis
    by (auto simp: hello_ops_def header_consts)
qed

text \<open>The failover connector re-resolves before every attempt, makes at most \<open>maxAttempts\<close>
  of them, goes on only after failover-shaped connection failures, and returns the session of the
  last attempt it made; with at least one attempt it never throws an undefined error.\<close>

theorem failover_attempts:
  assumes "failover_connect c = (r, tr)" "1 \<le> fo_maxAttempts c"
  shows "\<exists>k \<le> fo_maxAttempts c. tr = [1..<Suc k] \<and>
    (\<forall>i. 1 \<le> i \<and> i < k \<longrightarrow> (\<exists>e. attempt_failed c i e)) \<and>
    (case r of Inr s \<Rightarrow> 1 \<le> k \<and> (\<exists>ep. fo_resolveActive c k = Inr ep \<and> fo_connectTo c k ep = Inr s)
     | Inl le \<Rightarrow> le \<noteq> None)"
proof -
  from connect_loop_trace [OF assms(1) [unfolded failover_connect_def]] obtain k where
    k: "k \<le> fo_maxAttempts c" "tr = [1..<1 + k]"
      "\<forall>i. 1 \<le> i \<and> Suc i < 1 + k \<longrightarrow> (\<exists>e. attempt_failed c i e)"
      "case r of Inr s \<Rightarrow> 0 < k \<and> (\<exists>ep. fo_resolveActive c (1 + k - 1) = Inr ep \<and> fo_connectTo c (1 + k - 1) ep = Inr s)
       | Inl le \<Rightarrow> k = fo_maxAttempts c \<and> le = None \<and> fo_maxAttempts c = 0 \<or> (\<exists>e. le = Some e)" by blast
  then show ?thesis using assms(2) by (intro exI [of _ k]) (auto split: sum.splits)
qed

theorem failover_attempts_witness:
  "let c = \<lparr>fo_maxAttempts = 2, fo_aborted = (\<lambda>_. None), fo_resolveActive = (\<lambda>i. Inr i),
            fo_connectTo = (\<lambda>i ep. if i < 2 then Inl ''ECONNRESET'' else Inr ep), fo_matcher = (\<lambda>e. True)\<rparr>
   in failover_connect c = (Inr 2, [1, 2]) \<and> (\<exists>k \<le> 2. [1, 2] = [1..<Suc k])"
proof -
  let ?c = "\<lparr>fo_maxAttempts = 2, fo_aborted = (\<lambda>_. None), fo_resolveActive = (\<lambda>i. Inr i),
     fo_connectTo = (\<lambda>i ep. if i < 2 then Inl ''ECONNRESET'' else Inr ep), fo_matcher = (\<lambda>e. True)\<rparr>"
  have e: "failover_connect ?c = (Inr 2, [1, 2])"
    by (simp add: failover_connect_def numeral_2_eq_2)
  from failover_attempts [OF e] e show ?thesis by auto
qed

end
