(* ===== verification/JsonVal.thy ===== *)
theory JsonVal
  imports Complex_Main Prelude
begin

text \<open>
  JSON values, for the components that take decoded JSON objects (\<open>Record<string, unknown>\<close>).
  Numbers are rationals: every finite double is one, and the sources do not rely on rounding
  here. Objects keep the insertion order of their keys. A missing member is \<open>None\<close>
  (\<open>undefined\<close>).
\<close>

datatype jsval = JNull | JBool bool | JNum rat | JStr string | JArr "jsval list" | JObj "(string \<times> jsval) list"

type_synonym jsobj = "(string \<times> jsval) list"

definition jo_get :: "jsobj \<Rightarrow> string \<Rightarrow> jsval option" where
  "jo_get o' k = map_of o' k"

definition jo_hasOwn :: "jsobj \<Rightarrow> string \<Rightarrow> bool" where
  "jo_hasOwn o' k = (jo_get o' k \<noteq> None)"

text \<open>\<open>===\<close> on values that do not share structure: arrays and objects are never identical.\<close>

definition js_strict_eq :: "jsval option \<Rightarrow> jsval option \<Rightarrow> bool" where
  "js_strict_eq x y = (case (x, y) of
     (Some (JArr a), _) \<Rightarrow> False | (Some (JObj a), _) \<Rightarrow> False | _ \<Rightarrow> x = y)"

text \<open>\<open>typeof frame[field] === "string"\<close> and its relatives.\<close>

definition stringValue :: "jsobj \<Rightarrow> string \<Rightarrow> string option" where
  "stringValue frame field = (case jo_get frame field of Some (JStr s) \<Rightarrow> Some s | _ \<Rightarrow> None)"

definition numberValue :: "jsobj \<Rightarrow> string \<Rightarrow> rat option" where
  "numberValue frame field = (case jo_get frame field of Some (JNum n) \<Rightarrow> Some n | _ \<Rightarrow> None)"

definition MAX_SAFE_INTEGER :: int where "MAX_SAFE_INTEGER = 9007199254740991"

definition isSafeInteger :: "rat \<Rightarrow> bool" where
  "isSafeInteger n \<longleftrightarrow> of_int (floor n) = n \<and> \<bar>n\<bar> \<le> of_int MAX_SAFE_INTEGER"

definition unsignedInteger :: "jsval option \<Rightarrow> int \<Rightarrow> int option" where
  "unsignedInteger value maximum = (case value of
     Some (JNum n) \<Rightarrow> if isSafeInteger n \<and> 0 \<le> n \<and> n \<le> of_int maximum then Some (floor n) else None
   | _ \<Rightarrow> None)"

definition strings :: "jsobj \<Rightarrow> string \<Rightarrow> string list" where
  "strings frame field = (case jo_get frame field of
     Some (JArr vs) \<Rightarrow> concat (map (\<lambda>v. case v of JStr s \<Rightarrow> [s] | _ \<Rightarrow> []) vs) | _ \<Rightarrow> [])"

lemma js_strict_eq_refl_atom: "js_strict_eq (Some (JStr s)) (Some (JStr s))" "js_strict_eq None None"
  by (simp_all add: js_strict_eq_def)

lemma js_strict_eq_imp: "js_strict_eq x y \<Longrightarrow> x = y"
  by (auto simp: js_strict_eq_def split: option.splits jsval.splits)

lemma unsignedInteger_bounds: "unsignedInteger v mx = Some n \<Longrightarrow> 0 \<le> n \<and> n \<le> mx"
  by (auto simp: unsignedInteger_def floor_le_iff le_floor_iff split: option.splits jsval.splits if_splits)

end
