(* ===== verification/NdpProfile.thy ===== *)
theory NdpProfile
  imports JsonVal Contracts
begin

text \<open>
  \<open>ndp/registry-profile.ts\<close>: the transport-independent registry state machine
  \<open>NdpRegistryProfile\<close>. Announce frames are decoded JSON objects. \<open>Date.parse\<close>,
  \<open>JSON.stringify\<close> and SHA-256 are the environment; the outcome of the signature
  check is an argument of \<open>applyAnnounce\<close>, as in the source.

  Proved: the accepted sequence number of a node never decreases; at one sequence number the
  signed content of a node is fixed and a removed node stays removed; cluster resolution picks
  the unique live anchor of the highest epoch or reports a split.
\<close>

section \<open>Canonical form\<close>

record ndp_env =
  ne_dateParse :: "string \<Rightarrow> int option"
  ne_stringify :: "jsval \<Rightarrow> string"
  ne_sha256 :: "string \<Rightarrow> string"

definition EXCLUDED :: "string list" where
  "EXCLUDED = [''frame'', ''signature'', ''health'', ''last_seen'']"

fun withoutNulls :: "jsval \<Rightarrow> jsval" where
  "withoutNulls (JArr vs) = JArr (map withoutNulls vs)"
| "withoutNulls (JObj kvs) = JObj (concat (map (\<lambda>(k, v). case v of JNull \<Rightarrow> [] | _ \<Rightarrow> [(k, withoutNulls v)]) kvs))"
| "withoutNulls JNull = JNull"
| "withoutNulls (JBool b) = JBool b"
| "withoutNulls (JNum n) = JNum n"
| "withoutNulls (JStr s) = JStr s"

fun sortObject :: "jsval \<Rightarrow> jsval" where
  "sortObject (JArr vs) = JArr (map sortObject vs)"
| "sortObject (JObj kvs) = JObj (sort_key fst (map (\<lambda>(k, v). (k, sortObject v)) kvs))"
| "sortObject JNull = JNull"
| "sortObject (JBool b) = JBool b"
| "sortObject (JNum n) = JNum n"
| "sortObject (JStr s) = JStr s"

definition announce_body :: "jsobj \<Rightarrow> jsobj" where
  "announce_body frame =
     (let root = map (\<lambda>(k, v). (k, withoutNulls v)) (filter (\<lambda>(k, v). k \<notin> set EXCLUDED \<and> v \<noteq> JNull) frame)
      in if jo_hasOwn root ''heartbeat_interval_ms'' then root
         else root @ [(''heartbeat_interval_ms'', JNum 60000)])"

definition canonicalAnnounceJson :: "ndp_env \<Rightarrow> jsobj \<Rightarrow> string" where
  "canonicalAnnounceJson env frame = ne_stringify env (sortObject (JObj (announce_body frame)))"

definition announce_digest :: "ndp_env \<Rightarrow> jsobj \<Rightarrow> string" where
  "announce_digest env frame = ne_sha256 env (canonicalAnnounceJson env frame)"

section \<open>Field accessors\<close>

definition timeValue :: "ndp_env \<Rightarrow> jsobj \<Rightarrow> string \<Rightarrow> int option" where
  "timeValue env frame field = (case stringValue frame field of
     None \<Rightarrow> None | Some s \<Rightarrow> if s = [] then None else ne_dateParse env s)"

definition freshnessDeadline :: "ndp_env \<Rightarrow> jsobj \<Rightarrow> rat option" where
  "freshnessDeadline env frame =
     (let source = (case timeValue env frame ''last_seen'' of Some t \<Rightarrow> Some t | None \<Rightarrow> timeValue env frame ''timestamp'')
      in case source of None \<Rightarrow> None
         | Some t \<Rightarrow> Some (of_int t + (case numberValue frame ''ttl'' of None \<Rightarrow> 0 | Some n \<Rightarrow> n) * 1000))"

definition sameLiveness :: "jsobj \<Rightarrow> jsobj \<Rightarrow> bool" where
  "sameLiveness left right \<longleftrightarrow>
     js_strict_eq (jo_get left ''health'') (jo_get right ''health'') \<and>
     js_strict_eq (jo_get left ''last_seen'') (jo_get right ''last_seen'')"

definition roles :: "jsobj \<Rightarrow> string list" where
  "roles frame = strings frame ''node_roles''"

definition isBridge :: "jsobj \<Rightarrow> bool" where
  "isBridge frame \<longleftrightarrow> ''bridge'' \<in> set (roles frame) \<or> stringValue frame ''node_type'' = Some ''bridge''"

text \<open>\<open>None\<close>: malformed; otherwise whether the field is present, and its values.\<close>

definition protocolList :: "jsobj \<Rightarrow> string \<Rightarrow> (bool \<times> string list) option" where
  "protocolList frame field = (case jo_get frame field of
     None \<Rightarrow> Some (False, [])
   | Some (JArr vs) \<Rightarrow>
       if list_all (\<lambda>v. case v of JStr s \<Rightarrow> js_trim s \<noteq> [] | _ \<Rightarrow> False) vs
       then Some (True, map (\<lambda>v. case v of JStr s \<Rightarrow> s | _ \<Rightarrow> []) vs) else None
   | Some _ \<Rightarrow> None)"

definition bridgeShapeIsValid :: "jsobj \<Rightarrow> bool" where
  "bridgeShapeIsValid frame = (case (protocolList frame ''bridge_protocols'', protocolList frame ''bridge_inbound_protocols'') of
     (Some (op, ov), Some (ip, iv)) \<Rightarrow>
       if isBridge frame then length ov + length iv > 0 else \<not> op \<and> \<not> ip
   | _ \<Rightarrow> False)"

section \<open>The registry\<close>

record ndp_entry =
  en_frame :: jsobj
  en_signedDigest :: string
  en_expiresAt :: rat

record ndp_registry =
  nr_entries :: "(string, ndp_entry) jsmap"
  nr_sequences :: "(string, int) jsmap"
  nr_securityProfile :: string

datatype ndp_decision = Accepted | Duplicate | Refreshed | Removed | Rejected string

definition nr_new :: "string \<Rightarrow> ndp_registry" where
  "nr_new profile = \<lparr>nr_entries = [], nr_sequences = [], nr_securityProfile = profile\<rparr>"

text \<open>The checks that do not read the registry: \<open>Inl\<close> the rejection, \<open>Inr\<close> the node id, the
  sequence number and the TTL.\<close>

definition announce_checks :: "ndp_env \<Rightarrow> string \<Rightarrow> jsobj \<Rightarrow> bool \<Rightarrow> int \<Rightarrow> string + (string \<times> int \<times> int)" where
  "announce_checks env profile frame signatureValid receivedAt =
     (if \<not> signatureValid then Inl ''NDP-ANNOUNCE-SIGNATURE-INVALID''
      else case (stringValue frame ''nid'', timeValue env frame ''timestamp'') of
        (Some nid, Some timestamp) \<Rightarrow>
          if nid = [] then Inl ''NDP-ANNOUNCE-PROFILE-VIOLATION''
          else let sequencePresent = jo_hasOwn frame ''graph_seq'';
                   parsedSequence = unsignedInteger (jo_get frame ''graph_seq'') MAX_SAFE_INTEGER;
                   ttl = unsignedInteger (jo_get frame ''ttl'') 0xffffffff in
            (case ttl of None \<Rightarrow> Inl ''NDP-ANNOUNCE-PROFILE-VIOLATION''
             | Some ttl \<Rightarrow>
               if sequencePresent \<and> parsedSequence = None \<or> \<not> sequencePresent \<and> profile \<noteq> ''local-dev''
               then Inl ''NDP-ANNOUNCE-PROFILE-VIOLATION''
               else if \<not> bridgeShapeIsValid frame then Inl ''NDP-ANNOUNCE-PROFILE-VIOLATION''
               else if profile \<noteq> ''local-dev'' \<and> \<bar>receivedAt - timestamp\<bar> > 300000
               then Inl ''NDP-ANNOUNCE-SIGNATURE-INVALID''
               else Inr (nid, (case parsedSequence of None \<Rightarrow> 0 | Some n \<Rightarrow> n), ttl))
      | _ \<Rightarrow> Inl ''NDP-ANNOUNCE-PROFILE-VIOLATION'')"

definition applyAnnounce :: "ndp_env \<Rightarrow> jsobj \<Rightarrow> bool \<Rightarrow> int \<Rightarrow> ndp_registry \<Rightarrow> ndp_decision \<times> ndp_registry" where
  "applyAnnounce env frame signatureValid receivedAt s =
     (case announce_checks env (nr_securityProfile s) frame signatureValid receivedAt of
        Inl e \<Rightarrow> (Rejected e, s)
      | Inr (nid, sequence, ttl) \<Rightarrow>
          let digest = announce_digest env frame;
              highest = js_get (nr_sequences s) nid;
              deadline = freshnessDeadline env frame;
              stale = (case deadline of None \<Rightarrow> True | Some d \<Rightarrow> d \<le> of_int receivedAt);
              entry = \<lparr>en_frame = frame, en_signedDigest = digest, en_expiresAt = (case deadline of None \<Rightarrow> 0 | Some d \<Rightarrow> d)\<rparr>
          in if (case highest of None \<Rightarrow> False | Some h \<Rightarrow> sequence < h)
             then (Rejected ''NDP-GRAPH-SEQ-ROLLBACK'', s)
             else if highest = Some sequence then
               (case js_get (nr_entries s) nid of
                  None \<Rightarrow> (Duplicate, s)
                | Some current \<Rightarrow>
                    if en_signedDigest current \<noteq> digest then (Rejected ''NDP-ANNOUNCE-CONFLICT'', s)
                    else if sameLiveness (en_frame current) frame then (Duplicate, s)
                    else if stale then (Rejected ''NDP-ANNOUNCE-STALE'', s)
                    else (Refreshed, s\<lparr>nr_entries := js_set (nr_entries s) nid entry\<rparr>))
             else if ttl = 0
             then (Removed, s\<lparr>nr_sequences := js_set (nr_sequences s) nid sequence,
                              nr_entries := js_delete (nr_entries s) nid\<rparr>)
             else if stale then (Rejected ''NDP-ANNOUNCE-STALE'', s)
             else (Accepted, s\<lparr>nr_sequences := js_set (nr_sequences s) nid sequence,
                               nr_entries := js_set (nr_entries s) nid entry\<rparr>))"

definition liveNids :: "int \<Rightarrow> ndp_registry \<Rightarrow> string list" where
  "liveNids now s = sort (map fst (js_filter (\<lambda>nid e. en_expiresAt e > of_int now) (nr_entries s)))"

text \<open>Sorted by \<open>localeCompare\<close>, whose collation key is an argument.\<close>

definition highestSequences :: "(string \<Rightarrow> 'c :: linorder) \<Rightarrow> ndp_registry \<Rightarrow> (string \<times> int) list" where
  "highestSequences coll s = sort_key (\<lambda>p. coll (fst p)) (nr_sequences s)"

definition hasStaleEntry :: "int \<Rightarrow> ndp_registry \<Rightarrow> bool" where
  "hasStaleEntry now s = list_ex (\<lambda>(nid, e). en_expiresAt e \<le> of_int now) (nr_entries s)"

datatype cluster_selection = NoMember | Leader string rat | ClusterSplit

definition cluster_members :: "string \<Rightarrow> int \<Rightarrow> ndp_registry \<Rightarrow> (string \<times> rat) list" where
  "cluster_members clusterAnchor now s =
     map (\<lambda>(nid, e). (nid, case numberValue (en_frame e) ''cluster_epoch'' of None \<Rightarrow> 1 | Some n \<Rightarrow> n))
       (js_filter (\<lambda>nid e. en_expiresAt e > of_int now \<and>
          stringValue (en_frame e) ''cluster_anchor'' = Some clusterAnchor \<and>
          ''anchor'' \<in> set (roles (en_frame e))) (nr_entries s))"

definition ndp_resolveCluster :: "string \<Rightarrow> int \<Rightarrow> ndp_registry \<Rightarrow> cluster_selection" where
  "ndp_resolveCluster clusterAnchor now s =
     (let members = cluster_members clusterAnchor now s in
      if members = [] then NoMember
      else let tp = Max (set (map snd members));
               leaders = filter (\<lambda>(nid, epoch). epoch = tp) members
        in case leaders of [(nid, epoch)] \<Rightarrow> Leader nid tp | _ \<Rightarrow> ClusterSplit)"

definition discoverBridges :: "string \<Rightarrow> string \<Rightarrow> int \<Rightarrow> ndp_registry \<Rightarrow> string list option" where
  "discoverBridges direction protocol now s =
     (if direction \<noteq> ''inbound'' \<and> direction \<noteq> ''outbound'' then None
      else let field = (if direction = ''inbound'' then ''bridge_inbound_protocols'' else ''bridge_protocols'')
        in Some (sort (map fst (js_filter (\<lambda>nid e. en_expiresAt e > of_int now \<and>
             stringValue (en_frame e) ''health'' \<noteq> Some ''draining'' \<and> isBridge (en_frame e) \<and>
             protocol \<in> set (strings (en_frame e) field)) (nr_entries s)))))"

section \<open>The machine\<close>

datatype announce = Announce jsobj bool int

definition ndp_step :: "ndp_env \<Rightarrow> ndp_registry \<Rightarrow> announce \<Rightarrow> ndp_registry" where
  "ndp_step env s a = (case a of Announce frame sig rcv \<Rightarrow> snd (applyAnnounce env frame sig rcv s))"

text \<open>Every entry belongs to a known sequence number, is stored under its frame's id, carries its
  frame's digest and passed the freshness check.\<close>

definition nr_inv :: "ndp_env \<Rightarrow> ndp_registry \<Rightarrow> bool" where
  "nr_inv env s \<longleftrightarrow> js_wf (nr_entries s) \<and> js_wf (nr_sequences s) \<and>
     (\<forall>nid e. js_get (nr_entries s) nid = Some e \<longrightarrow>
        js_get (nr_sequences s) nid = Some (case unsignedInteger (jo_get (en_frame e) ''graph_seq'') MAX_SAFE_INTEGER of None \<Rightarrow> 0 | Some n \<Rightarrow> n) \<and>
        stringValue (en_frame e) ''nid'' = Some nid \<and> en_signedDigest e = announce_digest env (en_frame e) \<and>
        freshnessDeadline env (en_frame e) = Some (en_expiresAt e))"

lemma announce_checks_Inr:
  assumes "announce_checks env profile frame sig rcv = Inr (nid, sequence, ttl)"
  shows "sig" "stringValue frame ''nid'' = Some nid" "nid \<noteq> []"
    "sequence = (case unsignedInteger (jo_get frame ''graph_seq'') MAX_SAFE_INTEGER of None \<Rightarrow> 0 | Some n \<Rightarrow> n)"
    "unsignedInteger (jo_get frame ''ttl'') 0xffffffff = Some ttl"
  using assms
  by (auto simp: announce_checks_def Let_def split: if_splits option.splits)

text \<open>The ways in which an announce changes the registry.\<close>

lemma applyAnnounce_cases:
  obtains (unchanged) d where "applyAnnounce env frame sig rcv s = (d, s)"
  | (refreshed) nid sequence ttl current e where
      "announce_checks env (nr_securityProfile s) frame sig rcv = Inr (nid, sequence, ttl)"
      "js_get (nr_sequences s) nid = Some sequence" "js_get (nr_entries s) nid = Some current"
      "en_signedDigest current = announce_digest env frame"
      "en_frame e = frame" "en_signedDigest e = announce_digest env frame"
      "freshnessDeadline env frame = Some (en_expiresAt e)"
      "applyAnnounce env frame sig rcv s = (Refreshed, s\<lparr>nr_entries := js_set (nr_entries s) nid e\<rparr>)"
  | (removed) nid sequence where
      "announce_checks env (nr_securityProfile s) frame sig rcv = Inr (nid, sequence, 0)"
      "case js_get (nr_sequences s) nid of None \<Rightarrow> True | Some h \<Rightarrow> h < sequence"
      "applyAnnounce env frame sig rcv s = (Removed, s\<lparr>nr_sequences := js_set (nr_sequences s) nid sequence,
         nr_entries := js_delete (nr_entries s) nid\<rparr>)"
  | (accepted) nid sequence ttl e where
      "announce_checks env (nr_securityProfile s) frame sig rcv = Inr (nid, sequence, ttl)"
      "case js_get (nr_sequences s) nid of None \<Rightarrow> True | Some h \<Rightarrow> h < sequence"
      "en_frame e = frame" "en_signedDigest e = announce_digest env frame"
      "freshnessDeadline env frame = Some (en_expiresAt e)"
      "applyAnnounce env frame sig rcv s = (Accepted, s\<lparr>nr_sequences := js_set (nr_sequences s) nid sequence,
         nr_entries := js_set (nr_entries s) nid e\<rparr>)"
proof (cases "announce_checks env (nr_securityProfile s) frame sig rcv")
  case (Inl e)
  then show ?thesis using unchanged by (simp add: applyAnnounce_def)
next
  case (Inr p)
  obtain nid sequence ttl where p: "p = (nid, sequence, ttl)" by (cases p)
  note ck = Inr [unfolded p]
  let ?r = "case js_get (nr_sequences s) nid of None \<Rightarrow> False | Some h \<Rightarrow> sequence < h"
  let ?st = "case freshnessDeadline env frame of None \<Rightarrow> True | Some d \<Rightarrow> d \<le> of_int rcv"
  let ?e = "\<lparr>en_frame = frame, en_signedDigest = announce_digest env frame,
    en_expiresAt = (case freshnessDeadline env frame of None \<Rightarrow> 0 | Some d \<Rightarrow> d)\<rparr>"
  have fresh: "\<not> ?st \<Longrightarrow> freshnessDeadline env frame = Some (en_expiresAt ?e)" by (auto split: option.splits)
  note unfold = applyAnnounce_def ck
  show ?thesis
  proof (cases "?r \<or> js_get (nr_sequences s) nid = Some sequence")
    case False
    then have lt: "case js_get (nr_sequences s) nid of None \<Rightarrow> True | Some h \<Rightarrow> h < sequence"
      by (auto split: option.splits)
    consider "ttl = 0" | "ttl \<noteq> 0" ?st | "ttl \<noteq> 0" "\<not> ?st" by blast
    then show ?thesis
    proof cases
      case 1
      with False show ?thesis using removed [OF _ lt] ck by (simp add: applyAnnounce_def)
    next
      case 2
      with False show ?thesis using unchanged by (simp add: unfold)
    next
      case 3
      with False show ?thesis using accepted [OF ck lt, of ?e] fresh by (simp add: unfold)
    qed
  next
    case True
    show ?thesis
    proof (cases "?r \<or> js_get (nr_entries s) nid = None")
      case True
      with \<open>?r \<or> js_get (nr_sequences s) nid = Some sequence\<close> show ?thesis
        using unchanged by (auto simp: unfold split: option.splits)
    next
      case False
      with True obtain current where c: "js_get (nr_sequences s) nid = Some sequence"
        "js_get (nr_entries s) nid = Some current" by auto
      consider "en_signedDigest current \<noteq> announce_digest env frame \<or> sameLiveness (en_frame current) frame \<or> ?st"
        | "en_signedDigest current = announce_digest env frame" "\<not> sameLiveness (en_frame current) frame" "\<not> ?st" by blast
      then show ?thesis
      proof cases
        case 1
        then have "\<exists>d. applyAnnounce env frame sig rcv s = (d, s)" using c by (auto simp: unfold Let_def)
        then show ?thesis using unchanged by blast
      next
        case 2
        then show ?thesis using refreshed [OF ck c, of ?e] c fresh by (simp add: unfold)
      qed
    qed
  qed
qed

lemma ndp_step_inv: "nr_inv env s \<Longrightarrow> nr_inv env (ndp_step env s a)"
proof (cases a)
  case (Announce frame sig rcv)
  assume i: "nr_inv env s"
  have st: "ndp_step env s a = snd (applyAnnounce env frame sig rcv s)" by (simp add: ndp_step_def Announce)
  show ?thesis unfolding st
  proof (cases rule: applyAnnounce_cases [of env frame sig rcv s])
    case (unchanged d)
    with i show "nr_inv env (snd (applyAnnounce env frame sig rcv s))" by simp
  next
    case (refreshed nid sequence ttl current e)
    with i announce_checks_Inr [OF refreshed(1)] show "nr_inv env (snd (applyAnnounce env frame sig rcv s))"
      by (simp add: nr_inv_def js_get_set)
  next
    case (removed nid sequence)
    with i show "nr_inv env (snd (applyAnnounce env frame sig rcv s))"
      by (auto simp: nr_inv_def js_get_set js_get_delete split: if_splits)
  next
    case (accepted nid sequence ttl e)
    with i announce_checks_Inr [OF accepted(1)] show "nr_inv env (snd (applyAnnounce env frame sig rcv s))"
      by (auto simp: nr_inv_def js_get_set split: if_splits)
  qed
qed

lemma ndp_step_rank:
  assumes "js_get (nr_sequences s) k = Some n"
  shows "\<exists>m. js_get (nr_sequences (ndp_step env s a)) k = Some m \<and> n \<le> m"
proof (cases a)
  case (Announce frame sig rcv)
  have st: "ndp_step env s a = snd (applyAnnounce env frame sig rcv s)" by (simp add: ndp_step_def Announce)
  show ?thesis unfolding st
    by (cases rule: applyAnnounce_cases [of env frame sig rcv s])
      (use assms in \<open>auto simp: js_get_set split: option.splits\<close>)
qed

interpretation ndp_mono: monotone_machine "ndp_step env" "nr_inv env" "\<lambda>s nid. js_get (nr_sequences s) nid" for env
  by unfold_locales (auto intro: ndp_step_inv ndp_step_rank)

text \<open>What a node has announced, as far as its signature covers it.\<close>

definition signed_content :: "ndp_registry \<Rightarrow> string \<Rightarrow> string option" where
  "signed_content s nid = map_option en_signedDigest (js_get (nr_entries s) nid)"

lemma ndp_step_same_seq:
  assumes "js_get (nr_sequences s) k = Some n" "js_get (nr_sequences (ndp_step env s a)) k = Some n"
  shows "signed_content (ndp_step env s a) k = signed_content s k"
proof (cases a)
  case (Announce frame sig rcv)
  have st: "ndp_step env s a = snd (applyAnnounce env frame sig rcv s)" by (simp add: ndp_step_def Announce)
  show ?thesis using assms(2) unfolding st
    by (cases rule: applyAnnounce_cases [of env frame sig rcv s])
      (use assms(1) in \<open>auto simp: signed_content_def js_get_set js_get_delete split: option.splits if_splits\<close>)
qed

section \<open>Cluster resolution\<close>

lemma cluster_members_distinct:
  assumes "js_wf (nr_entries s)"
  shows "distinct (map fst (cluster_members c now s))"
proof -
  have "map fst (cluster_members c now s) = map fst (js_filter (\<lambda>nid e. en_expiresAt e > of_int now \<and>
      stringValue (en_frame e) ''cluster_anchor'' = Some c \<and> ''anchor'' \<in> set (roles (en_frame e))) (nr_entries s))"
    by (simp add: cluster_members_def case_prod_beta' comp_def)
  then show ?thesis using js_wf_filter [OF assms] by (simp add: js_wf_def)
qed

lemma filter_single_iff:
  "distinct xs \<Longrightarrow> filter P xs = [x] \<longleftrightarrow> x \<in> set xs \<and> P x \<and> (\<forall>y \<in> set xs. P y \<longrightarrow> y = x)"
proof (induction xs)
  case (Cons z zs)
  then show ?case by (cases "P z") (auto simp: filter_empty_conv)
qed simp

lemma ndp_resolveCluster_Leader:
  assumes wf: "js_wf (nr_entries s)"
  shows "ndp_resolveCluster c now s = Leader nid tp \<longleftrightarrow>
    (nid, tp) \<in> set (cluster_members c now s) \<and>
    (\<forall>(nid', ep) \<in> set (cluster_members c now s). nid' \<noteq> nid \<longrightarrow> ep < tp)"
proof -
  let ?m = "cluster_members c now s"
  let ?mx = "Max (set (map snd ?m))"
  have d: "distinct ?m" using cluster_members_distinct [OF wf] by (simp add: distinct_map)
  have uniq: "(nid, e) \<in> set ?m \<Longrightarrow> (nid, e') \<in> set ?m \<Longrightarrow> e = e'" for nid e e'
    using cluster_members_distinct [OF wf] by (meson eq_key_imp_eq_value)
  have "ndp_resolveCluster c now s = Leader nid tp \<longleftrightarrow>
      ?m \<noteq> [] \<and> tp = ?mx \<and> (\<exists>ep. filter (\<lambda>(nid, epoch). epoch = ?mx) ?m = [(nid, ep)])"
    by (auto simp: ndp_resolveCluster_def Let_def split: list.splits)
  also have "\<dots> \<longleftrightarrow> (nid, tp) \<in> set ?m \<and> (\<forall>(nid', ep) \<in> set ?m. nid' \<noteq> nid \<longrightarrow> ep < tp)"
  proof (cases "?m = []")
    case False
    have le: "(n', e') \<in> set ?m \<Longrightarrow> e' \<le> ?mx" for n' e' by (force intro: Max_ge)
    have "?mx \<in> set (map snd ?m)" using False by (intro Max_in) auto
    then obtain n0 where n0: "(n0, ?mx) \<in> set ?m" by (auto simp del: Max_in)
    show ?thesis
    proof
      assume "?m \<noteq> [] \<and> tp = ?mx \<and> (\<exists>ep. filter (\<lambda>(nid, epoch). epoch = ?mx) ?m = [(nid, ep)])"
      then have t: "tp = ?mx" "(nid, ?mx) \<in> set ?m" "\<forall>y \<in> set ?m. snd y = ?mx \<longrightarrow> fst y = nid"
        using filter_single_iff [OF d] by (force simp: case_prod_beta')+
      then show "(nid, tp) \<in> set ?m \<and> (\<forall>(nid', ep) \<in> set ?m. nid' \<noteq> nid \<longrightarrow> ep < tp)"
        using le by (fastforce simp: less_le)
    next
      assume r: "(nid, tp) \<in> set ?m \<and> (\<forall>(nid', ep) \<in> set ?m. nid' \<noteq> nid \<longrightarrow> ep < tp)"
      have "n0 = nid"
      proof (rule ccontr)
        assume "n0 \<noteq> nid"
        with r n0 have "?mx < tp" by blast
        with le [of nid tp] r show False by simp
      qed
      with r n0 uniq have t: "tp = ?mx" by blast
      have "\<forall>y \<in> set ?m. (case y of (nid', ep) \<Rightarrow> ep = ?mx) \<longrightarrow> y = (nid, ?mx)"
        using r t by (metis (mono_tags, lifting) case_prodE less_irrefl old.prod.case)
      then have "filter (\<lambda>(nid, epoch). epoch = ?mx) ?m = [(nid, ?mx)]"
        using filter_single_iff [OF d, of "\<lambda>(nid, epoch). epoch = ?mx" "(nid, ?mx)"] r t by simp
      with t False show "?m \<noteq> [] \<and> tp = ?mx \<and> (\<exists>ep. filter (\<lambda>(nid, epoch). epoch = ?mx) ?m = [(nid, ep)])" by blast
    qed
  qed simp
  finally show ?thesis .
qed

lemma ndp_resolveCluster_NoMember: "ndp_resolveCluster c now s = NoMember \<longleftrightarrow> cluster_members c now s = []"
  by (auto simp: ndp_resolveCluster_def Let_def split: list.splits)

section \<open>Properties\<close>

text \<open>The registry is monotone: over any sequence of announces, valid or not, the highest
  sequence number known for a node never decreases; and while it stays the same, the signed content
  held for the node stays the same too: a conflicting frame cannot replace it, and a node that was
  removed at that number is not resurrected.\<close>

theorem ndp_sequences_monotone:
  assumes "nr_inv env s" "js_get (nr_sequences s) nid = Some n"
  shows "\<exists>m. js_get (nr_sequences (run (ndp_step env) s as)) nid = Some m \<and> n \<le> m \<and>
    (m = n \<longrightarrow> signed_content (run (ndp_step env) s as) nid = signed_content s nid)"
proof -
  from ndp_mono.run_rank [OF assms, of as] obtain m where
    m: "js_get (nr_sequences (run (ndp_step env) s as)) nid = Some m" "n \<le> m" by blast
  have "m = n \<Longrightarrow> signed_content (run (ndp_step env) s as) nid = signed_content s nid"
    using ndp_mono.run_same_rank [of env nid n "\<lambda>s. signed_content s nid" s as] ndp_step_same_seq assms m(1)
    by blast
  with m show ?thesis by blast
qed

text \<open>Every entry the registry holds, after any announces from the empty registry, was
  announced under its own node id at exactly the highest accepted sequence number, carries the digest
  of its canonical form and the deadline of its freshness.\<close>

theorem ndp_entries_consistent:
  assumes "js_get (nr_entries (run (ndp_step env) (nr_new profile) as)) nid = Some e"
  shows "stringValue (en_frame e) ''nid'' = Some nid \<and> en_signedDigest e = announce_digest env (en_frame e) \<and>
    freshnessDeadline env (en_frame e) = Some (en_expiresAt e) \<and>
    js_get (nr_sequences (run (ndp_step env) (nr_new profile) as)) nid =
      Some (case unsignedInteger (jo_get (en_frame e) ''graph_seq'') MAX_SAFE_INTEGER of None \<Rightarrow> 0 | Some n \<Rightarrow> n)"
proof -
  have "nr_inv env (run (ndp_step env) (nr_new profile) as)"
    by (rule ndp_mono.run_inv) (simp add: nr_inv_def nr_new_def)
  with assms show ?thesis unfolding nr_inv_def by blast
qed

definition demo_env :: ndp_env where
  "demo_env = \<lparr>ne_dateParse = (\<lambda>s. if s = ''t0'' then Some 0 else None), ne_stringify = (\<lambda>v. []), ne_sha256 = id\<rparr>"

definition demo_frame :: "string \<Rightarrow> rat \<Rightarrow> rat \<Rightarrow> jsobj" where
  "demo_frame nid sequence epoch = [(''nid'', JStr nid), (''timestamp'', JStr ''t0''), (''graph_seq'', JNum sequence),
     (''ttl'', JNum 60), (''cluster_anchor'', JStr ''c''), (''node_roles'', JArr [JStr ''anchor'']),
     (''cluster_epoch'', JNum epoch)]"

lemma demo_accepted:
  assumes "nid \<noteq> []" "isSafeInteger sequence" "0 \<le> sequence" "js_get (nr_sequences s) nid = None"
  shows "applyAnnounce demo_env (demo_frame nid sequence epoch) True 5 (s\<lparr>nr_securityProfile := ''local-dev''\<rparr>) =
    (Accepted, s\<lparr>nr_securityProfile := ''local-dev'', nr_sequences := js_set (nr_sequences s) nid (floor sequence),
       nr_entries := js_set (nr_entries s) nid \<lparr>en_frame = demo_frame nid sequence epoch, en_signedDigest = [], en_expiresAt = 60000\<rparr>\<rparr>)"
proof -
  have "sequence \<le> of_int MAX_SAFE_INTEGER" using assms(2,3) by (simp add: isSafeInteger_def)
  then have u: "unsignedInteger (Some (JNum sequence)) MAX_SAFE_INTEGER = Some (floor sequence)"
    using assms by (simp add: unsignedInteger_def)
  have t: "unsignedInteger (Some (JNum 60)) 4294967295 = Some 60"
    by (simp add: unsignedInteger_def isSafeInteger_def MAX_SAFE_INTEGER_def)
  show ?thesis
    using assms u t
    by (simp add: applyAnnounce_def announce_checks_def demo_frame_def stringValue_def jo_get_def timeValue_def
        demo_env_def jo_hasOwn_def bridgeShapeIsValid_def protocolList_def isBridge_def roles_def strings_def
        announce_digest_def canonicalAnnounceJson_def freshnessDeadline_def numberValue_def)
qed

lemma demo_isSafe: "isSafeInteger 3"
  by (simp add: isSafeInteger_def MAX_SAFE_INTEGER_def)

theorem ndp_entries_consistent_witness:
  "\<exists>e. js_get (nr_entries (run (ndp_step demo_env) (nr_new ''local-dev'') [Announce (demo_frame ''n'' 3 1) True 5])) ''n'' = Some e \<and>
     stringValue (en_frame e) ''nid'' = Some ''n''"
proof -
  let ?e = "\<lparr>en_frame = demo_frame ''n'' 3 1, en_signedDigest = [], en_expiresAt = 60000\<rparr>"
  have g: "js_get (nr_entries (run (ndp_step demo_env) (nr_new ''local-dev'') [Announce (demo_frame ''n'' 3 1) True 5])) ''n'' = Some ?e"
    using demo_accepted [of "''n''" 3 "nr_new ''local-dev''" 1] demo_isSafe by (simp add: ndp_step_def nr_new_def)
  from ndp_entries_consistent [OF g] g show ?thesis by blast
qed

theorem ndp_sequences_monotone_witness:
  "let s = run (ndp_step demo_env) (nr_new ''local-dev'') [Announce (demo_frame ''n'' 3 1) True 5]
   in \<exists>m. js_get (nr_sequences (run (ndp_step demo_env) s [Announce (demo_frame ''n'' 2 9) True 6])) ''n'' = Some m \<and> 3 \<le> m"
proof -
  let ?s = "run (ndp_step demo_env) (nr_new ''local-dev'') [Announce (demo_frame ''n'' 3 1) True 5]"
  have i: "nr_inv demo_env ?s" by (rule ndp_mono.run_inv) (simp add: nr_inv_def nr_new_def)
  have g: "js_get (nr_sequences ?s) ''n'' = Some 3"
    using demo_accepted [of "''n''" 3 "nr_new ''local-dev''" 1] demo_isSafe by (simp add: ndp_step_def nr_new_def)
  from ndp_sequences_monotone [OF i g, of "[Announce (demo_frame ''n'' 2 9) True 6]"]
  show ?thesis unfolding Let_def by blast
qed

text \<open>\<open>resolveCluster\<close> of the profile returns a leader exactly when one live anchor member of
  the cluster has an epoch above all others, reports no member exactly when there is none, and
  otherwise a split.\<close>

theorem ndp_cluster_leader_unique:
  fixes c :: string and now :: int
  assumes "js_wf (nr_entries s)"
  defines "m \<equiv> cluster_members c now s"
  shows "(ndp_resolveCluster c now s = Leader nid tp \<longleftrightarrow>
      (nid, tp) \<in> set m \<and> (\<forall>(nid', ep) \<in> set m. nid' \<noteq> nid \<longrightarrow> ep < tp)) \<and>
    (ndp_resolveCluster c now s = NoMember \<longleftrightarrow> m = []) \<and>
    (ndp_resolveCluster c now s = ClusterSplit \<longleftrightarrow> m \<noteq> [] \<and>
       (\<nexists>nid tp. (nid, tp) \<in> set m \<and> (\<forall>(nid', ep) \<in> set m. nid' \<noteq> nid \<longrightarrow> ep < tp)))"
  using ndp_resolveCluster_Leader [OF assms(1), of c now] ndp_resolveCluster_NoMember [of c now s] unfolding m_def
  by (cases "ndp_resolveCluster c now s") (metis cluster_selection.distinct cluster_selection.inject)+

theorem ndp_cluster_leader_unique_witness:
  "let e = (\<lambda>k ep. \<lparr>en_frame = demo_frame k 3 ep, en_signedDigest = [], en_expiresAt = 60000\<rparr>);
       s = \<lparr>nr_entries = [(''a'', e ''a'' 2), (''b'', e ''b'' 5)], nr_sequences = [], nr_securityProfile = ''local-dev''\<rparr>
   in ndp_resolveCluster ''c'' 7 s = Leader ''b'' 5"
proof -
  let ?e = "\<lambda>k ep. \<lparr>en_frame = demo_frame k 3 ep, en_signedDigest = [], en_expiresAt = 60000\<rparr>"
  let ?s = "\<lparr>nr_entries = [(''a'', ?e ''a'' 2), (''b'', ?e ''b'' 5)], nr_sequences = [], nr_securityProfile = ''local-dev''\<rparr>"
  have m: "cluster_members ''c'' 7 ?s = [(''a'', 2), (''b'', 5)]"
    by (simp add: cluster_members_def js_filter_def demo_frame_def stringValue_def numberValue_def jo_get_def roles_def strings_def)
  have "js_wf (nr_entries ?s)" by (simp add: js_wf_def)
  from ndp_cluster_leader_unique [OF this, of "''c''" 7 "''b''" 5] show ?thesis by (simp add: m)
qed

end
