(* ===== verification/NdpRegistry.thy ===== *)
theory NdpRegistry
  imports Contracts
begin

text \<open>
  Discovery: \<open>ndp/ndp-registry.ts\<close> (\<open>InMemoryNdpRegistry\<close>), \<open>ndp/cluster.ts\<close> (highest-epoch
  resolution) and \<open>ndp/federation.ts\<close> (the forwarding header).

  The loops over the store delete expired entries while they iterate; a JavaScript \<open>Map\<close> allows
  that for the current key. Proved: purging is not observable, \<open>resolve\<close> returns the first live
  match, cluster resolution elects the unique member of the highest epoch (for epochs of at least
  1), and forwarding stops loops.
\<close>

section \<open>ndp/ndp-registry.ts\<close>

record announce_frame =
  an_nid :: string
  an_addresses :: "(string \<times> nat) list"
  an_ttl :: int
  an_cluster_anchor :: "string option"
  an_cluster_epoch :: "int option"

record nd_entry =
  nde_frame :: announce_frame
  nde_expiresAt :: int

type_synonym nd_store = "(string, nd_entry) jsmap"

definition nd_announce :: "int \<Rightarrow> announce_frame \<Rightarrow> nd_store \<Rightarrow> nd_store" where
  "nd_announce now frame s =
     (let expiresAt = now + an_ttl frame * 1000 in
      if an_ttl frame = 0 then js_delete s (an_nid frame)
      else js_set s (an_nid frame) \<lparr>nde_frame = frame, nde_expiresAt = expiresAt\<rparr>)"

definition getByNid :: "int \<Rightarrow> string \<Rightarrow> nd_store \<Rightarrow> announce_frame option \<times> nd_store" where
  "getByNid now nid s = (case js_get s nid of
     None \<Rightarrow> (None, s)
   | Some entry \<Rightarrow> if now > nde_expiresAt entry then (None, js_delete s nid) else (Some (nde_frame entry), s))"

definition nwpTargetMatchesNid :: "string \<Rightarrow> string \<Rightarrow> bool" where
  "nwpTargetMatchesNid nid target =
     (let nidParts = js_split CHR '':'' nid in
      if length nidParts < 5 \<or> nidParts ! 0 \<noteq> ''urn'' \<or> nidParts ! 1 \<noteq> ''nps'' \<or> nidParts ! 2 \<noteq> ''node'' then False
      else if \<not> js_startsWith target ''nwp://'' then False
      else let nidAuthority = nidParts ! 3; nidPath = nidParts ! 4;
               rest = drop (length ''nwp://'') target in
        if CHR ''/'' \<notin> set rest then False
        else let urlAuthority = takeWhile (\<lambda>c. c \<noteq> CHR ''/'') rest;
                 urlPath = drop (length urlAuthority + 1) rest in
          if urlAuthority \<noteq> nidAuthority then False
          else urlPath = nidPath \<or> js_startsWith urlPath (nidPath @ ''/''))"

text \<open>The loop of \<open>resolve\<close> over the entries still to visit, threading the store.\<close>

fun nd_resolve_loop :: "int \<Rightarrow> string \<Rightarrow> (string \<times> nd_entry) list \<Rightarrow> nd_store \<Rightarrow> (string \<times> nat \<times> int) option \<times> nd_store" where
  "nd_resolve_loop now target [] s = (None, s)"
| "nd_resolve_loop now target ((nid, entry) # es) s =
     (if now > nde_expiresAt entry then nd_resolve_loop now target es (js_delete s nid)
      else if \<not> nwpTargetMatchesNid nid target then nd_resolve_loop now target es s
      else case an_addresses (nde_frame entry) of
        [] \<Rightarrow> nd_resolve_loop now target es s
      | (host, port) # _ \<Rightarrow> (Some (host, port, an_ttl (nde_frame entry)), s))"

definition nd_resolve :: "int \<Rightarrow> string \<Rightarrow> nd_store \<Rightarrow> (string \<times> nat \<times> int) option \<times> nd_store" where
  "nd_resolve now target s = nd_resolve_loop now target s s"

fun nd_getAll_loop :: "int \<Rightarrow> (string \<times> nd_entry) list \<Rightarrow> nd_store \<Rightarrow> announce_frame list \<Rightarrow> announce_frame list \<times> nd_store" where
  "nd_getAll_loop now [] s acc = (acc, s)"
| "nd_getAll_loop now ((nid, entry) # es) s acc =
     (if now > nde_expiresAt entry then nd_getAll_loop now es (js_delete s nid) acc
      else nd_getAll_loop now es s (acc @ [nde_frame entry]))"

definition nd_getAll :: "int \<Rightarrow> nd_store \<Rightarrow> announce_frame list \<times> nd_store" where
  "nd_getAll now s = nd_getAll_loop now s s []"

section \<open>ndp/cluster.ts\<close>

datatype cluster_error = EmptyClusterAnchor | NdpClusterSplitError string int

definition epoch_of :: "announce_frame \<Rightarrow> int" where
  "epoch_of f = (case an_cluster_epoch f of None \<Rightarrow> 1 | Some e \<Rightarrow> e)"

definition top_epoch :: "announce_frame list \<Rightarrow> int" where
  "top_epoch members = foldl (\<lambda>tp f. if epoch_of f > tp then epoch_of f else tp) 1 members"

definition resolveClusterFrom :: "announce_frame list \<Rightarrow> string \<Rightarrow> cluster_error + announce_frame option" where
  "resolveClusterFrom liveMembers clusterAnchor =
     (if clusterAnchor = [] then Inl EmptyClusterAnchor
      else let members = filter (\<lambda>f. an_cluster_anchor f = Some clusterAnchor) liveMembers in
        if members = [] then Inr None
        else let tp = top_epoch members; leaders = filter (\<lambda>f. epoch_of f = tp) members in
          if length leaders > 1 then Inl (NdpClusterSplitError clusterAnchor tp)
          else Inr (case leaders of [] \<Rightarrow> None | l # _ \<Rightarrow> Some l))"

definition resolveCluster :: "int \<Rightarrow> nd_store \<Rightarrow> string \<Rightarrow> cluster_error + announce_frame option" where
  "resolveCluster now s clusterAnchor = resolveClusterFrom (fst (nd_getAll now s)) clusterAnchor"

section \<open>ndp/federation.ts\<close>

definition MAX_FEDERATION_HOPS :: nat where "MAX_FEDERATION_HOPS = 3"

datatype federation_error = NdpFederationLoopError

definition parseForwardedBy :: "string option \<Rightarrow> string list" where
  "parseForwardedBy header = (case header of None \<Rightarrow> [] | Some h \<Rightarrow>
     if h = [] then [] else filter (\<lambda>p. p \<noteq> []) (map js_trim (js_split CHR '','' h)))"

definition appendForwardedBy :: "string \<Rightarrow> string option \<Rightarrow> federation_error + string option" where
  "appendForwardedBy ownNid header =
     (let hops = parseForwardedBy header in
      if ownNid \<in> set hops then Inl NdpFederationLoopError
      else if length hops \<ge> MAX_FEDERATION_HOPS then Inr None
      else Inr (Some (js_join '', '' (hops @ [ownNid]))))"

section \<open>Expiry\<close>

definition nd_live :: "int \<Rightarrow> nd_store \<Rightarrow> string \<Rightarrow> announce_frame option" where
  "nd_live now s k = (case js_get s k of None \<Rightarrow> None
     | Some e \<Rightarrow> if now \<le> nde_expiresAt e then Some (nde_frame e) else None)"

lemma nd_delete_expired:
  assumes "js_get s nid = Some e" "now > nde_expiresAt e" "now \<le> now'"
  shows "nd_live now' (js_delete s nid) k = nd_live now' s k"
  using assms by (auto simp: nd_live_def js_get_delete)

interpretation nd_reg: expiring_store getByNid nd_live js_wf
proof
  fix s :: nd_store and now now' :: int and k k' :: string
  assume i: "js_wf s"
  show "fst (getByNid now k s) = nd_live now s k"
    by (simp add: getByNid_def nd_live_def split: option.splits)
  show "js_wf (snd (getByNid now k s))"
    using i by (simp add: getByNid_def split: option.splits)
  assume "now \<le> now'"
  then show "nd_live now' (snd (getByNid now k s)) k' = nd_live now' s k'"
    by (auto simp: getByNid_def nd_delete_expired split: option.splits)
next
  fix s :: nd_store and now now' :: int and k v
  assume "now \<le> now'" "nd_live now' s k = Some v"
  then show "nd_live now s k = Some v"
    by (auto simp: nd_live_def split: option.splits if_splits)
qed

text \<open>The entry \<open>resolve\<close> answers with.\<close>

definition nd_answers :: "int \<Rightarrow> string \<Rightarrow> string \<times> nd_entry \<Rightarrow> bool" where
  "nd_answers now target p \<longleftrightarrow> now \<le> nde_expiresAt (snd p) \<and> nwpTargetMatchesNid (fst p) target \<and>
     an_addresses (nde_frame (snd p)) \<noteq> []"

definition nd_answer :: "string \<times> nd_entry \<Rightarrow> string \<times> nat \<times> int" where
  "nd_answer p = (let (host, port) = hd (an_addresses (nde_frame (snd p)))
                  in (host, port, an_ttl (nde_frame (snd p))))"

lemma nd_resolve_loop_fst:
  "fst (nd_resolve_loop now target es s) = map_option nd_answer (find (nd_answers now target) es)"
  by (induction now target es s rule: nd_resolve_loop.induct)
    (auto simp: nd_answers_def nd_answer_def split: list.splits)

text \<open>Entries still in the list are still in the store.\<close>

lemma nd_resolve_loop_snd:
  assumes "js_wf es" "\<forall>(k, e) \<in> set es. js_get s k = Some e" "now \<le> now'"
  shows "nd_live now' (snd (nd_resolve_loop now target es s)) k = nd_live now' s k"
  using assms
proof (induction now target es s rule: nd_resolve_loop.induct)
  case (2 now target nid entry es s)
  have wf: "js_wf es" "nid \<notin> fst ` set es" using "2.prems"(1) by (auto simp: js_wf_def)
  have e: "js_get s nid = Some entry" using "2.prems"(2) by auto
  have keep: "\<forall>(k, e) \<in> set es. js_get s k = Some e" using "2.prems"(2) by auto
  moreover have "\<forall>(k, e) \<in> set es. js_get (js_delete s nid) k = Some e"
    using keep wf(2) by (force simp: js_get_delete)
  ultimately show ?case
    using 2 wf(1) nd_delete_expired [OF e] by (auto split: list.splits)
qed simp

lemma nd_getAll_loop_fst:
  "fst (nd_getAll_loop now es s acc) = acc @ map (nde_frame \<circ> snd) (filter (\<lambda>p. now \<le> nde_expiresAt (snd p)) es)"
  by (induction now es s acc rule: nd_getAll_loop.induct) auto

section \<open>Clusters\<close>

lemma top_epoch_snoc: "top_epoch (fs @ [f]) = max (top_epoch fs) (epoch_of f)"
  by (simp add: top_epoch_def)

lemma top_epoch_ge: "f \<in> set fs \<Longrightarrow> epoch_of f \<le> top_epoch fs"
  by (induction fs rule: rev_induct) (auto simp: top_epoch_snoc)

lemma top_epoch_ge_1: "1 \<le> top_epoch fs"
  by (induction fs rule: rev_induct) (auto simp: top_epoch_snoc, simp add: top_epoch_def)

lemma top_epoch_cases: "top_epoch fs = 1 \<or> (\<exists>f \<in> set fs. epoch_of f = top_epoch fs)"
proof (induction fs rule: rev_induct)
  case Nil
  then show ?case by (simp add: top_epoch_def)
next
  case (snoc f fs)
  then show ?case by (cases "epoch_of f \<le> top_epoch fs") (auto simp: top_epoch_snoc max_def)
qed

lemma top_epoch_attained:
  assumes "fs \<noteq> []" "\<forall>f \<in> set fs. 1 \<le> epoch_of f"
  shows "\<exists>f \<in> set fs. epoch_of f = top_epoch fs"
proof -
  have "hd fs \<in> set fs" using assms(1) by simp
  with top_epoch_cases [of fs] top_epoch_ge [of "hd fs" fs] assms(2) show ?thesis by force
qed

lemma filter_one:
  "length (filter P xs) = 1 \<longleftrightarrow> (\<exists>ys x zs. xs = ys @ x # zs \<and> P x \<and> (\<forall>y \<in> set (ys @ zs). \<not> P y))"
proof
  assume "length (filter P xs) = 1"
  then obtain x where x: "filter P xs = [x]" by (auto simp: length_Suc_conv)
  then obtain ys zs where "xs = ys @ x # zs" "\<forall>u \<in> set ys. \<not> P u" "P x" "filter P zs = []"
    by (auto simp: filter_eq_Cons_iff)
  then show "\<exists>ys x zs. xs = ys @ x # zs \<and> P x \<and> (\<forall>y \<in> set (ys @ zs). \<not> P y)"
    by (intro exI [of _ ys] exI [of _ x] exI [of _ zs]) (auto simp: filter_empty_conv)
qed (auto simp: filter_empty_conv)

section \<open>Forwarding\<close>

definition hop_token :: "string \<Rightarrow> bool" where
  "hop_token t \<longleftrightarrow> t \<noteq> [] \<and> CHR '','' \<notin> set t \<and> \<not> js_is_ws (hd t) \<and> \<not> js_is_ws (last t)"

lemma js_trim_token:
  assumes "hop_token t"
  shows "js_trim t = t" "js_trim (CHR '' '' # t) = t"
proof -
  have d: "dropWhile js_is_ws t = t" using assms by (cases t) (auto simp: hop_token_def)
  have r: "dropWhile js_is_ws (rev t) = rev t"
    using assms by (cases t rule: rev_cases) (auto simp: hop_token_def)
  show "js_trim t = t" by (simp add: js_trim_def d r)
  have "js_is_ws CHR '' ''" by (simp add: js_is_ws_def)
  then show "js_trim (CHR '' '' # t) = t" by (simp add: js_trim_def d r)
qed

lemma split_join_tokens:
  assumes "ts \<noteq> []" "\<forall>t \<in> set ts. hop_token t"
  shows "js_split CHR '','' (js_join '', '' ts) = hd ts # map (\<lambda>t. CHR '' '' # t) (tl ts)"
  using assms
proof (induction ts rule: induct_list012)
  case (2 x)
  then show ?case by (simp add: js_split_no_sep hop_token_def)
next
  case (3 x y zs)
  have x: "CHR '','' \<notin> set x" using 3(4) by (simp add: hop_token_def)
  have ih: "js_split CHR '','' (js_join '', '' (y # zs)) = y # map (\<lambda>t. CHR '' '' # t) zs"
    using 3(2,4) by simp
  have "js_split CHR '','' (js_join '', '' (x # y # zs)) = x # js_split CHR '','' (CHR '' '' # js_join '', '' (y # zs))"
    using js_split_sep [OF x] by simp
  with ih show ?case by simp
qed simp

lemma parse_join_tokens:
  assumes "ts \<noteq> []" "\<forall>t \<in> set ts. hop_token t"
  shows "parseForwardedBy (Some (js_join '', '' ts)) = ts"
proof -
  obtain x zs where ts: "ts = x # zs" using assms(1) by (cases ts) auto
  have x: "js_trim x = x" and zs: "\<forall>t \<in> set zs. js_trim (CHR '' '' # t) = t"
    using assms(2) ts js_trim_token by auto
  have ne: "\<forall>t \<in> set ts. t \<noteq> []" using assms(2) by (auto simp: hop_token_def)
  have "js_join '', '' ts \<noteq> []" using ts ne by (cases zs) auto
  moreover have "map js_trim (js_split CHR '','' (js_join '', '' ts)) = ts"
    using split_join_tokens [OF assms] x zs by (simp add: ts map_idI comp_def)
  moreover have "filter (\<lambda>p. p \<noteq> []) ts = ts" using ne by simp
  ultimately show ?thesis by (simp add: parseForwardedBy_def)
qed

text \<open>A request forwarded by registries one after the other, as long as each one forwards it.\<close>

fun forward_chain :: "string list \<Rightarrow> string option \<Rightarrow> string list" where
  "forward_chain [] h = []"
| "forward_chain (n # ns) h = (case appendForwardedBy n h of
     Inr (Some h') \<Rightarrow> n # forward_chain ns (Some h') | _ \<Rightarrow> [])"

lemma forward_chain_hops:
  assumes "\<forall>n \<in> set ns. hop_token n" "\<forall>n \<in> set hops. hop_token n" "distinct hops"
    and h: "parseForwardedBy h = hops" and "length hops \<le> MAX_FEDERATION_HOPS"
  shows "distinct (hops @ forward_chain ns h) \<and> length (hops @ forward_chain ns h) \<le> MAX_FEDERATION_HOPS"
  using assms
proof (induction ns arbitrary: h hops)
  case Nil
  then show ?case by simp
next
  case (Cons n ns)
  show ?case
  proof (cases "n \<in> set hops \<or> MAX_FEDERATION_HOPS \<le> length hops")
    case True
    then show ?thesis using Cons.prems by (auto simp: appendForwardedBy_def)
  next
    case False
    let ?h = "Some (js_join '', '' (hops @ [n]))"
    have "parseForwardedBy ?h = hops @ [n]" using Cons.prems by (intro parse_join_tokens) auto
    with Cons.IH [of "hops @ [n]" ?h] Cons.prems False show ?thesis
      by (simp add: appendForwardedBy_def)
  qed
qed

section \<open>Properties\<close>

text \<open>\<open>resolve\<close> answers with the first announced node, in insertion order, that has not
  expired, matches the target and has an address; the purging it does on the way does not change
  what any later read can see.\<close>

theorem nd_resolve_first_live:
  assumes "js_wf s" "now \<le> now'"
  shows "fst (nd_resolve now target s) = map_option nd_answer (find (nd_answers now target) s) \<and>
    nd_live now' (snd (nd_resolve now target s)) k = nd_live now' s k"
proof -
  have "\<forall>(k, e) \<in> set s. js_get s k = Some e" using js_get_in [OF assms(1)] by blast
  from nd_resolve_loop_snd [OF assms(1) this assms(2)] show ?thesis
    by (simp add: nd_resolve_def nd_resolve_loop_fst)
qed

theorem nd_resolve_first_live_witness:
  "let f = \<lparr>an_nid = ''urn:nps:node:h:p'', an_addresses = [(''10.0.0.1'', 17433)], an_ttl = 60,
            an_cluster_anchor = None, an_cluster_epoch = None\<rparr>
   in fst (nd_resolve 5 ''nwp://h/p/q'' (nd_announce 0 f [])) = Some (''10.0.0.1'', 17433, 60)"
proof -
  let ?f = "\<lparr>an_nid = ''urn:nps:node:h:p'', an_addresses = [(''10.0.0.1'', 17433)], an_ttl = 60,
     an_cluster_anchor = None, an_cluster_epoch = None\<rparr>"
  have "js_wf (nd_announce 0 ?f [])" by (simp add: nd_announce_def)
  from nd_resolve_first_live [OF this, of 5 5 "''nwp://h/p/q''"] show ?thesis
    by (simp add: nd_announce_def js_set_def nd_answers_def nd_answer_def nwpTargetMatchesNid_def js_startsWith_def)
qed

text \<open>\<open>resolveClusterFrom\<close>, for epochs of at least 1, returns the member whose epoch is above
  all others when there is exactly one such announcement, throws \<open>NdpClusterSplitError\<close> when the
  highest epoch is shared, and returns undefined only for an empty cluster.\<close>

theorem cluster_highest_epoch:
  assumes "c \<noteq> []" "\<forall>f \<in> set fs. an_cluster_anchor f = Some c \<longrightarrow> 1 \<le> epoch_of f"
  defines "m \<equiv> filter (\<lambda>f. an_cluster_anchor f = Some c) fs"
  shows "(resolveClusterFrom fs c = Inr None \<longleftrightarrow> m = []) \<and>
    (resolveClusterFrom fs c = Inr (Some f) \<longleftrightarrow>
       (\<exists>ys zs. m = ys @ f # zs \<and> (\<forall>g \<in> set (ys @ zs). epoch_of g < epoch_of f))) \<and>
    (\<forall>e. resolveClusterFrom fs c = Inl e \<longrightarrow> (\<exists>g \<in> set m. e = NdpClusterSplitError c (epoch_of g) \<and>
       (\<forall>g' \<in> set m. epoch_of g' \<le> epoch_of g)))"
proof (cases "m = []")
  case True
  then show ?thesis using assms(1) by (simp add: resolveClusterFrom_def m_def)
next
  case False
  let ?l = "filter (\<lambda>f. epoch_of f = top_epoch m) m"
  have "\<forall>f \<in> set m. 1 \<le> epoch_of f" using assms(2) by (simp add: m_def)
  from top_epoch_attained [OF False this] obtain g0 where g0: "g0 \<in> set m" "epoch_of g0 = top_epoch m" by blast
  then have ne: "?l \<noteq> []" by (auto simp: filter_empty_conv)
  have r: "resolveClusterFrom fs c = (if length ?l > 1 then Inl (NdpClusterSplitError c (top_epoch m)) else Inr (Some (hd ?l)))"
    using False assms(1) ne by (simp add: resolveClusterFrom_def m_def Let_def split: list.splits)
  have one: "\<not> length ?l > 1 \<longleftrightarrow> length ?l = 1" using ne by (cases ?l) auto
  have leader: "length ?l = 1 \<and> hd ?l = f \<longleftrightarrow> (\<exists>ys zs. m = ys @ f # zs \<and> (\<forall>g \<in> set (ys @ zs). epoch_of g < epoch_of f))"
  proof
    assume a: "length ?l = 1 \<and> hd ?l = f"
    then obtain ys x zs where x: "m = ys @ x # zs" "epoch_of x = top_epoch m" "\<forall>y \<in> set (ys @ zs). epoch_of y \<noteq> top_epoch m"
      using filter_one [of "\<lambda>f. epoch_of f = top_epoch m" m] by blast
    then have "?l = [x]" by (auto simp: filter_empty_conv)
    with a have "x = f" by simp
    moreover have "\<forall>y \<in> set (ys @ zs). epoch_of y < top_epoch m"
      using x top_epoch_ge [of _ m] by (force simp: less_le)
    ultimately show "\<exists>ys zs. m = ys @ f # zs \<and> (\<forall>g \<in> set (ys @ zs). epoch_of g < epoch_of f)" using x by metis
  next
    assume "\<exists>ys zs. m = ys @ f # zs \<and> (\<forall>g \<in> set (ys @ zs). epoch_of g < epoch_of f)"
    then obtain ys zs where z: "m = ys @ f # zs" "\<forall>g \<in> set (ys @ zs). epoch_of g < epoch_of f" by blast
    have le: "epoch_of f \<le> top_epoch m" using z(1) by (intro top_epoch_ge) simp
    have "g0 = f"
    proof (rule ccontr)
      assume "g0 \<noteq> f"
      with g0(1) z have "epoch_of g0 < epoch_of f" by auto
      with g0(2) le show False by simp
    qed
    then have tp: "top_epoch m = epoch_of f" using g0 by simp
    have "\<forall>g \<in> set (ys @ zs). epoch_of g \<noteq> epoch_of f" using z(2) by (metis less_irrefl)
    then have "filter (\<lambda>g. epoch_of g = epoch_of f) ys = []" "filter (\<lambda>g. epoch_of g = epoch_of f) zs = []"
      by (simp_all add: filter_empty_conv)
    then show "length ?l = 1 \<and> hd ?l = f" by (simp add: tp) (simp add: z(1))
  qed
  have split: "\<exists>g \<in> set m. top_epoch m = epoch_of g \<and> (\<forall>g' \<in> set m. epoch_of g' \<le> epoch_of g)"
    using g0 top_epoch_ge [of _ m] by (intro bexI [of _ g0]) auto
  show ?thesis using r one leader False split by auto
qed

theorem cluster_highest_epoch_witness:
  "let f = (\<lambda>k e. \<lparr>an_nid = k, an_addresses = [], an_ttl = 9, an_cluster_anchor = Some ''c'', an_cluster_epoch = Some e\<rparr>)
   in resolveClusterFrom [f ''a'' 2, f ''b'' 5] ''c'' = Inr (Some (f ''b'' 5))"
proof -
  let ?f = "\<lambda>k e. \<lparr>an_nid = k, an_addresses = [], an_ttl = 9, an_cluster_anchor = Some ''c'', an_cluster_epoch = Some e\<rparr>"
  have "\<exists>ys zs. [?f ''a'' 2, ?f ''b'' 5] = ys @ ?f ''b'' 5 # zs \<and> (\<forall>g \<in> set (ys @ zs). epoch_of g < epoch_of (?f ''b'' 5))"
    by (rule exI [of _ "[?f ''a'' 2]"], rule exI [of _ "[]"]) (simp add: epoch_of_def)
  then show ?thesis
    using cluster_highest_epoch [of "''c''" "[?f ''a'' 2, ?f ''b'' 5]" "?f ''b'' 5"] by (simp add: epoch_of_def)
qed

text \<open>\<open>resolveClusterFrom\<close> starts its maximum at 1, so a cluster whose live members all announce
  an epoch below 1 has no leader: it returns undefined, which the documentation reserves for a cluster
  with no live member.\<close>

theorem cluster_epoch_zero_unresolved:
  assumes "c \<noteq> []" "\<forall>f \<in> set fs. an_cluster_anchor f = Some c \<longrightarrow> epoch_of f < 1"
  shows "resolveClusterFrom fs c = Inr None"
proof -
  let ?m = "filter (\<lambda>f. an_cluster_anchor f = Some c) fs"
  have "top_epoch ?m = 1" using top_epoch_cases [of ?m] top_epoch_ge_1 [of ?m] assms(2) by force
  then have "filter (\<lambda>f. epoch_of f = top_epoch ?m) ?m = []" using assms(2) by (auto simp: filter_empty_conv)
  then show ?thesis using assms(1) by (simp add: resolveClusterFrom_def Let_def)
qed

theorem cluster_epoch_zero_unresolved_witness:
  "resolveClusterFrom [\<lparr>an_nid = ''a'', an_addresses = [], an_ttl = 9, an_cluster_anchor = Some ''c'', an_cluster_epoch = Some 0\<rparr>] ''c'' = Inr None"
  using cluster_epoch_zero_unresolved [of "''c''" "[\<lparr>an_nid = ''a'', an_addresses = [], an_ttl = 9, an_cluster_anchor = Some ''c'', an_cluster_epoch = Some 0\<rparr>]"]
  by (simp add: epoch_of_def)

text \<open>Federation terminates: a request forwarded through any sequence of registries, whose ids
  contain no comma or surrounding white space, passes each registry at most once and at most three of
  them, because the header a registry writes is read back by the next as the same list of hops.\<close>

theorem federation_bounded:
  assumes "\<forall>n \<in> set ns. hop_token n"
  shows "distinct (forward_chain ns None) \<and> length (forward_chain ns None) \<le> MAX_FEDERATION_HOPS"
  using forward_chain_hops [OF assms, of "[]" None] by (simp add: parseForwardedBy_def)

theorem federation_bounded_witness:
  "length (forward_chain [''a'', ''b'', ''c'', ''d'', ''a''] None) \<le> MAX_FEDERATION_HOPS"
  using federation_bounded [of "[''a'', ''b'', ''c'', ''d'', ''a'']"] by (simp add: hop_token_def js_is_ws_def)

end
