(* ===== verification/NopDag.thy ===== *)
theory NopDag
  imports Prelude
begin

text \<open>
  Task graphs: \<open>nop/dag-validator.ts\<close> (\<open>validateDag\<close>) and the topological sort of
  \<open>nop/portable-profile.ts\<close> (\<open>stableTopology\<close>). Both are Kahn's algorithm; they differ in the
  discipline of the queue, which is a parameter here: first-in first-out, or kept sorted (and
  successors visited in sorted order).

  Proved: the loop terminates; it returns all nodes exactly when the graph is acyclic, and
  then in an order in which every edge goes forward.
\<close>

section \<open>Kahn's algorithm\<close>

datatype queue_policy = Fifo | Sorted

fun enqueue :: "queue_policy \<Rightarrow> 'a :: linorder list \<Rightarrow> 'a \<Rightarrow> 'a list" where
  "enqueue Fifo q x = q @ [x]"
| "enqueue Sorted q x = sort (q @ [x])"

fun visit_order :: "queue_policy \<Rightarrow> 'a :: linorder list \<Rightarrow> 'a list" where
  "visit_order Fifo xs = xs"
| "visit_order Sorted xs = sort xs"

type_synonym 'a degrees = "('a, int) jsmap"
type_synonym 'a adjacency = "('a, 'a list) jsmap"

text \<open>The inner loop over the successors of the current node. A successor without a degree
  would make the count \<open>NaN\<close>, which is never 0.\<close>

fun relax :: "queue_policy \<Rightarrow> 'a :: linorder list \<Rightarrow> 'a degrees \<Rightarrow> 'a list \<Rightarrow> 'a degrees \<times> 'a list" where
  "relax p [] deg q = (deg, q)"
| "relax p (n # ns) deg q = (case js_get deg n of
     None \<Rightarrow> relax p ns deg q
   | Some d \<Rightarrow> relax p ns (js_set deg n (d - 1)) (if d - 1 = 0 then enqueue p q n else q))"

definition successors :: "'a adjacency \<Rightarrow> 'a \<Rightarrow> 'a list" where
  "successors adj u = (case js_get adj u of None \<Rightarrow> [] | Some vs \<Rightarrow> vs)"

definition potential :: "'a degrees \<Rightarrow> 'a list \<Rightarrow> nat" where
  "potential deg q = sum_list (map (nat \<circ> snd) deg) + length q"

lemma length_enqueue [simp]: "length (enqueue p q x) = Suc (length q)"
  by (cases p) auto

lemma set_enqueue [simp]: "set (enqueue p q x) = insert x (set q)"
  by (cases p) auto

lemma distinct_enqueue [simp]: "distinct (enqueue p q x) = (x \<notin> set q \<and> distinct q)"
  by (cases p) (auto simp del: sort_append)

lemma sum_js_set:
  "js_get deg n = Some d \<Longrightarrow> sum_list (map (nat \<circ> snd) (js_set deg n d')) + nat d = sum_list (map (nat \<circ> snd) deg) + nat d'"
  by (induction deg) (auto simp: js_get_def js_set_def split: if_splits)

lemma relax_potential: "relax p ns deg q = (deg', q') \<Longrightarrow> potential deg' q' \<le> potential deg q"
proof (induction p ns deg q rule: relax.induct)
  case (2 p n ns deg q)
  show ?case
  proof (cases "js_get deg n")
    case None
    with 2 show ?thesis by simp
  next
    case (Some d)
    have "potential (js_set deg n (d - 1)) (if d - 1 = 0 then enqueue p q n else q) \<le> potential deg q"
      using sum_js_set [OF Some, of "d - 1"] by (auto simp: potential_def)
    moreover have "potential deg' q' \<le> potential (js_set deg n (d - 1)) (if d - 1 = 0 then enqueue p q n else q)"
      using 2(2) [OF Some] 2(3) Some by simp
    ultimately show ?thesis by simp
  qed
qed simp

function kahn :: "queue_policy \<Rightarrow> 'a :: linorder adjacency \<Rightarrow> 'a list \<Rightarrow> 'a degrees \<Rightarrow> 'a list \<Rightarrow> 'a list" where
  "kahn p adj [] deg order = order"
| "kahn p adj (cur # q) deg order =
     (let (deg', q') = relax p (visit_order p (successors adj cur)) deg q
      in kahn p adj q' deg' (order @ [cur]))"
  by pat_completeness auto
termination
proof (relation "measure (\<lambda>(p, adj, q, deg, order). potential deg q)")
  fix p :: queue_policy and adj :: "'a adjacency" and cur q deg order x deg' q'
  assume "x = relax p (visit_order p (successors adj cur)) deg q" "(deg', q') = x"
  then have "potential deg' q' \<le> potential deg q" by (metis relax_potential)
  then show "((p, adj, q', deg', order @ [cur]), p, adj, cur # q, deg, order)
      \<in> measure (\<lambda>(p, adj, q, deg, order). potential deg q)"
    by (simp add: potential_def)
qed simp

section \<open>nop/dag-validator.ts\<close>

definition MAX_DAG_NODES :: nat where "MAX_DAG_NODES = 32"
definition MAX_CONDITION_LEN :: nat where "MAX_CONDITION_LEN = 512"

record dag_node =
  dn_id :: string
  dn_condition :: "string option"
  dn_inputFrom :: "string list option"

record task_dag =
  td_nodes :: "dag_node list"
  td_edges :: "(string \<times> string) list option"

datatype dag_result = DagFail string | DagOk "string list" "string list" "string list"

fun has_duplicate :: "string list \<Rightarrow> string list \<Rightarrow> bool" where
  "has_duplicate seen [] = False"
| "has_duplicate seen (x # xs) = (if x \<in> set seen then True else has_duplicate (seen @ [x]) xs)"

text \<open>The maps \<open>adj\<close> and \<open>inDegree\<close> after the loop over the edges.\<close>

definition add_edge :: "'a adjacency \<times> 'a degrees \<Rightarrow> 'a \<times> 'a \<Rightarrow> 'a adjacency \<times> 'a degrees" where
  "add_edge g e = (js_set (fst g) (fst e) (successors (fst g) (fst e) @ [snd e]),
     js_set (snd g) (snd e) ((case js_get (snd g) (snd e) of None \<Rightarrow> 0 | Some d \<Rightarrow> d) + 1))"

definition build_graph :: "'a list \<Rightarrow> ('a \<times> 'a) list \<Rightarrow> 'a adjacency \<times> 'a degrees" where
  "build_graph ids es = foldl add_edge (map (\<lambda>i. (i, [])) ids, map (\<lambda>i. (i, 0)) ids) es"

definition roots_of :: "'a degrees \<Rightarrow> 'a list" where
  "roots_of deg = map fst (filter (\<lambda>(i, d). d = 0) deg)"

definition validateDag :: "task_dag \<Rightarrow> dag_result" where
  "validateDag dag =
     (let nodes = td_nodes dag; ids = map dn_id nodes;
          es = (case td_edges dag of None \<Rightarrow> [] | Some es \<Rightarrow> es) in
      if nodes = [] then DagFail ''NOP-TASK-DAG-INVALID''
      else if length nodes > MAX_DAG_NODES then DagFail ''NOP-TASK-DAG-TOO-LARGE''
      else if has_duplicate [] ids then DagFail ''NOP-TASK-DAG-INVALID''
      else if list_ex (\<lambda>n. case dn_condition n of None \<Rightarrow> False | Some c \<Rightarrow> length c > MAX_CONDITION_LEN) nodes
      then DagFail ''NOP-TASK-DAG-INVALID''
      else if list_ex (\<lambda>(u, v). u \<notin> set ids \<or> v \<notin> set ids) es then DagFail ''NOP-TASK-DAG-INVALID''
      else if list_ex (\<lambda>n. list_ex (\<lambda>u. u \<notin> set ids) (case dn_inputFrom n of None \<Rightarrow> [] | Some us \<Rightarrow> us)) nodes
      then DagFail ''NOP-TASK-DAG-INVALID''
      else let (adj, inDegree) = build_graph ids es;
               order = kahn Fifo adj (roots_of inDegree) inDegree [] in
        if length order \<noteq> length nodes then DagFail ''NOP-TASK-DAG-CYCLE''
        else let origInDegree = snd (build_graph ids es);
                 origOutDegree = snd (build_graph ids (map (\<lambda>(u, v). (v, u)) es));
                 roots = filter (\<lambda>i. js_get origInDegree i = Some 0) order;
                 terminals = filter (\<lambda>i. js_get origOutDegree i = Some 0) order in
          if roots = [] then DagFail ''NOP-TASK-DAG-INVALID''
          else if terminals = [] then DagFail ''NOP-TASK-DAG-INVALID''
          else DagOk order roots terminals)"

section \<open>nop/portable-profile.ts: stableTopology\<close>

text \<open>The edges \<open>(dependency, node)\<close> in the order in which the two loops visit them.\<close>

definition dep_edges :: "('a \<times> 'a list) list \<Rightarrow> ('a \<times> 'a) list" where
  "dep_edges nodes = concat (map (\<lambda>(i, deps). map (\<lambda>d. (d, i)) deps) nodes)"

definition stableTopology :: "('a :: linorder \<times> 'a list) list \<Rightarrow> 'a list option" where
  "stableTopology nodes =
     (let ids = map fst nodes; es = dep_edges nodes in
      if list_ex (\<lambda>(d, i). d \<notin> set ids) es then None
      else let (outgoing, indegree) = build_graph ids es;
               order = kahn Sorted outgoing (sort (roots_of indegree)) indegree [] in
        if length order = length nodes then Some order else None)"

section \<open>The graph the maps represent\<close>

lemma has_duplicate_iff: "has_duplicate seen xs \<longleftrightarrow> set seen \<inter> set xs \<noteq> {} \<or> \<not> distinct xs"
  by (induction seen xs rule: has_duplicate.induct) auto

lemma map_const_get: "map_of (map (\<lambda>i. (i, c)) ids) v = (if v \<in> set ids then Some c else None)"
  by (induction ids) auto

lemma build_graph_snoc: "build_graph ids (es @ [e]) = add_edge (build_graph ids es) e"
  by (simp add: build_graph_def)

lemma build_graph_spec:
  assumes "fst ` set es \<subseteq> set ids" "snd ` set es \<subseteq> set ids"
  shows "js_get (fst (build_graph ids es)) u = (if u \<in> set ids then Some (map snd (filter (\<lambda>e. fst e = u) es)) else None)"
    and "js_get (snd (build_graph ids es)) v = (if v \<in> set ids then Some (int (count_list (map snd es) v)) else None)"
  using assms
proof (induction es rule: rev_induct)
  case Nil
  { case 1 show ?case by (simp add: build_graph_def js_get_def map_const_get) }
  { case 2 show ?case by (simp add: build_graph_def js_get_def map_const_get) }
next
  case (snoc e es)
  { case 1 with snoc show ?case
      by (auto simp: build_graph_snoc add_edge_def js_get_set successors_def) }
  { case 2 with snoc show ?case
      by (auto simp: build_graph_snoc add_edge_def js_get_set) }
qed

lemma build_graph_keys:
  assumes "snd ` set es \<subseteq> set ids"
  shows "map fst (snd (build_graph ids es)) = ids"
  using assms
proof (induction es rule: rev_induct)
  case Nil
  then show ?case by (simp add: build_graph_def comp_def)
next
  case (snoc e es)
  have "js_has (snd (build_graph ids es)) (snd e)"
    using snoc by (simp add: js_has_iff js_keys_def)
  with snoc show ?case
    using js_keys_set [of "snd (build_graph ids es)" "snd e"] by (simp add: build_graph_snoc add_edge_def js_keys_def)
qed

lemma roots_of_spec:
  assumes "distinct ids" "fst ` set es \<subseteq> set ids" "snd ` set es \<subseteq> set ids"
  shows "distinct (roots_of (snd (build_graph ids es)))"
    and "set (roots_of (snd (build_graph ids es))) = {v \<in> set ids. v \<notin> snd ` set es}"
proof -
  let ?d = "snd (build_graph ids es)"
  have wf: "js_wf ?d" using build_graph_keys [OF assms(3)] assms(1) by (simp add: js_wf_def)
  show "distinct (roots_of ?d)" using wf by (simp add: roots_of_def js_wf_def distinct_map_filter)
  have "v \<in> set (roots_of ?d) \<longleftrightarrow> js_get ?d v = Some 0" for v
  proof -
    have "v \<in> set (roots_of ?d) \<longleftrightarrow> (v, 0) \<in> set ?d" by (force simp: roots_of_def)
    then show ?thesis using js_get_in [OF wf, of v 0] js_get_Some_in [of ?d v 0] by blast
  qed
  then have "v \<in> set (roots_of ?d) \<longleftrightarrow> v \<in> set ids \<and> v \<notin> snd ` set es" for v
    using build_graph_spec(2) [OF assms(2,3), of v] by (simp add: count_list_0_iff)
  then show "set (roots_of ?d) = {v \<in> set ids. v \<notin> snd ` set es}" by blast
qed

section \<open>Invariant of the loop\<close>

text \<open>The number of edges into \<open>v\<close> from nodes not yet in the order.\<close>

definition open_edges :: "('a \<times> 'a) list \<Rightarrow> 'a list \<Rightarrow> 'a \<Rightarrow> nat" where
  "open_edges es order v = length (filter (\<lambda>e. snd e = v \<and> fst e \<notin> set order) es)"

definition forward :: "('a \<times> 'a) list \<Rightarrow> 'a list \<Rightarrow> bool" where
  "forward es order \<longleftrightarrow> (\<forall>i < length order. \<forall>u. (u, order ! i) \<in> set es \<longrightarrow> u \<in> set (take i order))"

definition kahn_inv :: "'a list \<Rightarrow> ('a \<times> 'a) list \<Rightarrow> 'a list \<Rightarrow> 'a degrees \<Rightarrow> 'a list \<Rightarrow> bool" where
  "kahn_inv ids es q deg order \<longleftrightarrow> distinct (order @ q) \<and> set (order @ q) \<subseteq> set ids \<and>
     (\<forall>v \<in> set ids. js_get deg v = Some (int (open_edges es order v)) \<and>
        (open_edges es order v = 0 \<longleftrightarrow> v \<in> set (order @ q))) \<and> forward es order"

lemma relax_spec:
  assumes "relax p ns deg q = (deg', q')" "distinct q"
    and "\<forall>v \<in> set ns. v \<notin> set q \<and> (\<exists>d. js_get deg v = Some d \<and> int (count_list ns v) \<le> d)"
  shows "js_get deg' v = map_option (\<lambda>d. d - int (count_list ns v)) (js_get deg v) \<and> distinct q' \<and>
    set q' = set q \<union> {v \<in> set ns. js_get deg v = Some (int (count_list ns v))}"
  using assms
proof (induction p ns deg q arbitrary: v rule: relax.induct)
  case (1 p deg q)
  then show ?case by (simp add: option.map_ident)
next
  case (2 p n ns deg q)
  from 2(5) obtain d where d: "js_get deg n = Some d" "1 + int (count_list ns n) \<le> d" "n \<notin> set q" by auto
  let ?deg = "js_set deg n (d - 1)" and ?q = "if d - 1 = 0 then enqueue p q n else q"
  have r: "relax p ns ?deg ?q = (deg', q')" using 2(3) d(1) by simp
  have dq: "distinct ?q" using 2(4) d(3) by simp
  have pre: "\<forall>v \<in> set ns. v \<notin> set ?q \<and> (\<exists>d. js_get ?deg v = Some d \<and> int (count_list ns v) \<le> d)"
  proof
    fix v assume v: "v \<in> set ns"
    have "v = n \<Longrightarrow> d - 1 \<noteq> 0" using v d(2) by (auto simp: count_list_0_iff)
    with v 2(5) d show "v \<notin> set ?q \<and> (\<exists>d. js_get ?deg v = Some d \<and> int (count_list ns v) \<le> d)"
      by (auto simp: js_get_set split: if_splits)
  qed
  note ih = 2(2) [OF d(1) r dq pre]
  have "set q' = set q \<union> {v \<in> set (n # ns). js_get deg v = Some (int (count_list (n # ns) v))}"
  proof (rule set_eqI)
    fix w
    have w: "w \<in> set q' \<longleftrightarrow> w \<in> set ?q \<or> w \<in> set ns \<and> js_get ?deg w = Some (int (count_list ns w))"
      using ih [of n] by simp
    show "w \<in> set q' \<longleftrightarrow> w \<in> set q \<union> {v \<in> set (n # ns). js_get deg v = Some (int (count_list (n # ns) v))}"
    proof (cases "w = n")
      case True
      have "d - 1 = 0 \<or> n \<in> set ns \<and> d - 1 = int (count_list ns n) \<longleftrightarrow> d = 1 + int (count_list ns n)"
        using d(2) by (auto simp: count_list_0_iff)
      with w True d show ?thesis by (auto simp: js_get_set)
    next
      case False
      with w show ?thesis by (auto simp: js_get_set)
    qed
  qed
  then show ?case using ih [of v] d by (auto simp: js_get_set)
qed

lemma open_edges_snoc:
  "u \<notin> set order \<Longrightarrow> open_edges es order v = open_edges es (order @ [u]) v + count_list (map snd (filter (\<lambda>e. fst e = u) es)) v"
  by (induction es) (auto simp: open_edges_def)

lemma forward_snoc:
  assumes "forward es order" "open_edges es order u = 0"
  shows "forward es (order @ [u])"
proof -
  have "w \<in> set order" if "(w, u) \<in> set es" for w
    using assms(2) that by (auto simp: open_edges_def filter_empty_conv)
  with assms(1) show ?thesis by (auto simp: forward_def nth_append less_Suc_eq)
qed

lemma kahn_step:
  assumes inv: "kahn_inv ids es (cur # q) deg order"
    and sub: "fst ` set es \<subseteq> set ids" "snd ` set es \<subseteq> set ids"
    and adj: "\<forall>u \<in> set ids. js_get adj u = Some (map snd (filter (\<lambda>e. fst e = u) es))"
    and r: "relax p (visit_order p (successors adj cur)) deg q = (deg', q')"
  shows "kahn_inv ids es q' deg' (order @ [cur])"
proof -
  let ?ns = "visit_order p (successors adj cur)" and ?out = "map snd (filter (\<lambda>e. fst e = cur) es)"
  have cur: "cur \<in> set ids" "cur \<notin> set order" "cur \<notin> set q" "distinct q" "open_edges es order cur = 0"
    using inv by (auto simp: kahn_inv_def)
  have ns: "set ?ns = set ?out" "count_list ?ns v = count_list ?out v" for v
    using adj cur(1) by (cases p; simp add: successors_def count_mset [symmetric])+
  note oe = open_edges_snoc [OF cur(2), of es]
  have v: "v \<in> set ids \<and> v \<notin> set (order @ cur # q)" if "v \<in> set ?out" for v
  proof -
    have "v \<in> set ids" using that sub(2) by auto
    moreover have "open_edges es order v \<noteq> 0" using oe [of v] that by (auto simp: count_list_0_iff)
    ultimately show ?thesis using inv by (auto simp: kahn_inv_def)
  qed
  have pre: "\<forall>v \<in> set ?ns. v \<notin> set q \<and> (\<exists>d. js_get deg v = Some d \<and> int (count_list ?ns v) \<le> d)"
  proof
    fix x assume "x \<in> set ?ns"
    then have "x \<in> set ?out" by (simp only: ns(1))
    from v [OF this] have x: "x \<in> set ids" "x \<notin> set q" by simp_all
    then have "js_get deg x = Some (int (open_edges es order x))" using inv by (simp add: kahn_inv_def)
    with x oe [of x] ns(2) [of x] show "x \<notin> set q \<and> (\<exists>d. js_get deg x = Some d \<and> int (count_list ?ns x) \<le> d)" by auto
  qed
  note rs = relax_spec [OF r cur(4) pre]
  have new: "x \<in> set q' \<Longrightarrow> x \<in> set q \<or> x \<in> set ?out" for x
    using rs unfolding ns(1) by blast
  have q: "x \<in> set q \<Longrightarrow> x \<in> set ids \<and> x \<notin> set (order @ [cur])" for x using inv by (auto simp: kahn_inv_def)
  have new': "x \<in> set ids \<and> x \<notin> set (order @ [cur])" if "x \<in> set q'" for x
    using new [OF that] v [of x] q [of x] by (elim disjE) simp_all
  then have "set q' \<subseteq> set ids" "set q' \<inter> set (order @ [cur]) = {}" by blast+
  moreover have "js_get deg' w = Some (int (open_edges es (order @ [cur]) w)) \<and>
      (open_edges es (order @ [cur]) w = 0 \<longleftrightarrow> w \<in> set ((order @ [cur]) @ q'))" if w: "w \<in> set ids" for w
  proof -
    have g: "js_get deg w = Some (int (open_edges es order w))" "open_edges es order w = 0 \<longleftrightarrow> w \<in> set (order @ cur # q)"
      using inv w by (simp_all add: kahn_inv_def)
    have d: "js_get deg' w = Some (int (open_edges es order w) - int (count_list ?ns w))"
      using rs [of w] g(1) by simp
    have q': "w \<in> set q' \<longleftrightarrow> w \<in> set q \<or> w \<in> set ?out \<and> open_edges es order w = count_list ?out w"
      using rs [of w] g(1) unfolding ns by simp
    have "open_edges es (order @ [cur]) w = 0 \<longleftrightarrow> open_edges es order w = 0 \<or> w \<in> set ?out \<and> open_edges es order w = count_list ?out w"
      using oe [of w] count_list_0_iff [of ?out w] by auto
    then show ?thesis using d q' g(2) oe [of w] unfolding ns by auto
  qed
  moreover have "forward es (order @ [cur])" using inv cur(5) by (auto simp: kahn_inv_def intro: forward_snoc)
  ultimately show ?thesis
    using inv rs by (auto simp: kahn_inv_def)
qed

lemma kahn_correct:
  assumes "kahn_inv ids es q deg order" "fst ` set es \<subseteq> set ids" "snd ` set es \<subseteq> set ids"
    and "\<forall>u \<in> set ids. js_get adj u = Some (map snd (filter (\<lambda>e. fst e = u) es))"
  shows "\<exists>deg'. kahn_inv ids es [] deg' (kahn p adj q deg order)"
  using assms
proof (induction p adj q deg order rule: kahn.induct)
  case (1 p adj deg order)
  then show ?case by auto
next
  case (2 p adj cur q deg order)
  obtain deg' q' where r: "relax p (visit_order p (successors adj cur)) deg q = (deg', q')" by fastforce
  from kahn_step [OF 2(2-5) r] 2(1) [OF r [symmetric] refl _ 2(3-5)] r show ?case by simp
qed

section \<open>Acyclicity\<close>

lemma forward_acyclic:
  assumes "forward es order" "snd ` set es \<subseteq> set order"
  shows "acyclic (set es)"
proof -
  let ?pos = "\<lambda>v. LEAST i. i < length order \<and> order ! i = v"
  have pos: "?pos v < length order \<and> order ! ?pos v = v" if "v \<in> set order" for v
  proof -
    from that obtain i where "i < length order \<and> order ! i = v" by (auto simp: in_set_conv_nth)
    then show ?thesis by (rule LeastI)
  qed
  have "(u, v) \<in> set es \<Longrightarrow> ?pos u < ?pos v" for u v
  proof -
    assume e: "(u, v) \<in> set es"
    then have v: "v \<in> set order" using assms(2) by force
    with pos [OF v] e assms(1) have "u \<in> set (take (?pos v) order)" unfolding forward_def by metis
    then obtain j where j: "j < ?pos v" "j < length order" "order ! j = u" by (auto simp: in_set_conv_nth)
    then have "?pos u \<le> j" by (intro Least_le) simp
    with j(1) show "?pos u < ?pos v" by simp
  qed
  then have "set es \<subseteq> measure ?pos" by auto
  then show ?thesis using wf_measure acyclic_subset wf_acyclic by blast
qed

lemma kahn_complete_iff:
  assumes inv: "kahn_inv ids es [] deg order" and sub: "fst ` set es \<subseteq> set ids" "snd ` set es \<subseteq> set ids" and "distinct ids"
  shows "length order = length ids \<longleftrightarrow> acyclic (set es)"
    and "length order = length ids \<Longrightarrow> set order = set ids"
proof -
  have o: "distinct order" "set order \<subseteq> set ids" "forward es order" using inv by (auto simp: kahn_inv_def)
  show eq: "length order = length ids \<Longrightarrow> set order = set ids"
    using o assms(4) by (metis card_subset_eq distinct_card List.finite_set)
  show "length order = length ids \<longleftrightarrow> acyclic (set es)"
  proof
    assume "length order = length ids"
    with eq sub(2) show "acyclic (set es)" using forward_acyclic [OF o(3)] by simp
  next
    assume ac: "acyclic (set es)"
    have "set ids \<subseteq> set order"
    proof (rule ccontr)
      assume "\<not> set ids \<subseteq> set order"
      then obtain x where x: "x \<in> set ids - set order" by blast
      have wf: "wf (set es)" by (rule finite_acyclic_wf [OF _ ac]) simp
      from wfE_min [OF wf x] obtain z where z: "z \<in> set ids - set order"
        "\<And>y. (y, z) \<in> set es \<Longrightarrow> y \<notin> set ids - set order" by blast
      have "open_edges es order z \<noteq> 0" using inv z(1) by (auto simp: kahn_inv_def)
      then obtain y where "(y, z) \<in> set es" "y \<notin> set order" by (auto simp: open_edges_def filter_empty_conv)
      with z(2) sub(1) show False by force
    qed
    with o assms(4) show "length order = length ids" by (metis distinct_card subset_antisym)
  qed
qed

text \<open>The two callers start the loop from the roots, queued in some order.\<close>

lemma kahn_from_roots:
  fixes p :: queue_policy
  assumes "distinct ids" "fst ` set es \<subseteq> set ids" "snd ` set es \<subseteq> set ids"
    and q: "distinct q" "set q = set (roots_of (snd (build_graph ids es)))"
  defines "order \<equiv> kahn p (fst (build_graph ids es)) q (snd (build_graph ids es)) []"
  shows "length order = length ids \<longleftrightarrow> acyclic (set es)" and "distinct order" and "forward es order"
    and "length order = length ids \<Longrightarrow> set order = set ids"
proof -
  note bg = build_graph_spec [OF assms(2,3)]
  have "open_edges es [] v = count_list (map snd es) v" for v
    by (induction es) (auto simp: open_edges_def)
  then have inv: "kahn_inv ids es q (snd (build_graph ids es)) []"
    using q bg(2) roots_of_spec(2) [OF assms(1-3)] by (auto simp: kahn_inv_def forward_def count_list_0_iff)
  from kahn_correct [OF inv assms(2,3), of "fst (build_graph ids es)" p] bg(1) obtain deg' where
    k: "kahn_inv ids es [] deg' order" unfolding order_def by auto
  show "length order = length ids \<longleftrightarrow> acyclic (set es)" "length order = length ids \<Longrightarrow> set order = set ids"
    using kahn_complete_iff [OF k assms(2,3,1)] by auto
  show "distinct order" "forward es order" using k by (auto simp: kahn_inv_def)
qed

section \<open>Properties\<close>

definition dag_edges :: "task_dag \<Rightarrow> (string \<times> string) list" where
  "dag_edges dag = (case td_edges dag of None \<Rightarrow> [] | Some es \<Rightarrow> es)"

text \<open>What the documentation of the validator asks for, apart from acyclicity.\<close>

definition dag_wellformed :: "task_dag \<Rightarrow> bool" where
  "dag_wellformed dag \<longleftrightarrow> (let ids = map dn_id (td_nodes dag) in
     ids \<noteq> [] \<and> length ids \<le> MAX_DAG_NODES \<and> distinct ids \<and>
     (\<forall>n \<in> set (td_nodes dag). \<forall>c. dn_condition n = Some c \<longrightarrow> length c \<le> MAX_CONDITION_LEN) \<and>
     (\<forall>(u, v) \<in> set (dag_edges dag). u \<in> set ids \<and> v \<in> set ids) \<and>
     (\<forall>n \<in> set (td_nodes dag). \<forall>us. dn_inputFrom n = Some us \<longrightarrow> set us \<subseteq> set ids))"

lemma forward_first_root: "forward es (x # xs) \<Longrightarrow> x \<notin> snd ` set es"
  by (force simp: forward_def)

lemma forward_last_terminal:
  assumes "forward es (xs @ [x])" "distinct (xs @ [x])" "snd ` set es \<subseteq> set (xs @ [x])"
  shows "x \<notin> fst ` set es"
proof
  assume "x \<in> fst ` set es"
  then obtain v where e: "(x, v) \<in> set es" by force
  then have "v \<in> set (xs @ [x])" using assms(3) by force
  then obtain i where i: "i < length (xs @ [x])" "(xs @ [x]) ! i = v" by (metis in_set_conv_nth)
  with e assms(1) have "x \<in> set (take i (xs @ [x]))" unfolding forward_def by blast
  then have "x \<in> set xs" using i(1) by (auto dest: in_set_takeD)
  with assms(2) show False by simp
qed

definition long_condition :: "dag_node \<Rightarrow> bool" where
  "long_condition n = (case dn_condition n of None \<Rightarrow> False | Some c \<Rightarrow> length c > MAX_CONDITION_LEN)"

definition unknown_input :: "string list \<Rightarrow> dag_node \<Rightarrow> bool" where
  "unknown_input ids n = list_ex (\<lambda>u. u \<notin> set ids) (case dn_inputFrom n of None \<Rightarrow> [] | Some us \<Rightarrow> us)"

lemma dag_wellformed_checks:
  "dag_wellformed dag \<longleftrightarrow> td_nodes dag \<noteq> [] \<and> \<not> length (td_nodes dag) > MAX_DAG_NODES \<and>
     \<not> has_duplicate [] (map dn_id (td_nodes dag)) \<and> \<not> list_ex long_condition (td_nodes dag) \<and>
     \<not> list_ex (\<lambda>(u, v). u \<notin> set (map dn_id (td_nodes dag)) \<or> v \<notin> set (map dn_id (td_nodes dag))) (dag_edges dag) \<and>
     \<not> list_ex (unknown_input (map dn_id (td_nodes dag))) (td_nodes dag)"
proof -
  have lc: "\<not> long_condition n \<longleftrightarrow> (\<forall>c. dn_condition n = Some c \<longrightarrow> length c \<le> MAX_CONDITION_LEN)" for n
    by (auto simp: long_condition_def split: option.splits)
  have ui: "\<not> unknown_input ids n \<longleftrightarrow> (\<forall>us. dn_inputFrom n = Some us \<longrightarrow> set us \<subseteq> set ids)" for ids n
    by (cases "dn_inputFrom n") (auto simp: unknown_input_def list_ex_iff)
  show ?thesis
    unfolding dag_wellformed_def Let_def has_duplicate_iff list_ex_iff bex_simps(8) [symmetric] lc [symmetric] ui [symmetric]
    by (simp add: not_less) blast
qed

lemma validateDag_unfold:
  "validateDag dag = (let ids = map dn_id (td_nodes dag); es = dag_edges dag in
     if td_nodes dag = [] then DagFail ''NOP-TASK-DAG-INVALID''
     else if length (td_nodes dag) > MAX_DAG_NODES then DagFail ''NOP-TASK-DAG-TOO-LARGE''
     else if \<not> dag_wellformed dag then DagFail ''NOP-TASK-DAG-INVALID''
     else let order = kahn Fifo (fst (build_graph ids es)) (roots_of (snd (build_graph ids es))) (snd (build_graph ids es)) [];
              roots = filter (\<lambda>i. js_get (snd (build_graph ids es)) i = Some 0) order;
              terms = filter (\<lambda>i. js_get (snd (build_graph ids (map (\<lambda>(u, v). (v, u)) es))) i = Some 0) order in
       if length order \<noteq> length ids then DagFail ''NOP-TASK-DAG-CYCLE''
       else if roots = [] then DagFail ''NOP-TASK-DAG-INVALID'' else if terms = [] then DagFail ''NOP-TASK-DAG-INVALID''
       else DagOk order roots terms)"
  unfolding dag_wellformed_checks validateDag_def dag_edges_def [symmetric] long_condition_def [symmetric, abs_def]
    unknown_input_def [symmetric, abs_def] Let_def case_prod_beta' length_map
  by (cases "td_nodes dag = []"; cases "length (td_nodes dag) > MAX_DAG_NODES";
      cases "has_duplicate [] (map dn_id (td_nodes dag))"; cases "list_ex long_condition (td_nodes dag)";
      cases "list_ex (\<lambda>p. fst p \<notin> set (map dn_id (td_nodes dag)) \<or> snd p \<notin> set (map dn_id (td_nodes dag))) (dag_edges dag)";
      cases "list_ex (unknown_input (map dn_id (td_nodes dag))) (td_nodes dag)")
    (simp_all only: simp_thms if_True if_False if_cancel)

lemma validateDag_eq:
  assumes "dag_wellformed dag"
  defines "ids \<equiv> map dn_id (td_nodes dag)" and "es \<equiv> dag_edges dag"
  defines "order \<equiv> kahn Fifo (fst (build_graph ids es)) (roots_of (snd (build_graph ids es))) (snd (build_graph ids es)) []"
  shows "validateDag dag = (if acyclic (set es)
     then DagOk order (filter (\<lambda>i. i \<notin> snd ` set es) order) (filter (\<lambda>i. i \<notin> fst ` set es) order)
     else DagFail ''NOP-TASK-DAG-CYCLE'')"
    and "distinct order" and "forward es order"
    and "acyclic (set es) \<Longrightarrow> set order = set ids \<and> length order = length ids"
proof -
  have wf: "ids \<noteq> []" "length ids \<le> MAX_DAG_NODES" "distinct ids"
    and sub: "fst ` set es \<subseteq> set ids" "snd ` set es \<subseteq> set ids"
    using assms(1) by (auto simp: dag_wellformed_def ids_def es_def Let_def)
  note k = kahn_from_roots [OF wf(3) sub roots_of_spec(1) [OF wf(3) sub] refl, of Fifo, folded order_def]
  show "distinct order" "forward es order" by (rule k(2), rule k(3))
  show perm: "acyclic (set es) \<Longrightarrow> set order = set ids \<and> length order = length ids" using k(1,4) by simp
  have in0: "js_get (snd (build_graph ids es)) i = Some 0 \<longleftrightarrow> i \<in> set ids \<and> i \<notin> snd ` set es" for i
    using build_graph_spec(2) [OF sub, of i] by (simp add: count_list_0_iff)
  have swap: "fst ` set (map (\<lambda>(u, v). (v, u)) es) = snd ` set es" "snd ` set (map (\<lambda>(u, v). (v, u)) es) = fst ` set es"
    by force+
  have ms: "map snd (map (\<lambda>(u, v). (v, u)) es) = map fst es" by (induction es) auto
  have out0: "js_get (snd (build_graph ids (map (\<lambda>(u, v). (v, u)) es))) i = Some 0 \<longleftrightarrow> i \<in> set ids \<and> i \<notin> fst ` set es" for i
    using build_graph_spec(2) [of "map (\<lambda>(u, v). (v, u)) es" ids i] sub unfolding swap ms
    by (simp add: count_list_0_iff)
  let ?roots = "filter (\<lambda>i. js_get (snd (build_graph ids es)) i = Some 0) order"
  let ?terms = "filter (\<lambda>i. js_get (snd (build_graph ids (map (\<lambda>(u, v). (v, u)) es))) i = Some 0) order"
  have v: "validateDag dag = (if length order \<noteq> length ids then DagFail ''NOP-TASK-DAG-CYCLE''
      else if ?roots = [] then DagFail ''NOP-TASK-DAG-INVALID'' else if ?terms = [] then DagFail ''NOP-TASK-DAG-INVALID''
      else DagOk order ?roots ?terms)"
    using assms(1) wf(1,2) unfolding validateDag_unfold Let_def order_def ids_def es_def by simp
  show "validateDag dag = (if acyclic (set es)
     then DagOk order (filter (\<lambda>i. i \<notin> snd ` set es) order) (filter (\<lambda>i. i \<notin> fst ` set es) order)
     else DagFail ''NOP-TASK-DAG-CYCLE'')"
  proof (cases "acyclic (set es)")
    case True
    have so: "set order = set ids" "order \<noteq> []" using perm [OF True] wf(1) by auto
    have rt: "?roots = filter (\<lambda>i. i \<notin> snd ` set es) order" "?terms = filter (\<lambda>i. i \<notin> fst ` set es) order"
      using in0 out0 so(1) by (auto intro!: filter_cong)
    have "hd order \<notin> snd ` set es" using forward_first_root [of es "hd order" "tl order"] k(3) so(2) by simp
    then have "?roots \<noteq> []" using rt(1) so(2) by (auto simp: filter_empty_conv)
    moreover have "last order \<notin> fst ` set es"
      using forward_last_terminal [of es "butlast order" "last order"] k(2,3) so sub(2) by simp
    then have "?terms \<noteq> []" using rt(2) so(2) by (auto simp: filter_empty_conv)
    ultimately show ?thesis using v True k(1) rt by simp
  next
    case False
    then show ?thesis using v k(1) by simp
  qed
qed

text \<open>C39: \<open>validateDag\<close> accepts exactly the well-formed acyclic graphs (and terminates on all), with
  \<open>NOP-TASK-DAG-CYCLE\<close> exactly for well-formed cyclic ones. For an accepted graph it returns every node
  once, in an order in which each edge goes forward, and its roots and terminals are exactly the nodes
  without incoming and without outgoing edges.\<close>

theorem validateDag_correct:
  "(validateDag dag = DagOk order roots terminals \<longrightarrow>
      distinct order \<and> set order = dn_id ` set (td_nodes dag) \<and> forward (dag_edges dag) order \<and>
      roots = filter (\<lambda>i. i \<notin> snd ` set (dag_edges dag)) order \<and>
      terminals = filter (\<lambda>i. i \<notin> fst ` set (dag_edges dag)) order) \<and>
   ((\<exists>order roots terminals. validateDag dag = DagOk order roots terminals) \<longleftrightarrow>
      dag_wellformed dag \<and> acyclic (set (dag_edges dag))) \<and>
   (validateDag dag = DagFail ''NOP-TASK-DAG-CYCLE'' \<longleftrightarrow> dag_wellformed dag \<and> \<not> acyclic (set (dag_edges dag)))"
proof (cases "dag_wellformed dag")
  case True
  from validateDag_eq [OF True] True show ?thesis by (auto split: if_splits)
next
  case False
  then have "validateDag dag = DagFail ''NOP-TASK-DAG-INVALID'' \<or> validateDag dag = DagFail ''NOP-TASK-DAG-TOO-LARGE''"
    unfolding validateDag_unfold Let_def by simp
  with False show ?thesis by auto
qed

theorem validateDag_correct_witness:
  "let n = (\<lambda>i. \<lparr>dn_id = i, dn_condition = None, dn_inputFrom = None\<rparr>);
       d = \<lparr>td_nodes = [n ''b'', n ''a''], td_edges = Some [(''a'', ''b'')]\<rparr>
   in validateDag d = DagOk [''a'', ''b''] [''a''] [''b''] \<and> forward (dag_edges d) [''a'', ''b'']"
proof -
  let ?n = "\<lambda>i. \<lparr>dn_id = i, dn_condition = None, dn_inputFrom = None\<rparr>"
  let ?d = "\<lparr>td_nodes = [?n ''b'', ?n ''a''], td_edges = Some [(''a'', ''b'')]\<rparr>"
  have "validateDag ?d = DagOk [''a'', ''b''] [''a''] [''b'']"
    by (simp add: validateDag_def MAX_DAG_NODES_def build_graph_def add_edge_def successors_def js_get_def js_set_def roots_of_def Let_def)
  with validateDag_correct [of ?d "[''a'', ''b'']" "[''a'']" "[''b'']"] show ?thesis by simp
qed

lemma dep_edges_set: "set (dep_edges nodes) = {(d, i). \<exists>deps. (i, deps) \<in> set nodes \<and> d \<in> set deps}"
  by (auto simp: dep_edges_def)

lemma dep_edges_sub:
  "snd ` set (dep_edges nodes) \<subseteq> set (map fst nodes)"
  "fst ` set (dep_edges nodes) \<subseteq> set (map fst nodes) \<longleftrightarrow> (\<forall>(i, deps) \<in> set nodes. set deps \<subseteq> fst ` set nodes)"
  unfolding dep_edges_set by (force, fastforce)

lemma stableTopology_spec:
  assumes "distinct (map fst nodes)" and known: "fst ` set (dep_edges nodes) \<subseteq> set (map fst nodes)"
  obtains order where "stableTopology nodes = (if acyclic (set (dep_edges nodes)) then Some order else None)"
    "distinct order" "forward (dep_edges nodes) order" "acyclic (set (dep_edges nodes)) \<Longrightarrow> set order = fst ` set nodes"
proof -
  let ?ids = "map fst nodes" and ?es = "dep_edges nodes"
  let ?order = "kahn Sorted (fst (build_graph ?ids ?es)) (sort (roots_of (snd (build_graph ?ids ?es)))) (snd (build_graph ?ids ?es)) []"
  have q: "distinct (sort (roots_of (snd (build_graph ?ids ?es))))"
    "set (sort (roots_of (snd (build_graph ?ids ?es)))) = set (roots_of (snd (build_graph ?ids ?es)))"
    using roots_of_spec(1) [OF assms(1) known dep_edges_sub(1)] by simp_all
  note k = kahn_from_roots [OF assms(1) known dep_edges_sub(1) q, of Sorted]
  have st: "stableTopology nodes = (if length ?order = length ?ids then Some ?order else None)"
    using known by (auto simp: stableTopology_def list_ex_iff Let_def case_prod_beta')
  show thesis using that [of ?order] st k by auto
qed

text \<open>A result lists every node once, each after all its dependencies.\<close>

lemma stableTopology_Some:
  assumes "distinct (map fst nodes)" "stableTopology nodes = Some order"
  shows "distinct order" "set order = fst ` set nodes" "forward (dep_edges nodes) order"
proof -
  have known: "fst ` set (dep_edges nodes) \<subseteq> set (map fst nodes)"
    using assms(2) by (fastforce simp: stableTopology_def list_ex_iff Let_def split: if_splits)
  from stableTopology_spec [OF assms(1) known] assms(2)
  show "distinct order" "set order = fst ` set nodes" "forward (dep_edges nodes) order"
    by (metis option.distinct(1) option.inject)+
qed

text \<open>The sort of the portable profile: for distinct node ids, \<open>stableTopology\<close> returns a result
  exactly when all dependencies are known and the dependency graph is acyclic; the result lists every
  node once, each after all its dependencies.\<close>

theorem stableTopology_correct:
  assumes "distinct (map fst nodes)"
  shows "(stableTopology nodes \<noteq> None \<longleftrightarrow>
      (\<forall>(i, deps) \<in> set nodes. set deps \<subseteq> fst ` set nodes) \<and> acyclic {(d, i). \<exists>deps. (i, deps) \<in> set nodes \<and> d \<in> set deps}) \<and>
    (\<forall>order. stableTopology nodes = Some order \<longrightarrow> distinct order \<and> set order = fst ` set nodes \<and>
      (\<forall>k < length order. \<forall>deps. (order ! k, deps) \<in> set nodes \<longrightarrow> set deps \<subseteq> set (take k order)))"
proof (cases "fst ` set (dep_edges nodes) \<subseteq> set (map fst nodes)")
  case False
  then have n: "stableTopology nodes = None" by (auto simp: stableTopology_def list_ex_iff Let_def)
  have f: "\<not> (\<forall>(i, deps) \<in> set nodes. set deps \<subseteq> fst ` set nodes)"
    using False unfolding dep_edges_sub(2) .
  show ?thesis unfolding n using f by (simp only: option.distinct simp_thms)
next
  case True
  have fwd: "set deps \<subseteq> set (take j order)"
    if "stableTopology nodes = Some order" "j < length order" "(order ! j, deps) \<in> set nodes" for order j deps
    using stableTopology_Some(3) [OF assms that(1)] that(2,3) unfolding forward_def dep_edges_set by auto
  from stableTopology_spec [OF assms True] have iff: "stableTopology nodes \<noteq> None \<longleftrightarrow> acyclic (set (dep_edges nodes))"
    by (metis option.distinct(1))
  have known: "\<forall>(i, deps) \<in> set nodes. set deps \<subseteq> fst ` set nodes"
    using True unfolding dep_edges_sub(2) .
  show ?thesis
  proof (intro conjI allI impI)
    show "stableTopology nodes \<noteq> None \<longleftrightarrow> (\<forall>(i, deps) \<in> set nodes. set deps \<subseteq> fst ` set nodes) \<and>
        acyclic {(d, i). \<exists>deps. (i, deps) \<in> set nodes \<and> d \<in> set deps}"
      unfolding iff dep_edges_set by (intro iffI conjI known; (erule conjunct2 | assumption))
  qed (use stableTopology_Some [OF assms] fwd in \<open>simp_all only: simp_thms\<close>)
qed

theorem stableTopology_correct_witness:
  "stableTopology [(''b'', [''c'']), (''a'', []), (''c'', [])] = Some [''a'', ''c'', ''b''] \<and>
   set (take 2 [''a'', ''c'', ''b'']) \<supseteq> {''c''}"
proof -
  let ?n = "[(''b'', [''c'']), (''a'', []), (''c'', [])]"
  have e: "stableTopology ?n = Some [''a'', ''c'', ''b'']"
    by (simp add: stableTopology_def dep_edges_def build_graph_def add_edge_def successors_def js_get_def js_set_def roots_of_def
        less_char_def less_eq_char_def list_le_def list_less_def)
  have "distinct (map fst ?n)" by simp
  from stableTopology_correct [OF this] e have
    "\<forall>k < length [''a'', ''c'', ''b'']. \<forall>deps. ([''a'', ''c'', ''b''] ! k, deps) \<in> set ?n \<longrightarrow> set deps \<subseteq> set (take k [''a'', ''c'', ''b''])"
    by blast
  from this [rule_format, of 2 "[''c'']"] e show ?thesis by simp
qed

end
