(* ===== verification/NopRuntime.thy ===== *)
theory NopRuntime
  imports NopDag JsonVal Contracts "HOL-Library.Sublist"
begin

text \<open>
  The runtime half of NOP: \<open>nop/input-mapper.ts\<close>, \<open>nop/result-aggregator.ts\<close>, and the
  deterministic orchestration of \<open>nop/portable-profile.ts\<close> (run, retry, compensation,
  aggregation).

  A task is a record of the members the code reads of the JSON object. The condition evaluator
  (\<open>nop/condition-evaluator.ts\<close>) is an argument \<open>evalCond\<close>: \<open>None\<close> is a thrown error; what is
  proved holds for every evaluator. Events are structured values; \<open>show_event\<close> renders the
  strings the code pushes. Objects do not inherit members: \<open>in\<close> is read as own membership. The
  maps of a result keep the order of the run; the source also sorts their keys by locale.
\<close>

section \<open>nop/input-mapper.ts\<close>

definition MaxInputMappingDepth :: nat where "MaxInputMappingDepth = 8"

datatype mapping_error = NopMappingError

fun walk_path :: "jsval \<Rightarrow> string list \<Rightarrow> jsval option" where
  "walk_path current [] = Some current"
| "walk_path current (part # parts) = (case current of
     JObj kvs \<Rightarrow> (case jo_get kvs part of None \<Rightarrow> None | Some v \<Rightarrow> walk_path v parts)
   | _ \<Rightarrow> None)"

definition resolvePath :: "string \<Rightarrow> (string, jsval) jsmap \<Rightarrow> mapping_error + jsval option" where
  "resolvePath path context =
     (if js_trim path = [] then Inl NopMappingError
      else if \<not> js_startsWith path ''$.'' then Inl NopMappingError
      else let parts = filter (\<lambda>p. p \<noteq> []) (js_split CHR ''.'' path) in
        if length parts > MaxInputMappingDepth + 1 then Inl NopMappingError
        else case parts of
          _ # nodeId # flds \<Rightarrow>
            (case js_get context nodeId of None \<Rightarrow> Inr None | Some v \<Rightarrow> Inr (walk_path v flds))
        | _ \<Rightarrow> Inr (Some (JObj context)))"

section \<open>nop/result-aggregator.ts\<close>

definition jo_assign :: "jsobj \<Rightarrow> jsobj \<Rightarrow> jsobj" where
  "jo_assign target source = foldl (\<lambda>o' (k, v). js_set o' k v) target source"

definition ra_merge :: "jsval list \<Rightarrow> jsobj" where
  "ra_merge results = foldl (\<lambda>merged (i, result). case result of
     JObj kvs \<Rightarrow> jo_assign merged kvs
   | _ \<Rightarrow> js_set merged (''_result_'' @ js_nat_string i) result) [] (enumerate 0 results)"

definition ra_aggregate :: "string \<Rightarrow> jsval list \<Rightarrow> int \<Rightarrow> jsval" where
  "ra_aggregate strategy results minRequired =
     (case results of [] \<Rightarrow> JObj []
      | r # _ \<Rightarrow>
          if strategy = ''first'' then r
          else if strategy = ''all'' then JArr results
          else if strategy = ''fastest_k''
          then JArr (take (if minRequired > 0 then nat minRequired else length results) results)
          else JObj (ra_merge results))"

definition aggregateEndNodes :: "string list \<Rightarrow> (string, jsval) jsmap \<Rightarrow> string \<Rightarrow> jsval" where
  "aggregateEndNodes endNodeIds allResults strategy =
     ra_aggregate strategy (concat (map (\<lambda>i. case js_get allResults i of None \<Rightarrow> [] | Some v \<Rightarrow> [v]) endNodeIds)) 0"

section \<open>nop/portable-profile.ts: tasks\<close>

record attempt_outcome =
  ao_kind :: string
  ao_result :: "jsval option"
  ao_error_code :: "string option"
  ao_retryable :: bool

record onode =
  on_depends_on :: "string list"
  on_attempts :: "attempt_outcome list"
  on_condition :: "string option"
  on_input_mapping :: "(string \<times> string) list option"
  on_max_retries :: "int option"
  on_retry_on :: "string list option"
  on_preflight_available :: "bool option"
  on_compensate_action :: bool
  on_compensation_outcome :: "string option"

record otask =
  ot_nodes :: "(string \<times> onode) list"
  ot_preflight :: bool
  ot_max_retries :: "int option"
  ot_cancel_before :: "string option"
  ot_compensation_policy :: "string option"
  ot_aggregate :: "string option"

datatype oevent = TaskEv string | NodeEv string string | AttemptEv string nat

fun show_event :: "oevent \<Rightarrow> string" where
  "show_event (TaskEv s) = ''task:'' @ s"
| "show_event (NodeEv n s) = n @ '':'' @ s"
| "show_event (AttemptEv n k) = n @ '':attempt:'' @ js_nat_string k"

record orun =
  or_events :: "oevent list"
  or_results :: "(string, jsval) jsmap"
  or_states :: "(string, string) jsmap"
  or_attempts :: "(string, nat) jsmap"
  or_mapped :: "(string, jsobj) jsmap"

record oresult =
  os_events :: "oevent list"
  os_terminal_state :: string
  os_error_code :: "string option"
  os_aggregate :: jsval
  os_node_states :: "(string, string) jsmap"
  os_attempt_counts :: "(string, nat) jsmap"
  os_mapped_params :: "(string, jsobj) jsmap"
  os_compensation_order :: "string list"

definition result :: "orun \<Rightarrow> string \<Rightarrow> string option \<Rightarrow> jsval \<Rightarrow> string list \<Rightarrow> oresult" where
  "result r terminalState errorCode aggregate compensation =
     \<lparr>os_events = or_events r, os_terminal_state = terminalState, os_error_code = errorCode,
      os_aggregate = aggregate, os_node_states = or_states r, os_attempt_counts = or_attempts r,
      os_mapped_params = or_mapped r, os_compensation_order = compensation\<rparr>"

definition orun_empty :: orun where
  "orun_empty = \<lparr>or_events = [], or_results = [], or_states = [], or_attempts = [], or_mapped = []\<rparr>"

definition emptyFailure :: "string \<Rightarrow> oresult" where
  "emptyFailure e = result (orun_empty\<lparr>or_events := [TaskEv ''failed'']\<rparr>) ''failed'' (Some e) JNull []"

definition or_push :: "oevent list \<Rightarrow> orun \<Rightarrow> orun" where
  "or_push es r = r\<lparr>or_events := or_events r @ es\<rparr>"

section \<open>Attempts\<close>

text \<open>The retry loop of one node: the outcomes not yet tried, the number of attempts made (which is
  the loop index), the events and the last error. The result says how many attempts were made, what
  was pushed, the result of a success, the final error, and whether the node was marked failed.\<close>

fun attempt_loop :: "string \<Rightarrow> int \<Rightarrow> string list option \<Rightarrow> attempt_outcome list \<Rightarrow> nat \<Rightarrow> oevent list \<Rightarrow> string option
    \<Rightarrow> nat \<times> oevent list \<times> jsval option \<times> string option \<times> bool" where
  "attempt_loop nid maxRetries retryOn [] cnt evs err = (cnt, evs, None, err, False)"
| "attempt_loop nid maxRetries retryOn (outcome # rest) cnt evs err =
     (if \<not> int cnt \<le> maxRetries then (cnt, evs, None, err, False)
      else let cnt = cnt + 1; evs = evs @ [AttemptEv nid cnt] in
        if ao_kind outcome = ''success''
        then (cnt, evs @ [NodeEv nid ''completed''],
              Some (case ao_result outcome of None \<Rightarrow> JObj [] | Some v \<Rightarrow> v), err, False)
        else let finalError = (if ao_kind outcome = ''timeout'' then ''NOP-DELEGATE-TIMEOUT''
                               else case ao_error_code outcome of None \<Rightarrow> ''NOP-DELEGATE-REJECTED'' | Some e \<Rightarrow> e);
                 retryable = (ao_kind outcome = ''timeout'' \<or> ao_retryable outcome);
                 selected = (case retryOn of None \<Rightarrow> True | Some codes \<Rightarrow> finalError \<in> set codes) in
          if retryable \<and> selected \<and> int cnt \<le> maxRetries \<and> rest \<noteq> []
          then attempt_loop nid maxRetries retryOn rest cnt (evs @ [NodeEv nid ''retrying'']) (Some finalError)
          else (cnt, evs @ [NodeEv nid ''failed''], None, Some finalError, True))"

section \<open>Compensation\<close>

definition deps_of :: "(string \<times> onode) list \<Rightarrow> string \<Rightarrow> string list" where
  "deps_of nodes i = (case js_get nodes i of None \<Rightarrow> [] | Some n \<Rightarrow> on_depends_on n)"

text \<open>\<open>collect\<close> as a traversal with an explicit stack: the dependencies still to visit, and the set
  of ancestors found.\<close>

function collect :: "(string \<times> onode) list \<Rightarrow> string list \<Rightarrow> string list \<Rightarrow> string list" where
  "collect nodes [] anc = anc"
| "collect nodes (d # ds) anc =
     (if d \<in> set anc then collect nodes ds anc
      else collect nodes (deps_of nodes d @ ds) (anc @ [d]))"
  by pat_completeness auto
termination
proof (relation "measures [\<lambda>(nodes, ds, anc). card (set (map fst nodes) - set anc), \<lambda>(nodes, ds, anc). length ds]")
  fix nodes :: "(string \<times> onode) list" and d :: string and ds anc :: "string list"
  assume d: "d \<notin> set anc"
  let ?k = "set (map fst nodes)"
  show "((nodes, deps_of nodes d @ ds, anc @ [d]), nodes, d # ds, anc)
      \<in> measures [\<lambda>(nodes, ds, anc). card (set (map fst nodes) - set anc), \<lambda>(nodes, ds, anc). length ds]"
  proof (cases "d \<in> ?k")
    case True
    have "?k - set (anc @ [d]) \<subset> ?k - set anc" using True d by auto
    then have "card (?k - set (anc @ [d])) < card (?k - set anc)" by (intro psubset_card_mono) auto
    then show ?thesis by simp
  next
    case False
    then have "map_of nodes d = None" by (simp add: map_of_eq_None_iff)
    then have "deps_of nodes d = []" by (simp add: deps_of_def js_get_def)
    moreover have "?k - set (anc @ [d]) = ?k - set anc" using False by auto
    ultimately show ?thesis by simp
  qed
qed auto

definition can_compensate :: "(string \<times> onode) list \<Rightarrow> string \<Rightarrow> bool" where
  "can_compensate nodes i = (case js_get nodes i of None \<Rightarrow> False | Some n \<Rightarrow> on_compensate_action n)"

definition compensation_fails :: "(string \<times> onode) list \<Rightarrow> string \<Rightarrow> bool" where
  "compensation_fails nodes i = (case js_get nodes i of None \<Rightarrow> False
     | Some n \<Rightarrow> on_compensation_outcome n = Some ''failure'')"

fun compensate_loop :: "bool \<Rightarrow> (string \<times> onode) list \<Rightarrow> string list \<Rightarrow> string list \<Rightarrow> orun \<Rightarrow> string list \<times> string option \<times> orun" where
  "compensate_loop strict nodes [] order r = (order, None, r)"
| "compensate_loop strict nodes (i # is) order r =
     (if \<not> can_compensate nodes i then compensate_loop strict nodes is order r
      else let order = order @ [i]; r = or_push [NodeEv i ''compensating''] r in
        if compensation_fails nodes i
        then let r = or_push [NodeEv i ''compensation_failed''] (r\<lparr>or_states := js_set (or_states r) i ''compensation_failed''\<rparr>) in
          if strict then (order, Some ''NOP-COMPENSATION-FAILED'', r) else compensate_loop strict nodes is order r
        else compensate_loop strict nodes is order
               (or_push [NodeEv i ''compensated''] (r\<lparr>or_states := js_set (or_states r) i ''compensated''\<rparr>)))"

definition compensate :: "otask \<Rightarrow> string \<Rightarrow> string list \<Rightarrow> orun \<Rightarrow> string list \<times> string option \<times> orun" where
  "compensate task failedId topo r =
     (let policy = ot_compensation_policy task; nodes = ot_nodes task in
      if policy \<noteq> Some ''best_effort'' \<and> policy \<noteq> Some ''strict'' then ([], None, r)
      else let ancestors = collect nodes (deps_of nodes failedId) [];
               candidates = rev (filter (\<lambda>i. i \<in> set ancestors \<and> js_get (or_states r) i = Some ''completed'') topo) in
        if policy = Some ''strict'' \<and> list_ex (\<lambda>i. \<not> can_compensate nodes i) candidates
        then ([], Some ''NOP-COMPENSATION-NOT-SUPPORTED'', r)
        else compensate_loop (policy = Some ''strict'') nodes candidates [] r)"

section \<open>Aggregation and the run\<close>

definition merge_into :: "bool \<Rightarrow> jsobj \<Rightarrow> jsobj \<Rightarrow> jsobj" where
  "merge_into mergeAll output value = foldl (\<lambda>output (key, item).
     case (jo_get output key, item) of
       (Some (JArr xs), JArr ys) \<Rightarrow> if mergeAll then js_set output key (JArr (xs @ ys)) else js_set output key item
     | _ \<Rightarrow> js_set output key item) output value"

definition aggregateResults :: "otask \<Rightarrow> string list \<Rightarrow> orun \<Rightarrow> jsval" where
  "aggregateResults task topo r =
     (let hasOutgoing = concat (map (\<lambda>(i, n). on_depends_on n) (ot_nodes task));
          values = concat (map (\<lambda>i. if i \<notin> set hasOutgoing \<and> js_get (or_states r) i = Some ''completed''
                     then (case js_get (or_results r) i of None \<Rightarrow> [] | Some v \<Rightarrow> [v]) else []) topo) in
      if values = [] then JNull
      else if ot_aggregate task = Some ''all'' then JArr values
      else JObj (foldl (\<lambda>output value. case value of
             JObj kvs \<Rightarrow> merge_into (ot_aggregate task = Some ''merge_all'') output kvs | _ \<Rightarrow> output) [] values))"

text \<open>Resolving the input mapping of a node; \<open>None\<close>: some path throws or is missing.\<close>

fun map_params :: "(string \<times> string) list \<Rightarrow> (string, jsval) jsmap \<Rightarrow> jsobj \<Rightarrow> jsobj option" where
  "map_params [] results params = Some params"
| "map_params ((name, path) # ps) results params = (case resolvePath path results of
     Inr (Some v) \<Rightarrow> map_params ps results (js_set params name v) | _ \<Rightarrow> None)"

definition fail_node :: "string \<Rightarrow> string \<Rightarrow> orun \<Rightarrow> oresult" where
  "fail_node i e r = result (or_push [NodeEv i ''failed'', TaskEv ''failed'']
     (r\<lparr>or_states := js_set (or_states r) i ''failed'', or_attempts := js_set (or_attempts r) i 0\<rparr>))
     ''failed'' (Some e) JNull []"

definition max_retries_of :: "otask \<Rightarrow> onode \<Rightarrow> int" where
  "max_retries_of task n = (case on_max_retries n of Some m \<Rightarrow> m
     | None \<Rightarrow> (case ot_max_retries task of None \<Rightarrow> 0 | Some m \<Rightarrow> m))"

text \<open>The attempts of one node and what follows them: \<open>Inl\<close> the task's result, \<open>Inr\<close> the state to
  continue with.\<close>

definition run_attempts :: "otask \<Rightarrow> string list \<Rightarrow> string \<Rightarrow> onode \<Rightarrow> orun \<Rightarrow> oresult + orun" where
  "run_attempts task topo i node r =
     (let (cnt, evs, ok, err, marked) =
            attempt_loop i (max_retries_of task node) (on_retry_on node) (on_attempts node) 0 (or_events r) None;
          r1 = r\<lparr>or_events := evs, or_attempts := js_set (or_attempts r) i cnt\<rparr> in
      case ok of
        Some v \<Rightarrow> Inr (r1\<lparr>or_results := js_set (or_results r) i v, or_states := js_set (or_states r) i ''completed''\<rparr>)
      | None \<Rightarrow>
          let r2 = (if marked then r1\<lparr>or_states := js_set (or_states r) i ''failed''\<rparr> else r1);
              (order, cerr, r3) = compensate task i topo r2 in
          Inl (result (or_push [TaskEv ''failed''] r3) ''failed''
            (Some (case cerr of Some e \<Rightarrow> e | None \<Rightarrow> (case err of Some e \<Rightarrow> e | None \<Rightarrow> ''NOP-DELEGATE-REJECTED'')))
            JNull order))"

fun run_nodes :: "(string \<Rightarrow> (string, jsval) jsmap \<Rightarrow> bool option) \<Rightarrow> otask \<Rightarrow> string list \<Rightarrow> string list \<Rightarrow> orun \<Rightarrow> oresult + orun" where
  "run_nodes evalCond task topo [] r = Inr r"
| "run_nodes evalCond task topo (i # is) r =
     (case js_get (ot_nodes task) i of
        None \<Rightarrow> run_nodes evalCond task topo is r
      | Some node \<Rightarrow>
        if ot_cancel_before task = Some i
        then Inl (result (or_push [TaskEv ''cancelled''] r) ''cancelled'' (Some ''NOP-TASK-CANCELLED'') JNull [])
        else case (case on_condition node of None \<Rightarrow> Some True | Some c \<Rightarrow> evalCond c (or_results r)) of
          None \<Rightarrow> Inl (fail_node i ''NOP-CONDITION-EVAL-ERROR'' r)
        | Some False \<Rightarrow> run_nodes evalCond task topo is
            (or_push [NodeEv i ''skipped''] (r\<lparr>or_states := js_set (or_states r) i ''skipped'', or_attempts := js_set (or_attempts r) i 0\<rparr>))
        | Some True \<Rightarrow>
            (case (case on_input_mapping node of None \<Rightarrow> Some None
                   | Some mp \<Rightarrow> map_option Some (map_params mp (or_results r) [])) of
               None \<Rightarrow> Inl (fail_node i ''NOP-INPUT-MAPPING-ERROR'' r)
             | Some params \<Rightarrow>
                 let r' = (case params of None \<Rightarrow> r | Some ps \<Rightarrow> r\<lparr>or_mapped := js_set (or_mapped r) i ps\<rparr>) in
                 (case run_attempts task topo i node r' of
                    Inl res \<Rightarrow> Inl res
                  | Inr r'' \<Rightarrow> run_nodes evalCond task topo is r'')))"

definition evaluateOrchestration :: "(string \<Rightarrow> (string, jsval) jsmap \<Rightarrow> bool option) \<Rightarrow> otask \<Rightarrow> oresult" where
  "evaluateOrchestration evalCond task =
     (let ids = map fst (ot_nodes task) in
      if has_duplicate [] ids then emptyFailure ''NOP-TASK-DAG-INVALID''
      else case stableTopology (map (\<lambda>(i, n). (i, on_depends_on n)) (ot_nodes task)) of
        None \<Rightarrow> emptyFailure ''NOP-TASK-DAG-CYCLE''
      | Some topo \<Rightarrow>
          let r = (if ot_preflight task then or_push [TaskEv ''preflight''] orun_empty else orun_empty) in
          if ot_preflight task \<and> list_ex (\<lambda>i. case js_get (ot_nodes task) i of None \<Rightarrow> False
                | Some n \<Rightarrow> on_preflight_available n = Some False) topo
          then result (or_push [TaskEv ''failed''] r) ''failed'' (Some ''NOP-RESOURCE-INSUFFICIENT'') JNull []
          else case run_nodes evalCond task topo topo (or_push [TaskEv ''running''] r) of
            Inl res \<Rightarrow> res
          | Inr r \<Rightarrow> result (or_push [TaskEv ''completed''] r) ''completed'' None (aggregateResults task topo r) [])"

section \<open>Ancestors\<close>

definition dep_rel :: "(string \<times> onode) list \<Rightarrow> (string \<times> string) set" where
  "dep_rel nodes = {(a, b). a \<in> set (deps_of nodes b)}"

lemma collect_sound: "x \<in> set (collect nodes ds anc) \<Longrightarrow> x \<in> set anc \<or> (\<exists>d \<in> set ds. (x, d) \<in> (dep_rel nodes)\<^sup>*)"
proof (induction nodes ds anc rule: collect.induct)
  case (2 nodes d ds anc)
  show ?case
  proof (cases "d \<in> set anc")
    case True
    with 2 show ?thesis by auto
  next
    case False
    with 2 have "x \<in> set (anc @ [d]) \<or> (\<exists>e \<in> set (deps_of nodes d @ ds). (x, e) \<in> (dep_rel nodes)\<^sup>*)" by simp
    moreover have "e \<in> set (deps_of nodes d) \<Longrightarrow> (e, d) \<in> dep_rel nodes" for e by (simp add: dep_rel_def)
    ultimately show ?thesis by (auto intro: rtrancl.rtrancl_into_rtrancl)
  qed
qed simp

lemma collect_closed:
  assumes "\<forall>x \<in> set anc. set (deps_of nodes x) \<subseteq> set anc \<union> set ds"
  shows "set anc \<union> set ds \<subseteq> set (collect nodes ds anc) \<and>
    (\<forall>x \<in> set (collect nodes ds anc). set (deps_of nodes x) \<subseteq> set (collect nodes ds anc))"
  using assms
proof (induction nodes ds anc rule: collect.induct)
  case (2 nodes d ds anc)
  show ?case
  proof (cases "d \<in> set anc")
    case True
    have "\<forall>x \<in> set anc. set (deps_of nodes x) \<subseteq> set anc \<union> set ds" using 2(3) True by auto
    from 2(1) [OF True this] True show ?thesis by auto
  next
    case False
    have "\<forall>x \<in> set (anc @ [d]). set (deps_of nodes x) \<subseteq> set (anc @ [d]) \<union> set (deps_of nodes d @ ds)" using 2(3) by auto
    from 2(2) [OF False this] False show ?thesis by auto
  qed
qed simp

lemma collect_ancestors: "set (collect nodes (deps_of nodes i) []) = {x. (x, i) \<in> (dep_rel nodes)\<^sup>+}"
proof -
  let ?c = "set (collect nodes (deps_of nodes i) [])"
  have cl: "set (deps_of nodes i) \<subseteq> ?c" "\<forall>x \<in> ?c. set (deps_of nodes x) \<subseteq> ?c"
    using collect_closed [of "[]" nodes "deps_of nodes i"] by auto
  have "x \<in> ?c" if "(x, i) \<in> (dep_rel nodes)\<^sup>+" for x
    using that by (induction rule: converse_trancl_induct) (use cl in \<open>auto simp: dep_rel_def\<close>)
  moreover have "(x, i) \<in> (dep_rel nodes)\<^sup>+" if "x \<in> ?c" for x
    using collect_sound [OF that] by (auto simp: dep_rel_def intro: rtrancl_into_trancl1)
  ultimately show ?thesis by blast
qed

section \<open>Compensation\<close>

definition comp_state :: "(string \<times> onode) list \<Rightarrow> string \<Rightarrow> string" where
  "comp_state nodes i = (if compensation_fails nodes i then ''compensation_failed'' else ''compensated'')"

lemma or_push_simps [simp]:
  "or_states (or_push es r) = or_states r" "or_results (or_push es r) = or_results r"
  "or_attempts (or_push es r) = or_attempts r" "or_mapped (or_push es r) = or_mapped r" "or_events (or_push es r) = or_events r @ es"
  by (simp_all add: or_push_def)

lemma compensate_loop_spec:
  assumes "compensate_loop strict nodes is order r = (order', err, r')" "distinct is"
  shows "\<exists>dn. prefix dn (filter (can_compensate nodes) is) \<and> order' = order @ dn \<and>
    (err = None \<and> dn = filter (can_compensate nodes) is \<or>
     err = Some ''NOP-COMPENSATION-FAILED'' \<and> strict \<and> dn \<noteq> [] \<and> compensation_fails nodes (last dn)) \<and>
    (\<forall>i. js_get (or_states r') i = (if i \<in> set dn then Some (comp_state nodes i) else js_get (or_states r) i))"
  using assms
proof (induction "is" arbitrary: order r)
  case Nil
  then show ?case by simp
next
  case (Cons i "is")
  have d: "distinct is" "i \<notin> set is" using Cons.prems(2) by auto
  let ?r = "or_push [NodeEv i ''compensating''] r"
  show ?case
  proof (cases "can_compensate nodes i")
    case False
    with Cons.IH [OF _ d(1), of order r] Cons.prems(1) show ?thesis by simp
  next
    case can: True
    show ?thesis
    proof (cases "compensation_fails nodes i \<and> strict")
      case True
      with can Cons.prems(1) show ?thesis
        by (intro exI [of _ "[i]"]) (auto simp: js_get_set comp_state_def)
    next
      case False
      define r1 where "r1 = or_push [NodeEv i (comp_state nodes i)] (?r\<lparr>or_states := js_set (or_states ?r) i (comp_state nodes i)\<rparr>)"
      have l: "compensate_loop strict nodes is (order @ [i]) r1 = (order', err, r')"
        using False can Cons.prems(1) by (auto simp: r1_def comp_state_def split: if_splits)
      from Cons.IH [OF l d(1)] obtain dn where dn: "prefix dn (filter (can_compensate nodes) is)" "order' = (order @ [i]) @ dn"
        "err = None \<and> dn = filter (can_compensate nodes) is \<or>
           err = Some ''NOP-COMPENSATION-FAILED'' \<and> strict \<and> dn \<noteq> [] \<and> compensation_fails nodes (last dn)"
        "\<forall>j. js_get (or_states r') j = (if j \<in> set dn then Some (comp_state nodes j) else js_get (or_states r1) j)" by blast
      show ?thesis
        using dn can by (intro exI [of _ "i # dn"]) (auto simp: r1_def js_get_set)
    qed
  qed
qed

section \<open>Attempts and dependencies\<close>

lemma attempt_loop_spec:
  assumes "attempt_loop i mr ro os k evs err = (cnt, evs', ok, err', marked)"
  shows "\<exists>new. evs' = evs @ new \<and> k \<le> cnt \<and> cnt \<le> k + length os \<and> int cnt \<le> max (int k) (mr + 1) \<and>
    (ok \<noteq> None \<longrightarrow> NodeEv i ''completed'' \<in> set new) \<and>
    (\<forall>e \<in> set new. (\<exists>j. e = AttemptEv i j) \<or> (\<exists>s. e = NodeEv i s))"
  using assms
proof (induction os arbitrary: k evs err)
  case Nil
  then show ?case by simp
next
  case (Cons o1 os)
  define fe where "fe = (if ao_kind o1 = ''timeout'' then ''NOP-DELEGATE-TIMEOUT''
     else case ao_error_code o1 of None \<Rightarrow> ''NOP-DELEGATE-REJECTED'' | Some e \<Rightarrow> e)"
  let ?again = "(ao_kind o1 = ''timeout'' \<or> ao_retryable o1) \<and>
     (case ro of None \<Rightarrow> True | Some codes \<Rightarrow> fe \<in> set codes) \<and> int (k + 1) \<le> mr \<and> os \<noteq> []"
  let ?ev = "evs @ [AttemptEv i (k + 1)]"
  have eq: "attempt_loop i mr ro (o1 # os) k evs err =
     (if \<not> int k \<le> mr then (k, evs, None, err, False)
      else if ao_kind o1 = ''success'' then (k + 1, ?ev @ [NodeEv i ''completed''],
        Some (case ao_result o1 of None \<Rightarrow> JObj [] | Some v \<Rightarrow> v), err, False)
      else if ?again then attempt_loop i mr ro os (k + 1) (?ev @ [NodeEv i ''retrying'']) (Some fe)
      else (k + 1, ?ev @ [NodeEv i ''failed''], None, Some fe, True))"
    unfolding attempt_loop.simps Let_def fe_def by (simp only:)
  show ?case
  proof (cases "int k \<le> mr \<and> ao_kind o1 \<noteq> ''success'' \<and> ?again")
    case True
    then have "attempt_loop i mr ro os (k + 1) (?ev @ [NodeEv i ''retrying'']) (Some fe) = (cnt, evs', ok, err', marked)"
      using Cons.prems unfolding eq by simp
    from Cons.IH [OF this] obtain new where n: "evs' = (?ev @ [NodeEv i ''retrying'']) @ new" "k + 1 \<le> cnt"
      "cnt \<le> k + 1 + length os" "int cnt \<le> max (int (k + 1)) (mr + 1)"
      "ok \<noteq> None \<longrightarrow> NodeEv i ''completed'' \<in> set new"
      "\<forall>e \<in> set new. (\<exists>j. e = AttemptEv i j) \<or> (\<exists>s. e = NodeEv i s)" by blast
    then show ?thesis
      using True by (intro exI [of _ "[AttemptEv i (k + 1), NodeEv i ''retrying''] @ new"]) auto
  next
    case False
    then show ?thesis using Cons.prems unfolding eq by (auto split: if_splits)
  qed
qed

definition settled :: "oevent list \<Rightarrow> string \<Rightarrow> bool" where
  "settled evs d \<longleftrightarrow> NodeEv d ''completed'' \<in> set evs \<or> NodeEv d ''skipped'' \<in> set evs"

text \<open>Every attempt comes after each dependency of its node has completed or been skipped.\<close>

definition deps_first :: "(string \<times> onode) list \<Rightarrow> oevent list \<Rightarrow> bool" where
  "deps_first nodes evs \<longleftrightarrow> (\<forall>pre i k post. evs = pre @ AttemptEv i k # post \<longrightarrow> (\<forall>d \<in> set (deps_of nodes i). settled pre d))"

lemma settled_append: "settled evs d \<Longrightarrow> settled (evs @ new) d"
  by (auto simp: settled_def)

lemma deps_first_append:
  assumes "deps_first nodes evs" "\<forall>i k. AttemptEv i k \<in> set new \<longrightarrow> (\<forall>d \<in> set (deps_of nodes i). settled evs d)"
  shows "deps_first nodes (evs @ new)"
  unfolding deps_first_def
proof (intro allI impI)
  fix pre i k post
  assume e: "evs @ new = pre @ AttemptEv i k # post"
  show "\<forall>d \<in> set (deps_of nodes i). settled pre d"
  proof (cases "length pre < length evs")
    case True
    have "take (length pre) evs = pre" "drop (length pre) evs @ new = AttemptEv i k # post"
      using arg_cong [OF e, of "take (length pre)"] arg_cong [OF e, of "drop (length pre)"] True by simp_all
    moreover from True obtain x us where "drop (length pre) evs = x # us" by (cases "drop (length pre) evs") auto
    ultimately have "evs = pre @ AttemptEv i k # us" by (metis append_Cons append_take_drop_id list.inject)
    with assms(1) show ?thesis unfolding deps_first_def by blast
  next
    case False
    then obtain us where us: "pre = evs @ us" "new = us @ AttemptEv i k # post"
      using e by (auto simp: append_eq_append_conv2 append_eq_Cons_conv)
    then have "AttemptEv i k \<in> set new" by simp
    with assms(2) settled_append show ?thesis unfolding us(1) by blast
  qed
qed

text \<open>The number of attempts of a node is bounded by its retry budget.\<close>

definition attempts_ok :: "otask \<Rightarrow> (string, nat) jsmap \<Rightarrow> bool" where
  "attempts_ok task m \<longleftrightarrow> (\<forall>i c. js_get m i = Some c \<longrightarrow>
     (\<exists>n. js_get (ot_nodes task) i = Some n \<and> int c \<le> max 0 (max_retries_of task n + 1)))"

text \<open>The state of a run that has processed the nodes \<open>dn\<close>.\<close>

definition run_ok :: "otask \<Rightarrow> string list \<Rightarrow> orun \<Rightarrow> bool" where
  "run_ok task dn r \<longleftrightarrow> deps_first (ot_nodes task) (or_events r) \<and> attempts_ok task (or_attempts r) \<and>
     (\<forall>i \<in> set dn. settled (or_events r) i \<and>
        (js_get (or_states r) i = Some ''completed'' \<or> js_get (or_states r) i = Some ''skipped''))"

definition result_ok :: "otask \<Rightarrow> oresult \<Rightarrow> bool" where
  "result_ok task res \<longleftrightarrow> deps_first (ot_nodes task) (os_events res) \<and> attempts_ok task (os_attempt_counts res)"

lemma compensate_loop_events:
  "compensate_loop strict nodes is order r = (order', err, r') \<Longrightarrow>
     \<exists>new. or_events r' = or_events r @ new \<and> (\<forall>i k. AttemptEv i k \<notin> set new) \<and> or_attempts r' = or_attempts r"
proof (induction "is" arbitrary: order r)
  case (Cons i "is")
  let ?r = "or_push [NodeEv i ''compensating''] r"
  let ?r1 = "or_push [NodeEv i (comp_state nodes i)] (?r\<lparr>or_states := js_set (or_states ?r) i (comp_state nodes i)\<rparr>)"
  show ?case
  proof (cases "can_compensate nodes i")
    case False
    with Cons.IH [of order r] Cons.prems show ?thesis by simp
  next
    case can: True
    show ?thesis
    proof (cases "compensation_fails nodes i \<and> strict")
      case True
      with can Cons.prems show ?thesis by auto
    next
      case False
      then have "compensate_loop strict nodes is (order @ [i]) ?r1 = (order', err, r')"
        using can Cons.prems by (auto simp: comp_state_def split: if_splits)
      from Cons.IH [OF this] obtain new where "or_events r' = or_events ?r1 @ new" "\<forall>i k. AttemptEv i k \<notin> set new"
        "or_attempts r' = or_attempts ?r1" by blast
      then show ?thesis
        by (intro exI [of _ "[NodeEv i ''compensating'', NodeEv i (comp_state nodes i)] @ new"]) auto
    qed
  qed
qed simp

lemma compensate_events:
  "compensate task i topo r = (order, err, r') \<Longrightarrow>
     \<exists>new. or_events r' = or_events r @ new \<and> (\<forall>i k. AttemptEv i k \<notin> set new) \<and> or_attempts r' = or_attempts r"
  by (auto simp: compensate_def Let_def split: if_splits dest!: compensate_loop_events)

lemma attempts_ok_set:
  "attempts_ok task m \<Longrightarrow> js_get (ot_nodes task) i = Some n \<Longrightarrow> int c \<le> max 0 (max_retries_of task n + 1) \<Longrightarrow>
     attempts_ok task (js_set m i c)"
  by (auto simp: attempts_ok_def js_get_set)

lemma deps_first_quiet:
  "deps_first nodes evs \<Longrightarrow> \<forall>i k. AttemptEv i k \<notin> set new \<Longrightarrow> deps_first nodes (evs @ new)"
  by (rule deps_first_append) auto

lemma fail_node_ok:
  "run_ok task dn r \<Longrightarrow> js_get (ot_nodes task) i = Some n \<Longrightarrow>
     result_ok task (fail_node i e r) \<and> os_terminal_state (fail_node i e r) = ''failed''"
  by (auto simp: fail_node_def result_def result_ok_def run_ok_def intro!: deps_first_quiet attempts_ok_set)

lemma run_attempts_ok:
  assumes r: "run_ok task dn r" and n: "js_get (ot_nodes task) i = Some node"
    and i: "i \<notin> set dn" "set (deps_of (ot_nodes task) i) \<subseteq> set dn"
  shows "case run_attempts task topo i node r of
      Inl res \<Rightarrow> result_ok task res \<and> os_terminal_state res = ''failed''
    | Inr r' \<Rightarrow> run_ok task (dn @ [i]) r'"
proof -
  obtain cnt evs ok err marked where l: "attempt_loop i (max_retries_of task node) (on_retry_on node) (on_attempts node) 0 (or_events r) None
      = (cnt, evs, ok, err, marked)" by (metis prod_cases5)
  from attempt_loop_spec [OF this] obtain new where new: "evs = or_events r @ new" "int cnt \<le> max 0 (max_retries_of task node + 1)"
    "ok \<noteq> None \<longrightarrow> NodeEv i ''completed'' \<in> set new" "\<forall>e \<in> set new. (\<exists>j. e = AttemptEv i j) \<or> (\<exists>s. e = NodeEv i s)" by auto
  have df: "deps_first (ot_nodes task) evs"
    unfolding new(1) using r i(2) new(4) by (intro deps_first_append) (fastforce simp: run_ok_def)+
  have at: "attempts_ok task (js_set (or_attempts r) i cnt)"
    using r n new(2) by (auto simp: run_ok_def intro: attempts_ok_set)
  show ?thesis
  proof (cases ok)
    case (Some v)
    have "settled evs i" using new(1,3) Some by (simp add: settled_def)
    moreover have "settled evs d" if "d \<in> set dn" for d using r that new(1) by (simp add: run_ok_def settled_append)
    ultimately show ?thesis
      using r df at i(1) unfolding run_attempts_def l Some by (auto simp: Let_def run_ok_def js_get_set)
  next
    case None
    define r2 where "r2 = (let r1 = r\<lparr>or_events := evs, or_attempts := js_set (or_attempts r) i cnt\<rparr> in
      if marked then r1\<lparr>or_states := js_set (or_states r) i ''failed''\<rparr> else r1)"
    obtain order cerr r3 where c: "compensate task i topo r2 = (order, cerr, r3)" by (metis prod_cases3)
    from compensate_events [OF this] obtain cn where cn: "or_events r3 = evs @ cn" "\<forall>i k. AttemptEv i k \<notin> set cn"
      "or_attempts r3 = js_set (or_attempts r) i cnt" by (auto simp: r2_def Let_def split: if_splits)
    have "deps_first (ot_nodes task) (evs @ (cn @ [TaskEv ''failed'']))" by (rule deps_first_quiet [OF df]) (use cn(2) in auto)
    then show ?thesis
      using at cn(1,3) c unfolding run_attempts_def l None by (simp add: Let_def r2_def result_def result_ok_def)
  qed
qed

definition outcome_ok :: "otask \<Rightarrow> string list \<Rightarrow> oresult + orun \<Rightarrow> bool" where
  "outcome_ok task dn x = (case x of
      Inl res \<Rightarrow> result_ok task res \<and> os_terminal_state res \<noteq> ''completed''
    | Inr r \<Rightarrow> run_ok task dn r)"

lemma run_nodes_ok:
  assumes "run_ok task dn r" "distinct (dn @ is)"
    "\<forall>pre i post. is = pre @ i # post \<longrightarrow> set (deps_of (ot_nodes task) i) \<subseteq> set dn \<union> set pre"
    "\<forall>i \<in> set is. js_get (ot_nodes task) i \<noteq> None"
  shows "outcome_ok task (dn @ is) (run_nodes evalCond task topo is r)"
  using assms
proof (induction "is" arbitrary: dn r)
  case Nil
  then show ?case by (simp add: outcome_ok_def)
next
  case (Cons i "is")
  from Cons.prems(4) obtain node where n: "js_get (ot_nodes task) i = Some node" by auto
  have i: "i \<notin> set dn" "set (deps_of (ot_nodes task) i) \<subseteq> set dn"
    using Cons.prems(2) Cons.prems(3) [rule_format, of "[]" i "is"] by auto
  have rest: "\<forall>pre j post. is = pre @ j # post \<longrightarrow> set (deps_of (ot_nodes task) j) \<subseteq> set (dn @ [i]) \<union> set pre"
  proof (intro allI impI)
    fix pre j post
    assume "is = pre @ j # post"
    with Cons.prems(3) [rule_format, of "i # pre" j post] show "set (deps_of (ot_nodes task) j) \<subseteq> set (dn @ [i]) \<union> set pre" by auto
  qed
  let ?ok = "outcome_ok task (dn @ i # is)"
  have IH: "?ok (run_nodes evalCond task topo is r')" if "run_ok task (dn @ [i]) r'" for r'
    using Cons.IH [OF that _ rest] Cons.prems(2,4) by simp
  have go: "?ok (case run_attempts task topo i node r' of Inl res \<Rightarrow> Inl res | Inr r'' \<Rightarrow> run_nodes evalCond task topo is r'')"
    if "run_ok task dn r'" for r'
    using run_attempts_ok [OF that n i, of topo] IH by (cases "run_attempts task topo i node r'") (auto simp: outcome_ok_def)
  have skip: "run_ok task (dn @ [i]) (or_push [NodeEv i ''skipped'']
      (r\<lparr>or_states := js_set (or_states r) i ''skipped'', or_attempts := js_set (or_attempts r) i 0\<rparr>))"
    using Cons.prems(1) i(1) n
    by (auto simp: run_ok_def js_get_set settled_def intro!: deps_first_quiet attempts_ok_set)
  have cancel: "?ok (Inl (result (or_push [TaskEv ''cancelled''] r) ''cancelled'' e a c))" for e a c
    using Cons.prems(1) by (auto simp: outcome_ok_def run_ok_def result_ok_def result_def intro: deps_first_quiet)
  have failed: "?ok (Inl (fail_node i e r))" for e
    using fail_node_ok [OF Cons.prems(1) n] by (simp add: outcome_ok_def)
  have mapped: "run_ok task dn (r\<lparr>or_mapped := m\<rparr>)" for m using Cons.prems(1) by (simp add: run_ok_def)
  show ?case
    using n IH [OF skip] go [OF Cons.prems(1)] go [OF mapped] cancel failed
    by (simp add: Let_def split: option.split bool.split)
qed

section \<open>The order of a task\<close>

abbreviation dep_table :: "otask \<Rightarrow> (string \<times> string list) list" where
  "dep_table task \<equiv> map (\<lambda>(i, n). (i, on_depends_on n)) (ot_nodes task)"

lemma deps_of_table: "distinct (map fst (ot_nodes task)) \<Longrightarrow>
    d \<in> set (deps_of (ot_nodes task) i) \<longleftrightarrow> (\<exists>deps. (i, deps) \<in> set (dep_table task) \<and> d \<in> set deps)"
  by (force simp: deps_of_def js_get_def split: option.splits dest: map_of_SomeD)

lemma task_topology:
  assumes "distinct (map fst (ot_nodes task))" "stableTopology (dep_table task) = Some topo"
  shows "distinct topo" "set topo = fst ` set (ot_nodes task)"
    "k < length topo \<Longrightarrow> set (deps_of (ot_nodes task) (topo ! k)) \<subseteq> set (take k topo)"
proof -
  have ids: "map fst (dep_table task) = map fst (ot_nodes task)" by auto
  have d: "distinct (map fst (dep_table task))" unfolding ids by (rule assms(1))
  note st = stableTopology_Some [OF d assms(2)]
  show "distinct topo" by (rule st(1))
  show "set topo = fst ` set (ot_nodes task)" using st(2) arg_cong [OF ids, of set] by (simp only: set_map)
  show "set (deps_of (ot_nodes task) (topo ! k)) \<subseteq> set (take k topo)" if "k < length topo"
    using st(3) that deps_of_table [OF assms(1)] unfolding forward_def dep_edges_set by blast
qed

lemma topology_split:
  assumes "distinct (map fst (ot_nodes task))" "stableTopology (dep_table task) = Some topo" "topo = pre @ i # post"
  shows "set (deps_of (ot_nodes task) i) \<subseteq> set pre"
  using task_topology(3) [OF assms(1,2), of "length pre"] assms(3) by simp

text \<open>In the topological order no later node is a dependency of an earlier one.\<close>

lemma topology_sorted:
  assumes "distinct (map fst (ot_nodes task))" "stableTopology (dep_table task) = Some topo"
  shows "sorted_wrt (\<lambda>a b. b \<notin> set (deps_of (ot_nodes task) a)) topo"
proof -
  have "topo ! b \<notin> set (deps_of (ot_nodes task) (topo ! a))" if "a < b" "b < length topo" for a b
  proof
    assume "topo ! b \<in> set (deps_of (ot_nodes task) (topo ! a))"
    then have "topo ! b \<in> set (take a topo)" using task_topology(3) [OF assms, of a] that by auto
    then obtain c where "c < a" "topo ! c = topo ! b" using that by (auto simp: in_set_conv_nth)
    then show False using task_topology(1) [OF assms] that by (simp add: nth_eq_iff_index_eq)
  qed
  then show ?thesis by (simp add: sorted_wrt_iff_nth_less)
qed

lemma evaluateOrchestration_ok:
  "result_ok task (evaluateOrchestration evalCond task) \<and>
   (os_terminal_state (evaluateOrchestration evalCond task) = ''completed'' \<longrightarrow>
     (\<forall>i \<in> fst ` set (ot_nodes task). js_get (os_node_states (evaluateOrchestration evalCond task)) i \<in> {Some ''completed'', Some ''skipped''}))"
proof -
  have quiet: "result_ok task (result (or_push es orun_empty) t e a c)" if "\<forall>i k. AttemptEv i k \<notin> set es" for es t e a c
    using deps_first_quiet [of "ot_nodes task" "[]" es] that
    by (simp add: result_ok_def result_def orun_empty_def deps_first_def attempts_ok_def)
  have empty: "result_ok task (emptyFailure e)" "os_terminal_state (emptyFailure e) = ''failed''" for e
    using quiet [of "[TaskEv ''failed'']"] by (simp_all add: emptyFailure_def or_push_def orun_empty_def result_def)
  consider (dup) "has_duplicate [] (map fst (ot_nodes task))" | (cycle) "stableTopology (dep_table task) = None"
    | (topo) topo where "\<not> has_duplicate [] (map fst (ot_nodes task))" "stableTopology (dep_table task) = Some topo" by blast
  then show ?thesis
  proof cases
    case dup
    then show ?thesis using empty by (simp add: evaluateOrchestration_def)
  next
    case cycle
    then show ?thesis using empty by (simp add: evaluateOrchestration_def)
  next
    case topo
    have d: "distinct (map fst (ot_nodes task))" using topo(1) by (simp add: has_duplicate_iff)
    let ?pf = "if ot_preflight task then [TaskEv ''preflight''] else []"
    let ?r = "or_push (?pf @ [TaskEv ''running'']) orun_empty"
    have r0: "run_ok task [] ?r" using quiet [of "?pf @ [TaskEv ''running'']"] by (simp add: run_ok_def result_ok_def result_def)
    have "outcome_ok task ([] @ topo) (run_nodes evalCond task topo topo ?r)"
      using topology_split [OF d topo(2)] task_topology [OF d topo(2)]
      by (intro run_nodes_ok r0) (auto simp: js_get_def image_iff dest: weak_map_of_SomeI)
    then have oc: "outcome_ok task topo (run_nodes evalCond task topo topo ?r)" by simp
    have done_ok: "result_ok task (result (or_push [TaskEv ''completed''] r) t e a c)" if "run_ok task topo r" for r t e a c
      using that by (auto simp: run_ok_def result_ok_def result_def intro: deps_first_quiet)
    have start: "or_push [TaskEv ''running''] (if ot_preflight task then or_push [TaskEv ''preflight''] orun_empty else orun_empty) = ?r"
      "or_push [TaskEv ''failed''] (if ot_preflight task then or_push [TaskEv ''preflight''] orun_empty else orun_empty)
         = or_push (?pf @ [TaskEv ''failed'']) orun_empty"
      by (simp_all add: or_push_def orun_empty_def)
    show ?thesis
    proof (cases "ot_preflight task \<and> list_ex (\<lambda>i. case js_get (ot_nodes task) i of None \<Rightarrow> False
        | Some n \<Rightarrow> on_preflight_available n = Some False) topo")
      case True
      then show ?thesis using topo quiet [of "?pf @ [TaskEv ''failed'']"]
        by (simp add: evaluateOrchestration_def Let_def start) (simp add: result_def)
    next
      case False
      then have e: "evaluateOrchestration evalCond task = (case run_nodes evalCond task topo topo ?r of
          Inl res \<Rightarrow> res
        | Inr r \<Rightarrow> result (or_push [TaskEv ''completed''] r) ''completed'' None (aggregateResults task topo r) [])"
        using topo by (simp only: evaluateOrchestration_def Let_def start option.case if_False)
      show ?thesis
        using oc done_ok task_topology(2) [OF d topo(2)] unfolding e
        by (cases "run_nodes evalCond task topo topo ?r") (auto simp: outcome_ok_def result_def run_ok_def)
    qed
  qed
qed

section \<open>Properties\<close>

text \<open>C7: an orchestration runs its nodes in dependency order and within their budgets, whatever
  the condition evaluator answers: in the events of the result every attempt of a node comes after
  each of its dependencies has completed or been skipped; the recorded number of attempts of a node
  is at most one more than its retry limit (and zero for a negative limit); a task that ends
  \<open>completed\<close> leaves every node completed or skipped.\<close>

theorem orchestration_correct:
  "(\<forall>pre i k post d. os_events (evaluateOrchestration evalCond task) = pre @ AttemptEv i k # post \<longrightarrow>
      d \<in> set (deps_of (ot_nodes task) i) \<longrightarrow> NodeEv d ''completed'' \<in> set pre \<or> NodeEv d ''skipped'' \<in> set pre) \<and>
   (\<forall>i c. js_get (os_attempt_counts (evaluateOrchestration evalCond task)) i = Some c \<longrightarrow>
      (\<exists>n. js_get (ot_nodes task) i = Some n \<and> int c \<le> max 0 (max_retries_of task n + 1))) \<and>
   (os_terminal_state (evaluateOrchestration evalCond task) = ''completed'' \<longrightarrow>
      (\<forall>i \<in> fst ` set (ot_nodes task).
         js_get (os_node_states (evaluateOrchestration evalCond task)) i \<in> {Some ''completed'', Some ''skipped''}))"
proof (intro conjI)
  note ok = evaluateOrchestration_ok [of task evalCond]
  show "\<forall>pre i k post d. os_events (evaluateOrchestration evalCond task) = pre @ AttemptEv i k # post \<longrightarrow>
      d \<in> set (deps_of (ot_nodes task) i) \<longrightarrow> NodeEv d ''completed'' \<in> set pre \<or> NodeEv d ''skipped'' \<in> set pre"
    using conjunct1 [OF ok] unfolding result_ok_def deps_first_def settled_def by blast
  show "\<forall>i c. js_get (os_attempt_counts (evaluateOrchestration evalCond task)) i = Some c \<longrightarrow>
      (\<exists>n. js_get (ot_nodes task) i = Some n \<and> int c \<le> max 0 (max_retries_of task n + 1))"
    using conjunct1 [OF ok] unfolding result_ok_def attempts_ok_def by (rule conjunct2)
qed (rule conjunct2 [OF evaluateOrchestration_ok])

theorem orchestration_correct_witness:
  "let n = \<lparr>on_depends_on = [], on_attempts = [\<lparr>ao_kind = ''timeout'', ao_result = None, ao_error_code = None, ao_retryable = False\<rparr>,
             \<lparr>ao_kind = ''success'', ao_result = None, ao_error_code = None, ao_retryable = False\<rparr>],
             on_condition = None, on_input_mapping = None, on_max_retries = None, on_retry_on = None,
             on_preflight_available = None, on_compensate_action = False, on_compensation_outcome = None\<rparr>;
       task = \<lparr>ot_nodes = [(''b'', n\<lparr>on_depends_on := [''a'']\<rparr>), (''a'', n)], ot_preflight = False, ot_max_retries = Some 1,
             ot_cancel_before = None, ot_compensation_policy = None, ot_aggregate = None\<rparr>;
       res = evaluateOrchestration (\<lambda>_ _. None) task
   in os_events res = [TaskEv ''running'', AttemptEv ''a'' 1, NodeEv ''a'' ''retrying'', AttemptEv ''a'' 2, NodeEv ''a'' ''completed'',
        AttemptEv ''b'' 1, NodeEv ''b'' ''retrying'', AttemptEv ''b'' 2, NodeEv ''b'' ''completed'', TaskEv ''completed''] \<and>
      js_get (os_node_states res) ''b'' \<in> {Some ''completed'', Some ''skipped''}"
proof -
  let ?n = "\<lparr>on_depends_on = [], on_attempts = [\<lparr>ao_kind = ''timeout'', ao_result = None, ao_error_code = None, ao_retryable = False\<rparr>,
      \<lparr>ao_kind = ''success'', ao_result = None, ao_error_code = None, ao_retryable = False\<rparr>],
      on_condition = None, on_input_mapping = None, on_max_retries = None, on_retry_on = None,
      on_preflight_available = None, on_compensate_action = False, on_compensation_outcome = None\<rparr>"
  let ?task = "\<lparr>ot_nodes = [(''b'', ?n\<lparr>on_depends_on := [''a'']\<rparr>), (''a'', ?n)], ot_preflight = False, ot_max_retries = Some 1,
      ot_cancel_before = None, ot_compensation_policy = None, ot_aggregate = None\<rparr>"
  let ?res = "evaluateOrchestration (\<lambda>_ _. None) ?task"
  have t: "stableTopology (dep_table ?task) = Some [''a'', ''b'']"
    by (simp add: stableTopology_def dep_edges_def build_graph_def add_edge_def successors_def js_get_def js_set_def roots_of_def
        less_char_def less_eq_char_def list_le_def list_less_def)
  have e: "os_events ?res = [TaskEv ''running'', AttemptEv ''a'' 1, NodeEv ''a'' ''retrying'', AttemptEv ''a'' 2, NodeEv ''a'' ''completed'',
        AttemptEv ''b'' 1, NodeEv ''b'' ''retrying'', AttemptEv ''b'' 2, NodeEv ''b'' ''completed'', TaskEv ''completed'']"
    "os_terminal_state ?res = ''completed''"
    using t by (simp_all add: evaluateOrchestration_def run_attempts_def max_retries_of_def js_get_def js_set_def result_def or_push_def orun_empty_def)
  from orchestration_correct [of "\<lambda>_ _. None" ?task] e(2) have "js_get (os_node_states ?res) ''b'' \<in> {Some ''completed'', Some ''skipped''}" by simp
  with e(1) show ?thesis by (simp only: Let_def simp_thms)
qed

text \<open>Compensation after the failure of a node, on the topological order of the task. Without a
  compensation policy nothing happens. Under \<open>strict\<close> nothing is compensated when a completed
  ancestor has no action. Otherwise the compensated nodes are a prefix of the completed ancestors of
  the failed node that have an action, in reverse topological order, and all of them unless a
  \<open>strict\<close> compensation failed at the last; their states record the outcome, every other state is
  unchanged; and no node is compensated before a node that depends on it.\<close>

theorem compensation_correct:
  assumes ids: "distinct (map fst (ot_nodes task))" and topo: "stableTopology (dep_table task) = Some topo"
    and c: "compensate task failed topo r = (order, err, r')"
  defines "cands \<equiv> rev (filter (\<lambda>i. (i, failed) \<in> (dep_rel (ot_nodes task))\<^sup>+ \<and> js_get (or_states r) i = Some ''completed'') topo)"
  shows "sorted_wrt (\<lambda>a b. a \<notin> set (deps_of (ot_nodes task) b)) order \<and>
    (\<forall>i. js_get (or_states r') i = (if i \<in> set order then Some (comp_state (ot_nodes task) i) else js_get (or_states r) i)) \<and>
    (if ot_compensation_policy task \<notin> {Some ''best_effort'', Some ''strict''} then order = [] \<and> err = None
     else if ot_compensation_policy task = Some ''strict'' \<and> \<not> set cands \<subseteq> {i. can_compensate (ot_nodes task) i}
     then order = [] \<and> err = Some ''NOP-COMPENSATION-NOT-SUPPORTED''
     else prefix order (filter (can_compensate (ot_nodes task)) cands) \<and>
       (err = None \<and> order = filter (can_compensate (ot_nodes task)) cands \<or>
        err = Some ''NOP-COMPENSATION-FAILED'' \<and> ot_compensation_policy task = Some ''strict'' \<and> order \<noteq> [] \<and>
        compensation_fails (ot_nodes task) (last order)))"
proof -
  let ?n = "ot_nodes task" and ?p = "ot_compensation_policy task"
  have cands: "cands = rev (filter (\<lambda>i. i \<in> set (collect ?n (deps_of ?n failed) []) \<and> js_get (or_states r) i = Some ''completed'') topo)"
    by (simp add: cands_def collect_ancestors)
  have cd: "compensate task failed topo r = (if ?p \<noteq> Some ''best_effort'' \<and> ?p \<noteq> Some ''strict'' then ([], None, r)
      else if ?p = Some ''strict'' \<and> list_ex (\<lambda>i. \<not> can_compensate ?n i) cands then ([], Some ''NOP-COMPENSATION-NOT-SUPPORTED'', r)
      else compensate_loop (?p = Some ''strict'') ?n cands [] r)"
    by (simp only: compensate_def Let_def cands)
  have dist: "distinct cands" using task_topology(1) [OF ids topo] by (simp add: cands)
  have srt: "sorted_wrt (\<lambda>a b. a \<notin> set (deps_of ?n b)) cands"
    using topology_sorted [OF ids topo] unfolding cands sorted_wrt_rev by (rule sorted_wrt_filter)
  consider (off) "?p \<notin> {Some ''best_effort'', Some ''strict''}"
    | (unsupported) "?p = Some ''strict''" "\<not> set cands \<subseteq> {i. can_compensate ?n i}"
    | (loop) "?p \<in> {Some ''best_effort'', Some ''strict''}" "?p = Some ''strict'' \<longrightarrow> set cands \<subseteq> {i. can_compensate ?n i}" by blast
  then show ?thesis
  proof cases
    case off
    then have "order = []" "err = None" "r' = r" using c by (auto simp: compensate_def Let_def)
    with off show ?thesis by simp
  next
    case unsupported
    then have ex: "list_ex (\<lambda>i. \<not> can_compensate ?n i) cands" by (auto simp: list_ex_iff)
    then have "order = []" "err = Some ''NOP-COMPENSATION-NOT-SUPPORTED''" "r' = r"
      using c ex unsupported(1) unfolding cd by simp_all
    with unsupported show ?thesis by simp
  next
    case loop
    then have "\<not> (?p = Some ''strict'' \<and> list_ex (\<lambda>i. \<not> can_compensate ?n i) cands)" by (auto simp: list_ex_iff)
    then have "compensate_loop (?p = Some ''strict'') ?n cands [] r = (order, err, r')"
      using c loop(1) unfolding cd by (auto split: if_splits)
    from compensate_loop_spec [OF this dist] have l: "prefix order (filter (can_compensate ?n) cands)"
      "err = None \<and> order = filter (can_compensate ?n) cands \<or>
       err = Some ''NOP-COMPENSATION-FAILED'' \<and> ?p = Some ''strict'' \<and> order \<noteq> [] \<and> compensation_fails ?n (last order)"
      "\<forall>i. js_get (or_states r') i = (if i \<in> set order then Some (comp_state ?n i) else js_get (or_states r) i)" by auto
    moreover have "sorted_wrt (\<lambda>a b. a \<notin> set (deps_of ?n b)) order"
      using sorted_wrt_filter [OF srt, of "can_compensate ?n"] l(1) by (auto simp: prefix_def sorted_wrt_append)
    moreover have "\<not> (?p = Some ''strict'' \<and> \<not> set cands \<subseteq> {i. can_compensate ?n i})" using loop(2) by blast
    ultimately show ?thesis using loop(1) by (simp only: simp_thms if_False not_True_eq_False)
  qed
qed

theorem compensation_correct_witness:
  "let n = \<lparr>on_depends_on = [], on_attempts = [], on_condition = None, on_input_mapping = None, on_max_retries = None, on_retry_on = None,
             on_preflight_available = None, on_compensate_action = True, on_compensation_outcome = None\<rparr>;
       task = \<lparr>ot_nodes = [(''a'', n), (''b'', n\<lparr>on_depends_on := [''a'']\<rparr>), (''c'', n\<lparr>on_depends_on := [''b'']\<rparr>)], ot_preflight = False,
             ot_max_retries = None, ot_cancel_before = None, ot_compensation_policy = Some ''strict'', ot_aggregate = None\<rparr>;
       (order, err, r') = compensate task ''c'' [''a'', ''b'', ''c''] (orun_empty\<lparr>or_states := [(''a'', ''completed''), (''b'', ''completed'')]\<rparr>)
   in order = [''b'', ''a''] \<and> err = None \<and> js_get (or_states r') ''a'' = Some ''compensated''"
proof -
  let ?n = "\<lparr>on_depends_on = [], on_attempts = [], on_condition = None, on_input_mapping = None, on_max_retries = None, on_retry_on = None,
      on_preflight_available = None, on_compensate_action = True, on_compensation_outcome = None\<rparr>"
  let ?task = "\<lparr>ot_nodes = [(''a'', ?n), (''b'', ?n\<lparr>on_depends_on := [''a'']\<rparr>), (''c'', ?n\<lparr>on_depends_on := [''b'']\<rparr>)], ot_preflight = False,
      ot_max_retries = None, ot_cancel_before = None, ot_compensation_policy = Some ''strict'', ot_aggregate = None\<rparr>"
  let ?r = "orun_empty\<lparr>or_states := [(''a'', ''completed''), (''b'', ''completed'')]\<rparr>"
  have t: "stableTopology (dep_table ?task) = Some [''a'', ''b'', ''c'']"
    by (simp add: stableTopology_def dep_edges_def build_graph_def add_edge_def successors_def js_get_def js_set_def roots_of_def
        less_char_def less_eq_char_def list_le_def list_less_def)
  obtain order err r' where c: "compensate ?task ''c'' [''a'', ''b'', ''c''] ?r = (order, err, r')" by (metis prod_cases3)
  then have o: "order = [''b'', ''a'']" "err = None"
    by (auto simp: compensate_def Let_def deps_of_def js_get_def can_compensate_def compensation_fails_def orun_empty_def)
  have d: "distinct (map fst (ot_nodes ?task))" by simp
  from compensation_correct [OF d t c] have "js_get (or_states r') ''a'' = Some (comp_state (ot_nodes ?task) ''a'')" using o by simp
  then have "js_get (or_states r') ''a'' = Some ''compensated''" by (simp add: comp_state_def compensation_fails_def js_get_def)
  with c o show ?thesis by (simp only: Let_def prod.case simp_thms)
qed

end
