(* ===== verification/NopPolicy.thy ===== *)
theory NopPolicy
  imports Prelude Contracts
begin

text \<open>
  The runtime policies of \<open>nop/portable-profile.ts\<close>: task leases, delegation to clusters, the
  spawn specification and the lifecycle decision.

  Times, durations, budgets and epochs are integers. A number the source reads with \<open>Number\<close>
  from a member that may be missing is an option: \<open>None\<close> is \<open>NaN\<close>, for which every comparison
  of the source is false.
\<close>

section \<open>evaluateLease\<close>

record lease =
  l_runnerNid :: string
  l_expiresAt :: int

datatype lease_event =
    LClaim int string string int
  | LRenew int string string int
  | LMarkTerminal string string
  | LIsTerminal string string
  | LUnknown string

record lease_state =
  ls_leases :: "(string, lease) jsmap"
  ls_terminal :: "string list"
  ls_outcomes :: "string list"

definition lease_init :: lease_state where
  "lease_init = \<lparr>ls_leases = [], ls_terminal = [], ls_outcomes = []\<rparr>"

definition terminalKey :: "string \<Rightarrow> string \<Rightarrow> string" where
  "terminalKey dedup nid = dedup @ [CHR 0x00] @ nid"

definition lease_seconds :: "int \<Rightarrow> int" where
  "lease_seconds s = min 600 (max 10 s)"

definition ls_push :: "string \<Rightarrow> lease_state \<Rightarrow> lease_state" where
  "ls_push o' s = s\<lparr>ls_outcomes := ls_outcomes s @ [o']\<rparr>"

definition ls_grant :: "int \<Rightarrow> string \<Rightarrow> string \<Rightarrow> int \<Rightarrow> lease_state \<Rightarrow> lease_state" where
  "ls_grant now task runner seconds s =
     s\<lparr>ls_leases := js_set (ls_leases s) task \<lparr>l_runnerNid = runner, l_expiresAt = now + seconds\<rparr>\<rparr>"

fun lease_step :: "lease_state \<Rightarrow> lease_event \<Rightarrow> lease_state" where
  "lease_step s (LClaim now task runner secs) =
     (case js_get (ls_leases s) task of
        None \<Rightarrow> ls_push ''granted'' (ls_grant now task runner (lease_seconds secs) s)
      | Some l \<Rightarrow>
          if l_expiresAt l > now
          then if l_runnerNid l = runner then ls_push ''granted'' (ls_grant now task runner (lease_seconds secs) s)
               else ls_push ''conflict'' s
          else ls_push ''reclaimed'' (ls_grant now task runner (lease_seconds secs) s))"
| "lease_step s (LRenew now task runner secs) =
     (case js_get (ls_leases s) task of
        None \<Rightarrow> ls_push ''conflict'' s
      | Some l \<Rightarrow>
          if l_expiresAt l > now \<and> l_runnerNid l = runner
          then ls_push ''granted'' (ls_grant now task runner (lease_seconds secs) s)
          else ls_push ''conflict'' s)"
| "lease_step s (LMarkTerminal dedup nid) =
     ls_push ''recorded'' (s\<lparr>ls_terminal := List.insert (terminalKey dedup nid) (ls_terminal s)\<rparr>)"
| "lease_step s (LIsTerminal dedup nid) =
     ls_push (if terminalKey dedup nid \<in> set (ls_terminal s) then ''terminal'' else ''pending'') s"
| "lease_step s (LUnknown op) = s"

definition evaluateLease :: "lease_event list \<Rightarrow> string list" where
  "evaluateLease es = ls_outcomes (run lease_step lease_init es)"

section \<open>evaluateDelegation\<close>

record scope =
  sc_nodes :: "string list"
  sc_actions :: "string list"
  sc_max_token_budget :: "int option"

record dcandidate =
  dc_nid :: string
  dc_live :: bool
  dc_cluster_epoch :: "int option"

definition subset :: "string list \<Rightarrow> string list \<Rightarrow> bool" where
  "subset values allowed = list_all (\<lambda>v. v \<in> set allowed) values"

definition num_gt :: "int option \<Rightarrow> int option \<Rightarrow> bool" where
  "num_gt a b = (case (a, b) of (Some x, Some y) \<Rightarrow> x > y | _ \<Rightarrow> False)"

text \<open>\<open>Math.max\<close> of a nonempty list: \<open>NaN\<close> when some element is.\<close>

fun num_max :: "int option list \<Rightarrow> int option" where
  "num_max [] = None"
| "num_max [x] = x"
| "num_max (x # y # xs) = (case (x, num_max (y # xs)) of (Some a, Some b) \<Rightarrow> Some (max a b) | _ \<Rightarrow> None)"

definition delegation_leaders :: "dcandidate list \<Rightarrow> dcandidate list" where
  "delegation_leaders live =
     (let highest = num_max (map dc_cluster_epoch live) in
      filter (\<lambda>c. highest \<noteq> None \<and> dc_cluster_epoch c = highest) live)"

fun delegate_loop :: "dcandidate list list \<Rightarrow> string list \<Rightarrow> string list \<times> string option" where
  "delegate_loop [] targets = (targets, None)"
| "delegate_loop (candidates # rest) targets =
     (let live = filter dc_live candidates in
      if live = [] then (targets, Some ''NOP-DELEGATE-REJECTED'')
      else let leaders = delegation_leaders live in
        if length leaders \<noteq> 1 then (targets, Some ''NDP-CLUSTER-SPLIT'')
        else delegate_loop rest (targets @ [dc_nid (hd leaders)]))"

definition evaluateDelegation :: "scope \<Rightarrow> scope \<Rightarrow> dcandidate list list \<Rightarrow> string list \<times> string option" where
  "evaluateDelegation parent delegated attempts =
     (if \<not> subset (sc_nodes delegated) (sc_nodes parent) \<or> \<not> subset (sc_actions delegated) (sc_actions parent)
         \<or> num_gt (sc_max_token_budget delegated) (sc_max_token_budget parent)
      then ([], Some ''NOP-DELEGATE-SCOPE-VIOLATION'')
      else delegate_loop attempts [])"

section \<open>evaluateSpawnSpec, evaluateLifecycle\<close>

record spawn_spec =
  sp_image :: "string option"
  sp_idle_timeout_seconds :: "int option"
  sp_max_runtime_seconds :: "int option"

definition evaluateSpawnSpec :: "spawn_spec \<Rightarrow> string option" where
  "evaluateSpawnSpec spec =
     (let valid = (case sp_image spec of None \<Rightarrow> False | Some i \<Rightarrow> js_trim i \<noteq> []) in
      if valid \<and> \<not> num_gt (sp_idle_timeout_seconds spec) (sp_max_runtime_seconds spec) then None
      else Some ''NOP-SPAWN-SPEC-INVALID'')"

definition evaluateLifecycle :: "int \<Rightarrow> int \<Rightarrow> int \<Rightarrow> int \<Rightarrow> string option \<Rightarrow> string \<times> string option" where
  "evaluateLifecycle elapsed maxRuntime idle idleTimeout workerTerminal =
     (if elapsed \<ge> maxRuntime then (''failed'', Some ''NOP-RUNTIME-MAX-RUNTIME'')
      else if idle \<ge> idleTimeout then (''failed'', Some ''NOP-RUNTIME-IDLE-TIMEOUT'')
      else if workerTerminal = Some ''done'' then (''completed'', None)
      else (''failed'', Some ''NOP-DELEGATE-REJECTED''))"

section \<open>Leases\<close>

text \<open>Events that leave a lease alone: claims of its task by another runner before it expires, renewals
  by another runner, and everything about other tasks.\<close>

fun foreign_event :: "string \<Rightarrow> lease \<Rightarrow> lease_event \<Rightarrow> bool" where
  "foreign_event t l (LClaim now task runner secs) = (task = t \<longrightarrow> runner \<noteq> l_runnerNid l \<and> now < l_expiresAt l)"
| "foreign_event t l (LRenew now task runner secs) = (task = t \<longrightarrow> runner \<noteq> l_runnerNid l)"
| "foreign_event t l _ = True"

lemma ls_simps [simp]:
  "ls_leases (ls_push o' s) = ls_leases s" "ls_terminal (ls_push o' s) = ls_terminal s"
  "ls_outcomes (ls_push o' s) = ls_outcomes s @ [o']"
  "ls_leases (ls_grant now task runner secs s) = js_set (ls_leases s) task \<lparr>l_runnerNid = runner, l_expiresAt = now + secs\<rparr>"
  "ls_terminal (ls_grant now task runner secs s) = ls_terminal s"
  by (simp_all add: ls_push_def ls_grant_def)

lemma foreign_step: "js_get (ls_leases s) t = Some l \<Longrightarrow> foreign_event t l e \<Longrightarrow> js_get (ls_leases (lease_step s e)) t = Some l"
  by (cases e) (auto simp: js_get_set split: option.splits)

lemma foreign_run:
  "js_get (ls_leases s) t = Some l \<Longrightarrow> \<forall>e \<in> set es. foreign_event t l e \<Longrightarrow> js_get (ls_leases (run lease_step s es)) t = Some l"
  by (induction es arbitrary: s) (auto simp: foreign_step)

lemma lease_seconds_bounds: "10 \<le> lease_seconds s" "lease_seconds s \<le> 600"
  by (simp_all add: lease_seconds_def)

text \<open>A task lease is exclusive. After any events that do not come from its holder and, as far as
  they claim the task, come before it expires, the lease is what it was; a further claim by another
  runner before the expiry is answered \<open>conflict\<close> and changes nothing, and the first claim at or after
  the expiry is answered \<open>reclaimed\<close> and sets a lease of 10 to 600 seconds for the claimant.\<close>

theorem lease_exclusive:
  assumes "js_get (ls_leases s) t = Some l" "\<forall>e \<in> set es. foreign_event t l e" "runner \<noteq> l_runnerNid l"
  shows "let s' = run lease_step s es; s'' = lease_step s' (LClaim now t runner secs) in
    js_get (ls_leases s') t = Some l \<and>
    (if now < l_expiresAt l then ls_leases s'' = ls_leases s' \<and> ls_outcomes s'' = ls_outcomes s' @ [''conflict'']
     else ls_outcomes s'' = ls_outcomes s' @ [''reclaimed''] \<and>
       (\<exists>e. js_get (ls_leases s'') t = Some \<lparr>l_runnerNid = runner, l_expiresAt = e\<rparr> \<and> now + 10 \<le> e \<and> e \<le> now + 600))"
  using foreign_run [OF assms(1,2)] assms(3) lease_seconds_bounds [of secs]
  by (simp add: Let_def js_get_set ls_grant_def)

theorem lease_exclusive_witness:
  "let s = run lease_step lease_init [LClaim 100 ''t'' ''r1'' 60, LClaim 120 ''t'' ''r2'' 60] in
    ls_outcomes (lease_step s (LClaim 159 ''t'' ''r2'' 60)) = [''granted'', ''conflict'', ''conflict''] \<and>
    ls_outcomes (lease_step s (LClaim 160 ''t'' ''r2'' 60)) = [''granted'', ''conflict'', ''reclaimed'']"
proof -
  let ?s = "lease_step lease_init (LClaim 100 ''t'' ''r1'' 60)"
  let ?l = "\<lparr>l_runnerNid = ''r1'', l_expiresAt = 160\<rparr>"
  have l: "js_get (ls_leases ?s) ''t'' = Some ?l" by (simp add: lease_init_def lease_seconds_def js_get_set)
  have f: "\<forall>e \<in> set [LClaim 120 ''t'' ''r2'' 60]. foreign_event ''t'' ?l e" by simp
  have o: "ls_outcomes (run lease_step lease_init [LClaim 100 ''t'' ''r1'' 60, LClaim 120 ''t'' ''r2'' 60]) = [''granted'', ''conflict'']"
    by (simp add: lease_init_def lease_seconds_def js_get_set ls_grant_def)
  show ?thesis
    using lease_exclusive [OF l f, of "''r2''" 159 60] lease_exclusive [OF l f, of "''r2''" 160 60] o by (simp add: Let_def)
qed

section \<open>Terminal nodes\<close>

interpretation terminal_marks: final_machine lease_step "\<lambda>s. True" "\<lambda>s k. if k \<in> set (ls_terminal s) then Some () else None"
proof
  fix s :: lease_state and k x e
  assume "(if k \<in> set (ls_terminal s) then Some () else None) = Some x"
  then have "k \<in> set (ls_terminal (lease_step s e))"
    by (cases e) (auto split: option.splits if_splits)
  then show "(if k \<in> set (ls_terminal (lease_step s e)) then Some () else None) = Some x" by simp
qed simp

lemma terminal_run_back:
  "k \<in> set (ls_terminal (run lease_step s es)) \<Longrightarrow> k \<in> set (ls_terminal s) \<or> (\<exists>d n. LMarkTerminal d n \<in> set es \<and> terminalKey d n = k)"
proof (induction es arbitrary: s)
  case (Cons e es)
  then have "k \<in> set (ls_terminal (lease_step s e)) \<or> (\<exists>d n. LMarkTerminal d n \<in> set es \<and> terminalKey d n = k)" by simp
  then show ?case by (cases e) (auto split: option.splits if_splits)
qed simp

lemma terminal_marked:
  assumes "LMarkTerminal d n \<in> set es"
  shows "terminalKey d n \<in> set (ls_terminal (run lease_step s es))"
proof -
  from assms obtain pre post where es: "es = pre @ LMarkTerminal d n # post" by (meson split_list)
  let ?s = "lease_step (run lease_step s pre) (LMarkTerminal d n)"
  have "(if terminalKey d n \<in> set (ls_terminal ?s) then Some () else None) = Some ()" by simp
  from terminal_marks.run_outcome [OF _ this, of post] show ?thesis unfolding es by (simp split: if_splits)
qed

lemma terminalKey_inject:
  "CHR 0x00 \<notin> set d \<Longrightarrow> CHR 0x00 \<notin> set d' \<Longrightarrow> terminalKey d n = terminalKey d' n' \<longleftrightarrow> d = d' \<and> n = n'"
proof (induction d arbitrary: d')
  case Nil
  then show ?case by (cases d') (auto simp: terminalKey_def)
next
  case (Cons c d)
  then show ?case by (cases d') (auto simp: terminalKey_def)
qed

text \<open>Deduplication of terminal nodes: a query is answered \<open>terminal\<close> exactly when the same node of
  the same task was marked before, at any earlier position, provided no deduplication key contains
  a NUL character (it is a hexadecimal digest).\<close>

theorem terminal_exact:
  assumes "CHR 0x00 \<notin> set d" "\<And>d' n'. LMarkTerminal d' n' \<in> set es \<Longrightarrow> CHR 0x00 \<notin> set d'"
  shows "evaluateLease (es @ [LIsTerminal d n]) = evaluateLease es @ [if LMarkTerminal d n \<in> set es then ''terminal'' else ''pending'']"
proof -
  have "terminalKey d n \<in> set (ls_terminal (run lease_step lease_init es)) \<longleftrightarrow> LMarkTerminal d n \<in> set es"
    using terminal_run_back [of "terminalKey d n" lease_init es] terminal_marked [of d n es lease_init] terminalKey_inject assms
    by (auto simp: lease_init_def)
  then show ?thesis by (simp add: evaluateLease_def)
qed

theorem terminal_exact_witness:
  "evaluateLease [LMarkTerminal ''ab'' ''n1'', LClaim 0 ''t'' ''r'' 5, LIsTerminal ''ab'' ''n1''] = [''recorded'', ''granted'', ''terminal'']"
proof -
  have o: "evaluateLease [LMarkTerminal ''ab'' ''n1'', LClaim 0 ''t'' ''r'' 5] = [''recorded'', ''granted'']"
    by (simp add: evaluateLease_def lease_init_def ls_grant_def ls_push_def)
  show ?thesis
    using terminal_exact [of "''ab''" "[LMarkTerminal ''ab'' ''n1'', LClaim 0 ''t'' ''r'' 5]" "''n1''"] o by auto
qed

section \<open>Delegation\<close>

lemma num_max_spec:
  "xs \<noteq> [] \<Longrightarrow> (num_max xs = None \<longleftrightarrow> None \<in> set xs) \<and> (\<forall>m. num_max xs = Some m \<longrightarrow> Some m \<in> set xs \<and> (\<forall>x. Some x \<in> set xs \<longrightarrow> x \<le> m))"
proof (induction xs rule: num_max.induct)
  case (3 x y xs)
  then show ?case by (cases x; cases "num_max (y # xs)") (auto simp: max_def)
qed auto

text \<open>The candidate a delegation attempt goes to: the only live one of the highest epoch.\<close>

definition sole_leader :: "dcandidate list \<Rightarrow> dcandidate \<Rightarrow> bool" where
  "sole_leader candidates c \<longleftrightarrow> filter (\<lambda>d. dc_live d \<and> dc_cluster_epoch d = dc_cluster_epoch c) candidates = [c] \<and>
     (\<exists>e. dc_cluster_epoch c = Some e \<and> (\<forall>d \<in> set candidates. dc_live d \<longrightarrow> (\<exists>e'. dc_cluster_epoch d = Some e' \<and> e' \<le> e)))"

lemma sole_leader_unique:
  assumes "sole_leader cs c" "sole_leader cs d"
  shows "c = d"
proof -
  have m: "x \<in> set cs \<and> dc_live x" if "sole_leader cs x" for x
  proof -
    have "x \<in> set (filter (\<lambda>d. dc_live d \<and> dc_cluster_epoch d = dc_cluster_epoch x) cs)" using that by (simp add: sole_leader_def)
    then show ?thesis by simp
  qed
  have "dc_cluster_epoch c = dc_cluster_epoch d" using assms m [OF assms(1)] m [OF assms(2)] by (force simp: sole_leader_def)
  then show ?thesis using assms by (simp add: sole_leader_def)
qed

lemma leaders_sole:
  "delegation_leaders (filter dc_live candidates) = [c] \<longleftrightarrow> sole_leader candidates c"
proof
  let ?live = "filter dc_live candidates"
  let ?m = "num_max (map dc_cluster_epoch ?live)"
  assume l: "delegation_leaders ?live = [c]"
  then have "c \<in> set (delegation_leaders ?live)" by simp
  then have c: "dc_live c" "c \<in> set candidates" "?m = dc_cluster_epoch c" "?m \<noteq> None"
    by (auto simp: delegation_leaders_def Let_def)
  then obtain e where e: "?m = Some e" by auto
  with c(3) have ec: "dc_cluster_epoch c = Some e" by simp
  have ne: "map dc_cluster_epoch ?live \<noteq> []" using c by (auto simp: filter_empty_conv)
  have "\<exists>e'. dc_cluster_epoch d = Some e' \<and> e' \<le> e" if "d \<in> set candidates" "dc_live d" for d
  proof -
    have "None \<notin> set (map dc_cluster_epoch ?live)" using num_max_spec [OF ne] e by simp
    moreover have "dc_cluster_epoch d \<in> set (map dc_cluster_epoch ?live)" using that by simp
    ultimately obtain e' where "dc_cluster_epoch d = Some e'" "Some e' \<in> set (map dc_cluster_epoch ?live)"
      by (metis option.exhaust)
    then show ?thesis using num_max_spec [OF ne] e by blast
  qed
  moreover have "filter (\<lambda>d. dc_live d \<and> dc_cluster_epoch d = dc_cluster_epoch c) candidates = [c]"
    using l unfolding ec delegation_leaders_def Let_def e by (simp add: conj_commute)
  ultimately show "sole_leader candidates c" using ec unfolding sole_leader_def by blast
next
  let ?live = "filter dc_live candidates"
  let ?m = "num_max (map dc_cluster_epoch ?live)"
  assume s: "sole_leader candidates c"
  then have "c \<in> set (filter (\<lambda>d. dc_live d \<and> dc_cluster_epoch d = dc_cluster_epoch c) candidates)" by (simp add: sole_leader_def)
  then have c: "c \<in> set candidates" "dc_live c" by auto
  from s obtain e where e: "dc_cluster_epoch c = Some e" "\<forall>d \<in> set candidates. dc_live d \<longrightarrow> (\<exists>e'. dc_cluster_epoch d = Some e' \<and> e' \<le> e)"
    unfolding sole_leader_def by blast
  have ne: "map dc_cluster_epoch ?live \<noteq> []" using c by (auto simp: filter_empty_conv)
  have "None \<notin> set (map dc_cluster_epoch ?live)" using e(2) by force
  then obtain m where m: "?m = Some m" using num_max_spec [OF ne] by blast
  have "dc_cluster_epoch c \<in> set (map dc_cluster_epoch ?live)" using c by simp
  then have "Some m \<in> set (map dc_cluster_epoch ?live)" "e \<le> m" using num_max_spec [OF ne] m unfolding e(1) by blast+
  then have "m = e" using e(2) by force
  then show "delegation_leaders ?live = [c]"
    using s m e(1) by (simp add: delegation_leaders_def Let_def sole_leader_def filter_filter conj_commute)
qed

lemma leaders_singleton: "length (delegation_leaders live) = 1 \<longleftrightarrow> (\<exists>c. delegation_leaders live = [c])"
  by (auto simp: length_Suc_conv)

lemma delegate_loop_spec:
  assumes "delegate_loop attempts ts = (targets, err)"
  shows "\<exists>new. targets = ts @ new \<and> length new \<le> length attempts \<and>
    (\<forall>k < length new. \<exists>c. sole_leader (attempts ! k) c \<and> new ! k = dc_nid c) \<and>
    (if length new = length attempts then err = None
     else if filter dc_live (attempts ! length new) = [] then err = Some ''NOP-DELEGATE-REJECTED''
     else err = Some ''NDP-CLUSTER-SPLIT'' \<and> (\<nexists>c. sole_leader (attempts ! length new) c))"
  using assms
proof (induction attempts arbitrary: ts)
  case Nil
  then show ?case by simp
next
  case (Cons cs attempts)
  let ?live = "filter dc_live cs"
  show ?case
  proof (cases "\<exists>c. sole_leader cs c")
    case False
    then have "length (delegation_leaders ?live) \<noteq> 1" using leaders_sole [of cs] leaders_singleton by blast
    then show ?thesis using Cons.prems False by (intro exI [of _ "[]"]) (auto simp: Let_def split: if_splits)
  next
    case True
    then obtain c where c: "sole_leader cs c" by blast
    then have l: "delegation_leaders ?live = [c]" using leaders_sole by blast
    then have "?live \<noteq> []" by (auto simp: delegation_leaders_def)
    with l Cons.prems have "delegate_loop attempts (ts @ [dc_nid c]) = (targets, err)" by (simp add: Let_def)
    from Cons.IH [OF this] obtain new where n: "targets = (ts @ [dc_nid c]) @ new" "length new \<le> length attempts"
      "\<forall>k < length new. \<exists>c. sole_leader (attempts ! k) c \<and> new ! k = dc_nid c"
      "if length new = length attempts then err = None
       else if filter dc_live (attempts ! length new) = [] then err = Some ''NOP-DELEGATE-REJECTED''
       else err = Some ''NDP-CLUSTER-SPLIT'' \<and> (\<nexists>c. sole_leader (attempts ! length new) c)" by blast
    have "\<forall>k < length (dc_nid c # new). \<exists>d. sole_leader ((cs # attempts) ! k) d \<and> (dc_nid c # new) ! k = dc_nid d"
      using n(3) c by (auto simp: nth_Cons split: nat.splits)
    with n show ?thesis by (intro exI [of _ "dc_nid c # new"]) simp
  qed
qed

text \<open>C40: delegation stays inside its scope and goes only to sole leaders. When the delegated scope
  names a node or an action the parent's does not, or a larger token budget, nothing is targeted.
  Otherwise target \<open>k\<close> is the sole live candidate of the highest epoch of attempt \<open>k\<close>; there is no
  error exactly when every attempt has a target; the first attempt without one ends the run, with
  \<open>NOP-DELEGATE-REJECTED\<close> when it has no live candidate and \<open>NDP-CLUSTER-SPLIT\<close> when its live
  candidates have no sole leader.\<close>

theorem delegation_correct:
  "let (targets, err) = evaluateDelegation parent delegated attempts in
   if \<not> set (sc_nodes delegated) \<subseteq> set (sc_nodes parent) \<or> \<not> set (sc_actions delegated) \<subseteq> set (sc_actions parent) \<or>
      (\<exists>d p. sc_max_token_budget delegated = Some d \<and> sc_max_token_budget parent = Some p \<and> p < d)
   then targets = [] \<and> err = Some ''NOP-DELEGATE-SCOPE-VIOLATION''
   else length targets \<le> length attempts \<and>
     (\<forall>k < length targets. \<exists>c. sole_leader (attempts ! k) c \<and> targets ! k = dc_nid c) \<and>
     (if length targets = length attempts then err = None
      else if filter dc_live (attempts ! length targets) = [] then err = Some ''NOP-DELEGATE-REJECTED''
      else err = Some ''NDP-CLUSTER-SPLIT'' \<and> (\<nexists>c. sole_leader (attempts ! length targets) c))"
proof -
  have g: "num_gt a b \<longleftrightarrow> (\<exists>d p. a = Some d \<and> b = Some p \<and> p < d)" for a b
    by (auto simp: num_gt_def split: option.splits)
  have s: "subset a b \<longleftrightarrow> set a \<subseteq> set b" for a b by (auto simp: subset_def list_all_iff)
  obtain targets err where l: "delegate_loop attempts [] = (targets, err)" by fastforce
  from delegate_loop_spec [OF l] show ?thesis
    unfolding evaluateDelegation_def s g l by (simp split: prod.split)
qed

theorem delegation_correct_witness:
  "let c = (\<lambda>i e. \<lparr>dc_nid = i, dc_live = True, dc_cluster_epoch = Some e\<rparr>); sc = \<lparr>sc_nodes = [''n''], sc_actions = [], sc_max_token_budget = None\<rparr> in
   \<exists>x. sole_leader [c ''a'' 1, c ''b'' 2] x \<and> fst (evaluateDelegation sc sc [[c ''a'' 1, c ''b'' 2]]) ! 0 = dc_nid x"
proof -
  let ?c = "\<lambda>i e. \<lparr>dc_nid = i, dc_live = True, dc_cluster_epoch = Some e\<rparr>"
  let ?sc = "\<lparr>sc_nodes = [''n''], sc_actions = [], sc_max_token_budget = None\<rparr>"
  have "evaluateDelegation ?sc ?sc [[?c ''a'' 1, ?c ''b'' 2]] = ([''b''], None)" by code_simp
  with delegation_correct [of ?sc ?sc "[[?c ''a'' 1, ?c ''b'' 2]]"] show ?thesis by simp
qed

end
