(* ===== verification/ClusterOwnership.thy ===== *)
theory ClusterOwnership
  imports JsonVal Contracts
begin

text \<open>
  Ownership of a multi-Anchor cluster: the epoch fence of \<open>nwp/anchor-epoch.ts\<close> and the cache of
  active Anchors of \<open>nop/cluster-delegation.ts\<close>.

  The fence's callbacks (\<open>emit\<close>, \<open>closeStreams\<close>, \<open>onHealthChange\<close>) are the entries of an effect log.
  An epoch of the fence is a finite number; only \<open>takeOwnership\<close> insists on an integer. The
  resolver's NDP lookup is asynchronous: a lookup that misses the cache is put in flight by one
  event and finished by another, with any events between them.
\<close>

section \<open>nwp/anchor-epoch.ts\<close>

datatype AnchorRole = Active | Standby

datatype fence_effect =
    EmitFailover string rat string
  | EmitQuorumLost nat nat
  | CloseStreams
  | HealthChange string

record AnchorEpochFence =
  ef_anchorNid :: string
  ef_ownEpoch :: rat
  ef_role :: AnchorRole
  ef_degraded :: bool
  ef_highestObserved :: rat
  ef_effects :: "fence_effect list"

record InboundEpochFrame =
  if_cluster_epoch :: "rat option"
  if_sender_anchor_nid :: "string option"

definition fence_new :: "string \<Rightarrow> rat option \<Rightarrow> AnchorRole option \<Rightarrow> bool option \<Rightarrow> AnchorEpochFence option" where
  "fence_new anchorNid own role degraded =
     (if anchorNid = [] then None
      else let e = (case own of None \<Rightarrow> 1 | Some e \<Rightarrow> e) in
        Some \<lparr>ef_anchorNid = anchorNid, ef_ownEpoch = e, ef_role = (case role of None \<Rightarrow> Active | Some r \<Rightarrow> r),
              ef_degraded = (case degraded of None \<Rightarrow> False | Some d \<Rightarrow> d), ef_highestObserved = e, ef_effects = []\<rparr>)"

definition ef_isActive :: "AnchorEpochFence \<Rightarrow> bool" where
  "ef_isActive s = (ef_role s = Active \<and> \<not> ef_degraded s)"

definition ef_emit :: "fence_effect list \<Rightarrow> AnchorEpochFence \<Rightarrow> AnchorEpochFence" where
  "ef_emit es s = s\<lparr>ef_effects := ef_effects s @ es\<rparr>"

definition inbound_epoch :: "InboundEpochFrame option \<Rightarrow> rat" where
  "inbound_epoch frame = (case frame of None \<Rightarrow> 1 | Some f \<Rightarrow> (case if_cluster_epoch f of None \<Rightarrow> 1 | Some e \<Rightarrow> e))"

definition successor_of :: "InboundEpochFrame option \<Rightarrow> string" where
  "successor_of frame = (case frame of None \<Rightarrow> [] | Some f \<Rightarrow> (case if_sender_anchor_nid f of None \<Rightarrow> [] | Some n \<Rightarrow> n))"

text \<open>The error code thrown, if any, and the state afterwards.\<close>

definition onInboundFrame :: "InboundEpochFrame option \<Rightarrow> bool \<Rightarrow> AnchorEpochFence \<Rightarrow> string option \<times> AnchorEpochFence" where
  "onInboundFrame frame isTopologyWrite s =
     (let inbound = inbound_epoch frame;
          s = (if inbound > ef_highestObserved s then s\<lparr>ef_highestObserved := inbound\<rparr> else s) in
      if inbound > ef_ownEpoch s
      then (Some ''NWP-ANCHOR-EPOCH-FENCED'',
            ef_emit [EmitFailover (successor_of frame) inbound ''active_lost'', CloseStreams] (s\<lparr>ef_role := Standby\<rparr>))
      else if isTopologyWrite \<and> \<not> ef_isActive s then (Some ''NWP-ANCHOR-NOT-LEADER'', s)
      else (None, s))"

definition stampResponse :: "jsobj \<Rightarrow> AnchorEpochFence \<Rightarrow> jsobj" where
  "stampResponse response s = js_set response ''cluster_epoch'' (JNum (ef_ownEpoch s))"

definition onQuorumLost :: "nat \<Rightarrow> nat \<Rightarrow> AnchorEpochFence \<Rightarrow> AnchorEpochFence" where
  "onQuorumLost quorumSize available s =
     ef_emit [EmitQuorumLost quorumSize available, HealthChange ''degraded''] (s\<lparr>ef_degraded := True\<rparr>)"

definition onQuorumRestored :: "AnchorEpochFence \<Rightarrow> AnchorEpochFence" where
  "onQuorumRestored s = ef_emit [HealthChange ''healthy''] (s\<lparr>ef_degraded := False\<rparr>)"

text \<open>\<open>None\<close>: the \<open>RangeError\<close>.\<close>

definition takeOwnership :: "rat \<Rightarrow> string \<Rightarrow> AnchorEpochFence \<Rightarrow> AnchorEpochFence option" where
  "takeOwnership newEpoch reason s =
     (if of_int (floor newEpoch) \<noteq> newEpoch \<or> newEpoch \<le> ef_highestObserved s then None
      else Some (ef_emit [EmitFailover (ef_anchorNid s) newEpoch reason]
        (s\<lparr>ef_ownEpoch := newEpoch, ef_highestObserved := newEpoch, ef_role := Active, ef_degraded := False\<rparr>)))"

datatype fence_event =
    FInbound "InboundEpochFrame option" bool
  | FQuorumLost nat nat
  | FQuorumRestored
  | FTakeOwnership rat string

fun fence_step :: "AnchorEpochFence \<Rightarrow> fence_event \<Rightarrow> AnchorEpochFence" where
  "fence_step s (FInbound frame w) = snd (onInboundFrame frame w s)"
| "fence_step s (FQuorumLost q a) = onQuorumLost q a s"
| "fence_step s FQuorumRestored = onQuorumRestored s"
| "fence_step s (FTakeOwnership e reason) = (case takeOwnership e reason s of None \<Rightarrow> s | Some s' \<Rightarrow> s')"

section \<open>nop/cluster-delegation.ts\<close>

record ClusterAnchorInfo =
  ci_activeNid :: string
  ci_clusterEpoch :: int

record ClusterDelegationResolver =
  cr_active :: "(string, ClusterAnchorInfo) jsmap"
  cr_inflight :: "string list"

definition cr_empty :: ClusterDelegationResolver where
  "cr_empty = \<lparr>cr_active = [], cr_inflight = []\<rparr>"

definition isNpsNid :: "string \<Rightarrow> bool" where
  "isNpsNid value = js_startsWith value ''urn:nps:''"

text \<open>\<open>resolveActive\<close> up to its \<open>await\<close>: the \<open>TypeError\<close> for an empty NID, the cached entry, or a lookup
  in flight.\<close>

datatype lookup_begin = LookupError | LookupHit ClusterAnchorInfo | LookupInFlight

definition resolveActive_begin :: "string \<Rightarrow> ClusterDelegationResolver \<Rightarrow> lookup_begin \<times> ClusterDelegationResolver" where
  "resolveActive_begin cluster s = (if cluster = [] then (LookupError, s) else case js_get (cr_active s) cluster of
     Some cached \<Rightarrow> (LookupHit cached, s)
   | None \<Rightarrow> (LookupInFlight, s\<lparr>cr_inflight := cr_inflight s @ [cluster]\<rparr>))"

text \<open>The part after the \<open>await\<close>, of the lookup at position \<open>k\<close> of those in flight.\<close>

definition remove_nth :: "nat \<Rightarrow> 'a list \<Rightarrow> 'a list" where
  "remove_nth k xs = take k xs @ drop (Suc k) xs"

definition resolveActive_end :: "nat \<Rightarrow> ClusterAnchorInfo option \<Rightarrow> ClusterDelegationResolver \<Rightarrow> ClusterAnchorInfo option \<times> ClusterDelegationResolver" where
  "resolveActive_end k fresh s =
     (if k < length (cr_inflight s)
      then let c = cr_inflight s ! k; s = s\<lparr>cr_inflight := remove_nth k (cr_inflight s)\<rparr> in
        (fresh, case fresh of None \<Rightarrow> s | Some info \<Rightarrow> s\<lparr>cr_active := js_set (cr_active s) c info\<rparr>)
      else (None, s))"

text \<open>A resolution that nothing interrupts, of a nonempty NID.\<close>

definition resolveActive :: "(string \<Rightarrow> ClusterAnchorInfo option) \<Rightarrow> string \<Rightarrow> ClusterDelegationResolver \<Rightarrow> ClusterAnchorInfo option \<times> ClusterDelegationResolver" where
  "resolveActive resolveClusterFn cluster s = (case resolveActive_begin cluster s of
     (LookupError, s) \<Rightarrow> (None, s)
   | (LookupHit cached, s) \<Rightarrow> (Some cached, s)
   | (LookupInFlight, s) \<Rightarrow> resolveActive_end (length (cr_inflight s) - 1) (resolveClusterFn cluster) s)"

definition resolveDelegateTarget :: "(string \<Rightarrow> ClusterAnchorInfo option) \<Rightarrow> string \<Rightarrow> string option \<Rightarrow> ClusterDelegationResolver \<Rightarrow> string option \<times> ClusterDelegationResolver" where
  "resolveDelegateTarget resolveClusterFn agentNid targetClusterAnchor s =
     (case targetClusterAnchor of
        None \<Rightarrow> (Some agentNid, s)
      | Some cluster \<Rightarrow>
          if cluster = [] then (Some agentNid, s)
          else if \<not> isNpsNid cluster then (None, s)
          else let (info, s) = resolveActive resolveClusterFn cluster s in (map_option ci_activeNid info, s))"

text \<open>\<open>None\<close>: the \<open>TypeError\<close> for an empty NID.\<close>

definition onAnchorFailover :: "string \<Rightarrow> string \<Rightarrow> int \<Rightarrow> ClusterDelegationResolver \<Rightarrow> (bool \<times> ClusterDelegationResolver) option" where
  "onAnchorFailover cluster successor epoch s =
     (if cluster = [] \<or> successor = [] then None
      else case js_get (cr_active s) cluster of
        Some current \<Rightarrow>
          if epoch \<le> ci_clusterEpoch current then Some (False, s)
          else Some (True, s\<lparr>cr_active := js_set (cr_active s) cluster \<lparr>ci_activeNid = successor, ci_clusterEpoch = epoch\<rparr>\<rparr>)
      | None \<Rightarrow> Some (True, s\<lparr>cr_active := js_set (cr_active s) cluster \<lparr>ci_activeNid = successor, ci_clusterEpoch = epoch\<rparr>\<rparr>))"

definition cr_invalidate :: "string \<Rightarrow> ClusterDelegationResolver \<Rightarrow> ClusterDelegationResolver" where
  "cr_invalidate cluster s = s\<lparr>cr_active := js_delete (cr_active s) cluster\<rparr>"

datatype resolver_event =
    ResolveBegin string
  | ResolveEnd nat "ClusterAnchorInfo option"
  | Failover string string int

fun resolver_step :: "ClusterDelegationResolver \<Rightarrow> resolver_event \<Rightarrow> ClusterDelegationResolver" where
  "resolver_step s (ResolveBegin c) = snd (resolveActive_begin c s)"
| "resolver_step s (ResolveEnd k fresh) = snd (resolveActive_end k fresh s)"
| "resolver_step s (Failover c successor e) = (case onAnchorFailover c successor e s of None \<Rightarrow> s | Some (moved, s') \<Rightarrow> s')"

section \<open>The fence\<close>

text \<open>The Anchor has observed its own epoch, and an active one has observed no other newer one.\<close>

definition fence_inv :: "AnchorEpochFence \<Rightarrow> bool" where
  "fence_inv s \<longleftrightarrow> ef_ownEpoch s \<le> ef_highestObserved s \<and> (ef_role s = Active \<longrightarrow> ef_ownEpoch s = ef_highestObserved s)"

lemma fence_new_inv: "fence_new nid own role degraded = Some s \<Longrightarrow> fence_inv s"
  by (auto simp: fence_new_def fence_inv_def Let_def split: if_splits option.splits)

lemma onInboundFrame_highest:
  "ef_highestObserved (snd (onInboundFrame f w s)) = max (ef_highestObserved s) (inbound_epoch f)"
  by (simp add: onInboundFrame_def Let_def ef_emit_def)

lemma fence_step_inv: "fence_inv s \<Longrightarrow> fence_inv (fence_step s e)"
  by (cases e) (auto simp: fence_inv_def onInboundFrame_def onQuorumLost_def onQuorumRestored_def takeOwnership_def
      ef_emit_def Let_def split: option.splits)

lemma fence_step_highest: "ef_highestObserved s \<le> ef_highestObserved (fence_step s e)"
  by (cases e) (auto simp: onInboundFrame_highest onQuorumLost_def onQuorumRestored_def takeOwnership_def ef_emit_def split: option.splits)

interpretation fence: monotone_machine fence_step fence_inv "\<lambda>s (_ :: unit). Some (ef_highestObserved s)"
  by unfold_locales (auto simp: fence_step_inv fence_step_highest)

lemma run_highest_mono: "fence_inv s \<Longrightarrow> ef_highestObserved s \<le> ef_highestObserved (run fence_step s es)"
  using fence.run_rank [of s "ef_highestObserved s" es] by simp

lemma run_observes:
  assumes "fence_inv s" "FInbound f w \<in> set es"
  shows "inbound_epoch f \<le> ef_highestObserved (run fence_step s es)"
proof -
  from assms(2) obtain pre post where es: "es = pre @ FInbound f w # post" by (meson split_list)
  let ?s = "fence_step (run fence_step s pre) (FInbound f w)"
  have "inbound_epoch f \<le> ef_highestObserved ?s" by (simp add: onInboundFrame_highest)
  also have "\<dots> \<le> ef_highestObserved (run fence_step ?s post)"
    using assms(1) by (intro run_highest_mono fence_step_inv fence.run_inv)
  finally show ?thesis by (simp add: es)
qed

text \<open>The epoch fence. Whatever frames, quorum changes and ownership changes came before: an Anchor
  accepts a topology write only while it is active and not degraded, and under an epoch at least as
  high as that of the write and of every frame it has ever seen; and it takes ownership only under
  an epoch strictly higher than every epoch it has seen and than the one it held.\<close>

theorem fence_safety:
  fixes es :: "fence_event list"
  assumes "fence_new nid own role degraded = Some s0"
  defines "s \<equiv> run fence_step s0 es"
  shows "(fst (onInboundFrame f True s) = None \<longrightarrow>
      ef_isActive s \<and> inbound_epoch f \<le> ef_ownEpoch s \<and> (\<forall>g w. FInbound g w \<in> set es \<longrightarrow> inbound_epoch g \<le> ef_ownEpoch s)) \<and>
    (\<forall>s'. takeOwnership e reason s = Some s' \<longrightarrow>
      ef_ownEpoch s' = e \<and> ef_isActive s' \<and> ef_ownEpoch s < e \<and> (\<forall>g w. FInbound g w \<in> set es \<longrightarrow> inbound_epoch g < e))"
proof -
  note i0 = fence_new_inv [OF assms(1)]
  have i: "fence_inv s" unfolding s_def by (rule fence.run_inv [OF i0])
  have seen: "inbound_epoch g \<le> ef_highestObserved s" if "FInbound g w \<in> set es" for g w
    unfolding s_def by (rule run_observes [OF i0 that])
  have "ef_isActive s \<and> inbound_epoch f \<le> ef_ownEpoch s" if "fst (onInboundFrame f True s) = None"
    using that by (auto simp: onInboundFrame_def Let_def ef_isActive_def split: if_splits)
  moreover have "ef_isActive s \<Longrightarrow> ef_ownEpoch s = ef_highestObserved s" using i by (simp add: fence_inv_def ef_isActive_def)
  moreover have "ef_ownEpoch s' = e \<and> ef_isActive s' \<and> ef_ownEpoch s < e \<and> ef_highestObserved s < e"
    if "takeOwnership e reason s = Some s'" for s'
    using that i by (auto simp: takeOwnership_def ef_emit_def ef_isActive_def fence_inv_def split: if_splits)
  ultimately show ?thesis using seen by fastforce
qed

theorem fence_safety_witness:
  "\<exists>s0 s'. fence_new ''urn:nps:a'' None None None = Some s0 \<and>
     takeOwnership 4 ''planned'' (run fence_step s0 [FInbound (Some \<lparr>if_cluster_epoch = Some 3, if_sender_anchor_nid = None\<rparr>) False]) = Some s' \<and>
     ef_isActive s' \<and> ef_ownEpoch s' = 4"
proof -
  let ?f = "Some \<lparr>if_cluster_epoch = Some 3, if_sender_anchor_nid = None\<rparr>"
  obtain s0 where s0: "fence_new ''urn:nps:a'' None None None = Some s0" by (simp add: fence_new_def)
  obtain s' where s': "takeOwnership 4 ''planned'' (run fence_step s0 [FInbound ?f False]) = Some s'"
    using s0 by (auto simp: fence_new_def takeOwnership_def onInboundFrame_def inbound_epoch_def ef_emit_def Let_def)
  from fence_safety [OF s0, where es = "[FInbound ?f False]" and e = 4 and reason = "''planned''"] s0 s' show ?thesis by blast
qed

section \<open>The resolver\<close>

text \<open>The epoch of a cached cluster that has no lookup in flight.\<close>

definition settled_epoch :: "ClusterDelegationResolver \<Rightarrow> string \<Rightarrow> int option" where
  "settled_epoch s c = (if c \<in> set (cr_inflight s) then None else map_option ci_clusterEpoch (js_get (cr_active s) c))"

lemma set_remove_nth: "k < length xs \<Longrightarrow> xs ! k \<noteq> c \<Longrightarrow> c \<in> set (remove_nth k xs) \<longleftrightarrow> c \<in> set xs"
proof -
  assume k: "k < length xs" and c: "xs ! k \<noteq> c"
  have "set xs = set (take k xs) \<union> {xs ! k} \<union> set (drop (Suc k) xs)"
    by (subst id_take_nth_drop [OF k]) auto
  with c show ?thesis by (auto simp: remove_nth_def)
qed

interpretation resolver: monotone_machine resolver_step "\<lambda>s. True" settled_epoch
proof
  fix s :: ClusterDelegationResolver and c n e
  assume "settled_epoch s c = Some n"
  then have c: "c \<notin> set (cr_inflight s)" and "map_option ci_clusterEpoch (js_get (cr_active s) c) = Some n"
    by (auto simp: settled_epoch_def split: if_splits)
  then obtain info where info: "js_get (cr_active s) c = Some info" "n = ci_clusterEpoch info" by auto
  show "\<exists>m. settled_epoch (resolver_step s e) c = Some m \<and> n \<le> m"
  proof (cases e)
    case (ResolveBegin d)
    with c info show ?thesis by (auto simp: resolveActive_begin_def settled_epoch_def split: option.splits)
  next
    case (ResolveEnd k fresh)
    have "cr_inflight s ! k \<noteq> c" if "k < length (cr_inflight s)" using c that by auto
    with ResolveEnd c info set_remove_nth [of k "cr_inflight s" c] show ?thesis
      by (auto simp: resolveActive_end_def settled_epoch_def Let_def js_get_set split: option.splits)
  next
    case (Failover d successor epoch)
    with c info show ?thesis
      by (auto simp: onAnchorFailover_def settled_epoch_def js_get_set split: option.splits)
  qed
qed simp

text \<open>The resolver's cache is monotonic for a cluster that is cached and has no lookup in flight:
  over any later resolutions and failovers, until an explicit \<open>invalidate\<close>, its epoch never
  decreases, and a failover at an epoch not above the cached one changes nothing.\<close>

theorem resolver_monotonic:
  assumes "js_get (cr_active s) c = Some info" "c \<notin> set (cr_inflight s)"
  shows "\<exists>info'. js_get (cr_active (run resolver_step s es)) c = Some info' \<and> ci_clusterEpoch info \<le> ci_clusterEpoch info' \<and>
    (\<forall>n e. c \<noteq> [] \<and> n \<noteq> [] \<and> e \<le> ci_clusterEpoch info' \<longrightarrow>
       onAnchorFailover c n e (run resolver_step s es) = Some (False, run resolver_step s es))"
proof -
  have "settled_epoch s c = Some (ci_clusterEpoch info)" using assms by (simp add: settled_epoch_def)
  from resolver.run_rank [OF _ this, of es] obtain m where
    m: "settled_epoch (run resolver_step s es) c = Some m" "ci_clusterEpoch info \<le> m" by auto
  then obtain info' where "js_get (cr_active (run resolver_step s es)) c = Some info'" "m = ci_clusterEpoch info'"
    by (auto simp: settled_epoch_def split: if_splits)
  with m show ?thesis by (auto simp: onAnchorFailover_def)
qed

theorem resolver_monotonic_witness:
  "\<exists>info. js_get (cr_active (run resolver_step (cr_empty\<lparr>cr_active := [(''c'', \<lparr>ci_activeNid = ''a'', ci_clusterEpoch = 3\<rparr>)]\<rparr>)
     [ResolveBegin ''c'', Failover ''c'' ''b'' 4, ResolveEnd 0 (Some \<lparr>ci_activeNid = ''a'', ci_clusterEpoch = 3\<rparr>)])) ''c'' = Some info \<and>
   3 \<le> ci_clusterEpoch info"
proof -
  have "js_get (cr_active (cr_empty\<lparr>cr_active := [(''c'', \<lparr>ci_activeNid = ''a'', ci_clusterEpoch = 3\<rparr>)]\<rparr>)) ''c''
      = Some \<lparr>ci_activeNid = ''a'', ci_clusterEpoch = 3\<rparr>" by (simp add: js_get_def)
  from resolver_monotonic [OF this, of "[ResolveBegin ''c'', Failover ''c'' ''b'' 4, ResolveEnd 0 (Some \<lparr>ci_activeNid = ''a'', ci_clusterEpoch = 3\<rparr>)]"]
  show ?thesis by (fastforce simp: cr_empty_def)
qed

text \<open>The cache is not monotonic while a lookup is in flight: a failover to any epoch that arrives
  between the start and the end of a lookup is overwritten by the lookup's older answer.\<close>

theorem resolver_race:
  assumes "c \<noteq> []" "n \<noteq> []" "ci_clusterEpoch old < e"
  shows "let s1 = run resolver_step cr_empty [ResolveBegin c, Failover c n e]; s2 = resolver_step s1 (ResolveEnd 0 (Some old)) in
    js_get (cr_active s1) c = Some \<lparr>ci_activeNid = n, ci_clusterEpoch = e\<rparr> \<and> js_get (cr_active s2) c = Some old \<and> ci_clusterEpoch old < e"
  using assms by (simp add: Let_def cr_empty_def resolveActive_begin_def resolveActive_end_def onAnchorFailover_def)

theorem resolver_race_witness:
  "js_get (cr_active (run resolver_step cr_empty [ResolveBegin ''c'', Failover ''c'' ''b'' 5,
     ResolveEnd 0 (Some \<lparr>ci_activeNid = ''a'', ci_clusterEpoch = 4\<rparr>)])) ''c'' = Some \<lparr>ci_activeNid = ''a'', ci_clusterEpoch = 4\<rparr>"
  using resolver_race [of "''c''" "''b''" "\<lparr>ci_activeNid = ''a'', ci_clusterEpoch = 4\<rparr>" 5] by (simp add: Let_def)

end
