(* ===== verification/NcpFrames.thy ===== *)
theory NcpFrames
  imports JsonVal
begin

text \<open>
  \<open>ncp/frames.ts\<close>: the stream frame as a record, with its wire dictionary. Numbers are rationals, as in a
  JSON value.
\<close>

record StreamFrame =
  stf_streamId :: string
  stf_seq :: rat
  stf_isLast :: bool
  stf_data :: "jsobj list"
  stf_anchorRef :: "string option"
  stf_windowSize :: "rat option"
  stf_errorCode :: "string option"

definition opt_str :: "string option \<Rightarrow> jsval" where
  "opt_str x = (case x of None \<Rightarrow> JNull | Some s \<Rightarrow> JStr s)"

definition opt_num :: "rat option \<Rightarrow> jsval" where
  "opt_num x = (case x of None \<Rightarrow> JNull | Some n \<Rightarrow> JNum n)"

definition StreamFrame_toDict :: "StreamFrame \<Rightarrow> jsobj" where
  "StreamFrame_toDict f =
     [(''stream_id'', JStr (stf_streamId f)), (''seq'', JNum (stf_seq f)), (''is_last'', JBool (stf_isLast f)),
      (''data'', JArr (map JObj (stf_data f))), (''anchor_ref'', opt_str (stf_anchorRef f)),
      (''window_size'', opt_num (stf_windowSize f)), (''error_code'', opt_str (stf_errorCode f))]"

end
