(* ===== verification/NwpTaskStore.thy ===== *)
theory NwpTaskStore
  imports Prelude Contracts JsonVal NcpFrames
begin

text \<open>
  \<open>nwp/action-task-store.ts\<close>: the asynchronous task store of the Action Node and its idempotency
  cache. The clock is an argument of every operation that reads it. A record the store hands out is
  the stored object itself in the source; nothing outside writes to it here. \<open>progress\<close> is a rational.
\<close>

section \<open>InMemoryActionTaskStore\<close>

record ActionTaskRecord =
  tr_taskId :: string
  tr_actionId :: string
  tr_status :: string
  tr_progress :: "rat option"
  tr_createdAt :: int
  tr_updatedAt :: int
  tr_requestId :: "string option"
  tr_agentNid :: "string option"
  tr_result :: "jsval option"
  tr_error :: "jsval option"

type_synonym task_store = "(string, ActionTaskRecord) jsmap"

definition TERMINAL :: "string list" where
  "TERMINAL = [''completed'', ''failed'', ''cancelled'']"

text \<open>\<open>None\<close>: the error for a task id that exists.\<close>

definition ts_create :: "int \<Rightarrow> string \<Rightarrow> string \<Rightarrow> string option \<Rightarrow> string option \<Rightarrow> task_store \<Rightarrow> (ActionTaskRecord \<times> task_store) option" where
  "ts_create now taskId actionId requestId agentNid s =
     (if js_has s taskId then None
      else let rc = \<lparr>tr_taskId = taskId, tr_actionId = actionId, tr_status = ''pending'', tr_progress = None, tr_createdAt = now,
                     tr_updatedAt = now, tr_requestId = requestId, tr_agentNid = agentNid, tr_result = None, tr_error = None\<rparr> in
        Some (rc, js_set s taskId rc))"

definition ts_get :: "string \<Rightarrow> task_store \<Rightarrow> ActionTaskRecord option" where
  "ts_get taskId s = js_get s taskId"

definition tryTransition :: "int \<Rightarrow> string \<Rightarrow> string \<Rightarrow> string \<Rightarrow> task_store \<Rightarrow> bool \<times> task_store" where
  "tryTransition now taskId expected next s = (case js_get s taskId of
     None \<Rightarrow> (False, s)
   | Some rc \<Rightarrow> if tr_status rc \<noteq> expected then (False, s)
       else (True, js_set s taskId (rc\<lparr>tr_status := next, tr_updatedAt := now\<rparr>)))"

definition ts_complete :: "int \<Rightarrow> string \<Rightarrow> jsval \<Rightarrow> task_store \<Rightarrow> bool \<times> task_store" where
  "ts_complete now taskId result s = (case js_get s taskId of
     None \<Rightarrow> (False, s)
   | Some rc \<Rightarrow> if tr_status rc \<in> set TERMINAL then (False, s)
       else (True, js_set s taskId (rc\<lparr>tr_status := ''completed'', tr_result := Some result, tr_progress := Some 1, tr_updatedAt := now\<rparr>)))"

definition ts_fail :: "int \<Rightarrow> string \<Rightarrow> jsval \<Rightarrow> task_store \<Rightarrow> bool \<times> task_store" where
  "ts_fail now taskId err s = (case js_get s taskId of
     None \<Rightarrow> (False, s)
   | Some rc \<Rightarrow> if tr_status rc \<in> set TERMINAL then (False, s)
       else (True, js_set s taskId (rc\<lparr>tr_status := ''failed'', tr_error := Some err, tr_updatedAt := now\<rparr>)))"

definition ts_cancel :: "int \<Rightarrow> string \<Rightarrow> task_store \<Rightarrow> bool \<times> task_store" where
  "ts_cancel now taskId s = (case js_get s taskId of
     None \<Rightarrow> (False, s)
   | Some rc \<Rightarrow> if tr_status rc \<in> set TERMINAL then (False, s)
       else (True, js_set s taskId (rc\<lparr>tr_status := ''cancelled'', tr_updatedAt := now\<rparr>)))"

definition updateProgress :: "int \<Rightarrow> string \<Rightarrow> rat \<Rightarrow> task_store \<Rightarrow> bool \<times> task_store" where
  "updateProgress now taskId progress s = (case js_get s taskId of
     None \<Rightarrow> (False, s)
   | Some rc \<Rightarrow> (True, js_set s taskId (rc\<lparr>tr_progress := Some (max 0 (min 1 progress)), tr_updatedAt := now\<rparr>)))"

definition task_purgeable :: "int \<Rightarrow> ActionTaskRecord \<Rightarrow> bool" where
  "task_purgeable cutoff rc = (tr_status rc \<in> set TERMINAL \<and> tr_updatedAt rc < cutoff)"

definition ts_purgeExpired :: "int \<Rightarrow> int \<Rightarrow> task_store \<Rightarrow> nat \<times> task_store" where
  "ts_purgeExpired retentionMs now s =
     (let cutoff = now - retentionMs in
      (length (filter (\<lambda>(k, rc). task_purgeable cutoff rc) s), js_filter (\<lambda>k rc. \<not> task_purgeable cutoff rc) s))"

datatype task_op =
    TCreate string string "string option" "string option"
  | TTransition string string string
  | TComplete string jsval
  | TFail string jsval
  | TCancel string
  | TProgress string rat

text \<open>One call at a time; the flag is the operation's result (false also for the thrown error of \<open>create\<close>).\<close>

fun task_call :: "task_store \<Rightarrow> int \<times> task_op \<Rightarrow> bool \<times> task_store" where
  "task_call s (now, TCreate t a r n) = (case ts_create now t a r n s of None \<Rightarrow> (False, s) | Some (_, s') \<Rightarrow> (True, s'))"
| "task_call s (now, TTransition t e n) = tryTransition now t e n s"
| "task_call s (now, TComplete t v) = ts_complete now t v s"
| "task_call s (now, TFail t v) = ts_fail now t v s"
| "task_call s (now, TCancel t) = ts_cancel now t s"
| "task_call s (now, TProgress t p) = updateProgress now t p s"

definition task_step :: "task_store \<Rightarrow> int \<times> task_op \<Rightarrow> task_store" where
  "task_step s e = snd (task_call s e)"

section \<open>InMemoryIdempotencyCache\<close>

record IdempotentEntry =
  ie_actionId :: string
  ie_paramsHash :: string
  ie_result :: "jsval option"
  ie_streamFrames :: "StreamFrame list option"
  ie_anchorRef :: "string option"
  ie_taskId :: "string option"
  ie_expiresAt :: int

type_synonym idem_cache = "(string, IdempotentEntry) jsmap"

definition idem_key :: "string \<Rightarrow> string \<Rightarrow> string" where
  "idem_key actionId idempotencyKey = actionId @ [CHR 0x1F] @ idempotencyKey"

definition ic_get :: "int \<Rightarrow> string \<times> string \<Rightarrow> idem_cache \<Rightarrow> IdempotentEntry option \<times> idem_cache" where
  "ic_get now ak s = (let key = idem_key (fst ak) (snd ak) in case js_get s key of
     None \<Rightarrow> (None, s)
   | Some entry \<Rightarrow> if ie_expiresAt entry \<le> now then (None, js_delete s key) else (Some entry, s))"

definition tryStore :: "int \<Rightarrow> string \<times> string \<Rightarrow> IdempotentEntry \<Rightarrow> idem_cache \<Rightarrow> bool \<times> idem_cache" where
  "tryStore now ak entry s = (let key = idem_key (fst ak) (snd ak) in case js_get s key of
     None \<Rightarrow> (True, js_set s key entry)
   | Some existing \<Rightarrow>
       if ie_expiresAt existing \<le> now then (True, js_set (js_delete s key) key entry)
       else (ie_paramsHash existing = ie_paramsHash entry, s))"

definition ic_purgeExpired :: "int \<Rightarrow> idem_cache \<Rightarrow> nat \<times> idem_cache" where
  "ic_purgeExpired now s =
     (length (filter (\<lambda>(k, e). ie_expiresAt e \<le> now) s), js_filter (\<lambda>k e. \<not> ie_expiresAt e \<le> now) s)"

datatype idem_op = IGet string string | IStore string string IdempotentEntry | IPurge

fun idem_step :: "idem_cache \<Rightarrow> int \<times> idem_op \<Rightarrow> idem_cache" where
  "idem_step s (now, IGet a k) = snd (ic_get now (a, k) s)"
| "idem_step s (now, IStore a k e) = snd (tryStore now (a, k) e s)"
| "idem_step s (now, IPurge) = snd (ic_purgeExpired now s)"

section \<open>Task states\<close>

text \<open>The outcome of a task: its status, result and error, once the status is terminal.\<close>

definition task_outcome :: "task_store \<Rightarrow> string \<Rightarrow> (string \<times> jsval option \<times> jsval option) option" where
  "task_outcome s t = (case js_get s t of None \<Rightarrow> None
     | Some rc \<Rightarrow> if tr_status rc \<in> set TERMINAL then Some (tr_status rc, tr_result rc, tr_error rc) else None)"

text \<open>Calls that do not ask to leave a terminal status.\<close>

fun op_regular :: "task_op \<Rightarrow> bool" where
  "op_regular (TTransition t expected next) = (expected \<notin> set TERMINAL)"
| "op_regular _ = True"

definition regular_step :: "task_store \<Rightarrow> int \<times> task_op \<Rightarrow> task_store" where
  "regular_step s e = (if op_regular (snd e) then task_step s e else s)"

lemmas task_op_defs = ts_create_def tryTransition_def ts_complete_def ts_fail_def ts_cancel_def updateProgress_def

lemma task_step_outcome:
  assumes "task_outcome s t = Some x" "op_regular (snd e)"
  shows "task_outcome (task_step s e) t = Some x"
proof -
  obtain now op where e: "e = (now, op)" by (cases e)
  from assms(1) obtain rc where rc: "js_get s t = Some rc" "tr_status rc \<in> set TERMINAL" "x = (tr_status rc, tr_result rc, tr_error rc)"
    by (auto simp: task_outcome_def split: option.splits if_splits)
  show ?thesis
    using assms(2) rc unfolding e task_step_def
    by (cases op) (auto simp: task_outcome_def js_get_set task_op_defs Let_def js_has_get split: option.splits)
qed

interpretation task_final: final_machine regular_step "\<lambda>s. True" task_outcome
  by unfold_locales (auto simp: regular_step_def task_step_outcome)

lemma regular_run: "\<forall>e \<in> set es. op_regular (snd e) \<Longrightarrow> run regular_step s es = run task_step s es"
  by (induction es arbitrary: s) (auto simp: regular_step_def)

text \<open>A task ends once. Over any calls of the store that do not ask for a transition out of a
  terminal status, a task that has completed, failed or been cancelled keeps that status, its result
  and its error, and any further \<open>complete\<close>, \<open>fail\<close> or \<open>cancel\<close> of it returns false.\<close>

theorem task_ends_once:
  assumes "task_outcome s t = Some x" "\<forall>e \<in> set es. op_regular (snd e)"
  shows "task_outcome (run task_step s es) t = Some x \<and> \<not> fst (ts_complete now t v (run task_step s es)) \<and>
    \<not> fst (ts_fail now t v (run task_step s es)) \<and> \<not> fst (ts_cancel now t (run task_step s es))"
proof -
  have o: "task_outcome (run task_step s es) t = Some x"
    using task_final.run_outcome [OF _ assms(1), of es] regular_run [OF assms(2)] by simp
  then obtain rc where "js_get (run task_step s es) t = Some rc" "tr_status rc \<in> set TERMINAL"
    by (auto simp: task_outcome_def split: option.splits if_splits)
  with o show ?thesis by (simp add: ts_complete_def ts_fail_def ts_cancel_def)
qed

theorem task_ends_once_witness:
  "let s = run task_step [] [(1, TCreate ''t'' ''a'' None None), (2, TTransition ''t'' ''pending'' ''running''), (3, TComplete ''t'' JNull)] in
   task_outcome (run task_step s [(4, TFail ''t'' JNull), (5, TCancel ''t'')]) ''t'' = Some (''completed'', Some JNull, None)"
proof -
  let ?s = "run task_step [] [(1, TCreate ''t'' ''a'' None None), (2, TTransition ''t'' ''pending'' ''running''), (3, TComplete ''t'' JNull)]"
  have "task_outcome ?s ''t'' = Some (''completed'', Some JNull, None)"
    by (simp add: task_step_def task_op_defs task_outcome_def TERMINAL_def js_has_get Let_def)
  from task_ends_once [OF this, of "[(4, TFail ''t'' JNull), (5, TCancel ''t'')]"] show ?thesis by simp
qed

section \<open>Idempotency\<close>

lemma idem_key_inject:
  "CHR 0x1F \<notin> set a \<Longrightarrow> CHR 0x1F \<notin> set a' \<Longrightarrow> idem_key a k = idem_key a' k' \<longleftrightarrow> a = a' \<and> k = k'"
proof (induction a arbitrary: a')
  case Nil
  then show ?case by (cases a') (auto simp: idem_key_def)
next
  case (Cons c a)
  then show ?case by (cases a') (auto simp: idem_key_def)
qed

definition ic_live :: "int \<Rightarrow> idem_cache \<Rightarrow> string \<times> string \<Rightarrow> IdempotentEntry option" where
  "ic_live now s ak = (case js_get s (idem_key (fst ak) (snd ak)) of None \<Rightarrow> None
     | Some e \<Rightarrow> if ie_expiresAt e \<le> now then None else Some e)"

interpretation idem_store: expiring_store ic_get ic_live js_wf
proof
  fix s :: idem_cache and now now' :: int and k k' :: "string \<times> string"
  assume i: "js_wf s"
  show "fst (ic_get now k s) = ic_live now s k" by (simp add: ic_get_def ic_live_def Let_def split: option.splits)
  show "js_wf (snd (ic_get now k s))" using i by (simp add: ic_get_def Let_def split: option.splits)
  assume "now \<le> now'"
  then show "ic_live now' (snd (ic_get now k s)) k' = ic_live now' s k'"
    by (auto simp: ic_get_def ic_live_def js_get_delete Let_def split: option.splits)
next
  fix s :: idem_cache and now now' :: int and k v
  assume "now \<le> now'" "ic_live now' s k = Some v"
  then show "ic_live now s k = Some v" by (auto simp: ic_live_def split: option.splits if_splits)
qed

lemma idem_step_wf: "js_wf s \<Longrightarrow> js_wf (idem_step s e)"
  by (cases "(s, e)" rule: idem_step.cases)
    (auto simp: ic_get_def tryStore_def ic_purgeExpired_def Let_def split: option.splits)

lemma idem_step_keeps:
  assumes "js_wf s" "js_get s (idem_key a k) = Some entry" "fst e < ie_expiresAt entry"
  shows "js_get (idem_step s e) (idem_key a k) = Some entry"
  using assms
  by (cases "(s, e)" rule: idem_step.cases)
    (auto simp: ic_get_def tryStore_def ic_purgeExpired_def Let_def js_get_set js_get_delete js_get_filter split: option.splits)

lemma idem_run_keeps:
  assumes "js_wf s" "js_get s (idem_key a k) = Some entry" "\<forall>e \<in> set es. fst e < ie_expiresAt entry"
  shows "js_wf (run idem_step s es) \<and> js_get (run idem_step s es) (idem_key a k) = Some entry"
  using assms by (induction es arbitrary: s) (auto simp: idem_step_wf idem_step_keeps)

text \<open>Idempotency. Once an entry is stored under an action and a key, then over any reads, stores
  and purges before it expires, a read returns that very entry, a store of other parameters is
  refused, and a store of the same parameters is accepted without replacing it; from its expiry on a
  read finds nothing and a store succeeds.\<close>

theorem idempotency_first_wins:
  assumes "js_wf s" "tryStore t0 (a, k) entry s = (True, s0)" "js_get s0 (idem_key a k) = Some entry"
    and "\<forall>e \<in> set es. fst e < ie_expiresAt entry"
  shows "let s' = run idem_step s0 es in
    if now < ie_expiresAt entry
    then fst (ic_get now (a, k) s') = Some entry \<and> tryStore now (a, k) other s' = (ie_paramsHash other = ie_paramsHash entry, s')
    else fst (ic_get now (a, k) s') = None \<and> fst (tryStore now (a, k) other s') \<and>
      js_get (snd (tryStore now (a, k) other s')) (idem_key a k) = Some other"
proof -
  have "js_wf s0" using assms(1,2) by (auto simp: tryStore_def Let_def split: option.splits if_splits)
  from idem_run_keeps [OF this assms(3,4)] have s': "js_wf (run idem_step s0 es)" "js_get (run idem_step s0 es) (idem_key a k) = Some entry" by auto
  then show ?thesis
    using idem_store.get_live [OF s'(1), of now "(a, k)"] by (auto simp: Let_def tryStore_def ic_live_def)
qed

theorem idempotency_first_wins_witness:
  "let e = \<lparr>ie_actionId = ''a'', ie_paramsHash = ''h1'', ie_result = None, ie_streamFrames = None, ie_anchorRef = None, ie_taskId = None, ie_expiresAt = 100\<rparr>;
       s0 = snd (tryStore 0 (''a'', ''k'') e []); s' = run idem_step s0 [(10, IStore ''a'' ''k'' (e\<lparr>ie_paramsHash := ''h2''\<rparr>)), (20, IPurge)]
   in fst (ic_get 99 (''a'', ''k'') s') = Some e \<and> \<not> fst (tryStore 99 (''a'', ''k'') (e\<lparr>ie_paramsHash := ''h2''\<rparr>) s')"
proof -
  let ?e = "\<lparr>ie_actionId = ''a'', ie_paramsHash = ''h1'', ie_result = None, ie_streamFrames = None, ie_anchorRef = None, ie_taskId = None, ie_expiresAt = 100\<rparr>"
  let ?es = "[(10, IStore ''a'' ''k'' (?e\<lparr>ie_paramsHash := ''h2''\<rparr>)), (20, IPurge)]"
  obtain s0 where s0: "tryStore 0 (''a'', ''k'') ?e [] = (True, s0)" by (simp add: tryStore_def Let_def)
  then have "js_get s0 (idem_key ''a'' ''k'') = Some ?e" by (auto simp: tryStore_def Let_def)
  from idempotency_first_wins [OF js_wf_empty s0 this, of ?es 99 "?e\<lparr>ie_paramsHash := ''h2''\<rparr>"] s0
  show ?thesis by (simp add: Let_def)
qed

end
