(* ===== verification/NwpContextStore.thy ===== *)
theory NwpContextStore
  imports Prelude Contracts JsonVal
begin

text \<open>
  \<open>nwp/context-store.ts\<close>: the store of LLM contexts, with reservations, optimistic versions,
  tombstones and an idempotency table.

  The clock, the random reservation id and the candidates of the context-id factory are arguments of
  the operations that read them; an operation reads the clock once. The fingerprint of a binding (a
  SHA-256 of its canonical JSON) is the argument \<open>fp\<close>. Every operation returns the thrown error or
  its value together with the state, because an operation that throws has already swept. Expiry
  dates are epoch milliseconds, not rendered.
\<close>

section \<open>Data\<close>

datatype ctx_op = OpCreate | OpAppend | OpFork | OpReset | OpRelease

datatype ctx_state = CtxBusy | CtxActive | CtxReleased | CtxExpired | CtxFailed

datatype ctx_error = StoreError string "int option" | PlainError

record LlmMessageDto =
  ms_role :: string
  ms_content :: "string option"
  ms_toolCallId :: "string option"
  ms_toolName :: "string option"
  ms_toolCalls :: "jsval list option"

record LlmContextOwner =
  ow_nid :: string
  ow_securityScope :: string

record LlmContextBinding =
  bd_model :: string
  bd_systemMessages :: "LlmMessageDto list"
  bd_tools :: "jsval list option"
  bd_runtimeRevision :: string

record LlmContextMutationRequest =
  rq_operation :: ctx_op
  rq_owner :: LlmContextOwner
  rq_contextId :: "string option"
  rq_baseVersion :: "int option"
  rq_binding :: LlmContextBinding
  rq_messages :: "LlmMessageDto list"
  rq_ttlSeconds :: "int option"
  rq_idempotencyKey :: string
  rq_requestId :: string

record LlmContextStoreOptions =
  so_maxContextsPerPrincipal :: int
  so_defaultTtlSeconds :: int
  so_maxTtlSeconds :: int
  so_tombstoneSeconds :: int
  so_idempotencyTtlMs :: int
  so_supportedOperations :: "ctx_op list"

record ctx_entry =
  en_contextId :: string
  en_owner :: LlmContextOwner
  en_version :: int
  en_state :: ctx_state
  en_binding :: LlmContextBinding
  en_bindingFingerprint :: string
  en_transcript :: "LlmMessageDto list"
  en_ttlSeconds :: int
  en_expiresAt :: "int option"
  en_tombstoneUntil :: "int option"
  en_reservationId :: "string option"

record LlmContextReceiptDto =
  rc_contextId :: string
  rc_version :: int
  rc_operation :: ctx_op
  rc_state :: ctx_state
  rc_expiresAt :: "int option"
  rc_parentContextId :: "string option"
  rc_parentVersion :: "int option"

datatype idem_state = IdemBusy | IdemCompleted | IdemFailed

record IdempotencyEntry =
  id_state :: idem_state
  id_retainUntil :: int
  id_requestId :: "string option"
  id_reservationId :: "string option"
  id_errorCode :: "string option"
  id_receipt :: "LlmContextReceiptDto option"
  id_contextId :: "string option"
  id_baseVersion :: "int option"

record LlmContextMutationReservation =
  rv_reservationId :: string
  rv_request :: LlmContextMutationRequest
  rv_bindingFingerprint :: string
  rv_baseTranscript :: "LlmMessageDto list"
  rv_effectiveTtlSeconds :: "int option"
  rv_parentContextId :: "string option"
  rv_parentVersion :: "int option"

record ctx_store =
  cs_contexts :: "(string, ctx_entry) jsmap"
  cs_idempotency :: "(string, IdempotencyEntry) jsmap"
  cs_reservations :: "(string, LlmContextMutationReservation) jsmap"

record LlmContextStatusDto =
  st_state :: ctx_state
  st_contextId :: "string option"
  st_version :: "int option"
  st_expiresAt :: "int option"
  st_requestId :: "string option"
  st_errorCode :: "string option"

definition cs_empty :: ctx_store where
  "cs_empty = \<lparr>cs_contexts = [], cs_idempotency = [], cs_reservations = []\<rparr>"

section \<open>Private helpers\<close>

definition ctx_id_char :: "char \<Rightarrow> bool" where
  "ctx_id_char c = (let n = (of_char c :: nat) in 65 \<le> n \<and> n \<le> 90 \<or> 97 \<le> n \<and> n \<le> 122 \<or> 48 \<le> n \<and> n \<le> 57 \<or> n = 95 \<or> n = 45)"

definition validContextId :: "string \<Rightarrow> bool" where
  "validContextId v = (22 \<le> length v \<and> length v \<le> 128 \<and> list_all ctx_id_char v)"

definition paramsInvalid :: ctx_error where
  "paramsInvalid = StoreError ''NWP-ACTION-PARAMS-INVALID'' None"

definition ctx_notFound :: ctx_error where
  "ctx_notFound = StoreError ''NWP-LLM-CONTEXT-NOT-FOUND'' None"

definition ownerKey :: "LlmContextOwner \<Rightarrow> string \<Rightarrow> string \<Rightarrow> string" where
  "ownerKey ow act key = ow_nid ow @ [CHR 0x1F] @ ow_securityScope ow @ [CHR 0x1F] @ act @ [CHR 0x1F] @ key"

definition completeKey :: "LlmContextMutationRequest \<Rightarrow> string" where
  "completeKey rq = ownerKey (rq_owner rq) ''llm.complete'' (rq_idempotencyKey rq)"

definition sameOwner :: "LlmContextOwner \<Rightarrow> LlmContextOwner \<Rightarrow> bool" where
  "sameOwner a b = (ow_nid a = ow_nid b \<and> ow_securityScope a = ow_securityScope b)"

definition clampTtl :: "LlmContextStoreOptions \<Rightarrow> int \<Rightarrow> int" where
  "clampTtl opts seconds = min seconds (so_maxTtlSeconds opts)"

definition sweep_entry :: "LlmContextStoreOptions \<Rightarrow> int \<Rightarrow> ctx_entry \<Rightarrow> ctx_entry" where
  "sweep_entry opts now e =
     (if en_state e = CtxActive \<and> en_reservationId e = None \<and> (case en_expiresAt e of None \<Rightarrow> False | Some x \<Rightarrow> x \<le> now)
      then e\<lparr>en_state := CtxExpired, en_expiresAt := None, en_tombstoneUntil := Some (now + so_tombstoneSeconds opts * 1000)\<rparr>
      else e)"

definition buried :: "int \<Rightarrow> ctx_entry \<Rightarrow> bool" where
  "buried now e = ((en_state e = CtxExpired \<or> en_state e = CtxReleased) \<and>
     (case en_tombstoneUntil e of None \<Rightarrow> False | Some x \<Rightarrow> x \<le> now))"

definition idem_stale :: "int \<Rightarrow> IdempotencyEntry \<Rightarrow> bool" where
  "idem_stale now e = (id_state e \<noteq> IdemBusy \<and> id_retainUntil e \<le> now)"

definition sweep :: "LlmContextStoreOptions \<Rightarrow> int \<Rightarrow> ctx_store \<Rightarrow> nat \<times> ctx_store" where
  "sweep opts now s =
     (let ctxs = map (\<lambda>(k, e). (k, sweep_entry opts now e)) (cs_contexts s);
          changed = length (filter (\<lambda>(k, e). sweep_entry opts now e \<noteq> e) (cs_contexts s))
            + length (filter (\<lambda>(k, e). buried now e) ctxs) + length (filter (\<lambda>(k, e). idem_stale now e) (cs_idempotency s)) in
      (changed, s\<lparr>cs_contexts := js_filter (\<lambda>k e. \<not> buried now e) ctxs,
                  cs_idempotency := js_filter (\<lambda>k e. \<not> idem_stale now e) (cs_idempotency s)\<rparr>))"

text \<open>The checks of \<open>validateRequest\<close>, in order; \<open>None\<close> when all pass.\<close>

definition validateRequest :: "LlmContextMutationRequest \<Rightarrow> ctx_error option" where
  "validateRequest rq =
     (if rq_operation rq = OpRelease then Some paramsInvalid
      else if js_trim (rq_idempotencyKey rq) = [] then Some paramsInvalid
      else if (case rq_ttlSeconds rq of None \<Rightarrow> False | Some t \<Rightarrow> t \<le> 0) then Some paramsInvalid
      else if rq_operation rq = OpCreate \<and> (rq_contextId rq \<noteq> None \<or> rq_baseVersion rq \<noteq> None) then Some paramsInvalid
      else if rq_operation rq \<noteq> OpCreate \<and> (rq_contextId rq = None \<or> rq_baseVersion rq = None) then Some paramsInvalid
      else if rq_operation rq \<noteq> OpCreate \<and> \<not> validContextId (the (rq_contextId rq)) then Some paramsInvalid
      else if rq_operation rq \<noteq> OpFork \<and> rq_messages rq = [] then Some paramsInvalid
      else if (rq_operation rq = OpAppend \<or> rq_operation rq = OpFork) \<and>
              list_ex (\<lambda>m. js_toLowerCase (ms_role m) = ''system'') (rq_messages rq)
      then Some (StoreError ''NWP-LLM-CONTEXT-BINDING-MISMATCH'' None)
      else None)"

definition effectiveTtl :: "LlmContextStoreOptions \<Rightarrow> int \<Rightarrow> LlmContextMutationRequest \<Rightarrow> ctx_entry \<Rightarrow> int option" where
  "effectiveTtl opts now rq e = (case rq_ttlSeconds rq of
     Some t \<Rightarrow> Some (clampTtl opts t)
   | None \<Rightarrow>
       if rq_operation rq = OpFork
       then (case en_expiresAt e of None \<Rightarrow> None | Some x \<Rightarrow> Some (max 1 (- ((now - x) div 1000))))
       else if en_ttlSeconds e = 0 then None else Some (en_ttlSeconds e))"

definition live_contexts :: "LlmContextOwner \<Rightarrow> ctx_store \<Rightarrow> nat" where
  "live_contexts ow s = length (filter (\<lambda>(k, e). sameOwner (en_owner e) ow \<and> en_state e = CtxActive) (cs_contexts s))"

definition allocates :: "LlmContextOwner \<Rightarrow> LlmContextMutationReservation \<Rightarrow> bool" where
  "allocates ow rv = (sameOwner (rq_owner (rv_request rv)) ow \<and>
     (rq_operation (rv_request rv) = OpCreate \<or> rq_operation (rv_request rv) = OpFork))"

definition pending_contexts :: "LlmContextOwner \<Rightarrow> ctx_store \<Rightarrow> nat" where
  "pending_contexts ow s = length (filter (\<lambda>(k, rv). allocates ow rv) (cs_reservations s))"

definition allocationAvailable :: "LlmContextStoreOptions \<Rightarrow> LlmContextOwner \<Rightarrow> ctx_store \<Rightarrow> bool" where
  "allocationAvailable opts ow s = (\<not> int (live_contexts ow s + pending_contexts ow s) \<ge> so_maxContextsPerPrincipal opts)"

definition limitExceeded :: ctx_error where
  "limitExceeded = StoreError ''NWP-LLM-CONTEXT-LIMIT-EXCEEDED'' None"

definition requireMutable :: "LlmContextOwner \<Rightarrow> string \<Rightarrow> ctx_store \<Rightarrow> ctx_error + ctx_entry" where
  "requireMutable ow cid s = (case js_get (cs_contexts s) cid of
     None \<Rightarrow> Inl ctx_notFound
   | Some e \<Rightarrow>
       if \<not> sameOwner (en_owner e) ow then Inl (StoreError ''NWP-LLM-CONTEXT-FORBIDDEN'' None)
       else if en_state e = CtxExpired then Inl (StoreError ''NWP-LLM-CONTEXT-EXPIRED'' (Some (en_version e)))
       else if en_state e = CtxReleased then Inl ctx_notFound
       else Inr e)"

definition newReservation :: "(LlmContextBinding \<Rightarrow> string) \<Rightarrow> string \<Rightarrow> LlmContextMutationRequest \<Rightarrow> LlmMessageDto list \<Rightarrow> int option
    \<Rightarrow> string option \<Rightarrow> int option \<Rightarrow> LlmContextMutationReservation" where
  "newReservation fp rid rq transcript ttl parentId parentVersion =
     \<lparr>rv_reservationId = rid, rv_request = rq, rv_bindingFingerprint = fp (rq_binding rq), rv_baseTranscript = transcript,
      rv_effectiveTtlSeconds = ttl, rv_parentContextId = parentId, rv_parentVersion = parentVersion\<rparr>"

text \<open>At most eight candidates of the context-id factory.\<close>

fun nextContextId :: "nat \<Rightarrow> (nat \<Rightarrow> string) \<Rightarrow> ctx_store \<Rightarrow> ctx_error + string" where
  "nextContextId 0 factory s = Inl PlainError"
| "nextContextId (Suc n) factory s =
     (let cid = factory (8 - Suc n) in
      if \<not> validContextId cid then Inl paramsInvalid
      else if \<not> js_has (cs_contexts s) cid then Inr cid
      else nextContextId n factory s)"

section \<open>Operations\<close>

definition versionConflict :: "ctx_entry \<Rightarrow> ctx_error" where
  "versionConflict e = StoreError ''NWP-LLM-CONTEXT-VERSION-CONFLICT'' (Some (en_version e))"

definition set_reservation :: "string \<Rightarrow> string option \<Rightarrow> ctx_store \<Rightarrow> ctx_store" where
  "set_reservation cid rid s = (case js_get (cs_contexts s) cid of None \<Rightarrow> s
     | Some e \<Rightarrow> s\<lparr>cs_contexts := js_set (cs_contexts s) cid (e\<lparr>en_reservationId := rid\<rparr>)\<rparr>)"

text \<open>The last part of \<open>reserve\<close>: record the reservation and the busy outcome.\<close>

definition record_reservation :: "LlmContextStoreOptions \<Rightarrow> int \<Rightarrow> LlmContextMutationReservation \<Rightarrow> ctx_store \<Rightarrow> ctx_store" where
  "record_reservation opts now rv s =
     s\<lparr>cs_reservations := js_set (cs_reservations s) (rv_reservationId rv) rv,
       cs_idempotency := js_set (cs_idempotency s) (completeKey (rv_request rv))
         \<lparr>id_state = IdemBusy, id_retainUntil = now + so_idempotencyTtlMs opts, id_requestId = Some (rq_requestId (rv_request rv)),
          id_reservationId = Some (rv_reservationId rv), id_errorCode = None, id_receipt = None, id_contextId = None, id_baseVersion = None\<rparr>\<rparr>"

text \<open>\<open>reserve\<close> after the sweep.\<close>

definition reserve_swept :: "LlmContextStoreOptions \<Rightarrow> (LlmContextBinding \<Rightarrow> string) \<Rightarrow> int \<Rightarrow> string \<Rightarrow> LlmContextMutationRequest \<Rightarrow> ctx_store
    \<Rightarrow> (ctx_error + LlmContextMutationReservation) \<times> ctx_store" where
  "reserve_swept opts fp now rid rq s =
     (case validateRequest rq of Some err \<Rightarrow> (Inl err, s) | None \<Rightarrow>
      if rq_operation rq \<notin> set (so_supportedOperations opts) then (Inl (StoreError ''NWP-LLM-CONTEXT-OPERATION-UNSUPPORTED'' None), s)
      else if js_has (cs_idempotency s) (completeKey rq) then (Inl (StoreError ''NWP-ACTION-IDEMPOTENCY-CONFLICT'' None), s)
      else if rq_operation rq = OpCreate
      then if \<not> allocationAvailable opts (rq_owner rq) s then (Inl limitExceeded, s)
           else let rv = newReservation fp rid rq []
                  (Some (clampTtl opts (case rq_ttlSeconds rq of None \<Rightarrow> so_defaultTtlSeconds opts | Some t \<Rightarrow> t))) None None in
             (Inr rv, record_reservation opts now rv s)
      else case requireMutable (rq_owner rq) (the (rq_contextId rq)) s of Inl err \<Rightarrow> (Inl err, s) | Inr e \<Rightarrow>
        if en_reservationId e \<noteq> None \<or> Some (en_version e) \<noteq> rq_baseVersion rq then (Inl (versionConflict e), s)
        else if (rq_operation rq = OpAppend \<or> rq_operation rq = OpFork) \<and> en_bindingFingerprint e \<noteq> fp (rq_binding rq)
        then (Inl (StoreError ''NWP-LLM-CONTEXT-BINDING-MISMATCH'' None), s)
        else if rq_operation rq = OpFork \<and> \<not> allocationAvailable opts (rq_owner rq) s then (Inl limitExceeded, s)
        else let rv = newReservation fp rid rq (en_transcript e) (effectiveTtl opts now rq e)
                  (if rq_operation rq = OpFork then Some (en_contextId e) else None)
                  (if rq_operation rq = OpFork then Some (en_version e) else None);
                 s = (if rq_operation rq \<noteq> OpFork then set_reservation (the (rq_contextId rq)) (Some rid) s else s) in
          (Inr rv, record_reservation opts now rv s))"

definition reserve :: "LlmContextStoreOptions \<Rightarrow> (LlmContextBinding \<Rightarrow> string) \<Rightarrow> int \<Rightarrow> string \<Rightarrow> LlmContextMutationRequest \<Rightarrow> ctx_store
    \<Rightarrow> (ctx_error + LlmContextMutationReservation) \<times> ctx_store" where
  "reserve opts fp now rid rq s = reserve_swept opts fp now rid rq (snd (sweep opts now s))"

definition requireReservation :: "LlmContextMutationReservation \<Rightarrow> ctx_store \<Rightarrow> bool" where
  "requireReservation rv s = (js_get (cs_reservations s) (rv_reservationId rv) = Some rv)"

definition completeIdempotency :: "LlmContextStoreOptions \<Rightarrow> int \<Rightarrow> LlmContextMutationReservation \<Rightarrow> LlmContextReceiptDto \<Rightarrow> ctx_store \<Rightarrow> ctx_store" where
  "completeIdempotency opts now rv receipt s = s\<lparr>cs_idempotency := js_set (cs_idempotency s) (completeKey (rv_request rv))
     \<lparr>id_state = IdemCompleted, id_retainUntil = now + so_idempotencyTtlMs opts, id_requestId = Some (rq_requestId (rv_request rv)),
      id_reservationId = None, id_errorCode = None, id_receipt = Some receipt, id_contextId = None, id_baseVersion = None\<rparr>\<rparr>"

text \<open>The entry a commit writes: a new one for \<open>create\<close> and \<open>fork\<close>, the changed one otherwise.\<close>

definition committed_new :: "LlmContextMutationReservation \<Rightarrow> string \<Rightarrow> int option \<Rightarrow> LlmMessageDto \<Rightarrow> ctx_entry" where
  "committed_new rv cid expiry assistant =
     \<lparr>en_contextId = cid, en_owner = rq_owner (rv_request rv), en_version = 1, en_state = CtxActive,
      en_binding = rq_binding (rv_request rv), en_bindingFingerprint = rv_bindingFingerprint rv,
      en_transcript = (if rq_operation (rv_request rv) = OpFork then rv_baseTranscript rv else []) @ rq_messages (rv_request rv) @ [assistant],
      en_ttlSeconds = (case rv_effectiveTtlSeconds rv of None \<Rightarrow> 0 | Some t \<Rightarrow> t), en_expiresAt = expiry,
      en_tombstoneUntil = None, en_reservationId = None\<rparr>"

definition committed_old :: "LlmContextMutationReservation \<Rightarrow> int option \<Rightarrow> LlmMessageDto \<Rightarrow> ctx_entry \<Rightarrow> ctx_entry" where
  "committed_old rv expiry assistant e =
     (let rq = rv_request rv;
          e = e\<lparr>en_version := en_version e + 1, en_state := CtxActive, en_reservationId := None, en_expiresAt := expiry,
                en_ttlSeconds := (case rv_effectiveTtlSeconds rv of None \<Rightarrow> 0 | Some t \<Rightarrow> t)\<rparr> in
      if rq_operation rq = OpReset
      then e\<lparr>en_binding := rq_binding rq, en_bindingFingerprint := rv_bindingFingerprint rv, en_transcript := rq_messages rq @ [assistant]\<rparr>
      else e\<lparr>en_transcript := en_transcript e @ rq_messages rq @ [assistant]\<rparr>)"

definition finish_commit :: "LlmContextStoreOptions \<Rightarrow> int \<Rightarrow> LlmContextMutationReservation \<Rightarrow> ctx_entry \<Rightarrow> int option \<Rightarrow> ctx_store
    \<Rightarrow> LlmContextReceiptDto \<times> ctx_store" where
  "finish_commit opts now rv e expiry s =
     (let receipt = \<lparr>rc_contextId = en_contextId e, rc_version = en_version e, rc_operation = rq_operation (rv_request rv), rc_state = CtxActive,
            rc_expiresAt = expiry, rc_parentContextId = rv_parentContextId rv, rc_parentVersion = rv_parentVersion rv\<rparr>;
          s = s\<lparr>cs_contexts := js_set (cs_contexts s) (en_contextId e) e\<rparr>;
          s = completeIdempotency opts now rv receipt s in
      (receipt, s\<lparr>cs_reservations := js_delete (cs_reservations s) (rv_reservationId rv)\<rparr>))"

definition commit :: "LlmContextStoreOptions \<Rightarrow> int \<Rightarrow> (nat \<Rightarrow> string) \<Rightarrow> LlmContextMutationReservation \<Rightarrow> LlmMessageDto \<Rightarrow> ctx_store
    \<Rightarrow> (ctx_error + LlmContextReceiptDto) \<times> ctx_store" where
  "commit opts now factory rv assistant s =
     (if \<not> requireReservation rv s then (Inl PlainError, s)
      else let rq = rv_request rv;
               expiry = map_option (\<lambda>t. now + t * 1000) (rv_effectiveTtlSeconds rv) in
        if rq_operation rq = OpCreate \<or> rq_operation rq = OpFork
        then (case nextContextId 8 factory s of
            Inl err \<Rightarrow> (Inl err, s)
          | Inr cid \<Rightarrow> apfst Inr (finish_commit opts now rv (committed_new rv cid expiry assistant) expiry s))
        else (case js_get (cs_contexts s) (the (rq_contextId rq)) of
            None \<Rightarrow> (Inl ctx_notFound, s)
          | Some e \<Rightarrow> apfst Inr (finish_commit opts now rv (committed_old rv expiry assistant e) expiry s)))"

definition clearReservation :: "LlmContextMutationReservation \<Rightarrow> ctx_store \<Rightarrow> ctx_store" where
  "clearReservation rv s = (case rq_contextId (rv_request rv) of None \<Rightarrow> s
     | Some cid \<Rightarrow> (case js_get (cs_contexts s) cid of None \<Rightarrow> s
         | Some e \<Rightarrow> if en_reservationId e = Some (rv_reservationId rv) then set_reservation cid None s else s))"

definition abort :: "LlmContextStoreOptions \<Rightarrow> int \<Rightarrow> LlmContextMutationReservation \<Rightarrow> string option \<Rightarrow> ctx_store \<Rightarrow> (ctx_error + unit) \<times> ctx_store" where
  "abort opts now rv errorCode s =
     (if \<not> requireReservation rv s then (Inl PlainError, s)
      else let s = clearReservation rv s;
               s = s\<lparr>cs_reservations := js_delete (cs_reservations s) (rv_reservationId rv)\<rparr>;
               s = s\<lparr>cs_idempotency := js_set (cs_idempotency s) (completeKey (rv_request rv))
                 \<lparr>id_state = IdemFailed, id_retainUntil = now + so_idempotencyTtlMs opts, id_requestId = Some (rq_requestId (rv_request rv)),
                  id_reservationId = None, id_errorCode = errorCode, id_receipt = None, id_contextId = None, id_baseVersion = None\<rparr>\<rparr> in
        (Inr (), snd (sweep opts now s)))"

definition release_swept :: "LlmContextStoreOptions \<Rightarrow> int \<Rightarrow> LlmContextOwner \<Rightarrow> string \<Rightarrow> int \<Rightarrow> string \<Rightarrow> ctx_store
    \<Rightarrow> (ctx_error + LlmContextReceiptDto) \<times> ctx_store" where
  "release_swept opts now ow cid baseVersion idemKey s =
     (if OpRelease \<notin> set (so_supportedOperations opts) then (Inl (StoreError ''NWP-LLM-CONTEXT-OPERATION-UNSUPPORTED'' None), s)
      else if \<not> validContextId cid \<or> js_trim idemKey = [] then (Inl paramsInvalid, s)
      else let key = ownerKey ow ''llm.context.release'' idemKey in
      case js_get (cs_idempotency s) key of
        Some prior \<Rightarrow>
          (case (id_state prior, id_receipt prior) of
             (IdemCompleted, Some receipt) \<Rightarrow>
               if id_contextId prior = Some cid \<and> id_baseVersion prior = Some baseVersion then (Inr receipt, s)
               else (Inl (StoreError ''NWP-ACTION-IDEMPOTENCY-CONFLICT'' None), s)
           | _ \<Rightarrow> (Inl (StoreError ''NWP-ACTION-IDEMPOTENCY-CONFLICT'' None), s))
      | None \<Rightarrow> (case requireMutable ow cid s of Inl err \<Rightarrow> (Inl err, s) | Inr e \<Rightarrow>
          if en_reservationId e \<noteq> None \<or> en_version e \<noteq> baseVersion then (Inl (versionConflict e), s)
          else let e = e\<lparr>en_version := en_version e + 1, en_state := CtxReleased, en_expiresAt := None,
                         en_tombstoneUntil := Some (now + so_tombstoneSeconds opts * 1000)\<rparr>;
                   receipt = \<lparr>rc_contextId = cid, rc_version = en_version e, rc_operation = OpRelease, rc_state = CtxReleased,
                              rc_expiresAt = None, rc_parentContextId = None, rc_parentVersion = None\<rparr> in
            (Inr receipt, s\<lparr>cs_contexts := js_set (cs_contexts s) cid e,
               cs_idempotency := js_set (cs_idempotency s) key
                 \<lparr>id_state = IdemCompleted, id_retainUntil = now + so_idempotencyTtlMs opts, id_requestId = None, id_reservationId = None,
                  id_errorCode = None, id_receipt = Some receipt, id_contextId = Some cid, id_baseVersion = Some baseVersion\<rparr>\<rparr>)))"

definition release :: "LlmContextStoreOptions \<Rightarrow> int \<Rightarrow> LlmContextOwner \<Rightarrow> string \<Rightarrow> int \<Rightarrow> string \<Rightarrow> ctx_store
    \<Rightarrow> (ctx_error + LlmContextReceiptDto) \<times> ctx_store" where
  "release opts now ow cid baseVersion idemKey s = release_swept opts now ow cid baseVersion idemKey (snd (sweep opts now s))"

text \<open>\<open>status\<close> after the sweep, by context id and by idempotency key. (The nested call of \<open>status\<close> in
  \<open>statusFromReceipt\<close> sweeps again at the same time, which changes nothing.)\<close>

definition status_by_id :: "LlmContextOwner \<Rightarrow> string \<Rightarrow> ctx_store \<Rightarrow> ctx_error + LlmContextStatusDto" where
  "status_by_id ow cid s =
     (if \<not> validContextId cid then Inl paramsInvalid
      else case js_get (cs_contexts s) cid of None \<Rightarrow> Inl ctx_notFound | Some e \<Rightarrow>
        if \<not> sameOwner (en_owner e) ow then Inl (StoreError ''NWP-LLM-CONTEXT-FORBIDDEN'' None)
        else Inr \<lparr>st_state = (if en_reservationId e = None then en_state e else CtxBusy), st_contextId = Some (en_contextId e),
                  st_version = Some (en_version e), st_expiresAt = en_expiresAt e,
                  st_requestId = (case en_reservationId e of None \<Rightarrow> None
                    | Some rid \<Rightarrow> map_option (\<lambda>rv. rq_requestId (rv_request rv)) (js_get (cs_reservations s) rid)),
                  st_errorCode = None\<rparr>)"

definition status_by_key :: "LlmContextOwner \<Rightarrow> string \<Rightarrow> ctx_store \<Rightarrow> ctx_error + LlmContextStatusDto" where
  "status_by_key ow key s = (case js_get (cs_idempotency s) (ownerKey ow ''llm.complete'' key) of
     None \<Rightarrow> Inl ctx_notFound
   | Some oc \<Rightarrow>
     (case id_state oc of
        IdemBusy \<Rightarrow> Inr \<lparr>st_state = CtxBusy, st_contextId = None, st_version = None, st_expiresAt = None, st_requestId = id_requestId oc, st_errorCode = None\<rparr>
      | IdemFailed \<Rightarrow> Inr \<lparr>st_state = CtxFailed, st_contextId = None, st_version = None, st_expiresAt = None, st_requestId = id_requestId oc, st_errorCode = id_errorCode oc\<rparr>
      | IdemCompleted \<Rightarrow> (case id_receipt oc of None \<Rightarrow> Inl PlainError | Some receipt \<Rightarrow>
          if js_has (cs_contexts s) (rc_contextId receipt) then status_by_id ow (rc_contextId receipt) s
          else Inr \<lparr>st_state = rc_state receipt, st_contextId = Some (rc_contextId receipt), st_version = Some (rc_version receipt),
                    st_expiresAt = rc_expiresAt receipt, st_requestId = None, st_errorCode = None\<rparr>)))"

definition ctx_status :: "LlmContextStoreOptions \<Rightarrow> int \<Rightarrow> LlmContextOwner \<Rightarrow> string option \<Rightarrow> string option \<Rightarrow> ctx_store
    \<Rightarrow> (ctx_error + LlmContextStatusDto) \<times> ctx_store" where
  "ctx_status opts now ow cid key s =
     (let s = snd (sweep opts now s) in
      (case (cid, key) of
         (Some c, None) \<Rightarrow> status_by_id ow c s
       | (None, Some k) \<Rightarrow> status_by_key ow k s
       | _ \<Rightarrow> Inl paramsInvalid, s))"

record LlmContextSnapshot =
  sn_contextId :: string
  sn_version :: int
  sn_state :: ctx_state
  sn_transcript :: "LlmMessageDto list"
  sn_binding :: LlmContextBinding
  sn_expiresAt :: "int option"

definition snapshot :: "LlmContextStoreOptions \<Rightarrow> int \<Rightarrow> LlmContextOwner \<Rightarrow> string \<Rightarrow> ctx_store \<Rightarrow> (ctx_error + LlmContextSnapshot) \<times> ctx_store" where
  "snapshot opts now ow cid s = (let s = snd (sweep opts now s) in
     (case requireMutable ow cid s of Inl err \<Rightarrow> Inl err
      | Inr e \<Rightarrow> Inr \<lparr>sn_contextId = en_contextId e, sn_version = en_version e, sn_state = en_state e, sn_transcript = en_transcript e,
          sn_binding = en_binding e, sn_expiresAt = en_expiresAt e\<rparr>, s))"

section \<open>Reachable stores\<close>

inductive ctx_reachable :: "LlmContextStoreOptions \<Rightarrow> (LlmContextBinding \<Rightarrow> string) \<Rightarrow> ctx_store \<Rightarrow> bool"
  for opts :: LlmContextStoreOptions and fp :: "LlmContextBinding \<Rightarrow> string" where
  r_empty: "ctx_reachable opts fp cs_empty"
| r_reserve: "ctx_reachable opts fp s \<Longrightarrow> js_get (cs_reservations s) rid = None \<Longrightarrow> ctx_reachable opts fp (snd (reserve opts fp now rid rq s))"
| r_commit: "ctx_reachable opts fp s \<Longrightarrow> ctx_reachable opts fp (snd (commit opts now factory rv assistant s))"
| r_abort: "ctx_reachable opts fp s \<Longrightarrow> ctx_reachable opts fp (snd (abort opts now rv err s))"
| r_release: "ctx_reachable opts fp s \<Longrightarrow> ctx_reachable opts fp (snd (release opts now ow cid base key s))"
| r_status: "ctx_reachable opts fp s \<Longrightarrow> ctx_reachable opts fp (snd (ctx_status opts now ow c k s))"
| r_snapshot: "ctx_reachable opts fp s \<Longrightarrow> ctx_reachable opts fp (snd (snapshot opts now ow cid s))"
| r_sweep: "ctx_reachable opts fp s \<Longrightarrow> ctx_reachable opts fp (snd (sweep opts now s))"

section \<open>Counting\<close>

definition cnt :: "('v \<Rightarrow> bool) \<Rightarrow> ('k, 'v) jsmap \<Rightarrow> nat" where
  "cnt P m = length (filter (\<lambda>(k, v). P v) m)"

definition hit :: "('v \<Rightarrow> bool) \<Rightarrow> 'v option \<Rightarrow> nat" where
  "hit P x = (case x of None \<Rightarrow> 0 | Some v \<Rightarrow> if P v then 1 else 0)"

lemma hit_simps [simp]: "hit P None = 0" "hit P (Some v) = (if P v then 1 else 0)"
  by (simp_all add: hit_def)

lemma cnt_set: "js_wf m \<Longrightarrow> cnt P (js_set m k v) + hit P (js_get m k) = cnt P m + (if P v then 1 else 0)"
proof (induction m)
  case Nil
  then show ?case by (simp add: cnt_def js_set_def)
next
  case (Cons p m)
  obtain a b where p: "p = (a, b)" by (cases p)
  show ?case
  proof (cases "k = a")
    case True
    then show ?thesis by (simp add: p cnt_def js_set_def js_get_def)
  next
    case False
    then have "js_set (p # m) k v = p # js_set m k v" "js_get (p # m) k = js_get m k" by (simp_all add: p js_set_def js_get_def)
    with Cons show ?thesis by (auto simp: p cnt_def js_wf_def)
  qed
qed

lemma cnt_delete: "js_wf m \<Longrightarrow> cnt P (js_delete m k) + hit P (js_get m k) = cnt P m"
proof (induction m)
  case Nil
  then show ?case by (simp add: cnt_def js_delete_def)
next
  case (Cons p m)
  obtain a b where p: "p = (a, b)" by (cases p)
  have wf: "js_wf m" "a \<notin> fst ` set m" using Cons.prems p by (auto simp: js_wf_def)
  show ?case
  proof (cases "k = a")
    case True
    have "js_get m a = None" using wf(2) by (simp add: js_get_def map_of_eq_None_iff)
    with Cons.IH [OF wf(1)] True show ?thesis by (simp add: p cnt_def js_delete_def js_get_def)
  next
    case False
    with Cons.IH [OF wf(1)] show ?thesis by (auto simp: p cnt_def js_delete_def js_get_def)
  qed
qed

lemma cnt_filter_le: "cnt P (js_filter Q m) \<le> cnt P m"
  by (induction m) (auto simp: cnt_def js_filter_def)

lemma cnt_map_le: "(\<And>v. P (f v) \<Longrightarrow> P v) \<Longrightarrow> cnt P (map (\<lambda>(k, v). (k, f v)) m) \<le> cnt P m"
  by (induction m) (auto simp: cnt_def)

lemma live_cnt: "live_contexts ow s = cnt (\<lambda>e. sameOwner (en_owner e) ow \<and> en_state e = CtxActive) (cs_contexts s)"
  by (simp add: live_contexts_def cnt_def)

lemma pending_cnt: "pending_contexts ow s = cnt (allocates ow) (cs_reservations s)"
  by (simp add: pending_contexts_def cnt_def)

section \<open>The invariant\<close>

text \<open>A context in the hands of an \<open>append\<close> or \<open>reset\<close> reservation: what the reservation was based on
  is still what the context holds.\<close>

definition rv_held :: "ctx_store \<Rightarrow> LlmContextMutationReservation \<Rightarrow> bool" where
  "rv_held s rv \<longleftrightarrow> rq_operation (rv_request rv) \<in> {OpAppend, OpReset} \<longrightarrow>
     (\<exists>cid e. rq_contextId (rv_request rv) = Some cid \<and> js_get (cs_contexts s) cid = Some e \<and>
        en_reservationId e = Some (rv_reservationId rv) \<and> en_state e = CtxActive \<and>
        rq_baseVersion (rv_request rv) = Some (en_version e) \<and> rv_baseTranscript rv = en_transcript e \<and>
        sameOwner (en_owner e) (rq_owner (rv_request rv)))"

definition ctx_inv :: "LlmContextStoreOptions \<Rightarrow> ctx_store \<Rightarrow> bool" where
  "ctx_inv opts s \<longleftrightarrow> js_wf (cs_contexts s) \<and> js_wf (cs_reservations s) \<and>
     (\<forall>k e. js_get (cs_contexts s) k = Some e \<longrightarrow> en_contextId e = k \<and> en_state e \<in> {CtxActive, CtxExpired, CtxReleased}) \<and>
     (\<forall>rid rv. js_get (cs_reservations s) rid = Some rv \<longrightarrow>
        rv_reservationId rv = rid \<and> rq_operation (rv_request rv) \<noteq> OpRelease \<and> rv_held s rv) \<and>
     (\<forall>ow. live_contexts ow s + pending_contexts ow s \<le> nat (so_maxContextsPerPrincipal opts))"

lemma ctx_invD:
  assumes "ctx_inv opts s"
  shows "js_wf (cs_contexts s)" "js_wf (cs_reservations s)"
    "js_get (cs_contexts s) k = Some e \<Longrightarrow> en_contextId e = k \<and> en_state e \<in> {CtxActive, CtxExpired, CtxReleased}"
    "js_get (cs_reservations s) rid = Some rv \<Longrightarrow> rv_reservationId rv = rid \<and> rq_operation (rv_request rv) \<noteq> OpRelease \<and> rv_held s rv"
    "live_contexts ow s + pending_contexts ow s \<le> nat (so_maxContextsPerPrincipal opts)"
  using assms unfolding ctx_inv_def by blast+

lemma ctx_invI:
  assumes "js_wf (cs_contexts s)" "js_wf (cs_reservations s)"
    "\<And>k e. js_get (cs_contexts s) k = Some e \<Longrightarrow> en_contextId e = k \<and> en_state e \<in> {CtxActive, CtxExpired, CtxReleased}"
    "\<And>rid rv. js_get (cs_reservations s) rid = Some rv \<Longrightarrow>
       rv_reservationId rv = rid \<and> rq_operation (rv_request rv) \<noteq> OpRelease \<and> rv_held s rv"
    "\<And>ow. live_contexts ow s + pending_contexts ow s \<le> nat (so_maxContextsPerPrincipal opts)"
  shows "ctx_inv opts s"
  using assms unfolding ctx_inv_def by blast

lemma ctx_inv_empty: "ctx_inv opts cs_empty"
  by (simp add: ctx_inv_def cs_empty_def live_contexts_def pending_contexts_def)

subsection \<open>Sweeping\<close>

lemma sweep_entry_simps [simp]:
  "en_contextId (sweep_entry opts now e) = en_contextId e" "en_owner (sweep_entry opts now e) = en_owner e"
  "en_reservationId (sweep_entry opts now e) = en_reservationId e" "en_version (sweep_entry opts now e) = en_version e"
  "en_transcript (sweep_entry opts now e) = en_transcript e"
  by (simp_all add: sweep_entry_def)

lemma sweep_get:
  assumes "js_wf (cs_contexts s)"
  shows "js_get (cs_contexts (snd (sweep opts now s))) k = (case js_get (cs_contexts s) k of None \<Rightarrow> None
     | Some e \<Rightarrow> if buried now (sweep_entry opts now e) then None else Some (sweep_entry opts now e))"
proof -
  have "js_wf (map (\<lambda>(k, e). (k, sweep_entry opts now e)) (cs_contexts s))"
    using assms by (simp add: js_wf_def comp_def case_prod_beta')
  moreover have "js_get (map (\<lambda>(k, e). (k, sweep_entry opts now e)) (cs_contexts s)) k = map_option (sweep_entry opts now) (js_get (cs_contexts s) k)"
    by (simp add: js_get_def map_of_map)
  ultimately show ?thesis by (simp add: sweep_def Let_def js_get_filter split: option.split)
qed

lemma sweep_reservations [simp]: "cs_reservations (snd (sweep opts now s)) = cs_reservations s"
  by (simp add: sweep_def Let_def)

lemma sweep_wf: "js_wf (cs_contexts s) \<Longrightarrow> js_wf (cs_contexts (snd (sweep opts now s)))"
  by (auto simp: sweep_def Let_def js_wf_def comp_def case_prod_beta' intro!: js_wf_filter [unfolded js_wf_def])

lemma sweep_live_le: "live_contexts ow (snd (sweep opts now s)) \<le> live_contexts ow s"
proof -
  let ?P = "\<lambda>e. sameOwner (en_owner e) ow \<and> en_state e = CtxActive"
  have "cnt ?P (cs_contexts (snd (sweep opts now s))) \<le> cnt ?P (map (\<lambda>(k, e). (k, sweep_entry opts now e)) (cs_contexts s))"
    by (simp add: sweep_def Let_def cnt_filter_le)
  also have "\<dots> \<le> cnt ?P (cs_contexts s)"
    by (rule cnt_map_le) (auto simp: sweep_entry_def split: if_splits)
  finally show ?thesis by (simp add: live_cnt)
qed

lemma sweep_held_entry:
  assumes "en_reservationId e = Some r" "en_state e = CtxActive"
  shows "sweep_entry opts now e = e" "\<not> buried now e"
  using assms by (simp_all add: sweep_entry_def buried_def)

lemma sweep_inv: "ctx_inv opts s \<Longrightarrow> ctx_inv opts (snd (sweep opts now s))"
proof -
  assume i: "ctx_inv opts s"
  note d = ctx_invD [OF i]
  let ?s = "snd (sweep opts now s)"
  have "en_contextId e = k \<and> en_state e \<in> {CtxActive, CtxExpired, CtxReleased}" if "js_get (cs_contexts ?s) k = Some e" for k e
    using that d(3) [of k] unfolding sweep_get [OF d(1)] by (fastforce simp: sweep_entry_def split: option.splits if_splits)
  moreover have "rv_held ?s rv" if "js_get (cs_reservations s) rid = Some rv" for rid rv
    using d(4) [OF that] unfolding rv_held_def sweep_get [OF d(1)] by (fastforce simp: sweep_held_entry)
  moreover have "live_contexts ow ?s + pending_contexts ow ?s \<le> nat (so_maxContextsPerPrincipal opts)" for ow
    using sweep_live_le [of ow opts now s] d(5) [of ow] by (simp add: pending_contexts_def)
  ultimately show ?thesis
    using d(2,4) sweep_wf [OF d(1)] unfolding ctx_inv_def by (metis sweep_reservations)
qed

subsection \<open>Reserving\<close>

lemma sameOwner_eq: "sameOwner a b \<longleftrightarrow> a = b"
  by (auto simp: sameOwner_def)

lemma record_reservation_simps [simp]:
  "cs_contexts (record_reservation opts now rv s) = cs_contexts s"
  "cs_reservations (record_reservation opts now rv s) = js_set (cs_reservations s) (rv_reservationId rv) rv"
  by (simp_all add: record_reservation_def)

lemma rv_held_set:
  assumes "rv_held s rv" "\<And>e. js_get (cs_contexts s) cid = Some e \<Longrightarrow> en_reservationId e \<noteq> Some (rv_reservationId rv)"
  shows "rv_held (s\<lparr>cs_contexts := js_set (cs_contexts s) cid e'\<rparr>) rv"
proof (cases "rq_operation (rv_request rv) \<in> {OpAppend, OpReset} \<and> rq_contextId (rv_request rv) = Some cid")
  case True
  then obtain e where "js_get (cs_contexts s) cid = Some e" "en_reservationId e = Some (rv_reservationId rv)"
    using assms(1) unfolding rv_held_def by (metis option.inject)
  with assms(2) show ?thesis by blast
next
  case False
  show ?thesis unfolding rv_held_def
  proof
    assume op: "rq_operation (rv_request rv) \<in> {OpAppend, OpReset}"
    with assms(1) obtain c e where e: "rq_contextId (rv_request rv) = Some c" "js_get (cs_contexts s) c = Some e \<and>
        en_reservationId e = Some (rv_reservationId rv) \<and> en_state e = CtxActive \<and>
        rq_baseVersion (rv_request rv) = Some (en_version e) \<and> rv_baseTranscript rv = en_transcript e \<and>
        sameOwner (en_owner e) (rq_owner (rv_request rv))" unfolding rv_held_def by blast
    then have "c \<noteq> cid" using False op by auto
    with e show "\<exists>c e. rq_contextId (rv_request rv) = Some c \<and> js_get (cs_contexts (s\<lparr>cs_contexts := js_set (cs_contexts s) cid e'\<rparr>)) c = Some e \<and>
        en_reservationId e = Some (rv_reservationId rv) \<and> en_state e = CtxActive \<and>
        rq_baseVersion (rv_request rv) = Some (en_version e) \<and> rv_baseTranscript rv = en_transcript e \<and>
        sameOwner (en_owner e) (rq_owner (rv_request rv))" by (intro exI [of _ c] exI [of _ e]) simp
  qed
qed

lemma record_reservation_inv:
  assumes i: "ctx_inv opts s" and fresh: "js_get (cs_reservations s) (rv_reservationId rv) = None"
    and rv: "rq_operation (rv_request rv) \<noteq> OpRelease" "rv_held s rv"
    and room: "rq_operation (rv_request rv) \<in> {OpCreate, OpFork} \<longrightarrow> allocationAvailable opts (rq_owner (rv_request rv)) s"
  shows "ctx_inv opts (record_reservation opts now rv s)"
proof -
  note d = ctx_invD [OF i]
  let ?s = "record_reservation opts now rv s"
  have live: "live_contexts ow ?s = live_contexts ow s" for ow by (simp add: live_contexts_def)
  have pend: "pending_contexts ow ?s = pending_contexts ow s + (if allocates ow rv then 1 else 0)" for ow
    using cnt_set [OF d(2), of "allocates ow" "rv_reservationId rv" rv] fresh by (simp add: pending_cnt)
  have "live_contexts ow ?s + pending_contexts ow ?s \<le> nat (so_maxContextsPerPrincipal opts)" for ow
    using room d(5) [of ow] unfolding live pend by (auto simp: allocates_def sameOwner_eq allocationAvailable_def)
  moreover have "rv_held ?s = rv_held s" by (simp add: rv_held_def fun_eq_iff)
  ultimately show ?thesis
    using d(1,2) d(3) d(4) rv by (intro ctx_invI) (auto simp only: record_reservation_simps js_get_set js_wf_set split: if_splits)
qed

text \<open>Changing one entry that no reservation holds; a live one needs a live predecessor or room.\<close>

lemma set_entry_inv:
  assumes i: "ctx_inv opts s" and e': "en_contextId e' = cid" "en_state e' \<in> {CtxActive, CtxExpired, CtxReleased}"
    and free: "\<And>e r. js_get (cs_contexts s) cid = Some e \<Longrightarrow> en_reservationId e = Some r \<Longrightarrow> js_get (cs_reservations s) r = None"
    and live: "en_state e' = CtxActive \<Longrightarrow> (\<exists>e. js_get (cs_contexts s) cid = Some e \<and> en_state e = CtxActive \<and> en_owner e = en_owner e') \<or>
      live_contexts (en_owner e') s + pending_contexts (en_owner e') s < nat (so_maxContextsPerPrincipal opts)"
  shows "ctx_inv opts (s\<lparr>cs_contexts := js_set (cs_contexts s) cid e'\<rparr>)"
proof -
  note d = ctx_invD [OF i]
  let ?s = "s\<lparr>cs_contexts := js_set (cs_contexts s) cid e'\<rparr>"
  let ?P = "\<lambda>ow e. sameOwner (en_owner e) ow \<and> en_state e = CtxActive"
  have "live_contexts ow ?s + pending_contexts ow ?s \<le> nat (so_maxContextsPerPrincipal opts)" for ow
  proof -
    have c: "live_contexts ow ?s + hit (?P ow) (js_get (cs_contexts s) cid) = live_contexts ow s + (if ?P ow e' then 1 else 0)"
      using cnt_set [OF d(1), of "?P ow" cid e'] by (simp add: live_cnt)
    have p: "pending_contexts ow ?s = pending_contexts ow s" by (simp add: pending_contexts_def)
    consider "\<not> ?P ow e'" | "?P ow e'" "hit (?P ow) (js_get (cs_contexts s) cid) = 1"
      | "?P ow e'" "live_contexts ow s + pending_contexts ow s < nat (so_maxContextsPerPrincipal opts)"
      using live unfolding sameOwner_eq hit_def by fastforce
    then show ?thesis using c d(5) [of ow] unfolding p by cases simp_all
  qed
  moreover have "rv_held ?s rv" if "js_get (cs_reservations s) rid = Some rv" for rid rv
    using d(4) [OF that] free that by (intro rv_held_set) auto
  moreover have "en_contextId e = k \<and> en_state e \<in> {CtxActive, CtxExpired, CtxReleased}" if "js_get (cs_contexts ?s) k = Some e" for k e
    using that e' d(3) [of k e] by (auto simp: js_get_set split: if_splits)
  moreover have "js_wf (cs_contexts ?s)" "cs_reservations ?s = cs_reservations s" using d(1) by simp_all
  ultimately show ?thesis using d(2,4) by (intro ctx_invI) presburger+
qed

lemma requireMutable_Inr:
  assumes "ctx_inv opts s" "requireMutable ow cid s = Inr e"
  shows "js_get (cs_contexts s) cid = Some e" "en_owner e = ow" "en_state e = CtxActive" "en_contextId e = cid"
  using assms(2) ctx_invD(3) [OF assms(1), of cid e] by (auto simp: requireMutable_def sameOwner_eq split: option.splits if_splits)

lemma set_reservation_inv:
  assumes "ctx_inv opts s" "js_get (cs_contexts s) cid = Some e" "en_reservationId e = None"
  shows "ctx_inv opts (set_reservation cid (Some rid) s)"
proof -
  have "ctx_inv opts (s\<lparr>cs_contexts := js_set (cs_contexts s) cid (e\<lparr>en_reservationId := Some rid\<rparr>)\<rparr>)"
    using assms(2,3) ctx_invD(3) [OF assms(1,2)] by (intro set_entry_inv [OF assms(1)]) auto
  then show ?thesis by (simp add: set_reservation_def assms(2))
qed

lemma validateRequest_None:
  assumes "validateRequest rq = None"
  shows "rq_operation rq \<noteq> OpRelease" "rq_operation rq \<noteq> OpCreate \<Longrightarrow> rq_contextId rq = Some (the (rq_contextId rq))"
  using assms by (auto simp: validateRequest_def split: if_splits)

lemma reserve_swept_inv:
  assumes i: "ctx_inv opts s" and fresh: "js_get (cs_reservations s) rid = None"
  shows "ctx_inv opts (snd (reserve_swept opts fp now rid rq s))"
proof (cases "fst (reserve_swept opts fp now rid rq s)")
  case (Inl err)
  then have "snd (reserve_swept opts fp now rid rq s) = s"
    by (auto simp: reserve_swept_def Let_def split: option.splits if_splits sum.splits)
  with i show ?thesis by simp
next
  case (Inr rv)
  have v: "validateRequest rq = None" using Inr by (auto simp: reserve_swept_def split: option.splits)
  note v = v validateRequest_None [OF v]
  show ?thesis
  proof (cases "rq_operation rq = OpCreate")
    case True
    have av: "allocationAvailable opts (rq_owner rq) s" and s': "snd (reserve_swept opts fp now rid rq s) = record_reservation opts now rv s"
      and rv: "rv_reservationId rv = rid" "rv_request rv = rq"
      using Inr v True by (auto simp: reserve_swept_def newReservation_def Let_def split: if_splits)
    show ?thesis unfolding s' using fresh True av by (intro record_reservation_inv [OF i]) (simp_all add: rv rv_held_def)
  next
    case False
    let ?cid = "the (rq_contextId rq)"
    obtain e where e: "requireMutable (rq_owner rq) ?cid s = Inr e" "en_reservationId e = None" "rq_baseVersion rq = Some (en_version e)"
      using Inr v False by (auto simp: reserve_swept_def split: sum.splits if_splits)
    let ?s = "if rq_operation rq \<noteq> OpFork then set_reservation ?cid (Some rid) s else s"
    have av: "rq_operation rq = OpFork \<Longrightarrow> allocationAvailable opts (rq_owner rq) s"
      and s': "snd (reserve_swept opts fp now rid rq s) = record_reservation opts now rv ?s"
      and rv: "rv_reservationId rv = rid" "rv_request rv = rq" "rv_baseTranscript rv = en_transcript e"
      using Inr v False e by (auto simp: reserve_swept_def newReservation_def Let_def split: if_splits)
    note m = requireMutable_Inr [OF i e(1)]
    have si: "ctx_inv opts ?s" using set_reservation_inv [OF i m(1) e(2)] i by simp
    have held: "rv_held ?s rv"
      using m e(2,3) rv v(3) False by (auto simp: rv_held_def set_reservation_def sameOwner_eq)
    have "cs_reservations ?s = cs_reservations s" by (simp add: set_reservation_def split: option.splits)
    then show ?thesis
      unfolding s' using fresh av False v(2) held by (intro record_reservation_inv [OF si]) (simp_all add: rv)
  qed
qed

lemma reserve_inv: "ctx_inv opts s \<Longrightarrow> js_get (cs_reservations s) rid = None \<Longrightarrow> ctx_inv opts (snd (reserve opts fp now rid rq s))"
  unfolding reserve_def by (rule reserve_swept_inv) (simp_all add: sweep_inv)

subsection \<open>Committing, aborting, releasing\<close>

lemma ctx_inv_idem [simp]: "ctx_inv opts (s\<lparr>cs_idempotency := m\<rparr>) = ctx_inv opts s"
  by (simp add: ctx_inv_def rv_held_def live_contexts_def pending_contexts_def)

lemma drop_reservation_inv:
  assumes i: "ctx_inv opts s"
  shows "ctx_inv opts (s\<lparr>cs_reservations := js_delete (cs_reservations s) rid\<rparr>)"
proof -
  note d = ctx_invD [OF i]
  let ?s = "s\<lparr>cs_reservations := js_delete (cs_reservations s) rid\<rparr>"
  have h: "rv_held ?s = rv_held s" by (simp add: rv_held_def fun_eq_iff)
  have l: "live_contexts ow ?s = live_contexts ow s" for ow by (simp add: live_contexts_def)
  have "pending_contexts ow ?s \<le> pending_contexts ow s" for ow
    using cnt_delete [OF d(2), of "allocates ow" rid] by (simp add: pending_cnt)
  then have "live_contexts ow ?s + pending_contexts ow ?s \<le> nat (so_maxContextsPerPrincipal opts)" for ow
    unfolding l using d(5) [of ow] by (meson add_le_mono order_refl order_trans)
  moreover have "rv_reservationId rv = r \<and> rq_operation (rv_request rv) \<noteq> OpRelease \<and> rv_held ?s rv"
    if "js_get (cs_reservations ?s) r = Some rv" for r rv
    using that d(4) [of r rv] unfolding h by (auto simp: js_get_delete split: if_splits)
  moreover have "cs_contexts ?s = cs_contexts s" "js_wf (cs_reservations ?s)" using d(2) by simp_all
  ultimately show ?thesis using d(1,3) by (intro ctx_invI) presburger+
qed

lemma drop_allocation_room:
  assumes "ctx_inv opts s" "js_get (cs_reservations s) rid = Some rv" "rq_operation (rv_request rv) \<in> {OpCreate, OpFork}"
  defines "s1 \<equiv> s\<lparr>cs_reservations := js_delete (cs_reservations s) rid\<rparr>" and "ow \<equiv> rq_owner (rv_request rv)"
  shows "live_contexts ow s1 + pending_contexts ow s1 < nat (so_maxContextsPerPrincipal opts)"
proof -
  note d = ctx_invD [OF assms(1)]
  have "pending_contexts ow s1 + 1 = pending_contexts ow s"
    using cnt_delete [OF d(2), of "allocates ow" rid] assms(2,3) by (auto simp: pending_cnt allocates_def sameOwner_eq s1_def ow_def)
  moreover have "live_contexts ow s1 = live_contexts ow s" by (simp add: live_contexts_def s1_def)
  ultimately show ?thesis using d(5) [of ow] by simp
qed

lemma nextContextId_fresh: "nextContextId n factory s = Inr cid \<Longrightarrow> js_get (cs_contexts s) cid = None \<and> validContextId cid"
  by (induction n factory s rule: nextContextId.induct) (auto simp: Let_def js_has_get split: if_splits)

lemma committed_simps [simp]:
  "en_contextId (committed_new rv cid x a) = cid" "en_state (committed_new rv cid x a) = CtxActive"
  "en_owner (committed_new rv cid x a) = rq_owner (rv_request rv)"
  "en_contextId (committed_old rv x a e) = en_contextId e" "en_state (committed_old rv x a e) = CtxActive"
  "en_owner (committed_old rv x a e) = en_owner e" "en_version (committed_old rv x a e) = en_version e + 1"
  by (simp_all add: committed_new_def committed_old_def Let_def)

lemma finish_commit_state:
  "\<exists>m. snd (finish_commit opts now rv e x s) =
     s\<lparr>cs_reservations := js_delete (cs_reservations s) (rv_reservationId rv)\<rparr>\<lparr>cs_contexts := js_set (cs_contexts s) (en_contextId e) e\<rparr>\<lparr>cs_idempotency := m\<rparr>"
  by (intro exI [of _ "cs_idempotency (snd (finish_commit opts now rv e x s))"] ctx_store.equality)
    (simp_all add: finish_commit_def completeIdempotency_def Let_def)

lemma finish_commit_inv:
  assumes "ctx_inv opts (s\<lparr>cs_reservations := js_delete (cs_reservations s) (rv_reservationId rv)\<rparr>\<lparr>cs_contexts := js_set (cs_contexts s) (en_contextId e) e\<rparr>)"
  shows "ctx_inv opts (snd (finish_commit opts now rv e x s))"
proof -
  obtain m where "snd (finish_commit opts now rv e x s) =
     s\<lparr>cs_reservations := js_delete (cs_reservations s) (rv_reservationId rv)\<rparr>\<lparr>cs_contexts := js_set (cs_contexts s) (en_contextId e) e\<rparr>\<lparr>cs_idempotency := m\<rparr>"
    using finish_commit_state by blast
  then show ?thesis using assms by (simp only: ctx_inv_idem)
qed

text \<open>A live reservation to append or reset finds its context unchanged.\<close>

lemma held_entry:
  assumes "ctx_inv opts s" "requireReservation rv s" "rq_operation (rv_request rv) \<notin> {OpCreate, OpFork}"
  obtains cid e where "rq_contextId (rv_request rv) = Some cid" "js_get (cs_contexts s) cid = Some e" "en_contextId e = cid"
    "en_reservationId e = Some (rv_reservationId rv)" "en_state e = CtxActive" "rq_baseVersion (rv_request rv) = Some (en_version e)"
    "rv_baseTranscript rv = en_transcript e" "en_owner e = rq_owner (rv_request rv)"
proof -
  have g: "js_get (cs_reservations s) (rv_reservationId rv) = Some rv" using assms(2) by (simp add: requireReservation_def)
  have "rq_operation (rv_request rv) \<in> {OpAppend, OpReset}"
    using ctx_invD(4) [OF assms(1) g] assms(3) by (cases "rq_operation (rv_request rv)") auto
  with ctx_invD(4) [OF assms(1) g] obtain cid e where "rq_contextId (rv_request rv) = Some cid" "js_get (cs_contexts s) cid = Some e"
    "en_reservationId e = Some (rv_reservationId rv)" "en_state e = CtxActive" "rq_baseVersion (rv_request rv) = Some (en_version e)"
    "rv_baseTranscript rv = en_transcript e" "sameOwner (en_owner e) (rq_owner (rv_request rv))" unfolding rv_held_def by blast
  with that ctx_invD(3) [OF assms(1)] show thesis by (simp add: sameOwner_eq)
qed

lemma commit_inv:
  assumes i: "ctx_inv opts s"
  shows "ctx_inv opts (snd (commit opts now factory rv assistant s))"
proof (cases "requireReservation rv s")
  case False
  with i show ?thesis by (simp add: commit_def)
next
  case rr: True
  then have g: "js_get (cs_reservations s) (rv_reservationId rv) = Some rv" by (simp add: requireReservation_def)
  let ?s = "s\<lparr>cs_reservations := js_delete (cs_reservations s) (rv_reservationId rv)\<rparr>"
  let ?x = "map_option (\<lambda>t. now + t * 1000) (rv_effectiveTtlSeconds rv)"
  note di = drop_reservation_inv [OF i, of "rv_reservationId rv"]
  show ?thesis
  proof (cases "rq_operation (rv_request rv) \<in> {OpCreate, OpFork}")
    case True
    show ?thesis
    proof (cases "nextContextId 8 factory s")
      case (Inl err)
      with i rr True show ?thesis by (simp add: commit_def Let_def)
    next
      case (Inr cid)
      have "ctx_inv opts (?s\<lparr>cs_contexts := js_set (cs_contexts ?s) cid (committed_new rv cid ?x assistant)\<rparr>)"
        using drop_allocation_room [OF i g True] nextContextId_fresh [OF Inr] by (intro set_entry_inv [OF di]) auto
      then have "ctx_inv opts (snd (finish_commit opts now rv (committed_new rv cid ?x assistant) ?x s))"
        by (intro finish_commit_inv) simp
      with rr True Inr show ?thesis by (simp add: commit_def Let_def)
    qed
  next
    case False
    from held_entry [OF i rr False] obtain cid e where e: "rq_contextId (rv_request rv) = Some cid" "js_get (cs_contexts s) cid = Some e"
      "en_contextId e = cid" "en_reservationId e = Some (rv_reservationId rv)" "en_state e = CtxActive" by metis
    have "ctx_inv opts (?s\<lparr>cs_contexts := js_set (cs_contexts ?s) cid (committed_old rv ?x assistant e)\<rparr>)"
      using e by (intro set_entry_inv [OF di]) auto
    then have "ctx_inv opts (snd (finish_commit opts now rv (committed_old rv ?x assistant e) ?x s))"
      using e(3) by (intro finish_commit_inv) simp
    with rr False e(1,2) show ?thesis by (simp add: commit_def Let_def)
  qed
qed

lemma abort_inv:
  assumes i: "ctx_inv opts s"
  shows "ctx_inv opts (snd (abort opts now rv err s))"
proof (cases "requireReservation rv s")
  case False
  with i show ?thesis by (simp add: abort_def)
next
  case True
  let ?rid = "rv_reservationId rv"
  let ?d = "\<lambda>s. s\<lparr>cs_reservations := js_delete (cs_reservations s) ?rid\<rparr>"
  note di = drop_reservation_inv [OF i, of ?rid]
  have "ctx_inv opts (?d (clearReservation rv s))"
  proof (cases "\<exists>cid e. rq_contextId (rv_request rv) = Some cid \<and> js_get (cs_contexts s) cid = Some e \<and> en_reservationId e = Some ?rid")
    case True
    then obtain cid e where e: "rq_contextId (rv_request rv) = Some cid" "js_get (cs_contexts s) cid = Some e" "en_reservationId e = Some ?rid" by blast
    have "ctx_inv opts (?d s\<lparr>cs_contexts := js_set (cs_contexts (?d s)) cid (e\<lparr>en_reservationId := None\<rparr>)\<rparr>)"
      using e ctx_invD(3) [OF i e(2)] by (intro set_entry_inv [OF di]) auto
    moreover have "?d (clearReservation rv s) = ?d s\<lparr>cs_contexts := js_set (cs_contexts (?d s)) cid (e\<lparr>en_reservationId := None\<rparr>)\<rparr>"
      using e by (simp add: clearReservation_def set_reservation_def)
    ultimately show ?thesis by metis
  next
    case False
    then have "clearReservation rv s = s" by (auto simp: clearReservation_def split: option.splits)
    with di show ?thesis by simp
  qed
  then show ?thesis using True by (simp add: abort_def Let_def sweep_inv)
qed

lemma release_inv:
  assumes "ctx_inv opts s"
  shows "ctx_inv opts (snd (release opts now ow cid base key s))"
proof -
  let ?s = "snd (sweep opts now s)"
  note i = sweep_inv [OF assms, of now]
  show ?thesis
  proof (cases "snd (release opts now ow cid base key s) = ?s")
    case True
    with i show ?thesis by simp
  next
    case False
    then obtain e m v t where e: "requireMutable ow cid ?s = Inr e" "en_reservationId e = None"
      and s': "snd (release opts now ow cid base key s) = ?s\<lparr>cs_contexts := js_set (cs_contexts ?s) cid
        (e\<lparr>en_version := v, en_state := CtxReleased, en_expiresAt := None, en_tombstoneUntil := t\<rparr>)\<rparr>\<lparr>cs_idempotency := m\<rparr>"
      by (auto simp: release_def release_swept_def Let_def split: if_splits option.splits sum.splits idem_state.splits)
    show ?thesis unfolding s' ctx_inv_idem
      using requireMutable_Inr [OF i e(1)] e(2) by (intro set_entry_inv [OF i]) auto
  qed
qed

lemma reachable_inv: "ctx_reachable opts fp s \<Longrightarrow> ctx_inv opts s"
  by (induction rule: ctx_reachable.induct)
    (auto simp: ctx_inv_empty reserve_inv commit_inv abort_inv release_inv ctx_status_def snapshot_def Let_def sweep_inv)

section \<open>Properties\<close>

text \<open>The limit on contexts. In every reachable store the live contexts of a principal, together
  with the contexts its pending reservations will allocate, never exceed the configured maximum;
  so committing a reservation never needs to check it again.\<close>

theorem context_limit:
  assumes "ctx_reachable opts fp s"
  shows "live_contexts ow s + pending_contexts ow s \<le> nat (so_maxContextsPerPrincipal opts)"
  by (rule ctx_invD(5) [OF reachable_inv [OF assms]])

lemma commit_held:
  assumes i: "ctx_inv opts s" and rr: "requireReservation rv s" and op: "rq_operation (rv_request rv) \<notin> {OpCreate, OpFork}"
  obtains cid e e' receipt s' where "rq_contextId (rv_request rv) = Some cid" "js_get (cs_contexts s) cid = Some e"
    "rq_baseVersion (rv_request rv) = Some (en_version e)" "rv_baseTranscript rv = en_transcript e" "en_state e = CtxActive"
    "e' = committed_old rv (map_option (\<lambda>t. now + t * 1000) (rv_effectiveTtlSeconds rv)) assistant e"
    "commit opts now factory rv assistant s = (Inr receipt, s')" "rc_contextId receipt = cid" "rc_version receipt = en_version e + 1"
    "cs_contexts s' = js_set (cs_contexts s) cid e'" "cs_reservations s' = js_delete (cs_reservations s) (rv_reservationId rv)"
proof -
  from held_entry [OF i rr op] obtain cid e where e: "rq_contextId (rv_request rv) = Some cid" "js_get (cs_contexts s) cid = Some e"
    "en_contextId e = cid" "en_state e = CtxActive" "rq_baseVersion (rv_request rv) = Some (en_version e)" "rv_baseTranscript rv = en_transcript e" by metis
  let ?x = "map_option (\<lambda>t. now + t * 1000) (rv_effectiveTtlSeconds rv)"
  let ?e = "committed_old rv ?x assistant e"
  obtain receipt s' where f: "finish_commit opts now rv ?e ?x s = (receipt, s')" by fastforce
  have c: "commit opts now factory rv assistant s = (Inr receipt, s')" using rr op e(1,2) f by (simp add: commit_def Let_def)
  have r: "rc_contextId receipt = cid" "rc_version receipt = en_version e + 1" "cs_contexts s' = js_set (cs_contexts s) cid ?e"
    "cs_reservations s' = js_delete (cs_reservations s) (rv_reservationId rv)"
    using f e(3) by (auto simp: finish_commit_def completeIdempotency_def Let_def)
  show thesis by (rule that [OF e(1,2,5,6,4) refl c r])
qed


lemma sweep_keeps_held:
  assumes "js_wf (cs_contexts s)" "js_get (cs_contexts s) cid = Some e" "en_reservationId e = Some r" "en_state e = CtxActive"
  shows "js_get (cs_contexts (snd (sweep opts now s))) cid = Some e"
  using assms by (simp add: sweep_get sweep_held_entry)

lemma requireMutable_get: "requireMutable ow c s = Inr e \<Longrightarrow> js_get (cs_contexts s) c = Some e"
  by (auto simp: requireMutable_def split: option.splits if_splits)

lemma reserve_swept_keeps:
  assumes "js_get (cs_contexts s) cid = Some e" "en_reservationId e = Some r"
  shows "js_get (cs_contexts (snd (reserve_swept opts fp now rid rq s))) cid = Some e \<and>
    (rq_contextId rq = Some cid \<longrightarrow> (\<exists>err. fst (reserve_swept opts fp now rid rq s) = Inl err))"
proof (cases "fst (reserve_swept opts fp now rid rq s)")
  case (Inl err)
  then have "snd (reserve_swept opts fp now rid rq s) = s"
    by (auto simp: reserve_swept_def Let_def split: option.splits if_splits sum.splits)
  with assms Inl show ?thesis by simp
next
  case (Inr rv)
  then have v: "validateRequest rq = None" by (auto simp: reserve_swept_def split: option.splits)
  show ?thesis
  proof (cases "rq_operation rq = OpCreate")
    case True
    then have "rq_contextId rq = None" using v by (auto simp: validateRequest_def split: if_splits)
    with True Inr v assms show ?thesis by (auto simp: reserve_swept_def Let_def split: if_splits)
  next
    case False
    then obtain e2 where e2: "requireMutable (rq_owner rq) (the (rq_contextId rq)) s = Inr e2" "en_reservationId e2 = None"
      using Inr v by (auto simp: reserve_swept_def split: sum.splits if_splits)
    then have ne: "the (rq_contextId rq) \<noteq> cid" using assms requireMutable_get by fastforce
    then show ?thesis using False Inr v e2 assms
      by (auto simp: reserve_swept_def Let_def set_reservation_def js_get_set split: if_splits option.splits)
  qed
qed

lemma release_swept_keeps:
  assumes "js_get (cs_contexts s) cid = Some e" "en_reservationId e = Some r"
  shows "js_get (cs_contexts (snd (release_swept opts now ow c base key s))) cid = Some e"
proof (cases "c = cid")
  case True
  have "requireMutable ow cid s = Inr e2 \<Longrightarrow> e2 = e" for e2 using requireMutable_get assms(1) by fastforce
  then show ?thesis
    using assms True by (auto simp: release_swept_def Let_def split: option.splits sum.splits idem_state.splits)
next
  case False
  then show ?thesis
    using assms by (auto simp: release_swept_def Let_def split: option.splits sum.splits idem_state.splits)
qed


section \<open>A concrete store\<close>

text \<open>A store in which one context was created and committed, and an append to it is reserved.\<close>

definition demo_options :: LlmContextStoreOptions where
  "demo_options = \<lparr>so_maxContextsPerPrincipal = 32, so_defaultTtlSeconds = 3600, so_maxTtlSeconds = 3600, so_tombstoneSeconds = 86400,
     so_idempotencyTtlMs = 86400000, so_supportedOperations = [OpCreate, OpAppend, OpFork, OpReset, OpRelease]\<rparr>"

definition demo_message :: "string \<Rightarrow> LlmMessageDto" where
  "demo_message role = \<lparr>ms_role = role, ms_content = Some ''hi'', ms_toolCallId = None, ms_toolName = None, ms_toolCalls = None\<rparr>"

definition demo_create :: LlmContextMutationRequest where
  "demo_create = \<lparr>rq_operation = OpCreate, rq_owner = \<lparr>ow_nid = ''n'', ow_securityScope = ''s''\<rparr>, rq_contextId = None, rq_baseVersion = None,
     rq_binding = \<lparr>bd_model = ''m'', bd_systemMessages = [], bd_tools = None, bd_runtimeRevision = ''1''\<rparr>,
     rq_messages = [demo_message ''user''], rq_ttlSeconds = None, rq_idempotencyKey = ''k1'', rq_requestId = ''q1''\<rparr>"

definition demo_append :: LlmContextMutationRequest where
  "demo_append = demo_create\<lparr>rq_operation := OpAppend, rq_contextId := Some (replicate 22 CHR ''a''), rq_baseVersion := Some 1, rq_idempotencyKey := ''k2''\<rparr>"

definition demo_fp :: "LlmContextBinding \<Rightarrow> string" where
  "demo_fp b = bd_model b"

definition demo_s1 :: ctx_store where
  "demo_s1 = snd (reserve demo_options demo_fp 0 ''r1'' demo_create cs_empty)"

definition demo_rv1 :: LlmContextMutationReservation where
  "demo_rv1 = newReservation demo_fp ''r1'' demo_create [] (Some 3600) None None"

definition demo_s2 :: ctx_store where
  "demo_s2 = snd (commit demo_options 1 (\<lambda>_. replicate 22 CHR ''a'') demo_rv1 (demo_message ''assistant'') demo_s1)"

definition demo_s3 :: ctx_store where
  "demo_s3 = snd (reserve demo_options demo_fp 2 ''r2'' demo_append demo_s2)"

definition demo_rv2 :: LlmContextMutationReservation where
  "demo_rv2 = newReservation demo_fp ''r2'' demo_append [demo_message ''user'', demo_message ''assistant''] (Some 3600) None None"

lemma demo_reachable: "ctx_reachable demo_options demo_fp demo_s3"
proof -
  have "ctx_reachable demo_options demo_fp demo_s1"
    unfolding demo_s1_def by (rule r_reserve [OF r_empty]) (simp add: cs_empty_def)
  then have s2: "ctx_reachable demo_options demo_fp demo_s2" unfolding demo_s2_def by (rule r_commit)
  have "js_get (cs_reservations demo_s2) ''r2'' = None" by code_simp
  with s2 show ?thesis unfolding demo_s3_def by (intro r_reserve)
qed

lemma demo_reserved: "requireReservation demo_rv2 demo_s3"
  by code_simp

theorem context_limit_witness:
  "live_contexts \<lparr>ow_nid = ''n'', ow_securityScope = ''s''\<rparr> demo_s3 = 1 \<and>
   1 + pending_contexts \<lparr>ow_nid = ''n'', ow_securityScope = ''s''\<rparr> demo_s3 \<le> 32"
proof -
  have "live_contexts \<lparr>ow_nid = ''n'', ow_securityScope = ''s''\<rparr> demo_s3 = 1" by code_simp
  with context_limit [OF demo_reachable, of "\<lparr>ow_nid = ''n'', ow_securityScope = ''s''\<rparr>"] show ?thesis by (simp add: demo_options_def)
qed



end
