(* ===== verification/NipCa.thy ===== *)
theory NipCa
  imports Prelude Contracts JsonVal
begin

text \<open>
  The NIP certificate authority: \<open>nip/ca/store.ts\<close> (in-memory store) and \<open>nip/ca/service.ts\<close>
  (registration, groups, sessions, renewal, revocation, verification).

  Dates are epoch milliseconds and every operation reads the clock once. The environment \<open>ca_env\<close> holds
  what the platform provides: the Ed25519 signature of a canonical payload and the JSON parser (\<open>None\<close>:
  it throws). A lineage is kept as its object, not as canonical JSON. Random identifiers are
  arguments. An operation runs to completion before the next one starts; it returns the thrown error
  or its value, with the state.
\<close>

section \<open>nip/ca/store.ts\<close>

record NipCertRecord =
  ct_nid :: string
  ct_entityType :: string
  ct_serial :: string
  ct_pubKey :: string
  ct_capabilities :: "string list"
  ct_scopeJson :: string
  ct_issuedBy :: string
  ct_issuedAt :: int
  ct_expiresAt :: int
  ct_revokedAt :: "int option"
  ct_revokeReason :: "string option"
  ct_metadataJson :: "string option"
  ct_nidRole :: "string option"
  ct_parentNid :: "string option"
  ct_lineage :: "jsobj option"

record ca_store =
  ca_records :: "NipCertRecord list"
  ca_serialCounter :: nat

definition ca_empty :: ca_store where
  "ca_empty = \<lparr>ca_records = [], ca_serialCounter = 0\<rparr>"

definition hex_digit :: "nat \<Rightarrow> char" where
  "hex_digit n = (if n < 10 then char_of (48 + n) else char_of (55 + n))"

fun hex_upper :: "nat \<Rightarrow> string" where
  "hex_upper n = (if n < 16 then [hex_digit n] else hex_upper (n div 16) @ [hex_digit (n mod 16)])"

declare hex_upper.simps [simp del]

definition serial_of :: "nat \<Rightarrow> string" where
  "serial_of n = ''0x'' @ hex_upper n"

definition nextSerial :: "ca_store \<Rightarrow> string \<times> ca_store" where
  "nextSerial s = (let n = ca_serialCounter s + 1 in (serial_of n, s\<lparr>ca_serialCounter := n\<rparr>))"

text \<open>\<open>None\<close>: the error for a serial that exists.\<close>

definition ca_save :: "NipCertRecord \<Rightarrow> ca_store \<Rightarrow> ca_store option" where
  "ca_save r s = (if list_ex (\<lambda>x. ct_serial x = ct_serial r) (ca_records s) then None
     else Some (s\<lparr>ca_records := ca_records s @ [r]\<rparr>))"

definition ca_getByNid :: "string \<Rightarrow> ca_store \<Rightarrow> NipCertRecord option" where
  "ca_getByNid nid s = List.find (\<lambda>r. ct_nid r = nid) (rev (ca_records s))"

definition ca_getBySerial :: "string \<Rightarrow> ca_store \<Rightarrow> NipCertRecord option" where
  "ca_getBySerial serial s = List.find (\<lambda>r. ct_serial r = serial) (ca_records s)"

text \<open>The search from the end, on the reversed list.\<close>

fun revoke_first :: "string \<Rightarrow> string \<Rightarrow> int \<Rightarrow> NipCertRecord list \<Rightarrow> NipCertRecord list option" where
  "revoke_first nid reason now [] = None"
| "revoke_first nid reason now (r # rs) =
     (if ct_nid r = nid \<and> ct_revokedAt r = None then Some (r\<lparr>ct_revokedAt := Some now, ct_revokeReason := Some reason\<rparr> # rs)
      else map_option (Cons r) (revoke_first nid reason now rs))"

definition store_revoke :: "string \<Rightarrow> string \<Rightarrow> int \<Rightarrow> ca_store \<Rightarrow> bool \<times> ca_store" where
  "store_revoke nid reason now s = (case revoke_first nid reason now (rev (ca_records s)) of
     None \<Rightarrow> (False, s) | Some rs \<Rightarrow> (True, s\<lparr>ca_records := rev rs\<rparr>))"

definition getRevoked :: "ca_store \<Rightarrow> NipCertRecord list" where
  "getRevoked s = filter (\<lambda>r. ct_revokedAt r \<noteq> None) (ca_records s)"

definition getByParentNid :: "string \<Rightarrow> ca_store \<Rightarrow> NipCertRecord list" where
  "getByParentNid p s = filter (\<lambda>r. ct_parentNid r = Some p) (ca_records s)"

section \<open>nip/ca/service.ts\<close>

datatype ca_error = NipCaException string | JsError

record ca_options =
  co_caNid :: string
  co_agentCertValidityDays :: int
  co_nodeCertValidityDays :: int
  co_renewalWindowDays :: int
  co_groupCertValidityDays :: int
  co_sessionDefaultValidityMs :: int
  co_sessionMaxValidityMs :: int
  co_sessionMinValidityMs :: int
  co_allowedCapabilities :: "string list option"

record ident_payload =
  ip_capabilities :: "string list"
  ip_expires_at :: int
  ip_issued_at :: int
  ip_issued_by :: string
  ip_nid :: string
  ip_pub_key :: string
  ip_scope :: jsval
  ip_serial :: string
  ip_assurance_level :: "string option"
  ip_lineage :: "jsobj option"

record CaIdentFrame =
  cf_payload :: ident_payload
  cf_signature :: string
  cf_metadata :: "jsval option"
  cf_cert_format :: "string option"
  cf_cert_chain :: "string list option"

record revoke_payload =
  rp_target_nid :: string
  rp_serial :: string
  rp_reason :: string
  rp_revoked_at :: int
  rp_signer_nid :: string

record CaRevokeFrame =
  rf_payload :: revoke_payload
  rf_signature :: string

record ca_env =
  ev_sign :: "ident_payload \<Rightarrow> string"
  ev_sign_revoke :: "revoke_payload \<Rightarrow> string"
  ev_parse :: "string \<Rightarrow> jsval option"

definition DAY :: int where "DAY = 86400000"

definition buildNid :: "ca_options \<Rightarrow> string \<Rightarrow> string \<Rightarrow> string" where
  "buildNid opts entityType identifier =
     (let parts = js_split CHR '':'' (co_caNid opts);
          domain = (if length parts \<ge> 4 then parts ! 3 else co_caNid opts) in
      ''urn:nps:'' @ entityType @ '':'' @ domain @ '':'' @ identifier)"

definition capabilities_ok :: "ca_options \<Rightarrow> string list \<Rightarrow> bool" where
  "capabilities_ok opts caps = (case co_allowedCapabilities opts of None \<Rightarrow> True
     | Some allowed \<Rightarrow> list_all (\<lambda>c. c \<in> set allowed) caps)"

text \<open>\<open>None\<close>: a JSON text does not parse.\<close>

definition issueFrame :: "ca_env \<Rightarrow> ca_options \<Rightarrow> NipCertRecord \<Rightarrow> string option \<Rightarrow> jsobj option \<Rightarrow> CaIdentFrame option" where
  "issueFrame env opts r assuranceLevel lineage = (case ev_parse env (ct_scopeJson r) of
     None \<Rightarrow> None
   | Some sc \<Rightarrow>
       let payload = \<lparr>ip_capabilities = ct_capabilities r, ip_expires_at = ct_expiresAt r, ip_issued_at = ct_issuedAt r,
             ip_issued_by = co_caNid opts, ip_nid = ct_nid r, ip_pub_key = ct_pubKey r, ip_scope = sc, ip_serial = ct_serial r,
             ip_assurance_level = assuranceLevel, ip_lineage = lineage\<rparr>;
           frame = \<lparr>cf_payload = payload, cf_signature = ev_sign env payload, cf_metadata = None, cf_cert_format = None, cf_cert_chain = None\<rparr> in
       (case ct_metadataJson r of
          None \<Rightarrow> Some frame
        | Some m \<Rightarrow> (case ev_parse env m of None \<Rightarrow> None | Some v \<Rightarrow> Some (frame\<lparr>cf_metadata := Some v\<rparr>))))"

text \<open>The common end of every issuing operation: the serial, the signed frame, the saved record.\<close>

definition issue_and_save :: "ca_env \<Rightarrow> ca_options \<Rightarrow> NipCertRecord \<Rightarrow> string option \<Rightarrow> jsobj option \<Rightarrow> ca_store \<Rightarrow> (ca_error + CaIdentFrame) \<times> ca_store" where
  "issue_and_save env opts r assuranceLevel lineage s =
     (let (serial, s) = nextSerial s; r = r\<lparr>ct_serial := serial\<rparr> in
      case issueFrame env opts r assuranceLevel lineage of
        None \<Rightarrow> (Inl JsError, s)
      | Some frame \<Rightarrow> (case ca_save r s of None \<Rightarrow> (Inl JsError, s) | Some s' \<Rightarrow> (Inr frame, s')))"

definition cert_of :: "ca_options \<Rightarrow> string \<Rightarrow> string \<Rightarrow> string \<Rightarrow> string list \<Rightarrow> string \<Rightarrow> int \<Rightarrow> int \<Rightarrow> string option \<Rightarrow> NipCertRecord" where
  "cert_of opts nid entityType pubKey caps scopeJson now expiresAt metadataJson =
     \<lparr>ct_nid = nid, ct_entityType = entityType, ct_serial = [], ct_pubKey = pubKey, ct_capabilities = caps, ct_scopeJson = scopeJson,
      ct_issuedBy = co_caNid opts, ct_issuedAt = now, ct_expiresAt = expiresAt, ct_revokedAt = None, ct_revokeReason = None,
      ct_metadataJson = metadataJson, ct_nidRole = None, ct_parentNid = None, ct_lineage = None\<rparr>"

definition valid_days :: "ca_options \<Rightarrow> string \<Rightarrow> int" where
  "valid_days opts entityType = (if entityType = ''node'' then co_nodeCertValidityDays opts else co_agentCertValidityDays opts)"

definition ca_register :: "ca_env \<Rightarrow> ca_options \<Rightarrow> int \<Rightarrow> string \<Rightarrow> string \<Rightarrow> string \<Rightarrow> string list \<Rightarrow> string \<Rightarrow> string option \<Rightarrow> string option
    \<Rightarrow> ca_store \<Rightarrow> (ca_error + CaIdentFrame) \<times> ca_store" where
  "ca_register env opts now entityType identifier pubKey caps scopeJson metadataJson assuranceLevel s =
     (let nid = buildNid opts entityType identifier in
      if ca_getByNid nid s \<noteq> None then (Inl (NipCaException ''NIP-CA-NID-ALREADY-EXISTS''), s)
      else if \<not> capabilities_ok opts caps then (Inl (NipCaException ''NIP-CERT-CAPABILITY-MISSING''), s)
      else issue_and_save env opts
             (cert_of opts nid entityType pubKey caps scopeJson now (now + valid_days opts entityType * DAY) metadataJson) assuranceLevel None s)"

definition registerX509 :: "ca_env \<Rightarrow> ca_options \<Rightarrow> int \<Rightarrow> string \<Rightarrow> string \<Rightarrow> string \<Rightarrow> string list \<Rightarrow> string \<Rightarrow> string list \<Rightarrow> string \<Rightarrow> string option
    \<Rightarrow> ca_store \<Rightarrow> (ca_error + CaIdentFrame) \<times> ca_store" where
  "registerX509 env opts now entityType identifier pubKey caps scopeJson chain assuranceLevel metadataJson s =
     (if \<not> js_startsWith pubKey ''ed25519:'' then (Inl (NipCaException ''NIP-CERT-FORMAT-INVALID''), s)
      else apfst (map_sum id (\<lambda>f. f\<lparr>cf_cert_format := Some ''v2-x509'', cf_cert_chain := Some chain\<rparr>))
             (ca_register env opts now entityType identifier pubKey caps scopeJson metadataJson (Some assuranceLevel) s))"

definition buildLineage :: "(string \<times> string option) list \<Rightarrow> jsobj" where
  "buildLineage fs = concat (map (\<lambda>(k, v). case v of None \<Rightarrow> [] | Some x \<Rightarrow> [(k, JStr x)]) fs)"

definition extractLineageString :: "jsobj option \<Rightarrow> string \<Rightarrow> string option" where
  "extractLineageString lin field = (case lin of None \<Rightarrow> None | Some o' \<Rightarrow> stringValue o' field)"

definition registerGroup :: "ca_env \<Rightarrow> ca_options \<Rightarrow> int \<Rightarrow> string \<Rightarrow> string option \<Rightarrow> string \<Rightarrow> string list \<Rightarrow> string \<Rightarrow> string option \<Rightarrow> string option \<Rightarrow> string option
    \<Rightarrow> ca_store \<Rightarrow> (ca_error + CaIdentFrame) \<times> ca_store" where
  "registerGroup env opts now rnd identifier pubKey caps scopeJson ownerUserId ownerKeyId metadataJson s =
     (let given = (case identifier of None \<Rightarrow> [] | Some i \<Rightarrow> i);
          gid = (if given = [] then ''group-'' @ rnd else given) in
      if given \<noteq> [] \<and> \<not> js_startsWith given ''group-'' then (Inl (NipCaException ''NIP-CA-NID-ALREADY-EXISTS''), s)
      else let nid = buildNid opts ''agent'' gid in
      if ca_getByNid nid s \<noteq> None then (Inl (NipCaException ''NIP-CA-NID-ALREADY-EXISTS''), s)
      else if \<not> capabilities_ok opts caps then (Inl (NipCaException ''NIP-CERT-CAPABILITY-MISSING''), s)
      else let lineage = buildLineage [(''role'', Some ''group''), (''owner_user_id'', ownerUserId), (''owner_key_id'', ownerKeyId)] in
        issue_and_save env opts
          ((cert_of opts nid ''agent'' pubKey caps scopeJson now (now + co_groupCertValidityDays opts * DAY) metadataJson)
             \<lparr>ct_nidRole := Some ''group'', ct_lineage := Some lineage\<rparr>) None (Some lineage) s)"

definition issueSession :: "ca_env \<Rightarrow> ca_options \<Rightarrow> int \<Rightarrow> string \<Rightarrow> string \<Rightarrow> string \<Rightarrow> int option \<Rightarrow> string option \<Rightarrow> string list option \<Rightarrow> string option \<Rightarrow> string option
    \<Rightarrow> ca_store \<Rightarrow> (ca_error + CaIdentFrame) \<times> ca_store" where
  "issueSession env opts now rnd groupNid pubKey validityMs purpose caps scopeJson metadataJson s =
     (case ca_getByNid groupNid s of
        None \<Rightarrow> (Inl (NipCaException ''NIP-CA-PARENT-NOT-FOUND''), s)
      | Some g \<Rightarrow>
          if ct_nidRole g \<noteq> Some ''group'' then (Inl (NipCaException ''NIP-CA-PARENT-NOT-GROUP''), s)
          else if ct_revokedAt g \<noteq> None then (Inl (NipCaException ''NIP-CA-GROUP-REVOKED''), s)
          else if now > ct_expiresAt g then (Inl (NipCaException ''NIP-CERT-EXPIRED''), s)
          else let v = (case validityMs of None \<Rightarrow> co_sessionDefaultValidityMs opts | Some v \<Rightarrow> v) in
          if v < co_sessionMinValidityMs opts \<or> v > co_sessionMaxValidityMs opts then (Inl (NipCaException ''NIP-CA-SESSION-VALIDITY-INVALID''), s)
          else if (case caps of None \<Rightarrow> False | Some cs \<Rightarrow> list_ex (\<lambda>c. c \<notin> set (ct_capabilities g)) cs)
          then (Inl (NipCaException ''NIP-CA-SCOPE-EXPANSION-DENIED''), s)
          else let sessionCaps = (case caps of None \<Rightarrow> ct_capabilities g | Some cs \<Rightarrow> cs);
                   sessionScope = (case scopeJson of None \<Rightarrow> ct_scopeJson g | Some sc \<Rightarrow> sc);
                   sid = ''session-'' @ js_nat_string (nat (now div 1000)) @ ''-'' @ rnd;
                   lineage = buildLineage [(''role'', Some ''session''), (''parent_nid'', Some groupNid), (''group_nid'', Some groupNid),
                     (''session_id'', Some sid), (''purpose'', purpose),
                     (''owner_user_id'', extractLineageString (ct_lineage g) ''owner_user_id''),
                     (''owner_key_id'', extractLineageString (ct_lineage g) ''owner_key_id'')] in
            issue_and_save env opts
              ((cert_of opts (buildNid opts ''agent'' sid) ''agent'' pubKey sessionCaps sessionScope now (now + v) metadataJson)
                 \<lparr>ct_nidRole := Some ''session'', ct_parentNid := Some groupNid, ct_lineage := Some lineage\<rparr>) None (Some lineage) s)"

definition renew :: "ca_env \<Rightarrow> ca_options \<Rightarrow> int \<Rightarrow> string \<Rightarrow> ca_store \<Rightarrow> (ca_error + CaIdentFrame) \<times> ca_store" where
  "renew env opts now nid s = (case ca_getByNid nid s of
     None \<Rightarrow> (Inl (NipCaException ''NIP-CA-NID-NOT-FOUND''), s)
   | Some r \<Rightarrow>
       if ct_revokedAt r \<noteq> None then (Inl (NipCaException ''NIP-CERT-REVOKED''), s)
       else if now < ct_expiresAt r - co_renewalWindowDays opts * DAY then (Inl (NipCaException ''NIP-CA-RENEWAL-TOO-EARLY''), s)
       else issue_and_save env opts
              (cert_of opts nid (ct_entityType r) (ct_pubKey r) (ct_capabilities r) (ct_scopeJson r) now
                 (now + valid_days opts (ct_entityType r) * DAY) (ct_metadataJson r)) None None s)"

definition cascade :: "int \<Rightarrow> NipCertRecord list \<Rightarrow> ca_store \<Rightarrow> ca_store" where
  "cascade now children s = foldl (\<lambda>s child. if ct_revokedAt child \<noteq> None then s
     else snd (store_revoke (ct_nid child) ''parent_revoked'' now s)) s children"

definition ca_revoke :: "ca_env \<Rightarrow> ca_options \<Rightarrow> int \<Rightarrow> string \<Rightarrow> string \<Rightarrow> ca_store \<Rightarrow> (ca_error + CaRevokeFrame) \<times> ca_store" where
  "ca_revoke env opts now nid reason s = (case ca_getByNid nid s of
     None \<Rightarrow> (Inl (NipCaException ''NIP-CA-NID-NOT-FOUND''), s)
   | Some r \<Rightarrow>
       let (revoked, s1) = store_revoke nid reason now s in
       if \<not> revoked then (Inl (NipCaException ''NIP-CA-NID-NOT-FOUND''), s1)
       else let s2 = (if ct_nidRole r = Some ''group'' then cascade now (getByParentNid nid s1) s1 else s1);
                payload = \<lparr>rp_target_nid = nid, rp_serial = ct_serial r, rp_reason = reason, rp_revoked_at = now, rp_signer_nid = co_caNid opts\<rparr> in
         (Inr \<lparr>rf_payload = payload, rf_signature = ev_sign_revoke env payload\<rparr>, s2))"

datatype verify_result = Invalid string | Valid NipCertRecord

definition ca_verify :: "int \<Rightarrow> string \<Rightarrow> ca_store \<Rightarrow> verify_result" where
  "ca_verify now nid s = (case ca_getByNid nid s of
     None \<Rightarrow> Invalid ''NIP-CA-NID-NOT-FOUND''
   | Some r \<Rightarrow>
       if ct_revokedAt r \<noteq> None then Invalid ''NIP-CERT-REVOKED''
       else if now > ct_expiresAt r then Invalid ''NIP-CERT-EXPIRED''
       else (case ct_parentNid r of
           None \<Rightarrow> Valid r
         | Some p \<Rightarrow>
             if p = [] then Valid r
             else (case ca_getByNid p s of
                 None \<Rightarrow> Invalid ''NIP-CERT-PARENT-REVOKED''
               | Some parent \<Rightarrow>
                   if ct_revokedAt parent \<noteq> None \<or> now > ct_expiresAt parent then Invalid ''NIP-CERT-PARENT-REVOKED''
                   else Valid r)))"

datatype ca_op =
    CaRegister string string string "string list" string "string option"
  | CaRegisterX509 string string string "string list" string "string list" string "string option"
  | CaRegisterGroup string "string option" string "string list" string "string option" "string option" "string option"
  | CaIssueSession string string string "int option" "string option" "string list option" "string option" "string option"
  | CaRenew string
  | CaRevoke string string

fun ca_step :: "ca_env \<Rightarrow> ca_options \<Rightarrow> ca_store \<Rightarrow> int \<times> ca_op \<Rightarrow> ca_store" where
  "ca_step env opts s (now, CaRegister et i pk cs sc md) = snd (ca_register env opts now et i pk cs sc md None s)"
| "ca_step env opts s (now, CaRegisterX509 et i pk cs sc ch al md) = snd (registerX509 env opts now et i pk cs sc ch al md s)"
| "ca_step env opts s (now, CaRegisterGroup rnd i pk cs sc ou ok md) = snd (registerGroup env opts now rnd i pk cs sc ou ok md s)"
| "ca_step env opts s (now, CaIssueSession rnd g pk v p cs sc md) = snd (issueSession env opts now rnd g pk v p cs sc md s)"
| "ca_step env opts s (now, CaRenew nid) = snd (renew env opts now nid s)"
| "ca_step env opts s (now, CaRevoke nid reason) = snd (ca_revoke env opts now nid reason s)"

section \<open>Serials\<close>

lemma hex_digit_inj: "a < 16 \<Longrightarrow> b < 16 \<Longrightarrow> hex_digit a = hex_digit b \<Longrightarrow> a = b"
proof -
  assume b: "a < 16" "b < 16" and eq: "hex_digit a = hex_digit b"
  have "(of_char (hex_digit n) :: nat) = (if n < 10 then 48 + n else 55 + n)" if "n < 16" for n
    using that by (simp add: hex_digit_def of_char_of)
  with b arg_cong [OF eq, of "of_char :: char \<Rightarrow> nat"] show "a = b" by (auto split: if_splits)
qed

lemma hex_upper_nonempty [simp]: "hex_upper n \<noteq> []"
  by (subst hex_upper.simps) simp

lemma hex_upper_inj: "hex_upper a = hex_upper b \<Longrightarrow> a = b"
proof (induction a arbitrary: b rule: hex_upper.induct)
  case (1 a)
  show ?case
  proof (cases "a < 16")
    case True
    then have "hex_upper a = [hex_digit a]" by (simp add: hex_upper.simps)
    with 1(2) have b: "hex_upper b = [hex_digit a]" by simp
    then have "b < 16" by (subst (asm) hex_upper.simps) (auto split: if_splits)
    with b True hex_digit_inj show ?thesis by (auto simp: hex_upper.simps [of b])
  next
    case False
    then have a: "hex_upper a = hex_upper (a div 16) @ [hex_digit (a mod 16)]" by (simp add: hex_upper.simps [of a])
    have "\<not> b < 16" using 1(2) by (auto simp: a hex_upper.simps [of b])
    then have b: "hex_upper b = hex_upper (b div 16) @ [hex_digit (b mod 16)]" by (simp add: hex_upper.simps [of b])
    from 1(2) have "hex_upper (a div 16) = hex_upper (b div 16)" "hex_digit (a mod 16) = hex_digit (b mod 16)" by (simp_all add: a b)
    with 1(1) [OF False] hex_digit_inj have "a div 16 = b div 16" "a mod 16 = b mod 16" by auto
    then show ?thesis by (metis div_mult_mod_eq)
  qed
qed

lemma serial_of_inj: "serial_of a = serial_of b \<longleftrightarrow> a = b"
  by (auto simp: serial_of_def dest: hex_upper_inj)

section \<open>The invariant\<close>

definition revoked :: "NipCertRecord \<Rightarrow> bool" where
  "revoked r \<longleftrightarrow> ct_revokedAt r \<noteq> None"

text \<open>Serials are the distinct values of the counter; once a record of a NID is revoked, so are all later
  records of the NID.\<close>

definition ca_inv :: "ca_store \<Rightarrow> bool" where
  "ca_inv s \<longleftrightarrow> distinct (map ct_serial (ca_records s)) \<and>
     (\<forall>r \<in> set (ca_records s). \<exists>n \<le> ca_serialCounter s. ct_serial r = serial_of n) \<and>
     sorted_wrt (\<lambda>r r'. ct_nid r = ct_nid r' \<and> revoked r \<longrightarrow> revoked r') (ca_records s)"

lemma ca_inv_empty: "ca_inv ca_empty"
  by (simp add: ca_inv_def ca_empty_def)

text \<open>A fresh serial is never refused.\<close>

lemma issue_and_save_eq:
  assumes "ca_inv s"
  shows "issue_and_save env opts r al lin s =
    (case issueFrame env opts (r\<lparr>ct_serial := serial_of (ca_serialCounter s + 1)\<rparr>) al lin of
       None \<Rightarrow> (Inl JsError, s\<lparr>ca_serialCounter := ca_serialCounter s + 1\<rparr>)
     | Some f \<Rightarrow> (Inr f, s\<lparr>ca_serialCounter := ca_serialCounter s + 1,
         ca_records := ca_records s @ [r\<lparr>ct_serial := serial_of (ca_serialCounter s + 1)\<rparr>]\<rparr>))"
proof -
  let ?n = "ca_serialCounter s + 1"
  have "ct_serial x \<noteq> serial_of ?n" if "x \<in> set (ca_records s)" for x
  proof -
    from assms that obtain m where "m \<le> ca_serialCounter s" "ct_serial x = serial_of m" unfolding ca_inv_def by blast
    then show ?thesis by (simp add: serial_of_inj)
  qed
  then have "\<not> list_ex (\<lambda>x. ct_serial x = serial_of ?n) (ca_records s)" by (simp add: list_ex_iff)
  then show ?thesis by (simp add: issue_and_save_def nextSerial_def ca_save_def Let_def split: option.split)
qed

lemma ca_inv_counter: "ca_inv s \<Longrightarrow> ca_serialCounter s \<le> n \<Longrightarrow> ca_inv (s\<lparr>ca_serialCounter := n\<rparr>)"
  unfolding ca_inv_def by (auto intro: order_trans)

lemma ca_inv_append:
  assumes i: "ca_inv s" and n: "n = ca_serialCounter s + 1" and r: "ct_serial r = serial_of n"
    and live: "\<forall>x \<in> set (ca_records s). ct_nid x = ct_nid r \<longrightarrow> \<not> revoked x"
  shows "ca_inv (s\<lparr>ca_serialCounter := n, ca_records := ca_records s @ [r]\<rparr>)"
proof -
  have "ct_serial r \<notin> ct_serial ` set (ca_records s)"
  proof
    assume "ct_serial r \<in> ct_serial ` set (ca_records s)"
    then obtain x where "x \<in> set (ca_records s)" "ct_serial x = serial_of n" using r by auto
    moreover from i this(1) obtain m where "m \<le> ca_serialCounter s" "ct_serial x = serial_of m" unfolding ca_inv_def by blast
    ultimately show False using n by (simp add: serial_of_inj)
  qed
  moreover have "\<exists>m \<le> n. ct_serial x = serial_of m" if "x \<in> set (ca_records s)" for x
    using i that n unfolding ca_inv_def by (meson le_add1 order_trans)
  ultimately show ?thesis using i r live n by (auto simp: ca_inv_def sorted_wrt_append)
qed

lemma getByNid_None: "ca_getByNid nid s = None \<longleftrightarrow> (\<forall>x \<in> set (ca_records s). ct_nid x \<noteq> nid)"
  by (auto simp: ca_getByNid_def find_None_iff)

lemma getByNid_Some:
  assumes "ca_getByNid nid s = Some r"
  obtains pre post where "ca_records s = pre @ r # post" "ct_nid r = nid" "\<forall>x \<in> set post. ct_nid x \<noteq> nid"
proof -
  from assms obtain i where i: "i < length (rev (ca_records s))" "ct_nid (rev (ca_records s) ! i) = nid" "r = rev (ca_records s) ! i"
    "\<forall>j < i. ct_nid (rev (ca_records s) ! j) \<noteq> nid" by (auto simp: ca_getByNid_def find_Some_iff)
  let ?rs = "rev (ca_records s)"
  have "?rs = take i ?rs @ r # drop (Suc i) ?rs" using id_take_nth_drop [OF i(1)] i(3) by simp
  then have "ca_records s = rev (drop (Suc i) ?rs) @ r # rev (take i ?rs)" by (metis rev_rev_ident rev_append rev.simps(2) append.assoc append_Cons append_Nil)
  moreover have "\<forall>x \<in> set (rev (take i ?rs)). ct_nid x \<noteq> nid" using i(1,4) unfolding set_rev by (metis in_set_conv_nth length_take min.strict_boundedE nth_take)
  ultimately show thesis using that i(2,3) by blast
qed

text \<open>When the latest record of a NID is not revoked, none is.\<close>

lemma latest_live:
  assumes "ca_inv s" "ca_getByNid nid s = Some r" "\<not> revoked r" "x \<in> set (ca_records s)" "ct_nid x = nid"
  shows "\<not> revoked x"
proof -
  from getByNid_Some [OF assms(2)] obtain pre post where p: "ca_records s = pre @ r # post" "ct_nid r = nid" "\<forall>x \<in> set post. ct_nid x \<noteq> nid" by metis
  have srt: "sorted_wrt (\<lambda>r r'. ct_nid r = ct_nid r' \<and> revoked r \<longrightarrow> revoked r') (pre @ r # post)" using assms(1) by (simp add: ca_inv_def p(1))
  from assms(4) p consider "x \<in> set pre" | "x = r" | "x \<in> set post" by auto
  then show ?thesis using srt assms(3,5) p(2,3) by cases (auto simp: sorted_wrt_append)
qed

lemma getByNid_append:
  "ca_getByNid nid (s\<lparr>ca_serialCounter := n, ca_records := ca_records s @ [r]\<rparr>) = (if ct_nid r = nid then Some r else ca_getByNid nid s)"
  by (simp add: ca_getByNid_def)

section \<open>Revocation\<close>

lemma revoke_first_None: "revoke_first nid reason now rs = None \<longleftrightarrow> (\<forall>x \<in> set rs. ct_nid x = nid \<longrightarrow> revoked x)"
  by (induction rs) (auto simp: revoked_def)

lemma revoke_first_Some:
  assumes "revoke_first nid reason now rs = Some rs'"
  obtains a r b where "rs = a @ r # b" "ct_nid r = nid" "\<not> revoked r" "\<forall>x \<in> set a. ct_nid x = nid \<longrightarrow> revoked x"
    "rs' = a @ r\<lparr>ct_revokedAt := Some now, ct_revokeReason := Some reason\<rparr> # b"
  using assms
proof (induction rs arbitrary: rs' thesis)
  case Nil
  then show ?case by simp
next
  case (Cons x rs)
  show ?case
  proof (cases "ct_nid x = nid \<and> ct_revokedAt x = None")
    case True
    with Cons.prems(2) have "rs' = x\<lparr>ct_revokedAt := Some now, ct_revokeReason := Some reason\<rparr> # rs" by simp
    with True Cons.prems(1) [of "[]" x rs] show ?thesis by (simp add: revoked_def)
  next
    case False
    with Cons.prems(2) obtain rs2 where rs2: "revoke_first nid reason now rs = Some rs2" "rs' = x # rs2" by auto
    from Cons.IH [OF _ rs2(1)] obtain a r b where "rs = a @ r # b" "ct_nid r = nid" "\<not> revoked r" "\<forall>x \<in> set a. ct_nid x = nid \<longrightarrow> revoked x"
      "rs2 = a @ r\<lparr>ct_revokedAt := Some now, ct_revokeReason := Some reason\<rparr> # b" by metis
    with False rs2(2) Cons.prems(1) [of "x # a" r b] show ?thesis by (simp add: revoked_def)
  qed
qed

text \<open>What a revocation does to the records: one of them, the last of its NID not yet revoked, is marked.\<close>

lemma store_revoke_cases:
  obtains (none) "store_revoke nid reason now s = (False, s)" "\<forall>x \<in> set (ca_records s). ct_nid x = nid \<longrightarrow> revoked x"
  | (marked) pre r post where "ca_records s = pre @ r # post" "ct_nid r = nid" "\<not> revoked r" "\<forall>x \<in> set post. ct_nid x = nid \<longrightarrow> revoked x"
      "store_revoke nid reason now s =
         (True, s\<lparr>ca_records := pre @ r\<lparr>ct_revokedAt := Some now, ct_revokeReason := Some reason\<rparr> # post\<rparr>)"
proof (cases "revoke_first nid reason now (rev (ca_records s))")
  case None
  then have "\<forall>x \<in> set (ca_records s). ct_nid x = nid \<longrightarrow> revoked x" by (simp add: revoke_first_None)
  with None none show thesis by (simp add: store_revoke_def)
next
  case (Some rs)
  from revoke_first_Some [OF this] obtain a r b where a: "rev (ca_records s) = a @ r # b" "ct_nid r = nid" "\<not> revoked r"
    "\<forall>x \<in> set a. ct_nid x = nid \<longrightarrow> revoked x" "rs = a @ r\<lparr>ct_revokedAt := Some now, ct_revokeReason := Some reason\<rparr> # b" by metis
  have "ca_records s = rev b @ r # rev a" using arg_cong [OF a(1), of rev] by simp
  with a Some marked [of "rev b" r "rev a"] show thesis by (simp add: store_revoke_def)
qed

lemma store_revoke_inv:
  assumes "ca_inv s"
  shows "ca_inv (snd (store_revoke nid reason now s))"
proof (cases rule: store_revoke_cases [of nid reason now s])
  case none
  with assms show ?thesis by simp
next
  case (marked pre r post)
  let ?r = "r\<lparr>ct_revokedAt := Some now, ct_revokeReason := Some reason\<rparr>"
  have "revoked ?r" by (simp add: revoked_def)
  with assms marked show ?thesis by (auto simp: ca_inv_def sorted_wrt_append)
qed

lemma find_append: "List.find P (xs @ ys) = (case List.find P xs of None \<Rightarrow> List.find P ys | Some x \<Rightarrow> Some x)"
  by (induction xs) auto

text \<open>The latest record of a NID is revoked.\<close>

definition nid_revoked :: "ca_store \<Rightarrow> string \<Rightarrow> bool" where
  "nid_revoked s nid \<longleftrightarrow> (\<exists>r. ca_getByNid nid s = Some r \<and> revoked r)"

lemma nid_revoked_iff:
  assumes "ca_records s = pre @ r # post" "ct_nid r = nid" "\<forall>x \<in> set post. ct_nid x \<noteq> nid"
  shows "ca_getByNid nid s = Some r"
proof -
  have "List.find (\<lambda>x. ct_nid x = nid) (rev post @ r # rev pre) = Some r"
    using assms(2,3) by (induction post rule: rev_induct) auto
  with assms(1) show ?thesis by (simp add: ca_getByNid_def)
qed

lemma getByNid_mark:
  assumes "ca_records s = pre @ r # post" "ct_nid r' = ct_nid r"
  shows "ca_getByNid nid (s\<lparr>ca_records := pre @ r' # post\<rparr>) =
    (if List.find (\<lambda>x. ct_nid x = nid) (rev post) = None \<and> ct_nid r = nid then Some r' else ca_getByNid nid s)"
  using assms by (auto simp: ca_getByNid_def find_append split: option.splits)

lemma store_revoke_keeps: "nid_revoked s nid' \<Longrightarrow> nid_revoked (snd (store_revoke nid reason now s)) nid'"
proof (cases rule: store_revoke_cases [of nid reason now s])
  case none
  then show "nid_revoked s nid' \<Longrightarrow> ?thesis" by simp
next
  case (marked pre r post)
  then show "nid_revoked s nid' \<Longrightarrow> ?thesis" by (auto simp: nid_revoked_def getByNid_mark revoked_def)
qed

text \<open>After a revocation of a NID that has a record, the latest is revoked.\<close>

lemma store_revoke_revokes:
  assumes i: "ca_inv s" and x: "x \<in> set (ca_records s)" "ct_nid x = nid"
  shows "nid_revoked (snd (store_revoke nid reason now s)) nid"
proof (cases rule: store_revoke_cases [of nid reason now s])
  case none
  obtain r where r: "ca_getByNid nid s = Some r" using x getByNid_None by (metis not_None_eq)
  from getByNid_Some [OF this] none(2) have "revoked r" by (metis in_set_conv_decomp)
  with r none(1) show ?thesis by (simp add: nid_revoked_def)
next
  case (marked pre r post)
  show ?thesis
  proof (cases "List.find (\<lambda>x. ct_nid x = nid) (rev post)")
    case None
    then show ?thesis using marked by (simp add: nid_revoked_def getByNid_mark revoked_def)
  next
    case (Some y)
    then have y: "y \<in> set post" "ct_nid y = nid" using find_SomeD [OF Some] by auto
    have "ca_getByNid nid s = Some y" using Some marked(1) by (simp add: ca_getByNid_def find_append)
    with y marked Some show ?thesis by (simp add: nid_revoked_def getByNid_mark)
  qed
qed

lemma cascade_inv: "ca_inv s \<Longrightarrow> ca_inv (cascade now cs s)"
  by (induction cs arbitrary: s) (auto simp: cascade_def store_revoke_inv)

lemma cascade_keeps: "nid_revoked s nid \<Longrightarrow> nid_revoked (cascade now cs s) nid"
  by (induction cs arbitrary: s) (auto simp: cascade_def store_revoke_keeps)

lemma store_revoke_nids: "ct_nid ` set (ca_records (snd (store_revoke nid reason now s))) = ct_nid ` set (ca_records s)"
  by (cases rule: store_revoke_cases [of nid reason now s]) auto

lemma cascade_revokes:
  assumes "ca_inv s" "c \<in> set cs" "\<not> revoked c" "ct_nid ` set cs \<subseteq> ct_nid ` set (ca_records s)"
  shows "nid_revoked (cascade now cs s) (ct_nid c)"
  using assms
proof (induction cs arbitrary: s)
  case Nil
  then show ?case by simp
next
  case (Cons d cs)
  let ?s = "if ct_revokedAt d \<noteq> None then s else snd (store_revoke (ct_nid d) ''parent_revoked'' now s)"
  have eq: "cascade now (d # cs) s = cascade now cs ?s" by (simp add: cascade_def)
  have i: "ca_inv ?s" using Cons.prems(1) by (simp add: store_revoke_inv)
  show ?case
  proof (cases "c \<in> set cs")
    case True
    have "ct_nid ` set cs \<subseteq> ct_nid ` set (ca_records ?s)" using Cons.prems(4) by (simp add: store_revoke_nids)
    with Cons.IH [OF i True Cons.prems(3)] show ?thesis by (simp add: eq)
  next
    case False
    then have "c = d" using Cons.prems(2) by simp
    moreover obtain x where "x \<in> set (ca_records s)" "ct_nid x = ct_nid d" using Cons.prems(4) by auto
    ultimately have "nid_revoked ?s (ct_nid c)"
      using Cons.prems(1,3) store_revoke_revokes by (simp add: revoked_def)
    then show ?thesis unfolding eq by (rule cascade_keeps)
  qed
qed

section \<open>Steps\<close>

text \<open>A session NID is new: the operation draws eight random bytes for it.\<close>

fun op_fresh :: "ca_options \<Rightarrow> ca_store \<Rightarrow> int \<times> ca_op \<Rightarrow> bool" where
  "op_fresh opts s (now, CaIssueSession rnd g pk v p cs sc md) =
     (ca_getByNid (buildNid opts ''agent'' (''session-'' @ js_nat_string (nat (now div 1000)) @ ''-'' @ rnd)) s = None)"
| "op_fresh opts s _ = True"

text \<open>Every step but a revocation leaves the records as they are or appends one, whose NID is new or live.\<close>

definition issues :: "ca_store \<Rightarrow> ca_store \<Rightarrow> bool" where
  "issues s s' \<longleftrightarrow> (\<exists>n. ca_serialCounter s \<le> n \<and> s' = s\<lparr>ca_serialCounter := n\<rparr>) \<or>
     (\<exists>n r. n = ca_serialCounter s + 1 \<and> ct_serial r = serial_of n \<and> \<not> revoked r \<and>
        (ca_getByNid (ct_nid r) s = None \<or> (\<exists>r0. ca_getByNid (ct_nid r) s = Some r0 \<and> \<not> revoked r0)) \<and>
        s' = s\<lparr>ca_serialCounter := n, ca_records := ca_records s @ [r]\<rparr>)"

lemma issues_refl [simp]: "issues s s"
  unfolding issues_def by (intro disjI1 exI [of _ "ca_serialCounter s"]) simp

lemma issue_issues:
  assumes "ca_inv s" "\<not> revoked r"
    "ca_getByNid (ct_nid r) s = None \<or> (\<exists>r0. ca_getByNid (ct_nid r) s = Some r0 \<and> \<not> revoked r0)"
  shows "issues s (snd (issue_and_save env opts r al lin s))"
proof (cases "issueFrame env opts (r\<lparr>ct_serial := serial_of (ca_serialCounter s + 1)\<rparr>) al lin")
  case None
  then show ?thesis
    unfolding issues_def issue_and_save_eq [OF assms(1)] by (intro disjI1 exI [of _ "ca_serialCounter s + 1"]) simp
next
  case (Some f)
  let ?n = "ca_serialCounter s + 1"
  have "\<not> revoked (r\<lparr>ct_serial := serial_of ?n\<rparr>)" using assms(2) by (simp add: revoked_def)
  then show ?thesis
    unfolding issue_and_save_eq [OF assms(1)] Some option.case snd_conv issues_def using assms(3)
    by (intro disjI2 exI [of _ ?n] exI [of _ "r\<lparr>ct_serial := serial_of ?n\<rparr>"]) simp
qed

lemma cert_of_simps [simp]:
  "ct_nid (cert_of opts nid et pk cs sc now x md) = nid" "ct_revokedAt (cert_of opts nid et pk cs sc now x md) = None"
  "ct_capabilities (cert_of opts nid et pk cs sc now x md) = cs"
  by (simp_all add: cert_of_def)

lemma step_issues:
  assumes i: "ca_inv s" and f: "op_fresh opts s (now, op)" and op: "\<nexists>n r. op = CaRevoke n r"
  shows "issues s (ca_step env opts s (now, op))"
proof (cases op)
  case (CaRegister et idn pk cs sc md)
  then show ?thesis using i by (auto simp: ca_register_def Let_def revoked_def intro!: issue_issues)
next
  case (CaRegisterX509 et idn pk cs sc ch al md)
  then show ?thesis using i by (auto simp: registerX509_def ca_register_def Let_def revoked_def intro!: issue_issues)
next
  case (CaRegisterGroup rnd idn pk cs sc ou ok md)
  then show ?thesis using i by (auto simp: registerGroup_def Let_def revoked_def intro!: issue_issues)
next
  case (CaIssueSession rnd g pk v p cs sc md)
  then show ?thesis using i f by (auto simp: issueSession_def Let_def revoked_def intro!: issue_issues split: option.split)
next
  case (CaRenew nid)
  then show ?thesis using i by (auto simp: renew_def Let_def revoked_def intro!: issue_issues split: option.split)
next
  case (CaRevoke n r)
  with op show ?thesis by blast
qed

lemma issues_inv: "ca_inv s \<Longrightarrow> issues s s' \<Longrightarrow> ca_inv s'"
  unfolding issues_def by (elim disjE exE conjE)
    (auto simp: ca_inv_counter getByNid_None dest: latest_live intro!: ca_inv_append)

lemma issues_keeps: "issues s s' \<Longrightarrow> nid_revoked s nid \<Longrightarrow> nid_revoked s' nid"
  unfolding issues_def nid_revoked_def
  by (elim disjE exE conjE) (auto simp: getByNid_append, auto simp: ca_getByNid_def)

lemma ca_revoke_state:
  obtains (none) "ca_getByNid nid s = None" "snd (ca_revoke env opts now nid reason s) = s"
  | (some) r where "ca_getByNid nid s = Some r" "snd (ca_revoke env opts now nid reason s) =
      (let s1 = snd (store_revoke nid reason now s) in
       if fst (store_revoke nid reason now s) \<and> ct_nidRole r = Some ''group'' then cascade now (getByParentNid nid s1) s1 else s1)"
  by (cases "ca_getByNid nid s") (auto simp: ca_revoke_def Let_def case_prod_beta')

lemma ca_step_inv:
  assumes "ca_inv s" "op_fresh opts s e"
  shows "ca_inv (ca_step env opts s e)"
proof (cases e)
  case (Pair now op)
  show ?thesis
  proof (cases "\<exists>n r. op = CaRevoke n r")
    case True
    then obtain n r where op: "op = CaRevoke n r" by blast
    show ?thesis
      by (cases rule: ca_revoke_state [of n s env opts now r]) (use assms(1) in \<open>auto simp: Pair op Let_def store_revoke_inv cascade_inv\<close>)
  next
    case False
    with assms Pair step_issues issues_inv show ?thesis by blast
  qed
qed

lemma ca_step_keeps:
  assumes "ca_inv s" "op_fresh opts s e" "nid_revoked s nid"
  shows "nid_revoked (ca_step env opts s e) nid"
proof (cases e)
  case (Pair now op)
  show ?thesis
  proof (cases "\<exists>n r. op = CaRevoke n r")
    case True
    then obtain n r where op: "op = CaRevoke n r" by blast
    show ?thesis
      by (cases rule: ca_revoke_state [of n s env opts now r]) (use assms(3) in \<open>auto simp: Pair op Let_def store_revoke_keeps cascade_keeps\<close>)
  next
    case False
    with assms Pair step_issues issues_keeps show ?thesis by blast
  qed
qed

definition ca_fresh_step :: "ca_env \<Rightarrow> ca_options \<Rightarrow> ca_store \<Rightarrow> int \<times> ca_op \<Rightarrow> ca_store" where
  "ca_fresh_step env opts s e = (if op_fresh opts s e then ca_step env opts s e else s)"

interpretation ca: final_machine "ca_fresh_step env opts" ca_inv "\<lambda>s nid. if nid_revoked s nid then Some () else None"
  by unfold_locales (auto simp: ca_fresh_step_def ca_step_inv ca_step_keeps split: if_splits)

fun all_fresh :: "ca_env \<Rightarrow> ca_options \<Rightarrow> ca_store \<Rightarrow> (int \<times> ca_op) list \<Rightarrow> bool" where
  "all_fresh env opts s [] = True"
| "all_fresh env opts s (e # es) = (op_fresh opts s e \<and> all_fresh env opts (ca_step env opts s e) es)"

lemma all_fresh_run: "all_fresh env opts s es \<Longrightarrow> run (ca_fresh_step env opts) s es = run (ca_step env opts) s es"
  by (induction es arbitrary: s) (auto simp: ca_fresh_step_def)

lemma all_fresh_append: "all_fresh env opts s (es @ fs) \<longleftrightarrow> all_fresh env opts s es \<and> all_fresh env opts (run (ca_step env opts) s es) fs"
  by (induction es arbitrary: s) auto

lemma ca_run_inv: "ca_inv s \<Longrightarrow> all_fresh env opts s es \<Longrightarrow> ca_inv (run (ca_step env opts) s es)"
  using ca.run_inv [of s env opts es] by (simp add: all_fresh_run)

lemma ca_run_revoked: "ca_inv s \<Longrightarrow> all_fresh env opts s es \<Longrightarrow> nid_revoked s nid \<Longrightarrow> nid_revoked (run (ca_step env opts) s es) nid"
  using ca.run_outcome [of s nid "()" env opts es] by (auto simp: all_fresh_run split: if_splits)

lemma revoked_verify: "nid_revoked s nid \<Longrightarrow> ca_verify now nid s = Invalid ''NIP-CERT-REVOKED'' \<and> (\<exists>e. fst (renew env opts now nid s) = Inl e)"
  by (auto simp: nid_revoked_def ca_verify_def renew_def revoked_def)

section \<open>Properties\<close>

lemma revoked_latest:
  assumes "ca_inv s" "x \<in> set (ca_records s)" "revoked x"
  shows "nid_revoked s (ct_nid x)"
proof -
  obtain r where r: "ca_getByNid (ct_nid x) s = Some r" using assms(2) getByNid_None by (metis not_None_eq)
  then show ?thesis using latest_live [OF assms(1) r] assms(2,3) by (auto simp: nid_revoked_def)
qed

lemma store_revoke_children:
  assumes "x \<in> set (ca_records s)"
  shows "\<exists>y \<in> set (ca_records (snd (store_revoke nid reason now s))). ct_nid y = ct_nid x \<and> ct_parentNid y = ct_parentNid x"
proof (cases rule: store_revoke_cases [of nid reason now s])
  case none
  with assms show ?thesis by auto
next
  case (marked pre r post)
  with assms show ?thesis by (cases "x = r") auto
qed

lemma cascade_all:
  assumes i: "ca_inv s" and c: "c \<in> set (getByParentNid p s)"
  shows "nid_revoked (cascade now (getByParentNid p s) s) (ct_nid c)"
proof (cases "revoked c")
  case True
  have "c \<in> set (ca_records s)" using c by (simp add: getByParentNid_def)
  from revoked_latest [OF i this True] show ?thesis by (rule cascade_keeps)
next
  case False
  then show ?thesis using i c by (intro cascade_revokes) (auto simp: getByParentNid_def)
qed

lemma ca_revoke_revokes:
  assumes i: "ca_inv s" and ok: "ca_revoke env opts now nid reason s = (Inr f, s')" and g: "ca_getByNid nid s = Some g"
  shows "nid_revoked s' nid \<and>
    (ct_nidRole g = Some ''group'' \<longrightarrow> (\<forall>x \<in> set (ca_records s). ct_parentNid x = Some nid \<longrightarrow> nid_revoked s' (ct_nid x)))"
proof -
  let ?s1 = "snd (store_revoke nid reason now s)"
  have s': "s' = (if ct_nidRole g = Some ''group'' then cascade now (getByParentNid nid ?s1) ?s1 else ?s1)"
    using ok g by (auto simp: ca_revoke_def Let_def case_prod_beta' split: if_splits)
  from getByNid_Some [OF g] obtain x where "x \<in> set (ca_records s)" "ct_nid x = nid" by (metis in_set_conv_decomp)
  then have r1: "nid_revoked ?s1 nid" by (rule store_revoke_revokes [OF i])
  have "nid_revoked s' (ct_nid x)" if "ct_nidRole g = Some ''group''" "x \<in> set (ca_records s)" "ct_parentNid x = Some nid" for x
  proof -
    have "\<exists>y \<in> set (ca_records ?s1). ct_nid y = ct_nid x \<and> ct_parentNid y = Some nid"
      using store_revoke_children [OF that(2), of nid reason now] that(3) by simp
    then obtain y where y: "y \<in> set (ca_records ?s1)" "ct_nid y = ct_nid x" "ct_parentNid y = Some nid" by blast
    then have "y \<in> set (getByParentNid nid ?s1)" by (simp add: getByParentNid_def)
    from cascade_all [OF store_revoke_inv [OF i] this, of now] y(2) that(1) show ?thesis by (simp add: s')
  qed
  then show ?thesis using r1 s' by (simp add: cascade_keeps)
qed


text \<open>Serial numbers. Over any sequence of operations the serials of the stored certificates are
  pairwise distinct, so the store never refuses a certificate the CA has signed: an issuing
  operation fails with a platform error only when a JSON text does not parse.\<close>

theorem ca_serials_unique:
  assumes "all_fresh env opts ca_empty es"
  defines "s \<equiv> run (ca_step env opts) ca_empty es"
  shows "distinct (map ct_serial (ca_records s)) \<and>
    (ev_parse env (ct_scopeJson r) \<noteq> None \<longrightarrow> ct_metadataJson r = None \<longrightarrow> (\<exists>f s'. issue_and_save env opts r al lin s = (Inr f, s')))"
proof -
  have i: "ca_inv s" unfolding s_def by (rule ca_run_inv [OF ca_inv_empty assms(1)])
  have "\<exists>f s'. issue_and_save env opts r al lin s = (Inr f, s')" if "ev_parse env (ct_scopeJson r) \<noteq> None" "ct_metadataJson r = None"
    using that by (auto simp: issue_and_save_eq [OF i] issueFrame_def Let_def)
  with i show ?thesis by (simp add: ca_inv_def)
qed

text \<open>C27: sessions are attenuated. When a group issues a session, the group exists, is a group, is
  neither revoked nor expired; the session's capabilities are among the group's, its lifetime is
  within the configured bounds, the frame carries what was stored, signed by the CA; and the session
  verifies exactly as long as neither it nor its group has expired.\<close>

theorem ca_session_attenuated:
  assumes "ca_inv s" "issueSession env opts now rnd groupNid pubKey validityMs purpose caps scopeJson metadataJson s = (Inr f, s')"
    and nid: "nid = buildNid opts ''agent'' (''session-'' @ js_nat_string (nat (now div 1000)) @ ''-'' @ rnd)" "ca_getByNid nid s = None" "groupNid \<noteq> []"
  shows "\<exists>g r. ca_getByNid groupNid s = Some g \<and> ct_nidRole g = Some ''group'' \<and> ct_revokedAt g = None \<and> now \<le> ct_expiresAt g \<and>
    ca_getByNid nid s' = Some r \<and> set (ct_capabilities r) \<subseteq> set (ct_capabilities g) \<and> ct_parentNid r = Some groupNid \<and>
    now + co_sessionMinValidityMs opts \<le> ct_expiresAt r \<and> ct_expiresAt r \<le> now + co_sessionMaxValidityMs opts \<and>
    ip_nid (cf_payload f) = nid \<and> ip_capabilities (cf_payload f) = ct_capabilities r \<and> ip_expires_at (cf_payload f) = ct_expiresAt r \<and>
    cf_signature f = ev_sign env (cf_payload f) \<and>
    (\<forall>t. ca_verify t nid s' = (if t > ct_expiresAt r then Invalid ''NIP-CERT-EXPIRED''
       else if t > ct_expiresAt g then Invalid ''NIP-CERT-PARENT-REVOKED'' else Valid r))"
proof -
  from assms(2) obtain g where g: "ca_getByNid groupNid s = Some g" by (auto simp: issueSession_def split: option.splits)
  define v where "v = (case validityMs of None \<Rightarrow> co_sessionDefaultValidityMs opts | Some v \<Rightarrow> v)"
  define cs where "cs = (case caps of None \<Rightarrow> ct_capabilities g | Some cs \<Rightarrow> cs)"
  define sc where "sc = (case scopeJson of None \<Rightarrow> ct_scopeJson g | Some sc \<Rightarrow> sc)"
  define sid where "sid = ''session-'' @ js_nat_string (nat (now div 1000)) @ ''-'' @ rnd"
  define lin where "lin = buildLineage [(''role'', Some ''session''), (''parent_nid'', Some groupNid), (''group_nid'', Some groupNid),
     (''session_id'', Some sid), (''purpose'', purpose), (''owner_user_id'', extractLineageString (ct_lineage g) ''owner_user_id''),
     (''owner_key_id'', extractLineageString (ct_lineage g) ''owner_key_id'')]"
  have nid': "nid = buildNid opts ''agent'' sid" by (simp add: nid(1) sid_def)
  let ?x = "case caps of None \<Rightarrow> False | Some cs \<Rightarrow> list_ex (\<lambda>c. c \<notin> set (ct_capabilities g)) cs"
  have "ct_nidRole g = Some ''group'' \<and> ct_revokedAt g = None \<and> \<not> now > ct_expiresAt g \<and>
      \<not> (v < co_sessionMinValidityMs opts \<or> v > co_sessionMaxValidityMs opts) \<and> \<not> ?x \<and>
      issue_and_save env opts ((cert_of opts nid ''agent'' pubKey cs sc now (now + v) metadataJson)
       \<lparr>ct_nidRole := Some ''session'', ct_parentNid := Some groupNid, ct_lineage := Some lin\<rparr>) None (Some lin) s = (Inr f, s')"
    using assms(2) unfolding issueSession_def g option.case Let_def v_def [symmetric] cs_def [symmetric] sc_def [symmetric] sid_def [symmetric]
      lin_def [symmetric] nid' [symmetric] by (simp only: prod.inject sum.distinct simp_thms split: if_splits)
  moreover have "\<not> ?x \<Longrightarrow> set cs \<subseteq> set (ct_capabilities g)" by (auto simp: cs_def list_ex_iff split: option.splits)
  ultimately have gi: "ct_nidRole g = Some ''group''" "ct_revokedAt g = None" "now \<le> ct_expiresAt g"
    "co_sessionMinValidityMs opts \<le> v" "v \<le> co_sessionMaxValidityMs opts" "set cs \<subseteq> set (ct_capabilities g)"
    and iss: "issue_and_save env opts ((cert_of opts nid ''agent'' pubKey cs sc now (now + v) metadataJson)
       \<lparr>ct_nidRole := Some ''session'', ct_parentNid := Some groupNid, ct_lineage := Some lin\<rparr>) None (Some lin) s = (Inr f, s')"
    by simp_all
  let ?r0 = "(cert_of opts nid ''agent'' pubKey cs sc now (now + v) metadataJson)
       \<lparr>ct_nidRole := Some ''session'', ct_parentNid := Some groupNid, ct_lineage := Some lin\<rparr>"
  define n where "n = ca_serialCounter s + 1"
  have s': "s' = s\<lparr>ca_serialCounter := n, ca_records := ca_records s @ [?r0\<lparr>ct_serial := serial_of n\<rparr>]\<rparr>"
    and fr: "issueFrame env opts (?r0\<lparr>ct_serial := serial_of n\<rparr>) None (Some lin) = Some f"
    using iss unfolding issue_and_save_eq [OF assms(1)] n_def [symmetric] by (simp_all split: option.splits)
  let ?r = "?r0\<lparr>ct_serial := serial_of n\<rparr>"
  have rn: "ct_nid ?r = nid" "ct_revokedAt ?r = None" "ct_expiresAt ?r = now + v" "ct_capabilities ?r = cs" "ct_parentNid ?r = Some groupNid"
    by (simp_all add: cert_of_def)
  have ne: "groupNid \<noteq> nid" using g nid(2) by auto
  have l: "ca_getByNid nid s' = Some ?r" "ca_getByNid groupNid s' = Some g" unfolding s' getByNid_append using rn(1) ne g by simp_all
  have "ca_verify t nid s' = (if t > now + v then Invalid ''NIP-CERT-EXPIRED''
       else if t > ct_expiresAt g then Invalid ''NIP-CERT-PARENT-REVOKED'' else Valid ?r)" for t
    unfolding ca_verify_def l(1) option.case rn using nid(3) gi(2) by (simp add: l(2))
  moreover have "ip_nid (cf_payload f) = nid \<and> ip_capabilities (cf_payload f) = cs \<and> ip_expires_at (cf_payload f) = now + v \<and>
      cf_signature f = ev_sign env (cf_payload f)"
    using fr by (auto simp: issueFrame_def Let_def cert_of_def split: option.splits)
  ultimately show ?thesis using g gi l rn by (intro exI [of _ g] exI [of _ ?r]) simp
qed

section \<open>A concrete authority\<close>

definition demo_ca_env :: ca_env where
  "demo_ca_env = \<lparr>ev_sign = ip_serial, ev_sign_revoke = rp_serial, ev_parse = (\<lambda>s. Some (JStr s))\<rparr>"

text \<open>The defaults of \<open>resolveOptions\<close>.\<close>

definition demo_ca_options :: ca_options where
  "demo_ca_options = \<lparr>co_caNid = ''urn:nps:org:ca.x'', co_agentCertValidityDays = 30, co_nodeCertValidityDays = 90, co_renewalWindowDays = 7,
     co_groupCertValidityDays = 365, co_sessionDefaultValidityMs = 3600000, co_sessionMaxValidityMs = 86400000,
     co_sessionMinValidityMs = 60000, co_allowedCapabilities = None\<rparr>"

definition demo_ca :: "(int \<times> ca_op) list" where
  "demo_ca = [(0, CaRegisterGroup ''g'' None ''k'' [''read''] ''{}'' None None None),
     (1000, CaIssueSession ''r'' ''urn:nps:agent:ca.x:group-g'' ''k2'' None None None None None)]"

definition demo_ca_store :: ca_store where
  "demo_ca_store = run (ca_step demo_ca_env demo_ca_options) ca_empty demo_ca"

lemma demo_fresh: "all_fresh demo_ca_env demo_ca_options ca_empty demo_ca"
  by code_simp


theorem ca_serials_unique_witness:
  "distinct (map ct_serial (ca_records demo_ca_store)) \<and> length (ca_records demo_ca_store) = 2"
proof -
  have "length (ca_records demo_ca_store) = 2" by code_simp
  with ca_serials_unique [OF demo_fresh, folded demo_ca_store_def] show ?thesis by blast
qed

theorem ca_session_attenuated_witness:
  "\<exists>g r f s'. issueSession demo_ca_env demo_ca_options 5000 ''q'' ''urn:nps:agent:ca.x:group-g'' ''k3'' None None (Some [''read'']) None None demo_ca_store = (Inr f, s') \<and>
     ca_getByNid ''urn:nps:agent:ca.x:group-g'' demo_ca_store = Some g \<and>
     ca_getByNid ''urn:nps:agent:ca.x:session-5-q'' s' = Some r \<and> set (ct_capabilities r) \<subseteq> set (ct_capabilities g)"
proof -
  let ?call = "issueSession demo_ca_env demo_ca_options 5000 ''q'' ''urn:nps:agent:ca.x:group-g'' ''k3'' None None (Some [''read'']) None None demo_ca_store"
  have i: "ca_inv demo_ca_store" unfolding demo_ca_store_def by (rule ca_run_inv [OF ca_inv_empty demo_fresh])
  have "\<not> isl (fst ?call)" by code_simp
  then obtain f s' where r: "?call = (Inr f, s')" by (metis isl_def prod.collapse sum.collapse(2))
  have n: "''urn:nps:agent:ca.x:session-5-q'' = buildNid demo_ca_options ''agent'' (''session-'' @ js_nat_string (nat (5000 div 1000)) @ ''-'' @ ''q'')"
    by code_simp
  have "ca_getByNid ''urn:nps:agent:ca.x:session-5-q'' demo_ca_store = None" by code_simp
  from ca_session_attenuated [OF i r n this list.distinct(2)] r show ?thesis by blast
qed

text \<open>Renewal drops the role and the parent of a certificate. So a group that has been renewed can issue no
  more sessions, and a session renewed before its renewed group is revoked stays valid after that
  revocation, for the lifetime of an agent's certificate. (The group's lifetime is chosen inside the
  renewal window to keep the times small.)\<close>

definition escape_options :: ca_options where
  "escape_options = demo_ca_options\<lparr>co_groupCertValidityDays := 5\<rparr>"

definition escape_ops :: "(int \<times> ca_op) list" where
  "escape_ops = demo_ca @ [(2000, CaRenew ''urn:nps:agent:ca.x:group-g''), (2000, CaRenew ''urn:nps:agent:ca.x:session-1-r''),
     (3000, CaRevoke ''urn:nps:agent:ca.x:group-g'' ''compromised'')]"

lemma renew_escapes_group:
  "let s = run (ca_step demo_ca_env escape_options) ca_empty escape_ops in
   ca_verify 4000 ''urn:nps:agent:ca.x:group-g'' s = Invalid ''NIP-CERT-REVOKED'' \<and>
   (\<exists>r. ca_verify (29 * DAY) ''urn:nps:agent:ca.x:session-1-r'' s = Valid r)"
proof -
  let ?s = "run (ca_step demo_ca_env escape_options) ca_empty escape_ops"
  have "ca_verify 4000 ''urn:nps:agent:ca.x:group-g'' ?s = Invalid ''NIP-CERT-REVOKED''" by code_simp
  moreover have "case ca_verify (29 * DAY) ''urn:nps:agent:ca.x:session-1-r'' ?s of Valid r \<Rightarrow> True | Invalid e \<Rightarrow> False" by code_simp
  ultimately show ?thesis by (simp add: Let_def split: verify_result.splits)
qed

lemma renewed_group_issues_nothing:
  "fst (issueSession demo_ca_env escape_options 3000 ''r2'' ''urn:nps:agent:ca.x:group-g'' ''k3'' None None None None None
     (run (ca_step demo_ca_env escape_options) ca_empty (demo_ca @ [(2000, CaRenew ''urn:nps:agent:ca.x:group-g'')])))
   = Inl (NipCaException ''NIP-CA-PARENT-NOT-GROUP'')"
proof -
  have "case fst (issueSession demo_ca_env escape_options 3000 ''r2'' ''urn:nps:agent:ca.x:group-g'' ''k3'' None None None None None
     (run (ca_step demo_ca_env escape_options) ca_empty (demo_ca @ [(2000, CaRenew ''urn:nps:agent:ca.x:group-g'')]))) of
      Inl e \<Rightarrow> e = NipCaException ''NIP-CA-PARENT-NOT-GROUP'' | Inr f \<Rightarrow> False" by code_simp
  then show ?thesis by (simp split: sum.splits)
qed

end
