(* ===== verification/JsonText.thy ===== *)
theory JsonText
  imports JsonVal
begin

text \<open>
  The JSON text functions of the language that the sources call: \<open>JSON.stringify\<close> with and without a
  list of property names, the order of strings, and \<open>Array.prototype.sort\<close> on them. The printer of
  numbers is an argument \<open>numStr\<close>.
\<close>

definition dquote :: char where "dquote = CHR 0x22"

text \<open>\<open>JSON.stringify\<close> of an object or array; \<open>numStr\<close> is the number printer of the language.\<close>

definition hex_digit_lower :: "nat \<Rightarrow> char" where
  "hex_digit_lower d = (if d < 10 then char_of (48 + d) else char_of (87 + d))"

definition json_char :: "char \<Rightarrow> string" where
  "json_char c = (let n = (of_char c :: nat) in
     if c = dquote then [CHR 0x5C, dquote] else if n = 0x5C then [CHR 0x5C, CHR 0x5C]
     else if n = 8 then [CHR 0x5C, CHR ''b''] else if n = 12 then [CHR 0x5C, CHR ''f'']
     else if n = 10 then [CHR 0x5C, CHR ''n''] else if n = 13 then [CHR 0x5C, CHR ''r'']
     else if n = 9 then [CHR 0x5C, CHR ''t'']
     else if n < 32 then [CHR 0x5C, CHR ''u'', CHR ''0'', CHR ''0'', hex_digit_lower (n div 16), hex_digit_lower (n mod 16)]
     else [c])"

definition json_string :: "string \<Rightarrow> string" where
  "json_string s = [dquote] @ concat (map json_char s) @ [dquote]"

fun json_stringify :: "(rat \<Rightarrow> string) \<Rightarrow> jsval \<Rightarrow> string" where
  "json_stringify numStr JNull = ''null''"
| "json_stringify numStr (JBool b) = (if b then ''true'' else ''false'')"
| "json_stringify numStr (JNum n) = numStr n"
| "json_stringify numStr (JStr s) = json_string s"
| "json_stringify numStr (JArr vs) = ''['' @ js_join '','' (map (json_stringify numStr) vs) @ '']''"
| "json_stringify numStr (JObj kvs) =
     ''{'' @ js_join '','' (map (\<lambda>(k, v). json_string k @ '':'' @ json_stringify numStr v) kvs) @ ''}''"

fun js_str_lt :: "string \<Rightarrow> string \<Rightarrow> bool" where
  "js_str_lt _ [] = False"
| "js_str_lt [] (_ # _) = True"
| "js_str_lt (c # cs) (d # ds) = ((of_char c :: nat) < of_char d \<or> c = d \<and> js_str_lt cs ds)"

text \<open>\<open>xs.sort()\<close> on strings: a stable insertion sort by code units.\<close>

fun js_insort :: "string \<Rightarrow> string list \<Rightarrow> string list" where
  "js_insort x [] = [x]"
| "js_insort x (y # ys) = (if js_str_lt y x then y # js_insort x ys else x # y # ys)"

definition js_sort :: "string list \<Rightarrow> string list" where
  "js_sort xs = foldr js_insort xs []"

text \<open>\<open>JSON.stringify(value, names)\<close>: with an array as second argument, the objects at every depth are
  written with the members that the array names, in the array's order, and no others.\<close>

lemma member_le_size: "(v :: jsval) \<in> set vs \<Longrightarrow> size v \<le> size_list size vs"
  by (induction vs) auto

lemma size_map_of: "map_of kvs k = Some v \<Longrightarrow> size v < Suc (size_list (size_prod (\<lambda>_. 0) size) kvs)"
  by (induction kvs) (auto split: if_splits)

function json_stringify_named :: "(rat \<Rightarrow> string) \<Rightarrow> string list \<Rightarrow> jsval \<Rightarrow> string" where
  "json_stringify_named numStr names JNull = ''null''"
| "json_stringify_named numStr names (JBool b) = (if b then ''true'' else ''false'')"
| "json_stringify_named numStr names (JNum n) = numStr n"
| "json_stringify_named numStr names (JStr s) = json_string s"
| "json_stringify_named numStr names (JArr vs) = ''['' @ js_join '','' (map (json_stringify_named numStr names) vs) @ '']''"
| "json_stringify_named numStr names (JObj kvs) =
     ''{'' @ js_join '','' (concat (map (\<lambda>k. case jo_get kvs k of None \<Rightarrow> [] | Some v \<Rightarrow> [json_string k @ '':'' @ json_stringify_named numStr names v]) names)) @ ''}''"
  by pat_completeness auto

termination
  by (relation "measure (\<lambda>(n, ns, v). size v)") (auto simp: jo_get_def less_Suc_eq_le dest: size_map_of member_le_size)

end
