(* ===== verification/NopCondition.thy ===== *)
theory NopCondition
  imports NopRuntime JsonText
begin

text \<open>
  \<open>nop/condition-evaluator.ts\<close>: the lexer and the recursive-descent evaluator of the conditions of
  task nodes.

  A string is read as the list of the characters still to come, a parser position as the list of
  the tokens still to come, so \<open>i++\<close> and \<open>consume\<close> drop the head. Every exception the
  code can throw here leaves \<open>evaluateCondition\<close> as a \<open>NopConditionError\<close>. A number literal
  denotes its decimal value (\<open>None\<close>: \<open>NaN\<close>); rounding to a double is not modelled. The decimal
  text of a number, which \<open>JSON.stringify\<close> needs, is an argument \<open>numStr\<close>.
\<close>

section \<open>The lexer\<close>

datatype cond_error = NopConditionError

type_synonym 'a cond_result = "cond_error + 'a"

datatype token =
    DollarPath string | Number string | String string | TTrue | TFalse | TNull
  | Gt | Gte | Lt | Lte | Eq | Neq | And | Or | Not | LParen | RParen | Eof

definition isLetter :: "char \<Rightarrow> bool" where
  "isLetter c = (let n = (of_char c :: nat) in 65 \<le> n \<and> n \<le> 90 \<or> 97 \<le> n \<and> n \<le> 122)"

definition isLetterOrDigit :: "char \<Rightarrow> bool" where
  "isLetterOrDigit c \<longleftrightarrow> isLetter c \<or> js_is_digit c"

definition pathChar :: "char \<Rightarrow> bool" where
  "pathChar c \<longleftrightarrow> isLetterOrDigit c \<or> c = CHR ''_'' \<or> c = CHR ''.'' \<or> c = CHR ''$''"

definition numberChar :: "char \<Rightarrow> bool" where
  "numberChar c \<longleftrightarrow> js_is_digit c \<or> c = CHR ''.''"

definition keyword :: "string \<Rightarrow> token cond_result" where
  "keyword kw = (if kw = ''true'' then Inr TTrue else if kw = ''false'' then Inr TFalse
                 else if kw = ''null'' then Inr TNull else Inl NopConditionError)"

definition two_char :: "string \<Rightarrow> token option" where
  "two_char two = (if two = ''>='' then Some Gte else if two = ''<='' then Some Lte else if two = ''=='' then Some Eq
     else if two = ''!='' then Some Neq else if two = ''&&'' then Some And else if two = ''||'' then Some Or else None)"

definition one_char :: "char \<Rightarrow> token option" where
  "one_char c = (if c = CHR ''>'' then Some Gt else if c = CHR ''<'' then Some Lt else if c = CHR ''!'' then Some Not
     else if c = CHR ''('' then Some LParen else if c = CHR '')'' then Some RParen else None)"

definition push_token :: "token \<Rightarrow> token list cond_result \<Rightarrow> token list cond_result" where
  "push_token t r = (case r of Inl e \<Rightarrow> Inl e | Inr ts \<Rightarrow> Inr (t # ts))"

function tokenize :: "string \<Rightarrow> token list cond_result" where
  "tokenize [] = Inr [Eof]"
| "tokenize (c # cs) =
     (if js_is_ws c then tokenize cs
      else if c = CHR ''$'' \<and> cs \<noteq> [] \<and> hd cs = CHR ''.''
      then push_token (DollarPath (takeWhile pathChar (c # cs))) (tokenize (dropWhile pathChar (c # cs)))
      else if c = dquote
      then push_token (String (takeWhile (\<lambda>d. d \<noteq> dquote) cs)) (tokenize (tl (dropWhile (\<lambda>d. d \<noteq> dquote) cs)))
      else if js_is_digit c \<or> c = CHR ''-'' \<and> cs \<noteq> [] \<and> js_is_digit (hd cs)
      then push_token (Number (c # takeWhile numberChar cs)) (tokenize (dropWhile numberChar cs))
      else case two_char (c # take 1 cs) of
        Some t \<Rightarrow> push_token t (tokenize (tl cs))
      | None \<Rightarrow> (case one_char c of
          Some t \<Rightarrow> push_token t (tokenize cs)
        | None \<Rightarrow>
            if isLetter c
            then (case keyword (takeWhile isLetterOrDigit (c # cs)) of
                    Inl e \<Rightarrow> Inl e
                  | Inr t \<Rightarrow> push_token t (tokenize (dropWhile isLetterOrDigit (c # cs))))
            else Inl NopConditionError))"
  by pat_completeness auto

lemma dropWhile_shorter: "P c \<Longrightarrow> length (dropWhile P (c # cs)) < Suc (length cs)"
  using length_dropWhile_le [of P cs] by (simp add: le_imp_less_Suc)

termination tokenize
  by (relation "measure length")
    (auto simp: le_imp_less_Suc length_dropWhile_le pathChar_def isLetterOrDigit_def
      intro: le_less_trans [OF diff_le_self])

declare tokenize.simps(2) [simp del]

section \<open>The values\<close>

datatype cval = CNull | CBool bool | CNum "rat option" | CStr string

text \<open>\<open>resolve\<close>: \<open>undefined\<close> and \<open>null\<close> are one value, an object is its JSON text.\<close>

definition resolve_value :: "(rat \<Rightarrow> string) \<Rightarrow> (string, jsval) jsmap \<Rightarrow> string \<Rightarrow> cval cond_result" where
  "resolve_value numStr context path = (case resolvePath path context of
     Inl e \<Rightarrow> Inl NopConditionError
   | Inr None \<Rightarrow> Inr CNull
   | Inr (Some v) \<Rightarrow> Inr (case v of JNull \<Rightarrow> CNull | JBool b \<Rightarrow> CBool b | JNum n \<Rightarrow> CNum (Some n) | JStr s \<Rightarrow> CStr s
       | _ \<Rightarrow> CStr (json_stringify numStr v)))"

text \<open>\<open>Number(raw)\<close> for the raw text of a number token: an optional sign, a digit, digits and dots.\<close>

definition number_of_raw :: "string \<Rightarrow> rat option" where
  "number_of_raw raw =
     (let neg = (raw \<noteq> [] \<and> hd raw = CHR ''-''); ds = (if neg then tl raw else raw) in
      case js_split CHR ''.'' ds of
        [a] \<Rightarrow> Some ((if neg then -1 else 1) * of_nat (js_digits_value a))
      | [a, b] \<Rightarrow> Some ((if neg then -1 else 1) * (of_nat (js_digits_value (a @ b)) / 10 ^ length b))
      | _ \<Rightarrow> None)"

definition asTruthy :: "cval \<Rightarrow> bool" where
  "asTruthy v = (case v of CBool b \<Rightarrow> b | CNum n \<Rightarrow> n \<noteq> Some 0 | CStr s \<Rightarrow> length s > 0 | CNull \<Rightarrow> False)"

definition cond_eq :: "cval \<Rightarrow> cval \<Rightarrow> bool" where
  "cond_eq a b = (if a = CNull then b = CNull else a = b \<and> a \<noteq> CNum None)"

definition num_compare :: "token \<Rightarrow> rat option \<Rightarrow> rat option \<Rightarrow> bool" where
  "num_compare op a b = (case (a, b) of
     (Some x, Some y) \<Rightarrow> (case op of Gt \<Rightarrow> x > y | Gte \<Rightarrow> x \<ge> y | Lt \<Rightarrow> x < y | Lte \<Rightarrow> x \<le> y | _ \<Rightarrow> False)
   | _ \<Rightarrow> False)"

definition str_compare :: "token \<Rightarrow> string \<Rightarrow> string \<Rightarrow> bool" where
  "str_compare op a b =
     (let cmp = (if js_str_lt a b then -1 else if js_str_lt b a then 1 else 0 :: int) in
      case op of Gt \<Rightarrow> cmp > 0 | Gte \<Rightarrow> cmp \<ge> 0 | Lt \<Rightarrow> cmp < 0 | Lte \<Rightarrow> cmp \<le> 0 | _ \<Rightarrow> False)"

definition cond_compare :: "cval \<Rightarrow> token \<Rightarrow> cval \<Rightarrow> bool" where
  "cond_compare a op b =
     (if op = Eq then cond_eq a b
      else if op = Neq then \<not> cond_eq a b
      else case (a, b) of
        (CNum x, CNum y) \<Rightarrow> num_compare op x y
      | (CStr x, CStr y) \<Rightarrow> str_compare op x y
      | _ \<Rightarrow> False)"

definition isComparisonOp :: "token \<Rightarrow> bool" where
  "isComparisonOp k \<longleftrightarrow> k \<in> {Gt, Gte, Lt, Lte, Eq, Neq}"

section \<open>The parser\<close>

text \<open>The environment of the parser: the number printer and the node results.\<close>

record cond_env =
  ce_numStr :: "rat \<Rightarrow> string"
  ce_context :: "(string, jsval) jsmap"

text \<open>The value of one token; a token that is no value is the error of \<open>parseValue\<close>.\<close>

definition token_value :: "cond_env \<Rightarrow> token \<Rightarrow> cval cond_result" where
  "token_value env tok = (case tok of
     DollarPath raw \<Rightarrow> resolve_value (ce_numStr env) (ce_context env) raw
   | Number raw \<Rightarrow> Inr (CNum (number_of_raw raw))
   | String raw \<Rightarrow> Inr (CStr raw)
   | TTrue \<Rightarrow> Inr (CBool True)
   | TFalse \<Rightarrow> Inr (CBool False)
   | TNull \<Rightarrow> Inr CNull
   | _ \<Rightarrow> Inl NopConditionError)"

definition parseValue :: "cond_env \<Rightarrow> token list \<Rightarrow> (cval \<times> token list) cond_result" where
  "parseValue env ts = (case ts of
     [] \<Rightarrow> Inl NopConditionError
   | tok # rest \<Rightarrow> (case token_value env tok of Inl e \<Rightarrow> Inl e | Inr v \<Rightarrow> Inr (v, rest)))"

definition parse_operand :: "cond_env \<Rightarrow> token list \<Rightarrow> (bool \<times> token list) cond_result" where
  "parse_operand env ts = (case parseValue env ts of
     Inl e \<Rightarrow> Inl e
   | Inr (lhs, rest) \<Rightarrow> (case rest of
       [] \<Rightarrow> Inl NopConditionError
     | op # rest' \<Rightarrow>
         if \<not> isComparisonOp op then Inr (asTruthy lhs, rest)
         else (case parseValue env rest' of
             Inl e \<Rightarrow> Inl e
           | Inr (rhs, rest'') \<Rightarrow> Inr (cond_compare lhs op rhs, rest''))))"

text \<open>The loops of \<open>parseOrExpr\<close> and \<open>parseAndExpr\<close> are functions of their accumulated value.\<close>

function
  parseOrExpr :: "cond_env \<Rightarrow> token list \<Rightarrow> (bool \<times> token list) cond_result" and
  or_loop :: "cond_env \<Rightarrow> bool \<Rightarrow> token list \<Rightarrow> (bool \<times> token list) cond_result" and
  parseAndExpr :: "cond_env \<Rightarrow> token list \<Rightarrow> (bool \<times> token list) cond_result" and
  and_loop :: "cond_env \<Rightarrow> bool \<Rightarrow> token list \<Rightarrow> (bool \<times> token list) cond_result" and
  parseNotExpr :: "cond_env \<Rightarrow> token list \<Rightarrow> (bool \<times> token list) cond_result" and
  parseComparison :: "cond_env \<Rightarrow> token list \<Rightarrow> (bool \<times> token list) cond_result" where
  "parseOrExpr env ts = (case parseAndExpr env ts of Inl e \<Rightarrow> Inl e | Inr (left, rest) \<Rightarrow> or_loop env left rest)"
| "or_loop env left ts = (case ts of [] \<Rightarrow> Inl NopConditionError | t # ts' \<Rightarrow>
     if t = Or
     then (case parseAndExpr env ts' of Inl e \<Rightarrow> Inl e | Inr (right, rest) \<Rightarrow> or_loop env (left \<or> right) rest)
     else Inr (left, ts))"
| "parseAndExpr env ts = (case parseNotExpr env ts of Inl e \<Rightarrow> Inl e | Inr (left, rest) \<Rightarrow> and_loop env left rest)"
| "and_loop env left ts = (case ts of [] \<Rightarrow> Inl NopConditionError | t # ts' \<Rightarrow>
     if t = And
     then (case parseNotExpr env ts' of Inl e \<Rightarrow> Inl e | Inr (right, rest) \<Rightarrow> and_loop env (left \<and> right) rest)
     else Inr (left, ts))"
| "parseNotExpr env ts = (case ts of [] \<Rightarrow> Inl NopConditionError | t # ts' \<Rightarrow>
     if t = Not
     then (case parseNotExpr env ts' of Inl e \<Rightarrow> Inl e | Inr (b, rest) \<Rightarrow> Inr (\<not> b, rest))
     else parseComparison env ts)"
| "parseComparison env ts = (case ts of [] \<Rightarrow> Inl NopConditionError | t # ts' \<Rightarrow>
     if t = LParen
     then (case parseOrExpr env ts' of
             Inl e \<Rightarrow> Inl e
           | Inr (inner, rest) \<Rightarrow> if rest \<noteq> [] \<and> hd rest = RParen then Inr (inner, tl rest) else Inl NopConditionError)
     else if t = TTrue then Inr (True, ts')
     else if t = TFalse then Inr (False, ts')
     else parse_operand env ts)"
  by pat_completeness auto

text \<open>Every result leaves fewer tokens than its argument: the loops end.\<close>

lemma parseValue_shorter: "parseValue env ts = Inr (v, rest) \<Longrightarrow> length rest < length ts"
  by (auto simp: parseValue_def split: list.splits sum.splits)

lemma parse_operand_shorter: "parse_operand env ts = Inr (b, rest) \<Longrightarrow> length rest < length ts"
  by (auto simp: parse_operand_def split: list.splits sum.splits if_splits dest!: parseValue_shorter)

abbreviation parser_dom :: "((cond_env \<times> token list) + (cond_env \<times> bool \<times> token list) + (cond_env \<times> token list))
    + (cond_env \<times> bool \<times> token list) + (cond_env \<times> token list) + (cond_env \<times> token list) \<Rightarrow> bool" where
  "parser_dom \<equiv> parseOrExpr_or_loop_parseAndExpr_and_loop_parseNotExpr_parseComparison_dom"

lemmas parser_pinduct = parseOrExpr_or_loop_parseAndExpr_and_loop_parseNotExpr_parseComparison.pinduct

lemma parser_shorter:
  "parser_dom (Inl (Inl (env1, ts1))) \<Longrightarrow> parseOrExpr env1 ts1 = Inr (b1, r1) \<Longrightarrow> length r1 < length ts1"
  "parser_dom (Inl (Inr (Inl (env2, l2, ts2)))) \<Longrightarrow> or_loop env2 l2 ts2 = Inr (b2, r2) \<Longrightarrow> length r2 \<le> length ts2"
  "parser_dom (Inl (Inr (Inr (env3, ts3)))) \<Longrightarrow> parseAndExpr env3 ts3 = Inr (b3, r3) \<Longrightarrow> length r3 < length ts3"
  "parser_dom (Inr (Inl (env4, l4, ts4))) \<Longrightarrow> and_loop env4 l4 ts4 = Inr (b4, r4) \<Longrightarrow> length r4 \<le> length ts4"
  "parser_dom (Inr (Inr (Inl (env5, ts5)))) \<Longrightarrow> parseNotExpr env5 ts5 = Inr (b5, r5) \<Longrightarrow> length r5 < length ts5"
  "parser_dom (Inr (Inr (Inr (env6, ts6)))) \<Longrightarrow> parseComparison env6 ts6 = Inr (b6, r6) \<Longrightarrow> length r6 < length ts6"
proof (induction arbitrary: b1 r1 and b2 r2 and b3 r3 and b4 r4 and b5 r5 and b6 r6 rule: parser_pinduct)
  case (1 env ts)
  from "1.prems" "1.IH" show ?case by (fastforce simp: parseOrExpr.psimps [OF "1.hyps"] split: sum.splits)
next
  case (2 env l ts)
  from "2.prems" "2.IH" show ?case by (fastforce simp: or_loop.psimps [OF "2.hyps"] split: sum.splits list.splits if_splits)
next
  case (3 env ts)
  from "3.prems" "3.IH" show ?case by (fastforce simp: parseAndExpr.psimps [OF "3.hyps"] split: sum.splits)
next
  case (4 env l ts)
  from "4.prems" "4.IH" show ?case by (fastforce simp: and_loop.psimps [OF "4.hyps"] split: sum.splits list.splits if_splits)
next
  case (5 env ts)
  from "5.prems" "5.IH" show ?case by (fastforce simp: parseNotExpr.psimps [OF "5.hyps"] split: sum.splits list.splits if_splits)
next
  case (6 env ts)
  from "6.prems" "6.IH" show ?case
    by (fastforce simp: parseComparison.psimps [OF "6.hyps"] split: sum.splits list.splits if_splits dest: parse_operand_shorter)
qed

termination parseOrExpr
  by (relation "measure (case_sum (case_sum (\<lambda>(env, ts). 4 * length ts + 3) (case_sum (\<lambda>(env, l, ts). 4 * length ts) (\<lambda>(env, ts). 4 * length ts + 2)))
      (case_sum (\<lambda>(env, l, ts). 4 * length ts) (case_sum (\<lambda>(env, ts). 4 * length ts + 1) (\<lambda>(env, ts). 4 * length ts))))")
    (auto dest: parser_shorter)

lemmas parser_simps = parseOrExpr.simps or_loop.simps parseAndExpr.simps and_loop.simps parseNotExpr.simps parseComparison.simps
declare parser_simps [simp del]

section \<open>evaluateCondition\<close>

definition evaluateCondition :: "(rat \<Rightarrow> string) \<Rightarrow> string option \<Rightarrow> (string, jsval) jsmap \<Rightarrow> bool cond_result" where
  "evaluateCondition numStr condition context = (case condition of
     None \<Rightarrow> Inr True
   | Some c \<Rightarrow>
       if js_trim c = [] then Inr True
       else case tokenize (js_trim c) of
         Inl e \<Rightarrow> Inl e
       | Inr tokens \<Rightarrow> (case parseOrExpr \<lparr>ce_numStr = numStr, ce_context = context\<rparr> tokens of Inl e \<Rightarrow> Inl e | Inr (b, rest) \<Rightarrow> Inr b))"

section \<open>The grammar\<close>

text \<open>
  The grammar of the comments in the source, each sentence with its value: a token list and a truth
  value are related when the tokens derive from the category and the value is that of the
  derivation. A leading \<open>true\<close> or \<open>false\<close> is a comparison of its own, never a left operand.
\<close>

inductive
  or_expr :: "cond_env \<Rightarrow> token list \<Rightarrow> bool \<Rightarrow> bool" and
  and_expr :: "cond_env \<Rightarrow> token list \<Rightarrow> bool \<Rightarrow> bool" and
  not_expr :: "cond_env \<Rightarrow> token list \<Rightarrow> bool \<Rightarrow> bool" and
  comparison :: "cond_env \<Rightarrow> token list \<Rightarrow> bool \<Rightarrow> bool"
  for env :: cond_env where
  or_one: "and_expr env us b \<Longrightarrow> or_expr env us b"
| or_more: "or_expr env us a \<Longrightarrow> and_expr env vs b \<Longrightarrow> or_expr env (us @ Or # vs) (a \<or> b)"
| and_one: "not_expr env us b \<Longrightarrow> and_expr env us b"
| and_more: "and_expr env us a \<Longrightarrow> not_expr env vs b \<Longrightarrow> and_expr env (us @ And # vs) (a \<and> b)"
| not_more: "not_expr env us b \<Longrightarrow> not_expr env (Not # us) (\<not> b)"
| not_one: "comparison env us b \<Longrightarrow> not_expr env us b"
| cmp_paren: "or_expr env us b \<Longrightarrow> comparison env (LParen # us @ [RParen]) b"
| cmp_true: "comparison env [TTrue] True"
| cmp_false: "comparison env [TFalse] False"
| cmp_value: "token_value env t = Inr v \<Longrightarrow> t \<notin> {TTrue, TFalse} \<Longrightarrow> comparison env [t] (asTruthy v)"
| cmp_op: "token_value env t = Inr v \<Longrightarrow> t \<notin> {TTrue, TFalse} \<Longrightarrow> isComparisonOp op \<Longrightarrow> token_value env u = Inr w \<Longrightarrow>
    comparison env [t, op, u] (cond_compare v op w)"

lemmas grammar_intros = or_expr_and_expr_not_expr_comparison.intros

subsection \<open>What the parser accepts derives from the grammar\<close>

lemma token_value_shape: "token_value env t = Inr v \<Longrightarrow> t \<notin> {Not, LParen, RParen, And, Or, Eof} \<and> \<not> isComparisonOp t"
  by (auto simp: token_value_def isComparisonOp_def split: token.splits)

lemma parseValue_Inr: "parseValue env ts = Inr (v, rest) \<longleftrightarrow> (\<exists>t. ts = t # rest \<and> token_value env t = Inr v)"
  by (auto simp: parseValue_def split: list.splits sum.splits)

lemma parse_operand_sound:
  assumes "parse_operand env (t # ts) = Inr (b, r)" "t \<notin> {TTrue, TFalse}"
  shows "\<exists>us. t # ts = us @ r \<and> comparison env us b"
proof -
  obtain v op rest where v: "token_value env t = Inr v" "ts = op # rest"
    using assms(1) by (auto simp: parse_operand_def parseValue_Inr split: sum.splits list.splits)
  show ?thesis
  proof (cases "isComparisonOp op")
    case True
    with assms(1) v obtain u w where "rest = u # r" "token_value env u = Inr w" "b = cond_compare v op w"
      by (auto simp: parse_operand_def parseValue_def split: sum.splits list.splits)
    with True v assms(2) show ?thesis by (intro exI [of _ "[t, op, u]"]) (auto intro: cmp_op)
  next
    case False
    with assms(1) v have "b = asTruthy v" "r = ts" by (auto simp: parse_operand_def parseValue_def)
    with v(1) assms(2) show ?thesis by (intro exI [of _ "[t]"]) (auto intro: cmp_value)
  qed
qed

lemma or_loop_unfold:
  "or_loop env l [] = Inl NopConditionError"
  "or_loop env l (Or # ts) = (case parseAndExpr env ts of Inl e \<Rightarrow> Inl e | Inr (right, rest) \<Rightarrow> or_loop env (l \<or> right) rest)"
  "t \<noteq> Or \<Longrightarrow> or_loop env l (t # ts) = Inr (l, t # ts)"
  by (simp_all add: or_loop.simps)

lemma and_loop_unfold:
  "and_loop env l [] = Inl NopConditionError"
  "and_loop env l (And # ts) = (case parseNotExpr env ts of Inl e \<Rightarrow> Inl e | Inr (right, rest) \<Rightarrow> and_loop env (l \<and> right) rest)"
  "t \<noteq> And \<Longrightarrow> and_loop env l (t # ts) = Inr (l, t # ts)"
  by (simp_all add: and_loop.simps)

lemma parser_sound:
  "parseOrExpr env1 ts1 = Inr (b1, r1) \<Longrightarrow> \<exists>us. ts1 = us @ r1 \<and> or_expr env1 us b1"
  "or_loop env2 l2 ts2 = Inr (b2, r2) \<Longrightarrow> or_expr env2 p2 l2 \<Longrightarrow> \<exists>us. ts2 = us @ r2 \<and> or_expr env2 (p2 @ us) b2"
  "parseAndExpr env3 ts3 = Inr (b3, r3) \<Longrightarrow> \<exists>us. ts3 = us @ r3 \<and> and_expr env3 us b3"
  "and_loop env4 l4 ts4 = Inr (b4, r4) \<Longrightarrow> and_expr env4 p4 l4 \<Longrightarrow> \<exists>us. ts4 = us @ r4 \<and> and_expr env4 (p4 @ us) b4"
  "parseNotExpr env5 ts5 = Inr (b5, r5) \<Longrightarrow> \<exists>us. ts5 = us @ r5 \<and> not_expr env5 us b5"
  "parseComparison env6 ts6 = Inr (b6, r6) \<Longrightarrow> \<exists>us. ts6 = us @ r6 \<and> comparison env6 us b6"
proof (induction env1 ts1 and env2 l2 ts2 and env3 ts3 and env4 l4 ts4 and env5 ts5 and env6 ts6
    arbitrary: b1 r1 and b2 r2 p2 and b3 r3 and b4 r4 p4 and b5 r5 and b6 r6
    rule: parseOrExpr_or_loop_parseAndExpr_and_loop_parseNotExpr_parseComparison.induct)
  case (1 env ts)
  from "1.prems" obtain l rest where a: "parseAndExpr env ts = Inr (l, rest)" "or_loop env l rest = Inr (b1, r1)"
    by (auto simp: parseOrExpr.simps split: sum.splits)
  from "1.IH"(1) [OF a(1)] obtain us where us: "ts = us @ rest" "and_expr env us l" by blast
  from "1.IH"(2) [OF a(1) refl a(2) or_one [OF us(2)]] us(1) show ?case by fastforce
next
  case (2 env l ts)
  show ?case
  proof (cases "\<exists>ts'. ts = Or # ts'")
    case True
    then obtain ts' where ts: "ts = Or # ts'" by blast
    with "2.prems"(1) obtain x rest where a: "parseAndExpr env ts' = Inr (x, rest)" "or_loop env (l \<or> x) rest = Inr (b2, r2)"
      by (auto simp: or_loop_unfold split: sum.splits)
    from "2.IH"(1) [OF ts refl a(1)] obtain us where us: "ts' = us @ rest" "and_expr env us x" by blast
    from "2.IH"(2) [OF ts refl a(1) refl a(2) or_more [OF "2.prems"(2) us(2)]] obtain vs
      where "rest = vs @ r2" "or_expr env ((p2 @ Or # us) @ vs) b2" by blast
    with ts us(1) show ?thesis by (intro exI [of _ "Or # us @ vs"]) simp
  next
    case False
    with "2.prems" show ?thesis by (auto simp: or_loop.simps split: list.splits if_splits)
  qed
next
  case (3 env ts)
  from "3.prems" obtain l rest where a: "parseNotExpr env ts = Inr (l, rest)" "and_loop env l rest = Inr (b3, r3)"
    by (auto simp: parseAndExpr.simps split: sum.splits)
  from "3.IH"(1) [OF a(1)] obtain us where us: "ts = us @ rest" "not_expr env us l" by blast
  from "3.IH"(2) [OF a(1) refl a(2) and_one [OF us(2)]] us(1) show ?case by fastforce
next
  case (4 env l ts)
  show ?case
  proof (cases "\<exists>ts'. ts = And # ts'")
    case True
    then obtain ts' where ts: "ts = And # ts'" by blast
    with "4.prems"(1) obtain x rest where a: "parseNotExpr env ts' = Inr (x, rest)" "and_loop env (l \<and> x) rest = Inr (b4, r4)"
      by (auto simp: and_loop_unfold split: sum.splits)
    from "4.IH"(1) [OF ts refl a(1)] obtain us where us: "ts' = us @ rest" "not_expr env us x" by blast
    from "4.IH"(2) [OF ts refl a(1) refl a(2) and_more [OF "4.prems"(2) us(2)]] obtain vs
      where "rest = vs @ r4" "and_expr env ((p4 @ And # us) @ vs) b4" by blast
    with ts us(1) show ?thesis by (intro exI [of _ "And # us @ vs"]) simp
  next
    case False
    with "4.prems" show ?thesis by (auto simp: and_loop.simps split: list.splits if_splits)
  qed
next
  case (5 env ts)
  then obtain t ts' where ts: "ts = t # ts'" by (cases ts) (auto simp: parseNotExpr.simps)
  show ?case
  proof (cases "t = Not")
    case True
    with "5.prems" ts obtain x where a: "parseNotExpr env ts' = Inr (x, r5)" "b5 = (\<not> x)"
      by (auto simp: parseNotExpr.simps [of _ "_ # _"] split: sum.splits)
    from "5.IH"(1) [OF ts True a(1)] obtain us where "ts' = us @ r5" "not_expr env us x" by blast
    with ts True a(2) show ?thesis by (intro exI [of _ "Not # us"]) (auto intro: not_more)
  next
    case False
    with "5.prems" ts have "parseComparison env ts = Inr (b5, r5)" by (simp add: parseNotExpr.simps [of _ "_ # _"])
    from "5.IH"(2) [OF ts False this] show ?thesis by (blast intro: not_one)
  qed
next
  case (6 env ts)
  then obtain t ts' where ts: "ts = t # ts'" by (cases ts) (auto simp: parseComparison.simps)
  consider "t = LParen" | "t = TTrue" | "t = TFalse" | "t \<notin> {LParen, TTrue, TFalse}" by blast
  then show ?case
  proof cases
    case 1
    with "6.prems" ts obtain rest where a: "parseOrExpr env ts' = Inr (b6, rest)" "rest = RParen # r6"
      by (auto simp: parseComparison.simps [of _ "_ # _"] neq_Nil_conv split: sum.splits if_splits)
    from "6.IH" [OF ts 1 a(1)] obtain us where "ts' = us @ rest" "or_expr env us b6" by blast
    with ts 1 a(2) show ?thesis by (intro exI [of _ "LParen # us @ [RParen]"]) (auto intro: cmp_paren)
  next
    case 2
    with "6.prems" ts show ?thesis by (auto simp: parseComparison.simps [of _ "_ # _"] intro!: exI [of _ "[TTrue]"] cmp_true)
  next
    case 3
    with "6.prems" ts show ?thesis by (auto simp: parseComparison.simps [of _ "_ # _"] intro!: exI [of _ "[TFalse]"] cmp_false)
  next
    case 4
    with "6.prems" ts show ?thesis by (intro parse_operand_sound [of env t ts', folded ts]) (auto simp: parseComparison.simps [of _ "_ # _"])
  qed
qed

text \<open>A result ends before a token that is neither \<open>&&\<close> nor \<open>||\<close>.\<close>

lemma and_loop_stops: "and_loop env l ts = Inr (b, r) \<Longrightarrow> r \<noteq> [] \<and> hd r \<noteq> And"
proof (induction ts arbitrary: l rule: length_induct)
  case (1 ts)
  show ?case
  proof (cases "\<exists>ts'. ts = And # ts'")
    case True
    then obtain ts' x rest where a: "ts = And # ts'" "parseNotExpr env ts' = Inr (x, rest)" "and_loop env (l \<and> x) rest = Inr (b, r)"
      using "1.prems" by (auto simp: and_loop_unfold split: sum.splits)
    from parser_sound(5) [OF a(2)] a(1) have "length rest < length ts" by auto
    with "1.IH" a(3) show ?thesis by blast
  next
    case False
    with "1.prems" show ?thesis by (auto simp: and_loop.simps split: list.splits if_splits)
  qed
qed

lemma parseAndExpr_stops: "parseAndExpr env ts = Inr (b, r) \<Longrightarrow> r \<noteq> [] \<and> hd r \<noteq> And"
  using and_loop_stops by (fastforce simp: parseAndExpr.simps [of env ts] split: sum.splits)

lemma or_loop_stops: "or_loop env l ts = Inr (b, r) \<Longrightarrow> hd ts \<noteq> And \<Longrightarrow> r \<noteq> [] \<and> hd r \<notin> {And, Or}"
proof (induction ts arbitrary: l rule: length_induct)
  case (1 ts)
  show ?case
  proof (cases "\<exists>ts'. ts = Or # ts'")
    case True
    then obtain ts' x rest where a: "ts = Or # ts'" "parseAndExpr env ts' = Inr (x, rest)" "or_loop env (l \<or> x) rest = Inr (b, r)"
      using "1.prems" by (auto simp: or_loop_unfold split: sum.splits)
    from parser_sound(3) [OF a(2)] a(1) have "length rest < length ts" by auto
    with "1.IH" a(3) parseAndExpr_stops [OF a(2)] show ?thesis by blast
  next
    case False
    with "1.prems" show ?thesis by (auto simp: or_loop.simps split: list.splits if_splits)
  qed
qed

lemma parser_stops: "parseOrExpr env ts = Inr (b, r) \<Longrightarrow> r \<noteq> [] \<and> hd r \<notin> {And, Or}"
  using or_loop_stops parseAndExpr_stops by (fastforce simp: parseOrExpr.simps [of env ts] split: sum.splits)

subsection \<open>The parser accepts every sentence of the grammar\<close>

text \<open>What may follow an operand.\<close>

definition ends_operand :: "token list \<Rightarrow> bool" where
  "ends_operand r \<longleftrightarrow> r \<noteq> [] \<and> \<not> isComparisonOp (hd r)"

lemma ends_operand_Cons [simp]: "ends_operand (t # r) \<longleftrightarrow> \<not> isComparisonOp t" "\<not> ends_operand []"
  by (simp_all add: ends_operand_def)

lemma not_isComparisonOp [simp]: "\<not> isComparisonOp Or" "\<not> isComparisonOp And" "\<not> isComparisonOp RParen" "\<not> isComparisonOp Eof"
  by (simp_all add: isComparisonOp_def)

lemma comparison_head: "comparison env us b \<Longrightarrow> \<exists>t us'. us = t # us' \<and> t \<noteq> Not"
  by (erule comparison.cases) (auto dest: token_value_shape)

lemma grammar_nonempty:
  "or_expr env us1 b1 \<Longrightarrow> us1 \<noteq> []" "and_expr env us2 b2 \<Longrightarrow> us2 \<noteq> []"
  "not_expr env us3 b3 \<Longrightarrow> us3 \<noteq> []" "comparison env us4 b4 \<Longrightarrow> us4 \<noteq> []"
  by (induction rule: or_expr_and_expr_not_expr_comparison.inducts) simp_all

lemma parser_complete:
  "or_expr env us1 b1 \<Longrightarrow> ends_operand r1 \<Longrightarrow> hd r1 \<noteq> And \<Longrightarrow> parseOrExpr env (us1 @ r1) = or_loop env b1 r1"
  "and_expr env us2 b2 \<Longrightarrow> ends_operand r2 \<Longrightarrow> parseAndExpr env (us2 @ r2) = and_loop env b2 r2"
  "not_expr env us3 b3 \<Longrightarrow> ends_operand r3 \<Longrightarrow> parseNotExpr env (us3 @ r3) = Inr (b3, r3)"
  "comparison env us4 b4 \<Longrightarrow> ends_operand r4 \<Longrightarrow> parseComparison env (us4 @ r4) = Inr (b4, r4)"
proof (induction arbitrary: r1 and r2 and r3 and r4 rule: or_expr_and_expr_not_expr_comparison.inducts)
  case (or_one us b)
  then have "and_loop env b r1 = Inr (b, r1)" by (cases r1) (simp_all add: and_loop_unfold)
  with or_one show ?case by (simp add: parseOrExpr.simps)
next
  case (or_more us a vs b)
  then have "and_loop env b r1 = Inr (b, r1)" by (cases r1) (simp_all add: and_loop_unfold)
  with or_more show ?case by (simp add: or_loop_unfold)
next
  case (and_one us b)
  then show ?case by (simp add: parseAndExpr.simps)
next
  case (and_more us a vs b)
  then show ?case by (simp add: and_loop_unfold)
next
  case (not_more us b)
  then show ?case by (simp add: parseNotExpr.simps [of _ "_ # _"])
next
  case (not_one us b)
  then show ?case using comparison_head [of env us b] by (auto simp: parseNotExpr.simps [of _ "_ # _"])
next
  case (cmp_paren us b)
  then show ?case by (simp add: parseComparison.simps [of _ "_ # _"] or_loop_unfold)
next
  case cmp_true
  then show ?case by (simp add: parseComparison.simps [of _ "_ # _"])
next
  case cmp_false
  then show ?case by (simp add: parseComparison.simps [of _ "_ # _"])
next
  case (cmp_value t v)
  then show ?case using token_value_shape [of env t v]
    by (cases r4) (auto simp: parseComparison.simps [of _ "_ # _"] parse_operand_def parseValue_def)
next
  case (cmp_op t v op u w)
  then show ?case using token_value_shape [of env t v]
    by (auto simp: parseComparison.simps [of _ "_ # _"] parse_operand_def parseValue_def)
qed

section \<open>Printing\<close>

fun show_token :: "token \<Rightarrow> string" where
  "show_token (DollarPath p) = p" | "show_token (Number n) = n" | "show_token (String s) = [dquote] @ s @ [dquote]"
| "show_token TTrue = ''true''" | "show_token TFalse = ''false''" | "show_token TNull = ''null''"
| "show_token Gt = ''>''" | "show_token Gte = ''>=''" | "show_token Lt = ''<''" | "show_token Lte = ''<=''"
| "show_token Eq = ''==''" | "show_token Neq = ''!=''" | "show_token And = ''&&''" | "show_token Or = ''||''"
| "show_token Not = ''!''" | "show_token LParen = ''(''" | "show_token RParen = '')''" | "show_token Eof = []"

text \<open>The tokens a text can contain: paths start with \<open>$.\<close>, numbers with a digit or a sign and
  a digit, strings hold no quote.\<close>

definition lexable :: "token \<Rightarrow> bool" where
  "lexable t = (case t of
     DollarPath p \<Rightarrow> take 2 p = ''$.'' \<and> list_all pathChar p
   | Number n \<Rightarrow> (case n of [] \<Rightarrow> False | c # cs \<Rightarrow>
       list_all numberChar cs \<and> (js_is_digit c \<or> c = CHR ''-'' \<and> cs \<noteq> [] \<and> js_is_digit (hd cs)))
   | String s \<Rightarrow> dquote \<notin> set s
   | Eof \<Rightarrow> False | _ \<Rightarrow> True)"

definition show_tokens :: "token list \<Rightarrow> string" where
  "show_tokens ts = js_join '' '' (map show_token ts)"

definition at_gap :: "string \<Rightarrow> bool" where
  "at_gap r \<longleftrightarrow> r = [] \<or> hd r = CHR '' ''"

lemma gap_cases: "at_gap r \<Longrightarrow> (r = [] \<Longrightarrow> P) \<Longrightarrow> (\<And>r'. r = CHR '' '' # r' \<Longrightarrow> P) \<Longrightarrow> P"
  by (cases r) (auto simp: at_gap_def)

lemma takeWhile_gap:
  assumes "at_gap r" "list_all P xs" "\<not> P (CHR '' '')"
  shows "takeWhile P (xs @ r) = xs \<and> dropWhile P (xs @ r) = r"
  using assms(2) by (induction xs) (use assms(1,3) in \<open>auto elim: gap_cases\<close>)

lemma gap_no_char [simp]: "\<not> pathChar (CHR '' '')" "\<not> numberChar (CHR '' '')" "\<not> isLetterOrDigit (CHR '' '')" "js_is_ws (CHR '' '')"
  by (simp_all add: pathChar_def numberChar_def isLetterOrDigit_def isLetter_def js_is_digit_def js_is_ws_def)

lemma digit_not_ws: "js_is_digit c \<Longrightarrow> \<not> js_is_ws c \<and> c \<noteq> CHR ''$'' \<and> c \<noteq> dquote"
  by (auto simp: js_is_digit_def js_is_ws_def dquote_def Let_def)

lemma tokenize_path:
  assumes "take 2 p = ''$.''" "list_all pathChar p" "at_gap r"
  shows "tokenize (p @ r) = push_token (DollarPath p) (tokenize r)"
proof -
  obtain q where p: "p = CHR ''$'' # CHR ''.'' # q" using assms(1)
    by (cases p; cases "tl p") auto
  have "tokenize (p @ r) = push_token (DollarPath (takeWhile pathChar (p @ r))) (tokenize (dropWhile pathChar (p @ r)))"
    by (simp add: p js_is_ws_def tokenize.simps(2))
  with takeWhile_gap [OF assms(3,2)] show ?thesis by simp
qed

lemma tokenize_number:
  assumes "lexable (Number n)" "at_gap r"
  shows "tokenize (n @ r) = push_token (Number n) (tokenize r)"
proof -
  obtain c cs where n: "n = c # cs" "list_all numberChar cs" "js_is_digit c \<or> c = CHR ''-'' \<and> cs \<noteq> [] \<and> js_is_digit (hd cs)"
    using assms(1) by (auto simp: lexable_def split: list.splits)
  have "tokenize (c # cs @ r) = push_token (Number (c # takeWhile numberChar (cs @ r))) (tokenize (dropWhile numberChar (cs @ r)))"
    using n(3) digit_not_ws [of c] by (cases "js_is_digit c") (simp_all add: tokenize.simps(2) [of c] tokenize.simps(2) [of "CHR ''-''"] js_is_ws_def [of "CHR ''-''"] dquote_def)
  with takeWhile_gap [OF assms(2) n(2)] n(1) show ?thesis by simp
qed

lemma tokenize_string: "dquote \<notin> set s \<Longrightarrow> tokenize (dquote # s @ dquote # r) = push_token (String s) (tokenize r)"
proof -
  assume s: "dquote \<notin> set s"
  have "takeWhile (\<lambda>d. d \<noteq> dquote) (s @ dquote # r) = s" "dropWhile (\<lambda>d. d \<noteq> dquote) (s @ dquote # r) = dquote # r"
    using s by (induction s) auto
  then show ?thesis by (subst tokenize.simps(2)) (simp add: js_is_ws_def dquote_def)
qed

lemma tokenize_two:
  "two_char [c, d] = Some t \<Longrightarrow> tokenize (c # d # r) = push_token t (tokenize r)"
  by (subst tokenize.simps(2)) (auto simp: two_char_def js_is_ws_def dquote_def js_is_digit_def split: if_splits)

lemma tokenize_one:
  "one_char c = Some t \<Longrightarrow> at_gap r \<Longrightarrow> tokenize (c # r) = push_token t (tokenize r)"
  by (subst tokenize.simps(2), erule gap_cases)
    (auto simp: one_char_def two_char_def js_is_ws_def dquote_def js_is_digit_def split: if_splits)

lemma tokenize_keyword:
  assumes "keyword (c # kw) = Inr t" "at_gap r"
  shows "tokenize (c # kw @ r) = push_token t (tokenize r)"
proof -
  have c: "c \<in> {CHR ''t'', CHR ''f'', CHR ''n''}" and l: "list_all isLetterOrDigit (c # kw)" using assms(1)
    by (auto simp: keyword_def isLetterOrDigit_def isLetter_def split: if_splits)
  from takeWhile_gap [OF assms(2) l] have w: "takeWhile isLetterOrDigit (c # kw @ r) = c # kw" "dropWhile isLetterOrDigit (c # kw @ r) = r" by simp_all
  have "\<not> js_is_ws c" "c \<noteq> CHR ''$''" "c \<noteq> dquote" "\<not> js_is_digit c" "c \<noteq> CHR ''-''" "two_char (c # take 1 (kw @ r)) = None"
    "one_char c = None" "isLetter c"
    using c by (auto simp: two_char_def one_char_def isLetter_def js_is_ws_def dquote_def js_is_digit_def)
  with assms(1) w show ?thesis by (simp add: tokenize.simps(2) [of c])
qed

lemma tokenize_show:
  assumes "lexable t" "at_gap r"
  shows "tokenize (show_token t @ r) = push_token t (tokenize r)"
proof -
  have "tokenize (kw @ r) = push_token k (tokenize r)" if "keyword kw = Inr k" for kw k
    using that tokenize_keyword [of "hd kw" "tl kw" k r] assms(2) by (cases kw) (auto simp: keyword_def)
  note kw = this [of "''true''" TTrue] this [of "''false''" TFalse] this [of "''null''" TNull]
  show ?thesis using assms kw
    by (cases t) (simp_all add: lexable_def tokenize_path tokenize_number [unfolded lexable_def] tokenize_string
        tokenize_two two_char_def tokenize_one one_char_def keyword_def)
qed

lemma tokenize_show_tokens: "list_all lexable ts \<Longrightarrow> tokenize (show_tokens ts) = Inr (ts @ [Eof])"
proof (induction ts)
  case Nil
  then show ?case by (simp add: show_tokens_def)
next
  case (Cons t ts)
  have sp: "tokenize (CHR '' '' # r) = tokenize r" for r by (simp add: tokenize.simps(2))
  have "tokenize (show_token t @ r) = push_token t (tokenize r)" if "at_gap r" for r
    using tokenize_show [OF _ that] Cons.prems by simp
  from this [of "[]"] this [of "CHR '' '' # show_tokens ts"] Cons show ?case
    by (cases ts) (simp_all add: show_tokens_def at_gap_def push_token_def sp)
qed

text \<open>No printed token starts or ends with white space: \<open>trim\<close> keeps a printed condition.\<close>

lemma show_token_ends: "lexable t \<Longrightarrow> show_token t \<noteq> [] \<and> \<not> js_is_ws (hd (show_token t)) \<and> \<not> js_is_ws (last (show_token t))"
proof (induction t)
  case (DollarPath p)
  then have p: "p \<noteq> []" "\<And>c. c \<in> set p \<Longrightarrow> pathChar c" by (auto simp: lexable_def list_all_iff)
  have "\<not> js_is_ws c" if "c \<in> set p" for c using p(2) [OF that]
    by (auto simp: pathChar_def isLetterOrDigit_def isLetter_def js_is_digit_def js_is_ws_def Let_def)
  with p(1) show ?case by simp
next
  case (Number n)
  then obtain c cs where n: "n = c # cs" "list_all numberChar cs" "js_is_digit c \<or> c = CHR ''-''"
    by (auto simp: lexable_def split: list.splits)
  have "\<not> js_is_ws d" if "d \<in> set n" for d using that n
    by (auto simp: numberChar_def js_is_digit_def js_is_ws_def Let_def list_all_iff)
  with n(1) show ?case by (metis show_token.simps(2) list.distinct(1) hd_in_set last_in_set)
qed (auto simp: js_is_ws_def dquote_def lexable_def)

lemma js_trim_id: "s \<noteq> [] \<Longrightarrow> \<not> js_is_ws (hd s) \<Longrightarrow> \<not> js_is_ws (last s) \<Longrightarrow> js_trim s = s"
  using dropWhile_eq_self_iff [of js_is_ws s] dropWhile_eq_self_iff [of js_is_ws "rev s"]
  by (simp add: js_trim_def hd_rev)

lemma show_tokens_ends:
  "list_all lexable ts \<Longrightarrow> ts \<noteq> [] \<Longrightarrow>
   show_tokens ts \<noteq> [] \<and> \<not> js_is_ws (hd (show_tokens ts)) \<and> \<not> js_is_ws (last (show_tokens ts))"
proof (induction ts)
  case (Cons t ts)
  with show_token_ends [of t] show ?case by (cases ts) (simp_all add: show_tokens_def)
qed simp

lemma trim_show_tokens: "list_all lexable ts \<Longrightarrow> js_trim (show_tokens ts) = show_tokens ts"
  using show_tokens_ends [of ts] js_trim_id [of "show_tokens ts"] by (cases ts) (auto simp: show_tokens_def)

section \<open>The property\<close>



text \<open>What the prefix reading of the condition means: the tokens after the first complete condition are
  ignored, so \<open>true == false\<close> is true, and an unterminated string is accepted.\<close>

lemma condition_ignores_rest:
  "evaluateCondition numStr (Some ''true == false'') context = Inr True"
  "evaluateCondition numStr (Some ''true ) null'') context = Inr True"
  "evaluateCondition numStr (Some [CHR 0x22, CHR ''a'']) context = Inr True"
proof -
  have "js_trim ''true == false'' = ''true == false''" "tokenize ''true == false'' = Inr [TTrue, Eq, TFalse, Eof]" by code_simp+
  then show "evaluateCondition numStr (Some ''true == false'') context = Inr True" by (simp add: evaluateCondition_def parser_simps)
  have "js_trim ''true ) null'' = ''true ) null''" "tokenize ''true ) null'' = Inr [TTrue, RParen, TNull, Eof]" by code_simp+
  then show "evaluateCondition numStr (Some ''true ) null'') context = Inr True" by (simp add: evaluateCondition_def parser_simps)
  have "js_trim [CHR 0x22, CHR ''a''] = [CHR 0x22, CHR ''a'']" "tokenize [CHR 0x22, CHR ''a''] = Inr [String ''a'', Eof]" by code_simp+
  then show "evaluateCondition numStr (Some [CHR 0x22, CHR ''a'']) context = Inr True"
    by (simp add: evaluateCondition_def parser_simps parse_operand_def parseValue_def token_value_def asTruthy_def)
qed

end
