(* ===== verification/NipRa.thy ===== *)
theory NipRa
  imports NipCa
begin

text \<open>
  The enrollment gate of the CA: \<open>nip/ca/ra/policy.ts\<close> (allowlist, bootstrap tokens, pending
  queue) and \<open>registerWithRa\<close> of \<open>nip/ca/service.ts\<close>.

  SHA-256 is the argument \<open>sha256\<close>; random tokens and identifiers are arguments. The state holds the token
  store, the pending store and the CA's certificate store; a policy is the value its class would be
  built with. A \<open>check\<close> returns the exception it throws, if any.
\<close>

section \<open>AllowlistPolicy\<close>

text \<open>\<open>globToRegex\<close> turns every character of the pattern into one atom of the regular expression:
  \<open>*\<close> into \<open>.*\<close>, \<open>?\<close> into \<open>.\<close>, any other into the escaped literal. \<open>.\<close> matches no line
  terminator. The pattern \<open>*\<close> alone is the unanchored \<open>.*\<close>, which matches every string.\<close>

datatype glob_atom = Lit char | AnyOne | AnyMany

definition glob_atom_of :: "char \<Rightarrow> glob_atom" where
  "glob_atom_of c = (if c = CHR ''*'' then AnyMany else if c = CHR ''?'' then AnyOne else Lit c)"

definition line_end :: "char \<Rightarrow> bool" where
  "line_end c \<longleftrightarrow> c = CHR 10 \<or> c = CHR 13"

fun glob_match :: "glob_atom list \<Rightarrow> string \<Rightarrow> bool" where
  "glob_match [] s \<longleftrightarrow> s = []"
| "glob_match (Lit c # ps) s \<longleftrightarrow> s \<noteq> [] \<and> hd s = c \<and> glob_match ps (tl s)"
| "glob_match (AnyOne # ps) s \<longleftrightarrow> s \<noteq> [] \<and> \<not> line_end (hd s) \<and> glob_match ps (tl s)"
| "glob_match (AnyMany # ps) [] \<longleftrightarrow> glob_match ps []"
| "glob_match (AnyMany # ps) (c # s) \<longleftrightarrow> glob_match ps (c # s) \<or> \<not> line_end c \<and> glob_match (AnyMany # ps) s"

definition pattern_admits :: "string \<Rightarrow> string \<Rightarrow> bool" where
  "pattern_admits pattern s \<longleftrightarrow> pattern = ''*'' \<or> glob_match (map glob_atom_of pattern) s"

section \<open>The bootstrap token store\<close>

record TokenEntry =
  te_id :: string
  te_hash :: string
  te_label :: "string option"
  te_createdAt :: int
  te_expiresAt :: int
  te_consumed :: bool
  te_revoked :: bool

definition TOKEN_PREFIX :: string where "TOKEN_PREFIX = ''nps-bootstrap-''"

definition token_create :: "(string \<Rightarrow> string) \<Rightarrow> int \<Rightarrow> string \<Rightarrow> string \<Rightarrow> string option \<Rightarrow> int \<Rightarrow> TokenEntry list \<Rightarrow> string \<times> TokenEntry list" where
  "token_create sha256 now rnd rid label expiresAt tokens =
     (let raw = TOKEN_PREFIX @ rnd in
      (raw, tokens @ [\<lparr>te_id = rid, te_hash = sha256 raw, te_label = label, te_createdAt = now, te_expiresAt = expiresAt,
                       te_consumed = False, te_revoked = False\<rparr>]))"

text \<open>The entry a presented token matches: unused, unrevoked, unexpired, with its hash.\<close>

definition token_usable :: "int \<Rightarrow> string \<Rightarrow> TokenEntry \<Rightarrow> bool" where
  "token_usable now hash e \<longleftrightarrow> \<not> (te_consumed e \<or> te_revoked e) \<and> \<not> now > te_expiresAt e \<and> te_hash e = hash"

fun consume_first :: "int \<Rightarrow> string \<Rightarrow> TokenEntry list \<Rightarrow> bool \<times> TokenEntry list" where
  "consume_first now hash [] = (False, [])"
| "consume_first now hash (e # es) =
     (if token_usable now hash e then (True, e\<lparr>te_consumed := True\<rparr> # es)
      else apsnd (Cons e) (consume_first now hash es))"

definition validateAndConsume :: "(string \<Rightarrow> string) \<Rightarrow> int \<Rightarrow> string \<Rightarrow> TokenEntry list \<Rightarrow> bool \<times> TokenEntry list" where
  "validateAndConsume sha256 now tok tokens = consume_first now (sha256 tok) tokens"

fun token_revoke :: "string \<Rightarrow> TokenEntry list \<Rightarrow> bool \<times> TokenEntry list" where
  "token_revoke tid [] = (False, [])"
| "token_revoke tid (e # es) =
     (if te_id e = tid
      then if te_consumed e \<or> te_revoked e then (False, e # es) else (True, e\<lparr>te_revoked := True\<rparr> # es)
      else apsnd (Cons e) (token_revoke tid es))"

section \<open>The pending store\<close>

datatype PendingStatus = Pending | Approved | Rejected

record PendingRegistration =
  pr_id :: string
  pr_entityType :: string
  pr_identifier :: string
  pr_pubKey :: string
  pr_capabilities :: "string list"
  pr_scopeJson :: string
  pr_metadataJson :: "string option"
  pr_requestedAt :: int
  pr_status :: PendingStatus
  pr_rejectReason :: "string option"

type_synonym pending_store = "(string, PendingRegistration) jsmap"

definition pending_sweep :: "int \<Rightarrow> int \<Rightarrow> pending_store \<Rightarrow> pending_store" where
  "pending_sweep maxAgeMs now recs = filter (\<lambda>(i, r). \<not> (pr_status r \<noteq> Pending \<and> pr_requestedAt r < now - maxAgeMs)) recs"

definition count_pending :: "pending_store \<Rightarrow> nat" where
  "count_pending recs = length (filter (\<lambda>(i, r). pr_status r = Pending) recs)"

definition pendingCount :: "int \<Rightarrow> int \<Rightarrow> pending_store \<Rightarrow> nat \<times> pending_store" where
  "pendingCount maxAgeMs now recs = (let recs = pending_sweep maxAgeMs now recs in (count_pending recs, recs))"

definition pending_enqueue :: "PendingRegistration \<Rightarrow> pending_store \<Rightarrow> pending_store" where
  "pending_enqueue rq recs = js_set recs (pr_id rq) rq"

definition pending_approve :: "string \<Rightarrow> pending_store \<Rightarrow> bool \<times> pending_store" where
  "pending_approve i recs = (case js_get recs i of
     None \<Rightarrow> (False, recs)
   | Some r \<Rightarrow> if pr_status r \<noteq> Pending then (False, recs) else (True, js_set recs i (r\<lparr>pr_status := Approved\<rparr>)))"

definition pending_reject :: "string \<Rightarrow> string \<Rightarrow> pending_store \<Rightarrow> bool \<times> pending_store" where
  "pending_reject i reason recs = (case js_get recs i of
     None \<Rightarrow> (False, recs)
   | Some r \<Rightarrow> if pr_status r \<noteq> Pending then (False, recs)
       else (True, js_set recs i (r\<lparr>pr_status := Rejected, pr_rejectReason := Some reason\<rparr>)))"

section \<open>The policies and registerWithRa\<close>

record EnrollmentContext =
  ec_entityType :: string
  ec_identifier :: string
  ec_pubKey :: string
  ec_capabilities :: "string list"
  ec_scopeJson :: string
  ec_metadataJson :: "string option"
  ec_enrollmentToken :: "string option"

datatype ra_error = RaDenied string | RaPending string | RaCa ca_error

datatype enrollment_policy = AllowlistPolicy "string list" | BootstrapTokenPolicy | PendingQueuePolicy int

record ra_state =
  ra_tokens :: "TokenEntry list"
  ra_pending :: pending_store
  ra_ca :: ca_store

record ra_env =
  re_sha256 :: "string \<Rightarrow> string"
  re_ca :: ca_env
  re_opts :: ca_options
  re_maxAgeMs :: int

definition pending_request :: "string \<Rightarrow> int \<Rightarrow> EnrollmentContext \<Rightarrow> PendingRegistration" where
  "pending_request rid now ctx =
     \<lparr>pr_id = rid, pr_entityType = ec_entityType ctx, pr_identifier = ec_identifier ctx, pr_pubKey = ec_pubKey ctx,
      pr_capabilities = ec_capabilities ctx, pr_scopeJson = ec_scopeJson ctx, pr_metadataJson = ec_metadataJson ctx,
      pr_requestedAt = now, pr_status = Pending, pr_rejectReason = None\<rparr>"

definition allowlist_check :: "string list \<Rightarrow> EnrollmentContext \<Rightarrow> ra_state \<Rightarrow> ra_error option \<times> ra_state" where
  "allowlist_check patterns ctx s =
     (if list_ex (\<lambda>p. pattern_admits p (ec_identifier ctx)) patterns then (None, s) else (Some (RaDenied ''NIP-RA-NID-NOT-ALLOWED''), s))"

definition bootstrap_check :: "ra_env \<Rightarrow> int \<Rightarrow> EnrollmentContext \<Rightarrow> ra_state \<Rightarrow> ra_error option \<times> ra_state" where
  "bootstrap_check env now ctx s = (case ec_enrollmentToken ctx of
     None \<Rightarrow> (Some (RaDenied ''NIP-RA-TOKEN-INVALID''), s)
   | Some tok \<Rightarrow>
       if tok = [] \<or> \<not> js_startsWith tok TOKEN_PREFIX then (Some (RaDenied ''NIP-RA-TOKEN-INVALID''), s)
       else let (valid, tokens) = validateAndConsume (re_sha256 env) now tok (ra_tokens s) in
         (if valid then None else Some (RaDenied ''NIP-RA-TOKEN-EXPIRED''), s\<lparr>ra_tokens := tokens\<rparr>))"

definition queue_check :: "ra_env \<Rightarrow> int \<Rightarrow> int \<Rightarrow> string \<Rightarrow> EnrollmentContext \<Rightarrow> ra_state \<Rightarrow> ra_error option \<times> ra_state" where
  "queue_check env maxSize now rid ctx s =
     (let (n, recs) = pendingCount (re_maxAgeMs env) now (ra_pending s); s = s\<lparr>ra_pending := recs\<rparr> in
      if int n \<ge> maxSize then (Some (RaDenied ''NIP-RA-TOKEN-INVALID''), s)
      else (Some (RaPending rid), s\<lparr>ra_pending := pending_enqueue (pending_request rid now ctx) recs\<rparr>))"

fun policy_check :: "ra_env \<Rightarrow> enrollment_policy \<Rightarrow> int \<Rightarrow> string \<Rightarrow> EnrollmentContext \<Rightarrow> ra_state \<Rightarrow> ra_error option \<times> ra_state" where
  "policy_check env (AllowlistPolicy patterns) now rid ctx s = allowlist_check patterns ctx s"
| "policy_check env BootstrapTokenPolicy now rid ctx s = bootstrap_check env now ctx s"
| "policy_check env (PendingQueuePolicy maxSize) now rid ctx s = queue_check env maxSize now rid ctx s"

definition registerWithRa :: "ra_env \<Rightarrow> enrollment_policy option \<Rightarrow> int \<Rightarrow> string \<Rightarrow> EnrollmentContext \<Rightarrow> ra_state
    \<Rightarrow> (ra_error + CaIdentFrame) \<times> ra_state" where
  "registerWithRa env policy now rid ctx s =
     (let (err, s) = (case policy of None \<Rightarrow> (None, s) | Some p \<Rightarrow> policy_check env p now rid ctx s) in
      case err of
        Some e \<Rightarrow> (Inl e, s)
      | None \<Rightarrow>
          let (res, ca) = ca_register (re_ca env) (re_opts env) now (ec_entityType ctx) (ec_identifier ctx) (ec_pubKey ctx)
                            (ec_capabilities ctx) (ec_scopeJson ctx) (ec_metadataJson ctx) None (ra_ca s) in
          (map_sum RaCa id res, s\<lparr>ra_ca := ca\<rparr>))"

text \<open>The events of the registration authority.\<close>

datatype ra_event =
    RaCreateToken int string string "string option" int
  | RaRevokeToken string
  | RaRegister int string EnrollmentContext
  | RaApprove string
  | RaReject string string
  | RaList int

fun ra_step :: "ra_env \<Rightarrow> enrollment_policy \<Rightarrow> ra_state \<Rightarrow> ra_event \<Rightarrow> ra_state" where
  "ra_step env p s (RaCreateToken now rnd rid label ex) = s\<lparr>ra_tokens := snd (token_create (re_sha256 env) now rnd rid label ex (ra_tokens s))\<rparr>"
| "ra_step env p s (RaRevokeToken tid) = s\<lparr>ra_tokens := snd (token_revoke tid (ra_tokens s))\<rparr>"
| "ra_step env p s (RaRegister now rid ctx) = snd (registerWithRa env (Some p) now rid ctx s)"
| "ra_step env p s (RaApprove i) = s\<lparr>ra_pending := snd (pending_approve i (ra_pending s))\<rparr>"
| "ra_step env p s (RaReject i reason) = s\<lparr>ra_pending := snd (pending_reject i reason (ra_pending s))\<rparr>"
| "ra_step env p s (RaList now) = s\<lparr>ra_pending := pending_sweep (re_maxAgeMs env) now (ra_pending s)\<rparr>"

definition ra_empty :: ra_state where
  "ra_empty = \<lparr>ra_tokens = [], ra_pending = [], ra_ca = ca_empty\<rparr>"

section \<open>Bootstrap tokens are single-use\<close>

definition entries_of :: "string \<Rightarrow> ra_state \<Rightarrow> nat" where
  "entries_of hash s = length (filter (\<lambda>e. te_hash e = hash) (ra_tokens s))"

definition consumed_of :: "string \<Rightarrow> ra_state \<Rightarrow> nat" where
  "consumed_of hash s = length (filter (\<lambda>e. te_hash e = hash \<and> te_consumed e) (ra_tokens s))"

text \<open>Along a run: the registrations with token \<open>tok\<close> that succeed, and the tokens created with
  its hash.\<close>

fun successes :: "ra_env \<Rightarrow> string \<Rightarrow> ra_state \<Rightarrow> ra_event list \<Rightarrow> nat" where
  "successes env tok s [] = 0"
| "successes env tok s (e # es) =
     (case e of RaRegister now rid ctx \<Rightarrow>
        if ec_enrollmentToken ctx = Some tok \<and> \<not> isl (fst (registerWithRa env (Some BootstrapTokenPolicy) now rid ctx s)) then 1 else 0
      | _ \<Rightarrow> 0) + successes env tok (ra_step env BootstrapTokenPolicy s e) es"

fun created :: "ra_env \<Rightarrow> string \<Rightarrow> ra_event list \<Rightarrow> nat" where
  "created env tok [] = 0"
| "created env tok (e # es) =
     (case e of RaCreateToken now rnd rid label ex \<Rightarrow> if re_sha256 env (TOKEN_PREFIX @ rnd) = re_sha256 env tok then 1 else 0 | _ \<Rightarrow> 0)
     + created env tok es"

lemma length_filter_conj_le: "length (filter (\<lambda>x. P x \<and> Q x) xs) \<le> length (filter P xs)"
  by (induction xs) auto

lemma consumed_le_entries: "consumed_of h s \<le> entries_of h s"
  by (simp add: consumed_of_def entries_of_def length_filter_conj_le)

lemma consume_first_counts:
  "length (filter (\<lambda>e. te_hash e = h) (snd (consume_first now k es))) = length (filter (\<lambda>e. te_hash e = h) es) \<and>
   length (filter (\<lambda>e. te_hash e = h \<and> te_consumed e) (snd (consume_first now k es))) =
     length (filter (\<lambda>e. te_hash e = h \<and> te_consumed e) es) + (if fst (consume_first now k es) \<and> h = k then 1 else 0)"
  by (induction es) (auto simp: token_usable_def)

lemma token_revoke_counts:
  "length (filter (\<lambda>e. te_hash e = h) (snd (token_revoke i es))) = length (filter (\<lambda>e. te_hash e = h) es)"
  "length (filter (\<lambda>e. te_hash e = h \<and> te_consumed e) (snd (token_revoke i es))) = length (filter (\<lambda>e. te_hash e = h \<and> te_consumed e) es)"
  by (induction es) auto

lemma consume_first_usable: "fst (consume_first now h es) \<longleftrightarrow> (\<exists>e \<in> set es. token_usable now h e)"
  by (induction es) auto

lemma registerWithRa_tokens:
  "ra_tokens (snd (registerWithRa env (Some BootstrapTokenPolicy) now rid ctx s)) = ra_tokens (snd (policy_check env BootstrapTokenPolicy now rid ctx s))"
  by (simp add: registerWithRa_def split: prod.split option.split)

lemma registerWithRa_success:
  assumes "fst (registerWithRa env (Some BootstrapTokenPolicy) now rid ctx s) = Inr f"
  shows "\<exists>tok. ec_enrollmentToken ctx = Some tok \<and> js_startsWith tok TOKEN_PREFIX \<and> fst (validateAndConsume (re_sha256 env) now tok (ra_tokens s)) \<and>
     ra_tokens (snd (registerWithRa env (Some BootstrapTokenPolicy) now rid ctx s)) = snd (validateAndConsume (re_sha256 env) now tok (ra_tokens s))"
  using assms by (auto simp: registerWithRa_def bootstrap_check_def split: prod.splits option.splits if_splits)

lemma ra_step_entries:
  "entries_of (re_sha256 env tok) (ra_step env BootstrapTokenPolicy s e) = entries_of (re_sha256 env tok) s + created env tok [e]"
  by (cases e) (simp_all add: entries_of_def token_create_def token_revoke_counts registerWithRa_tokens validateAndConsume_def
      consume_first_counts bootstrap_check_def case_prod_beta Let_def split: option.split)

lemma not_isl_sum: "\<not> isl x \<longleftrightarrow> (\<exists>y. x = Inr y)"
  by (cases x) auto

lemma ra_step_consumed:
  "consumed_of (re_sha256 env tok) s + successes env tok s [e] \<le> consumed_of (re_sha256 env tok) (ra_step env BootstrapTokenPolicy s e)"
proof (cases "successes env tok s [e] = 0")
  case True
  then show ?thesis
    by (cases e) (simp_all add: consumed_of_def token_create_def token_revoke_counts registerWithRa_tokens validateAndConsume_def
        consume_first_counts bootstrap_check_def case_prod_beta Let_def split: option.split)
next
  case False
  then obtain now rid ctx f where e: "e = RaRegister now rid ctx" "ec_enrollmentToken ctx = Some tok"
    and f: "fst (registerWithRa env (Some BootstrapTokenPolicy) now rid ctx s) = Inr f"
    by (auto simp: not_isl_sum split: ra_event.splits if_splits)
  from registerWithRa_success [OF f] e have
    "fst (consume_first now (re_sha256 env tok) (ra_tokens s))"
    "ra_tokens (ra_step env BootstrapTokenPolicy s e) = snd (consume_first now (re_sha256 env tok) (ra_tokens s))"
    by (auto simp: validateAndConsume_def)
  then show ?thesis using e by (simp add: consumed_of_def consume_first_counts)
qed

lemma run_tokens:
  "consumed_of (re_sha256 env tok) s + successes env tok s es \<le> consumed_of (re_sha256 env tok) (run (ra_step env BootstrapTokenPolicy) s es) \<and>
   entries_of (re_sha256 env tok) (run (ra_step env BootstrapTokenPolicy) s es) = entries_of (re_sha256 env tok) s + created env tok es"
proof (induction es arbitrary: s)
  case (Cons e es)
  show ?case using Cons.IH [of "ra_step env BootstrapTokenPolicy s e"] ra_step_consumed [of env tok s e] ra_step_entries [of env tok s e] by simp
qed simp

text \<open>C34: Under the bootstrap-token policy no token admits more registrations than it was created for. In
  every run of the registration authority the successful registrations that present a token are at
  most the tokens created with its hash, and each of them finds an entry of that hash that is not
  consumed, not revoked and not expired.\<close>

theorem bootstrap_token_single_use:
  "successes env tok ra_empty es \<le> created env tok es \<and>
   (\<forall>f. fst (registerWithRa env (Some BootstrapTokenPolicy) now rid ctx s) = Inr f \<longrightarrow>
     (\<exists>tok e. ec_enrollmentToken ctx = Some tok \<and> js_startsWith tok TOKEN_PREFIX \<and> e \<in> set (ra_tokens s) \<and> te_hash e = re_sha256 env tok \<and>
        \<not> te_consumed e \<and> \<not> te_revoked e \<and> now \<le> te_expiresAt e))"
proof (intro conjI allI impI)
  have "entries_of h ra_empty = 0" for h by (simp add: entries_of_def ra_empty_def)
  with run_tokens [of env tok ra_empty es] consumed_le_entries [of "re_sha256 env tok" "run (ra_step env BootstrapTokenPolicy) ra_empty es"]
  show "successes env tok ra_empty es \<le> created env tok es" by simp
next
  fix f
  assume "fst (registerWithRa env (Some BootstrapTokenPolicy) now rid ctx s) = Inr f"
  from registerWithRa_success [OF this] consume_first_usable
  show "\<exists>tok e. ec_enrollmentToken ctx = Some tok \<and> js_startsWith tok TOKEN_PREFIX \<and> e \<in> set (ra_tokens s) \<and> te_hash e = re_sha256 env tok \<and>
        \<not> te_consumed e \<and> \<not> te_revoked e \<and> now \<le> te_expiresAt e"
    by (fastforce simp: validateAndConsume_def token_usable_def)
qed

definition demo_ra_env :: "ra_env" where
  "demo_ra_env = \<lparr>re_sha256 = id, re_ca = demo_ca_env, re_opts = demo_ca_options, re_maxAgeMs = 0\<rparr>"

definition demo_enrollment :: EnrollmentContext where
  "demo_enrollment = \<lparr>ec_entityType = ''agent'', ec_identifier = ''a'', ec_pubKey = ''k'', ec_capabilities = [], ec_scopeJson = [],
     ec_metadataJson = None, ec_enrollmentToken = Some (TOKEN_PREFIX @ ''x'')\<rparr>"

definition demo_ra :: ra_state where
  "demo_ra = ra_step demo_ra_env BootstrapTokenPolicy ra_empty (RaCreateToken 0 ''x'' ''i'' None 10)"

theorem bootstrap_token_single_use_witness:
  "successes demo_ra_env (TOKEN_PREFIX @ ''x'') ra_empty
     [RaCreateToken 0 ''x'' ''i'' None 10, RaRegister 5 ''r'' demo_enrollment, RaRegister 6 ''s'' (demo_enrollment\<lparr>ec_identifier := ''b''\<rparr>)] \<le> 1 \<and>
   (\<exists>tok e. ec_enrollmentToken demo_enrollment = Some tok \<and> e \<in> set (ra_tokens demo_ra) \<and> 5 \<le> te_expiresAt e)"
proof -
  have "\<not> isl (fst (registerWithRa demo_ra_env (Some BootstrapTokenPolicy) 5 ''r'' demo_enrollment demo_ra))" by code_simp
  then obtain f where "fst (registerWithRa demo_ra_env (Some BootstrapTokenPolicy) 5 ''r'' demo_enrollment demo_ra) = Inr f"
    by (auto simp: not_isl_sum)
  with bootstrap_token_single_use [of demo_ra_env "TOKEN_PREFIX @ ''x''"
     "[RaCreateToken 0 ''x'' ''i'' None 10, RaRegister 5 ''r'' demo_enrollment, RaRegister 6 ''s'' (demo_enrollment\<lparr>ec_identifier := ''b''\<rparr>)]"
     5 "''r''" demo_enrollment demo_ra]
  show ?thesis by (auto simp del: successes.simps)
qed

section \<open>The pending queue is bounded\<close>

lemma count_pending_set:
  "count_pending (js_set recs i r) \<le> count_pending recs + (if pr_status r = Pending then 1 else 0)"
  by (induction recs) (auto simp: count_pending_def js_set_def)

lemma count_pending_decide:
  "js_get recs i = Some r \<Longrightarrow> pr_status r = Pending \<Longrightarrow> pr_status r' \<noteq> Pending \<Longrightarrow> Suc (count_pending (js_set recs i r')) = count_pending recs"
  by (induction recs) (auto simp: count_pending_def js_set_def js_get_def)

lemma count_pending_sweep: "count_pending (pending_sweep maxAge now recs) = count_pending recs"
  by (simp add: count_pending_def pending_sweep_def) (rule arg_cong [of _ _ length], rule filter_cong, auto)

definition pending_bounded :: "int \<Rightarrow> ra_state \<Rightarrow> bool" where
  "pending_bounded maxSize s \<longleftrightarrow> int (count_pending (ra_pending s)) \<le> max 0 maxSize"

lemma pending_decide_bounded:
  "count_pending (snd (pending_approve i recs)) \<le> count_pending recs"
  "count_pending (snd (pending_reject i reason recs)) \<le> count_pending recs"
proof -
  have "count_pending (js_set recs i r') \<le> count_pending recs" if "js_get recs i = Some r" "pr_status r = Pending" "pr_status r' \<noteq> Pending" for r r'
    using count_pending_decide [OF that] by simp
  then show "count_pending (snd (pending_approve i recs)) \<le> count_pending recs" "count_pending (snd (pending_reject i reason recs)) \<le> count_pending recs"
    by (auto simp: pending_approve_def pending_reject_def split: option.split)
qed

lemma queue_bounded: "pending_bounded m s \<Longrightarrow> pending_bounded m (snd (registerWithRa env (Some (PendingQueuePolicy m)) now rid ctx s))"
  using count_pending_set [of "pending_sweep (re_maxAgeMs env) now (ra_pending s)" rid "pending_request rid now ctx"]
  by (auto simp: registerWithRa_def queue_check_def case_prod_beta Let_def pending_bounded_def pendingCount_def pending_enqueue_def count_pending_sweep pending_request_def)

lemma pending_step: "pending_bounded m s \<Longrightarrow> pending_bounded m (ra_step env (PendingQueuePolicy m) s e)"
proof (cases e)
  case (RaRegister now rid ctx)
  then show "pending_bounded m s \<Longrightarrow> ?thesis" by (simp add: queue_bounded)
next
  case (RaApprove i)
  then show "pending_bounded m s \<Longrightarrow> ?thesis" using pending_decide_bounded(1) [of i "ra_pending s"] by (simp add: pending_bounded_def)
next
  case (RaReject i reason)
  then show "pending_bounded m s \<Longrightarrow> ?thesis" using pending_decide_bounded(2) [of i reason "ra_pending s"] by (simp add: pending_bounded_def)
qed (simp_all add: pending_bounded_def count_pending_sweep)

interpretation pending_queue: invariant_machine "ra_step env (PendingQueuePolicy m)" "pending_bounded m"
  by unfold_locales (rule pending_step)

text \<open>Under the pending-queue policy no registration succeeds at once: every one is queued or refused, and
  never more than the maximum are waiting.\<close>

theorem pending_queue_bounded:
  "pending_bounded m (run (ra_step env (PendingQueuePolicy m)) ra_empty es) \<and>
   (\<nexists>f. fst (registerWithRa env (Some (PendingQueuePolicy m)) now rid ctx s) = Inr f)"
proof -
  have "pending_bounded m ra_empty" by (simp add: pending_bounded_def ra_empty_def count_pending_def)
  from pending_queue.run_inv [OF this] show ?thesis by (simp add: registerWithRa_def queue_check_def case_prod_beta Let_def)
qed

section \<open>What the allowlist admits\<close>

lemma glob_literal: "glob_match (map Lit p @ ps) s \<longleftrightarrow> (\<exists>r. s = p @ r \<and> glob_match ps r)"
  by (induction p arbitrary: s) (auto simp: neq_Nil_conv)

lemma glob_many: "glob_match (AnyMany # ps) s \<longleftrightarrow> (\<exists>u r. s = u @ r \<and> list_all (\<lambda>c. \<not> line_end c) u \<and> glob_match ps r)"
proof (induction s)
  case (Cons c s)
  have "(\<exists>u r. c # s = u @ r \<and> list_all (\<lambda>c. \<not> line_end c) u \<and> glob_match ps r) \<longleftrightarrow>
     glob_match ps (c # s) \<or> \<not> line_end c \<and> (\<exists>u r. s = u @ r \<and> list_all (\<lambda>c. \<not> line_end c) u \<and> glob_match ps r)"
    (is "?L \<longleftrightarrow> ?R")
  proof
    assume ?L
    then obtain u r where u: "c # s = u @ r" "list_all (\<lambda>c. \<not> line_end c) u" "glob_match ps r" by blast
    then show ?R by (cases u) auto
  next
    assume ?R
    then show ?L
    proof
      assume "glob_match ps (c # s)"
      then show ?L by (intro exI [of _ "[]"] exI [of _ "c # s"]) simp
    next
      assume "\<not> line_end c \<and> (\<exists>u r. s = u @ r \<and> list_all (\<lambda>c. \<not> line_end c) u \<and> glob_match ps r)"
      then obtain u r where "\<not> line_end c" "s = u @ r" "list_all (\<lambda>c. \<not> line_end c) u" "glob_match ps r" by blast
      then show ?L by (intro exI [of _ "c # u"] exI [of _ r]) simp
    qed
  qed
  with Cons show ?case by simp
qed auto

text \<open>A pattern \<open>p*q\<close> with literal \<open>p\<close> and \<open>q\<close> admits exactly the identifiers that start with \<open>p\<close> and end
  with \<open>q\<close>, with no line end between; a literal pattern admits only itself.\<close>

theorem allowlist_exact:
  assumes "set p \<inter> {CHR ''*'', CHR ''?''} = {}" "set q \<inter> {CHR ''*'', CHR ''?''} = {}" "p @ q \<noteq> []"
  shows "(pattern_admits (p @ CHR ''*'' # q) s \<longleftrightarrow> (\<exists>u. s = p @ u @ q \<and> list_all (\<lambda>c. \<not> line_end c) u)) \<and> (pattern_admits p s \<longleftrightarrow> s = p)"
proof -
  have l: "map glob_atom_of r = map Lit r" if "set r \<inter> {CHR ''*'', CHR ''?''} = {}" for r
    using that by (auto simp: glob_atom_of_def)
  have "p @ CHR ''*'' # q \<noteq> ''*''" "p \<noteq> ''*''" using assms(1,3) by (auto simp: append_eq_Cons_conv)
  then show ?thesis
    using glob_literal [of p] glob_literal [of q "[]"] glob_literal [of p "[]"]
    by (auto simp: pattern_admits_def l [OF assms(1)] l [OF assms(2)] glob_many glob_atom_of_def [of "CHR ''*''"])
qed

end
