(* ===== verification/NipDer.thy ===== *)
theory NipDer
  imports Prelude "HOL-Library.Word"
begin

text \<open>
  \<open>nip/x509/der.ts\<close>: the DER reader and encoder behind the attestation extensions and the OCSP staple.

  A reader is the record of its buffer, position and limit; a read returns its value with the advanced
  reader, or the \<open>DerError\<close>. The UTF-8 codec of the platform is an argument (\<open>None\<close>: the fatal decoder
  throws). The year-to-day arithmetic of \<open>Date.UTC\<close> is written out as the language defines it.
\<close>

unbundle bit_operations_syntax

section \<open>Reading\<close>

datatype der_error = DerError

type_synonym 'a der_result = "der_error + 'a"

definition TAG_ENUMERATED :: "8 word" where "TAG_ENUMERATED = 0x0a"
definition TAG_UTF8_STRING :: "8 word" where "TAG_UTF8_STRING = 0x0c"
definition TAG_OBJECT_ID :: "8 word" where "TAG_OBJECT_ID = 0x06"
definition TAG_OCTET_STRING :: "8 word" where "TAG_OCTET_STRING = 0x04"
definition TAG_SEQUENCE :: "8 word" where "TAG_SEQUENCE = 0x30"
definition TAG_GENERALIZED_TIME :: "8 word" where "TAG_GENERALIZED_TIME = 0x18"
definition TAG_CONTEXT_0 :: "8 word" where "TAG_CONTEXT_0 = 0xa0"

lemmas der_tags = TAG_ENUMERATED_def TAG_UTF8_STRING_def TAG_OBJECT_ID_def TAG_OCTET_STRING_def TAG_SEQUENCE_def
  TAG_GENERALIZED_TIME_def TAG_CONTEXT_0_def

definition isContextSpecific :: "8 word \<Rightarrow> bool" where
  "isContextSpecific tag \<longleftrightarrow> tag AND 0xc0 = 0x80"

record Tlv =
  tlv_tag :: "8 word"
  tlv_contentStart :: nat
  tlv_contentEnd :: nat

record DerReader =
  dr_buf :: bytes
  dr_pos :: nat
  dr_limit :: nat

definition der_reader :: "bytes \<Rightarrow> DerReader" where
  "der_reader buf = \<lparr>dr_buf = buf, dr_pos = 0, dr_limit = length buf\<rparr>"

definition hasData :: "DerReader \<Rightarrow> bool" where
  "hasData r \<longleftrightarrow> dr_pos r < dr_limit r"

definition peekTag :: "DerReader \<Rightarrow> 8 word der_result" where
  "peekTag r = (if \<not> hasData r then Inl DerError else Inr (dr_buf r ! dr_pos r))"

definition be_value :: "bytes \<Rightarrow> nat" where
  "be_value bs = foldl (\<lambda>n b. n * 256 + unat b) 0 bs"

definition parseTlv :: "bytes \<Rightarrow> nat \<Rightarrow> nat \<Rightarrow> Tlv der_result" where
  "parseTlv buf offset limit =
     (if offset + 2 > limit then Inl DerError
      else let tag = buf ! offset in
      if tag AND 0x1f = 0x1f then Inl DerError
      else let f = buf ! (offset + 1); p = offset + 2 in
      if f < 0x80
      then if p + unat f > limit then Inl DerError
           else Inr \<lparr>tlv_tag = tag, tlv_contentStart = p, tlv_contentEnd = p + unat f\<rparr>
      else let n = unat (f AND 0x7f) in
        if n = 0 then Inl DerError
        else if n > 4 then Inl DerError
        else if p + n > limit then Inl DerError
        else let len = be_value (take n (drop p buf)); p = p + n in
          if p + len > limit then Inl DerError
          else Inr \<lparr>tlv_tag = tag, tlv_contentStart = p, tlv_contentEnd = p + len\<rparr>)"

definition der_read :: "8 word option \<Rightarrow> DerReader \<Rightarrow> (Tlv \<times> DerReader) der_result" where
  "der_read expectedTag r = (case parseTlv (dr_buf r) (dr_pos r) (dr_limit r) of
     Inl e \<Rightarrow> Inl e
   | Inr tlv \<Rightarrow>
       if expectedTag \<noteq> None \<and> expectedTag \<noteq> Some (tlv_tag tlv) then Inl DerError
       else Inr (tlv, r\<lparr>dr_pos := tlv_contentEnd tlv\<rparr>))"

definition readSequence :: "8 word \<Rightarrow> DerReader \<Rightarrow> (DerReader \<times> DerReader) der_result" where
  "readSequence expectedTag r = rbind (der_read (Some expectedTag) r) (\<lambda>(tlv, r').
     Inr (r\<lparr>dr_pos := tlv_contentStart tlv, dr_limit := tlv_contentEnd tlv\<rparr>, r'))"

definition der_skip :: "8 word option \<Rightarrow> DerReader \<Rightarrow> DerReader der_result" where
  "der_skip expectedTag r = rbind (der_read expectedTag r) (\<lambda>(tlv, r'). Inr r')"

definition readContent :: "8 word \<Rightarrow> DerReader \<Rightarrow> (bytes \<times> DerReader) der_result" where
  "readContent expectedTag r = rbind (der_read (Some expectedTag) r) (\<lambda>(tlv, r').
     Inr (take (tlv_contentEnd tlv - tlv_contentStart tlv) (drop (tlv_contentStart tlv) (dr_buf r)), r'))"

definition readUtf8String :: "(bytes \<Rightarrow> string option) \<Rightarrow> DerReader \<Rightarrow> (string \<times> DerReader) der_result" where
  "readUtf8String utf8 r = rbind (readContent TAG_UTF8_STRING r) (\<lambda>(bs, r').
     case utf8 bs of None \<Rightarrow> Inl DerError | Some s \<Rightarrow> Inr (s, r'))"

lemma parseTlv_advances: "parseTlv buf offset limit = Inr tlv \<Longrightarrow> offset < tlv_contentEnd tlv \<and> tlv_contentEnd tlv \<le> limit"
  by (auto simp: parseTlv_def Let_def split: if_splits)

lemma readUtf8String_advances:
  "readUtf8String utf8 r = Inr (s, r') \<Longrightarrow> dr_limit r' = dr_limit r \<and> dr_pos r < dr_pos r' \<and> dr_pos r' \<le> dr_limit r"
  by (auto simp: readUtf8String_def readContent_def der_read_def rbind_Inr_iff dest!: parseTlv_advances split: sum.splits option.splits if_splits)

text \<open>\<open>while (seq.hasData) values.push(seq.readUtf8String())\<close>\<close>

function read_utf8_all :: "(bytes \<Rightarrow> string option) \<Rightarrow> DerReader \<Rightarrow> string list der_result" where
  "read_utf8_all utf8 r =
     (if hasData r
      then case readUtf8String utf8 r of
          Inl e \<Rightarrow> Inl e
        | Inr (s, r') \<Rightarrow> (case read_utf8_all utf8 r' of Inl e \<Rightarrow> Inl e | Inr ss \<Rightarrow> Inr (s # ss))
      else Inr [])"
  by pat_completeness auto

termination
  by (relation "measure (\<lambda>(u, r). dr_limit r - dr_pos r)") (auto dest!: readUtf8String_advances)

declare read_utf8_all.simps [simp del]

section \<open>GeneralizedTime\<close>

text \<open>\<open>Date.UTC\<close>: the day number of a year, of a month in it, and the milliseconds of a date; month numbers
  start at 0 and any excess carries over; the years 0 to 99 are those of the twentieth century.\<close>

definition day_from_year :: "int \<Rightarrow> int" where
  "day_from_year y = 365 * (y - 1970) + (y - 1969) div 4 - (y - 1901) div 100 + (y - 1601) div 400"

definition leap_year :: "int \<Rightarrow> bool" where
  "leap_year y \<longleftrightarrow> y mod 4 = 0 \<and> (y mod 100 \<noteq> 0 \<or> y mod 400 = 0)"

definition days_before_month :: "int \<Rightarrow> int \<Rightarrow> int" where
  "days_before_month y m = [0, 31, 59, 90, 120, 151, 181, 212, 243, 273, 304, 334] ! nat m + (if m > 1 \<and> leap_year y then 1 else 0)"

definition date_UTC :: "int \<Rightarrow> int \<Rightarrow> int \<Rightarrow> int \<Rightarrow> int \<Rightarrow> int \<Rightarrow> int \<Rightarrow> int" where
  "date_UTC y0 month d h mi sec ms =
     (let y1 = (if 0 \<le> y0 \<and> y0 \<le> 99 then 1900 + y0 else y0); y = y1 + month div 12; m = month mod 12;
          day = day_from_year y + days_before_month y m + d - 1 in
      day * 86400000 + h * 3600000 + mi * 60000 + sec * 1000 + ms)"

text \<open>The bytes as characters: a byte that is no digit, dot or \<open>Z\<close> fails the pattern whatever it
  decodes to. The fraction is a decimal, rounded to milliseconds.\<close>

definition fraction_ms :: "string \<Rightarrow> int" where
  "fraction_ms ds = (2000 * int (js_digits_value ds) + 10 ^ length ds) div (2 * 10 ^ length ds)"

definition parseGeneralizedTime :: "string \<Rightarrow> int der_result" where
  "parseGeneralizedTime v =
     (let ds = take 14 v; rest = drop 14 v; n = (\<lambda>a k. int (js_digits_value (take k (drop a v)))) in
      if length ds = 14 \<and> list_all js_is_digit ds \<and> rest \<noteq> [] \<and> last rest = CHR ''Z'' \<and>
         (butlast rest = [] \<or> hd rest = CHR ''.'' \<and> 2 \<le> length (butlast rest) \<and> list_all js_is_digit (tl (butlast rest)))
      then Inr (date_UTC (n 0 4) (n 4 2 - 1) (n 6 2) (n 8 2) (n 10 2) (n 12 2) (if butlast rest = [] then 0 else fraction_ms (tl (butlast rest))))
      else Inl DerError)"

definition readGeneralizedTime :: "DerReader \<Rightarrow> int der_result" where
  "readGeneralizedTime r = rbind (readContent TAG_GENERALIZED_TIME r) (\<lambda>(bs, r'). parseGeneralizedTime (map (\<lambda>b. char_of (unat b)) bs))"

section \<open>Encoding\<close>

text \<open>\<open>n & 0xff\<close> and \<open>n >>>= 8\<close> read \<open>n\<close> as an unsigned 32-bit integer.\<close>

function len_bytes :: "nat \<Rightarrow> bytes" where
  "len_bytes n = (if n > 0 then len_bytes (n mod 2 ^ 32 div 256) @ [of_nat (n mod 256)] else [])"
  by pat_completeness auto

termination
  by (relation "measure id") (auto intro: le_less_trans [OF div_le_mono [OF mod_less_eq_dividend]])

declare len_bytes.simps [simp del]

definition derEncode :: "8 word \<Rightarrow> bytes \<Rightarrow> bytes" where
  "derEncode tag content =
     (if length content < 0x80 then [tag, of_nat (length content)]
      else [tag, 0x80 OR of_nat (length (len_bytes (length content)))] @ len_bytes (length content)) @ content"

definition derEncodeUtf8Sequence :: "(string \<Rightarrow> bytes) \<Rightarrow> string list \<Rightarrow> bytes" where
  "derEncodeUtf8Sequence enc values = derEncode TAG_SEQUENCE (concat (map (\<lambda>v. derEncode TAG_UTF8_STRING (enc v)) values))"

section \<open>Round trip\<close>

lemma be_value_snoc [simp]: "be_value [] = 0" "be_value (bs @ [b]) = be_value bs * 256 + unat b"
  by (simp_all add: be_value_def)

lemma be_value_len_bytes: "n < 2 ^ 32 \<Longrightarrow> be_value (len_bytes n) = n"
proof (induction n rule: len_bytes.induct)
  case (1 n)
  have "n mod 2 ^ 32 = n" using "1.prems" by simp
  moreover have "be_value (len_bytes (n div 256)) = n div 256" if "0 < n"
    using "1.IH" [OF that] "1.prems" by (simp add: less_mult_imp_div_less)
  ultimately show ?case by (subst len_bytes.simps) (simp add: unat_of_nat)
qed

lemma length_len_bytes: "n < 256 ^ k \<Longrightarrow> k \<le> 4 \<Longrightarrow> length (len_bytes n) \<le> k"
proof (induction k arbitrary: n)
  case 0
  then show ?case by (simp add: len_bytes.simps)
next
  case (Suc k)
  have "n < 2 ^ 32" using Suc.prems power_increasing [of "Suc k" 4 "256 :: nat"] by simp
  moreover have "n div 256 < 256 ^ k" using Suc.prems(1) by (simp add: less_mult_imp_div_less mult.commute)
  ultimately show ?case using Suc.IH [of "n div 256"] Suc.prems(2) by (subst len_bytes.simps) simp
qed

lemma long_form: "k \<le> 4 \<Longrightarrow> \<not> (0x80 OR of_nat k :: 8 word) < 0x80 \<and> unat ((0x80 OR of_nat k :: 8 word) AND 0x7f) = k"
proof -
  assume "k \<le> 4"
  then have "k = 0 \<or> k = 1 \<or> k = 2 \<or> k = 3 \<or> k = 4" by linarith
  then show ?thesis by (elim disjE) simp_all
qed

text \<open>An encoded value, anywhere in a buffer, is read as its tag and the bounds of its content.\<close>

lemma parseTlv_derEncode:
  assumes tag: "tag AND 0x1f \<noteq> 0x1f" and c: "length c < 2 ^ 32"
    and lim: "length pre + length (derEncode tag c) \<le> limit"
  shows "parseTlv (pre @ derEncode tag c @ suf) (length pre) limit =
    Inr \<lparr>tlv_tag = tag, tlv_contentStart = length pre + (length (derEncode tag c) - length c), tlv_contentEnd = length pre + length (derEncode tag c)\<rparr>"
proof (cases "length c < 0x80")
  case True
  then have "unat (of_nat (length c) :: 8 word) = length c" by (simp add: unat_of_nat)
  moreover from this True have "(of_nat (length c) :: 8 word) < 0x80" by (simp add: word_less_nat_alt)
  ultimately show ?thesis using True tag lim by (simp add: parseTlv_def derEncode_def nth_append)
next
  case False
  let ?l = "len_bytes (length c)"
  have l: "length ?l \<le> 4" using length_len_bytes [of "length c" 4] c by simp
  have v: "be_value ?l = length c" by (rule be_value_len_bytes [OF c])
  have "?l \<noteq> []" using v False by (cases ?l) auto
  with False tag lim l long_form [OF l] v show ?thesis
    by (simp add: parseTlv_def derEncode_def nth_append Let_def)
qed

definition der_inside :: "DerReader \<Rightarrow> bytes \<Rightarrow> bytes \<Rightarrow> bytes \<Rightarrow> bool" where
  "der_inside r pre body suf \<longleftrightarrow> dr_buf r = pre @ body @ suf \<and> dr_pos r = length pre \<and> dr_limit r = length pre + length body"

lemma readUtf8String_encoded:
  assumes "der_inside r pre (derEncode TAG_UTF8_STRING (enc v) @ body) suf" "length (enc v) < 2 ^ 32" "utf8 (enc v) = Some v"
  shows "\<exists>r'. readUtf8String utf8 r = Inr (v, r') \<and> der_inside r' (pre @ derEncode TAG_UTF8_STRING (enc v)) body suf"
proof -
  let ?e = "derEncode TAG_UTF8_STRING (enc v)"
  have "TAG_UTF8_STRING AND 0x1f \<noteq> 0x1f" by (simp add: der_tags)
  from parseTlv_derEncode [OF this assms(2), of pre "dr_limit r" "body @ suf"] assms(1)
  have p: "parseTlv (dr_buf r) (dr_pos r) (dr_limit r) = Inr \<lparr>tlv_tag = TAG_UTF8_STRING,
      tlv_contentStart = length pre + (length ?e - length (enc v)), tlv_contentEnd = length pre + length ?e\<rparr>"
    by (simp add: der_inside_def)
  have e: "length (enc v) \<le> length ?e" "drop (length ?e - length (enc v)) ?e = enc v" by (simp_all add: derEncode_def)
  have "drop (length pre + (length ?e - length (enc v))) (dr_buf r) = enc v @ body @ suf"
    using assms(1) e by (simp add: der_inside_def)
  with p e(1) assms show ?thesis
    by (auto simp: readUtf8String_def readContent_def der_read_def der_inside_def)
qed

lemma read_utf8_all_encoded:
  assumes "der_inside r pre (concat (map (\<lambda>v. derEncode TAG_UTF8_STRING (enc v)) vs)) suf"
    "\<forall>v \<in> set vs. length (enc v) < 2 ^ 32 \<and> utf8 (enc v) = Some v"
  shows "read_utf8_all utf8 r = Inr vs"
  using assms
proof (induction vs arbitrary: r pre)
  case Nil
  then show ?case by (subst read_utf8_all.simps) (simp add: hasData_def der_inside_def)
next
  case (Cons v vs)
  from readUtf8String_encoded [of r pre enc v "concat (map (\<lambda>v. derEncode TAG_UTF8_STRING (enc v)) vs)" suf utf8] Cons.prems
  obtain r' where r': "readUtf8String utf8 r = Inr (v, r')"
    "der_inside r' (pre @ derEncode TAG_UTF8_STRING (enc v)) (concat (map (\<lambda>v. derEncode TAG_UTF8_STRING (enc v)) vs)) suf" by auto
  have "hasData r" using Cons.prems(1) by (simp add: hasData_def der_inside_def derEncode_def)
  with r'(1) Cons.IH [OF r'(2)] Cons.prems(2) show ?case by (subst read_utf8_all.simps) simp
qed

lemma readSequence_encoded:
  assumes "length c < 2 ^ 32" "tag AND 0x1f \<noteq> 0x1f"
  shows "\<exists>r r'. readSequence tag (der_reader (derEncode tag c)) = Inr (r, r') \<and> der_inside r (take (length (derEncode tag c) - length c) (derEncode tag c)) c []"
proof -
  let ?e = "derEncode tag c"
  have e: "length c \<le> length ?e" "take (length ?e - length c) ?e @ c = ?e" by (simp_all add: derEncode_def)
  from parseTlv_derEncode [OF assms(2,1), of "[]" "length ?e" "[]"] e show ?thesis
    by (auto simp: readSequence_def der_read_def der_reader_def der_inside_def)
qed

lemma generalized_time_epoch:
  "parseGeneralizedTime ''19700101000000Z'' = Inr 0" "parseGeneralizedTime ''20240229120000.5Z'' = Inr 1709208000500"
  by code_simp+

end
