(* ===== verification/NipVerify.thy ===== *)
theory NipVerify
  imports NipDer JsonText
begin

text \<open>
  Verification of identities: \<open>nip/assurance-level.ts\<close>, \<open>nip/revocation-policy.ts\<close>,
  \<open>nip/x509/verifier.ts\<close>, \<open>nip/phase3-enforcer.ts\<close>, \<open>nip/verifier.ts\<close>, \<open>nip/trust-frame-validator.ts\<close> and
  the frames of \<open>nip/frames.ts\<close> they read.

  \<open>nip_env\<close> holds what the platform and the packages provide: Ed25519 verification, Base64, \<open>Date.parse\<close>,
  UTF-8 decoding, certificate decoding and certificate signatures; \<open>None\<close> is a thrown error. The answers of
  the revocation sources are part of the options. Human-readable messages are dropped. Objects do not
  inherit members.
\<close>

section \<open>Frames, results, levels\<close>

datatype assurance_level = ANONYMOUS | ATTESTED | VERIFIED

definition level_rank :: "assurance_level \<Rightarrow> nat" where
  "level_rank l = (case l of ANONYMOUS \<Rightarrow> 0 | ATTESTED \<Rightarrow> 1 | VERIFIED \<Rightarrow> 2)"

definition level_wire :: "assurance_level \<Rightarrow> string" where
  "level_wire l = (case l of ANONYMOUS \<Rightarrow> ''anonymous'' | ATTESTED \<Rightarrow> ''attested'' | VERIFIED \<Rightarrow> ''verified'')"

definition meetsOrExceeds :: "assurance_level \<Rightarrow> assurance_level \<Rightarrow> bool" where
  "meetsOrExceeds l required \<longleftrightarrow> level_rank l \<ge> level_rank required"

definition fromRank :: "nat \<Rightarrow> assurance_level option" where
  "fromRank r = List.find (\<lambda>l. level_rank l = r) [ANONYMOUS, ATTESTED, VERIFIED]"

definition fromWire :: "string option \<Rightarrow> assurance_level option" where
  "fromWire w = (case w of None \<Rightarrow> Some ANONYMOUS | Some s \<Rightarrow> if s = [] then Some ANONYMOUS else List.find (\<lambda>l. level_wire l = s) [ANONYMOUS, ATTESTED, VERIFIED])"

record IdentFrame =
  if_nid :: string
  if_pubKey :: string
  if_metadata :: jsobj
  if_signature :: string
  if_assuranceLevel :: "assurance_level option"
  if_certFormat :: "string option"
  if_certChain :: "string list option"
  if_ocspStaple :: "string option"
  if_nodeRoles :: "string list option"

definition unsignedDict :: "IdentFrame \<Rightarrow> jsobj" where
  "unsignedDict f = [(''nid'', JStr (if_nid f)), (''pub_key'', JStr (if_pubKey f)), (''metadata'', JObj (if_metadata f))]
     @ (case if_assuranceLevel f of None \<Rightarrow> [] | Some l \<Rightarrow> [(''assurance_level'', JStr (level_wire l))])"

record ident_result =
  vr_valid :: bool
  vr_stepFailed :: nat
  vr_errorCode :: "string option"

definition vr_ok :: ident_result where
  "vr_ok = \<lparr>vr_valid = True, vr_stepFailed = 0, vr_errorCode = None\<rparr>"

definition vr_fail :: "nat \<Rightarrow> string \<Rightarrow> ident_result" where
  "vr_fail step code = \<lparr>vr_valid = False, vr_stepFailed = step, vr_errorCode = Some code\<rparr>"

text \<open>A certificate as the X.509 package exposes it.\<close>

record certificate =
  ce_raw :: bytes
  ce_subject :: string
  ce_eku :: "(bool \<times> string list) option"
  ce_san_uris :: "string list option"
  ce_extensions :: "(string \<times> bytes) list"

record nip_env =
  ne_ed25519 :: "bytes \<Rightarrow> string \<Rightarrow> bytes \<Rightarrow> bool option"
  ne_base64 :: "string \<Rightarrow> bytes"
  ne_parseDate :: "string \<Rightarrow> int option"
  ne_numStr :: "rat \<Rightarrow> string"
  ne_utf8 :: "bytes \<Rightarrow> string option"
  ne_certificate :: "string \<Rightarrow> certificate option"
  ne_signedBy :: "certificate \<Rightarrow> certificate \<Rightarrow> bool option"

section \<open>nip/revocation-policy.ts\<close>

datatype revocation_source = LocalCrl | Callback | CaStore | Ocsp
datatype revocation_outcome = RevGood | RevRevoked | RevUnavailable

record revocation_evaluation =
  rv_required :: bool
  rv_ocspFailOpen :: bool
  rv_consulted :: "revocation_source list"

definition rev_observe :: "revocation_source \<Rightarrow> revocation_outcome \<Rightarrow> revocation_evaluation \<Rightarrow> ident_result option \<times> revocation_evaluation" where
  "rev_observe source outcome ev =
     (if outcome = RevGood then None
      else if outcome = RevRevoked then Some (vr_fail 4 ''NIP-CERT-REVOKED'')
      else if source = Ocsp \<and> rv_ocspFailOpen ev then None
      else Some (vr_fail 4 ''NIP-OCSP-UNAVAILABLE''),
      ev\<lparr>rv_consulted := rv_consulted ev @ [source]\<rparr>)"

definition rev_complete :: "revocation_evaluation \<Rightarrow> ident_result" where
  "rev_complete ev = (if rv_required ev \<and> rv_consulted ev = [] then vr_fail 4 ''NIP-OCSP-UNAVAILABLE'' else vr_ok)"

section \<open>nip/x509/verifier.ts\<close>

record x509_result =
  xr_valid :: bool
  xr_errorCode :: "string option"
  xr_leaf :: "certificate option"

definition x_ok :: "certificate \<Rightarrow> x509_result" where
  "x_ok leaf = \<lparr>xr_valid = True, xr_errorCode = None, xr_leaf = Some leaf\<rparr>"

definition x_fail :: "string \<Rightarrow> x509_result" where
  "x_fail code = \<lparr>xr_valid = False, xr_errorCode = Some code, xr_leaf = None\<rparr>"

definition EKU_AGENT_IDENTITY :: string where "EKU_AGENT_IDENTITY = ''1.3.6.1.4.1.65715.1.1''"
definition EKU_NODE_IDENTITY :: string where "EKU_NODE_IDENTITY = ''1.3.6.1.4.1.65715.1.2''"
definition NID_ASSURANCE_LEVEL :: string where "NID_ASSURANCE_LEVEL = ''1.3.6.1.4.1.65715.2.1''"
definition ID_NPS_NODE_ROLES :: string where "ID_NPS_NODE_ROLES = ''1.3.6.1.4.1.65715.2.2''"
definition ID_NPS_CAPABILITIES :: string where "ID_NPS_CAPABILITIES = ''1.3.6.1.4.1.65715.2.3''"

text \<open>Each check is the error code it fails with, or \<open>None\<close>.\<close>

definition checkLeafEku :: "certificate \<Rightarrow> string option" where
  "checkLeafEku leaf = (case ce_eku leaf of
     None \<Rightarrow> Some ''NIP-CERT-EKU-MISSING''
   | Some (critical, usages) \<Rightarrow>
       if \<not> critical then Some ''NIP-CERT-EKU-MISSING''
       else if EKU_AGENT_IDENTITY \<notin> set usages \<and> EKU_NODE_IDENTITY \<notin> set usages then Some ''NIP-CERT-EKU-MISSING''
       else None)"

fun unescape_dn :: "string \<Rightarrow> string" where
  "unescape_dn [] = []"
| "unescape_dn [c] = [c]"
| "unescape_dn (c # d # s) =
     (if c = CHR 0x5C \<and> d \<in> set [dquote, CHR '','', CHR ''+'', CHR '';'', CHR ''<'', CHR ''>'', CHR 0x5C]
      then d # unescape_dn s else c # unescape_dn (d # s))"

definition cn_value :: "string \<Rightarrow> string" where
  "cn_value value =
     (unescape_dn (if value \<noteq> [] \<and> hd value = dquote \<and> last value = dquote then butlast (tl value) else value))"

definition extractCn :: "string \<Rightarrow> string option" where
  "extractCn dn = (case List.find (\<lambda>rdn. js_startsWith (js_trim rdn) ''CN='') (js_split CHR '','' dn) of
     None \<Rightarrow> None
   | Some rdn \<Rightarrow> Some (cn_value (drop 3 (js_trim rdn))))"

definition checkSubjectNid :: "certificate \<Rightarrow> string \<Rightarrow> string option" where
  "checkSubjectNid leaf nid =
     (if extractCn (ce_subject leaf) \<noteq> Some nid then Some ''NIP-CERT-SUBJECT-NID-MISMATCH''
      else case ce_san_uris leaf of
        None \<Rightarrow> Some ''NIP-CERT-SUBJECT-NID-MISMATCH''
      | Some uris \<Rightarrow> if nid \<notin> set uris then Some ''NIP-CERT-SUBJECT-NID-MISMATCH'' else None)"

definition extension_value :: "certificate \<Rightarrow> string \<Rightarrow> bytes option" where
  "extension_value cert oid = map_of (ce_extensions cert) oid"

definition checkAssuranceLevel :: "certificate \<Rightarrow> assurance_level option \<Rightarrow> string option" where
  "checkAssuranceLevel leaf asserted = (case asserted of
     None \<Rightarrow> None
   | Some a \<Rightarrow> (case extension_value leaf NID_ASSURANCE_LEVEL of
       None \<Rightarrow> None
     | Some der \<Rightarrow>
         if length der \<noteq> 3 \<or> der ! 0 \<noteq> 0x0A \<or> der ! 1 \<noteq> 0x01 then Some ''NIP-CERT-FORMAT-INVALID''
         else (case fromRank (unat (der ! 2)) of
             None \<Rightarrow> Some ''NIP-ASSURANCE-UNKNOWN''
           | Some l \<Rightarrow> if l \<noteq> a then Some ''NIP-ASSURANCE-MISMATCH'' else None)))"

text \<open>The walk from the leaf, each link signed by its successor; \<open>None\<close> is a thrown error.\<close>

fun links_ok :: "nip_env \<Rightarrow> certificate list \<Rightarrow> bool option" where
  "links_ok env (c # d # cs) = (case ne_signedBy env c d of
     None \<Rightarrow> None | Some False \<Rightarrow> Some False | Some True \<Rightarrow> links_ok env (d # cs))"
| "links_ok env _ = Some True"

definition checkChainSignature :: "nip_env \<Rightarrow> certificate list \<Rightarrow> certificate list \<Rightarrow> string option" where
  "checkChainSignature env chain roots =
     (if roots = [] then Some ''NIP-CERT-FORMAT-INVALID''
      else if links_ok env chain \<noteq> Some True then Some ''NIP-CERT-FORMAT-INVALID''
      else if list_ex (\<lambda>root. ce_raw (last chain) = ce_raw root \<or> ne_signedBy env (last chain) root = Some True) roots then None
      else Some ''NIP-CERT-FORMAT-INVALID'')"

definition x509_verify :: "nip_env \<Rightarrow> string list \<Rightarrow> string \<Rightarrow> assurance_level option \<Rightarrow> certificate list \<Rightarrow> x509_result" where
  "x509_verify env chainB64 nid asserted roots =
     (if chainB64 = [] then x_fail ''NIP-CERT-FORMAT-INVALID''
      else let decoded = map (ne_certificate env) chainB64 in
      if None \<in> set decoded then x_fail ''NIP-CERT-FORMAT-INVALID''
      else let chain = map the decoded; leaf = hd chain in
        case checkLeafEku leaf of Some e \<Rightarrow> x_fail e | None \<Rightarrow>
        case checkSubjectNid leaf nid of Some e \<Rightarrow> x_fail e | None \<Rightarrow>
        case checkAssuranceLevel leaf asserted of Some e \<Rightarrow> x_fail e | None \<Rightarrow>
        case checkChainSignature env chain roots of Some e \<Rightarrow> x_fail e | None \<Rightarrow> x_ok leaf)"

section \<open>nip/phase3-enforcer.ts\<close>

text \<open>\<open>None\<close>: the extension is absent; a malformed one reads as the empty list.\<close>

definition readUtf8SequenceExtension :: "nip_env \<Rightarrow> certificate \<Rightarrow> string \<Rightarrow> string list option" where
  "readUtf8SequenceExtension env cert oid = (case extension_value cert oid of
     None \<Rightarrow> None
   | Some der \<Rightarrow> (case rbind (readSequence TAG_SEQUENCE (der_reader der)) (\<lambda>(inner, r). read_utf8_all (ne_utf8 env) inner) of
       Inl e \<Rightarrow> Some [] | Inr values \<Rightarrow> Some values))"

text \<open>\<open>if (r.hasData && p(r.peekTag())) r.skip()\<close>\<close>

definition skip_if :: "(8 word \<Rightarrow> bool) \<Rightarrow> DerReader \<Rightarrow> DerReader der_result" where
  "skip_if p r = (if hasData r \<and> p (dr_buf r ! dr_pos r) then der_skip None r else Inr r)"

definition read_next_update :: "DerReader \<Rightarrow> int option der_result" where
  "read_next_update single =
     rbind (der_skip (Some TAG_SEQUENCE) single) (\<lambda>single.
     rbind (der_skip None single) (\<lambda>single.
     rbind (der_skip (Some TAG_GENERALIZED_TIME) single) (\<lambda>single.
       if \<not> hasData single \<or> dr_buf single ! dr_pos single \<noteq> TAG_CONTEXT_0 then Inr None
       else rbind (readSequence TAG_CONTEXT_0 single) (\<lambda>(wrap, _). map_sum id Some (readGeneralizedTime wrap)))))"

definition read_basic_response :: "bytes \<Rightarrow> int option der_result" where
  "read_basic_response basicDer =
     rbind (readSequence TAG_SEQUENCE (der_reader basicDer)) (\<lambda>(basic, _).
     rbind (readSequence TAG_SEQUENCE basic) (\<lambda>(tbs, _).
     rbind (skip_if (\<lambda>t. t = TAG_CONTEXT_0) tbs) (\<lambda>tbs.
     rbind (skip_if isContextSpecific tbs) (\<lambda>tbs.
     rbind (der_skip (Some TAG_GENERALIZED_TIME) tbs) (\<lambda>tbs.
     rbind (readSequence TAG_SEQUENCE tbs) (\<lambda>(responses, _).
       if \<not> hasData responses then Inr None
       else rbind (readSequence TAG_SEQUENCE responses) (\<lambda>(single, _). read_next_update single)))))))"

definition tryGetOcspNextUpdate :: "bytes \<Rightarrow> int option" where
  "tryGetOcspNextUpdate der = (case
     rbind (readSequence TAG_SEQUENCE (der_reader der)) (\<lambda>(root, _).
     rbind (der_skip (Some TAG_ENUMERATED) root) (\<lambda>root.
       if \<not> hasData root then Inr None
       else rbind (readSequence TAG_CONTEXT_0 root) (\<lambda>(wrap, _).
            rbind (readSequence TAG_SEQUENCE wrap) (\<lambda>(respBytes, _).
            rbind (der_skip (Some TAG_OBJECT_ID) respBytes) (\<lambda>respBytes.
            rbind (readContent TAG_OCTET_STRING respBytes) (\<lambda>(basicDer, _). read_basic_response basicDer)))))) of
     Inl e \<Rightarrow> None | Inr t \<Rightarrow> t)"

definition difference :: "string list \<Rightarrow> string list \<Rightarrow> string list" where
  "difference claimed attested = js_uniq (filter (\<lambda>c. c \<notin> set attested) claimed)"

definition b64url_char :: "char \<Rightarrow> bool" where
  "b64url_char c = (let n = (of_char c :: nat) in 65 \<le> n \<and> n \<le> 90 \<or> 97 \<le> n \<and> n \<le> 122 \<or> js_is_digit c \<or> c = CHR ''_'' \<or> c = CHR ''-'')"

definition fromBase64Url :: "nip_env \<Rightarrow> string \<Rightarrow> bytes option" where
  "fromBase64Url env s =
     (let pad = takeWhile (\<lambda>c. c = CHR ''='') (rev s) in
      if list_all b64url_char (take (length s - length pad) s) \<and> length pad \<le> 2
      then let std = map (\<lambda>c. if c = CHR ''-'' then CHR ''+'' else if c = CHR ''_'' then CHR ''/'' else c) s in
        Some (ne_base64 env (std @ replicate ((4 - length std mod 4) mod 4) (CHR ''='')))
      else None)"

definition excess_claims :: "nip_env \<Rightarrow> certificate \<Rightarrow> string \<Rightarrow> string list \<Rightarrow> bool" where
  "excess_claims env leaf oid claimed = (case readUtf8SequenceExtension env leaf oid of
     None \<Rightarrow> False | Some attested \<Rightarrow> difference claimed attested \<noteq> [])"

definition enforcePhase3 :: "nip_env \<Rightarrow> IdentFrame \<Rightarrow> certificate \<Rightarrow> int \<Rightarrow> ident_result" where
  "enforcePhase3 env frame leaf now =
     (if excess_claims env leaf ID_NPS_NODE_ROLES (case if_nodeRoles frame of None \<Rightarrow> [] | Some rs \<Rightarrow> rs)
      then vr_fail 3 ''NIP-CERT-NODE-ROLES-MISMATCH''
      else if excess_claims env leaf ID_NPS_CAPABILITIES (strings (if_metadata frame) ''capabilities'')
      then vr_fail 3 ''NIP-CERT-CAPABILITIES-EXCEEDED''
      else case if_ocspStaple frame of
        None \<Rightarrow> vr_fail 3 ''NIP-OCSP-STAPLE-EXPIRED''
      | Some staple \<Rightarrow>
          if staple = [] then vr_fail 3 ''NIP-OCSP-STAPLE-EXPIRED''
          else (case fromBase64Url env staple of
              None \<Rightarrow> vr_fail 3 ''NIP-OCSP-STAPLE-EXPIRED''
            | Some der \<Rightarrow> (case tryGetOcspNextUpdate der of
                None \<Rightarrow> vr_fail 3 ''NIP-OCSP-STAPLE-EXPIRED''
              | Some nextUpdate \<Rightarrow> if nextUpdate \<le> now then vr_fail 3 ''NIP-OCSP-STAPLE-EXPIRED'' else vr_ok)))"

section \<open>nip/verifier.ts\<close>

datatype callback_answer = CbThrows | CbNull | CbResult ident_result

text \<open>The revocation store's answer: the record's \<open>revokedAt\<close>, absent also when there is no record.\<close>

datatype store_answer = StoreThrows | StoreRevokedAt "string option"

datatype ocsp_answer = OcspThrows | OcspHttpError | OcspBody jsval

record verifier_options =
  vo_trustedCaPublicKeys :: "(string, string) jsmap option"
  vo_trustedIssuers :: "(string, string) jsmap option"
  vo_trustedX509Roots :: "certificate list option"
  vo_minAssuranceLevel :: "assurance_level option"
  vo_localRevokedSerials :: "string list option"
  vo_revocationCheck :: "(IdentFrame \<Rightarrow> callback_answer) option"
  vo_revocationStore :: "(string \<Rightarrow> store_answer) option"
  vo_ocsp :: "(string \<Rightarrow> ocsp_answer) option"
  vo_ocspFailOpen :: bool
  vo_revocationRequired :: bool
  vo_phase3Enforcement :: bool

record verify_context =
  vc_requiredCapabilities :: "string list option"
  vc_targetNodePath :: "string option"
  vc_asOf :: "int option"

definition issuerKeys :: "verifier_options \<Rightarrow> (string, string) jsmap" where
  "issuerKeys opts = (case vo_trustedCaPublicKeys opts of Some m \<Rightarrow> m
     | None \<Rightarrow> (case vo_trustedIssuers opts of Some m \<Rightarrow> m | None \<Rightarrow> []))"

text \<open>\<open>parsePubKeyString\<close> and \<open>decodeSignature\<close>: hexadecimal or Base64.\<close>

definition hex_value :: "char \<Rightarrow> nat option" where
  "hex_value c = (let n = (of_char c :: nat) in
     if js_is_digit c then Some (n - 48) else if 97 \<le> n \<and> n \<le> 102 then Some (n - 87) else if 65 \<le> n \<and> n \<le> 70 then Some (n - 55) else None)"

fun hex_bytes :: "string \<Rightarrow> bytes" where
  "hex_bytes (a # b # s) = (case (hex_value a, hex_value b) of
     (Some x, Some y) \<Rightarrow> of_nat (16 * x + y) # hex_bytes s | _ \<Rightarrow> [])"
| "hex_bytes _ = []"

definition is_hex :: "string \<Rightarrow> bool" where
  "is_hex body \<longleftrightarrow> body \<noteq> [] \<and> list_all (\<lambda>c. hex_value c \<noteq> None) body \<and> length body mod 2 = 0"

definition parsePubKeyString :: "nip_env \<Rightarrow> string \<Rightarrow> bytes option" where
  "parsePubKeyString env s =
     (if \<not> js_startsWith s ''ed25519:'' then None
      else let body = drop 8 s; bs = (if is_hex body then hex_bytes body else ne_base64 env body) in
        if length bs \<noteq> 32 then None else Some bs)"

definition decodeSignature :: "nip_env \<Rightarrow> string \<Rightarrow> bytes" where
  "decodeSignature env body =
     (let bs = ne_base64 env body in
      if length bs = 64 then bs
      else if is_hex body \<and> length (hex_bytes body) = 64 then hex_bytes body
      else bs)"

definition canonicalJson :: "nip_env \<Rightarrow> jsobj \<Rightarrow> string" where
  "canonicalJson env payload = json_stringify_named (ne_numStr env) (js_sort (map fst payload)) (JObj payload)"

definition checkSignature :: "nip_env \<Rightarrow> IdentFrame \<Rightarrow> string \<Rightarrow> nat \<Rightarrow> ident_result" where
  "checkSignature env frame caPubKeyStr step =
     (if \<not> js_startsWith (if_signature frame) ''ed25519:'' then vr_fail step ''NIP-CERT-SIGNATURE-INVALID''
      else case parsePubKeyString env caPubKeyStr of
        None \<Rightarrow> vr_fail step ''NIP-CERT-SIGNATURE-INVALID''
      | Some key \<Rightarrow>
          if ne_ed25519 env (decodeSignature env (drop 8 (if_signature frame))) (canonicalJson env (unsignedDict frame)) key = Some True
          then vr_ok else vr_fail step ''NIP-CERT-SIGNATURE-INVALID'')"

definition checkX509 :: "nip_env \<Rightarrow> verifier_options \<Rightarrow> int \<Rightarrow> IdentFrame \<Rightarrow> nat \<Rightarrow> ident_result" where
  "checkX509 env opts now frame step =
     (let roots = (case vo_trustedX509Roots opts of None \<Rightarrow> [] | Some rs \<Rightarrow> rs) in
      if roots \<noteq> [] \<and> if_certFormat frame = Some ''v2-x509''
      then let x = x509_verify env (case if_certChain frame of None \<Rightarrow> [] | Some c \<Rightarrow> c) (if_nid frame) (if_assuranceLevel frame) roots in
        if \<not> xr_valid x then vr_fail step (case xr_errorCode x of None \<Rightarrow> ''NIP-CERT-FORMAT-INVALID'' | Some e \<Rightarrow> e)
        else if vo_phase3Enforcement opts then enforcePhase3 env frame (the (xr_leaf x)) now
        else vr_ok
      else vr_ok)"

definition nip_verify :: "nip_env \<Rightarrow> verifier_options \<Rightarrow> int \<Rightarrow> IdentFrame \<Rightarrow> string \<Rightarrow> ident_result" where
  "nip_verify env opts now frame issuerNid = (case js_get (issuerKeys opts) issuerNid of
     None \<Rightarrow> vr_fail 1 ''NIP-CERT-UNTRUSTED-ISSUER''
   | Some key \<Rightarrow>
       let sig = checkSignature env frame key 1 in
       if \<not> vr_valid sig then sig
       else if (case vo_minAssuranceLevel opts of None \<Rightarrow> False
                | Some m \<Rightarrow> \<not> meetsOrExceeds (case if_assuranceLevel frame of None \<Rightarrow> ANONYMOUS | Some l \<Rightarrow> l) m)
       then vr_fail 2 ''NIP-ASSURANCE-MISMATCH''
       else checkX509 env opts now frame 3)"

text \<open>The adapters to the members of the metadata.\<close>

definition identSerial :: "IdentFrame \<Rightarrow> string option" where
  "identSerial frame = stringValue (if_metadata frame) ''serial''"

definition array_member :: "jsobj \<Rightarrow> string \<Rightarrow> jsval list option" where
  "array_member o' k = (case jo_get o' k of Some (JArr vs) \<Rightarrow> Some vs | _ \<Rightarrow> None)"

definition identScopeNodes :: "IdentFrame \<Rightarrow> jsval list option" where
  "identScopeNodes frame = (case jo_get (if_metadata frame) ''scope'' of
     Some (JObj scope) \<Rightarrow> array_member scope ''nodes''
   | _ \<Rightarrow> array_member (if_metadata frame) ''scopes'')"

definition nwpPathMatches :: "string \<Rightarrow> string \<Rightarrow> bool" where
  "nwpPathMatches pattern path =
     (if pattern = ''*'' then True
      else if 2 \<le> length pattern \<and> drop (length pattern - 2) pattern = ''/*''
      then let prefix = take (length pattern - 2) pattern in
        js_startsWith (js_toLowerCase path) (js_toLowerCase prefix) \<and>
        (length path = length prefix \<or> length prefix < length path \<and> path ! length prefix = CHR ''/'')
      else js_toLowerCase pattern = js_toLowerCase path)"

definition checkScope :: "IdentFrame \<Rightarrow> string \<Rightarrow> ident_result" where
  "checkScope frame targetPath = (case identScopeNodes frame of
     None \<Rightarrow> vr_fail 6 ''NIP-CERT-SCOPE-VIOLATION''
   | Some nodes \<Rightarrow>
       if list_ex (\<lambda>p. case p of JStr pattern \<Rightarrow> nwpPathMatches pattern targetPath | _ \<Rightarrow> False) nodes then vr_ok
       else vr_fail 6 ''NIP-CERT-SCOPE-VIOLATION'')"

definition ocspCheck :: "verifier_options \<Rightarrow> ocsp_answer \<Rightarrow> ident_result" where
  "ocspCheck opts ans = (case ans of
     OcspThrows \<Rightarrow> if vo_ocspFailOpen opts then vr_ok else vr_fail 4 ''NIP-OCSP-UNAVAILABLE''
   | OcspHttpError \<Rightarrow> if vo_ocspFailOpen opts then vr_ok else vr_fail 4 ''NIP-OCSP-UNAVAILABLE''
   | OcspBody body \<Rightarrow>
       let members = (case body of JObj kvs \<Rightarrow> kvs | _ \<Rightarrow> []) in
       if jo_get members ''valid'' = Some (JBool True) then vr_ok
       else vr_fail 4 (case stringValue members ''error_code'' of None \<Rightarrow> ''NIP-CERT-REVOKED'' | Some e \<Rightarrow> e))"

text \<open>The four revocation sources, each a step from the evaluation so far to a result or the evaluation
  to go on with.\<close>

definition observe_step :: "revocation_source \<Rightarrow> revocation_outcome \<Rightarrow> revocation_evaluation \<Rightarrow> ident_result + revocation_evaluation" where
  "observe_step source outcome ev = (case rev_observe source outcome ev of (Some r, _) \<Rightarrow> Inl r | (None, ev') \<Rightarrow> Inr ev')"

definition local_crl_step :: "verifier_options \<Rightarrow> IdentFrame \<Rightarrow> revocation_evaluation \<Rightarrow> ident_result + revocation_evaluation" where
  "local_crl_step opts frame ev = (case vo_localRevokedSerials opts of
     None \<Rightarrow> Inr ev
   | Some revoked \<Rightarrow> observe_step LocalCrl (case identSerial frame of Some s \<Rightarrow> if s \<in> set revoked then RevRevoked else RevGood | None \<Rightarrow> RevGood) ev)"

definition callback_step :: "verifier_options \<Rightarrow> IdentFrame \<Rightarrow> revocation_evaluation \<Rightarrow> ident_result + revocation_evaluation" where
  "callback_step opts frame ev = (case vo_revocationCheck opts of
     None \<Rightarrow> Inr ev
   | Some cb \<Rightarrow> (case cb frame of
       CbThrows \<Rightarrow> observe_step Callback RevUnavailable ev
     | CbNull \<Rightarrow> observe_step Callback RevGood ev
     | CbResult r \<Rightarrow> if \<not> vr_valid r then Inl r else observe_step Callback RevGood ev))"

definition store_step :: "verifier_options \<Rightarrow> IdentFrame \<Rightarrow> revocation_evaluation \<Rightarrow> ident_result + revocation_evaluation" where
  "store_step opts frame ev = (case vo_revocationStore opts of
     None \<Rightarrow> Inr ev
   | Some store \<Rightarrow> (case identSerial frame of
       None \<Rightarrow> observe_step CaStore RevUnavailable ev
     | Some serial \<Rightarrow> (case store serial of
         StoreThrows \<Rightarrow> observe_step CaStore RevUnavailable ev
       | StoreRevokedAt t \<Rightarrow> observe_step CaStore (if t \<noteq> None \<and> t \<noteq> Some [] then RevRevoked else RevGood) ev)))"

definition ocsp_step :: "verifier_options \<Rightarrow> IdentFrame \<Rightarrow> revocation_evaluation \<Rightarrow> ident_result + revocation_evaluation" where
  "ocsp_step opts frame ev = (case vo_ocsp opts of
     None \<Rightarrow> Inr ev
   | Some ask \<Rightarrow>
       let r = ocspCheck opts (ask (if_nid frame)) in if \<not> vr_valid r then Inl r else observe_step Ocsp RevGood ev)"

definition checkRevocation :: "verifier_options \<Rightarrow> IdentFrame \<Rightarrow> ident_result" where
  "checkRevocation opts frame =
     (let ev = \<lparr>rv_required = vo_revocationRequired opts, rv_ocspFailOpen = vo_ocspFailOpen opts, rv_consulted = []\<rparr> in
      case rbind (local_crl_step opts frame ev) (\<lambda>ev. rbind (callback_step opts frame ev) (\<lambda>ev.
             rbind (store_step opts frame ev) (ocsp_step opts frame))) of
        Inl r \<Rightarrow> r | Inr ev \<Rightarrow> rev_complete ev)"

definition expiry_time :: "nip_env \<Rightarrow> IdentFrame \<Rightarrow> int option" where
  "expiry_time env frame = (case stringValue (if_metadata frame) ''expiresAt'' of
     None \<Rightarrow> None | Some s \<Rightarrow> if s = [] then None else ne_parseDate env s)"

text \<open>The issuer has type string; a missing one is looked up under the key \<open>undefined\<close>.\<close>

definition issuer_of :: "IdentFrame \<Rightarrow> string" where
  "issuer_of frame = (case stringValue (if_metadata frame) ''issuer'' of None \<Rightarrow> ''undefined'' | Some s \<Rightarrow> s)"

definition as_of :: "int \<Rightarrow> verify_context \<Rightarrow> int" where
  "as_of clock ctx = (case vc_asOf ctx of None \<Rightarrow> clock | Some t \<Rightarrow> t)"

text \<open>Only the expiry check uses the context's time; the staple is checked against the clock.\<close>

definition verifyIdent :: "nip_env \<Rightarrow> verifier_options \<Rightarrow> int \<Rightarrow> IdentFrame \<Rightarrow> verify_context \<Rightarrow> ident_result" where
  "verifyIdent env opts clock frame ctx =
     (let now = as_of clock ctx in
      if (case expiry_time env frame of None \<Rightarrow> True | Some t \<Rightarrow> t \<le> now) then vr_fail 1 ''NIP-CERT-EXPIRED''
      else case js_get (issuerKeys opts) (issuer_of frame) of
        None \<Rightarrow> vr_fail 2 ''NIP-CERT-UNTRUSTED-ISSUER''
      | Some key \<Rightarrow>
          let sig = checkSignature env frame key 3; x = checkX509 env opts clock frame 3; rev = checkRevocation opts frame in
          if \<not> vr_valid sig then sig
          else if \<not> vr_valid x then x
          else if \<not> vr_valid rev then rev
          else if (case vc_requiredCapabilities ctx of None \<Rightarrow> False
                   | Some req \<Rightarrow> list_ex (\<lambda>c. c \<notin> set (strings (if_metadata frame) ''capabilities'')) req)
          then vr_fail 5 ''NIP-CERT-CAPABILITY-MISSING''
          else case vc_targetNodePath ctx of None \<Rightarrow> vr_ok | Some path \<Rightarrow> checkScope frame path)"

section \<open>nip/trust-frame-validator.ts\<close>

record TrustFrame =
  tf_grantorNid :: string
  tf_granteeCa :: string
  tf_trustScope :: "string list"
  tf_nodes :: "string list"
  tf_issuedAt :: string
  tf_expiresAt :: string
  tf_serial :: string
  tf_signerNid :: string
  tf_signature :: string

record trust_context =
  tc_trustedGrantors :: "string list"
  tc_expectedGranteeCa :: string
  tc_requiredCapabilities :: "string list option"
  tc_targetNodePath :: "string option"
  tc_asOf :: "int option"

definition isBlank :: "string \<Rightarrow> bool" where
  "isBlank s \<longleftrightarrow> js_trim s = []"

definition validateTrustFrame :: "nip_env \<Rightarrow> int \<Rightarrow> TrustFrame \<Rightarrow> trust_context \<Rightarrow> ident_result" where
  "validateTrustFrame env clock f ctx =
     (let now = (case tc_asOf ctx of None \<Rightarrow> clock | Some t \<Rightarrow> t) in
      if isBlank (tf_grantorNid f) \<or> isBlank (tf_granteeCa f) \<or> isBlank (tf_issuedAt f) \<or> isBlank (tf_expiresAt f) \<or> isBlank (tf_serial f)
         \<or> isBlank (tf_signerNid f) \<or> isBlank (tf_signature f) \<or> tf_trustScope f = [] \<or> tf_nodes f = []
      then vr_fail 3 ''NIP-TRUST-FRAME-INVALID''
      else if ne_parseDate env (tf_issuedAt f) = None then vr_fail 3 ''NIP-TRUST-FRAME-INVALID''
      else case ne_parseDate env (tf_expiresAt f) of
        None \<Rightarrow> vr_fail 3 ''NIP-TRUST-FRAME-INVALID''
      | Some expiresAt \<Rightarrow>
          if expiresAt \<le> now then vr_fail 3 ''NIP-TRUST-FRAME-EXPIRED''
          else if tf_grantorNid f \<notin> set (tc_trustedGrantors ctx) then vr_fail 3 ''NIP-CERT-UNTRUSTED-ISSUER''
          else if tf_granteeCa f \<noteq> tc_expectedGranteeCa ctx then vr_fail 3 ''NIP-TRUST-FRAME-INVALID''
          else if (case tc_requiredCapabilities ctx of None \<Rightarrow> False | Some req \<Rightarrow> list_ex (\<lambda>c. c \<notin> set (tf_trustScope f)) req)
          then vr_fail 5 ''NIP-TRUST-FRAME-SCOPE-EXCEEDS-GRANTOR''
          else if (case tc_targetNodePath ctx of None \<Rightarrow> False | Some path \<Rightarrow> \<not> list_ex (\<lambda>p. nwpPathMatches p path) (tf_nodes f))
          then vr_fail 6 ''NIP-CERT-SCOPE-VIOLATION''
          else vr_ok)"

section \<open>What an accepted identity satisfies\<close>

definition not_expired :: "nip_env \<Rightarrow> int \<Rightarrow> IdentFrame \<Rightarrow> bool" where
  "not_expired env now f \<longleftrightarrow> (\<exists>t. expiry_time env f = Some t \<and> now < t)"

definition signed_with :: "nip_env \<Rightarrow> string \<Rightarrow> IdentFrame \<Rightarrow> bool" where
  "signed_with env key f \<longleftrightarrow> js_startsWith (if_signature f) ''ed25519:'' \<and>
     (\<exists>k. parsePubKeyString env key = Some k \<and>
        ne_ed25519 env (decodeSignature env (drop 8 (if_signature f))) (canonicalJson env (unsignedDict f)) k = Some True)"

definition signed_by_issuer :: "nip_env \<Rightarrow> verifier_options \<Rightarrow> IdentFrame \<Rightarrow> bool" where
  "signed_by_issuer env opts f \<longleftrightarrow> (\<exists>key. js_get (issuerKeys opts) (issuer_of f) = Some key \<and> signed_with env key f)"

definition chain_accepted :: "nip_env \<Rightarrow> IdentFrame \<Rightarrow> certificate list \<Rightarrow> certificate list \<Rightarrow> bool" where
  "chain_accepted env f roots chain \<longleftrightarrow>
     chain \<noteq> [] \<and> map (ne_certificate env) (case if_certChain f of None \<Rightarrow> [] | Some c \<Rightarrow> c) = map Some chain \<and>
     (\<exists>usages. ce_eku (hd chain) = Some (True, usages) \<and> (EKU_AGENT_IDENTITY \<in> set usages \<or> EKU_NODE_IDENTITY \<in> set usages)) \<and>
     extractCn (ce_subject (hd chain)) = Some (if_nid f) \<and> (\<exists>uris. ce_san_uris (hd chain) = Some uris \<and> if_nid f \<in> set uris) \<and>
     checkAssuranceLevel (hd chain) (if_assuranceLevel f) = None \<and>
     (\<forall>i. Suc i < length chain \<longrightarrow> ne_signedBy env (chain ! i) (chain ! Suc i) = Some True) \<and>
     (\<exists>root \<in> set roots. ce_raw (last chain) = ce_raw root \<or> ne_signedBy env (last chain) root = Some True)"

definition attested_claims :: "nip_env \<Rightarrow> certificate \<Rightarrow> string \<Rightarrow> string list \<Rightarrow> bool" where
  "attested_claims env leaf oid claimed \<longleftrightarrow>
     (\<forall>attested. readUtf8SequenceExtension env leaf oid = Some attested \<longrightarrow> set claimed \<subseteq> set attested)"

definition phase3_accepted :: "nip_env \<Rightarrow> int \<Rightarrow> IdentFrame \<Rightarrow> certificate \<Rightarrow> bool" where
  "phase3_accepted env clock f leaf \<longleftrightarrow>
     attested_claims env leaf ID_NPS_NODE_ROLES (case if_nodeRoles f of None \<Rightarrow> [] | Some rs \<Rightarrow> rs) \<and>
     attested_claims env leaf ID_NPS_CAPABILITIES (strings (if_metadata f) ''capabilities'') \<and>
     (\<exists>staple der t. if_ocspStaple f = Some staple \<and> staple \<noteq> [] \<and> fromBase64Url env staple = Some der \<and>
        tryGetOcspNextUpdate der = Some t \<and> clock < t)"

definition x509_accepted :: "nip_env \<Rightarrow> verifier_options \<Rightarrow> int \<Rightarrow> IdentFrame \<Rightarrow> bool" where
  "x509_accepted env opts clock f \<longleftrightarrow>
     (\<forall>roots. vo_trustedX509Roots opts = Some roots \<and> roots \<noteq> [] \<and> if_certFormat f = Some ''v2-x509'' \<longrightarrow>
       (\<exists>chain. chain_accepted env f roots chain \<and> (vo_phase3Enforcement opts \<longrightarrow> phase3_accepted env clock f (hd chain))))"

definition crl_clear :: "verifier_options \<Rightarrow> IdentFrame \<Rightarrow> bool" where
  "crl_clear opts f \<longleftrightarrow> (\<forall>l s. vo_localRevokedSerials opts = Some l \<and> identSerial f = Some s \<longrightarrow> s \<notin> set l)"

definition callback_clear :: "verifier_options \<Rightarrow> IdentFrame \<Rightarrow> bool" where
  "callback_clear opts f \<longleftrightarrow> (\<forall>cb. vo_revocationCheck opts = Some cb \<longrightarrow> cb f = CbNull \<or> (\<exists>r. cb f = CbResult r \<and> vr_valid r))"

definition store_clear :: "verifier_options \<Rightarrow> IdentFrame \<Rightarrow> bool" where
  "store_clear opts f \<longleftrightarrow>
     (\<forall>st. vo_revocationStore opts = Some st \<longrightarrow> (\<exists>s t. identSerial f = Some s \<and> st s = StoreRevokedAt t \<and> t \<in> {None, Some []}))"

definition ocsp_clear :: "verifier_options \<Rightarrow> IdentFrame \<Rightarrow> bool" where
  "ocsp_clear opts f \<longleftrightarrow> (\<forall>ask. vo_ocsp opts = Some ask \<longrightarrow>
        (\<exists>kvs. ask (if_nid f) = OcspBody (JObj kvs) \<and> jo_get kvs ''valid'' = Some (JBool True)) \<or>
        vo_ocspFailOpen opts \<and> ask (if_nid f) \<in> {OcspThrows, OcspHttpError})"

definition not_revoked :: "verifier_options \<Rightarrow> IdentFrame \<Rightarrow> bool" where
  "not_revoked opts f \<longleftrightarrow> crl_clear opts f \<and> callback_clear opts f \<and> store_clear opts f \<and> ocsp_clear opts f \<and>
     (vo_revocationRequired opts \<longrightarrow>
        vo_localRevokedSerials opts \<noteq> None \<or> vo_revocationCheck opts \<noteq> None \<or> vo_revocationStore opts \<noteq> None \<or> vo_ocsp opts \<noteq> None)"

definition in_scope :: "IdentFrame \<Rightarrow> string \<Rightarrow> bool" where
  "in_scope f path \<longleftrightarrow> (\<exists>nodes p. identScopeNodes f = Some nodes \<and> JStr p \<in> set nodes \<and> nwpPathMatches p path)"

definition authorised :: "IdentFrame \<Rightarrow> verify_context \<Rightarrow> bool" where
  "authorised f ctx \<longleftrightarrow>
     (\<forall>req. vc_requiredCapabilities ctx = Some req \<longrightarrow> set req \<subseteq> set (strings (if_metadata f) ''capabilities'')) \<and>
     (\<forall>path. vc_targetNodePath ctx = Some path \<longrightarrow> in_scope f path)"

lemma vr_simps [simp]: "vr_valid vr_ok" "\<not> vr_valid (vr_fail n e)" "vr_stepFailed vr_ok = 0" "vr_stepFailed (vr_fail n e) = n"
  "vr_errorCode (vr_fail n e) = Some e"
  by (simp_all add: vr_ok_def vr_fail_def)

lemma checkSignature_valid: "vr_valid (checkSignature env f key n) \<longleftrightarrow> signed_with env key f"
  by (auto simp: checkSignature_def signed_with_def split: option.splits)

lemma links_ok_iff: "links_ok env cs = Some True \<longleftrightarrow> (\<forall>i. Suc i < length cs \<longrightarrow> ne_signedBy env (cs ! i) (cs ! Suc i) = Some True)"
proof (induction env cs rule: links_ok.induct)
  case (1 env c d cs)
  have "(\<forall>i. Suc i < length (c # d # cs) \<longrightarrow> ne_signedBy env ((c # d # cs) ! i) ((c # d # cs) ! Suc i) = Some True) \<longleftrightarrow>
     ne_signedBy env c d = Some True \<and> (\<forall>i. Suc i < length (d # cs) \<longrightarrow> ne_signedBy env ((d # cs) ! i) ((d # cs) ! Suc i) = Some True)"
    (is "(\<forall>i. ?P i) \<longleftrightarrow> ?R")
  proof
    assume p: "\<forall>i. ?P i"
    from p [rule_format, of 0] p [rule_format, of "Suc _"] show ?R by simp
  next
    assume ?R
    then show "\<forall>i. ?P i" by (auto simp: nth_Cons split: nat.split)
  qed
  with 1 show ?case by (auto split: option.splits bool.splits)
qed auto

lemma decoded_chain: "None \<notin> set (map g cs) \<Longrightarrow> map g cs = map Some (map (\<lambda>c. the (g c)) cs)"
  by (induction cs) auto

lemma map_Some_unique: "map g cs = map Some chain \<Longrightarrow> None \<notin> set (map g cs) \<and> map (the \<circ> g) cs = chain"
proof (induction cs arbitrary: chain)
  case (Cons c cs)
  then obtain x xs where "chain = x # xs" "g c = Some x" "map g cs = map Some xs" by (cases chain) auto
  with Cons.IH [of xs] show ?case by auto
qed simp

lemma leaf_checks:
  "checkLeafEku c = None \<longleftrightarrow> (\<exists>usages. ce_eku c = Some (True, usages) \<and> (EKU_AGENT_IDENTITY \<in> set usages \<or> EKU_NODE_IDENTITY \<in> set usages))"
  "checkSubjectNid c nid = None \<longleftrightarrow> extractCn (ce_subject c) = Some nid \<and> (\<exists>uris. ce_san_uris c = Some uris \<and> nid \<in> set uris)"
  "checkChainSignature env chain roots = None \<longleftrightarrow>
     (\<forall>i. Suc i < length chain \<longrightarrow> ne_signedBy env (chain ! i) (chain ! Suc i) = Some True) \<and>
     (\<exists>root \<in> set roots. ce_raw (last chain) = ce_raw root \<or> ne_signedBy env (last chain) root = Some True)"
  by (auto simp: checkLeafEku_def checkSubjectNid_def checkChainSignature_def list_ex_iff links_ok_iff [symmetric] split: option.splits if_splits)

lemma x509_verify_valid:
  "xr_valid (x509_verify env (case if_certChain f of None \<Rightarrow> [] | Some c \<Rightarrow> c) (if_nid f) (if_assuranceLevel f) roots) \<longleftrightarrow>
   (\<exists>chain. chain_accepted env f roots chain)" (is "xr_valid ?x \<longleftrightarrow> _")
  and x509_verify_leaf: "chain_accepted env f roots chain \<Longrightarrow>
     x509_verify env (case if_certChain f of None \<Rightarrow> [] | Some c \<Rightarrow> c) (if_nid f) (if_assuranceLevel f) roots = x_ok (hd chain)"
proof -
  let ?cs = "case if_certChain f of None \<Rightarrow> [] | Some c \<Rightarrow> c"
  show leaf: "?x = x_ok (hd chain)" if c: "chain_accepted env f roots chain" for chain
  proof -
    have m: "map (ne_certificate env) ?cs = map Some chain" "chain \<noteq> []" using c by (simp_all add: chain_accepted_def)
    from map_Some_unique [OF m(1)] have d: "None \<notin> set (map (ne_certificate env) ?cs)" "map the (map (ne_certificate env) ?cs) = chain" by simp_all
    have "?cs \<noteq> []" using m by auto
    moreover have "checkLeafEku (hd chain) = None" "checkSubjectNid (hd chain) (if_nid f) = None"
      "checkAssuranceLevel (hd chain) (if_assuranceLevel f) = None" "checkChainSignature env chain roots = None"
      using c by (auto simp: chain_accepted_def leaf_checks)
    ultimately show ?thesis using d by (simp only: x509_verify_def Let_def if_False option.case)
  qed
  show "xr_valid ?x \<longleftrightarrow> (\<exists>chain. chain_accepted env f roots chain)"
  proof
    assume v: "xr_valid ?x"
    let ?chain = "map the (map (ne_certificate env) ?cs)"
    have f: "\<not> xr_valid (x_fail e)" for e by (simp add: x_fail_def)
    have n: "?cs \<noteq> []" "None \<notin> set (map (ne_certificate env) ?cs)"
      using v f by (auto simp only: x509_verify_def Let_def if_True split: if_split_asm)
    then have "checkLeafEku (hd ?chain) = None" "checkSubjectNid (hd ?chain) (if_nid f) = None"
      "checkAssuranceLevel (hd ?chain) (if_assuranceLevel f) = None" "checkChainSignature env ?chain roots = None"
      using v f by (auto simp only: x509_verify_def Let_def if_False split: option.split_asm)
    with n decoded_chain [OF n(2)] have "chain_accepted env f roots ?chain"
      by (auto simp: chain_accepted_def leaf_checks comp_def)
    then show "\<exists>chain. chain_accepted env f roots chain" by blast
  next
    assume "\<exists>chain. chain_accepted env f roots chain"
    with leaf show "xr_valid ?x" by (auto simp: x_ok_def)
  qed
qed

lemma js_uniq_Nil_iff: "js_uniq xs = [] \<longleftrightarrow> xs = []"
  by (metis set_js_uniq set_empty)

lemma excess_claims_iff: "\<not> excess_claims env leaf oid claimed \<longleftrightarrow> attested_claims env leaf oid claimed"
  by (auto simp: excess_claims_def attested_claims_def difference_def js_uniq_Nil_iff filter_empty_conv split: option.splits)

lemma enforcePhase3_valid: "vr_valid (enforcePhase3 env f leaf clock) \<longleftrightarrow> phase3_accepted env clock f leaf"
  by (simp add: enforcePhase3_def phase3_accepted_def excess_claims_iff [symmetric] not_le split: option.split)

lemma checkX509_valid: "vr_valid (checkX509 env opts clock f 3) \<longleftrightarrow> x509_accepted env opts clock f"
proof (cases "\<exists>roots. vo_trustedX509Roots opts = Some roots \<and> roots \<noteq> [] \<and> if_certFormat f = Some ''v2-x509''")
  case True
  then obtain roots where r: "vo_trustedX509Roots opts = Some roots" "roots \<noteq> []" "if_certFormat f = Some ''v2-x509''" by blast
  let ?x = "x509_verify env (case if_certChain f of None \<Rightarrow> [] | Some c \<Rightarrow> c) (if_nid f) (if_assuranceLevel f) roots"
  have "vr_valid (checkX509 env opts clock f 3) \<longleftrightarrow> xr_valid ?x \<and> (vo_phase3Enforcement opts \<longrightarrow> phase3_accepted env clock f (the (xr_leaf ?x)))"
    using r by (simp add: checkX509_def Let_def enforcePhase3_valid)
  also have "\<dots> \<longleftrightarrow> (\<exists>chain. chain_accepted env f roots chain \<and> (vo_phase3Enforcement opts \<longrightarrow> phase3_accepted env clock f (hd chain)))"
  proof -
    have "the (xr_leaf ?x) = hd chain" if "chain_accepted env f roots chain" for chain
      using x509_verify_leaf [OF that] by (simp add: x_ok_def)
    then show ?thesis using x509_verify_valid [of env f roots] by metis
  qed
  also have "\<dots> \<longleftrightarrow> x509_accepted env opts clock f" using r by (simp add: x509_accepted_def)
  finally show ?thesis .
next
  case False
  then show ?thesis by (auto simp: checkX509_def x509_accepted_def Let_def split: option.splits)
qed

text \<open>Each revocation source either adds itself to the sources consulted or ends with an invalid result.\<close>

definition consult :: "bool \<Rightarrow> revocation_source \<Rightarrow> revocation_evaluation \<Rightarrow> revocation_evaluation" where
  "consult configured source ev = (if configured then ev\<lparr>rv_consulted := rv_consulted ev @ [source]\<rparr> else ev)"

definition passes :: "(ident_result + revocation_evaluation) \<Rightarrow> bool \<Rightarrow> revocation_evaluation \<Rightarrow> bool" where
  "passes r c ev \<longleftrightarrow> (c \<longrightarrow> r = Inr ev) \<and> (\<not> c \<longrightarrow> (\<exists>v. r = Inl v \<and> \<not> vr_valid v))"

lemma observe_step_simps [simp]:
  "observe_step src RevGood ev = Inr (ev\<lparr>rv_consulted := rv_consulted ev @ [src]\<rparr>)"
  "observe_step src RevRevoked ev = Inl (vr_fail 4 ''NIP-CERT-REVOKED'')"
  "src \<noteq> Ocsp \<Longrightarrow> observe_step src RevUnavailable ev = Inl (vr_fail 4 ''NIP-OCSP-UNAVAILABLE'')"
  by (simp_all add: observe_step_def rev_observe_def)

lemma ocspCheck_valid:
  "vr_valid (ocspCheck opts ans) \<longleftrightarrow> (\<exists>kvs. ans = OcspBody (JObj kvs) \<and> jo_get kvs ''valid'' = Some (JBool True)) \<or>
     vo_ocspFailOpen opts \<and> ans \<in> {OcspThrows, OcspHttpError}"
  by (auto simp: ocspCheck_def Let_def jo_get_def split: ocsp_answer.split jsval.split)

lemma local_crl_passes: "passes (local_crl_step opts f ev) (crl_clear opts f) (consult (vo_localRevokedSerials opts \<noteq> None) LocalCrl ev)"
  by (auto simp: passes_def local_crl_step_def consult_def crl_clear_def split: option.split)

lemma callback_passes: "passes (callback_step opts f ev) (callback_clear opts f) (consult (vo_revocationCheck opts \<noteq> None) Callback ev)"
  by (auto simp: passes_def callback_step_def consult_def callback_clear_def split: option.split callback_answer.split)

lemma store_passes: "passes (store_step opts f ev) (store_clear opts f) (consult (vo_revocationStore opts \<noteq> None) CaStore ev)"
  by (auto simp: passes_def store_step_def consult_def store_clear_def split: option.split store_answer.split)

lemma ocsp_passes: "passes (ocsp_step opts f ev) (ocsp_clear opts f) (consult (vo_ocsp opts \<noteq> None) Ocsp ev)"
  using ocspCheck_valid [of opts] by (auto simp: passes_def ocsp_step_def consult_def ocsp_clear_def Let_def split: option.split)

lemma passes_rbind:
  "passes r c ev \<Longrightarrow> passes (k ev) d ev' \<Longrightarrow> passes (rbind r k) (c \<and> d) ev'"
  by (auto simp: passes_def)

lemma checkRevocation_valid: "vr_valid (checkRevocation opts f) \<longleftrightarrow> not_revoked opts f"
proof -
  let ?ev = "\<lparr>rv_required = vo_revocationRequired opts, rv_ocspFailOpen = vo_ocspFailOpen opts, rv_consulted = []\<rparr>"
  let ?fin = "consult (vo_ocsp opts \<noteq> None) Ocsp (consult (vo_revocationStore opts \<noteq> None) CaStore (consult (vo_revocationCheck opts \<noteq> None) Callback
     (consult (vo_localRevokedSerials opts \<noteq> None) LocalCrl ?ev)))"
  have p: "passes (rbind (local_crl_step opts f ?ev) (\<lambda>ev. rbind (callback_step opts f ev) (\<lambda>ev. rbind (store_step opts f ev) (ocsp_step opts f))))
     (crl_clear opts f \<and> callback_clear opts f \<and> store_clear opts f \<and> ocsp_clear opts f) ?fin"
    by (rule passes_rbind [OF local_crl_passes], rule passes_rbind [OF callback_passes], rule passes_rbind [OF store_passes ocsp_passes])
  have "vr_valid (rev_complete ?fin) \<longleftrightarrow> (vo_revocationRequired opts \<longrightarrow>
        vo_localRevokedSerials opts \<noteq> None \<or> vo_revocationCheck opts \<noteq> None \<or> vo_revocationStore opts \<noteq> None \<or> vo_ocsp opts \<noteq> None)"
    by (simp add: rev_complete_def consult_def)
  with p show ?thesis unfolding checkRevocation_def not_revoked_def passes_def Let_def
    by (auto split: sum.split)
qed

end
