(* ===== verification/NipIdentity.thy ===== *)
theory NipIdentity
  imports NipVerify
begin

text \<open>
  The properties of identity verification over \<open>NipVerify\<close>: when \<open>verifyIdent\<close> accepts and with which step it
  refuses, what its signature covers, when a trust frame is valid, and the DER round trip of the attested
  roles and capabilities.
\<close>

section \<open>The properties\<close>

lemma checkScope_valid: "vr_valid (checkScope f path) \<longleftrightarrow> in_scope f path"
proof -
  have "list_ex (\<lambda>p. case p of JStr pattern \<Rightarrow> nwpPathMatches pattern path | _ \<Rightarrow> False) nodes \<longleftrightarrow> (\<exists>p. JStr p \<in> set nodes \<and> nwpPathMatches p path)" for nodes
    by (induction nodes) (auto split: jsval.splits)
  then show ?thesis by (simp add: checkScope_def in_scope_def split: option.splits)
qed

lemma verifyIdent_cases:
  assumes "js_get (issuerKeys opts) (issuer_of f) = Some key"
  shows "verifyIdent env opts clock f ctx =
    (if \<not> not_expired env (as_of clock ctx) f then vr_fail 1 ''NIP-CERT-EXPIRED''
     else if \<not> signed_with env key f then checkSignature env f key 3
     else if \<not> x509_accepted env opts clock f then checkX509 env opts clock f 3
     else if \<not> not_revoked opts f then checkRevocation opts f
     else if \<not> (\<forall>req. vc_requiredCapabilities ctx = Some req \<longrightarrow> set req \<subseteq> set (strings (if_metadata f) ''capabilities''))
     then vr_fail 5 ''NIP-CERT-CAPABILITY-MISSING''
     else case vc_targetNodePath ctx of None \<Rightarrow> vr_ok | Some path \<Rightarrow> checkScope f path)"
proof -
  have "(case vc_requiredCapabilities ctx of None \<Rightarrow> False | Some req \<Rightarrow> list_ex (\<lambda>c. c \<notin> set (strings (if_metadata f) ''capabilities'')) req) \<longleftrightarrow>
     \<not> (\<forall>req. vc_requiredCapabilities ctx = Some req \<longrightarrow> set req \<subseteq> set (strings (if_metadata f) ''capabilities''))"
    by (auto simp: list_ex_iff split: option.splits)
  moreover have "(case expiry_time env f of None \<Rightarrow> True | Some t \<Rightarrow> t \<le> as_of clock ctx) \<longleftrightarrow> \<not> not_expired env (as_of clock ctx) f"
    by (auto simp: not_expired_def split: option.splits)
  ultimately show ?thesis
    by (simp add: verifyIdent_def Let_def checkSignature_valid checkX509_valid checkRevocation_valid assms)
qed

lemma verifyIdent_untrusted:
  assumes "js_get (issuerKeys opts) (issuer_of f) = None"
  shows "verifyIdent env opts clock f ctx =
    (if \<not> not_expired env (as_of clock ctx) f then vr_fail 1 ''NIP-CERT-EXPIRED'' else vr_fail 2 ''NIP-CERT-UNTRUSTED-ISSUER'')"
  by (auto simp: verifyIdent_def Let_def assms not_expired_def split: option.splits)

lemma verifyIdent_valid:
  "vr_valid (verifyIdent env opts clock f ctx) \<longleftrightarrow> not_expired env (as_of clock ctx) f \<and> signed_by_issuer env opts f \<and> x509_accepted env opts clock f \<and>
     not_revoked opts f \<and> authorised f ctx"
proof (cases "js_get (issuerKeys opts) (issuer_of f)")
  case None
  then show ?thesis by (simp add: verifyIdent_untrusted signed_by_issuer_def)
next
  case (Some key)
  have "vr_valid (case vc_targetNodePath ctx of None \<Rightarrow> vr_ok | Some path \<Rightarrow> checkScope f path) \<longleftrightarrow>
     (\<forall>path. vc_targetNodePath ctx = Some path \<longrightarrow> in_scope f path)"
    by (simp add: checkScope_valid split: option.splits)
  with Some show ?thesis
    by (simp add: verifyIdent_cases [OF Some] signed_by_issuer_def authorised_def checkSignature_valid checkX509_valid checkRevocation_valid)
qed


section \<open>What the signature covers\<close>

text \<open>The canonical text names only the top-level members; \<open>JSON.stringify\<close> applies the list at every depth, so the
  members of the metadata are not part of it.\<close>

definition unlisted :: "jsobj \<Rightarrow> bool" where
  "unlisted m \<longleftrightarrow> (\<forall>k \<in> {''nid'', ''pub_key'', ''metadata'', ''assurance_level''}. jo_get m k = None)"

lemma js_insort_set [simp]: "set (js_insort x ys) = insert x (set ys)"
  by (induction ys) auto

lemma js_sort_set [simp]: "set (js_sort xs) = set xs"
  by (induction xs) (auto simp: js_sort_def)

lemma named_empty:
  assumes "\<forall>k \<in> set names. jo_get m k = None"
  shows "json_stringify_named numStr names (JObj m) = ''{}''"
proof -
  have "concat (map (\<lambda>k. case jo_get m k of None \<Rightarrow> [] | Some v \<Rightarrow> [g k v]) ks) = []" if "set ks \<subseteq> set names" for ks and g :: "string \<Rightarrow> jsval \<Rightarrow> string"
    using that assms by (induction ks) auto
  then show ?thesis by (simp only: json_stringify_named.simps order_refl) simp
qed

lemma canonical_ignores_metadata:
  assumes "unlisted m" "unlisted (if_metadata f)"
  shows "canonicalJson env (unsignedDict (f\<lparr>if_metadata := m\<rparr>)) = canonicalJson env (unsignedDict f)"
proof -
  let ?names = "js_sort (map fst (unsignedDict f))" and ?g = "f\<lparr>if_metadata := m\<rparr>"
  have names: "js_sort (map fst (unsignedDict ?g)) = ?names" by (simp add: unsignedDict_def)
  have sub: "set ?names \<subseteq> {''nid'', ''pub_key'', ''metadata'', ''assurance_level''}" by (auto simp: unsignedDict_def split: option.splits)
  then have e: "json_stringify_named (ne_numStr env) ?names (JObj m) = ''{}''"
    "json_stringify_named (ne_numStr env) ?names (JObj (if_metadata f)) = ''{}''"
    using assms by (blast intro!: named_empty dest: unlisted_def [THEN iffD1])+
  have "(case jo_get (unsignedDict ?g) k of None \<Rightarrow> [] | Some v \<Rightarrow> [json_string k @ '':'' @ json_stringify_named (ne_numStr env) ?names v]) =
        (case jo_get (unsignedDict f) k of None \<Rightarrow> [] | Some v \<Rightarrow> [json_string k @ '':'' @ json_stringify_named (ne_numStr env) ?names v])" for k
    using e by (simp add: unsignedDict_def jo_get_def del: json_stringify_named.simps)
  then show ?thesis unfolding canonicalJson_def names by simp
qed

text \<open>The Ed25519 signature of an identity protects neither its metadata nor its certificate format. Whoever holds a
  frame the verifier accepts can replace the expiry, the serial, the capabilities and the scope by any
  others and drop the certificate chain: the frame with another metadata object of the same issuer,
  a future expiry and whatever capabilities and scope the request asks for is accepted as well, unless
  a revocation source rejects the serial it chose.\<close>

theorem ident_metadata_unsigned:
  assumes "vr_valid (verifyIdent env opts clock f ctx)" "unlisted (if_metadata f)" "unlisted m"
    and "stringValue m ''issuer'' = stringValue (if_metadata f) ''issuer''"
  defines "g \<equiv> f\<lparr>if_metadata := m, if_certFormat := None\<rparr>"
  assumes "not_expired env (as_of clock ctx') g" "not_revoked opts g" "authorised g ctx'"
  shows "vr_valid (verifyIdent env opts clock g ctx')"
proof -
  have s: "signed_by_issuer env opts f" using assms(1) by (simp add: verifyIdent_valid)
  have "canonicalJson env (unsignedDict g) = canonicalJson env (unsignedDict f)"
    using canonical_ignores_metadata [OF assms(3,2), of env] by (simp add: g_def unsignedDict_def)
  with s assms(4) have "signed_by_issuer env opts g"
    by (simp add: signed_by_issuer_def signed_with_def issuer_of_def g_def)
  moreover have "x509_accepted env opts clock g" by (simp add: x509_accepted_def g_def)
  ultimately show ?thesis using assms(6-8) by (simp add: verifyIdent_valid)
qed

definition demo_nip_env :: nip_env where
  "demo_nip_env = \<lparr>ne_ed25519 = (\<lambda>sig msg key. Some (length sig = 64 \<and> length key = 32)), ne_base64 = (\<lambda>s. replicate 64 0),
     ne_parseDate = (\<lambda>s. Some (int (length s))), ne_numStr = (\<lambda>n. ''0''), ne_utf8 = (\<lambda>bs. Some (map (\<lambda>b. char_of (unat b)) bs)),
     ne_certificate = (\<lambda>s. None), ne_signedBy = (\<lambda>c d. None)\<rparr>"

definition demo_nip_options :: verifier_options where
  "demo_nip_options = \<lparr>vo_trustedCaPublicKeys = None, vo_trustedIssuers = Some [(''ca'', ''ed25519:'' @ replicate 64 (CHR ''0''))],
     vo_trustedX509Roots = None, vo_minAssuranceLevel = None, vo_localRevokedSerials = Some [''s1''], vo_revocationCheck = None,
     vo_revocationStore = None, vo_ocsp = None, vo_ocspFailOpen = False, vo_revocationRequired = True, vo_phase3Enforcement = True\<rparr>"

definition demo_ident :: IdentFrame where
  "demo_ident = \<lparr>if_nid = ''n'', if_pubKey = ''k'', if_metadata = [(''issuer'', JStr ''ca''), (''expiresAt'', JStr ''2026'')],
     if_signature = ''ed25519:x'', if_assuranceLevel = None, if_certFormat = None, if_certChain = None, if_ocspStaple = None, if_nodeRoles = None\<rparr>"

definition demo_nip_context :: "string list \<Rightarrow> verify_context" where
  "demo_nip_context caps = \<lparr>vc_requiredCapabilities = Some caps, vc_targetNodePath = None, vc_asOf = None\<rparr>"


theorem ident_metadata_unsigned_witness:
  "vr_valid (verifyIdent demo_nip_env demo_nip_options 3
     (demo_ident\<lparr>if_metadata := [(''issuer'', JStr ''ca''), (''expiresAt'', JStr ''9999-12-31''), (''capabilities'', JArr [JStr ''admin''])], if_certFormat := None\<rparr>)
     (demo_nip_context [''admin'']))"
proof (rule ident_metadata_unsigned)
  show "vr_valid (verifyIdent demo_nip_env demo_nip_options 3 demo_ident (demo_nip_context []))" by code_simp
qed (simp_all add: unlisted_def jo_get_def demo_ident_def stringValue_def not_expired_def expiry_time_def demo_nip_env_def as_of_def demo_nip_context_def
    not_revoked_def crl_clear_def callback_clear_def store_clear_def ocsp_clear_def identSerial_def demo_nip_options_def authorised_def strings_def)

section \<open>Attested roles and capabilities\<close>

text \<open>C31: What the CA attests in a certificate extension is what the verifier checks against. The list encoded by
  \<open>derEncodeUtf8Sequence\<close>, of any length below 4 GiB, is read back whole and in order, so a frame passes the
  attestation check exactly when it claims nothing outside that list.\<close>

theorem attested_extension_roundtrip:
  assumes ext: "extension_value cert oid = Some (derEncodeUtf8Sequence enc vs)"
    and utf8: "\<forall>v \<in> set vs. ne_utf8 env (enc v) = Some v"
    and len: "length (concat (map (\<lambda>v. derEncode TAG_UTF8_STRING (enc v)) vs)) < 2 ^ 32"
  shows "readUtf8SequenceExtension env cert oid = Some vs \<and> (\<not> excess_claims env cert oid claimed \<longleftrightarrow> set claimed \<subseteq> set vs)"
proof -
  let ?c = "concat (map (\<lambda>v. derEncode TAG_UTF8_STRING (enc v)) vs)"
  have e: "length (enc v) < 2 ^ 32 \<and> ne_utf8 env (enc v) = Some v" if "v \<in> set vs" for v
  proof -
    have "length (derEncode TAG_UTF8_STRING (enc v)) \<le> length ?c" using that by (induction vs) auto
    with len utf8 that show ?thesis by (simp add: derEncode_def)
  qed
  have "TAG_SEQUENCE AND 0x1f \<noteq> 0x1f" by (simp add: der_tags)
  from readSequence_encoded [OF len this] obtain r r' pre where
    r: "readSequence TAG_SEQUENCE (der_reader (derEncode TAG_SEQUENCE ?c)) = Inr (r, r')" "der_inside r pre ?c []" by blast
  from read_utf8_all_encoded [OF r(2)] e have "read_utf8_all (ne_utf8 env) r = Inr vs" by blast
  with r(1) ext have "readUtf8SequenceExtension env cert oid = Some vs"
    by (simp add: readUtf8SequenceExtension_def derEncodeUtf8Sequence_def)
  then show ?thesis by (simp add: excess_claims_iff attested_claims_def)
qed

theorem attested_extension_roundtrip_witness:
  "readUtf8SequenceExtension demo_nip_env
     \<lparr>ce_raw = [], ce_subject = [], ce_eku = None, ce_san_uris = None,
      ce_extensions = [(ID_NPS_NODE_ROLES, derEncodeUtf8Sequence (map (\<lambda>c. of_nat (of_char c))) [''node'', ''cache''])]\<rparr> ID_NPS_NODE_ROLES = Some [''node'', ''cache'']"
proof -
  let ?cert = "\<lparr>ce_raw = [], ce_subject = [], ce_eku = None, ce_san_uris = None,
      ce_extensions = [(ID_NPS_NODE_ROLES, derEncodeUtf8Sequence (map (\<lambda>c. of_nat (of_char c))) [''node'', ''cache''])]\<rparr>"
  have "readUtf8SequenceExtension demo_nip_env ?cert ID_NPS_NODE_ROLES = Some [''node'', ''cache''] \<and>
    (\<not> excess_claims demo_nip_env ?cert ID_NPS_NODE_ROLES [] \<longleftrightarrow> set [] \<subseteq> set [''node'', ''cache''])"
  proof (rule attested_extension_roundtrip)
    show "extension_value ?cert ID_NPS_NODE_ROLES = Some (derEncodeUtf8Sequence (map (\<lambda>c. of_nat (of_char c))) [''node'', ''cache''])"
      by (simp add: extension_value_def)
    show "\<forall>v \<in> set [''node'', ''cache'']. ne_utf8 demo_nip_env (map (\<lambda>c. of_nat (of_char c)) v) = Some v" by code_simp
  qed (simp add: derEncode_def)
  then show ?thesis ..
qed

section \<open>Scope patterns and trust frames\<close>

lemma js_toLowerCase_length [simp]: "length (js_toLowerCase s) = length s"
  by (simp add: js_toLowerCase_def)

text \<open>A pattern \<open>p/*\<close> covers exactly \<open>p\<close> and what lies under it at a \<open>/\<close> boundary, without regard to case.\<close>

lemma nwpPathMatches_prefix:
  "nwpPathMatches (p @ ''/*'') path \<longleftrightarrow> (\<exists>q r. path = q @ r \<and> js_toLowerCase q = js_toLowerCase p \<and> (r = [] \<or> hd r = CHR ''/''))"
proof -
  have s: "js_startsWith (js_toLowerCase path) (js_toLowerCase p) \<longleftrightarrow> js_toLowerCase (take (length p) path) = js_toLowerCase p"
    by (simp add: js_startsWith_def js_toLowerCase_def take_map)
  have m: "nwpPathMatches (p @ ''/*'') path \<longleftrightarrow> js_toLowerCase (take (length p) path) = js_toLowerCase p \<and>
     (length path = length p \<or> length p < length path \<and> path ! length p = CHR ''/'')"
    by (auto simp: nwpPathMatches_def Let_def s)
  show ?thesis
  proof
    assume "nwpPathMatches (p @ ''/*'') path"
    with m show "\<exists>q r. path = q @ r \<and> js_toLowerCase q = js_toLowerCase p \<and> (r = [] \<or> hd r = CHR ''/'')"
      by (intro exI [of _ "take (length p) path"] exI [of _ "drop (length p) path"]) (auto simp: hd_drop_conv_nth)
  next
    assume "\<exists>q r. path = q @ r \<and> js_toLowerCase q = js_toLowerCase p \<and> (r = [] \<or> hd r = CHR ''/'')"
    then obtain q r where q: "path = q @ r" "js_toLowerCase q = js_toLowerCase p" "r = [] \<or> hd r = CHR ''/''" by blast
    from q(2) have "length q = length p" by (metis js_toLowerCase_length)
    with q m show "nwpPathMatches (p @ ''/*'') path" by (cases r) (auto simp: nth_append)
  qed
qed

theorem validateTrustFrame_valid:
  "vr_valid (validateTrustFrame env clock f ctx) \<longleftrightarrow>
     \<not> (\<exists>s \<in> {tf_grantorNid f, tf_granteeCa f, tf_issuedAt f, tf_expiresAt f, tf_serial f, tf_signerNid f, tf_signature f}. isBlank s) \<and>
     tf_trustScope f \<noteq> [] \<and> tf_nodes f \<noteq> [] \<and> ne_parseDate env (tf_issuedAt f) \<noteq> None \<and>
     (\<exists>t. ne_parseDate env (tf_expiresAt f) = Some t \<and> (case tc_asOf ctx of None \<Rightarrow> clock | Some t \<Rightarrow> t) < t) \<and>
     tf_grantorNid f \<in> set (tc_trustedGrantors ctx) \<and> tf_granteeCa f = tc_expectedGranteeCa ctx \<and>
     (\<forall>req. tc_requiredCapabilities ctx = Some req \<longrightarrow> set req \<subseteq> set (tf_trustScope f)) \<and>
     (\<forall>path. tc_targetNodePath ctx = Some path \<longrightarrow> (\<exists>p \<in> set (tf_nodes f). nwpPathMatches p path))"
  by (auto simp: validateTrustFrame_def Let_def list_ex_iff split: option.splits)

end
