(* ===== verification/NopWorker.thy ===== *)
theory NopWorker
  imports NopRuntime NopCondition ClusterOwnership "HOL-Library.Sublist"
begin

text \<open>
  One node of a task graph: \<open>nop/orchestrator.ts\<close> (\<open>_executeNodeOnce\<close>, \<open>_executeNodeWithRetry\<close>,
  \<open>_resolveTarget\<close>, \<open>_runSagaCompensation\<close> and their helpers), \<open>buildParams\<close> of
  \<open>nop/input-mapper.ts\<close> and the data of \<open>nop/models.ts\<close>, \<open>nop/frames.ts\<close> and
  \<open>nop/worker-client.ts\<close> they use.

  The worker agent is not part of the SDK: what it streams back for a \<open>DelegateFrame\<close> is a
  parameter. The state threaded through the functions is the shared cluster resolver and the list of
  the frames handed to the worker, which is what the outside world sees of an execution.
  Human-readable error messages are left out; error codes are kept. A final frame without data
  carries \<open>JNull\<close>.

  Proved: a node completes exactly when an unbroken prefix of its stream, from the right
  sender, ends in a final frame without error; a node is attempted at most \<open>maxRetries + 1\<close> times,
  under one idempotency key, with a fresh resolution after \<open>NWP-ANCHOR-NOT-LEADER\<close>;
  compensation visits exactly the completed nodes that can be compensated, in reverse topological order.
\<close>

section \<open>nop/models.ts\<close>

datatype TaskState =
    PENDING | PREFLIGHT | RUNNING | WAITING_SYNC | COMPLETED | FAILED | CANCELLED | SKIPPED
  | COMPENSATING | COMPENSATED

record RetryPolicy =
  rp_maxRetries :: "int option"
  rp_backoff :: "string option"
  rp_baseDelayMs :: "int option"
  rp_maxDelayMs :: "int option"
  rp_retryOn :: "string list option"

record work_node =
  wn_id :: string
  wn_action :: string
  wn_agent :: string
  wn_inputFrom :: "string list option"
  wn_inputMapping :: "jsobj option"
  wn_timeoutMs :: "int option"
  wn_retryPolicy :: "RetryPolicy option"
  wn_condition :: "string option"
  wn_minRequired :: "int option"
  wn_compensate_action :: "string option"
  wn_compensate_params_mapping :: "jsobj option"
  wn_targetClusterAnchor :: "string option"

record TaskFrame =
  tf_taskId :: string
  tf_nodes :: "work_node list"
  tf_edges :: "(string \<times> string) list"
  tf_timeoutMs :: "int option"
  tf_callbackUrl :: "string option"
  tf_context :: "jsobj option"
  tf_priority :: "string option"
  tf_depth :: "int option"
  tf_compensationPolicy :: "string option"
  tf_maxRetries :: int
  tf_callbackSecret :: "string option"
  tf_preflight :: bool

definition delegateDepth :: "TaskFrame \<Rightarrow> int" where
  "delegateDepth task = (case tf_depth task of None \<Rightarrow> 0 | Some d \<Rightarrow> d)"

definition runsOnFailure :: "string option \<Rightarrow> bool" where
  "runsOnFailure policy = (policy \<in> {Some ''best_effort'', Some ''strict'', Some ''on_failure'', Some ''always''})"

definition runsOnSuccess :: "string option \<Rightarrow> bool" where
  "runsOnSuccess policy = (policy = Some ''always'')"

definition isStrict :: "string option \<Rightarrow> bool" where
  "isStrict policy = (policy = Some ''strict'')"

section \<open>nop/input-mapper.ts: buildParams\<close>

text \<open>A parameter is a value, possibly \<open>undefined\<close>, or an array some of whose elements may be.\<close>

datatype param = PVal "jsval option" | PArr "jsval option list"

fun map_paths :: "jsval list \<Rightarrow> (string, jsval) jsmap \<Rightarrow> mapping_error + jsval option list" where
  "map_paths [] context = Inr []"
| "map_paths (p # ps) context =
     rbind (case p of JStr path \<Rightarrow> resolvePath path context | _ \<Rightarrow> Inr (Some p)) (\<lambda>v.
     rbind (map_paths ps context) (\<lambda>vs. Inr (v # vs)))"

definition build_param :: "jsval \<Rightarrow> (string, jsval) jsmap \<Rightarrow> mapping_error + param" where
  "build_param pathValue context = (case pathValue of
     JStr path \<Rightarrow> rbind (resolvePath path context) (Inr \<circ> PVal)
   | JArr ps \<Rightarrow> rbind (map_paths ps context) (Inr \<circ> PArr)
   | v \<Rightarrow> Inr (PVal (Some v)))"

fun build_entries :: "jsobj \<Rightarrow> (string, jsval) jsmap \<Rightarrow> (string, param) jsmap \<Rightarrow> mapping_error + (string, param) jsmap" where
  "build_entries [] context out = Inr out"
| "build_entries ((name, v) # es) context out =
     rbind (build_param v context) (\<lambda>p. build_entries es context (js_set out name p))"

definition buildParams :: "jsobj option \<Rightarrow> (string, jsval) jsmap \<Rightarrow> mapping_error + (string, param) jsmap" where
  "buildParams inputMapping context = (case inputMapping of
     None \<Rightarrow> Inr [] | Some m \<Rightarrow> if m = [] then Inr [] else build_entries m context [])"

section \<open>Frames and streams\<close>

datatype resolved = RObj "(string, param) jsmap" | RVal "jsval option"

record delegate_frame =
  df_taskId :: string
  df_subtaskId :: string
  df_action :: string
  df_agentNid :: string
  df_params :: "(string, param) jsmap"
  df_idempotencyKey :: string
  df_targetClusterAnchor :: "string option"
  df_nodeId :: string
  df_deadlineAt :: int
  df_priority :: "string option"
  df_delegateDepth :: int
  df_context :: "jsobj option"
  df_resolvedParams :: resolved
  df_resolvedTargetNid :: string

record align_frame =
  af_seq :: nat
  af_isFinal :: bool
  af_senderNid :: string
  af_data :: jsval
  af_error :: "string option"

text \<open>How the iteration over a worker's stream ends when no frame ends it: the iterator is exhausted, the node's
  timer or the task's signal aborts it, or it throws.\<close>

datatype stream_end = StreamDone | NodeAbort | TaskAbort | WorkerThrows string

type_synonym worker_stream = "align_frame list \<times> stream_end"

record NodeOutcome =
  no_state :: TaskState
  no_result :: "jsval option"
  no_errorCode :: "string option"

definition node_failed :: "string \<Rightarrow> NodeOutcome" where
  "node_failed code = \<lparr>no_state = FAILED, no_result = None, no_errorCode = Some code\<rparr>"

definition node_completed :: "jsval \<Rightarrow> NodeOutcome" where
  "node_completed v = \<lparr>no_state = COMPLETED, no_result = Some v, no_errorCode = None\<rparr>"

definition node_skipped :: NodeOutcome where
  "node_skipped = \<lparr>no_state = SKIPPED, no_result = None, no_errorCode = None\<rparr>"

datatype node_throw = AbortError | Rethrown string

record NopOrchestratorOptions =
  oo_defaultTimeoutMs :: int
  oo_maxTimeoutMs :: int
  oo_maxConcurrentNodes :: int
  oo_validateSenderNid :: bool
  oo_enableCallback :: bool
  oo_callbackRetryBaseDelayMs :: int
  oo_defaultAggregateStrategy :: string
  oo_clusterResolver :: "(string \<Rightarrow> ClusterAnchorInfo option) option"

definition default_options :: NopOrchestratorOptions where
  "default_options = \<lparr>oo_defaultTimeoutMs = 30000, oo_maxTimeoutMs = 3600000, oo_maxConcurrentNodes = 8,
     oo_validateSenderNid = True, oo_enableCallback = True, oo_callbackRetryBaseDelayMs = 1000,
     oo_defaultAggregateStrategy = ''merge'', oo_clusterResolver = None\<rparr>"

text \<open>The shared resolver, and the frames handed to \<open>worker.delegate\<close> so far.\<close>

record worker_state =
  ws_resolver :: ClusterDelegationResolver
  ws_sent :: "delegate_frame list"

section \<open>One attempt\<close>

definition truthy :: "string option \<Rightarrow> bool" where
  "truthy s = (s \<noteq> None \<and> s \<noteq> Some [])"

text \<open>The loop over the frames: an early failure, the final frame, or none.\<close>

datatype stream_read = ReadFail string | ReadFinal align_frame | ReadNoFinal

fun read_frames :: "bool \<Rightarrow> string \<Rightarrow> nat \<Rightarrow> align_frame list \<Rightarrow> stream_read" where
  "read_frames check agent lastSeq [] = ReadNoFinal"
| "read_frames check agent lastSeq (f # fs) =
     (if af_seq f \<noteq> lastSeq \<and> af_seq f \<noteq> 0 \<and> af_seq f \<noteq> lastSeq + 1 then ReadFail ''NOP-STREAM-SEQ-GAP''
      else if check \<and> af_senderNid f \<noteq> [] \<and> af_senderNid f \<noteq> agent then ReadFail ''NOP-STREAM-NID-MISMATCH''
      else if af_isFinal f then ReadFinal f
      else read_frames check agent (af_seq f) fs)"

definition resolveTarget :: "NopOrchestratorOptions \<Rightarrow> work_node \<Rightarrow> ClusterDelegationResolver \<Rightarrow> string \<times> ClusterDelegationResolver" where
  "resolveTarget opts node r = (case (wn_targetClusterAnchor node, oo_clusterResolver opts) of
     (Some cluster, Some lookup) \<Rightarrow>
       if cluster = [] then (wn_agent node, r)
       else let (info, r) = resolveActive lookup cluster r in
         ((case info of None \<Rightarrow> wn_agent node | Some i \<Rightarrow> ci_activeNid i), r)
   | _ \<Rightarrow> (wn_agent node, r))"

definition resolve_params :: "work_node \<Rightarrow> (string, param) jsmap \<Rightarrow> (string, jsval) jsmap \<Rightarrow> resolved" where
  "resolve_params node params context =
     (if wn_inputMapping node = None \<or> wn_inputMapping node = Some []
      then case (case wn_inputFrom node of None \<Rightarrow> [] | Some us \<Rightarrow> us) of
          [] \<Rightarrow> RVal None
        | [u] \<Rightarrow> RVal (js_get context u)
        | us \<Rightarrow> RObj (foldl (\<lambda>o' dep. js_set o' dep (PVal (js_get context dep))) [] us)
      else RObj params)"

definition frame_params :: "resolved \<Rightarrow> (string, param) jsmap" where
  "frame_params r = (case r of
     RObj o' \<Rightarrow> o'
   | RVal (Some (JObj kvs)) \<Rightarrow> map (\<lambda>(k, v). (k, PVal (Some v))) kvs
   | RVal v \<Rightarrow> [(''value'', PVal v)])"

definition node_timeout :: "NopOrchestratorOptions \<Rightarrow> TaskFrame \<Rightarrow> work_node \<Rightarrow> int" where
  "node_timeout opts task node = min (case wn_timeoutMs node of Some t \<Rightarrow> t
     | None \<Rightarrow> (case tf_timeoutMs task of Some t \<Rightarrow> t | None \<Rightarrow> oo_defaultTimeoutMs opts)) (oo_maxTimeoutMs opts)"

definition delegate_of :: "NopOrchestratorOptions \<Rightarrow> int \<Rightarrow> TaskFrame \<Rightarrow> work_node \<Rightarrow> string \<Rightarrow> string \<Rightarrow> resolved \<Rightarrow> string \<Rightarrow> delegate_frame" where
  "delegate_of opts now task node subtaskId idempotencyKey rp target =
     \<lparr>df_taskId = tf_taskId task, df_subtaskId = subtaskId, df_action = wn_action node, df_agentNid = wn_agent node,
      df_params = frame_params rp, df_idempotencyKey = idempotencyKey,
      df_targetClusterAnchor = wn_targetClusterAnchor node, df_nodeId = wn_id node,
      df_deadlineAt = now + node_timeout opts task node, df_priority = tf_priority task,
      df_delegateDepth = delegateDepth task + 1, df_context = tf_context task,
      df_resolvedParams = rp, df_resolvedTargetNid = target\<rparr>"

text \<open>What the frames and the end of the stream make of the attempt.\<close>

definition attempt_result :: "NopOrchestratorOptions \<Rightarrow> work_node \<Rightarrow> worker_stream \<Rightarrow> node_throw + NodeOutcome" where
  "attempt_result opts node stream =
     (case read_frames (oo_validateSenderNid opts) (wn_agent node) 0 (fst stream) of
        ReadFail code \<Rightarrow> Inr (node_failed code)
      | ReadFinal f \<Rightarrow> Inr (case af_error f of
            None \<Rightarrow> node_completed (af_data f)
          | Some code \<Rightarrow> if code = [] then node_completed JNull else node_failed code)
      | ReadNoFinal \<Rightarrow> (case snd stream of
            StreamDone \<Rightarrow> Inr (node_failed ''NOP-DELEGATE-TIMEOUT'')
          | NodeAbort \<Rightarrow> Inr (node_failed ''NOP-DELEGATE-TIMEOUT'')
          | TaskAbort \<Rightarrow> Inl AbortError
          | WorkerThrows e \<Rightarrow> Inl (Rethrown e)))"

text \<open>\<open>NWP-ANCHOR-NOT-LEADER\<close> from a cluster target drops the cached leader. The only failure of a stream
  with that code is the one a final frame reports.\<close>

definition after_attempt :: "NopOrchestratorOptions \<Rightarrow> work_node \<Rightarrow> node_throw + NodeOutcome \<Rightarrow> ClusterDelegationResolver \<Rightarrow> ClusterDelegationResolver" where
  "after_attempt opts node res r =
     (if res = Inr (node_failed ''NWP-ANCHOR-NOT-LEADER'') \<and> truthy (wn_targetClusterAnchor node)
         \<and> oo_clusterResolver opts \<noteq> None
      then cr_invalidate (the (wn_targetClusterAnchor node)) r else r)"

definition executeNodeOnce :: "NopOrchestratorOptions \<Rightarrow> (delegate_frame \<Rightarrow> worker_stream) \<Rightarrow> int \<Rightarrow> TaskFrame \<Rightarrow> work_node \<Rightarrow>
    string \<Rightarrow> string \<Rightarrow> (string, jsval) jsmap \<Rightarrow> worker_state \<Rightarrow> (node_throw + NodeOutcome) \<times> worker_state" where
  "executeNodeOnce opts worker now task node subtaskId idempotencyKey context st =
     (case buildParams (wn_inputMapping node) context of
        Inl NopMappingError \<Rightarrow> (Inr (node_failed ''NOP-INPUT-MAPPING-ERROR''), st)
      | Inr params \<Rightarrow>
          let (target, r) = resolveTarget opts node (ws_resolver st);
              frame = delegate_of opts now task node subtaskId idempotencyKey (resolve_params node params context) target;
              res = attempt_result opts node (worker frame) in
          (res, \<lparr>ws_resolver = after_attempt opts node res r, ws_sent = ws_sent st @ [frame]\<rparr>))"

section \<open>Retries\<close>

definition shouldRetry :: "string list option \<Rightarrow> string option \<Rightarrow> int \<Rightarrow> int \<Rightarrow> bool" where
  "shouldRetry retryOn errorCode attempt maxRetries =
     (if attempt > maxRetries then False
      else case (retryOn, errorCode) of
        (Some codes, Some code) \<Rightarrow> codes = [] \<or> code = [] \<or> code \<in> set codes
      | _ \<Rightarrow> True)"

text \<open>Milliseconds as integers: below \<open>2^53\<close> the products of the source are exact.\<close>

definition computeBackoffMs :: "RetryPolicy option \<Rightarrow> nat \<Rightarrow> int" where
  "computeBackoffMs policy attempt =
     (let base = (case policy of None \<Rightarrow> 1000 | Some p \<Rightarrow> (case rp_baseDelayMs p of None \<Rightarrow> 1000 | Some b \<Rightarrow> b));
          cap = (case policy of None \<Rightarrow> 30000 | Some p \<Rightarrow> (case rp_maxDelayMs p of None \<Rightarrow> 30000 | Some c \<Rightarrow> c));
          backoff = (case policy of None \<Rightarrow> None | Some p \<Rightarrow> rp_backoff p);
          d = (if backoff = Some ''fixed'' then base
               else if backoff = Some ''linear'' then base * (int attempt + 1)
               else base * 2 ^ attempt) in
      min d cap)"

text \<open>What an attempt finds outside the function when it starts: the task's signal, the live map of upstream results,
  the worker's answer, the clock, what other nodes have done to the shared resolver since, and whether the
  signal fires during the delay after it.\<close>

record attempt_env =
  ae_aborted :: bool
  ae_context :: "(string, jsval) jsmap"
  ae_worker :: "delegate_frame \<Rightarrow> worker_stream"
  ae_now :: int
  ae_others :: "ClusterDelegationResolver \<Rightarrow> ClusterDelegationResolver"
  ae_abortsDelay :: bool

definition max_retries :: "TaskFrame \<Rightarrow> work_node \<Rightarrow> int" where
  "max_retries task node = (case wn_retryPolicy node of
     None \<Rightarrow> tf_maxRetries task
   | Some p \<Rightarrow> (case rp_maxRetries p of None \<Rightarrow> tf_maxRetries task | Some n \<Rightarrow> n))"

definition node_retryOn :: "work_node \<Rightarrow> string list option" where
  "node_retryOn node = (case wn_retryPolicy node of None \<Rightarrow> None | Some p \<Rightarrow> rp_retryOn p)"

text \<open>The condition, evaluated before the first attempt only: \<open>None\<close> lets the node run.\<close>

definition condition_outcome :: "(rat \<Rightarrow> string) \<Rightarrow> work_node \<Rightarrow> (string, jsval) jsmap \<Rightarrow> NodeOutcome option" where
  "condition_outcome numStr node context =
     (if truthy (wn_condition node)
      then case evaluateCondition numStr (wn_condition node) context of
          Inl NopConditionError \<Rightarrow> Some (node_failed ''NOP-CONDITION-EVAL-ERROR'')
        | Inr True \<Rightarrow> None
        | Inr False \<Rightarrow> Some node_skipped
      else None)"

text \<open>The loop: \<open>left\<close> attempts remain, the next one is number \<open>attempt\<close>.\<close>

fun attempts_from :: "(rat \<Rightarrow> string) \<Rightarrow> NopOrchestratorOptions \<Rightarrow> (nat \<Rightarrow> attempt_env) \<Rightarrow> TaskFrame \<Rightarrow> work_node \<Rightarrow>
    string \<Rightarrow> string \<Rightarrow> nat \<Rightarrow> nat \<Rightarrow> worker_state \<Rightarrow> (node_throw + NodeOutcome) \<times> worker_state" where
  "attempts_from numStr opts env task node subtaskId key 0 attempt st = (Inr (node_failed ''NOP-DELEGATE-TIMEOUT''), st)"
| "attempts_from numStr opts env task node subtaskId key (Suc left) attempt st =
     (let e = env attempt in
      if ae_aborted e then (Inl AbortError, st)
      else case (if attempt = 1 then condition_outcome numStr node (ae_context e) else None) of
        Some outcome \<Rightarrow> (Inr outcome, st)
      | None \<Rightarrow>
          let (res, st) = executeNodeOnce opts (ae_worker e) (ae_now e) task node subtaskId key (ae_context e)
                            (st\<lparr>ws_resolver := ae_others e (ws_resolver st)\<rparr>) in
          case res of
            Inl err \<Rightarrow> (Inl err, st)
          | Inr outcome \<Rightarrow>
              if no_state outcome = COMPLETED then (Inr outcome, st)
              else if \<not> shouldRetry (node_retryOn node) (no_errorCode outcome) (int attempt) (max_retries task node) then (Inr outcome, st)
              else if computeBackoffMs (wn_retryPolicy node) (attempt - 1) > 0 \<and> ae_abortsDelay e then (Inl AbortError, st)
              else attempts_from numStr opts env task node subtaskId key left (Suc attempt) st)"

definition executeNodeWithRetry :: "(rat \<Rightarrow> string) \<Rightarrow> NopOrchestratorOptions \<Rightarrow> (nat \<Rightarrow> attempt_env) \<Rightarrow> TaskFrame \<Rightarrow> work_node \<Rightarrow>
    string \<Rightarrow> string \<Rightarrow> worker_state \<Rightarrow> (node_throw + NodeOutcome) \<times> worker_state" where
  "executeNodeWithRetry numStr opts env task node idempotencyKey subtaskId st =
     attempts_from numStr opts env task node subtaskId idempotencyKey (nat (max_retries task node + 1)) 1 st"

section \<open>Saga compensation\<close>

record SagaCompensationResult =
  sc_attempted :: nat
  sc_succeeded :: nat
  sc_failed :: nat
  sc_failedNodeIds :: "string list"

definition node_of :: "TaskFrame \<Rightarrow> string \<Rightarrow> work_node option" where
  "node_of task i = find (\<lambda>n. wn_id n = i) (tf_nodes task)"

definition compensation_node :: "work_node \<Rightarrow> work_node" where
  "compensation_node node = node\<lparr>wn_action := the (wn_compensate_action node),
     wn_inputMapping := wn_compensate_params_mapping node, wn_condition := None, wn_retryPolicy := None\<rparr>"

definition compensable :: "TaskFrame \<Rightarrow> string \<Rightarrow> bool" where
  "compensable task i = (case node_of task i of None \<Rightarrow> False | Some n \<Rightarrow> truthy (wn_compensate_action n))"

text \<open>The loop over the nodes to compensate. The ids of the frames are fresh: position \<open>k\<close> of the loop draws
  \<open>ids k\<close> (the subtask) and \<open>keys k\<close>. A throw (the task's signal) leaves the function.\<close>

fun saga_loop :: "NopOrchestratorOptions \<Rightarrow> (delegate_frame \<Rightarrow> worker_stream) \<Rightarrow> (nat \<Rightarrow> int \<times> string \<times> string) \<Rightarrow> TaskFrame \<Rightarrow>
    (string, jsval) jsmap \<Rightarrow> string list \<Rightarrow> nat \<Rightarrow> nat \<Rightarrow> string list \<Rightarrow> worker_state \<Rightarrow>
    (node_throw + nat \<times> string list) \<times> worker_state" where
  "saga_loop opts worker draw task results [] k succeeded failedIds st = (Inr (succeeded, failedIds), st)"
| "saga_loop opts worker draw task results (i # is) k succeeded failedIds st =
     (case node_of task i of
        None \<Rightarrow> saga_loop opts worker draw task results is (Suc k) succeeded failedIds st
      | Some node \<Rightarrow>
          let (now, subtaskId, key) = draw k;
              (res, st) = executeNodeOnce opts worker now task (compensation_node node) subtaskId key results st in
          case res of
            Inl err \<Rightarrow> (Inl err, st)
          | Inr outcome \<Rightarrow>
              if no_state outcome = COMPLETED
              then saga_loop opts worker draw task results is (Suc k) (succeeded + 1) failedIds st
              else saga_loop opts worker draw task results is (Suc k) succeeded (failedIds @ [i]) st)"

definition saga_candidates :: "TaskFrame \<Rightarrow> string list \<Rightarrow> (string, TaskState) jsmap \<Rightarrow> string list" where
  "saga_candidates task topoOrder states =
     rev (filter (\<lambda>i. js_get states i = Some COMPLETED \<and> node_of task i \<noteq> None) topoOrder)"

definition runSagaCompensation :: "NopOrchestratorOptions \<Rightarrow> (delegate_frame \<Rightarrow> worker_stream) \<Rightarrow> (nat \<Rightarrow> int \<times> string \<times> string) \<Rightarrow>
    TaskFrame \<Rightarrow> string list \<Rightarrow> (string, jsval) jsmap \<Rightarrow> (string, TaskState) jsmap \<Rightarrow> worker_state \<Rightarrow>
    (node_throw + SagaCompensationResult) \<times> worker_state" where
  "runSagaCompensation opts worker draw task topoOrder results states st =
     (let completed = saga_candidates task topoOrder states;
          missing = filter (\<lambda>i. \<not> compensable task i) completed;
          toCompensate = filter (compensable task) completed in
      if isStrict (tf_compensationPolicy task) \<and> missing \<noteq> []
      then (Inr \<lparr>sc_attempted = 0, sc_succeeded = 0, sc_failed = length missing, sc_failedNodeIds = missing\<rparr>, st)
      else if toCompensate = []
      then (Inr \<lparr>sc_attempted = 0, sc_succeeded = 0, sc_failed = 0, sc_failedNodeIds = []\<rparr>, st)
      else case saga_loop opts worker draw task results toCompensate 0 0 [] st of
        (Inl err, st) \<Rightarrow> (Inl err, st)
      | (Inr (succeeded, failedIds), st) \<Rightarrow>
          (Inr \<lparr>sc_attempted = length toCompensate, sc_succeeded = succeeded, sc_failed = length failedIds,
                sc_failedNodeIds = failedIds\<rparr>, st))"

definition compensationFailureErrorCode :: "TaskFrame \<Rightarrow> SagaCompensationResult option \<Rightarrow> string option" where
  "compensationFailureErrorCode task compensation = (case compensation of
     None \<Rightarrow> None
   | Some c \<Rightarrow> if \<not> isStrict (tf_compensationPolicy task) \<or> sc_failed c = 0 then None
              else Some (if sc_attempted c = 0 then ''NOP-COMPENSATION-NOT-SUPPORTED'' else ''NOP-COMPENSATION-FAILED''))"

section \<open>Reading a stream\<close>

definition frame_accepted :: "bool \<Rightarrow> string \<Rightarrow> nat \<Rightarrow> align_frame \<Rightarrow> bool" where
  "frame_accepted check agent lastSeq f =
     (af_seq f \<in> {0, lastSeq, lastSeq + 1} \<and> (check \<longrightarrow> af_senderNid f \<in> {[], agent}))"

fun frames_accepted :: "bool \<Rightarrow> string \<Rightarrow> nat \<Rightarrow> align_frame list \<Rightarrow> bool" where
  "frames_accepted check agent lastSeq [] = True"
| "frames_accepted check agent lastSeq (f # fs) =
     (frame_accepted check agent lastSeq f \<and> frames_accepted check agent (af_seq f) fs)"

lemma read_frames_Cons:
  "read_frames check agent lastSeq (f # fs) =
     (if frame_accepted check agent lastSeq f
      then if af_isFinal f then ReadFinal f else read_frames check agent (af_seq f) fs
      else ReadFail (if af_seq f \<in> {0, lastSeq, lastSeq + 1} then ''NOP-STREAM-NID-MISMATCH'' else ''NOP-STREAM-SEQ-GAP''))"
  by (auto simp: frame_accepted_def)

lemma read_frames_final_iff:
  "read_frames check agent lastSeq fs = ReadFinal f \<longleftrightarrow>
     (\<exists>pre post. fs = pre @ f # post \<and> list_all (\<lambda>g. \<not> af_isFinal g) pre \<and> af_isFinal f \<and>
        frames_accepted check agent lastSeq (pre @ [f]))"
proof (induction fs arbitrary: lastSeq)
  case Nil
  then show ?case by simp
next
  case (Cons g fs)
  let ?R = "\<lambda>fs n. \<exists>pre post. fs = pre @ f # post \<and> list_all (\<lambda>g. \<not> af_isFinal g) pre \<and> af_isFinal f \<and>
     frames_accepted check agent n (pre @ [f])"
  have "?R (g # fs) lastSeq \<longleftrightarrow> frame_accepted check agent lastSeq g \<and> (if af_isFinal g then g = f else ?R fs (af_seq g))"
    (is "?L \<longleftrightarrow> ?S")
  proof
    assume ?L
    then obtain pre post where "g # fs = pre @ f # post" "list_all (\<lambda>g. \<not> af_isFinal g) pre" "af_isFinal f"
      "frames_accepted check agent lastSeq (pre @ [f])" by blast
    then show ?S by (cases pre) auto
  next
    assume s: ?S
    show ?L
    proof (cases "af_isFinal g")
      case True
      with s have "g # fs = [] @ f # fs \<and> list_all (\<lambda>g. \<not> af_isFinal g) [] \<and> af_isFinal f \<and>
        frames_accepted check agent lastSeq ([] @ [f])" by auto
      then show ?thesis by blast
    next
      case False
      with s obtain pre post where "fs = pre @ f # post" "list_all (\<lambda>g. \<not> af_isFinal g) pre" "af_isFinal f"
        "frames_accepted check agent (af_seq g) (pre @ [f])" by auto
      with s False have "g # fs = (g # pre) @ f # post \<and> list_all (\<lambda>g. \<not> af_isFinal g) (g # pre) \<and> af_isFinal f \<and>
        frames_accepted check agent lastSeq ((g # pre) @ [f])" by auto
      then show ?thesis by blast
    qed
  qed
  then show ?case by (simp add: read_frames_Cons Cons.IH del: read_frames.simps)
qed

lemmas outcome_defs = node_failed_def node_completed_def node_skipped_def

text \<open>An attempt completes exactly when its stream has a final frame, preceded by frames that are not final, every frame
  up to it continues the sequence (repeats the last number, follows it, or restarts at 0) and comes
  from the agent of the node, and the final frame carries no error code.\<close>

theorem attempt_completes_iff:
  "(\<exists>out. attempt_result opts node stream = Inr out \<and> no_state out = COMPLETED) \<longleftrightarrow>
     (\<exists>pre f post. fst stream = pre @ f # post \<and> list_all (\<lambda>g. \<not> af_isFinal g) pre \<and> af_isFinal f \<and>
        frames_accepted (oo_validateSenderNid opts) (wn_agent node) 0 (pre @ [f]) \<and> \<not> truthy (af_error f))"
proof -
  have "(\<exists>out. attempt_result opts node stream = Inr out \<and> no_state out = COMPLETED) \<longleftrightarrow>
     (\<exists>f. read_frames (oo_validateSenderNid opts) (wn_agent node) 0 (fst stream) = ReadFinal f \<and> \<not> truthy (af_error f))"
    unfolding attempt_result_def truthy_def
    by (cases "read_frames (oo_validateSenderNid opts) (wn_agent node) 0 (fst stream)"; cases "snd stream")
      (auto simp: outcome_defs split: option.splits)
  then show ?thesis unfolding read_frames_final_iff by blast
qed

lemma attempt_result_states:
  "attempt_result opts node stream = Inr out \<Longrightarrow> no_state out = COMPLETED \<and> no_result out \<noteq> None \<or> (\<exists>code. out = node_failed code)"
  by (auto simp: attempt_result_def outcome_defs split: stream_read.splits stream_end.splits option.splits if_splits)

section \<open>One attempt\<close>

definition mappable :: "work_node \<Rightarrow> (string, jsval) jsmap \<Rightarrow> bool" where
  "mappable node context = (\<exists>ps. buildParams (wn_inputMapping node) context = Inr ps)"

text \<open>An attempt hands at most one frame to the worker, none exactly when its parameters cannot be built.\<close>

lemma executeNodeOnce_sends:
  assumes "executeNodeOnce opts worker now task node sub key context st = (res, st')"
  obtains (unmapped) "\<not> mappable node context" "st' = st" "res = Inr (node_failed ''NOP-INPUT-MAPPING-ERROR'')"
  | (sent) f r where "mappable node context" "ws_sent st' = ws_sent st @ [f]" "df_idempotencyKey f = key" "df_subtaskId f = sub"
      "df_nodeId f = wn_id node" "df_agentNid f = wn_agent node" "df_action f = wn_action node"
      "df_delegateDepth f = delegateDepth task + 1" "res = attempt_result opts node (worker f)"
      "(df_resolvedTargetNid f, r) = resolveTarget opts node (ws_resolver st)"
      "ws_resolver st' = after_attempt opts node res r"
proof (cases "buildParams (wn_inputMapping node) context")
  case (Inl e)
  then show ?thesis using assms unmapped by (cases e) (simp add: executeNodeOnce_def mappable_def)
next
  case (Inr ps)
  obtain target r where t: "resolveTarget opts node (ws_resolver st) = (target, r)" by (cases "resolveTarget opts node (ws_resolver st)")
  let ?f = "delegate_of opts now task node sub key (resolve_params node ps context) target"
  have "res = attempt_result opts node (worker ?f)"
    "st' = \<lparr>ws_resolver = after_attempt opts node res r, ws_sent = ws_sent st @ [?f]\<rparr>"
    using assms by (auto simp: executeNodeOnce_def Inr t Let_def)
  then show ?thesis using sent [of ?f r] Inr t by (auto simp: mappable_def delegate_of_def)
qed

lemma executeNodeOnce_states:
  assumes "executeNodeOnce opts worker now task node sub key context st = (Inr out, st')"
  shows "no_state out = COMPLETED \<and> no_result out \<noteq> None \<or> (\<exists>code. out = node_failed code)"
  using assms by (cases rule: executeNodeOnce_sends) (blast, metis attempt_result_states)

text \<open>After \<open>NWP-ANCHOR-NOT-LEADER\<close> the cached leader is gone, so the next attempt asks the directory again.\<close>

theorem not_leader_reresolves:
  assumes once: "executeNodeOnce opts worker now task node sub key context st = (Inr (node_failed ''NWP-ANCHOR-NOT-LEADER''), st')"
    and cluster: "wn_targetClusterAnchor node = Some cluster" "cluster \<noteq> []" "oo_clusterResolver opts = Some lookup"
  shows "fst (resolveTarget opts node (ws_resolver st')) = (case lookup cluster of None \<Rightarrow> wn_agent node | Some i \<Rightarrow> ci_activeNid i)"
  using once
proof (cases rule: executeNodeOnce_sends)
  case unmapped
  then show ?thesis by (simp add: node_failed_def)
next
  case (sent f r)
  have "ws_resolver st' = cr_invalidate cluster r" using sent(11) cluster by (simp add: after_attempt_def truthy_def)
  then show ?thesis using cluster
    by (simp add: resolveTarget_def resolveActive_def resolveActive_begin_def resolveActive_end_def cr_invalidate_def
        js_get_delete split: option.splits)
qed

text \<open>The orchestrator resolves a cluster target without the check for an NPS identifier that
  \<open>resolveDelegateTarget\<close> makes.\<close>

lemma orchestrator_skips_nid_guard:
  assumes "wn_targetClusterAnchor node = Some cluster" "cluster \<noteq> []" "\<not> isNpsNid cluster" "oo_clusterResolver opts = Some lookup"
    "js_get (cr_active r) cluster = None" "lookup cluster = Some i"
  shows "fst (resolveTarget opts node r) = ci_activeNid i" "fst (resolveDelegateTarget lookup (wn_agent node) (Some cluster) r) = None"
  using assms by (simp_all add: resolveTarget_def resolveActive_def resolveActive_begin_def resolveActive_end_def resolveDelegateTarget_def)

section \<open>Retries\<close>

lemma shouldRetry_bound: "shouldRetry retryOn code attempt n \<Longrightarrow> attempt \<le> n"
  by (auto simp: shouldRetry_def split: if_splits)

lemma attempts_from_step:
  assumes "attempts_from numStr opts env task node sub key (Suc left) attempt st = (res, st')"
  obtains (early) "st' = st" "res = Inl AbortError \<and> ae_aborted (env attempt) \<or>
      attempt = 1 \<and> (\<exists>out. res = Inr out \<and> condition_outcome numStr node (ae_context (env 1)) = Some out)"
  | (stop) "executeNodeOnce opts (ae_worker (env attempt)) (ae_now (env attempt)) task node sub key (ae_context (env attempt))
        (st\<lparr>ws_resolver := ae_others (env attempt) (ws_resolver st)\<rparr>) = (res, st')"
      "\<And>out. res = Inr out \<Longrightarrow> no_state out = COMPLETED \<or> \<not> shouldRetry (node_retryOn node) (no_errorCode out) (int attempt) (max_retries task node)"
  | (aborted) out where "executeNodeOnce opts (ae_worker (env attempt)) (ae_now (env attempt)) task node sub key (ae_context (env attempt))
        (st\<lparr>ws_resolver := ae_others (env attempt) (ws_resolver st)\<rparr>) = (Inr out, st')"
      "res = Inl AbortError" "ae_abortsDelay (env attempt)"
  | (again) out st1 where "executeNodeOnce opts (ae_worker (env attempt)) (ae_now (env attempt)) task node sub key (ae_context (env attempt))
        (st\<lparr>ws_resolver := ae_others (env attempt) (ws_resolver st)\<rparr>) = (Inr out, st1)"
      "shouldRetry (node_retryOn node) (no_errorCode out) (int attempt) (max_retries task node)"
      "attempts_from numStr opts env task node sub key left (Suc attempt) st1 = (res, st')"
proof -
  let ?e = "env attempt"
  let ?c = "if attempt = 1 then condition_outcome numStr node (ae_context ?e) else None"
  obtain res1 st1 where once: "executeNodeOnce opts (ae_worker ?e) (ae_now ?e) task node sub key (ae_context ?e)
      (st\<lparr>ws_resolver := ae_others ?e (ws_resolver st)\<rparr>) = (res1, st1)"
    by (metis surj_pair)
  consider "ae_aborted ?e" | out where "\<not> ae_aborted ?e" "?c = Some out" | err where "\<not> ae_aborted ?e" "?c = None" "res1 = Inl err"
    | out where "\<not> ae_aborted ?e" "?c = None" "res1 = Inr out"
    by (cases "ae_aborted ?e"; cases ?c; cases res1) blast+
  then show thesis
  proof cases
    case 1
    then show ?thesis using assms early by simp
  next
    case 2
    then have "attempt = 1" by (auto split: if_splits)
    with 2 show ?thesis using assms early by simp
  next
    case 3
    have "(res, st') = (Inl err, st1)" using assms once 3 by (simp add: Let_def)
    then show ?thesis using once 3 stop by simp
  next
    case 4
    let ?retry = "shouldRetry (node_retryOn node) (no_errorCode out) (int attempt) (max_retries task node)"
    have eq: "(res, st') = (if no_state out = COMPLETED then (Inr out, st1) else if \<not> ?retry then (Inr out, st1)
        else if computeBackoffMs (wn_retryPolicy node) (attempt - 1) > 0 \<and> ae_abortsDelay ?e then (Inl AbortError, st1)
        else attempts_from numStr opts env task node sub key left (Suc attempt) st1)"
      using assms once 4 by (simp add: Let_def)
    show ?thesis
    proof (cases "no_state out = COMPLETED \<or> \<not> ?retry")
      case True
      then have "(res, st') = (Inr out, st1)" using eq by auto
      with True once 4 stop show ?thesis by simp
    next
      case False
      then show ?thesis using eq once 4 aborted again [of out st1] by (simp split: if_splits)
    qed
  qed
qed

definition same_call :: "TaskFrame \<Rightarrow> work_node \<Rightarrow> string \<Rightarrow> string \<Rightarrow> delegate_frame \<Rightarrow> bool" where
  "same_call task node sub key f = (df_idempotencyKey f = key \<and> df_subtaskId f = sub \<and> df_nodeId f = wn_id node \<and>
     df_action f = wn_action node \<and> df_delegateDepth f = delegateDepth task + 1)"

lemma executeNodeOnce_same_call:
  assumes "executeNodeOnce opts worker now task node sub key context st = (res, st')"
  shows "\<exists>fs. ws_sent st' = ws_sent st @ fs \<and> length fs \<le> 1 \<and> list_all (same_call task node sub key) fs \<and>
    (mappable node context \<longrightarrow> length fs = 1)"
  using assms by (cases rule: executeNodeOnce_sends) (auto simp: same_call_def)

lemma attempts_from_sends:
  assumes "attempts_from numStr opts env task node sub key left attempt st = (res, st')"
  shows "\<exists>fs. ws_sent st' = ws_sent st @ fs \<and> length fs \<le> left \<and> list_all (same_call task node sub key) fs"
  using assms
proof (induction left arbitrary: attempt st)
  case 0
  then show ?case by simp
next
  case (Suc left)
  from Suc.prems show ?case
  proof (cases rule: attempts_from_step)
    case early
    then show ?thesis by simp
  next
    case stop
    from executeNodeOnce_same_call [OF stop(1)] show ?thesis by auto
  next
    case (aborted out)
    from executeNodeOnce_same_call [OF aborted(1)] show ?thesis by auto
  next
    case (again out st1)
    from executeNodeOnce_same_call [OF again(1)] obtain fs where
      "ws_sent st1 = ws_sent st @ fs" "length fs \<le> 1" "list_all (same_call task node sub key) fs" by auto
    moreover from Suc.IH [OF again(3)] obtain gs where
      "ws_sent st' = ws_sent st1 @ gs" "length gs \<le> left" "list_all (same_call task node sub key) gs" by auto
    ultimately show ?thesis by (intro exI [of _ "fs @ gs"]) simp
  qed
qed

lemma condition_outcome_states:
  "condition_outcome numStr node context = Some out \<Longrightarrow> out = node_skipped \<or> out = node_failed ''NOP-CONDITION-EVAL-ERROR''"
  by (auto simp: condition_outcome_def split: if_splits sum.splits bool.splits cond_error.splits)

lemma attempts_from_states:
  assumes "attempts_from numStr opts env task node sub key left attempt st = (Inr out, st')" "attempt \<noteq> 0"
  shows "no_state out = COMPLETED \<and> no_result out \<noteq> None \<or> (\<exists>code. out = node_failed code) \<or>
    out = node_skipped \<and> attempt = 1 \<and> condition_outcome numStr node (ae_context (env 1)) = Some node_skipped"
  using assms
proof (induction left arbitrary: attempt st)
  case 0
  then show ?case by auto
next
  case (Suc left)
  from Suc.prems(1) show ?case
  proof (cases rule: attempts_from_step)
    case early
    then show ?thesis by (auto dest!: condition_outcome_states)
  next
    case stop
    from executeNodeOnce_states [OF stop(1)] show ?thesis by auto
  next
    case (aborted out')
    then show ?thesis by simp
  next
    case (again out' st1)
    from Suc.IH [OF again(3)] Suc.prems(2) show ?thesis by auto
  qed
qed

text \<open>A failure is given up early only because its code is not one to retry on: without \<open>retry_on\<close>, a failing node has had all its
  attempts.\<close>

lemma attempts_from_exhausts:
  assumes "attempts_from numStr opts env task node sub key left attempt st = (Inr out, st')"
    and "no_state out = FAILED" "\<forall>k. mappable node (ae_context (env k))"
    and "node_retryOn node \<in> {None, Some []}" "int (attempt + left) = max_retries task node + 2"
    and "attempt = 1 \<longrightarrow> condition_outcome numStr node (ae_context (env 1)) = None" "attempt \<noteq> 0"
  shows "length (ws_sent st') = length (ws_sent st) + left"
  using assms(1,5-7)
proof (induction left arbitrary: attempt st)
  case 0
  then show ?case by simp
next
  case (Suc left)
  have retry: "shouldRetry (node_retryOn node) code (int attempt) (max_retries task node) \<longleftrightarrow> left > 0" for code
    using assms(4) Suc.prems(2) by (auto simp: shouldRetry_def split: option.splits)
  have one: "length (ws_sent st1) = Suc (length (ws_sent st))"
    if "executeNodeOnce opts (ae_worker (env attempt)) (ae_now (env attempt)) task node sub key (ae_context (env attempt))
        (st\<lparr>ws_resolver := ae_others (env attempt) (ws_resolver st)\<rparr>) = (r, st1)" for r st1
    using executeNodeOnce_same_call [OF that] assms(3) by auto
  from Suc.prems(1) show ?case
  proof (cases rule: attempts_from_step)
    case early
    then show ?thesis using Suc.prems(3) by auto
  next
    case stop
    then show ?thesis using one [OF stop(1)] retry assms(2) by auto
  next
    case (aborted out')
    then show ?thesis by simp
  next
    case (again out' st1)
    have "left > 0" using again(2) retry by simp
    moreover have "length (ws_sent st') = length (ws_sent st1) + left"
      using Suc.prems(2,4) by (intro Suc.IH [OF again(3)]) auto
    ultimately show ?thesis using one [OF again(1)] by simp
  qed
qed

lemma node_execution_facts:
  assumes exec: "executeNodeWithRetry numStr opts env task node key sub st = (res, st')"
  shows "\<exists>fs. ws_sent st' = ws_sent st @ fs \<and> length fs \<le> nat (max_retries task node + 1) \<and> list_all (same_call task node sub key) fs"
    and "res = Inr out \<Longrightarrow> no_state out \<in> {COMPLETED, FAILED, SKIPPED}"
    and "res = Inr out \<Longrightarrow> no_state out = SKIPPED \<Longrightarrow> evaluateCondition numStr (wn_condition node) (ae_context (env 1)) = Inr False"
    and "truthy (wn_condition node) \<Longrightarrow> evaluateCondition numStr (wn_condition node) (ae_context (env 1)) = Inr False \<Longrightarrow>
      max_retries task node \<ge> 0 \<Longrightarrow> \<not> ae_aborted (env 1) \<Longrightarrow> res = Inr node_skipped \<and> st' = st"
    and "res = Inr out \<Longrightarrow> no_state out = FAILED \<Longrightarrow> condition_outcome numStr node (ae_context (env 1)) = None \<Longrightarrow>
      \<forall>k. mappable node (ae_context (env k)) \<Longrightarrow> node_retryOn node \<in> {None, Some []} \<Longrightarrow>
      length (ws_sent st') = length (ws_sent st) + nat (max_retries task node + 1)"
proof -
  note run = exec [unfolded executeNodeWithRetry_def]
  show "\<exists>fs. ws_sent st' = ws_sent st @ fs \<and> length fs \<le> nat (max_retries task node + 1) \<and> list_all (same_call task node sub key) fs"
    using attempts_from_sends [OF run] .
  show "no_state out \<in> {COMPLETED, FAILED, SKIPPED}" if "res = Inr out"
    using attempts_from_states [OF run [unfolded that]] by (auto simp: outcome_defs)
  show "evaluateCondition numStr (wn_condition node) (ae_context (env 1)) = Inr False"
    if "res = Inr out" "no_state out = SKIPPED"
    using attempts_from_states [OF run [unfolded that(1)]] that(2)
    by (auto simp: outcome_defs condition_outcome_def split: if_splits sum.splits bool.splits cond_error.splits)
  show "res = Inr node_skipped \<and> st' = st" if "truthy (wn_condition node)"
    "evaluateCondition numStr (wn_condition node) (ae_context (env 1)) = Inr False" "max_retries task node \<ge> 0" "\<not> ae_aborted (env 1)"
  proof -
    have "nat (max_retries task node + 1) = Suc (nat (max_retries task node))" using that(3) by simp
    then show ?thesis using run that by (simp add: condition_outcome_def)
  qed
  show "length (ws_sent st') = length (ws_sent st) + nat (max_retries task node + 1)"
    if "res = Inr out" "no_state out = FAILED" "condition_outcome numStr node (ae_context (env 1)) = None"
      "\<forall>k. mappable node (ae_context (env k))" "node_retryOn node \<in> {None, Some []}"
  proof (cases "max_retries task node \<ge> 0")
    case True
    then show ?thesis using that by (intro attempts_from_exhausts [OF run [unfolded that(1)]]) auto
  next
    case False
    then show ?thesis using run by simp
  qed
qed

text \<open>C5: Executing a node: it ends in one of three states or throws; whatever happens, at most \<open>maxRetries + 1\<close> frames
  go to the worker, all for the same call (one idempotency key, one subtask, one level deeper); a node whose condition is
  false is skipped without a frame, and only such a node; a node that fails although its condition holds, its parameters can be built
  and no \<open>retry_on\<close> restricts it has had exactly \<open>maxRetries + 1\<close> attempts.\<close>

theorem node_execution_correct:
  assumes "executeNodeWithRetry numStr opts env task node key sub st = (res, st')"
  shows "(\<exists>fs. ws_sent st' = ws_sent st @ fs \<and> length fs \<le> nat (max_retries task node + 1) \<and>
       list_all (same_call task node sub key) fs) \<and>
     (\<forall>out. res = Inr out \<longrightarrow> no_state out \<in> {COMPLETED, FAILED, SKIPPED} \<and>
       (no_state out = SKIPPED \<longrightarrow> evaluateCondition numStr (wn_condition node) (ae_context (env 1)) = Inr False) \<and>
       (no_state out = FAILED \<and> condition_outcome numStr node (ae_context (env 1)) = None \<and>
        (\<forall>k. mappable node (ae_context (env k))) \<and> node_retryOn node \<in> {None, Some []} \<longrightarrow>
        length (ws_sent st') = length (ws_sent st) + nat (max_retries task node + 1))) \<and>
     (truthy (wn_condition node) \<and> evaluateCondition numStr (wn_condition node) (ae_context (env 1)) = Inr False \<and>
      max_retries task node \<ge> 0 \<and> \<not> ae_aborted (env 1) \<longrightarrow> res = Inr node_skipped \<and> st' = st)"
  using node_execution_facts [OF assms] by blast

text \<open>A small task, for examples.\<close>

definition plain_node :: "string \<Rightarrow> string list \<Rightarrow> work_node" where
  "plain_node i inputs = \<lparr>wn_id = i, wn_action = ''act'', wn_agent = ''urn:nps:agent:w'', wn_inputFrom = Some inputs, wn_inputMapping = None,
     wn_timeoutMs = None, wn_retryPolicy = None, wn_condition = None, wn_minRequired = None, wn_compensate_action = None,
     wn_compensate_params_mapping = None, wn_targetClusterAnchor = None\<rparr>"

definition plain_task :: "work_node list \<Rightarrow> (string \<times> string) list \<Rightarrow> TaskFrame" where
  "plain_task nodes es = \<lparr>tf_taskId = ''t'', tf_nodes = nodes, tf_edges = es, tf_timeoutMs = None, tf_callbackUrl = None, tf_context = None,
     tf_priority = None, tf_depth = None, tf_compensationPolicy = None, tf_maxRetries = 2, tf_callbackSecret = None, tf_preflight = False\<rparr>"

definition failing_env :: "string \<Rightarrow> attempt_env" where
  "failing_env code = \<lparr>ae_aborted = False, ae_context = [],
     ae_worker = (\<lambda>f. ([\<lparr>af_seq = 0, af_isFinal = True, af_senderNid = [], af_data = JNull, af_error = Some code\<rparr>], StreamDone)),
     ae_now = 0, ae_others = (\<lambda>r. r), ae_abortsDelay = False\<rparr>"

theorem node_execution_correct_witness:
  "let node = plain_node ''a'' []; task = plain_task [node] [];
       ex = executeNodeWithRetry (\<lambda>r. []) default_options (\<lambda>k. failing_env ''E'') task node ''key'' ''sub'' \<lparr>ws_resolver = cr_empty, ws_sent = []\<rparr> in
     fst ex = Inr (node_failed ''E'') \<and> length (ws_sent (snd ex)) = 3 \<and> list_all (same_call task node ''sub'' ''key'') (ws_sent (snd ex))"
proof -
  let ?node = "plain_node ''a'' []"
  let ?task = "plain_task [?node] []"
  let ?ex = "executeNodeWithRetry (\<lambda>r. []) default_options (\<lambda>k. failing_env ''E'') ?task ?node ''key'' ''sub'' \<lparr>ws_resolver = cr_empty, ws_sent = []\<rparr>"
  have fails: "fst ?ex = Inr (node_failed ''E'')"
    by (simp add: executeNodeWithRetry_def max_retries_def plain_task_def plain_node_def numeral_3_eq_3 failing_env_def condition_outcome_def truthy_def
        executeNodeOnce_def buildParams_def resolveTarget_def attempt_result_def outcome_defs shouldRetry_def node_retryOn_def Let_def)
  have side: "condition_outcome (\<lambda>r. []) ?node (ae_context (failing_env ''E'')) = None" "mappable ?node (ae_context (failing_env ''E''))"
    "node_retryOn ?node = None" "max_retries ?task ?node = 2"
    by (simp_all add: condition_outcome_def truthy_def plain_node_def plain_task_def mappable_def buildParams_def node_retryOn_def max_retries_def)
  note all = node_execution_correct [of "\<lambda>r. []" default_options "\<lambda>k. failing_env ''E''" ?task ?node "''key''" "''sub''"
      "\<lparr>ws_resolver = cr_empty, ws_sent = []\<rparr>" "fst ?ex" "snd ?ex", OF prod.collapse [symmetric]]
  have "length (ws_sent (snd ?ex)) = 3"
    using all [THEN conjunct2, THEN conjunct1, rule_format, OF fails] side by (simp add: node_failed_def)
  moreover have "list_all (same_call ?task ?node ''sub'' ''key'') (ws_sent (snd ?ex))"
    using all [THEN conjunct1] by auto
  ultimately show ?thesis using fails by (simp add: Let_def)
qed

lemma computeBackoffMs_capped: "computeBackoffMs (Some p) n \<le> (case rp_maxDelayMs p of None \<Rightarrow> 30000 | Some c \<Rightarrow> c)"
  by (simp add: computeBackoffMs_def Let_def)

section \<open>Compensation\<close>

lemma node_of_Some: "node_of task i = Some n \<Longrightarrow> n \<in> set (tf_nodes task) \<and> wn_id n = i"
  by (auto simp: node_of_def find_Some_iff)

lemma compensation_node_id [simp]: "wn_id (compensation_node n) = wn_id n"
  by (simp add: compensation_node_def)

definition saga_mappable :: "TaskFrame \<Rightarrow> (string, jsval) jsmap \<Rightarrow> string \<Rightarrow> bool" where
  "saga_mappable task results i = (case node_of task i of None \<Rightarrow> False | Some n \<Rightarrow> mappable (compensation_node n) results)"

lemma saga_loop_correct:
  assumes "saga_loop opts worker draw task results is k s fids st = (Inr (s', fids'), st')"
    and "\<forall>i \<in> set is. node_of task i \<noteq> None"
  shows "\<exists>fs gids. ws_sent st' = ws_sent st @ fs \<and> map df_nodeId fs = filter (saga_mappable task results) is \<and>
     list_all (\<lambda>f. \<exists>n. node_of task (df_nodeId f) = Some n \<and> df_action f = the (wn_compensate_action n)) fs \<and>
     fids' = fids @ gids \<and> subseq gids is \<and> s' + length gids = s + length is"
  using assms
proof (induction "is" arbitrary: k s fids st)
  case Nil
  then show ?case by simp
next
  case (Cons i "is")
  then obtain n where n: "node_of task i = Some n" by auto
  obtain now sub key where d: "draw k = (now, sub, key)" by (cases "draw k")
  obtain res st1 where once: "executeNodeOnce opts worker now task (compensation_node n) sub key results st = (res, st1)"
    by (metis surj_pair)
  obtain out where out: "res = Inr out" using Cons.prems(1) n d once by (cases res) auto
  let ?s = "if no_state out = COMPLETED then s + 1 else s" and ?f = "if no_state out = COMPLETED then fids else fids @ [i]"
  have "saga_loop opts worker draw task results is (Suc k) ?s ?f st1 = (Inr (s', fids'), st')"
    using Cons.prems(1) n d once out by (simp split: if_splits)
  from Cons.IH [OF this] Cons.prems(2) obtain fs gids where
    ih: "ws_sent st' = ws_sent st1 @ fs" "map df_nodeId fs = filter (saga_mappable task results) is"
    "list_all (\<lambda>f. \<exists>n. node_of task (df_nodeId f) = Some n \<and> df_action f = the (wn_compensate_action n)) fs"
    "fids' = ?f @ gids" "subseq gids is" "s' + length gids = ?s + length is" by auto
  let ?g = "if no_state out = COMPLETED then gids else i # gids"
  have g: "fids' = fids @ ?g \<and> subseq ?g (i # is) \<and> s' + length ?g = s + length (i # is)" using ih(4-6) by auto
  have idn: "wn_id n = i" using node_of_Some [OF n] by simp
  have mi: "saga_mappable task results i = mappable (compensation_node n) results" by (simp add: saga_mappable_def n)
  from once show ?case
  proof (cases rule: executeNodeOnce_sends)
    case unmapped
    then show ?thesis using ih g n by (intro exI [of _ fs] exI [of _ ?g]) (simp add: mi)
  next
    case (sent f r)
    then show ?thesis using ih g n idn
      by (intro exI [of _ "f # fs"] exI [of _ ?g]) (simp add: mi, simp add: compensation_node_def)
  qed
qed

text \<open>Under a strict policy a completed node without a compensating action stops the compensation before anything is sent.\<close>

lemma saga_refused:
  assumes "isStrict (tf_compensationPolicy task)"
    and "\<exists>i \<in> set topoOrder. js_get states i = Some COMPLETED \<and> node_of task i \<noteq> None \<and> \<not> compensable task i"
  shows "\<exists>c. runSagaCompensation opts worker draw task topoOrder results states st = (Inr c, st) \<and>
     sc_attempted c = 0 \<and> sc_failed c > 0 \<and> compensationFailureErrorCode task (Some c) = Some ''NOP-COMPENSATION-NOT-SUPPORTED''"
proof -
  have "filter (\<lambda>i. \<not> compensable task i) (saga_candidates task topoOrder states) \<noteq> []"
    using assms(2) by (auto simp: saga_candidates_def filter_empty_conv)
  then show ?thesis using assms(1)
    by (simp add: runSagaCompensation_def Let_def compensationFailureErrorCode_def)
qed

text \<open>C6: Saga compensation, unless a strict policy refuses it: every completed node that has a compensating action is attempted, and the frames that reach the worker are the compensating actions of
  exactly those whose parameters can be built, in the reverse of the topological order; every attempt is counted as a success or
  a failure, and the failures are named.\<close>

theorem saga_compensation_correct:
  assumes "runSagaCompensation opts worker draw task topoOrder results states st = (Inr c, st')"
    and "\<not> (isStrict (tf_compensationPolicy task) \<and>
       (\<exists>i \<in> set topoOrder. js_get states i = Some COMPLETED \<and> node_of task i \<noteq> None \<and> \<not> compensable task i))"
  shows "\<exists>fs. ws_sent st' = ws_sent st @ fs \<and>
     map df_nodeId fs = rev (filter (\<lambda>i. js_get states i = Some COMPLETED \<and> compensable task i \<and> saga_mappable task results i) topoOrder) \<and>
     list_all (\<lambda>f. \<exists>n. node_of task (df_nodeId f) = Some n \<and> df_action f = the (wn_compensate_action n)) fs \<and>
     sc_attempted c = length (filter (\<lambda>i. js_get states i = Some COMPLETED \<and> compensable task i) topoOrder) \<and>
     sc_succeeded c + sc_failed c = sc_attempted c \<and> length (sc_failedNodeIds c) = sc_failed c"
proof -
  let ?todo = "filter (compensable task) (saga_candidates task topoOrder states)"
  have miss: "\<not> (isStrict (tf_compensationPolicy task) \<and> filter (\<lambda>i. \<not> compensable task i) (saga_candidates task topoOrder states) \<noteq> [])"
    using assms(2) by (auto simp: saga_candidates_def filter_empty_conv)
  have todo: "?todo = rev (filter (\<lambda>i. js_get states i = Some COMPLETED \<and> compensable task i) topoOrder)"
    by (auto simp: saga_candidates_def rev_filter [symmetric] compensable_def split: option.splits intro!: arg_cong [of _ _ rev] filter_cong)
  have known: "\<forall>i \<in> set ?todo. node_of task i \<noteq> None" by (auto simp: saga_candidates_def)
  have sel: "filter (saga_mappable task results) ?todo =
      rev (filter (\<lambda>i. js_get states i = Some COMPLETED \<and> compensable task i \<and> saga_mappable task results i) topoOrder)"
    unfolding todo by (simp add: rev_filter [symmetric] conj_commute conj_left_commute)
  show ?thesis
  proof (cases "?todo = []")
    case True
    then have "st' = st" "sc_attempted c = 0" "sc_succeeded c = 0" "sc_failed c = 0" "sc_failedNodeIds c = []"
      using assms(1) miss by (auto simp: runSagaCompensation_def Let_def)
    then show ?thesis using True sel todo by simp
  next
    case False
    obtain r st1 where loop: "saga_loop opts worker draw task results ?todo 0 0 [] st = (r, st1)" by (metis surj_pair)
    then obtain s fids where r: "r = Inr (s, fids)" "st1 = st'" and c: "c = \<lparr>sc_attempted = length ?todo, sc_succeeded = s,
        sc_failed = length fids, sc_failedNodeIds = fids\<rparr>"
      using assms(1) miss False by (cases r) (auto simp: runSagaCompensation_def Let_def split: prod.splits)
    from saga_loop_correct [OF loop [unfolded r] known] obtain fs where
      "ws_sent st' = ws_sent st @ fs" "map df_nodeId fs = filter (saga_mappable task results) ?todo"
      "list_all (\<lambda>f. \<exists>n. node_of task (df_nodeId f) = Some n \<and> df_action f = the (wn_compensate_action n)) fs"
      "s + length fids = length ?todo" by auto
    then show ?thesis using sel todo c by (metis (no_types, lifting) SagaCompensationResult.select_convs length_rev)
  qed
qed

theorem saga_compensation_correct_witness:
  "let a = (plain_node ''a'' [])\<lparr>wn_compensate_action := Some ''undo''\<rparr>; b = (plain_node ''b'' [''a''])\<lparr>wn_compensate_action := Some ''undo''\<rparr>;
       task = (plain_task [a, b] [(''a'', ''b'')])\<lparr>tf_compensationPolicy := Some ''strict''\<rparr>;
       run = runSagaCompensation default_options (ae_worker (failing_env ''E'')) (\<lambda>k. (0, [], [])) task [''a'', ''b''] []
         [(''a'', COMPLETED), (''b'', COMPLETED)] \<lparr>ws_resolver = cr_empty, ws_sent = []\<rparr> in
     \<exists>c. fst run = Inr c \<and> map df_nodeId (ws_sent (snd run)) = [''b'', ''a''] \<and> sc_attempted c = 2"
proof -
  let ?a = "(plain_node ''a'' [])\<lparr>wn_compensate_action := Some ''undo''\<rparr>" and ?b = "(plain_node ''b'' [''a''])\<lparr>wn_compensate_action := Some ''undo''\<rparr>"
  let ?task = "(plain_task [?a, ?b] [(''a'', ''b'')])\<lparr>tf_compensationPolicy := Some ''strict''\<rparr>"
  define T where "T = ?task"
  let ?states = "[(''a'', COMPLETED), (''b'', COMPLETED)]"
  let ?run = "runSagaCompensation default_options (ae_worker (failing_env ''E'')) (\<lambda>k. (0, [], [])) T [''a'', ''b''] [] ?states
    \<lparr>ws_resolver = cr_empty, ws_sent = []\<rparr>"
  have nodes: "node_of T ''a'' = Some ?a" "node_of T ''b'' = Some ?b" by (simp_all add: T_def node_of_def plain_task_def plain_node_def)
  have comp: "compensable T ''a''" "compensable T ''b''" unfolding compensable_def nodes by (simp_all add: truthy_def)
  have mapped: "saga_mappable T [] ''a''" "saga_mappable T [] ''b''" unfolding saga_mappable_def nodes
    by (simp_all add: mappable_def compensation_node_def plain_node_def buildParams_def)
  have "\<exists>c. fst ?run = Inr c"
    by (simp add: T_def runSagaCompensation_def saga_candidates_def compensable_def node_of_def plain_task_def plain_node_def js_get_def truthy_def isStrict_def
        executeNodeOnce_def buildParams_def resolveTarget_def attempt_result_def failing_env_def outcome_defs compensation_node_def Let_def)
  then obtain c where c: "fst ?run = Inr c" by blast
  then have run: "?run = (Inr c, snd ?run)" by (metis prod.collapse)
  have strict: "\<not> (isStrict (tf_compensationPolicy T) \<and>
       (\<exists>i \<in> set [''a'', ''b'']. js_get ?states i = Some COMPLETED \<and> node_of T i \<noteq> None \<and> \<not> compensable T i))"
    using comp by simp
  have sel: "filter (\<lambda>i. js_get ?states i = Some COMPLETED \<and> compensable T i \<and> saga_mappable T [] i) [''a'', ''b''] = [''a'', ''b'']"
    "filter (\<lambda>i. js_get ?states i = Some COMPLETED \<and> compensable T i) [''a'', ''b''] = [''a'', ''b'']"
    using comp mapped by (simp_all add: js_get_def)
  from saga_compensation_correct [OF run strict, unfolded sel] obtain fs where
    fs: "ws_sent (snd ?run) = ws_sent \<lparr>ws_resolver = cr_empty, ws_sent = []\<rparr> @ fs" "map df_nodeId fs = rev [''a'', ''b'']"
    "sc_attempted c = length [''a'', ''b'']" by blast
  have "map df_nodeId (ws_sent (snd ?run)) = [''b'', ''a'']" unfolding fs(1) using fs(2) by simp
  moreover have "sc_attempted c = 2" using fs(3) by simp
  ultimately have "map df_nodeId (ws_sent (snd ?run)) = [''b'', ''a''] \<and> sc_attempted c = 2" ..
  with c have "fst ?run = Inr c \<and> map df_nodeId (ws_sent (snd ?run)) = [''b'', ''a''] \<and> sc_attempted c = 2" ..
  then show ?thesis unfolding Let_def T_def by (rule exI)
qed

end
