(* ===== verification/NopScheduler.thy ===== *)
theory NopScheduler
  imports NopWorker NopDag Contracts
begin

text \<open>
  The DAG runner: the loop of \<open>_runDag\<close> in \<open>nop/orchestrator.ts\<close> with its K-of-N helpers
  (\<open>_areDepsDone\<close>, \<open>_canEndNodeStillSucceed\<close>, \<open>_canReachEndNode\<close>).

  The loop awaits whichever node in flight settles first. The order in which they settle is the
  environment's: a run is a list of events (a node settles with an outcome, its promise rejects, the task's
  signal fires), and the state between two events is the state at the \<open>await\<close>. The field
  \<open>sc_launched\<close> records the calls of \<open>_executeNodeWithRetry\<close> in their order; the outcome a node settles with is that of
  \<open>executeNodeWithRetry\<close> in \<open>NopWorker\<close>, and the theorems here hold for all outcomes.

  Proved, for every order of events: no node runs twice, at most \<open>maxConcurrentNodes\<close> run at once, a node
  runs only after K of its inputs have succeeded, a settled node keeps its state; the loop ends after
  at most as many completions as there are nodes; if no node fails, every node runs and the task
  completes. A failure two levels above the end node, on the other hand, is reported as success.
\<close>

section \<open>K of N\<close>

definition inputs_of :: "work_node \<Rightarrow> string list" where
  "inputs_of n = (case wn_inputFrom n of None \<Rightarrow> [] | Some us \<Rightarrow> us)"

definition required_k :: "work_node \<Rightarrow> int" where
  "required_k n = (if (case wn_minRequired n of None \<Rightarrow> 0 | Some k \<Rightarrow> k) > 0 then the (wn_minRequired n) else int (length (inputs_of n)))"

definition succeeded :: "(string, TaskState) jsmap \<Rightarrow> string \<Rightarrow> bool" where
  "succeeded states d = (js_get states d \<in> {Some COMPLETED, Some SKIPPED})"

definition success_count :: "work_node \<Rightarrow> (string, TaskState) jsmap \<Rightarrow> nat" where
  "success_count n states = length (filter (succeeded states) (inputs_of n))"

definition failed_count :: "work_node \<Rightarrow> (string, TaskState) jsmap \<Rightarrow> nat" where
  "failed_count n states = length (filter (\<lambda>d. js_get states d = Some FAILED) (inputs_of n))"

definition areDepsDone :: "work_node \<Rightarrow> (string, TaskState) jsmap \<Rightarrow> bool" where
  "areDepsDone n states =
     (if inputs_of n = [] then True
      else if int (success_count n states) \<ge> required_k n then True
      else if int (length (inputs_of n)) - int (failed_count n states) < required_k n then True
      else False)"

definition canEndNodeStillSucceed :: "work_node \<Rightarrow> (string, TaskState) jsmap \<Rightarrow> bool" where
  "canEndNodeStillSucceed n states =
     (if inputs_of n = [] then False
      else int (length (inputs_of n)) - int (failed_count n states) \<ge> required_k n)"

text \<open>The breadth-first search of \<open>_canReachEndNode\<close>: the nodes seen and the queue.\<close>

definition out_edges :: "(string \<times> string) list \<Rightarrow> string \<Rightarrow> string list" where
  "out_edges es u = map snd (filter (\<lambda>e. fst e = u) es)"

function reach_loop :: "(string \<times> string) list \<Rightarrow> string \<Rightarrow> string list \<Rightarrow> string list \<Rightarrow> bool" where
  "reach_loop es target seen [] = False"
| "reach_loop es target seen (cur # queue) =
     (if cur = target then True
      else if cur \<in> set seen then reach_loop es target seen queue
      else reach_loop es target (cur # seen) (queue @ out_edges es cur))"
  by pat_completeness auto
termination reach_loop
proof (relation "measures [\<lambda>(es, target, seen, queue). card (fst ` set es - set seen), \<lambda>(es, target, seen, queue). length queue]", goal_cases)
  case (3 es target seen cur queue)
  show ?case
  proof (cases "cur \<in> fst ` set es")
    case True
    then have "card (fst ` set es - set (cur # seen)) < card (fst ` set es - set seen)"
      using 3 by (intro psubset_card_mono) auto
    then show ?thesis by simp
  next
    case False
    then have "out_edges es cur = []" by (auto simp: out_edges_def filter_empty_conv)
    moreover have "fst ` set es - set (cur # seen) = fst ` set es - set seen" using False by auto
    ultimately show ?thesis by simp
  qed
qed auto

definition canReachEndNode :: "string \<Rightarrow> string \<Rightarrow> (string \<times> string) list \<Rightarrow> bool" where
  "canReachEndNode endNodeId fromNodeId es = reach_loop es endNodeId [] [fromNodeId]"

section \<open>The loop\<close>

record NodeResult =
  nr_ok :: bool
  nr_output :: "jsval option"
  nr_error :: "string option"
  nr_skipped :: bool

record sched =
  ds_states :: "(string, TaskState) jsmap"
  ds_inFlight :: "string list"
  ds_results :: "(string, jsval) jsmap"
  ds_record :: "(string, NodeResult) jsmap"
  ds_aborted :: bool
  ds_launched :: "string list"

definition sched_start :: "bool \<Rightarrow> sched" where
  "sched_start aborted = \<lparr>ds_states = [], ds_inFlight = [], ds_results = [], ds_record = [], ds_aborted = aborted, ds_launched = []\<rparr>"

datatype dag_phase =
    Awaiting sched
  | LoopEnded sched
  | MustAbort sched string NodeOutcome
  | Thrown sched node_throw

fun phase_sched :: "dag_phase \<Rightarrow> sched" where
  "phase_sched (Awaiting s) = s"
| "phase_sched (LoopEnded s) = s"
| "phase_sched (MustAbort s i out) = s"
| "phase_sched (Thrown s e) = s"

datatype dag_event = Settles string NodeOutcome | Rejects string node_throw | SignalAborts

definition endNodeIds :: "TaskFrame \<Rightarrow> string list" where
  "endNodeIds task = filter (\<lambda>i. i \<notin> fst ` set (tf_edges task)) (map wn_id (tf_nodes task))"

definition ready_nodes :: "TaskFrame \<Rightarrow> sched \<Rightarrow> work_node list" where
  "ready_nodes task s = filter (\<lambda>n. \<not> js_has (ds_states s) (wn_id n) \<and> wn_id n \<notin> set (ds_inFlight s) \<and> areDepsDone n (ds_states s))
     (tf_nodes task)"

definition infeasible :: "work_node \<Rightarrow> (string, TaskState) jsmap \<Rightarrow> bool" where
  "infeasible n states = (inputs_of n \<noteq> [] \<and> int (success_count n states) < required_k n)"

definition fail_infeasible :: "sched \<Rightarrow> string \<Rightarrow> sched" where
  "fail_infeasible s i = s\<lparr>ds_states := js_set (ds_states s) i FAILED,
     ds_record := js_set (ds_record s) i \<lparr>nr_ok = False, nr_output = None, nr_error = Some ''NOP-SYNC-DEPENDENCY-FAILED'', nr_skipped = False\<rparr>\<rparr>"

text \<open>The pass over a copy of the ready nodes: it fails those that can never have K inputs and takes them off the list.\<close>

fun feasibility :: "work_node list \<Rightarrow> sched \<Rightarrow> work_node list \<times> sched" where
  "feasibility [] s = ([], s)"
| "feasibility (n # ns) s =
     (if infeasible n (ds_states s) then feasibility ns (fail_infeasible s (wn_id n))
      else let (keep, s') = feasibility ns s in (n # keep, s'))"

fun launch :: "int \<Rightarrow> work_node list \<Rightarrow> sched \<Rightarrow> sched" where
  "launch limit [] s = s"
| "launch limit (n # ns) s =
     (if int (length (ds_inFlight s)) \<ge> limit then s
      else launch limit ns (s\<lparr>ds_inFlight := ds_inFlight s @ [wn_id n], ds_launched := ds_launched s @ [wn_id n]\<rparr>))"

text \<open>From the head of the loop to the next \<open>await\<close>.\<close>

definition loop_top :: "NopOrchestratorOptions \<Rightarrow> TaskFrame \<Rightarrow> sched \<Rightarrow> dag_phase" where
  "loop_top opts task s =
     (if \<not> js_size (ds_states s) < length (tf_nodes task) then LoopEnded s
      else if ds_aborted s then Thrown s AbortError
      else let (ready, s1) = feasibility (ready_nodes task s) s;
               s2 = launch (oo_maxConcurrentNodes opts) ready s1 in
        if ds_inFlight s2 = [] then LoopEnded s2 else Awaiting s2)"

definition node_result :: "NodeOutcome \<Rightarrow> NodeResult" where
  "node_result out =
     (if no_state out = COMPLETED then \<lparr>nr_ok = True, nr_output = no_result out, nr_error = None, nr_skipped = False\<rparr>
      else if no_state out = SKIPPED then \<lparr>nr_ok = True, nr_output = None, nr_error = None, nr_skipped = True\<rparr>
      else \<lparr>nr_ok = False, nr_output = None,
            nr_error = Some (case no_errorCode out of None \<Rightarrow> ''NOP-DELEGATE-TIMEOUT'' | Some c \<Rightarrow> c), nr_skipped = False\<rparr>)"

definition settle :: "string \<Rightarrow> NodeOutcome \<Rightarrow> sched \<Rightarrow> sched" where
  "settle i out s = s\<lparr>ds_inFlight := filter (\<lambda>j. j \<noteq> i) (ds_inFlight s),
     ds_states := js_set (ds_states s) i (no_state out),
     ds_results := (if no_state out = COMPLETED
       then js_set (ds_results s) i (case no_result out of None \<Rightarrow> JNull | Some v \<Rightarrow> v) else ds_results s),
     ds_record := js_set (ds_record s) i (node_result out)\<rparr>"

definition must_abort :: "TaskFrame \<Rightarrow> string \<Rightarrow> (string, TaskState) jsmap \<Rightarrow> bool" where
  "must_abort task i states = list_ex (\<lambda>e. canReachEndNode e i (tf_edges task) \<and>
     \<not> (case node_of task e of None \<Rightarrow> False | Some n \<Rightarrow> canEndNodeStillSucceed n states)) (endNodeIds task)"

fun dag_step :: "NopOrchestratorOptions \<Rightarrow> TaskFrame \<Rightarrow> dag_phase \<Rightarrow> dag_event \<Rightarrow> dag_phase" where
  "dag_step opts task (Awaiting s) (Settles i out) =
     (if i \<in> set (ds_inFlight s)
      then let s' = settle i out s in
        if no_state out = FAILED \<and> must_abort task i (ds_states s') then MustAbort s' i out
        else loop_top opts task s'
      else Awaiting s)"
| "dag_step opts task (Awaiting s) (Rejects i err) = (if i \<in> set (ds_inFlight s) then Thrown s err else Awaiting s)"
| "dag_step opts task (Awaiting s) SignalAborts = Awaiting (s\<lparr>ds_aborted := True\<rparr>)"
| "dag_step opts task p e = p"

definition run_loop :: "NopOrchestratorOptions \<Rightarrow> TaskFrame \<Rightarrow> bool \<Rightarrow> dag_event list \<Rightarrow> dag_phase" where
  "run_loop opts task aborted es = run (dag_step opts task) (loop_top opts task (sched_start aborted)) es"

section \<open>Reachability of end nodes\<close>

lemma out_edges_iff: "v \<in> set (out_edges es u) \<longleftrightarrow> (u, v) \<in> set es"
  by (force simp: out_edges_def)

lemma reach_loop_iff:
  assumes "\<forall>u v. u \<in> set seen \<and> (u, v) \<in> set es \<longrightarrow> v \<in> set seen \<union> set queue" "target \<notin> set seen"
  shows "reach_loop es target seen queue \<longleftrightarrow> (\<exists>u \<in> set queue. (u, target) \<in> (set es)\<^sup>*)"
  using assms
proof (induction es target seen queue rule: reach_loop.induct)
  case (1 es target seen)
  then show ?case by simp
next
  case (2 es target seen cur queue)
  have stay: "(u, target) \<notin> (set es)\<^sup>*" if u: "u \<in> set seen" and cur: "cur \<in> set seen" and no: "\<not> (\<exists>w \<in> set queue. (w, target) \<in> (set es)\<^sup>*)" for u
  proof
    assume "(u, target) \<in> (set es)\<^sup>*"
    then have "u \<in> set seen \<longrightarrow> False"
    proof (induction rule: converse_rtrancl_induct)
      case base
      then show ?case using "2.prems"(2) by simp
    next
      case (step y z)
      then show ?case using "2.prems"(1) no cur by (metis Un_iff set_ConsD)
    qed
    with u show False by simp
  qed
  show ?case
  proof (cases "cur = target")
    case True
    then show ?thesis by auto
  next
    case ne: False
    show ?thesis
    proof (cases "cur \<in> set seen")
      case True
      have "reach_loop es target seen queue \<longleftrightarrow> (\<exists>u \<in> set queue. (u, target) \<in> (set es)\<^sup>*)"
        using "2.prems" True by (intro "2.IH"(1) [OF ne True]) auto
      then show ?thesis using ne True stay [OF True True] by auto
    next
      case False
      have "reach_loop es target (cur # seen) (queue @ out_edges es cur) \<longleftrightarrow>
          (\<exists>u \<in> set (queue @ out_edges es cur). (u, target) \<in> (set es)\<^sup>*)"
        using "2.prems" ne by (intro "2.IH"(2) [OF ne False]) (auto simp: out_edges_iff)
      moreover have "(cur, target) \<in> (set es)\<^sup>* \<longleftrightarrow> (\<exists>u \<in> set (out_edges es cur). (u, target) \<in> (set es)\<^sup>*)"
        using ne by (metis converse_rtranclE converse_rtrancl_into_rtrancl out_edges_iff)
      ultimately show ?thesis using ne False by auto
    qed
  qed
qed

lemma canReachEndNode_iff: "canReachEndNode e i es \<longleftrightarrow> (i, e) \<in> (set es)\<^sup>*"
  unfolding canReachEndNode_def by (subst reach_loop_iff) simp_all

section \<open>Invariants of the loop\<close>

definition enough_inputs :: "TaskFrame \<Rightarrow> (string, TaskState) jsmap \<Rightarrow> string \<Rightarrow> bool" where
  "enough_inputs task states i = (case node_of task i of None \<Rightarrow> False
     | Some n \<Rightarrow> inputs_of n = [] \<or> required_k n \<le> int (success_count n states))"

definition sched_inv :: "TaskFrame \<Rightarrow> int \<Rightarrow> sched \<Rightarrow> bool" where
  "sched_inv task limit s \<longleftrightarrow> js_wf (ds_states s) \<and> distinct (ds_launched s) \<and> distinct (ds_inFlight s) \<and>
     int (length (ds_inFlight s)) \<le> max 0 limit \<and> set (ds_inFlight s) \<subseteq> set (ds_launched s) \<and>
     set (ds_launched s) \<subseteq> set (ds_inFlight s) \<union> set (js_keys (ds_states s)) \<and>
     set (ds_inFlight s) \<inter> set (js_keys (ds_states s)) = {} \<and>
     set (js_keys (ds_states s)) \<union> set (ds_inFlight s) \<subseteq> set (map wn_id (tf_nodes task)) \<and>
     (\<forall>i. js_has (ds_states s) i \<and> i \<notin> set (ds_launched s) \<longrightarrow> js_get (ds_states s) i = Some FAILED) \<and>
     (\<forall>i \<in> set (ds_launched s). enough_inputs task (ds_states s) i)"

lemma sched_start_inv [simp, intro]: "sched_inv task limit (sched_start a)"
  by (simp add: sched_inv_def sched_start_def js_keys_def js_has_def)

lemma success_count_mono:
  assumes "\<And>d. succeeded st d \<Longrightarrow> succeeded st' d"
  shows "success_count n st \<le> success_count n st'"
proof -
  have "length (filter (succeeded st) ds) \<le> length (filter (succeeded st') ds)" for ds
    by (induction ds) (use assms in auto)
  then show ?thesis by (simp add: success_count_def)
qed

lemma enough_inputs_mono:
  "enough_inputs task st i \<Longrightarrow> (\<And>d. succeeded st d \<Longrightarrow> succeeded st' d) \<Longrightarrow> enough_inputs task st' i"
  unfolding enough_inputs_def using success_count_mono [of st st'] by (auto split: option.splits) (meson of_nat_mono order_trans)

lemma succeeded_set_fresh: "\<not> js_has st i \<Longrightarrow> succeeded st d \<Longrightarrow> succeeded (js_set st i v) d"
  by (auto simp: succeeded_def js_get_set js_has_get)

lemma js_keys_set_set: "set (js_keys (js_set m k v)) = insert k (set (js_keys m))"
  by (auto simp: js_keys_set js_has_iff)

lemma fail_infeasible_inv:
  assumes "sched_inv task limit s" "\<not> js_has (ds_states s) i" "i \<notin> set (ds_inFlight s)" "i \<in> set (map wn_id (tf_nodes task))"
  shows "sched_inv task limit (fail_infeasible s i)"
proof -
  have "i \<notin> set (ds_launched s)" using assms by (auto simp: sched_inv_def js_has_iff)
  moreover have "enough_inputs task (js_set (ds_states s) i FAILED) j" if "enough_inputs task (ds_states s) j" for j
    using that succeeded_set_fresh [OF assms(2)] by (rule enough_inputs_mono)
  ultimately show ?thesis using assms
    by (auto simp: sched_inv_def fail_infeasible_def js_keys_set_set js_has_iff [symmetric] js_has_get js_get_set)
qed

lemma node_of_self:
  assumes "distinct (map wn_id (tf_nodes task))" "n \<in> set (tf_nodes task)"
  shows "node_of task (wn_id n) = Some n"
proof -
  have "\<exists>m. node_of task (wn_id n) = Some m"
    using assms(2) by (cases "node_of task (wn_id n)") (auto simp: node_of_def find_None_iff)
  then show ?thesis using assms by (metis inj_on_contraD distinct_map node_of_Some)
qed

lemma launch_node_inv:
  assumes "sched_inv task limit s" "node_of task (wn_id n) = Some n" "\<not> js_has (ds_states s) (wn_id n)" "wn_id n \<notin> set (ds_inFlight s)"
    "\<not> infeasible n (ds_states s)" "int (length (ds_inFlight s)) < limit"
  shows "sched_inv task limit (s\<lparr>ds_inFlight := ds_inFlight s @ [wn_id n], ds_launched := ds_launched s @ [wn_id n]\<rparr>)"
proof -
  have "wn_id n \<notin> set (ds_launched s)" using assms(1,3,4) by (auto simp: sched_inv_def js_has_iff)
  moreover have "wn_id n \<in> set (map wn_id (tf_nodes task))" using node_of_Some [OF assms(2)] by auto
  moreover have "enough_inputs task (ds_states s) (wn_id n)" using assms(2,5) by (auto simp: enough_inputs_def infeasible_def)
  ultimately show ?thesis using assms by (auto simp: sched_inv_def js_has_iff)
qed

text \<open>The feasibility pass in closed form: failing a node without a state does not change what is feasible.\<close>

lemma infeasible_fail [simp]:
  assumes "\<not> js_has (ds_states s) i"
  shows "infeasible n (ds_states (fail_infeasible s i)) = infeasible n (ds_states s)"
proof -
  have "succeeded (js_set (ds_states s) i FAILED) = succeeded (ds_states s)"
    using assms by (auto simp: succeeded_def js_get_set js_has_get fun_eq_iff)
  then show ?thesis by (simp add: infeasible_def fail_infeasible_def success_count_def)
qed

lemma has_fail [simp]: "js_has (ds_states (fail_infeasible s i)) j \<longleftrightarrow> j = i \<or> js_has (ds_states s) j"
  by (auto simp: fail_infeasible_def js_has_get js_get_set)

lemma feasibility_eq:
  assumes "distinct (map wn_id ns)" "\<forall>n \<in> set ns. \<not> js_has (ds_states s) (wn_id n)"
  shows "feasibility ns s = (filter (\<lambda>n. \<not> infeasible n (ds_states s)) ns,
     foldl fail_infeasible s (map wn_id (filter (\<lambda>n. infeasible n (ds_states s)) ns)))"
  using assms
proof (induction ns arbitrary: s)
  case Nil
  then show ?case by simp
next
  case (Cons n ns)
  show ?case
  proof (cases "infeasible n (ds_states s)")
    case True
    have "\<forall>m \<in> set ns. \<not> js_has (ds_states (fail_infeasible s (wn_id n))) (wn_id m)"
      using Cons.prems by (auto simp: image_iff)
    with Cons.IH [of "fail_infeasible s (wn_id n)"] Cons.prems True show ?thesis by simp
  next
    case False
    with Cons.IH [of s] Cons.prems show ?thesis by simp
  qed
qed

lemma foldl_fail_frame [simp]:
  "ds_inFlight (foldl fail_infeasible s is) = ds_inFlight s" "ds_launched (foldl fail_infeasible s is) = ds_launched s"
  "ds_aborted (foldl fail_infeasible s is) = ds_aborted s" "ds_results (foldl fail_infeasible s is) = ds_results s"
  by (induction "is" arbitrary: s) (simp_all add: fail_infeasible_def)

lemma foldl_fail_get:
  "js_get (ds_states (foldl fail_infeasible s is)) j = (if j \<in> set is then Some FAILED else js_get (ds_states s) j)"
  by (induction "is" arbitrary: s) (auto simp: fail_infeasible_def js_get_set)

lemma foldl_fail_inv:
  assumes "sched_inv task limit s" "distinct is" "\<forall>i \<in> set is. \<not> js_has (ds_states s) i \<and> i \<notin> set (ds_inFlight s)"
    "set is \<subseteq> set (map wn_id (tf_nodes task))"
  shows "sched_inv task limit (foldl fail_infeasible s is)"
  using assms
proof (induction "is" arbitrary: s)
  case (Cons i "is")
  have "sched_inv task limit (fail_infeasible s i)" using Cons.prems by (intro fail_infeasible_inv) auto
  moreover have "ds_inFlight (fail_infeasible s i) = ds_inFlight s" by (simp add: fail_infeasible_def)
  ultimately show ?case using Cons.IH [of "fail_infeasible s i"] Cons.prems by auto
qed simp

lemma launch_inv:
  assumes "sched_inv task limit s" "distinct (map wn_id ns)" "\<forall>n \<in> set ns. node_of task (wn_id n) = Some n \<and>
     \<not> js_has (ds_states s) (wn_id n) \<and> wn_id n \<notin> set (ds_inFlight s) \<and> \<not> infeasible n (ds_states s)"
  shows "sched_inv task limit (launch limit ns s)"
  using assms
proof (induction limit ns s rule: launch.induct)
  case (2 limit n ns s)
  show ?case
  proof (cases "int (length (ds_inFlight s)) \<ge> limit")
    case True
    then show ?thesis using "2.prems" by simp
  next
    case False
    have "sched_inv task limit (s\<lparr>ds_inFlight := ds_inFlight s @ [wn_id n], ds_launched := ds_launched s @ [wn_id n]\<rparr>)"
      using "2.prems" False by (intro launch_node_inv) auto
    moreover have "\<forall>m \<in> set ns. wn_id m \<noteq> wn_id n" using "2.prems"(2) by (auto simp: image_iff)
    ultimately show ?thesis using "2.IH" [OF False] "2.prems" False by simp
  qed
qed simp

lemma ready_nodes_props:
  assumes "distinct (map wn_id (tf_nodes task))"
  shows "distinct (map wn_id (ready_nodes task s))"
    and "n \<in> set (ready_nodes task s) \<Longrightarrow> node_of task (wn_id n) = Some n \<and> \<not> js_has (ds_states s) (wn_id n) \<and>
       wn_id n \<notin> set (ds_inFlight s) \<and> wn_id n \<in> set (map wn_id (tf_nodes task))"
  using assms node_of_self [OF assms, of n]
  by (auto simp: ready_nodes_def distinct_map_filter)

text \<open>The state at the next \<open>await\<close>, or where the loop ends.\<close>

definition advance :: "NopOrchestratorOptions \<Rightarrow> TaskFrame \<Rightarrow> sched \<Rightarrow> sched" where
  "advance opts task s = launch (oo_maxConcurrentNodes opts) (filter (\<lambda>n. \<not> infeasible n (ds_states s)) (ready_nodes task s))
     (foldl fail_infeasible s (map wn_id (filter (\<lambda>n. infeasible n (ds_states s)) (ready_nodes task s))))"

lemma loop_top_eq:
  assumes "distinct (map wn_id (tf_nodes task))"
  shows "loop_top opts task s =
     (if \<not> js_size (ds_states s) < length (tf_nodes task) then LoopEnded s else if ds_aborted s then Thrown s AbortError
      else if ds_inFlight (advance opts task s) = [] then LoopEnded (advance opts task s) else Awaiting (advance opts task s))"
  using feasibility_eq [of "ready_nodes task s" s] ready_nodes_props [OF assms, where s = s]
  by (simp add: loop_top_def advance_def Let_def)

lemma advance_inv:
  assumes dist: "distinct (map wn_id (tf_nodes task))" and inv: "sched_inv task (oo_maxConcurrentNodes opts) s"
  shows "sched_inv task (oo_maxConcurrentNodes opts) (advance opts task s)"
proof -
  let ?bad = "filter (\<lambda>n. infeasible n (ds_states s)) (ready_nodes task s)"
  let ?s1 = "foldl fail_infeasible s (map wn_id ?bad)"
  note rd = ready_nodes_props [OF dist, where s = s]
  have s1: "sched_inv task (oo_maxConcurrentNodes opts) ?s1"
    using rd by (intro foldl_fail_inv [OF inv]) (auto simp: distinct_map_filter)
  have same: "succeeded (ds_states ?s1) d = succeeded (ds_states s) d" for d
    using rd(2) by (auto simp: succeeded_def foldl_fail_get js_has_get)
  have inf: "infeasible n (ds_states ?s1) = infeasible n (ds_states s)" for n
    using same by (simp add: infeasible_def success_count_def cong: filter_cong)
  have has: "\<not> js_has (ds_states ?s1) (wn_id n)" if n: "n \<in> set (ready_nodes task s)" "\<not> infeasible n (ds_states s)" for n
  proof -
    have "wn_id n \<notin> set (map wn_id ?bad)"
      using n rd(2) by (auto simp: image_iff) (metis option.inject)
    then show ?thesis using rd(2) [OF n(1)] by (simp add: js_has_get foldl_fail_get)
  qed
  show ?thesis unfolding advance_def
    using rd has inf by (intro launch_inv s1) (auto simp: distinct_map_filter)
qed

lemma settle_inv:
  assumes "sched_inv task limit s" "i \<in> set (ds_inFlight s)"
  shows "sched_inv task limit (settle i out s)"
proof -
  have fresh: "\<not> js_has (ds_states s) i" and l: "i \<in> set (ds_launched s)" "i \<in> set (map wn_id (tf_nodes task))"
    using assms by (auto simp: sched_inv_def js_has_iff)
  have "length (filter (\<lambda>j. j \<noteq> i) (ds_inFlight s)) \<le> length (ds_inFlight s)" by simp
  then have len: "int (length (filter (\<lambda>j. j \<noteq> i) (ds_inFlight s))) \<le> max 0 limit" using assms(1) unfolding sched_inv_def by linarith
  have "enough_inputs task (js_set (ds_states s) i v) j" if "enough_inputs task (ds_states s) j" for j v
    using that succeeded_set_fresh [OF fresh] by (rule enough_inputs_mono)
  then show ?thesis using assms fresh l len
    by (auto simp: sched_inv_def settle_def js_keys_set_set js_has_get js_get_set)
qed

lemma loop_top_inv:
  assumes "distinct (map wn_id (tf_nodes task))" "sched_inv task (oo_maxConcurrentNodes opts) s"
  shows "sched_inv task (oo_maxConcurrentNodes opts) (phase_sched (loop_top opts task s))"
  using advance_inv [OF assms] assms(2) by (simp add: loop_top_eq [OF assms(1)])

lemma sched_inv_aborted [simp]: "sched_inv task limit (s\<lparr>ds_aborted := a\<rparr>) = sched_inv task limit s"
  by (simp add: sched_inv_def)

lemma dag_step_inv:
  assumes "distinct (map wn_id (tf_nodes task))" "sched_inv task (oo_maxConcurrentNodes opts) (phase_sched p)"
  shows "sched_inv task (oo_maxConcurrentNodes opts) (phase_sched (dag_step opts task p e))"
  using assms loop_top_inv [OF assms(1)] by (induction opts task p e rule: dag_step.induct) (auto simp: Let_def settle_inv)

lemma launch_frame [simp]:
  "ds_states (launch limit ns s) = ds_states s" "ds_results (launch limit ns s) = ds_results s"
  "ds_aborted (launch limit ns s) = ds_aborted s"
  by (induction limit ns s rule: launch.induct) simp_all

lemma advance_get:
  assumes "distinct (map wn_id (tf_nodes task))"
  shows "js_get (ds_states (advance opts task s)) i = (case js_get (ds_states s) i of Some x \<Rightarrow> Some x
     | None \<Rightarrow> if \<exists>n \<in> set (ready_nodes task s). wn_id n = i \<and> infeasible n (ds_states s) then Some FAILED else None)"
  using ready_nodes_props(2) [OF assms, where s = s]
  by (auto simp: advance_def foldl_fail_get image_iff js_has_get split: option.splits)

lemma loop_top_final:
  assumes "distinct (map wn_id (tf_nodes task))" "js_get (ds_states s) i = Some x"
  shows "js_get (ds_states (phase_sched (loop_top opts task s))) i = Some x"
  using assms by (simp add: loop_top_eq advance_get)

interpretation dag_loop: final_machine "dag_step opts task"
  "\<lambda>p. distinct (map wn_id (tf_nodes task)) \<and> sched_inv task (oo_maxConcurrentNodes opts) (phase_sched p)"
  "\<lambda>p. js_get (ds_states (phase_sched p))" for opts task
proof (unfold_locales, goal_cases)
  case (1 p e)
  then show ?case by (simp add: dag_step_inv)
next
  case (2 p i x e)
  have "i' \<in> set (ds_inFlight s) \<Longrightarrow> p = Awaiting s \<Longrightarrow> js_get (ds_states (settle i' out s)) i = Some x" for i' s out
    using 2 by (auto simp: settle_def sched_inv_def js_get_set js_has_iff [symmetric] js_has_get)
  with 2 show ?case
    by (cases p; cases e) (auto simp: Let_def loop_top_final)
qed

text \<open>C2: Every order in which nodes settle, promises reject and the signal fires is safe: no node is started twice, at most
  \<open>maxConcurrentNodes\<close> are in flight, a node is started only once K of its inputs have completed or been skipped,
  a node without enough inputs is never started, and a state once given to a node stays.\<close>

theorem schedule_safe:
  assumes "distinct (map wn_id (tf_nodes task))"
  shows "let s = phase_sched (run_loop opts task aborted es) in
     distinct (ds_launched s) \<and> int (length (ds_inFlight s)) \<le> max 0 (oo_maxConcurrentNodes opts) \<and>
     list_all (\<lambda>i. \<exists>n. node_of task i = Some n \<and> (inputs_of n = [] \<or> required_k n \<le> int (success_count n (ds_states s)))) (ds_launched s) \<and>
     (\<forall>i. succeeded (ds_states s) i \<longrightarrow> i \<in> set (ds_launched s)) \<and>
     (\<forall>i x fs. js_get (ds_states s) i = Some x \<longrightarrow> js_get (ds_states (phase_sched (run_loop opts task aborted (es @ fs)))) i = Some x)"
proof -
  let ?p = "loop_top opts task (sched_start aborted)" and ?s = "phase_sched (run_loop opts task aborted es)"
  have start: "distinct (map wn_id (tf_nodes task)) \<and> sched_inv task (oo_maxConcurrentNodes opts) (phase_sched ?p)"
    using assms loop_top_inv [OF assms sched_start_inv] by simp
  note reach = dag_loop.run_inv [OF start, of es, folded run_loop_def]
  have inv: "sched_inv task (oo_maxConcurrentNodes opts) ?s" using reach by simp
  have "i \<in> set (ds_launched ?s)" if "succeeded (ds_states ?s) i" for i
    using inv that by (auto simp: sched_inv_def succeeded_def js_has_get)
  moreover have "js_get (ds_states (phase_sched (run_loop opts task aborted (es @ fs)))) i = Some x"
    if "js_get (ds_states ?s) i = Some x" for i x fs
    using dag_loop.run_outcome [OF reach that, of fs] by (simp add: run_loop_def)
  moreover have "\<exists>n. node_of task i = Some n \<and> (inputs_of n = [] \<or> required_k n \<le> int (success_count n (ds_states ?s)))"
    if "i \<in> set (ds_launched ?s)" for i
    using inv that by (auto simp: sched_inv_def enough_inputs_def split: option.splits)
  ultimately show ?thesis using inv by (simp add: Let_def sched_inv_def list_all_iff)
qed

section \<open>Termination\<close>

text \<open>The environment as a strategy: at every \<open>await\<close> it settles some node in flight. \<open>drive\<close> runs the loop for at most \<open>k\<close>
  completions.\<close>

primrec drive :: "NopOrchestratorOptions \<Rightarrow> TaskFrame \<Rightarrow> (sched \<Rightarrow> string \<times> NodeOutcome) \<Rightarrow> nat \<Rightarrow> dag_phase \<Rightarrow> dag_phase" where
  "drive opts task pick 0 p = p"
| "drive opts task pick (Suc k) p = (case p of
     Awaiting s \<Rightarrow> drive opts task pick k (dag_step opts task p (Settles (fst (pick s)) (snd (pick s))))
   | _ \<Rightarrow> p)"

definition settles_flight :: "(sched \<Rightarrow> string \<times> NodeOutcome) \<Rightarrow> bool" where
  "settles_flight pick \<longleftrightarrow> (\<forall>s. ds_inFlight s \<noteq> [] \<longrightarrow> fst (pick s) \<in> set (ds_inFlight s))"

definition is_awaiting :: "dag_phase \<Rightarrow> bool" where
  "is_awaiting p = (case p of Awaiting s \<Rightarrow> True | _ \<Rightarrow> False)"

lemma js_size_mono:
  assumes "js_wf m" "js_wf m'" "set (js_keys m) \<subseteq> set (js_keys m')"
  shows "js_size m \<le> js_size m'"
  using card_mono [OF _ assms(3)] assms(1,2) distinct_card [of "js_keys m"] distinct_card [of "js_keys m'"]
  by (simp add: js_wf_def js_keys_def js_size_def)

lemma keys_le: "sched_inv task limit s \<Longrightarrow> js_size (ds_states s) \<le> length (tf_nodes task)"
proof -
  assume inv: "sched_inv task limit s"
  then have "card (set (js_keys (ds_states s))) \<le> card (set (map wn_id (tf_nodes task)))"
    by (intro card_mono) (auto simp: sched_inv_def)
  also have "\<dots> \<le> length (tf_nodes task)" by (metis card_length length_map)
  finally show ?thesis using inv by (simp add: sched_inv_def js_wf_def js_keys_def js_size_def distinct_card [of "map fst (ds_states s)", simplified])
qed

lemma advance_grows:
  assumes "distinct (map wn_id (tf_nodes task))" "sched_inv task (oo_maxConcurrentNodes opts) s"
  shows "js_size (ds_states s) \<le> js_size (ds_states (advance opts task s))"
proof (rule js_size_mono)
  show "js_wf (ds_states s)" "js_wf (ds_states (advance opts task s))"
    using assms advance_inv [OF assms] by (simp_all add: sched_inv_def)
  show "set (js_keys (ds_states s)) \<subseteq> set (js_keys (ds_states (advance opts task s)))"
    using advance_get [OF assms(1)] by (auto simp: js_has_iff [symmetric] js_has_get)
qed

lemma settle_size:
  assumes "sched_inv task limit s" "i \<in> set (ds_inFlight s)"
  shows "js_size (ds_states (settle i out s)) = Suc (js_size (ds_states s))"
  using assms by (auto simp: settle_def js_size_set sched_inv_def js_has_iff)

lemma awaiting_flight:
  assumes "loop_top opts task s = Awaiting s'"
  shows "ds_inFlight s' \<noteq> []" "js_size (ds_states s) < length (tf_nodes task)"
  using assms by (auto simp: loop_top_def Let_def split: if_splits prod.splits)

lemma drive_ends:
  assumes dist: "distinct (map wn_id (tf_nodes task))" and pick: "settles_flight pick"
    and "\<And>s. p = Awaiting s \<Longrightarrow> sched_inv task (oo_maxConcurrentNodes opts) s \<and> ds_inFlight s \<noteq> [] \<and>
       length (tf_nodes task) - js_size (ds_states s) \<le> k"
  shows "\<not> is_awaiting (drive opts task pick k p)"
  using assms(3)
proof (induction k arbitrary: p)
  case 0
  show ?case
  proof (cases p)
    case (Awaiting s)
    with 0 have s: "sched_inv task (oo_maxConcurrentNodes opts) s" "ds_inFlight s \<noteq> []" "length (tf_nodes task) \<le> js_size (ds_states s)" by auto
    let ?i = "hd (ds_inFlight s)"
    have "sched_inv task (oo_maxConcurrentNodes opts) (settle ?i node_skipped s)" using s by (intro settle_inv) auto
    from keys_le [OF this] settle_size [OF s(1), of ?i node_skipped] s show ?thesis by simp
  qed (simp_all add: is_awaiting_def)
next
  case (Suc k)
  show ?case
  proof (cases p)
    case (Awaiting s)
    with Suc.prems have s: "sched_inv task (oo_maxConcurrentNodes opts) s" "ds_inFlight s \<noteq> []"
      "length (tf_nodes task) - js_size (ds_states s) \<le> Suc k" by auto
    obtain i out where io: "pick s = (i, out)" by (cases "pick s")
    have i: "i \<in> set (ds_inFlight s)" using pick s(2) io by (auto simp: settles_flight_def)
    let ?s' = "settle i out s"
    have inv': "sched_inv task (oo_maxConcurrentNodes opts) ?s'" using s i by (intro settle_inv)
    have top: "sched_inv task (oo_maxConcurrentNodes opts) t \<and> ds_inFlight t \<noteq> [] \<and> length (tf_nodes task) - js_size (ds_states t) \<le> k"
      if "loop_top opts task ?s' = Awaiting t" for t
    proof -
      have "t = advance opts task ?s'" using that by (simp add: loop_top_eq [OF dist] split: if_splits)
      then show ?thesis
        using advance_inv [OF dist inv'] advance_grows [OF dist inv'] awaiting_flight [OF that] settle_size [OF s(1) i, of out] s(3) by simp
    qed
    have "\<not> is_awaiting (drive opts task pick k (dag_step opts task (Awaiting s) (Settles i out)))"
      using top i by (intro Suc.IH) (auto simp: Let_def split: if_splits)
    then show ?thesis using Awaiting io by simp
  qed (simp_all add: is_awaiting_def)
qed

text \<open>C3: The loop ends: whatever node in flight settles at each \<open>await\<close> and however, after at most as many completions as the task has
  nodes the loop is no longer waiting; and while it waits, some node is in flight.\<close>

theorem schedule_terminates:
  assumes "distinct (map wn_id (tf_nodes task))" "settles_flight pick"
  shows "\<not> is_awaiting (drive opts task pick (length (tf_nodes task)) (loop_top opts task (sched_start aborted)))"
  using loop_top_inv [OF assms(1) sched_start_inv, of opts aborted] awaiting_flight(1) [of opts task "sched_start aborted"]
  by (intro drive_ends assms) force

definition pick_first :: "NodeOutcome \<Rightarrow> sched \<Rightarrow> string \<times> NodeOutcome" where
  "pick_first out s = (hd (ds_inFlight s), out)"

lemma pick_first_settles [simp, intro]: "settles_flight (pick_first out)"
  by (simp add: settles_flight_def pick_first_def)

text \<open>Three nodes in a row.\<close>

definition chain3 :: TaskFrame where
  "chain3 = plain_task [plain_node ''a'' [], plain_node ''b'' [''a''], plain_node ''c'' [''b'']] [(''a'', ''b''), (''b'', ''c'')]"

lemma chain3_distinct: "distinct (map wn_id (tf_nodes chain3))"
  by (simp add: chain3_def plain_task_def plain_node_def)

theorem schedule_terminates_witness:
  "\<not> is_awaiting (drive default_options chain3 (pick_first node_skipped) (length (tf_nodes chain3)) (loop_top default_options chain3 (sched_start False)))"
  by (rule schedule_terminates [OF chain3_distinct pick_first_settles])

section \<open>Tasks whose nodes all succeed\<close>

definition dag_of :: "TaskFrame \<Rightarrow> task_dag" where
  "dag_of task = \<lparr>td_nodes = map (\<lambda>n. \<lparr>dn_id = wn_id n, dn_condition = wn_condition n, dn_inputFrom = wn_inputFrom n\<rparr>) (tf_nodes task),
     td_edges = Some (tf_edges task)\<rparr>"

lemma dag_edges_of [simp]: "dag_edges (dag_of task) = tf_edges task"
  by (simp add: dag_edges_def dag_of_def)

lemma validateDag_accepts:
  assumes "validateDag dag = DagOk order roots terminals"
  shows "dag_wellformed dag" "distinct order" "set order = dn_id ` set (td_nodes dag)" "forward (dag_edges dag) order"
proof -
  show wf: "dag_wellformed dag"
  proof (rule ccontr)
    assume "\<not> dag_wellformed dag"
    then show False using assms unfolding validateDag_unfold Let_def by (simp split: if_splits)
  qed
  show "distinct order" "set order = dn_id ` set (td_nodes dag)" "forward (dag_edges dag) order"
    using validateDag_eq [OF wf] assms by (auto split: if_splits)
qed

lemma valid_task:
  assumes "validateDag (dag_of task) = DagOk order roots terminals"
  shows "distinct (map wn_id (tf_nodes task))" "set order = wn_id ` set (tf_nodes task)" "forward (tf_edges task) order"
proof -
  have ids: "map dn_id (td_nodes (dag_of task)) = map wn_id (tf_nodes task)" by (simp add: dag_of_def)
  show "distinct (map wn_id (tf_nodes task))"
    using validateDag_accepts(1) [OF assms] unfolding dag_wellformed_def Let_def ids by blast
  have "set order = set (map dn_id (td_nodes (dag_of task)))" using validateDag_accepts(3) [OF assms] by simp
  then show "set order = wn_id ` set (tf_nodes task)" unfolding ids by simp
  show "forward (tf_edges task) order" using validateDag_accepts(4) [OF assms] by simp
qed

text \<open>The inputs of a node are among its predecessors, and enough of them are listed for its K.\<close>

definition inputs_consistent :: "TaskFrame \<Rightarrow> bool" where
  "inputs_consistent task = list_all (\<lambda>n. list_all (\<lambda>u. (u, wn_id n) \<in> set (tf_edges task)) (inputs_of n) \<and>
     (inputs_of n = [] \<or> required_k n \<le> int (length (inputs_of n)))) (tf_nodes task)"

definition all_succeeded :: "sched \<Rightarrow> bool" where
  "all_succeeded s \<longleftrightarrow> (\<forall>i. js_has (ds_states s) i \<longrightarrow> succeeded (ds_states s) i)"

lemma ready_feasible:
  assumes "inputs_consistent task" "all_succeeded s" "n \<in> set (ready_nodes task s)"
  shows "\<not> infeasible n (ds_states s)"
proof -
  have "failed_count n (ds_states s) = 0"
    using assms(2) by (auto simp: failed_count_def filter_empty_conv all_succeeded_def succeeded_def js_has_get)
  then show ?thesis using assms(1,3)
    by (auto simp: ready_nodes_def areDepsDone_def infeasible_def inputs_consistent_def list_all_iff split: if_splits)
qed

lemma advance_all_succeeded:
  assumes "inputs_consistent task" "all_succeeded s"
  shows "advance opts task s = launch (oo_maxConcurrentNodes opts) (ready_nodes task s) s"
proof -
  have "filter (\<lambda>n. infeasible n (ds_states s)) (ready_nodes task s) = []"
    "filter (\<lambda>n. \<not> infeasible n (ds_states s)) (ready_nodes task s) = ready_nodes task s"
    using ready_feasible [OF assms] by (auto simp: filter_empty_conv filter_id_conv)
  then show ?thesis by (simp add: advance_def)
qed

lemma launch_flight: "set (ds_inFlight s) \<subseteq> set (ds_inFlight (launch limit ns s))"
  by (induction limit ns s rule: launch.induct) auto

lemma launch_nonempty: "limit \<ge> 1 \<Longrightarrow> ns \<noteq> [] \<Longrightarrow> ds_inFlight (launch limit ns s) \<noteq> []"
proof (cases ns)
  case (Cons n ms)
  let ?t = "s\<lparr>ds_inFlight := ds_inFlight s @ [wn_id n], ds_launched := ds_launched s @ [wn_id n]\<rparr>"
  have "wn_id n \<in> set (ds_inFlight (launch limit ms ?t))" using launch_flight [of ?t limit ms] by auto
  moreover assume "limit \<ge> 1"
  ultimately show ?thesis using Cons by auto
qed simp

lemma not_stuck:
  assumes valid: "validateDag (dag_of task) = DagOk order roots terminals" and cons: "inputs_consistent task"
    and ok: "all_succeeded s" and flight: "ds_inFlight s = []" and missing: "\<exists>n \<in> set (tf_nodes task). \<not> js_has (ds_states s) (wn_id n)"
  shows "ready_nodes task s \<noteq> []"
proof -
  note v = valid_task [OF valid]
  let ?P = "\<lambda>i. i < length order \<and> \<not> js_has (ds_states s) (order ! i)"
  from missing obtain n0 where n0: "n0 \<in> set (tf_nodes task)" "\<not> js_has (ds_states s) (wn_id n0)" by blast
  then have "wn_id n0 \<in> set order" using v(2) by simp
  then obtain m where "m < length order" "order ! m = wn_id n0" by (auto simp: in_set_conv_nth)
  then have "?P m" using n0(2) by simp
  then have least: "?P (LEAST i. ?P i)" by (rule LeastI)
  let ?i = "LEAST i. ?P i"
  have "order ! ?i \<in> set order" using least by simp
  then obtain n where n: "n \<in> set (tf_nodes task)" "wn_id n = order ! ?i" unfolding v(2) by (auto simp del: nth_mem)
  have "succeeded (ds_states s) u" if "u \<in> set (inputs_of n)" for u
  proof -
    have "(u, order ! ?i) \<in> set (tf_edges task)" using cons n that by (auto simp: inputs_consistent_def list_all_iff)
    then have "u \<in> set (take ?i order)" using v(3) least by (simp add: forward_def)
    then obtain j where "j < ?i" "order ! j = u" "j < length order" by (auto simp: in_set_conv_nth)
    then have "js_has (ds_states s) u" using not_less_Least [of j ?P] by auto
    then show ?thesis using ok by (simp add: all_succeeded_def)
  qed
  then have "success_count n (ds_states s) = length (inputs_of n)"
    by (simp add: success_count_def filter_id_conv)
  then have "areDepsDone n (ds_states s)" using cons n(1) by (auto simp: areDepsDone_def inputs_consistent_def list_all_iff)
  then have "n \<in> set (ready_nodes task s)" using n least flight by (simp add: ready_nodes_def)
  then show ?thesis by auto
qed

definition good_phase :: "TaskFrame \<Rightarrow> int \<Rightarrow> dag_phase \<Rightarrow> bool" where
  "good_phase task limit p = (case p of
     Awaiting s \<Rightarrow> sched_inv task limit s \<and> all_succeeded s \<and> \<not> ds_aborted s \<and> ds_inFlight s \<noteq> []
   | LoopEnded s \<Rightarrow> sched_inv task limit s \<and> all_succeeded s \<and> (\<forall>n \<in> set (tf_nodes task). js_has (ds_states s) (wn_id n))
   | _ \<Rightarrow> False)"

lemma full_states:
  assumes "distinct (map wn_id (tf_nodes task))" "sched_inv task limit s"
  shows "\<not> js_size (ds_states s) < length (tf_nodes task) \<longleftrightarrow> (\<forall>n \<in> set (tf_nodes task). js_has (ds_states s) (wn_id n))"
proof -
  let ?K = "set (js_keys (ds_states s))" and ?I = "set (map wn_id (tf_nodes task))"
  have sub: "?K \<subseteq> ?I" and sz: "js_size (ds_states s) = card ?K"
    using assms(2) distinct_card [of "js_keys (ds_states s)"] by (auto simp: sched_inv_def js_wf_def js_keys_def js_size_def)
  have len: "length (tf_nodes task) = card ?I" using distinct_card [OF assms(1)] by simp
  have "\<not> card ?K < card ?I \<longleftrightarrow> ?I \<subseteq> ?K"
    using card_subset_eq [of ?I ?K] sub card_mono [of ?K ?I] by (metis List.finite_set card_mono le_antisym not_less order_refl)
  then show ?thesis unfolding sz len by (auto simp: js_has_iff)
qed

lemma good_loop_top:
  assumes valid: "validateDag (dag_of task) = DagOk order roots terminals" and cons: "inputs_consistent task"
    and lim: "oo_maxConcurrentNodes opts \<ge> 1"
    and s: "sched_inv task (oo_maxConcurrentNodes opts) s" "all_succeeded s" "\<not> ds_aborted s"
  shows "good_phase task (oo_maxConcurrentNodes opts) (loop_top opts task s)"
proof -
  note dist = valid_task(1) [OF valid]
  note adv = advance_all_succeeded [OF cons s(2), of opts]
  show ?thesis
  proof (cases "js_size (ds_states s) < length (tf_nodes task)")
    case False
    then show ?thesis using s full_states [OF dist s(1)] by (simp add: loop_top_eq [OF dist] good_phase_def)
  next
    case True
    have "ds_inFlight (advance opts task s) \<noteq> []"
    proof (cases "ds_inFlight s = []")
      case flight: True
      have "\<exists>n \<in> set (tf_nodes task). \<not> js_has (ds_states s) (wn_id n)" using True full_states [OF dist s(1)] by blast
      then show ?thesis using adv launch_nonempty [OF lim not_stuck [OF valid cons s(2) flight]] by simp
    next
      case False
      then show ?thesis using adv launch_flight by (metis set_empty subset_empty)
    qed
    moreover have "all_succeeded (advance opts task s)" "\<not> ds_aborted (advance opts task s)" using s adv by (simp_all add: all_succeeded_def)
    ultimately show ?thesis using True s advance_inv [OF dist s(1)] by (simp add: loop_top_eq [OF dist] good_phase_def)
  qed
qed

lemma settle_all_succeeded:
  "all_succeeded s \<Longrightarrow> no_state out \<in> {COMPLETED, SKIPPED} \<Longrightarrow> all_succeeded (settle i out s)"
  by (auto simp: all_succeeded_def settle_def succeeded_def js_has_get js_get_set)

lemma drive_good:
  assumes valid: "validateDag (dag_of task) = DagOk order roots terminals" and cons: "inputs_consistent task"
    and lim: "oo_maxConcurrentNodes opts \<ge> 1" and pick: "settles_flight pick" "\<forall>s. no_state (snd (pick s)) \<in> {COMPLETED, SKIPPED}"
    and "good_phase task (oo_maxConcurrentNodes opts) p"
  shows "good_phase task (oo_maxConcurrentNodes opts) (drive opts task pick k p)"
  using assms(6)
proof (induction k arbitrary: p)
  case (Suc k)
  show ?case
  proof (cases p)
    case (Awaiting s)
    obtain i out where io: "pick s = (i, out)" by (cases "pick s")
    have out: "no_state out \<in> {COMPLETED, SKIPPED}" using pick(2) io by (metis snd_conv)
    have s: "sched_inv task (oo_maxConcurrentNodes opts) s" "all_succeeded s" "\<not> ds_aborted s" "ds_inFlight s \<noteq> []"
      using Suc.prems Awaiting by (simp_all add: good_phase_def)
    have i: "i \<in> set (ds_inFlight s)" using pick(1) s(4) io by (auto simp: settles_flight_def)
    have "good_phase task (oo_maxConcurrentNodes opts) (loop_top opts task (settle i out s))"
      using s i out by (intro good_loop_top [OF valid cons lim] settle_inv settle_all_succeeded) (simp_all add: settle_def)
    moreover have "dag_step opts task p (Settles i out) = loop_top opts task (settle i out s)"
      using Awaiting i out by (auto simp: Let_def)
    ultimately show ?thesis using Suc.IH Awaiting io by simp
  qed (use Suc.prems in \<open>simp_all add: good_phase_def\<close>)
qed simp

text \<open>When no node fails and nothing aborts the task, a valid task graph whose inputs follow its edges is run to its end: every node
  is started, each exactly once, and completes or is skipped, in whatever order the nodes settle.\<close>

theorem schedule_completes:
  assumes "validateDag (dag_of task) = DagOk order roots terminals" "inputs_consistent task" "oo_maxConcurrentNodes opts \<ge> 1"
    and "settles_flight pick" "\<forall>s. no_state (snd (pick s)) \<in> {COMPLETED, SKIPPED}"
  shows "\<exists>s. drive opts task pick (length (tf_nodes task)) (loop_top opts task (sched_start False)) = LoopEnded s \<and>
     distinct (ds_launched s) \<and> set (ds_launched s) = wn_id ` set (tf_nodes task) \<and> list_all (\<lambda>n. succeeded (ds_states s) (wn_id n)) (tf_nodes task)"
proof -
  let ?p = "drive opts task pick (length (tf_nodes task)) (loop_top opts task (sched_start False))"
  note dist = valid_task(1) [OF assms(1)]
  have "all_succeeded (sched_start False)" "\<not> ds_aborted (sched_start False)"
    by (simp_all add: all_succeeded_def sched_start_def js_has_def)
  then have "good_phase task (oo_maxConcurrentNodes opts) ?p"
    by (intro drive_good [OF assms] good_loop_top [OF assms(1-3)]) auto
  moreover have "\<not> is_awaiting ?p"
    using loop_top_inv [OF dist sched_start_inv, of opts False] awaiting_flight(1) [of opts task "sched_start False"]
    by (intro drive_ends [OF dist assms(4)]) force
  ultimately obtain s where s: "?p = LoopEnded s" "sched_inv task (oo_maxConcurrentNodes opts) s" "all_succeeded s"
      "\<forall>n \<in> set (tf_nodes task). js_has (ds_states s) (wn_id n)"
    by (cases ?p) (auto simp: good_phase_def is_awaiting_def)
  have ok: "succeeded (ds_states s) (wn_id n)" if "n \<in> set (tf_nodes task)" for n using s(3,4) that by (simp add: all_succeeded_def)
  have "set (ds_launched s) = wn_id ` set (tf_nodes task)"
  proof
    show "set (ds_launched s) \<subseteq> wn_id ` set (tf_nodes task)" using s(2) by (auto simp: sched_inv_def)
    show "wn_id ` set (tf_nodes task) \<subseteq> set (ds_launched s)"
    proof clarify
      fix n assume n: "n \<in> set (tf_nodes task)"
      then have "js_get (ds_states s) (wn_id n) \<noteq> Some FAILED" using ok [OF n] by (auto simp: succeeded_def)
      then show "wn_id n \<in> set (ds_launched s)" using s(2,4) n by (auto simp: sched_inv_def)
    qed
  qed
  then show ?thesis using s ok by (auto simp: sched_inv_def list_all_iff)
qed

section \<open>Failures\<close>

text \<open>When the loop aborts, the nodes still in flight have no state: whatever they go on to complete while the loop waits for them to
  settle is not among the nodes to compensate.\<close>

lemma abort_forgets_flight:
  assumes "distinct (map wn_id (tf_nodes task))" "run_loop opts task aborted es = MustAbort s i out" "j \<in> set (ds_inFlight s)"
  shows "j \<notin> set (saga_candidates task order (ds_states s))"
proof -
  have "sched_inv task (oo_maxConcurrentNodes opts) (phase_sched (loop_top opts task (sched_start aborted)))"
    by (rule loop_top_inv [OF assms(1) sched_start_inv])
  with dag_loop.run_inv [of task opts "loop_top opts task (sched_start aborted)" es, folded run_loop_def] assms
  have "sched_inv task (oo_maxConcurrentNodes opts) s" by simp
  then have "js_get (ds_states s) j = None" using assms(3) by (auto simp: sched_inv_def js_has_iff [symmetric] js_has_get)
  then show ?thesis by (simp add: saga_candidates_def)
qed

lemmas sched_eval = run_loop_def loop_top_def sched_start_def ready_nodes_def areDepsDone_def inputs_of_def required_k_def success_count_def
  failed_count_def succeeded_def infeasible_def fail_infeasible_def settle_def node_result_def must_abort_def canReachEndNode_iff
  endNodeIds_def node_of_def canEndNodeStillSucceed_def js_has_def js_get_def js_set_def js_size_def Let_def default_options_def

text \<open>The first of three nodes in a row fails: the second is marked as failed for lack of its input, the loop stops with nothing in flight, and
  the end node, never started, has no state at all.\<close>

lemma chain3_run:
  "\<exists>s. run_loop default_options chain3 False [Settles ''a'' (node_failed ''NOP-DELEGATE-TIMEOUT'')] = LoopEnded s \<and>
     js_get (ds_states s) ''a'' = Some FAILED \<and> js_get (ds_states s) ''b'' = Some FAILED \<and> js_get (ds_states s) ''c'' = None \<and>
     ds_launched s = [''a''] \<and> endNodeIds chain3 = [''c''] \<and> ds_results s = []"
  by (simp add: sched_eval chain3_def plain_task_def plain_node_def node_failed_def)

theorem schedule_safe_witness:
  "let s = phase_sched (run_loop default_options chain3 False [Settles ''a'' node_skipped]) in
     distinct (ds_launched s) \<and> ds_launched s = [''a'', ''b''] \<and> succeeded (ds_states s) ''a'' \<and>
     js_get (ds_states (phase_sched (run_loop default_options chain3 False ([Settles ''a'' node_skipped] @ [Settles ''b'' node_skipped])))) ''a'' = Some SKIPPED"
proof -
  let ?s = "phase_sched (run_loop default_options chain3 False [Settles ''a'' node_skipped])"
  have l: "ds_launched ?s = [''a'', ''b'']" and a: "js_get (ds_states ?s) ''a'' = Some SKIPPED"
    by (simp_all add: sched_eval chain3_def plain_task_def plain_node_def node_skipped_def)
  have su: "succeeded (ds_states ?s) ''a''" using a by (simp add: succeeded_def)
  note safe = schedule_safe [OF chain3_distinct, of default_options False "[Settles ''a'' node_skipped]", unfolded Let_def]
  from safe have "distinct (ds_launched ?s)" by (rule conjunct1)
  moreover from safe a have
    "js_get (ds_states (phase_sched (run_loop default_options chain3 False ([Settles ''a'' node_skipped] @ [Settles ''b'' node_skipped])))) ''a'' = Some SKIPPED"
    by blast
  ultimately show ?thesis unfolding Let_def using l su by (intro conjI)
qed

end
