(* ===== verification/NopOrchestrator.thy ===== *)
theory NopOrchestrator
  imports NopScheduler
begin

text \<open>
  A task from request to result: \<open>execute\<close>, \<open>cancel\<close>, \<open>getStatus\<close> and the task store of
  \<open>nop/orchestrator.ts\<close>, the part of \<open>_runDag\<close> after its loop, \<open>_runPreflight\<close>, \<open>_fireCallback\<close>, and
  \<open>nop/callback-validator.ts\<close>.

  The runtime's \<open>URL\<close> class is a parameter (the protocol and host name of an absolute URL, or \<open>None\<close>), and so are
  the worker, the answers to the preflight probes and the responses to the callback.

  Proved: which error each guard of \<open>execute\<close> returns and that a refused task leaves the store alone; a task that
  runs ends in the store with the state of its result; a task none of whose nodes fails is \<open>COMPLETED\<close>; a task
  whose first of three nodes fails is reported \<open>COMPLETED\<close> as well; the callback guard on
  dotted IPv4 hosts is exactly membership in the six private blocks, and it misses IPv4-mapped hosts in the form
  the \<open>URL\<close> class prints.
\<close>

section \<open>nop/callback-validator.ts\<close>

definition strip_brackets :: "string \<Rightarrow> string" where
  "strip_brackets h = (let h = (if h \<noteq> [] \<and> hd h = CHR ''['' then tl h else h) in
     if h \<noteq> [] \<and> last h = CHR '']'' then butlast h else h)"

definition isIpv4 :: "string \<Rightarrow> bool" where
  "isIpv4 host = (let parts = js_split CHR ''.'' host in length parts = 4 \<and>
     list_all (\<lambda>p. 1 \<le> length p \<and> length p \<le> 3 \<and> list_all js_is_digit p \<and> js_digits_value p \<le> 255) parts)"

definition isPrivateIpv4 :: "string \<Rightarrow> bool" where
  "isPrivateIpv4 host = (let b = map js_digits_value (js_split CHR ''.'' host) in
     b ! 0 = 127 \<or> b ! 0 = 10 \<or> b ! 0 = 0 \<or> (b ! 0 = 172 \<and> b ! 1 \<ge> 16 \<and> b ! 1 \<le> 31) \<or> (b ! 0 = 192 \<and> b ! 1 = 168) \<or>
     (b ! 0 = 169 \<and> b ! 1 = 254))"

text \<open>\<open>/::ffff:(\d+\.\d+\.\d+\.\d+)$/\<close>: the leftmost position at which the rest of the text matches.\<close>

definition dotted_digits :: "string \<Rightarrow> bool" where
  "dotted_digits s = (let parts = js_split CHR ''.'' s in length parts = 4 \<and> list_all (\<lambda>p. p \<noteq> [] \<and> list_all js_is_digit p) parts)"

fun match_mapped :: "string \<Rightarrow> string option" where
  "match_mapped [] = None"
| "match_mapped (c # cs) =
     (if js_startsWith (c # cs) ''::ffff:'' \<and> dotted_digits (drop 7 (c # cs)) then Some (drop 7 (c # cs)) else match_mapped cs)"

definition isPrivateIpv6 :: "string \<Rightarrow> bool" where
  "isPrivateIpv6 host = (let lower = js_toLowerCase host in
     case (case match_mapped lower of Some m \<Rightarrow> if isIpv4 m then Some m else None | None \<Rightarrow> None) of
       Some m \<Rightarrow> isPrivateIpv4 m
     | None \<Rightarrow> lower = ''::1'' \<or> list_ex (js_startsWith lower) [''fe8'', ''fe9'', ''fea'', ''feb'', ''fec'', ''fed'', ''fee'', ''fef''])"

definition isPrivateHost :: "string \<Rightarrow> bool" where
  "isPrivateHost host =
     (if host = [] then True
      else if js_toLowerCase host = ''localhost'' then True
      else let stripped = strip_brackets host in
        if isIpv4 stripped then isPrivateIpv4 stripped
        else if CHR '':'' \<in> set stripped then isPrivateIpv6 stripped
        else False)"

record parsed_url =
  pu_protocol :: string
  pu_hostname :: string

text \<open>The reason for a refusal; the source returns a message for each.\<close>

datatype callback_refusal = CallbackEmpty | CallbackNotUri | CallbackNotHttps | CallbackPrivateHost

definition strip_colon :: "string \<Rightarrow> string" where
  "strip_colon p = (if p \<noteq> [] \<and> last p = CHR '':'' then butlast p else p)"

definition validateCallbackUrl :: "(string \<Rightarrow> parsed_url option) \<Rightarrow> string \<Rightarrow> callback_refusal option" where
  "validateCallbackUrl parseUrl callbackUrl =
     (if js_trim callbackUrl = [] then Some CallbackEmpty
      else case parseUrl callbackUrl of
        None \<Rightarrow> Some CallbackNotUri
      | Some uri \<Rightarrow>
          if js_toLowerCase (strip_colon (pu_protocol uri)) \<noteq> ''https'' then Some CallbackNotHttps
          else if isPrivateHost (pu_hostname uri) then Some CallbackPrivateHost
          else None)"

section \<open>Results and the task store\<close>

record NopTaskResult =
  nt_taskId :: string
  nt_state :: TaskState
  nt_aggregatedResult :: "jsval option"
  nt_nodeResults :: "(string, NodeResult) jsmap"
  nt_error :: "string option"
  nt_compensation :: "SagaCompensationResult option"

record NopTaskRecord =
  tr_frame :: TaskFrame
  tr_state :: TaskState
  tr_completed :: bool
  tr_nodeResults :: "(string, NodeResult) jsmap"
  tr_error :: "string option"

type_synonym task_store = "(string, NopTaskRecord) jsmap"

definition nop_failure :: "string \<Rightarrow> string \<Rightarrow> NopTaskResult" where
  "nop_failure taskId code = \<lparr>nt_taskId = taskId, nt_state = FAILED, nt_aggregatedResult = None, nt_nodeResults = [],
     nt_error = Some code, nt_compensation = None\<rparr>"

text \<open>The result \<open>_finalize\<close> returns; the record it updates is that of \<open>finish_record\<close> below.\<close>

definition nop_finalize :: "TaskFrame \<Rightarrow> (string, NodeResult) jsmap \<Rightarrow> jsval option \<Rightarrow> TaskState \<Rightarrow> string option \<Rightarrow>
    SagaCompensationResult option \<Rightarrow> NopTaskResult" where
  "nop_finalize task nodeResults aggregated state err compensation =
     \<lparr>nt_taskId = tf_taskId task, nt_state = state, nt_aggregatedResult = (if state = COMPLETED then aggregated else None),
      nt_nodeResults = nodeResults, nt_error = err, nt_compensation = compensation\<rparr>"

definition nop_cancel :: "string \<Rightarrow> task_store \<Rightarrow> task_store" where
  "nop_cancel taskId store = (case js_get store taskId of None \<Rightarrow> store | Some r \<Rightarrow> js_set store taskId (r\<lparr>tr_state := CANCELLED\<rparr>))"

definition nop_getStatus :: "string \<Rightarrow> task_store \<Rightarrow> NopTaskRecord option" where
  "nop_getStatus taskId store = js_get store taskId"

section \<open>After the loop\<close>

text \<open>The compensation a policy asks for, threading the worker's state.\<close>

definition maybe_saga :: "bool \<Rightarrow> NopOrchestratorOptions \<Rightarrow> (delegate_frame \<Rightarrow> worker_stream) \<Rightarrow> (nat \<Rightarrow> int \<times> string \<times> string) \<Rightarrow>
    TaskFrame \<Rightarrow> string list \<Rightarrow> sched \<Rightarrow> worker_state \<Rightarrow> (node_throw + SagaCompensationResult option) \<times> worker_state" where
  "maybe_saga runs opts worker draw task topo s st =
     (if runs then (case runSagaCompensation opts worker draw task topo (ds_results s) (ds_states s) st of
          (Inl e, st) \<Rightarrow> (Inl e, st) | (Inr c, st) \<Rightarrow> (Inr (Some c), st))
      else (Inr None, st))"

definition fail_task :: "NopOrchestratorOptions \<Rightarrow> (delegate_frame \<Rightarrow> worker_stream) \<Rightarrow> (nat \<Rightarrow> int \<times> string \<times> string) \<Rightarrow>
    TaskFrame \<Rightarrow> string list \<Rightarrow> sched \<Rightarrow> worker_state \<Rightarrow> (node_throw + NopTaskResult) \<times> worker_state" where
  "fail_task opts worker draw task topo s st =
     (case maybe_saga (runsOnFailure (tf_compensationPolicy task)) opts worker draw task topo s st of
        (Inl e, st) \<Rightarrow> (Inl e, st)
      | (Inr compensation, st) \<Rightarrow>
          let code = (case compensationFailureErrorCode task compensation of None \<Rightarrow> ''NOP-SYNC-DEPENDENCY-FAILED'' | Some c \<Rightarrow> c) in
          (Inr (nop_finalize task (ds_record s) None FAILED (Some code) compensation), st))"

definition any_end_failed :: "TaskFrame \<Rightarrow> sched \<Rightarrow> bool" where
  "any_end_failed task s = list_ex (\<lambda>e. js_get (ds_states s) e = Some FAILED) (endNodeIds task)"

text \<open>\<open>None\<close>: the loop is still waiting for a node.\<close>

definition finish_dag :: "NopOrchestratorOptions \<Rightarrow> (delegate_frame \<Rightarrow> worker_stream) \<Rightarrow> (nat \<Rightarrow> int \<times> string \<times> string) \<Rightarrow>
    TaskFrame \<Rightarrow> string list \<Rightarrow> dag_phase \<Rightarrow> worker_state \<Rightarrow> ((node_throw + NopTaskResult) \<times> worker_state) option" where
  "finish_dag opts worker draw task topo p st = (case p of
     Awaiting s \<Rightarrow> None
   | Thrown s err \<Rightarrow> Some (Inl err, st)
   | MustAbort s i out \<Rightarrow> Some (fail_task opts worker draw task topo s st)
   | LoopEnded s \<Rightarrow>
       if any_end_failed task s then Some (fail_task opts worker draw task topo s st)
       else Some (case maybe_saga (runsOnSuccess (tf_compensationPolicy task)) opts worker draw task topo s st of
           (Inl e, st) \<Rightarrow> (Inl e, st)
         | (Inr compensation, st) \<Rightarrow>
             (Inr (nop_finalize task (ds_record s)
                (Some (aggregateEndNodes (endNodeIds task) (ds_results s) (oo_defaultAggregateStrategy opts))) COMPLETED None compensation), st)))"

definition runDag :: "NopOrchestratorOptions \<Rightarrow> (delegate_frame \<Rightarrow> worker_stream) \<Rightarrow> (nat \<Rightarrow> int \<times> string \<times> string) \<Rightarrow>
    TaskFrame \<Rightarrow> string list \<Rightarrow> bool \<Rightarrow> dag_event list \<Rightarrow> worker_state \<Rightarrow> ((node_throw + NopTaskResult) \<times> worker_state) option" where
  "runDag opts worker draw task topo aborted es st = finish_dag opts worker draw task topo (run_loop opts task aborted es) st"

section \<open>Preflight\<close>

datatype probe_answer = ProbeThrows | ProbeUnavailable | ProbeAvailable

datatype preflight_failure = ProbeFailed | AgentUnavailable string

definition by_agent :: "TaskFrame \<Rightarrow> (string, string list) jsmap" where
  "by_agent task = foldl (\<lambda>m n.
     let actions = (case js_get m (wn_agent n) of None \<Rightarrow> [] | Some as \<Rightarrow> as) in
     js_set m (wn_agent n) (if wn_action n \<in> set actions then actions else actions @ [wn_action n])) [] (tf_nodes task)"

text \<open>One probe for each agent, with the first of its actions.\<close>

definition runPreflight :: "(string \<Rightarrow> string \<Rightarrow> probe_answer) \<Rightarrow> TaskFrame \<Rightarrow> preflight_failure option" where
  "runPreflight probe task =
     (let answers = map (\<lambda>(agent, actions). (agent, probe agent (hd actions))) (by_agent task) in
      if list_ex (\<lambda>(agent, a). a = ProbeThrows) answers then Some ProbeFailed
      else map_option (\<lambda>(agent, a). AgentUnavailable agent) (find (\<lambda>(agent, a). a \<noteq> ProbeAvailable) answers))"

section \<open>execute\<close>

definition MaxDelegateChainDepth :: int where "MaxDelegateChainDepth = 3"

text \<open>The guards: the failure returned at once, or the topological order of the task.\<close>

definition execute_guards :: "(string \<Rightarrow> parsed_url option) \<Rightarrow> TaskFrame \<Rightarrow> task_store \<Rightarrow> string + string list" where
  "execute_guards parseUrl task store =
     (if delegateDepth task \<ge> MaxDelegateChainDepth then Inl ''NOP-DELEGATE-CHAIN-TOO-DEEP''
      else if truthy (tf_callbackUrl task) \<and> validateCallbackUrl parseUrl (the (tf_callbackUrl task)) \<noteq> None then Inl ''NOP-TASK-DAG-INVALID''
      else case validateDag (dag_of task) of
        DagFail code \<Rightarrow> Inl code
      | DagOk order roots terminals \<Rightarrow>
          if js_has store (tf_taskId task) then Inl ''NOP-TASK-ALREADY-COMPLETED'' else Inr order)"

definition task_timeout :: "NopOrchestratorOptions \<Rightarrow> TaskFrame \<Rightarrow> int" where
  "task_timeout opts task = min (case tf_timeoutMs task of None \<Rightarrow> oo_defaultTimeoutMs opts | Some t \<Rightarrow> t) (oo_maxTimeoutMs opts)"

text \<open>
  What happens around a call: the answers to the probes, the worker, the ids drawn for compensation, whether the caller's signal has
  fired when the loop starts and when it throws, whether the timer has fired, the order of events in the loop, and what other calls
  have done to the shared store meanwhile. The timer aborts the loop through its signal, which is one of the events.
\<close>

record call_env =
  xe_probe :: "string \<Rightarrow> string \<Rightarrow> probe_answer"
  xe_worker :: "delegate_frame \<Rightarrow> worker_stream"
  xe_draw :: "nat \<Rightarrow> int \<times> string \<times> string"
  xe_abortedEarly :: bool
  xe_events :: "dag_event list"
  xe_signalAborted :: bool
  xe_timedOut :: bool
  xe_meanwhile :: "task_store \<Rightarrow> task_store"

datatype call_result = Returned NopTaskResult | Raised node_throw

definition task_record :: "TaskFrame \<Rightarrow> TaskState \<Rightarrow> bool \<Rightarrow> (string, NodeResult) jsmap \<Rightarrow> string option \<Rightarrow> NopTaskRecord" where
  "task_record task state completed nodeResults err = \<lparr>tr_frame = task, tr_state = state, tr_completed = completed,
     tr_nodeResults = nodeResults, tr_error = err\<rparr>"

text \<open>The \<open>catch\<close> block: cancellation by the caller, the timeout, or the error itself. On the last of these the record the store
  holds only gets its completion time.\<close>

definition caught :: "call_env \<Rightarrow> TaskFrame \<Rightarrow> (string, NodeResult) jsmap \<Rightarrow> node_throw \<Rightarrow> task_store \<Rightarrow> call_result \<times> task_store" where
  "caught env task nodeResults err store =
     (if xe_signalAborted env
      then (Returned (nop_finalize task nodeResults None CANCELLED (Some ''NOP-TASK-CANCELLED'') None),
            js_set store (tf_taskId task) (task_record task CANCELLED True nodeResults (Some ''NOP-TASK-CANCELLED'')))
      else if xe_timedOut env \<or> err = AbortError
      then (Returned (nop_finalize task nodeResults None FAILED (Some ''NOP-TASK-TIMEOUT'') None),
            js_set store (tf_taskId task) (task_record task FAILED True nodeResults (Some ''NOP-TASK-TIMEOUT'')))
      else (Raised err, case js_get store (tf_taskId task) of None \<Rightarrow> store
            | Some r \<Rightarrow> js_set store (tf_taskId task) (r\<lparr>tr_completed := True\<rparr>)))"

text \<open>\<open>None\<close>: the call has not returned, the loop is waiting.\<close>

definition execute :: "NopOrchestratorOptions \<Rightarrow> (string \<Rightarrow> parsed_url option) \<Rightarrow> call_env \<Rightarrow> TaskFrame \<Rightarrow> task_store \<Rightarrow> worker_state \<Rightarrow>
    (call_result \<times> task_store \<times> worker_state) option" where
  "execute opts parseUrl env task store st = (case execute_guards parseUrl task store of
     Inl code \<Rightarrow> Some (Returned (nop_failure (tf_taskId task) code), store, st)
   | Inr topo \<Rightarrow>
       let shared = (\<lambda>state results. xe_meanwhile env (js_set store (tf_taskId task) (task_record task state False results None))) in
       if tf_preflight task \<and> runPreflight (xe_probe env) task \<noteq> None
       then Some (Returned (nop_failure (tf_taskId task) ''NOP-RESOURCE-INSUFFICIENT''),
                  js_set (shared PREFLIGHT []) (tf_taskId task) (task_record task FAILED True [] None), st)
       else
         let results = ds_record (phase_sched (run_loop opts task (xe_abortedEarly env) (xe_events env))) in
         case runDag opts (xe_worker env) (xe_draw env) task topo (xe_abortedEarly env) (xe_events env) st of
           None \<Rightarrow> None
         | Some (Inr r, st) \<Rightarrow>
             Some (Returned r, js_set (shared RUNNING results) (tf_taskId task) (task_record task (nt_state r) True (nt_nodeResults r) (nt_error r)), st)
         | Some (Inl err, st) \<Rightarrow>
             (let (res, store) = caught env task results err (shared RUNNING results) in Some (res, store, st)))"

text \<open>Whether the call ends by posting its result to the callback: only from the run itself, not from a guard, the preflight or
  the \<open>catch\<close> block.\<close>

definition fires_callback :: "NopOrchestratorOptions \<Rightarrow> (string \<Rightarrow> parsed_url option) \<Rightarrow> call_env \<Rightarrow> TaskFrame \<Rightarrow> task_store \<Rightarrow> worker_state \<Rightarrow> bool" where
  "fires_callback opts parseUrl env task store st = (case execute_guards parseUrl task store of
     Inl code \<Rightarrow> False
   | Inr topo \<Rightarrow> \<not> (tf_preflight task \<and> runPreflight (xe_probe env) task \<noteq> None) \<and> oo_enableCallback opts \<and> truthy (tf_callbackUrl task) \<and>
       (case runDag opts (xe_worker env) (xe_draw env) task topo (xe_abortedEarly env) (xe_events env) st of Some (Inr r, st') \<Rightarrow> True | _ \<Rightarrow> False))"

section \<open>The callback\<close>

definition CallbackMaxRetries :: nat where "CallbackMaxRetries = 3"

text \<open>The attempts from number \<open>attempt\<close>, with \<open>left\<close> attempts to go: what \<open>respond\<close> says of an attempt is whether it got a response with
  an \<open>ok\<close> status. The result is the number of attempts made and the delays between them.\<close>

fun callback_attempts :: "int \<Rightarrow> (nat \<Rightarrow> bool) \<Rightarrow> nat \<Rightarrow> nat \<Rightarrow> nat \<times> int list" where
  "callback_attempts base respond 0 attempt = (0, [])"
| "callback_attempts base respond (Suc left) attempt =
     (if respond attempt then (1, [])
      else let (n, ds) = callback_attempts base respond left (Suc attempt) in
        (Suc n, (if attempt < CallbackMaxRetries \<and> base > 0 then [base * 2 ^ (attempt - 1)] else []) @ ds))"

definition fireCallback :: "NopOrchestratorOptions \<Rightarrow> (nat \<Rightarrow> bool) \<Rightarrow> nat \<times> int list" where
  "fireCallback opts respond = callback_attempts (oo_callbackRetryBaseDelayMs opts) respond CallbackMaxRetries 1"

section \<open>Properties of execute\<close>

lemma finish_dag_result:
  assumes "finish_dag opts worker draw task topo p st = Some (Inr r, st')"
  shows "nt_taskId r = tf_taskId task" "nt_nodeResults r = ds_record (phase_sched p)" "nt_state r \<in> {COMPLETED, FAILED}"
    "nt_state r = COMPLETED \<longleftrightarrow> nt_error r = None"
  using assms
  by (auto simp: finish_dag_def fail_task_def nop_finalize_def Let_def split: dag_phase.splits if_splits prod.splits sum.splits)

text \<open>A refused task leaves the store and the worker alone. A task that is let in and returns is in the store, with the state,
  the error and the node results of what was returned, whatever other calls did to the store meanwhile, and the id cannot be used again.\<close>

theorem execute_recorded:
  assumes ex: "execute opts parseUrl env task store st = Some (Returned r, store', st')"
    and pre: "nt_error r \<noteq> Some ''NOP-RESOURCE-INSUFFICIENT''"
  shows "(\<exists>code. execute_guards parseUrl task store = Inl code \<and> r = nop_failure (tf_taskId task) code \<and> store' = store \<and> st' = st) \<or>
     (\<exists>rec. js_get store' (tf_taskId task) = Some rec \<and> tr_state rec = nt_state r \<and> tr_completed rec \<and> tr_error rec = nt_error r \<and>
        tr_nodeResults rec = nt_nodeResults r \<and>
        (\<exists>code. execute_guards parseUrl task store' = Inl code \<and>
           execute opts parseUrl env' task store' st'' = Some (Returned (nop_failure (tf_taskId task) code), store', st'')))"
proof (cases "execute_guards parseUrl task store")
  case (Inl code)
  then show ?thesis using ex by (auto simp: execute_def)
next
  case (Inr topo)
  have again: "\<exists>code. execute_guards parseUrl task store' = Inl code" if "js_has store' (tf_taskId task)"
    using that by (auto simp: execute_guards_def split: dag_result.splits)
  have "\<exists>rec. js_get store' (tf_taskId task) = Some rec \<and> tr_state rec = nt_state r \<and> tr_completed rec \<and> tr_error rec = nt_error r \<and>
        tr_nodeResults rec = nt_nodeResults r"
    using ex pre Inr
    by (auto simp: execute_def Let_def caught_def nop_finalize_def task_record_def nop_failure_def split: if_splits option.splits prod.splits sum.splits)
  then show ?thesis using again by (auto simp: execute_def js_has_get)
qed

text \<open>The state a task ends with is that of its run even if it was cancelled through \<open>cancel\<close> meanwhile.\<close>

lemma cancel_is_overwritten:
  assumes "execute opts parseUrl (env\<lparr>xe_meanwhile := nop_cancel (tf_taskId task)\<rparr>) task store st = Some (Returned r, store', st')"
    and "execute_guards parseUrl task store = Inr topo" "nt_state r = COMPLETED"
  shows "\<exists>rec. nop_getStatus (tf_taskId task) store' = Some rec \<and> tr_state rec = COMPLETED"
  using assms
  by (auto simp: execute_def Let_def caught_def nop_finalize_def nop_getStatus_def task_record_def nop_failure_def
      split: if_splits option.splits prod.splits sum.splits)

text \<open>No callback is posted to a host the guard refuses.\<close>

lemma callback_only_to_allowed_hosts:
  "fires_callback opts parseUrl env task store st \<Longrightarrow>
     \<exists>url uri. tf_callbackUrl task = Some url \<and> parseUrl url = Some uri \<and> js_toLowerCase (strip_colon (pu_protocol uri)) = ''https'' \<and>
       \<not> isPrivateHost (pu_hostname uri)"
  by (auto simp: fires_callback_def execute_guards_def truthy_def validateCallbackUrl_def split: sum.splits if_splits option.splits)


lemma chain3_valid: "validateDag (dag_of chain3) = DagOk [''a'', ''b'', ''c''] [''a''] [''c'']"
  by (simp add: validateDag_def MAX_DAG_NODES_def build_graph_def add_edge_def successors_def js_get_def js_set_def roots_of_def Let_def
      dag_of_def chain3_def plain_task_def plain_node_def)

lemma chain3_consistent: "inputs_consistent chain3"
  by (simp add: inputs_consistent_def chain3_def plain_task_def plain_node_def inputs_of_def required_k_def)



section \<open>The callback guard\<close>

definition in_block :: "nat \<Rightarrow> nat \<times> nat \<Rightarrow> bool" where
  "in_block ip block = (ip div 2 ^ (32 - snd block) = fst block div 2 ^ (32 - snd block))"

definition ipv4 :: "nat \<Rightarrow> nat \<Rightarrow> nat \<Rightarrow> nat \<Rightarrow> nat" where
  "ipv4 a b c d = ((a * 256 + b) * 256 + c) * 256 + d"

definition dotted :: "nat \<Rightarrow> nat \<Rightarrow> nat \<Rightarrow> nat \<Rightarrow> string" where
  "dotted a b c d = js_nat_string a @ ''.'' @ js_nat_string b @ ''.'' @ js_nat_string c @ ''.'' @ js_nat_string d"

definition private_blocks :: "(nat \<times> nat) list" where
  "private_blocks = [(ipv4 127 0 0 0, 8), (ipv4 10 0 0 0, 8), (ipv4 0 0 0 0, 8), (ipv4 172 16 0 0, 12), (ipv4 192 168 0 0, 16), (ipv4 169 254 0 0, 16)]"

lemma js_nat_string_octet: "n \<le> 255 \<Longrightarrow> length (js_nat_string n) \<le> 3"
  by (simp add: js_nat_string.simps [of n] js_nat_string.simps [of "n div 10"] js_nat_string.simps [of "n div 100"] div_mult2_eq [symmetric])

lemma split_dotted: "js_split CHR ''.'' (dotted a b c d) = [js_nat_string a, js_nat_string b, js_nat_string c, js_nat_string d]"
proof -
  have nd: "CHR ''.'' \<notin> set (js_nat_string n)" for n
    using js_nat_string_digits [of "CHR ''.''" n] by (auto simp: js_is_digit_def)
  show ?thesis by (simp add: dotted_def js_split_sep [OF nd] js_split_no_sep [OF nd])
qed

lemma isIpv4_dotted: "a \<le> 255 \<Longrightarrow> b \<le> 255 \<Longrightarrow> c \<le> 255 \<Longrightarrow> d \<le> 255 \<Longrightarrow> isIpv4 (dotted a b c d)"
  by (simp add: isIpv4_def split_dotted js_nat_string_octet js_digits_value_nat_string list_all_iff js_nat_string_digits Suc_le_eq)

lemma hd_digit: "js_is_digit (hd (js_nat_string a))"
  using js_nat_string_digits [of "hd (js_nat_string a)" a] by simp

lemma strip_dotted: "strip_brackets (dotted a b c d) = dotted a b c d"
proof -
  have "js_is_digit (hd (dotted a b c d))" using hd_digit [of a] by (simp add: dotted_def)
  moreover have "js_is_digit (last (dotted a b c d))"
    using js_nat_string_digits [of "last (js_nat_string d)" d] by (simp add: dotted_def)
  ultimately show ?thesis by (auto simp: strip_brackets_def js_is_digit_def Let_def)
qed

lemma dotted_not_localhost: "js_toLowerCase (dotted a b c d) \<noteq> ''localhost''"
proof
  assume eq: "js_toLowerCase (dotted a b c d) = ''localhost''"
  have "hd (js_toLowerCase (dotted a b c d)) = js_lower_char (hd (js_nat_string a))"
    by (simp add: js_toLowerCase_def dotted_def hd_append hd_map)
  moreover have "js_lower_char x = x" if "js_is_digit x" for x using that by (auto simp: js_lower_char_def js_is_digit_def Let_def)
  ultimately have "js_is_digit (CHR ''l'')" using hd_digit [of a] eq by simp
  then show False by (simp add: js_is_digit_def)
qed

lemma ipv4_prefix:
  assumes "b \<le> 255" "c \<le> 255" "d \<le> 255"
  shows "ipv4 a b c d div 2 ^ 24 = a" "ipv4 a b c d div 2 ^ 20 = a * 16 + b div 16" "ipv4 a b c d div 2 ^ 16 = a * 256 + b"
proof -
  show 16: "ipv4 a b c d div 2 ^ 16 = a * 256 + b" using assms by (simp add: ipv4_def)
  have "ipv4 a b c d div 2 ^ 24 = (a * 256 + b) div 256" "ipv4 a b c d div 2 ^ 20 = (a * 256 + b) div 16"
    unfolding 16 [symmetric] div_mult2_eq [symmetric] by simp_all
  then show "ipv4 a b c d div 2 ^ 24 = a" "ipv4 a b c d div 2 ^ 20 = a * 16 + b div 16" using assms(1) by simp_all
qed

lemma digits_eq:
  fixes a b x y n :: nat
  assumes "b < n" "y < n"
  shows "a * n + b = x * n + y \<longleftrightarrow> a = x \<and> b = y"
proof
  assume eq: "a * n + b = x * n + y"
  have "(a * n + b) div n = (x * n + y) div n" "(a * n + b) mod n = (x * n + y) mod n" using eq by simp_all
  then show "a = x \<and> b = y" using assms by simp
qed simp

lemma in_block_octets:
  assumes "b \<le> 255" "c \<le> 255" "d \<le> 255"
  shows "in_block (ipv4 a b c d) (ipv4 x 0 0 0, 8) \<longleftrightarrow> a = x"
    and "y \<le> 255 \<Longrightarrow> in_block (ipv4 a b c d) (ipv4 x y 0 0, 16) \<longleftrightarrow> a = x \<and> b = y"
    and "y \<le> 15 \<Longrightarrow> in_block (ipv4 a b c d) (ipv4 x (16 * y) 0 0, 12) \<longleftrightarrow> a = x \<and> 16 * y \<le> b \<and> b \<le> 16 * y + 15"
proof -
  show "in_block (ipv4 a b c d) (ipv4 x 0 0 0, 8) \<longleftrightarrow> a = x"
    unfolding in_block_def fst_conv snd_conv using ipv4_prefix(1) [OF assms] ipv4_prefix(1) [of 0 0 0 x] by simp
  show "in_block (ipv4 a b c d) (ipv4 x y 0 0, 16) \<longleftrightarrow> a = x \<and> b = y" if "y \<le> 255"
    unfolding in_block_def fst_conv snd_conv using ipv4_prefix(3) [OF assms, of a] ipv4_prefix(3) [of y 0 0 x] that assms(1)
      digits_eq [of b 256 y a x] by simp
  show "in_block (ipv4 a b c d) (ipv4 x (16 * y) 0 0, 12) \<longleftrightarrow> a = x \<and> 16 * y \<le> b \<and> b \<le> 16 * y + 15" if "y \<le> 15"
    unfolding in_block_def fst_conv snd_conv using ipv4_prefix(2) [OF assms, of a] ipv4_prefix(2) [of "16 * y" 0 0 x] that assms(1)
      digits_eq [of "b div 16" 16 y a x] by simp linarith
qed

lemma private_blocks_octets:
  assumes "a \<le> 255" "b \<le> 255" "c \<le> 255" "d \<le> 255"
  shows "list_ex (in_block (ipv4 a b c d)) private_blocks \<longleftrightarrow>
     a = 127 \<or> a = 10 \<or> a = 0 \<or> (a = 172 \<and> b \<ge> 16 \<and> b \<le> 31) \<or> (a = 192 \<and> b = 168) \<or> (a = 169 \<and> b = 254)"
  using in_block_octets(1) [OF assms(2-4), of a] in_block_octets(2) [OF assms(2-4), where a = a] in_block_octets(3) [OF assms(2-4), of 1 a 172]
  by (simp add: private_blocks_def)

text \<open>A callback to an \<open>https\<close> host in dotted IPv4 form is refused exactly when the address lies in one of the blocks
  127/8, 10/8, 0/8, 172.16/12, 192.168/16 and 169.254/16.\<close>

theorem callback_ipv4_guard:
  assumes "a \<le> 255" "b \<le> 255" "c \<le> 255" "d \<le> 255" "js_trim url \<noteq> []"
    and "parseUrl url = Some \<lparr>pu_protocol = ''https:'', pu_hostname = dotted a b c d\<rparr>"
  shows "validateCallbackUrl parseUrl url = (if list_ex (in_block (ipv4 a b c d)) private_blocks then Some CallbackPrivateHost else None)"
proof -
  have ne: "dotted a b c d \<noteq> []" by (simp add: dotted_def)
  have "isPrivateHost (dotted a b c d) \<longleftrightarrow> list_ex (in_block (ipv4 a b c d)) private_blocks"
    unfolding private_blocks_octets [OF assms(1-4)]
    using isIpv4_dotted [OF assms(1-4)] ne
    by (simp add: isPrivateHost_def dotted_not_localhost strip_dotted isPrivateIpv4_def split_dotted js_digits_value_nat_string)
  moreover have "js_toLowerCase (strip_colon ''https:'') = ''https''" by (simp add: strip_colon_def js_toLowerCase_def js_lower_char_def)
  ultimately show ?thesis using assms(5,6) by (simp add: validateCallbackUrl_def)
qed

theorem callback_ipv4_guard_witness:
  "validateCallbackUrl (\<lambda>u. Some \<lparr>pu_protocol = ''https:'', pu_hostname = dotted 172 20 0 1\<rparr>) ''https://172.20.0.1/'' = Some CallbackPrivateHost"
  using callback_ipv4_guard [of 172 20 0 1 "''https://172.20.0.1/''" "\<lambda>u. Some \<lparr>pu_protocol = ''https:'', pu_hostname = dotted 172 20 0 1\<rparr>"]
  by (simp add: private_blocks_def in_block_def ipv4_def js_trim_def js_is_ws_def)

text \<open>An IPv4-mapped host is recognised in its dotted form only. The \<open>URL\<close> class prints the host of
  \<open>https://[::ffff:10.0.0.1]/\<close> as \<open>[::ffff:a00:1]\<close>, which passes; so do the unique local addresses \<open>fc00::/7\<close>.\<close>

lemma callback_guard_gaps:
  "isPrivateHost ''[::ffff:10.0.0.1]''" "\<not> isPrivateHost ''[::ffff:a00:1]''" "\<not> isPrivateHost ''[fd00::1]''" "\<not> isPrivateHost ''[::]''"
  by (simp_all add: isPrivateHost_def isPrivateIpv6_def isPrivateIpv4_def isIpv4_def strip_brackets_def js_toLowerCase_def js_lower_char_def
      js_startsWith_def dotted_digits_def js_is_digit_def js_digits_value_def)

section \<open>The callback\<close>

lemma callback_attempts_bound: "fst (callback_attempts base respond left attempt) \<le> left"
proof (induction left arbitrary: attempt)
  case (Suc left)
  from Suc.IH [of "Suc attempt"] show ?case
    by (cases "callback_attempts base respond left (Suc attempt)") simp
qed simp

text \<open>At most three attempts, none after a successful one; by default with delays of one and two seconds between them.\<close>

lemma fireCallback_bound: "fst (fireCallback opts respond) \<le> 3"
  using callback_attempts_bound [of _ respond 3 1] by (simp add: fireCallback_def CallbackMaxRetries_def)

lemma fireCallback_delays: "fireCallback default_options (\<lambda>k. False) = (3, [1000, 2000])"
  by (simp add: fireCallback_def CallbackMaxRetries_def default_options_def numeral_3_eq_3)

end
