(* ===== verification/Base64.thy ===== *)
theory Base64
  imports Prelude
begin

text \<open>
  Base64 as the sources use it through \<open>Buffer\<close>: \<open>toString("base64")\<close> of bytes, with padding, and
  \<open>Buffer.from(text, "base64")\<close>, which reads both alphabets and skips every other character. Bytes are
  characters of code below 256.

  Proved: decoding an encoded text returns it, also after the padding has been cut off and the text has been
  rewritten to the alphabet for URLs.
\<close>

definition b64_alphabet :: string where
  "b64_alphabet = ''ABCDEFGHIJKLMNOPQRSTUVWXYZabcdefghijklmnopqrstuvwxyz0123456789+/''"

definition b64_digit :: "nat \<Rightarrow> char" where
  "b64_digit n = b64_alphabet ! n"

definition b64_value :: "char \<Rightarrow> nat option" where
  "b64_value c = (let n = (of_char c :: nat) in
     if 65 \<le> n \<and> n \<le> 90 then Some (n - 65)
     else if 97 \<le> n \<and> n \<le> 122 then Some (n - 71)
     else if 48 \<le> n \<and> n \<le> 57 then Some (n + 4)
     else if c = CHR ''+'' \<or> c = CHR ''-'' then Some 62
     else if c = CHR ''/'' \<or> c = CHR ''_'' then Some 63
     else None)"

fun b64_sextets :: "nat list \<Rightarrow> nat list" where
  "b64_sextets [] = []"
| "b64_sextets [a] = [a div 4, a mod 4 * 16]"
| "b64_sextets [a, b] = [a div 4, a mod 4 * 16 + b div 16, b mod 16 * 4]"
| "b64_sextets (a # b # c # bs) = [a div 4, a mod 4 * 16 + b div 16, b mod 16 * 4 + c div 64, c mod 64] @ b64_sextets bs"

fun b64_bytes :: "nat list \<Rightarrow> nat list" where
  "b64_bytes (w # x # y # z # ss) = [w * 4 + x div 16, x mod 16 * 16 + y div 4, y mod 4 * 64 + z] @ b64_bytes ss"
| "b64_bytes [w, x, y] = [w * 4 + x div 16, x mod 16 * 16 + y div 4]"
| "b64_bytes [w, x] = [w * 4 + x div 16]"
| "b64_bytes _ = []"

definition b64_padding :: "nat \<Rightarrow> string" where
  "b64_padding n = (if n mod 3 = 1 then ''=='' else if n mod 3 = 2 then ''='' else [])"

definition b64_encode :: "string \<Rightarrow> string" where
  "b64_encode s = map b64_digit (b64_sextets (map of_char s)) @ b64_padding (length s)"

definition b64_decode :: "string \<Rightarrow> string" where
  "b64_decode t = map char_of (b64_bytes (List.map_filter b64_value t))"

text \<open>The rewriting to and from the alphabet for URLs, with the padding cut off and put back.\<close>

definition strip_equals :: "string \<Rightarrow> string" where
  "strip_equals s = rev (dropWhile (\<lambda>c. c = CHR ''='') (rev s))"

definition to_url :: "char \<Rightarrow> char" where
  "to_url c = (if c = CHR ''+'' then CHR ''-'' else if c = CHR ''/'' then CHR ''_'' else c)"

definition from_url :: "char \<Rightarrow> char" where
  "from_url c = (if c = CHR ''-'' then CHR ''+'' else if c = CHR ''_'' then CHR ''/'' else c)"

definition b64_url :: "string \<Rightarrow> string" where
  "b64_url s = map to_url (strip_equals s)"

definition b64_unurl :: "string \<Rightarrow> string" where
  "b64_unurl s = (let padded = map from_url s; r = length padded mod 4 in
     if r = 2 then padded @ ''=='' else if r = 3 then padded @ ''='' else padded)"

section \<open>Round trips\<close>

lemma b64_bytes_sextets: "\<forall>b \<in> set bs. b < 256 \<Longrightarrow> b64_bytes (b64_sextets bs) = bs"
proof (induction bs rule: b64_sextets.induct)
  case (2 a)
  then show ?case by simp
next
  case (3 a b)
  then have "(a mod 4 * 16 + b div 16) div 16 = a mod 4" "(a mod 4 * 16 + b div 16) mod 16 = b div 16" by auto
  then show ?case by simp
next
  case (4 a b c bs)
  then have "(a mod 4 * 16 + b div 16) div 16 = a mod 4" "(a mod 4 * 16 + b div 16) mod 16 = b div 16"
    "(b mod 16 * 4 + c div 64) div 4 = b mod 16" "(b mod 16 * 4 + c div 64) mod 4 = c div 64" by auto
  then show ?case using 4 by simp
qed simp

lemma b64_sextets_less: "\<forall>b \<in> set bs. b < 256 \<Longrightarrow> s \<in> set (b64_sextets bs) \<Longrightarrow> s < 64"
  by (induction bs rule: b64_sextets.induct) auto

lemma b64_value_digit: "n < 64 \<Longrightarrow> b64_value (b64_digit n) = Some n \<and> b64_value (to_url (b64_digit n)) = Some n \<and> b64_digit n \<noteq> CHR ''=''"
proof -
  assume "n < 64"
  then have "n \<in> set [0..<64]" by simp
  moreover have "list_all (\<lambda>n. b64_value (b64_digit n) = Some n \<and> b64_value (to_url (b64_digit n)) = Some n \<and> b64_digit n \<noteq> CHR ''='') [0..<64]"
    by (simp add: upt_rec b64_value_def b64_digit_def b64_alphabet_def to_url_def)
  ultimately show ?thesis by (auto simp: list_all_iff)
qed

lemma of_char_less: "(of_char c :: nat) < 256"
  by (metis of_char_mod_256 mod_less_divisor zero_less_numeral)

lemma map_filter_digits:
  assumes "\<forall>s \<in> set ss. s < 64"
  shows "List.map_filter b64_value (map b64_digit ss) = ss" "List.map_filter b64_value (map (to_url \<circ> b64_digit) ss) = ss"
  using assms b64_value_digit by (induction ss) (auto simp: List.map_filter_simps)

lemma map_filter_padding [simp]: "List.map_filter b64_value (t @ b64_padding n) = List.map_filter b64_value t"
  by (auto simp: List.map_filter_def b64_padding_def b64_value_def)

lemma b64_decode_encode: "b64_decode (b64_encode s) = s"
proof -
  have small: "\<forall>b \<in> set (map of_char s :: nat list). b < 256" using of_char_less by auto
  then have "\<forall>x \<in> set (b64_sextets (map of_char s)). x < 64" using b64_sextets_less by blast
  then show ?thesis
    by (simp add: b64_decode_def b64_encode_def map_filter_digits(1) b64_bytes_sextets [OF small] comp_def)
qed

lemma strip_equals_encode: "strip_equals (b64_encode s) = map b64_digit (b64_sextets (map of_char s))"
proof -
  let ?ss = "b64_sextets (map of_char s)"
  have "\<forall>x \<in> set ?ss. x < 64" using b64_sextets_less of_char_less by (metis (no_types, lifting) imageE list.set_map)
  then have nd: "\<forall>c \<in> set (map b64_digit ?ss). c \<noteq> CHR ''=''" using b64_value_digit by auto
  have "dropWhile (\<lambda>c. c = CHR ''='') r = r" if "\<forall>c \<in> set r. c \<noteq> CHR ''=''" for r using that by (cases r) auto
  from this [of "rev (map b64_digit ?ss)"] nd
  have "dropWhile (\<lambda>c. c = CHR ''='') (rev (map b64_digit ?ss)) = rev (map b64_digit ?ss)" by simp
  then have "dropWhile (\<lambda>c. c = CHR ''='') (rev (b64_padding n) @ rev (map b64_digit ?ss)) = rev (map b64_digit ?ss)" for n
    by (simp add: b64_padding_def)
  then show ?thesis by (simp add: strip_equals_def b64_encode_def)
qed

lemma from_to_url: "c \<notin> {CHR ''-'', CHR ''_''} \<Longrightarrow> from_url (to_url c) = c"
  by (auto simp: from_url_def to_url_def)

lemma b64_value_from_url [simp]: "b64_value (from_url c) = b64_value c"
  by (auto simp: from_url_def b64_value_def)

lemma map_filter_from_url: "List.map_filter b64_value (map from_url t) = List.map_filter b64_value t"
  by (induction t) (auto simp: List.map_filter_simps split: option.splits)

lemma map_filter_equals: "List.map_filter b64_value (t @ ''=='') = List.map_filter b64_value t" "List.map_filter b64_value (t @ ''='') = List.map_filter b64_value t"
  by (simp_all add: List.map_filter_def b64_value_def)

lemma b64_url_roundtrip: "b64_decode (b64_unurl (b64_url (b64_encode s))) = s"
proof -
  let ?ss = "b64_sextets (map of_char s)"
  have small: "\<forall>b \<in> set (map of_char s :: nat list). b < 256" using of_char_less by auto
  then have "\<forall>x \<in> set ?ss. x < 64" using b64_sextets_less by blast
  then have "List.map_filter b64_value (b64_url (b64_encode s)) = ?ss"
    by (simp add: b64_url_def strip_equals_encode map_filter_digits(2) [unfolded comp_def] comp_def)
  then have "List.map_filter b64_value (b64_unurl (b64_url (b64_encode s))) = ?ss"
    by (simp add: b64_unurl_def Let_def map_filter_equals map_filter_from_url)
  then show ?thesis by (simp add: b64_decode_def b64_bytes_sextets [OF small] comp_def)
qed

end
