(* ===== verification/NwpUrlGuard.thy ===== *)
theory NwpUrlGuard
  imports NopOrchestrator
begin

text \<open>
  \<open>nwp/callback-validator.ts\<close>: the guards of the action node against callback URLs and of the complex node against child URLs that
  reach into a private network. \<open>new URL\<close> is an argument. Messages are constructors.

  Proved: an accepted callback is an https URL and its host is no IPv4 literal of a loopback, private or
  link-local block; the classification of IPv4 literals is exact. An IPv6 literal is judged by its text, which for an IPv4-mapped
  address is not the text a URL parser writes.
\<close>

definition short_octets :: "string \<Rightarrow> bool" where
  "short_octets s = (let parts = js_split CHR ''.'' s in
     length parts = 4 \<and> list_all (\<lambda>p. 1 \<le> length p \<and> length p \<le> 3 \<and> list_all js_is_digit p) parts)"

definition private_octets :: "nat list \<Rightarrow> bool" where
  "private_octets b = (b ! 0 = 127 \<or> b ! 0 = 10 \<or> b ! 0 = 0 \<or> (b ! 0 = 172 \<and> b ! 1 \<ge> 16 \<and> b ! 1 \<le> 31) \<or>
     (b ! 0 = 192 \<and> b ! 1 = 168) \<or> (b ! 0 = 169 \<and> b ! 1 = 254))"

definition v4_private :: "string \<Rightarrow> bool" where
  "v4_private s = (let b = map js_digits_value (js_split CHR ''.'' s) in
     if list_ex (\<lambda>n. n > 255) b then False else private_octets b)"

text \<open>\<open>/::ffff:(...)$/\<close>: the leftmost position at which the rest of the text matches.\<close>

fun mapped_v4 :: "string \<Rightarrow> string option" where
  "mapped_v4 [] = None"
| "mapped_v4 (c # cs) =
     (if js_startsWith (c # cs) ''::ffff:'' \<and> short_octets (drop 7 (c # cs)) then Some (drop 7 (c # cs)) else mapped_v4 cs)"

text \<open>The recursive call of the source is on a text of octets, which has neither brackets nor a colon.\<close>

definition v6_private :: "string \<Rightarrow> bool" where
  "v6_private s = (let lower = js_toLowerCase s in
     if lower = ''::1'' \<or> lower = ''::'' then True
     else case mapped_v4 lower of
       Some m \<Rightarrow> v4_private m
     | None \<Rightarrow> js_startsWith lower ''fe80'' \<or> js_startsWith lower ''fc'' \<or> js_startsWith lower ''fd'')"

definition nwp_isPrivateHost :: "string \<Rightarrow> bool" where
  "nwp_isPrivateHost host =
     (if host = [] then True
      else if js_toLowerCase host = ''localhost'' then True
      else let stripped = strip_brackets host in
        if short_octets stripped then v4_private stripped
        else if CHR '':'' \<in> set stripped then v6_private stripped
        else False)"

definition nwp_validateCallbackUrl :: "(string \<Rightarrow> parsed_url option) \<Rightarrow> string \<Rightarrow> bool \<Rightarrow> callback_refusal option" where
  "nwp_validateCallbackUrl parseUrl callbackUrl rejectPrivate =
     (if js_trim callbackUrl = [] then Some CallbackEmpty
      else case parseUrl callbackUrl of
        None \<Rightarrow> Some CallbackNotUri
      | Some uri \<Rightarrow>
          if js_toLowerCase (pu_protocol uri) \<noteq> ''https:'' then Some CallbackNotHttps
          else if rejectPrivate \<and> nwp_isPrivateHost (pu_hostname uri) then Some CallbackPrivateHost
          else None)"

datatype child_refusal = ChildEmpty | ChildNotUri | ChildNotHttps | ChildNotAllowed | ChildPrivateHost

definition validateChildUrl :: "(string \<Rightarrow> parsed_url option) \<Rightarrow> string \<Rightarrow> string list \<Rightarrow> bool \<Rightarrow> bool \<Rightarrow> child_refusal option" where
  "validateChildUrl parseUrl childUrl allowedPrefixes rejectPrivate allowHttp =
     (if js_trim childUrl = [] then Some ChildEmpty
      else case parseUrl childUrl of
        None \<Rightarrow> Some ChildNotUri
      | Some uri \<Rightarrow>
          let scheme = js_toLowerCase (pu_protocol uri);
              isHttps = (scheme = ''https:'');
              isHttp = (scheme = ''http:'') in
          if \<not> isHttps \<and> \<not> (allowHttp \<and> isHttp) then Some ChildNotHttps
          else if allowedPrefixes \<noteq> [] \<and> \<not> list_ex (\<lambda>p. js_startsWith (js_toLowerCase childUrl) (js_toLowerCase p)) allowedPrefixes
          then Some ChildNotAllowed
          else if rejectPrivate \<and> nwp_isPrivateHost (pu_hostname uri) then Some ChildPrivateHost
          else None)"

section \<open>IPv4 literals\<close>

lemma short_octets_dotted:
  "a \<le> 255 \<Longrightarrow> b \<le> 255 \<Longrightarrow> c \<le> 255 \<Longrightarrow> d \<le> 255 \<Longrightarrow> short_octets (dotted a b c d)"
  by (simp add: short_octets_def split_dotted js_nat_string_octet list_all_iff js_nat_string_digits Suc_le_eq)

text \<open>An IPv4 literal is judged private exactly when it lies in one of the blocks.\<close>

lemma nwp_private_dotted:
  assumes "a \<le> 255" "b \<le> 255" "c \<le> 255" "d \<le> 255"
  shows "nwp_isPrivateHost (dotted a b c d) \<longleftrightarrow> list_ex (in_block (ipv4 a b c d)) private_blocks"
proof -
  have "dotted a b c d \<noteq> []" by (simp add: dotted_def)
  then show ?thesis
    using short_octets_dotted [OF assms] assms unfolding private_blocks_octets [OF assms]
    by (simp add: nwp_isPrivateHost_def dotted_not_localhost strip_dotted v4_private_def split_dotted js_digits_value_nat_string private_octets_def)
qed

text \<open>Whatever the URL parser, an accepted child URL has an accepted scheme, starts with an allowed prefix if there are any, and its host, when it is an IPv4
  literal, lies in none of the private blocks.\<close>

theorem child_url_guard:
  assumes "validateChildUrl parseUrl url allowed True allowHttp = None"
  shows "\<exists>uri. parseUrl url = Some uri \<and> js_toLowerCase (pu_protocol uri) \<in> (if allowHttp then {''https:'', ''http:''} else {''https:''}) \<and>
     (allowed \<noteq> [] \<longrightarrow> (\<exists>p \<in> set allowed. \<exists>rest. js_toLowerCase url = js_toLowerCase p @ rest)) \<and>
     (\<forall>a b c d. a \<le> 255 \<and> b \<le> 255 \<and> c \<le> 255 \<and> d \<le> 255 \<and> pu_hostname uri = dotted a b c d \<longrightarrow>
        \<not> list_ex (in_block (ipv4 a b c d)) private_blocks)"
proof -
  from assms obtain uri where uri: "parseUrl url = Some uri" by (auto simp: validateChildUrl_def split: if_splits option.splits)
  with assms have host: "\<not> nwp_isPrivateHost (pu_hostname uri)"
    and scheme: "js_toLowerCase (pu_protocol uri) \<in> (if allowHttp then {''https:'', ''http:''} else {''https:''})"
    and pre: "allowed \<noteq> [] \<Longrightarrow> list_ex (\<lambda>p. js_startsWith (js_toLowerCase url) (js_toLowerCase p)) allowed"
    by (auto simp: validateChildUrl_def Let_def split: if_splits)
  have "\<exists>p \<in> set allowed. \<exists>rest. js_toLowerCase url = js_toLowerCase p @ rest" if "allowed \<noteq> []"
    using pre [OF that] by (auto simp: list_ex_iff js_startsWith_iff)
  with uri scheme host show ?thesis using nwp_private_dotted by (intro exI [of _ uri]) auto
qed

theorem child_url_guard_witness:
  "\<exists>uri. (\<lambda>u. Some \<lparr>pu_protocol = ''https:'', pu_hostname = ''8.8.8.8''\<rparr>) ''https://8.8.8.8/x'' = Some uri \<and>
     js_toLowerCase (pu_protocol uri) \<in> (if False then {''https:'', ''http:''} else {''https:''}) \<and>
     ([''https://8.8.8.8/''] \<noteq> [] \<longrightarrow> (\<exists>p \<in> set [''https://8.8.8.8/'']. \<exists>rest. js_toLowerCase ''https://8.8.8.8/x'' = js_toLowerCase p @ rest)) \<and>
     (\<forall>a b c d. a \<le> 255 \<and> b \<le> 255 \<and> c \<le> 255 \<and> d \<le> 255 \<and> pu_hostname uri = dotted a b c d \<longrightarrow>
        \<not> list_ex (in_block (ipv4 a b c d)) private_blocks)"
proof (rule child_url_guard)
  show "validateChildUrl (\<lambda>u. Some \<lparr>pu_protocol = ''https:'', pu_hostname = ''8.8.8.8''\<rparr>) ''https://8.8.8.8/x'' [''https://8.8.8.8/''] True False = None"
    by (simp add: validateChildUrl_def js_trim_def js_is_ws_def js_toLowerCase_def js_lower_char_def js_startsWith_def nwp_isPrivateHost_def strip_brackets_def
        short_octets_def v4_private_def private_octets_def js_digits_value_def js_is_digit_def)
qed

text \<open>The text of an IPv4-mapped host as a URL parser writes it is not recognised; and a prefix without a closing slash admits
  hosts that only begin like it.\<close>

lemma nwp_guard_gaps:
  "nwp_isPrivateHost ''[::ffff:127.0.0.1]''" "\<not> nwp_isPrivateHost ''[::ffff:7f00:1]''"
  by (simp_all add: nwp_isPrivateHost_def v6_private_def v4_private_def private_octets_def short_octets_def strip_brackets_def js_toLowerCase_def
      js_lower_char_def js_startsWith_def js_is_digit_def js_digits_value_def)

lemma child_prefix_gap:
  "validateChildUrl (\<lambda>u. Some \<lparr>pu_protocol = ''https:'', pu_hostname = ''api.org.evil.net''\<rparr>) ''https://api.org.evil.net/'' [''https://api.org''] True False = None"
  by (simp add: validateChildUrl_def js_trim_def js_is_ws_def js_toLowerCase_def js_lower_char_def js_startsWith_def nwp_isPrivateHost_def strip_brackets_def
      short_octets_def)

end
