(* ===== verification/NwpActionServer.thy ===== *)
theory NwpActionServer
  imports NwpUrlGuard JsonText NwpTaskStore
begin

text \<open>
  \<open>nwp/action-server.ts\<close>: the Action Node. A request is handled in stages separated by the points where the source awaits the provider: its
  authorization, its execution, its stream. Requests, task completions and their interleaving are events of one
  machine over the task store and the idempotency cache (\<open>NwpTaskStore\<close>). What the provider answers, and whether the timer
  or a cancellation comes first, is part of the event; clock readings and random identifiers too.

  The body of a request is given as decoded, with the types of \<open>ActionFrame\<close>. Responses keep status, headers and JSON body; the text of error messages
  is left out. \<open>new URL\<close>, SHA-256, the printers of numbers and dates are arguments.

  Proved: a stream response is well formed whatever the provider yields; a finished or cancelled task keeps its outcome over every interleaving; only the
  caller that created a task reads or cancels it; a stored answer is replayed, to its own caller only, and other parameters under its key are
  refused; the timeout of a request is bounded.
\<close>

section \<open>Options, frames and responses\<close>

record ActionSpec =
  asp_description :: "string option"
  asp_paramsAnchor :: "string option"
  asp_resultAnchor :: "string option"
  asp_async :: "bool option"
  asp_idempotent :: "bool option"
  asp_timeoutMsDefault :: "rat option"
  asp_timeoutMsMax :: "rat option"
  asp_requiredCapability :: "string option"

record ActionNodeOptions =
  ano_nodeId :: string
  ano_displayName :: "string option"
  ano_actions :: "(string, ActionSpec) jsmap"
  ano_pathPrefix :: string
  ano_requireAuth :: "bool option"
  ano_defaultTimeoutMs :: "rat option"
  ano_maxTimeoutMs :: "rat option"
  ano_idempotencyTtlMs :: "int option"
  ano_taskRetentionMs :: "int option"
  ano_rejectPrivateCallbackUrls :: "bool option"
  ano_defaultTokenBudget :: "rat option"
  ano_profiles :: "jsobj option"

text \<open>The platform: URL parser, digest, printers.\<close>

record action_env =
  ae_opt :: ActionNodeOptions
  ae_parseUrl :: "string \<Rightarrow> parsed_url option"
  ae_sha256 :: "string \<Rightarrow> string"
  ae_numStr :: "rat \<Rightarrow> string"
  ae_iso :: "int \<Rightarrow> string"

record ActionFrame =
  af_actionId :: string
  af_params :: "jsobj option"
  af_async :: "bool option"
  af_idempotencyKey :: "string option"
  af_timeoutMs :: "rat option"
  af_requestId :: "string option"

record invoke_body =
  ib_frame :: ActionFrame
  ib_priority :: "string option"
  ib_callbackUrl :: "string option"
  ib_requestId :: "string option"
  ib_wireInputBytes :: nat

record ActionExecutionResult =
  aer_result :: "jsval option"
  aer_stream :: bool
  aer_anchorRef :: "string option"
  aer_tokenEst :: "rat option"

record ActionContext =
  acx_agentNid :: "string option"
  acx_requestId :: "string option"
  acx_taskId :: "string option"
  acx_spec :: ActionSpec
  acx_timeoutMs :: rat
  acx_priority :: string
  acx_wireInputBytes :: nat

datatype provider_error = ActionExecutionError nat string string string | OtherError string

datatype http_body = NoBody | JsonBody jsval | ErrorBody string string | LinesBody "StreamFrame list"

record http_response =
  hr_status :: nat
  hr_headers :: "(string \<times> string) list"
  hr_body :: http_body

definition SYSTEM_TASK_STATUS :: string where "SYSTEM_TASK_STATUS = ''system.task.status''"
definition SYSTEM_TASK_CANCEL :: string where "SYSTEM_TASK_CANCEL = ''system.task.cancel''"

definition opt_or :: "'a \<Rightarrow> 'a option \<Rightarrow> 'a" where
  "opt_or d x = (case x of None \<Rightarrow> d | Some v \<Rightarrow> v)"

definition an_requireAuth :: "ActionNodeOptions \<Rightarrow> bool" where
  "an_requireAuth o' = opt_or False (ano_requireAuth o')"

definition an_defaultTimeoutMs :: "ActionNodeOptions \<Rightarrow> rat" where
  "an_defaultTimeoutMs o' = opt_or 5000 (ano_defaultTimeoutMs o')"

definition an_maxTimeoutMs :: "ActionNodeOptions \<Rightarrow> rat" where
  "an_maxTimeoutMs o' = opt_or 300000 (ano_maxTimeoutMs o')"

definition an_idempotencyTtlMs :: "ActionNodeOptions \<Rightarrow> int" where
  "an_idempotencyTtlMs o' = opt_or (24 * 60 * 60 * 1000) (ano_idempotencyTtlMs o')"

definition an_rejectPrivate :: "ActionNodeOptions \<Rightarrow> bool" where
  "an_rejectPrivate o' = opt_or True (ano_rejectPrivateCallbackUrls o')"

text \<open>The check of the constructor: true when it throws.\<close>

definition reserved_registered :: "ActionNodeOptions \<Rightarrow> bool" where
  "reserved_registered o' = (js_has (ano_actions o') SYSTEM_TASK_STATUS \<or> js_has (ano_actions o') SYSTEM_TASK_CANCEL)"

definition app_prefix :: "ActionNodeOptions \<Rightarrow> string" where
  "app_prefix o' = rev (dropWhile (\<lambda>c. c = CHR ''/'') (rev (ano_pathPrefix o')))"

definition errorResponse :: "nat \<Rightarrow> string \<Rightarrow> string \<Rightarrow> http_response" where
  "errorResponse status nps code = \<lparr>hr_status = status, hr_headers = [(''content-type'', ''application/json'')], hr_body = ErrorBody nps code\<rparr>"

definition notFound :: http_response where
  "notFound = \<lparr>hr_status = 404, hr_headers = [], hr_body = NoBody\<rparr>"

definition node_type_header :: "string \<times> string" where
  "node_type_header = (''x-nwp-node-type'', ''action'')"

definition asyncResponse :: "ActionNodeOptions \<Rightarrow> string \<Rightarrow> string \<Rightarrow> string option \<Rightarrow> rat option \<Rightarrow> http_response" where
  "asyncResponse o' taskId status requestId estimatedMs =
     \<lparr>hr_status = 202, hr_headers = [(''content-type'', ''application/json''), node_type_header],
      hr_body = JsonBody (JObj ([(''task_id'', JStr taskId), (''status'', JStr status), (''poll_url'', JStr (app_prefix o' @ ''/invoke''))] @
        (case estimatedMs of None \<Rightarrow> [] | Some n \<Rightarrow> [(''estimated_ms'', JNum n)]) @
        (case requestId of None \<Rightarrow> [] | Some r \<Rightarrow> [(''request_id'', JStr r)])))\<rparr>"

definition capsResponse :: "(rat \<Rightarrow> string) \<Rightarrow> jsval \<Rightarrow> string option \<Rightarrow> string option \<Rightarrow> rat \<Rightarrow> http_response" where
  "capsResponse numStr payload anchorRef requestId tokenEst =
     (let data = (if payload = JNull then [] else [payload]) in
      \<lparr>hr_status = 200,
       hr_headers = [(''content-type'', ''application/nwp-capsule''), node_type_header] @
         (case anchorRef of None \<Rightarrow> [] | Some a \<Rightarrow> [(''x-nwp-schema'', a)]) @
         (if tokenEst > 0 then [(''x-nwp-tokens'', numStr tokenEst)] else []) @
         (case requestId of None \<Rightarrow> [] | Some r \<Rightarrow> [(''x-nwp-request-id'', r)]),
       hr_body = JsonBody (JObj ([(''anchor_ref'', JStr (opt_or [] anchorRef)), (''count'', JNum (of_nat (length data))), (''data'', JArr data)] @
         (if tokenEst > 0 then [(''token_est'', JNum tokenEst)] else [])))\<rparr>)"

definition streamHeaders :: "string option \<Rightarrow> (string \<times> string) list" where
  "streamHeaders requestId = [(''content-type'', ''application/x-ndjson''), node_type_header] @
     (case requestId of None \<Rightarrow> [] | Some r \<Rightarrow> [(''x-nwp-request-id'', r)])"

section \<open>Manifest\<close>

definition opt_field :: "string \<Rightarrow> ('a \<Rightarrow> jsval) \<Rightarrow> 'a option \<Rightarrow> jsobj" where
  "opt_field name f x = (case x of None \<Rightarrow> [] | Some v \<Rightarrow> [(name, f v)])"

definition action_entry :: "ActionSpec \<Rightarrow> jsobj" where
  "action_entry spec = [(''async'', JBool (opt_or False (asp_async spec)))] @
     opt_field ''description'' JStr (asp_description spec) @ opt_field ''params_anchor'' JStr (asp_paramsAnchor spec) @
     opt_field ''result_anchor'' JStr (asp_resultAnchor spec) @ opt_field ''idempotent'' JBool (asp_idempotent spec) @
     opt_field ''timeout_ms_default'' JNum (asp_timeoutMsDefault spec) @ opt_field ''timeout_ms_max'' JNum (asp_timeoutMsMax spec) @
     opt_field ''required_capability'' JStr (asp_requiredCapability spec)"

definition actionsDict :: "ActionNodeOptions \<Rightarrow> jsobj" where
  "actionsDict o' = map (\<lambda>(actionId, spec). (actionId, JObj (action_entry spec))) (ano_actions o')"

definition supports_stream :: "ActionNodeOptions \<Rightarrow> bool" where
  "supports_stream o' = (case ano_profiles o' of
     Some ps \<Rightarrow> (case jo_get ps ''llm'' of Some (JObj llm) \<Rightarrow> jo_get llm ''supports_stream'' = Some (JBool True) | _ \<Rightarrow> False)
   | None \<Rightarrow> False)"

definition buildManifest :: "ActionNodeOptions \<Rightarrow> jsobj" where
  "buildManifest o' =
     [(''nwp'', JStr ''0.4''), (''node_id'', JStr (ano_nodeId o')), (''node_type'', JStr ''action''),
      (''display_name'', opt_str (ano_displayName o')), (''wire_formats'', JArr [JStr ''ncp-capsule'', JStr ''json'']),
      (''preferred_format'', JStr ''json''),
      (''capabilities'', JObj [(''query'', JBool False), (''stream'', JBool (supports_stream o')), (''token_budget_hint'', JBool True)]),
      (''auth'', JObj [(''required'', JBool (an_requireAuth o')),
         (''identity_type'', JStr (if an_requireAuth o' then ''nip-cert'' else ''none''))]),
      (''endpoints'', JObj [(''invoke'', JStr (app_prefix o' @ ''/invoke'')), (''schema'', JStr (app_prefix o' @ ''/.schema''))])] @
     opt_field ''profiles'' JObj (ano_profiles o')"

section \<open>Stream responses\<close>

text \<open>What the loop sees of the provider's iterator: each answer of \<open>next\<close>, with whether the signal was aborted while it was awaited. A list that ends is an
  iterator that is done.\<close>

datatype stream_answer = SItem StreamFrame | SThrow provider_error | SDone

type_synonym stream_events = "(bool \<times> stream_answer) list"

definition internalStreamError :: provider_error where
  "internalStreamError = ActionExecutionError 500 ''NPS-SERVER-INTERNAL'' ''NWP-NODE-UNAVAILABLE'' ''action stream''"

definition error_code :: "provider_error \<Rightarrow> string" where
  "error_code e = (case e of ActionExecutionError s n code m \<Rightarrow> code | OtherError m \<Rightarrow> ''NWP-NODE-UNAVAILABLE'')"

definition failure_frame :: "string \<Rightarrow> nat \<Rightarrow> provider_error \<Rightarrow> StreamFrame" where
  "failure_frame streamId nextSeq e = \<lparr>stf_streamId = streamId, stf_seq = of_nat nextSeq, stf_isLast = True, stf_data = [], stf_anchorRef = None,
     stf_windowSize = None, stf_errorCode = Some (error_code e)\<rparr>"

text \<open>The frames sent after the loop was left by an error.\<close>

definition stream_catch :: "string \<Rightarrow> nat \<Rightarrow> bool \<Rightarrow> bool \<Rightarrow> provider_error \<Rightarrow> StreamFrame list" where
  "stream_catch streamId nextSeq terminal aborted e = (if \<not> terminal \<and> \<not> aborted then [failure_frame streamId nextSeq e] else [])"

definition stream_refused :: "nat \<Rightarrow> bool \<Rightarrow> StreamFrame \<Rightarrow> bool" where
  "stream_refused nextSeq terminal supplied =
     (terminal \<or> stf_seq supplied \<noteq> of_nat nextSeq \<or> (stf_errorCode supplied \<noteq> None \<and> \<not> stf_isLast supplied))"

definition completed_frames :: "StreamFrame list \<Rightarrow> StreamFrame list option" where
  "completed_frames emitted = (if emitted \<noteq> [] \<and> stf_errorCode (last emitted) \<noteq> None then None else Some emitted)"

text \<open>The frames sent, and the frames handed to \<open>onComplete\<close> if it is called. \<open>emitted\<close> is what was sent before.\<close>

fun stream_loop :: "string \<Rightarrow> stream_events \<Rightarrow> nat \<Rightarrow> bool \<Rightarrow> StreamFrame list \<Rightarrow> StreamFrame list \<times> StreamFrame list option" where
  "stream_loop streamId [] nextSeq terminal emitted =
     (if terminal then (emitted, completed_frames emitted)
      else (emitted @ stream_catch streamId nextSeq terminal False internalStreamError, None))"
| "stream_loop streamId ((aborted, SDone) # es) nextSeq terminal emitted =
     (if terminal then (emitted, completed_frames emitted)
      else (emitted @ stream_catch streamId nextSeq terminal aborted internalStreamError, None))"
| "stream_loop streamId ((aborted, SThrow e) # es) nextSeq terminal emitted =
     (emitted @ stream_catch streamId nextSeq terminal aborted e, None)"
| "stream_loop streamId ((aborted, SItem supplied) # es) nextSeq terminal emitted =
     (if stream_refused nextSeq terminal supplied then (emitted @ stream_catch streamId nextSeq terminal aborted internalStreamError, None)
      else let sent = emitted @ [supplied\<lparr>stf_streamId := streamId\<rparr>] in
        if aborted then (sent, None)
        else stream_loop streamId es (Suc nextSeq) (stf_isLast supplied) sent)"

definition streamResponse :: "string \<Rightarrow> bool \<Rightarrow> stream_events \<Rightarrow> string option \<Rightarrow> http_response \<times> StreamFrame list option" where
  "streamResponse streamId aborted source requestId =
     (let (frames, completed) = (if aborted then ([], None) else stream_loop streamId source 0 False []) in
      (\<lparr>hr_status = 200, hr_headers = streamHeaders requestId, hr_body = LinesBody frames\<rparr>, completed))"

section \<open>The handlers\<close>

text \<open>\<open>actions[id]\<close> also finds the members that every object inherits; none of them has a field of a specification.\<close>

definition object_members :: "string list" where
  "object_members = [''constructor'', ''__defineGetter__'', ''__defineSetter__'', ''hasOwnProperty'', ''__lookupGetter__'', ''__lookupSetter__'',
     ''isPrototypeOf'', ''propertyIsEnumerable'', ''toString'', ''valueOf'', ''__proto__'', ''toLocaleString'']"

definition empty_spec :: ActionSpec where
  "empty_spec = \<lparr>asp_description = None, asp_paramsAnchor = None, asp_resultAnchor = None, asp_async = None, asp_idempotent = None,
     asp_timeoutMsDefault = None, asp_timeoutMsMax = None, asp_requiredCapability = None\<rparr>"

definition find_spec :: "ActionNodeOptions \<Rightarrow> string \<Rightarrow> ActionSpec option" where
  "find_spec o' actionId = (case js_get (ano_actions o') actionId of
     Some spec \<Rightarrow> Some spec
   | None \<Rightarrow> if actionId \<in> set object_members then Some empty_spec else None)"

definition clampTimeout :: "ActionNodeOptions \<Rightarrow> rat \<Rightarrow> ActionSpec \<Rightarrow> rat" where
  "clampTimeout o' requested spec =
     (let specMax = opt_or (an_maxTimeoutMs o') (asp_timeoutMsMax spec);
          hardMax = min specMax (an_maxTimeoutMs o') in
      if requested \<le> 0 then opt_or (an_defaultTimeoutMs o') (asp_timeoutMsDefault spec)
      else if requested > hardMax then hardMax else requested)"

definition scopedCacheActionId :: "ActionNodeOptions \<Rightarrow> string \<Rightarrow> string option \<Rightarrow> string" where
  "scopedCacheActionId o' actionId agentNid = ano_nodeId o' @ [CHR 0x1F] @ actionId @ [CHR 0x1F] @ opt_or [] agentNid"

definition hashParams :: "action_env \<Rightarrow> jsobj option \<Rightarrow> string" where
  "hashParams env params = ae_sha256 env (case params of None \<Rightarrow> ''null'' | Some p \<Rightarrow> json_stringify (ae_numStr env) (JObj p))"

definition readStringParam :: "jsobj option \<Rightarrow> string \<Rightarrow> string option" where
  "readStringParam params name = (case params of None \<Rightarrow> None | Some p \<Rightarrow> (case jo_get p name of Some (JStr s) \<Rightarrow> Some s | _ \<Rightarrow> None))"

text \<open>\<open>Promise.race\<close> of the provider, a cancellation and the timer. The flag is the controller's: set by the timer or by a cancel request.\<close>

datatype race = RaceProvider "provider_error + ActionExecutionResult" | RaceCancelled | RaceTimeout

definition executeWithTimeout :: "race \<Rightarrow> bool \<Rightarrow> (provider_error + ActionExecutionResult) \<times> bool" where
  "executeWithTimeout r aborted = (case r of
     RaceProvider (Inr res) \<Rightarrow> (if aborted then Inl (OtherError ''action execution cancelled'') else Inr res, aborted)
   | RaceProvider (Inl e) \<Rightarrow> (Inl e, aborted)
   | RaceCancelled \<Rightarrow> (Inl (OtherError ''action execution cancelled''), True)
   | RaceTimeout \<Rightarrow> (Inl (OtherError ''action execution timed out''), True))"

text \<open>The state of the application. \<open>ap_controllers\<close> holds, for every background task, whether its controller is aborted.\<close>

record action_app =
  ap_tasks :: task_store
  ap_idem :: idem_cache
  ap_controllers :: "(string, bool) jsmap"

definition bad_params :: http_response where
  "bad_params = errorResponse 400 ''NPS-CLIENT-BAD-REQUEST'' ''NWP-ACTION-PARAMS-INVALID''"

definition owned_task :: "ActionFrame \<Rightarrow> string option \<Rightarrow> task_store \<Rightarrow> http_response + ActionTaskRecord" where
  "owned_task frame agentNid s = (case readStringParam (af_params frame) ''task_id'' of
     None \<Rightarrow> Inl bad_params
   | Some taskId \<Rightarrow>
       if taskId = [] then Inl bad_params
       else case ts_get taskId s of
         None \<Rightarrow> Inl (errorResponse 404 ''NPS-CLIENT-NOT-FOUND'' ''NWP-TASK-NOT-FOUND'')
       | Some rc \<Rightarrow>
           if tr_agentNid rc \<noteq> agentNid then Inl (errorResponse 403 ''NPS-AUTH-FORBIDDEN'' ''NWP-AUTH-NID-SCOPE-VIOLATION'')
           else Inr rc)"

definition task_status_dict :: "action_env \<Rightarrow> ActionTaskRecord \<Rightarrow> jsobj" where
  "task_status_dict env rc =
     [(''task_id'', JStr (tr_taskId rc)), (''status'', JStr (tr_status rc)), (''progress'', opt_num (tr_progress rc)),
      (''created_at'', JStr (ae_iso env (tr_createdAt rc))), (''updated_at'', JStr (ae_iso env (tr_updatedAt rc))),
      (''request_id'', opt_str (tr_requestId rc)), (''result'', opt_or JNull (tr_result rc)), (''error'', opt_or JNull (tr_error rc))]"

definition handleSystemTaskStatus :: "action_env \<Rightarrow> ActionFrame \<Rightarrow> string option \<Rightarrow> string option \<Rightarrow> action_app \<Rightarrow> http_response" where
  "handleSystemTaskStatus env frame requestId agentNid app = (case owned_task frame agentNid (ap_tasks app) of
     Inl r \<Rightarrow> r
   | Inr rc \<Rightarrow> capsResponse (ae_numStr env) (JObj (task_status_dict env rc)) None requestId 0)"

definition handleSystemTaskCancel :: "action_env \<Rightarrow> int \<Rightarrow> ActionFrame \<Rightarrow> string option \<Rightarrow> string option \<Rightarrow> action_app \<Rightarrow> http_response \<times> action_app" where
  "handleSystemTaskCancel env now frame requestId agentNid app = (case owned_task frame agentNid (ap_tasks app) of
     Inl r \<Rightarrow> (r, app)
   | Inr rc \<Rightarrow>
       if tr_status rc \<in> {''completed'', ''failed'', ''cancelled''}
       then (errorResponse 409 ''NPS-CLIENT-CONFLICT'' ''NWP-TASK-ALREADY-CANCELLED'', app)
       else let taskId = opt_or [] (readStringParam (af_params frame) ''task_id'') in
         (capsResponse (ae_numStr env) (JObj [(''task_id'', JStr taskId), (''status'', JStr ''cancelled'')]) None requestId 0,
          app\<lparr>ap_tasks := snd (ts_cancel now taskId (ap_tasks app)),
              ap_controllers := (if js_has (ap_controllers app) taskId then js_set (ap_controllers app) taskId True else ap_controllers app)\<rparr>))"

section \<open>The stages of a request\<close>

record invoke_ctx =
  ix_body :: invoke_body
  ix_agent :: "string option"
  ix_spec :: ActionSpec
  ix_timeout :: rat
  ix_priority :: string

datatype stage =
    Responded http_response
  | Rejected
  | AwaitAuthorize invoke_ctx
  | AwaitExecute invoke_ctx
  | AwaitStream invoke_ctx ActionExecutionResult
  | AwaitReplay invoke_ctx "StreamFrame list"

definition action_context :: "invoke_ctx \<Rightarrow> string option \<Rightarrow> ActionContext" where
  "action_context ctx taskId = \<lparr>acx_agentNid = ix_agent ctx, acx_requestId = ib_requestId (ix_body ctx), acx_taskId = taskId, acx_spec = ix_spec ctx,
     acx_timeoutMs = ix_timeout ctx, acx_priority = ix_priority ctx, acx_wireInputBytes = ib_wireInputBytes (ix_body ctx)\<rparr>"

text \<open>Up to the call of \<open>authorize\<close>. \<open>None\<close> is a body that is no JSON.\<close>

definition invoke_start :: "action_env \<Rightarrow> int \<Rightarrow> string option \<Rightarrow> invoke_body option \<Rightarrow> action_app \<Rightarrow> stage \<times> action_app" where
  "invoke_start env now agentNid body app = (case body of
     None \<Rightarrow> (Responded bad_params, app)
   | Some b \<Rightarrow>
       let frame = ib_frame b; o' = ae_opt env in
       if af_actionId frame = SYSTEM_TASK_STATUS then (Responded (handleSystemTaskStatus env frame (ib_requestId b) agentNid app), app)
       else if af_actionId frame = SYSTEM_TASK_CANCEL
       then (let (r, app) = handleSystemTaskCancel env now frame (ib_requestId b) agentNid app in (Responded r, app))
       else case find_spec o' (af_actionId frame) of
         None \<Rightarrow> (Responded (errorResponse 404 ''NPS-CLIENT-NOT-FOUND'' ''NWP-ACTION-NOT-FOUND''), app)
       | Some spec \<Rightarrow>
           if ib_priority b \<notin> {None, Some ''low'', Some ''normal'', Some ''high''} then (Responded bad_params, app)
           else if opt_or False (af_async frame) \<and> \<not> opt_or False (asp_async spec) then (Responded bad_params, app)
           else if (case ib_callbackUrl b of None \<Rightarrow> False
               | Some u \<Rightarrow> nwp_validateCallbackUrl (ae_parseUrl env) u (an_rejectPrivate o') \<noteq> None) then (Responded bad_params, app)
           else (AwaitAuthorize \<lparr>ix_body = b, ix_agent = agentNid, ix_spec = spec,
               ix_timeout = clampTimeout o' (opt_or 0 (af_timeoutMs frame)) spec, ix_priority = opt_or ''normal'' (ib_priority b)\<rparr>, app))"

definition error_of :: "provider_error \<Rightarrow> http_response" where
  "error_of e = (case e of ActionExecutionError status nps code m \<Rightarrow> errorResponse status nps code
     | OtherError m \<Rightarrow> errorResponse 500 ''NPS-SERVER-INTERNAL'' ''NWP-NODE-UNAVAILABLE'')"

definition cache_key :: "action_env \<Rightarrow> invoke_ctx \<Rightarrow> string \<Rightarrow> string \<times> string" where
  "cache_key env ctx key = (scopedCacheActionId (ae_opt env) (af_actionId (ib_frame (ix_body ctx))) (ix_agent ctx), key)"

definition params_hash :: "action_env \<Rightarrow> invoke_ctx \<Rightarrow> string" where
  "params_hash env ctx = hashParams env (af_params (ib_frame (ix_body ctx)))"

definition new_entry :: "action_env \<Rightarrow> int \<Rightarrow> invoke_ctx \<Rightarrow> IdempotentEntry" where
  "new_entry env now ctx = \<lparr>ie_actionId = af_actionId (ib_frame (ix_body ctx)), ie_paramsHash = params_hash env ctx, ie_result = None,
     ie_streamFrames = None, ie_anchorRef = None, ie_taskId = None, ie_expiresAt = now + an_idempotencyTtlMs (ae_opt env)\<rparr>"

text \<open>\<open>if (frame.idempotencyKey) this.idempotency.tryStore(...)\<close>: an empty key is no key.\<close>

definition idem_key_of :: "invoke_ctx \<Rightarrow> string option" where
  "idem_key_of ctx = (case af_idempotencyKey (ib_frame (ix_body ctx)) of Some (c # cs) \<Rightarrow> Some (c # cs) | _ \<Rightarrow> None)"

definition store_entry :: "action_env \<Rightarrow> int \<Rightarrow> invoke_ctx \<Rightarrow> IdempotentEntry \<Rightarrow> action_app \<Rightarrow> action_app" where
  "store_entry env now ctx entry app = (case idem_key_of ctx of
     None \<Rightarrow> app
   | Some key \<Rightarrow> app\<lparr>ap_idem := snd (tryStore now (cache_key env ctx key) entry (ap_idem app))\<rparr>)"

text \<open>The answer from a cache entry.\<close>

definition replay :: "action_env \<Rightarrow> invoke_ctx \<Rightarrow> IdempotentEntry \<Rightarrow> task_store \<Rightarrow> stage" where
  "replay env ctx cached tasks =
     (let requestId = ib_requestId (ix_body ctx) in
      if ie_paramsHash cached \<noteq> params_hash env ctx then Responded (errorResponse 409 ''NPS-CLIENT-CONFLICT'' ''NWP-ACTION-IDEMPOTENCY-CONFLICT'')
      else case ie_taskId cached of
        Some (c # cs) \<Rightarrow> Responded (asyncResponse (ae_opt env) (c # cs)
            (case ts_get (c # cs) tasks of None \<Rightarrow> ''pending'' | Some rc \<Rightarrow> tr_status rc) requestId None)
      | _ \<Rightarrow> (case ie_streamFrames cached of
          Some frames \<Rightarrow> AwaitReplay ctx frames
        | None \<Rightarrow> Responded (capsResponse (ae_numStr env) (opt_or JNull (ie_result cached)) (ie_anchorRef cached) requestId 0)))"

text \<open>The start of a background task; \<open>taskId\<close> is the fresh identifier. A known identifier makes \<open>create\<close> throw.\<close>

definition start_task :: "action_env \<Rightarrow> int \<Rightarrow> string \<Rightarrow> invoke_ctx \<Rightarrow> action_app \<Rightarrow> stage \<times> action_app" where
  "start_task env now taskId ctx app =
     (let b = ix_body ctx in
      case ts_create now taskId (af_actionId (ib_frame b)) (ib_requestId b) (ix_agent ctx) (ap_tasks app) of
        None \<Rightarrow> (Rejected, app)
      | Some (rc, tasks) \<Rightarrow>
          let app = store_entry env now ctx ((new_entry env now ctx)\<lparr>ie_taskId := Some taskId\<rparr>) (app\<lparr>ap_tasks := tasks\<rparr>);
              app = app\<lparr>ap_controllers := js_set (ap_controllers app) taskId False\<rparr>;
              (ok, tasks) = tryTransition now taskId ''pending'' ''running'' (ap_tasks app);
              app = app\<lparr>ap_tasks := tasks, ap_controllers := (if ok then ap_controllers app else js_delete (ap_controllers app) taskId)\<rparr> in
          (Responded (asyncResponse (ae_opt env) taskId ''pending'' (ib_requestId b) (asp_timeoutMsDefault (ix_spec ctx))), app))"

text \<open>From the provider's authorization to the call of \<open>execute\<close>. \<open>Some e\<close>: the provider threw \<open>e\<close>.\<close>

definition invoke_authorized :: "action_env \<Rightarrow> int \<Rightarrow> string \<Rightarrow> provider_error option \<Rightarrow> invoke_ctx \<Rightarrow> action_app \<Rightarrow> stage \<times> action_app" where
  "invoke_authorized env now taskId denied ctx app = (case denied of
     Some e \<Rightarrow> (Responded (error_of e), app)
   | None \<Rightarrow>
       let (cached, idem) = (case idem_key_of ctx of None \<Rightarrow> (None, ap_idem app) | Some key \<Rightarrow> ic_get now (cache_key env ctx key) (ap_idem app));
           app = app\<lparr>ap_idem := idem\<rparr> in
       case cached of
         Some entry \<Rightarrow> (replay env ctx entry (ap_tasks app), app)
       | None \<Rightarrow>
           if opt_or False (af_async (ib_frame (ix_body ctx))) then start_task env now taskId ctx app
           else (AwaitExecute ctx, app))"

definition result_anchor :: "invoke_ctx \<Rightarrow> ActionExecutionResult \<Rightarrow> string option" where
  "result_anchor ctx res = (case aer_anchorRef res of Some a \<Rightarrow> Some a | None \<Rightarrow> asp_resultAnchor (ix_spec ctx))"

definition invoke_executed :: "action_env \<Rightarrow> int \<Rightarrow> race \<Rightarrow> invoke_ctx \<Rightarrow> action_app \<Rightarrow> stage \<times> action_app" where
  "invoke_executed env now r ctx app = (case executeWithTimeout r False of
     (Inl (ActionExecutionError status nps code m), aborted) \<Rightarrow> (Responded (errorResponse status nps code), app)
   | (Inl (OtherError m), aborted) \<Rightarrow>
       (Responded (if aborted then errorResponse 504 ''NPS-SERVER-TIMEOUT'' ''NWP-NODE-UNAVAILABLE''
          else errorResponse 500 ''NPS-SERVER-INTERNAL'' ''NWP-NODE-UNAVAILABLE''), app)
   | (Inr res, aborted) \<Rightarrow>
       if aer_stream res then (AwaitStream ctx res, app)
       else (Responded (capsResponse (ae_numStr env) (opt_or JNull (aer_result res)) (result_anchor ctx res) (ib_requestId (ix_body ctx))
               (opt_or 0 (aer_tokenEst res))),
             store_entry env now ctx ((new_entry env now ctx)\<lparr>ie_result := Some (opt_or JNull (aer_result res)), ie_anchorRef := result_anchor ctx res\<rparr>) app))"

text \<open>The stream of a synchronous call; \<open>now\<close> is the time of its completion.\<close>

definition invoke_streamed :: "action_env \<Rightarrow> int \<Rightarrow> string \<Rightarrow> stream_events \<Rightarrow> invoke_ctx \<Rightarrow> ActionExecutionResult \<Rightarrow> action_app \<Rightarrow> stage \<times> action_app" where
  "invoke_streamed env now streamId source ctx res app =
     (let (response, completed) = streamResponse streamId False source (ib_requestId (ix_body ctx)) in
      (Responded response, case completed of
         None \<Rightarrow> app
       | Some frames \<Rightarrow> store_entry env now ctx ((new_entry env now ctx)\<lparr>ie_streamFrames := Some frames, ie_anchorRef := result_anchor ctx res\<rparr>) app))"

text \<open>The replay of a stored stream; \<open>aborted\<close> and the flags are the request's signal.\<close>

definition invoke_replayed :: "string \<Rightarrow> bool \<Rightarrow> bool list \<Rightarrow> StreamFrame list \<Rightarrow> invoke_ctx \<Rightarrow> stage" where
  "invoke_replayed streamId aborted flags frames ctx =
     Responded (fst (streamResponse streamId aborted (zip (flags @ replicate (length frames) False) (map SItem frames)) (ib_requestId (ix_body ctx))))"

text \<open>The end of a background task.\<close>

definition error_message :: "provider_error \<Rightarrow> string" where
  "error_message e = (case e of ActionExecutionError s n c m \<Rightarrow> m | OtherError m \<Rightarrow> m)"

definition finish_task :: "int \<Rightarrow> string \<Rightarrow> race \<Rightarrow> action_app \<Rightarrow> action_app" where
  "finish_task now taskId r app = (case js_get (ap_controllers app) taskId of
     None \<Rightarrow> app
   | Some flag \<Rightarrow>
       let tasks = (case executeWithTimeout r flag of
             (Inr res, aborted) \<Rightarrow> snd (ts_complete now taskId (opt_or JNull (aer_result res)) (ap_tasks app))
           | (Inl e, aborted) \<Rightarrow>
               if map_option tr_status (ts_get taskId (ap_tasks app)) = Some ''cancelled'' then ap_tasks app
               else snd (ts_fail now taskId (JObj [(''code'', JStr (error_code e)),
                 (''message'', JStr (if aborted then ''task timed out'' else error_message e))]) (ap_tasks app))) in
       app\<lparr>ap_tasks := tasks, ap_controllers := js_delete (ap_controllers app) taskId\<rparr>)"

section \<open>fetch\<close>

record http_request =
  rq_pathname :: string
  rq_method :: string
  rq_agent :: "string option"
  rq_body :: "invoke_body option"

definition action_fetch :: "action_env \<Rightarrow> int \<Rightarrow> http_request \<Rightarrow> action_app \<Rightarrow> stage \<times> action_app" where
  "action_fetch env now req app =
     (let o' = ae_opt env; path = rq_pathname req; pre = app_prefix o'; sub = drop (length pre) path in
      if \<not> js_startsWith (js_toLowerCase path) (js_toLowerCase pre) then (Responded notFound, app)
      else if an_requireAuth o' \<and> (rq_agent req = None \<or> rq_agent req = Some [])
      then (Responded (errorResponse 401 ''NPS-CLIENT-UNAUTHORIZED'' ''NWP-AUTH-NID-SCOPE-VIOLATION''), app)
      else if sub = ''/.nwm'' \<or> sub = ''/.nwm/''
      then (Responded \<lparr>hr_status = 200, hr_headers = [(''content-type'', ''application/nwp-manifest+json''), node_type_header],
              hr_body = JsonBody (JObj (buildManifest o'))\<rparr>, app)
      else if sub \<in> {''/.schema'', ''/.schema/'', ''/actions'', ''/actions/''}
      then (Responded \<lparr>hr_status = 200, hr_headers = [(''content-type'', ''application/json'')],
              hr_body = JsonBody (JObj [(''actions'', JObj (actionsDict o'))])\<rparr>, app)
      else if sub = ''/invoke'' \<or> sub = ''/invoke/''
      then (if rq_method req \<noteq> ''POST'' then (Responded \<lparr>hr_status = 405, hr_headers = [], hr_body = NoBody\<rparr>, app)
            else invoke_start env now (rq_agent req) (rq_body req) app)
      else (Responded notFound, app))"

section \<open>The machine\<close>

datatype server_event =
    Arrive nat http_request
  | Authorized nat string "provider_error option"
  | Executed nat race
  | Streamed nat string stream_events
  | Replayed nat string bool "bool list"
  | TaskEnds string race

record action_server =
  sv_app :: action_app
  sv_requests :: "(nat, stage) jsmap"

definition set_stage :: "nat \<Rightarrow> stage \<times> action_app \<Rightarrow> action_server \<Rightarrow> action_server" where
  "set_stage i r s = s\<lparr>sv_app := snd r, sv_requests := js_set (sv_requests s) i (fst r)\<rparr>"

fun server_step :: "action_env \<Rightarrow> action_server \<Rightarrow> int \<times> server_event \<Rightarrow> action_server" where
  "server_step env s (now, Arrive i req) =
     (if js_has (sv_requests s) i then s else set_stage i (action_fetch env now req (sv_app s)) s)"
| "server_step env s (now, Authorized i taskId denied) = (case js_get (sv_requests s) i of
     Some (AwaitAuthorize ctx) \<Rightarrow> set_stage i (invoke_authorized env now taskId denied ctx (sv_app s)) s | _ \<Rightarrow> s)"
| "server_step env s (now, Executed i r) = (case js_get (sv_requests s) i of
     Some (AwaitExecute ctx) \<Rightarrow> set_stage i (invoke_executed env now r ctx (sv_app s)) s | _ \<Rightarrow> s)"
| "server_step env s (now, Streamed i streamId source) = (case js_get (sv_requests s) i of
     Some (AwaitStream ctx res) \<Rightarrow> set_stage i (invoke_streamed env now streamId source ctx res (sv_app s)) s | _ \<Rightarrow> s)"
| "server_step env s (now, Replayed i streamId aborted flags) = (case js_get (sv_requests s) i of
     Some (AwaitReplay ctx frames) \<Rightarrow> set_stage i (invoke_replayed streamId aborted flags frames ctx, sv_app s) s | _ \<Rightarrow> s)"
| "server_step env s (now, TaskEnds taskId r) = s\<lparr>sv_app := finish_task now taskId r (sv_app s)\<rparr>"

text \<open>What an event does to the two stores, as calls of their own operations at its time.\<close>

definition tasks_by :: "int \<Rightarrow> action_app \<Rightarrow> action_app \<Rightarrow> bool" where
  "tasks_by now a b = (\<exists>ops. list_all op_regular ops \<and> ap_tasks b = run task_step (ap_tasks a) (map (Pair now) ops))"

definition idem_by :: "int \<Rightarrow> action_app \<Rightarrow> action_app \<Rightarrow> bool" where
  "idem_by now a b = (\<exists>ops. ap_idem b = run idem_step (ap_idem a) (map (Pair now) ops))"

lemma run_map_append: "run f s (xs @ ys) = run f (run f s xs) ys"
  by (simp add: run_def)

lemma tasks_by_refl: "ap_tasks a = ap_tasks b \<Longrightarrow> tasks_by now a b"
  unfolding tasks_by_def by (rule exI [of _ "[]"]) simp

lemma tasks_by_step: "op_regular op \<Longrightarrow> ap_tasks b = task_step (ap_tasks a) (now, op) \<Longrightarrow> tasks_by now a b"
  unfolding tasks_by_def by (rule exI [of _ "[op]"]) simp

lemma tasks_by_trans: "tasks_by now a b \<Longrightarrow> tasks_by now b c \<Longrightarrow> tasks_by now a c"
  unfolding tasks_by_def by (metis (no_types, opaque_lifting) list_all_append map_append run_map_append)

lemma idem_by_refl: "ap_idem a = ap_idem b \<Longrightarrow> idem_by now a b"
  unfolding idem_by_def by (rule exI [of _ "[]"]) simp

lemma idem_by_step: "ap_idem b = idem_step (ap_idem a) (now, op) \<Longrightarrow> idem_by now a b"
  unfolding idem_by_def by (rule exI [of _ "[op]"]) simp

lemma idem_by_trans: "idem_by now a b \<Longrightarrow> idem_by now b c \<Longrightarrow> idem_by now a c"
  unfolding idem_by_def by (metis (no_types, opaque_lifting) map_append run_map_append)

lemma store_entry_by: "tasks_by now app (store_entry env now ctx e app)" "idem_by now app (store_entry env now ctx e app)"
proof -
  show "tasks_by now app (store_entry env now ctx e app)"
    by (rule tasks_by_refl) (simp add: store_entry_def split: option.splits)
  show "idem_by now app (store_entry env now ctx e app)"
  proof (cases "idem_key_of ctx")
    case None
    then show ?thesis by (simp add: store_entry_def idem_by_refl)
  next
    case (Some key)
    then show ?thesis
      by (intro idem_by_step [where op = "IStore (fst (cache_key env ctx key)) (snd (cache_key env ctx key)) e"])
        (simp add: store_entry_def)
  qed
qed

lemma cancel_by:
  "tasks_by now app (snd (handleSystemTaskCancel env now frame rid agent app))"
  "ap_idem (snd (handleSystemTaskCancel env now frame rid agent app)) = ap_idem app"
proof -
  let ?t = "opt_or [] (readStringParam (af_params frame) ''task_id'')"
  have "ap_tasks (snd (handleSystemTaskCancel env now frame rid agent app)) \<in> {ap_tasks app, task_step (ap_tasks app) (now, TCancel ?t)}"
    by (auto simp: handleSystemTaskCancel_def task_step_def Let_def split: sum.splits)
  then show "tasks_by now app (snd (handleSystemTaskCancel env now frame rid agent app))"
    using tasks_by_refl tasks_by_step [of "TCancel ?t"] by (metis insertE op_regular.simps(5) singletonD)
  show "ap_idem (snd (handleSystemTaskCancel env now frame rid agent app)) = ap_idem app"
    by (auto simp: handleSystemTaskCancel_def Let_def split: sum.splits)
qed

lemma invoke_start_by:
  "tasks_by now app (snd (invoke_start env now agent body app))" "ap_idem (snd (invoke_start env now agent body app)) = ap_idem app"
proof -
  have "snd (invoke_start env now agent body app) = app \<or>
      (\<exists>b. body = Some b \<and> snd (invoke_start env now agent body app) = snd (handleSystemTaskCancel env now (ib_frame b) (ib_requestId b) agent app))"
    by (auto simp: invoke_start_def Let_def split: option.splits prod.splits)
  then show "tasks_by now app (snd (invoke_start env now agent body app))" "ap_idem (snd (invoke_start env now agent body app)) = ap_idem app"
    using cancel_by tasks_by_refl by (metis, metis)
qed

lemma action_fetch_by:
  "tasks_by now app (snd (action_fetch env now req app))" "ap_idem (snd (action_fetch env now req app)) = ap_idem app"
  by (auto simp: action_fetch_def Let_def tasks_by_refl invoke_start_by)

lemma start_task_by:
  "tasks_by now app (snd (start_task env now taskId ctx app))" "idem_by now app (snd (start_task env now taskId ctx app))"
proof -
  let ?b = "ix_body ctx"
  let ?create = "ts_create now taskId (af_actionId (ib_frame ?b)) (ib_requestId ?b) (ix_agent ctx) (ap_tasks app)"
  have "tasks_by now app (snd (start_task env now taskId ctx app)) \<and> idem_by now app (snd (start_task env now taskId ctx app))"
  proof (cases ?create)
    case None
    then show ?thesis by (simp add: start_task_def Let_def tasks_by_refl idem_by_refl)
  next
    case (Some p)
    obtain rc tasks where p: "p = (rc, tasks)" by (cases p)
    define a1 where "a1 = app\<lparr>ap_tasks := tasks\<rparr>"
    define a2 where "a2 = store_entry env now ctx ((new_entry env now ctx)\<lparr>ie_taskId := Some taskId\<rparr>) a1"
    define a3 where "a3 = snd (start_task env now taskId ctx app)"
    have a3: "ap_tasks a3 = task_step (ap_tasks a2) (now, TTransition taskId ''pending'' ''running'')" "ap_idem a3 = ap_idem a2"
      using Some p unfolding a3_def a2_def a1_def by (simp_all add: start_task_def Let_def task_step_def split: prod.splits)
    have "tasks_by now app a1"
      using Some p by (intro tasks_by_step [where op = "TCreate taskId (af_actionId (ib_frame ?b)) (ib_requestId ?b) (ix_agent ctx)"])
        (simp_all add: a1_def task_step_def)
    moreover have "tasks_by now a1 a2" "idem_by now a1 a2" unfolding a2_def by (rule store_entry_by)+
    moreover have "tasks_by now a2 a3"
      by (rule tasks_by_step [where op = "TTransition taskId ''pending'' ''running''", OF _ a3(1)]) (simp add: TERMINAL_def)
    moreover have "idem_by now app a1" "idem_by now a2 a3" by (simp_all add: idem_by_refl a1_def a3)
    ultimately show ?thesis unfolding a3_def [symmetric] by (blast intro: tasks_by_trans idem_by_trans)
  qed
  then show "tasks_by now app (snd (start_task env now taskId ctx app))" "idem_by now app (snd (start_task env now taskId ctx app))" by auto
qed

definition looked_up :: "action_env \<Rightarrow> int \<Rightarrow> invoke_ctx \<Rightarrow> action_app \<Rightarrow> action_app" where
  "looked_up env now ctx app = app\<lparr>ap_idem := snd (case idem_key_of ctx of None \<Rightarrow> (None, ap_idem app) | Some key \<Rightarrow> ic_get now (cache_key env ctx key) (ap_idem app))\<rparr>"

lemma looked_up_by: "tasks_by now app (looked_up env now ctx app)" "idem_by now app (looked_up env now ctx app)"
proof -
  show "tasks_by now app (looked_up env now ctx app)" by (simp add: looked_up_def tasks_by_refl)
  show "idem_by now app (looked_up env now ctx app)"
  proof (cases "idem_key_of ctx")
    case (Some key)
    then show ?thesis
      by (intro idem_by_step [where op = "IGet (fst (cache_key env ctx key)) (snd (cache_key env ctx key))"]) (simp add: looked_up_def)
  qed (simp add: looked_up_def idem_by_refl)
qed

lemma invoke_authorized_by:
  "tasks_by now app (snd (invoke_authorized env now taskId denied ctx app))" "idem_by now app (snd (invoke_authorized env now taskId denied ctx app))"
proof -
  have "snd (invoke_authorized env now taskId denied ctx app) \<in>
      {app, looked_up env now ctx app, snd (start_task env now taskId ctx (looked_up env now ctx app))}"
    by (auto simp: invoke_authorized_def looked_up_def Let_def split: option.splits prod.splits)
  moreover have "tasks_by now app (snd (start_task env now taskId ctx (looked_up env now ctx app)))"
    "idem_by now app (snd (start_task env now taskId ctx (looked_up env now ctx app)))"
    using looked_up_by start_task_by by (blast intro: tasks_by_trans idem_by_trans)+
  ultimately show "tasks_by now app (snd (invoke_authorized env now taskId denied ctx app))" "idem_by now app (snd (invoke_authorized env now taskId denied ctx app))"
    using looked_up_by by (auto simp: tasks_by_refl idem_by_refl)
qed

lemma invoke_executed_by:
  "tasks_by now app (snd (invoke_executed env now r ctx app))" "idem_by now app (snd (invoke_executed env now r ctx app))"
proof -
  have "snd (invoke_executed env now r ctx app) = app \<or> (\<exists>e. snd (invoke_executed env now r ctx app) = store_entry env now ctx e app)"
    by (auto simp: invoke_executed_def split: prod.splits sum.splits provider_error.splits)
  then show "tasks_by now app (snd (invoke_executed env now r ctx app))" "idem_by now app (snd (invoke_executed env now r ctx app))"
    using store_entry_by tasks_by_refl idem_by_refl by metis+
qed

lemma invoke_streamed_by:
  "tasks_by now app (snd (invoke_streamed env now sid src ctx res app))" "idem_by now app (snd (invoke_streamed env now sid src ctx res app))"
proof -
  have "snd (invoke_streamed env now sid src ctx res app) = app \<or> (\<exists>e. snd (invoke_streamed env now sid src ctx res app) = store_entry env now ctx e app)"
    by (auto simp: invoke_streamed_def split: prod.splits option.splits)
  then show "tasks_by now app (snd (invoke_streamed env now sid src ctx res app))" "idem_by now app (snd (invoke_streamed env now sid src ctx res app))"
    using store_entry_by tasks_by_refl idem_by_refl by metis+
qed

lemma finish_task_by: "tasks_by now app (finish_task now taskId r app)" "ap_idem (finish_task now taskId r app) = ap_idem app"
proof -
  have "ap_tasks (finish_task now taskId r app) = ap_tasks app \<or>
      (\<exists>v. ap_tasks (finish_task now taskId r app) = task_step (ap_tasks app) (now, TComplete taskId v)) \<or>
      (\<exists>v. ap_tasks (finish_task now taskId r app) = task_step (ap_tasks app) (now, TFail taskId v))"
    by (auto simp: finish_task_def Let_def task_step_def split: option.splits prod.splits sum.splits)
  then show "tasks_by now app (finish_task now taskId r app)"
    using tasks_by_refl tasks_by_step op_regular.simps by metis
  show "ap_idem (finish_task now taskId r app) = ap_idem app"
    by (auto simp: finish_task_def Let_def split: option.splits)
qed

lemmas stage_by = action_fetch_by invoke_authorized_by invoke_executed_by invoke_streamed_by finish_task_by

lemma server_step_by:
  "tasks_by (fst e) (sv_app s) (sv_app (server_step env s e))" "idem_by (fst e) (sv_app s) (sv_app (server_step env s e))"
proof -
  show "tasks_by (fst e) (sv_app s) (sv_app (server_step env s e))"
    by (cases "(env, s, e)" rule: server_step.cases)
      (auto simp: set_stage_def stage_by tasks_by_refl split: option.splits stage.splits)
  show "idem_by (fst e) (sv_app s) (sv_app (server_step env s e))"
    by (cases "(env, s, e)" rule: server_step.cases)
      (auto simp: set_stage_def stage_by idem_by_refl split: option.splits stage.splits)
qed

section \<open>Tasks\<close>

definition server_outcome :: "action_server \<Rightarrow> string \<Rightarrow> (string \<times> jsval option \<times> jsval option) option" where
  "server_outcome s t = task_outcome (ap_tasks (sv_app s)) t"

definition task_owner :: "task_store \<Rightarrow> string \<Rightarrow> string option option" where
  "task_owner s t = map_option tr_agentNid (js_get s t)"

lemma task_step_owner: "task_owner s t = Some a \<Longrightarrow> task_owner (task_step s e) t = Some a"
  by (cases e; cases "snd e")
    (auto simp: task_step_def task_owner_def task_op_defs js_get_set js_has_get Let_def split: option.splits)

lemma run_owner: "task_owner s t = Some a \<Longrightarrow> task_owner (run task_step s es) t = Some a"
  by (induction es arbitrary: s) (auto simp: task_step_owner)

lemma run_task_outcome:
  "task_outcome s t = Some x \<Longrightarrow> list_all op_regular ops \<Longrightarrow> task_outcome (run task_step s (map (Pair now) ops)) t = Some x"
  by (induction ops arbitrary: s) (auto simp: task_step_outcome)

lemma server_step_tasks:
  obtains ops where "list_all op_regular ops" "ap_tasks (sv_app (server_step env s e)) = run task_step (ap_tasks (sv_app s)) (map (Pair (fst e)) ops)"
  using server_step_by(1) [of e s env] by (auto simp: tasks_by_def)

interpretation server_final: final_machine "server_step env" "\<lambda>s. True" server_outcome for env
proof
  fix s e t x
  assume "server_outcome s t = Some x"
  then show "server_outcome (server_step env s e) t = Some x"
    by (rule_tac server_step_tasks [of env s e]) (simp add: server_outcome_def run_task_outcome)
qed simp

interpretation server_owner: final_machine "server_step env" "\<lambda>s. True" "\<lambda>s. task_owner (ap_tasks (sv_app s))" for env
proof
  fix s :: action_server and e t x
  assume "task_owner (ap_tasks (sv_app s)) t = Some x"
  then show "task_owner (ap_tasks (sv_app (server_step env s e))) t = Some x"
    by (rule_tac server_step_tasks [of env s e]) (simp add: run_owner)
qed

definition names_task :: "invoke_body \<Rightarrow> string \<Rightarrow> bool" where
  "names_task b t = (af_actionId (ib_frame b) \<in> {SYSTEM_TASK_STATUS, SYSTEM_TASK_CANCEL} \<and> readStringParam (af_params (ib_frame b)) ''task_id'' = Some t)"

lemma foreign_request:
  assumes "names_task b t" "t \<noteq> []" "task_owner (ap_tasks app) t = Some a" "agent \<noteq> a"
  shows "invoke_start env now agent (Some b) app = (Responded (errorResponse 403 ''NPS-AUTH-FORBIDDEN'' ''NWP-AUTH-NID-SCOPE-VIOLATION''), app)"
proof -
  obtain rc where "ts_get t (ap_tasks app) = Some rc" "tr_agentNid rc = a" using assms(3) by (auto simp: task_owner_def ts_get_def)
  then have "owned_task (ib_frame b) agent (ap_tasks app) = Inl (errorResponse 403 ''NPS-AUTH-FORBIDDEN'' ''NWP-AUTH-NID-SCOPE-VIOLATION'')"
    using assms by (simp add: owned_task_def names_task_def)
  then show ?thesis
    using assms(1) by (auto simp: names_task_def invoke_start_def Let_def handleSystemTaskStatus_def handleSystemTaskCancel_def)
qed

text \<open>C13: A task belongs to the caller that created it: whatever requests and completions follow, in whatever order, a status or cancel request for it
  by anyone else is refused and changes nothing, and once the task is completed, failed or cancelled its
  outcome stays: a provider that finishes after a cancellation does not overwrite it.\<close>

theorem action_task_protected:
  assumes "task_owner (ap_tasks (sv_app s)) t = Some owner" "t \<noteq> []"
  shows "let app = sv_app (run (server_step env) s es) in
     (\<forall>b agent now. names_task b t \<and> agent \<noteq> owner \<longrightarrow>
        invoke_start env now agent (Some b) app = (Responded (errorResponse 403 ''NPS-AUTH-FORBIDDEN'' ''NWP-AUTH-NID-SCOPE-VIOLATION''), app)) \<and>
     (\<forall>x. task_outcome (ap_tasks (sv_app s)) t = Some x \<longrightarrow> task_outcome (ap_tasks app) t = Some x)"
proof -
  have "task_owner (ap_tasks (sv_app (run (server_step env) s es))) t = Some owner"
    using server_owner.run_outcome [OF _ assms(1)] by simp
  moreover have "task_outcome (ap_tasks (sv_app s)) t = Some x \<Longrightarrow> task_outcome (ap_tasks (sv_app (run (server_step env) s es))) t = Some x" for x
    using server_final.run_outcome [of s t x env es] by (simp add: server_outcome_def)
  ultimately show ?thesis using foreign_request [OF _ assms(2)] by (simp add: Let_def)
qed

section \<open>Idempotency\<close>

lemma run_idem_server:
  assumes "js_wf (ap_idem (sv_app s))" "js_get (ap_idem (sv_app s)) (idem_key a k) = Some entry" "\<forall>e \<in> set es. fst e < ie_expiresAt entry"
  shows "js_wf (ap_idem (sv_app (run (server_step env) s es))) \<and> js_get (ap_idem (sv_app (run (server_step env) s es))) (idem_key a k) = Some entry"
  using assms
proof (induction es arbitrary: s)
  case (Cons e es)
  obtain ops where ops: "ap_idem (sv_app (server_step env s e)) = run idem_step (ap_idem (sv_app s)) (map (Pair (fst e)) ops)"
    using server_step_by(2) [of e s env] by (auto simp: idem_by_def)
  have "js_wf (ap_idem (sv_app (server_step env s e))) \<and> js_get (ap_idem (sv_app (server_step env s e))) (idem_key a k) = Some entry"
    unfolding ops using Cons.prems by (intro idem_run_keeps) auto
  then show ?case using Cons by simp
qed simp

text \<open>The context of a later request for the same answer: same action, same caller, same key.\<close>

definition same_request :: "action_env \<Rightarrow> invoke_ctx \<Rightarrow> invoke_ctx \<Rightarrow> bool" where
  "same_request env ctx ctx' = (idem_key_of ctx \<noteq> None \<and> idem_key_of ctx' = idem_key_of ctx \<and>
     af_actionId (ib_frame (ix_body ctx')) = af_actionId (ib_frame (ix_body ctx)) \<and> ix_agent ctx' = ix_agent ctx)"

lemma stored_entry_found:
  assumes "js_wf (ap_idem app)" "same_request env ctx ctx'" "idem_key_of ctx = Some key"
    and "ic_live now (ap_idem app) (cache_key env ctx key) = Some entry"
  shows "invoke_authorized env now taskId None ctx' app = (replay env ctx' entry (ap_tasks app), app)"
proof -
  have "cache_key env ctx' key = cache_key env ctx key" "idem_key_of ctx' = Some key"
    using assms(2,3) by (auto simp: same_request_def cache_key_def)
  moreover have "ic_get now (cache_key env ctx key) (ap_idem app) = (Some entry, ap_idem app)"
    using assms(4) by (auto simp: ic_live_def ic_get_def Let_def split: option.splits if_splits)
  ultimately show ?thesis by (simp add: invoke_authorized_def Let_def)
qed

text \<open>C14: An answer is given once. When a call with an idempotency key has completed, then over every sequence of requests and completions, until the entry expires, a
  repetition by the same caller is answered with the same result and is not executed again, and a call with other parameters under that key is refused.\<close>

theorem idempotent_answer_replayed:
  fixes env :: action_env
  assumes "js_wf (ap_idem (sv_app s))" "js_get (sv_requests s) i = Some (AwaitExecute ctx)" "idem_key_of ctx = Some key"
    and "ic_live now (ap_idem (sv_app s)) (cache_key env ctx key) = None" "\<not> aer_stream res" "same_request env ctx ctx'"
    and "\<forall>e \<in> set es. fst e < now + an_idempotencyTtlMs (ae_opt env)" "now' < now + an_idempotencyTtlMs (ae_opt env)"
  shows "let app = sv_app (run (server_step env) (server_step env s (now, Executed i (RaceProvider (Inr res)))) es) in
     invoke_authorized env now' taskId None ctx' app =
       (Responded (if params_hash env ctx' = params_hash env ctx
          then capsResponse (ae_numStr env) (opt_or JNull (aer_result res)) (result_anchor ctx res) (ib_requestId (ix_body ctx')) 0
          else errorResponse 409 ''NPS-CLIENT-CONFLICT'' ''NWP-ACTION-IDEMPOTENCY-CONFLICT''), app)"
proof -
  define entry where "entry = (new_entry env now ctx)\<lparr>ie_result := Some (opt_or JNull (aer_result res)), ie_anchorRef := result_anchor ctx res\<rparr>"
  define s1 where "s1 = server_step env s (now, Executed i (RaceProvider (Inr res)))"
  have exp: "ie_expiresAt entry = now + an_idempotencyTtlMs (ae_opt env)" by (simp add: entry_def new_entry_def)
  have s1: "ap_idem (sv_app s1) = snd (tryStore now (cache_key env ctx key) entry (ap_idem (sv_app s)))"
    using assms(2,3,5) by (simp add: s1_def set_stage_def invoke_executed_def executeWithTimeout_def store_entry_def entry_def)
  have get: "js_get (ap_idem (sv_app s1)) (idem_key (fst (cache_key env ctx key)) (snd (cache_key env ctx key))) = Some entry"
    using assms(1,4) unfolding s1 by (auto simp: tryStore_def ic_live_def Let_def split: option.splits if_splits)
  moreover have "js_wf (ap_idem (sv_app s1))"
    using assms(1) unfolding s1 by (auto simp: tryStore_def Let_def split: option.splits)
  ultimately have later: "js_wf (ap_idem (sv_app (run (server_step env) s1 es)))"
    "js_get (ap_idem (sv_app (run (server_step env) s1 es))) (idem_key (fst (cache_key env ctx key)) (snd (cache_key env ctx key))) = Some entry"
    using run_idem_server assms(7) exp by auto
  then have "ic_live now' (ap_idem (sv_app (run (server_step env) s1 es))) (cache_key env ctx key) = Some entry"
    using assms(8) exp by (simp add: ic_live_def)
  note found = stored_entry_found [OF later(1) assms(6,3) this, of taskId]
  have "ie_taskId entry = None" "ie_streamFrames entry = None" "ie_paramsHash entry = params_hash env ctx"
    "ie_result entry = Some (opt_or JNull (aer_result res))" "ie_anchorRef entry = result_anchor ctx res"
    by (simp_all add: entry_def new_entry_def)
  then have "replay env ctx' entry tasks = Responded (if params_hash env ctx' = params_hash env ctx
          then capsResponse (ae_numStr env) (opt_or JNull (aer_result res)) (result_anchor ctx res) (ib_requestId (ix_body ctx')) 0
          else errorResponse 409 ''NPS-CLIENT-CONFLICT'' ''NWP-ACTION-IDEMPOTENCY-CONFLICT'')" for tasks
    by (auto simp: replay_def opt_or_def)
  then show ?thesis unfolding s1_def [symmetric] Let_def found by simp
qed

text \<open>The callers' names are separated by a character that no header and no action name contains; different callers, actions or keys have
  different entries. A missing and an empty caller share one.\<close>

definition plain_name :: "string \<Rightarrow> bool" where
  "plain_name s = (CHR 0x1F \<notin> set s)"

lemma sep_inject: "CHR 0x1F \<notin> set a \<Longrightarrow> CHR 0x1F \<notin> set b \<Longrightarrow> a @ CHR 0x1F # x = b @ CHR 0x1F # y \<longleftrightarrow> a = b \<and> x = y"
  using idem_key_inject [of a b x y] by (simp add: idem_key_def)

theorem idempotency_isolated:
  fixes env :: action_env
  assumes "plain_name (af_actionId (ib_frame (ix_body ctx)))" "plain_name (af_actionId (ib_frame (ix_body ctx')))"
    and "plain_name (opt_or [] (ix_agent ctx))" "plain_name (opt_or [] (ix_agent ctx'))"
    and "opt_or [] (ix_agent ctx) \<noteq> opt_or [] (ix_agent ctx')" "js_wf (ap_idem app)"
  shows "ic_live now' (ap_idem (store_entry env now ctx entry app)) (cache_key env ctx' key) = ic_live now' (ap_idem app) (cache_key env ctx' key)"
proof (cases "idem_key_of ctx")
  case None
  then show ?thesis by (simp add: store_entry_def)
next
  case (Some k)
  let ?k = "idem_key (fst (cache_key env ctx k)) (snd (cache_key env ctx k))"
  let ?k' = "idem_key (fst (cache_key env ctx' key)) (snd (cache_key env ctx' key))"
  have "?k \<noteq> ?k'"
    using assms(1-5) by (simp add: idem_key_def cache_key_def scopedCacheActionId_def plain_name_def sep_inject)
  then have "js_get (snd (tryStore now (cache_key env ctx k) entry (ap_idem app))) ?k' = js_get (ap_idem app) ?k'"
    using assms(6) by (auto simp: tryStore_def Let_def js_get_set js_get_delete split: option.splits)
  then show ?thesis using Some by (simp add: store_entry_def ic_live_def)
qed

text \<open>Between the lookup and the store the provider runs: a repetition that arrives meanwhile is executed as well.\<close>

lemma concurrent_repetition_executes:
  assumes "idem_key_of ctx = Some key" "js_wf (ap_idem app)" "ic_live now (ap_idem app) (cache_key env ctx key) = None"
    and "\<not> opt_or False (af_async (ib_frame (ix_body ctx)))" "now \<le> now'"
  shows "\<exists>app' app''. invoke_authorized env now t None ctx app = (AwaitExecute ctx, app') \<and>
     invoke_authorized env now' t' None ctx app' = (AwaitExecute ctx, app'')"
proof -
  let ?k = "cache_key env ctx key"
  have none: "fst (ic_get now ?k (ap_idem app)) = None" using assms(3) idem_store.get_live [OF assms(2)] by simp
  define idem where "idem = snd (ic_get now ?k (ap_idem app))"
  have "fst (ic_get now' ?k idem) = None"
    unfolding idem_def using assms(2,3,5) none
    by (auto simp: ic_get_def ic_live_def js_get_delete Let_def split: option.splits if_splits)
  then show ?thesis using assms(1,4) none idem_def
    by (auto simp: invoke_authorized_def Let_def split: prod.splits)
qed

section \<open>Timeouts\<close>

text \<open>A timeout that the request asks for is cut to the smaller of the node's and the action's maximum; without one, the default applies as configured.\<close>

lemma clampTimeout_requested:
  assumes "0 < requested"
  shows "clampTimeout o' requested spec = min requested (min (opt_or (an_maxTimeoutMs o') (asp_timeoutMsMax spec)) (an_maxTimeoutMs o'))"
  using assms by (simp add: clampTimeout_def Let_def min_def)

lemma default_above_cap: "clampTimeout o' 0 (empty_spec\<lparr>asp_timeoutMsDefault := Some 900000, asp_timeoutMsMax := Some 1000\<rparr>) = 900000"
  by (simp add: clampTimeout_def opt_or_def)

text \<open>A name that every object inherits is accepted as an action that nobody registered.\<close>

lemma inherited_action: "js_get (ano_actions o') ''toString'' = None \<Longrightarrow> find_spec o' ''toString'' = Some empty_spec"
  by (simp add: find_spec_def object_members_def)

section \<open>Streams\<close>

text \<open>Frames numbered from zero, of one stream, none but the last marked last or with an error.\<close>

definition numbered :: "string \<Rightarrow> StreamFrame list \<Rightarrow> bool" where
  "numbered sid fs = (\<forall>i < length fs. stf_streamId (fs ! i) = sid \<and> stf_seq (fs ! i) = of_nat i \<and> (stf_isLast (fs ! i) \<longrightarrow> Suc i = length fs) \<and>
     (stf_errorCode (fs ! i) \<noteq> None \<longrightarrow> stf_isLast (fs ! i)))"

definition ended :: "StreamFrame list \<Rightarrow> bool" where
  "ended fs = (fs \<noteq> [] \<and> stf_isLast (last fs))"

lemma numbered_snoc:
  assumes "numbered sid fs" "\<not> ended fs" "stf_streamId f = sid" "stf_seq f = of_nat (length fs)" "stf_errorCode f \<noteq> None \<Longrightarrow> stf_isLast f"
  shows "numbered sid (fs @ [f])"
  unfolding numbered_def
proof (intro allI impI)
  fix i assume i: "i < length (fs @ [f])"
  show "stf_streamId ((fs @ [f]) ! i) = sid \<and> stf_seq ((fs @ [f]) ! i) = of_nat i \<and> (stf_isLast ((fs @ [f]) ! i) \<longrightarrow> Suc i = length (fs @ [f])) \<and>
      (stf_errorCode ((fs @ [f]) ! i) \<noteq> None \<longrightarrow> stf_isLast ((fs @ [f]) ! i))"
  proof (cases "i = length fs")
    case False
    then have "i < length fs" using i by simp
    moreover have "\<not> stf_isLast (fs ! i)" if "Suc i = length fs" using assms(2) that
      by (metis diff_Suc_1 ended_def last_conv_nth length_0_conv nat.distinct(1))
    ultimately show ?thesis using assms(1) by (auto simp: numbered_def nth_append)
  qed (use assms in simp)
qed

lemma stream_catch_numbered:
  assumes "numbered sid fs" "nextSeq = length fs" "terminal = ended fs"
  shows "numbered sid (fs @ stream_catch sid nextSeq terminal aborted e)" "\<not> aborted \<Longrightarrow> ended (fs @ stream_catch sid nextSeq terminal aborted e)"
proof -
  show "numbered sid (fs @ stream_catch sid nextSeq terminal aborted e)"
    using assms by (auto simp: stream_catch_def failure_frame_def intro!: numbered_snoc)
  show "\<not> aborted \<Longrightarrow> ended (fs @ stream_catch sid nextSeq terminal aborted e)"
    using assms by (auto simp: stream_catch_def failure_frame_def ended_def)
qed

lemma completed_frames_Some: "completed_frames fs = Some kept \<Longrightarrow> ended fs \<Longrightarrow> kept = fs \<and> stf_errorCode (last fs) = None"
  by (auto simp: completed_frames_def ended_def split: if_splits)

lemma stream_loop_wellformed:
  assumes "stream_loop sid source nextSeq terminal emitted = (fs, completed)"
    and "numbered sid emitted" "nextSeq = length emitted" "terminal = ended emitted"
  shows "numbered sid fs \<and> (list_all (\<lambda>e. \<not> fst e) source \<longrightarrow> ended fs) \<and>
    (\<forall>done'. completed = Some done' \<longrightarrow> done' = fs \<and> ended fs \<and> stf_errorCode (last fs) = None)"
  using assms
proof (induction sid source nextSeq terminal emitted arbitrary: fs rule: stream_loop.induct)
  case (4 sid aborted supplied es nextSeq terminal emitted)
  note catch = stream_catch_numbered [OF "4.prems"(2-4)]
  define sent where "sent = emitted @ [supplied\<lparr>stf_streamId := sid\<rparr>]"
  show ?case
  proof (cases "stream_refused nextSeq terminal supplied")
    case True
    then show ?thesis using "4.prems"(1) catch by auto
  next
    case False
    then have "numbered sid sent" "ended sent = stf_isLast supplied"
      using "4.prems" by (auto simp: sent_def stream_refused_def ended_def intro!: numbered_snoc)
    note sent = this
    have len: "Suc nextSeq = length sent" using "4.prems"(3) by (simp add: sent_def)
    show ?thesis
    proof (cases aborted)
      case True
      then have "fs = sent" "completed = None" using "4.prems"(1) False by (simp_all add: sent_def)
      then show ?thesis using sent(1) True by simp
    next
      case aborted: False
      then have "stream_loop sid es (Suc nextSeq) (stf_isLast supplied) sent = (fs, completed)"
        using "4.prems"(1) False by (simp add: sent_def)
      from "4.IH" [OF False sent_def aborted this sent(1) len sent(2) [symmetric]] aborted show ?thesis by auto
    qed
  qed
qed (auto simp: stream_catch_numbered split: if_splits dest: completed_frames_Some)

lemma stream_loop_replays:
  assumes "numbered sid (sent @ fs)" "ended (sent @ fs)"
  shows "stream_loop sid' (map (\<lambda>f. (False, SItem f)) fs) (length sent) (ended sent) (map (\<lambda>f. f\<lparr>stf_streamId := sid'\<rparr>) sent) =
     (map (\<lambda>f. f\<lparr>stf_streamId := sid'\<rparr>) (sent @ fs), completed_frames (map (\<lambda>f. f\<lparr>stf_streamId := sid'\<rparr>) (sent @ fs)))"
  using assms
proof (induction fs arbitrary: sent)
  case (Cons f fs)
  have f: "stf_seq f = of_nat (length sent)" "stf_errorCode f \<noteq> None \<Longrightarrow> stf_isLast f"
    using Cons.prems(1) by (auto simp: numbered_def dest: spec [of _ "length sent"])
  have "\<not> ended sent"
  proof
    assume e: "ended sent"
    then have "(sent @ f # fs) ! (length sent - 1) = last sent" by (simp add: ended_def nth_append last_conv_nth)
    moreover have "length sent - 1 < length (sent @ f # fs)" by simp
    ultimately have "Suc (length sent - 1) = length (sent @ f # fs)"
      using Cons.prems(1) e unfolding numbered_def ended_def by metis
    then show False using e by (cases sent) (auto simp: ended_def)
  qed
  then have "\<not> stream_refused (length sent) (ended sent) f" using f by (cases "stf_errorCode f") (auto simp: stream_refused_def)
  then show ?case using Cons.IH [of "sent @ [f]"] Cons.prems by (simp add: ended_def Let_def)
qed simp

text \<open>C15: Whatever the provider yields, the lines of a stream response are frames of one stream numbered from zero, and only the last may be
  marked last or carry an error; unless the call is aborted there is a last one. What is kept for replay is a whole
  stream that ended without an error, and its replay sends the same frames under a new stream identifier.\<close>

theorem action_stream_wellformed:
  assumes "streamResponse sid False source requestId = (response, completed)"
  shows "\<exists>fs. hr_body response = LinesBody fs \<and> numbered sid fs \<and> (list_all (\<lambda>e. \<not> fst e) source \<longrightarrow> ended fs) \<and>
     (\<forall>kept. completed = Some kept \<longrightarrow> kept = fs \<and> ended fs \<and> stf_errorCode (last fs) = None \<and>
        hr_body (fst (streamResponse sid' False (map (\<lambda>f. (False, SItem f)) kept) requestId')) = LinesBody (map (\<lambda>f. f\<lparr>stf_streamId := sid'\<rparr>) fs))"
proof -
  obtain fs where loop: "stream_loop sid source 0 False [] = (fs, completed)" and body: "hr_body response = LinesBody fs"
    using assms by (auto simp: streamResponse_def split: prod.splits)
  have "numbered sid []" "False = ended []" by (simp_all add: numbered_def ended_def)
  from stream_loop_wellformed [OF loop this(1) _ this(2)]
  have wf: "numbered sid fs" "list_all (\<lambda>e. \<not> fst e) source \<longrightarrow> ended fs"
    "\<forall>kept. completed = Some kept \<longrightarrow> kept = fs \<and> ended fs \<and> stf_errorCode (last fs) = None" by auto
  have "hr_body (fst (streamResponse sid' False (map (\<lambda>f. (False, SItem f)) fs) requestId')) = LinesBody (map (\<lambda>f. f\<lparr>stf_streamId := sid'\<rparr>) fs)"
    if "ended fs"
    using stream_loop_replays [of sid "[]" fs sid'] wf(1) that by (simp add: streamResponse_def ended_def)
  then show ?thesis using body wf by auto
qed

theorem action_stream_wellformed_witness:
  "let f = \<lparr>stf_streamId = ''p'', stf_seq = 0, stf_isLast = False, stf_data = [], stf_anchorRef = None, stf_windowSize = None, stf_errorCode = None\<rparr>
   in \<exists>fs. hr_body (fst (streamResponse ''s'' False [(False, SItem f), (False, SItem f)] None)) = LinesBody fs \<and> numbered ''s'' fs \<and> ended fs"
proof -
  define f where "f = \<lparr>stf_streamId = ''p'', stf_seq = 0, stf_isLast = False, stf_data = [], stf_anchorRef = None, stf_windowSize = None, stf_errorCode = None\<rparr>"
  obtain r c where "streamResponse ''s'' False [(False, SItem f), (False, SItem f)] None = (r, c)" by force
  from this action_stream_wellformed [OF this, of "''t''" None] show ?thesis unfolding f_def [symmetric] Let_def by auto
qed

section \<open>Instances\<close>

definition demo_action_env :: action_env where
  "demo_action_env = \<lparr>ae_opt = \<lparr>ano_nodeId = ''n'', ano_displayName = None, ano_actions = [(''a.b'', empty_spec\<lparr>asp_async := Some True\<rparr>)],
     ano_pathPrefix = ''/x/'', ano_requireAuth = None, ano_defaultTimeoutMs = None, ano_maxTimeoutMs = None, ano_idempotencyTtlMs = Some 100,
     ano_taskRetentionMs = None, ano_rejectPrivateCallbackUrls = None, ano_defaultTokenBudget = None, ano_profiles = None\<rparr>,
     ae_parseUrl = (\<lambda>u. None), ae_sha256 = id, ae_numStr = (\<lambda>n. ''1''), ae_iso = (\<lambda>n. ''t'')\<rparr>"

definition demo_frame_of :: "string \<Rightarrow> jsobj option \<Rightarrow> bool option \<Rightarrow> ActionFrame" where
  "demo_frame_of a p asy = \<lparr>af_actionId = a, af_params = p, af_async = asy, af_idempotencyKey = Some ''k'', af_timeoutMs = None, af_requestId = None\<rparr>"

definition demo_body :: "ActionFrame \<Rightarrow> invoke_body" where
  "demo_body f = \<lparr>ib_frame = f, ib_priority = None, ib_callbackUrl = None, ib_requestId = None, ib_wireInputBytes = 0\<rparr>"

definition demo_ctx :: "jsobj option \<Rightarrow> bool option \<Rightarrow> invoke_ctx" where
  "demo_ctx p asy = \<lparr>ix_body = demo_body (demo_frame_of ''a.b'' p asy), ix_agent = Some ''alice'', ix_spec = empty_spec, ix_timeout = 1, ix_priority = ''normal''\<rparr>"

definition demo_server :: "bool option \<Rightarrow> action_server" where
  "demo_server asy = \<lparr>sv_app = \<lparr>ap_tasks = [], ap_idem = [], ap_controllers = []\<rparr>,
     sv_requests = [(1, (if asy = Some True then AwaitAuthorize else AwaitExecute) (demo_ctx None asy))]\<rparr>"

text \<open>A task is started for one caller; another caller asks for it.\<close>

definition demo_started :: action_server where
  "demo_started = server_step demo_action_env (demo_server (Some True)) (5, Authorized 1 ''task'' None)"

lemma demo_started_task: "task_owner (ap_tasks (sv_app demo_started)) ''task'' = Some (Some ''alice'')"
  by (simp add: demo_started_def demo_server_def demo_ctx_def demo_body_def demo_frame_of_def js_get_def set_stage_def invoke_authorized_def idem_key_of_def
      ic_get_def cache_key_def start_task_def ts_create_def js_has_def opt_or_def store_entry_def new_entry_def tryStore_def tryTransition_def task_owner_def
      js_set_def Let_def)

theorem action_task_protected_witness:
  "let app = sv_app (run (server_step demo_action_env) demo_started [(6, TaskEnds ''task'' RaceTimeout)]);
       b = demo_body (demo_frame_of SYSTEM_TASK_CANCEL (Some [(''task_id'', JStr ''task'')]) None) in
   invoke_start demo_action_env 7 (Some ''bob'') (Some b) app = (Responded (errorResponse 403 ''NPS-AUTH-FORBIDDEN'' ''NWP-AUTH-NID-SCOPE-VIOLATION''), app)"
proof -
  let ?b = "demo_body (demo_frame_of SYSTEM_TASK_CANCEL (Some [(''task_id'', JStr ''task'')]) None)"
  have "names_task ?b ''task''" by (simp add: names_task_def demo_body_def demo_frame_of_def readStringParam_def jo_get_def)
  then show ?thesis
    using action_task_protected [OF demo_started_task, of demo_action_env "[(6, TaskEnds ''task'' RaceTimeout)]"] by (simp add: Let_def)
qed

theorem idempotent_answer_replayed_witness:
  "let res = \<lparr>aer_result = Some (JNum 7), aer_stream = False, aer_anchorRef = None, aer_tokenEst = None\<rparr>;
       app = sv_app (run (server_step demo_action_env) (server_step demo_action_env (demo_server None) (5, Executed 1 (RaceProvider (Inr res)))) [(6, TaskEnds ''z'' RaceTimeout)]);
       r = invoke_authorized demo_action_env 50 ''t'' None (demo_ctx (Some [(''p'', JNull)]) None) app in
   r = (Responded (if params_hash demo_action_env (demo_ctx (Some [(''p'', JNull)]) None) = params_hash demo_action_env (demo_ctx None None)
          then capsResponse (ae_numStr demo_action_env) (JNum 7) None None 0
          else errorResponse 409 ''NPS-CLIENT-CONFLICT'' ''NWP-ACTION-IDEMPOTENCY-CONFLICT''), app)"
proof -
  let ?res = "\<lparr>aer_result = Some (JNum 7), aer_stream = False, aer_anchorRef = None, aer_tokenEst = None\<rparr>"
  have "js_wf (ap_idem (sv_app (demo_server None)))" by (simp add: demo_server_def)
  moreover have "js_get (sv_requests (demo_server None)) 1 = Some (AwaitExecute (demo_ctx None None))" by (simp add: demo_server_def js_get_def)
  moreover have "idem_key_of (demo_ctx None None) = Some ''k''" by (simp add: idem_key_of_def demo_ctx_def demo_body_def demo_frame_of_def)
  moreover have "ic_live 5 (ap_idem (sv_app (demo_server None))) (cache_key demo_action_env (demo_ctx None None) ''k'') = None"
    by (simp add: demo_server_def ic_live_def js_get_def)
  moreover have "same_request demo_action_env (demo_ctx None None) (demo_ctx (Some [(''p'', JNull)]) None)"
    by (simp add: same_request_def idem_key_of_def demo_ctx_def demo_body_def demo_frame_of_def)
  moreover have "an_idempotencyTtlMs (ae_opt demo_action_env) = 100" by (simp add: an_idempotencyTtlMs_def demo_action_env_def opt_or_def)
  moreover have "result_anchor (demo_ctx None None) ?res = None" "ib_requestId (ix_body (demo_ctx (Some [(''p'', JNull)]) None)) = None"
    by (simp_all add: result_anchor_def demo_ctx_def empty_spec_def demo_body_def)
  ultimately show ?thesis
    using idempotent_answer_replayed [of "demo_server None" 1 "demo_ctx None None" "''k''" 5 demo_action_env ?res "demo_ctx (Some [(''p'', JNull)]) None"
        "[(6, TaskEnds ''z'' RaceTimeout)]" 50 "''t''"]
    by (simp add: opt_or_def Let_def del: server_step.simps)
qed

end
