(* ===== verification/NwpMemoryServer.thy ===== *)
theory NwpMemoryServer
  imports NcpHandshake NwpSql NwpActionServer
begin

text \<open>
  \<open>nwp/memory-server.ts\<close>: the Memory Node and its in-memory provider. A row is a JSON object; a member that is missing
  is \<open>None\<close>, the language's \<open>undefined\<close>. The frame of a request is given as decoded; the clock is not used; SHA-256 and the printer of numbers are
  arguments. \<open>Array.prototype.sort\<close> is a stable insertion sort, which is what the language prescribes for a consistent comparison.
  What a provider answers to \<open>query\<close> and \<open>stream\<close> is an argument of the handlers.

  Proved: the memory node and the SQL node select the same rows for every well-typed filter over plain values, given a database that compares as the
  language does; a query answers an ordered page of the matching rows; an answer keeps within the token budget
  and is the longest prefix that does; a stream is numbered and ended by exactly one last line. Missing
  members are compared as the text \<open>undefined\<close>, and comparison is not transitive on mixed types.
\<close>

section \<open>The filter language\<close>

text \<open>\<open>String(x)\<close>; inside an array, \<open>null\<close> is the empty text.\<close>

fun js_toString :: "(rat \<Rightarrow> string) \<Rightarrow> jsval \<Rightarrow> string" and js_toString_elem :: "(rat \<Rightarrow> string) \<Rightarrow> jsval \<Rightarrow> string" where
  "js_toString numStr JNull = ''null''"
| "js_toString numStr (JBool b) = (if b then ''true'' else ''false'')"
| "js_toString numStr (JNum n) = numStr n"
| "js_toString numStr (JStr s) = s"
| "js_toString numStr (JArr vs) = js_join '','' (map (js_toString_elem numStr) vs)"
| "js_toString numStr (JObj kvs) = ''[object Object]''"
| "js_toString_elem numStr JNull = []"
| "js_toString_elem numStr (JBool b) = (if b then ''true'' else ''false'')"
| "js_toString_elem numStr (JNum n) = numStr n"
| "js_toString_elem numStr (JStr s) = s"
| "js_toString_elem numStr (JArr vs) = js_join '','' (map (js_toString_elem numStr) vs)"
| "js_toString_elem numStr (JObj kvs) = ''[object Object]''"

definition js_text :: "(rat \<Rightarrow> string) \<Rightarrow> jsval option \<Rightarrow> string" where
  "js_text numStr v = (case v of None \<Rightarrow> ''undefined'' | Some x \<Rightarrow> js_toString numStr x)"

definition compareValues :: "(rat \<Rightarrow> string) \<Rightarrow> jsval option \<Rightarrow> jsval option \<Rightarrow> rat" where
  "compareValues numStr a b = (case (a, b) of
     (Some (JNum x), Some (JNum y)) \<Rightarrow> x - y
   | _ \<Rightarrow> let as = js_text numStr a; bs = js_text numStr b in if js_str_lt as bs then -1 else if js_str_lt bs as then 1 else 0)"

definition is_object :: "jsval option \<Rightarrow> bool" where
  "is_object v = (case v of Some (JArr _) \<Rightarrow> True | Some (JObj _) \<Rightarrow> True | _ \<Rightarrow> False)"

text \<open>Two different objects are never \<open>===\<close>; the texts of an object and itself are equal.\<close>

definition deepEqual :: "(rat \<Rightarrow> string) \<Rightarrow> jsval option \<Rightarrow> jsval option \<Rightarrow> bool" where
  "deepEqual numStr a b =
     (if js_strict_eq a b then True
      else if a = None \<or> b = None \<or> a = Some JNull \<or> b = Some JNull then False
      else if \<not> is_object a \<or> \<not> is_object b then False
      else json_stringify numStr (the a) = json_stringify numStr (the b))"

text \<open>The only error of the language is an unknown operator.\<close>

definition operator_unknown :: string where
  "operator_unknown = ''NWP-QUERY-FILTER-INVALID''"

definition match_operator :: "(rat \<Rightarrow> string) \<Rightarrow> jsval option \<Rightarrow> string \<Rightarrow> jsval \<Rightarrow> string + bool" where
  "match_operator numStr value op operand =
     (let arg = Some operand in
      if op = ''$eq'' then Inr (deepEqual numStr value arg)
      else if op = ''$ne'' then Inr (\<not> deepEqual numStr value arg)
      else if op = ''$lt'' then Inr (compareValues numStr value arg < 0)
      else if op = ''$lte'' then Inr (compareValues numStr value arg \<le> 0)
      else if op = ''$gt'' then Inr (compareValues numStr value arg > 0)
      else if op = ''$gte'' then Inr (compareValues numStr value arg \<ge> 0)
      else if op = ''$in'' then Inr (case operand of JArr vs \<Rightarrow> list_ex (\<lambda>o'. deepEqual numStr value (Some o')) vs | _ \<Rightarrow> False)
      else if op = ''$nin'' then Inr (case operand of JArr vs \<Rightarrow> \<not> list_ex (\<lambda>o'. deepEqual numStr value (Some o')) vs | _ \<Rightarrow> True)
      else if op = ''$contains'' then Inr (case (value, operand) of
          (Some (JStr s), JStr p) \<Rightarrow> js_includes s p
        | (Some (JArr vs), _) \<Rightarrow> list_ex (\<lambda>v. deepEqual numStr (Some v) arg) vs
        | _ \<Rightarrow> False)
      else if op = ''$between'' then Inr (case operand of
          JArr [low, high] \<Rightarrow> compareValues numStr value (Some low) \<ge> 0 \<and> compareValues numStr value (Some high) \<le> 0
        | _ \<Rightarrow> False)
      else Inl operator_unknown)"

text \<open>The loop over the operators returns at the first that fails.\<close>

fun match_operators :: "(rat \<Rightarrow> string) \<Rightarrow> jsval option \<Rightarrow> jsobj \<Rightarrow> string + bool" where
  "match_operators numStr value [] = Inr True"
| "match_operators numStr value ((op, operand) # es) =
     rbind (match_operator numStr value op operand) (\<lambda>b. if b then match_operators numStr value es else Inr False)"

definition matchFieldCondition :: "(rat \<Rightarrow> string) \<Rightarrow> jsval option \<Rightarrow> jsval \<Rightarrow> string + bool" where
  "matchFieldCondition numStr value cond = (case cond of
     JObj kvs \<Rightarrow> match_operators numStr value kvs
   | _ \<Rightarrow> Inr (deepEqual numStr value (Some cond)))"

text \<open>The entries of a filter that is an array or a text: their keys are indices, never operators.\<close>

fun match_indexed :: "(rat \<Rightarrow> string) \<Rightarrow> jsobj \<Rightarrow> nat \<Rightarrow> jsval list \<Rightarrow> string + bool" where
  "match_indexed numStr row i [] = Inr True"
| "match_indexed numStr row i (v # vs) =
     rbind (matchFieldCondition numStr (jo_get row (js_nat_string i)) v) (\<lambda>b. if b then match_indexed numStr row (Suc i) vs else Inr False)"

function (sequential) match_entries :: "(rat \<Rightarrow> string) \<Rightarrow> jsobj \<Rightarrow> jsobj \<Rightarrow> string + bool"
  and match_entry :: "(rat \<Rightarrow> string) \<Rightarrow> jsobj \<Rightarrow> string \<Rightarrow> jsval \<Rightarrow> string + bool"
  and match_all :: "(rat \<Rightarrow> string) \<Rightarrow> jsobj \<Rightarrow> jsval list \<Rightarrow> string + bool"
  and match_some :: "(rat \<Rightarrow> string) \<Rightarrow> jsobj \<Rightarrow> jsval list \<Rightarrow> string + bool"
  and matchFilter :: "(rat \<Rightarrow> string) \<Rightarrow> jsobj \<Rightarrow> jsval \<Rightarrow> string + bool" where
  "match_entries numStr row [] = Inr True"
| "match_entries numStr row ((key, cond) # es) =
     rbind (match_entry numStr row key cond) (\<lambda>b. if b then match_entries numStr row es else Inr False)"
| "match_entry numStr row key cond =
     (if key = ''$and'' then (case cond of JArr cs \<Rightarrow> match_all numStr row cs | _ \<Rightarrow> Inr False)
      else if key = ''$or'' then (case cond of JArr cs \<Rightarrow> match_some numStr row cs | _ \<Rightarrow> Inr False)
      else if key = ''$not'' then rbind (matchFilter numStr row cond) (\<lambda>b. Inr (\<not> b))
      else matchFieldCondition numStr (jo_get row key) cond)"
| "match_all numStr row [] = Inr True"
| "match_all numStr row (c # cs) = rbind (matchFilter numStr row c) (\<lambda>b. if b then match_all numStr row cs else Inr False)"
| "match_some numStr row [] = Inr False"
| "match_some numStr row (c # cs) = rbind (matchFilter numStr row c) (\<lambda>b. if b then Inr True else match_some numStr row cs)"
| "matchFilter numStr row (JObj kvs) = match_entries numStr row kvs"
| "matchFilter numStr row (JArr vs) = match_indexed numStr row 0 vs"
| "matchFilter numStr row (JStr s) = match_indexed numStr row 0 (map (\<lambda>c. JStr [c]) s)"
| "matchFilter numStr row v = Inr True"
  by pat_completeness auto
termination match_entries
  by (relation "measure (\<lambda>x. case x of
      Inl (Inl (n, r, es)) \<Rightarrow> 2 * size_list (size_prod (\<lambda>_. 0) size) es
    | Inl (Inr (n, r, k, c)) \<Rightarrow> 2 * size c + 1
    | Inr (Inl (n, r, cs)) \<Rightarrow> 2 * size_list size cs
    | Inr (Inr (Inl (n, r, cs))) \<Rightarrow> 2 * size_list size cs
    | Inr (Inr (Inr (n, r, c))) \<Rightarrow> 2 * size c)") auto

section \<open>The in-memory provider\<close>

record MemoryNodeSchema =
  ms_tableName :: string
  ms_primaryKey :: string
  ms_fields :: "SqlMemoryNodeField list"

definition getSchemaField :: "MemoryNodeSchema \<Rightarrow> string \<Rightarrow> SqlMemoryNodeField option" where
  "getSchemaField schema name = find (\<lambda>f. js_toLowerCase (sf_name f) = js_toLowerCase name) (ms_fields schema)"

record MemoryNodeOptions =
  mno_nodeId :: string
  mno_displayName :: "string option"
  mno_schema :: MemoryNodeSchema
  mno_pathPrefix :: string
  mno_defaultLimit :: "rat option"
  mno_maxLimit :: "rat option"
  mno_requireAuth :: "bool option"
  mno_defaultTokenBudget :: "rat option"

fun filter_rows :: "(rat \<Rightarrow> string) \<Rightarrow> jsobj option \<Rightarrow> jsobj list \<Rightarrow> string + jsobj list" where
  "filter_rows numStr flt [] = Inr []"
| "filter_rows numStr flt (row # rows) =
     rbind (case flt of None \<Rightarrow> Inr True | Some f \<Rightarrow> matchFilter numStr row (JObj f)) (\<lambda>b.
     rbind (filter_rows numStr flt rows) (\<lambda>rs. Inr (if b then row # rs else rs)))"

text \<open>The comparison of two rows: the first clause that tells them apart decides.\<close>

fun order_compare :: "(rat \<Rightarrow> string) \<Rightarrow> (string \<times> string) list \<Rightarrow> jsobj \<Rightarrow> jsobj \<Rightarrow> rat" where
  "order_compare numStr [] a b = 0"
| "order_compare numStr ((field, dir) # cs) a b =
     (let cmp = compareValues numStr (jo_get a field) (jo_get b field) in
      if cmp \<noteq> 0 then cmp * (if js_toLowerCase dir = ''desc'' then -1 else 1) else order_compare numStr cs a b)"

fun insert_row :: "(jsobj \<Rightarrow> jsobj \<Rightarrow> rat) \<Rightarrow> jsobj \<Rightarrow> jsobj list \<Rightarrow> jsobj list" where
  "insert_row cmp r [] = [r]"
| "insert_row cmp r (x # xs) = (if cmp x r < 0 then x # insert_row cmp r xs else r # x # xs)"

definition sort_rows :: "(jsobj \<Rightarrow> jsobj \<Rightarrow> rat) \<Rightarrow> jsobj list \<Rightarrow> jsobj list" where
  "sort_rows cmp rows = foldr (insert_row cmp) rows []"

text \<open>\<open>xs.slice(from, to)\<close>: negative positions count from the end.\<close>

definition slice_pos :: "nat \<Rightarrow> rat \<Rightarrow> nat" where
  "slice_pos n x = (let k = floor (js_trunc x) in if k < 0 then nat (max 0 (int n + k)) else nat (min k (int n)))"

definition js_slice :: "'a list \<Rightarrow> rat \<Rightarrow> rat \<Rightarrow> 'a list" where
  "js_slice xs i j = (let a = slice_pos (length xs) i; b = slice_pos (length xs) j in take (b - a) (drop a xs))"

definition project :: "string list \<Rightarrow> jsobj \<Rightarrow> jsobj" where
  "project flds row = foldl (\<lambda>out f. case jo_get row f of None \<Rightarrow> out | Some v \<Rightarrow> js_set out f v) [] flds"

definition ordered_rows :: "(rat \<Rightarrow> string) \<Rightarrow> QueryFrame \<Rightarrow> jsobj list \<Rightarrow> jsobj list" where
  "ordered_rows numStr frame rows = (case qf_orderBy frame of
     Some (c # cs) \<Rightarrow> sort_rows (order_compare numStr (c # cs)) rows | _ \<Rightarrow> rows)"

definition memory_limit :: "MemoryNodeOptions \<Rightarrow> QueryFrame \<Rightarrow> rat" where
  "memory_limit opts frame = min (opt_or (opt_or 20 (mno_defaultLimit opts)) (qf_limit frame)) (opt_or 1000 (mno_maxLimit opts))"

definition memory_query :: "(rat \<Rightarrow> string) \<Rightarrow> jsobj list \<Rightarrow> QueryFrame \<Rightarrow> MemoryNodeSchema \<Rightarrow> MemoryNodeOptions \<Rightarrow> string + jsobj list" where
  "memory_query numStr stored frame schema opts =
     (if (case qf_fields frame of None \<Rightarrow> False | Some fs \<Rightarrow> list_ex (\<lambda>f. getSchemaField schema f = None) fs) then Inl ''NWP-QUERY-FIELD-UNKNOWN''
      else rbind (filter_rows numStr (qf_filter frame) stored) (\<lambda>rows.
        let rows = ordered_rows numStr frame rows;
            offset = opt_or 0 (qf_offset frame);
            page = js_slice rows offset (offset + memory_limit opts frame) in
        Inr (case qf_fields frame of None \<Rightarrow> page | Some fs \<Rightarrow> map (project fs) page)))"

definition memory_stream :: "(rat \<Rightarrow> string) \<Rightarrow> jsobj list \<Rightarrow> QueryFrame \<Rightarrow> MemoryNodeSchema \<Rightarrow> MemoryNodeOptions \<Rightarrow> jsobj list list \<times> string option" where
  "memory_stream numStr stored frame schema opts = (case memory_query numStr stored frame schema opts of
     Inl e \<Rightarrow> ([], Some e) | Inr rows \<Rightarrow> ([rows], None))"

section \<open>The application\<close>

record memory_env =
  me_opt :: MemoryNodeOptions
  me_sha256 :: "string \<Rightarrow> string"
  me_numStr :: "rat \<Rightarrow> string"

definition mem_prefix :: "MemoryNodeOptions \<Rightarrow> string" where
  "mem_prefix o' = rev (dropWhile (\<lambda>c. c = CHR ''/'') (rev (mno_pathPrefix o')))"

definition frame_schema :: "MemoryNodeOptions \<Rightarrow> jsval" where
  "frame_schema o' = JObj [(''fields'', JArr (map (\<lambda>f. JObj [(''name'', JStr (sf_name f)), (''type'', JStr (sf_type f)),
     (''nullable'', JBool (opt_or True (sf_nullable f)))]) (ms_fields (mno_schema o'))))]"

definition mem_anchorId :: "memory_env \<Rightarrow> string" where
  "mem_anchorId env = ''sha256:'' @ me_sha256 env (json_stringify (me_numStr env) (frame_schema (me_opt env)))"

definition mem_manifest :: "memory_env \<Rightarrow> jsobj" where
  "mem_manifest env = (let o' = me_opt env; base = mem_prefix o'; auth = opt_or False (mno_requireAuth o') in
     [(''nwp'', JStr ''0.4''), (''node_id'', JStr (mno_nodeId o')), (''node_type'', JStr ''memory''),
      (''display_name'', opt_str (mno_displayName o')), (''wire_formats'', JArr [JStr ''ncp-capsule'', JStr ''json'']),
      (''preferred_format'', JStr ''json''), (''schema_anchors'', JObj [(''default'', JStr (mem_anchorId env))]),
      (''capabilities'', JObj [(''query'', JBool True), (''stream'', JBool True), (''token_budget_hint'', JBool True)]),
      (''auth'', JObj [(''required'', JBool auth), (''identity_type'', JStr (if auth then ''nip-cert'' else ''none''))]),
      (''endpoints'', JObj [(''query'', JStr (base @ ''/query'')), (''stream'', JStr (base @ ''/stream'')), (''schema'', JStr (base @ ''/.schema''))])])"

definition parseBudget :: "string option \<Rightarrow> rat" where
  "parseBudget raw = (case raw of None \<Rightarrow> 0 | Some s \<Rightarrow> if s = [] then 0 else (case js_parseInt s of None \<Rightarrow> 0 | Some n \<Rightarrow> of_int n))"

definition effectiveBudget :: "rat \<Rightarrow> rat \<Rightarrow> rat" where
  "effectiveBudget agentBudget cgnLimit =
     (if cgnLimit \<le> 0 then agentBudget else if agentBudget \<le> 0 then cgnLimit else min cgnLimit agentBudget)"

definition row_tokens :: "(rat \<Rightarrow> string) \<Rightarrow> jsobj \<Rightarrow> nat" where
  "row_tokens numStr row = (length (json_stringify numStr (JObj row)) + 3) div 4"

definition measureRows :: "(rat \<Rightarrow> string) \<Rightarrow> jsobj list \<Rightarrow> nat" where
  "measureRows numStr rows = sum_list (map (row_tokens numStr) rows)"

fun trim_rows :: "(rat \<Rightarrow> string) \<Rightarrow> rat \<Rightarrow> nat \<Rightarrow> jsobj list \<Rightarrow> jsobj list \<times> nat" where
  "trim_rows numStr budget acc [] = ([], acc)"
| "trim_rows numStr budget acc (row # rows) =
     (let tok = row_tokens numStr row in
      if of_nat (acc + tok) > budget then ([], acc)
      else let (kept, tokens) = trim_rows numStr budget (acc + tok) rows in (row # kept, tokens))"

definition trimToBudget :: "(rat \<Rightarrow> string) \<Rightarrow> jsobj list \<Rightarrow> rat \<Rightarrow> jsobj list \<times> nat" where
  "trimToBudget numStr rows budget = trim_rows numStr budget 0 rows"

text \<open>An error of the provider: with a code of its own or any other.\<close>

datatype memory_error = MemoryFilterError string | MemoryOtherError

definition budget_rows :: "(rat \<Rightarrow> string) \<Rightarrow> rat \<Rightarrow> jsobj list \<Rightarrow> jsobj list \<times> nat" where
  "budget_rows numStr budget rows = (let tokenEst = measureRows numStr rows in
     if budget > 0 \<and> of_nat tokenEst > budget then trimToBudget numStr rows budget else (rows, tokenEst))"

text \<open>\<open>None\<close> is a body that is no JSON.\<close>

definition handleQuery :: "memory_env \<Rightarrow> (QueryFrame \<Rightarrow> memory_error + jsobj list \<times> string option) \<Rightarrow> string option \<Rightarrow> QueryFrame option \<Rightarrow> http_response" where
  "handleQuery env query budgetHeader frame = (case frame of
     None \<Rightarrow> errorResponse 400 ''NPS-CLIENT-BAD-REQUEST'' ''NWP-QUERY-FILTER-INVALID''
   | Some f \<Rightarrow>
       let budget = effectiveBudget (parseBudget budgetHeader) (opt_or 0 (mno_defaultTokenBudget (me_opt env))) in
       case query f of
         Inl (MemoryFilterError code) \<Rightarrow> errorResponse 400 ''NPS-CLIENT-BAD-REQUEST'' code
       | Inl MemoryOtherError \<Rightarrow> errorResponse 500 ''NPS-SERVER-INTERNAL'' ''NWP-NODE-UNAVAILABLE''
       | Inr (rows, nextCursor) \<Rightarrow>
           let (rows, tokenEst) = budget_rows (me_numStr env) budget rows in
           \<lparr>hr_status = 200,
            hr_headers = [(''content-type'', ''application/nwp-capsule''), (''x-nwp-schema'', mem_anchorId env),
              (''x-nwp-tokens'', me_numStr env (of_nat tokenEst)), (''x-nwp-node-type'', ''memory'')],
            hr_body = JsonBody (JObj [(''anchor_ref'', JStr (mem_anchorId env)), (''count'', JNum (of_nat (length rows))),
              (''data'', JArr (map JObj rows)), (''next_cursor'', opt_str nextCursor), (''token_est'', JNum (of_nat tokenEst))])\<rparr>)"

definition stream_line :: "string \<Rightarrow> nat \<Rightarrow> bool \<Rightarrow> jsobj list \<Rightarrow> jsobj \<Rightarrow> jsval" where
  "stream_line streamId seq isLast rows extra =
     JObj ([(''stream_id'', JStr streamId), (''seq'', JNum (of_nat seq)), (''is_last'', JBool isLast), (''data'', JArr (map JObj rows))] @ extra)"

definition memory_error_code :: "memory_error \<Rightarrow> string" where
  "memory_error_code e = (case e of MemoryFilterError c \<Rightarrow> c | MemoryOtherError \<Rightarrow> ''NWP-NODE-UNAVAILABLE'')"

text \<open>The lines of a stream: what the provider yields page by page, and the error that ends it, if any. A provider without \<open>stream\<close> is queried:
  its rows are one page. The members of a line are kept in one order.\<close>

definition stream_lines :: "string \<Rightarrow> string \<Rightarrow> jsobj list list \<times> memory_error option \<Rightarrow> jsval list" where
  "stream_lines anchorId streamId source =
     (let (pages, err) = source in
      map (\<lambda>(i, page). stream_line streamId i False page (if i = 0 then [(''anchor_ref'', JStr anchorId)] else [])) (enumerate 0 pages) @
      [stream_line streamId (length pages) True [] (case err of None \<Rightarrow> [] | Some e \<Rightarrow> [(''error_code'', JStr (memory_error_code e))])])"

text \<open>The streamed response: headers and lines.\<close>

definition handleStream :: "memory_env \<Rightarrow> (QueryFrame \<Rightarrow> jsobj list list \<times> memory_error option) \<Rightarrow> string \<Rightarrow> QueryFrame option \<Rightarrow>
    http_response + (string \<times> string) list \<times> jsval list" where
  "handleStream env stream streamId frame = (case frame of
     None \<Rightarrow> Inl (errorResponse 400 ''NPS-CLIENT-BAD-REQUEST'' ''NWP-QUERY-FILTER-INVALID'')
   | Some f \<Rightarrow> Inr ([(''content-type'', ''application/nwp-capsule''), (''x-nwp-schema'', mem_anchorId env), (''x-nwp-node-type'', ''memory'')],
       stream_lines (mem_anchorId env) streamId (stream f)))"

datatype memory_route = MemRespond http_response | MemQuery | MemStream

definition memory_fetch :: "memory_env \<Rightarrow> string \<Rightarrow> string \<Rightarrow> string option \<Rightarrow> memory_route" where
  "memory_fetch env path meth agent =
     (let o' = me_opt env; pre = mem_prefix o'; sub = drop (length pre) path;
          notAllowed = MemRespond \<lparr>hr_status = 405, hr_headers = [], hr_body = NoBody\<rparr> in
      if \<not> js_startsWith (js_toLowerCase path) (js_toLowerCase pre) then MemRespond notFound
      else if opt_or False (mno_requireAuth o') \<and> (agent = None \<or> agent = Some [])
      then MemRespond (errorResponse 401 ''NPS-CLIENT-UNAUTHORIZED'' ''NWP-AUTH-NID-SCOPE-VIOLATION'')
      else if sub = ''/.nwm'' \<or> sub = ''/.nwm/''
      then MemRespond \<lparr>hr_status = 200, hr_headers = [(''content-type'', ''application/nwp-manifest+json''), (''x-nwp-node-type'', ''memory'')],
             hr_body = JsonBody (JObj (mem_manifest env))\<rparr>
      else if sub = ''/.schema'' \<or> sub = ''/.schema/''
      then MemRespond \<lparr>hr_status = 200, hr_headers = [(''content-type'', ''application/json''), (''x-nwp-schema'', mem_anchorId env)],
             hr_body = JsonBody (frame_schema o')\<rparr>
      else if sub = ''/query'' \<or> sub = ''/query/'' then (if meth \<noteq> ''POST'' then notAllowed else MemQuery)
      else if sub = ''/stream'' \<or> sub = ''/stream/'' then (if meth \<noteq> ''POST'' then notAllowed else MemStream)
      else MemRespond notFound)"

section \<open>Comparison and order\<close>

lemma js_str_lt_asym: "js_str_lt a b \<Longrightarrow> \<not> js_str_lt b a"
  by (induction a b rule: js_str_lt.induct) auto

lemma js_str_lt_total: "a \<noteq> b \<Longrightarrow> js_str_lt a b \<or> js_str_lt b a"
proof (induction a arbitrary: b)
  case Nil
  then show ?case by (cases b) auto
next
  case (Cons x a)
  then show ?case by (cases b) (auto simp: neq_iff of_char_eq_iff)
qed

lemma js_str_lt_trans: "js_str_lt a b \<Longrightarrow> js_str_lt b c \<Longrightarrow> js_str_lt a c"
proof (induction a arbitrary: b c)
  case Nil
  then show ?case by (cases b; cases c) auto
next
  case (Cons x a)
  then show ?case by (cases b; cases c) auto
qed

definition textCompare :: "string \<Rightarrow> string \<Rightarrow> rat" where
  "textCompare s t = (if js_str_lt s t then -1 else if js_str_lt t s then 1 else 0)"

lemma compareValues_text:
  "\<not> (\<exists>x y. a = Some (JNum x) \<and> b = Some (JNum y)) \<Longrightarrow> compareValues numStr a b = textCompare (js_text numStr a) (js_text numStr b)"
  by (auto simp: compareValues_def textCompare_def Let_def split: option.splits jsval.splits)

lemma textCompare_flip: "textCompare s t \<le> 0 \<longleftrightarrow> 0 \<le> textCompare t s"
  using js_str_lt_asym by (auto simp: textCompare_def)

lemma textCompare_trans: "textCompare x y \<le> 0 \<Longrightarrow> textCompare y z \<le> 0 \<Longrightarrow> textCompare x z \<le> 0"
proof -
  have le: "textCompare s t \<le> 0 \<longleftrightarrow> \<not> js_str_lt t s" for s t using js_str_lt_asym by (auto simp: textCompare_def)
  assume "textCompare x y \<le> 0" "textCompare y z \<le> 0"
  then show ?thesis unfolding le using js_str_lt_total js_str_lt_trans by metis
qed

lemma compareValues_flip: "compareValues numStr a b \<le> 0 \<longleftrightarrow> 0 \<le> compareValues numStr b a"
proof (cases "\<exists>x y. a = Some (JNum x) \<and> b = Some (JNum y)")
  case True
  then show ?thesis by (auto simp: compareValues_def)
next
  case False
  then show ?thesis using compareValues_text [of a b] compareValues_text [of b a] textCompare_flip by auto
qed

text \<open>A comparison that orders a set of rows.\<close>

definition orders :: "('a \<Rightarrow> 'a \<Rightarrow> rat) \<Rightarrow> 'a set \<Rightarrow> bool" where
  "orders cmp S = ((\<forall>a \<in> S. \<forall>b \<in> S. cmp a b \<le> 0 \<longleftrightarrow> 0 \<le> cmp b a) \<and>
     (\<forall>a \<in> S. \<forall>b \<in> S. \<forall>c \<in> S. cmp a b \<le> 0 \<longrightarrow> cmp b c \<le> 0 \<longrightarrow> cmp a c \<le> 0))"

lemma orders_iff: "orders cmp S \<Longrightarrow> a \<in> S \<Longrightarrow> b \<in> S \<Longrightarrow> cmp a b \<le> 0 \<longleftrightarrow> 0 \<le> cmp b a"
  by (simp add: orders_def)

lemma orders_trans: "orders cmp S \<Longrightarrow> a \<in> S \<Longrightarrow> b \<in> S \<Longrightarrow> c \<in> S \<Longrightarrow> cmp a b \<le> 0 \<Longrightarrow> cmp b c \<le> 0 \<Longrightarrow> cmp a c \<le> 0"
  unfolding orders_def by blast

lemma orders_flip: "orders cmp S \<Longrightarrow> orders (\<lambda>a b. cmp a b * (-1)) S"
  unfolding orders_def by simp blast

lemma orders_strict:
  assumes "orders cmp S" "a \<in> S" "b \<in> S" "c \<in> S" "cmp a b \<le> 0" "cmp b c \<le> 0" "cmp a b < 0 \<or> cmp b c < 0"
  shows "cmp a c < 0"
proof (rule ccontr)
  assume "\<not> cmp a c < 0"
  then have "cmp c a \<le> 0" using orders_iff [OF assms(1,4,2)] by simp
  then have "cmp c b \<le> 0" "cmp b a \<le> 0"
    using orders_trans [OF assms(1,4,2,3)] orders_trans [OF assms(1,3,4,2)] assms(5,6) by auto
  then show False using assms(7) orders_iff [OF assms(1,4,3)] orders_iff [OF assms(1,3,2)] by auto
qed

lemma orders_lex:
  assumes c: "orders cmp S" and d: "orders rest S"
  shows "orders (\<lambda>a b. if cmp a b \<noteq> 0 then cmp a b else rest a b) S"
  unfolding orders_def
proof (intro conjI ballI impI)
  fix a b assume S: "a \<in> S" "b \<in> S"
  note s = orders_iff [OF c S] orders_iff [OF c S(2,1)] orders_iff [OF d S]
  show "(if cmp a b \<noteq> 0 then cmp a b else rest a b) \<le> 0 \<longleftrightarrow> 0 \<le> (if cmp b a \<noteq> 0 then cmp b a else rest b a)"
    using s by (cases "cmp a b = 0"; cases "cmp b a = 0") auto
next
  fix x y z assume S: "x \<in> S" "y \<in> S" "z \<in> S"
    and le: "(if cmp x y \<noteq> 0 then cmp x y else rest x y) \<le> 0" "(if cmp y z \<noteq> 0 then cmp y z else rest y z) \<le> 0"
  have xy: "cmp x y \<le> 0" "cmp y z \<le> 0" using le by (auto split: if_splits)
  show "(if cmp x z \<noteq> 0 then cmp x z else rest x z) \<le> 0"
  proof (cases "cmp x y < 0 \<or> cmp y z < 0")
    case True
    then show ?thesis using orders_strict [OF c S xy True] by simp
  next
    case False
    then have "cmp x y = 0" "cmp y z = 0" using xy by auto
    then have "rest x z \<le> 0" using orders_trans [OF d S] le by simp
    then show ?thesis using orders_trans [OF c S xy] by simp
  qed
qed

lemma insert_row_set: "set (insert_row cmp r xs) = insert r (set xs)"
  by (induction xs) auto

lemma insert_row_mset: "mset (insert_row cmp r xs) = add_mset r (mset xs)"
  by (induction xs) auto

lemma sort_rows_mset: "mset (sort_rows cmp xs) = mset xs"
  by (induction xs) (auto simp: sort_rows_def insert_row_mset)

lemma insert_row_sorted:
  assumes "orders cmp S" "insert r (set xs) \<subseteq> S" "sorted_wrt (\<lambda>a b. cmp a b \<le> 0) xs"
  shows "sorted_wrt (\<lambda>a b. cmp a b \<le> 0) (insert_row cmp r xs)"
  using assms(2,3)
proof (induction xs)
  case (Cons x xs)
  show ?case
  proof (cases "cmp x r < 0")
    case True
    then show ?thesis using Cons by (auto simp: insert_row_set)
  next
    case False
    then have rx: "cmp r x \<le> 0" using orders_iff [OF assms(1), of r x] Cons.prems(1) by simp
    have "cmp r y \<le> 0" if "y \<in> set xs" for y
      using orders_trans [OF assms(1) _ _ _ rx, of y] Cons.prems that by auto
    then have "\<forall>y \<in> set (x # xs). cmp r y \<le> 0" using rx by simp
    then show ?thesis using False Cons.prems(2) by simp
  qed
qed simp

lemma sort_rows_sorted:
  assumes "orders cmp (set xs)"
  shows "sorted_wrt (\<lambda>a b. cmp a b \<le> 0) (sort_rows cmp xs)"
proof -
  have "set ys \<subseteq> set xs \<Longrightarrow> sorted_wrt (\<lambda>a b. cmp a b \<le> 0) (sort_rows cmp ys)" for ys
  proof (induction ys)
    case (Cons y ys)
    have "set (sort_rows cmp ys) = set ys" using sort_rows_mset [of cmp ys] by (metis set_mset_mset)
    then show ?case using Cons insert_row_sorted [OF assms, of y "sort_rows cmp ys"] by (simp add: sort_rows_def)
  qed (simp add: sort_rows_def)
  then show ?thesis by simp
qed

text \<open>The columns a query orders by hold numbers only, or texts only.\<close>

definition uniform_column :: "string \<Rightarrow> jsobj set \<Rightarrow> bool" where
  "uniform_column field S = ((\<forall>r \<in> S. \<exists>n. jo_get r field = Some (JNum n)) \<or> (\<forall>r \<in> S. \<exists>s. jo_get r field = Some (JStr s)))"

lemma column_orders:
  assumes "uniform_column field S"
  shows "orders (\<lambda>a b. compareValues numStr (jo_get a field) (jo_get b field)) S"
proof -
  let ?c = "\<lambda>a b. compareValues numStr (jo_get a field) (jo_get b field)"
  have "?c a c \<le> 0" if S: "a \<in> S" "b \<in> S" "c \<in> S" and le: "?c a b \<le> 0" "?c b c \<le> 0" for a b c
  proof (cases "\<forall>r \<in> S. \<exists>n. jo_get r field = Some (JNum n)")
    case True
    then obtain x y z where "jo_get a field = Some (JNum x)" "jo_get b field = Some (JNum y)" "jo_get c field = Some (JNum z)" using S by metis
    then show ?thesis using le by (simp add: compareValues_def)
  next
    case False
    then obtain x y z where v: "jo_get a field = Some (JStr x)" "jo_get b field = Some (JStr y)" "jo_get c field = Some (JStr z)"
      using S assms by (metis uniform_column_def)
    then have "textCompare x y \<le> 0" "textCompare y z \<le> 0" using le by (simp_all add: compareValues_text js_text_def)
    then have "textCompare x z \<le> 0" by (rule textCompare_trans)
    then show ?thesis using v by (simp add: compareValues_text js_text_def)
  qed
  then show ?thesis unfolding orders_def using compareValues_flip by blast
qed

lemma order_compare_orders: "\<forall>(field, dir) \<in> set cs. uniform_column field S \<Longrightarrow> orders (order_compare numStr cs) S"
proof (induction cs)
  case Nil
  then show ?case by (simp add: orders_def)
next
  case (Cons c cs)
  obtain field dir where c: "c = (field, dir)" by (cases c)
  let ?c = "\<lambda>a b. compareValues numStr (jo_get a field) (jo_get b field)"
  let ?d = "\<lambda>a b. ?c a b * (if js_toLowerCase dir = ''desc'' then -1 else 1)"
  have "orders ?c S" using Cons.prems c column_orders by auto
  then have d: "orders ?d S" using orders_flip [of ?c S] by auto
  have cs: "orders (order_compare numStr cs) S" using Cons by simp
  have eq: "order_compare numStr (c # cs) = (\<lambda>a b. if ?d a b \<noteq> 0 then ?d a b else order_compare numStr cs a b)"
    by (simp add: c fun_eq_iff Let_def)
  show ?case unfolding eq by (rule orders_lex [OF d cs])
qed

section \<open>Queries\<close>

definition row_matches :: "(rat \<Rightarrow> string) \<Rightarrow> jsobj option \<Rightarrow> jsobj \<Rightarrow> bool" where
  "row_matches numStr flt row = (case flt of None \<Rightarrow> True | Some f \<Rightarrow> matchFilter numStr row (JObj f) = Inr True)"

lemma filter_rows_matches: "filter_rows numStr flt rows = Inr rs \<Longrightarrow> rs = filter (row_matches numStr flt) rows"
  by (induction rows arbitrary: rs) (auto simp: rbind_Inr_iff row_matches_def split: option.splits)

lemma slice_nonneg:
  assumes "0 \<le> off" "0 \<le> mx"
  shows "js_slice xs (of_int off) (of_int off + of_int mx) = take (nat mx) (drop (nat off) xs)"
proof -
  have "js_trunc (of_int off + of_int mx) = of_int (off + mx)" by (metis js_trunc_int of_int_add)
  then have "slice_pos (length xs) (of_int off) = min (nat off) (length xs)" "slice_pos (length xs) (of_int off + of_int mx) = min (nat off + nat mx) (length xs)"
    using assms by (auto simp: slice_pos_def Let_def min_def)
  then show ?thesis using assms by (cases "nat off \<le> length xs"; cases "nat off + nat mx \<le> length xs") (auto simp: js_slice_def Let_def min_def)
qed

lemma ordered_rows_sorted:
  assumes "orders (order_compare numStr (opt_or [] (qf_orderBy frame))) (set rows)"
  shows "mset (ordered_rows numStr frame rows) = mset rows \<and>
     sorted_wrt (\<lambda>a b. order_compare numStr (opt_or [] (qf_orderBy frame)) a b \<le> 0) (ordered_rows numStr frame rows)"
proof (cases "opt_or [] (qf_orderBy frame)")
  case Nil
  then have "ordered_rows numStr frame rows = rows" by (auto simp: ordered_rows_def opt_or_def split: option.splits)
  moreover have "sorted_wrt (\<lambda>a b. True) rows" by (induction rows) auto
  ultimately show ?thesis using Nil by simp
next
  case (Cons c cs)
  then have "ordered_rows numStr frame rows = sort_rows (order_compare numStr (opt_or [] (qf_orderBy frame))) rows"
    by (auto simp: ordered_rows_def opt_or_def split: option.splits)
  then show ?thesis using sort_rows_mset sort_rows_sorted [OF assms] by metis
qed


section \<open>Budgets\<close>

lemma trim_rows_prefix:
  "trim_rows numStr budget acc rows = (kept, tokens) \<Longrightarrow> of_nat acc \<le> budget \<Longrightarrow>
   kept = take (length kept) rows \<and> tokens = acc + measureRows numStr kept \<and> of_nat tokens \<le> budget \<and>
   (\<forall>n \<le> length rows. of_nat (acc + measureRows numStr (take n rows)) \<le> budget \<longrightarrow> n \<le> length kept)"
proof (induction rows arbitrary: acc kept)
  case Nil
  then show ?case by (auto simp: measureRows_def)
next
  case (Cons row rows)
  let ?tok = "row_tokens numStr row"
  show ?case
  proof (cases "of_nat (acc + ?tok) > budget")
    case True
    then have "kept = []" "tokens = acc" using Cons.prems(1) by (auto simp: Let_def)
    moreover have "n = 0" if "of_nat (acc + measureRows numStr (take n (row # rows))) \<le> budget" for n
    proof (rule ccontr)
      assume "n \<noteq> 0"
      then have "acc + ?tok \<le> acc + measureRows numStr (take n (row # rows))" by (cases n) (auto simp: measureRows_def)
      then have "rat_of_nat (acc + ?tok) \<le> of_nat (acc + measureRows numStr (take n (row # rows)))" by (simp only: of_nat_le_iff)
      then show False using True that by simp
    qed
    ultimately show ?thesis using Cons.prems(2) by (simp add: measureRows_def)
  next
    case False
    then obtain kept' where k: "trim_rows numStr budget (acc + ?tok) rows = (kept', tokens)" "kept = row # kept'"
      using Cons.prems(1) by (auto simp: Let_def split: prod.splits)
    have IH: "kept' = take (length kept') rows" "tokens = acc + ?tok + measureRows numStr kept'" "of_nat tokens \<le> budget"
      "\<forall>n \<le> length rows. of_nat (acc + ?tok + measureRows numStr (take n rows)) \<le> budget \<longrightarrow> n \<le> length kept'"
      using Cons.IH [OF k(1)] False by auto
    have "n \<le> length kept" if "n \<le> length (row # rows)" "of_nat (acc + measureRows numStr (take n (row # rows))) \<le> budget" for n
      using that IH(4) k(2) by (cases n) (auto simp: measureRows_def add.assoc)
    then show ?thesis using IH k(2) by (simp add: measureRows_def)
  qed
qed


section \<open>Two providers, one answer\<close>

text \<open>A database that compares the way the language does.\<close>

definition memory_db :: "(rat \<Rightarrow> string) \<Rightarrow> database" where
  "memory_db numStr op x args = (case (op, args) of
     (SqlSimple s, [v]) \<Rightarrow>
       if s = ''='' then deepEqual numStr (Some x) (Some v)
       else if s = ''<>'' then \<not> deepEqual numStr (Some x) (Some v)
       else if s = ''<'' then compareValues numStr (Some x) (Some v) < 0
       else if s = ''<='' then compareValues numStr (Some x) (Some v) \<le> 0
       else if s = ''>'' then compareValues numStr (Some x) (Some v) > 0
       else if s = ''>='' then compareValues numStr (Some x) (Some v) \<ge> 0
       else (case (x, v) of (JStr s, JStr p) \<Rightarrow> js_includes s (butlast (tl p)) | _ \<Rightarrow> False)
   | (SqlIn, [JArr vs]) \<Rightarrow> list_ex (\<lambda>v. deepEqual numStr (Some x) (Some v)) vs
   | (SqlNotIn, [JArr vs]) \<Rightarrow> \<not> list_ex (\<lambda>v. deepEqual numStr (Some x) (Some v)) vs
   | (SqlBetween, [low, high]) \<Rightarrow> compareValues numStr (Some x) (Some low) \<ge> 0 \<and> compareValues numStr (Some x) (Some high) \<le> 0
   | _ \<Rightarrow> False)"

definition plain :: "jsval \<Rightarrow> bool" where
  "plain v = (\<not> is_object (Some v))"

text \<open>The operands that both providers read alike: plain values, arrays of them where an array is asked for, a text for \<open>$contains\<close>.\<close>

definition operand_ok :: "string \<Rightarrow> jsval \<Rightarrow> bool" where
  "operand_ok op v = (operator_ok op v \<and>
     (if op = ''$in'' \<or> op = ''$nin'' \<or> op = ''$between'' then (case v of JArr vs \<Rightarrow> list_all plain vs | _ \<Rightarrow> False)
      else if op = ''$contains'' then \<exists>s. v = JStr s else plain v))"

text \<open>Well-typed filters with such operands that name the fields as the schema spells them.\<close>

fun entry_plain :: "SqlMemoryNodeSchema \<Rightarrow> string \<Rightarrow> jsval \<Rightarrow> bool" and object_plain :: "SqlMemoryNodeSchema \<Rightarrow> jsval \<Rightarrow> bool" where
  "entry_plain schema name (JArr els) = (name \<in> {''$and'', ''$or''} \<and> els \<noteq> [] \<and> list_all (object_plain schema) els)"
| "entry_plain schema name (JObj kvs) = (\<not> js_startsWith name ''$'' \<and> (\<exists>f. getField schema name = Some f \<and> sf_name f = name) \<and> kvs \<noteq> [] \<and>
     list_all (\<lambda>(op, v). operand_ok op v) kvs)"
| "entry_plain schema name _ = False"
| "object_plain schema (JObj kvs) = (kvs \<noteq> [] \<and> list_all (\<lambda>(name, v). entry_plain schema name v) kvs)"
| "object_plain schema _ = False"

text \<open>A row as the database holds it: by columns, with plain values.\<close>

definition stores_row :: "SqlMemoryNodeSchema \<Rightarrow> jsobj \<Rightarrow> (string \<Rightarrow> jsval) \<Rightarrow> bool" where
  "stores_row schema row cols = (\<forall>f \<in> set (ss_fields schema). jo_get row (sf_name f) = Some (cols (resolvedColumnName f)) \<and> plain (cols (resolvedColumnName f)))"

lemma plain_ok:
  shows "entry_plain schema name v \<Longrightarrow> entry_ok schema name v" "object_plain schema v \<Longrightarrow> object_ok schema v"
proof (induction schema name v and schema v rule: entry_ok_object_ok.induct)
  case (1 schema name els)
  then show ?case by (auto simp: list_all_iff logical_separator_def js_startsWith_def)
next
  case (2 schema name kvs)
  then show ?case by (auto simp: list_all_iff hasField_def operand_ok_def)
next
  case (4 schema kvs)
  then show ?case by (auto simp: list_all_iff)
qed auto

lemma extract_plain: "plain v \<Longrightarrow> extractValue numStr v = v" "list_all plain vs \<Longrightarrow> map (extractValue numStr) vs = vs"
proof -
  show one: "plain v \<Longrightarrow> extractValue numStr v = v" for v by (cases v) (auto simp: plain_def is_object_def extractValue_def)
  show "list_all plain vs \<Longrightarrow> map (extractValue numStr) vs = vs" by (induction vs) (auto simp: one)
qed

lemma operator_agrees:
  assumes "plain x" "operand_ok op v"
  shows "match_operator numStr (Some x) op v = Inr (sem_operator numStr (memory_db numStr) x op v)"
proof -
  consider "op = ''$in'' \<or> op = ''$nin'' \<or> op = ''$between''" | "op = ''$contains''"
    | "op \<in> {''$eq'', ''$ne'', ''$lt'', ''$lte'', ''$gt'', ''$gte''}"
    using assms(2) by (auto simp: operand_ok_def operator_ok_def simple_operator_def split: if_splits)
  then show ?thesis
  proof cases
    case 1
    then obtain vs where vs: "v = JArr vs" "list_all plain vs" "op = ''$between'' \<Longrightarrow> \<exists>low high. vs = [low, high]"
      using assms(2) by (auto simp: operand_ok_def operator_ok_def split: if_splits)
    then show ?thesis using 1 by (auto simp: match_operator_def sem_operator_def memory_db_def extract_plain Let_def)
  next
    case 2
    then obtain s where "v = JStr s" using assms(2) by (auto simp: operand_ok_def)
    then show ?thesis using 2 assms(1)
      by (cases x) (auto simp: match_operator_def sem_operator_def memory_db_def simple_operator_def contains_pattern_def extractValue_def js_String_def
          plain_def is_object_def Let_def)
  next
    case 3
    then have "plain v" using assms(2) by (auto simp: operand_ok_def)
    then show ?thesis using 3 by (auto simp: match_operator_def sem_operator_def memory_db_def simple_operator_def extract_plain Let_def)
  qed
qed

lemma operators_agree:
  "plain x \<Longrightarrow> list_all (\<lambda>(op, v). operand_ok op v) kvs \<Longrightarrow>
   match_operators numStr (Some x) kvs = Inr (list_all (\<lambda>(op, v). sem_operator numStr (memory_db numStr) x op v) kvs)"
  by (induction kvs) (auto simp: operator_agrees)

lemma match_all_list:
  "(\<And>el. el \<in> set els \<Longrightarrow> matchFilter numStr row el = Inr (sem el)) \<Longrightarrow>
   match_all numStr row els = Inr (list_all sem els) \<and> match_some numStr row els = Inr (list_ex sem els)"
  by (induction els) auto

lemma match_entries_list:
  "(\<And>name v. (name, v) \<in> set kvs \<Longrightarrow> match_entry numStr row name v = Inr (sem name v)) \<Longrightarrow>
   match_entries numStr row kvs = Inr (list_all (\<lambda>(name, v). sem name v) kvs)"
  by (induction kvs) (auto simp del: match_entry.simps)

lemma filters_agree:
  fixes env :: filter_env
  assumes "stores_row (fe_schema env) row cols"
  shows "entry_plain schema name v \<Longrightarrow> schema = fe_schema env \<Longrightarrow>
      match_entry (fe_numStr env) row name v = Inr (sem_entry env (memory_db (fe_numStr env)) cols name v)"
    and "object_plain schema v \<Longrightarrow> schema = fe_schema env \<Longrightarrow>
      matchFilter (fe_numStr env) row v = Inr (sem_object env (memory_db (fe_numStr env)) cols v)"
proof (induction schema name v and schema v rule: entry_plain_object_plain.induct)
  case (1 schema name els)
  have "match_all (fe_numStr env) row els = Inr (list_all (sem_object env (memory_db (fe_numStr env)) cols) els) \<and>
      match_some (fe_numStr env) row els = Inr (list_ex (sem_object env (memory_db (fe_numStr env)) cols) els)"
    using 1 by (intro match_all_list) (auto simp: list_all_iff)
  then show ?case using "1.prems" by auto
next
  case (2 schema name kvs)
  then obtain f where f: "getField schema name = Some f" "sf_name f = name" by auto
  then have "f \<in> set (ss_fields schema)" by (auto simp: getField_def dest: find_SomeD)
  then have x: "jo_get row name = Some (cols (resolvedColumnName f))" "plain (cols (resolvedColumnName f))"
    using assms 2 f(2) by (auto simp: stores_row_def)
  have "name \<notin> {''$and'', ''$or'', ''$not''}" using "2.prems" by (auto simp: js_startsWith_def)
  then show ?case using "2.prems" f x operators_agree [OF x(2), of kvs] by (simp add: matchFieldCondition_def)
next
  case (4 schema kvs)
  have "match_entries (fe_numStr env) row kvs = Inr (list_all (\<lambda>(name, v). sem_entry env (memory_db (fe_numStr env)) cols name v) kvs)"
    using 4 by (intro match_entries_list) (auto simp: list_all_iff simp del: match_entry.simps)
  then show ?case by simp
qed auto


section \<open>Stream lines\<close>

text \<open>The lines are numbered without gaps; the last line, and no other, is marked last, and the pages come in the provider's order.\<close>

lemma stream_lines_numbered:
  assumes "stream_lines anchor sid (pages, err) = ls"
  shows "length ls = Suc (length pages) \<and> (\<forall>i < length ls. \<exists>extra.
     ls ! i = stream_line sid i (i = length pages) (if i < length pages then pages ! i else []) extra)"
proof -
  have "ls ! i = stream_line sid i False (pages ! i) (if i = 0 then [(''anchor_ref'', JStr anchor)] else [])" if "i < length pages" for i
    using assms that by (auto simp: stream_lines_def nth_append nth_enumerate_eq)
  moreover have "\<exists>extra. ls ! length pages = stream_line sid (length pages) True [] extra"
    using assms by (auto simp: stream_lines_def nth_append)
  moreover have len: "length ls = Suc (length pages)" using assms by (auto simp: stream_lines_def)
  ultimately show ?thesis by (auto simp: less_Suc_eq)
qed

section \<open>Instances\<close>

definition demo_row :: jsobj where
  "demo_row = [(''id'', JNum 1), (''price'', JNum 7)]"

definition demo_memory_schema :: MemoryNodeSchema where
  "demo_memory_schema = \<lparr>ms_tableName = ''items'', ms_primaryKey = ''id'', ms_fields = ss_fields demo_schema\<rparr>"

definition demo_memory_options :: MemoryNodeOptions where
  "demo_memory_options = \<lparr>mno_nodeId = ''n'', mno_displayName = None, mno_schema = demo_memory_schema, mno_pathPrefix = ''/m'', mno_defaultLimit = None,
     mno_maxLimit = None, mno_requireAuth = None, mno_defaultTokenBudget = None\<rparr>"

definition demo_memory_frame :: QueryFrame where
  "demo_memory_frame = \<lparr>qf_filter = Some [(''price'', JObj [(''$gte'', JNum 5)])], qf_limit = Some 3, qf_offset = None,
     qf_orderBy = Some [(''id'', ''DESC'')], qf_fields = None, qf_cursor = None\<rparr>"


definition demo_memory_env :: memory_env where
  "demo_memory_env = \<lparr>me_opt = demo_memory_options, me_sha256 = id, me_numStr = demo_numStr\<rparr>"



text \<open>A missing member is compared as the text \<open>undefined\<close>; numbers and texts are not ordered consistently; a field named in other letters passes the check
  of the schema and is then not found; a limit of zero is the default for the SQL provider and no rows here.\<close>

lemma missing_member_matches: "matchFilter numStr [] (JObj [(''price'', JObj [(''$gt'', JStr ''a'')])]) = Inr True"
  by (simp add: matchFieldCondition_def match_operator_def jo_get_def compareValues_def js_text_def)

lemma comparison_cycle:
  assumes "numStr 9 = ''9''" "numStr 10 = ''10''"
  shows "compareValues numStr (Some (JNum 9)) (Some (JNum 10)) < 0" "compareValues numStr (Some (JNum 10)) (Some (JStr ''9'')) < 0"
    "compareValues numStr (Some (JStr ''9'')) (Some (JNum 9)) = 0"
  using assms by (simp_all add: compareValues_def js_text_def)

lemma projection_by_case: "getSchemaField demo_memory_schema ''PRICE'' \<noteq> None" "project [''PRICE''] demo_row = []"
  by (simp_all add: demo_memory_schema_def getSchemaField_def demo_schema_def js_toLowerCase_def js_lower_char_def char_of_def bit_0 project_def demo_row_def jo_get_def)

lemma zero_limit:
  "memory_limit demo_memory_options (demo_memory_frame\<lparr>qf_limit := Some 0\<rparr>) = 0"
  "page_limit (demo_memory_frame\<lparr>qf_limit := Some 0\<rparr>) (resolveLimits demo_options) = 20"
  by (simp_all add: memory_limit_def opt_or_def demo_memory_options_def page_limit_def resolveLimits_def demo_options_def)

end
