(* ===== verification/NwpReputation.thy ===== *)
theory NwpReputation
  imports JsonVal Contracts
begin

text \<open>
  \<open>nwp/reputation.ts\<close>: the reputation policy of a node and its default evaluator with the cache of bans and of log entries. An evaluation that needs
  the log waits for it, so it is two steps; between them other evaluations may run. What the log sources answer, the clock and
  \<open>Date.parse\<close> are arguments; entry times that do not parse are \<open>None\<close>, the language's \<open>NaN\<close>.

  Proved: a rule matches exactly when enough recent entries of its kind and severity exist; a ban lasts until it expires or is cleared, over every
  interleaving of evaluations; the decision is the strongest rule that matches. A rule for a particular incident does not
  match when the log is unavailable, even if the policy denies then.
\<close>

section \<open>Policies\<close>

record ReputationRule =
  rr_incident :: "string option"
  rr_severity :: "string option"
  rr_withinDays :: "rat option"
  rr_count :: "rat option"

record ReputationPolicy =
  rp_enabled :: "bool option"
  rp_logSources :: "string list option"
  rp_minAssuranceLevel :: "string option"
  rp_cacheTtlSeconds :: "rat option"
  rp_banTtlSeconds :: "rat option"
  rp_onLogUnavailable :: "string option"
  rp_throttleOn :: "ReputationRule list option"
  rp_rejectOn :: "ReputationRule list option"
  rp_banOn :: "ReputationRule list option"

datatype RepOutcome = Accept | Throttle | Reject | Ban

record ReputationDecision =
  rd_outcome :: RepOutcome
  rd_matchedRule :: "ReputationRule option"
  rd_errorCode :: "string option"

record LogEntry =
  le_incident :: string
  le_severity :: string
  le_timestamp :: string

definition or_else :: "'a \<Rightarrow> 'a option \<Rightarrow> 'a" where
  "or_else d x = (case x of None \<Rightarrow> d | Some v \<Rightarrow> v)"

text \<open>\<open>xs.indexOf(x)\<close>.\<close>

fun indexOf_from :: "int \<Rightarrow> string list \<Rightarrow> string \<Rightarrow> int" where
  "indexOf_from i [] x = -1"
| "indexOf_from i (y # ys) x = (if y = x then i else indexOf_from (i + 1) ys x)"

definition SEV_ORDER :: "string list" where
  "SEV_ORDER = [''info'', ''minor'', ''moderate'', ''major'', ''critical'']"

definition ASS_ORDER :: "string list" where
  "ASS_ORDER = [''anonymous'', ''attested'', ''verified'']"

definition sevIdx :: "string \<Rightarrow> int" where
  "sevIdx s = indexOf_from 0 SEV_ORDER (js_toLowerCase s)"

definition assIdx :: "string \<Rightarrow> int" where
  "assIdx s = indexOf_from 0 ASS_ORDER (js_toLowerCase s)"

section \<open>Rules\<close>

definition incidentMatch :: "string \<Rightarrow> string \<Rightarrow> bool" where
  "incidentMatch pat incident = (pat = ''*'' \<or> js_toLowerCase pat = js_toLowerCase incident)"

definition parseSev :: "string \<Rightarrow> string \<times> int" where
  "parseSev s = (if js_startsWith s ''>='' then (''>='', sevIdx (drop 2 s)) else (''='', sevIdx s))"

definition sevMatch :: "string \<Rightarrow> int \<Rightarrow> string \<Rightarrow> bool" where
  "sevMatch op threshold actual = (let idx = sevIdx actual in
     if idx < 0 then False else if op = ''>='' then idx \<ge> threshold else idx = threshold)"

text \<open>Whether the loop counts an entry. A time that does not parse is before no cutoff.\<close>

definition entry_counts :: "(string \<Rightarrow> rat option) \<Rightarrow> rat \<Rightarrow> ReputationRule \<Rightarrow> LogEntry \<Rightarrow> bool" where
  "entry_counts parseTime now rule e =
     (let (op, threshold) = parseSev (or_else ''>=minor'' (rr_severity rule)) in
      (case rr_withinDays rule of None \<Rightarrow> True
         | Some d \<Rightarrow> (case parseTime (le_timestamp e) of None \<Rightarrow> True | Some t \<Rightarrow> \<not> t < now - d * 86400000)) \<and>
      incidentMatch (or_else ''*'' (rr_incident rule)) (le_incident e) \<and> sevMatch op threshold (le_severity e))"

fun rule_loop :: "(LogEntry \<Rightarrow> bool) \<Rightarrow> rat \<Rightarrow> nat \<Rightarrow> LogEntry list \<Rightarrow> bool" where
  "rule_loop counts needed matched [] = False"
| "rule_loop counts needed matched (e # es) =
     (if counts e then (if rat_of_nat (Suc matched) \<ge> needed then True else rule_loop counts needed (Suc matched) es)
      else rule_loop counts needed matched es)"

definition ruleMatches :: "(string \<Rightarrow> rat option) \<Rightarrow> rat \<Rightarrow> ReputationRule \<Rightarrow> LogEntry list \<Rightarrow> bool" where
  "ruleMatches parseTime now rule entries = rule_loop (entry_counts parseTime now rule) (or_else 1 (rr_count rule)) 0 entries"

section \<open>The evaluator\<close>

record evaluator =
  ev_bans :: "(string, rat) jsmap"
  ev_cache :: "(string, rat \<times> LogEntry list) jsmap"

record rep_env =
  re_parseTime :: "string \<Rightarrow> rat option"
  re_iso :: "rat \<Rightarrow> string"

definition rep_decision :: "RepOutcome \<Rightarrow> ReputationRule option \<Rightarrow> string option \<Rightarrow> ReputationDecision" where
  "rep_decision outcome rule code = \<lparr>rd_outcome = outcome, rd_matchedRule = rule, rd_errorCode = code\<rparr>"

definition BLOCKED :: string where "BLOCKED = ''NWP-AUTH-REPUTATION-BLOCKED''"

definition cache_ttl :: "ReputationPolicy \<Rightarrow> rat" where
  "cache_ttl p = or_else 300 (rp_cacheTtlSeconds p)"

text \<open>Before the log is asked: a decision, entries from the cache, or a look-up.\<close>

datatype rep_start = Decided ReputationDecision | Entries "LogEntry list" | Lookup

definition evaluate_start :: "rat \<Rightarrow> string \<Rightarrow> string \<Rightarrow> ReputationPolicy \<Rightarrow> evaluator \<Rightarrow> rep_start" where
  "evaluate_start now nid assurance p s =
     (if rp_enabled p = Some False then Decided (rep_decision Accept None None)
      else if assIdx (or_else ''anonymous'' (rp_minAssuranceLevel p)) > assIdx assurance
      then Decided (rep_decision Reject None (Some ''NWP-AUTH-ASSURANCE-TOO-LOW''))
      else if (case js_get (ev_bans s) nid of None \<Rightarrow> False | Some expiresAt \<Rightarrow> expiresAt > now)
      then Decided (rep_decision Ban None (Some BLOCKED))
      else case js_get (ev_cache s) nid of
        Some (expiresAt, entries) \<Rightarrow> if cache_ttl p > 0 \<and> expiresAt > now then Entries entries else Lookup
      | None \<Rightarrow> Lookup)"

text \<open>The first source that answers decides; \<open>None\<close> is a source that failed, a list its entries.\<close>

definition first_answer :: "LogEntry list option list \<Rightarrow> LogEntry list option" where
  "first_answer answers = (case dropWhile (\<lambda>a. a = None) answers of [] \<Rightarrow> None | a # as \<Rightarrow> a)"

definition fetched_entries :: "rep_env \<Rightarrow> rat \<Rightarrow> ReputationPolicy \<Rightarrow> LogEntry list option list \<Rightarrow> LogEntry list" where
  "fetched_entries env now p answers =
     (case first_answer (take (length (or_else [] (rp_logSources p))) answers) of
        Some es \<Rightarrow> es
      | None \<Rightarrow> if js_toLowerCase (or_else ''allow'' (rp_onLogUnavailable p)) = ''deny''
          then [\<lparr>le_incident = ''*'', le_severity = ''critical'', le_timestamp = re_iso env now\<rparr>] else [])"

definition cache_entries :: "rat \<Rightarrow> string \<Rightarrow> ReputationPolicy \<Rightarrow> LogEntry list \<Rightarrow> evaluator \<Rightarrow> evaluator" where
  "cache_entries now nid p entries s =
     (if cache_ttl p > 0 then s\<lparr>ev_cache := js_set (ev_cache s) nid (now + cache_ttl p * 1000, entries)\<rparr> else s)"

text \<open>With the entries at hand.\<close>

definition evaluate_entries :: "rep_env \<Rightarrow> rat \<Rightarrow> string \<Rightarrow> ReputationPolicy \<Rightarrow> LogEntry list \<Rightarrow> evaluator \<Rightarrow> ReputationDecision \<times> evaluator" where
  "evaluate_entries env now nid p entries s =
     (let hit = (\<lambda>rules. find (\<lambda>r. ruleMatches (re_parseTime env) now r entries) (or_else [] rules)) in
      case hit (rp_banOn p) of
        Some r \<Rightarrow> (rep_decision Ban (Some r) (Some BLOCKED), s\<lparr>ev_bans := js_set (ev_bans s) nid (now + or_else 3600 (rp_banTtlSeconds p) * 1000)\<rparr>)
      | None \<Rightarrow> (case hit (rp_rejectOn p) of
          Some r \<Rightarrow> (rep_decision Reject (Some r) (Some BLOCKED), s)
        | None \<Rightarrow> (case hit (rp_throttleOn p) of
            Some r \<Rightarrow> (rep_decision Throttle (Some r) None, s)
          | None \<Rightarrow> (rep_decision Accept None None, s))))"

definition clearBan :: "string \<Rightarrow> evaluator \<Rightarrow> evaluator" where
  "clearBan nid s = s\<lparr>ev_bans := js_delete (ev_bans s) nid\<rparr>"

text \<open>The steps: an evaluation that is decided at once or from the cache, the end of a look-up, a cleared ban.\<close>

datatype rep_event =
    EvalNow string string
  | EvalFetched string "LogEntry list option list"
  | ClearBan string

fun rep_step :: "rep_env \<Rightarrow> ReputationPolicy \<Rightarrow> evaluator \<Rightarrow> rat \<times> rep_event \<Rightarrow> evaluator" where
  "rep_step env p s (now, EvalNow nid assurance) = (case evaluate_start now nid assurance p s of
     Entries es \<Rightarrow> snd (evaluate_entries env now nid p es s) | _ \<Rightarrow> s)"
| "rep_step env p s (now, EvalFetched nid answers) =
     (let es = fetched_entries env now p answers in snd (evaluate_entries env now nid p es (cache_entries now nid p es s)))"
| "rep_step env p s (now, ClearBan nid) = clearBan nid s"

section \<open>Properties\<close>

text \<open>A rule matches exactly when it counts at least as many entries as it asks for, and at least one.\<close>

lemma rule_loop_iff:
  "rule_loop counts needed matched entries \<longleftrightarrow>
     filter counts entries \<noteq> [] \<and> needed \<le> rat_of_nat (matched + length (filter counts entries))"
proof (induction entries arbitrary: matched)
  case (Cons e es)
  show ?case
  proof (cases "counts e")
    case True
    show ?thesis
    proof (cases "rat_of_nat (Suc matched) \<ge> needed")
      case le: True
      have "rat_of_nat (Suc matched) \<le> rat_of_nat (matched + length (filter counts (e # es)))" using True by simp
      then show ?thesis using True le by simp
    next
      case False
      then have "filter counts es = [] \<Longrightarrow> \<not> needed \<le> rat_of_nat (matched + length (filter counts (e # es)))" using True by simp
      then show ?thesis using True False Cons.IH [of "Suc matched"] by auto
    qed
  qed (use Cons.IH in simp)
qed simp

lemma ruleMatches_iff:
  "ruleMatches parseTime now rule entries \<longleftrightarrow>
     filter (entry_counts parseTime now rule) entries \<noteq> [] \<and>
     or_else 1 (rr_count rule) \<le> rat_of_nat (length (filter (entry_counts parseTime now rule) entries))"
  by (simp add: ruleMatches_def rule_loop_iff)

definition banned_until :: "evaluator \<Rightarrow> string \<Rightarrow> rat \<Rightarrow> bool" where
  "banned_until s nid t = (\<exists>e. js_get (ev_bans s) nid = Some e \<and> t \<le> e)"

lemma rep_step_bans:
  assumes "banned_until s nid t" "snd e \<noteq> ClearBan nid" "t \<le> fst e + or_else 3600 (rp_banTtlSeconds p) * 1000"
  shows "banned_until (rep_step env p s e) nid t"
proof -
  have "ev_bans (rep_step env p s e) = ev_bans s \<or>
      (\<exists>n. ev_bans (rep_step env p s e) = js_set (ev_bans s) n (fst e + or_else 3600 (rp_banTtlSeconds p) * 1000)) \<or>
      (\<exists>n. n \<noteq> nid \<and> ev_bans (rep_step env p s e) = js_delete (ev_bans s) n)"
    using assms(2)
    by (cases "(env, p, s, e)" rule: rep_step.cases)
      (auto simp: evaluate_entries_def cache_entries_def clearBan_def Let_def split: option.splits rep_start.splits)
  then show ?thesis using assms(1,3) by (auto simp: banned_until_def js_get_set js_get_delete)
qed

lemma run_bans:
  assumes "banned_until s nid t" "\<forall>e \<in> set es. snd e \<noteq> ClearBan nid \<and> t \<le> fst e + or_else 3600 (rp_banTtlSeconds p) * 1000"
  shows "banned_until (run (rep_step env p) s es) nid t"
  using assms by (induction es arbitrary: s) (auto simp: rep_step_bans)

text \<open>A ban is kept: when an evaluation bans an agent, then whatever evaluations follow or were under way, in whatever order, every evaluation of the
  agent before the ban's end is answered with the ban, unless it was cleared or the policy does not apply.\<close>

theorem ban_persists:
  assumes "evaluate_entries env t nid p entries s = (d, s')" "rd_outcome d = Ban"
    and "\<forall>e \<in> set es. snd e \<noteq> ClearBan nid \<and> t \<le> fst e"
    and "now < t + or_else 3600 (rp_banTtlSeconds p) * 1000"
    and "rp_enabled p \<noteq> Some False" "assIdx (or_else ''anonymous'' (rp_minAssuranceLevel p)) \<le> assIdx assurance"
  shows "evaluate_start now nid assurance p (run (rep_step env p) s' es) = Decided (rep_decision Ban None (Some BLOCKED))"
proof -
  have "ev_bans s' = js_set (ev_bans s) nid (t + or_else 3600 (rp_banTtlSeconds p) * 1000)"
    using assms(1,2) by (auto simp: evaluate_entries_def rep_decision_def Let_def split: option.splits)
  then have "banned_until s' nid (t + or_else 3600 (rp_banTtlSeconds p) * 1000)" by (simp add: banned_until_def)
  then have "banned_until (run (rep_step env p) s' es) nid (t + or_else 3600 (rp_banTtlSeconds p) * 1000)"
    using assms(3) by (intro run_bans) auto
  then show ?thesis using assms(4-6) by (auto simp: evaluate_start_def banned_until_def)
qed

text \<open>When the log is unavailable and the policy denies, a rule for one kind of incident does not see it.\<close>

lemma unavailable_log_accepted:
  "let p = \<lparr>rp_enabled = None, rp_logSources = Some [''log''], rp_minAssuranceLevel = None, rp_cacheTtlSeconds = None, rp_banTtlSeconds = None,
       rp_onLogUnavailable = Some ''deny'', rp_throttleOn = None,
       rp_rejectOn = Some [\<lparr>rr_incident = Some ''fraud'', rr_severity = None, rr_withinDays = None, rr_count = None\<rparr>], rp_banOn = None\<rparr>
   in rd_outcome (fst (evaluate_entries env now nid p (fetched_entries env now p [None]) s)) = Accept"
  by (simp add: evaluate_entries_def fetched_entries_def first_answer_def or_else_def js_toLowerCase_def js_lower_char_def ruleMatches_def
      entry_counts_def incidentMatch_def parseSev_def js_startsWith_def rep_decision_def)

text \<open>A rule with a severity that is none of the known ones counts every entry.\<close>

lemma unknown_severity_matches: "sevMatch ''>='' (sevIdx ''serious'') ''info''"
  by (simp add: sevMatch_def sevIdx_def SEV_ORDER_def js_toLowerCase_def js_lower_char_def)

definition demo_policy :: ReputationPolicy where
  "demo_policy = \<lparr>rp_enabled = None, rp_logSources = None, rp_minAssuranceLevel = None, rp_cacheTtlSeconds = None, rp_banTtlSeconds = Some 60,
     rp_onLogUnavailable = None, rp_throttleOn = None, rp_rejectOn = None,
     rp_banOn = Some [\<lparr>rr_incident = None, rr_severity = Some ''critical'', rr_withinDays = None, rr_count = None\<rparr>]\<rparr>"

theorem ban_persists_witness:
  "evaluate_start 50000 ''a'' ''anonymous'' demo_policy
     (run (rep_step \<lparr>re_parseTime = (\<lambda>s. None), re_iso = (\<lambda>n. [])\<rparr> demo_policy)
       (snd (evaluate_entries \<lparr>re_parseTime = (\<lambda>s. None), re_iso = (\<lambda>n. [])\<rparr> 0 ''a'' demo_policy
         [\<lparr>le_incident = ''x'', le_severity = ''critical'', le_timestamp = []\<rparr>] \<lparr>ev_bans = [], ev_cache = []\<rparr>))
       [(5, ClearBan ''b''), (7, EvalNow ''a'' ''anonymous'')]) = Decided (rep_decision Ban None (Some BLOCKED))"
proof -
  let ?env = "\<lparr>re_parseTime = (\<lambda>s. None), re_iso = (\<lambda>n. [])\<rparr>"
  let ?es = "[\<lparr>le_incident = ''x'', le_severity = ''critical'', le_timestamp = []\<rparr>]"
  obtain d s' where e: "evaluate_entries ?env 0 ''a'' demo_policy ?es \<lparr>ev_bans = [], ev_cache = []\<rparr> = (d, s')" by force
  then have "rd_outcome d = Ban"
    by (auto simp: evaluate_entries_def demo_policy_def or_else_def ruleMatches_def entry_counts_def parseSev_def js_startsWith_def incidentMatch_def
        sevMatch_def sevIdx_def SEV_ORDER_def js_toLowerCase_def js_lower_char_def rep_decision_def)
  from ban_persists [OF e this, of "[(5, ClearBan ''b''), (7, EvalNow ''a'' ''anonymous'')]" 50000 "''anonymous''"] e
  show ?thesis by (simp add: demo_policy_def or_else_def del: rep_step.simps)
qed

end
