(* ===== verification/NwpMemoryNode.thy ===== *)
theory NwpMemoryNode
  imports NwpMemoryServer NwpReputation
begin

text \<open>
  \<open>nwp/memory-node-server.ts\<close>: the framework-independent Memory Node server with its reputation gate, and \<open>nwp/cgn.ts\<close>. Headers are a function from
  names to the first value; bodies are given as decoded; what the provider and the evaluator answer are arguments. Bodies of responses are
  JSON values or lines, the members of a line in one order.

  Proved: a request reaches the provider only past authentication and the reputation gate; the handler answers exactly the paths under its prefix; the
  limit handed to the provider is within the maximum; answers keep within the budget. A frame whose limit is cut loses its cursor.
\<close>

section \<open>nwp/cgn.ts\<close>

definition estimateCgn :: "string \<Rightarrow> nat" where
  "estimateCgn bytes = (if bytes = [] then 0 else (length bytes + 3) div 4)"

definition estimateCgnJson :: "(rat \<Rightarrow> string) \<Rightarrow> jsval \<Rightarrow> nat" where
  "estimateCgnJson numStr v = estimateCgn (json_stringify numStr v)"

definition estimateCgnRows :: "(rat \<Rightarrow> string) \<Rightarrow> jsval list \<Rightarrow> nat" where
  "estimateCgnRows numStr rows = foldl (\<lambda>acc r. acc + estimateCgnJson numStr r) 0 rows"

section \<open>nwp/memory-node-server.ts\<close>

record memory_node_options =
  mn_nodeId :: string
  mn_displayName :: "string option"
  mn_fields :: "SqlMemoryNodeField list"
  mn_pathPrefix :: "string option"
  mn_defaultLimit :: "rat option"
  mn_maxLimit :: "rat option"
  mn_requireAuth :: "bool option"
  mn_defaultTokenBudget :: "rat option"
  mn_cgnLimit :: "rat option"
  mn_reputationPolicy :: "ReputationPolicy option"
  mn_trust_anchors :: "string list option"

record memory_node_env =
  mv_opts :: memory_node_options
  mv_sha256 :: "string \<Rightarrow> string"
  mv_numStr :: "rat \<Rightarrow> string"

datatype node_body = EmptyBody | ErrBody string string | JsonNode jsval | NodeLines "jsval list"

record node_response =
  nr_status :: nat
  nr_headers :: "(string \<times> string) list"
  nr_body :: node_body

record node_request =
  nq_method :: string
  nq_subPath :: string
  nq_headers :: "string \<Rightarrow> string option"
  nq_frame :: "QueryFrame option"

definition strip_slash :: "string \<Rightarrow> string" where
  "strip_slash s = (if s \<noteq> [] \<and> last s = CHR ''/'' then butlast s else s)"

definition node_prefix :: "memory_node_options \<Rightarrow> string" where
  "node_prefix o' = strip_slash (opt_or [] (mn_pathPrefix o'))"

definition errResp :: "nat \<Rightarrow> string \<Rightarrow> string \<Rightarrow> node_response" where
  "errResp status nps code = \<lparr>nr_status = status, nr_headers = [(''Content-Type'', ''application/json; charset=utf-8'')], nr_body = ErrBody nps code\<rparr>"

definition node_schema :: "memory_node_options \<Rightarrow> jsval" where
  "node_schema o' = JObj [(''fields'', JArr (map (\<lambda>f. JObj [(''name'', JStr (sf_name f)), (''type'', JStr (sf_type f)),
     (''nullable'', JBool (opt_or True (sf_nullable f)))]) (mn_fields o')))]"

definition node_anchorId :: "memory_node_env \<Rightarrow> string" where
  "node_anchorId env = ''sha256:'' @ mv_sha256 env (json_stringify (mv_numStr env) (node_schema (mv_opts env)))"

definition node_manifest :: "memory_node_env \<Rightarrow> jsobj" where
  "node_manifest env = (let o' = mv_opts env; pre = node_prefix o'; auth = opt_or False (mn_requireAuth o') in
     [(''nwp'', JStr ''0.4''), (''node_id'', JStr (mn_nodeId o')), (''node_type'', JStr ''memory''), (''display_name'', opt_str (mn_displayName o')),
      (''wire_formats'', JArr [JStr ''json'']), (''preferred_format'', JStr ''json''), (''schema_anchors'', JObj [(''default'', JStr (node_anchorId env))]),
      (''capabilities'', JObj [(''query'', JBool True), (''stream'', JBool True), (''token_budget_hint'', JBool True)]),
      (''auth'', JObj [(''required'', JBool auth), (''identity_type'', JStr (if auth then ''nip-cert'' else ''none''))]),
      (''endpoints'', JObj [(''query'', JStr (pre @ ''/query'')), (''stream'', JStr (pre @ ''/stream'')), (''schema'', JStr (pre @ ''/.schema''))])] @
     (case mn_cgnLimit o' of Some n \<Rightarrow> if n > 0 then [(''token_budget'', JObj [(''cgn_limit'', JNum n), (''profile'', JStr ''cgn.v1'')])] else [] | None \<Rightarrow> []) @
     (case mn_trust_anchors o' of Some (a # as) \<Rightarrow> [(''trust_anchors'', JArr (map JStr (a # as)))] | _ \<Rightarrow> []))"

text \<open>The estimate of all rows is that of their array, of a single row its own.\<close>

definition node_measureRows :: "(rat \<Rightarrow> string) \<Rightarrow> jsobj list \<Rightarrow> nat" where
  "node_measureRows numStr rows = (length (json_stringify numStr (JArr (map JObj rows))) + 3) div 4"

definition node_budget_rows :: "(rat \<Rightarrow> string) \<Rightarrow> rat \<Rightarrow> jsobj list \<Rightarrow> jsobj list \<times> nat" where
  "node_budget_rows numStr budget rows = (let tokenEst = node_measureRows numStr rows in
     if budget > 0 \<and> of_nat tokenEst > budget then trimToBudget numStr rows budget else (rows, tokenEst))"

text \<open>The frame handed to the provider: when the limit is cut the frame is rebuilt without its cursor.\<close>

definition clamp_frame :: "memory_node_options \<Rightarrow> QueryFrame \<Rightarrow> QueryFrame" where
  "clamp_frame o' frame = (case qf_limit frame of
     None \<Rightarrow> frame
   | Some l \<Rightarrow> (let clamped = min l (opt_or 1000 (mn_maxLimit o')) in
       if clamped \<noteq> l then frame\<lparr>qf_limit := Some clamped, qf_cursor := None\<rparr> else frame))"

definition node_handleQuery :: "memory_node_env \<Rightarrow> (QueryFrame \<Rightarrow> (jsobj list \<times> string option) option) \<Rightarrow> node_request \<Rightarrow> node_response" where
  "node_handleQuery env query req = (case nq_frame req of
     None \<Rightarrow> errResp 400 ''NPS-CLIENT-BAD-REQUEST'' ''NWP-QUERY-FILTER-INVALID''
   | Some frame \<Rightarrow> (case query (clamp_frame (mv_opts env) frame) of
       None \<Rightarrow> errResp 500 ''NPS-SERVER-INTERNAL'' ''NWP-NODE-UNAVAILABLE''
     | Some (rows, nextCursor) \<Rightarrow>
         let budget = effectiveBudget (parseBudget (nq_headers req ''x-nwp-budget'')) (opt_or 0 (mn_cgnLimit (mv_opts env)));
             (rows, tokenEst) = node_budget_rows (mv_numStr env) budget rows in
         \<lparr>nr_status = 200,
          nr_headers = [(''Content-Type'', ''application/json; charset=utf-8''), (''X-NWP-Schema'', node_anchorId env),
            (''X-NWP-Tokens'', mv_numStr env (of_nat tokenEst)), (''X-NWP-Node-Type'', ''memory'')],
          nr_body = JsonNode (JObj [(''frame'', JStr ''0x04''), (''anchor_ref'', JStr (node_anchorId env)), (''count'', JNum (of_nat (length rows))),
            (''data'', JArr (map JObj rows)), (''next_cursor'', opt_str nextCursor), (''token_est'', JNum (of_nat tokenEst))])\<rparr>))"

definition node_line :: "string \<Rightarrow> nat \<Rightarrow> bool \<Rightarrow> jsobj \<Rightarrow> jsobj list \<Rightarrow> jsval" where
  "node_line streamId seq isLast extra rows = JObj ([(''frame'', JStr ''0x03''), (''stream_id'', JStr streamId), (''seq'', JNum (of_nat seq)),
     (''is_last'', JBool isLast)] @ extra @ [(''data'', JArr (map JObj rows))])"

text \<open>What the provider yields: pages, and whether it then failed. A provider without \<open>stream\<close> is \<open>Inl\<close>, with the answer of its query.\<close>

definition node_handleStream :: "memory_node_env \<Rightarrow> (QueryFrame \<Rightarrow> (jsobj list \<times> string option) option + jsobj list list \<times> bool) \<Rightarrow> string \<Rightarrow> node_request \<Rightarrow> node_response" where
  "node_handleStream env provider streamId req =
     (let schema = [(''X-NWP-Schema'', node_anchorId env)]; typ = (''X-NWP-Node-Type'', ''memory'');
          first = [(''anchor_ref'', JStr (node_anchorId env))] in
      case nq_frame req of
        None \<Rightarrow> errResp 400 ''NPS-CLIENT-BAD-REQUEST'' ''NWP-QUERY-FILTER-INVALID''
      | Some frame \<Rightarrow> (case provider frame of
          Inl None \<Rightarrow> errResp 500 ''NPS-SERVER-INTERNAL'' ''NWP-NODE-UNAVAILABLE''
        | Inl (Some (rows, cursor)) \<Rightarrow>
            \<lparr>nr_status = 200, nr_headers = [(''Content-Type'', ''application/x-ndjson'')] @ schema @ [typ],
             nr_body = NodeLines [node_line streamId 0 False first rows, node_line streamId 1 True [] []]\<rparr>
        | Inr (pages, failed) \<Rightarrow>
            let chunks = map (\<lambda>(i, page). node_line streamId i False (if i = 0 then first else []) page) (enumerate 0 pages);
                end_extra = (if failed then [(''error_code'', JStr ''NWP-NODE-UNAVAILABLE'')] else []) in
            \<lparr>nr_status = 200, nr_headers = [(''Content-Type'', ''application/x-ndjson'')] @ (if failed then [] else schema) @ [typ],
             nr_body = NodeLines (chunks @ [node_line streamId (length pages) True end_extra []])\<rparr>))"

definition gate_response :: "ReputationDecision \<Rightarrow> node_response option" where
  "gate_response d = (case rd_outcome d of
     Ban \<Rightarrow> Some (errResp 403 ''NPS-AUTH-FORBIDDEN'' ''NWP-AUTH-REPUTATION-BLOCKED'')
   | Reject \<Rightarrow> Some (errResp 403 ''NPS-AUTH-FORBIDDEN'' ''NWP-AUTH-REPUTATION-BLOCKED'')
   | Throttle \<Rightarrow> Some \<lparr>nr_status = 429, nr_headers = [(''Content-Type'', ''application/json; charset=utf-8''), (''Retry-After'', ''60'')],
       nr_body = ErrBody ''NPS-LIMIT-RATE'' ''NWP-AUTH-REPUTATION-BLOCKED''\<rparr>
   | Accept \<Rightarrow> None)"

text \<open>An empty header is no agent. \<open>gate\<close> is the evaluator's decision about an agent under a policy.\<close>

definition node_agent :: "node_request \<Rightarrow> string option" where
  "node_agent req = (case nq_headers req ''x-nwp-agent'' of Some (c # cs) \<Rightarrow> Some (c # cs) | _ \<Rightarrow> None)"

definition node_gate :: "memory_node_env \<Rightarrow> (string \<Rightarrow> ReputationPolicy \<Rightarrow> ReputationDecision) \<Rightarrow> node_request \<Rightarrow> node_response option" where
  "node_gate env gate req =
     (if opt_or False (mn_requireAuth (mv_opts env)) \<and> node_agent req = None then Some (errResp 401 ''NPS-CLIENT-UNAUTHORIZED'' ''NWP-AUTH-REQUIRED'')
      else case (mn_reputationPolicy (mv_opts env), node_agent req) of
        (Some policy, Some nid) \<Rightarrow> gate_response (gate nid policy)
      | _ \<Rightarrow> None)"

datatype node_route = NodeRespond node_response | NodeQuery | NodeStream

definition node_handle :: "memory_node_env \<Rightarrow> (string \<Rightarrow> ReputationPolicy \<Rightarrow> ReputationDecision) \<Rightarrow> node_request \<Rightarrow> node_route" where
  "node_handle env gate req = (case node_gate env gate req of
     Some r \<Rightarrow> NodeRespond r
   | None \<Rightarrow>
       let norm = (let p = strip_slash (nq_subPath req) in if p = [] then ''/'' else p);
           notAllowed = NodeRespond \<lparr>nr_status = 405, nr_headers = [], nr_body = EmptyBody\<rparr> in
       if norm = ''/.nwm'' \<and> nq_method req = ''GET''
       then NodeRespond \<lparr>nr_status = 200, nr_headers = [(''Content-Type'', ''application/json; charset=utf-8''), (''X-NWP-Node-Type'', ''memory'')],
              nr_body = JsonNode (JObj (node_manifest env))\<rparr>
       else if norm = ''/.schema'' \<and> nq_method req = ''GET''
       then NodeRespond \<lparr>nr_status = 200, nr_headers = [(''Content-Type'', ''application/json; charset=utf-8''), (''X-NWP-Schema'', node_anchorId env)],
              nr_body = JsonNode (node_schema (mv_opts env))\<rparr>
       else if norm = ''/query'' then (if nq_method req \<noteq> ''POST'' then notAllowed else NodeQuery)
       else if norm = ''/stream'' then (if nq_method req \<noteq> ''POST'' then notAllowed else NodeStream)
       else NodeRespond \<lparr>nr_status = 404, nr_headers = [], nr_body = EmptyBody\<rparr>)"

text \<open>The adapter for \<open>node:http\<close>: the sub-path it handles, \<open>None\<close> for a path it passes on.\<close>

definition handler_subPath :: "memory_node_options \<Rightarrow> string \<Rightarrow> string option" where
  "handler_subPath o' url =
     (let path = hd (js_split CHR ''?'' url); pre = node_prefix o' in
      if \<not> js_startsWith path pre \<or> (length path > length pre \<and> path ! length pre \<noteq> CHR ''/'') then None
      else Some (let s = drop (length pre) path in if s = [] then ''/'' else s))"

section \<open>Properties\<close>

text \<open>The adapter handles exactly the prefix and the paths below it.\<close>

lemma handler_subPath_iff:
  "handler_subPath o' url = Some sub \<longleftrightarrow>
     (\<exists>rest. hd (js_split CHR ''?'' url) = node_prefix o' @ rest \<and> (rest = [] \<and> sub = ''/'' \<or> rest \<noteq> [] \<and> hd rest = CHR ''/'' \<and> sub = rest))"
proof -
  define path where "path = hd (js_split CHR ''?'' url)"
  define pre where "pre = node_prefix o'"
  show ?thesis
  proof (cases "js_startsWith path pre")
    case True
    then obtain rest where "path = pre @ rest" by (auto simp: js_startsWith_iff)
    then show ?thesis unfolding handler_subPath_def path_def [symmetric] pre_def [symmetric]
      by (cases rest) (auto simp: Let_def nth_append js_startsWith_iff)
  next
    case False
    then show ?thesis unfolding handler_subPath_def path_def [symmetric] pre_def [symmetric] by (auto simp: Let_def js_startsWith_iff)
  qed
qed

text \<open>A request reaches the provider only past the gate: it carries an agent where one is required, and the policy, if any, accepts the agent.\<close>

theorem memory_node_gated:
  assumes "node_handle env gate req \<in> {NodeQuery, NodeStream}"
  shows "(opt_or False (mn_requireAuth (mv_opts env)) \<longrightarrow> node_agent req \<noteq> None) \<and> nq_method req = ''POST'' \<and>
     (\<forall>policy nid. mn_reputationPolicy (mv_opts env) = Some policy \<and> node_agent req = Some nid \<longrightarrow> rd_outcome (gate nid policy) = Accept)"
proof -
  have gate: "node_gate env gate req = None" using assms by (auto simp: node_handle_def split: option.splits)
  have "nq_method req = ''POST''" using assms by (auto simp: node_handle_def Let_def split: option.splits if_splits)
  moreover have "rd_outcome (gate nid policy) = Accept"
    if "mn_reputationPolicy (mv_opts env) = Some policy" "node_agent req = Some nid" for policy nid
    using gate that by (auto simp: node_gate_def gate_response_def split: RepOutcome.splits)
  ultimately show ?thesis using gate by (auto simp: node_gate_def split: if_splits)
qed

text \<open>The limit the provider sees is within the maximum; when it was cut, the cursor is gone and paging starts over.\<close>

lemma clamp_frame_limit: "qf_limit (clamp_frame o' frame) = Some l \<Longrightarrow> l \<le> opt_or 1000 (mn_maxLimit o')"
  by (auto simp: clamp_frame_def Let_def min_def split: option.splits if_splits)

lemma clamped_frame_loses_cursor:
  "qf_limit frame = Some l \<Longrightarrow> opt_or 1000 (mn_maxLimit o') < l \<Longrightarrow> qf_cursor (clamp_frame o' frame) = None"
  by (simp add: clamp_frame_def Let_def min_def)

text \<open>A node without a reputation policy serves agents nobody vouches for; one with a policy does not ask for an agent unless told to.\<close>

definition demo_node_env :: memory_node_env where
  "demo_node_env = \<lparr>mv_opts = \<lparr>mn_nodeId = ''n'', mn_displayName = None, mn_fields = [], mn_pathPrefix = None, mn_defaultLimit = None, mn_maxLimit = None,
     mn_requireAuth = Some True, mn_defaultTokenBudget = None, mn_cgnLimit = None, mn_reputationPolicy = Some demo_policy, mn_trust_anchors = None\<rparr>,
     mv_sha256 = id, mv_numStr = demo_numStr\<rparr>"

theorem memory_node_gated_witness:
  "let req = \<lparr>nq_method = ''POST'', nq_subPath = ''/query/'', nq_headers = (\<lambda>h. if h = ''x-nwp-agent'' then Some ''a'' else None), nq_frame = None\<rparr>;
       gate = (\<lambda>nid p. rep_decision Accept None None) in
   node_handle demo_node_env gate req = NodeQuery \<and> rd_outcome (gate ''a'' demo_policy) = Accept \<and> node_agent req \<noteq> None"
proof -
  define req where "req = \<lparr>nq_method = ''POST'', nq_subPath = ''/query/'', nq_headers = (\<lambda>h. if h = ''x-nwp-agent'' then Some ''a'' else None), nq_frame = None\<rparr>"
  define gate :: "string \<Rightarrow> ReputationPolicy \<Rightarrow> ReputationDecision" where "gate = (\<lambda>nid p. rep_decision Accept None None)"
  have agent: "node_agent req = Some ''a''" by (simp add: req_def node_agent_def)
  have "node_handle demo_node_env gate req = NodeQuery"
    by (simp add: node_handle_def node_gate_def agent) (simp add: demo_node_env_def opt_or_def gate_response_def gate_def rep_decision_def req_def strip_slash_def)
  moreover from this have "rd_outcome (gate ''a'' demo_policy) = Accept"
    using memory_node_gated [of demo_node_env gate req] agent by (simp add: demo_node_env_def)
  ultimately show ?thesis using agent unfolding req_def [symmetric] gate_def [symmetric] by simp
qed

end
