(* ===== verification/NwpTopology.thy ===== *)
theory NwpTopology
  imports ClusterOwnership NwpMemoryNode
begin

text \<open>
  The topology protocol of an Anchor Node, both ends: the requests and the event stream of \<open>nwp/anchor-client.ts\<close>, and the
  parsers and encoders of \<open>nwp/anchor-server.ts\<close>. Members and changes are JSON objects, as the interfaces are erased at run time. A line
  of a stream is given by what \<open>JSON.parse\<close> makes of it, \<open>None\<close> if it throws. A number that can be \<open>NaN\<close> is an option. \<open>Number\<close>, the printer of numbers, the random
  stream identifier and time stamps are arguments.

  Proved: the server parses what the client asks, option by option; a client that subscribes receives exactly the service's events up to the
  first resync, and the service's protocol error if there is one before it; lines do not depend on how the body was cut into chunks.
\<close>

section \<open>Wire constants and events\<close>

definition SNAPSHOT_ANCHOR_REF :: string where "SNAPSHOT_ANCHOR_REF = ''nps:system:topology:snapshot''"

text \<open>\<open>v[k]\<close> for a value that is no \<open>null\<close>.\<close>

definition js_member :: "jsval \<Rightarrow> string \<Rightarrow> jsval option" where
  "js_member v k = (case v of JObj kvs \<Rightarrow> jo_get kvs k | _ \<Rightarrow> None)"

text \<open>\<open>x ?? d\<close>.\<close>

definition nullish :: "jsval \<Rightarrow> jsval option \<Rightarrow> jsval" where
  "nullish d v = (case v of None \<Rightarrow> d | Some JNull \<Rightarrow> d | Some x \<Rightarrow> x)"

definition string_or :: "string \<Rightarrow> jsval option \<Rightarrow> string" where
  "string_or d v = (case v of Some (JStr s) \<Rightarrow> s | _ \<Rightarrow> d)"

definition number_or :: "rat \<Rightarrow> jsval option \<Rightarrow> rat" where
  "number_or d v = (case v of Some (JNum n) \<Rightarrow> n | _ \<Rightarrow> d)"

text \<open>An \<open>anchor_state\<close> event is one of three: the two ownership events with typed details, or any other.\<close>

datatype TopologyEvent =
    MemberJoined rat jsval
  | MemberLeft rat string
  | MemberUpdated rat string jsval
  | AnchorFailover rat string "rat option" string
  | AnchorQuorumLost rat "rat option" "rat option"
  | AnchorState rat string "jsval option"
  | ResyncRequired string

fun event_kind :: "TopologyEvent \<Rightarrow> string" where
  "event_kind (MemberJoined _ _) = ''member_joined''"
| "event_kind (MemberLeft _ _) = ''member_left''"
| "event_kind (MemberUpdated _ _ _) = ''member_updated''"
| "event_kind (AnchorFailover _ _ _ _) = ''anchor_state''"
| "event_kind (AnchorQuorumLost _ _ _) = ''anchor_state''"
| "event_kind (AnchorState _ _ _) = ''anchor_state''"
| "event_kind (ResyncRequired _) = ''resync_required''"

fun event_seq :: "TopologyEvent \<Rightarrow> rat option" where
  "event_seq (MemberJoined v _) = Some v"
| "event_seq (MemberLeft v _) = Some v"
| "event_seq (MemberUpdated v _ _) = Some v"
| "event_seq (AnchorFailover v _ _ _) = Some v"
| "event_seq (AnchorQuorumLost v _ _) = Some v"
| "event_seq (AnchorState v _ _) = Some v"
| "event_seq (ResyncRequired _) = None"

definition anchorFailoverEvent :: "string \<Rightarrow> rat \<Rightarrow> string option \<Rightarrow> rat option \<Rightarrow> TopologyEvent" where
  "anchorFailoverEvent successorNid clusterEpoch reason version =
     AnchorFailover (opt_or 0 version) successorNid (Some clusterEpoch) (opt_or ''planned'' reason)"

definition anchorQuorumLostEvent :: "rat \<Rightarrow> rat \<Rightarrow> rat option \<Rightarrow> TopologyEvent" where
  "anchorQuorumLostEvent quorumSize available version = AnchorQuorumLost (opt_or 0 version) (Some quorumSize) (Some available)"

fun event_payload :: "TopologyEvent \<Rightarrow> jsval" where
  "event_payload (MemberJoined _ m) = m"
| "event_payload (MemberLeft _ nid) = JObj [(''nid'', JStr nid)]"
| "event_payload (MemberUpdated _ nid changes) = JObj [(''nid'', JStr nid), (''changes'', changes)]"
| "event_payload (AnchorFailover _ successor epoch reason) =
     JObj [(''field'', JStr ''anchor_failover''),
       (''details'', JObj [(''successor_nid'', JStr successor), (''cluster_epoch'', opt_num epoch), (''reason'', JStr reason)])]"
| "event_payload (AnchorQuorumLost _ quorum available) =
     JObj [(''field'', JStr ''anchor_quorum_lost''), (''details'', JObj [(''quorum_size'', opt_num quorum), (''available'', opt_num available)])]"
| "event_payload (AnchorState _ name details) = JObj ((''field'', JStr name) # opt_field ''details'' (\<lambda>d. d) details)"
| "event_payload (ResyncRequired reason) = JObj [(''reason'', JStr reason)]"

definition eventToEnvelope :: "(rat \<Rightarrow> string) \<Rightarrow> string \<Rightarrow> string \<Rightarrow> TopologyEvent \<Rightarrow> jsobj" where
  "eventToEnvelope numStr timestamp streamId ev =
     [(''stream_id'', JStr streamId), (''event_type'', JStr (event_kind ev)), (''timestamp'', JStr timestamp), (''payload'', event_payload ev),
      (''cgn_est'', JNum (of_nat (max 1 (length (json_stringify numStr (event_payload ev)) div 4))))] @ opt_field ''seq'' JNum (event_seq ev)"

section \<open>The server's parsers\<close>

record AnchorSnapshotRequest =
  asr_scope :: string
  asr_include :: "string list"
  asr_depth :: rat
  asr_targetNid :: "string option"

record AnchorStreamRequest =
  ast_scope :: string
  ast_filter :: "(jsval option \<times> jsval option \<times> jsval option) option"
  ast_sinceVersion :: "rat option"

text \<open>\<open>TopologyProtocolError\<close>: the error code and the NPS status.\<close>

datatype TopologyProtocolError = TopologyProtocolError string string

definition bad_scope :: TopologyProtocolError where
  "bad_scope = TopologyProtocolError ''NWP-TOPOLOGY-UNSUPPORTED-SCOPE'' ''NPS-CLIENT-BAD-PARAM''"

definition bad_topology_filter :: TopologyProtocolError where
  "bad_topology_filter = TopologyProtocolError ''NWP-TOPOLOGY-FILTER-UNSUPPORTED'' ''NPS-CLIENT-BAD-PARAM''"

definition parseScope :: "jsval \<Rightarrow> TopologyProtocolError + string" where
  "parseScope t = (case js_member t ''scope'' of
     None \<Rightarrow> Inr ''cluster''
   | Some (JStr s) \<Rightarrow> if s = ''cluster'' \<or> s = ''member'' then Inr s else Inl bad_scope
   | Some _ \<Rightarrow> Inl bad_scope)"

definition include_known :: "string list" where
  "include_known = [''members'', ''capabilities'', ''tags'', ''metrics'']"

text \<open>\<open>new Set(xs)\<close>: the first of equal elements stays.\<close>

definition js_dedup :: "string list \<Rightarrow> string list" where
  "js_dedup xs = rev (remdups (rev xs))"

definition parseInclude :: "jsval \<Rightarrow> string list" where
  "parseInclude t = (case js_member t ''include'' of
     Some (JArr inc) \<Rightarrow>
       let flags = js_dedup (concat (map (\<lambda>v. case v of JStr s \<Rightarrow> if s \<in> set include_known then [s] else [] | _ \<Rightarrow> []) inc)) in
       if flags \<noteq> [] then flags else [''members'']
   | _ \<Rightarrow> [''members''])"

definition parseDepth :: "jsval \<Rightarrow> rat" where
  "parseDepth t = (case js_member t ''depth'' of Some (JNum d) \<Rightarrow> if d > 0 then d else 1 | _ \<Rightarrow> 1)"

definition is_js_object :: "jsval option \<Rightarrow> bool" where
  "is_js_object v = (case v of Some (JObj _) \<Rightarrow> True | Some (JArr _) \<Rightarrow> True | _ \<Rightarrow> False)"

definition parseSnapshotRequest :: "jsval \<Rightarrow> TopologyProtocolError + AnchorSnapshotRequest" where
  "parseSnapshotRequest body =
     (let topo = js_member body ''topology'' in
      if \<not> is_js_object topo then Inl bad_scope
      else let t = the topo in
        case parseScope t of
          Inl e \<Rightarrow> Inl e
        | Inr scope \<Rightarrow>
            let target = (case js_member t ''target_nid'' of Some (JStr s) \<Rightarrow> Some s | _ \<Rightarrow> None) in
            if scope = ''member'' \<and> (target = None \<or> target = Some []) then Inl bad_scope
            else Inr \<lparr>asr_scope = scope, asr_include = parseInclude t, asr_depth = parseDepth t, asr_targetNid = target\<rparr>)"

text \<open>\<open>Object.keys\<close>: a non-empty array has its indices as keys, and none of them is a filter key.\<close>

definition validateFilterKeys :: "jsval \<Rightarrow> TopologyProtocolError option" where
  "validateFilterKeys f = (case f of
     JObj kvs \<Rightarrow> if set (map fst kvs) \<subseteq> {''tags_any'', ''tags_all'', ''node_roles''} then None else Some bad_topology_filter
   | JArr vs \<Rightarrow> if vs = [] then None else Some bad_topology_filter
   | _ \<Rightarrow> None)"

definition parseStreamRequest :: "string \<Rightarrow> jsval \<Rightarrow> TopologyProtocolError + (AnchorStreamRequest \<times> string)" where
  "parseStreamRequest randomId body =
     (let topo = js_member body ''topology'' in
      if \<not> is_js_object topo then Inl bad_scope
      else let t = the topo in
        case parseScope t of
          Inl e \<Rightarrow> Inl e
        | Inr scope \<Rightarrow>
            let f = js_member t ''filter'' in
            case (if is_js_object f then validateFilterKeys (the f) else None) of
              Some e \<Rightarrow> Inl e
            | None \<Rightarrow>
                let flt = (if is_js_object f then Some (js_member (the f) ''tags_any'', js_member (the f) ''tags_all'', js_member (the f) ''node_roles'') else None);
                    since = (case js_member t ''since_version'' of None \<Rightarrow> js_member body ''resume_from_seq'' | Some v \<Rightarrow> Some v);
                    sinceVersion = (case since of Some (JNum n) \<Rightarrow> Some n | _ \<Rightarrow> None);
                    streamId = (case js_member body ''stream_id'' of Some (JStr (c # cs)) \<Rightarrow> c # cs | _ \<Rightarrow> randomId) in
                Inr (\<lparr>ast_scope = scope, ast_filter = flt, ast_sinceVersion = sinceVersion\<rparr>, streamId))"

section \<open>The server's stream\<close>

text \<open>How the service's iterator ends: it is done, it throws a protocol error, it throws another error.\<close>

datatype topology_end = StreamDone | StreamProtocol TopologyProtocolError | StreamThrow

definition ack_line :: "string \<Rightarrow> AnchorStreamRequest \<Rightarrow> rat option \<Rightarrow> jsval" where
  "ack_line streamId request clusterEpoch =
     JObj ([(''kind'', JStr ''ack''), (''stream_id'', JStr streamId), (''status'', JStr ''subscribed''), (''last_seq'', JNum 0),
       (''resumed'', JBool (ast_sinceVersion request \<noteq> None))] @ opt_field ''cluster_epoch'' JNum clusterEpoch)"

definition end_lines :: "topology_end \<Rightarrow> jsval list" where
  "end_lines e = (case e of
     StreamProtocol (TopologyProtocolError code status) \<Rightarrow> [JObj [(''status'', JStr status), (''error'', JStr code), (''message'', JStr [])]]
   | _ \<Rightarrow> [])"

fun event_lines :: "(rat \<Rightarrow> string) \<Rightarrow> string \<Rightarrow> (TopologyEvent \<times> string) list \<Rightarrow> topology_end \<Rightarrow> jsval list" where
  "event_lines numStr streamId [] fin = end_lines fin"
| "event_lines numStr streamId ((ev, timestamp) # evs) fin =
     JObj (eventToEnvelope numStr timestamp streamId ev) # (if event_kind ev = ''resync_required'' then [] else event_lines numStr streamId evs fin)"

definition subscribe_lines :: "(rat \<Rightarrow> string) \<Rightarrow> string \<Rightarrow> AnchorStreamRequest \<Rightarrow> rat option \<Rightarrow> (TopologyEvent \<times> string) list \<Rightarrow> topology_end \<Rightarrow> jsval list" where
  "subscribe_lines numStr streamId request clusterEpoch evs fin = ack_line streamId request clusterEpoch # event_lines numStr streamId evs fin"

section \<open>The in-memory service\<close>

record InMemoryAnchorTopologyService =
  its_anchorNid :: string
  its_members :: "jsval list"
  its_version :: rat
  its_events :: "TopologyEvent list"

definition its_getSnapshot :: "InMemoryAnchorTopologyService \<Rightarrow> AnchorSnapshotRequest \<Rightarrow> jsobj" where
  "its_getSnapshot s request =
     [(''version'', JNum (its_version s)), (''anchor_nid'', JStr (its_anchorNid s)), (''cluster_size'', JNum (of_nat (length (its_members s)))),
      (''members'', JArr (if ''members'' \<in> set (asr_include request) then its_members s else []))]"

section \<open>The client\<close>

record snapshot_options =
  sno_scope :: "string option"
  sno_include :: "string list option"
  sno_depth :: "rat option"
  sno_targetNid :: "string option"

definition client_scope :: "string option \<Rightarrow> string" where
  "client_scope scope = (if opt_or ''cluster'' scope = ''cluster'' then ''cluster'' else ''member'')"

definition snapshot_body :: "snapshot_options \<Rightarrow> jsval" where
  "snapshot_body o' = JObj [(''type'', JStr ''topology.snapshot''),
     (''topology'', JObj ([(''scope'', JStr (client_scope (sno_scope o'))), (''include'', JArr (map JStr (opt_or [''members''] (sno_include o'))))] @
        opt_field ''depth'' JNum (sno_depth o') @ opt_field ''target_nid'' JStr (sno_targetNid o')))]"

text \<open>The client's answer to a response: a status outside 200..299 is an error, otherwise there is exactly one row.\<close>

datatype client_error = AnchorTopologyError string string | RowCountError | JsonError

definition buildFetchError :: "(nat \<Rightarrow> string) \<Rightarrow> nat \<Rightarrow> jsval option \<Rightarrow> client_error" where
  "buildFetchError natStr status body = (case body of
     Some v \<Rightarrow> (case (js_member v ''error'', js_member v ''status'') of
       (Some (JStr code), Some (JStr st)) \<Rightarrow> AnchorTopologyError code st
     | _ \<Rightarrow> AnchorTopologyError ''UNKNOWN'' (''HTTP-'' @ natStr status))
   | None \<Rightarrow> AnchorTopologyError ''UNKNOWN'' (''HTTP-'' @ natStr status))"

definition client_snapshot :: "(nat \<Rightarrow> string) \<Rightarrow> nat \<Rightarrow> jsval option \<Rightarrow> client_error + jsval" where
  "client_snapshot natStr status body =
     (if \<not> (200 \<le> status \<and> status \<le> 299) then Inl (buildFetchError natStr status body)
      else case body of
        None \<Rightarrow> Inl JsonError
      | Some JNull \<Rightarrow> Inl JsonError
      | Some caps \<Rightarrow> (case js_member caps ''data'' of Some (JArr [row]) \<Rightarrow> Inr row | _ \<Rightarrow> Inl RowCountError))"

record stream_options =
  sto_filter :: "jsval option"
  sto_sinceVersion :: "rat option"
  sto_scope :: "string option"

definition stream_body :: "string \<Rightarrow> stream_options \<Rightarrow> jsval" where
  "stream_body uuid o' = JObj [(''type'', JStr ''topology.stream''), (''action'', JStr ''subscribe''), (''stream_id'', JStr uuid),
     (''topology'', JObj ([(''scope'', JStr (client_scope (sto_scope o')))] @
        opt_field ''filter'' (\<lambda>f. f) (sto_filter o') @ opt_field ''since_version'' JNum (sto_sinceVersion o')))]"

definition tryParseStreamError :: "jsval option \<Rightarrow> client_error option" where
  "tryParseStreamError line = (case line of
     Some v \<Rightarrow>
       if \<not> is_js_object line \<or> js_member v ''event_type'' \<noteq> None then None
       else (case (js_member v ''error'', js_member v ''status'') of
         (Some (JStr code), Some (JStr st)) \<Rightarrow> Some (AnchorTopologyError code st)
       | _ \<Rightarrow> None)
   | None \<Rightarrow> None)"

record client_env =
  ce_numStr :: "rat \<Rightarrow> string"
  ce_Number :: "jsval \<Rightarrow> rat option"

definition parse_anchor_state :: "client_env \<Rightarrow> rat \<Rightarrow> jsval \<Rightarrow> TopologyEvent" where
  "parse_anchor_state env version payload =
     (let name = string_or [] (js_member payload ''field''); details = js_member payload ''details'' in
      case details of
        Some (JObj d) \<Rightarrow>
          if name = ''anchor_failover'' then
            AnchorFailover version (js_toString (ce_numStr env) (nullish (JStr []) (jo_get d ''successor_nid'')))
              (ce_Number env (nullish (JNum 1) (jo_get d ''cluster_epoch'')))
              (js_toString (ce_numStr env) (nullish (JStr ''planned'') (jo_get d ''reason'')))
          else if name = ''anchor_quorum_lost'' then
            AnchorQuorumLost version (ce_Number env (nullish (JNum 0) (jo_get d ''quorum_size'')))
              (ce_Number env (nullish (JNum 0) (jo_get d ''available'')))
          else AnchorState version name details
      | _ \<Rightarrow> AnchorState version name details)"

definition parseTopologyEvent :: "client_env \<Rightarrow> jsval option \<Rightarrow> TopologyEvent option" where
  "parseTopologyEvent env line = (case line of
     None \<Rightarrow> None
   | Some v \<Rightarrow>
       if \<not> is_js_object line then None
       else case js_member v ''event_type'' of
         Some (JStr eventType) \<Rightarrow>
           let version = number_or 0 (js_member v ''seq''); payload = nullish (JObj []) (js_member v ''payload'') in
           if eventType = ''member_joined'' then Some (MemberJoined version payload)
           else if eventType = ''member_left'' then Some (MemberLeft version (string_or [] (js_member payload ''nid'')))
           else if eventType = ''member_updated''
           then Some (MemberUpdated version (string_or [] (js_member payload ''nid'')) (nullish (JObj []) (js_member payload ''changes'')))
           else if eventType = ''anchor_state'' then Some (parse_anchor_state env version payload)
           else if eventType = ''resync_required'' then Some (ResyncRequired (string_or ''unknown'' (js_member payload ''reason'')))
           else None
       | _ \<Rightarrow> None)"

text \<open>The generator after the acknowledgement: the events it yields and the error it throws, if any.\<close>

fun client_events :: "client_env \<Rightarrow> jsval option list \<Rightarrow> TopologyEvent list \<times> client_error option" where
  "client_events env [] = ([], None)"
| "client_events env (line # ls) = (case tryParseStreamError line of
     Some e \<Rightarrow> ([], Some e)
   | None \<Rightarrow> (case parseTopologyEvent env line of
       None \<Rightarrow> client_events env ls
     | Some ev \<Rightarrow>
         if event_kind ev = ''resync_required'' then ([ev], None)
         else (case client_events env ls of (evs, e) \<Rightarrow> (ev # evs, e))))"

definition client_subscribe :: "client_env \<Rightarrow> (nat \<Rightarrow> string) \<Rightarrow> nat \<Rightarrow> jsval option \<Rightarrow> jsval option list \<Rightarrow> TopologyEvent list \<times> client_error option" where
  "client_subscribe env natStr status body ls =
     (if \<not> (200 \<le> status \<and> status \<le> 299) then ([], Some (buildFetchError natStr status body)) else client_events env (tl ls))"

text \<open>The line reader over the decoded chunks of the body: what is yielded while reading, and the buffer.\<close>

definition strip_cr :: "string \<Rightarrow> string" where
  "strip_cr raw = (if raw \<noteq> [] \<and> last raw = CHR 0x0D then butlast raw else raw)"

definition nonempty_line :: "string \<Rightarrow> string list" where
  "nonempty_line raw = (let line = strip_cr raw in if line = [] then [] else [line])"

function drain :: "string \<Rightarrow> string list \<times> string" where
  "drain buffer = (if CHR 0x0A \<in> set buffer
     then (let raw = takeWhile (\<lambda>c. c \<noteq> CHR 0x0A) buffer; (ls, rest) = drain (drop (length raw + 1) buffer) in (nonempty_line raw @ ls, rest))
     else ([], buffer))"
  by pat_completeness auto
termination drain
proof (relation "measure length")
  fix buffer :: string and x
  assume "CHR 0x0A \<in> set buffer"
  then show "(drop (length x + 1) buffer, buffer) \<in> measure length" by (cases buffer) auto
qed simp

fun ndjson_loop :: "string \<Rightarrow> string list \<Rightarrow> string list" where
  "ndjson_loop buffer [] = nonempty_line buffer"
| "ndjson_loop buffer (chunk # cs) = (let (ls, rest) = drain (buffer @ chunk) in ls @ ndjson_loop rest cs)"

definition readNdjsonLines :: "string list \<Rightarrow> string list" where
  "readNdjsonLines chunks = ndjson_loop [] chunks"


declare drain.simps [simp del]

section \<open>Lines\<close>

lemma drain_split: "drain b = (concat (map nonempty_line (butlast (js_split CHR 0x0A b))), last (js_split CHR 0x0A b))"
proof (induction b rule: drain.induct)
  case (1 b)
  show ?case
  proof (cases "CHR 0x0A \<in> set b")
    case True
    obtain raw rest where b: "b = raw @ CHR 0x0A # rest" and raw: "CHR 0x0A \<notin> set raw"
      using split_list_first [OF True] by blast
    have raw_def: "raw = takeWhile (\<lambda>c. c \<noteq> CHR 0x0A) b" 
      using raw unfolding b by (induction raw) auto
    have d: "drop (length raw + 1) b = rest" by (simp add: b)
    have "drain rest = (concat (map nonempty_line (butlast (js_split CHR 0x0A rest))), last (js_split CHR 0x0A rest))"
      using "1.IH" [OF True raw_def] by (simp only: d)
    then have "drain b = (nonempty_line raw @ concat (map nonempty_line (butlast (js_split CHR 0x0A rest))), last (js_split CHR 0x0A rest))"
      using True by (subst drain.simps) (simp only: raw_def [symmetric] d Let_def if_True prod.case)
    then show ?thesis by (simp add: b js_split_sep [OF raw])
  next
    case False
    then show ?thesis by (subst drain.simps) (simp add: js_split_no_sep)
  qed
qed

lemma js_split_append: "js_split c (a @ b) = butlast (js_split c a) @ js_split c (last (js_split c a) @ b)"
proof (induction a)
  case (Cons x a)
  obtain y ys where a: "js_split c a = y # ys" by (cases "js_split c a") auto
  show ?case
  proof (cases "x = c \<or> ys \<noteq> []")
    case True
    with Cons a show ?thesis by (auto split: list.splits)
  next
    case False
    with Cons a show ?thesis by (auto split: list.splits)
  qed
qed simp

lemma ndjson_loop_split:
  "CHR 0x0A \<notin> set b \<Longrightarrow> ndjson_loop b cs = concat (map nonempty_line (js_split CHR 0x0A (b @ concat cs)))"
proof (induction cs arbitrary: b)
  case Nil
  then show ?case by (simp add: js_split_no_sep)
next
  case (Cons chunk cs)
  let ?l = "last (js_split CHR 0x0A (b @ chunk))"
  have "CHR 0x0A \<notin> set ?l" by (rule js_split_parts) (rule last_in_set, simp)
  note IH = Cons.IH [OF this]
  have "js_split CHR 0x0A (b @ concat (chunk # cs)) = butlast (js_split CHR 0x0A (b @ chunk)) @ js_split CHR 0x0A (?l @ concat cs)"
    using js_split_append [of "CHR 0x0A" "b @ chunk" "concat cs"] by simp
  then show ?case by (simp add: drain_split IH)
qed

text \<open>The lines a client reads are those of the whole body, however it was cut into chunks.\<close>

theorem ndjson_chunking: "readNdjsonLines chunks = concat (map nonempty_line (js_split CHR 0x0A (concat chunks)))"
  by (simp add: readNdjsonLines_def ndjson_loop_split)

section \<open>Requests\<close>

lemma concat_known: "concat (map (\<lambda>v. case v of JStr s \<Rightarrow> if P s then [s] else [] | _ \<Rightarrow> []) (map JStr xs)) = filter P xs"
  by (induction xs) auto

definition understood_include :: "string list \<Rightarrow> string list" where
  "understood_include inc = (let flags = js_dedup (filter (\<lambda>s. s \<in> set include_known) inc) in if flags \<noteq> [] then flags else [''members''])"

text \<open>The server reads the client's snapshot request option by option: unknown include flags are dropped, a depth that is not positive is one, and a member
  request without a target is refused.\<close>

theorem snapshot_request_understood:
  "parseSnapshotRequest (snapshot_body o') =
     (if client_scope (sno_scope o') = ''member'' \<and> (sno_targetNid o' = None \<or> sno_targetNid o' = Some []) then Inl bad_scope
      else Inr \<lparr>asr_scope = client_scope (sno_scope o'), asr_include = understood_include (opt_or [''members''] (sno_include o')),
        asr_depth = (case sno_depth o' of Some d \<Rightarrow> if d > 0 then d else 1 | None \<Rightarrow> 1), asr_targetNid = sno_targetNid o'\<rparr>)"
proof -
  have c: "client_scope s = ''cluster'' \<or> client_scope s = ''member''" for s by (simp add: client_scope_def)
  note d = parseSnapshotRequest_def snapshot_body_def js_member_def jo_get_def is_js_object_def parseScope_def parseInclude_def parseDepth_def
    opt_field_def Let_def concat_known understood_include_def
  show ?thesis
    using c [of "sno_scope o'"] by (cases "sno_depth o'"; cases "sno_targetNid o'") (simp_all add: d del: map_map)
qed

definition plain_filter :: "jsval option \<Rightarrow> bool" where
  "plain_filter f = (case f of None \<Rightarrow> True | Some (JObj kvs) \<Rightarrow> set (map fst kvs) \<subseteq> {''tags_any'', ''tags_all'', ''node_roles''} | _ \<Rightarrow> False)"

theorem stream_request_understood:
  assumes "plain_filter (sto_filter o')" "uuid \<noteq> []"
  shows "\<exists>r. parseStreamRequest randomId (stream_body uuid o') = Inr (r, uuid) \<and> ast_scope r = client_scope (sto_scope o') \<and>
    ast_sinceVersion r = sto_sinceVersion o' \<and>
    ast_filter r = map_option (\<lambda>f. (js_member f ''tags_any'', js_member f ''tags_all'', js_member f ''node_roles'')) (sto_filter o')"
proof -
  have c: "client_scope s = ''cluster'' \<or> client_scope s = ''member''" for s by (simp add: client_scope_def)
  note d = parseStreamRequest_def stream_body_def js_member_def jo_get_def is_js_object_def parseScope_def opt_field_def Let_def validateFilterKeys_def
    plain_filter_def
  obtain x xs where u: "uuid = x # xs" using assms(2) by (cases uuid) auto
  show ?thesis
    using c [of "sto_scope o'"] assms(1)
    by (cases "sto_filter o'"; cases "sto_sinceVersion o'"; cases "the (sto_filter o')") (auto simp: d u)
qed

section \<open>Events\<close>

definition wire_event :: "TopologyEvent \<Rightarrow> bool" where
  "wire_event ev = (case ev of
     MemberJoined _ m \<Rightarrow> m \<noteq> JNull
   | MemberUpdated _ _ changes \<Rightarrow> changes \<noteq> JNull
   | AnchorFailover _ _ epoch _ \<Rightarrow> epoch \<noteq> None
   | AnchorQuorumLost _ q a \<Rightarrow> q \<noteq> None \<and> a \<noteq> None
   | AnchorState _ name (Some (JObj _)) \<Rightarrow> name \<notin> {''anchor_failover'', ''anchor_quorum_lost''}
   | _ \<Rightarrow> True)"

lemma nullish_id: "v \<noteq> JNull \<Longrightarrow> nullish d (Some v) = v"
  by (cases v) (simp_all add: nullish_def)

lemma nullish_simps [simp]: "nullish d (Some (JObj x)) = JObj x" "nullish d (Some (JStr s)) = JStr s" "nullish d (Some (JNum n)) = JNum n"
  by (simp_all add: nullish_def)

lemma event_roundtrip:
  assumes "wire_event ev" "\<And>n. ce_Number env (JNum n) = Some n"
  shows "parseTopologyEvent env (Some (JObj (eventToEnvelope numStr timestamp streamId ev))) = Some ev"
proof -
  note d = parseTopologyEvent_def eventToEnvelope_def js_member_def jo_get_def is_js_object_def number_or_def string_or_def opt_field_def Let_def
    parse_anchor_state_def wire_event_def opt_num_def
  show ?thesis
  proof (cases ev)
    case (AnchorState v name details)
    show ?thesis
    proof (cases details)
      case (Some x)
      with AnchorState assms show ?thesis by (cases x) (simp_all add: d)
    qed (simp add: AnchorState d)
  qed (use assms in \<open>auto simp: d nullish_id\<close>)
qed

lemma envelope_no_error: "tryParseStreamError (Some (JObj (eventToEnvelope numStr timestamp streamId ev))) = None"
  by (simp add: tryParseStreamError_def eventToEnvelope_def js_member_def jo_get_def)

fun upto_resync :: "TopologyEvent list \<Rightarrow> TopologyEvent list" where
  "upto_resync [] = []"
| "upto_resync (ev # evs) = ev # (if event_kind ev = ''resync_required'' then [] else upto_resync evs)"

definition has_resync :: "TopologyEvent list \<Rightarrow> bool" where
  "has_resync evs = list_ex (\<lambda>ev. event_kind ev = ''resync_required'') evs"

definition client_end :: "topology_end \<Rightarrow> client_error option" where
  "client_end fin = (case fin of StreamProtocol (TopologyProtocolError code st) \<Rightarrow> Some (AnchorTopologyError code st) | _ \<Rightarrow> None)"

lemma client_end_lines: "client_events env (map Some (end_lines fin)) = ([], client_end fin)"
  by (auto simp: end_lines_def client_end_def tryParseStreamError_def is_js_object_def js_member_def jo_get_def
      split: topology_end.splits TopologyProtocolError.splits)

lemma client_event_lines:
  assumes "\<And>n. ce_Number env (JNum n) = Some n"
  shows "list_all (\<lambda>(ev, ts). wire_event ev) evs \<Longrightarrow>
    client_events env (map Some (event_lines numStr streamId evs fin)) =
      (upto_resync (map fst evs), if has_resync (map fst evs) then None else client_end fin)"
proof (induction evs)
  case Nil
  then show ?case by (simp add: client_end_lines has_resync_def)
next
  case (Cons e evs)
  obtain ev ts where e: "e = (ev, ts)" by (cases e)
  with Cons.prems have w: "wire_event ev" by simp
  show ?case
    using Cons by (simp add: e envelope_no_error event_roundtrip [OF w assms] has_resync_def)
qed

text \<open>C20: A client that subscribes receives exactly the events of the service, up to and including the first request to resynchronise, and the service's
  protocol error if it throws one before that.\<close>

theorem topology_stream_delivered:
  assumes "list_all (\<lambda>(ev, ts). wire_event ev) evs" "\<And>n. ce_Number env (JNum n) = Some n"
  shows "client_subscribe env natStr 200 body (map Some (subscribe_lines numStr streamId request clusterEpoch evs fin)) =
    (upto_resync (map fst evs), if has_resync (map fst evs) then None else client_end fin)"
  using client_event_lines [OF assms(2,1)] by (simp add: client_subscribe_def subscribe_lines_def)

definition demo_number :: "jsval \<Rightarrow> rat option" where
  "demo_number v = (case v of JNum n \<Rightarrow> Some n | JBool b \<Rightarrow> Some (if b then 1 else 0) | _ \<Rightarrow> None)"

theorem topology_stream_delivered_witness:
  "client_subscribe \<lparr>ce_numStr = \<lambda>n. [], ce_Number = demo_number\<rparr> (\<lambda>n. []) 200 None
     (map Some (subscribe_lines (\<lambda>n. []) ''s'' \<lparr>ast_scope = ''cluster'', ast_filter = None, ast_sinceVersion = None\<rparr> (Some 3)
       [(MemberLeft 4 ''a'', ''t''), (AnchorFailover 5 ''b'' (Some 4) ''planned'', ''t''), (ResyncRequired ''gap'', ''t''), (MemberLeft 6 ''c'', ''t'')] StreamDone)) =
   ([MemberLeft 4 ''a'', AnchorFailover 5 ''b'' (Some 4) ''planned'', ResyncRequired ''gap''], None)"
  by (subst topology_stream_delivered) (simp_all add: wire_event_def demo_number_def has_resync_def)

text \<open>An error of the service that is no protocol error looks like the regular end of the stream.\<close>

lemma service_failure_unnoticed:
  "subscribe_lines numStr streamId request clusterEpoch evs StreamThrow = subscribe_lines numStr streamId request clusterEpoch evs StreamDone"
proof -
  have "event_lines numStr streamId evs StreamThrow = event_lines numStr streamId evs StreamDone"
    by (induction numStr streamId evs StreamThrow rule: event_lines.induct) (simp_all add: end_lines_def)
  then show ?thesis by (simp add: subscribe_lines_def)
qed

end
