(* ===== verification/NwpAnchorServer.thy ===== *)
theory NwpAnchorServer
  imports NipVerify NwpTopology
begin

text \<open>
  \<open>nwp/anchor-server.ts\<close>: the Anchor Node as a machine of requests. A request is handled in stages separated by the points where the source
  awaits the topology service, the reputation evaluator or the invoke handler; what they answer, what the rate limiter decides and the random
  identifiers are part of the events, and the events of many requests interleave. The epoch fence (\<open>ClusterOwnership\<close>) is shared by all requests and by
  the host, which may change it between any two of them. Calls of the limiter and of the handler, and answers, go to a log.

  The body of a request is given as \<open>JSON.parse\<close> read it, \<open>None\<close> if it throws; header names are in lower case. The members of an action frame have
  their declared types. The text of error messages is left out.

  Proved: an anchor that is not the leader admits no invocation; the shared fence is the fence machine, run on the epochs of the requests; every
  acquisition of the limiter is released exactly once and every request is answered exactly once, over every
  interleaving. A failover during the reputation lookup of an admitted invocation does not stop it.
\<close>

section \<open>Options, requests, responses\<close>

record AnchorActionSpec =
  aas_description :: "string option"
  aas_paramsAnchor :: "string option"
  aas_resultAnchor :: "string option"
  aas_estimatedCgn :: "rat option"
  aas_timeoutMsDefault :: "rat option"
  aas_timeoutMsMax :: "rat option"
  aas_requiredCapability :: "string option"
  aas_async :: "bool option"

record AnchorNodeOptions =
  xo_nodeId :: string
  xo_pathPrefix :: string
  xo_actions :: "(string, AnchorActionSpec) jsmap"
  xo_displayName :: "string option"
  xo_requireAuth :: "bool option"
  xo_requiredCapabilities :: "string list option"
  xo_requireTopologyCapability :: "bool option"
  xo_defaultTimeoutMs :: "rat option"
  xo_maxTimeoutMs :: "rat option"
  xo_defaultTokenBudget :: "rat option"
  xo_cgnLimit :: "rat option"
  xo_assuranceHintUrl :: "string option"
  xo_reputationPolicy :: "ReputationPolicy option"
  xo_trustAnchors :: "string list option"
  xo_rateLimits :: "jsobj option"
  xo_autoInjectTraceContext :: "bool option"

text \<open>The options, the language's \<open>Number\<close>, \<open>JSON.parse\<close> and printer of numbers, and which dependencies were supplied.\<close>

record anchor_app_env =
  xe_opt :: AnchorNodeOptions
  xe_Number :: "string \<Rightarrow> rat option"
  xe_parseJson :: "string \<Rightarrow> jsval option"
  xe_numStr :: "rat \<Rightarrow> string"
  xe_handler :: bool
  xe_topology :: bool
  xe_evaluator :: bool

record anchor_request =
  xq_method :: string
  xq_path :: string
  xq_header :: "string \<Rightarrow> string option"
  xq_body :: "jsval option"

datatype anchor_body = AnchorNone | AnchorErr string string "jsval option" | AnchorJson jsval | AnchorLines "jsval list"

record anchor_response =
  xr_status :: nat
  xr_headers :: "(string \<times> string) list"
  xr_body :: anchor_body

record RateDecision =
  rate_allowed :: bool
  rate_retryAfterSeconds :: "rat option"

record InvokeContext =
  ivc_agentNid :: "string option"
  ivc_effectiveTimeoutMs :: rat
  ivc_budgetCgn :: rat
  ivc_traceId :: "string option"
  ivc_spanId :: "string option"

definition allow_all :: RateDecision where
  "allow_all = \<lparr>rate_allowed = True, rate_retryAfterSeconds = None\<rparr>"

definition xo_auth :: "AnchorNodeOptions \<Rightarrow> bool" where "xo_auth o' = opt_or True (xo_requireAuth o')"
definition xo_maxMs :: "AnchorNodeOptions \<Rightarrow> rat" where "xo_maxMs o' = opt_or 300000 (xo_maxTimeoutMs o')"
definition xo_defaultMs :: "AnchorNodeOptions \<Rightarrow> rat" where "xo_defaultMs o' = opt_or 30000 (xo_defaultTimeoutMs o')"
definition xo_limit :: "AnchorNodeOptions \<Rightarrow> rat" where "xo_limit o' = opt_or 0 (xo_cgnLimit o')"

definition anchor_prefix :: "AnchorNodeOptions \<Rightarrow> string" where
  "anchor_prefix o' = rev (dropWhile (\<lambda>c. c = CHR ''/'') (rev (xo_pathPrefix o')))"

definition anchor_error_response :: "nat \<Rightarrow> string \<Rightarrow> string \<Rightarrow> jsval option \<Rightarrow> (string \<times> string) list \<Rightarrow> anchor_response" where
  "anchor_error_response status nps code details extra =
     \<lparr>xr_status = status, xr_headers = (''content-type'', ''application/json'') # extra, xr_body = AnchorErr nps code details\<rparr>"

abbreviation anchor_err :: "nat \<Rightarrow> string \<Rightarrow> string \<Rightarrow> anchor_response" where
  "anchor_err status nps code \<equiv> anchor_error_response status nps code None []"

definition topologyHttpStatus :: "string \<Rightarrow> nat" where
  "topologyHttpStatus nps = (if nps = ''NPS-AUTH-FORBIDDEN'' then 403 else if nps = ''NPS-CLIENT-CONFLICT'' then 409 else 400)"

definition protocol_response :: "TopologyProtocolError \<Rightarrow> anchor_response" where
  "protocol_response e = (case e of TopologyProtocolError code nps \<Rightarrow> anchor_err (topologyHttpStatus nps) nps code)"

definition anchor_type_header :: "string \<times> string" where
  "anchor_type_header = (''x-nwp-node-type'', ''anchor'')"

section \<open>Manifest\<close>

definition rule_to_wire :: "ReputationRule \<Rightarrow> jsval" where
  "rule_to_wire r = JObj ([(''incident'', JStr (opt_or ''*'' (rr_incident r))), (''severity'', JStr (opt_or ''>=minor'' (rr_severity r)))] @
     opt_field ''within_days'' JNum (rr_withinDays r) @ opt_field ''count'' JNum (rr_count r))"

definition str_arr :: "string list \<Rightarrow> jsval" where "str_arr xs = JArr (map JStr xs)"

definition reputationPolicyToWire :: "ReputationPolicy \<Rightarrow> jsobj" where
  "reputationPolicyToWire p =
     opt_field ''enabled'' JBool (rp_enabled p) @ opt_field ''log_sources'' str_arr (rp_logSources p) @
     opt_field ''min_assurance_level'' JStr (rp_minAssuranceLevel p) @ opt_field ''cache_ttl_seconds'' JNum (rp_cacheTtlSeconds p) @
     opt_field ''ban_ttl_seconds'' JNum (rp_banTtlSeconds p) @ opt_field ''on_log_unavailable'' JStr (rp_onLogUnavailable p) @
     opt_field ''throttle_on'' (\<lambda>rs. JArr (map rule_to_wire rs)) (rp_throttleOn p) @
     opt_field ''reject_on'' (\<lambda>rs. JArr (map rule_to_wire rs)) (rp_rejectOn p) @
     opt_field ''ban_on'' (\<lambda>rs. JArr (map rule_to_wire rs)) (rp_banOn p)"

definition anchor_action_entry :: "string \<Rightarrow> AnchorActionSpec \<Rightarrow> jsval" where
  "anchor_action_entry actionId spec = JObj ([(''action_id'', JStr actionId), (''async'', JBool (opt_or False (aas_async spec)))] @
     opt_field ''description'' JStr (aas_description spec) @ opt_field ''params_anchor'' JStr (aas_paramsAnchor spec) @
     opt_field ''result_anchor'' JStr (aas_resultAnchor spec) @ opt_field ''cgn_est'' JNum (aas_estimatedCgn spec) @
     opt_field ''timeout_ms_default'' JNum (aas_timeoutMsDefault spec) @ opt_field ''timeout_ms_max'' JNum (aas_timeoutMsMax spec) @
     opt_field ''required_capability'' JStr (aas_requiredCapability spec))"

definition anchor_actionsDict :: "AnchorNodeOptions \<Rightarrow> jsobj" where
  "anchor_actionsDict o' = map (\<lambda>(actionId, spec). (actionId, anchor_action_entry actionId spec)) (xo_actions o')"

definition policy_enabled :: "ReputationPolicy option \<Rightarrow> bool" where
  "policy_enabled p = (case p of None \<Rightarrow> False | Some p \<Rightarrow> opt_or True (rp_enabled p))"

definition anchor_buildManifest :: "AnchorNodeOptions \<Rightarrow> jsobj" where
  "anchor_buildManifest o' =
     [(''nwp'', JStr ''0.4''), (''node_id'', JStr (xo_nodeId o')), (''node_type'', JStr ''anchor'')] @
     opt_field ''display_name'' JStr (xo_displayName o') @
     [(''wire_formats'', str_arr [''ncp-capsule'', ''json'']), (''preferred_format'', JStr ''json''),
      (''capabilities'', JObj [(''query'', JBool False), (''stream'', JBool False), (''subscribe'', JBool False), (''vector_search'', JBool False),
         (''token_budget_hint'', JBool True), (''ext_frame'', JBool False)]),
      (''auth'', JObj ([(''required'', JBool (xo_auth o')), (''identity_type'', JStr (if xo_auth o' then ''nip-cert'' else ''none''))] @
         opt_field ''required_capabilities'' str_arr (xo_requiredCapabilities o'))),
      (''endpoints'', JObj [(''invoke'', JStr (anchor_prefix o' @ ''/invoke'')), (''schema'', JStr (anchor_prefix o' @ ''/.schema''))])] @
     (if xo_limit o' > 0 then [(''token_budget'', JObj [(''cgn_limit'', JNum (xo_limit o')), (''profile'', JStr ''cgn.v1'')])] else []) @
     opt_field ''rate_limits'' JObj (xo_rateLimits o') @
     (if policy_enabled (xo_reputationPolicy o') then [(''reputation_policy'', JObj (reputationPolicyToWire (the (xo_reputationPolicy o'))))] else []) @
     (case xo_trustAnchors o' of Some (a # as) \<Rightarrow> [(''trust_anchors'', str_arr (a # as))] | _ \<Rightarrow> []) @
     [(''actions'', JArr (map snd (anchor_actionsDict o')))]"

section \<open>Gates\<close>

definition readInboundEpoch :: "anchor_app_env \<Rightarrow> anchor_request \<Rightarrow> jsval option \<Rightarrow> InboundEpochFrame" where
  "readInboundEpoch env q body =
     (let epoch = (case Option.bind body (\<lambda>b. js_member b ''cluster_epoch'') of
           Some (JNum n) \<Rightarrow> Some n
         | _ \<Rightarrow> (case xq_header q ''x-nwp-cluster-epoch'' of None \<Rightarrow> None | Some h \<Rightarrow> if h = [] then None else xe_Number env h));
          sender = (case Option.bind body (\<lambda>b. js_member b ''sender_anchor_nid'') of
           Some (JStr s) \<Rightarrow> Some s
         | _ \<Rightarrow> xq_header q ''x-nwp-anchor-nid'') in
      \<lparr>if_cluster_epoch = epoch, if_sender_anchor_nid = sender\<rparr>)"

text \<open>Both errors of the fence have the status \<open>NPS-CLIENT-CONFLICT\<close>.\<close>

definition applyFence :: "anchor_app_env \<Rightarrow> anchor_request \<Rightarrow> bool \<Rightarrow> AnchorEpochFence option \<Rightarrow> anchor_response option \<times> AnchorEpochFence option" where
  "applyFence env q isTopologyWrite fence = (case fence of
     None \<Rightarrow> (None, None)
   | Some f \<Rightarrow> (case onInboundFrame (Some (readInboundEpoch env q (xq_body q))) isTopologyWrite f of
       (None, f') \<Rightarrow> (None, Some f')
     | (Some code, f') \<Rightarrow> (Some (protocol_response (TopologyProtocolError code ''NPS-CLIENT-CONFLICT'')), Some f')))"

definition checkTopologyCapability :: "anchor_app_env \<Rightarrow> anchor_request \<Rightarrow> anchor_response option" where
  "checkTopologyCapability env q =
     (if \<not> opt_or False (xo_requireTopologyCapability (xe_opt env)) then None
      else if ''topology:read'' \<in> set (map (\<lambda>c. js_toLowerCase (js_trim c)) (js_split CHR '','' (opt_or [] (xq_header q ''x-nwp-capabilities''))))
      then None
      else Some (anchor_err 403 ''NPS-AUTH-FORBIDDEN'' ''NWP-TOPOLOGY-UNAUTHORIZED''))"

definition anchor_clampTimeout :: "AnchorNodeOptions \<Rightarrow> rat \<Rightarrow> AnchorActionSpec \<Rightarrow> rat" where
  "anchor_clampTimeout o' requested spec =
     (let specMax = opt_or (xo_maxMs o') (aas_timeoutMsMax spec); hardMax = min specMax (xo_maxMs o') in
      if requested \<le> 0 then opt_or (xo_defaultMs o') (aas_timeoutMsDefault spec) else min requested hardMax)"

definition readEffectiveBudget :: "AnchorNodeOptions \<Rightarrow> anchor_request \<Rightarrow> rat" where
  "readEffectiveBudget o' q =
     (let agentBudget = (case xq_header q ''x-nwp-budget'' of
           None \<Rightarrow> opt_or 0 (xo_defaultTokenBudget o')
         | Some raw \<Rightarrow> (case js_parseInt raw of None \<Rightarrow> opt_or 0 (xo_defaultTokenBudget o') | Some n \<Rightarrow> of_int n)) in
      if xo_limit o' = 0 then agentBudget else if agentBudget = 0 then xo_limit o' else min (xo_limit o') agentBudget)"

definition extractIdentAssurance :: "anchor_app_env \<Rightarrow> anchor_request \<Rightarrow> assurance_level" where
  "extractIdentAssurance env q = (case xq_header q ''x-nwp-ident'' of
     None \<Rightarrow> ANONYMOUS
   | Some raw \<Rightarrow> if raw = [] then ANONYMOUS
       else (case Option.bind (xe_parseJson env raw) (\<lambda>doc. js_member doc ''assurance_level'') of
         Some (JStr lvl) \<Rightarrow> (case fromWire (Some lvl) of Some l \<Rightarrow> l | None \<Rightarrow> ANONYMOUS)
       | _ \<Rightarrow> ANONYMOUS))"

definition matched_details :: "ReputationRule option \<Rightarrow> jsval option" where
  "matched_details rule = (case Option.bind rule rr_incident of
     None \<Rightarrow> None
   | Some incident \<Rightarrow> Some (JObj ((''matched_incident'', JStr incident) # opt_field ''matched_severity'' JStr (Option.bind rule rr_severity))))"

definition applyReputation :: "AnchorNodeOptions \<Rightarrow> ReputationDecision \<Rightarrow> anchor_response option" where
  "applyReputation o' decision = (let details = matched_details (rd_matchedRule decision) in
     case rd_outcome decision of
       Accept \<Rightarrow> None
     | Ban \<Rightarrow> Some (anchor_error_response 403 ''NPS-AUTH-FORBIDDEN'' ''NWP-REPUTATION-BANNED'' details [])
     | Reject \<Rightarrow>
         Some (if rd_errorCode decision = Some ''NWP-AUTH-ASSURANCE-TOO-LOW''
           then anchor_error_response 403 ''NPS-AUTH-FORBIDDEN'' ''NWP-AUTH-ASSURANCE-TOO-LOW''
             (Some (JObj ((''matched_incident'', JNull) # opt_field ''hint'' JStr (xo_assuranceHintUrl o')))) []
           else anchor_error_response 403 ''NPS-AUTH-FORBIDDEN'' ''NWP-REPUTATION-REJECTED'' details [])
     | Throttle \<Rightarrow> Some (anchor_error_response 429 ''NPS-CLIENT-RATE-LIMITED'' ''NWP-REPUTATION-THROTTLED'' details [(''retry-after'', ''60'')]))"

section \<open>The stages of a request\<close>

record anchor_invocation =
  inv_frame :: ActionFrame
  inv_spec :: AnchorActionSpec
  inv_agent :: "string option"
  inv_timeout :: rat
  inv_budget :: rat

datatype anchor_wait = WaitSnapshot AnchorSnapshotRequest | WaitReputation anchor_invocation assurance_level | WaitHandler anchor_invocation

datatype anchor_stage = XRespond anchor_response | XThrow | XWait anchor_wait

datatype anchor_effect =
    EAcquire string rat
  | ERelease string
  | EHandler ActionFrame InvokeContext
  | EAnswer "anchor_response option"

definition consumer_key :: "anchor_invocation \<Rightarrow> string" where
  "consumer_key i = opt_or ''anonymous'' (inv_agent i)"

text \<open>\<open>ActionFrame.fromDict\<close>; the action is used as a property name.\<close>

definition js_truthy :: "jsval \<Rightarrow> bool" where
  "js_truthy v = (case v of JNull \<Rightarrow> False | JBool b \<Rightarrow> b | JNum n \<Rightarrow> n \<noteq> 0 | JStr s \<Rightarrow> s \<noteq> [] | _ \<Rightarrow> True)"

definition present :: "jsval option \<Rightarrow> jsval option" where
  "present v = (if v = Some JNull then None else v)"

definition invoke_frame :: "(rat \<Rightarrow> string) \<Rightarrow> jsval \<Rightarrow> ActionFrame" where
  "invoke_frame numStr data =
     \<lparr>af_actionId = (case present (js_member data ''action_id'') of Some v \<Rightarrow> js_toString numStr v | None \<Rightarrow> js_text numStr (js_member data ''action'')),
      af_params = (case js_member data ''params'' of Some (JObj p) \<Rightarrow> Some p | _ \<Rightarrow> None),
      af_async = map_option js_truthy (present (js_member data ''async'')),
      af_idempotencyKey = (case js_member data ''idempotency_key'' of Some (JStr s) \<Rightarrow> Some s | _ \<Rightarrow> None),
      af_timeoutMs = (case js_member data ''timeout_ms'' of Some (JNum n) \<Rightarrow> Some n | _ \<Rightarrow> None),
      af_requestId = (case js_member data ''request_id'' of Some (JStr s) \<Rightarrow> Some s | _ \<Rightarrow> None)\<rparr>"

definition empty_anchor_spec :: AnchorActionSpec where
  "empty_anchor_spec = \<lparr>aas_description = None, aas_paramsAnchor = None, aas_resultAnchor = None, aas_estimatedCgn = None, aas_timeoutMsDefault = None,
     aas_timeoutMsMax = None, aas_requiredCapability = None, aas_async = None\<rparr>"

definition find_anchor_spec :: "AnchorNodeOptions \<Rightarrow> string \<Rightarrow> AnchorActionSpec option" where
  "find_anchor_spec o' actionId = (case js_get (xo_actions o') actionId of
     Some spec \<Rightarrow> Some spec
   | None \<Rightarrow> if actionId \<in> set object_members then Some empty_anchor_spec else None)"

definition query_type :: "jsval option \<Rightarrow> string \<Rightarrow> bool" where
  "query_type body t = (Option.bind body (\<lambda>b. js_member b ''type'') = Some (JStr t))"

text \<open>\<open>handleQuery\<close> up to the call of the topology service. A body that is \<open>null\<close> has no members: reading its type throws.\<close>

definition anchor_handleQuery :: "anchor_app_env \<Rightarrow> anchor_request \<Rightarrow> AnchorEpochFence option \<Rightarrow> anchor_stage \<times> AnchorEpochFence option" where
  "anchor_handleQuery env q fence = (case checkTopologyCapability env q of
     Some r \<Rightarrow> (XRespond r, fence)
   | None \<Rightarrow> (case xq_body q of
       None \<Rightarrow> (XRespond (anchor_err 400 ''NPS-CLIENT-BAD-REQUEST'' ''NWP-QUERY-FILTER-INVALID''), fence)
     | Some body \<Rightarrow> (case applyFence env q False fence of
         (Some r, fence') \<Rightarrow> (XRespond r, fence')
       | (None, fence') \<Rightarrow>
           (if body = JNull then XThrow
            else if \<not> query_type (Some body) ''topology.snapshot''
            then XRespond (anchor_err 501 ''NPS-SERVER-UNSUPPORTED'' ''NWP-RESERVED-TYPE-UNSUPPORTED'')
            else if \<not> xe_topology env then XRespond (anchor_err 501 ''NPS-SERVER-UNSUPPORTED'' ''NWP-NODE-UNAVAILABLE'')
            else (case parseSnapshotRequest body of Inl e \<Rightarrow> XRespond (protocol_response e) | Inr request \<Rightarrow> XWait (WaitSnapshot request)), fence'))))"

datatype snapshot_answer = SnapshotOk jsobj | SnapshotProtocol TopologyProtocolError | SnapshotThrow

definition query_answered :: "AnchorEpochFence option \<Rightarrow> snapshot_answer \<Rightarrow> anchor_stage" where
  "query_answered fence a = (case a of
     SnapshotOk snapshot \<Rightarrow>
       let stamped = (case fence of None \<Rightarrow> snapshot | Some f \<Rightarrow> stampResponse snapshot f) in
       XRespond \<lparr>xr_status = 200,
         xr_headers = [(''content-type'', ''application/nwp-capsule''), anchor_type_header, (''x-nwp-schema'', SNAPSHOT_ANCHOR_REF)],
         xr_body = AnchorJson (JObj [(''anchor_ref'', JStr SNAPSHOT_ANCHOR_REF), (''count'', JNum 1), (''data'', JArr [JObj stamped])])\<rparr>
   | SnapshotProtocol e \<Rightarrow> XRespond (protocol_response e)
   | SnapshotThrow \<Rightarrow> XThrow)"

text \<open>\<open>handleSubscribe\<close>; the events the service will yield are given.\<close>

definition anchor_handleSubscribe :: "anchor_app_env \<Rightarrow> string \<Rightarrow> (TopologyEvent \<times> string) list \<Rightarrow> topology_end \<Rightarrow> anchor_request \<Rightarrow> AnchorEpochFence option \<Rightarrow>
    anchor_stage \<times> AnchorEpochFence option" where
  "anchor_handleSubscribe env randomId evs fin q fence = (case checkTopologyCapability env q of
     Some r \<Rightarrow> (XRespond r, fence)
   | None \<Rightarrow> (case xq_body q of
       None \<Rightarrow> (XRespond (anchor_err 400 ''NPS-CLIENT-BAD-REQUEST'' ''NWP-QUERY-FILTER-INVALID''), fence)
     | Some body \<Rightarrow> (case applyFence env q False fence of
         (Some r, fence') \<Rightarrow> (XRespond r, fence')
       | (None, fence') \<Rightarrow>
           (if body = JNull then XThrow
            else if \<not> query_type (Some body) ''topology.stream''
            then XRespond (anchor_err 501 ''NPS-SERVER-UNSUPPORTED'' ''NWP-RESERVED-TYPE-UNSUPPORTED'')
            else if \<not> xe_topology env then XRespond (anchor_err 501 ''NPS-SERVER-UNSUPPORTED'' ''NWP-NODE-UNAVAILABLE'')
            else (case parseStreamRequest randomId body of
              Inl e \<Rightarrow> XRespond (protocol_response e)
            | Inr (request, streamId) \<Rightarrow>
                XRespond \<lparr>xr_status = 200, xr_headers = [(''content-type'', ''application/nwp-capsule''), anchor_type_header],
                  xr_body = AnchorLines (subscribe_lines (xe_numStr env) streamId request (map_option ef_ownEpoch fence') evs fin)\<rparr>), fence'))))"

text \<open>\<open>handleInvoke\<close> after the reputation gate. \<open>rnd\<close>: the trace, span and task identifiers.\<close>

definition invoke_context :: "anchor_app_env \<Rightarrow> string \<times> string \<times> string \<Rightarrow> anchor_invocation \<Rightarrow> InvokeContext" where
  "invoke_context env rnd i = (let trace = opt_or True (xo_autoInjectTraceContext (xe_opt env)) in
     \<lparr>ivc_agentNid = inv_agent i, ivc_effectiveTimeoutMs = inv_timeout i, ivc_budgetCgn = inv_budget i,
      ivc_traceId = (if trace then Some (fst rnd) else None), ivc_spanId = (if trace then Some (fst (snd rnd)) else None)\<rparr>)"

definition invoke_continue :: "anchor_app_env \<Rightarrow> string \<times> string \<times> string \<Rightarrow> anchor_invocation \<Rightarrow> anchor_stage \<times> anchor_effect list" where
  "invoke_continue env rnd i =
     (let cost = opt_or 0 (aas_estimatedCgn (inv_spec i)); call = EHandler (inv_frame i) (invoke_context env rnd i) in
      if inv_budget i > 0 \<and> cost > 0 \<and> cost > inv_budget i
      then (XRespond (anchor_error_response 400 ''NPS-CLIENT-REQUEST-TOO-LARGE'' ''NWP-CGN-LIMIT-EXCEEDED''
              (Some (JObj [(''effective_budget'', JNum (inv_budget i)), (''estimated_cgn'', JNum cost)])) []), [])
      else if \<not> xe_handler env then (XRespond (anchor_err 501 ''NPS-SERVER-UNSUPPORTED'' ''NWP-NODE-UNAVAILABLE''), [])
      else if opt_or False (af_async (inv_frame i))
      then (XRespond \<lparr>xr_status = 202, xr_headers = [(''content-type'', ''application/json''), anchor_type_header],
              xr_body = AnchorJson (JObj [(''task_id'', JStr (snd (snd rnd))), (''status'', JStr ''pending''),
                (''poll_url'', JStr (anchor_prefix (xe_opt env) @ ''/invoke''))])\<rparr>, [call])
      else (XWait (WaitHandler i), [call]))"

text \<open>The \<open>finally\<close> block: an invocation that is answered releases the limiter.\<close>

definition finish_invoke :: "anchor_invocation \<Rightarrow> anchor_stage \<times> anchor_effect list \<Rightarrow> anchor_stage \<times> anchor_effect list" where
  "finish_invoke i x = (case x of
     (XWait w, es) \<Rightarrow> (XWait w, es)
   | (stage, es) \<Rightarrow> (stage, es @ [ERelease (consumer_key i)]))"

definition rate_refusal :: "anchor_app_env \<Rightarrow> RateDecision \<Rightarrow> anchor_response" where
  "rate_refusal env rate = anchor_error_response 429 ''NPS-LIMIT-RATE'' ''NWP-BUDGET-EXCEEDED'' None
     (case rate_retryAfterSeconds rate of Some n \<Rightarrow> if n = 0 then [] else [(''retry-after'', xe_numStr env n)] | None \<Rightarrow> [])"

definition anchor_admit :: "anchor_app_env \<Rightarrow> anchor_request \<Rightarrow> jsval \<Rightarrow> anchor_response + anchor_invocation" where
  "anchor_admit env q body =
     (let frame = invoke_frame (xe_numStr env) body in
      case find_anchor_spec (xe_opt env) (af_actionId frame) of
        None \<Rightarrow> Inl (anchor_err 404 ''NPS-CLIENT-NOT-FOUND'' ''NWP-ACTION-NOT-FOUND'')
      | Some spec \<Rightarrow>
          if opt_or False (af_async frame) \<and> \<not> opt_or False (aas_async spec)
          then Inl (anchor_err 400 ''NPS-CLIENT-BAD-REQUEST'' ''NWP-ACTION-PARAMS-INVALID'')
          else Inr \<lparr>inv_frame = frame, inv_spec = spec, inv_agent = xq_header q ''x-nwp-agent'',
            inv_timeout = anchor_clampTimeout (xe_opt env) (opt_or 0 (af_timeoutMs frame)) spec, inv_budget = readEffectiveBudget (xe_opt env) q\<rparr>)"

definition anchor_handleInvoke :: "anchor_app_env \<Rightarrow> RateDecision \<Rightarrow> string \<times> string \<times> string \<Rightarrow> anchor_request \<Rightarrow> AnchorEpochFence option \<Rightarrow>
    (anchor_stage \<times> anchor_effect list) \<times> AnchorEpochFence option" where
  "anchor_handleInvoke env rate rnd q fence =
     (if xq_body q = None \<or> xq_body q = Some JNull
      then ((XRespond (anchor_err 400 ''NPS-CLIENT-BAD-REQUEST'' ''NWP-ACTION-PARAMS-INVALID''), []), fence)
      else case applyFence env q True fence of
        (Some r, fence') \<Rightarrow> ((XRespond r, []), fence')
      | (None, fence') \<Rightarrow>
          ((case anchor_admit env q (the (xq_body q)) of
              Inl r \<Rightarrow> (XRespond r, [])
            | Inr i \<Rightarrow>
                if \<not> rate_allowed rate then (XRespond (rate_refusal env rate), [])
                else let (stage, es) = (if policy_enabled (xo_reputationPolicy (xe_opt env)) \<and> xe_evaluator env
                       then (XWait (WaitReputation i (extractIdentAssurance env q)), [])
                       else finish_invoke i (invoke_continue env rnd i)) in
                  (stage, EAcquire (consumer_key i) (opt_or 0 (aas_estimatedCgn (inv_spec i))) # es)), fence'))"

text \<open>The answer of the evaluator; \<open>None\<close>: it threw.\<close>

definition invoke_decided :: "anchor_app_env \<Rightarrow> string \<times> string \<times> string \<Rightarrow> ReputationDecision option \<Rightarrow> anchor_invocation \<Rightarrow> anchor_stage \<times> anchor_effect list" where
  "invoke_decided env rnd decision i = finish_invoke i (case decision of
     None \<Rightarrow> (XRespond (anchor_err 500 ''NPS-SERVER-INTERNAL'' ''NWP-NODE-UNAVAILABLE''), [])
   | Some d \<Rightarrow> (case applyReputation (xe_opt env) d of
       Some r \<Rightarrow> (XRespond r, [])
     | None \<Rightarrow> invoke_continue env rnd i))"

datatype handler_answer = HandlerOk "jsval option" | HandlerError nat string string "jsval option" | HandlerThrow

definition invoke_handled :: "anchor_app_env \<Rightarrow> handler_answer \<Rightarrow> anchor_invocation \<Rightarrow> anchor_stage \<times> anchor_effect list" where
  "invoke_handled env a i = finish_invoke i (case a of
     HandlerError status nps code details \<Rightarrow> (XRespond (anchor_error_response status nps code details []), [])
   | HandlerThrow \<Rightarrow> (XRespond (anchor_err 500 ''NPS-SERVER-INTERNAL'' ''NWP-NODE-UNAVAILABLE''), [])
   | HandlerOk res \<Rightarrow>
       let spec = inv_spec i; data = (case present res of None \<Rightarrow> [] | Some v \<Rightarrow> [v]) in
       (XRespond \<lparr>xr_status = 200,
          xr_headers = [(''content-type'', ''application/nwp-capsule''), anchor_type_header] @
            (case aas_resultAnchor spec of Some (c # cs) \<Rightarrow> [(''x-nwp-schema'', c # cs)] | _ \<Rightarrow> []) @
            (case aas_estimatedCgn spec of Some n \<Rightarrow> if n = 0 then [] else [(''x-nwp-tokens'', xe_numStr env n)] | None \<Rightarrow> []),
          xr_body = AnchorJson (JObj [(''anchor_ref'', JStr (opt_or [] (aas_resultAnchor spec))), (''count'', JNum (of_nat (length data))),
            (''data'', JArr data)])\<rparr>, []))"

section \<open>The application\<close>

record anchor_app =
  xa_fence :: "AnchorEpochFence option"
  xa_next :: nat
  xa_pending :: "(nat, anchor_wait) jsmap"
  xa_log :: "(nat \<times> anchor_effect) list"

definition anchor_init :: "AnchorEpochFence option \<Rightarrow> anchor_app" where
  "anchor_init fence = \<lparr>xa_fence = fence, xa_next = 0, xa_pending = [], xa_log = []\<rparr>"

definition KNOWN_ROUTES :: "string list" where
  "KNOWN_ROUTES = [''/.nwm'', ''/.nwm/'', ''/.schema'', ''/.schema/'', ''/actions'', ''/actions/'', ''/invoke'', ''/invoke/'', ''/query'', ''/query/'',
     ''/subscribe'', ''/subscribe/'']"

definition unknown_route :: anchor_response where
  "unknown_route = anchor_err 404 ''NPS-CLIENT-NOT-FOUND'' ''NWP-ACTION-NOT-FOUND''"

definition not_post :: anchor_response where
  "not_post = \<lparr>xr_status = 405, xr_headers = [], xr_body = AnchorNone\<rparr>"

text \<open>What happens outside the application during a request: the limiter's decision, identifiers, the events of the topology service.\<close>

record anchor_world =
  xw_rate :: RateDecision
  xw_rnd :: "string \<times> string \<times> string"
  xw_events :: "(TopologyEvent \<times> string) list"
  xw_end :: topology_end

definition unauthenticated :: "anchor_app_env \<Rightarrow> anchor_request \<Rightarrow> bool" where
  "unauthenticated env q \<longleftrightarrow> xo_auth (xe_opt env) \<and> opt_or [] (xq_header q ''x-nwp-agent'') = []"

definition anchor_fetch :: "anchor_app_env \<Rightarrow> anchor_world \<Rightarrow> anchor_request \<Rightarrow> AnchorEpochFence option \<Rightarrow>
    (anchor_stage \<times> anchor_effect list) \<times> AnchorEpochFence option" where
  "anchor_fetch env w q fence =
     (let respond = (\<lambda>r. ((XRespond r, []), fence)); sub = drop (length (anchor_prefix (xe_opt env))) (xq_path q);
          silent = (\<lambda>(stage, fence'). ((stage, []), fence')) in
      if \<not> js_startsWith (xq_path q) (anchor_prefix (xe_opt env)) then respond unknown_route
      else if sub \<notin> set KNOWN_ROUTES then respond unknown_route
      else if unauthenticated env q then respond (anchor_err 401 ''NPS-AUTH-UNAUTHENTICATED'' ''NWP-AUTH-NID-SCOPE-VIOLATION'')
      else if sub \<in> {''/.nwm'', ''/.nwm/''}
      then respond \<lparr>xr_status = 200, xr_headers = [(''content-type'', ''application/nwp-manifest+json''), anchor_type_header],
        xr_body = AnchorJson (JObj (anchor_buildManifest (xe_opt env)))\<rparr>
      else if sub \<in> {''/.schema'', ''/.schema/'', ''/actions'', ''/actions/''}
      then respond \<lparr>xr_status = 200, xr_headers = [(''content-type'', ''application/json'')],
        xr_body = AnchorJson (JObj [(''actions'', JObj (anchor_actionsDict (xe_opt env)))])\<rparr>
      else if xq_method q \<noteq> ''POST'' then respond not_post
      else if sub \<in> {''/invoke'', ''/invoke/''} then anchor_handleInvoke env (xw_rate w) (xw_rnd w) q fence
      else if sub \<in> {''/query'', ''/query/''} then silent (anchor_handleQuery env q fence)
      else silent (anchor_handleSubscribe env (snd (snd (xw_rnd w))) (xw_events w) (xw_end w) q fence))"

datatype anchor_event =
    XRequest anchor_world anchor_request
  | XSnapshot nat snapshot_answer
  | XDecision nat "string \<times> string \<times> string" "ReputationDecision option"
  | XResult nat handler_answer
  | XHost fence_event

definition stage_wait :: "anchor_stage \<Rightarrow> anchor_wait option" where
  "stage_wait stage = (case stage of XWait w \<Rightarrow> Some w | _ \<Rightarrow> None)"

definition stage_trace :: "anchor_stage \<times> anchor_effect list \<Rightarrow> anchor_effect list" where
  "stage_trace x = snd x @ (case fst x of XWait w \<Rightarrow> [] | XRespond r \<Rightarrow> [EAnswer (Some r)] | XThrow \<Rightarrow> [EAnswer None])"

definition anchor_settle :: "nat \<Rightarrow> anchor_stage \<times> anchor_effect list \<Rightarrow> anchor_app \<Rightarrow> anchor_app" where
  "anchor_settle n x s = s\<lparr>xa_pending := (case stage_wait (fst x) of Some w \<Rightarrow> js_set (xa_pending s) n w | None \<Rightarrow> js_delete (xa_pending s) n),
     xa_log := xa_log s @ map (Pair n) (stage_trace x)\<rparr>"

fun anchor_step :: "anchor_app_env \<Rightarrow> anchor_app \<Rightarrow> anchor_event \<Rightarrow> anchor_app" where
  "anchor_step env s (XRequest w q) =
     (let (x, fence) = anchor_fetch env w q (xa_fence s) in anchor_settle (xa_next s) x (s\<lparr>xa_fence := fence, xa_next := Suc (xa_next s)\<rparr>))"
| "anchor_step env s (XSnapshot n a) = (case js_get (xa_pending s) n of
     Some (WaitSnapshot request) \<Rightarrow> anchor_settle n (query_answered (xa_fence s) a, []) s
   | _ \<Rightarrow> s)"
| "anchor_step env s (XDecision n rnd d) = (case js_get (xa_pending s) n of
     Some (WaitReputation i assurance) \<Rightarrow> anchor_settle n (invoke_decided env rnd d i) s
   | _ \<Rightarrow> s)"
| "anchor_step env s (XResult n a) = (case js_get (xa_pending s) n of
     Some (WaitHandler i) \<Rightarrow> anchor_settle n (invoke_handled env a i) s
   | _ \<Rightarrow> s)"
| "anchor_step env s (XHost e) = s\<lparr>xa_fence := map_option (\<lambda>f. fence_step f e) (xa_fence s)\<rparr>"


section \<open>The life of a request\<close>

text \<open>What a request has done so far: nothing while it waits for the topology service; acquired the limiter while it waits for the evaluator; called the handler
  too while it waits for the handler; and in the end it has given back what it acquired and is answered.\<close>

definition called_once :: "anchor_effect list \<Rightarrow> bool" where
  "called_once hs \<longleftrightarrow> hs = [] \<or> (\<exists>f x. hs = [EHandler f x])"

definition finished_trace :: "anchor_effect list \<Rightarrow> bool" where
  "finished_trace t \<longleftrightarrow> (\<exists>r. t = [EAnswer r]) \<or> (\<exists>k c hs r. t = EAcquire k c # hs @ [ERelease k, EAnswer r] \<and> called_once hs)"

definition legal_trace :: "anchor_wait option \<Rightarrow> anchor_effect list \<Rightarrow> bool" where
  "legal_trace w t = (case w of
     None \<Rightarrow> finished_trace t
   | Some (WaitSnapshot request) \<Rightarrow> t = []
   | Some (WaitReputation i assurance) \<Rightarrow> \<exists>c. t = [EAcquire (consumer_key i) c]
   | Some (WaitHandler i) \<Rightarrow> \<exists>c f x. t = [EAcquire (consumer_key i) c, EHandler f x])"

lemma stage_simps [simp]:
  "stage_wait (XWait w) = Some w" "stage_wait (XRespond r) = None" "stage_wait XThrow = None"
  "stage_trace (XWait w, es) = es" "stage_trace (XRespond r, es) = es @ [EAnswer (Some r)]" "stage_trace (XThrow, es) = es @ [EAnswer None]"
  by (simp_all add: stage_wait_def stage_trace_def)

lemma finish_simps [simp]:
  "finish_invoke i (XWait w, es) = (XWait w, es)" "finish_invoke i (XRespond r, es) = (XRespond r, es @ [ERelease (consumer_key i)])"
  by (simp_all add: finish_invoke_def)

lemma finished_single [simp]: "finished_trace [EAnswer r]"
  by (auto simp: finished_trace_def)

lemma finished_released: "called_once hs \<Longrightarrow> finished_trace (EAcquire k c # hs @ [ERelease k, EAnswer r])"
  by (auto simp: finished_trace_def)

lemma continue_legal:
  assumes "finish_invoke i (invoke_continue env rnd i) = (stage, es)"
  shows "legal_trace (stage_wait stage) (EAcquire (consumer_key i) c # stage_trace (stage, es))"
  using assms finished_released [of "[]"] finished_released [of "[EHandler f x]" for f x]
  by (auto simp: invoke_continue_def legal_trace_def called_once_def Let_def split: if_splits)

lemma decided_legal:
  assumes "invoke_decided env rnd d i = (stage, es)"
  shows "legal_trace (stage_wait stage) (EAcquire (consumer_key i) c # stage_trace (stage, es))"
proof (cases "d = None \<or> applyReputation (xe_opt env) (the d) \<noteq> None")
  case True
  with assms finished_released [of "[]"] show ?thesis
    by (auto simp: invoke_decided_def legal_trace_def called_once_def split: option.splits)
next
  case False
  with assms have "finish_invoke i (invoke_continue env rnd i) = (stage, es)" by (auto simp: invoke_decided_def)
  then show ?thesis by (rule continue_legal)
qed

lemma handled_legal:
  "\<exists>r. invoke_handled env a i = (XRespond r, [ERelease (consumer_key i)])"
  by (cases a) (auto simp: invoke_handled_def Let_def)

lemma query_stage: "fst (anchor_handleQuery env q fence) = XWait w \<Longrightarrow> \<exists>request. w = WaitSnapshot request"
  by (auto simp: anchor_handleQuery_def split: option.splits prod.splits if_splits sum.splits)

lemma subscribe_stage: "fst (anchor_handleSubscribe env rnd evs fin q fence) \<noteq> XWait w"
  by (auto simp: anchor_handleSubscribe_def split: option.splits prod.splits if_splits sum.splits)

lemma invoke_legal:
  assumes "anchor_handleInvoke env rate rnd q fence = ((stage, es), fence')"
  shows "legal_trace (stage_wait stage) (stage_trace (stage, es))"
proof -
  consider r where "stage = XRespond r" "es = []"
    | i a where "stage = XWait (WaitReputation i a)" "es = [EAcquire (consumer_key i) (opt_or 0 (aas_estimatedCgn (inv_spec i)))]"
    | i es' where "finish_invoke i (invoke_continue env rnd i) = (stage, es')" "es = EAcquire (consumer_key i) (opt_or 0 (aas_estimatedCgn (inv_spec i))) # es'"
    using assms by (auto simp: anchor_handleInvoke_def Let_def split: if_splits option.splits prod.splits sum.splits)
  then show ?thesis
  proof cases
    case (3 i es')
    have "stage_trace (stage, EAcquire k c # es') = EAcquire k c # stage_trace (stage, es')" for k c by (simp add: stage_trace_def)
    with 3 continue_legal [OF 3(1)] show ?thesis by simp
  qed (auto simp: legal_trace_def)
qed

lemma fetch_legal:
  assumes "anchor_fetch env w q fence = ((stage, es), fence')"
  shows "legal_trace (stage_wait stage) (stage_trace (stage, es))"
proof -
  let ?Q = "anchor_handleQuery env q fence"
  let ?S = "anchor_handleSubscribe env (snd (snd (xw_rnd w))) (xw_events w) (xw_end w) q fence"
  consider r where "stage = XRespond r" "es = []"
    | "anchor_handleInvoke env (xw_rate w) (xw_rnd w) q fence = ((stage, es), fence')"
    | "stage = fst ?Q" "es = []" | "stage = fst ?S" "es = []"
    using assms by (auto simp: anchor_fetch_def Let_def split: if_splits prod.splits)
  then show ?thesis
  proof cases
    case 1
    then show ?thesis by (simp add: legal_trace_def)
  next
    case 2
    then show ?thesis by (rule invoke_legal)
  next
    case 3
    show ?thesis
    proof (cases stage)
      case (XWait w')
      with 3 query_stage [of env q fence w'] obtain request where "w' = WaitSnapshot request" by auto
      with XWait 3 show ?thesis by (simp add: legal_trace_def)
    qed (use 3 in \<open>simp_all add: legal_trace_def\<close>)
  next
    case 4
    show ?thesis
    proof (cases stage)
      case (XWait w')
      with 4 subscribe_stage show ?thesis by metis
    qed (use 4 in \<open>simp_all add: legal_trace_def\<close>)
  qed
qed

definition trace_of :: "anchor_app \<Rightarrow> nat \<Rightarrow> anchor_effect list" where
  "trace_of s n = map snd (filter (\<lambda>(m, e). m = n) (xa_log s))"

definition anchor_inv :: "anchor_app \<Rightarrow> bool" where
  "anchor_inv s \<longleftrightarrow> (\<forall>n. if n < xa_next s then legal_trace (js_get (xa_pending s) n) (trace_of s n)
     else js_get (xa_pending s) n = None \<and> trace_of s n = [])"

lemma trace_fence [simp]: "trace_of (s\<lparr>xa_fence := f\<rparr>) n = trace_of s n"
  by (simp add: trace_of_def)

lemma filter_pairs: "map snd (filter (\<lambda>(m, e). m = n) (map (Pair k) es)) = (if k = n then es else [])"
  by (induction es) auto

lemma trace_settle: "trace_of (anchor_settle n x s) m = trace_of s m @ (if n = m then stage_trace x else [])"
  by (simp add: trace_of_def anchor_settle_def filter_pairs)

lemma pending_settle: "js_get (xa_pending (anchor_settle n x s)) m = (if m = n then stage_wait (fst x) else js_get (xa_pending s) m)"
  by (auto simp: anchor_settle_def js_get_set js_get_delete split: option.splits)

lemma settle_next [simp]: "xa_next (anchor_settle n x s) = xa_next s"
  by (simp add: anchor_settle_def)

lemma anchor_settle_inv:
  assumes "anchor_inv s" "n < xa_next s" "legal_trace (stage_wait (fst x)) (trace_of s n @ stage_trace x)"
  shows "anchor_inv (anchor_settle n x s)"
  using assms unfolding anchor_inv_def by (auto simp: trace_settle pending_settle)

lemma pending_known: "anchor_inv s \<Longrightarrow> js_get (xa_pending s) n = Some w \<Longrightarrow> n < xa_next s \<and> legal_trace (Some w) (trace_of s n)"
  unfolding anchor_inv_def by (metis option.distinct(1))

lemma anchor_step_inv: "anchor_inv s \<Longrightarrow> anchor_inv (anchor_step env s e)"
proof (cases e)
  case (XRequest w q)
  assume inv: "anchor_inv s"
  obtain stage es fence' where f: "anchor_fetch env w q (xa_fence s) = ((stage, es), fence')" by (metis surj_pair)
  let ?s = "s\<lparr>xa_fence := fence', xa_next := Suc (xa_next s)\<rparr>"
  have tr: "trace_of ?s n = trace_of s n" for n by (simp add: trace_of_def)
  have new: "trace_of s (xa_next s) = []" "js_get (xa_pending s) n = None" if "n \<ge> xa_next s" for n
    using inv that by (auto simp: anchor_inv_def split: if_splits)
  show ?thesis
    unfolding anchor_inv_def
  proof (intro allI)
    fix n
    have "anchor_step env s e = anchor_settle (xa_next s) (stage, es) ?s" by (simp add: XRequest f)
    then show "if n < xa_next (anchor_step env s e) then legal_trace (js_get (xa_pending (anchor_step env s e)) n) (trace_of (anchor_step env s e) n)
       else js_get (xa_pending (anchor_step env s e)) n = None \<and> trace_of (anchor_step env s e) n = []"
      using fetch_legal [OF f] new(1) inv by (auto simp: anchor_inv_def trace_settle pending_settle tr less_Suc_eq split: if_splits)
  qed
next
  case (XSnapshot n a)
  assume inv: "anchor_inv s"
  show ?thesis
  proof (cases "\<exists>request. js_get (xa_pending s) n = Some (WaitSnapshot request)")
    case True
    then obtain request where p: "js_get (xa_pending s) n = Some (WaitSnapshot request)" by auto
    from pending_known [OF inv p] have "n < xa_next s" "trace_of s n = []" by (simp_all add: legal_trace_def)
    moreover have "legal_trace (stage_wait (query_answered fence a)) (stage_trace (query_answered fence a, []))" for fence
      by (cases a) (simp_all add: query_answered_def legal_trace_def Let_def)
    ultimately show ?thesis using anchor_settle_inv [OF inv, of n] by (simp add: XSnapshot p)
  next
    case False
    with inv show ?thesis by (auto simp: XSnapshot split: option.splits anchor_wait.splits)
  qed
next
  case (XDecision n rnd d)
  assume inv: "anchor_inv s"
  show ?thesis
  proof (cases "\<exists>i a. js_get (xa_pending s) n = Some (WaitReputation i a)")
    case True
    then obtain i a where p: "js_get (xa_pending s) n = Some (WaitReputation i a)" by auto
    from pending_known [OF inv p] obtain c where n: "n < xa_next s" "trace_of s n = [EAcquire (consumer_key i) c]" by (auto simp: legal_trace_def)
    obtain stage es where d: "invoke_decided env rnd d i = (stage, es)" by (metis surj_pair)
    show ?thesis using anchor_settle_inv [OF inv n(1), of "(stage, es)"] decided_legal [OF d, of c] by (simp add: XDecision p d n(2))
  next
    case False
    with inv show ?thesis by (auto simp: XDecision split: option.splits anchor_wait.splits)
  qed
next
  case (XResult n a)
  assume inv: "anchor_inv s"
  show ?thesis
  proof (cases "\<exists>i. js_get (xa_pending s) n = Some (WaitHandler i)")
    case True
    then obtain i where p: "js_get (xa_pending s) n = Some (WaitHandler i)" by auto
    from pending_known [OF inv p] obtain c f x where n: "n < xa_next s" "trace_of s n = [EAcquire (consumer_key i) c, EHandler f x]"
      by (auto simp: legal_trace_def)
    obtain r where r: "invoke_handled env a i = (XRespond r, [ERelease (consumer_key i)])" using handled_legal by blast
    have "finished_trace (EAcquire (consumer_key i) c # [EHandler f x] @ [ERelease (consumer_key i), EAnswer (Some r)])"
      by (rule finished_released) (simp add: called_once_def)
    then show ?thesis using anchor_settle_inv [OF inv n(1), of "(XRespond r, [ERelease (consumer_key i)])"] by (simp add: XResult p r n(2) legal_trace_def)
  next
    case False
    with inv show ?thesis by (auto simp: XResult split: option.splits anchor_wait.splits)
  qed
next
  case (XHost e)
  assume "anchor_inv s"
  then show ?thesis by (simp add: XHost anchor_inv_def)
qed

interpretation anchor: invariant_machine "anchor_step env" anchor_inv for env
  by unfold_locales (rule anchor_step_inv)

lemma anchor_init_inv: "anchor_inv (anchor_init fence)"
  by (simp add: anchor_inv_def anchor_init_def trace_of_def)


text \<open>C19: Over every interleaving of requests, answers of the topology service, the evaluator and the handler, and changes of the fence: a request that is
  finished was answered exactly once, and gave back to the limiter exactly what it had acquired, under the same key; its handler was called
  at most once, between the two. A request in progress has done exactly what its stage says.\<close>

theorem anchor_request_lifecycle:
  assumes "n < xa_next (run (anchor_step env) (anchor_init fence) es)"
  shows "legal_trace (js_get (xa_pending (run (anchor_step env) (anchor_init fence) es)) n) (trace_of (run (anchor_step env) (anchor_init fence) es) n)"
  using anchor.run_inv [OF anchor_init_inv, of env fence es] assms by (auto simp: anchor_inv_def)

section \<open>The fence\<close>

definition gate_event :: "anchor_app_env \<Rightarrow> anchor_request \<Rightarrow> fence_event option" where
  "gate_event env q =
     (let sub = drop (length (anchor_prefix (xe_opt env))) (xq_path q); inbound = FInbound (Some (readInboundEpoch env q (xq_body q))) in
      if \<not> js_startsWith (xq_path q) (anchor_prefix (xe_opt env)) \<or> sub \<notin> set KNOWN_ROUTES
        \<or> unauthenticated env q \<or> sub \<in> {''/.nwm'', ''/.nwm/''} \<or> sub \<in> {''/.schema'', ''/.schema/'', ''/actions'', ''/actions/''}
        \<or> xq_method q \<noteq> ''POST'' \<or> xq_body q = None then None
      else if sub \<in> {''/invoke'', ''/invoke/''} then (if xq_body q = Some JNull then None else Some (inbound True))
      else if checkTopologyCapability env q = None then Some (inbound False) else None)"

definition anchor_fence_events :: "anchor_app_env \<Rightarrow> anchor_event list \<Rightarrow> fence_event list" where
  "anchor_fence_events env es = concat (map (\<lambda>e. case e of
     XRequest w q \<Rightarrow> (case gate_event env q of None \<Rightarrow> [] | Some g \<Rightarrow> [g]) | XHost g \<Rightarrow> [g] | _ \<Rightarrow> []) es)"

lemma applyFence_step:
  "snd (applyFence env q b fence) = map_option (\<lambda>f. fence_step f (FInbound (Some (readInboundEpoch env q (xq_body q))) b)) fence"
  by (auto simp: applyFence_def split: option.splits prod.splits)

lemma query_fence:
  "snd (anchor_handleQuery env q fence) = (if checkTopologyCapability env q = None \<and> xq_body q \<noteq> None then snd (applyFence env q False fence) else fence)"
  by (auto simp: anchor_handleQuery_def split: option.splits prod.splits)

lemma subscribe_fence:
  "snd (anchor_handleSubscribe env rnd evs fin q fence) =
     (if checkTopologyCapability env q = None \<and> xq_body q \<noteq> None then snd (applyFence env q False fence) else fence)"
  by (auto simp: anchor_handleSubscribe_def split: option.splits prod.splits)

lemma invoke_fence:
  "snd (anchor_handleInvoke env rate rnd q fence) =
     (if xq_body q = None \<or> xq_body q = Some JNull then fence else snd (applyFence env q True fence))"
  by (auto simp: anchor_handleInvoke_def Let_def split: option.splits prod.splits)

lemma fetch_fence:
  "snd (anchor_fetch env w q fence) = (case gate_event env q of None \<Rightarrow> fence | Some e \<Rightarrow> map_option (\<lambda>f. fence_step f e) fence)"
proof -
  note d = anchor_fetch_def gate_event_def Let_def invoke_fence applyFence_step split_beta query_fence subscribe_fence
  show ?thesis
    by (cases "xq_body q"; cases "unauthenticated env q"; cases "checkTopologyCapability env q") (simp_all add: d del: fence_step.simps)
qed

text \<open>The fence of the application is the fence machine, run on the inbound epochs and the host's calls.\<close>

lemma anchor_fence_refines:
  "xa_fence (run (anchor_step env) s es) = map_option (\<lambda>f. run fence_step f (anchor_fence_events env es)) (xa_fence s)"
proof (induction es arbitrary: s)
  case Nil
  then show ?case by (simp add: anchor_fence_events_def option.map_ident)
next
  case (Cons e es)
  have settle_fence: "xa_fence (anchor_settle n x s') = xa_fence s'" for n x s' by (simp add: anchor_settle_def)
  have step: "xa_fence (anchor_step env s e) = map_option (\<lambda>f. run fence_step f (anchor_fence_events env [e])) (xa_fence s)"
  proof (cases e)
    case (XRequest w q)
    have "xa_fence (anchor_step env s e) = snd (anchor_fetch env w q (xa_fence s))" by (simp add: XRequest settle_fence split_beta)
    then show ?thesis by (simp add: XRequest fetch_fence anchor_fence_events_def option.map_ident del: fence_step.simps split: option.splits)
  qed (auto simp: settle_fence anchor_fence_events_def option.map_ident simp del: fence_step.simps split: option.splits anchor_wait.splits)
  have "anchor_fence_events env (e # es) = anchor_fence_events env [e] @ anchor_fence_events env es" by (simp add: anchor_fence_events_def)
  then show ?case by (simp add: Cons.IH step option.map_comp comp_def)
qed

lemma fetch_effects:
  assumes "anchor_fetch env w q fence = ((stage, effects), fence')" "effects \<noteq> []"
  shows "fst (applyFence env q True fence) = None"
proof -
  have "anchor_handleInvoke env (xw_rate w) (xw_rnd w) q fence = ((stage, effects), fence')"
    using assms by (auto simp: anchor_fetch_def Let_def split: if_splits prod.splits)
  with assms(2) show ?thesis by (auto simp: anchor_handleInvoke_def split: if_splits option.splits prod.splits)
qed


text \<open>The leader check is not repeated after the reputation lookup: an invocation that waits for it reaches the handler although the anchor has been
  deposed in the meantime.\<close>

theorem deposed_anchor_executes:
  fixes rnd :: "string \<times> string \<times> string"
  assumes "js_get (xa_pending s) n = Some (WaitReputation i assurance)" "xa_fence s = Some f" "e > ef_ownEpoch f"
    and "xe_handler env" "inv_budget i \<le> 0" "rd_outcome d = Accept"
  defines "s' \<equiv> run (anchor_step env) s [XHost (FInbound (Some \<lparr>if_cluster_epoch = Some e, if_sender_anchor_nid = None\<rparr>) False), XDecision n rnd (Some d)]"
  shows "(\<exists>f'. xa_fence s' = Some f' \<and> ef_role f' = Standby) \<and> EHandler (inv_frame i) (invoke_context env rnd i) \<in> set (trace_of s' n)"
proof -
  have "EHandler (inv_frame i) (invoke_context env rnd i) \<in> set (stage_trace (invoke_decided env rnd (Some d) i))"
    using assms(4-6) by (auto simp: invoke_decided_def applyReputation_def invoke_continue_def Let_def)
  moreover have "inbound_epoch (Some \<lparr>if_cluster_epoch = Some e, if_sender_anchor_nid = None\<rparr>) = e" by (simp add: inbound_epoch_def)
  ultimately show ?thesis
    using assms(1-3) by (simp add: s'_def trace_settle) (simp add: anchor_settle_def onInboundFrame_def ef_emit_def)
qed

text \<open>The client of this package sends no \<open>X-NWP-Agent\<close> header, and the server requires it unless told otherwise.\<close>

lemma client_unauthorized:
  assumes "xo_requireAuth (xe_opt env) = None" "xq_path q = anchor_prefix (xe_opt env) @ ''/query''" "xq_header q ''x-nwp-agent'' = None"
  shows "anchor_fetch env w q fence = ((XRespond (anchor_err 401 ''NPS-AUTH-UNAUTHENTICATED'' ''NWP-AUTH-NID-SCOPE-VIOLATION''), []), fence)"
  using assms by (simp add: anchor_fetch_def Let_def KNOWN_ROUTES_def unauthenticated_def xo_auth_def opt_or_def)


section \<open>Examples\<close>

definition demo_anchor_env :: anchor_app_env where
  "demo_anchor_env = \<lparr>xe_opt = \<lparr>xo_nodeId = ''urn:nps:node:a'', xo_pathPrefix = ''/a'', xo_actions = [(''run'', empty_anchor_spec)], xo_displayName = None,
     xo_requireAuth = None, xo_requiredCapabilities = None, xo_requireTopologyCapability = None, xo_defaultTimeoutMs = None, xo_maxTimeoutMs = None,
     xo_defaultTokenBudget = None, xo_cgnLimit = None, xo_assuranceHintUrl = None, xo_reputationPolicy = None, xo_trustAnchors = None, xo_rateLimits = None,
     xo_autoInjectTraceContext = None\<rparr>, xe_Number = \<lambda>s. None, xe_parseJson = \<lambda>s. None, xe_numStr = \<lambda>n. [], xe_handler = True, xe_topology = True,
     xe_evaluator = False\<rparr>"

definition demo_invoke :: anchor_request where
  "demo_invoke = \<lparr>xq_method = ''POST'', xq_path = ''/a/invoke'', xq_header = (\<lambda>h. if h = ''x-nwp-agent'' then Some ''urn:b'' else None),
     xq_body = Some (JObj [(''action_id'', JStr ''run'')])\<rparr>"

definition demo_world :: anchor_world where
  "demo_world = \<lparr>xw_rate = allow_all, xw_rnd = (''t'', ''s'', ''id''), xw_events = [], xw_end = StreamDone\<rparr>"

definition demo_fence :: AnchorEpochFence where
  "demo_fence = \<lparr>ef_anchorNid = ''urn:x'', ef_ownEpoch = 1, ef_role = Active, ef_degraded = False, ef_highestObserved = 1, ef_effects = []\<rparr>"

lemmas demo_defs = demo_anchor_env_def demo_invoke_def demo_world_def anchor_fetch_def anchor_handleInvoke_def anchor_prefix_def js_startsWith_def KNOWN_ROUTES_def
  unauthenticated_def applyFence_def anchor_admit_def invoke_frame_def present_def js_member_def jo_get_def find_anchor_spec_def js_get_def empty_anchor_spec_def
  allow_all_def policy_enabled_def invoke_continue_def opt_or_def xo_auth_def finish_invoke_def

lemma demo_fetch:
  "\<exists>i es. anchor_fetch demo_anchor_env demo_world demo_invoke (Some demo_fence) = ((XWait (WaitHandler i), EAcquire ''urn:b'' 0 # es), Some demo_fence)"
  by (simp add: demo_defs Let_def onInboundFrame_def inbound_epoch_def readInboundEpoch_def demo_fence_def ef_isActive_def
      readEffectiveBudget_def xo_limit_def consumer_key_def)

lemma demo_fence_new: "fence_new ''urn:x'' None None None = Some demo_fence"
  by (simp add: fence_new_def demo_fence_def)


theorem anchor_request_lifecycle_witness:
  "finished_trace (trace_of (run (anchor_step demo_anchor_env) (anchor_init (Some demo_fence)) [XRequest demo_world demo_invoke, XResult 0 (HandlerOk None)]) 0)"
proof -
  let ?es = "[XRequest demo_world demo_invoke, XResult 0 (HandlerOk None)]"
  let ?s = "run (anchor_step demo_anchor_env) (anchor_init (Some demo_fence)) ?es"
  obtain i es where f: "anchor_fetch demo_anchor_env demo_world demo_invoke (Some demo_fence) = ((XWait (WaitHandler i), EAcquire ''urn:b'' 0 # es), Some demo_fence)"
    using demo_fetch by blast
  obtain r where r: "invoke_handled demo_anchor_env (HandlerOk None) i = (XRespond r, [ERelease (consumer_key i)])" using handled_legal by blast
  have s: "0 < xa_next ?s" "js_get (xa_pending ?s) 0 = None"
    by (simp_all add: f r anchor_init_def pending_settle)
  from anchor_request_lifecycle [OF s(1)] s(2) show ?thesis by (simp only: legal_trace_def option.case)
qed

theorem deposed_anchor_executes_witness:
  "\<exists>s i d. js_get (xa_pending s) 0 = Some (WaitReputation i ANONYMOUS) \<and>
     EHandler (inv_frame i) (invoke_context demo_anchor_env ([], [], []) i) \<in> set (trace_of (run (anchor_step demo_anchor_env) s
       [XHost (FInbound (Some \<lparr>if_cluster_epoch = Some 2, if_sender_anchor_nid = None\<rparr>) False), XDecision 0 ([], [], []) (Some d)]) 0)"
proof -
  define i where "i = \<lparr>inv_frame = invoke_frame (\<lambda>n. []) (JObj [(''action_id'', JStr ''run'')]), inv_spec = empty_anchor_spec, inv_agent = None,
    inv_timeout = 5, inv_budget = 0\<rparr>"
  define s where "s = \<lparr>xa_fence = Some demo_fence, xa_next = 1, xa_pending = [(0, WaitReputation i ANONYMOUS)],
    xa_log = [(0, EAcquire ''anonymous'' 0)]\<rparr>"
  have p: "js_get (xa_pending s) 0 = Some (WaitReputation i ANONYMOUS)" by (simp add: s_def js_get_def)
  have "xa_fence s = Some demo_fence" "(2 :: rat) > ef_ownEpoch demo_fence" "xe_handler demo_anchor_env" "inv_budget i \<le> 0"
    by (simp_all add: s_def demo_fence_def demo_anchor_env_def i_def)
  moreover have "rd_outcome \<lparr>rd_outcome = Accept, rd_matchedRule = None, rd_errorCode = None\<rparr> = Accept" by simp
  ultimately have "EHandler (inv_frame i) (invoke_context demo_anchor_env ([], [], []) i) \<in> set (trace_of (run (anchor_step demo_anchor_env) s
      [XHost (FInbound (Some \<lparr>if_cluster_epoch = Some 2, if_sender_anchor_nid = None\<rparr>) False),
       XDecision 0 ([], [], []) (Some \<lparr>rd_outcome = Accept, rd_matchedRule = None, rd_errorCode = None\<rparr>)]) 0)"
    by (rule conjunct2 [OF deposed_anchor_executes [OF p]])
  with p show ?thesis by blast
qed

end
