(* ===== verification/WireFrames.thy ===== *)
theory WireFrames
  imports NcpFrames "HOL-Library.Monad_Syntax"
begin

text \<open>
  The frames of NCP, NDP and NOP and their wire dictionaries: \<open>ncp/frames.ts\<close>, \<open>ndp/frames.ts\<close>, \<open>nop/frames.ts\<close>. \<open>toDict\<close> is a function to
  JSON objects. \<open>fromDict\<close> casts the members of a dictionary without looking at them; it is modelled for the dictionaries whose members have the
  declared types, and is \<open>None\<close> for others, for which the code would build a frame that breaks its own types. Where a constructor
  validates its arguments, the error is a value.

  Proved: every frame is read back from its dictionary, up to the defaults that \<open>toDict\<close> writes, and reading back never changes the dictionary; the
  signed body of an announcement does not depend on its liveness members; a graph frame is accepted exactly when it is
  within its limits and its edges connect different known nodes.
\<close>

section \<open>Reading members\<close>

definition as_str :: "jsval \<Rightarrow> string option" where
  "as_str v = (case v of JStr s \<Rightarrow> Some s | _ \<Rightarrow> None)"

definition as_num :: "jsval \<Rightarrow> rat option" where
  "as_num v = (case v of JNum n \<Rightarrow> Some n | _ \<Rightarrow> None)"

definition as_bool :: "jsval \<Rightarrow> bool option" where
  "as_bool v = (case v of JBool b \<Rightarrow> Some b | _ \<Rightarrow> None)"

definition as_obj :: "jsval \<Rightarrow> jsobj option" where
  "as_obj v = (case v of JObj d \<Rightarrow> Some d | _ \<Rightarrow> None)"

fun as_all :: "(jsval \<Rightarrow> 'a option) \<Rightarrow> jsval list \<Rightarrow> 'a list option" where
  "as_all f [] = Some []"
| "as_all f (v # vs) = do { x \<leftarrow> f v; xs \<leftarrow> as_all f vs; Some (x # xs) }"

definition as_list :: "(jsval \<Rightarrow> 'a option) \<Rightarrow> jsval \<Rightarrow> 'a list option" where
  "as_list f v = (case v of JArr vs \<Rightarrow> as_all f vs | _ \<Rightarrow> None)"

definition as_strs :: "jsval \<Rightarrow> string list option" where "as_strs = as_list as_str"

text \<open>A required member; an optional one, for which \<open>null\<close> counts as absent; and one with a default.\<close>

definition req :: "(jsval \<Rightarrow> 'a option) \<Rightarrow> jsval option \<Rightarrow> 'a option" where
  "req f v = Option.bind v f"

definition opt :: "(jsval \<Rightarrow> 'a option) \<Rightarrow> jsval option \<Rightarrow> 'a option option" where
  "opt f v = (case v of None \<Rightarrow> Some None | Some JNull \<Rightarrow> Some None | Some w \<Rightarrow> map_option Some (f w))"

definition dflt :: "(jsval \<Rightarrow> 'a option) \<Rightarrow> 'a \<Rightarrow> jsval option \<Rightarrow> 'a option" where
  "dflt f d v = map_option (\<lambda>x. case x of None \<Rightarrow> d | Some y \<Rightarrow> y) (opt f v)"

text \<open>\<open>a ?? b\<close> on members.\<close>

definition first_of :: "jsval option \<Rightarrow> jsval option \<Rightarrow> jsval option" where
  "first_of a b = (case a of None \<Rightarrow> b | Some JNull \<Rightarrow> b | Some v \<Rightarrow> Some v)"

text \<open>\<open>x ?? null\<close> on the way out, and a member that is left out when absent.\<close>

definition or_null :: "('a \<Rightarrow> jsval) \<Rightarrow> 'a option \<Rightarrow> jsval" where
  "or_null enc x = (case x of None \<Rightarrow> JNull | Some v \<Rightarrow> enc v)"

definition member_if :: "string \<Rightarrow> ('a \<Rightarrow> jsval) \<Rightarrow> 'a option \<Rightarrow> jsobj" where
  "member_if name enc x = (case x of None \<Rightarrow> [] | Some v \<Rightarrow> [(name, enc v)])"

definition str_array :: "string list \<Rightarrow> jsval" where "str_array xs = JArr (map JStr xs)"

named_theorems wire

lemma jo_get_Cons [wire]: "jo_get ((k, v) # d) x = (if x = k then Some v else jo_get d x)"
  by (simp add: jo_get_def)

lemma jo_get_Nil [wire]: "jo_get [] x = None"
  by (simp add: jo_get_def)

definition or_opt :: "'a option \<Rightarrow> 'a option \<Rightarrow> 'a option" where
  "or_opt a b = (case a of None \<Rightarrow> b | Some x \<Rightarrow> Some x)"

lemma or_opt_None [wire]: "or_opt a None = a"
  by (cases a) (simp_all add: or_opt_def)

lemma jo_get_member_if [wire]: "jo_get (member_if k enc o' @ d) x = (if x = k then or_opt (map_option enc o') (jo_get d x) else jo_get d x)"
  by (cases o') (auto simp: member_if_def jo_get_def or_opt_def)

lemma jo_get_member_last [wire]: "jo_get (member_if k enc o') x = (if x = k then map_option enc o' else None)"
  by (cases o') (auto simp: member_if_def jo_get_def)

lemma as_all_map: "(\<And>x. f (enc x) = Some x) \<Longrightarrow> as_all f (map enc xs) = Some xs"
  by (induction xs) auto

text \<open>A reader undoes a writer that never writes \<open>null\<close>.\<close>

definition undoes :: "(jsval \<Rightarrow> 'a option) \<Rightarrow> ('a \<Rightarrow> jsval) \<Rightarrow> bool" where
  "undoes dec enc \<longleftrightarrow> (\<forall>x. dec (enc x) = Some x \<and> enc x \<noteq> JNull)"

lemma undoesI: "(\<And>x. dec (enc x) = Some x) \<Longrightarrow> (\<And>x. enc x \<noteq> JNull) \<Longrightarrow> undoes dec enc"
  by (simp add: undoes_def)

lemma undoes_basic [simp, intro]: "undoes as_str JStr" "undoes as_num JNum" "undoes as_bool JBool" "undoes as_obj JObj" "undoes as_strs str_array"
  by (simp_all add: undoes_def as_str_def as_num_def as_bool_def as_obj_def as_strs_def as_list_def str_array_def as_all_map)

lemma undoes_list: "undoes dec enc \<Longrightarrow> undoes (as_list dec) (\<lambda>xs. JArr (map enc xs))"
  by (simp add: undoes_def as_list_def as_all_map)

lemma req_undo [wire]: "undoes dec enc \<Longrightarrow> req dec (Some (enc x)) = Some x"
  by (simp add: req_def undoes_def)

lemma opt_value: "v \<noteq> JNull \<Longrightarrow> opt dec (Some v) = map_option Some (dec v)"
  by (cases v) (simp_all add: opt_def)

lemma opt_undo [wire]: "undoes dec enc \<Longrightarrow> opt dec (map_option enc x) = Some x"
  by (cases x) (auto simp: opt_value undoes_def, simp add: opt_def)

lemma opt_undo_null [wire]: "undoes dec enc \<Longrightarrow> opt dec (Some (or_null enc x)) = Some x"
  by (cases x) (auto simp: or_null_def opt_value undoes_def, simp add: opt_def)

lemma dflt_undo [wire]: "undoes dec enc \<Longrightarrow> dflt dec d (Some (enc x)) = Some x"
  using opt_undo [of dec enc "Some x"] by (simp add: dflt_def)

lemma opt_null [wire]: "opt dec (Some JNull) = Some None" "opt dec None = Some None"
  by (simp_all add: opt_def)

lemma first_of_value: "v \<noteq> JNull \<Longrightarrow> first_of (Some v) b = Some v"
  by (cases v) (simp_all add: first_of_def)

lemma req_first_of [wire]: "undoes dec enc \<Longrightarrow> req dec (first_of (Some (enc x)) b) = Some x"
  by (simp add: undoes_def first_of_value req_def)

lemma opt_first_of [wire]: "undoes dec enc \<Longrightarrow> opt dec (first_of (map_option enc x) None) = Some x"
  by (cases x) (simp_all add: undoes_def first_of_value opt_value, simp add: first_of_def opt_def)

lemma opt_first_of_value [wire]: "undoes dec enc \<Longrightarrow> opt dec (first_of (Some (enc x)) b) = Some (Some x)"
  by (simp add: undoes_def first_of_value opt_value)

section \<open>ncp/frames.ts\<close>

record SchemaField =
  sch_name :: string
  sch_type :: string
  sch_semantic :: "string option"
  sch_nullable :: "bool option"

definition anchor_schema_field :: "SchemaField \<Rightarrow> jsval" where
  "anchor_schema_field f = JObj ([(''name'', JStr (sch_name f)), (''type'', JStr (sch_type f))] @
     member_if ''semantic'' JStr (sch_semantic f) @ member_if ''nullable'' JBool (sch_nullable f))"

definition as_schema_field :: "jsval \<Rightarrow> SchemaField option" where
  "as_schema_field v = do {
     d \<leftarrow> as_obj v;
     n \<leftarrow> req as_str (jo_get d ''name'');
     t \<leftarrow> req as_str (jo_get d ''type'');
     s \<leftarrow> opt as_str (jo_get d ''semantic'');
     u \<leftarrow> opt as_bool (jo_get d ''nullable'');
     Some \<lparr>sch_name = n, sch_type = t, sch_semantic = s, sch_nullable = u\<rparr> }"

definition schema_fields :: "SchemaField list \<Rightarrow> jsval" where "schema_fields fs = JArr (map anchor_schema_field fs)"

record AnchorFrame =
  anf_anchorId :: string
  anf_schema :: "SchemaField list"
  anf_ttl :: rat

definition AnchorFrame_toDict :: "AnchorFrame \<Rightarrow> jsobj" where
  "AnchorFrame_toDict f = [(''anchor_id'', JStr (anf_anchorId f)), (''schema'', JObj [(''fields'', schema_fields (anf_schema f))]), (''ttl'', JNum (anf_ttl f))]"

definition AnchorFrame_fromDict :: "jsobj \<Rightarrow> AnchorFrame option" where
  "AnchorFrame_fromDict data = do {
     s \<leftarrow> req as_obj (jo_get data ''schema'');
     fs \<leftarrow> req (as_list as_schema_field) (jo_get s ''fields'');
     i \<leftarrow> req as_str (jo_get data ''anchor_id'');
     t \<leftarrow> dflt as_num 3600 (jo_get data ''ttl'');
     Some \<lparr>anf_anchorId = i, anf_schema = fs, anf_ttl = t\<rparr> }"

record JsonPatchOperation =
  jpo_op :: string
  jpo_path :: string
  jpo_value :: "jsval option"

definition patch_op :: "JsonPatchOperation \<Rightarrow> jsval" where
  "patch_op p = JObj ([(''op'', JStr (jpo_op p)), (''path'', JStr (jpo_path p))] @ member_if ''value'' (\<lambda>v. v) (jpo_value p))"

definition as_patch_op :: "jsval \<Rightarrow> JsonPatchOperation option" where
  "as_patch_op v = do {
     d \<leftarrow> as_obj v;
     x \<leftarrow> req as_str (jo_get d ''op'');
     p \<leftarrow> req as_str (jo_get d ''path'');
     Some \<lparr>jpo_op = x, jpo_path = p, jpo_value = jo_get d ''value''\<rparr> }"

definition patch_ops :: "JsonPatchOperation list \<Rightarrow> jsval" where "patch_ops ps = JArr (map patch_op ps)"

record DiffFrame =
  dif_anchorRef :: string
  dif_baseSeq :: rat
  dif_patch :: "JsonPatchOperation list"
  dif_entityId :: "string option"

definition DiffFrame_toDict :: "DiffFrame \<Rightarrow> jsobj" where
  "DiffFrame_toDict f = [(''anchor_ref'', JStr (dif_anchorRef f)), (''base_seq'', JNum (dif_baseSeq f)), (''patch'', patch_ops (dif_patch f)),
     (''entity_id'', or_null JStr (dif_entityId f))]"

definition DiffFrame_fromDict :: "jsobj \<Rightarrow> DiffFrame option" where
  "DiffFrame_fromDict data = do {
     a \<leftarrow> req as_str (jo_get data ''anchor_ref'');
     b \<leftarrow> req as_num (jo_get data ''base_seq'');
     p \<leftarrow> req (as_list as_patch_op) (jo_get data ''patch'');
     e \<leftarrow> opt as_str (jo_get data ''entity_id'');
     Some \<lparr>dif_anchorRef = a, dif_baseSeq = b, dif_patch = p, dif_entityId = e\<rparr> }"

definition row_array :: "jsobj list \<Rightarrow> jsval" where "row_array rs = JArr (map JObj rs)"

definition StreamFrame_fromDict :: "jsobj \<Rightarrow> StreamFrame option" where
  "StreamFrame_fromDict data = do {
     i \<leftarrow> req as_str (jo_get data ''stream_id'');
     s \<leftarrow> req as_num (jo_get data ''seq'');
     l \<leftarrow> req as_bool (jo_get data ''is_last'');
     d \<leftarrow> req (as_list as_obj) (jo_get data ''data'');
     a \<leftarrow> opt as_str (jo_get data ''anchor_ref'');
     w \<leftarrow> opt as_num (jo_get data ''window_size'');
     e \<leftarrow> opt as_str (jo_get data ''error_code'');
     Some \<lparr>stf_streamId = i, stf_seq = s, stf_isLast = l, stf_data = d, stf_anchorRef = a, stf_windowSize = w, stf_errorCode = e\<rparr> }"

record CapsFrame =
  cap_anchorRef :: string
  cap_count :: rat
  cap_data :: "jsobj list"
  cap_nextCursor :: "string option"
  cap_tokenEst :: "rat option"
  cap_cached :: "bool option"
  cap_tokenizerUsed :: "string option"
  cap_requestId :: "string option"

definition CapsFrame_toDict :: "CapsFrame \<Rightarrow> jsobj" where
  "CapsFrame_toDict f = [(''anchor_ref'', JStr (cap_anchorRef f)), (''count'', JNum (cap_count f)), (''data'', row_array (cap_data f)),
     (''next_cursor'', or_null JStr (cap_nextCursor f)), (''token_est'', or_null JNum (cap_tokenEst f)), (''cached'', or_null JBool (cap_cached f)),
     (''tokenizer_used'', or_null JStr (cap_tokenizerUsed f)), (''request_id'', or_null JStr (cap_requestId f))]"

definition CapsFrame_fromDict :: "jsobj \<Rightarrow> CapsFrame option" where
  "CapsFrame_fromDict data = do {
     a \<leftarrow> req as_str (jo_get data ''anchor_ref'');
     c \<leftarrow> req as_num (jo_get data ''count'');
     d \<leftarrow> req (as_list as_obj) (jo_get data ''data'');
     n \<leftarrow> opt as_str (jo_get data ''next_cursor'');
     t \<leftarrow> opt as_num (jo_get data ''token_est'');
     h \<leftarrow> opt as_bool (jo_get data ''cached'');
     z \<leftarrow> opt as_str (jo_get data ''tokenizer_used'');
     r \<leftarrow> opt as_str (jo_get data ''request_id'');
     Some \<lparr>cap_anchorRef = a, cap_count = c, cap_data = d, cap_nextCursor = n, cap_tokenEst = t, cap_cached = h, cap_tokenizerUsed = z, cap_requestId = r\<rparr> }"

record ErrorFrame =
  err_status :: string
  err_error :: string
  err_message :: "string option"
  err_details :: "jsobj option"

definition ErrorFrame_toDict :: "ErrorFrame \<Rightarrow> jsobj" where
  "ErrorFrame_toDict f = [(''status'', JStr (err_status f)), (''error'', JStr (err_error f)), (''message'', or_null JStr (err_message f)),
     (''details'', or_null JObj (err_details f))]"

definition ErrorFrame_fromDict :: "jsobj \<Rightarrow> ErrorFrame option" where
  "ErrorFrame_fromDict data = do {
     s \<leftarrow> req as_str (jo_get data ''status'');
     e \<leftarrow> req as_str (jo_get data ''error'');
     m \<leftarrow> opt as_str (jo_get data ''message'');
     d \<leftarrow> opt as_obj (jo_get data ''details'');
     Some \<lparr>err_status = s, err_error = e, err_message = m, err_details = d\<rparr> }"

record HelloFrame =
  hel_npsVersion :: string
  hel_supportedEncodings :: "string list"
  hel_supportedProtocols :: "string list"
  hel_minVersion :: "string option"
  hel_agentId :: "string option"
  hel_maxFramePayload :: rat
  hel_extSupport :: bool
  hel_maxConcurrentStreams :: rat
  hel_e2eEncAlgorithms :: "string list option"
  hel_pingIntervalMs :: rat

definition HelloFrame_toDict :: "HelloFrame \<Rightarrow> jsobj" where
  "HelloFrame_toDict f = [(''nps_version'', JStr (hel_npsVersion f)), (''supported_encodings'', str_array (hel_supportedEncodings f)),
     (''supported_protocols'', str_array (hel_supportedProtocols f)), (''min_version'', or_null JStr (hel_minVersion f)),
     (''agent_id'', or_null JStr (hel_agentId f)), (''max_frame_payload'', JNum (hel_maxFramePayload f)), (''ext_support'', JBool (hel_extSupport f)),
     (''max_concurrent_streams'', JNum (hel_maxConcurrentStreams f)), (''e2e_enc_algorithms'', or_null str_array (hel_e2eEncAlgorithms f)),
     (''ping_interval_ms'', JNum (hel_pingIntervalMs f))]"

definition HelloFrame_fromDict :: "jsobj \<Rightarrow> HelloFrame option" where
  "HelloFrame_fromDict data = do {
     v \<leftarrow> req as_str (jo_get data ''nps_version'');
     e \<leftarrow> dflt as_strs [] (jo_get data ''supported_encodings'');
     p \<leftarrow> dflt as_strs [] (jo_get data ''supported_protocols'');
     m \<leftarrow> opt as_str (jo_get data ''min_version'');
     a \<leftarrow> opt as_str (jo_get data ''agent_id'');
     x \<leftarrow> dflt as_num 65535 (jo_get data ''max_frame_payload'');
     s \<leftarrow> dflt as_bool False (jo_get data ''ext_support'');
     c \<leftarrow> dflt as_num 32 (jo_get data ''max_concurrent_streams'');
     g \<leftarrow> opt as_strs (jo_get data ''e2e_enc_algorithms'');
     i \<leftarrow> dflt as_num 0 (jo_get data ''ping_interval_ms'');
     Some \<lparr>hel_npsVersion = v, hel_supportedEncodings = e, hel_supportedProtocols = p, hel_minVersion = m, hel_agentId = a, hel_maxFramePayload = x,
       hel_extSupport = s, hel_maxConcurrentStreams = c, hel_e2eEncAlgorithms = g, hel_pingIntervalMs = i\<rparr> }"

text \<open>A payload of any type: \<open>null\<close> is no payload.\<close>

definition as_any :: "jsval \<Rightarrow> jsval option" where "as_any v = Some v"

record NcpHandshakeCapsFrame =
  nhc_nodeId :: string
  nhc_caps :: "string list"
  nhc_negotiatedEncoding :: "string option"
  nhc_enabledEncodings :: "string list option"
  nhc_anchorRef :: "string option"
  nhc_payload :: "jsval option"
  nhc_sessionVersion :: "string option"
  nhc_supportedProtocols :: "string list option"
  nhc_maxFramePayload :: "rat option"
  nhc_extSupport :: "bool option"
  nhc_maxConcurrentStreams :: "rat option"

definition NcpHandshakeCapsFrame_toDict :: "NcpHandshakeCapsFrame \<Rightarrow> jsobj" where
  "NcpHandshakeCapsFrame_toDict f = [(''node_id'', JStr (nhc_nodeId f)), (''caps'', str_array (nhc_caps f)),
     (''negotiated_encoding'', or_null JStr (nhc_negotiatedEncoding f)), (''enabled_encodings'', or_null str_array (nhc_enabledEncodings f)),
     (''session_version'', or_null JStr (nhc_sessionVersion f)), (''supported_protocols'', or_null str_array (nhc_supportedProtocols f)),
     (''max_frame_payload'', or_null JNum (nhc_maxFramePayload f)), (''ext_support'', or_null JBool (nhc_extSupport f)),
     (''max_concurrent_streams'', or_null JNum (nhc_maxConcurrentStreams f)), (''anchor_ref'', or_null JStr (nhc_anchorRef f)),
     (''payload'', or_null (\<lambda>v. v) (nhc_payload f))]"

definition NcpHandshakeCapsFrame_fromDict :: "jsobj \<Rightarrow> NcpHandshakeCapsFrame option" where
  "NcpHandshakeCapsFrame_fromDict data = do {
     n \<leftarrow> req as_str (jo_get data ''node_id'');
     c \<leftarrow> dflt as_strs [] (jo_get data ''caps'');
     e \<leftarrow> opt as_str (jo_get data ''negotiated_encoding'');
     b \<leftarrow> opt as_strs (jo_get data ''enabled_encodings'');
     a \<leftarrow> opt as_str (jo_get data ''anchor_ref'');
     p \<leftarrow> opt as_any (jo_get data ''payload'');
     v \<leftarrow> opt as_str (jo_get data ''session_version'');
     s \<leftarrow> opt as_strs (jo_get data ''supported_protocols'');
     m \<leftarrow> opt as_num (jo_get data ''max_frame_payload'');
     x \<leftarrow> opt as_bool (jo_get data ''ext_support'');
     k \<leftarrow> opt as_num (jo_get data ''max_concurrent_streams'');
     Some \<lparr>nhc_nodeId = n, nhc_caps = c, nhc_negotiatedEncoding = e, nhc_enabledEncodings = b, nhc_anchorRef = a, nhc_payload = p, nhc_sessionVersion = v,
       nhc_supportedProtocols = s, nhc_maxFramePayload = m, nhc_extSupport = x, nhc_maxConcurrentStreams = k\<rparr> }"

lemma undoes_schema [simp, intro]: "undoes as_schema_field anchor_schema_field" "undoes (as_list as_schema_field) schema_fields"
proof -
  show *: "undoes as_schema_field anchor_schema_field" 
    by (rule undoesI) (simp_all add: as_schema_field_def anchor_schema_field_def as_obj_def wire)
  show "undoes (as_list as_schema_field) schema_fields"
    using undoes_list [OF *] by (simp add: schema_fields_def [abs_def])
qed

lemma undoes_patch [simp, intro]: "undoes as_patch_op patch_op" "undoes (as_list as_patch_op) patch_ops"
proof -
  show *: "undoes as_patch_op patch_op" 
    by (rule undoesI) (simp_all add: as_patch_op_def patch_op_def as_obj_def wire option.map_ident)
  show "undoes (as_list as_patch_op) patch_ops"
    using undoes_list [OF *] by (simp add: patch_ops_def [abs_def])
qed

lemma undoes_rows [simp, intro]: "undoes (as_list as_obj) row_array"
  using undoes_list [of as_obj JObj] by (simp add: row_array_def [abs_def])

lemma opt_any_null: "x \<noteq> Some JNull \<Longrightarrow> opt as_any (Some (or_null (\<lambda>v. v) x)) = Some x"
  by (cases x; cases "the x") (auto simp: opt_def or_null_def as_any_def)

theorem ncp_frames_roundtrip:
  "AnchorFrame_fromDict (AnchorFrame_toDict a) = Some a"
  "DiffFrame_fromDict (DiffFrame_toDict d) = Some d"
  "CapsFrame_fromDict (CapsFrame_toDict c) = Some c"
  "ErrorFrame_fromDict (ErrorFrame_toDict e) = Some e"
  "HelloFrame_fromDict (HelloFrame_toDict h) = Some h"
  by (simp_all add: AnchorFrame_fromDict_def AnchorFrame_toDict_def DiffFrame_fromDict_def DiffFrame_toDict_def CapsFrame_fromDict_def CapsFrame_toDict_def
      ErrorFrame_fromDict_def ErrorFrame_toDict_def HelloFrame_fromDict_def HelloFrame_toDict_def wire)

lemma handshake_caps_roundtrip:
  "nhc_payload f \<noteq> Some JNull \<Longrightarrow> NcpHandshakeCapsFrame_fromDict (NcpHandshakeCapsFrame_toDict f) = Some f"
  by (simp add: NcpHandshakeCapsFrame_fromDict_def NcpHandshakeCapsFrame_toDict_def wire opt_any_null)

lemma opt_writers: "opt_str = or_null JStr" "opt_num = or_null JNum"
  by (simp_all add: fun_eq_iff opt_str_def opt_num_def or_null_def)

lemma stream_frame_roundtrip: "StreamFrame_fromDict (StreamFrame_toDict f) = Some f"
  by (simp add: StreamFrame_fromDict_def StreamFrame_toDict_def opt_writers row_array_def [symmetric] wire)

section \<open>ndp/frames.ts\<close>

record NdpAddress =
  nda_host :: string
  nda_port :: rat
  nda_protocol :: string

definition ndp_address :: "NdpAddress \<Rightarrow> jsval" where
  "ndp_address a = JObj [(''host'', JStr (nda_host a)), (''port'', JNum (nda_port a)), (''protocol'', JStr (nda_protocol a))]"

definition as_ndp_address :: "jsval \<Rightarrow> NdpAddress option" where
  "as_ndp_address v = do {
     d \<leftarrow> as_obj v;
     h \<leftarrow> req as_str (jo_get d ''host'');
     p \<leftarrow> req as_num (jo_get d ''port'');
     c \<leftarrow> req as_str (jo_get d ''protocol'');
     Some \<lparr>nda_host = h, nda_port = p, nda_protocol = c\<rparr> }"

definition ndp_addresses :: "NdpAddress list \<Rightarrow> jsval" where "ndp_addresses as = JArr (map ndp_address as)"

record AnnounceFrame =
  ann_nid :: string
  ann_addresses :: "NdpAddress list"
  ann_capabilities :: "string list"
  ann_ttl :: rat
  ann_timestamp :: string
  ann_signature :: string
  ann_nodeType :: "string option"
  ann_node_roles :: "string list option"
  ann_cluster_anchor :: "string option"
  ann_spawn_spec_ref :: "string option"
  ann_bridge_protocols :: "string list option"
  ann_activation_mode :: "string option"
  ann_activation_endpoint :: "NdpAddress option"
  ann_heartbeat_interval_ms :: rat
  ann_health :: "string option"
  ann_last_seen :: "string option"
  ann_cluster_epoch :: "rat option"
  ann_bridge_inbound_protocols :: "string list option"
  ann_graph_seq :: "rat option"

definition AnnounceFrame_unsignedDict :: "AnnounceFrame \<Rightarrow> jsobj" where
  "AnnounceFrame_unsignedDict f =
     [(''nid'', JStr (ann_nid f)), (''addresses'', ndp_addresses (ann_addresses f)), (''capabilities'', str_array (ann_capabilities f)),
      (''ttl'', JNum (ann_ttl f)), (''timestamp'', JStr (ann_timestamp f)), (''heartbeat_interval_ms'', JNum (ann_heartbeat_interval_ms f))] @
     member_if ''node_type'' JStr (ann_nodeType f) @ member_if ''node_roles'' str_array (ann_node_roles f) @
     member_if ''cluster_anchor'' JStr (ann_cluster_anchor f) @ member_if ''spawn_spec_ref'' JStr (ann_spawn_spec_ref f) @
     member_if ''bridge_protocols'' str_array (ann_bridge_protocols f) @ member_if ''activation_mode'' JStr (ann_activation_mode f) @
     member_if ''activation_endpoint'' ndp_address (ann_activation_endpoint f) @ member_if ''cluster_epoch'' JNum (ann_cluster_epoch f) @
     member_if ''bridge_inbound_protocols'' str_array (ann_bridge_inbound_protocols f) @ member_if ''graph_seq'' JNum (ann_graph_seq f)"

definition AnnounceFrame_toDict :: "AnnounceFrame \<Rightarrow> jsobj" where
  "AnnounceFrame_toDict f = AnnounceFrame_unsignedDict f @ [(''signature'', JStr (ann_signature f))] @
     member_if ''health'' JStr (ann_health f) @ member_if ''last_seen'' JStr (ann_last_seen f)"

definition AnnounceFrame_fromDict :: "jsobj \<Rightarrow> AnnounceFrame option" where
  "AnnounceFrame_fromDict data = do {
     nid \<leftarrow> req as_str (jo_get data ''nid'');
     addresses \<leftarrow> req (as_list as_ndp_address) (jo_get data ''addresses'');
     capabilities \<leftarrow> req as_strs (jo_get data ''capabilities'');
     ttl \<leftarrow> req as_num (jo_get data ''ttl'');
     timestamp \<leftarrow> req as_str (jo_get data ''timestamp'');
     signature \<leftarrow> req as_str (jo_get data ''signature'');
     nodeType \<leftarrow> opt as_str (jo_get data ''node_type'');
     roles \<leftarrow> opt as_strs (first_of (jo_get data ''node_roles'') (jo_get data ''node_kind''));
     anchor \<leftarrow> opt as_str (jo_get data ''cluster_anchor'');
     spawn \<leftarrow> opt as_str (jo_get data ''spawn_spec_ref'');
     bridges \<leftarrow> opt as_strs (jo_get data ''bridge_protocols'');
     mode \<leftarrow> opt as_str (jo_get data ''activation_mode'');
     endpoint \<leftarrow> opt as_ndp_address (jo_get data ''activation_endpoint'');
     heartbeat \<leftarrow> dflt as_num 60000 (jo_get data ''heartbeat_interval_ms'');
     health \<leftarrow> opt as_str (jo_get data ''health'');
     seen \<leftarrow> opt as_str (jo_get data ''last_seen'');
     epoch \<leftarrow> opt as_num (jo_get data ''cluster_epoch'');
     inbound \<leftarrow> opt as_strs (jo_get data ''bridge_inbound_protocols'');
     graph \<leftarrow> opt as_num (jo_get data ''graph_seq'');
     Some \<lparr>ann_nid = nid, ann_addresses = addresses, ann_capabilities = capabilities, ann_ttl = ttl, ann_timestamp = timestamp, ann_signature = signature,
       ann_nodeType = nodeType, ann_node_roles = roles, ann_cluster_anchor = anchor, ann_spawn_spec_ref = spawn, ann_bridge_protocols = bridges,
       ann_activation_mode = mode, ann_activation_endpoint = endpoint, ann_heartbeat_interval_ms = heartbeat, ann_health = health, ann_last_seen = seen,
       ann_cluster_epoch = epoch, ann_bridge_inbound_protocols = inbound, ann_graph_seq = graph\<rparr> }"

definition effectiveClusterEpoch :: "AnnounceFrame \<Rightarrow> rat" where
  "effectiveClusterEpoch f = (case ann_cluster_epoch f of None \<Rightarrow> 1 | Some e \<Rightarrow> e)"

record NdpResolveResult =
  nrr_host :: string
  nrr_port :: rat
  nrr_ttl :: rat
  nrr_certFingerprint :: "string option"

definition resolve_result :: "NdpResolveResult \<Rightarrow> jsval" where
  "resolve_result r = JObj ([(''host'', JStr (nrr_host r)), (''port'', JNum (nrr_port r)), (''ttl'', JNum (nrr_ttl r))] @
     member_if ''certFingerprint'' JStr (nrr_certFingerprint r))"

definition as_resolve_result :: "jsval \<Rightarrow> NdpResolveResult option" where
  "as_resolve_result v = do {
     d \<leftarrow> as_obj v;
     h \<leftarrow> req as_str (jo_get d ''host'');
     p \<leftarrow> req as_num (jo_get d ''port'');
     t \<leftarrow> req as_num (jo_get d ''ttl'');
     c \<leftarrow> opt as_str (jo_get d ''certFingerprint'');
     Some \<lparr>nrr_host = h, nrr_port = p, nrr_ttl = t, nrr_certFingerprint = c\<rparr> }"

record ResolveFrame =
  rsf_target :: string
  rsf_requesterNid :: "string option"
  rsf_resolved :: "NdpResolveResult option"

definition ResolveFrame_toDict :: "ResolveFrame \<Rightarrow> jsobj" where
  "ResolveFrame_toDict f = [(''target'', JStr (rsf_target f)), (''requester_nid'', or_null JStr (rsf_requesterNid f)),
     (''resolved'', or_null resolve_result (rsf_resolved f))]"

definition ResolveFrame_fromDict :: "jsobj \<Rightarrow> ResolveFrame option" where
  "ResolveFrame_fromDict data = do {
     t \<leftarrow> req as_str (jo_get data ''target'');
     n \<leftarrow> opt as_str (jo_get data ''requester_nid'');
     r \<leftarrow> opt as_resolve_result (jo_get data ''resolved'');
     Some \<lparr>rsf_target = t, rsf_requesterNid = n, rsf_resolved = r\<rparr> }"

record NdpGraphNode =
  gnd_nid :: string
  gnd_cluster_anchor :: "string option"
  gnd_node_roles :: "string list option"

record NdpGraphEdge =
  ged_from_nid :: string
  ged_to_nid :: string
  ged_latency_ms :: "rat option"
  ged_protocol :: "string option"

definition graph_node :: "NdpGraphNode \<Rightarrow> jsval" where
  "graph_node n = JObj ((''nid'', JStr (gnd_nid n)) # member_if ''cluster_anchor'' JStr (gnd_cluster_anchor n) @
     member_if ''node_roles'' str_array (gnd_node_roles n))"

definition as_graph_node :: "jsval \<Rightarrow> NdpGraphNode option" where
  "as_graph_node v = do {
     d \<leftarrow> as_obj v;
     n \<leftarrow> req as_str (jo_get d ''nid'');
     c \<leftarrow> opt as_str (jo_get d ''cluster_anchor'');
     r \<leftarrow> opt as_strs (jo_get d ''node_roles'');
     Some \<lparr>gnd_nid = n, gnd_cluster_anchor = c, gnd_node_roles = r\<rparr> }"

definition graph_edge :: "NdpGraphEdge \<Rightarrow> jsval" where
  "graph_edge e = JObj ([(''from_nid'', JStr (ged_from_nid e)), (''to_nid'', JStr (ged_to_nid e))] @
     member_if ''latency_ms'' JNum (ged_latency_ms e) @ member_if ''protocol'' JStr (ged_protocol e))"

definition as_graph_edge :: "jsval \<Rightarrow> NdpGraphEdge option" where
  "as_graph_edge v = do {
     d \<leftarrow> as_obj v;
     f \<leftarrow> req as_str (jo_get d ''from_nid'');
     t \<leftarrow> req as_str (jo_get d ''to_nid'');
     l \<leftarrow> opt as_num (jo_get d ''latency_ms'');
     p \<leftarrow> opt as_str (jo_get d ''protocol'');
     Some \<lparr>ged_from_nid = f, ged_to_nid = t, ged_latency_ms = l, ged_protocol = p\<rparr> }"

definition graph_nodes :: "NdpGraphNode list \<Rightarrow> jsval" where "graph_nodes ns = JArr (map graph_node ns)"
definition graph_edges :: "NdpGraphEdge list \<Rightarrow> jsval" where "graph_edges es = JArr (map graph_edge es)"

datatype graph_error = GraphTooLarge | GraphInvalid

fun graph_edges_error :: "string set \<Rightarrow> NdpGraphEdge list \<Rightarrow> graph_error option" where
  "graph_edges_error ids [] = None"
| "graph_edges_error ids (e # es) =
     (if ged_from_nid e = [] \<or> ged_to_nid e = [] then Some GraphInvalid
      else if ged_from_nid e = ged_to_nid e then Some GraphInvalid
      else if ged_from_nid e \<notin> ids \<or> ged_to_nid e \<notin> ids then Some GraphInvalid
      else graph_edges_error ids es)"

definition validateGraphFrame :: "NdpGraphNode list \<Rightarrow> NdpGraphEdge list \<Rightarrow> graph_error option" where
  "validateGraphFrame nodes edges =
     (if length nodes > 256 then Some GraphTooLarge
      else if length edges > 1024 then Some GraphTooLarge
      else if list_ex (\<lambda>n. gnd_nid n = []) nodes then Some GraphInvalid
      else graph_edges_error (set (map gnd_nid nodes)) edges)"

record GraphFrame =
  grf_graph_id :: string
  grf_nodes :: "NdpGraphNode list"
  grf_edges :: "NdpGraphEdge list"
  grf_ttl :: rat
  grf_metadata :: "jsobj option"

definition GraphFrame_new :: "GraphFrame \<Rightarrow> graph_error + GraphFrame" where
  "GraphFrame_new f = (case validateGraphFrame (grf_nodes f) (grf_edges f) of Some e \<Rightarrow> Inl e | None \<Rightarrow> Inr f)"

definition GraphFrame_toDict :: "GraphFrame \<Rightarrow> jsobj" where
  "GraphFrame_toDict f = [(''graph_id'', JStr (grf_graph_id f)), (''nodes'', graph_nodes (grf_nodes f)), (''edges'', graph_edges (grf_edges f)),
     (''ttl'', JNum (grf_ttl f)), (''metadata'', or_null JObj (grf_metadata f))]"

definition GraphFrame_fromDict :: "jsobj \<Rightarrow> (graph_error + GraphFrame) option" where
  "GraphFrame_fromDict data = do {
     i \<leftarrow> req as_str (jo_get data ''graph_id'');
     n \<leftarrow> dflt (as_list as_graph_node) [] (jo_get data ''nodes'');
     e \<leftarrow> dflt (as_list as_graph_edge) [] (jo_get data ''edges'');
     t \<leftarrow> req as_num (jo_get data ''ttl'');
     m \<leftarrow> opt as_obj (jo_get data ''metadata'');
     Some (GraphFrame_new \<lparr>grf_graph_id = i, grf_nodes = n, grf_edges = e, grf_ttl = t, grf_metadata = m\<rparr>) }"

lemma undoes_address [simp, intro]: "undoes as_ndp_address ndp_address" "undoes (as_list as_ndp_address) ndp_addresses"
proof -
  show *: "undoes as_ndp_address ndp_address"
    by (rule undoesI) (simp_all add: as_ndp_address_def ndp_address_def as_obj_def wire)
  show "undoes (as_list as_ndp_address) ndp_addresses"
    using undoes_list [OF *] by (simp add: ndp_addresses_def [abs_def])
qed

lemma undoes_resolve [simp, intro]: "undoes as_resolve_result resolve_result"
  by (rule undoesI) (simp_all add: as_resolve_result_def resolve_result_def as_obj_def wire)

lemma undoes_graph [simp, intro]: "undoes (as_list as_graph_node) graph_nodes" "undoes (as_list as_graph_edge) graph_edges"
proof -
  have "undoes as_graph_node graph_node"
    by (rule undoesI) (simp_all add: as_graph_node_def graph_node_def as_obj_def wire)
  from undoes_list [OF this] show "undoes (as_list as_graph_node) graph_nodes" by (simp add: graph_nodes_def [abs_def])
  have "undoes as_graph_edge graph_edge"
    by (rule undoesI) (simp_all add: as_graph_edge_def graph_edge_def as_obj_def wire)
  from undoes_list [OF this] show "undoes (as_list as_graph_edge) graph_edges" by (simp add: graph_edges_def [abs_def])
qed

lemma announce_roundtrip: "AnnounceFrame_fromDict (AnnounceFrame_toDict f) = Some f"
  by (simp add: AnnounceFrame_fromDict_def AnnounceFrame_toDict_def AnnounceFrame_unsignedDict_def wire)

lemma resolve_roundtrip: "ResolveFrame_fromDict (ResolveFrame_toDict f) = Some f"
  by (simp add: ResolveFrame_fromDict_def ResolveFrame_toDict_def wire)

lemma graph_roundtrip: "GraphFrame_fromDict (GraphFrame_toDict f) = Some (GraphFrame_new f)"
  by (cases f) (simp add: GraphFrame_fromDict_def GraphFrame_toDict_def wire)

text \<open>The signed body of an announcement survives the wire, and heartbeats do not change it.\<close>

theorem announce_signed_body:
  "map_option AnnounceFrame_unsignedDict (AnnounceFrame_fromDict (AnnounceFrame_toDict f)) = Some (AnnounceFrame_unsignedDict f)"
  "AnnounceFrame_unsignedDict (f\<lparr>ann_health := h, ann_last_seen := s\<rparr>) = AnnounceFrame_unsignedDict f"
  by (simp add: announce_roundtrip) (simp add: AnnounceFrame_unsignedDict_def)

lemma graph_edges_error_iff:
  "graph_edges_error ids es = None \<longleftrightarrow>
     (\<forall>e \<in> set es. ged_from_nid e \<noteq> [] \<and> ged_to_nid e \<noteq> [] \<and> ged_from_nid e \<noteq> ged_to_nid e \<and> ged_from_nid e \<in> ids \<and> ged_to_nid e \<in> ids)"
  by (induction es) auto

theorem graph_frame_accepted_iff:
  "GraphFrame_new f = Inr f \<longleftrightarrow> length (grf_nodes f) \<le> 256 \<and> length (grf_edges f) \<le> 1024 \<and> (\<forall>n \<in> set (grf_nodes f). gnd_nid n \<noteq> []) \<and>
     (\<forall>e \<in> set (grf_edges f). ged_from_nid e \<noteq> ged_to_nid e \<and> {ged_from_nid e, ged_to_nid e} \<subseteq> gnd_nid ` set (grf_nodes f))"
proof -
  have "GraphFrame_new f = Inr f \<longleftrightarrow> validateGraphFrame (grf_nodes f) (grf_edges f) = None"
    by (auto simp: GraphFrame_new_def split: option.splits)
  also have "\<dots> \<longleftrightarrow> length (grf_nodes f) \<le> 256 \<and> length (grf_edges f) \<le> 1024 \<and> (\<forall>n \<in> set (grf_nodes f). gnd_nid n \<noteq> []) \<and>
     graph_edges_error (gnd_nid ` set (grf_nodes f)) (grf_edges f) = None"
    by (auto simp: validateGraphFrame_def list_ex_iff)
  finally show ?thesis unfolding graph_edges_error_iff by fastforce
qed


section \<open>nop/frames.ts\<close>

text \<open>The task graph and the contexts are JSON values here.\<close>

record NopTaskFrame =
  ntf_taskId :: string
  ntf_dag :: jsobj
  ntf_timeoutMs :: "rat option"
  ntf_callbackUrl :: "string option"
  ntf_context :: "jsobj option"
  ntf_priority :: "string option"
  ntf_depth :: "rat option"
  ntf_compensationPolicy :: "string option"
  ntf_resultTtlSeconds :: rat
  ntf_maxRetries :: rat
  ntf_callbackSecret :: "string option"
  ntf_preflight :: bool
  ntf_requestId :: "string option"

definition TaskFrame_toDict :: "NopTaskFrame \<Rightarrow> jsobj" where
  "TaskFrame_toDict f = [(''task_id'', JStr (ntf_taskId f)), (''dag'', JObj (ntf_dag f)), (''timeout_ms'', or_null JNum (ntf_timeoutMs f)),
     (''max_retries'', JNum (ntf_maxRetries f)), (''priority'', or_null JStr (ntf_priority f)), (''callback_url'', or_null JStr (ntf_callbackUrl f)),
     (''callback_secret'', or_null JStr (ntf_callbackSecret f)), (''preflight'', JBool (ntf_preflight f)), (''context'', or_null JObj (ntf_context f)),
     (''request_id'', or_null JStr (ntf_requestId f)), (''delegate_depth'', JNum (case ntf_depth f of None \<Rightarrow> 0 | Some d \<Rightarrow> d)),
     (''compensation_policy'', JStr (case ntf_compensationPolicy f of None \<Rightarrow> ''best_effort'' | Some p \<Rightarrow> p)),
     (''result_ttl_seconds'', JNum (ntf_resultTtlSeconds f))]"

definition TaskFrame_fromDict :: "jsobj \<Rightarrow> NopTaskFrame option" where
  "TaskFrame_fromDict data = do {
     taskId \<leftarrow> req as_str (jo_get data ''task_id'');
     dag \<leftarrow> req as_obj (jo_get data ''dag'');
     timeout \<leftarrow> opt as_num (jo_get data ''timeout_ms'');
     url \<leftarrow> opt as_str (jo_get data ''callback_url'');
     ctx \<leftarrow> opt as_obj (jo_get data ''context'');
     priority \<leftarrow> opt as_str (jo_get data ''priority'');
     depth \<leftarrow> opt as_num (first_of (jo_get data ''delegate_depth'') (jo_get data ''depth''));
     policy \<leftarrow> opt as_str (jo_get data ''compensation_policy'');
     ttl \<leftarrow> dflt as_num 3600 (jo_get data ''result_ttl_seconds'');
     retries \<leftarrow> dflt as_num 2 (jo_get data ''max_retries'');
     secret \<leftarrow> opt as_str (jo_get data ''callback_secret'');
     pre \<leftarrow> dflt as_bool False (jo_get data ''preflight'');
     request \<leftarrow> opt as_str (jo_get data ''request_id'');
     Some \<lparr>ntf_taskId = taskId, ntf_dag = dag, ntf_timeoutMs = timeout, ntf_callbackUrl = url, ntf_context = ctx, ntf_priority = priority, ntf_depth = depth,
       ntf_compensationPolicy = policy, ntf_resultTtlSeconds = ttl, ntf_maxRetries = retries, ntf_callbackSecret = secret, ntf_preflight = pre,
       ntf_requestId = request\<rparr> }"

record DelegateFrame =
  dlf_taskId :: string
  dlf_subtaskId :: string
  dlf_action :: string
  dlf_agentNid :: string
  dlf_inputs :: "jsobj option"
  dlf_params :: "jsobj option"
  dlf_idempotencyKey :: "string option"
  dlf_targetClusterAnchor :: "string option"
  dlf_nodeId :: "string option"
  dlf_deadlineAt :: "string option"
  dlf_priority :: "string option"
  dlf_delegateDepth :: rat
  dlf_context :: "jsval option"

definition DelegateFrame_toDict :: "DelegateFrame \<Rightarrow> jsobj" where
  "DelegateFrame_toDict f = [(''parent_task_id'', JStr (dlf_taskId f)), (''subtask_id'', JStr (dlf_subtaskId f)), (''node_id'', or_null JStr (dlf_nodeId f)),
     (''target_agent_nid'', JStr (dlf_agentNid f)), (''action'', JStr (dlf_action f)), (''inputs'', or_null JObj (dlf_inputs f)),
     (''params'', or_null JObj (dlf_params f)), (''deadline_at'', or_null JStr (dlf_deadlineAt f)), (''idempotency_key'', or_null JStr (dlf_idempotencyKey f)),
     (''priority'', or_null JStr (dlf_priority f)), (''delegate_depth'', JNum (dlf_delegateDepth f)), (''context'', or_null (\<lambda>v. v) (dlf_context f)),
     (''target_cluster_anchor'', or_null JStr (dlf_targetClusterAnchor f))]"

definition DelegateFrame_fromDict :: "jsobj \<Rightarrow> DelegateFrame option" where
  "DelegateFrame_fromDict data = do {
     taskId \<leftarrow> req as_str (first_of (jo_get data ''parent_task_id'') (jo_get data ''task_id''));
     subtask \<leftarrow> req as_str (jo_get data ''subtask_id'');
     action \<leftarrow> req as_str (jo_get data ''action'');
     agent \<leftarrow> req as_str (first_of (jo_get data ''target_agent_nid'') (jo_get data ''agent_nid''));
     inputs \<leftarrow> opt as_obj (jo_get data ''inputs'');
     params \<leftarrow> opt as_obj (jo_get data ''params'');
     key \<leftarrow> opt as_str (jo_get data ''idempotency_key'');
     cluster \<leftarrow> opt as_str (jo_get data ''target_cluster_anchor'');
     node \<leftarrow> opt as_str (jo_get data ''node_id'');
     deadline \<leftarrow> opt as_str (jo_get data ''deadline_at'');
     priority \<leftarrow> opt as_str (jo_get data ''priority'');
     depth \<leftarrow> dflt as_num 0 (jo_get data ''delegate_depth'');
     ctx \<leftarrow> opt as_any (jo_get data ''context'');
     Some \<lparr>dlf_taskId = taskId, dlf_subtaskId = subtask, dlf_action = action, dlf_agentNid = agent, dlf_inputs = inputs, dlf_params = params,
       dlf_idempotencyKey = key, dlf_targetClusterAnchor = cluster, dlf_nodeId = node, dlf_deadlineAt = deadline, dlf_priority = priority,
       dlf_delegateDepth = depth, dlf_context = ctx\<rparr> }"

record SyncFrame =
  syf_taskId :: string
  syf_syncId :: string
  syf_waitFor :: "string list"
  syf_minRequired :: rat
  syf_aggregate :: string
  syf_timeoutMs :: "rat option"

definition SyncFrame_toDict :: "SyncFrame \<Rightarrow> jsobj" where
  "SyncFrame_toDict f = [(''task_id'', JStr (syf_taskId f)), (''sync_id'', JStr (syf_syncId f)), (''wait_for'', str_array (syf_waitFor f)),
     (''min_required'', JNum (syf_minRequired f)), (''aggregate'', JStr (syf_aggregate f)), (''timeout_ms'', or_null JNum (syf_timeoutMs f))]"

definition SyncFrame_fromDict :: "jsobj \<Rightarrow> SyncFrame option" where
  "SyncFrame_fromDict data = do {
     t \<leftarrow> req as_str (jo_get data ''task_id'');
     i \<leftarrow> req as_str (jo_get data ''sync_id'');
     w \<leftarrow> req as_strs (jo_get data ''wait_for'');
     m \<leftarrow> dflt as_num 0 (jo_get data ''min_required'');
     a \<leftarrow> dflt as_str ''merge'' (jo_get data ''aggregate'');
     o' \<leftarrow> opt as_num (jo_get data ''timeout_ms'');
     Some \<lparr>syf_taskId = t, syf_syncId = i, syf_waitFor = w, syf_minRequired = m, syf_aggregate = a, syf_timeoutMs = o'\<rparr> }"

record AlignStreamFrame =
  alf_streamId :: string
  alf_taskId :: string
  alf_subtaskId :: string
  alf_seq :: rat
  alf_isFinal :: bool
  alf_senderNid :: string
  alf_data :: "jsobj option"
  alf_error :: "(string \<times> string option) option"
  alf_windowSize :: "rat option"
  alf_ackSeq :: "rat option"
  alf_nakSeq :: "rat option"

definition stream_error :: "string \<times> string option \<Rightarrow> jsval" where
  "stream_error e = JObj [(''error_code'', JStr (fst e)), (''message'', or_null JStr (snd e))]"

definition as_stream_error :: "jsval \<Rightarrow> (string \<times> string option) option" where
  "as_stream_error v = do { d \<leftarrow> as_obj v; c \<leftarrow> req as_str (jo_get d ''error_code''); m \<leftarrow> opt as_str (jo_get d ''message''); Some (c, m) }"

definition AlignStreamFrame_toDict :: "AlignStreamFrame \<Rightarrow> jsobj" where
  "AlignStreamFrame_toDict f = [(''stream_id'', JStr (alf_streamId f)), (''task_id'', JStr (alf_taskId f)), (''subtask_id'', JStr (alf_subtaskId f)),
     (''seq'', JNum (alf_seq f)), (''is_final'', JBool (alf_isFinal f)), (''sender_nid'', JStr (alf_senderNid f)), (''data'', or_null JObj (alf_data f)),
     (''error'', or_null stream_error (alf_error f)), (''window_size'', or_null JNum (alf_windowSize f)), (''ack_seq'', or_null JNum (alf_ackSeq f)),
     (''nak_seq'', or_null JNum (alf_nakSeq f))]"

definition AlignStreamFrame_fromDict :: "jsobj \<Rightarrow> AlignStreamFrame option" where
  "AlignStreamFrame_fromDict data = do {
     i \<leftarrow> req as_str (jo_get data ''stream_id'');
     t \<leftarrow> req as_str (jo_get data ''task_id'');
     s \<leftarrow> req as_str (jo_get data ''subtask_id'');
     q \<leftarrow> req as_num (jo_get data ''seq'');
     l \<leftarrow> req as_bool (jo_get data ''is_final'');
     n \<leftarrow> req as_str (jo_get data ''sender_nid'');
     d \<leftarrow> opt as_obj (jo_get data ''data'');
     e \<leftarrow> opt as_stream_error (jo_get data ''error'');
     w \<leftarrow> opt as_num (jo_get data ''window_size'');
     a \<leftarrow> opt as_num (jo_get data ''ack_seq'');
     k \<leftarrow> opt as_num (jo_get data ''nak_seq'');
     Some \<lparr>alf_streamId = i, alf_taskId = t, alf_subtaskId = s, alf_seq = q, alf_isFinal = l, alf_senderNid = n, alf_data = d, alf_error = e,
       alf_windowSize = w, alf_ackSeq = a, alf_nakSeq = k\<rparr> }"

lemma undoes_stream_error [simp, intro]: "undoes as_stream_error stream_error"
  by (rule undoesI) (simp_all add: as_stream_error_def stream_error_def as_obj_def wire)

lemma sync_roundtrip: "SyncFrame_fromDict (SyncFrame_toDict f) = Some f"
  by (simp add: SyncFrame_fromDict_def SyncFrame_toDict_def wire)

lemma align_stream_roundtrip: "AlignStreamFrame_fromDict (AlignStreamFrame_toDict f) = Some f"
  by (simp add: AlignStreamFrame_fromDict_def AlignStreamFrame_toDict_def wire)

lemma delegate_roundtrip: "dlf_context f \<noteq> Some JNull \<Longrightarrow> DelegateFrame_fromDict (DelegateFrame_toDict f) = Some f"
  by (simp add: DelegateFrame_fromDict_def DelegateFrame_toDict_def wire opt_any_null)

text \<open>A task frame comes back with its defaults filled in, and with the same dictionary.\<close>

lemma task_roundtrip:
  "TaskFrame_fromDict (TaskFrame_toDict f) =
     Some (f\<lparr>ntf_depth := Some (case ntf_depth f of None \<Rightarrow> 0 | Some d \<Rightarrow> d),
             ntf_compensationPolicy := Some (case ntf_compensationPolicy f of None \<Rightarrow> ''best_effort'' | Some p \<Rightarrow> p)\<rparr>)"
proof -
  have dec: "opt as_str (Some (JStr s)) = Some (Some s)" for s using opt_undo [of as_str JStr "Some s"] by simp
  show ?thesis by (cases f) (simp add: TaskFrame_fromDict_def TaskFrame_toDict_def wire dec)
qed

theorem task_wire_stable: "map_option TaskFrame_toDict (TaskFrame_fromDict (TaskFrame_toDict f)) = Some (TaskFrame_toDict f)"
  by (simp add: task_roundtrip) (simp add: TaskFrame_toDict_def)

end
