(* ===== verification/NwpFrames.thy ===== *)
theory NwpFrames
  imports WireFrames NwpActionServer
begin

text \<open>
  The frames of NWP and their dictionaries, \<open>nwp/frames.ts\<close>, read as in \<open>WireFrames\<close>. The query frame carries a vector search whose members have two
  spellings; the dictionary has one.

  Proved: a query frame without a vector search is read back as it is, and reading back any query frame leaves its dictionary unchanged, so a frame
  forwarded from node to node keeps its wire form; the other frames likewise.
\<close>

record VectorSearchOptions =
  vso_vector :: "rat list"
  vso_topK :: "rat option"
  vso_minScore :: "rat option"
  vso_vectorField :: "string option"
  vso_field :: "string option"
  vso_top_k :: "rat option"
  vso_threshold :: "rat option"
  vso_metric :: "string option"

record QueryFrameFull =
  qx_anchorRef :: "string option"
  qx_filter :: "jsobj option"
  qx_limit :: "rat option"
  qx_offset :: "rat option"
  qx_orderBy :: "jsobj list option"
  qx_fields :: "string list option"
  qx_vectorSearch :: "VectorSearchOptions option"
  qx_depth :: "rat option"
  qx_cursor :: "string option"
  qx_autoAnchor :: "bool option"
  qx_stream :: "bool option"
  qx_aggregate :: "jsobj option"
  qx_tokenBudget :: "rat option"
  qx_tokenizer :: "string option"
  qx_requestId :: "string option"

definition num_array :: "rat list \<Rightarrow> jsval" where "num_array ns = JArr (map JNum ns)"

definition either :: "'a option \<Rightarrow> 'a option \<Rightarrow> 'a option" where
  "either a b = (case a of None \<Rightarrow> b | Some x \<Rightarrow> Some x)"

definition normalizeVectorSearch :: "VectorSearchOptions option \<Rightarrow> jsval" where
  "normalizeVectorSearch v = (case v of
     None \<Rightarrow> JNull
   | Some v \<Rightarrow> JObj [(''field'', or_null JStr (either (vso_field v) (vso_vectorField v))), (''vector'', num_array (vso_vector v)),
       (''top_k'', or_null JNum (either (vso_top_k v) (vso_topK v))), (''threshold'', or_null JNum (either (vso_threshold v) (vso_minScore v))),
       (''metric'', or_null JStr (vso_metric v))])"

definition denormalizeVectorSearch :: "jsval \<Rightarrow> VectorSearchOptions option" where
  "denormalizeVectorSearch w = do {
     v \<leftarrow> as_obj w;
     vector \<leftarrow> dflt (as_list as_num) [] (jo_get v ''vector'');
     topK \<leftarrow> opt as_num (first_of (jo_get v ''topK'') (jo_get v ''top_k''));
     minScore \<leftarrow> opt as_num (first_of (jo_get v ''minScore'') (jo_get v ''threshold''));
     vectorField \<leftarrow> opt as_str (first_of (jo_get v ''vectorField'') (jo_get v ''field''));
     field \<leftarrow> opt as_str (first_of (jo_get v ''field'') (jo_get v ''vectorField''));
     top_k \<leftarrow> opt as_num (first_of (jo_get v ''top_k'') (jo_get v ''topK''));
     threshold \<leftarrow> opt as_num (first_of (jo_get v ''threshold'') (jo_get v ''minScore''));
     metric \<leftarrow> opt as_str (jo_get v ''metric'');
     Some \<lparr>vso_vector = vector, vso_topK = topK, vso_minScore = minScore, vso_vectorField = vectorField, vso_field = field, vso_top_k = top_k,
       vso_threshold = threshold, vso_metric = metric\<rparr> }"

definition QueryFrame_toDict :: "QueryFrameFull \<Rightarrow> jsobj" where
  "QueryFrame_toDict f =
     [(''anchor_ref'', or_null JStr (qx_anchorRef f)), (''filter'', or_null JObj (qx_filter f)), (''limit'', or_null JNum (qx_limit f)),
      (''offset'', or_null JNum (qx_offset f)), (''cursor'', or_null JStr (qx_cursor f)), (''order'', or_null row_array (qx_orderBy f)),
      (''order_by'', or_null row_array (qx_orderBy f)), (''fields'', or_null str_array (qx_fields f)),
      (''vector_search'', normalizeVectorSearch (qx_vectorSearch f)), (''depth'', or_null JNum (qx_depth f)), (''auto_anchor'', or_null JBool (qx_autoAnchor f)),
      (''stream'', or_null JBool (qx_stream f)), (''aggregate'', or_null JObj (qx_aggregate f)), (''request_id'', or_null JStr (qx_requestId f))] @
     member_if ''token_budget'' JNum (qx_tokenBudget f) @ member_if ''tokenizer'' JStr (qx_tokenizer f)"

definition QueryFrame_fromDict :: "jsobj \<Rightarrow> QueryFrameFull option" where
  "QueryFrame_fromDict data = do {
     order \<leftarrow> opt (as_list as_obj) (first_of (jo_get data ''order'') (jo_get data ''order_by''));
     anchor \<leftarrow> opt as_str (jo_get data ''anchor_ref'');
     flt \<leftarrow> opt as_obj (jo_get data ''filter'');
     limit \<leftarrow> opt as_num (jo_get data ''limit'');
     offset \<leftarrow> opt as_num (jo_get data ''offset'');
     fs \<leftarrow> opt as_strs (jo_get data ''fields'');
     vector \<leftarrow> opt denormalizeVectorSearch (jo_get data ''vector_search'');
     depth \<leftarrow> opt as_num (jo_get data ''depth'');
     cursor \<leftarrow> opt as_str (jo_get data ''cursor'');
     auto \<leftarrow> opt as_bool (jo_get data ''auto_anchor'');
     stream \<leftarrow> opt as_bool (jo_get data ''stream'');
     aggregate \<leftarrow> opt as_obj (jo_get data ''aggregate'');
     budget \<leftarrow> opt as_num (jo_get data ''token_budget'');
     tokenizer \<leftarrow> opt as_str (jo_get data ''tokenizer'');
     request \<leftarrow> opt as_str (jo_get data ''request_id'');
     Some \<lparr>qx_anchorRef = anchor, qx_filter = flt, qx_limit = limit, qx_offset = offset, qx_orderBy = order, qx_fields = fs, qx_vectorSearch = vector,
       qx_depth = depth, qx_cursor = cursor, qx_autoAnchor = auto, qx_stream = stream, qx_aggregate = aggregate, qx_tokenBudget = budget,
       qx_tokenizer = tokenizer, qx_requestId = request\<rparr> }"

definition ActionFrame_toDict :: "ActionFrame \<Rightarrow> jsobj" where
  "ActionFrame_toDict f = [(''action_id'', JStr (af_actionId f)), (''action'', JStr (af_actionId f)), (''params'', or_null JObj (af_params f)),
     (''async'', JBool (opt_or False (af_async f))), (''idempotency_key'', or_null JStr (af_idempotencyKey f)),
     (''timeout_ms'', or_null JNum (af_timeoutMs f)), (''request_id'', or_null JStr (af_requestId f))]"

definition ActionFrame_fromDict :: "jsobj \<Rightarrow> ActionFrame option" where
  "ActionFrame_fromDict data = do {
     action \<leftarrow> req as_str (first_of (jo_get data ''action_id'') (jo_get data ''action''));
     params \<leftarrow> opt as_obj (jo_get data ''params'');
     a \<leftarrow> opt as_bool (jo_get data ''async'');
     key \<leftarrow> opt as_str (jo_get data ''idempotency_key'');
     timeout \<leftarrow> opt as_num (jo_get data ''timeout_ms'');
     request \<leftarrow> opt as_str (jo_get data ''request_id'');
     Some \<lparr>af_actionId = action, af_params = params, af_async = a, af_idempotencyKey = key, af_timeoutMs = timeout, af_requestId = request\<rparr> }"

record SubscribeFrame =
  sbf_subscription_id :: string
  sbf_filter :: "jsobj option"
  sbf_heartbeat_interval_ms :: "rat option"
  sbf_max_events :: "rat option"
  sbf_cursor :: "string option"

definition subscribeFrame_toDict :: "SubscribeFrame \<Rightarrow> jsobj" where
  "subscribeFrame_toDict f = (''subscription_id'', JStr (sbf_subscription_id f)) # member_if ''filter'' JObj (sbf_filter f) @
     member_if ''heartbeat_interval_ms'' JNum (sbf_heartbeat_interval_ms f) @ member_if ''max_events'' JNum (sbf_max_events f) @
     member_if ''cursor'' JStr (sbf_cursor f)"

definition subscribeFrameFromDict :: "jsobj \<Rightarrow> SubscribeFrame option" where
  "subscribeFrameFromDict data = do {
     i \<leftarrow> req as_str (jo_get data ''subscription_id'');
     f \<leftarrow> opt as_obj (jo_get data ''filter'');
     h \<leftarrow> opt as_num (jo_get data ''heartbeat_interval_ms'');
     m \<leftarrow> opt as_num (jo_get data ''max_events'');
     c \<leftarrow> opt as_str (jo_get data ''cursor'');
     Some \<lparr>sbf_subscription_id = i, sbf_filter = f, sbf_heartbeat_interval_ms = h, sbf_max_events = m, sbf_cursor = c\<rparr> }"

record AsyncActionResponse =
  aar_taskId :: string
  aar_status :: string
  aar_pollUrl :: "string option"

definition asyncActionResponseFromDict :: "jsobj \<Rightarrow> AsyncActionResponse option" where
  "asyncActionResponseFromDict data = do {
     t \<leftarrow> req as_str (jo_get data ''task_id'');
     s \<leftarrow> req as_str (jo_get data ''status'');
     p \<leftarrow> opt as_str (jo_get data ''poll_url'');
     Some \<lparr>aar_taskId = t, aar_status = s, aar_pollUrl = p\<rparr> }"

section \<open>Round trips\<close>

lemma undoes_nums [simp, intro]: "undoes (as_list as_num) num_array"
  using undoes_list [of as_num JNum] by (simp add: num_array_def [abs_def])

lemma opt_first_absent [wire]: "opt dec (first_of None v) = opt dec v"
  by (simp add: first_of_def)

lemma opt_first_null [wire]: "undoes dec enc \<Longrightarrow> opt dec (first_of (Some (or_null enc x)) None) = Some x"
  by (cases x) (simp_all add: or_null_def undoes_def first_of_value opt_value, simp add: first_of_def opt_def)

lemma opt_first_same [wire]: "undoes dec enc \<Longrightarrow> opt dec (first_of (Some (or_null enc x)) (Some (or_null enc x))) = Some x"
  by (cases x) (simp_all add: or_null_def undoes_def first_of_value opt_value, simp add: first_of_def opt_def)

text \<open>The vector search read back: both spellings of every member agree.\<close>

definition both_spellings :: "VectorSearchOptions \<Rightarrow> VectorSearchOptions" where
  "both_spellings v = (let k = either (vso_top_k v) (vso_topK v); t = either (vso_threshold v) (vso_minScore v); fld = either (vso_field v) (vso_vectorField v) in
     v\<lparr>vso_topK := k, vso_minScore := t, vso_vectorField := fld, vso_field := fld, vso_top_k := k, vso_threshold := t\<rparr>)"

lemma vector_roundtrip: "opt denormalizeVectorSearch (Some (normalizeVectorSearch v)) = Some (map_option both_spellings v)"
  by (cases v) (simp_all add: normalizeVectorSearch_def opt_null opt_value denormalizeVectorSearch_def as_obj_def wire both_spellings_def Let_def)

lemma query_roundtrip:
  "QueryFrame_fromDict (QueryFrame_toDict f) = Some (f\<lparr>qx_vectorSearch := map_option both_spellings (qx_vectorSearch f)\<rparr>)"
  by (cases f) (simp add: QueryFrame_fromDict_def QueryFrame_toDict_def vector_roundtrip wire)

lemma both_spellings_normal: "normalizeVectorSearch (map_option both_spellings v) = normalizeVectorSearch v"
  by (cases v) (auto simp: normalizeVectorSearch_def both_spellings_def Let_def either_def split: option.splits)

theorem query_wire_stable: "map_option QueryFrame_toDict (QueryFrame_fromDict (QueryFrame_toDict f)) = Some (QueryFrame_toDict f)"
  by (simp add: query_roundtrip) (simp add: QueryFrame_toDict_def both_spellings_normal)

lemma action_roundtrip: "ActionFrame_fromDict (ActionFrame_toDict f) = Some (f\<lparr>af_async := Some (opt_or False (af_async f))\<rparr>)"
proof -
  have dec: "opt as_bool (Some (JBool b)) = Some (Some b)" for b using opt_undo [of as_bool JBool "Some b"] by simp
  show ?thesis by (cases f) (simp add: ActionFrame_fromDict_def ActionFrame_toDict_def wire dec)
qed

lemma subscribe_roundtrip: "subscribeFrameFromDict (subscribeFrame_toDict f) = Some f"
  by (simp add: subscribeFrameFromDict_def subscribeFrame_toDict_def wire)

text \<open>What the Action Node writes for a background task is read back by the client.\<close>

lemma async_response_read:
  "hr_body (asyncResponse o' taskId status requestId estimatedMs) = JsonBody (JObj d) \<Longrightarrow>
     asyncActionResponseFromDict d = Some \<lparr>aar_taskId = taskId, aar_status = status, aar_pollUrl = Some (app_prefix o' @ ''/invoke'')\<rparr>"
proof -
  have dec: "opt as_str (Some (JStr s)) = Some (Some s)" for s using opt_undo [of as_str JStr "Some s"] by simp
  assume "hr_body (asyncResponse o' taskId status requestId estimatedMs) = JsonBody (JObj d)"
  then show ?thesis by (auto simp: asyncResponse_def asyncActionResponseFromDict_def wire dec)
qed

end
