(* ===== verification/NipFrames.thy ===== *)
theory NipFrames
  imports WireFrames NipVerify
begin

text \<open>
  The frames of NIP and their dictionaries, \<open>nip/frames.ts\<close>, read as in \<open>WireFrames\<close>; the records and the unsigned dictionary of the ident frame are those
  of \<open>NipVerify\<close>. An unknown assurance level and a revocation whose parent does not fit its reason are thrown errors, values here.

  Proved: identity, trust and revocation frames are read back from their dictionaries with the same signed body; a revocation is accepted
  exactly when it names a parent for the reason \<open>parent_revoked\<close> and none for any other.
\<close>

datatype nip_frame_error = UnknownAssurance | RevokeInvalid

definition IdentFrame_toDict :: "IdentFrame \<Rightarrow> jsobj" where
  "IdentFrame_toDict f = unsignedDict f @ [(''signature'', JStr (if_signature f))] @ member_if ''cert_format'' JStr (if_certFormat f) @
     member_if ''cert_chain'' str_array (if_certChain f) @ member_if ''ocsp_staple'' JStr (if_ocspStaple f) @ member_if ''node_roles'' str_array (if_nodeRoles f)"

text \<open>\<open>Array.isArray\<close> decides whether a list member counts.\<close>

definition list_member :: "jsval option \<Rightarrow> string list option option" where
  "list_member v = (case v of Some (JArr vs) \<Rightarrow> map_option Some (as_strs (JArr vs)) | _ \<Rightarrow> Some None)"

definition IdentFrame_fromDict :: "jsobj \<Rightarrow> (nip_frame_error + IdentFrame) option" where
  "IdentFrame_fromDict data = do {
     nid \<leftarrow> req as_str (jo_get data ''nid'');
     key \<leftarrow> req as_str (jo_get data ''pub_key'');
     metadata \<leftarrow> req as_obj (jo_get data ''metadata'');
     signature \<leftarrow> req as_str (jo_get data ''signature'');
     fmt \<leftarrow> opt as_str (jo_get data ''cert_format'');
     chain \<leftarrow> list_member (jo_get data ''cert_chain'');
     staple \<leftarrow> opt as_str (jo_get data ''ocsp_staple'');
     roles \<leftarrow> list_member (jo_get data ''node_roles'');
     Some (case (case jo_get data ''assurance_level'' of Some (JStr s) \<Rightarrow> map_option Some (fromWire (Some s)) | _ \<Rightarrow> Some None) of
       None \<Rightarrow> Inl UnknownAssurance
     | Some lvl \<Rightarrow> Inr \<lparr>if_nid = nid, if_pubKey = key, if_metadata = metadata, if_signature = signature, if_assuranceLevel = lvl, if_certFormat = fmt,
         if_certChain = chain, if_ocspStaple = staple, if_nodeRoles = roles\<rparr>) }"

definition TrustFrame_unsignedDict :: "TrustFrame \<Rightarrow> jsobj" where
  "TrustFrame_unsignedDict f = [(''frame'', JStr ''0x21''), (''grantor_nid'', JStr (tf_grantorNid f)), (''grantee_ca'', JStr (tf_granteeCa f)),
     (''trust_scope'', str_array (tf_trustScope f)), (''nodes'', str_array (tf_nodes f)), (''issued_at'', JStr (tf_issuedAt f)),
     (''expires_at'', JStr (tf_expiresAt f)), (''serial'', JStr (tf_serial f)), (''signer_nid'', JStr (tf_signerNid f))]"

definition TrustFrame_toDict :: "TrustFrame \<Rightarrow> jsobj" where
  "TrustFrame_toDict f = TrustFrame_unsignedDict f @ [(''signature'', JStr (tf_signature f))]"

definition TrustFrame_fromDict :: "jsobj \<Rightarrow> TrustFrame option" where
  "TrustFrame_fromDict data = (let get = jo_get data in do {
     grantor \<leftarrow> req as_str (first_of (get ''grantor_nid'') (get ''issuer_nid''));
     grantee \<leftarrow> req as_str (first_of (get ''grantee_ca'') (get ''subject_nid''));
     scope \<leftarrow> dflt as_strs [] (first_of (get ''trust_scope'') (get ''scopes''));
     nodes \<leftarrow> dflt as_strs [] (get ''nodes'');
     issued \<leftarrow> dflt as_str [] (get ''issued_at'');
     expires \<leftarrow> req as_str (get ''expires_at'');
     serial \<leftarrow> dflt as_str [] (get ''serial'');
     signer \<leftarrow> dflt as_str [] (first_of (get ''signer_nid'') (first_of (get ''grantor_nid'') (get ''issuer_nid'')));
     signature \<leftarrow> req as_str (get ''signature'');
     Some \<lparr>tf_grantorNid = grantor, tf_granteeCa = grantee, tf_trustScope = scope, tf_nodes = nodes, tf_issuedAt = issued, tf_expiresAt = expires,
       tf_serial = serial, tf_signerNid = signer, tf_signature = signature\<rparr> })"

record RevokeFrame =
  rvf_targetNid :: string
  rvf_reason :: string
  rvf_revokedAt :: string
  rvf_signerNid :: string
  rvf_signature :: string
  rvf_serial :: "string option"
  rvf_parentNid :: "string option"

definition validateRevokeParentRule :: "string \<Rightarrow> string option \<Rightarrow> nip_frame_error option" where
  "validateRevokeParentRule reason parentNid =
     (if reason = ''parent_revoked'' then (if parentNid = None \<or> parentNid = Some [] then Some RevokeInvalid else None)
      else if parentNid \<noteq> None then Some RevokeInvalid else None)"

definition RevokeFrame_new :: "RevokeFrame \<Rightarrow> nip_frame_error + RevokeFrame" where
  "RevokeFrame_new f = (case validateRevokeParentRule (rvf_reason f) (rvf_parentNid f) of Some e \<Rightarrow> Inl e | None \<Rightarrow> Inr f)"

definition RevokeFrame_unsignedDict :: "RevokeFrame \<Rightarrow> jsobj" where
  "RevokeFrame_unsignedDict f = [(''frame'', JStr ''0x22''), (''target_nid'', JStr (rvf_targetNid f)), (''reason'', JStr (rvf_reason f)),
     (''revoked_at'', JStr (rvf_revokedAt f)), (''signer_nid'', JStr (rvf_signerNid f))] @ member_if ''serial'' JStr (rvf_serial f) @
     member_if ''parent_nid'' JStr (rvf_parentNid f)"

definition RevokeFrame_toDict :: "RevokeFrame \<Rightarrow> jsobj" where
  "RevokeFrame_toDict f = RevokeFrame_unsignedDict f @ [(''signature'', JStr (rvf_signature f))]"

definition RevokeFrame_fromDict :: "jsobj \<Rightarrow> (nip_frame_error + RevokeFrame) option" where
  "RevokeFrame_fromDict data = do {
     target \<leftarrow> req as_str (first_of (jo_get data ''target_nid'') (jo_get data ''nid''));
     reason \<leftarrow> req as_str (jo_get data ''reason'');
     at_time \<leftarrow> req as_str (jo_get data ''revoked_at'');
     signer \<leftarrow> dflt as_str [] (jo_get data ''signer_nid'');
     signature \<leftarrow> dflt as_str [] (jo_get data ''signature'');
     serial \<leftarrow> opt as_str (jo_get data ''serial'');
     parent \<leftarrow> opt as_str (jo_get data ''parent_nid'');
     Some (RevokeFrame_new \<lparr>rvf_targetNid = target, rvf_reason = reason, rvf_revokedAt = at_time, rvf_signerNid = signer, rvf_signature = signature,
       rvf_serial = serial, rvf_parentNid = parent\<rparr>) }"

section \<open>Round trips\<close>

lemma list_member_undo [wire]: "list_member (map_option str_array x) = Some x"
proof (cases x)
  case (Some xs)
  have "as_strs (str_array xs) = Some xs" using undoes_basic(5) by (simp add: undoes_def)
  with Some show ?thesis by (simp add: list_member_def str_array_def)
qed (simp add: list_member_def)

lemma fromWire_level: "fromWire (Some (level_wire l)) = Some l"
  by (cases l) (simp_all add: fromWire_def level_wire_def)

lemma unsignedDict_members: "unsignedDict f = [(''nid'', JStr (if_nid f)), (''pub_key'', JStr (if_pubKey f)), (''metadata'', JObj (if_metadata f))]
     @ member_if ''assurance_level'' (\<lambda>l. JStr (level_wire l)) (if_assuranceLevel f)"
  by (simp add: unsignedDict_def member_if_def split: option.splits)

theorem ident_frame_roundtrip: "IdentFrame_fromDict (IdentFrame_toDict f) = Some (Inr f)"
  by (cases "if_assuranceLevel f") (simp_all add: IdentFrame_fromDict_def IdentFrame_toDict_def unsignedDict_members wire fromWire_level)

lemma dflt_first_of [wire]: "undoes dec enc \<Longrightarrow> dflt dec d (first_of (Some (enc x)) b) = Some x"
  by (simp add: undoes_def first_of_value dflt_def opt_value)

theorem trust_frame_roundtrip: "TrustFrame_fromDict (TrustFrame_toDict f) = Some f"
  by (simp add: TrustFrame_fromDict_def TrustFrame_toDict_def TrustFrame_unsignedDict_def Let_def wire)

theorem revoke_frame_roundtrip: "RevokeFrame_fromDict (RevokeFrame_toDict f) = Some (RevokeFrame_new f)"
  by (cases f) (simp add: RevokeFrame_fromDict_def RevokeFrame_toDict_def RevokeFrame_unsignedDict_def wire)

theorem revoke_frame_accepted_iff:
  "RevokeFrame_new f = Inr f \<longleftrightarrow> (if rvf_reason f = ''parent_revoked'' then \<exists>c cs. rvf_parentNid f = Some (c # cs) else rvf_parentNid f = None)"
  by (cases "rvf_parentNid f"; cases "the (rvf_parentNid f)") (auto simp: RevokeFrame_new_def validateRevokeParentRule_def)

end
