(* ===== verification/NwpNative.thy ===== *)
theory NwpNative
  imports FrameReader FrameCodec JsonText NwpFrames
begin

text \<open>
  The native NWP server (\<open>nwp/native-server.ts\<close>): the dispatch of decoded frames to the query and the
  action handler, the encoding policy, and the loop that serves a stream of chunks. A handler is a function of
  the program state \<open>'s\<close> and the frame; the codec is the frame codec of \<open>core/codec.ts\<close> over the frame classes
  given by \<open>nsv_ops\<close>. The sink takes every write.
\<close>

section \<open>Frames, handlers and options\<close>

text \<open>The frames the server tells apart by \<open>instanceof\<close>; another frame is its type and its dictionary.\<close>

datatype native_frame = NQuery QueryFrameFull | NAction ActionFrame | NCaps CapsFrame | NError ErrorFrame | NOther byte jsobj

definition native_frameType :: "native_frame \<Rightarrow> byte" where
  "native_frameType f = (case f of NQuery q \<Rightarrow> 0x10 | NAction a \<Rightarrow> 0x11 | NCaps c \<Rightarrow> 0x04 | NError e \<Rightarrow> 0xFE | NOther t d \<Rightarrow> t)"

datatype query_answer = QCaps CapsFrame | QRows "jsobj list" | QResult "jsobj list" "string option" | QThrow string

datatype action_answer = ACaps CapsFrame | AFrame native_frame | ANothing | AValue jsobj | AThrow string

record 's native_server =
  nsv_ops :: "native_frame frame_ops"
  nsv_maxPayload :: nat
  nsv_num :: "rat \<Rightarrow> string"
  nsv_tier :: byte
  nsv_enabledEncodings :: "string list"
  nsv_anchorRef :: string
  nsv_queryHandler :: "('s \<Rightarrow> QueryFrameFull \<Rightarrow> query_answer \<times> 's) option"
  nsv_actionHandler :: "('s \<Rightarrow> ActionFrame \<Rightarrow> action_answer \<times> 's) option"

definition native_encodingToken :: "byte \<Rightarrow> string" where
  "native_encodingToken tier =
     (if tier = TIER_JSON then ''json'' else if tier = TIER_MSGPACK then ''msgpack''
      else if tier = TIER_BINARY_VECTOR then ''binary_vector.v1''
      else ''unknown:'' @ js_nat_string (unat tier))"

definition new_native_server :: "native_frame frame_ops \<Rightarrow> nat \<Rightarrow> (rat \<Rightarrow> string) \<Rightarrow> byte option \<Rightarrow> string list option \<Rightarrow> string option \<Rightarrow>
    ('s \<Rightarrow> QueryFrameFull \<Rightarrow> query_answer \<times> 's) option \<Rightarrow> ('s \<Rightarrow> ActionFrame \<Rightarrow> action_answer \<times> 's) option \<Rightarrow> 's native_server" where
  "new_native_server ops maxPayload num tier enabled anchorRef qh ah =
     (let t = (case tier of None \<Rightarrow> TIER_MSGPACK | Some t \<Rightarrow> t) in
      \<lparr>nsv_ops = ops, nsv_maxPayload = maxPayload, nsv_num = num, nsv_tier = t,
       nsv_enabledEncodings = (case enabled of None \<Rightarrow> [native_encodingToken t] | Some es \<Rightarrow> es),
       nsv_anchorRef = (case anchorRef of None \<Rightarrow> ''native:nwp'' | Some a \<Rightarrow> a),
       nsv_queryHandler = qh, nsv_actionHandler = ah\<rparr>)"

section \<open>Dispatch\<close>

definition estimateTokens :: "(rat \<Rightarrow> string) \<Rightarrow> jsobj list \<Rightarrow> nat" where
  "estimateTokens num rows = max 1 (length (json_stringify num (JArr (map JObj rows))) div 4)"

definition native_caps :: "string \<Rightarrow> nat \<Rightarrow> jsobj list \<Rightarrow> string option \<Rightarrow> nat option \<Rightarrow> string option \<Rightarrow> string option \<Rightarrow> CapsFrame" where
  "native_caps anchorRef n rows cursor tokens tokenizer requestId =
     \<lparr>cap_anchorRef = anchorRef, cap_count = of_nat n, cap_data = rows, cap_nextCursor = cursor,
      cap_tokenEst = map_option of_nat tokens, cap_cached = None, cap_tokenizerUsed = tokenizer, cap_requestId = requestId\<rparr>"

definition withRequestId :: "CapsFrame \<Rightarrow> string option \<Rightarrow> CapsFrame" where
  "withRequestId frame requestId = (case requestId of None \<Rightarrow> frame | Some r \<Rightarrow> frame\<lparr>cap_requestId := Some r\<rparr>)"

text \<open>A thrown error is its message.\<close>

definition coerceQueryResult :: "(rat \<Rightarrow> string) \<Rightarrow> string \<Rightarrow> query_answer \<Rightarrow> string + CapsFrame" where
  "coerceQueryResult num anchorRef r = (case r of
     QCaps c \<Rightarrow> Inr c
   | QRows rows \<Rightarrow> Inr (native_caps anchorRef (length rows) rows None (Some (estimateTokens num rows)) (Some ''native-estimate'') None)
   | QResult rows cursor \<Rightarrow> Inr (native_caps anchorRef (length rows) rows cursor (Some (estimateTokens num rows)) (Some ''native-estimate'') None)
   | QThrow message \<Rightarrow> Inl message)"

definition native_dispatchQuery :: "'s native_server \<Rightarrow> 's \<Rightarrow> QueryFrameFull \<Rightarrow> (string + CapsFrame) \<times> 's" where
  "native_dispatchQuery srv s frame = (case nsv_queryHandler srv of
     None \<Rightarrow> (Inl ''No native NWP query handler configured.'', s)
   | Some handle \<Rightarrow> (case handle s frame of (r, s') \<Rightarrow>
       (rbind (coerceQueryResult (nsv_num srv) (nsv_anchorRef srv) r) (\<lambda>c. Inr (withRequestId c (qx_requestId frame))), s')))"

definition native_dispatchAction :: "'s native_server \<Rightarrow> 's \<Rightarrow> ActionFrame \<Rightarrow> (string + native_frame) \<times> 's" where
  "native_dispatchAction srv s frame = (case nsv_actionHandler srv of
     None \<Rightarrow> (Inl ''No native NWP action handler configured.'', s)
   | Some handle \<Rightarrow> (case handle s frame of (r, s') \<Rightarrow>
       ((case r of
           ACaps c \<Rightarrow> Inr (NCaps (withRequestId c (af_requestId frame)))
         | AFrame f \<Rightarrow> Inr f
         | ANothing \<Rightarrow> Inr (NCaps (native_caps (nsv_anchorRef srv) 0 [] None None None (af_requestId frame)))
         | AValue v \<Rightarrow> Inr (NCaps (native_caps (nsv_anchorRef srv) 1 [v] None None None (af_requestId frame)))
         | AThrow message \<Rightarrow> Inl message), s')))"

definition hex_byte :: "byte \<Rightarrow> string" where
  "hex_byte b = (let n = unat b in
     if n < 16 then [hex_digit_lower n] else [hex_digit_lower (n div 16), hex_digit_lower (n mod 16)])"

definition native_error :: "string \<Rightarrow> string \<Rightarrow> string \<Rightarrow> ErrorFrame" where
  "native_error status code message = \<lparr>err_status = status, err_error = code, err_message = Some message, err_details = None\<rparr>"

definition native_settle :: "(string + native_frame) \<times> 's \<Rightarrow> native_frame \<times> 's" where
  "native_settle r = (case r of (Inr f, s) \<Rightarrow> (f, s)
     | (Inl message, s) \<Rightarrow> (NError (native_error ''NPS-SERVER-INTERNAL'' ''NWP-NATIVE-DISPATCH-FAILED'' message), s))"

definition native_dispatch :: "'s native_server \<Rightarrow> 's \<Rightarrow> native_frame \<Rightarrow> native_frame \<times> 's" where
  "native_dispatch srv s frame = (case frame of
     NQuery q \<Rightarrow> native_settle (apfst (map_sum id NCaps) (native_dispatchQuery srv s q))
   | NAction a \<Rightarrow> native_settle (native_dispatchAction srv s a)
   | _ \<Rightarrow> (NError (native_error ''NPS-CLIENT-BAD-FRAME'' ''NWP-NATIVE-FRAME-UNSUPPORTED''
            (''Native NWP server does not handle frame type 0x'' @ hex_byte (native_frameType frame) @ ''.'')), s))"

section \<open>The wire\<close>

definition encodingPolicyError :: "hdr \<Rightarrow> byte \<Rightarrow> string list \<Rightarrow> ErrorFrame option" where
  "encodingPolicyError header defaultTier enabled =
     (if hdr_encodingTier header = defaultTier then None
      else if hdr_encodingTier header = TIER_BINARY_VECTOR \<and> ''binary_vector.v1'' \<in> set enabled \<and> hdr_frameType header = 0x10 then None
      else Some (native_error ''NPS-SERVER-ENCODING-UNSUPPORTED'' ''NCP-ENCODING-UNSUPPORTED''
        (''Frame type 0x'' @ hex_byte (hdr_frameType header) @ '' used '' @ native_encodingToken (hdr_encodingTier header) @
         '', but the negotiated policy allows '' @ js_join '', '' enabled @ ''.'')))"

definition dispatchWire :: "'s native_server \<Rightarrow> 's \<Rightarrow> bytes \<Rightarrow> bytes nps_result \<times> 's" where
  "dispatchWire srv s wire = (case hdr_parse wire of Inl e \<Rightarrow> (Inl e, s)
   | Inr header \<Rightarrow>
       (case encodingPolicyError header (nsv_tier srv) (nsv_enabledEncodings srv) of
          Some e \<Rightarrow> (nc_encode (nsv_ops srv) (nsv_maxPayload srv) (NError e) (Some (nsv_tier srv)), s)
        | None \<Rightarrow> (case nc_decode (nsv_ops srv) wire of Inl e \<Rightarrow> (Inl e, s)
            | Inr frame \<Rightarrow> (case native_dispatch srv s frame of (response, s') \<Rightarrow>
                (nc_encode (nsv_ops srv) (nsv_maxPayload srv) response (Some (nsv_tier srv)), s')))))"

datatype serve_error = ServeFailed nps_error | TrailingBytes nat

record 's serving =
  sg_state :: 's
  sg_written :: "bytes list"

text \<open>The inner loop: the frames the buffer holds, up to an error or a frame that is not complete.\<close>

function native_drain :: "'s native_server \<Rightarrow> 's serving \<Rightarrow> bytes \<Rightarrow> serve_error option \<times> 's serving \<times> bytes" where
  "native_drain srv g buffer =
     (if length buffer < 4 then (None, g, buffer)
      else case hdr_parse buffer of Inl e \<Rightarrow> (Some (ServeFailed e), g, buffer)
      | Inr header \<Rightarrow>
          let n = hdr_headerSize header + hdr_payloadLength header in
          if length buffer < n then (None, g, buffer)
          else case dispatchWire srv (sg_state g) (take n buffer) of
              (Inl e, s') \<Rightarrow> (Some (ServeFailed e), g\<lparr>sg_state := s'\<rparr>, buffer)
            | (Inr reply, s') \<Rightarrow> native_drain srv \<lparr>sg_state = s', sg_written = sg_written g @ [reply]\<rparr> (drop n buffer))"
  by auto
termination native_drain
  by (relation "measure (\<lambda>(srv, g, b). length b)") (auto simp: hdr_headerSize_def header_consts)

declare native_drain.simps [simp del]

fun native_serve :: "'s native_server \<Rightarrow> 's serving \<Rightarrow> bytes \<Rightarrow> bytes list \<Rightarrow> serve_error option \<times> 's serving" where
  "native_serve srv g buffer [] = (if buffer \<noteq> [] then (Some (TrailingBytes (length buffer)), g) else (None, g))"
| "native_serve srv g buffer (chunk # chunks) = (case native_drain srv g (buffer @ chunk) of
     (Some e, g', rest) \<Rightarrow> (Some e, g')
   | (None, g', rest) \<Rightarrow> native_serve srv g' rest chunks)"

section \<open>The stream is served frame by frame\<close>

text \<open>The reference: the frames of the whole stream, one after the other, up to the first that fails.\<close>

fun native_replies :: "'s native_server \<Rightarrow> 's serving \<Rightarrow> bytes list \<Rightarrow> serve_error option \<times> 's serving" where
  "native_replies srv g [] = (None, g)"
| "native_replies srv g (w # ws) = (case dispatchWire srv (sg_state g) w of
     (Inl e, s') \<Rightarrow> (Some (ServeFailed e), g\<lparr>sg_state := s'\<rparr>)
   | (Inr reply, s') \<Rightarrow> native_replies srv \<lparr>sg_state = s', sg_written = sg_written g @ [reply]\<rparr> ws)"

text \<open>No frame of the stream, nor the incomplete one at its end, has an extended header.\<close>

definition no_extension :: "bytes \<Rightarrow> bool" where
  "no_extension b \<longleftrightarrow> length b < 2 \<or> b ! 1 AND EXT_BIT = 0"

definition plain_stream :: "bytes \<Rightarrow> bool" where
  "plain_stream b \<longleftrightarrow> (\<forall>(h, w) \<in> set (fst (split_frames b)). \<not> hdr_isExtended h) \<and> no_extension (snd (split_frames b))"

lemma parse_plain:
  "no_extension b \<Longrightarrow> 4 \<le> length b \<Longrightarrow> \<exists>h. hdr_parse b = Inr h \<and> \<not> hdr_isExtended h"
  by (auto simp: no_extension_def hdr_parse_def hdr_isExtended_def header_consts)

lemma parse_extension: "hdr_parse b = Inr h \<Longrightarrow> no_extension b \<longleftrightarrow> \<not> hdr_isExtended h"
  by (auto simp: no_extension_def hdr_parse_def hdr_isExtended_def Let_def split: if_splits)

lemma next_frame_plain: "next_frame b = Some (h, w, r) \<Longrightarrow> no_extension b \<longleftrightarrow> \<not> hdr_isExtended h"
  by (auto simp: next_frame_def Let_def parse_extension split: sum.splits if_splits)

lemma plain_head: "plain_stream b \<Longrightarrow> no_extension b"
  by (cases "next_frame b") (auto simp: plain_stream_def split_frames.simps [of b] next_frame_plain split: prod.splits)

lemma no_extension_append: "no_extension (a @ b) \<Longrightarrow> no_extension a"
  by (auto simp: no_extension_def nth_append split: if_splits)

lemma plain_append: "plain_stream (a @ b) \<Longrightarrow> plain_stream a \<and> plain_stream (snd (split_frames a) @ b)"
proof -
  assume p: "plain_stream (a @ b)"
  obtain fs t where s: "split_frames a = (fs, t)" by (cases "split_frames a")
  from p split_frames_append [OF s, of b]
  have q: "\<forall>(h, w) \<in> set fs. \<not> hdr_isExtended h" "plain_stream (t @ b)" by (auto simp: plain_stream_def)
  then have "no_extension t" by (blast dest: plain_head no_extension_append)
  then show ?thesis using s q by (simp add: plain_stream_def)
qed

lemma drain_frames:
  "plain_stream b \<Longrightarrow> split_frames b = (fs, t) \<Longrightarrow>
   (case native_drain srv g b of (e, g', rest) \<Rightarrow> (e, g') = native_replies srv g (map snd fs) \<and> (e = None \<longrightarrow> rest = t))"
proof (induction b arbitrary: fs g rule: split_frames.induct)
  case (1 b)
  have ne: "no_extension b" using 1(2) by (rule plain_head)
  show ?case
  proof (cases "next_frame b")
    case None
    with 1(3) have fs: "fs = []" "t = b" by (simp_all add: split_frames.simps [of b])
    have "native_drain srv g b = (None, g, b)"
      using parse_plain [OF ne] None by (auto simp: native_drain.simps [of srv g b] next_frame_def Let_def split: if_splits)
    then show ?thesis using fs by simp
  next
    case (Some p)
    obtain h w r where p: "p = (h, w, r)" by (cases p)
    obtain fs' where s: "split_frames r = (fs', t)" and fs: "fs = (h, w) # fs'"
      using 1(3) Some p by (auto simp: split_frames.simps [of b] split: prod.splits)
    have hp: "hdr_parse b = Inr h" and n: "\<not> length b < hdr_headerSize h + hdr_payloadLength h"
      and w: "w = take (hdr_headerSize h + hdr_payloadLength h) b" and r: "r = drop (hdr_headerSize h + hdr_payloadLength h) b"
      using Some p by (auto simp: next_frame_def Let_def split: sum.splits if_splits)
    have l: "\<not> length b < 4" using n hdr_headerSize_pos [of h] by simp
    have pr: "plain_stream r" using 1(2) Some p s by (auto simp: plain_stream_def split_frames.simps [of b])
    have IH: "case native_drain srv g' r of (e, g'', rest) \<Rightarrow> (e, g'') = native_replies srv g' (map snd fs') \<and> (e = None \<longrightarrow> rest = t)" for g'
      by (rule 1(1) [OF Some _ _ pr s]) (simp_all add: p)
    obtain d s' where d: "dispatchWire srv (sg_state g) w = (d, s')" by (cases "dispatchWire srv (sg_state g) w")
    show ?thesis
      using l hp n d IH by (cases d) (simp_all add: native_drain.simps [of srv g b] fs flip: w r)
  qed
qed

lemma replies_append:
  "native_replies srv g (xs @ ys) = (case native_replies srv g xs of (None, g') \<Rightarrow> native_replies srv g' ys | (Some e, g') \<Rightarrow> (Some e, g'))"
  by (induction xs arbitrary: g) (auto split: prod.splits sum.splits)

lemma serve_frames:
  "plain_stream (buffer @ concat cs) \<Longrightarrow> split_frames buffer = ([], buffer) \<Longrightarrow> split_frames (buffer @ concat cs) = (fs, t) \<Longrightarrow>
   native_serve srv g buffer cs = (case native_replies srv g (map snd fs) of
      (Some e, g') \<Rightarrow> (Some e, g')
    | (None, g') \<Rightarrow> (if t \<noteq> [] then Some (TrailingBytes (length t)) else None, g'))"
proof (induction cs arbitrary: buffer g fs)
  case Nil
  then show ?case by simp
next
  case (Cons c cs)
  obtain fs1 t1 where s1: "split_frames (buffer @ c) = (fs1, t1)" by (cases "split_frames (buffer @ c)")
  obtain fs2 where s2: "split_frames (t1 @ concat cs) = (fs2, t)" and fs: "fs = fs1 @ fs2"
    using Cons.prems(3) split_frames_append [OF s1, of "concat cs"] by (cases "split_frames (t1 @ concat cs)") simp
  have p: "plain_stream (buffer @ c)" "plain_stream (t1 @ concat cs)"
    using plain_append [of "buffer @ c" "concat cs"] Cons.prems(1) s1 by simp_all
  note IH = Cons.IH [OF p(2) split_frames_rest [OF s1] s2]
  show ?case
    using drain_frames [OF p(1) s1, of srv g]
    by (auto simp: fs replies_append IH split: prod.splits option.splits)
qed

text \<open>
  However a stream of frames with plain headers is cut into chunks, the server writes the replies of its
  frames in their order, stops at the first frame that fails, and otherwise reports the bytes left over.
\<close>

theorem native_serve_chunking:
  assumes "plain_stream (concat cs)" and "split_frames (concat cs) = (fs, t)"
  shows "native_serve srv g [] cs = (case native_replies srv g (map snd fs) of
      (Some e, g') \<Rightarrow> (Some e, g')
    | (None, g') \<Rightarrow> (if t \<noteq> [] then Some (TrailingBytes (length t)) else None, g'))"
  using serve_frames [of "[]" cs fs t srv g] assms by (simp add: split_frames.simps [of "[]"] next_frame_def hdr_parse_def)

text \<open>
  An extended header is not waited for: when a chunk ends after four to seven of its eight bytes, the loop
  parses what it has and the whole session fails, whatever would have followed.
\<close>

theorem native_extended_header_cut:
  assumes "hdr_isExtended h" and "4 \<le> n" "n < 8"
  shows "native_serve srv g [] (take n (hdr_toBytes h @ payload) # drop n (hdr_toBytes h @ payload) # cs) = (Some (ServeFailed NpsFrameError), g)"
proof -
  let ?w = "hdr_toBytes h @ payload"
  have l: "8 \<le> length ?w" using assms(1) by (simp add: hdr_headerSize_def header_consts)
  define u where "u = take n ?w"
  have u: "length u = n" "u ! 1 = hdr_flags h" using assms l unfolding u_def by (simp_all add: hdr_toBytes_def nth_append)
  then have "hdr_parse u = Inl NpsFrameError"
    using assms by (simp add: hdr_parse_def hdr_isExtended_def header_consts)
  then have "native_drain srv g u = (Some (ServeFailed NpsFrameError), g, u)"
    using u assms(2) by (simp add: native_drain.simps [of srv g u])
  then show ?thesis unfolding u_def by simp
qed

section \<open>What a reply carries\<close>

lemma query_reply:
  "nsv_queryHandler srv = Some handle \<Longrightarrow> handle s q = (r, s') \<Longrightarrow> coerceQueryResult (nsv_num srv) (nsv_anchorRef srv) r = Inr c \<Longrightarrow>
   qx_requestId q = Some i \<Longrightarrow> \<exists>c'. native_dispatch srv s (NQuery q) = (NCaps c', s') \<and> cap_requestId c' = Some i \<and> cap_data c' = cap_data c"
  by (simp add: native_dispatch_def native_dispatchQuery_def native_settle_def withRequestId_def)

lemma query_rows_counted:
  "coerceQueryResult num a (QResult rows cursor) = Inr c \<Longrightarrow> cap_count c = of_nat (length (cap_data c)) \<and> cap_nextCursor c = cursor \<and>
    (\<exists>n. cap_tokenEst c = Some n \<and> 1 \<le> n)"
  by (auto simp: coerceQueryResult_def native_caps_def estimateTokens_def)

text \<open>A frame in another encoding than the negotiated one reaches a handler only as a binary-vector query that was negotiated.\<close>

lemma encoding_enforced:
  "hdr_parse wire = Inr header \<Longrightarrow> hdr_encodingTier header \<noteq> nsv_tier srv \<Longrightarrow>
   \<not> (hdr_encodingTier header = TIER_BINARY_VECTOR \<and> ''binary_vector.v1'' \<in> set (nsv_enabledEncodings srv) \<and> hdr_frameType header = 0x10) \<Longrightarrow>
   snd (dispatchWire srv s wire) = s"
  by (auto simp: dispatchWire_def encodingPolicyError_def)

end
