(* ===== verification/NwpComplexServer.thy ===== *)
theory NwpComplexServer
  imports NwpMemoryServer NwpFrames
begin

text \<open>
  The Complex Node (\<open>nwp/complex-server.ts\<close>): its options, manifest, routes, \<open>/query\<close> with graph expansion and
  \<open>/invoke\<close>. The answers of the provider and of the child nodes are arguments; \<open>net_fetch\<close> composes nodes into a
  network in which the children of a node are nodes again.

  Proved: a request is passed on at most five times, from node to node without returning to one, so every
  request to a network is answered; what a child is sent; the errors of \<open>/invoke\<close>.
\<close>

section \<open>Options\<close>

definition COMPLEX_ABSOLUTE_MAX_DEPTH :: nat where "COMPLEX_ABSOLUTE_MAX_DEPTH = 5"

record ComplexGraphRef =
  cg_rel :: string
  cg_nodeUrl :: string

record ComplexNodeOptions =
  cno_nodeId :: string
  cno_displayName :: "string option"
  cno_pathPrefix :: string
  cno_schema :: "MemoryNodeSchema option"
  cno_actions :: "(string, ActionSpec) jsmap option"
  cno_graph :: "ComplexGraphRef list option"
  cno_graphMaxDepth :: "rat option"
  cno_allowedChildUrlPrefixes :: "string list option"
  cno_rejectPrivateChildUrls :: "bool option"
  cno_allowHttpChildUrls :: "bool option"
  cno_requireAuth :: "bool option"
  cno_defaultTimeoutMs :: "rat option"
  cno_maxTimeoutMs :: "rat option"

definition cx_actions :: "ComplexNodeOptions \<Rightarrow> (string, ActionSpec) jsmap" where "cx_actions o' = opt_or [] (cno_actions o')"
definition cx_graph :: "ComplexNodeOptions \<Rightarrow> ComplexGraphRef list" where "cx_graph o' = opt_or [] (cno_graph o')"
definition cx_graphMaxDepth :: "ComplexNodeOptions \<Rightarrow> rat" where "cx_graphMaxDepth o' = opt_or 2 (cno_graphMaxDepth o')"
definition cx_requireAuth :: "ComplexNodeOptions \<Rightarrow> bool" where "cx_requireAuth o' = opt_or False (cno_requireAuth o')"
definition cx_maxTimeoutMs :: "ComplexNodeOptions \<Rightarrow> rat" where "cx_maxTimeoutMs o' = opt_or 300000 (cno_maxTimeoutMs o')"

text \<open>The checks of the constructor: false when it throws.\<close>

definition complex_constructible :: "ComplexNodeOptions \<Rightarrow> bool" where
  "complex_constructible o' \<longleftrightarrow> \<not> (js_has (cx_actions o') SYSTEM_TASK_STATUS \<or> js_has (cx_actions o') SYSTEM_TASK_CANCEL) \<and>
     \<not> cx_graphMaxDepth o' > of_nat COMPLEX_ABSOLUTE_MAX_DEPTH"

definition strip_slashes :: "string \<Rightarrow> string" where
  "strip_slashes s = rev (dropWhile (\<lambda>c. c = CHR ''/'') (rev s))"

definition complex_prefix :: "ComplexNodeOptions \<Rightarrow> string" where
  "complex_prefix o' = strip_slashes (cno_pathPrefix o')"

section \<open>Static payloads\<close>

text \<open>What the code takes from its environment: \<open>Number\<close> (\<open>None\<close> is \<open>NaN\<close> or infinite), \<open>String\<close> of a number, \<open>new URL\<close>, the hash, the texts of the
  child errors and of a response.\<close>

datatype child_reason = ChildRefused child_refusal | ChildStatus nat string | ChildNotJson string | ChildTimedOut | ChildThrew string

record js_lib =
  jl_number :: "string \<Rightarrow> rat option"
  jl_numStr :: "rat \<Rightarrow> string"
  jl_parseUrl :: "string \<Rightarrow> parsed_url option"
  jl_sha256 :: "string \<Rightarrow> string"
  jl_message :: "string \<Rightarrow> child_reason \<Rightarrow> string"
  jl_text :: "http_body \<Rightarrow> string"

definition complex_frame_schema :: "MemoryNodeSchema \<Rightarrow> jsval" where
  "complex_frame_schema schema = JObj [(''fields'', JArr (map (\<lambda>f. JObj [(''name'', JStr (sf_name f)), (''type'', JStr (sf_type f)),
     (''nullable'', JBool (opt_or True (sf_nullable f)))]) (ms_fields schema)))]"

definition complex_schemaJson :: "ComplexNodeOptions \<Rightarrow> jsval" where
  "complex_schemaJson o' = (case cno_schema o' of None \<Rightarrow> JObj [] | Some schema \<Rightarrow> complex_frame_schema schema)"

definition complex_anchorId :: "js_lib \<Rightarrow> ComplexNodeOptions \<Rightarrow> string" where
  "complex_anchorId lib o' = (case cno_schema o' of None \<Rightarrow> []
     | Some schema \<Rightarrow> ''sha256:'' @ jl_sha256 lib (json_stringify (jl_numStr lib) (complex_frame_schema schema)))"

definition complex_action_entry :: "ActionSpec \<Rightarrow> jsobj" where
  "complex_action_entry spec = [(''async'', JBool (opt_or False (asp_async spec)))] @
     opt_field ''description'' JStr (asp_description spec) @ opt_field ''params_anchor'' JStr (asp_paramsAnchor spec) @
     opt_field ''result_anchor'' JStr (asp_resultAnchor spec) @ opt_field ''timeout_ms_default'' JNum (asp_timeoutMsDefault spec) @
     opt_field ''timeout_ms_max'' JNum (asp_timeoutMsMax spec) @ opt_field ''required_capability'' JStr (asp_requiredCapability spec)"

definition complex_actionsDict :: "ComplexNodeOptions \<Rightarrow> jsobj" where
  "complex_actionsDict o' = map (\<lambda>(actionId, spec). (actionId, JObj (complex_action_entry spec))) (cx_actions o')"

definition complex_graphNwm :: "ComplexNodeOptions \<Rightarrow> jsval" where
  "complex_graphNwm o' = (if cx_graph o' = [] then JNull
     else JObj [(''refs'', JArr (map (\<lambda>r. JObj [(''rel'', JStr (cg_rel r)), (''node_url'', JStr (cg_nodeUrl r))]) (cx_graph o'))),
                (''max_depth'', JNum (cx_graphMaxDepth o'))])"

definition complex_manifest :: "js_lib \<Rightarrow> ComplexNodeOptions \<Rightarrow> jsobj" where
  "complex_manifest lib o' = (let base = complex_prefix o'; auth = cx_requireAuth o' in
     [(''nwp'', JStr ''0.4''), (''node_id'', JStr (cno_nodeId o')), (''node_type'', JStr ''complex''),
      (''display_name'', opt_str (cno_displayName o')), (''wire_formats'', JArr [JStr ''ncp-capsule'', JStr ''json'']),
      (''preferred_format'', JStr ''json''),
      (''schema_anchors'', case cno_schema o' of None \<Rightarrow> JNull | Some _ \<Rightarrow> JObj [(''default'', JStr (complex_anchorId lib o'))]),
      (''capabilities'', JObj [(''query'', JBool (cno_schema o' \<noteq> None \<or> cx_graph o' \<noteq> [])), (''stream'', JBool False),
         (''token_budget_hint'', JBool True)]),
      (''auth'', JObj [(''required'', JBool auth), (''identity_type'', JStr (if auth then ''nip-cert'' else ''none''))]),
      (''endpoints'', JObj ([(''query'', JStr (base @ ''/query'')), (''schema'', JStr (base @ ''/.schema''))] @
         (if cx_actions o' \<noteq> [] then [(''invoke'', JStr (base @ ''/invoke''))] else []))),
      (''graph'', complex_graphNwm o')])"

section \<open>/query\<close>

text \<open>A request with the headers the node reads. The body of \<open>/query\<close> is \<open>None\<close> when it cannot be read as a query frame; the body of
  \<open>/invoke\<close> is no JSON, the JSON \<open>null\<close>, or an action.\<close>

datatype complex_invoke_body = InvokeNotJson | InvokeNull | InvokeAction invoke_body

record complex_request =
  cq_pathname :: string
  cq_method :: string
  cq_agent :: "string option"
  cq_budget :: "string option"
  cq_depth :: "string option"
  cq_trace :: "string option"
  cq_frame :: "QueryFrameFull option"
  cq_invoke :: complex_invoke_body

definition parseTrace :: "string option \<Rightarrow> string list" where
  "parseTrace raw = (case raw of None \<Rightarrow> [] | Some s \<Rightarrow>
     if s = [] then [] else filter (\<lambda>x. x \<noteq> []) (map js_trim (js_split CHR '','' s)))"

definition complex_type_header :: "string \<times> string" where
  "complex_type_header = (''x-nwp-node-type'', ''complex'')"

definition depth_refused :: http_response where
  "depth_refused = errorResponse 400 ''NPS-CLIENT-BAD-REQUEST'' ''NWP-DEPTH-EXCEEDED''"

definition complex_depth :: "js_lib \<Rightarrow> ComplexNodeOptions \<Rightarrow> string option \<Rightarrow> http_response + nat" where
  "complex_depth lib o' depthRaw = (case depthRaw of None \<Rightarrow> Inr 0
   | Some raw \<Rightarrow> (case jl_number lib raw of None \<Rightarrow> Inl depth_refused
     | Some parsed \<Rightarrow>
         if of_int (floor parsed) \<noteq> parsed \<or> parsed < 0 then Inl depth_refused
         else if parsed > cx_graphMaxDepth o' then Inl depth_refused
         else if parsed > of_nat COMPLEX_ABSOLUTE_MAX_DEPTH then Inl depth_refused
         else Inr (nat (floor parsed))))"

text \<open>What \<open>handleQuery\<close> decides before it asks the provider: the frame, the depth and the trace.\<close>

definition complex_query_start :: "js_lib \<Rightarrow> ComplexNodeOptions \<Rightarrow> complex_request \<Rightarrow> http_response + QueryFrameFull \<times> nat \<times> string list" where
  "complex_query_start lib o' rq = (case cq_frame rq of
     None \<Rightarrow> Inl (errorResponse 400 ''NPS-CLIENT-BAD-REQUEST'' ''NWP-QUERY-FILTER-INVALID'')
   | Some frame \<Rightarrow> rbind (complex_depth lib o' (cq_depth rq)) (\<lambda>requestedDepth.
       let trace = parseTrace (cq_trace rq) in
       if cno_nodeId o' \<in> set trace then Inl (errorResponse 422 ''NPS-CLIENT-UNPROCESSABLE'' ''NWP-GRAPH-CYCLE'')
       else Inr (frame, requestedDepth, trace)))"

record child_request =
  chq_url :: string
  chq_depth :: string
  chq_trace :: string
  chq_agent :: "string option"
  chq_budget :: "string option"
  chq_body :: jsobj

datatype child_reply = ChildResponse nat string "jsval option" | ChildAborted | ChildFailed string

definition truthy_text :: "string option \<Rightarrow> string option" where
  "truthy_text x = (if x = Some [] then None else x)"

definition child_call :: "js_lib \<Rightarrow> ComplexNodeOptions \<Rightarrow> complex_request \<Rightarrow> QueryFrameFull \<Rightarrow> nat \<Rightarrow> string list \<Rightarrow> ComplexGraphRef \<Rightarrow> child_refusal + child_request" where
  "child_call lib o' parentReq frame childDepth nextTrace ref =
     (case validateChildUrl (jl_parseUrl lib) (cg_nodeUrl ref) (opt_or [] (cno_allowedChildUrlPrefixes o'))
             (opt_or True (cno_rejectPrivateChildUrls o')) (opt_or False (cno_allowHttpChildUrls o')) of
        Some refusal \<Rightarrow> Inl refusal
      | None \<Rightarrow> Inr \<lparr>chq_url = strip_slashes (cg_nodeUrl ref) @ ''/query'', chq_depth = jl_numStr lib (of_nat childDepth),
          chq_trace = js_join '','' nextTrace, chq_agent = truthy_text (cq_agent parentReq), chq_budget = truthy_text (cq_budget parentReq),
          chq_body = QueryFrame_toDict frame\<rparr>)"

definition child_error :: "js_lib \<Rightarrow> ComplexGraphRef \<Rightarrow> string \<Rightarrow> child_reason \<Rightarrow> jsval" where
  "child_error lib ref code reason = JObj [(''rel'', JStr (cg_rel ref)), (''node'', JStr (cg_nodeUrl ref)),
     (''error'', JObj [(''code'', JStr code), (''message'', JStr (jl_message lib (cg_rel ref) reason))])]"

definition child_outcome :: "js_lib \<Rightarrow> ComplexGraphRef \<Rightarrow> child_reply \<Rightarrow> jsval" where
  "child_outcome lib ref reply = (case reply of
     ChildResponse status body parsed \<Rightarrow>
       if \<not> (200 \<le> status \<and> status \<le> 299) then child_error lib ref ''NWP-NODE-UNAVAILABLE'' (ChildStatus status body)
       else (case parsed of
           Some data \<Rightarrow> JObj [(''rel'', JStr (cg_rel ref)), (''node'', JStr (cg_nodeUrl ref)), (''data'', data)]
         | None \<Rightarrow> child_error lib ref ''NWP-NODE-UNAVAILABLE'' (ChildNotJson body))
   | ChildAborted \<Rightarrow> child_error lib ref ''NWP-NODE-UNAVAILABLE'' ChildTimedOut
   | ChildFailed message \<Rightarrow> child_error lib ref ''NWP-NODE-UNAVAILABLE'' (ChildThrew message))"

text \<open>The reply of a child is an argument; \<open>None\<close> is a reply that is not computed (see \<open>net_fetch\<close>).\<close>

definition fetchChild :: "js_lib \<Rightarrow> ComplexNodeOptions \<Rightarrow> (child_request \<Rightarrow> child_reply option) \<Rightarrow> complex_request \<Rightarrow> QueryFrameFull \<Rightarrow> nat \<Rightarrow> string list \<Rightarrow>
    ComplexGraphRef \<Rightarrow> jsval option" where
  "fetchChild lib o' childFetch parentReq frame childDepth nextTrace ref = (case child_call lib o' parentReq frame childDepth nextTrace ref of
     Inl refusal \<Rightarrow> Some (child_error lib ref ''NWP-AUTH-NID-SCOPE-VIOLATION'' (ChildRefused refusal))
   | Inr call \<Rightarrow> map_option (child_outcome lib ref) (childFetch call))"

definition complex_caps :: "js_lib \<Rightarrow> ComplexNodeOptions \<Rightarrow> jsobj list \<Rightarrow> string option \<Rightarrow> jsval list option \<Rightarrow> http_response" where
  "complex_caps lib o' rows nextCursor graphElement = (let anchorId = complex_anchorId lib o' in
     \<lparr>hr_status = 200,
      hr_headers = [(''content-type'', ''application/nwp-capsule''), complex_type_header] @ (if anchorId \<noteq> [] then [(''x-nwp-schema'', anchorId)] else []),
      hr_body = JsonBody (JObj ([(''anchor_ref'', if anchorId \<noteq> [] then JStr anchorId else JNull), (''count'', JNum (of_nat (length rows))),
        (''data'', JArr (map JObj rows))] @ opt_field ''next_cursor'' JStr nextCursor @ opt_field ''graph'' JArr graphElement))\<rparr>)"

text \<open>The provider's answer to a query: its rows and the next cursor, or \<open>None\<close> when it throws.\<close>

definition complex_handleQuery :: "js_lib \<Rightarrow> ComplexNodeOptions \<Rightarrow> (QueryFrameFull \<Rightarrow> (jsobj list \<times> string option) option) \<Rightarrow> (child_request \<Rightarrow> child_reply option) \<Rightarrow>
    complex_request \<Rightarrow> http_response option" where
  "complex_handleQuery lib o' query childFetch rq = (case complex_query_start lib o' rq of
     Inl refused \<Rightarrow> Some refused
   | Inr (frame, requestedDepth, trace) \<Rightarrow>
       (case query frame of None \<Rightarrow> Some (errorResponse 500 ''NPS-SERVER-INTERNAL'' ''NWP-NODE-UNAVAILABLE'')
        | Some (rows, nextCursor) \<Rightarrow>
            if requestedDepth > 0 \<and> cx_graph o' \<noteq> []
            then map_option (\<lambda>graphElement. complex_caps lib o' rows nextCursor (Some graphElement))
                   (those (map (fetchChild lib o' childFetch rq frame (requestedDepth - 1) (trace @ [cno_nodeId o'])) (cx_graph o')))
            else Some (complex_caps lib o' rows nextCursor None)))"

section \<open>/invoke\<close>

definition complex_find_spec :: "ComplexNodeOptions \<Rightarrow> string \<Rightarrow> ActionSpec option" where
  "complex_find_spec o' actionId = (case js_get (cx_actions o') actionId of
     Some spec \<Rightarrow> Some spec
   | None \<Rightarrow> if actionId \<in> set object_members then Some empty_spec else None)"

definition complex_clampTimeout :: "ComplexNodeOptions \<Rightarrow> rat \<Rightarrow> ActionSpec \<Rightarrow> rat" where
  "complex_clampTimeout o' requested spec =
     (let specMax = opt_or (cx_maxTimeoutMs o') (asp_timeoutMsMax spec);
          hardMax = min specMax (cx_maxTimeoutMs o') in
      if requested \<le> 0 then opt_or (opt_or 5000 (cno_defaultTimeoutMs o')) (asp_timeoutMsDefault spec)
      else if requested > hardMax then hardMax else requested)"

definition complex_result :: "js_lib \<Rightarrow> ActionSpec \<Rightarrow> string option \<Rightarrow> ActionExecutionResult \<Rightarrow> http_response" where
  "complex_result lib spec requestId r =
     (let anchorRef = opt_or (opt_or [] (asp_resultAnchor spec)) (aer_anchorRef r);
          data = (case aer_result r of None \<Rightarrow> [] | Some JNull \<Rightarrow> [] | Some v \<Rightarrow> [v]);
          tokenEst = opt_or 0 (aer_tokenEst r) in
      \<lparr>hr_status = 200,
       hr_headers = [(''content-type'', ''application/nwp-capsule''), complex_type_header] @
         (if anchorRef \<noteq> [] then [(''x-nwp-schema'', anchorRef)] else []) @
         (if tokenEst > 0 then [(''x-nwp-tokens'', jl_numStr lib tokenEst)] else []) @
         (case requestId of None \<Rightarrow> [] | Some i \<Rightarrow> [(''x-nwp-request-id'', i)]),
       hr_body = JsonBody (JObj ([(''anchor_ref'', JStr anchorRef), (''count'', JNum (of_nat (length data))), (''data'', JArr data)] @
         (if tokenEst > 0 then [(''token_est'', JNum tokenEst)] else [])))\<rparr>)"

text \<open>The provider's answer, and whether its signal was aborted before it came: the answer is awaited in any case. \<open>Inl ()\<close> is a rejected promise of
  \<open>fetch\<close>: the frame is read outside the \<open>try\<close> block.\<close>

definition complex_handleInvoke :: "js_lib \<Rightarrow> ComplexNodeOptions \<Rightarrow> (ActionFrame \<Rightarrow> ActionContext \<Rightarrow> (provider_error + ActionExecutionResult) \<times> bool) \<Rightarrow>
    complex_request \<Rightarrow> unit + http_response" where
  "complex_handleInvoke lib o' runs rq = (case cq_invoke rq of
     InvokeNotJson \<Rightarrow> Inr (errorResponse 400 ''NPS-CLIENT-BAD-REQUEST'' ''NWP-ACTION-PARAMS-INVALID'')
   | InvokeNull \<Rightarrow> Inl ()
   | InvokeAction body \<Rightarrow>
       let frame = ib_frame body in
       (case complex_find_spec o' (af_actionId frame) of
          None \<Rightarrow> Inr (errorResponse 404 ''NPS-CLIENT-NOT-FOUND'' ''NWP-ACTION-NOT-FOUND'')
        | Some spec \<Rightarrow>
            if af_async frame = Some True then Inr (errorResponse 400 ''NPS-CLIENT-BAD-REQUEST'' ''NWP-ACTION-PARAMS-INVALID'')
            else if ib_priority body \<notin> {None, Some ''low'', Some ''normal'', Some ''high''}
            then Inr (errorResponse 400 ''NPS-CLIENT-BAD-REQUEST'' ''NWP-ACTION-PARAMS-INVALID'')
            else let timeoutMs = complex_clampTimeout o' (opt_or 0 (af_timeoutMs frame)) spec;
                     ctx = \<lparr>acx_agentNid = cq_agent rq, acx_requestId = ib_requestId body, acx_taskId = None, acx_spec = spec,
                            acx_timeoutMs = timeoutMs, acx_priority = opt_or ''normal'' (ib_priority body), acx_wireInputBytes = ib_wireInputBytes body\<rparr> in
              Inr (case runs frame ctx of
                     (Inr r, aborted) \<Rightarrow> complex_result lib spec (ib_requestId body) r
                   | (Inl (ActionExecutionError status nps code message), aborted) \<Rightarrow> errorResponse status nps code
                   | (Inl (OtherError message), aborted) \<Rightarrow>
                       if aborted then errorResponse 504 ''NPS-SERVER-TIMEOUT'' ''NWP-NODE-UNAVAILABLE''
                       else errorResponse 500 ''NPS-SERVER-INTERNAL'' ''NWP-NODE-UNAVAILABLE'')))"

section \<open>fetch\<close>

record complex_node =
  cn_opt :: ComplexNodeOptions
  cn_query :: "QueryFrameFull \<Rightarrow> (jsobj list \<times> string option) option"
  cn_execute :: "ActionFrame \<Rightarrow> ActionContext \<Rightarrow> (provider_error + ActionExecutionResult) \<times> bool"

text \<open>\<open>NullComplexNodeProvider\<close>.\<close>

definition null_query :: "QueryFrameFull \<Rightarrow> (jsobj list \<times> string option) option" where
  "null_query frame = Some ([], None)"

definition null_execute :: "ActionFrame \<Rightarrow> ActionContext \<Rightarrow> (provider_error + ActionExecutionResult) \<times> bool" where
  "null_execute frame ctx = (Inl (OtherError ''NullComplexNodeProvider does not handle actions.''), False)"

definition complex_fetch :: "js_lib \<Rightarrow> complex_node \<Rightarrow> (child_request \<Rightarrow> child_reply option) \<Rightarrow> complex_request \<Rightarrow> (unit + http_response) option" where
  "complex_fetch lib node childFetch rq =
     (let o' = cn_opt node; path = cq_pathname rq; pre = complex_prefix o'; sub = drop (length pre) path;
          notAllowed = \<lparr>hr_status = 405, hr_headers = [], hr_body = NoBody\<rparr> in
      if \<not> js_startsWith (js_toLowerCase path) (js_toLowerCase pre) then Some (Inr notFound)
      else if cx_requireAuth o' \<and> truthy_text (cq_agent rq) = None
      then Some (Inr (errorResponse 401 ''NPS-CLIENT-UNAUTHORIZED'' ''NWP-AUTH-NID-SCOPE-VIOLATION''))
      else if sub = ''/.nwm'' \<or> sub = ''/.nwm/''
      then Some (Inr \<lparr>hr_status = 200, hr_headers = [(''content-type'', ''application/nwp-manifest+json''), complex_type_header],
              hr_body = JsonBody (JObj (complex_manifest lib o'))\<rparr>)
      else if sub = ''/.schema'' \<or> sub = ''/.schema/''
      then Some (Inr \<lparr>hr_status = 200,
              hr_headers = (''content-type'', ''application/json'') # (if complex_anchorId lib o' \<noteq> [] then [(''x-nwp-schema'', complex_anchorId lib o')] else []),
              hr_body = JsonBody (complex_schemaJson o')\<rparr>)
      else if sub = ''/actions'' \<or> sub = ''/actions/''
      then Some (Inr \<lparr>hr_status = 200, hr_headers = [(''content-type'', ''application/json'')],
              hr_body = JsonBody (JObj [(''actions'', JObj (complex_actionsDict o'))])\<rparr>)
      else if sub = ''/query'' \<or> sub = ''/query/''
      then (if cq_method rq \<noteq> ''POST'' then Some (Inr notAllowed) else map_option Inr (complex_handleQuery lib o' (cn_query node) childFetch rq))
      else if sub = ''/invoke'' \<or> sub = ''/invoke/''
      then (if cq_method rq \<noteq> ''POST'' then Some (Inr notAllowed) else Some (complex_handleInvoke lib o' (cn_execute node) rq))
      else Some (Inr notFound))"

section \<open>A network of nodes\<close>

text \<open>The nodes by the URL of their \<open>/query\<close>, with the path a request to that URL has. A URL without a node cannot be reached.\<close>

type_synonym network = "string \<Rightarrow> (complex_node \<times> string) option"

definition received :: "string \<Rightarrow> child_request \<Rightarrow> complex_request" where
  "received path call = \<lparr>cq_pathname = path, cq_method = ''POST'', cq_agent = chq_agent call, cq_budget = chq_budget call, cq_depth = Some (chq_depth call),
     cq_trace = Some (chq_trace call), cq_frame = QueryFrame_fromDict (chq_body call), cq_invoke = InvokeNotJson\<rparr>"

definition body_json :: "http_body \<Rightarrow> jsval option" where
  "body_json b = (case b of JsonBody v \<Rightarrow> Some v | ErrorBody nps code \<Rightarrow> Some (JObj [(''status'', JStr nps), (''error'', JStr code)]) | _ \<Rightarrow> None)"

definition reply_of :: "js_lib \<Rightarrow> unit + http_response \<Rightarrow> child_reply" where
  "reply_of lib r = (case r of Inl u \<Rightarrow> ChildResponse 500 [] None
     | Inr resp \<Rightarrow> ChildResponse (hr_status resp) (jl_text lib (hr_body resp)) (body_json (hr_body resp)))"

text \<open>The fuel bounds the calls from node to node; without fuel there is no result.\<close>

fun net_fetch :: "nat \<Rightarrow> js_lib \<Rightarrow> network \<Rightarrow> complex_node \<Rightarrow> complex_request \<Rightarrow> (unit + http_response) option" where
  "net_fetch 0 lib net node rq = None"
| "net_fetch (Suc k) lib net node rq = complex_fetch lib node
     (\<lambda>call. case net (chq_url call) of None \<Rightarrow> Some (ChildFailed ''unreachable'')
        | Some (child, path) \<Rightarrow> map_option (reply_of lib) (net_fetch k lib net child (received path call))) rq"

section \<open>Traces\<close>

text \<open>A node id that survives the trace header: not empty, without commas and without blanks around it.\<close>

definition plain_id :: "string \<Rightarrow> bool" where
  "plain_id x \<longleftrightarrow> x \<noteq> [] \<and> CHR '','' \<notin> set x \<and> js_trim x = x"

lemma dropWhile_fixed: "xs = [] \<or> \<not> P (hd xs) \<Longrightarrow> dropWhile P xs = xs"
  by (cases xs) auto

lemma dropWhile_rev_dropWhile: "dropWhile P (rev (dropWhile P (rev (dropWhile P s)))) = rev (dropWhile P (rev (dropWhile P s)))"
proof (rule dropWhile_fixed, cases "rev (dropWhile P (rev (dropWhile P s))) = []")
  case False
  let ?y = "dropWhile P s" and ?z = "rev (dropWhile P (rev (dropWhile P s)))"
  have "?y = ?z @ rev (takeWhile P (rev ?y))"
    by (metis rev_append rev_rev_ident takeWhile_dropWhile_id)
  then have "hd ?y = hd ?z" "?y \<noteq> []" using False by (metis hd_append2, metis append_is_Nil_conv)
  then show "?z = [] \<or> \<not> P (hd ?z)" by (metis hd_dropWhile)
qed simp

lemma js_trim_trim [simp]: "js_trim (js_trim s) = js_trim s"
  by (simp add: js_trim_def dropWhile_rev_dropWhile)

lemma set_js_trim: "set (js_trim s) \<subseteq> set s"
  by (auto simp: js_trim_def dest!: set_dropWhileD)

lemma split_join: "xs \<noteq> [] \<Longrightarrow> (\<And>x. x \<in> set xs \<Longrightarrow> c \<notin> set x) \<Longrightarrow> js_split c (js_join [c] xs) = xs"
  by (induction "[c]" xs rule: js_join.induct) (simp_all add: js_split_no_sep js_split_sep)

lemma parseTrace_plain: "x \<in> set (parseTrace raw) \<Longrightarrow> plain_id x"
  using set_js_trim by (fastforce simp: parseTrace_def plain_id_def dest: js_split_parts split: option.splits if_splits)

lemma parseTrace_join:
  assumes "\<And>x. x \<in> set xs \<Longrightarrow> plain_id x"
  shows "parseTrace (Some (js_join '','' xs)) = xs"
proof (cases "xs = []")
  case False
  have "js_split CHR '','' (js_join '','' xs) = xs" using False assms by (intro split_join) (auto simp: plain_id_def)
  moreover have "map js_trim xs = xs" using assms by (intro map_idI) (auto simp: plain_id_def)
  moreover have "filter (\<lambda>x. x \<noteq> []) xs = xs" using assms by (intro filter_True) (auto simp: plain_id_def)
  moreover have "js_join '','' xs \<noteq> []"
    using False assms by (cases xs rule: remdups_adj.cases) (auto simp: plain_id_def)
  ultimately show ?thesis by (simp add: parseTrace_def)
qed (simp add: parseTrace_def)

text \<open>An id with a comma is read back as two: the node does not see itself in the trace.\<close>

lemma comma_hides_node: "parseTrace (Some (js_join '','' [''a,b''])) = [''a'', ''b'']"
  by (simp add: parseTrace_def js_trim_def js_is_ws_def)

section \<open>How far a request travels\<close>

definition lib_ok :: "js_lib \<Rightarrow> bool" where
  "lib_ok lib \<longleftrightarrow> (\<forall>n. jl_number lib (jl_numStr lib (of_nat n)) = Some (of_nat n))"

definition plain_network :: "network \<Rightarrow> bool" where
  "plain_network net \<longleftrightarrow> (\<forall>u c p. net u = Some (c, p) \<longrightarrow> plain_id (cno_nodeId (cn_opt c)))"

lemma depth_bound: "complex_depth lib o' raw = Inr d \<Longrightarrow> d \<le> 5 \<and> (raw \<noteq> None \<longrightarrow> of_nat d \<le> cx_graphMaxDepth o')"
  by (auto simp: complex_depth_def COMPLEX_ABSOLUTE_MAX_DEPTH_def floor_le_iff nat_le_iff not_less split: option.splits if_splits)

lemma depth_header: "lib_ok lib \<Longrightarrow> complex_depth lib o' (Some (jl_numStr lib (of_nat n))) = Inr d \<Longrightarrow> d = n"
  by (auto simp: complex_depth_def lib_ok_def split: if_splits)

lemma query_start_depth: "complex_query_start lib o' rq = Inr (frame, d, trace) \<Longrightarrow>
   complex_depth lib o' (cq_depth rq) = Inr d \<and> trace = parseTrace (cq_trace rq) \<and> cno_nodeId o' \<notin> set trace"
  by (auto simp: complex_query_start_def Let_def rbind_Inr_iff split: option.splits if_splits)

lemma child_call_sent: "child_call lib o' rq frame d trace ref = Inr call \<Longrightarrow> chq_depth call = jl_numStr lib (of_nat d) \<and> chq_trace call = js_join '','' trace"
  by (auto simp: child_call_def split: option.splits)

text \<open>One node passes a request on to another.\<close>

inductive passes_on :: "js_lib \<Rightarrow> network \<Rightarrow> complex_node \<times> complex_request \<Rightarrow> complex_node \<times> complex_request \<Rightarrow> bool" for lib net where
  "complex_query_start lib (cn_opt node) rq = Inr (frame, Suc d, trace) \<Longrightarrow> ref \<in> set (cx_graph (cn_opt node)) \<Longrightarrow>
   child_call lib (cn_opt node) rq frame d (trace @ [cno_nodeId (cn_opt node)]) ref = Inr call \<Longrightarrow> net (chq_url call) = Some (child, path) \<Longrightarrow>
   passes_on lib net (node, rq) (child, received path call)"

inductive expansion :: "js_lib \<Rightarrow> network \<Rightarrow> complex_node \<times> complex_request \<Rightarrow> string list \<Rightarrow> complex_node \<times> complex_request \<Rightarrow> bool" for lib net where
  expansion_start: "expansion lib net x [] x"
| expansion_step: "expansion lib net x ids (node, rq) \<Longrightarrow> passes_on lib net (node, rq) y \<Longrightarrow> expansion lib net x (ids @ [cno_nodeId (cn_opt node)]) y"

lemma received_simps [simp]:
  "cq_depth (received path call) = Some (chq_depth call)" "cq_trace (received path call) = Some (chq_trace call)"
  by (simp_all add: received_def)

lemma passes_on_effect:
  assumes "passes_on lib net (node, rq) (child, rq')" and "lib_ok lib" and "plain_id (cno_nodeId (cn_opt node))"
  shows "parseTrace (cq_trace rq') = parseTrace (cq_trace rq) @ [cno_nodeId (cn_opt node)] \<and> cno_nodeId (cn_opt node) \<notin> set (parseTrace (cq_trace rq)) \<and>
    (\<exists>d. d \<le> 4 \<and> complex_depth lib (cn_opt node) (cq_depth rq) = Inr (Suc d) \<and> cq_depth rq' = Some (jl_numStr lib (of_nat d))) \<and> (\<exists>u p. net u = Some (child, p))"
  using assms(1)
proof cases
  case (1 frame d trace ref call path)
  note st = query_start_depth [OF 1(2)] and sent = child_call_sent [OF 1(4)]
  have "parseTrace (Some (js_join '','' (trace @ [cno_nodeId (cn_opt node)]))) = trace @ [cno_nodeId (cn_opt node)]"
    using st assms(3) by (intro parseTrace_join) (auto intro: parseTrace_plain)
  moreover have "d \<le> 4" using depth_bound [of lib "cn_opt node" "cq_depth rq" "Suc d"] st by simp
  ultimately show ?thesis using 1 st sent by auto
qed

lemma expansion_invariant:
  "expansion lib net x ids y \<Longrightarrow> lib_ok lib \<Longrightarrow> plain_network net \<Longrightarrow> plain_id (cno_nodeId (cn_opt (fst x))) \<Longrightarrow>
   parseTrace (cq_trace (snd y)) = parseTrace (cq_trace (snd x)) @ ids \<and> plain_id (cno_nodeId (cn_opt (fst y))) \<and>
   distinct ids \<and> set ids \<inter> set (parseTrace (cq_trace (snd x))) = {} \<and>
   (ids \<noteq> [] \<longrightarrow> (\<exists>d. cq_depth (snd y) = Some (jl_numStr lib (of_nat d)) \<and> d + length ids \<le> 5))"
proof (induction rule: expansion.induct)
  case (expansion_start x)
  then show ?case by simp
next
  case (expansion_step x ids node rq y)
  obtain child rq' where y: "y = (child, rq')" by (cases y)
  note IH = expansion_step.IH [OF expansion_step.prems]
  have p: "plain_id (cno_nodeId (cn_opt node))" using IH by simp
  note eff = passes_on_effect [OF expansion_step.hyps(2) [unfolded y] expansion_step.prems(1) p]
  then obtain d where d: "d \<le> 4" "complex_depth lib (cn_opt node) (cq_depth rq) = Inr (Suc d)" "cq_depth rq' = Some (jl_numStr lib (of_nat d))" by blast
  have "d + length (ids @ [cno_nodeId (cn_opt node)]) \<le> 5"
  proof (cases "ids = []")
    case False
    with IH obtain d' where "cq_depth rq = Some (jl_numStr lib (of_nat d'))" "d' + length ids \<le> 5" by auto
    with depth_header [OF expansion_step.prems(1), of "cn_opt node" d' "Suc d"] d(2) show ?thesis by simp
  qed (use d in simp)
  moreover have "plain_id (cno_nodeId (cn_opt child))" using eff expansion_step.prems(2) unfolding plain_network_def by blast
  ultimately show ?case using IH eff d y by auto
qed

section \<open>Every request is answered\<close>

lemma those_map_cong: "(\<And>x. x \<in> set xs \<Longrightarrow> f x = Some (g x)) \<Longrightarrow> those (map f xs) = Some (map g xs)"
  by (induction xs) auto

lemma fetchChild_answer: "(\<And>call. child_call lib o' rq frame d trace ref = Inr call \<Longrightarrow> f call = Some (g call)) \<Longrightarrow>
   fetchChild lib o' f rq frame d trace ref = Some (the (fetchChild lib o' (Some \<circ> g) rq frame d trace ref))"
  by (auto simp: fetchChild_def split: sum.splits)

text \<open>The calls that a request makes, of the depth one below its own, are answered by \<open>g\<close>.\<close>

definition answered_by :: "js_lib \<Rightarrow> ComplexNodeOptions \<Rightarrow> complex_request \<Rightarrow> (child_request \<Rightarrow> child_reply) \<Rightarrow> (child_request \<Rightarrow> child_reply option) \<Rightarrow> bool" where
  "answered_by lib o' rq g f \<longleftrightarrow> (\<forall>frame d trace call. complex_query_start lib o' rq = Inr (frame, Suc d, trace) \<longrightarrow>
     chq_depth call = jl_numStr lib (of_nat d) \<longrightarrow> f call = Some (g call))"

lemma handleQuery_answer: "\<exists>r. \<forall>f. answered_by lib o' rq g f \<longrightarrow> complex_handleQuery lib o' query f rq = Some r"
proof (cases "\<exists>frame d trace rows cursor. complex_query_start lib o' rq = Inr (frame, Suc d, trace) \<and> query frame = Some (rows, cursor) \<and> cx_graph o' \<noteq> []")
  case True
  then obtain frame d trace rows cursor where st: "complex_query_start lib o' rq = Inr (frame, Suc d, trace)"
    and q: "query frame = Some (rows, cursor)" and ne: "cx_graph o' \<noteq> []" by blast
  let ?child = "\<lambda>ref. the (fetchChild lib o' (Some \<circ> g) rq frame d (trace @ [cno_nodeId o']) ref)"
  have "those (map (fetchChild lib o' f rq frame d (trace @ [cno_nodeId o'])) (cx_graph o')) = Some (map ?child (cx_graph o'))" if "answered_by lib o' rq g f" for f
    using that st child_call_sent by (intro those_map_cong fetchChild_answer) (fastforce simp: answered_by_def)
  then have "\<forall>f. answered_by lib o' rq g f \<longrightarrow> complex_handleQuery lib o' query f rq = Some (complex_caps lib o' rows cursor (Some (map ?child (cx_graph o'))))"
    using st q ne by (simp add: complex_handleQuery_def)
  then show ?thesis by blast
next
  case False
  then have "complex_handleQuery lib o' query f rq = complex_handleQuery lib o' query (Some \<circ> g) rq \<and> complex_handleQuery lib o' query f rq \<noteq> None" for f
    by (auto simp: complex_handleQuery_def gr0_conv_Suc split: sum.splits option.splits)
  then show ?thesis by (metis option.collapse)
qed

lemma fetch_answer: "\<exists>r. \<forall>f. answered_by lib (cn_opt node) rq g f \<longrightarrow> complex_fetch lib node f rq = Some r"
proof -
  obtain r where r: "\<And>f. answered_by lib (cn_opt node) rq g f \<Longrightarrow> complex_handleQuery lib (cn_opt node) (cn_query node) f rq = Some r"
    using handleQuery_answer by metis
  have s: "answered_by lib (cn_opt node) rq g (Some \<circ> g)" by (simp add: answered_by_def)
  have "complex_fetch lib node f rq = complex_fetch lib node (Some \<circ> g) rq \<and> complex_fetch lib node f rq \<noteq> None"
    if "answered_by lib (cn_opt node) rq g f" for f
    using r [OF that] r [OF s] by (simp add: complex_fetch_def Let_def)
  then show ?thesis by (metis option.collapse)
qed

definition net_child :: "js_lib \<Rightarrow> network \<Rightarrow> nat \<Rightarrow> child_request \<Rightarrow> child_reply option" where
  "net_child lib net k call = (case net (chq_url call) of None \<Rightarrow> Some (ChildFailed ''unreachable'')
     | Some (child, path) \<Rightarrow> map_option (reply_of lib) (net_fetch k lib net child (received path call)))"

lemma net_fetch_Suc: "net_fetch (Suc k) lib net node rq = complex_fetch lib node (net_child lib net k) rq"
  unfolding net_fetch.simps net_child_def ..

lemma net_fetch_answers:
  "lib_ok lib \<Longrightarrow> (\<And>d. complex_depth lib (cn_opt node) (cq_depth rq) = Inr d \<Longrightarrow> d \<le> n) \<Longrightarrow> \<exists>r. \<forall>k>n. net_fetch k lib net node rq = Some r"
proof (induction n arbitrary: node rq)
  case 0
  have a: "answered_by lib (cn_opt node) rq (\<lambda>_. ChildAborted) (net_child lib net k)" for k
    using 0(2) query_start_depth unfolding answered_by_def by fastforce
  obtain r where "\<And>k. net_fetch (Suc k) lib net node rq = Some r"
    using fetch_answer [of lib node rq "\<lambda>_. ChildAborted"] a unfolding net_fetch_Suc by blast
  then show ?case by (metis not0_implies_Suc less_irrefl)
next
  case (Suc n)
  let ?g = "\<lambda>call. the (net_child lib net (Suc n) call)"
  have a: "answered_by lib (cn_opt node) rq ?g (net_child lib net k)" if k: "k > n" for k
    unfolding answered_by_def
  proof (intro allI impI)
    fix frame d trace and call :: child_request
    assume st: "complex_query_start lib (cn_opt node) rq = Inr (frame, Suc d, trace)" and c: "chq_depth call = jl_numStr lib (of_nat d)"
    show "net_child lib net k call = Some (?g call)"
    proof (cases "net (chq_url call)")
      case (Some p)
      obtain child path where p: "p = (child, path)" by (cases p)
      have "d \<le> n" using st query_start_depth Suc.prems(2) by fastforce
      then have "\<And>d'. complex_depth lib (cn_opt child) (cq_depth (received path call)) = Inr d' \<Longrightarrow> d' \<le> n"
        using depth_header [OF Suc.prems(1)] c by auto
      from Suc.IH [OF Suc.prems(1) this] obtain r where "\<And>k. k > n \<Longrightarrow> net_fetch k lib net child (received path call) = Some r" by blast
      from this [of k] this [of "Suc n"] show ?thesis using Some p k by (simp add: net_child_def del: net_fetch.simps)
    qed (simp add: net_child_def)
  qed
  obtain r where "\<And>k. k > n \<Longrightarrow> net_fetch (Suc k) lib net node rq = Some r"
    using fetch_answer [of lib node rq ?g] a unfolding net_fetch_Suc by blast
  then show ?case by (metis Suc_lessE)
qed

text \<open>C25: 
  Every request to a network of Complex Nodes is answered, whatever the nodes refer to: six calls deep is
  enough, and more fuel does not change the answer.
\<close>

theorem complex_network_answers:
  assumes "lib_ok lib"
  shows "\<exists>r. \<forall>k\<ge>6. net_fetch k lib net node rq = Some r"
proof -
  have "\<And>d. complex_depth lib (cn_opt node) (cq_depth rq) = Inr d \<Longrightarrow> d \<le> 5" using depth_bound by blast
  from net_fetch_answers [OF assms this] obtain r where "\<forall>k>5. net_fetch k lib net node rq = Some r" by blast
  then have "\<forall>k\<ge>6. net_fetch k lib net node rq = Some r" by simp
  then show ?thesis by blast
qed


section \<open>/invoke\<close>

text \<open>The provider runs for a known action that is not asynchronous and has a known priority, with a timeout within the limits of the node.\<close>

definition invoke_admissible :: "ComplexNodeOptions \<Rightarrow> invoke_body \<Rightarrow> bool" where
  "invoke_admissible o' body \<longleftrightarrow> complex_find_spec o' (af_actionId (ib_frame body)) \<noteq> None \<and> af_async (ib_frame body) \<noteq> Some True \<and>
     ib_priority body \<in> {None, Some ''low'', Some ''normal'', Some ''high''}"

lemma clamp_bounded: "0 < requested \<Longrightarrow> complex_clampTimeout o' requested spec \<le> cx_maxTimeoutMs o' \<and> complex_clampTimeout o' requested spec \<le> requested"
  by (auto simp: complex_clampTimeout_def Let_def)

lemma invoke_runs:
  assumes "cq_invoke rq = InvokeAction body" and "invoke_admissible o' body" and "0 < opt_or 0 (af_timeoutMs (ib_frame body))"
  shows "\<exists>ctx. acx_timeoutMs ctx \<le> cx_maxTimeoutMs o' \<and> acx_agentNid ctx = cq_agent rq \<and> complex_find_spec o' (af_actionId (ib_frame body)) = Some (acx_spec ctx) \<and>
    (\<forall>runs. case fst (runs (ib_frame body) ctx) of
        Inr r \<Rightarrow> complex_handleInvoke lib o' runs rq = Inr (complex_result lib (acx_spec ctx) (ib_requestId body) r)
      | Inl (ActionExecutionError status nps code m) \<Rightarrow> complex_handleInvoke lib o' runs rq = Inr (errorResponse status nps code)
      | Inl (OtherError m) \<Rightarrow> (\<exists>resp. complex_handleInvoke lib o' runs rq = Inr resp \<and> hr_status resp \<in> {500, 504}))"
proof -
  obtain spec where spec: "complex_find_spec o' (af_actionId (ib_frame body)) = Some spec" using assms(2) by (auto simp: invoke_admissible_def)
  let ?ctx = "\<lparr>acx_agentNid = cq_agent rq, acx_requestId = ib_requestId body, acx_taskId = None, acx_spec = spec,
     acx_timeoutMs = complex_clampTimeout o' (opt_or 0 (af_timeoutMs (ib_frame body))) spec, acx_priority = opt_or ''normal'' (ib_priority body),
     acx_wireInputBytes = ib_wireInputBytes body\<rparr>"
  have run: "complex_handleInvoke lib o' runs rq = Inr (case runs (ib_frame body) ?ctx of
      (Inr r, aborted) \<Rightarrow> complex_result lib spec (ib_requestId body) r
    | (Inl (ActionExecutionError status nps code message), aborted) \<Rightarrow> errorResponse status nps code
    | (Inl (OtherError message), aborted) \<Rightarrow> if aborted then errorResponse 504 ''NPS-SERVER-TIMEOUT'' ''NWP-NODE-UNAVAILABLE''
        else errorResponse 500 ''NPS-SERVER-INTERNAL'' ''NWP-NODE-UNAVAILABLE'')" for runs
    using assms spec by (simp add: complex_handleInvoke_def invoke_admissible_def Let_def)
  show ?thesis
    using clamp_bounded [OF assms(3)] spec
    by (intro exI [of _ ?ctx]) (auto simp: run errorResponse_def split: sum.splits provider_error.splits prod.splits)
qed

lemma invoke_refused:
  "cq_invoke rq = InvokeAction body \<Longrightarrow> \<not> invoke_admissible o' body \<Longrightarrow>
   \<exists>resp. hr_status resp \<in> {400, 404} \<and> (\<forall>runs. complex_handleInvoke lib o' runs rq = Inr resp)"
  by (cases "complex_find_spec o' (af_actionId (ib_frame body))")
    (auto simp: complex_handleInvoke_def invoke_admissible_def Let_def errorResponse_def)

text \<open>The JSON text \<open>null\<close> as a body rejects the promise of \<open>fetch\<close>: there is no response.\<close>

lemma invoke_null_throws: "cq_invoke rq = InvokeNull \<Longrightarrow> complex_handleInvoke lib o' runs rq = Inl ()"
  by (simp add: complex_handleInvoke_def)

section \<open>Two nodes that refer to each other\<close>

definition demo_lib :: js_lib where
  "demo_lib = \<lparr>jl_number = (\<lambda>s. Some (of_nat (js_digits_value s))), jl_numStr = (\<lambda>q. js_nat_string (nat (floor q))),
     jl_parseUrl = (\<lambda>u. Some \<lparr>pu_protocol = ''https:'', pu_hostname = ''example.org''\<rparr>), jl_sha256 = id, jl_message = (\<lambda>rel reason. rel), jl_text = (\<lambda>b. [])\<rparr>"

lemma demo_lib_ok: "lib_ok demo_lib"
  by (simp add: lib_ok_def demo_lib_def js_digits_value_nat_string)

definition demo_complex :: "string \<Rightarrow> string \<Rightarrow> complex_node" where
  "demo_complex self other = \<lparr>cn_opt = \<lparr>cno_nodeId = self, cno_displayName = None, cno_pathPrefix = [], cno_schema = None, cno_actions = None,
     cno_graph = Some [\<lparr>cg_rel = ''peer'', cg_nodeUrl = other\<rparr>], cno_graphMaxDepth = None, cno_allowedChildUrlPrefixes = None,
     cno_rejectPrivateChildUrls = Some False, cno_allowHttpChildUrls = None, cno_requireAuth = None, cno_defaultTimeoutMs = None, cno_maxTimeoutMs = None\<rparr>,
     cn_query = null_query, cn_execute = null_execute\<rparr>"

definition demo_net :: network where
  "demo_net u = (if u = ''x/query'' then Some (demo_complex ''nx'' ''y'', ''/query'') else if u = ''y/query'' then Some (demo_complex ''ny'' ''x'', ''/query'') else None)"

definition demo_query :: complex_request where
  "demo_query = \<lparr>cq_pathname = ''/query'', cq_method = ''POST'', cq_agent = None, cq_budget = None, cq_depth = Some ''2'', cq_trace = None,
     cq_frame = QueryFrame_fromDict [], cq_invoke = InvokeNotJson\<rparr>"

lemma demo_net_plain: "plain_network demo_net" "plain_id (cno_nodeId (cn_opt (demo_complex ''nx'' ''y'')))"
  by (auto simp: plain_network_def demo_net_def demo_complex_def plain_id_def js_trim_def js_is_ws_def split: if_splits)

lemma demo_passes: "\<exists>y. passes_on demo_lib demo_net (demo_complex ''nx'' ''y'', demo_query) y"
proof -
  let ?node = "demo_complex ''nx'' ''y''" and ?ref = "\<lparr>cg_rel = ''peer'', cg_nodeUrl = ''y''\<rparr>"
  obtain frame where f: "QueryFrame_fromDict [] = Some frame" by (simp add: QueryFrame_fromDict_def wire jo_get_def)
  have st: "complex_query_start demo_lib (cn_opt ?node) demo_query = Inr (frame, Suc 1, [])"
    by (simp add: complex_query_start_def demo_query_def f complex_depth_def demo_lib_def js_digits_value_def demo_complex_def cx_graphMaxDepth_def opt_or_def
        COMPLEX_ABSOLUTE_MAX_DEPTH_def parseTrace_def)
  obtain call where call: "child_call demo_lib (cn_opt ?node) demo_query frame 1 ([] @ [cno_nodeId (cn_opt ?node)]) ?ref = Inr call" "chq_url call = ''y/query''"
    by (simp add: child_call_def validateChildUrl_def demo_lib_def demo_complex_def opt_or_def js_trim_def js_is_ws_def js_toLowerCase_def js_lower_char_def char_of_def bit_0 strip_slashes_def)
  have r: "?ref \<in> set (cx_graph (cn_opt ?node))" by (simp add: demo_complex_def cx_graph_def opt_or_def)
  have n: "demo_net (chq_url call) = Some (demo_complex ''ny'' ''x'', ''/query'')" by (simp add: call demo_net_def)
  show ?thesis using passes_on.intros [of demo_lib ?node demo_query frame 1 "[]" ?ref call demo_net, OF st r call(1) n] by blast
qed


theorem complex_network_answers_witness: "\<exists>r. \<forall>k\<ge>6. net_fetch k demo_lib demo_net (demo_complex ''nx'' ''y'') demo_query = Some r"
  by (rule complex_network_answers [OF demo_lib_ok])

end
