(* ===== verification/NwpLlm.thy ===== *)
theory NwpLlm
  imports NwpFrames NwpContextStore
begin

text \<open>
  The payloads of the LLM actions (\<open>nwp/llm.ts\<close>): requests, responses, stream chunks, receipts and status as records,
  their writers and their readers. Unlike the frames, these readers check what they read: \<open>None\<close> is the
  \<open>TypeError\<close> they throw. An optional member may be absent but not \<open>null\<close>.

  Proved: every payload is read back from what is written; the readers refuse what they should.
\<close>

section \<open>Checked members\<close>

definition as_int :: "jsval \<Rightarrow> int option" where
  "as_int v = (case v of JNum n \<Rightarrow> if of_int (floor n) = n then Some (floor n) else None | _ \<Rightarrow> None)"

definition int_json :: "int \<Rightarrow> jsval" where "int_json i = JNum (of_int i)"

definition optional :: "(jsval \<Rightarrow> 'a option) \<Rightarrow> jsval option \<Rightarrow> 'a option option" where
  "optional f v = (case v of None \<Rightarrow> Some None | Some w \<Rightarrow> map_option Some (f w))"

lemma undoes_int [simp, intro]: "undoes as_int int_json"
  by (simp add: undoes_def as_int_def int_json_def)

lemma optional_undo [wire]: "undoes dec enc \<Longrightarrow> optional dec (map_option enc x) = Some x"
  by (cases x) (simp_all add: optional_def undoes_def)

lemma optional_value [wire]: "optional dec None = Some None" "undoes dec enc \<Longrightarrow> optional dec (Some (enc x)) = Some (Some x)"
  by (simp_all add: optional_def undoes_def)

section \<open>Names\<close>

definition LLM_COMPLETE :: string where "LLM_COMPLETE = ''llm.complete''"
definition LLM_CONTEXT_STATUS :: string where "LLM_CONTEXT_STATUS = ''llm.context.status''"
definition LLM_CONTEXT_RELEASE :: string where "LLM_CONTEXT_RELEASE = ''llm.context.release''"

datatype LlmStopReason = StopEndTurn | StopToolUse | StopToolCalls | StopMaxTokens | StopLength | StopError

definition stop_reason_text :: "LlmStopReason \<Rightarrow> string" where
  "stop_reason_text r = (case r of StopEndTurn \<Rightarrow> ''end_turn'' | StopToolUse \<Rightarrow> ''tool_use'' | StopToolCalls \<Rightarrow> ''tool_calls''
     | StopMaxTokens \<Rightarrow> ''max_tokens'' | StopLength \<Rightarrow> ''length'' | StopError \<Rightarrow> ''error'')"

definition as_stop_reason :: "jsval \<Rightarrow> LlmStopReason option" where
  "as_stop_reason v = find (\<lambda>r. v = JStr (stop_reason_text r)) [StopEndTurn, StopToolUse, StopToolCalls, StopMaxTokens, StopLength, StopError]"

definition operation_text :: "ctx_op \<Rightarrow> string" where
  "operation_text x = (case x of OpCreate \<Rightarrow> ''create'' | OpAppend \<Rightarrow> ''append'' | OpFork \<Rightarrow> ''fork'' | OpReset \<Rightarrow> ''reset'' | OpRelease \<Rightarrow> ''release'')"

definition as_operation :: "jsval \<Rightarrow> ctx_op option" where
  "as_operation v = find (\<lambda>x. v = JStr (operation_text x)) [OpCreate, OpAppend, OpFork, OpReset, OpRelease]"

definition state_text :: "ctx_state \<Rightarrow> string" where
  "state_text x = (case x of CtxBusy \<Rightarrow> ''busy'' | CtxActive \<Rightarrow> ''active'' | CtxReleased \<Rightarrow> ''released'' | CtxExpired \<Rightarrow> ''expired'' | CtxFailed \<Rightarrow> ''failed'')"

definition as_state :: "jsval \<Rightarrow> ctx_state option" where
  "as_state v = find (\<lambda>x. v = JStr (state_text x)) [CtxBusy, CtxActive, CtxReleased, CtxExpired, CtxFailed]"

definition stop_reason_json :: "LlmStopReason \<Rightarrow> jsval" where "stop_reason_json r = JStr (stop_reason_text r)"
definition operation_json :: "ctx_op \<Rightarrow> jsval" where "operation_json x = JStr (operation_text x)"
definition state_json :: "ctx_state \<Rightarrow> jsval" where "state_json x = JStr (state_text x)"

lemma undoes_names [simp, intro]: "undoes as_stop_reason stop_reason_json" "undoes as_operation operation_json" "undoes as_state state_json"
proof -
  show "undoes as_stop_reason stop_reason_json"
    unfolding undoes_def by (intro allI, rename_tac r, case_tac r) (simp_all add: as_stop_reason_def stop_reason_json_def stop_reason_text_def)
  show "undoes as_operation operation_json"
    unfolding undoes_def by (intro allI, rename_tac r, case_tac r) (simp_all add: as_operation_def operation_json_def operation_text_def)
  show "undoes as_state state_json"
    unfolding undoes_def by (intro allI, rename_tac r, case_tac r) (simp_all add: as_state_def state_json_def state_text_def)
qed

section \<open>Tools and messages\<close>

record LlmToolCallDto =
  tc_callId :: string
  tc_toolName :: string
  tc_argumentsJson :: string

definition toolCallToWire :: "LlmToolCallDto \<Rightarrow> jsval" where
  "toolCallToWire t = JObj [(''call_id'', JStr (tc_callId t)), (''tool_name'', JStr (tc_toolName t)), (''arguments_json'', JStr (tc_argumentsJson t))]"

definition toolCallFromWire :: "jsval \<Rightarrow> LlmToolCallDto option" where
  "toolCallFromWire v = do {
     d \<leftarrow> as_obj v;
     i \<leftarrow> req as_str (jo_get d ''call_id'');
     n \<leftarrow> req as_str (jo_get d ''tool_name'');
     a \<leftarrow> req as_str (jo_get d ''arguments_json'');
     Some \<lparr>tc_callId = i, tc_toolName = n, tc_argumentsJson = a\<rparr> }"

definition tool_calls_json :: "LlmToolCallDto list \<Rightarrow> jsval" where "tool_calls_json ts = JArr (map toolCallToWire ts)"

record ToolParameterDto =
  tp_name :: string
  tp_type :: string
  tp_description :: "string option"
  tp_required :: bool

definition parameterToWire :: "ToolParameterDto \<Rightarrow> jsval" where
  "parameterToWire p = JObj ([(''name'', JStr (tp_name p)), (''type'', JStr (tp_type p))] @ member_if ''description'' JStr (tp_description p) @
     [(''required'', JBool (tp_required p))])"

definition parameterFromWire :: "jsval \<Rightarrow> ToolParameterDto option" where
  "parameterFromWire v = do {
     d \<leftarrow> as_obj v;
     n \<leftarrow> req as_str (jo_get d ''name'');
     t \<leftarrow> req as_str (jo_get d ''type'');
     x \<leftarrow> optional as_str (jo_get d ''description'');
     r \<leftarrow> optional as_bool (jo_get d ''required'');
     Some \<lparr>tp_name = n, tp_type = t, tp_description = x, tp_required = opt_or False r\<rparr> }"

definition parameters_json :: "ToolParameterDto list \<Rightarrow> jsval" where "parameters_json ps = JArr (map parameterToWire ps)"

record LlmToolDefinitionDto =
  td_name :: string
  td_description :: "string option"
  td_parameters :: "ToolParameterDto list option"

definition toolDefinitionToWire :: "LlmToolDefinitionDto \<Rightarrow> jsval" where
  "toolDefinitionToWire t = JObj ([(''name'', JStr (td_name t))] @ member_if ''description'' JStr (td_description t) @
     member_if ''parameters'' parameters_json (td_parameters t))"

definition toolDefinitionFromWire :: "jsval \<Rightarrow> LlmToolDefinitionDto option" where
  "toolDefinitionFromWire v = do {
     d \<leftarrow> as_obj v;
     n \<leftarrow> req as_str (jo_get d ''name'');
     x \<leftarrow> optional as_str (jo_get d ''description'');
     p \<leftarrow> optional (as_list parameterFromWire) (jo_get d ''parameters'');
     Some \<lparr>td_name = n, td_description = x, td_parameters = p\<rparr> }"

definition tools_json :: "LlmToolDefinitionDto list \<Rightarrow> jsval" where "tools_json ts = JArr (map toolDefinitionToWire ts)"

record LlmMessage =
  lm_role :: string
  lm_content :: "string option"
  lm_toolCallId :: "string option"
  lm_toolName :: "string option"
  lm_toolCalls :: "LlmToolCallDto list option"

definition messageToWire :: "LlmMessage \<Rightarrow> jsval" where
  "messageToWire m = JObj ([(''role'', JStr (lm_role m))] @ member_if ''content'' JStr (lm_content m) @ member_if ''tool_call_id'' JStr (lm_toolCallId m) @
     member_if ''tool_name'' JStr (lm_toolName m) @ member_if ''tool_calls'' tool_calls_json (lm_toolCalls m))"

definition messageFromWire :: "jsval \<Rightarrow> LlmMessage option" where
  "messageFromWire v = do {
     d \<leftarrow> as_obj v;
     r \<leftarrow> req as_str (jo_get d ''role'');
     c \<leftarrow> optional as_str (jo_get d ''content'');
     i \<leftarrow> optional as_str (jo_get d ''tool_call_id'');
     n \<leftarrow> optional as_str (jo_get d ''tool_name'');
     t \<leftarrow> optional (as_list toolCallFromWire) (jo_get d ''tool_calls'');
     Some \<lparr>lm_role = r, lm_content = c, lm_toolCallId = i, lm_toolName = n, lm_toolCalls = t\<rparr> }"

definition messages_json :: "LlmMessage list \<Rightarrow> jsval" where "messages_json ms = JArr (map messageToWire ms)"

lemma undoes_tool_call [simp, intro]: "undoes toolCallFromWire toolCallToWire"
  by (rule undoesI) (simp_all add: toolCallFromWire_def toolCallToWire_def as_obj_def wire)

lemma undoes_tool_calls [simp, intro]: "undoes (as_list toolCallFromWire) tool_calls_json"
  unfolding tool_calls_json_def by (intro undoes_list undoes_tool_call)

lemma undoes_parameter [simp, intro]: "undoes parameterFromWire parameterToWire"
  by (rule undoesI) (simp_all add: parameterFromWire_def parameterToWire_def as_obj_def wire opt_or_def)

lemma undoes_parameters [simp, intro]: "undoes (as_list parameterFromWire) parameters_json"
  unfolding parameters_json_def by (intro undoes_list undoes_parameter)

lemma undoes_tool_definition [simp, intro]: "undoes toolDefinitionFromWire toolDefinitionToWire"
  by (rule undoesI) (simp_all add: toolDefinitionFromWire_def toolDefinitionToWire_def as_obj_def wire)

lemma undoes_tools [simp, intro]: "undoes (as_list toolDefinitionFromWire) tools_json"
  unfolding tools_json_def by (intro undoes_list undoes_tool_definition)

lemma undoes_message [simp, intro]: "undoes messageFromWire messageToWire"
  by (rule undoesI) (simp_all add: messageFromWire_def messageToWire_def as_obj_def wire)

lemma undoes_messages [simp, intro]: "undoes (as_list messageFromWire) messages_json"
  unfolding messages_json_def by (intro undoes_list undoes_message)

section \<open>Contexts and usage\<close>

record LlmContextRequestDto =
  lcx_operation :: ctx_op
  lcx_contextId :: "string option"
  lcx_baseVersion :: "int option"
  lcx_ttlSeconds :: "int option"

definition contextRequestToWire :: "LlmContextRequestDto \<Rightarrow> jsval" where
  "contextRequestToWire c = JObj ([(''operation'', operation_json (lcx_operation c))] @ member_if ''context_id'' JStr (lcx_contextId c) @
     member_if ''base_version'' int_json (lcx_baseVersion c) @ member_if ''ttl_seconds'' int_json (lcx_ttlSeconds c))"

definition contextRequestFromWire :: "jsval \<Rightarrow> LlmContextRequestDto option" where
  "contextRequestFromWire v = do {
     d \<leftarrow> as_obj v;
     x \<leftarrow> req as_operation (jo_get d ''operation'');
     i \<leftarrow> optional as_str (jo_get d ''context_id'');
     b \<leftarrow> optional as_int (jo_get d ''base_version'');
     t \<leftarrow> optional as_int (jo_get d ''ttl_seconds'');
     Some \<lparr>lcx_operation = x, lcx_contextId = i, lcx_baseVersion = b, lcx_ttlSeconds = t\<rparr> }"

text \<open>The receipt of the store with its expiry rendered.\<close>

record LlmReceipt =
  lrc_contextId :: string
  lrc_version :: int
  lrc_operation :: ctx_op
  lrc_state :: ctx_state
  lrc_expiresAt :: "string option"
  lrc_parentContextId :: "string option"
  lrc_parentVersion :: "int option"

definition rendered_receipt :: "(int \<Rightarrow> string) \<Rightarrow> LlmContextReceiptDto \<Rightarrow> LlmReceipt" where
  "rendered_receipt render r = \<lparr>lrc_contextId = rc_contextId r, lrc_version = rc_version r, lrc_operation = rc_operation r, lrc_state = rc_state r,
     lrc_expiresAt = map_option render (rc_expiresAt r), lrc_parentContextId = rc_parentContextId r, lrc_parentVersion = rc_parentVersion r\<rparr>"

definition receiptToWire :: "LlmReceipt \<Rightarrow> jsval" where
  "receiptToWire r = JObj ([(''context_id'', JStr (lrc_contextId r)), (''version'', int_json (lrc_version r)), (''operation'', operation_json (lrc_operation r)),
     (''state'', state_json (lrc_state r))] @ member_if ''expires_at'' JStr (lrc_expiresAt r) @ member_if ''parent_context_id'' JStr (lrc_parentContextId r) @
     member_if ''parent_version'' int_json (lrc_parentVersion r))"

definition llmContextReceiptFromWire :: "jsval \<Rightarrow> LlmReceipt option" where
  "llmContextReceiptFromWire v = do {
     d \<leftarrow> as_obj v;
     x \<leftarrow> req as_operation (jo_get d ''operation'');
     s \<leftarrow> req as_state (jo_get d ''state'');
     i \<leftarrow> req as_str (jo_get d ''context_id'');
     n \<leftarrow> req as_int (jo_get d ''version'');
     e \<leftarrow> optional as_str (jo_get d ''expires_at'');
     p \<leftarrow> optional as_str (jo_get d ''parent_context_id'');
     q \<leftarrow> optional as_int (jo_get d ''parent_version'');
     Some \<lparr>lrc_contextId = i, lrc_version = n, lrc_operation = x, lrc_state = s, lrc_expiresAt = e, lrc_parentContextId = p, lrc_parentVersion = q\<rparr> }"

definition llmContextStatusToWire :: "(int \<Rightarrow> string) \<Rightarrow> LlmContextStatusDto \<Rightarrow> jsval" where
  "llmContextStatusToWire render s = JObj ([(''state'', state_json (st_state s))] @ member_if ''context_id'' JStr (st_contextId s) @
     member_if ''version'' int_json (st_version s) @ member_if ''expires_at'' (\<lambda>t. JStr (render t)) (st_expiresAt s) @
     member_if ''request_id'' JStr (st_requestId s) @ member_if ''error_code'' JStr (st_errorCode s))"

record LlmUsageDto =
  us_inputTokens :: "int option"
  us_outputTokens :: "int option"
  us_cacheHit :: "bool option"
  us_reusedTokens :: "int option"
  us_evaluatedTokens :: "int option"
  us_wireInputBytes :: "int option"

definition usageToWire :: "LlmUsageDto \<Rightarrow> jsval" where
  "usageToWire u = JObj (member_if ''input_tokens'' int_json (us_inputTokens u) @ member_if ''output_tokens'' int_json (us_outputTokens u) @
     member_if ''cache_hit'' JBool (us_cacheHit u) @ member_if ''reused_tokens'' int_json (us_reusedTokens u) @
     member_if ''evaluated_tokens'' int_json (us_evaluatedTokens u) @ member_if ''wire_input_bytes'' int_json (us_wireInputBytes u))"

definition usageFromWire :: "jsval \<Rightarrow> LlmUsageDto option" where
  "usageFromWire v = do {
     d \<leftarrow> as_obj v;
     i \<leftarrow> optional as_int (jo_get d ''input_tokens'');
     x \<leftarrow> optional as_int (jo_get d ''output_tokens'');
     c \<leftarrow> optional as_bool (jo_get d ''cache_hit'');
     r \<leftarrow> optional as_int (jo_get d ''reused_tokens'');
     e \<leftarrow> optional as_int (jo_get d ''evaluated_tokens'');
     w \<leftarrow> optional as_int (jo_get d ''wire_input_bytes'');
     Some \<lparr>us_inputTokens = i, us_outputTokens = x, us_cacheHit = c, us_reusedTokens = r, us_evaluatedTokens = e, us_wireInputBytes = w\<rparr> }"

lemma undoes_context_request [simp, intro]: "undoes contextRequestFromWire contextRequestToWire"
  by (rule undoesI) (simp_all add: contextRequestFromWire_def contextRequestToWire_def as_obj_def wire)

lemma undoes_receipt [simp, intro]: "undoes llmContextReceiptFromWire receiptToWire"
  by (rule undoesI) (simp_all add: llmContextReceiptFromWire_def receiptToWire_def as_obj_def wire)

lemma undoes_usage [simp, intro]: "undoes usageFromWire usageToWire"
  by (rule undoesI) (simp_all add: usageFromWire_def usageToWire_def as_obj_def wire)

section \<open>Requests, responses and chunks\<close>

record LlmCompleteActionRequest =
  lq_model :: string
  lq_maxTokens :: "int option"
  lq_stream :: "bool option"
  lq_messages :: "LlmMessage list"
  lq_tools :: "LlmToolDefinitionDto list option"
  lq_context :: "LlmContextRequestDto option"

definition llmCompleteRequestToWire :: "LlmCompleteActionRequest \<Rightarrow> jsobj" where
  "llmCompleteRequestToWire r = [(''kind'', JStr LLM_COMPLETE), (''model'', JStr (lq_model r))] @ member_if ''max_tokens'' int_json (lq_maxTokens r) @
     [(''stream'', JBool (opt_or False (lq_stream r))), (''messages'', messages_json (lq_messages r))] @ member_if ''tools'' tools_json (lq_tools r) @
     member_if ''context'' contextRequestToWire (lq_context r)"

definition llmCompleteRequestFromWire :: "jsobj \<Rightarrow> LlmCompleteActionRequest option" where
  "llmCompleteRequestFromWire data =
     (if jo_get data ''kind'' \<notin> {None, Some (JStr LLM_COMPLETE)} then None
      else do {
        m \<leftarrow> req as_str (jo_get data ''model'');
        n \<leftarrow> optional as_int (jo_get data ''max_tokens'');
        s \<leftarrow> optional as_bool (jo_get data ''stream'');
        ms \<leftarrow> req (as_list messageFromWire) (jo_get data ''messages'');
        ts \<leftarrow> optional (as_list toolDefinitionFromWire) (jo_get data ''tools'');
        c \<leftarrow> opt contextRequestFromWire (jo_get data ''context'');
        Some \<lparr>lq_model = m, lq_maxTokens = n, lq_stream = Some (opt_or False s), lq_messages = ms, lq_tools = ts, lq_context = c\<rparr> })"

record LlmCompleteActionResponse =
  lr_stopReason :: LlmStopReason
  lr_content :: "string option"
  lr_toolCalls :: "LlmToolCallDto list option"
  lr_error :: "string option"
  lr_usage :: "LlmUsageDto option"
  lr_context :: "LlmReceipt option"

definition llmCompleteResponseToWire :: "LlmCompleteActionResponse \<Rightarrow> jsobj" where
  "llmCompleteResponseToWire r = [(''stop_reason'', stop_reason_json (lr_stopReason r))] @ member_if ''content'' JStr (lr_content r) @
     member_if ''tool_calls'' tool_calls_json (lr_toolCalls r) @ member_if ''error'' JStr (lr_error r) @ member_if ''usage'' usageToWire (lr_usage r) @
     member_if ''context'' receiptToWire (lr_context r)"

definition llmCompleteResponseFromWire :: "jsobj \<Rightarrow> LlmCompleteActionResponse option" where
  "llmCompleteResponseFromWire data = do {
     s \<leftarrow> req as_stop_reason (jo_get data ''stop_reason'');
     c \<leftarrow> optional as_str (jo_get data ''content'');
     t \<leftarrow> optional (as_list toolCallFromWire) (jo_get data ''tool_calls'');
     e \<leftarrow> optional as_str (jo_get data ''error'');
     u \<leftarrow> optional usageFromWire (jo_get data ''usage'');
     x \<leftarrow> optional llmContextReceiptFromWire (jo_get data ''context'');
     Some \<lparr>lr_stopReason = s, lr_content = c, lr_toolCalls = t, lr_error = e, lr_usage = u, lr_context = x\<rparr> }"

record LlmCompleteStreamChunkDto =
  lc_contentDelta :: "string option"
  lc_toolCalls :: "LlmToolCallDto list option"
  lc_stopReason :: "LlmStopReason option"
  lc_error :: "string option"
  lc_usage :: "LlmUsageDto option"
  lc_context :: "LlmReceipt option"

definition llmCompleteStreamChunkToWire :: "LlmCompleteStreamChunkDto \<Rightarrow> jsobj" where
  "llmCompleteStreamChunkToWire c = member_if ''content_delta'' JStr (lc_contentDelta c) @ member_if ''tool_calls'' tool_calls_json (lc_toolCalls c) @
     member_if ''stop_reason'' stop_reason_json (lc_stopReason c) @ member_if ''error'' JStr (lc_error c) @ member_if ''usage'' usageToWire (lc_usage c) @
     member_if ''context'' receiptToWire (lc_context c)"

definition llmCompleteStreamChunkFromWire :: "jsobj \<Rightarrow> LlmCompleteStreamChunkDto option" where
  "llmCompleteStreamChunkFromWire data = do {
     s \<leftarrow> optional as_stop_reason (jo_get data ''stop_reason'');
     d \<leftarrow> optional as_str (jo_get data ''content_delta'');
     t \<leftarrow> optional (as_list toolCallFromWire) (jo_get data ''tool_calls'');
     e \<leftarrow> optional as_str (jo_get data ''error'');
     u \<leftarrow> optional usageFromWire (jo_get data ''usage'');
     x \<leftarrow> optional llmContextReceiptFromWire (jo_get data ''context'');
     Some \<lparr>lc_contentDelta = d, lc_toolCalls = t, lc_stopReason = s, lc_error = e, lc_usage = u, lc_context = x\<rparr> }"

section \<open>Action frames\<close>

record LlmActionFrameOptions =
  lo_idempotencyKey :: "string option"
  lo_timeoutMs :: "rat option"
  lo_async :: "bool option"
  lo_requestId :: "string option"

definition llmCompleteActionFrame :: "LlmCompleteActionRequest \<Rightarrow> LlmActionFrameOptions \<Rightarrow> ActionFrame" where
  "llmCompleteActionFrame r o' = \<lparr>af_actionId = LLM_COMPLETE, af_params = Some (llmCompleteRequestToWire r), af_async = Some (opt_or False (lo_async o')),
     af_idempotencyKey = lo_idempotencyKey o', af_timeoutMs = Some (opt_or 5000 (lo_timeoutMs o')), af_requestId = lo_requestId o'\<rparr>"

definition llmContextStatusActionFrame :: "string option \<Rightarrow> string option \<Rightarrow> string option \<Rightarrow> ActionFrame" where
  "llmContextStatusActionFrame contextId idempotencyKey requestId = \<lparr>af_actionId = LLM_CONTEXT_STATUS,
     af_params = Some (member_if ''context_id'' JStr contextId @ member_if ''idempotency_key'' JStr idempotencyKey), af_async = Some False,
     af_idempotencyKey = None, af_timeoutMs = Some 5000, af_requestId = requestId\<rparr>"

definition llmContextReleaseActionFrame :: "string \<Rightarrow> int \<Rightarrow> string \<Rightarrow> rat option \<Rightarrow> string option \<Rightarrow> ActionFrame" where
  "llmContextReleaseActionFrame contextId baseVersion idempotencyKey timeoutMs requestId = \<lparr>af_actionId = LLM_CONTEXT_RELEASE,
     af_params = Some [(''context_id'', JStr contextId), (''base_version'', int_json baseVersion)], af_async = Some False,
     af_idempotencyKey = Some idempotencyKey, af_timeoutMs = Some (opt_or 5000 timeoutMs), af_requestId = requestId\<rparr>"

section \<open>Round trips\<close>

lemma llm_response_roundtrip: "llmCompleteResponseFromWire (llmCompleteResponseToWire r) = Some r"
  by (simp add: llmCompleteResponseFromWire_def llmCompleteResponseToWire_def wire)

lemma llm_chunk_roundtrip: "llmCompleteStreamChunkFromWire (llmCompleteStreamChunkToWire c) = Some c"
  by (simp add: llmCompleteStreamChunkFromWire_def llmCompleteStreamChunkToWire_def wire)

lemma llm_request_roundtrip: "llmCompleteRequestFromWire (llmCompleteRequestToWire r) = Some (r\<lparr>lq_stream := Some (opt_or False (lq_stream r))\<rparr>)"
  by (simp add: llmCompleteRequestFromWire_def llmCompleteRequestToWire_def wire opt_or_def)

text \<open>
  Every payload of the LLM actions is read back from its wire form: requests up to the default of \<open>stream\<close>, responses, stream chunks and
  receipts exactly.
\<close>

theorem llm_wire_roundtrip:
  "llmCompleteRequestFromWire (llmCompleteRequestToWire rq) = Some (rq\<lparr>lq_stream := Some (opt_or False (lq_stream rq))\<rparr>) \<and>
   llmCompleteResponseFromWire (llmCompleteResponseToWire rs) = Some rs \<and>
   llmCompleteStreamChunkFromWire (llmCompleteStreamChunkToWire ch) = Some ch \<and>
   llmContextReceiptFromWire (receiptToWire rc) = Some rc"
  using undoes_receipt by (simp add: llm_request_roundtrip llm_response_roundtrip llm_chunk_roundtrip undoes_def)

text \<open>A null where an optional member may be absent is refused, except for the context of a request.\<close>

lemma llm_null_refused: "llmCompleteResponseFromWire [(''stop_reason'', JStr ''end_turn''), (''content'', JNull)] = None"
  "llmCompleteRequestFromWire [(''model'', JStr ''m''), (''messages'', JArr []), (''context'', JNull)] \<noteq> None"
  by (simp_all add: llmCompleteResponseFromWire_def llmCompleteRequestFromWire_def wire req_def optional_def as_str_def as_stop_reason_def stop_reason_text_def as_list_def)

end
