(* ===== verification/NwpStatus.thy ===== *)
theory NwpStatus
  imports Prelude
begin

text \<open>
  The status tables: \<open>HTTP_STATUS_MAP\<close> of \<open>core/status-codes.ts\<close> and \<open>NWP_ERROR_TO_NPS_STATUS\<close> of \<open>nwp/nwp-error-codes.ts\<close>.

  Proved: every error code leads to a status that has an HTTP status of its own; two statuses that the NWP servers send are in no table.
\<close>

definition HTTP_STATUS_MAP :: "(string \<times> nat) list" where
  "HTTP_STATUS_MAP = [
    (''NPS-OK'', 200), (''NPS-OK-ACCEPTED'', 202), (''NPS-OK-NO-CONTENT'', 204), (''NPS-AUTH-UNAUTHENTICATED'', 401), (''NPS-AUTH-FORBIDDEN'', 403),
     (''NPS-CLIENT-BAD-FRAME'', 400), (''NPS-CLIENT-BAD-PARAM'', 400), (''NPS-CLIENT-NOT-FOUND'', 404), (''NPS-CLIENT-CONFLICT'', 409),
     (''NPS-CLIENT-GONE'', 410), (''NPS-CLIENT-UNPROCESSABLE'', 422), (''NPS-CLIENT-RATE-LIMITED'', 429), (''NPS-CLIENT-REQUEST-TOO-LARGE'', 413),
     (''NPS-SERVER-INTERNAL'', 500), (''NPS-SERVER-UNAVAILABLE'', 503), (''NPS-SERVER-TIMEOUT'', 504), (''NPS-SERVER-ENCODING-UNSUPPORTED'', 415),
     (''NPS-SERVER-UNSUPPORTED'', 501), (''NPS-DOWNSTREAM-UNAVAILABLE'', 502), (''NPS-STREAM-SEQ-GAP'', 422), (''NPS-STREAM-NOT-FOUND'', 404),
     (''NPS-STREAM-LIMIT'', 429), (''NPS-LIMIT-RATE'', 429), (''NPS-LIMIT-BUDGET'', 429), (''NPS-LIMIT-PAYLOAD'', 413),
     (''NPS-LIMIT-RESOURCE'', 429), (''NPS-LIMIT-EXCEEDED'', 429), (''NPS-PROTO-VERSION-INCOMPATIBLE'', 426), (''NPS-PROTO-PREAMBLE-INVALID'', 400)]"

definition toHttpStatus :: "string \<Rightarrow> nat" where
  "toHttpStatus code = (case map_of HTTP_STATUS_MAP code of None \<Rightarrow> 500 | Some n \<Rightarrow> n)"

definition NWP_ERROR_TO_NPS_STATUS :: "(string \<times> string) list" where
  "NWP_ERROR_TO_NPS_STATUS = [
    (''NWP-CHALLENGE-INVALID'', ''NPS-CLIENT-BAD-FRAME''), (''NWP-CHALLENGE-NOT-FOUND'', ''NPS-CLIENT-NOT-FOUND''),
     (''NWP-CHALLENGE-BINDING-CONFLICT'', ''NPS-CLIENT-CONFLICT''), (''NWP-CHALLENGE-NOT-APPROVED'', ''NPS-CLIENT-CONFLICT''),
     (''NWP-CHALLENGE-EXPIRED'', ''NPS-CLIENT-CONFLICT''), (''NWP-CHALLENGE-STATE-UNAVAILABLE'', ''NPS-SERVER-UNAVAILABLE''),
     (''NWP-FEATURE-REQUIREMENTS-INVALID'', ''NPS-CLIENT-BAD-FRAME''), (''NWP-FEATURE-REQUIRED-UNSUPPORTED'', ''NPS-CLIENT-CONFLICT''),
     (''NWP-AUTH-NID-SCOPE-VIOLATION'', ''NPS-AUTH-FORBIDDEN''), (''NWP-AUTH-NID-EXPIRED'', ''NPS-AUTH-UNAUTHENTICATED''),
     (''NWP-AUTH-NID-REVOKED'', ''NPS-AUTH-UNAUTHENTICATED''), (''NWP-AUTH-NID-UNTRUSTED-ISSUER'', ''NPS-AUTH-UNAUTHENTICATED''),
     (''NWP-AUTH-NID-CAPABILITY-MISSING'', ''NPS-AUTH-FORBIDDEN''), (''NWP-AUTH-ASSURANCE-TOO-LOW'', ''NPS-AUTH-FORBIDDEN''),
     (''NWP-AUTH-REPUTATION-BLOCKED'', ''NPS-AUTH-FORBIDDEN''), (''NWP-REPUTATION-THROTTLED'', ''NPS-CLIENT-RATE-LIMITED''),
     (''NWP-REPUTATION-REJECTED'', ''NPS-AUTH-FORBIDDEN''), (''NWP-REPUTATION-BANNED'', ''NPS-AUTH-FORBIDDEN''),
     (''NWP-QUERY-FILTER-INVALID'', ''NPS-CLIENT-BAD-PARAM''), (''NWP-QUERY-FIELD-UNKNOWN'', ''NPS-CLIENT-BAD-PARAM''),
     (''NWP-QUERY-CURSOR-INVALID'', ''NPS-CLIENT-BAD-PARAM''), (''NWP-QUERY-REGEX-UNSAFE'', ''NPS-CLIENT-BAD-PARAM''),
     (''NWP-QUERY-VECTOR-UNSUPPORTED'', ''NPS-SERVER-UNSUPPORTED''), (''NWP-QUERY-AGGREGATE-UNSUPPORTED'', ''NPS-SERVER-UNSUPPORTED''),
     (''NWP-QUERY-AGGREGATE-INVALID'', ''NPS-CLIENT-BAD-PARAM''), (''NWP-QUERY-STREAM-UNSUPPORTED'', ''NPS-SERVER-UNSUPPORTED''),
     (''NWP-ACTION-NOT-FOUND'', ''NPS-CLIENT-NOT-FOUND''), (''NWP-ACTION-PARAMS-INVALID'', ''NPS-CLIENT-UNPROCESSABLE''),
     (''NWP-ACTION-IDEMPOTENCY-CONFLICT'', ''NPS-CLIENT-CONFLICT''), (''NWP-LLM-CONTEXT-NOT-FOUND'', ''NPS-CLIENT-NOT-FOUND''),
     (''NWP-LLM-CONTEXT-EXPIRED'', ''NPS-CLIENT-GONE''), (''NWP-LLM-CONTEXT-VERSION-CONFLICT'', ''NPS-CLIENT-CONFLICT''),
     (''NWP-LLM-CONTEXT-BINDING-MISMATCH'', ''NPS-CLIENT-CONFLICT''), (''NWP-LLM-CONTEXT-FORBIDDEN'', ''NPS-AUTH-FORBIDDEN''),
     (''NWP-LLM-CONTEXT-LIMIT-EXCEEDED'', ''NPS-LIMIT-RESOURCE''), (''NWP-LLM-CONTEXT-OPERATION-UNSUPPORTED'', ''NPS-SERVER-UNSUPPORTED''),
     (''NWP-TASK-NOT-FOUND'', ''NPS-CLIENT-NOT-FOUND''), (''NWP-TASK-ALREADY-CANCELLED'', ''NPS-CLIENT-CONFLICT''),
     (''NWP-TASK-ALREADY-COMPLETED'', ''NPS-CLIENT-CONFLICT''), (''NWP-TASK-ALREADY-FAILED'', ''NPS-CLIENT-CONFLICT''),
     (''NWP-SUBSCRIBE-STREAM-NOT-FOUND'', ''NPS-CLIENT-NOT-FOUND''), (''NWP-SUBSCRIBE-LIMIT-EXCEEDED'', ''NPS-LIMIT-EXCEEDED''),
     (''NWP-SUBSCRIBE-FILTER-UNSUPPORTED'', ''NPS-SERVER-UNSUPPORTED''), (''NWP-SUBSCRIBE-INTERRUPTED'', ''NPS-SERVER-UNAVAILABLE''),
     (''NWP-SUBSCRIBE-SEQ-TOO-OLD'', ''NPS-CLIENT-CONFLICT''), (''NWP-SUBSCRIBE-LEASE-INVALID'', ''NPS-CLIENT-BAD-PARAM''),
     (''NWP-SUBSCRIBE-LEASE-EXPIRED'', ''NPS-CLIENT-GONE''), (''NWP-BUDGET-EXCEEDED'', ''NPS-LIMIT-BUDGET''),
     (''NWP-CGN-LIMIT-EXCEEDED'', ''NPS-CLIENT-REQUEST-TOO-LARGE''), (''NWP-DEPTH-EXCEEDED'', ''NPS-CLIENT-BAD-PARAM''),
     (''NWP-GRAPH-CYCLE'', ''NPS-CLIENT-UNPROCESSABLE''), (''NWP-NODE-UNAVAILABLE'', ''NPS-SERVER-UNAVAILABLE''),
     (''NWP-MANIFEST-VERSION-UNSUPPORTED'', ''NPS-CLIENT-BAD-PARAM''), (''NWP-MANIFEST-NODE-TYPE-REMOVED'', ''NPS-CLIENT-BAD-FRAME''),
     (''NWP-MANIFEST-NODE-TYPE-UNKNOWN'', ''NPS-CLIENT-BAD-FRAME''), (''NWP-RATE-LIMIT-EXCEEDED'', ''NPS-LIMIT-RATE''),
     (''NWP-RESERVED-TYPE-UNSUPPORTED'', ''NPS-SERVER-UNSUPPORTED''), (''NWP-HTTP-ORIGIN-FORBIDDEN'', ''NPS-AUTH-FORBIDDEN''),
     (''NWP-HTTP-CONTENT-TYPE-UNSUPPORTED'', ''NPS-CLIENT-BAD-FRAME''), (''NWP-HTTP-ACCEPT-UNSATISFIABLE'', ''NPS-CLIENT-BAD-PARAM''),
     (''NWP-HTTP-REQUEST-ID-MISMATCH'', ''NPS-CLIENT-BAD-PARAM''), (''NWP-HTTP-FRAME-BODY-MALFORMED'', ''NPS-CLIENT-BAD-FRAME''),
     (''NWP-HTTP-BODY-TOO-LARGE'', ''NPS-LIMIT-PAYLOAD''), (''NWP-CAPABILITY-ADVERTISED-UNIMPLEMENTED'', ''NPS-SERVER-UNSUPPORTED''),
     (''NWP-TOPOLOGY-UNAUTHORIZED'', ''NPS-AUTH-FORBIDDEN''), (''NWP-TOPOLOGY-UNSUPPORTED-SCOPE'', ''NPS-CLIENT-BAD-PARAM''),
     (''NWP-TOPOLOGY-DEPTH-UNSUPPORTED'', ''NPS-CLIENT-BAD-PARAM''), (''NWP-TOPOLOGY-FILTER-UNSUPPORTED'', ''NPS-CLIENT-BAD-PARAM''),
     (''NWP-ANCHOR-NOT-LEADER'', ''NPS-CLIENT-CONFLICT''), (''NWP-ANCHOR-EPOCH-FENCED'', ''NPS-CLIENT-CONFLICT''),
     (''NWP-BRIDGE-DIRECTION-UNSUPPORTED'', ''NPS-SERVER-UNSUPPORTED''), (''NWP-BRIDGE-TARGET-INVALID'', ''NPS-CLIENT-UNPROCESSABLE''),
     (''NWP-BRIDGE-PROTOCOL-UNSUPPORTED'', ''NPS-SERVER-UNSUPPORTED''), (''NWP-BRIDGE-ENDPOINT-INVALID'', ''NPS-CLIENT-UNPROCESSABLE''),
     (''NWP-BRIDGE-UPSTREAM-FAILED'', ''NPS-DOWNSTREAM-UNAVAILABLE''), (''NWP-BRIDGE-SERVER-TOOL-NOT-FOUND'', ''NPS-CLIENT-NOT-FOUND''),
     (''NWP-BRIDGE-SERVER-DISPATCHER-MISSING'', ''NPS-SERVER-INTERNAL''), (''NWP-BRIDGE-SERVER-DISPATCH-FAILED'', ''NPS-SERVER-INTERNAL'')]"

text \<open>No error code falls back to the default HTTP status, and no code is listed twice.\<close>

lemma error_statuses_known: "list_all (\<lambda>(code, status). map_of HTTP_STATUS_MAP status \<noteq> None \<and> toHttpStatus status \<ge> 400) NWP_ERROR_TO_NPS_STATUS"
  by code_simp

lemma tables_distinct: "distinct (map fst HTTP_STATUS_MAP)" "distinct (map fst NWP_ERROR_TO_NPS_STATUS)"
  by code_simp+

text \<open>The statuses of many error responses of the NWP servers.\<close>

lemma statuses_not_in_table: "map_of HTTP_STATUS_MAP ''NPS-CLIENT-BAD-REQUEST'' = None" "map_of HTTP_STATUS_MAP ''NPS-CLIENT-UNAUTHORIZED'' = None"
  by code_simp+

end
