(* ===== verification/NwpLlmServer.thy ===== *)
theory NwpLlmServer
  imports NwpLlm NwpStatus Contracts
begin

text \<open>
  The coordinator of stateful LLM actions (\<open>nwp/llm-action-server.ts\<close>) over the context store of \<open>NwpContextStore\<close>. A completion with a
  context is a call with stages: what happens between two awaits is one step, and a step of one call may fall between any two
  of another. What the wrapped provider, the authorizer, the source of a stream and the consumer of the response do are events. The texts of errors
  are not kept; the store keeps tool calls and tool definitions as values it does not look into.

  Proved: at every moment the reservations of the store are exactly those of the calls that are not finished, each held by one call, so
  a finished call never leaves a context locked; the two ways in which the code can break that are shown apart. A stream that runs to its end commits
  the concatenation of what it delivered.
\<close>

section \<open>Options and errors\<close>

record StatefulLlmActionOptions =
  slo_securityScope :: string
  slo_runtimeRevision :: string
  slo_providerName :: "string option"
  slo_defaultModel :: "string option"
  slo_supportsTools :: bool
  slo_supportsStream :: bool
  slo_supportsJsonMode :: bool
  slo_reasoningVisibility :: "string option"
  slo_hasAuthorizer :: bool

record llm_env =
  le_options :: StatefulLlmActionOptions
  le_store :: LlmContextStoreOptions
  le_fp :: "LlmContextBinding \<Rightarrow> string"
  le_render :: "int \<Rightarrow> string"

text \<open>False: the constructor throws.\<close>

definition llm_constructible :: "StatefulLlmActionOptions \<Rightarrow> bool" where
  "llm_constructible o' \<longleftrightarrow> js_trim (slo_securityScope o') \<noteq> [] \<and> js_trim (slo_runtimeRevision o') \<noteq> []"

definition NODE_UNAVAILABLE :: string where "NODE_UNAVAILABLE = ''NWP-NODE-UNAVAILABLE''"

definition paramsError :: provider_error where
  "paramsError = ActionExecutionError 422 ''NPS-CLIENT-UNPROCESSABLE'' ''NWP-ACTION-PARAMS-INVALID'' []"

definition internalError :: provider_error where
  "internalError = ActionExecutionError 500 ''NPS-SERVER-INTERNAL'' NODE_UNAVAILABLE []"

definition mapStoreError :: "ctx_error \<Rightarrow> provider_error" where
  "mapStoreError e = (case e of
     StoreError code v \<Rightarrow>
       let status = (case map_of NWP_ERROR_TO_NPS_STATUS code of None \<Rightarrow> ''NPS-SERVER-INTERNAL'' | Some s \<Rightarrow> s) in
       ActionExecutionError (toHttpStatus status) status code []
   | PlainError \<Rightarrow> OtherError [])"

definition thrown_code :: "provider_error \<Rightarrow> string" where
  "thrown_code e = (case e of ActionExecutionError h n code m \<Rightarrow> code | OtherError m \<Rightarrow> NODE_UNAVAILABLE)"

definition llm_owner :: "llm_env \<Rightarrow> ActionContext \<Rightarrow> provider_error + LlmContextOwner" where
  "llm_owner env ctx = (case acx_agentNid ctx of
     Some nid \<Rightarrow> if js_trim nid = [] then Inl (ActionExecutionError 401 ''NPS-AUTH-UNAUTHENTICATED'' ''NWP-AUTH-NID-SCOPE-VIOLATION'' [])
       else Inr \<lparr>ow_nid = nid, ow_securityScope = slo_securityScope (le_options env)\<rparr>
   | None \<Rightarrow> Inl (ActionExecutionError 401 ''NPS-AUTH-UNAUTHENTICATED'' ''NWP-AUTH-NID-SCOPE-VIOLATION'' []))"

section \<open>The node's manifest\<close>

definition llm_spec :: "string \<Rightarrow> string \<Rightarrow> string \<Rightarrow> string \<Rightarrow> ActionSpec" where
  "llm_spec description params result' capability = \<lparr>asp_description = Some description, asp_paramsAnchor = Some params, asp_resultAnchor = Some result',
     asp_async = None, asp_idempotent = None, asp_timeoutMsDefault = None, asp_timeoutMsMax = None, asp_requiredCapability = Some capability\<rparr>"

definition complete_spec :: "ActionSpec option \<Rightarrow> ActionSpec" where
  "complete_spec current = (llm_spec (opt_or ''Complete an LLM request'' (Option.bind current asp_description)) ''nps:system:llm.complete:request''
     ''nps:system:llm.complete:response'' ''llm:complete'')
     \<lparr>asp_async := Some (opt_or True (Option.bind current asp_async)), asp_idempotent := Some True,
      asp_timeoutMsDefault := Option.bind current asp_timeoutMsDefault, asp_timeoutMsMax := Option.bind current asp_timeoutMsMax\<rparr>"

definition store_operations :: "LlmContextStoreOptions \<Rightarrow> ctx_op list" where
  "store_operations so = filter (\<lambda>x. x \<in> set (so_supportedOperations so)) [OpCreate, OpAppend, OpFork, OpReset, OpRelease]"

definition llm_profile :: "llm_env \<Rightarrow> jsobj" where
  "llm_profile env = (let o' = le_options env; so = le_store env in
     [(''profile_version'', JStr ''0.2''), (''actions'', JArr [JStr LLM_COMPLETE, JStr LLM_CONTEXT_STATUS, JStr LLM_CONTEXT_RELEASE]),
      (''supports_stream'', JBool (slo_supportsStream o')), (''supports_tools'', JBool (slo_supportsTools o')), (''supports_json_mode'', JBool (slo_supportsJsonMode o')),
      (''context'', JObj [(''supported'', JBool True), (''operations'', JArr (map operation_json (store_operations so))), (''persistence'', JStr ''process''),
         (''max_contexts_per_principal'', int_json (so_maxContextsPerPrincipal so)), (''max_ttl_seconds'', int_json (so_maxTtlSeconds so)),
         (''tombstone_seconds'', int_json (so_tombstoneSeconds so))])] @
     member_if ''provider'' JStr (slo_providerName o') @ member_if ''default_model'' JStr (slo_defaultModel o') @
     member_if ''reasoning_visibility'' JStr (slo_reasoningVisibility o'))"

definition configureNode :: "llm_env \<Rightarrow> ActionNodeOptions \<Rightarrow> ActionNodeOptions" where
  "configureNode env node =
     (let acts = js_set (ano_actions node) LLM_COMPLETE (complete_spec (js_get (ano_actions node) LLM_COMPLETE));
          acts = js_set acts LLM_CONTEXT_STATUS (llm_spec ''Inspect an LLM context or retained create outcome'' ''nps:system:llm.context.status:request''
            ''nps:system:llm.context.status:response'' ''llm:context'');
          acts = js_set acts LLM_CONTEXT_RELEASE ((llm_spec ''Release an LLM context'' ''nps:system:llm.context.release:request''
            ''nps:system:llm.context.release:response'' ''llm:context'')\<lparr>asp_idempotent := Some True\<rparr>) in
      node\<lparr>ano_actions := acts, ano_profiles := Some (js_set (opt_or [] (ano_profiles node)) ''llm'' (JObj (llm_profile env)))\<rparr>)"

section \<open>Requests\<close>

definition message_ok :: "jsval \<Rightarrow> bool" where
  "message_ok v = (case v of JObj d \<Rightarrow> (case jo_get d ''role'' of Some (JStr s) \<Rightarrow> True | _ \<Rightarrow> False) | _ \<Rightarrow> False)"

definition context_ok :: "jsval option \<Rightarrow> bool" where
  "context_ok v = (case v of None \<Rightarrow> True
     | Some (JObj d) \<Rightarrow> (case jo_get d ''operation'' of Some x \<Rightarrow> as_operation x \<noteq> None | None \<Rightarrow> False) | _ \<Rightarrow> False)"

definition parseCompleteRequest :: "jsobj option \<Rightarrow> provider_error + LlmCompleteActionRequest" where
  "parseCompleteRequest params = (case params of None \<Rightarrow> Inl paramsError
   | Some w \<Rightarrow>
       if \<not> (case jo_get w ''model'' of Some (JStr s) \<Rightarrow> js_trim s \<noteq> [] | _ \<Rightarrow> False) then Inl paramsError
       else if \<not> (case jo_get w ''messages'' of Some (JArr ms) \<Rightarrow> list_all message_ok ms | _ \<Rightarrow> False) then Inl paramsError
       else if \<not> context_ok (jo_get w ''context'') then Inl paramsError
       else case llmCompleteRequestFromWire w of None \<Rightarrow> Inl paramsError | Some r \<Rightarrow> Inr r)"

definition hasContextRequest :: "jsobj option \<Rightarrow> bool" where
  "hasContextRequest params = (case params of None \<Rightarrow> False | Some w \<Rightarrow> jo_get w ''context'' \<noteq> None)"

definition requiredCapabilities :: "ActionFrame \<Rightarrow> string list" where
  "requiredCapabilities frame =
     (if af_actionId frame = LLM_CONTEXT_STATUS \<or> af_actionId frame = LLM_CONTEXT_RELEASE then [''llm:context'']
      else [''llm:complete'', ''llm:context''] @
        (if Option.bind (af_params frame) (\<lambda>w. jo_get w ''stream'') = Some (JBool True) then [''llm:stream''] else []) @
        (case Option.bind (af_params frame) (\<lambda>w. jo_get w ''tools'') of Some (JArr (t # ts)) \<Rightarrow> [''llm:tool_call''] | _ \<Rightarrow> []))"

text \<open>The answer of the configured authorizer, or the refusal when there is none.\<close>

definition checkAuthorization :: "llm_env \<Rightarrow> provider_error option \<Rightarrow> provider_error option" where
  "checkAuthorization env answer = (if slo_hasAuthorizer (le_options env) then answer
     else Some (ActionExecutionError 403 ''NPS-AUTH-FORBIDDEN'' ''NWP-LLM-CONTEXT-FORBIDDEN'' []))"

text \<open>Admission: what the wrapped provider and the authorizer answer are arguments; \<open>None\<close> admits.\<close>

definition llm_authorize :: "llm_env \<Rightarrow> ActionFrame \<Rightarrow> ActionContext \<Rightarrow> provider_error option \<Rightarrow> provider_error option \<Rightarrow> provider_error option" where
  "llm_authorize env frame ctx inner answer = (case inner of Some e \<Rightarrow> Some e
   | None \<Rightarrow>
       if \<not> (af_actionId frame = LLM_CONTEXT_STATUS \<or> af_actionId frame = LLM_CONTEXT_RELEASE \<or>
              (af_actionId frame = LLM_COMPLETE \<and> hasContextRequest (af_params frame))) then None
       else let admit = (case llm_owner env ctx of Inl e \<Rightarrow> Some e | Inr ow \<Rightarrow> checkAuthorization env answer) in
         if af_actionId frame = LLM_COMPLETE \<and> af_async frame = Some True
         then (case parseCompleteRequest (af_params frame) of Inl e \<Rightarrow> Some e | Inr r \<Rightarrow> if lq_stream r = Some True then Some paramsError else admit)
         else admit)"

text \<open>Messages and tools as the store keeps them.\<close>

definition store_message :: "LlmMessage \<Rightarrow> LlmMessageDto" where
  "store_message m = \<lparr>ms_role = lm_role m, ms_content = lm_content m, ms_toolCallId = lm_toolCallId m, ms_toolName = lm_toolName m,
     ms_toolCalls = map_option (map toolCallToWire) (lm_toolCalls m)\<rparr>"

definition store_tools :: "LlmToolDefinitionDto list option \<Rightarrow> jsval list option" where
  "store_tools ts = map_option (map toolDefinitionToWire) ts"

definition mutation_request :: "LlmCompleteActionRequest \<Rightarrow> LlmContextRequestDto \<Rightarrow> LlmContextOwner \<Rightarrow> LlmContextBinding \<Rightarrow> ActionFrame \<Rightarrow> LlmContextMutationRequest" where
  "mutation_request r c ow b frame = \<lparr>rq_operation = lcx_operation c, rq_owner = ow, rq_contextId = lcx_contextId c, rq_baseVersion = lcx_baseVersion c,
     rq_binding = b, rq_messages = map store_message (lq_messages r), rq_ttlSeconds = lcx_ttlSeconds c,
     rq_idempotencyKey = opt_or [] (af_idempotencyKey frame), rq_requestId = opt_or [] (af_requestId frame)\<rparr>"

definition llm_reserve :: "llm_env \<Rightarrow> int \<Rightarrow> string \<Rightarrow> LlmContextOwner \<Rightarrow> LlmCompleteActionRequest \<Rightarrow> LlmContextRequestDto \<Rightarrow> ActionFrame \<Rightarrow> ctx_store
    \<Rightarrow> (provider_error + LlmContextMutationReservation) \<times> ctx_store" where
  "llm_reserve env now rid ow r c frame s =
     (let (binding, s) = (if lcx_operation c = OpAppend \<or> lcx_operation c = OpFork
            then (case lcx_contextId c of None \<Rightarrow> (Inl paramsError, s)
              | Some cid \<Rightarrow> (case snapshot (le_store env) now ow cid s of
                  (Inl e, s') \<Rightarrow> (Inl (mapStoreError e), s')
                | (Inr sn, s') \<Rightarrow> (Inr \<lparr>bd_model = lq_model r, bd_systemMessages = bd_systemMessages (sn_binding sn),
                    bd_tools = (case store_tools (lq_tools r) of None \<Rightarrow> bd_tools (sn_binding sn) | Some ts \<Rightarrow> Some ts),
                    bd_runtimeRevision = slo_runtimeRevision (le_options env)\<rparr>, s')))
            else (Inr \<lparr>bd_model = lq_model r, bd_systemMessages = map store_message (filter (\<lambda>m. js_toLowerCase (lm_role m) = ''system'') (lq_messages r)),
                    bd_tools = store_tools (lq_tools r), bd_runtimeRevision = slo_runtimeRevision (le_options env)\<rparr>, s)) in
      case binding of Inl e \<Rightarrow> (Inl e, s)
      | Inr b \<Rightarrow> (case reserve (le_store env) (le_fp env) now rid (mutation_request r c ow b frame) s of
          (Inl e, s') \<Rightarrow> (Inl (mapStoreError e), s') | (Inr rv, s') \<Rightarrow> (Inr rv, s')))"

section \<open>Stages of a completion\<close>

record llm_call =
  lk_frame :: ActionFrame
  lk_owner :: LlmContextOwner
  lk_rv :: LlmContextMutationReservation
  lk_stream :: bool

datatype llm_outcome = LlmThrew provider_error | LlmResult ActionExecutionResult | LlmStreamEnded | LlmAbandoned

datatype llm_stage =
    LExecuting
  | LCommitting LlmCompleteActionResponse ActionExecutionResult
  | LStreamReady
  | LPulling "string list" "LlmToolCallDto list"
  | LYielded "string list" "LlmToolCallDto list"
  | LStreamCommitting StreamFrame "LlmCompleteStreamChunkDto list" nat "string list" "LlmToolCallDto list"
  | LDone llm_outcome

datatype llm_started = LlmStarted llm_call | LlmDelegated | LlmRefused provider_error

text \<open>The part of \<open>complete\<close> before the wrapped provider runs.\<close>

definition complete_start :: "llm_env \<Rightarrow> int \<Rightarrow> string \<Rightarrow> ActionFrame \<Rightarrow> ActionContext \<Rightarrow> ctx_store \<Rightarrow> llm_started \<times> ctx_store" where
  "complete_start env now rid frame ctx s = (case parseCompleteRequest (af_params frame) of Inl e \<Rightarrow> (LlmRefused e, s)
   | Inr r \<Rightarrow>
       if \<not> slo_supportsTools (le_options env) \<and> (case lq_tools r of None \<Rightarrow> False | Some ts \<Rightarrow> ts \<noteq> []) then (LlmRefused paramsError, s)
       else (case lq_context r of None \<Rightarrow> (LlmDelegated, s)
         | Some c \<Rightarrow>
             if lq_stream r = Some True \<and> \<not> slo_supportsStream (le_options env) then (LlmRefused paramsError, s)
             else if lq_stream r = Some True \<and> af_async frame = Some True then (LlmRefused paramsError, s)
             else if lcx_operation c \<in> {OpAppend, OpFork, OpReset} \<and> (lcx_contextId c = None \<or> lcx_baseVersion c = None) then (LlmRefused paramsError, s)
             else (case llm_owner env ctx of Inl e \<Rightarrow> (LlmRefused e, s)
               | Inr ow \<Rightarrow> (case llm_reserve env now rid ow r c frame s of
                   (Inl e, s') \<Rightarrow> (LlmRefused e, s')
                 | (Inr rv, s') \<Rightarrow> (LlmStarted \<lparr>lk_frame = frame, lk_owner = ow, lk_rv = rv, lk_stream = (lq_stream r = Some True)\<rparr>, s')))))"

definition llm_abort :: "llm_env \<Rightarrow> int \<Rightarrow> llm_call \<Rightarrow> string \<Rightarrow> llm_outcome \<Rightarrow> ctx_store \<Rightarrow> llm_stage \<times> ctx_store" where
  "llm_abort env now call code after s = (case abort (le_store env) now (lk_rv call) (Some code) s of
     (Inr u, s') \<Rightarrow> (LDone after, s') | (Inl e, s') \<Rightarrow> (LDone (LlmThrew internalError), s'))"

definition completionResult :: "LlmCompleteActionResponse \<Rightarrow> ActionExecutionResult \<Rightarrow> ActionExecutionResult" where
  "completionResult response p = p\<lparr>aer_result := Some (JObj (llmCompleteResponseToWire response)), aer_stream := False,
     aer_anchorRef := Some (opt_or ''nps:system:llm.complete:response'' (aer_anchorRef p))\<rparr>"

text \<open>The wrapped provider has answered; \<open>aborted\<close> says whether the signal was aborted by then.\<close>

definition on_executed :: "llm_env \<Rightarrow> int \<Rightarrow> llm_call \<Rightarrow> provider_error + ActionExecutionResult \<Rightarrow> bool \<Rightarrow> ctx_store \<Rightarrow> llm_stage \<times> ctx_store" where
  "on_executed env now call r aborted s = (case r of
     Inl e \<Rightarrow> llm_abort env now call (thrown_code e) (LlmThrew e) s
   | Inr p \<Rightarrow>
       if aborted then llm_abort env now call NODE_UNAVAILABLE (LlmThrew (OtherError ''action execution cancelled'')) s
       else if lk_stream call then
         (if \<not> aer_stream p then llm_abort env now call NODE_UNAVAILABLE (LlmThrew internalError) s else (LStreamReady, s))
       else (case (case aer_result p of Some (JObj d) \<Rightarrow> llmCompleteResponseFromWire d | _ \<Rightarrow> None) of
           None \<Rightarrow> llm_abort env now call NODE_UNAVAILABLE (LlmThrew internalError) s
         | Some response \<Rightarrow>
             if lr_stopReason response = StopError
             then llm_abort env now call NODE_UNAVAILABLE (LlmResult (completionResult (response\<lparr>lr_context := None\<rparr>) p)) s
             else (LCommitting response p, s)))"

definition assistant_message :: "string option \<Rightarrow> LlmToolCallDto list option \<Rightarrow> LlmMessageDto" where
  "assistant_message content calls = store_message \<lparr>lm_role = ''assistant'', lm_content = content, lm_toolCallId = None, lm_toolName = None, lm_toolCalls = calls\<rparr>"

text \<open>The authorizer has answered at the commit of a completion that is not streamed.\<close>

definition on_commit_authorized :: "llm_env \<Rightarrow> int \<Rightarrow> (nat \<Rightarrow> string) \<Rightarrow> llm_call \<Rightarrow> LlmCompleteActionResponse \<Rightarrow> ActionExecutionResult \<Rightarrow> provider_error option \<Rightarrow> bool \<Rightarrow> ctx_store
    \<Rightarrow> llm_stage \<times> ctx_store" where
  "on_commit_authorized env now factory call response p answer aborted s = (case checkAuthorization env answer of
     Some e \<Rightarrow> llm_abort env now call (thrown_code e) (LlmThrew e) s
   | None \<Rightarrow>
       if aborted then llm_abort env now call NODE_UNAVAILABLE (LlmThrew (OtherError ''action execution cancelled'')) s
       else (case commit (le_store env) now factory (lk_rv call) (assistant_message (lr_content response) (lr_toolCalls response)) s of
           (Inr receipt, s') \<Rightarrow> (LDone (LlmResult (completionResult (response\<lparr>lr_context := Some (rendered_receipt (le_render env) receipt)\<rparr>) p)), s')
         | (Inl e, s') \<Rightarrow> (LDone (LlmThrew (mapStoreError e)), s')))"

section \<open>Streams\<close>

definition rewriteStreamFrame :: "StreamFrame \<Rightarrow> LlmCompleteStreamChunkDto list \<Rightarrow> string option \<Rightarrow> StreamFrame" where
  "rewriteStreamFrame f chunks code = f\<lparr>stf_isLast := (stf_isLast f \<or> code \<noteq> None), stf_data := map llmCompleteStreamChunkToWire chunks, stf_errorCode := code\<rparr>"

definition terminal_only :: "LlmCompleteStreamChunkDto \<Rightarrow> bool" where
  "terminal_only c \<longleftrightarrow> lc_stopReason c \<noteq> None \<or> lc_error c \<noteq> None \<or> lc_usage c \<noteq> None \<or> lc_context c \<noteq> None"

definition chunk_deltas :: "LlmCompleteStreamChunkDto list \<Rightarrow> string list" where
  "chunk_deltas cs = concat (map (\<lambda>c. case lc_contentDelta c of None \<Rightarrow> [] | Some d \<Rightarrow> [d]) cs)"

definition chunk_calls :: "LlmCompleteStreamChunkDto list \<Rightarrow> LlmToolCallDto list" where
  "chunk_calls cs = concat (map (\<lambda>c. opt_or [] (lc_toolCalls c)) cs)"

text \<open>The last chunk with a stop reason.\<close>

definition terminal_index :: "LlmCompleteStreamChunkDto list \<Rightarrow> nat option" where
  "terminal_index cs = foldl (\<lambda>r (i, c). if lc_stopReason c \<noteq> None then Some i else r) None (enumerate 0 cs)"

definition stream_failed :: "StreamFrame \<Rightarrow> LlmCompleteStreamChunkDto list \<Rightarrow> bool" where
  "stream_failed f cs \<longleftrightarrow> stf_errorCode f \<noteq> None \<or> list_ex (\<lambda>c. lc_stopReason c = Some StopError \<or> lc_error c \<noteq> None) cs"

definition on_stream_frame :: "llm_env \<Rightarrow> int \<Rightarrow> llm_call \<Rightarrow> StreamFrame \<Rightarrow> bool \<Rightarrow> string list \<Rightarrow> LlmToolCallDto list \<Rightarrow> ctx_store
    \<Rightarrow> StreamFrame list \<times> llm_stage \<times> ctx_store" where
  "on_stream_frame env now call f aborted content calls s =
     (if aborted then ([], llm_abort env now call NODE_UNAVAILABLE (LlmThrew (OtherError ''action stream cancelled'')) s)
      else case those (map llmCompleteStreamChunkFromWire (stf_data f)) of
        None \<Rightarrow> ([], llm_abort env now call NODE_UNAVAILABLE (LlmThrew internalError) s)
      | Some chunks \<Rightarrow>
          if \<not> stf_isLast f \<and> list_ex terminal_only chunks then ([], llm_abort env now call NODE_UNAVAILABLE (LlmThrew internalError) s)
          else let content = content @ chunk_deltas chunks; calls = calls @ chunk_calls chunks; sanitized = map (\<lambda>c. c\<lparr>lc_context := None\<rparr>) chunks in
            if \<not> stf_isLast f then ([rewriteStreamFrame f sanitized (stf_errorCode f)], LYielded content calls, s)
            else if stream_failed f sanitized
            then let code = opt_or NODE_UNAVAILABLE (stf_errorCode f) in
              (case llm_abort env now call code LlmStreamEnded s of
                 (LDone LlmStreamEnded, s') \<Rightarrow> ([rewriteStreamFrame f sanitized (Some code)], LDone LlmStreamEnded, s')
               | (stage, s') \<Rightarrow> ([], stage, s'))
            else (case terminal_index sanitized of
                None \<Rightarrow> ([], llm_abort env now call NODE_UNAVAILABLE (LlmThrew internalError) s)
              | Some k \<Rightarrow> ([], LStreamCommitting f sanitized k content calls, s)))"

definition on_stream_authorized :: "llm_env \<Rightarrow> int \<Rightarrow> (nat \<Rightarrow> string) \<Rightarrow> llm_call \<Rightarrow> StreamFrame \<Rightarrow> LlmCompleteStreamChunkDto list \<Rightarrow> nat \<Rightarrow> string list \<Rightarrow> LlmToolCallDto list \<Rightarrow>
    provider_error option \<Rightarrow> bool \<Rightarrow> ctx_store \<Rightarrow> StreamFrame list \<times> llm_stage \<times> ctx_store" where
  "on_stream_authorized env now factory call f chunks k content calls answer aborted s = (case checkAuthorization env answer of
     Some e \<Rightarrow> ([], llm_abort env now call (thrown_code e) (LlmThrew e) s)
   | None \<Rightarrow>
       if aborted then ([], llm_abort env now call NODE_UNAVAILABLE (LlmThrew (OtherError ''action stream cancelled'')) s)
       else (case commit (le_store env) now factory (lk_rv call)
                (assistant_message (if concat content = [] then None else Some (concat content)) (if calls = [] then None else Some calls)) s of
           (Inr receipt, s') \<Rightarrow>
             ([rewriteStreamFrame f (chunks[k := (chunks ! k)\<lparr>lc_context := Some (rendered_receipt (le_render env) receipt)\<rparr>]) (stf_errorCode f)], LDone LlmStreamEnded, s')
         | (Inl e, s') \<Rightarrow> ([], llm_abort env now call (thrown_code (mapStoreError e)) (LlmThrew (mapStoreError e)) s')))"

section \<open>Steps of a call\<close>

datatype llm_event =
    EvExecuted "provider_error + ActionExecutionResult" bool
  | EvAuthorized "provider_error option" bool
  | EvFrame StreamFrame bool
  | EvSourceEnd
  | EvSourceThrew provider_error
  | EvPull
  | EvReturn

text \<open>
  A generator that was never started has no \<open>finally\<close> to run when its consumer returns; one that is suspended at a \<open>yield\<close> has. Events that do not
  belong to the stage change nothing.
\<close>

fun llm_step :: "llm_env \<Rightarrow> int \<Rightarrow> (nat \<Rightarrow> string) \<Rightarrow> llm_call \<Rightarrow> llm_stage \<Rightarrow> llm_event \<Rightarrow> ctx_store \<Rightarrow> StreamFrame list \<times> llm_stage \<times> ctx_store" where
  "llm_step env now factory call LExecuting (EvExecuted r aborted) s = ([], on_executed env now call r aborted s)"
| "llm_step env now factory call (LCommitting response p) (EvAuthorized answer aborted) s =
     ([], on_commit_authorized env now factory call response p answer aborted s)"
| "llm_step env now factory call LStreamReady EvPull s = ([], LPulling [] [], s)"
| "llm_step env now factory call LStreamReady EvReturn s = ([], LDone LlmAbandoned, s)"
| "llm_step env now factory call (LPulling content calls) (EvFrame f aborted) s = on_stream_frame env now call f aborted content calls s"
| "llm_step env now factory call (LPulling content calls) EvSourceEnd s = ([], llm_abort env now call NODE_UNAVAILABLE (LlmThrew internalError) s)"
| "llm_step env now factory call (LPulling content calls) (EvSourceThrew e) s = ([], llm_abort env now call NODE_UNAVAILABLE (LlmThrew e) s)"
| "llm_step env now factory call (LYielded content calls) EvPull s = ([], LPulling content calls, s)"
| "llm_step env now factory call (LYielded content calls) EvReturn s = ([], llm_abort env now call NODE_UNAVAILABLE LlmStreamEnded s)"
| "llm_step env now factory call (LStreamCommitting f chunks k content calls) (EvAuthorized answer aborted) s =
     on_stream_authorized env now factory call f chunks k content calls answer aborted s"
| "llm_step env now factory call stage ev s = ([], stage, s)"

section \<open>Status and release\<close>

definition optional_text :: "jsval option \<Rightarrow> provider_error + string option" where
  "optional_text v = (case optional as_str v of None \<Rightarrow> Inl paramsError | Some x \<Rightarrow> Inr x)"

definition store_answer :: "('a \<Rightarrow> jsval) \<Rightarrow> string \<Rightarrow> (ctx_error + 'a) \<times> ctx_store \<Rightarrow> (provider_error + ActionExecutionResult) \<times> ctx_store" where
  "store_answer enc anchor r = (case r of
     (Inl e, s) \<Rightarrow> (Inl (mapStoreError e), s)
   | (Inr x, s) \<Rightarrow> (Inr \<lparr>aer_result = Some (enc x), aer_stream = False, aer_anchorRef = Some anchor, aer_tokenEst = None\<rparr>, s))"

definition llm_status :: "llm_env \<Rightarrow> int \<Rightarrow> ActionFrame \<Rightarrow> ActionContext \<Rightarrow> ctx_store \<Rightarrow> (provider_error + ActionExecutionResult) \<times> ctx_store" where
  "llm_status env now frame ctx s = (case af_params frame of None \<Rightarrow> (Inl paramsError, s)
   | Some w \<Rightarrow>
       (case rbind (optional_text (jo_get w ''context_id'')) (\<lambda>c. rbind (optional_text (jo_get w ''idempotency_key'')) (\<lambda>k.
              rbind (llm_owner env ctx) (\<lambda>ow. Inr (c, k, ow)))) of
          Inl e \<Rightarrow> (Inl e, s)
        | Inr (c, k, ow) \<Rightarrow> store_answer (llmContextStatusToWire (le_render env)) ''nps:system:llm.context.status:response'' (ctx_status (le_store env) now ow c k s)))"

definition llm_release :: "llm_env \<Rightarrow> int \<Rightarrow> ActionFrame \<Rightarrow> ActionContext \<Rightarrow> ctx_store \<Rightarrow> (provider_error + ActionExecutionResult) \<times> ctx_store" where
  "llm_release env now frame ctx s = (case af_params frame of None \<Rightarrow> (Inl paramsError, s)
   | Some w \<Rightarrow>
       (case (Option.bind (jo_get w ''context_id'') as_str, Option.bind (jo_get w ''base_version'') as_int) of
          (Some c, Some b) \<Rightarrow>
            (case llm_owner env ctx of Inl e \<Rightarrow> (Inl e, s)
             | Inr ow \<Rightarrow> store_answer (\<lambda>r. receiptToWire (rendered_receipt (le_render env) r)) ''nps:system:llm.context.release:response''
                 (release (le_store env) now ow c b (opt_or [] (af_idempotencyKey frame)) s))
        | _ \<Rightarrow> (Inl paramsError, s)))"

section \<open>The machine\<close>

record llm_server =
  ls_calls :: "(llm_call \<times> llm_stage) list"
  ls_store :: ctx_store

datatype llm_input = StartComplete string ActionFrame ActionContext | CallEvent nat llm_event | StatusCall ActionFrame ActionContext | ReleaseCall ActionFrame ActionContext

fun llm_server_step :: "llm_env \<Rightarrow> llm_server \<Rightarrow> int \<times> (nat \<Rightarrow> string) \<times> llm_input \<Rightarrow> llm_server" where
  "llm_server_step env srv (now, factory, StartComplete rid frame ctx) = (case complete_start env now rid frame ctx (ls_store srv) of
     (LlmStarted call, s) \<Rightarrow> \<lparr>ls_calls = ls_calls srv @ [(call, LExecuting)], ls_store = s\<rparr>
   | (_, s) \<Rightarrow> srv\<lparr>ls_store := s\<rparr>)"
| "llm_server_step env srv (now, factory, CallEvent i ev) =
     (if i < length (ls_calls srv)
      then case llm_step env now factory (fst (ls_calls srv ! i)) (snd (ls_calls srv ! i)) ev (ls_store srv) of
        (out, stage, s) \<Rightarrow> \<lparr>ls_calls = (ls_calls srv)[i := (fst (ls_calls srv ! i), stage)], ls_store = s\<rparr>
      else srv)"
| "llm_server_step env srv (now, factory, StatusCall frame ctx) = srv\<lparr>ls_store := snd (llm_status env now frame ctx (ls_store srv))\<rparr>"
| "llm_server_step env srv (now, factory, ReleaseCall frame ctx) = srv\<lparr>ls_store := snd (llm_release env now frame ctx (ls_store srv))\<rparr>"

definition llm_server_empty :: llm_server where
  "llm_server_empty = \<lparr>ls_calls = [], ls_store = cs_empty\<rparr>"

text \<open>
  What is asked of an input: a new reservation id is new; a consumer does not drop a stream it never pulled from; and when a completion that
  creates a context commits, the id factory finds an id within its eight attempts.
\<close>

fun open_stage :: "llm_stage \<Rightarrow> bool" where
  "open_stage (LDone r) = False"
| "open_stage st = True"

definition allocating :: "LlmContextMutationReservation \<Rightarrow> bool" where
  "allocating rv \<longleftrightarrow> rq_operation (rv_request rv) = OpCreate \<or> rq_operation (rv_request rv) = OpFork"

fun event_ok :: "(nat \<Rightarrow> string) \<Rightarrow> llm_call \<Rightarrow> llm_stage \<Rightarrow> llm_event \<Rightarrow> ctx_store \<Rightarrow> bool" where
  "event_ok factory call LStreamReady EvReturn s = False"
| "event_ok factory call (LCommitting response p) (EvAuthorized answer aborted) s = (allocating (lk_rv call) \<longrightarrow> (\<exists>cid. nextContextId 8 factory s = Inr cid))"
| "event_ok factory call stage ev s = True"

fun input_ok :: "llm_server \<Rightarrow> int \<times> (nat \<Rightarrow> string) \<times> llm_input \<Rightarrow> bool" where
  "input_ok srv (now, factory, StartComplete rid frame ctx) = (js_get (cs_reservations (ls_store srv)) rid = None)"
| "input_ok srv (now, factory, CallEvent i ev) =
     (i < length (ls_calls srv) \<longrightarrow> event_ok factory (fst (ls_calls srv ! i)) (snd (ls_calls srv ! i)) ev (ls_store srv))"
| "input_ok srv (now, factory, x) = True"

text \<open>A step that skips an input that is not so.\<close>

definition llm_ok_step :: "llm_env \<Rightarrow> llm_server \<Rightarrow> int \<times> (nat \<Rightarrow> string) \<times> llm_input \<Rightarrow> llm_server" where
  "llm_ok_step env srv x = (if input_ok srv x then llm_server_step env srv x else srv)"

section \<open>Reservations\<close>

lemma set_reservation_reservations [simp]: "cs_reservations (set_reservation cid rid s) = cs_reservations s"
  by (simp add: set_reservation_def split: option.splits)

lemma abort_effect:
  assumes "requireReservation rv s"
  shows "\<exists>s'. abort opts now rv c s = (Inr (), s') \<and> cs_reservations s' = js_delete (cs_reservations s) (rv_reservationId rv)"
  using assms by (simp add: abort_def Let_def clearReservation_def split: option.splits)

lemma commit_failed: "commit opts now factory rv a s = (Inl e, s') \<Longrightarrow> s' = s"
  by (auto simp: commit_def Let_def apfst_def map_prod_def split: if_splits sum.splits option.splits prod.splits)

lemma commit_effect:
  assumes "commit opts now factory rv a s = (Inr receipt, s')"
  shows "cs_reservations s' = js_delete (cs_reservations s) (rv_reservationId rv)"
  using assms by (auto simp: commit_def Let_def finish_commit_def completeIdempotency_def apfst_def map_prod_def split: if_splits sum.splits option.splits prod.splits)

lemma commit_succeeds:
  assumes "ctx_inv opts s" "requireReservation rv s" "allocating rv \<Longrightarrow> \<exists>cid. nextContextId 8 factory s = Inr cid"
  shows "\<exists>receipt s'. commit opts now factory rv a s = (Inr receipt, s')"
proof (cases "allocating rv")
  case True
  with assms show ?thesis by (auto simp: commit_def Let_def allocating_def finish_commit_def)
next
  case False
  then have "rq_operation (rv_request rv) \<notin> {OpCreate, OpFork}" by (simp add: allocating_def)
  from commit_held [OF assms(1,2) this, of now a factory] show ?thesis by metis
qed

text \<open>What a step of a call does to the store: nothing as long as the call is open; when it ends, its reservation is gone and no other.\<close>

definition settles :: "LlmContextStoreOptions \<Rightarrow> llm_call \<Rightarrow> ctx_store \<Rightarrow> llm_stage \<Rightarrow> ctx_store \<Rightarrow> bool" where
  "settles opts call s stage s' \<longleftrightarrow> ctx_inv opts s' \<and>
     (if open_stage stage then s' = s else cs_reservations s' = js_delete (cs_reservations s) (rv_reservationId (lk_rv call)))"

lemma abort_settles:
  assumes "ctx_inv (le_store env) s" "requireReservation (lk_rv call) s"
  obtains s' where "llm_abort env now call code after s = (LDone after, s')" "settles (le_store env) call s (LDone after) s'"
proof -
  obtain s' where a: "abort (le_store env) now (lk_rv call) (Some code) s = (Inr (), s')" "cs_reservations s' = js_delete (cs_reservations s) (rv_reservationId (lk_rv call))"
    using abort_effect [OF assms(2)] by blast
  have "ctx_inv (le_store env) s'" using abort_inv [OF assms(1), of now "lk_rv call" "Some code"] a by simp
  then show thesis using that a by (simp add: llm_abort_def settles_def)
qed

lemma llm_abort_settles:
  "ctx_inv (le_store env) s \<Longrightarrow> requireReservation (lk_rv call) s \<Longrightarrow> llm_abort env now call code after s = (stage, s') \<Longrightarrow> settles (le_store env) call s stage s'"
  using abort_settles by (metis Pair_inject)

lemma settles_same: "ctx_inv opts s \<Longrightarrow> open_stage stage \<Longrightarrow> settles opts call s stage s"
  by (simp add: settles_def)

lemma on_executed_settles:
  "ctx_inv (le_store env) s \<Longrightarrow> requireReservation (lk_rv call) s \<Longrightarrow> on_executed env now call r aborted s = (stage, s') \<Longrightarrow> settles (le_store env) call s stage s'"
  by (auto simp: on_executed_def llm_abort_settles intro: settles_same split: sum.splits option.splits if_splits)

lemma commit_settles:
  assumes "ctx_inv opts s" "commit opts now factory (lk_rv call) a s = (Inr receipt, s')"
  shows "settles opts call s (LDone r) s'"
  using commit_inv [OF assms(1), of now factory "lk_rv call" a] commit_effect [OF assms(2)] assms(2) by (simp add: settles_def)

lemma on_commit_authorized_settles:
  assumes "ctx_inv (le_store env) s" "requireReservation (lk_rv call) s" "allocating (lk_rv call) \<Longrightarrow> \<exists>cid. nextContextId 8 factory s = Inr cid"
    "on_commit_authorized env now factory call response p answer aborted s = (stage, s')"
  shows "settles (le_store env) call s stage s'"
proof -
  obtain receipt s2 where c: "commit (le_store env) now factory (lk_rv call) (assistant_message (lr_content response) (lr_toolCalls response)) s = (Inr receipt, s2)"
    using commit_succeeds [OF assms(1-3)] by blast
  show ?thesis
    using assms(4) c commit_settles [OF assms(1) c] llm_abort_settles [OF assms(1,2)]
    by (auto simp: on_commit_authorized_def split: option.splits if_splits)
qed

lemma on_stream_frame_settles:
  assumes "ctx_inv (le_store env) s" "requireReservation (lk_rv call) s" "on_stream_frame env now call f aborted content calls s = (out, stage, s')"
  shows "settles (le_store env) call s stage s'"
proof -
  obtain s2 where a: "llm_abort env now call (opt_or NODE_UNAVAILABLE (stf_errorCode f)) LlmStreamEnded s = (LDone LlmStreamEnded, s2)"
    "settles (le_store env) call s (LDone LlmStreamEnded) s2" using abort_settles [OF assms(1,2)] by metis
  have st: "settles (le_store env) call s (LYielded x y) s" "settles (le_store env) call s (LStreamCommitting f z k x y) s" for x y z k
    using assms(1) by (simp_all add: settles_def)
  show ?thesis
    using assms(3) a st llm_abort_settles [OF assms(1,2)]
    by (auto simp: on_stream_frame_def Let_def split: option.splits if_splits)
qed

lemma on_stream_authorized_settles:
  assumes "ctx_inv (le_store env) s" "requireReservation (lk_rv call) s"
    "on_stream_authorized env now factory call f chunks k content calls answer aborted s = (out, stage, s')"
  shows "settles (le_store env) call s stage s'"
proof -
  let ?a = "assistant_message (if concat content = [] then None else Some (concat content)) (if calls = [] then None else Some calls)"
  show ?thesis
  proof (cases "commit (le_store env) now factory (lk_rv call) ?a s")
    case (Pair c s2)
    show ?thesis
    proof (cases c)
      case (Inl e)
      with Pair commit_failed have "s2 = s" by metis
      then show ?thesis using assms(3) Pair Inl llm_abort_settles [OF assms(1,2)]
        by (auto simp: on_stream_authorized_def split: option.splits if_splits)
    next
      case (Inr receipt)
      then show ?thesis using assms(3) Pair llm_abort_settles [OF assms(1,2)] commit_settles [OF assms(1), of now factory call ?a receipt s2]
        by (auto simp: on_stream_authorized_def split: option.splits if_splits)
    qed
  qed
qed

lemma llm_step_settles:
  assumes "ctx_inv (le_store env) s" "open_stage stage" "requireReservation (lk_rv call) s" "event_ok factory call stage ev s"
    "llm_step env now factory call stage ev s = (out, stage', s')"
  shows "settles (le_store env) call s stage' s'"
proof -
  note l = on_executed_settles [OF assms(1,3)] on_commit_authorized_settles [OF assms(1,3)] on_stream_frame_settles [OF assms(1,3)]
    on_stream_authorized_settles [OF assms(1,3)] llm_abort_settles [OF assms(1,3)]
  show ?thesis
    using assms(5,4,2,1) by (cases "(env, now, factory, call, stage, ev, s)" rule: llm_step.cases) (auto intro: l settles_same)
qed

lemma llm_step_done: "llm_step env now factory call (LDone r) ev s = ([], LDone r, s)"
  by (cases ev) simp_all

lemma reserve_effect:
  assumes "reserve opts fp now rid rq s = (r, s')"
  shows "case r of Inl e \<Rightarrow> cs_reservations s' = cs_reservations s
    | Inr rv \<Rightarrow> rv_reservationId rv = rid \<and> cs_reservations s' = js_set (cs_reservations s) rid rv"
  using assms
  by (auto simp: reserve_def reserve_swept_def record_reservation_def newReservation_def Let_def split: if_splits option.splits sum.splits)

lemma snapshot_effect: "cs_reservations (snd (snapshot opts now ow cid s)) = cs_reservations s"
  by (simp add: snapshot_def Let_def)

lemma llm_reserve_effect:
  assumes "llm_reserve env now rid ow r c frame s = (x, s')" "ctx_inv (le_store env) s" "js_get (cs_reservations s) rid = None"
  shows "ctx_inv (le_store env) s' \<and> (case x of Inl e \<Rightarrow> cs_reservations s' = cs_reservations s
    | Inr rv \<Rightarrow> rv_reservationId rv = rid \<and> cs_reservations s' = js_set (cs_reservations s) rid rv)"
proof -
  have snap: "ctx_inv (le_store env) (snd (snapshot (le_store env) now ow cid s))" for cid
    using assms(2) by (simp add: snapshot_def Let_def sweep_inv)
  have go: "ctx_inv (le_store env) s3 \<and> (case y of Inl e \<Rightarrow> cs_reservations s3 = cs_reservations s
      | Inr rv \<Rightarrow> rv_reservationId rv = rid \<and> cs_reservations s3 = js_set (cs_reservations s) rid rv)"
    if "reserve (le_store env) (le_fp env) now rid rq s2 = (y, s3)" "ctx_inv (le_store env) s2" "cs_reservations s2 = cs_reservations s" for rq s2 y s3
    using reserve_effect [OF that(1)] reserve_inv [OF that(2), of rid "le_fp env" now rq] that assms(3) by (simp split: sum.splits)
  have same: "cs_reservations (snd (snapshot (le_store env) now ow cid s)) = cs_reservations s" for cid by (rule snapshot_effect)
  show ?thesis
  proof (cases "lcx_operation c = OpAppend \<or> lcx_operation c = OpFork")
    case True
    show ?thesis
    proof (cases "lcx_contextId c")
      case None
      then show ?thesis using True assms by (auto simp: llm_reserve_def)
    next
      case (Some cid)
      obtain y s2 where sn: "snapshot (le_store env) now ow cid s = (y, s2)" by (cases "snapshot (le_store env) now ow cid s")
      then have i: "ctx_inv (le_store env) s2" "cs_reservations s2 = cs_reservations s" using snap [of cid] same [of cid] by simp_all
      show ?thesis
      proof (cases y)
        case (Inl e)
        then show ?thesis using True Some sn assms(1) i by (auto simp: llm_reserve_def)
      next
        case (Inr b)
        obtain z s3 where z: "reserve (le_store env) (le_fp env) now rid (mutation_request r c ow \<lparr>bd_model = lq_model r, bd_systemMessages = bd_systemMessages (sn_binding b),
            bd_tools = (case store_tools (lq_tools r) of None \<Rightarrow> bd_tools (sn_binding b) | Some ts \<Rightarrow> Some ts), bd_runtimeRevision = slo_runtimeRevision (le_options env)\<rparr> frame) s2 = (z, s3)"
          by (meson surj_pair)
        have "(x, s') = (case z of Inl e \<Rightarrow> (Inl (mapStoreError e), s3) | Inr rv \<Rightarrow> (Inr rv, s3))"
          using True Some sn assms(1) z Inr by (simp add: llm_reserve_def Let_def)
        then show ?thesis using go [OF z i] by (cases z) auto
      qed
    qed
  next
    case False
    let ?rq = "mutation_request r c ow \<lparr>bd_model = lq_model r, bd_systemMessages = map store_message (filter (\<lambda>m. js_toLowerCase (lm_role m) = ''system'') (lq_messages r)),
      bd_tools = store_tools (lq_tools r), bd_runtimeRevision = slo_runtimeRevision (le_options env)\<rparr> frame"
    obtain z s3 where z: "reserve (le_store env) (le_fp env) now rid ?rq s = (z, s3)" by (meson surj_pair)
    have "(x, s') = (case z of Inl e \<Rightarrow> (Inl (mapStoreError e), s3) | Inr rv \<Rightarrow> (Inr rv, s3))"
      using False assms(1) z by (simp add: llm_reserve_def Let_def)
    then show ?thesis using go [OF z assms(2) refl] by (cases z) auto
  qed
qed

lemma complete_start_effect:
  assumes "complete_start env now rid frame ctx s = (x, s')" "ctx_inv (le_store env) s" "js_get (cs_reservations s) rid = None"
  shows "ctx_inv (le_store env) s' \<and> (case x of
      LlmStarted call \<Rightarrow> rv_reservationId (lk_rv call) = rid \<and> cs_reservations s' = js_set (cs_reservations s) rid (lk_rv call)
    | _ \<Rightarrow> cs_reservations s' = cs_reservations s)"
  using assms llm_reserve_effect [OF _ assms(2,3), of now _ _ _ frame]
  by (auto simp: complete_start_def split: sum.splits option.splits if_splits prod.splits) fastforce+

section \<open>The invariant of the machine\<close>

text \<open>The reservations of the store are those of the open calls, one each.\<close>

definition open_at :: "llm_server \<Rightarrow> nat \<Rightarrow> bool" where
  "open_at srv i \<longleftrightarrow> i < length (ls_calls srv) \<and> open_stage (snd (ls_calls srv ! i))"

definition rv_at :: "llm_server \<Rightarrow> nat \<Rightarrow> LlmContextMutationReservation" where
  "rv_at srv i = lk_rv (fst (ls_calls srv ! i))"

definition llm_inv :: "llm_env \<Rightarrow> llm_server \<Rightarrow> bool" where
  "llm_inv env srv \<longleftrightarrow> ctx_inv (le_store env) (ls_store srv) \<and>
     (\<forall>i. open_at srv i \<longrightarrow> js_get (cs_reservations (ls_store srv)) (rv_reservationId (rv_at srv i)) = Some (rv_at srv i)) \<and>
     (\<forall>i j. open_at srv i \<longrightarrow> open_at srv j \<longrightarrow> rv_reservationId (rv_at srv i) = rv_reservationId (rv_at srv j) \<longrightarrow> i = j) \<and>
     (\<forall>rid rv. js_get (cs_reservations (ls_store srv)) rid = Some rv \<longrightarrow> (\<exists>i. open_at srv i \<and> rv_at srv i = rv \<and> rv_reservationId rv = rid))"

lemma llm_inv_store:
  assumes "llm_inv env srv" "ctx_inv (le_store env) s" "cs_reservations s = cs_reservations (ls_store srv)"
  shows "llm_inv env (srv\<lparr>ls_store := s\<rparr>)"
  using assms by (simp add: llm_inv_def open_at_def rv_at_def)

lemma llm_inv_start:
  assumes i: "llm_inv env srv" and "ctx_inv (le_store env) s" "cs_reservations s = js_set (cs_reservations (ls_store srv)) rid (lk_rv call)"
    "rv_reservationId (lk_rv call) = rid" "js_get (cs_reservations (ls_store srv)) rid = None"
  shows "llm_inv env \<lparr>ls_calls = ls_calls srv @ [(call, LExecuting)], ls_store = s\<rparr>"
proof -
  let ?t = "\<lparr>ls_calls = ls_calls srv @ [(call, LExecuting)], ls_store = s\<rparr>" and ?n = "length (ls_calls srv)"
  have o: "open_at ?t j \<longleftrightarrow> open_at srv j \<or> j = ?n" for j by (auto simp: open_at_def nth_append)
  have r: "open_at srv j \<Longrightarrow> rv_at ?t j = rv_at srv j" "rv_at ?t ?n = lk_rv call" for j by (auto simp: open_at_def rv_at_def nth_append)
  have held: "open_at srv j \<Longrightarrow> js_get (cs_reservations (ls_store srv)) (rv_reservationId (rv_at srv j)) = Some (rv_at srv j)" for j
    using i by (simp add: llm_inv_def)
  then have ne: "open_at srv j \<Longrightarrow> rv_reservationId (rv_at srv j) \<noteq> rid" for j using assms(5) by force
  have uniq: "open_at srv a \<Longrightarrow> open_at srv b \<Longrightarrow> rv_reservationId (rv_at srv a) = rv_reservationId (rv_at srv b) \<Longrightarrow> a = b" for a b
    using i unfolding llm_inv_def by blast
  have cov: "js_get (cs_reservations (ls_store srv)) k = Some v \<Longrightarrow> \<exists>j. open_at srv j \<and> rv_at srv j = v \<and> rv_reservationId v = k" for k v
    using i unfolding llm_inv_def by blast
  show ?thesis unfolding llm_inv_def
  proof (intro conjI allI impI)
    show "ctx_inv (le_store env) (ls_store ?t)" using assms(2) by simp
    show "js_get (cs_reservations (ls_store ?t)) (rv_reservationId (rv_at ?t j)) = Some (rv_at ?t j)" if "open_at ?t j" for j
      using that o [of j] r held ne assms(3,4) by (auto simp: js_get_set)
    show "a = b" if "open_at ?t a" "open_at ?t b" "rv_reservationId (rv_at ?t a) = rv_reservationId (rv_at ?t b)" for a b
      using that o [of a] o [of b] r ne uniq assms(4) by metis
    show "\<exists>j. open_at ?t j \<and> rv_at ?t j = v \<and> rv_reservationId v = k" if "js_get (cs_reservations (ls_store ?t)) k = Some v" for k v
    proof (cases "k = rid")
      case True
      then have "v = lk_rv call" using that assms(3) by simp
      then show ?thesis using True o [of ?n] r(2) assms(4) by blast
    next
      case False
      then have "js_get (cs_reservations (ls_store srv)) k = Some v" using that assms(3) by simp
      from cov [OF this] obtain j where "open_at srv j" "rv_at srv j = v" "rv_reservationId v = k" by blast
      then show ?thesis using o [of j] r(1) [of j] by blast
    qed
  qed
qed

lemma llm_inv_settle:
  assumes i: "llm_inv env srv" and n: "open_at srv n" and s: "settles (le_store env) (fst (ls_calls srv ! n)) (ls_store srv) stage s"
  shows "llm_inv env \<lparr>ls_calls = (ls_calls srv)[n := (fst (ls_calls srv ! n), stage)], ls_store = s\<rparr>"
proof -
  let ?t = "\<lparr>ls_calls = (ls_calls srv)[n := (fst (ls_calls srv ! n), stage)], ls_store = s\<rparr>"
  have n': "n < length (ls_calls srv)" using n by (simp add: open_at_def)
  have r: "rv_at ?t j = rv_at srv j" for j using n' by (cases "j = n") (auto simp: rv_at_def)
  have o: "open_at ?t j \<longleftrightarrow> (if j = n then open_stage stage else open_at srv j)" for j using n' by (auto simp: open_at_def)
  have held: "open_at srv j \<Longrightarrow> js_get (cs_reservations (ls_store srv)) (rv_reservationId (rv_at srv j)) = Some (rv_at srv j)" for j
    using i by (simp add: llm_inv_def)
  have uniq: "open_at srv a \<Longrightarrow> open_at srv b \<Longrightarrow> rv_reservationId (rv_at srv a) = rv_reservationId (rv_at srv b) \<Longrightarrow> a = b" for a b
    using i unfolding llm_inv_def by blast
  have cov: "js_get (cs_reservations (ls_store srv)) k = Some v \<Longrightarrow> \<exists>j. open_at srv j \<and> rv_at srv j = v \<and> rv_reservationId v = k" for k v
    using i unfolding llm_inv_def by blast
  have c: "ctx_inv (le_store env) s" using s by (simp add: settles_def)
  show ?thesis
  proof (cases "open_stage stage")
    case True
    then have "s = ls_store srv" using s by (simp add: settles_def)
    moreover have "open_at ?t j = open_at srv j" for j using o [of j] True n by simp
    ultimately show ?thesis using i r by (simp add: llm_inv_def)
  next
    case False
    then have d: "cs_reservations s = js_delete (cs_reservations (ls_store srv)) (rv_reservationId (rv_at srv n))" using s by (simp add: settles_def rv_at_def)
    have ne: "open_at srv j \<Longrightarrow> j \<noteq> n \<Longrightarrow> rv_reservationId (rv_at srv j) \<noteq> rv_reservationId (rv_at srv n)" for j using uniq n by blast
    show ?thesis unfolding llm_inv_def r
    proof (intro conjI allI impI)
      show "ctx_inv (le_store env) (ls_store ?t)" using c by simp
      show "js_get (cs_reservations (ls_store ?t)) (rv_reservationId (rv_at srv j)) = Some (rv_at srv j)" if "open_at ?t j" for j
        using that o [of j] False held ne by (auto simp: d js_get_delete split: if_splits)
      show "a = b" if "open_at ?t a" "open_at ?t b" "rv_reservationId (rv_at srv a) = rv_reservationId (rv_at srv b)" for a b
        using that o [of a] o [of b] False uniq by (auto split: if_splits)
      show "\<exists>j. open_at ?t j \<and> rv_at srv j = v \<and> rv_reservationId v = k" if "js_get (cs_reservations (ls_store ?t)) k = Some v" for k v
      proof -
        from that have k: "k \<noteq> rv_reservationId (rv_at srv n)" "js_get (cs_reservations (ls_store srv)) k = Some v" by (auto simp: d js_get_delete split: if_splits)
        from cov [OF k(2)] obtain j where "open_at srv j" "rv_at srv j = v" "rv_reservationId v = k" by blast
        then show ?thesis using k(1) o [of j] by metis
      qed
    qed
  qed
qed

lemma store_answer_store: "snd (store_answer enc anchor r) = snd r"
  by (cases r, cases "fst r") (auto simp: store_answer_def)

lemma status_effect: "ctx_inv (le_store env) s \<Longrightarrow> ctx_inv (le_store env) (snd (llm_status env now frame ctx s)) \<and> cs_reservations (snd (llm_status env now frame ctx s)) = cs_reservations s"
  by (auto simp: llm_status_def store_answer_store ctx_status_def Let_def sweep_inv split: option.splits sum.splits prod.splits)

lemma release_swept_reservations: "cs_reservations (snd (release_swept opts now ow cid b k s)) = cs_reservations s"
  by (auto simp: release_swept_def Let_def split: option.splits sum.splits idem_state.splits if_splits)

lemma release_effect: "ctx_inv (le_store env) s \<Longrightarrow> ctx_inv (le_store env) (snd (llm_release env now frame ctx s)) \<and> cs_reservations (snd (llm_release env now frame ctx s)) = cs_reservations s"
  by (auto simp: llm_release_def store_answer_store release_inv split: option.splits sum.splits prod.splits)
     (auto simp: release_def release_swept_reservations)

lemma llm_server_step_inv:
  assumes i: "llm_inv env srv" and ok: "input_ok srv (now, factory, x)"
  shows "llm_inv env (llm_server_step env srv (now, factory, x))"
proof -
  have c: "ctx_inv (le_store env) (ls_store srv)" using i by (simp add: llm_inv_def)
  show ?thesis
  proof (cases x)
    case (StartComplete rid frame ctx)
    obtain y s where y: "complete_start env now rid frame ctx (ls_store srv) = (y, s)" by (cases "complete_start env now rid frame ctx (ls_store srv)")
    have f: "js_get (cs_reservations (ls_store srv)) rid = None" using ok StartComplete by simp
    from complete_start_effect [OF y c f] show ?thesis
      using StartComplete y llm_inv_start [OF i _ _ _ f] llm_inv_store [OF i] by (cases y) auto
  next
    case (CallEvent n ev)
    show ?thesis
    proof (cases "open_at srv n")
      case True
      obtain out stage s where st: "llm_step env now factory (fst (ls_calls srv ! n)) (snd (ls_calls srv ! n)) ev (ls_store srv) = (out, stage, s)"
        by (cases "llm_step env now factory (fst (ls_calls srv ! n)) (snd (ls_calls srv ! n)) ev (ls_store srv)")
      have "requireReservation (lk_rv (fst (ls_calls srv ! n))) (ls_store srv)" using i True by (simp add: llm_inv_def requireReservation_def rv_at_def)
      from llm_step_settles [OF c _ this _ st] True ok CallEvent
      have "settles (le_store env) (fst (ls_calls srv ! n)) (ls_store srv) stage s" by (simp add: open_at_def)
      from llm_inv_settle [OF i True this] show ?thesis using CallEvent True st by (simp add: open_at_def)
    next
      case False
      have "llm_server_step env srv (now, factory, CallEvent n ev) = srv"
      proof (cases "n < length (ls_calls srv)")
        case True
        with False obtain r where "snd (ls_calls srv ! n) = LDone r" by (cases "snd (ls_calls srv ! n)") (auto simp: open_at_def)
        then have "llm_step env now factory (fst (ls_calls srv ! n)) (snd (ls_calls srv ! n)) ev (ls_store srv) = ([], snd (ls_calls srv ! n), ls_store srv)"
          by (simp add: llm_step_done)
        then show ?thesis using True by simp
      qed simp
      then show ?thesis using i CallEvent by simp
    qed
  next
    case (StatusCall frame ctx)
    then show ?thesis using llm_inv_store [OF i] status_effect [OF c] by simp
  next
    case (ReleaseCall frame ctx)
    then show ?thesis using llm_inv_store [OF i] release_effect [OF c] by simp
  qed
qed

lemma llm_ok_step_inv: "llm_inv env srv \<Longrightarrow> llm_inv env (llm_ok_step env srv x)"
  by (cases x) (simp add: llm_ok_step_def llm_server_step_inv)

interpretation coordinator: invariant_machine "llm_ok_step env" "llm_inv env" for env
  by unfold_locales (rule llm_ok_step_inv)

lemma llm_inv_empty: "llm_inv env llm_server_empty"
  using ctx_inv_empty by (simp add: llm_inv_def llm_server_empty_def open_at_def cs_empty_def)


section \<open>Two ways to keep a reservation for ever\<close>

text \<open>The consumer returns before its first pull: the generator's \<open>finally\<close> never runs.\<close>

lemma abandoned_stream_keeps_reservation:
  assumes "requireReservation (lk_rv call) s"
  shows "\<exists>out s'. llm_step env now factory call LStreamReady EvReturn s = (out, LDone LlmAbandoned, s') \<and> requireReservation (lk_rv call) s'"
  using assms by simp

text \<open>A completion whose commit fails is answered with the error and keeps its reservation; the same failure at the end of a stream gives it back.\<close>

lemma failed_commit_keeps_reservation:
  assumes "requireReservation (lk_rv call) s" "slo_hasAuthorizer (le_options env)"
    and c: "fst (commit (le_store env) now factory (lk_rv call) (assistant_message (lr_content response) (lr_toolCalls response)) s) = Inl e"
  shows "llm_step env now factory call (LCommitting response p) (EvAuthorized None False) s = ([], LDone (LlmThrew (mapStoreError e)), s)"
proof -
  obtain s' where s': "commit (le_store env) now factory (lk_rv call) (assistant_message (lr_content response) (lr_toolCalls response)) s = (Inl e, s')"
    using c by (metis prod.collapse)
  with commit_failed have "s' = s" by metis
  then show ?thesis using s' assms(2) by (simp add: on_commit_authorized_def checkAuthorization_def)
qed

section \<open>A stream to its end\<close>

fun llm_steps :: "llm_env \<Rightarrow> int \<Rightarrow> (nat \<Rightarrow> string) \<Rightarrow> llm_call \<Rightarrow> llm_stage \<Rightarrow> llm_event list \<Rightarrow> ctx_store \<Rightarrow> StreamFrame list \<times> llm_stage \<times> ctx_store" where
  "llm_steps env now factory call stage [] s = ([], stage, s)"
| "llm_steps env now factory call stage (ev # evs) s = (case llm_step env now factory call stage ev s of
     (out, stage', s') \<Rightarrow> (case llm_steps env now factory call stage' evs s' of (outs, final, t) \<Rightarrow> (out @ outs, final, t)))"

text \<open>A frame that only carries deltas, and its chunks.\<close>

definition delta_frame :: "StreamFrame \<Rightarrow> LlmCompleteStreamChunkDto list \<Rightarrow> bool" where
  "delta_frame f cs \<longleftrightarrow> those (map llmCompleteStreamChunkFromWire (stf_data f)) = Some cs \<and> \<not> stf_isLast f \<and> \<not> list_ex terminal_only cs"

lemma stream_accumulates:
  "list_all2 delta_frame fs css \<Longrightarrow>
   llm_steps env now factory call (LPulling content calls) (concat (map (\<lambda>f. [EvFrame f False, EvPull]) fs) @ rest) s =
   (case llm_steps env now factory call (LPulling (content @ chunk_deltas (concat css)) (calls @ chunk_calls (concat css))) rest s of
      (outs, final, t) \<Rightarrow> (map2 (\<lambda>f cs. rewriteStreamFrame f (map (\<lambda>c. c\<lparr>lc_context := None\<rparr>) cs) (stf_errorCode f)) fs css @ outs, final, t))"
proof (induction arbitrary: content calls rule: list_all2_induct)
  case Nil
  then show ?case by (simp add: chunk_deltas_def chunk_calls_def split: prod.splits)
next
  case (Cons f fs cs css)
  have "content @ chunk_deltas (concat (cs # css)) = (content @ chunk_deltas cs) @ chunk_deltas (concat css)"
    "calls @ chunk_calls (concat (cs # css)) = (calls @ chunk_calls cs) @ chunk_calls (concat css)"
    by (simp_all add: chunk_deltas_def chunk_calls_def)
  with Cons show ?case by (simp add: on_stream_frame_def delta_frame_def Let_def split: prod.splits)
qed

text \<open>The message kept is the concatenation of every delta delivered, in order, with every tool call; the last frame carries the receipt.\<close>

lemma stream_commits_deltas:
  assumes "list_all2 delta_frame fs css" "slo_hasAuthorizer (le_options env)"
    and f: "those (map llmCompleteStreamChunkFromWire (stf_data f)) = Some cs" "stf_isLast f"
    and ok: "\<not> stream_failed f (map (\<lambda>c. c\<lparr>lc_context := None\<rparr>) cs)" "terminal_index (map (\<lambda>c. c\<lparr>lc_context := None\<rparr>) cs) = Some k"
    and c: "commit (le_store env) now factory (lk_rv call)
       (assistant_message (if concat (chunk_deltas (concat css @ cs)) = [] then None else Some (concat (chunk_deltas (concat css @ cs))))
          (if chunk_calls (concat css @ cs) = [] then None else Some (chunk_calls (concat css @ cs)))) s = (Inr receipt, s')"
  shows "\<exists>outs final. llm_steps env now factory call (LPulling [] []) (concat (map (\<lambda>f. [EvFrame f False, EvPull]) fs) @ [EvFrame f False, EvAuthorized None False]) s =
    (outs @ [final], LDone LlmStreamEnded, s') \<and> length outs = length fs"
proof -
  let ?san = "map (\<lambda>c. c\<lparr>lc_context := None\<rparr>) cs"
  have a: "chunk_deltas (concat css) @ chunk_deltas cs = chunk_deltas (concat css @ cs)" "chunk_calls (concat css) @ chunk_calls cs = chunk_calls (concat css @ cs)"
    by (simp_all add: chunk_deltas_def chunk_calls_def)
  have l: "length fs = length css" using assms(1) by (rule list_all2_lengthD)
  have "on_stream_frame env now call f False (chunk_deltas (concat css)) (chunk_calls (concat css)) s =
    ([], LStreamCommitting f ?san k (chunk_deltas (concat css @ cs)) (chunk_calls (concat css @ cs)), s)"
    using f ok by (simp add: on_stream_frame_def Let_def a)
  then show ?thesis using c assms(2) l
    by (simp add: stream_accumulates [OF assms(1)] on_stream_authorized_def checkAuthorization_def)
qed

end
