(* ===== verification/NipAcme.thy ===== *)
theory NipAcme
  imports NipVerify Base64 Contracts "HOL-Library.Monad_Syntax"
begin

text \<open>
  The ACME server of the identity protocol (\<open>nip/acme/server.ts\<close>) with its signed envelopes (\<open>nip/acme/jws.ts\<close>,
  \<open>nip/acme/messages.ts\<close>, \<open>nip/acme/wire.ts\<close>) and the client that drives it (\<open>nip/acme/client.ts\<close>). A request is one
  step, except that \<open>finalize\<close> awaits the certificate: what it does before and after that are two steps. Signatures, certificate
  requests, the certificate builder and \<open>JSON.parse\<close> are arguments; texts are their UTF-8 bytes; members of a
  body have their declared types; the details of problem documents are left out. Random texts and the clock are drawn per step.

  Proved: no certificate is issued for an order whose challenge token was not signed, with its key, by a registered account; a
  nonce is accepted at most as often as it was minted; the client's flow ends with a certificate for its identifier.
\<close>

section \<open>Envelopes\<close>

record Jwk =
  jwk_kty :: "string option"
  jwk_crv :: "string option"
  jwk_x :: "string option"

record ProtectedHeader =
  ph_nonce :: "string option"
  ph_jwk :: "Jwk option"
  ph_kid :: "string option"

record Envelope =
  ev_protected :: "string option"
  ev_payload :: "string option"
  ev_signature :: "string option"

text \<open>What the certificate builder is asked for (\<open>nip/x509/builder.ts\<close>), and what it asks the X.509 package to sign.\<close>

datatype LeafRole = RoleAgent | RoleNode

record IssueLeafOptions =
  il_subjectNid :: string
  il_subjectPublicKey :: string
  il_issuerNid :: string
  il_role :: LeafRole
  il_assuranceLevel :: assurance_level
  il_notBefore :: int
  il_notAfter :: int
  il_serialNumber :: string

record cert_template =
  tp_serialNumber :: string
  tp_issuer :: string
  tp_subject :: string
  tp_notBefore :: int
  tp_notAfter :: int
  tp_publicKey :: string
  tp_ca :: bool
  tp_keyUsages :: "string list"
  tp_eku :: "bool \<times> string list"
  tp_sanUris :: "string list"
  tp_extensions :: "(string \<times> bytes) list"

definition escapeDn :: "string \<Rightarrow> string" where
  "escapeDn value = concat (map (\<lambda>c. if c \<in> set [dquote, CHR '','', CHR ''+'', CHR '';'', CHR ''<'', CHR ''>'', CHR 0x5C] then [CHR 0x5C, c] else [c]) value)"

definition issueLeaf :: "IssueLeafOptions \<Rightarrow> cert_template" where
  "issueLeaf o' = \<lparr>tp_serialNumber = il_serialNumber o', tp_issuer = ''CN='' @ escapeDn (il_issuerNid o'), tp_subject = ''CN='' @ escapeDn (il_subjectNid o'),
     tp_notBefore = il_notBefore o', tp_notAfter = il_notAfter o', tp_publicKey = il_subjectPublicKey o', tp_ca = False,
     tp_keyUsages = [''digitalSignature''],
     tp_eku = (True, [if il_role o' = RoleNode then EKU_NODE_IDENTITY else EKU_AGENT_IDENTITY]), tp_sanUris = [il_subjectNid o'],
     tp_extensions = [(NID_ASSURANCE_LEVEL, [0x0A, 0x01, of_nat (level_rank (il_assuranceLevel o'))])]\<rparr>"

definition issueRoot :: "string \<Rightarrow> string \<Rightarrow> int \<Rightarrow> int \<Rightarrow> string \<Rightarrow> cert_template" where
  "issueRoot caNid key notBefore notAfter serial = \<lparr>tp_serialNumber = serial, tp_issuer = ''CN='' @ escapeDn caNid, tp_subject = ''CN='' @ escapeDn caNid,
     tp_notBefore = notBefore, tp_notAfter = notAfter, tp_publicKey = key, tp_ca = True, tp_keyUsages = [''keyCertSign'', ''cRLSign''],
     tp_eku = (False, []), tp_sanUris = [], tp_extensions = []\<rparr>"

record acme_env =
  ae_baseUrl :: string
  ae_caNid :: string
  ae_caRootCert :: string
  ae_certValidityMs :: int
  ae_jsonParse :: "string \<Rightarrow> jsval option"
  ae_edVerify :: "string \<Rightarrow> string \<Rightarrow> string \<Rightarrow> bool option"
  ae_csrSubject :: "string \<Rightarrow> string option"
  ae_csrKey :: "string \<Rightarrow> string"
  ae_generate :: "cert_template \<Rightarrow> string option"

definition json_falsy :: "jsval \<Rightarrow> bool" where
  "json_falsy v \<longleftrightarrow> v \<in> {JNull, JBool False, JNum 0, JStr []}"

definition text_of :: "jsval \<Rightarrow> string \<Rightarrow> string option" where
  "text_of v k = (case v of JObj d \<Rightarrow> (case jo_get d k of Some (JStr s) \<Rightarrow> Some s | _ \<Rightarrow> None) | _ \<Rightarrow> None)"

definition b64uEncode :: "string \<Rightarrow> string" where
  "b64uEncode bs = b64_url (b64_encode bs)"

definition b64uDecode :: "string \<Rightarrow> string" where
  "b64uDecode s = b64_decode (map from_url (s @ replicate ((4 - length s mod 4) mod 4) (CHR ''='')))"

definition envelope_of :: "jsval \<Rightarrow> Envelope" where
  "envelope_of v = \<lparr>ev_protected = text_of v ''protected'', ev_payload = text_of v ''payload'', ev_signature = text_of v ''signature''\<rparr>"

definition jwk_of :: "jsval \<Rightarrow> Jwk" where
  "jwk_of v = \<lparr>jwk_kty = text_of v ''kty'', jwk_crv = text_of v ''crv'', jwk_x = text_of v ''x''\<rparr>"

definition header_of :: "jsval \<Rightarrow> ProtectedHeader" where
  "header_of v = \<lparr>ph_nonce = text_of v ''nonce'',
     ph_jwk = (case v of JObj d \<Rightarrow> (case jo_get d ''jwk'' of Some j \<Rightarrow> if json_falsy j then None else Some (jwk_of j) | None \<Rightarrow> None) | _ \<Rightarrow> None),
     ph_kid = text_of v ''kid''\<rparr>"

text \<open>\<open>None\<close>: it throws.\<close>

definition publicKeyFromJwk :: "Jwk \<Rightarrow> string option" where
  "publicKeyFromJwk j = (if jwk_kty j \<noteq> Some ''OKP'' \<or> jwk_crv j \<noteq> Some ''Ed25519'' then None else map_option b64uDecode (jwk_x j))"

definition shown :: "string option \<Rightarrow> string" where
  "shown x = (case x of None \<Rightarrow> ''undefined'' | Some s \<Rightarrow> s)"

definition signing_input :: "Envelope \<Rightarrow> string" where
  "signing_input e = shown (ev_protected e) @ ''.'' @ shown (ev_payload e)"

definition jws_verify :: "acme_env \<Rightarrow> Envelope \<Rightarrow> string \<Rightarrow> ProtectedHeader option" where
  "jws_verify env e pub = (case (ev_signature e, ev_protected e) of
     (Some sig, Some p) \<Rightarrow>
       if ae_edVerify env (b64uDecode sig) (signing_input e) pub = Some True
       then (case ae_jsonParse env (b64uDecode p) of None \<Rightarrow> None | Some v \<Rightarrow> if v = JNull then None else Some (header_of v)) else None
   | _ \<Rightarrow> None)"

text \<open>\<open>None\<close>: it throws; \<open>Some None\<close>: there is no payload.\<close>

definition decodePayload :: "acme_env \<Rightarrow> Envelope \<Rightarrow> jsval option option" where
  "decodePayload env e = (case ev_payload e of None \<Rightarrow> Some None | Some p \<Rightarrow> if p = [] then Some None else map_option Some (ae_jsonParse env (b64uDecode p)))"

section \<open>State of the server\<close>

record OrderState =
  ao_identifier :: jsval
  ao_status :: string
  ao_authzId :: string
  ao_finalizeUrl :: string
  ao_accountUrl :: string
  ao_certificateUrl :: "string option"

record AuthzState =
  az_identifier :: jsval
  az_status :: string
  az_challengeIds :: "string list"
  az_accountUrl :: string

record ChallengeState =
  ch_type :: string
  ch_status :: string
  ch_token :: string
  ch_authzId :: string
  ch_accountUrl :: string

record acme_state =
  as_nonces :: "string list"
  as_accountJwks :: "(string, Jwk) jsmap"
  as_orders :: "(string, OrderState) jsmap"
  as_authzs :: "(string, AuthzState) jsmap"
  as_challenges :: "(string, ChallengeState) jsmap"
  as_certs :: "(string, string) jsmap"

text \<open>What a step draws: the time, random identifiers, a token, a nonce and a serial number.\<close>

record acme_draw =
  dw_now :: int
  dw_account :: string
  dw_order :: string
  dw_authz :: string
  dw_chall :: string
  dw_token :: string
  dw_nonce :: string
  dw_cert :: string
  dw_serial :: string

record acme_request =
  aq_method :: string
  aq_url :: string
  aq_body :: "jsval option"

datatype acme_body = AbEmpty | AbJson jsval | AbPem string

text \<open>A response has a status, the headers \<open>Location\<close> and \<open>Replay-Nonce\<close>, and a body; \<open>NoAnswer\<close>: the request is never answered.\<close>

datatype acme_answer = NoAnswer | AwaitingLeaf | Problem nat string | Reply nat "string option" "string option" acme_body

definition ERR :: "string \<Rightarrow> string" where
  "ERR e = ''urn:ietf:params:acme:error:'' @ e"

definition serverInternal :: acme_answer where
  "serverInternal = Problem 500 (ERR ''serverInternal'')"

definition mintNonce :: "acme_draw \<Rightarrow> acme_state \<Rightarrow> acme_state" where
  "mintNonce d s = s\<lparr>as_nonces := (if dw_nonce d \<in> set (as_nonces s) then as_nonces s else as_nonces s @ [dw_nonce d])\<rparr>"

text \<open>\<open>None\<close>: there is no such nonce.\<close>

definition consumeNonce :: "string option \<Rightarrow> acme_state \<Rightarrow> acme_state option" where
  "consumeNonce nonce s = (case nonce of None \<Rightarrow> None
     | Some n \<Rightarrow> if n \<in> set (as_nonces s) then Some (s\<lparr>as_nonces := filter (\<lambda>x. x \<noteq> n) (as_nonces s)\<rparr>) else None)"

definition readEnvelope :: "acme_request \<Rightarrow> acme_answer + Envelope" where
  "readEnvelope q = (case aq_body q of None \<Rightarrow> Inl (Problem 400 (ERR ''malformed''))
     | Some v \<Rightarrow> if json_falsy v then Inl NoAnswer else Inr (envelope_of v))"

definition parseHeader :: "acme_env \<Rightarrow> Envelope \<Rightarrow> acme_answer + ProtectedHeader" where
  "parseHeader env e = (case Option.bind (ev_protected e) (\<lambda>p. ae_jsonParse env (b64uDecode p)) of None \<Rightarrow> Inl (Problem 400 (ERR ''malformed''))
     | Some v \<Rightarrow> if json_falsy v then Inl NoAnswer else Inr (header_of v))"

definition readSigned :: "acme_env \<Rightarrow> acme_request \<Rightarrow> acme_answer + Envelope \<times> ProtectedHeader" where
  "readSigned env q = rbind (readEnvelope q) (\<lambda>e. rbind (parseHeader env e) (\<lambda>h. Inr (e, h)))"

text \<open>\<open>None\<close>: it throws.\<close>

definition verifyAccount :: "acme_env \<Rightarrow> Envelope \<Rightarrow> ProtectedHeader \<Rightarrow> acme_state \<Rightarrow> bool option" where
  "verifyAccount env e h s = (case ph_kid h of None \<Rightarrow> Some False
     | Some kid \<Rightarrow> if kid = [] then Some False
       else (case js_get (as_accountJwks s) kid of None \<Rightarrow> Some False
         | Some jwk \<Rightarrow> map_option (\<lambda>pub. jws_verify env e pub \<noteq> None) (publicKeyFromJwk jwk)))"

text \<open>The common start of the handlers: envelope, header, nonce, account.\<close>

definition with_account :: "acme_env \<Rightarrow> string \<Rightarrow> acme_request \<Rightarrow> acme_state \<Rightarrow> (Envelope \<Rightarrow> ProtectedHeader \<Rightarrow> acme_state \<Rightarrow> acme_answer \<times> acme_state) \<Rightarrow> acme_answer \<times> acme_state" where
  "with_account env refusal q s k = (case readSigned env q of Inl a \<Rightarrow> (a, s)
   | Inr (e, h) \<Rightarrow> (case consumeNonce (ph_nonce h) s of None \<Rightarrow> (Problem 400 (ERR ''badNonce''), s)
     | Some s' \<Rightarrow> (case verifyAccount env e h s' of None \<Rightarrow> (serverInternal, s')
       | Some False \<Rightarrow> (Problem 401 (ERR refusal), s') | Some True \<Rightarrow> k e h s')))"

section \<open>Accounts and orders\<close>

definition handleDirectory :: "acme_env \<Rightarrow> acme_answer" where
  "handleDirectory env = Reply 200 None None (AbJson (JObj [(''newNonce'', JStr (ae_baseUrl env @ ''/new-nonce'')),
     (''newAccount'', JStr (ae_baseUrl env @ ''/new-account'')), (''newOrder'', JStr (ae_baseUrl env @ ''/new-order''))]))"

definition handleNewNonce :: "acme_draw \<Rightarrow> string \<Rightarrow> acme_state \<Rightarrow> acme_answer \<times> acme_state" where
  "handleNewNonce d meth s = (Reply (if meth = ''HEAD'' then 200 else 204) None (Some (dw_nonce d)) AbEmpty, mintNonce d s)"

definition handleNewAccount :: "acme_env \<Rightarrow> acme_draw \<Rightarrow> acme_request \<Rightarrow> acme_state \<Rightarrow> acme_answer \<times> acme_state" where
  "handleNewAccount env d q s = (case readSigned env q of Inl a \<Rightarrow> (a, s)
   | Inr (e, h) \<Rightarrow> (case ph_jwk h of None \<Rightarrow> (Problem 400 (ERR ''malformed''), s)
     | Some jwk \<Rightarrow> (case consumeNonce (ph_nonce h) s of None \<Rightarrow> (Problem 400 (ERR ''badNonce''), s)
       | Some s' \<Rightarrow> (case publicKeyFromJwk jwk of None \<Rightarrow> (serverInternal, s')
         | Some pub \<Rightarrow> if jws_verify env e pub = None then (Problem 400 (ERR ''malformed''), s')
           else let accountUrl = ae_baseUrl env @ ''/account/acc-'' @ dw_account d in
             (Reply 201 (Some accountUrl) (Some (dw_nonce d)) (AbJson (JObj [(''status'', JStr ''valid'')])),
              mintNonce d (s'\<lparr>as_accountJwks := js_set (as_accountJwks s') accountUrl jwk\<rparr>))))))"

definition first_identifier :: "jsval option \<Rightarrow> jsval option" where
  "first_identifier p = (case p of Some (JObj w) \<Rightarrow> (case jo_get w ''identifiers'' of Some (JArr (x # xs)) \<Rightarrow> Some x | _ \<Rightarrow> None) | _ \<Rightarrow> None)"

definition text_or :: "string option \<Rightarrow> string" where
  "text_or x = (case x of None \<Rightarrow> [] | Some s \<Rightarrow> s)"

definition order_json :: "acme_env \<Rightarrow> string \<Rightarrow> jsval \<Rightarrow> string \<Rightarrow> string \<Rightarrow> string option \<Rightarrow> jsval" where
  "order_json env status ident authzId finalizeUrl certUrl = JObj ([(''status'', JStr status), (''identifiers'', JArr [ident]),
     (''authorizations'', JArr [JStr (ae_baseUrl env @ ''/authz/'' @ authzId)]), (''finalize'', JStr finalizeUrl)] @
     (case certUrl of None \<Rightarrow> [] | Some u \<Rightarrow> [(''certificate'', JStr u)]))"

definition newOrder :: "acme_env \<Rightarrow> acme_draw \<Rightarrow> string \<Rightarrow> jsval \<Rightarrow> acme_state \<Rightarrow> acme_answer \<times> acme_state" where
  "newOrder env d account ident s =
     (let orderId = ''ord-'' @ dw_order d; authzId = ''az-'' @ dw_authz d; challId = ''ch-'' @ dw_chall d;
          finalizeUrl = ae_baseUrl env @ ''/finalize/'' @ orderId in
      (Reply 201 (Some (ae_baseUrl env @ ''/order/'' @ orderId)) (Some (dw_nonce d)) (AbJson (order_json env ''pending'' ident authzId finalizeUrl None)),
       mintNonce d (s\<lparr>
         as_orders := js_set (as_orders s) orderId \<lparr>ao_identifier = ident, ao_status = ''pending'', ao_authzId = authzId, ao_finalizeUrl = finalizeUrl,
           ao_accountUrl = account, ao_certificateUrl = None\<rparr>,
         as_authzs := js_set (as_authzs s) authzId \<lparr>az_identifier = ident, az_status = ''pending'', az_challengeIds = [challId], az_accountUrl = account\<rparr>,
         as_challenges := js_set (as_challenges s) challId \<lparr>ch_type = ''agent-01'', ch_status = ''pending'', ch_token = dw_token d, ch_authzId = authzId, ch_accountUrl = account\<rparr>\<rparr>)))"

definition handleNewOrder :: "acme_env \<Rightarrow> acme_draw \<Rightarrow> acme_request \<Rightarrow> acme_state \<Rightarrow> acme_answer \<times> acme_state" where
  "handleNewOrder env d q s = with_account env ''accountDoesNotExist'' q s (\<lambda>e h s. case decodePayload env e of None \<Rightarrow> (serverInternal, s)
     | Some p \<Rightarrow> (case first_identifier p of None \<Rightarrow> (Problem 400 (ERR ''malformed''), s)
         | Some ident \<Rightarrow> newOrder env d (text_or (ph_kid h)) ident s))"

section \<open>Authorizations and challenges\<close>

definition challenge_json :: "acme_env \<Rightarrow> string \<Rightarrow> ChallengeState \<Rightarrow> jsval" where
  "challenge_json env i c = JObj [(''type'', JStr (ch_type c)), (''url'', JStr (ae_baseUrl env @ ''/chall/'' @ i)), (''status'', JStr (ch_status c)), (''token'', JStr (ch_token c))]"

text \<open>\<open>None\<close>: a challenge of the authorization is missing, and reading its members throws.\<close>

definition authz_json :: "acme_env \<Rightarrow> acme_state \<Rightarrow> AuthzState \<Rightarrow> jsval option" where
  "authz_json env s az = map_option (\<lambda>cs. JObj [(''status'', JStr (az_status az)), (''identifier'', az_identifier az), (''challenges'', JArr cs)])
     (those (map (\<lambda>i. map_option (challenge_json env i) (js_get (as_challenges s) i)) (az_challengeIds az)))"

definition handleAuthz :: "acme_env \<Rightarrow> acme_draw \<Rightarrow> acme_request \<Rightarrow> string \<Rightarrow> acme_state \<Rightarrow> acme_answer \<times> acme_state" where
  "handleAuthz env d q i s = with_account env ''unauthorized'' q s (\<lambda>e h s. case js_get (as_authzs s) i of None \<Rightarrow> (Problem 404 (ERR ''malformed''), s)
     | Some az \<Rightarrow> (case authz_json env s az of None \<Rightarrow> (serverInternal, s)
         | Some v \<Rightarrow> (Reply 200 None (Some (dw_nonce d)) (AbJson v), mintNonce d s)))"

definition agent_signature :: "jsval option \<Rightarrow> string option" where
  "agent_signature p = (case Option.bind p (\<lambda>v. text_of v ''agent_signature'') of None \<Rightarrow> None | Some sg \<Rightarrow> if sg = [] then None else Some sg)"

definition set_challenge_status :: "string \<Rightarrow> ChallengeState \<Rightarrow> string \<Rightarrow> acme_state \<Rightarrow> acme_state" where
  "set_challenge_status i c status s = s\<lparr>as_challenges := js_set (as_challenges s) i (c\<lparr>ch_status := status\<rparr>)\<rparr>"

text \<open>The challenge, its authorization and every order of that authorization change their status.\<close>

definition ready_order :: "string \<Rightarrow> OrderState \<Rightarrow> OrderState" where
  "ready_order authzId o' = (if ao_authzId o' = authzId then o'\<lparr>ao_status := ''ready''\<rparr> else o')"

definition challenge_passed :: "string \<Rightarrow> ChallengeState \<Rightarrow> acme_state \<Rightarrow> acme_state" where
  "challenge_passed i c s = (let s = set_challenge_status i c ''valid'' s in
     s\<lparr>as_authzs := (case js_get (as_authzs s) (ch_authzId c) of None \<Rightarrow> as_authzs s | Some az \<Rightarrow> js_set (as_authzs s) (ch_authzId c) (az\<lparr>az_status := ''valid''\<rparr>)),
       as_orders := map (map_prod id (ready_order (ch_authzId c))) (as_orders s)\<rparr>)"

definition handleChallenge :: "acme_env \<Rightarrow> acme_draw \<Rightarrow> acme_request \<Rightarrow> string \<Rightarrow> acme_state \<Rightarrow> acme_answer \<times> acme_state" where
  "handleChallenge env d q i s = (case readSigned env q of Inl a \<Rightarrow> (a, s)
   | Inr (e, h) \<Rightarrow> (case consumeNonce (ph_nonce h) s of None \<Rightarrow> (Problem 400 (ERR ''badNonce''), s)
     | Some s \<Rightarrow> (case js_get (as_accountJwks s) (text_or (ph_kid h)) of None \<Rightarrow> (Problem 401 (ERR ''accountDoesNotExist''), s)
       | Some jwk \<Rightarrow> (case publicKeyFromJwk jwk of None \<Rightarrow> (serverInternal, s)
         | Some pub \<Rightarrow> if jws_verify env e pub = None then (Problem 400 (ERR ''malformed''), s)
           else (case js_get (as_challenges s) i of None \<Rightarrow> (Problem 404 (ERR ''malformed''), s)
             | Some c \<Rightarrow> (case decodePayload env e of None \<Rightarrow> (serverInternal, s)
               | Some p \<Rightarrow> (case agent_signature p of None \<Rightarrow> (Problem 400 ''NIP-ACME-CHALLENGE-FAILED'', set_challenge_status i c ''invalid'' s)
                 | Some sg \<Rightarrow> if ae_edVerify env (b64uDecode sg) (ch_token c) pub \<noteq> Some True
                     then (Problem 400 ''NIP-ACME-CHALLENGE-FAILED'', set_challenge_status i c ''invalid'' s)
                     else (Reply 200 None (Some (dw_nonce d)) (AbJson (challenge_json env i (c\<lparr>ch_status := ''valid''\<rparr>))),
                           mintNonce d (challenge_passed i c s)))))))))"

section \<open>Certificates\<close>

text \<open>What \<open>finalize\<close> keeps while it awaits the certificate. The order object is recognised by its identifier and its authorization.\<close>

record finalization =
  fz_orderId :: string
  fz_nid :: string
  fz_identifier :: jsval
  fz_authzId :: string
  fz_finalizeUrl :: string
  fz_key :: string

definition acme_subjectCn :: "string \<Rightarrow> string option" where
  "acme_subjectCn subject = (case find (\<lambda>rdn. js_startsWith (js_trim rdn) ''CN='') (js_split CHR '','' subject) of None \<Rightarrow> None
     | Some rdn \<Rightarrow> Some (unescape_dn (drop 3 (js_trim rdn))))"

text \<open>The errors of the \<open>try\<close> block before the first await.\<close>

definition check_csr :: "acme_env \<Rightarrow> string \<Rightarrow> OrderState \<Rightarrow> string \<Rightarrow> acme_answer + finalization" where
  "check_csr env orderId o' csr = (case ae_csrSubject env (b64uDecode csr) of None \<Rightarrow> Inl (Problem 400 (ERR ''badCSR''))
   | Some subject \<Rightarrow>
       if ao_identifier o' = JNull then Inl (Problem 400 (ERR ''badCSR''))
       else (case text_of (ao_identifier o') ''value'' of
           None \<Rightarrow> Inl (Problem 400 ''NIP-CERT-SUBJECT-NID-MISMATCH'')
         | Some nid \<Rightarrow> if acme_subjectCn subject \<noteq> Some nid then Inl (Problem 400 ''NIP-CERT-SUBJECT-NID-MISMATCH'')
             else Inr \<lparr>fz_orderId = orderId, fz_nid = nid, fz_identifier = ao_identifier o', fz_authzId = ao_authzId o', fz_finalizeUrl = ao_finalizeUrl o',
                fz_key = ae_csrKey env (b64uDecode csr)\<rparr>))"

definition finalize_order :: "acme_env \<Rightarrow> Envelope \<Rightarrow> string \<Rightarrow> acme_state \<Rightarrow> acme_answer + finalization" where
  "finalize_order env e i s = (case js_get (as_orders s) i of None \<Rightarrow> Inl (Problem 404 (ERR ''malformed''))
   | Some o' \<Rightarrow> if ao_status o' \<noteq> ''ready'' then Inl (Problem 403 (ERR ''orderNotReady''))
       else (case decodePayload env e of None \<Rightarrow> Inl serverInternal
         | Some p \<Rightarrow> (case Option.bind p (\<lambda>v. text_of v ''csr'') of None \<Rightarrow> Inl (Problem 400 (ERR ''malformed''))
             | Some csr \<Rightarrow> if csr = [] then Inl (Problem 400 (ERR ''malformed'')) else check_csr env i o' csr)))"

definition handleFinalize :: "acme_env \<Rightarrow> acme_request \<Rightarrow> string \<Rightarrow> acme_state \<Rightarrow> (acme_answer + finalization) \<times> acme_state" where
  "handleFinalize env q i s = (case readSigned env q of Inl a \<Rightarrow> (Inl a, s)
   | Inr (e, h) \<Rightarrow> (case consumeNonce (ph_nonce h) s of None \<Rightarrow> (Inl (Problem 400 (ERR ''badNonce'')), s)
     | Some s \<Rightarrow> (case verifyAccount env e h s of None \<Rightarrow> (Inl serverInternal, s)
       | Some False \<Rightarrow> (Inl (Problem 401 (ERR ''unauthorized'')), s)
       | Some True \<Rightarrow> (finalize_order env e i s, s))))"

definition leaf_options :: "acme_env \<Rightarrow> acme_draw \<Rightarrow> finalization \<Rightarrow> IssueLeafOptions" where
  "leaf_options env d f = \<lparr>il_subjectNid = fz_nid f, il_subjectPublicKey = fz_key f, il_issuerNid = ae_caNid env, il_role = RoleAgent,
     il_assuranceLevel = ANONYMOUS, il_notBefore = dw_now d - 60000, il_notAfter = dw_now d + ae_certValidityMs env, il_serialNumber = dw_serial d\<rparr>"

definition finalize_end :: "acme_env \<Rightarrow> acme_draw \<Rightarrow> finalization \<Rightarrow> acme_state \<Rightarrow> acme_answer \<times> acme_state" where
  "finalize_end env d f s = (case ae_generate env (issueLeaf (leaf_options env d f)) of None \<Rightarrow> (Problem 400 (ERR ''badCSR''), s)
   | Some leaf \<Rightarrow>
       let certId = ''crt-'' @ dw_cert d; certUrl = ae_baseUrl env @ ''/cert/'' @ certId in
       (Reply 200 None (Some (dw_nonce d)) (AbJson (order_json env ''valid'' (fz_identifier f) (fz_authzId f) (fz_finalizeUrl f) (Some certUrl))),
        mintNonce d (s\<lparr>as_certs := js_set (as_certs s) certId (leaf @ ae_caRootCert env),
          as_orders := (case js_get (as_orders s) (fz_orderId f) of None \<Rightarrow> as_orders s
            | Some o' \<Rightarrow> if ao_authzId o' = fz_authzId f then js_set (as_orders s) (fz_orderId f) (o'\<lparr>ao_status := ''valid'', ao_certificateUrl := Some certUrl\<rparr>)
                else as_orders s)\<rparr>)))"

definition handleCert :: "acme_env \<Rightarrow> acme_draw \<Rightarrow> acme_request \<Rightarrow> string \<Rightarrow> acme_state \<Rightarrow> acme_answer \<times> acme_state" where
  "handleCert env d q i s = with_account env ''unauthorized'' q s (\<lambda>e h s. case js_get (as_certs s) i of None \<Rightarrow> (Problem 404 (ERR ''malformed''), s)
     | Some pem \<Rightarrow> if pem = [] then (Problem 404 (ERR ''malformed''), s) else (Reply 200 None (Some (dw_nonce d)) (AbPem pem), mintNonce d s))"

definition handleOrder :: "acme_env \<Rightarrow> acme_draw \<Rightarrow> acme_request \<Rightarrow> string \<Rightarrow> acme_state \<Rightarrow> acme_answer \<times> acme_state" where
  "handleOrder env d q i s = with_account env ''unauthorized'' q s (\<lambda>e h s. case js_get (as_orders s) i of None \<Rightarrow> (Problem 404 (ERR ''malformed''), s)
     | Some o' \<Rightarrow> (Reply 200 None (Some (dw_nonce d))
          (AbJson (order_json env (ao_status o') (ao_identifier o') (ao_authzId o') (ao_finalizeUrl o') (ao_certificateUrl o'))), mintNonce d s))"

section \<open>Dispatch\<close>

datatype acme_route = ArDirectory | ArNewNonce | ArNewAccount | ArNewOrder | ArAuthz string | ArChallenge string | ArFinalize string | ArCert string | ArOrder string | ArNone

definition acme_route :: "string \<Rightarrow> string \<Rightarrow> acme_route" where
  "acme_route meth url =
     (if meth = ''GET'' \<and> url = ''/directory'' then ArDirectory
      else if url = ''/new-nonce'' then ArNewNonce
      else if meth = ''POST'' \<and> url = ''/new-account'' then ArNewAccount
      else if meth = ''POST'' \<and> url = ''/new-order'' then ArNewOrder
      else if meth = ''POST'' \<and> js_startsWith url ''/authz/'' then ArAuthz (drop 7 url)
      else if meth = ''POST'' \<and> js_startsWith url ''/chall/'' then ArChallenge (drop 7 url)
      else if meth = ''POST'' \<and> js_startsWith url ''/finalize/'' then ArFinalize (drop 10 url)
      else if meth = ''POST'' \<and> js_startsWith url ''/cert/'' then ArCert (drop 6 url)
      else if meth = ''POST'' \<and> js_startsWith url ''/order/'' then ArOrder (drop 7 url)
      else ArNone)"

record acme_machine =
  am_state :: acme_state
  am_waiting :: "finalization list"

datatype acme_input = AcmeRequest acme_request | LeafDone nat

definition acme_dispatch :: "acme_env \<Rightarrow> acme_draw \<Rightarrow> acme_request \<Rightarrow> acme_state \<Rightarrow> (acme_answer + finalization) \<times> acme_state" where
  "acme_dispatch env d q s = (case acme_route (aq_method q) (aq_url q) of
     ArDirectory \<Rightarrow> (Inl (handleDirectory env), s)
   | ArNewNonce \<Rightarrow> apfst Inl (handleNewNonce d (aq_method q) s)
   | ArNewAccount \<Rightarrow> apfst Inl (handleNewAccount env d q s)
   | ArNewOrder \<Rightarrow> apfst Inl (handleNewOrder env d q s)
   | ArAuthz i \<Rightarrow> apfst Inl (handleAuthz env d q i s)
   | ArChallenge i \<Rightarrow> apfst Inl (handleChallenge env d q i s)
   | ArFinalize i \<Rightarrow> handleFinalize env q i s
   | ArCert i \<Rightarrow> apfst Inl (handleCert env d q i s)
   | ArOrder i \<Rightarrow> apfst Inl (handleOrder env d q i s)
   | ArNone \<Rightarrow> (Inl (Problem 404 (ERR ''malformed'')), s))"

text \<open>A request that awaits its certificate is answered by a later \<open>LeafDone\<close>.\<close>

fun acme_answering :: "acme_env \<Rightarrow> acme_machine \<Rightarrow> acme_draw \<times> acme_input \<Rightarrow> acme_answer \<times> acme_machine" where
  "acme_answering env m (d, AcmeRequest q) = (case acme_dispatch env d q (am_state m) of
     (Inl a, s) \<Rightarrow> (a, m\<lparr>am_state := s\<rparr>)
   | (Inr f, s) \<Rightarrow> (AwaitingLeaf, \<lparr>am_state = s, am_waiting = am_waiting m @ [f]\<rparr>))"
| "acme_answering env m (d, LeafDone i) =
     (if i < length (am_waiting m)
      then case finalize_end env d (am_waiting m ! i) (am_state m) of
        (a, s) \<Rightarrow> (a, \<lparr>am_state = s, am_waiting = take i (am_waiting m) @ drop (Suc i) (am_waiting m)\<rparr>)
      else (NoAnswer, m))"

definition acme_step :: "acme_env \<Rightarrow> acme_machine \<Rightarrow> acme_draw \<times> acme_input \<Rightarrow> acme_machine" where
  "acme_step env m x = snd (acme_answering env m x)"

definition acme_empty :: acme_machine where
  "acme_empty = \<lparr>am_state = \<lparr>as_nonces = [], as_accountJwks = [], as_orders = [], as_authzs = [], as_challenges = [], as_certs = []\<rparr>, am_waiting = []\<rparr>"

section \<open>Who signed the token\<close>

text \<open>The authorization whose challenge a request answers with a signature of the token by the registered account that sent it.\<close>

definition token_proof :: "acme_env \<Rightarrow> acme_request \<Rightarrow> acme_state \<Rightarrow> string option" where
  "token_proof env q s = (case (acme_route (aq_method q) (aq_url q), readSigned env q) of
     (ArChallenge i, Inr (e, h)) \<Rightarrow>
       (case (Option.bind (js_get (as_accountJwks s) (text_or (ph_kid h))) publicKeyFromJwk, js_get (as_challenges s) i, Option.bind (decodePayload env e) agent_signature) of
          (Some pub, Some c, Some sg) \<Rightarrow>
            if jws_verify env e pub \<noteq> None \<and> ae_edVerify env (b64uDecode sg) (ch_token c) pub = Some True then Some (ch_authzId c) else None
        | _ \<Rightarrow> None)
   | _ \<Rightarrow> None)"

fun token_proofs :: "acme_env \<Rightarrow> acme_machine \<Rightarrow> (acme_draw \<times> acme_input) list \<Rightarrow> string list" where
  "token_proofs env m [] = []"
| "token_proofs env m ((d, AcmeRequest q) # xs) =
     (case token_proof env q (am_state m) of None \<Rightarrow> [] | Some a \<Rightarrow> [a]) @ token_proofs env (acme_step env m (d, AcmeRequest q)) xs"
| "token_proofs env m ((d, LeafDone i) # xs) = token_proofs env (acme_step env m (d, LeafDone i)) xs"

text \<open>The certificates issued in a run: the authorization, the identifier, and the text kept for download.\<close>

definition issuance :: "acme_env \<Rightarrow> acme_draw \<Rightarrow> finalization \<Rightarrow> (string \<times> string \<times> string) list" where
  "issuance env d f = (case ae_generate env (issueLeaf (leaf_options env d f)) of None \<Rightarrow> []
     | Some leaf \<Rightarrow> [(fz_authzId f, fz_nid f, leaf @ ae_caRootCert env)])"

fun issuances :: "acme_env \<Rightarrow> acme_machine \<Rightarrow> (acme_draw \<times> acme_input) list \<Rightarrow> (string \<times> string \<times> string) list" where
  "issuances env m [] = []"
| "issuances env m ((d, AcmeRequest q) # xs) = issuances env (acme_step env m (d, AcmeRequest q)) xs"
| "issuances env m ((d, LeafDone i) # xs) =
     (if i < length (am_waiting m) then issuance env d (am_waiting m ! i) else []) @ issuances env (acme_step env m (d, LeafDone i)) xs"

definition orders_earned :: "string set \<Rightarrow> acme_state \<Rightarrow> bool" where
  "orders_earned P s \<longleftrightarrow> (\<forall>i o'. js_get (as_orders s) i = Some o' \<longrightarrow> ao_status o' \<in> {''ready'', ''valid''} \<longrightarrow> ao_authzId o' \<in> P)"

definition acme_earned :: "string set \<Rightarrow> acme_machine \<Rightarrow> bool" where
  "acme_earned P m \<longleftrightarrow> orders_earned P (am_state m) \<and> fz_authzId ` set (am_waiting m) \<subseteq> P"

lemma js_get_map_prod: "js_get (map (map_prod id f) m) k = map_option f (js_get m k)"
  by (induction m) (auto simp: js_get_def)

lemma orders_earned_mono: "orders_earned P s \<Longrightarrow> P \<subseteq> Q \<Longrightarrow> orders_earned Q s"
  unfolding orders_earned_def by blast

lemma orders_earned_cong: "as_orders s' = as_orders s \<Longrightarrow> orders_earned P s' = orders_earned P s"
  by (simp add: orders_earned_def)

lemma mintNonce_keeps [simp]:
  "as_orders (mintNonce d s) = as_orders s" "as_authzs (mintNonce d s) = as_authzs s" "as_challenges (mintNonce d s) = as_challenges s"
  "as_accountJwks (mintNonce d s) = as_accountJwks s" "as_certs (mintNonce d s) = as_certs s"
  by (simp_all add: mintNonce_def)

lemma consumeNonce_keeps:
  "consumeNonce n s = Some s' \<Longrightarrow> as_orders s' = as_orders s \<and> as_authzs s' = as_authzs s \<and> as_challenges s' = as_challenges s \<and> as_accountJwks s' = as_accountJwks s \<and> as_certs s' = as_certs s"
  by (auto simp: consumeNonce_def split: option.splits if_splits)

lemma set_challenge_status_keeps [simp]:
  "as_orders (set_challenge_status i c st s) = as_orders s" "as_certs (set_challenge_status i c st s) = as_certs s"
  "as_nonces (set_challenge_status i c st s) = as_nonces s" "as_authzs (set_challenge_status i c st s) = as_authzs s"
  by (simp_all add: set_challenge_status_def)

lemma with_account_orders:
  assumes "\<And>e h t. as_orders t = as_orders s \<Longrightarrow> as_certs t = as_certs s \<Longrightarrow> I (snd (k e h t))" "\<And>t. as_orders t = as_orders s \<Longrightarrow> as_certs t = as_certs s \<Longrightarrow> I t"
  shows "I (snd (with_account env r q s k))"
  using assms consumeNonce_keeps
  by (auto simp: with_account_def split: sum.splits option.splits bool.splits)

lemma orders_earned_newOrder: "orders_earned P s \<Longrightarrow> orders_earned P (snd (newOrder env d a ident s))"
  by (auto simp: newOrder_def Let_def orders_earned_def js_get_set split: if_splits)

lemma orders_earned_passed: "orders_earned P s \<Longrightarrow> orders_earned (insert (ch_authzId c) P) (challenge_passed i c s)"
  by (auto simp: challenge_passed_def Let_def orders_earned_def js_get_map_prod ready_order_def split: if_splits)

lemma handleChallenge_earned:
  assumes "orders_earned P s" "acme_route (aq_method q) (aq_url q) = ArChallenge i"
  shows "orders_earned (P \<union> set_option (token_proof env q s)) (snd (handleChallenge env d q i s))"
proof -
  have same: "orders_earned (P \<union> Q) t" if "as_orders t = as_orders s" for t Q
    using that assms(1) orders_earned_mono orders_earned_cong by blast
  show ?thesis
  proof (cases "readSigned env q")
    case (Inl a)
    then show ?thesis by (simp add: handleChallenge_def same)
  next
    case (Inr eh)
    obtain e h where eh: "eh = (e, h)" by (cases eh)
    show ?thesis
    proof (cases "consumeNonce (ph_nonce h) s")
      case None
      then show ?thesis by (simp add: handleChallenge_def Inr eh same)
    next
      case (Some t)
      note k = consumeNonce_keeps [OF Some]
      have passed: "orders_earned (insert (ch_authzId c) P) (mintNonce d (challenge_passed i c t))" for c
        using orders_earned_passed [of P t c i] orders_earned_cong k assms(1) by (metis mintNonce_keeps(1))
      show ?thesis
        using k passed same [of _ "{}"]
        by (auto simp: handleChallenge_def token_proof_def Inr eh Some assms(2) split: option.splits)
    qed
  qed
qed

lemma consumeNonce_orders: "consumeNonce n s = Some t \<Longrightarrow> as_orders t = as_orders s" "consumeNonce n s = Some t \<Longrightarrow> as_certs t = as_certs s"
  using consumeNonce_keeps by blast+

lemma handleFinalize_orders: "as_orders (snd (handleFinalize env q i s)) = as_orders s" "as_certs (snd (handleFinalize env q i s)) = as_certs s"
  unfolding handleFinalize_def by (simp_all add: consumeNonce_orders split: sum.split option.split bool.split prod.split)

text \<open>A request that gets as far as the certificate is for an order that is ready.\<close>

definition awaits_order :: "acme_state \<Rightarrow> string \<Rightarrow> finalization \<Rightarrow> bool" where
  "awaits_order s i f \<longleftrightarrow> (\<exists>o'. js_get (as_orders s) i = Some o' \<and> ao_status o' = ''ready'' \<and> ao_authzId o' = fz_authzId f \<and> fz_orderId f = i)"

lemma check_csr_awaits: "check_csr env i o' csr = Inr f \<Longrightarrow> fz_authzId f = ao_authzId o' \<and> fz_orderId f = i"
  by (auto simp: check_csr_def split: option.splits if_splits)

lemma finalize_order_awaits:
  assumes "finalize_order env e i s = Inr f"
  shows "awaits_order s i f"
proof -
  obtain o' csr where "js_get (as_orders s) i = Some o'" "ao_status o' = ''ready''" "check_csr env i o' csr = Inr f"
    using assms by (auto simp: finalize_order_def split: option.splits if_splits)
  then show ?thesis using check_csr_awaits [of env i o' csr f] by (simp add: awaits_order_def)
qed

lemma awaits_order_cong: "as_orders t = as_orders s \<Longrightarrow> awaits_order t i f = awaits_order s i f"
  by (simp add: awaits_order_def)

lemma handleFinalize_waits:
  assumes "fst (handleFinalize env q i s) = Inr f"
  shows "awaits_order s i f"
proof -
  obtain e t and h :: ProtectedHeader where "consumeNonce (ph_nonce h) s = Some t" "finalize_order env e i t = Inr f"
    using assms by (auto simp: handleFinalize_def split: sum.split_asm option.split_asm bool.split_asm prod.split_asm)
  then show ?thesis using finalize_order_awaits awaits_order_cong consumeNonce_orders(1) by blast
qed

lemma dispatch_earned:
  assumes "orders_earned P s"
  shows "orders_earned (P \<union> set_option (token_proof env q s)) (snd (acme_dispatch env d q s))"
proof -
  have same: "orders_earned (P \<union> Q) t" if "as_orders t = as_orders s" for t Q
    using that assms orders_earned_mono orders_earned_cong by blast
  have other: "orders_earned (P \<union> Q) (snd (with_account env r q s k))" if "\<And>e h t. as_orders t = as_orders s \<Longrightarrow> orders_earned (P \<union> Q) (snd (k e h t))" for Q r k
    by (rule with_account_orders [where I = "orders_earned (P \<union> Q)"]) (simp_all add: same that)
  show ?thesis
  proof (cases "acme_route (aq_method q) (aq_url q)")
    case ArNewAccount
    then show ?thesis
      by (auto simp: acme_dispatch_def handleNewAccount_def Let_def same consumeNonce_keeps split: sum.splits option.splits)
  next
    case ArNewOrder
    have "orders_earned (P \<union> Q) (snd (case decodePayload env e of None \<Rightarrow> (serverInternal, t)
       | Some p \<Rightarrow> (case first_identifier p of None \<Rightarrow> (Problem 400 (ERR ''malformed''), t) | Some ident \<Rightarrow> newOrder env d (text_or (ph_kid h)) ident t)))"
      if "as_orders t = as_orders s" for e h t Q
      using same [OF that] by (auto simp: orders_earned_newOrder split: option.splits)
    note this = other [OF this]
    then show ?thesis unfolding acme_dispatch_def handleNewOrder_def using ArNewOrder by simp
  next
    case (ArAuthz i)
    then show ?thesis by (auto simp: acme_dispatch_def handleAuthz_def same intro!: other split: option.splits)
  next
    case (ArChallenge i)
    then show ?thesis using handleChallenge_earned [OF assms] by (simp add: acme_dispatch_def)
  next
    case (ArFinalize i)
    then show ?thesis by (simp add: acme_dispatch_def same handleFinalize_orders)
  next
    case (ArCert i)
    then show ?thesis by (auto simp: acme_dispatch_def handleCert_def same intro!: other split: option.splits)
  next
    case (ArOrder i)
    then show ?thesis by (auto simp: acme_dispatch_def handleOrder_def same intro!: other split: option.splits)
  qed (simp_all add: acme_dispatch_def same handleNewNonce_def)
qed

lemma dispatch_waits:
  assumes "orders_earned P s" "fst (acme_dispatch env d q s) = Inr f"
  shows "fz_authzId f \<in> P"
proof (cases "acme_route (aq_method q) (aq_url q)")
  case (ArFinalize i)
  then have "awaits_order s i f" using assms(2) handleFinalize_waits by (simp add: acme_dispatch_def)
  then show ?thesis using assms(1) unfolding awaits_order_def orders_earned_def by force
qed (use assms(2) in \<open>simp_all add: acme_dispatch_def apfst_def\<close>)

lemma acme_step_request:
  assumes "acme_earned P m"
  shows "acme_earned (P \<union> set_option (token_proof env q (am_state m))) (acme_step env m (d, AcmeRequest q))"
proof -
  obtain r s where r: "acme_dispatch env d q (am_state m) = (r, s)" by (cases "acme_dispatch env d q (am_state m)")
  show ?thesis
    using assms dispatch_earned [of P "am_state m" env q d] dispatch_waits [of P "am_state m" env d q] r
    by (cases r) (auto simp: acme_earned_def acme_step_def)
qed

lemma finalize_end_earned:
  "orders_earned P s \<Longrightarrow> fz_authzId f \<in> P \<Longrightarrow> orders_earned P (snd (finalize_end env d f s))"
  by (auto simp: finalize_end_def Let_def orders_earned_def js_get_set split: option.splits if_splits)

lemma acme_step_leaf:
  assumes "acme_earned P m"
  shows "acme_earned P (acme_step env m (d, LeafDone i)) \<and> (i < length (am_waiting m) \<longrightarrow> fst ` set (issuance env d (am_waiting m ! i)) \<subseteq> P)"
proof (cases "i < length (am_waiting m)")
  case True
  obtain a s where a: "finalize_end env d (am_waiting m ! i) (am_state m) = (a, s)" by (cases "finalize_end env d (am_waiting m ! i) (am_state m)")
  have p: "fz_authzId (am_waiting m ! i) \<in> P" using assms True by (auto simp: acme_earned_def)
  have "orders_earned P s" using finalize_end_earned [of P "am_state m" "am_waiting m ! i" env d] p assms a by (simp add: acme_earned_def)
  moreover have "set (take i (am_waiting m) @ drop (Suc i) (am_waiting m)) \<subseteq> set (am_waiting m)"
    using set_take_subset set_drop_subset by (metis Un_least set_append)
  ultimately show ?thesis using True a p assms by (auto simp: acme_earned_def acme_step_def issuance_def split: option.splits)
next
  case False
  then show ?thesis using assms by (simp add: acme_step_def)
qed

lemma issuances_earned:
  "acme_earned P m \<Longrightarrow> fst ` set (issuances env m xs) \<subseteq> P \<union> set (token_proofs env m xs)"
proof (induction xs arbitrary: P m)
  case (Cons x xs)
  obtain d y where x: "x = (d, y)" by (cases x)
  show ?case
  proof (cases y)
    case (AcmeRequest q)
    from Cons.IH [OF acme_step_request [OF Cons.prems, of env q d]]
    have "fst ` set (issuances env m (x # xs)) \<subseteq> P \<union> set_option (token_proof env q (am_state m)) \<union> set (token_proofs env (acme_step env m x) xs)"
      using x AcmeRequest by simp
    then show ?thesis using x AcmeRequest by (cases "token_proof env q (am_state m)") simp_all
  next
    case (LeafDone i)
    from acme_step_leaf [OF Cons.prems, of env d i] Cons.IH show ?thesis
      using x LeafDone by (auto split: if_splits)
  qed
qed simp

lemma acme_earned_empty: "acme_earned {} acme_empty"
  by (simp add: acme_earned_def acme_empty_def orders_earned_def)

text \<open>Texts are kept for download only when they are issued.\<close>

lemma with_account_certs: "(\<And>e h t. as_certs t = as_certs s \<Longrightarrow> as_certs (snd (k e h t)) = as_certs s) \<Longrightarrow> as_certs (snd (with_account env r q s k)) = as_certs s"
  by (rule with_account_orders [where I = "\<lambda>t. as_certs t = as_certs s"]) simp_all

lemma dispatch_certs: "as_certs (snd (acme_dispatch env d q s)) = as_certs s"
proof -
  have 1: "as_certs (snd (handleNewAccount env d q s)) = as_certs s"
    by (simp add: handleNewAccount_def Let_def consumeNonce_orders split: sum.split option.split prod.split)
  have 2: "as_certs (snd (handleNewOrder env d q s)) = as_certs s"
    unfolding handleNewOrder_def by (rule with_account_certs) (simp add: newOrder_def Let_def split: option.split)
  have 3: "as_certs (snd (handleAuthz env d q i s)) = as_certs s" "as_certs (snd (handleCert env d q i s)) = as_certs s" "as_certs (snd (handleOrder env d q i s)) = as_certs s" for i
    unfolding handleAuthz_def handleCert_def handleOrder_def by (rule with_account_certs, simp split: option.split)+
  have 4: "as_certs (snd (handleChallenge env d q i s)) = as_certs s" for i
    by (simp add: handleChallenge_def challenge_passed_def Let_def consumeNonce_orders split: sum.split option.split prod.split)
  show ?thesis using 1 2 3 4 by (simp add: acme_dispatch_def handleNewNonce_def handleFinalize_orders split: acme_route.split)
qed

lemma finalize_end_certs:
  "snd ` set (as_certs (snd (finalize_end env d f s))) \<subseteq> snd ` set (as_certs s) \<union> (snd \<circ> snd) ` set (issuance env d f)"
  by (auto simp: finalize_end_def issuance_def Let_def dest!: js_set_in_cases split: option.splits)

lemma subset_two_steps: "B \<subseteq> D \<union> E \<Longrightarrow> A \<subseteq> B \<union> C \<Longrightarrow> A \<subseteq> D \<union> (E \<union> C)"
  by blast

lemma certs_issued:
  "snd ` set (as_certs (am_state (run (acme_step env) m xs))) \<subseteq> snd ` set (as_certs (am_state m)) \<union> (snd \<circ> snd) ` set (issuances env m xs)"
proof (induction xs arbitrary: m)
  case (Cons x xs)
  obtain d y where x: "x = (d, y)" by (cases x)
  show ?case
  proof (cases y)
    case (AcmeRequest q)
    have "as_certs (am_state (acme_step env m (d, AcmeRequest q))) = as_certs (am_state m)"
      using dispatch_certs [of env d q "am_state m"] by (auto simp: acme_step_def split: prod.split sum.split)
    with Cons.IH [of "acme_step env m (d, AcmeRequest q)"] show ?thesis using x AcmeRequest by (simp add: run_Cons)
  next
    case (LeafDone i)
    have "snd ` set (as_certs (am_state (acme_step env m (d, LeafDone i)))) \<subseteq> snd ` set (as_certs (am_state m)) \<union>
        (snd \<circ> snd) ` set (if i < length (am_waiting m) then issuance env d (am_waiting m ! i) else [])"
      using finalize_end_certs [of env d "am_waiting m ! i" "am_state m"] by (cases "finalize_end env d (am_waiting m ! i) (am_state m)") (simp add: acme_step_def)
    moreover note Cons.IH [of "acme_step env m (d, LeafDone i)"]
    moreover have "issuances env m (x # xs) = (if i < length (am_waiting m) then issuance env d (am_waiting m ! i) else []) @ issuances env (acme_step env m (d, LeafDone i)) xs"
      using x LeafDone by simp
    ultimately show ?thesis unfolding x LeafDone run_Cons by (simp only: set_append image_Un subset_two_steps)
  qed
qed simp

text \<open>C32: 
  Every certificate was issued for an authorization whose challenge token a registered account had signed, by then, with its key; what can be
  downloaded was issued.
\<close>

theorem acme_certificate_earned:
  "list_all (\<lambda>(authz, nid, pem). authz \<in> set (token_proofs env acme_empty xs)) (issuances env acme_empty xs) \<and>
   set (map snd (as_certs (am_state (run (acme_step env) acme_empty xs)))) \<subseteq> set (map (snd \<circ> snd) (issuances env acme_empty xs))"
proof
  from issuances_earned [OF acme_earned_empty, of env xs]
  show "list_all (\<lambda>(authz, nid, pem). authz \<in> set (token_proofs env acme_empty xs)) (issuances env acme_empty xs)"
    by (force simp: list_all_iff)
  from certs_issued [of env acme_empty xs]
  show "set (map snd (as_certs (am_state (run (acme_step env) acme_empty xs)))) \<subseteq> set (map (snd \<circ> snd) (issuances env acme_empty xs))"
    by (simp add: acme_empty_def)
qed

section \<open>Nonces\<close>

text \<open>The nonce a request uses up.\<close>

definition spends :: "acme_env \<Rightarrow> acme_request \<Rightarrow> acme_state \<Rightarrow> string option" where
  "spends env q s = (let r = acme_route (aq_method q) (aq_url q) in
     if r \<in> {ArDirectory, ArNewNonce, ArNone} then None
     else (case readSigned env q of Inl a \<Rightarrow> None
       | Inr (e, h) \<Rightarrow> if r = ArNewAccount \<and> ph_jwk h = None then None
           else (case ph_nonce h of None \<Rightarrow> None | Some n \<Rightarrow> if n \<in> set (as_nonces s) then Some n else None)))"

fun spent :: "acme_env \<Rightarrow> acme_machine \<Rightarrow> (acme_draw \<times> acme_input) list \<Rightarrow> string list" where
  "spent env m [] = []"
| "spent env m ((d, AcmeRequest q) # xs) =
     (case spends env q (am_state m) of None \<Rightarrow> [] | Some n \<Rightarrow> [n]) @ spent env (acme_step env m (d, AcmeRequest q)) xs"
| "spent env m ((d, LeafDone i) # xs) = spent env (acme_step env m (d, LeafDone i)) xs"

definition nonces_after :: "acme_draw \<Rightarrow> string option \<Rightarrow> acme_state \<Rightarrow> acme_state \<Rightarrow> bool" where
  "nonces_after d used s t \<longleftrightarrow> set (as_nonces t) \<subseteq> (set (as_nonces s) - set_option used) \<union> {dw_nonce d}"

lemma mintNonce_nonces: "set (as_nonces (mintNonce d s)) = insert (dw_nonce d) (set (as_nonces s))"
  by (auto simp: mintNonce_def)

lemma consumeNonce_None: "consumeNonce n s = None \<longleftrightarrow> (case n of None \<Rightarrow> True | Some x \<Rightarrow> x \<notin> set (as_nonces s))"
  by (simp add: consumeNonce_def split: option.split)

lemma consumeNonce_Some: "consumeNonce n s = Some t \<Longrightarrow> n \<noteq> None \<and> the n \<in> set (as_nonces s) \<and> set (as_nonces t) = set (as_nonces s) - {the n}"
  by (auto simp: consumeNonce_def split: option.splits if_splits)

lemma spends_consumed:
  assumes "readSigned env q = Inr (e, h)" "acme_route (aq_method q) (aq_url q) \<notin> {ArDirectory, ArNewNonce, ArNone}"
    "acme_route (aq_method q) (aq_url q) = ArNewAccount \<Longrightarrow> ph_jwk h \<noteq> None" "consumeNonce (ph_nonce h) s = Some t"
  shows "spends env q s = ph_nonce h"
proof -
  obtain n where n: "ph_nonce h = Some n" "n \<in> set (as_nonces s)" using consumeNonce_Some [OF assms(4)] by auto
  have "\<not> (acme_route (aq_method q) (aq_url q) = ArNewAccount \<and> ph_jwk h = None)" using assms(3) by blast
  then show ?thesis using assms(2) n unfolding spends_def Let_def assms(1) by simp
qed

lemma nonces_after_same: "as_nonces t = as_nonces s \<Longrightarrow> nonces_after d None s t"
  by (auto simp: nonces_after_def)

lemma nonces_after_mint: "as_nonces t = as_nonces s \<Longrightarrow> nonces_after d None s (mintNonce d t)"
  by (auto simp: nonces_after_def mintNonce_nonces mintNonce_def)

lemma nonces_after_spent:
  "consumeNonce n s = Some t \<Longrightarrow> nonces_after d None t u \<Longrightarrow> nonces_after d n s u"
  by (auto simp: nonces_after_def dest!: consumeNonce_Some)

lemma with_account_nonces:
  assumes "\<And>e h t. nonces_after d None t (snd (k e h t))"
    and r: "acme_route (aq_method q) (aq_url q) \<notin> {ArDirectory, ArNewNonce, ArNone, ArNewAccount}"
  shows "nonces_after d (spends env q s) s (snd (with_account env rf q s k))"
proof (cases "readSigned env q")
  case (Inl a)
  then show ?thesis using r by (auto simp: with_account_def spends_def nonces_after_def)
next
  case (Inr eh)
  obtain e h where eh: "eh = (e, h)" by (cases eh)
  show ?thesis
  proof (cases "consumeNonce (ph_nonce h) s")
    case None
    then have "spends env q s = None" using r by (auto simp: spends_def Inr eh consumeNonce_None split: option.splits)
    then show ?thesis by (auto simp: with_account_def nonces_after_def Inr eh None)
  next
    case (Some t)
    have u: "spends env q s = ph_nonce h" using r by (intro spends_consumed [OF Inr [unfolded eh] _ _ Some]) auto
    have lift: "nonces_after d (spends env q s) s u" if "nonces_after d None t u" for u using nonces_after_spent [OF Some that] u by simp
    have stay: "nonces_after d (spends env q s) s t" by (rule lift) (auto simp: nonces_after_def)
    show ?thesis
      by (simp add: with_account_def Inr eh Some lift stay assms(1) split: option.split bool.split)
  qed
qed

lemma challenge_passed_nonces [simp]: "as_nonces (challenge_passed i c s) = as_nonces s"
  by (simp add: challenge_passed_def Let_def)

lemma newOrder_nonces: "nonces_after d None s (snd (newOrder env d a ident s))"
  unfolding newOrder_def Let_def snd_conv by (rule nonces_after_mint) simp

lemma handleNewAccount_nonces:
  assumes r: "acme_route (aq_method q) (aq_url q) = ArNewAccount"
  shows "nonces_after d (spends env q s) s (snd (handleNewAccount env d q s))"
proof (cases "readSigned env q")
  case (Inl a)
  then show ?thesis using r by (simp add: handleNewAccount_def spends_def nonces_after_same)
next
  case (Inr eh)
  obtain e h where eh: "eh = (e, h)" by (cases eh)
  show ?thesis
  proof (cases "ph_jwk h = None \<or> consumeNonce (ph_nonce h) s = None")
    case True
    then have "spends env q s = None" using r by (auto simp: spends_def Inr eh consumeNonce_None split: option.splits)
    then show ?thesis using True by (auto simp: handleNewAccount_def Inr eh nonces_after_same split: option.split)
  next
    case False
    then obtain jwk t where j: "ph_jwk h = Some jwk" and t: "consumeNonce (ph_nonce h) s = Some t" by auto
    have u: "spends env q s = ph_nonce h" using r j by (intro spends_consumed [OF Inr [unfolded eh] _ _ t]) auto
    have "nonces_after d None t (snd (handleNewAccount env d q s))"
      by (simp add: handleNewAccount_def Inr eh j t Let_def nonces_after_same nonces_after_mint split: option.split)
    then show ?thesis unfolding u by (rule nonces_after_spent [OF t])
  qed
qed

lemma handleChallenge_nonces:
  assumes r: "acme_route (aq_method q) (aq_url q) = ArChallenge i"
  shows "nonces_after d (spends env q s) s (snd (handleChallenge env d q i s))"
proof (cases "readSigned env q")
  case (Inl a)
  then show ?thesis using r by (simp add: handleChallenge_def spends_def nonces_after_same)
next
  case (Inr eh)
  obtain e h where eh: "eh = (e, h)" by (cases eh)
  show ?thesis
  proof (cases "consumeNonce (ph_nonce h) s")
    case None
    then have "spends env q s = None" using r by (auto simp: spends_def Inr eh consumeNonce_None split: option.splits)
    then show ?thesis using None by (simp add: handleChallenge_def Inr eh nonces_after_same)
  next
    case (Some t)
    have u: "spends env q s = ph_nonce h" using r by (intro spends_consumed [OF Inr [unfolded eh] _ _ Some]) auto
    have "nonces_after d None t (snd (handleChallenge env d q i s))"
      by (simp add: handleChallenge_def Inr eh Some nonces_after_same nonces_after_mint split: option.split)
    then show ?thesis unfolding u by (rule nonces_after_spent [OF Some])
  qed
qed

lemma handleFinalize_nonces:
  assumes r: "acme_route (aq_method q) (aq_url q) = ArFinalize i"
  shows "nonces_after d (spends env q s) s (snd (handleFinalize env q i s))"
proof (cases "readSigned env q")
  case (Inl a)
  then show ?thesis using r by (simp add: handleFinalize_def spends_def nonces_after_same)
next
  case (Inr eh)
  obtain e h where eh: "eh = (e, h)" by (cases eh)
  show ?thesis
  proof (cases "consumeNonce (ph_nonce h) s")
    case None
    then have "spends env q s = None" using r by (auto simp: spends_def Inr eh consumeNonce_None split: option.splits)
    then show ?thesis using None by (simp add: handleFinalize_def Inr eh nonces_after_same)
  next
    case (Some t)
    have u: "spends env q s = ph_nonce h" using r by (intro spends_consumed [OF Inr [unfolded eh] _ _ Some]) auto
    have "nonces_after d None t (snd (handleFinalize env q i s))"
      by (simp add: handleFinalize_def Inr eh Some nonces_after_same split: option.split bool.split)
    then show ?thesis unfolding u by (rule nonces_after_spent [OF Some])
  qed
qed

lemma account_handler_nonces:
  assumes "acme_route (aq_method q) (aq_url q) \<notin> {ArDirectory, ArNewNonce, ArNone, ArNewAccount}"
  shows "nonces_after d (spends env q s) s (snd (handleNewOrder env d q s))" "nonces_after d (spends env q s) s (snd (handleAuthz env d q i s))"
    "nonces_after d (spends env q s) s (snd (handleCert env d q i s))" "nonces_after d (spends env q s) s (snd (handleOrder env d q i s))"
  unfolding handleNewOrder_def handleAuthz_def handleCert_def handleOrder_def
  by (rule with_account_nonces [OF _ assms], simp add: newOrder_nonces nonces_after_mint nonces_after_same split: option.split)+

lemma spends_unsigned: "acme_route (aq_method q) (aq_url q) \<in> {ArDirectory, ArNewNonce, ArNone} \<Longrightarrow> spends env q s = None"
  by (simp add: spends_def)

lemma dispatch_nonces: "nonces_after d (spends env q s) s (snd (acme_dispatch env d q s))"
  by (cases "acme_route (aq_method q) (aq_url q)")
    (simp_all add: acme_dispatch_def handleNewAccount_nonces handleChallenge_nonces handleFinalize_nonces account_handler_nonces handleNewNonce_def
      spends_unsigned nonces_after_same nonces_after_mint)

lemma spends_known: "spends env q s = Some n \<Longrightarrow> n \<in> set (as_nonces s)"
  by (auto simp: spends_def Let_def split: if_splits sum.splits option.splits)

definition holds_nonce :: "string \<Rightarrow> acme_machine \<Rightarrow> nat" where
  "holds_nonce n m = (if n \<in> set (as_nonces (am_state m)) then 1 else 0)"

lemma step_request_nonce:
  "(if spends env q (am_state m) = Some n then 1 else 0) + holds_nonce n (acme_step env m (d, AcmeRequest q)) \<le> holds_nonce n m + (if dw_nonce d = n then 1 else 0)"
proof -
  obtain r s where r: "acme_dispatch env d q (am_state m) = (r, s)" by (cases "acme_dispatch env d q (am_state m)")
  have s: "am_state (acme_step env m (d, AcmeRequest q)) = s" using r by (simp add: acme_step_def split: sum.split)
  have "nonces_after d (spends env q (am_state m)) (am_state m) s" using dispatch_nonces [of d env q "am_state m"] r by simp
  then show ?thesis using spends_known [of env q "am_state m" n] by (auto simp: holds_nonce_def s nonces_after_def)
qed

lemma step_leaf_nonce: "holds_nonce n (acme_step env m (d, LeafDone i)) \<le> holds_nonce n m + (if dw_nonce d = n then 1 else 0)"
  by (auto simp: holds_nonce_def acme_step_def finalize_end_def Let_def mintNonce_nonces split: prod.splits option.splits)

lemma spent_bounded: "count_list (spent env m xs) n \<le> holds_nonce n m + count_list (map (dw_nonce \<circ> fst) xs) n"
proof (induction xs arbitrary: m)
  case (Cons x xs)
  obtain d y where x: "x = (d, y)" by (cases x)
  show ?case
  proof (cases y)
    case (AcmeRequest q)
    have "count_list (spent env m (x # xs)) n = (if spends env q (am_state m) = Some n then 1 else 0) + count_list (spent env (acme_step env m (d, AcmeRequest q)) xs) n"
      by (simp add: x AcmeRequest split: option.split)
    with Cons.IH [of "acme_step env m (d, AcmeRequest q)"] step_request_nonce [of env q m n d]
    show ?thesis unfolding x AcmeRequest list.map count_list.simps by (simp add: o_def split: if_splits)
  next
    case (LeafDone i)
    with Cons.IH [of "acme_step env m (d, LeafDone i)"] step_leaf_nonce [of n env m d i]
    show ?thesis unfolding x LeafDone list.map count_list.simps by (simp add: o_def split: if_splits)
  qed
qed simp

text \<open>
  A nonce is accepted at most as often as it was drawn: a signed request cannot be replayed.
\<close>

theorem acme_nonce_spent_once: "count_list (spent env acme_empty xs) n \<le> count_list (map (dw_nonce \<circ> fst) xs) n"
  using spent_bounded [of env acme_empty xs n] by (simp add: holds_nonce_def acme_empty_def)

text \<open>A request whose nonce is not accepted changes nothing.\<close>

lemma refused_nonce_no_effect:
  assumes "spends env q s = None" "acme_route (aq_method q) (aq_url q) \<noteq> ArNewNonce"
  shows "snd (acme_dispatch env d q s) = s"
proof (cases "acme_route (aq_method q) (aq_url q) \<in> {ArDirectory, ArNone}")
  case True
  then show ?thesis by (auto simp: acme_dispatch_def)
next
  case False
  have w: "snd (with_account env rf q s k) = s" if "acme_route (aq_method q) (aq_url q) \<noteq> ArNewAccount" for rf k
    using assms False that
    by (cases "readSigned env q") (auto simp: with_account_def spends_def consumeNonce_def split: option.splits if_splits)
  have c: "consumeNonce (ph_nonce h) s = None" if "readSigned env q = Inr (e, h)" "acme_route (aq_method q) (aq_url q) = ArNewAccount \<Longrightarrow> ph_jwk h \<noteq> None" for e h
    using assms False that by (auto simp: spends_def consumeNonce_None Let_def split: option.splits if_splits)
  show ?thesis
    using False assms(2) w c
    by (cases "acme_route (aq_method q) (aq_url q)")
      (auto simp: acme_dispatch_def handleNewAccount_def handleNewOrder_def handleAuthz_def handleChallenge_def handleFinalize_def handleCert_def handleOrder_def
        split: sum.split option.split prod.split)
qed

section \<open>What the server does not check\<close>

text \<open>A body or a header that is a falsy JSON value, such as \<open>null\<close>, is never answered.\<close>

lemma null_body_unanswered:
  "aq_body q = Some JNull \<Longrightarrow> acme_route (aq_method q) (aq_url q) \<in> {ArNewAccount, ArNewOrder, ArAuthz i, ArChallenge i, ArCert i, ArOrder i, ArFinalize i} \<Longrightarrow>
   acme_dispatch env d q s = (Inl NoAnswer, s)"
  by (auto simp: acme_dispatch_def handleNewAccount_def handleNewOrder_def handleAuthz_def handleChallenge_def handleFinalize_def handleCert_def handleOrder_def
      with_account_def readSigned_def readEnvelope_def json_falsy_def)

text \<open>
  Whichever registered account answers a challenge with its own key passes it, whoever owns the order; and every order of that authorization
  becomes ready, one that is already valid included: it can be finalized again.
\<close>

lemma challenge_of_another_account:
  assumes "acme_route (aq_method q) (aq_url q) = ArChallenge i" "readSigned env q = Inr (e, h)" "consumeNonce (ph_nonce h) s = Some t"
    and "js_get (as_accountJwks s) (text_or (ph_kid h)) = Some jwk" "publicKeyFromJwk jwk = Some pub" "jws_verify env e pub \<noteq> None"
    and "js_get (as_challenges s) i = Some c" "ch_accountUrl c \<noteq> text_or (ph_kid h)"
    and "decodePayload env e = Some p" "agent_signature p = Some sg" "ae_edVerify env (b64uDecode sg) (ch_token c) pub = Some True"
    and "js_get (as_orders s) k = Some o'" "ao_authzId o' = ch_authzId c" "ao_status o' = ''valid''"
  shows "\<exists>o2. js_get (as_orders (snd (acme_dispatch env d q s))) k = Some o2 \<and> ao_status o2 = ''ready'' \<and> ao_identifier o2 = ao_identifier o'"
proof -
  have "snd (acme_dispatch env d q s) = mintNonce d (challenge_passed i c t)"
    using assms consumeNonce_keeps [OF assms(3)] by (auto simp: acme_dispatch_def handleChallenge_def)
  then show ?thesis
    using assms consumeNonce_keeps [OF assms(3)] by (simp add: challenge_passed_def Let_def js_get_map_prod ready_order_def)
qed

text \<open>The order stays ready while its certificate is awaited: a second request for it awaits another certificate.\<close>

lemma finalized_twice:
  assumes "fst (handleFinalize env q i s) = Inr f" "consumeNonce n' (snd (handleFinalize env q i s)) = Some t"
  shows "finalize_order env e i t = finalize_order env e i s"
  using handleFinalize_orders(1) [of env q i s] consumeNonce_orders(1) [OF assms(2)] by (simp add: finalize_order_def)

text \<open>The subject is split at its commas although commas are escaped: an identifier with a comma never matches.\<close>

lemma unescape_dn_subset: "set (unescape_dn s) \<subseteq> set s"
  by (induction s rule: unescape_dn.induct) auto

lemma comma_identifier_refused:
  assumes "CHR '','' \<in> set nid"
  shows "acme_subjectCn subject \<noteq> Some nid"
proof
  assume "acme_subjectCn subject = Some nid"
  then obtain rdn where r: "rdn \<in> set (js_split CHR '','' subject)" "nid = unescape_dn (drop 3 (js_trim rdn))"
    by (auto simp: acme_subjectCn_def dest!: find_SomeD split: option.splits)
  have "set (js_trim x) \<subseteq> set x" for x by (metis js_trim_def set_dropWhileD set_rev subsetI)
  then have "set nid \<subseteq> set rdn" using r(2) unescape_dn_subset set_drop_subset by (metis order_trans)
  then show False using assms js_split_parts [OF r(1)] by blast
qed

section \<open>Issued certificates and the verifier\<close>

abbreviation "dn_special \<equiv> [dquote, CHR '','', CHR ''+'', CHR '';'', CHR ''<'', CHR ''>'', CHR 0x5C]"

lemma escapeDn_Nil [simp]: "escapeDn [] = []"
  by (simp add: escapeDn_def)

lemma escapeDn_Cons: "escapeDn (c # s) = (if c \<in> set dn_special then CHR 0x5C # c # escapeDn s else c # escapeDn s)"
  by (simp add: escapeDn_def)

lemma unescape_plain: "c \<noteq> CHR 0x5C \<Longrightarrow> unescape_dn (c # s) = c # unescape_dn s"
  by (cases s) simp_all

lemma unescape_escape: "unescape_dn (escapeDn s) = s"
proof (induction s)
  case (Cons c s)
  show ?case
  proof (cases "c \<in> set dn_special")
    case True
    then show ?thesis using Cons by (simp add: escapeDn_Cons)
  next
    case False
    then have "c \<noteq> CHR 0x5C" by simp
    from unescape_plain [OF this] False Cons show ?thesis by (simp add: escapeDn_Cons)
  qed
qed simp

lemma set_escapeDn: "set (escapeDn s) \<subseteq> insert (CHR 0x5C) (set s)"
  by (induction s) (auto simp: escapeDn_Cons)

lemma last_escapeDn: "s \<noteq> [] \<Longrightarrow> escapeDn s \<noteq> [] \<and> last (escapeDn s) = last s"
  by (induction s) (auto simp: escapeDn_Cons)

lemma hd_escapeDn: "escapeDn s \<noteq> [] \<Longrightarrow> hd (escapeDn s) \<noteq> dquote"
  by (cases s) (auto simp: escapeDn_Cons dquote_def)

definition plain_nid :: "string \<Rightarrow> bool" where
  "plain_nid nid \<longleftrightarrow> nid \<noteq> [] \<and> CHR '','' \<notin> set nid \<and> \<not> js_is_ws (last nid)"

lemma trim_fixed: "s \<noteq> [] \<Longrightarrow> \<not> js_is_ws (hd s) \<Longrightarrow> \<not> js_is_ws (last s) \<Longrightarrow> js_trim s = s"
proof -
  assume a: "s \<noteq> []" "\<not> js_is_ws (hd s)" "\<not> js_is_ws (last s)"
  have "dropWhile js_is_ws t = t" if "t \<noteq> []" "\<not> js_is_ws (hd t)" for t using that by (cases t) auto
  then show "js_trim s = s" using a by (simp add: js_trim_def hd_rev)
qed

lemma trim_cn: "plain_nid nid \<Longrightarrow> js_trim (''CN='' @ escapeDn nid) = ''CN='' @ escapeDn nid"
  using last_escapeDn [of nid] by (intro trim_fixed) (auto simp: plain_nid_def js_is_ws_def)

lemma split_cn: "plain_nid nid \<Longrightarrow> js_split CHR '','' (''CN='' @ escapeDn nid) = [''CN='' @ escapeDn nid]"
  using set_escapeDn [of nid] by (intro js_split_no_sep) (auto simp: plain_nid_def)

lemma subject_reads_back:
  assumes "plain_nid nid"
  shows "extractCn (''CN='' @ escapeDn nid) = Some nid" "acme_subjectCn (''CN='' @ escapeDn nid) = Some nid"
  using hd_escapeDn [of nid] last_escapeDn [of nid] trim_cn [OF assms] assms
  unfolding extractCn_def acme_subjectCn_def split_cn [OF assms] by (simp_all add: plain_nid_def js_startsWith_def cn_value_def unescape_escape)

text \<open>What the X.509 package shows of a certificate it generated.\<close>

definition exposes :: "certificate \<Rightarrow> cert_template \<Rightarrow> bool" where
  "exposes c t \<longleftrightarrow> ce_subject c = tp_subject t \<and> ce_eku c = Some (tp_eku t) \<and> ce_san_uris c = Some (tp_sanUris t) \<and>
     extension_value c NID_ASSURANCE_LEVEL = map_of (tp_extensions t) NID_ASSURANCE_LEVEL"

lemma leaf_passes_checks:
  assumes "exposes c (issueLeaf o')" "plain_nid (il_subjectNid o')" "asserted \<in> {None, Some (il_assuranceLevel o')}"
  shows "checkLeafEku c = None" "checkSubjectNid c (il_subjectNid o') = None" "checkAssuranceLevel c asserted = None"
proof -
  show "checkLeafEku c = None" using assms(1) by (cases "il_role o'") (auto simp: exposes_def issueLeaf_def checkLeafEku_def)
  show "checkSubjectNid c (il_subjectNid o') = None"
    using assms(1) subject_reads_back(1) [OF assms(2)] by (simp add: exposes_def issueLeaf_def checkSubjectNid_def)
  show "checkAssuranceLevel c asserted = None"
    using assms(1,3) by (cases "il_assuranceLevel o'") (auto simp: exposes_def issueLeaf_def checkAssuranceLevel_def level_rank_def fromRank_def)
qed

lemma issued_leaf_verifies:
  assumes "exposes c (issueLeaf o')" "plain_nid (il_subjectNid o')" "asserted \<in> {None, Some (il_assuranceLevel o')}"
    and "ne_certificate env ct = Some c" "ne_certificate env rt = Some rootCert" "ne_signedBy env c rootCert = Some True" "rootCert \<in> set roots"
  shows "x509_verify env [ct, rt] (il_subjectNid o') asserted roots = x_ok c"
proof -
  have "checkChainSignature env [c, rootCert] roots = None" using assms(6,7) by (auto simp: checkChainSignature_def list_ex_iff)
  then show ?thesis using assms(4,5) leaf_passes_checks [OF assms(1-3)] by (simp add: x509_verify_def)
qed

text \<open>
  The verifier never asks whether a certificate may sign certificates: whoever holds a leaf, which is no authority, signs a leaf for any
  other identifier and the chain is accepted.
\<close>

lemma leaf_can_issue:
  assumes "exposes c (issueLeaf o')" "tp_ca (issueLeaf o') = False" "exposes c2 (issueLeaf o2)" "plain_nid (il_subjectNid o2)"
    and "ne_certificate env ct = Some c" "ne_certificate env rt = Some rootCert" "ne_certificate env ct2 = Some c2"
    and "ne_signedBy env c rootCert = Some True" "ne_signedBy env c2 c = Some True" "rootCert \<in> set roots"
  shows "x509_verify env [ct2, ct, rt] (il_subjectNid o2) (Some (il_assuranceLevel o2)) roots = x_ok c2"
proof -
  have "checkChainSignature env [c2, c, rootCert] roots = None" using assms(8-10) by (auto simp: checkChainSignature_def list_ex_iff)
  then show ?thesis using assms(5-7) leaf_passes_checks [OF assms(3,4), of "Some (il_assuranceLevel o2)"] by (simp add: x509_verify_def)
qed

section \<open>The client\<close>

text \<open>
  The client's keys: \<open>ed25519.sign\<close> with its private key, the request generator of the X.509 package, and \<open>JSON.stringify\<close>.
\<close>

record csr_template =
  ct_name :: string
  ct_sanUris :: "string list"

record acme_keys =
  kk_publicKey :: string
  kk_sign :: "string \<Rightarrow> string"
  kk_csr :: "csr_template \<Rightarrow> string"
  kk_jsonText :: "jsval \<Rightarrow> string"

record acme_client =
  cl_directory :: "jsval option"
  cl_accountUrl :: "string option"
  cl_lastNonce :: "string option"

text \<open>The server and what its next steps draw. A response has a status, two headers and a body; \<open>None\<close>: the client throws or waits for ever.\<close>

type_synonym acme_world = "acme_machine \<times> acme_draw list"
type_synonym acme_response = "nat \<times> string option \<times> string option \<times> acme_body"

definition response_of :: "acme_answer \<Rightarrow> acme_response option" where
  "response_of a = (case a of Reply st loc nonce body \<Rightarrow> Some (st, loc, nonce, body) | Problem st code \<Rightarrow> Some (st, None, None, AbEmpty) | _ \<Rightarrow> None)"

definition acme_http :: "acme_env \<Rightarrow> string \<Rightarrow> string \<Rightarrow> jsval option \<Rightarrow> acme_world \<Rightarrow> (acme_response \<times> acme_world) option" where
  "acme_http env meth url body w =
     (if \<not> js_startsWith url (ae_baseUrl env) then None
      else case w of
        (m, d # ds) \<Rightarrow> (case acme_answering env m (d, AcmeRequest \<lparr>aq_method = meth, aq_url = drop (length (ae_baseUrl env)) url, aq_body = body\<rparr>) of
            (AwaitingLeaf, m') \<Rightarrow> (case ds of [] \<Rightarrow> None
              | d' # ds' \<Rightarrow> (case acme_answering env m' (d', LeafDone (length (am_waiting m))) of (a, m2) \<Rightarrow> map_option (\<lambda>r. (r, m2, ds')) (response_of a)))
          | (a, m') \<Rightarrow> map_option (\<lambda>r. (r, m', ds)) (response_of a))
      | _ \<Rightarrow> None)"

definition ensureSuccess :: "acme_response \<Rightarrow> unit option" where
  "ensureSuccess r = (if 200 \<le> fst r \<and> fst r \<le> 299 then Some () else None)"

definition json_body :: "acme_response \<Rightarrow> jsval option" where
  "json_body r = (case snd (snd (snd r)) of AbJson v \<Rightarrow> Some v | _ \<Rightarrow> None)"

definition resp_location :: "acme_response \<Rightarrow> string option" where
  "resp_location r = fst (snd r)"

definition resp_nonce :: "acme_response \<Rightarrow> string option" where
  "resp_nonce r = fst (snd (snd r))"

definition captureNonce :: "acme_response \<Rightarrow> acme_client \<Rightarrow> acme_client" where
  "captureNonce r c = (case resp_nonce r of None \<Rightarrow> c | Some n \<Rightarrow> c\<lparr>cl_lastNonce := Some n\<rparr>)"

definition jwkFromPublicKey :: "string \<Rightarrow> jsval option" where
  "jwkFromPublicKey raw = (if length raw \<noteq> 32 then None
     else Some (JObj [(''kty'', JStr ''OKP''), (''crv'', JStr ''Ed25519''), (''x'', JStr (b64uEncode raw))]))"

definition jws_sign :: "acme_keys \<Rightarrow> jsval \<Rightarrow> jsval option \<Rightarrow> jsval" where
  "jws_sign k header payload =
     (let h = b64uEncode (kk_jsonText k header); p = (case payload of None \<Rightarrow> [] | Some v \<Rightarrow> b64uEncode (kk_jsonText k v)) in
      JObj [(''protected'', JStr h), (''payload'', JStr p), (''signature'', JStr (b64uEncode (kk_sign k (h @ ''.'' @ p))))])"

text \<open>A member that is undefined is not written.\<close>

definition header_json :: "acme_client \<Rightarrow> string \<Rightarrow> jsval option \<Rightarrow> jsval" where
  "header_json c url jwk = JObj ([(''alg'', JStr ''EdDSA''), (''nonce'', (case cl_lastNonce c of None \<Rightarrow> JNull | Some n \<Rightarrow> JStr n)), (''url'', JStr url)] @
     (case jwk of Some j \<Rightarrow> [(''jwk'', j)] | None \<Rightarrow> [(''kid'', (case cl_accountUrl c of None \<Rightarrow> JNull | Some u \<Rightarrow> JStr u))]))"

definition refreshNonce :: "acme_env \<Rightarrow> jsval \<Rightarrow> acme_client \<times> acme_world \<Rightarrow> (acme_client \<times> acme_world) option" where
  "refreshNonce env dir cw = do {
     url \<leftarrow> text_of dir ''newNonce'';
     (r, w) \<leftarrow> acme_http env ''HEAD'' url None (snd cw);
     _ \<leftarrow> ensureSuccess r;
     n \<leftarrow> resp_nonce r;
     Some ((fst cw)\<lparr>cl_lastNonce := Some n\<rparr>, w) }"

definition ensureDirectory :: "acme_env \<Rightarrow> acme_client \<times> acme_world \<Rightarrow> (acme_client \<times> acme_world) option" where
  "ensureDirectory env cw = (if cl_directory (fst cw) \<noteq> None then Some cw
     else do {
       (r, w) \<leftarrow> acme_http env ''GET'' (ae_baseUrl env @ ''/directory'') None (snd cw);
       _ \<leftarrow> ensureSuccess r;
       dir \<leftarrow> json_body r;
       refreshNonce env dir ((fst cw)\<lparr>cl_directory := Some dir\<rparr>, w) })"

text \<open>A signed request to a resource, whose answer must be a success.\<close>

definition acme_post :: "acme_env \<Rightarrow> acme_keys \<Rightarrow> string \<Rightarrow> jsval option \<Rightarrow> jsval option \<Rightarrow> acme_client \<times> acme_world \<Rightarrow> (acme_response \<times> acme_client \<times> acme_world) option" where
  "acme_post env k url jwk payload cw = do {
     (r, w) \<leftarrow> acme_http env ''POST'' url (Some (jws_sign k (header_json (fst cw) url jwk) payload)) (snd cw);
     _ \<leftarrow> ensureSuccess r;
     Some (r, captureNonce r (fst cw), w) }"

definition client_newAccount :: "acme_env \<Rightarrow> acme_keys \<Rightarrow> acme_client \<times> acme_world \<Rightarrow> (acme_client \<times> acme_world) option" where
  "client_newAccount env k cw = do {
     dir \<leftarrow> cl_directory (fst cw);
     url \<leftarrow> text_of dir ''newAccount'';
     jwk \<leftarrow> jwkFromPublicKey (kk_publicKey k);
     (r, c, w) \<leftarrow> acme_post env k url (Some jwk) (Some (JObj [(''termsOfServiceAgreed'', JBool True)])) cw;
     u \<leftarrow> resp_location r;
     Some (c\<lparr>cl_accountUrl := Some u\<rparr>, w) }"

definition client_newOrder :: "acme_env \<Rightarrow> acme_keys \<Rightarrow> string \<Rightarrow> acme_client \<times> acme_world \<Rightarrow> (jsval \<times> acme_client \<times> acme_world) option" where
  "client_newOrder env k nid cw = do {
     dir \<leftarrow> cl_directory (fst cw);
     url \<leftarrow> text_of dir ''newOrder'';
     (r, cw) \<leftarrow> acme_post env k url None (Some (JObj [(''identifiers'', JArr [JObj [(''type'', JStr ''nid''), (''value'', JStr nid)]])])) cw;
     order \<leftarrow> json_body r;
     Some (order, cw) }"

definition fetchAuthz :: "acme_env \<Rightarrow> acme_keys \<Rightarrow> string \<Rightarrow> acme_client \<times> acme_world \<Rightarrow> (jsval \<times> acme_client \<times> acme_world) option" where
  "fetchAuthz env k url cw = do {
     (r, cw) \<leftarrow> acme_post env k url None None cw;
     authz \<leftarrow> json_body r;
     Some (authz, cw) }"

definition array_of :: "jsval \<Rightarrow> string \<Rightarrow> jsval list option" where
  "array_of v key = (case v of JObj w \<Rightarrow> (case jo_get w key of Some (JArr xs) \<Rightarrow> Some xs | _ \<Rightarrow> None) | _ \<Rightarrow> None)"

definition respondAgent01 :: "acme_env \<Rightarrow> acme_keys \<Rightarrow> jsval \<Rightarrow> acme_client \<times> acme_world \<Rightarrow> (acme_client \<times> acme_world) option" where
  "respondAgent01 env k authz cw = do {
     challenges \<leftarrow> array_of authz ''challenges'';
     challenge \<leftarrow> find (\<lambda>c. text_of c ''type'' = Some ''agent-01'') challenges;
     token \<leftarrow> text_of challenge ''token'';
     url \<leftarrow> text_of challenge ''url'';
     (r, cw) \<leftarrow> acme_post env k url None (Some (JObj [(''agent_signature'', JStr (b64uEncode (kk_sign k token)))])) cw;
     Some cw }"

definition buildCsr :: "acme_keys \<Rightarrow> string \<Rightarrow> string" where
  "buildCsr k nid = kk_csr k \<lparr>ct_name = ''CN='' @ escapeDn nid, ct_sanUris = [nid]\<rparr>"

definition finalizeOrder :: "acme_env \<Rightarrow> acme_keys \<Rightarrow> jsval \<Rightarrow> string \<Rightarrow> acme_client \<times> acme_world \<Rightarrow> (jsval \<times> acme_client \<times> acme_world) option" where
  "finalizeOrder env k order nid cw = do {
     url \<leftarrow> text_of order ''finalize'';
     (r, cw) \<leftarrow> acme_post env k url None (Some (JObj [(''csr'', JStr (b64uEncode (buildCsr k nid)))])) cw;
     order' \<leftarrow> json_body r;
     Some (order', cw) }"

definition downloadPem :: "acme_env \<Rightarrow> acme_keys \<Rightarrow> string \<Rightarrow> acme_client \<times> acme_world \<Rightarrow> (string \<times> acme_client \<times> acme_world) option" where
  "downloadPem env k url cw = do {
     (r, cw) \<leftarrow> acme_post env k url None None cw;
     pem \<leftarrow> (case snd (snd (snd r)) of AbPem pem \<Rightarrow> Some pem | _ \<Rightarrow> None);
     Some (pem, cw) }"

definition issueAgentCert :: "acme_env \<Rightarrow> acme_keys \<Rightarrow> string \<Rightarrow> acme_client \<times> acme_world \<Rightarrow> (string \<times> acme_client \<times> acme_world) option" where
  "issueAgentCert env k nid cw = do {
     cw \<leftarrow> ensureDirectory env cw;
     cw \<leftarrow> (if cl_accountUrl (fst cw) = None then client_newAccount env k cw else Some cw);
     (order, cw) \<leftarrow> client_newOrder env k nid cw;
     urls \<leftarrow> array_of order ''authorizations'';
     authzUrl \<leftarrow> (case urls of JStr u # us \<Rightarrow> Some u | _ \<Rightarrow> None);
     (authz, cw) \<leftarrow> fetchAuthz env k authzUrl cw;
     cw \<leftarrow> respondAgent01 env k authz cw;
     (finalized, cw) \<leftarrow> finalizeOrder env k order nid cw;
     certUrl \<leftarrow> text_of finalized ''certificate'';
     downloadPem env k certUrl cw }"

section \<open>The client gets its certificate\<close>

lemma b64u_roundtrip [simp]: "b64uDecode (b64uEncode s) = s"
proof -
  have "List.map_filter b64_value (replicate n (CHR ''='')) = []" for n
    by (induction n) (simp_all add: List.map_filter_def b64_value_def)
  then have "List.map_filter b64_value (map from_url (t @ replicate n (CHR ''=''))) = List.map_filter b64_value t" for t n
    by (simp only: map_filter_from_url) (simp add: List.map_filter_def)
  then have 1: "b64uDecode t = b64_decode t" for t by (simp add: b64uDecode_def b64_decode_def del: map_append)
  have "List.map_filter b64_value (b64_unurl t) = List.map_filter b64_value t" for t
    by (simp add: b64_unurl_def Let_def map_filter_equals map_filter_from_url)
  then have 2: "b64_decode (b64_unurl t) = b64_decode t" for t by (simp add: b64_decode_def)
  show ?thesis using b64_url_roundtrip [of s] by (simp add: 1 2 b64uEncode_def)
qed

lemma b64u_nonempty: "s \<noteq> [] \<Longrightarrow> b64uEncode s \<noteq> []"
proof
  assume "s \<noteq> []" "b64uEncode s = []"
  moreover have "b64uDecode [] = []" by (simp add: b64uDecode_def b64_decode_def List.map_filter_def)
  ultimately show False using b64u_roundtrip [of s] by simp
qed

text \<open>\<open>JSON.parse\<close> reads back what \<open>JSON.stringify\<close> wrote; signatures of the client verify under its key.\<close>

definition reads :: "acme_env \<Rightarrow> acme_keys \<Rightarrow> jsval \<Rightarrow> bool" where
  "reads env k v \<longleftrightarrow> kk_jsonText k v \<noteq> [] \<and> ae_jsonParse env (kk_jsonText k v) = Some v"

definition honest_keys :: "acme_env \<Rightarrow> acme_keys \<Rightarrow> bool" where
  "honest_keys env k \<longleftrightarrow> length (kk_publicKey k) = 32 \<and> (\<forall>msg. kk_sign k msg \<noteq> [] \<and> ae_edVerify env (kk_sign k msg) msg (kk_publicKey k) = Some True) \<and>
     (\<forall>t. kk_csr k t \<noteq> [] \<and> ae_csrSubject env (kk_csr k t) = Some (ct_name t))"

definition signed_envelope :: "acme_keys \<Rightarrow> jsval \<Rightarrow> jsval option \<Rightarrow> Envelope" where
  "signed_envelope k header payload = envelope_of (jws_sign k header payload)"

lemma header_not_falsy: "\<not> json_falsy (header_json c url jwk)"
  by (simp add: json_falsy_def header_json_def)

lemma header_of_json:
  "ph_nonce (header_of (header_json c url jwk)) = cl_lastNonce c"
  "ph_kid (header_of (header_json c url None)) = cl_accountUrl c"
  "ph_jwk (header_of (header_json c url (Some j))) = (if json_falsy j then None else Some (jwk_of j))"
  by (auto simp: header_of_def header_json_def text_of_def jo_get_def split: option.split)

lemma signed_reads:
  assumes "reads env k (header_json c url jwk)"
  shows "readSigned env \<lparr>aq_method = meth, aq_url = u, aq_body = Some (jws_sign k (header_json c url jwk) payload)\<rparr> =
     Inr (signed_envelope k (header_json c url jwk) payload, header_of (header_json c url jwk))"
  using assms header_not_falsy [of c url jwk]
  by (simp add: readSigned_def readEnvelope_def parseHeader_def signed_envelope_def envelope_of_def jws_sign_def Let_def text_of_def jo_get_def json_falsy_def reads_def)

lemma signed_verifies:
  assumes "reads env k (header_json c url jwk)" "honest_keys env k"
  shows "jws_verify env (signed_envelope k (header_json c url jwk) payload) (kk_publicKey k) \<noteq> None"
  using assms header_not_falsy [of c url jwk]
  by (simp add: jws_verify_def signed_envelope_def envelope_of_def jws_sign_def Let_def text_of_def jo_get_def reads_def honest_keys_def signing_input_def shown_def json_falsy_def)

lemma signed_payload:
  "decodePayload env (signed_envelope k h None) = Some None"
  "reads env k v \<Longrightarrow> decodePayload env (signed_envelope k h (Some v)) = Some (Some v)"
  using b64u_nonempty
  by (simp_all add: decodePayload_def signed_envelope_def envelope_of_def jws_sign_def Let_def text_of_def jo_get_def reads_def)

text \<open>The client has an account with its key, and a nonce the server holds.\<close>

definition account_ready :: "acme_env \<Rightarrow> acme_keys \<Rightarrow> acme_state \<Rightarrow> acme_client \<Rightarrow> bool" where
  "account_ready env k s c \<longleftrightarrow> (\<exists>u jwk n. cl_accountUrl c = Some u \<and> u \<noteq> [] \<and> js_get (as_accountJwks s) u = Some jwk \<and>
     publicKeyFromJwk jwk = Some (kk_publicKey k) \<and> cl_lastNonce c = Some n \<and> n \<in> set (as_nonces s))"

definition after_nonce :: "acme_client \<Rightarrow> acme_state \<Rightarrow> acme_state" where
  "after_nonce c s = s\<lparr>as_nonces := filter (\<lambda>x. Some x \<noteq> cl_lastNonce c) (as_nonces s)\<rparr>"

lemma account_consumes:
  assumes "account_ready env k s c"
  shows "consumeNonce (ph_nonce (header_of (header_json c url None))) s = Some (after_nonce c s)"
  using assms by (auto simp: account_ready_def header_of_json consumeNonce_def after_nonce_def)

lemma account_verified:
  assumes "account_ready env k s c" "honest_keys env k" "reads env k (header_json c url None)" "as_accountJwks t = as_accountJwks s"
  shows "verifyAccount env (signed_envelope k (header_json c url None) payload) (header_of (header_json c url None)) t = Some True"
  using assms(1,4) signed_verifies [OF assms(3,2), of payload] by (auto simp: account_ready_def verifyAccount_def header_of_json)

abbreviation "signed_request c k url u payload \<equiv> \<lparr>aq_method = ''POST'', aq_url = u, aq_body = Some (jws_sign k (header_json c url None) payload)\<rparr>"

lemma with_account_signed:
  assumes "account_ready env k s c" "honest_keys env k" "reads env k (header_json c url None)"
  shows "with_account env rf (signed_request c k url u payload) s f =
     f (signed_envelope k (header_json c url None) payload) (header_of (header_json c url None)) (after_nonce c s)"
  by (simp add: with_account_def signed_reads [OF assms(3)] account_consumes [OF assms(1)] account_verified [OF assms] after_nonce_def)

text \<open>After a successful step the client is ready again, under the nonce of the answer.\<close>

lemma account_ready_again:
  assumes "account_ready env k s c" "as_accountJwks t = as_accountJwks s"
  shows "account_ready env k (mintNonce d t) (c\<lparr>cl_lastNonce := Some (dw_nonce d)\<rparr>)"
  using assms by (auto simp: account_ready_def mintNonce_def)

lemma drop_base: "js_startsWith (b @ x) b" "drop (length b) (b @ x) = x"
  by simp_all

lemma http_reply:
  assumes "acme_dispatch env d \<lparr>aq_method = meth, aq_url = path, aq_body = body\<rparr> s = (Inl (Reply st loc n b), s')"
  shows "acme_http env meth (ae_baseUrl env @ path) body (\<lparr>am_state = s, am_waiting = ws\<rparr>, d # ds) = Some ((st, loc, n, b), \<lparr>am_state = s', am_waiting = ws\<rparr>, ds)"
  using assms by (simp add: acme_http_def response_of_def)

lemma post_reply:
  assumes "acme_dispatch env d \<lparr>aq_method = ''POST'', aq_url = path, aq_body = Some (jws_sign k (header_json c (ae_baseUrl env @ path) jwk) payload)\<rparr> s =
      (Inl (Reply st loc (Some (dw_nonce d)) b), s')" "200 \<le> st" "st \<le> 299"
  shows "acme_post env k (ae_baseUrl env @ path) jwk payload (c, \<lparr>am_state = s, am_waiting = ws\<rparr>, d # ds) =
      Some ((st, loc, Some (dw_nonce d), b), c\<lparr>cl_lastNonce := Some (dw_nonce d)\<rparr>, \<lparr>am_state = s', am_waiting = ws\<rparr>, ds)"
  using assms(2,3) by (simp add: acme_post_def http_reply [OF assms(1)] ensureSuccess_def captureNonce_def resp_nonce_def)

lemma directory_stage:
  "\<exists>dir. ensureDirectory env (\<lparr>cl_directory = None, cl_accountUrl = None, cl_lastNonce = None\<rparr>, \<lparr>am_state = s, am_waiting = ws\<rparr>, d0 # d1 # ds) =
     Some (\<lparr>cl_directory = Some dir, cl_accountUrl = None, cl_lastNonce = Some (dw_nonce d1)\<rparr>, \<lparr>am_state = mintNonce d1 s, am_waiting = ws\<rparr>, ds) \<and>
     text_of dir ''newAccount'' = Some (ae_baseUrl env @ ''/new-account'') \<and> text_of dir ''newOrder'' = Some (ae_baseUrl env @ ''/new-order'')"
proof -
  have d: "acme_dispatch env d0 \<lparr>aq_method = ''GET'', aq_url = ''/directory'', aq_body = None\<rparr> s = (Inl (handleDirectory env), s)"
    by (simp add: acme_dispatch_def acme_route_def)
  have n: "acme_dispatch env d1 \<lparr>aq_method = ''HEAD'', aq_url = ''/new-nonce'', aq_body = None\<rparr> s = (Inl (Reply 200 None (Some (dw_nonce d1)) AbEmpty), mintNonce d1 s)"
    by (simp add: acme_dispatch_def acme_route_def handleNewNonce_def)
  show ?thesis
    by (simp add: ensureDirectory_def refreshNonce_def http_reply [OF d [unfolded handleDirectory_def]] http_reply [OF n] ensureSuccess_def json_body_def resp_nonce_def
        text_of_def jo_get_def)
qed

lemma account_stage:
  assumes "honest_keys env k" "cl_directory c = Some dir" "text_of dir ''newAccount'' = Some (ae_baseUrl env @ ''/new-account'')"
    and "cl_lastNonce c = Some n" "n \<in> set (as_nonces s)"
    and "jwkFromPublicKey (kk_publicKey k) = Some j" "reads env k (header_json c (ae_baseUrl env @ ''/new-account'') (Some j))"
  shows "\<exists>s'. client_newAccount env k (c, \<lparr>am_state = s, am_waiting = ws\<rparr>, d # ds) =
     Some (c\<lparr>cl_accountUrl := Some (ae_baseUrl env @ ''/account/acc-'' @ dw_account d), cl_lastNonce := Some (dw_nonce d)\<rparr>, \<lparr>am_state = s', am_waiting = ws\<rparr>, ds) \<and>
     account_ready env k s' (c\<lparr>cl_accountUrl := Some (ae_baseUrl env @ ''/account/acc-'' @ dw_account d), cl_lastNonce := Some (dw_nonce d)\<rparr>)"
proof -
  let ?q = "\<lparr>aq_method = ''POST'', aq_url = ''/new-account'', aq_body = Some (jws_sign k (header_json c (ae_baseUrl env @ ''/new-account'') (Some j)) (Some (JObj [(''termsOfServiceAgreed'', JBool True)])))\<rparr>"
  let ?u = "ae_baseUrl env @ ''/account/acc-'' @ dw_account d"
  have j: "\<not> json_falsy j" "publicKeyFromJwk (jwk_of j) = Some (kk_publicKey k)"
    using assms(6) by (auto simp: jwkFromPublicKey_def json_falsy_def publicKeyFromJwk_def jwk_of_def text_of_def jo_get_def split: if_splits)
  let ?s = "mintNonce d (after_nonce c s\<lparr>as_accountJwks := js_set (as_accountJwks s) ?u (jwk_of j)\<rparr>)"
  have "handleNewAccount env d ?q s = (Reply 201 (Some ?u) (Some (dw_nonce d)) (AbJson (JObj [(''status'', JStr ''valid'')])), ?s)"
    using signed_verifies [OF assms(7,1)] assms(4,5) j
    by (simp add: handleNewAccount_def signed_reads [OF assms(7)] header_of_json consumeNonce_def Let_def after_nonce_def)
  then have "acme_dispatch env d ?q s = (Inl (Reply 201 (Some ?u) (Some (dw_nonce d)) (AbJson (JObj [(''status'', JStr ''valid'')]))), ?s)"
    by (simp add: acme_dispatch_def acme_route_def)
  from post_reply [OF this, of ws ds]
  have "client_newAccount env k (c, \<lparr>am_state = s, am_waiting = ws\<rparr>, d # ds) =
     Some (c\<lparr>cl_accountUrl := Some ?u, cl_lastNonce := Some (dw_nonce d)\<rparr>, \<lparr>am_state = ?s, am_waiting = ws\<rparr>, ds)"
    by (simp add: client_newAccount_def assms resp_location_def)
  moreover have "account_ready env k ?s (c\<lparr>cl_accountUrl := Some ?u, cl_lastNonce := Some (dw_nonce d)\<rparr>)"
    using j by (simp add: account_ready_def mintNonce_def)
  ultimately show ?thesis by blast
qed

abbreviation "renewed c d \<equiv> c\<lparr>cl_lastNonce := Some (dw_nonce d)\<rparr>"

lemma post_routes [simp]:
  "acme_route ''POST'' (''/new-account'') = ArNewAccount" "acme_route ''POST'' (''/new-order'') = ArNewOrder"
  "acme_route ''POST'' (''/authz/'' @ i) = ArAuthz i" "acme_route ''POST'' (''/chall/'' @ i) = ArChallenge i"
  "acme_route ''POST'' (''/finalize/'' @ i) = ArFinalize i" "acme_route ''POST'' (''/cert/'' @ i) = ArCert i"
  by (simp_all add: acme_route_def js_startsWith_def)

text \<open>The order placed under the draw \<open>d\<close>, with its authorization and its challenge.\<close>

definition order_placed :: "acme_env \<Rightarrow> acme_draw \<Rightarrow> jsval \<Rightarrow> string \<Rightarrow> acme_state \<Rightarrow> bool" where
  "order_placed env d ident status s \<longleftrightarrow>
     (\<exists>o' az c. js_get (as_orders s) (''ord-'' @ dw_order d) = Some o' \<and> ao_identifier o' = ident \<and> ao_status o' = status \<and> ao_authzId o' = ''az-'' @ dw_authz d \<and>
       ao_finalizeUrl o' = ae_baseUrl env @ ''/finalize/ord-'' @ dw_order d \<and>
       js_get (as_authzs s) (''az-'' @ dw_authz d) = Some az \<and> az_challengeIds az = [''ch-'' @ dw_chall d] \<and>
       js_get (as_challenges s) (''ch-'' @ dw_chall d) = Some c \<and> ch_type c = ''agent-01'' \<and> ch_token c = dw_token d \<and> ch_authzId c = ''az-'' @ dw_authz d)"

lemma order_placed_cong:
  "as_orders t = as_orders s \<Longrightarrow> as_authzs t = as_authzs s \<Longrightarrow> as_challenges t = as_challenges s \<Longrightarrow> order_placed env d ident st t = order_placed env d ident st s"
  by (simp add: order_placed_def)

lemma after_nonce_keeps [simp]:
  "as_orders (after_nonce c s) = as_orders s" "as_authzs (after_nonce c s) = as_authzs s" "as_challenges (after_nonce c s) = as_challenges s"
  "as_accountJwks (after_nonce c s) = as_accountJwks s" "as_certs (after_nonce c s) = as_certs s"
  by (simp_all add: after_nonce_def)

definition nid_json :: "string \<Rightarrow> jsval" where
  "nid_json nid = JObj [(''type'', JStr ''nid''), (''value'', JStr nid)]"

lemma order_stage:
  assumes "account_ready env k s c" "honest_keys env k" "cl_directory c = Some dir" "text_of dir ''newOrder'' = Some (ae_baseUrl env @ ''/new-order'')"
    and "reads env k (header_json c (ae_baseUrl env @ ''/new-order'') None)" "reads env k (JObj [(''identifiers'', JArr [nid_json nid])])"
  shows "\<exists>s'. client_newOrder env k nid (c, \<lparr>am_state = s, am_waiting = ws\<rparr>, d # ds) =
     Some (order_json env ''pending'' (nid_json nid) (''az-'' @ dw_authz d) (ae_baseUrl env @ ''/finalize/ord-'' @ dw_order d) None, (renewed c d), \<lparr>am_state = s', am_waiting = ws\<rparr>, ds) \<and>
     account_ready env k s' (renewed c d) \<and> order_placed env d (nid_json nid) ''pending'' s'"
proof -
  let ?q = "signed_request c k (ae_baseUrl env @ ''/new-order'') ''/new-order'' (Some (JObj [(''identifiers'', JArr [nid_json nid])]))"
  obtain u where u: "cl_accountUrl c = Some u" using assms(1) by (auto simp: account_ready_def)
  let ?s = "snd (newOrder env d u (nid_json nid) (after_nonce c s))"
  have "handleNewOrder env d ?q s = newOrder env d u (nid_json nid) (after_nonce c s)"
    by (simp add: handleNewOrder_def with_account_signed [OF assms(1,2,5)] signed_payload(2) [OF assms(6)] first_identifier_def jo_get_def header_of_json u text_or_def)
  then have "acme_dispatch env d ?q s = (Inl (Reply 201 (Some (ae_baseUrl env @ ''/order/ord-'' @ dw_order d)) (Some (dw_nonce d))
      (AbJson (order_json env ''pending'' (nid_json nid) (''az-'' @ dw_authz d) (ae_baseUrl env @ ''/finalize/ord-'' @ dw_order d) None))), ?s)"
    by (simp add: acme_dispatch_def acme_route_def newOrder_def Let_def)
  from post_reply [OF this, of ws ds]
  have "client_newOrder env k nid (c, \<lparr>am_state = s, am_waiting = ws\<rparr>, d # ds) =
     Some (order_json env ''pending'' (nid_json nid) (''az-'' @ dw_authz d) (ae_baseUrl env @ ''/finalize/ord-'' @ dw_order d) None, (renewed c d), \<lparr>am_state = ?s, am_waiting = ws\<rparr>, ds)"
    by (simp add: client_newOrder_def assms(3,4) nid_json_def json_body_def)
  moreover have "account_ready env k ?s (renewed c d)"
    unfolding newOrder_def Let_def snd_conv by (rule account_ready_again [OF assms(1)]) simp
  moreover have "order_placed env d (nid_json nid) ''pending'' ?s" by (simp add: order_placed_def newOrder_def Let_def)
  ultimately show ?thesis by blast
qed

lemma authz_stage:
  assumes "account_ready env k s c" "honest_keys env k" "order_placed env d0 ident status s"
    and "reads env k (header_json c (ae_baseUrl env @ ''/authz/az-'' @ dw_authz d0) None)"
  shows "\<exists>authz ch s'. fetchAuthz env k (ae_baseUrl env @ ''/authz/az-'' @ dw_authz d0) (c, \<lparr>am_state = s, am_waiting = ws\<rparr>, d # ds) =
     Some (authz, (renewed c d), \<lparr>am_state = s', am_waiting = ws\<rparr>, ds) \<and> account_ready env k s' (renewed c d) \<and> order_placed env d0 ident status s' \<and>
     array_of authz ''challenges'' = Some [ch] \<and> text_of ch ''type'' = Some ''agent-01'' \<and> text_of ch ''token'' = Some (dw_token d0) \<and>
     text_of ch ''url'' = Some (ae_baseUrl env @ ''/chall/ch-'' @ dw_chall d0)"
proof -
  let ?q = "signed_request c k (ae_baseUrl env @ ''/authz/az-'' @ dw_authz d0) (''/authz/az-'' @ dw_authz d0) None"
  let ?s = "mintNonce d (after_nonce c s)"
  obtain az ch where p: "js_get (as_authzs s) (''az-'' @ dw_authz d0) = Some az" "az_challengeIds az = [''ch-'' @ dw_chall d0]"
      "js_get (as_challenges s) (''ch-'' @ dw_chall d0) = Some ch" "ch_type ch = ''agent-01''" "ch_token ch = dw_token d0"
    using assms(3) by (auto simp: order_placed_def)
  let ?ch = "challenge_json env (''ch-'' @ dw_chall d0) ch"
  let ?a = "JObj [(''status'', JStr (az_status az)), (''identifier'', az_identifier az), (''challenges'', JArr [?ch])]"
  have "acme_dispatch env d ?q s = (Inl (Reply 200 None (Some (dw_nonce d)) (AbJson ?a)), ?s)"
    using p post_routes(3) [of "''az-'' @ dw_authz d0"] assms(1,2,4)
    by (simp add: acme_dispatch_def handleAuthz_def with_account_signed authz_json_def)
  from post_reply [OF this, of ws ds]
  have "fetchAuthz env k (ae_baseUrl env @ ''/authz/az-'' @ dw_authz d0) (c, \<lparr>am_state = s, am_waiting = ws\<rparr>, d # ds) = Some (?a, (renewed c d), \<lparr>am_state = ?s, am_waiting = ws\<rparr>, ds)"
    by (simp add: fetchAuthz_def json_body_def)
  moreover have "account_ready env k ?s (renewed c d)" by (rule account_ready_again [OF assms(1)]) simp
  moreover have "order_placed env d0 ident status ?s" using assms(3) by (simp add: order_placed_def)
  ultimately show ?thesis using p
    by (intro exI [of _ ?a] exI [of _ ?ch] exI [of _ ?s]) (simp add: array_of_def text_of_def jo_get_def challenge_json_def)
qed

lemma challenge_stage:
  assumes "account_ready env k s c" "honest_keys env k" "order_placed env d0 ident ''pending'' s"
    and "array_of authz ''challenges'' = Some [ch]" "text_of ch ''type'' = Some ''agent-01''" "text_of ch ''token'' = Some (dw_token d0)"
      "text_of ch ''url'' = Some (ae_baseUrl env @ ''/chall/ch-'' @ dw_chall d0)"
    and r: "reads env k (header_json c (ae_baseUrl env @ ''/chall/ch-'' @ dw_chall d0) None)" "reads env k (JObj [(''agent_signature'', JStr (b64uEncode (kk_sign k (dw_token d0))))])"
  shows "\<exists>s'. respondAgent01 env k authz (c, \<lparr>am_state = s, am_waiting = ws\<rparr>, d # ds) = Some (renewed c d, \<lparr>am_state = s', am_waiting = ws\<rparr>, ds) \<and>
     account_ready env k s' (renewed c d) \<and> order_placed env d0 ident ''ready'' s'"
proof -
  let ?p = "JObj [(''agent_signature'', JStr (b64uEncode (kk_sign k (dw_token d0))))]"
  let ?q = "signed_request c k (ae_baseUrl env @ ''/chall/ch-'' @ dw_chall d0) (''/chall/ch-'' @ dw_chall d0) (Some ?p)"
  obtain o' az cs where p: "js_get (as_orders s) (''ord-'' @ dw_order d0) = Some o'" "ao_identifier o' = ident" "ao_authzId o' = ''az-'' @ dw_authz d0"
      "ao_finalizeUrl o' = ae_baseUrl env @ ''/finalize/ord-'' @ dw_order d0"
      "js_get (as_authzs s) (''az-'' @ dw_authz d0) = Some az" "az_challengeIds az = [''ch-'' @ dw_chall d0]"
      "js_get (as_challenges s) (''ch-'' @ dw_chall d0) = Some cs" "ch_type cs = ''agent-01''" "ch_token cs = dw_token d0" "ch_authzId cs = ''az-'' @ dw_authz d0"
    using assms(3) by (auto simp: order_placed_def)
  let ?t = "challenge_passed (''ch-'' @ dw_chall d0) cs (after_nonce c s)"
  obtain u jwk where a: "cl_accountUrl c = Some u" "js_get (as_accountJwks s) u = Some jwk" "publicKeyFromJwk jwk = Some (kk_publicKey k)"
    using assms(1) by (auto simp: account_ready_def)
  have sg: "agent_signature (Some ?p) = Some (b64uEncode (kk_sign k (dw_token d0)))" "ae_edVerify env (kk_sign k (dw_token d0)) (dw_token d0) (kk_publicKey k) = Some True"
    using assms(2) b64u_nonempty by (auto simp: agent_signature_def text_of_def jo_get_def honest_keys_def)
  have "handleChallenge env d ?q (''ch-'' @ dw_chall d0) s =
      (Reply 200 None (Some (dw_nonce d)) (AbJson (challenge_json env (''ch-'' @ dw_chall d0) (cs\<lparr>ch_status := ''valid''\<rparr>))), mintNonce d ?t)"
    using p(7,9) a sg signed_verifies [OF r(1) assms(2), of "Some ?p"]
    by (simp add: handleChallenge_def signed_reads [OF r(1)] account_consumes [OF assms(1), unfolded header_of_json] header_of_json text_or_def signed_payload(2) [OF r(2)] del: append.simps append_Cons)
  then have "acme_dispatch env d ?q s = (Inl (Reply 200 None (Some (dw_nonce d)) (AbJson (challenge_json env (''ch-'' @ dw_chall d0) (cs\<lparr>ch_status := ''valid''\<rparr>)))), mintNonce d ?t)"
    using post_routes(4) [of "''ch-'' @ dw_chall d0"] by (simp add: acme_dispatch_def)
  from post_reply [OF this, of ws ds]
  have "respondAgent01 env k authz (c, \<lparr>am_state = s, am_waiting = ws\<rparr>, d # ds) = Some (renewed c d, \<lparr>am_state = mintNonce d ?t, am_waiting = ws\<rparr>, ds)"
    using assms(4-7) by (simp add: respondAgent01_def)
  moreover have "account_ready env k (mintNonce d ?t) (renewed c d)"
    by (rule account_ready_again [OF assms(1)]) (simp add: challenge_passed_def Let_def set_challenge_status_def)
  moreover have "order_placed env d0 ident ''ready'' (mintNonce d ?t)"
    using p by (simp add: order_placed_def challenge_passed_def Let_def js_get_map_prod ready_order_def set_challenge_status_def)
  ultimately show ?thesis by blast
qed

definition flow_leaf :: "acme_env \<Rightarrow> acme_keys \<Rightarrow> string \<Rightarrow> acme_draw \<Rightarrow> IssueLeafOptions" where
  "flow_leaf env k nid d = \<lparr>il_subjectNid = nid, il_subjectPublicKey = ae_csrKey env (buildCsr k nid), il_issuerNid = ae_caNid env, il_role = RoleAgent,
     il_assuranceLevel = ANONYMOUS, il_notBefore = dw_now d - 60000, il_notAfter = dw_now d + ae_certValidityMs env, il_serialNumber = dw_serial d\<rparr>"

lemma finalize_end_issues:
  assumes "ae_generate env (issueLeaf (leaf_options env d f)) = Some leaf"
  shows "\<exists>t. finalize_end env d f s = (Reply 200 None (Some (dw_nonce d))
       (AbJson (order_json env ''valid'' (fz_identifier f) (fz_authzId f) (fz_finalizeUrl f) (Some (ae_baseUrl env @ ''/cert/crt-'' @ dw_cert d)))), mintNonce d t) \<and>
     as_accountJwks t = as_accountJwks s \<and> js_get (as_certs t) (''crt-'' @ dw_cert d) = Some (leaf @ ae_caRootCert env)"
  using assms by (simp add: finalize_end_def Let_def) (rule exI, rule conjI, rule refl, simp)

lemma post_finalized:
  assumes "acme_dispatch env d \<lparr>aq_method = ''POST'', aq_url = path, aq_body = Some (jws_sign k (header_json c (ae_baseUrl env @ path) jwk) payload)\<rparr> s = (Inr f, s1)"
    and "finalize_end env d' f s1 = (Reply 200 loc (Some (dw_nonce d')) b, s2)"
  shows "acme_post env k (ae_baseUrl env @ path) jwk payload (c, \<lparr>am_state = s, am_waiting = ws\<rparr>, d # d' # ds) =
      Some ((200, loc, Some (dw_nonce d'), b), renewed c d', \<lparr>am_state = s2, am_waiting = ws\<rparr>, ds)"
  using assms by (simp add: acme_post_def acme_http_def response_of_def ensureSuccess_def captureNonce_def resp_nonce_def)

lemma finalize_stage:
  assumes "account_ready env k s c" "honest_keys env k" "order_placed env d0 (nid_json nid) ''ready'' s" "plain_nid nid"
    and "text_of order ''finalize'' = Some (ae_baseUrl env @ ''/finalize/ord-'' @ dw_order d0)"
    and r: "reads env k (header_json c (ae_baseUrl env @ ''/finalize/ord-'' @ dw_order d0) None)" "reads env k (JObj [(''csr'', JStr (b64uEncode (buildCsr k nid)))])"
    and g: "ae_generate env (issueLeaf (flow_leaf env k nid d')) = Some leaf"
  shows "\<exists>s' done'. finalizeOrder env k order nid (c, \<lparr>am_state = s, am_waiting = ws\<rparr>, d # d' # ds) = Some (done', renewed c d', \<lparr>am_state = s', am_waiting = ws\<rparr>, ds) \<and>
     account_ready env k s' (renewed c d') \<and> js_get (as_certs s') (''crt-'' @ dw_cert d') = Some (leaf @ ae_caRootCert env) \<and>
     text_of done' ''certificate'' = Some (ae_baseUrl env @ ''/cert/crt-'' @ dw_cert d')"
proof -
  let ?p = "JObj [(''csr'', JStr (b64uEncode (buildCsr k nid)))]"
  let ?q = "signed_request c k (ae_baseUrl env @ ''/finalize/ord-'' @ dw_order d0) (''/finalize/ord-'' @ dw_order d0) (Some ?p)"
  let ?f = "\<lparr>fz_orderId = ''ord-'' @ dw_order d0, fz_nid = nid, fz_identifier = nid_json nid, fz_authzId = ''az-'' @ dw_authz d0,
     fz_finalizeUrl = ae_baseUrl env @ ''/finalize/ord-'' @ dw_order d0, fz_key = ae_csrKey env (buildCsr k nid)\<rparr>"
  obtain o' where p: "js_get (as_orders s) (''ord-'' @ dw_order d0) = Some o'" "ao_identifier o' = nid_json nid" "ao_status o' = ''ready''" "ao_authzId o' = ''az-'' @ dw_authz d0"
      "ao_finalizeUrl o' = ae_baseUrl env @ ''/finalize/ord-'' @ dw_order d0"
    using assms(3) by (auto simp: order_placed_def)
  have csr: "buildCsr k nid \<noteq> []" "ae_csrSubject env (buildCsr k nid) = Some (''CN='' @ escapeDn nid)" using assms(2) by (auto simp: honest_keys_def buildCsr_def)
  have "check_csr env (''ord-'' @ dw_order d0) o' (b64uEncode (buildCsr k nid)) = Inr ?f"
    using p csr subject_reads_back(2) [OF assms(4)] by (simp add: check_csr_def nid_json_def text_of_def jo_get_def)
  then have "finalize_order env (signed_envelope k (header_json c (ae_baseUrl env @ ''/finalize/ord-'' @ dw_order d0) None) (Some ?p)) (''ord-'' @ dw_order d0) (after_nonce c s) = Inr ?f"
    using p b64u_nonempty [OF csr(1)] by (simp add: finalize_order_def signed_payload(2) [OF r(2)] text_of_def jo_get_def)
  then have "handleFinalize env ?q (''ord-'' @ dw_order d0) s = (Inr ?f, after_nonce c s)"
    by (simp add: handleFinalize_def signed_reads [OF r(1)] account_consumes [OF assms(1)] account_verified [OF assms(1,2) r(1)] del: append.simps append_Cons)
  then have disp: "acme_dispatch env d ?q s = (Inr ?f, after_nonce c s)"
    using post_routes(5) [of "''ord-'' @ dw_order d0"] by (simp add: acme_dispatch_def)
  let ?fin = "order_json env ''valid'' (nid_json nid) (''az-'' @ dw_authz d0) (ae_baseUrl env @ ''/finalize/ord-'' @ dw_order d0) (Some (ae_baseUrl env @ ''/cert/crt-'' @ dw_cert d'))"
  have "ae_generate env (issueLeaf (leaf_options env d' ?f)) = Some leaf" using g by (simp add: leaf_options_def flow_leaf_def)
  from finalize_end_issues [OF this, of "after_nonce c s"]
  obtain s2 where e: "finalize_end env d' ?f (after_nonce c s) = (Reply 200 None (Some (dw_nonce d')) (AbJson ?fin), mintNonce d' s2)"
      "as_accountJwks s2 = as_accountJwks s" "js_get (as_certs s2) (''crt-'' @ dw_cert d') = Some (leaf @ ae_caRootCert env)" by auto
  have "finalizeOrder env k order nid (c, \<lparr>am_state = s, am_waiting = ws\<rparr>, d # d' # ds) = Some (?fin, renewed c d', \<lparr>am_state = mintNonce d' s2, am_waiting = ws\<rparr>, ds)"
    using post_finalized [OF disp e(1), of ws ds] by (simp add: finalizeOrder_def assms(5) json_body_def)
  moreover have "account_ready env k (mintNonce d' s2) (renewed c d')" by (rule account_ready_again [OF assms(1) e(2)])
  moreover have "text_of ?fin ''certificate'' = Some (ae_baseUrl env @ ''/cert/crt-'' @ dw_cert d')" by (simp add: order_json_def text_of_def jo_get_def)
  ultimately show ?thesis using e(3) by (intro exI [of _ "mintNonce d' s2"] exI [of _ ?fin]) simp
qed

lemma download_stage:
  assumes "account_ready env k s c" "honest_keys env k" "js_get (as_certs s) (''crt-'' @ x) = Some pem" "pem \<noteq> []"
    and r: "reads env k (header_json c (ae_baseUrl env @ ''/cert/crt-'' @ x) None)"
  shows "\<exists>s'. downloadPem env k (ae_baseUrl env @ ''/cert/crt-'' @ x) (c, \<lparr>am_state = s, am_waiting = ws\<rparr>, d # ds) = Some (pem, renewed c d, \<lparr>am_state = s', am_waiting = ws\<rparr>, ds)"
proof -
  let ?q = "signed_request c k (ae_baseUrl env @ ''/cert/crt-'' @ x) (''/cert/crt-'' @ x) None"
  have "acme_dispatch env d ?q s = (Inl (Reply 200 None (Some (dw_nonce d)) (AbPem pem)), mintNonce d (after_nonce c s))"
    using assms post_routes(6) [of "''crt-'' @ x"] by (simp add: acme_dispatch_def handleCert_def with_account_signed)
  from post_reply [OF this, of ws ds] show ?thesis by (simp add: downloadPem_def)
qed

text \<open>The documents the client writes.\<close>

definition flow_client :: "acme_env \<Rightarrow> acme_draw list \<Rightarrow> nat \<Rightarrow> acme_client" where
  "flow_client env ds i = \<lparr>cl_directory = None, cl_accountUrl = Some (ae_baseUrl env @ ''/account/acc-'' @ dw_account (ds ! 2)), cl_lastNonce = Some (dw_nonce (ds ! i))\<rparr>"

definition flow_headers :: "acme_env \<Rightarrow> acme_draw list \<Rightarrow> jsval \<Rightarrow> jsval list" where
  "flow_headers env ds jwk = (let b = ae_baseUrl env in
     [header_json (flow_client env ds 1) (b @ ''/new-account'') (Some jwk), header_json (flow_client env ds 2) (b @ ''/new-order'') None,
      header_json (flow_client env ds 3) (b @ ''/authz/az-'' @ dw_authz (ds ! 3)) None, header_json (flow_client env ds 4) (b @ ''/chall/ch-'' @ dw_chall (ds ! 3)) None,
      header_json (flow_client env ds 5) (b @ ''/finalize/ord-'' @ dw_order (ds ! 3)) None, header_json (flow_client env ds 7) (b @ ''/cert/crt-'' @ dw_cert (ds ! 7)) None])"

definition flow_payloads :: "acme_keys \<Rightarrow> string \<Rightarrow> acme_draw list \<Rightarrow> jsval list" where
  "flow_payloads k nid ds = [JObj [(''identifiers'', JArr [nid_json nid])], JObj [(''agent_signature'', JStr (b64uEncode (kk_sign k (dw_token (ds ! 3)))))],
     JObj [(''csr'', JStr (b64uEncode (buildCsr k nid)))]]"

definition flow_documents :: "acme_env \<Rightarrow> acme_keys \<Rightarrow> string \<Rightarrow> acme_draw list \<Rightarrow> jsval list" where
  "flow_documents env k nid ds = (case jwkFromPublicKey (kk_publicKey k) of None \<Rightarrow> [] | Some j \<Rightarrow> flow_headers env ds j) @ flow_payloads k nid ds"

lemma header_json_cong:
  "cl_lastNonce c = cl_lastNonce c2 \<Longrightarrow> header_json c url (Some j) = header_json c2 url (Some j)"
  "cl_lastNonce c = cl_lastNonce c2 \<Longrightarrow> cl_accountUrl c = cl_accountUrl c2 \<Longrightarrow> header_json c url None = header_json c2 url None"
  by (simp_all add: header_json_def)

definition fresh_client :: acme_client where
  "fresh_client = \<lparr>cl_directory = None, cl_accountUrl = None, cl_lastNonce = None\<rparr>"

lemma certificate_stages:
  assumes "account_ready env k s c" "honest_keys env k" "plain_nid nid" "order_placed env d3 (nid_json nid) ''pending'' s" "leaf \<noteq> []"
    and g: "ae_generate env (issueLeaf (flow_leaf env k nid d7)) = Some leaf"
    and h: "reads env k (header_json c (ae_baseUrl env @ ''/authz/az-'' @ dw_authz d3) None)" "reads env k (header_json (renewed c d4) (ae_baseUrl env @ ''/chall/ch-'' @ dw_chall d3) None)"
      "reads env k (header_json (renewed c d5) (ae_baseUrl env @ ''/finalize/ord-'' @ dw_order d3) None)" "reads env k (header_json (renewed c d7) (ae_baseUrl env @ ''/cert/crt-'' @ dw_cert d7) None)"
    and p: "reads env k (JObj [(''agent_signature'', JStr (b64uEncode (kk_sign k (dw_token d3))))])" "reads env k (JObj [(''csr'', JStr (b64uEncode (buildCsr k nid)))])"
    and order: "text_of order ''finalize'' = Some (ae_baseUrl env @ ''/finalize/ord-'' @ dw_order d3)"
  shows "\<exists>c' m'. do {
       (authz, cw) \<leftarrow> fetchAuthz env k (ae_baseUrl env @ ''/authz/az-'' @ dw_authz d3) (c, \<lparr>am_state = s, am_waiting = ws\<rparr>, [d4, d5, d6, d7, d8]);
       cw \<leftarrow> respondAgent01 env k authz cw;
       (finalized, cw) \<leftarrow> finalizeOrder env k order nid cw;
       certUrl \<leftarrow> text_of finalized ''certificate'';
       downloadPem env k certUrl cw } = Some (leaf @ ae_caRootCert env, c', m', [])"
proof -
  obtain authz ch s4 where 4: "fetchAuthz env k (ae_baseUrl env @ ''/authz/az-'' @ dw_authz d3) (c, \<lparr>am_state = s, am_waiting = ws\<rparr>, [d4, d5, d6, d7, d8]) =
        Some (authz, renewed c d4, \<lparr>am_state = s4, am_waiting = ws\<rparr>, [d5, d6, d7, d8])"
      "account_ready env k s4 (renewed c d4)" "order_placed env d3 (nid_json nid) ''pending'' s4"
      and ch: "array_of authz ''challenges'' = Some [ch]" "text_of ch ''type'' = Some ''agent-01''" "text_of ch ''token'' = Some (dw_token d3)"
        "text_of ch ''url'' = Some (ae_baseUrl env @ ''/chall/ch-'' @ dw_chall d3)"
    using authz_stage [OF assms(1,2,4) h(1), of ws d4 "[d5, d6, d7, d8]"] by blast
  obtain s5 where 5: "respondAgent01 env k authz (renewed c d4, \<lparr>am_state = s4, am_waiting = ws\<rparr>, [d5, d6, d7, d8]) = Some (renewed c d5, \<lparr>am_state = s5, am_waiting = ws\<rparr>, [d6, d7, d8])"
      "account_ready env k s5 (renewed c d5)" "order_placed env d3 (nid_json nid) ''ready'' s5"
    using challenge_stage [OF 4(2) assms(2) 4(3) ch h(2) p(1), of ws d5 "[d6, d7, d8]"] by auto
  obtain s6 fin where 6: "finalizeOrder env k order nid (renewed c d5, \<lparr>am_state = s5, am_waiting = ws\<rparr>, [d6, d7, d8]) = Some (fin, renewed c d7, \<lparr>am_state = s6, am_waiting = ws\<rparr>, [d8])"
      "account_ready env k s6 (renewed c d7)" "js_get (as_certs s6) (''crt-'' @ dw_cert d7) = Some (leaf @ ae_caRootCert env)"
      "text_of fin ''certificate'' = Some (ae_baseUrl env @ ''/cert/crt-'' @ dw_cert d7)"
    using finalize_stage [OF 5(2) assms(2) 5(3) assms(3) order h(3) p(2) g, of ws d6 "[d8]"] by auto
  obtain s8 where 8: "downloadPem env k (ae_baseUrl env @ ''/cert/crt-'' @ dw_cert d7) (renewed c d7, \<lparr>am_state = s6, am_waiting = ws\<rparr>, [d8]) =
      Some (leaf @ ae_caRootCert env, renewed (renewed c d7) d8, \<lparr>am_state = s8, am_waiting = ws\<rparr>, [])"
    using download_stage [OF 6(2) assms(2) 6(3) _ h(4), of ws d8 "[]"] assms(5) by auto
  show ?thesis using 4(1) 5(1) 6(1,4) 8 by (simp only: bind.simps Option.bind.simps prod.case) blast
qed


section \<open>A run\<close>

definition demo_draw :: "string \<Rightarrow> acme_draw" where
  "demo_draw x = \<lparr>dw_now = 0, dw_account = x, dw_order = x, dw_authz = x, dw_chall = x, dw_token = ''t'' @ x, dw_nonce = ''n'' @ x, dw_cert = x, dw_serial = x\<rparr>"

definition demo_draws :: "acme_draw list" where
  "demo_draws = map demo_draw [''0'', ''1'', ''2'', ''3'', ''4'', ''5'', ''6'', ''7'', ''8'']"

definition demo_acme :: "jsval list \<Rightarrow> acme_env" where
  "demo_acme docs = \<lparr>ae_baseUrl = ''http://a'', ae_caNid = ''ca'', ae_caRootCert = ''R'', ae_certValidityMs = 1000,
     ae_jsonParse = (\<lambda>t. if t = [] \<or> length docs < length t then None else Some (docs ! (length t - 1))),
     ae_edVerify = (\<lambda>sg msg pub. Some (sg = ''s'' @ msg)), ae_csrSubject = (\<lambda>der. Some (tl der)), ae_csrKey = (\<lambda>der. ''key''), ae_generate = (\<lambda>t. Some ''L'')\<rparr>"

definition demo_keys :: "jsval list \<Rightarrow> acme_keys" where
  "demo_keys docs = \<lparr>kk_publicKey = replicate 32 (CHR ''p''), kk_sign = (\<lambda>msg. ''s'' @ msg), kk_csr = (\<lambda>t. ''c'' @ ct_name t),
     kk_jsonText = (\<lambda>v. replicate (Suc (length (takeWhile (\<lambda>w. w \<noteq> v) docs))) (CHR ''x''))\<rparr>"

definition demo_documents :: "jsval list" where
  "demo_documents = flow_documents (demo_acme []) (demo_keys []) ''urn:nps:agent:a:1'' demo_draws"

lemma flow_headers_cong: "ae_baseUrl env = ae_baseUrl env2 \<Longrightarrow> flow_headers env ds = flow_headers env2 ds"
  by (rule ext) (simp add: flow_headers_def flow_client_def Let_def)

lemma demo_documents_eq: "flow_documents (demo_acme docs) (demo_keys docs) ''urn:nps:agent:a:1'' demo_draws = demo_documents"
proof -
  have "flow_headers (demo_acme docs) demo_draws = flow_headers (demo_acme []) demo_draws" by (rule flow_headers_cong) (simp add: demo_acme_def)
  then show ?thesis by (simp add: demo_documents_def flow_documents_def flow_payloads_def buildCsr_def demo_keys_def split: option.split)
qed

lemma demo_reads: "v \<in> set docs \<Longrightarrow> reads (demo_acme docs) (demo_keys docs) v"
proof -
  assume v: "v \<in> set docs"
  have l: "length (takeWhile (\<lambda>w. w \<noteq> v) docs) < length docs" using v by (induction docs) auto
  then have "docs ! length (takeWhile (\<lambda>w. w \<noteq> v) docs) = v" using nth_length_takeWhile [of "\<lambda>w. w \<noteq> v" docs] by simp
  then show ?thesis using l by (simp add: reads_def demo_acme_def demo_keys_def del: replicate_Suc)
qed

lemma demo_honest: "honest_keys (demo_acme docs) (demo_keys docs)"
  by (simp add: honest_keys_def demo_acme_def demo_keys_def)


text \<open>The key of the certificate is whatever the request names: it is not compared with the account's key, and the request's own signature is not verified.\<close>

lemma csr_key_unchecked:
  assumes "ae_csrSubject env der = Some (''CN='' @ escapeDn nid)" "plain_nid nid" "text_of (ao_identifier o') ''value'' = Some nid"
  shows "\<exists>f. check_csr env i o' (b64uEncode der) = Inr f \<and> fz_nid f = nid \<and> fz_key f = ae_csrKey env der"
proof -
  have "ao_identifier o' \<noteq> JNull" using assms(3) by (auto simp: text_of_def)
  then show ?thesis using assms(1,3) subject_reads_back(2) [OF assms(2)] by (simp add: check_csr_def)
qed

end
