(* ===== verification/Spec2Isabelle.thy ===== *)
theory Spec2Isabelle
  imports FrameCodec FrameReader AnchorCache NcpStream NcpSession NdpProfile NdpRegistry NopRuntime NopPolicy
    ClusterOwnership NwpTaskStore NwpContextStore NipCa NopCondition NipRa NipIdentity NopOrchestrator
    NwpMemoryServer NwpPortable NwpAnchorServer NwpFrames NipFrames NwpNative NwpComplexServer
    NipCaRouter NwpLlmServer NipAcme
begin

text \<open>
  A verification library for the TypeScript SDK of the NPS protocol suite. The sources are under
  \<open>src/src\<close>; the paths below are relative to it.

  \<^bold>\<open>The program.\<close> The SDK has five protocol layers over a shared core. The core frames bytes
  (\<open>core/\<close>); NCP moves frames over sockets, negotiates sessions and multiplexes streams (\<open>ncp/\<close>); NDP
  keeps announced nodes and resolves clusters (\<open>ndp/\<close>); NIP issues and revokes identities (\<open>nip/\<close>); NWP
  serves actions, tasks and LLM contexts (\<open>nwp/\<close>); NOP validates and runs task graphs, delegating nodes
  to cluster leaders that NDP resolves (\<open>nop/\<close>).

  \<^bold>\<open>The theories.\<close>
  \<^item> \<open>Prelude\<close>: bytes, JavaScript maps as association lists, JavaScript strings and numbers as the
    code uses them, and the lemmas every component shares. \<open>NpsErrors\<close>: the exceptions as values.
    \<open>JsonVal\<close>: JSON values. \<open>JsonText\<close>: \<open>JSON.stringify\<close>, also with a list of names.
  \<^item> \<open>Contracts\<close>: the interfaces, as locales over a step function: a machine with an
    invariant, a machine with a measure that never decreases, a machine with final marks, a store
    whose entries expire. Every component with such a promise interprets the locale on its own steps.
  \<^item> \<open>FrameHeader\<close> (\<open>core/frame-header.ts\<close>, the header of \<open>core/frames.ts\<close>), \<open>FrameCodec\<close>
    (\<open>core/codec.ts\<close>, \<open>core/codecs/ncp-codec.ts\<close>, \<open>core/frame-registry.ts\<close>): byte layouts, flags, size
    limits and their round trips. \<open>FrameReader\<close> (\<open>ncp/socket-frame-reader.ts\<close>): reassembly of frames from
    socket chunks.
  \<^item> \<open>AnchorCache\<close> (\<open>core/anchor-cache.ts\<close>, \<open>core/cache.ts\<close>): capacity, eviction, poisoning, expiry.
  \<^item> \<open>NcpStream\<close> (\<open>ncp/stream-manager.ts\<close>): inbound streams refine a reference automaton; send windows.
  \<^item> \<open>NcpHandshake\<close> (\<open>ncp/handshake.ts\<close>, \<open>ncp/handshake-profile.ts\<close>, \<open>ncp/encoding-policy.ts\<close>,
    \<open>ncp/preamble.ts\<close>) and \<open>NcpSession\<close> (\<open>ncp/server.ts\<close>, \<open>ncp/session.ts\<close>, \<open>ncp/native-client.ts\<close>,
    \<open>ncp/failover-connector.ts\<close>): what is negotiated, who is admitted, what a session delivers.
  \<^item> \<open>NdpRegistry\<close> (\<open>ndp/ndp-registry.ts\<close>, \<open>ndp/cluster.ts\<close>, \<open>ndp/federation.ts\<close>) and \<open>NdpProfile\<close>
    (\<open>ndp/registry-profile.ts\<close>).
  \<^item> \<open>NopDag\<close> (\<open>nop/dag-validator.ts\<close> and the topology of \<open>nop/portable-profile.ts\<close>), \<open>NopRuntime\<close>
    (orchestration, retries, compensation of \<open>nop/portable-profile.ts\<close>, \<open>nop/input-mapper.ts\<close>,
    \<open>nop/result-aggregator.ts\<close>) and \<open>NopPolicy\<close> (leases, delegation, spawn and terminal events of
    \<open>nop/portable-profile.ts\<close>).
  \<^item> \<open>NopCondition\<close> (\<open>nop/condition-evaluator.ts\<close>): lexer and recursive-descent evaluator, sound and complete
    for an inductive grammar with values.
  \<^item> \<open>NopWorker\<close>, \<open>NopScheduler\<close> and \<open>NopOrchestrator\<close> (\<open>nop/orchestrator.ts\<close>, \<open>nop/callback-validator.ts\<close>,
    \<open>buildParams\<close> of \<open>nop/input-mapper.ts\<close>): one node with its retries, stream and compensation; the loop
    that runs a task graph, over every order in which nodes settle; the guards, the task store and the verdict.
    The scheduler interprets the final-marks contract on its loop.
  \<^item> \<open>ClusterOwnership\<close> (\<open>nwp/anchor-epoch.ts\<close>, \<open>nop/cluster-delegation.ts\<close>): fencing of a deposed
    anchor and the resolver's view of the leader.
  \<^item> \<open>NwpTaskStore\<close> (\<open>nwp/action-task-store.ts\<close>) and \<open>NwpContextStore\<close> (\<open>nwp/context-store.ts\<close>).
  \<^item> \<open>NwpUrlGuard\<close> (\<open>nwp/callback-validator.ts\<close>): which callback and child URLs a node follows.
  \<^item> \<open>NwpActionServer\<close> (\<open>nwp/action-server.ts\<close>, over \<open>NcpFrames\<close> for the stream frame of \<open>ncp/frames.ts\<close>): the
    Action Node as a machine of requests, provider answers and background tasks; ownership and finality of tasks, idempotent replay, stream
    responses. It interprets the final-marks contract twice, for outcomes and for owners.
  \<^item> \<open>NwpQuery\<close> (\<open>nwp/query/filter-translator.ts\<close>, \<open>nwp/query/sql-schema.ts\<close>) and \<open>NwpSql\<close>
    (\<open>nwp/query/sql-query-builder.ts\<close>, \<open>nwp/query/sql-memory-node-provider.ts\<close>, over \<open>Base64\<close>): filters become clauses of a small
    language with a meaning over an abstract database; cursors read back; streaming delivers every row.
  \<^item> \<open>NwpMemoryServer\<close> (\<open>nwp/memory-server.ts\<close>): the Memory Node with its in-memory filter language, which agrees with the
    translation to SQL; order, pages, budgets and streams.
  \<^item> \<open>NwpReputation\<close> (\<open>nwp/reputation.ts\<close>): rules, bans and the log cache over every interleaving of evaluations. \<open>NwpMemoryNode\<close>
    (\<open>nwp/memory-node-server.ts\<close>, \<open>nwp/cgn.ts\<close>): the second Memory Node server behind that gate. \<open>NwpPortable\<close>
    (\<open>nwp/portable-profile.ts\<close>): which requests are dispatched, over either transport, and the bridge preflight.
  \<^item> \<open>NwpTopology\<close> (\<open>nwp/anchor-client.ts\<close> and the parsers and encoders of \<open>nwp/anchor-server.ts\<close>): the topology protocol from both
    ends. \<open>NwpAnchorServer\<close> (\<open>nwp/anchor-server.ts\<close>): the Anchor Node as a machine of interleaved requests around the shared epoch fence
    of \<open>ClusterOwnership\<close>; its fence is shown to be the fence machine, so the fence's theorems carry over to requests.
  \<^item> \<open>NwpNative\<close> (\<open>nwp/native-server.ts\<close>): dispatch of frames and the loop over chunks; where the chunks are cut does not matter
    except inside an extended header. \<open>NwpComplexServer\<close> (\<open>nwp/complex-server.ts\<close>): a Complex Node and a network of them; a query
    is passed on a bounded number of times, without returning to a node.
  \<^item> \<open>NwpLlm\<close> (\<open>nwp/llm.ts\<close>), \<open>NwpStatus\<close> (\<open>core/status-codes.ts\<close>, \<open>nwp/nwp-error-codes.ts\<close>) and \<open>NwpLlmServer\<close>
    (\<open>nwp/llm-action-server.ts\<close>): the LLM actions, their completions as stages over the context store of \<open>NwpContextStore\<close>;
    the reservations of the store are those of the completions in progress.
  \<^item> \<open>NipCa\<close> (\<open>nip/ca/store.ts\<close>, \<open>nip/ca/service.ts\<close>) and \<open>NipRa\<close> (\<open>nip/ca/ra/policy.ts\<close>): what the
    authority issues, renews and revokes, and who may register. \<open>NipCaRouter\<close> (\<open>nip/ca/router.ts\<close>, \<open>nip/ca/group-jws.ts\<close>):
    the HTTP routes over both, which refine the authority and change it only for the operator or a signing group.
  \<^item> \<open>NipDer\<close> (\<open>nip/x509/der.ts\<close>), \<open>NipVerify\<close> (\<open>nip/verifier.ts\<close>, \<open>nip/x509/verifier.ts\<close>,
    \<open>nip/phase3-enforcer.ts\<close>, \<open>nip/revocation-policy.ts\<close>, \<open>nip/trust-frame-validator.ts\<close>) and \<open>NipIdentity\<close>,
    the properties of identity verification.
  \<^item> \<open>NipAcme\<close> (\<open>nip/acme/server.ts\<close>, \<open>nip/acme/client.ts\<close>, \<open>nip/acme/jws.ts\<close>, \<open>nip/x509/builder.ts\<close>): the ACME server as a
    machine of requests, the client's flow against it, and the issued certificates before the verifier of \<open>NipVerify\<close>.
  \<^item> \<open>WireFrames\<close> (\<open>ncp/frames.ts\<close>, \<open>ndp/frames.ts\<close>, \<open>nop/frames.ts\<close>), \<open>NwpFrames\<close> (\<open>nwp/frames.ts\<close>) and \<open>NipFrames\<close>
    (\<open>nip/frames.ts\<close>): the frames of the protocols as records, their dictionaries, and that reading a written dictionary
    gives the frame back; which dictionaries are refused; what a signed announcement covers.

  \<^bold>\<open>How the code is read.\<close> Bytes are \<open>8 word\<close>; sizes and counters are \<open>nat\<close> or \<open>int\<close>, bounded where the
  code bounds them; a number that can be \<open>NaN\<close> is an option. A \<open>Map\<close> is an association list in insertion
  order. A class is a record, a method a function from the record to the thrown error or the result
  with the new record. An asynchronous method that touches the state only between two awaits is one
  step; where it touches it on both sides of an await it is two steps, and the theorems range over every
  interleaving. Clocks, random identifiers, hashes, signatures and payload codecs are arguments.

  \<^bold>\<open>Bounds and termination.\<close> Every function is total. Loops over finite data recurse on it; the
  retry, Kahn, reader, parser and search loops have a measure that the source's own guards decrease. The
  DAG loop is a step function on events; that it ends after as many completions as there are nodes is a theorem. The pages
  of a SQL query are streamed with fuel; running out of it is \<open>None\<close>, and one unit more than there are rows is proved enough.
  A request to a network of Complex Nodes has fuel too: six is proved enough, since five is the greatest depth.

  \<^bold>\<open>Not modelled.\<close> Sockets, TLS, HTTP, timers, SQLite, DNS, telemetry and logging; cryptography; the
  MessagePack and JSON text codecs; the command-line and conformance
  runners.
\<close>

end
